(* ===== verification/Rust_Prelude.thy ===== *)
theory Rust_Prelude
  imports Main "HOL-Library.Word" "HOL-Library.List_Lexorder" "HOL-Library.Char_ord"
begin

text \<open>
  What the components share: the outcome of Rust code that may panic, the string operations of
  the standard library that the sources call, and generic facts on lists, maps and words.
  A Rust \<open>String\<close> or \<open>&str\<close> is a \<open>string\<close>, the list of its bytes; its order is the byte-wise
  lexicographic one, which is the order of \<open>List_Lexorder\<close> over \<open>Char_ord\<close>.
  A \<open>Result\<close> is a sum with the error on the left.
\<close>

section \<open>Outcomes\<close>

text \<open>Code that returns a value or unwinds with a panic message.\<close>

datatype 'a outcome = Val 'a | Panic string

fun bind_outcome :: "'a outcome \<Rightarrow> ('a \<Rightarrow> 'b outcome) \<Rightarrow> 'b outcome" where
  "bind_outcome (Val v) f = f v"
| "bind_outcome (Panic m) f = Panic m"

text \<open>The question-mark operator on a result.\<close>

fun bind_result :: "'e + 'a \<Rightarrow> ('a \<Rightarrow> 'e + 'b) \<Rightarrow> 'e + 'b" where
  "bind_result (Inl e) f = Inl e"
| "bind_result (Inr x) f = f x"

lemma bind_assoc: "bind_result (bind_result x f) g = bind_result x (\<lambda>y. bind_result (f y) g)"
  by (cases x) simp_all

type_synonym u32 = "32 word"
type_synonym u64 = "64 word"

section \<open>Strings\<close>

text \<open>\<open>str::starts_with\<close>, \<open>str::ends_with\<close> and \<open>str::contains\<close> on a character.\<close>

fun starts_with :: "string \<Rightarrow> string \<Rightarrow> bool" where
  "starts_with s [] = True"
| "starts_with [] (p # ps) = False"
| "starts_with (c # s) (p # ps) = (c = p \<and> starts_with s ps)"

definition ends_with :: "string \<Rightarrow> string \<Rightarrow> bool" where
  "ends_with s p = starts_with (rev s) (rev p)"

definition contains_char :: "string \<Rightarrow> char \<Rightarrow> bool" where
  "contains_char s c = (c \<in> set s)"

text \<open>\<open>str::contains\<close> on a string.\<close>

fun contains_str :: "string \<Rightarrow> string \<Rightarrow> bool" where
  "contains_str [] p = starts_with [] p"
| "contains_str (c # s) p = (starts_with (c # s) p \<or> contains_str s p)"

text \<open>\<open>u8::is_ascii_lowercase\<close> and its siblings, and \<open>eq_ignore_ascii_case\<close>, on bytes.\<close>

definition is_ascii_lowercase :: "char \<Rightarrow> bool" where
  "is_ascii_lowercase c = (97 \<le> (of_char c :: nat) \<and> (of_char c :: nat) \<le> 122)"

definition is_ascii_uppercase :: "char \<Rightarrow> bool" where
  "is_ascii_uppercase c = (65 \<le> (of_char c :: nat) \<and> (of_char c :: nat) \<le> 90)"

definition is_ascii_digit :: "char \<Rightarrow> bool" where
  "is_ascii_digit c = (48 \<le> (of_char c :: nat) \<and> (of_char c :: nat) \<le> 57)"

definition ascii_lower :: "char \<Rightarrow> char" where
  "ascii_lower c = (if is_ascii_uppercase c then char_of ((of_char c :: nat) + 32) else c)"

definition eq_ignore_ascii_case :: "string \<Rightarrow> string \<Rightarrow> bool" where
  "eq_ignore_ascii_case a b = (map ascii_lower a = map ascii_lower b)"

text \<open>\<open>str::strip_prefix\<close>: the rest of the string after the prefix, when it has it.\<close>

definition strip_prefix :: "string \<Rightarrow> string \<Rightarrow> string option" where
  "strip_prefix s p = (if starts_with s p then Some (drop (length p) s) else None)"

text \<open>
  \<open>str::rsplit_once(c)\<close>: the parts before and after the last occurrence of \<open>c\<close>, and
  \<open>str::rsplit(c).next()\<close>: the part after the last occurrence, the whole string if there is none.
\<close>

definition rsplit_once :: "string \<Rightarrow> char \<Rightarrow> (string \<times> string) option" where
  "rsplit_once s c =
     (if c \<in> set s
      then Some (rev (tl (dropWhile (\<lambda>x. x \<noteq> c) (rev s))), rev (takeWhile (\<lambda>x. x \<noteq> c) (rev s)))
      else None)"

definition rsplit_next :: "string \<Rightarrow> char \<Rightarrow> string" where
  "rsplit_next s c = rev (takeWhile (\<lambda>x. x \<noteq> c) (rev s))"

text \<open>\<open>str::split_once(c)\<close>: the parts before and after the first occurrence.\<close>

definition split_once :: "string \<Rightarrow> char \<Rightarrow> (string \<times> string) option" where
  "split_once s c =
     (if c \<in> set s then Some (takeWhile (\<lambda>x. x \<noteq> c) s, tl (dropWhile (\<lambda>x. x \<noteq> c) s)) else None)"

text \<open>The decimal digits of a number, as \<open>format!("{}", n)\<close> prints it.\<close>

fun show_nat :: "nat \<Rightarrow> string" where
  "show_nat n = (if n < 10 then [char_of (48 + n)] else show_nat (n div 10) @ [char_of (48 + n mod 10)])"

declare show_nat.simps [simp del]

lemma starts_with_iff: "starts_with s p \<longleftrightarrow> (\<exists>r. s = p @ r)"
  by (induction s p rule: starts_with.induct) auto

lemma starts_with_append [simp]: "starts_with (p @ r) p"
  by (auto simp: starts_with_iff)

lemma contains_str_iff: "contains_str s p \<longleftrightarrow> (\<exists>a b. s = a @ p @ b)"
proof (induction s)
  case Nil
  then show ?case by (auto simp: starts_with_iff)
next
  case (Cons c s)
  show ?case
  proof
    assume "contains_str (c # s) p"
    then consider r where "c # s = p @ r" | a b where "s = a @ p @ b"
      using Cons.IH by (auto simp: starts_with_iff)
    then show "\<exists>a b. c # s = a @ p @ b"
      by cases (metis append_Nil, metis append_Cons)
  next
    assume "\<exists>a b. c # s = a @ p @ b"
    then obtain a b where ab: "c # s = a @ p @ b" by blast
    show "contains_str (c # s) p"
    proof (cases a)
      case Nil
      with ab have "starts_with (c # s) p" by (auto simp: starts_with_iff)
      then show ?thesis by simp
    next
      case (Cons x xs)
      with ab Cons.IH show ?thesis by auto
    qed
  qed
qed

lemma ends_with_iff: "ends_with s p \<longleftrightarrow> (\<exists>r. s = r @ p)"
proof
  assume "ends_with s p"
  then obtain r where "rev s = rev p @ r"
    unfolding ends_with_def starts_with_iff by blast
  then have "rev (rev s) = rev (rev p @ r)"
    by simp
  then have "s = rev r @ p"
    by simp
  then show "\<exists>r. s = r @ p" ..
next
  assume "\<exists>r. s = r @ p"
  then show "ends_with s p"
    by (auto simp: ends_with_def starts_with_iff)
qed

lemma strip_prefix_append [simp]: "strip_prefix (p @ r) p = Some r"
  by (simp add: strip_prefix_def)

lemma strip_prefix_Some: "strip_prefix s p = Some r \<longleftrightarrow> s = p @ r"
  by (auto simp: strip_prefix_def starts_with_iff)

lemma rsplit_once_Some:
  assumes "rsplit_once s c = Some (a, b)"
  shows "s = a @ c # b \<and> c \<notin> set b"
proof -
  let ?t = "takeWhile (\<lambda>x. x \<noteq> c) (rev s)" and ?d = "dropWhile (\<lambda>x. x \<noteq> c) (rev s)"
  from assms have mem: "c \<in> set s" and a: "a = rev (tl ?d)" and b: "b = rev ?t"
    by (auto simp: rsplit_once_def split: if_splits)
  from mem have ne: "?d \<noteq> []"
    by (simp add: dropWhile_eq_Nil_conv)
  then have "hd ?d = c"
    using hd_dropWhile [of "\<lambda>x. x \<noteq> c" "rev s"] by simp
  with ne have d: "?d = c # tl ?d"
    by (metis list.collapse)
  have "rev s = ?t @ ?d"
    by simp
  also have "\<dots> = rev b @ c # rev a"
    using a b d by (metis rev_rev_ident)
  finally have "rev (rev s) = rev (rev b @ c # rev a)"
    by (rule arg_cong)
  then have "s = a @ c # b"
    by simp
  moreover have "c \<notin> set b"
    unfolding b using set_takeWhileD by fastforce
  ultimately show ?thesis by simp
qed

lemma split_once_append: "c \<notin> set a \<Longrightarrow> split_once (a @ c # b) c = Some (a, b)"
proof -
  assume "c \<notin> set a"
  then have "\<And>x. x \<in> set a \<Longrightarrow> x \<noteq> c" by auto
  then show ?thesis
    by (simp add: split_once_def takeWhile_append2 dropWhile_append2)
qed

section \<open>Lists and finite maps\<close>

lemma last_occurrence_unique:
  assumes "a @ x # b = c @ x # d" and "x \<notin> set b" and "x \<notin> set d"
  shows "a = c \<and> b = d"
  using assms by (auto simp: append_eq_append_conv2 append_eq_Cons_conv Cons_eq_append_conv)

lemma length_filter_partition:
  "length (filter P xs) + length (filter (\<lambda>x. \<not> P x) xs) = length xs"
  by (induction xs) auto

lemma filter_eq_Nil_iff: "filter P xs = [] \<longleftrightarrow> (\<forall>x\<in>set xs. \<not> P x)"
  by (induction xs) auto

lemma sorted_le_last: "sorted xs \<Longrightarrow> x \<in> set xs \<Longrightarrow> x \<le> last xs"
  by (induction xs) (auto intro: order_trans split: if_splits)

text \<open>
  Inserting the pairs of a list into a hash map in order, as a loop over \<open>HashMap::insert\<close> or a
  \<open>collect\<close> does: the last pair for a key wins.
\<close>

fun insert_all :: "('k \<rightharpoonup> 'v) \<Rightarrow> ('k \<times> 'v) list \<Rightarrow> ('k \<rightharpoonup> 'v)" where
  "insert_all m [] = m"
| "insert_all m ((k, v) # kvs) = insert_all (m(k \<mapsto> v)) kvs"

lemma insert_all_append [simp]: "insert_all m (xs @ ys) = insert_all (insert_all m xs) ys"
  by (induction m xs rule: insert_all.induct) (simp_all del: fun_upd_apply)

lemma insert_all_map_of_rev: "insert_all m kvs = m ++ map_of (rev kvs)"
  by (induction m kvs rule: insert_all.induct)
    (simp_all del: fun_upd_apply add: map_add_upd_left)

lemma insert_all_distinct:
  assumes "distinct (map fst kvs)"
  shows "insert_all m kvs = m ++ map_of kvs"
proof -
  have "map_of (rev kvs) k = map_of kvs k" for k
  proof (cases "map_of kvs k")
    case None
    then have "map_of (rev kvs) k = None" by (simp add: map_of_eq_None_iff)
    with None show ?thesis by simp
  next
    case (Some v)
    then have "(k, v) \<in> set (rev kvs)"
      by (simp add: map_of_SomeD)
    moreover from assms have "distinct (map fst (rev kvs))"
      by (simp flip: rev_map)
    ultimately show ?thesis
      using Some by simp
  qed
  then show ?thesis
    by (simp add: insert_all_map_of_rev fun_eq_iff map_add_def)
qed

lemma insert_all_lookup:
  assumes "distinct (map fst kvs)" and "(k, v) \<in> set kvs"
  shows "insert_all m kvs k = Some v"
  using assms by (simp add: insert_all_distinct map_add_def)

section \<open>Iterators\<close>

text \<open>
  \<open>Iterator::min_by_key\<close>: the first element with the smallest key. \<open>Iterator::find_map\<close>: the first
  result that is not \<open>None\<close>.
\<close>

fun min_by_key :: "('a \<Rightarrow> nat) \<Rightarrow> 'a list \<Rightarrow> 'a option" where
  "min_by_key key [] = None"
| "min_by_key key (x # xs) = (case min_by_key key xs of
     None \<Rightarrow> Some x
   | Some y \<Rightarrow> Some (if key x \<le> key y then x else y))"

lemma min_by_key_None [simp]: "min_by_key key xs = None \<longleftrightarrow> xs = []"
  by (cases xs) (auto split: option.splits)

lemma min_by_key_Some:
  assumes "min_by_key key xs = Some y"
  shows "y \<in> set xs \<and> (\<forall>x \<in> set xs. key y \<le> key x)"
  using assms
proof (induction xs arbitrary: y)
  case (Cons x xs)
  then show ?case
    by (cases "min_by_key key xs") (auto split: if_splits)
qed simp

lemma min_by_key_eq:
  assumes "inj key" and "y \<in> set xs" and "\<forall>x \<in> set xs. key y \<le> key x"
  shows "min_by_key key xs = Some y"
proof -
  obtain z where z: "min_by_key key xs = Some z"
    using assms(2) by (cases "min_by_key key xs") auto
  then have "key z = key y"
    using min_by_key_Some assms(2,3) by (metis order_antisym)
  with z assms(1) show ?thesis
    by (simp add: inj_eq)
qed

text \<open>\<open>sort\<close> followed by \<open>dedup\<close>: the set of the elements, in order.\<close>

lemma distinct_remdups_adj_sorted: "sorted xs \<Longrightarrow> distinct (remdups_adj xs)" for xs :: "'a :: linorder list"
  by (induction xs rule: remdups_adj.induct) (auto intro: order_antisym)

lemma sort_dedup: "remdups_adj (sort xs) = sorted_list_of_set (set xs)" for xs :: "'a :: linorder list"
  using sorted_list_of_set.idem_if_sorted_distinct [of "remdups_adj (sort xs)"]
  by (simp add: distinct_remdups_adj_sorted)

end
