(* ===== verification/Scc.thy ===== *)
theory Scc
  imports Rust_Prelude
begin

text \<open>
  The crate \<open>graph-algorithms\<close> (\<open>scc.rs\<close>): Tarjan's algorithm with an explicit call stack and a
  cooperative cancellation checkpoint. The model keeps the frames, the phases and the order of the
  mutations of the Rust code. A \<open>Vec\<close> used as a stack is a list whose head is its last element.
  A hash map is a partial function and a hash set a set; where the code iterates over one, the
  result does not depend on the order (the nodes are sorted first).
\<close>

section \<open>Data\<close>

record directed_edge =
  edge_source :: string
  edge_target :: string

record scc =
  members :: "string list"

definition size_scc :: "scc \<Rightarrow> nat" where
  "size_scc c = length (members c)"

definition is_cycle :: "scc \<Rightarrow> bool" where
  "is_cycle c = (length (members c) > 1)"

record scc_result =
  all_sccs :: "scc list"
  cycles :: "scc list"
  node_count :: nat
  edge_count :: nat

definition cycle_count :: "scc_result \<Rightarrow> nat" where
  "cycle_count r = length (cycles r)"

definition is_acyclic :: "scc_result \<Rightarrow> bool" where
  "is_acyclic r = (cycles r = [])"

text \<open>\<open>Cancelled\<close>, the error of the cancellable entry points.\<close>

datatype cancelled = Cancelled

definition CANCEL_CHECK_INTERVAL :: nat where
  "CANCEL_CHECK_INTERVAL = 256"

text \<open>
  The checkpoint is an \<open>FnMut() -> ControlFlow\<close>: what it answers depends on how often it was
  asked. \<open>brk k\<close> says whether its \<open>k\<close>-th call answers \<open>Break\<close>.
\<close>

type_synonym cancel_check = "nat \<Rightarrow> bool"

section \<open>State of the traversal\<close>

record frame =
  node :: string
  neighbor_idx :: nat
  phase :: nat

record tarjan_state =
  index_counter :: nat
  stack :: "string list"
  on_stack :: "string set"
  indices :: "string \<rightharpoonup> nat"
  lowlinks :: "string \<rightharpoonup> nat"
  result :: "scc list"
  call_stack :: "frame list"
  steps_since_check :: nat
  cancel_calls :: nat

text \<open>How one iteration of the loop of \<open>tarjan_visit\<close> ends.\<close>

datatype flow = Continue tarjan_state | Break | Panicked string

section \<open>The adjacency lists\<close>

definition add_adjacency :: "(string \<rightharpoonup> string list) \<Rightarrow> directed_edge \<Rightarrow> (string \<rightharpoonup> string list)" where
  "add_adjacency adj e =
     adj(edge_source e \<mapsto>
       (case adj (edge_source e) of None \<Rightarrow> [] | Some ts \<Rightarrow> ts) @ [edge_target e])"

definition all_nodes :: "directed_edge list \<Rightarrow> string set" where
  "all_nodes edges = set (map edge_source edges) \<union> set (map edge_target edges)"

definition build_adjacency :: "directed_edge list \<Rightarrow> (string \<rightharpoonup> string list)" where
  "build_adjacency edges =
     (let adj = foldl add_adjacency Map.empty edges
      in (\<lambda>n. case adj n of
                Some ts \<Rightarrow> Some ts
              | None \<Rightarrow> (if n \<in> all_nodes edges then Some [] else None)))"

text \<open>\<open>adjacency.get(node).map(as_slice).unwrap_or(&[])\<close>\<close>

definition neighbors :: "(string \<rightharpoonup> string list) \<Rightarrow> string \<Rightarrow> string list" where
  "neighbors adj n = (case adj n of None \<Rightarrow> [] | Some ts \<Rightarrow> ts)"

section \<open>One iteration of the loop of \<open>tarjan_visit\<close>\<close>

text \<open>
  The cancellation checkpoint at the head of the loop: \<open>None\<close> when it asks to abandon.
\<close>

definition checkpoint :: "cancel_check \<Rightarrow> tarjan_state \<Rightarrow> tarjan_state option" where
  "checkpoint brk s =
     (let s = s\<lparr>steps_since_check := steps_since_check s + 1\<rparr>
      in if steps_since_check s \<ge> CANCEL_CHECK_INTERVAL
         then (if brk (cancel_calls s) then None
               else Some (s\<lparr>steps_since_check := 0, cancel_calls := cancel_calls s + 1\<rparr>))
         else Some s)"

text \<open>Phase 0, entering a node.\<close>

definition enter_node :: "tarjan_state \<Rightarrow> frame \<Rightarrow> frame list \<Rightarrow> flow" where
  "enter_node s f fs =
     (if indices s (node f) \<noteq> None
      then Continue (s\<lparr>call_stack := fs\<rparr>)
      else Continue (s\<lparr>
        indices := (indices s)(node f \<mapsto> index_counter s),
        lowlinks := (lowlinks s)(node f \<mapsto> index_counter s),
        index_counter := index_counter s + 1,
        stack := node f # stack s,
        on_stack := insert (node f) (on_stack s),
        call_stack := f\<lparr>phase := 1\<rparr> # fs\<rparr>))"

text \<open>Phase 1, the next neighbor of a node.\<close>

definition process_neighbor ::
  "(string \<rightharpoonup> string list) \<Rightarrow> tarjan_state \<Rightarrow> frame \<Rightarrow> frame list \<Rightarrow> flow" where
  "process_neighbor adj s f fs =
     (let ns = neighbors adj (node f)
      in if neighbor_idx f < length ns
         then
           (let nb = ns ! neighbor_idx f;
                s = s\<lparr>call_stack := f\<lparr>neighbor_idx := neighbor_idx f + 1\<rparr> # fs\<rparr>
            in if indices s nb = None
               then Continue (s\<lparr>call_stack :=
                      \<lparr>node = nb, neighbor_idx = 0, phase = 0\<rparr> # call_stack s\<rparr>)
               else if nb \<in> on_stack s
               then (case (indices s nb, lowlinks s (node f)) of
                       (Some ni, Some cl) \<Rightarrow>
                         Continue (if ni < cl
                           then s\<lparr>lowlinks := (lowlinks s)(node f \<mapsto> ni)\<rparr> else s)
                     | _ \<Rightarrow> Panicked ''index'')
               else Continue s)
         else Continue (s\<lparr>call_stack := f\<lparr>phase := 2\<rparr> # fs\<rparr>))"

text \<open>
  Popping the Tarjan stack down to \<open>n\<close>, the members in the order they are popped; \<open>None\<close> where
  \<open>expect("stack should not be empty")\<close> panics.
\<close>

fun pop_until :: "string \<Rightarrow> string list \<Rightarrow> string set \<Rightarrow> string list
    \<Rightarrow> (string list \<times> string set \<times> string list) option" where
  "pop_until n [] ons acc = None"
| "pop_until n (p # st) ons acc =
     (if p = n then Some (st, ons - {p}, acc @ [p])
      else pop_until n st (ons - {p}) (acc @ [p]))"

text \<open>Phase 2, finishing a node: the parent's low-link, then the component if it is a root.\<close>

definition update_parent :: "tarjan_state \<Rightarrow> string \<Rightarrow> frame list \<Rightarrow> tarjan_state outcome" where
  "update_parent s n fs =
     (case fs of
        [] \<Rightarrow> Val s
      | p # _ \<Rightarrow>
          (if phase p = 1
           then (case (lowlinks s n, lowlinks s (node p)) of
                   (Some cl, Some pl) \<Rightarrow>
                     Val (if cl < pl then s\<lparr>lowlinks := (lowlinks s)(node p \<mapsto> cl)\<rparr> else s)
                 | _ \<Rightarrow> Panic ''index'')
           else Val s))"

definition emit_scc :: "tarjan_state \<Rightarrow> string \<Rightarrow> flow" where
  "emit_scc s n =
     (case (lowlinks s n, indices s n) of
        (Some l, Some i) \<Rightarrow>
          (if l = i
           then (case pop_until n (stack s) (on_stack s) [] of
                   None \<Rightarrow> Panicked ''stack should not be empty''
                 | Some (st, ons, popped) \<Rightarrow>
                     Continue (s\<lparr>stack := st, on_stack := ons,
                       result := result s @ [\<lparr>members = rev popped\<rparr>]\<rparr>))
           else Continue s)
      | _ \<Rightarrow> Panicked ''index'')"

definition finish_node :: "tarjan_state \<Rightarrow> frame \<Rightarrow> frame list \<Rightarrow> flow" where
  "finish_node s f fs =
     (case update_parent (s\<lparr>call_stack := fs\<rparr>) (node f) fs of
        Panic m \<Rightarrow> Panicked m
      | Val s' \<Rightarrow> emit_scc s' (node f))"

definition dispatch_phase ::
  "(string \<rightharpoonup> string list) \<Rightarrow> tarjan_state \<Rightarrow> frame \<Rightarrow> frame list \<Rightarrow> flow" where
  "dispatch_phase adj s f fs =
     (if phase f = 0 then enter_node s f fs
      else if phase f = 1 then process_neighbor adj s f fs
      else if phase f = 2 then finish_node s f fs
      else Panicked ''unreachable'')"

section \<open>The traversal\<close>

partial_function (option) visit_loop ::
  "(string \<rightharpoonup> string list) \<Rightarrow> cancel_check \<Rightarrow> tarjan_state \<Rightarrow> flow option" where
  "visit_loop adj brk s =
     (case call_stack s of
        [] \<Rightarrow> Some (Continue s)
      | f # fs \<Rightarrow>
          (case checkpoint brk s of
             None \<Rightarrow> Some Break
           | Some s1 \<Rightarrow>
               (case dispatch_phase adj s1 f fs of
                  Continue s2 \<Rightarrow> visit_loop adj brk s2
                | Break \<Rightarrow> Some Break
                | Panicked m \<Rightarrow> Some (Panicked m))))"

declare visit_loop.simps [code]

definition tarjan_visit ::
  "(string \<rightharpoonup> string list) \<Rightarrow> cancel_check \<Rightarrow> string \<Rightarrow> tarjan_state \<Rightarrow> flow option" where
  "tarjan_visit adj brk start s =
     visit_loop adj brk (s\<lparr>call_stack := [\<lparr>node = start, neighbor_idx = 0, phase = 0\<rparr>]\<rparr>)"

fun visit_all ::
  "(string \<rightharpoonup> string list) \<Rightarrow> cancel_check \<Rightarrow> string list \<Rightarrow> tarjan_state \<Rightarrow> flow option" where
  "visit_all adj brk [] s = Some (Continue s)"
| "visit_all adj brk (n # ns) s =
     (if indices s n = None
      then (case tarjan_visit adj brk n s of
              Some (Continue s') \<Rightarrow> visit_all adj brk ns s'
            | r \<Rightarrow> r)
      else visit_all adj brk ns s)"

definition init_state :: tarjan_state where
  "init_state = \<lparr>index_counter = 0, stack = [], on_stack = {}, indices = Map.empty,
     lowlinks = Map.empty, result = [], call_stack = [], steps_since_check = 0,
     cancel_calls = 0\<rparr>"

text \<open>
  \<open>find_sccs_cancellable\<close>: \<open>None\<close> if the traversal does not return, otherwise a panic or the
  \<open>Result\<close> of the code.
\<close>

definition find_sccs_cancellable ::
  "directed_edge list \<Rightarrow> cancel_check \<Rightarrow> (cancelled + scc_result) outcome option" where
  "find_sccs_cancellable edges brk =
     (let adj = build_adjacency edges;
          sorted_nodes = sorted_list_of_set (all_nodes edges)
      in case visit_all adj brk sorted_nodes init_state of
           None \<Rightarrow> None
         | Some Break \<Rightarrow> Some (Val (Inl Cancelled))
         | Some (Panicked m) \<Rightarrow> Some (Panic m)
         | Some (Continue s) \<Rightarrow>
             Some (Val (Inr \<lparr>all_sccs = result s,
               cycles = filter is_cycle (result s),
               node_count = card (all_nodes edges),
               edge_count = length edges\<rparr>)))"

definition find_sccs :: "directed_edge list \<Rightarrow> scc_result outcome option" where
  "find_sccs edges =
     (case find_sccs_cancellable edges (\<lambda>_. False) of
        None \<Rightarrow> None
      | Some (Panic m) \<Rightarrow> Some (Panic m)
      | Some (Val (Inl _)) \<Rightarrow> Some (Panic ''never-breaking checkpoint cannot cancel'')
      | Some (Val (Inr r)) \<Rightarrow> Some (Val r))"

definition has_cycles :: "directed_edge list \<Rightarrow> bool outcome option" where
  "has_cycles edges =
     (case find_sccs edges of
        None \<Rightarrow> None
      | Some (Panic m) \<Rightarrow> Some (Panic m)
      | Some (Val r) \<Rightarrow> Some (Val (\<not> is_acyclic r)))"

end
