(* ===== verification/Digraph.thy ===== *)
theory Digraph
  imports Main
begin

text \<open>
  The graph-theoretic core of Tarjan's algorithm, away from its data structures: a finite digraph
  given by successor lists, its strongly connected classes, and the invariant that relates the
  visited nodes, the nodes on the Tarjan stack, the nodes of the call stack, the explored edges
  and the low-links. Each way the traversal changes them is a lemma that keeps the invariant.
\<close>

locale finite_digraph =
  fixes V :: "'n set" and succs :: "'n \<Rightarrow> 'n list"
  assumes finite_V: "finite V"
    and succs_closed: "u \<in> V \<Longrightarrow> set (succs u) \<subseteq> V"
begin

definition E :: "('n \<times> 'n) set" where
  "E = {(u, v). v \<in> set (succs u)}"

definition scc_of :: "'n \<Rightarrow> 'n set" where
  "scc_of v = {u. (v, u) \<in> E\<^sup>* \<and> (u, v) \<in> E\<^sup>*}"

lemma E_iff [simp]: "(u, v) \<in> E \<longleftrightarrow> v \<in> set (succs u)"
  by (simp add: E_def)

lemma scc_of_self [simp]: "v \<in> scc_of v"
  by (simp add: scc_of_def)

lemma scc_of_eq: "u \<in> scc_of v \<Longrightarrow> scc_of u = scc_of v"
  by (auto simp: scc_of_def intro: rtrancl_trans)

lemma closed_rtrancl:
  assumes "(u, v) \<in> E\<^sup>*" and "u \<in> A" and "\<And>x. x \<in> A \<Longrightarrow> set (succs x) \<subseteq> A"
  shows "v \<in> A"
  using assms(1,2) by (induction rule: rtrancl_induct) (use assms(3) in auto)

lemma rtrancl_in_V: "(u, v) \<in> E\<^sup>* \<Longrightarrow> u \<in> V \<Longrightarrow> v \<in> V"
  by (rule closed_rtrancl) (use succs_closed in auto)

text \<open>
  The invariant. \<open>D\<close>: the indexed nodes; \<open>T\<close>: those on the Tarjan stack; \<open>G\<close>: those in progress on
  the call stack; \<open>P\<close>: the node about to be entered, if any; \<open>ex u\<close>: the successors of \<open>u\<close> looked
  at so far; \<open>ix\<close> and \<open>lw\<close>: discovery index and low-link. \<open>owner\<close> relates a stack node to the
  in-progress node whose low-link accounts for its edges.
\<close>

definition owner :: "'n set \<Rightarrow> ('n \<Rightarrow> nat) \<Rightarrow> 'n \<Rightarrow> 'n \<Rightarrow> bool" where
  "owner G ix g z \<longleftrightarrow> ix g \<le> ix z \<and> (\<forall>g'\<in>G. ix g' \<le> ix z \<longrightarrow> ix g' \<le> ix g)"

definition core_sets :: "'n set \<Rightarrow> 'n set \<Rightarrow> 'n set \<Rightarrow> 'n set \<Rightarrow> ('n \<Rightarrow> 'n set) \<Rightarrow> ('n \<Rightarrow> nat) \<Rightarrow> bool" where
  "core_sets D T G P ex ix \<longleftrightarrow>
     D \<subseteq> V \<and> T \<subseteq> D \<and> G \<subseteq> T \<and> inj_on ix T
     \<and> (\<forall>u\<in>D - T. set (succs u) \<subseteq> D - T)
     \<and> (\<forall>u\<in>T. ex u \<subseteq> set (succs u) \<and> ex u \<subseteq> D \<union> P)
     \<and> (\<forall>u\<in>T - G. ex u = set (succs u))"

definition core_reach :: "'n set \<Rightarrow> 'n set \<Rightarrow> ('n \<Rightarrow> nat) \<Rightarrow> bool" where
  "core_reach T G ix \<longleftrightarrow>
     (\<forall>x\<in>T. \<forall>y\<in>T. ix x \<le> ix y \<longrightarrow> (x, y) \<in> E\<^sup>*)
     \<and> (\<forall>y\<in>T. \<exists>x\<in>G. ix x \<le> ix y \<and> (y, x) \<in> E\<^sup>*)"

definition core_low :: "'n set \<Rightarrow> 'n set \<Rightarrow> ('n \<Rightarrow> 'n set) \<Rightarrow> ('n \<Rightarrow> nat) \<Rightarrow> ('n \<Rightarrow> nat) \<Rightarrow> bool" where
  "core_low T G ex ix lw \<longleftrightarrow>
     (\<forall>g\<in>G. \<exists>y\<in>T. ix y = lw g \<and> lw g \<le> ix g \<and> (g, y) \<in> E\<^sup>*)
     \<and> (\<forall>g\<in>G. \<forall>z\<in>T. owner G ix g z \<longrightarrow> (\<forall>w\<in>T. w \<in> ex z \<longrightarrow> lw g \<le> ix w))"

definition core_inv ::
  "'n set \<Rightarrow> 'n set \<Rightarrow> 'n set \<Rightarrow> 'n set \<Rightarrow> ('n \<Rightarrow> 'n set) \<Rightarrow> ('n \<Rightarrow> nat) \<Rightarrow> ('n \<Rightarrow> nat) \<Rightarrow> bool" where
  "core_inv D T G P ex ix lw \<longleftrightarrow>
     core_sets D T G P ex ix \<and> core_reach T G ix \<and> core_low T G ex ix lw"

definition top_gray :: "'n set \<Rightarrow> ('n \<Rightarrow> nat) \<Rightarrow> 'n \<Rightarrow> bool" where
  "top_gray G ix t \<longleftrightarrow> t \<in> G \<and> (\<forall>g\<in>G. ix g \<le> ix t)"

lemma core_inv_empty: "core_inv {} {} {} P ex ix lw"
  by (simp add: core_inv_def core_sets_def core_reach_def core_low_def)

text \<open>Every node on the stack reaches the top in-progress node.\<close>

lemma reach_top:
  assumes "core_reach T G ix" and "G \<subseteq> T" and "top_gray G ix t" and "z \<in> T"
  shows "(z, t) \<in> E\<^sup>*"
proof -
  from assms(1,4) obtain x where x: "x \<in> G" "(z, x) \<in> E\<^sup>*"
    by (auto simp: core_reach_def)
  from assms(2,3) x(1) have "x \<in> T" "t \<in> T" "ix x \<le> ix t"
    by (auto simp: top_gray_def)
  with assms(1) have "(x, t) \<in> E\<^sup>*"
    by (simp add: core_reach_def)
  with x(2) show ?thesis by (rule rtrancl_trans)
qed

lemma owner_gray_self:
  assumes "inj_on ix T" and "G \<subseteq> T" and "t \<in> G" and "g \<in> G" and "owner G ix g t"
  shows "g = t"
proof -
  from assms(3,5) have "ix g = ix t"
    by (force simp: owner_def)
  with assms(1-4) show ?thesis
    by (meson inj_onD subsetD)
qed

subsection \<open>Entering a node\<close>

lemma core_enter:
  assumes inv: "core_inv D T G {v} ex ix lw" and v: "v \<in> V" "v \<notin> D"
    and fresh: "\<And>u. u \<in> D \<Longrightarrow> ix u < n"
    and parent: "G \<noteq> {} \<Longrightarrow> \<exists>p. top_gray G ix p \<and> v \<in> set (succs p)"
    and ex: "ex v = {}"
  shows "core_inv (insert v D) (insert v T) (insert v G) {} ex (ix(v := n)) (lw(v := n))"
proof -
  let ?ix = "ix(v := n)" and ?lw = "lw(v := n)"
  from inv have sets: "core_sets D T G {v} ex ix" and reach: "core_reach T G ix"
    and low: "core_low T G ex ix lw"
    by (simp_all add: core_inv_def)
  from sets have GT: "G \<subseteq> T" and TD: "T \<subseteq> D" and inj: "inj_on ix T"
    by (auto simp: core_sets_def)
  from v TD have vT: "v \<notin> T" by blast
  have ltT: "ix u < n" if "u \<in> T" for u
    using that TD fresh by blast
  have to_v: "(z, v) \<in> E\<^sup>*" if "z \<in> T" for z
  proof -
    from that reach have "G \<noteq> {}"
      by (auto simp: core_reach_def)
    with parent obtain p where p: "top_gray G ix p" "v \<in> set (succs p)"
      by blast
    with reach_top [OF reach GT p(1) that] show ?thesis
      by (auto intro: rtrancl_into_rtrancl)
  qed
  have inj': "inj_on ?ix (insert v T)"
    using inj vT ltT unfolding inj_on_def by (metis fun_upd_apply insert_iff less_irrefl)
  have "core_sets (insert v D) (insert v T) (insert v G) {} ex ?ix"
    using sets v vT ex inj' by (auto simp: core_sets_def)
  moreover have "core_reach (insert v T) (insert v G) ?ix"
  proof -
    have "(x, y) \<in> E\<^sup>*" if "x \<in> insert v T" "y \<in> insert v T" "?ix x \<le> ?ix y" for x y
    proof (cases "y = v")
      case True
      with that to_v show ?thesis by auto
    next
      case False
      with that ltT [of y] have "x \<noteq> v" by auto
      with that False reach show ?thesis by (auto simp: core_reach_def)
    qed
    moreover have "\<exists>x\<in>insert v G. ?ix x \<le> ?ix y \<and> (y, x) \<in> E\<^sup>*" if "y \<in> insert v T" for y
    proof (cases "y = v")
      case False
      with that reach obtain x where x: "x \<in> G" "ix x \<le> ix y" "(y, x) \<in> E\<^sup>*"
        by (auto simp: core_reach_def)
      moreover from x(1) GT vT have "x \<noteq> v" by blast
      ultimately show ?thesis using False by (intro bexI [of _ x]) auto
    qed simp
    ultimately show ?thesis by (simp only: core_reach_def) blast
  qed
  moreover have "core_low (insert v T) (insert v G) ex ?ix ?lw"
  proof -
    have "\<exists>y\<in>insert v T. ?ix y = ?lw g \<and> ?lw g \<le> ?ix g \<and> (g, y) \<in> E\<^sup>*"
      if "g \<in> insert v G" for g
    proof (cases "g = v")
      case False
      with that low obtain y where "y \<in> T" "ix y = lw g" "lw g \<le> ix g" "(g, y) \<in> E\<^sup>*"
        by (auto simp: core_low_def)
      with False vT show ?thesis by (intro bexI [of _ y]) auto
    qed simp
    moreover have "?lw g \<le> ?ix w"
      if "g \<in> insert v G" "z \<in> insert v T" "owner (insert v G) ?ix g z" "w \<in> insert v T" "w \<in> ex z"
      for g z w
    proof -
      from \<open>w \<in> ex z\<close> ex have zv: "z \<noteq> v" by auto
      with that ltT have gv: "g \<noteq> v"
        by (auto simp: owner_def dest: leD)
      from that zv gv have own: "owner G ix g z" "g \<in> G" "z \<in> T"
        using vT GT by (auto simp: owner_def split: if_splits)
      show ?thesis
      proof (cases "w = v")
        case True
        from own low have "lw g \<le> ix g" by (auto simp: core_low_def)
        also have "ix g < n" using own GT ltT by blast
        finally show ?thesis using True gv by simp
      next
        case False
        with that own low gv show ?thesis by (auto simp: core_low_def)
      qed
    qed
    ultimately show ?thesis by (simp only: core_low_def) blast
  qed
  ultimately show ?thesis by (simp add: core_inv_def)
qed

subsection \<open>Looking at a successor\<close>

lemma core_explore:
  assumes inv: "core_inv D T G {} ex ix lw" and t: "top_gray G ix t"
    and w: "w \<in> set (succs t)" and P: "w \<in> D \<or> w \<in> P" and off: "w \<notin> T"
  shows "core_inv D T G P (ex(t := insert w (ex t))) ix lw"
  using assms unfolding core_inv_def core_sets_def core_low_def top_gray_def by auto

lemma core_explore_stack:
  assumes inv: "core_inv D T G {} ex ix lw" and t: "top_gray G ix t"
    and w: "w \<in> set (succs t)" "w \<in> T"
  shows "core_inv D T G {} (ex(t := insert w (ex t))) ix (lw(t := min (lw t) (ix w)))"
proof -
  let ?ex = "ex(t := insert w (ex t))" and ?lw = "lw(t := min (lw t) (ix w))"
  from inv have sets: "core_sets D T G {} ex ix" and reach: "core_reach T G ix"
    and low: "core_low T G ex ix lw"
    by (simp_all add: core_inv_def)
  from sets have GT: "G \<subseteq> T" and TD: "T \<subseteq> D" and inj: "inj_on ix T"
    by (auto simp: core_sets_def)
  from t have tG: "t \<in> G" by (simp add: top_gray_def)
  have "core_sets D T G {} ?ex ix"
    using sets w TD tG by (auto simp: core_sets_def)
  moreover have "core_low T G ?ex ix ?lw"
  proof -
    have "\<exists>y\<in>T. ix y = ?lw g \<and> ?lw g \<le> ix g \<and> (g, y) \<in> E\<^sup>*" if g: "g \<in> G" for g
    proof (cases "g = t")
      case True
      from low g obtain y where y: "y \<in> T" "ix y = lw g" "lw g \<le> ix g" "(g, y) \<in> E\<^sup>*"
        by (auto simp: core_low_def)
      show ?thesis
      proof (cases "ix w < lw t")
        case less: True
        with True w y show ?thesis by (intro bexI [of _ w]) auto
      next
        case False
        with True y show ?thesis by (intro bexI [of _ y]) auto
      qed
    next
      case False
      with low g show ?thesis by (auto simp: core_low_def)
    qed
    moreover have "?lw g \<le> ix u"
      if "g \<in> G" "z \<in> T" "owner G ix g z" "u \<in> T" "u \<in> ?ex z" for g z u
    proof (cases "u \<in> ex z")
      case True
      with that low have "lw g \<le> ix u" by (auto simp: core_low_def)
      then show ?thesis by auto
    next
      case False
      with that have z: "z = t" "u = w" by (auto split: if_splits)
      with that owner_gray_self [OF inj GT tG, of g] have "g = t" by auto
      with z show ?thesis by simp
    qed
    ultimately show ?thesis by (simp only: core_low_def) blast
  qed
  ultimately show ?thesis using reach by (simp add: core_inv_def)
qed

subsection \<open>Finishing a node\<close>

text \<open>A node whose low-link lies below its index is not the root of its component.\<close>

lemma core_finish_inner:
  assumes inv: "core_inv D T G {} ex ix lw" and t: "top_gray G ix t"
    and full: "ex t = set (succs t)" and nonroot: "lw t \<noteq> ix t"
  shows "G - {t} \<noteq> {}"
    and "top_gray (G - {t}) ix p \<Longrightarrow>
           core_inv D T (G - {t}) {} ex ix (lw(p := min (lw p) (lw t)))"
proof -
  from inv have sets: "core_sets D T G {} ex ix" and reach: "core_reach T G ix"
    and low: "core_low T G ex ix lw"
    by (simp_all add: core_inv_def)
  from sets have GT: "G \<subseteq> T" and inj: "inj_on ix T"
    by (auto simp: core_sets_def)
  from t have tG: "t \<in> G" by (simp add: top_gray_def)
  from low tG nonroot obtain y where y: "y \<in> T" "ix y = lw t" "ix y < ix t" "(t, y) \<in> E\<^sup>*"
    by (force simp: core_low_def)
  with reach obtain x where x: "x \<in> G" "ix x \<le> ix y" "(y, x) \<in> E\<^sup>*"
    by (auto simp: core_reach_def)
  with y have x': "x \<in> G - {t}" "ix x < ix t" "(t, x) \<in> E\<^sup>*"
    by (auto intro: rtrancl_trans)
  then show "G - {t} \<noteq> {}" by blast
  assume p: "top_gray (G - {t}) ix p"
  let ?lw = "lw(p := min (lw p) (lw t))"
  from p t have pG: "p \<in> G" "p \<noteq> t" "ix p \<le> ix t"
    by (auto simp: top_gray_def)
  with tG GT inj have pt: "ix p < ix t"
    by (metis inj_onD le_neq_implies_less subsetD)
  have "core_sets D T (G - {t}) {} ex ix"
    using sets full by (auto simp: core_sets_def)
  moreover have "core_reach T (G - {t}) ix"
  proof -
    have "\<exists>g\<in>G - {t}. ix g \<le> ix z \<and> (z, g) \<in> E\<^sup>*" if "z \<in> T" for z
    proof -
      from that reach obtain g where g: "g \<in> G" "ix g \<le> ix z" "(z, g) \<in> E\<^sup>*"
        by (auto simp: core_reach_def)
      show ?thesis
      proof (cases "g = t")
        case True
        with g x' show ?thesis by (intro bexI [of _ x]) (auto intro: rtrancl_trans)
      next
        case False
        with g show ?thesis by blast
      qed
    qed
    with reach show ?thesis by (simp add: core_reach_def)
  qed
  moreover have "core_low T (G - {t}) ex ix ?lw"
  proof -
    have "\<exists>y\<in>T. ix y = ?lw g \<and> ?lw g \<le> ix g \<and> (g, y) \<in> E\<^sup>*" if g: "g \<in> G - {t}" for g
    proof (cases "g = p \<and> lw t < lw p")
      case True
      from pG tG GT have "p \<in> T" "t \<in> T" by auto
      with pt reach have "(p, t) \<in> E\<^sup>*" by (auto simp: core_reach_def)
      with y have "(p, y) \<in> E\<^sup>*" by (auto intro: rtrancl_trans)
      moreover from low pG have "lw p \<le> ix p" by (auto simp: core_low_def)
      ultimately show ?thesis using True y by (intro bexI [of _ y]) auto
    next
      case False
      with low g show ?thesis by (auto simp: core_low_def min_def)
    qed
    moreover have "?lw g \<le> ix w"
      if "g \<in> G - {t}" "z \<in> T" "owner (G - {t}) ix g z" "w \<in> T" "w \<in> ex z" for g z w
    proof (cases "ix t \<le> ix z")
      case True
      with t have "owner G ix t z" by (auto simp: owner_def top_gray_def)
      with low tG that have lt: "lw t \<le> ix w" by (auto simp: core_low_def)
      from True pt that p have "ix p \<le> ix g" "ix g \<le> ix p"
        by (auto simp: owner_def top_gray_def)
      with pG that inj GT have "g = p"
        by (metis Diff_iff inj_onD le_antisym subsetD)
      with lt show ?thesis by simp
    next
      case False
      with that have "owner G ix g z" by (auto simp: owner_def)
      with low that have "lw g \<le> ix w" by (auto simp: core_low_def)
      then show ?thesis by auto
    qed
    ultimately show ?thesis by (simp only: core_low_def) blast
  qed
  ultimately show "core_inv D T (G - {t}) {} ex ix ?lw" by (simp add: core_inv_def)
qed

text \<open>
  A node whose low-link is its index is a root: the stack from it upwards is its component, and
  what leaves the component has been emitted before.
\<close>

lemma core_root_closed:
  assumes inv: "core_inv D T G {} ex ix lw" and t: "top_gray G ix t"
    and full: "ex t = set (succs t)" and root: "lw t = ix t"
    and z: "z \<in> T" "ix t \<le> ix z"
  shows "set (succs z) \<subseteq> (D - T) \<union> {u \<in> T. ix t \<le> ix u}"
proof
  fix w
  assume w: "w \<in> set (succs z)"
  from inv have sets: "core_sets D T G {} ex ix" and low: "core_low T G ex ix lw"
    by (simp_all add: core_inv_def)
  have "z \<in> T - G \<or> z = t"
  proof (cases "z \<in> G")
    case True
    with t z sets show ?thesis
      by (metis core_sets_def inj_onD le_antisym subsetD top_gray_def)
  qed (use z in blast)
  with sets full w have ex: "w \<in> ex z" by (auto simp: core_sets_def)
  with sets z have wD: "w \<in> D" by (auto simp: core_sets_def)
  show "w \<in> (D - T) \<union> {u \<in> T. ix t \<le> ix u}"
  proof (cases "w \<in> T")
    case True
    from t z have "owner G ix t z" by (auto simp: owner_def top_gray_def)
    with low t z True ex root have "ix t \<le> ix w"
      by (auto simp: core_low_def top_gray_def)
    with True show ?thesis by simp
  qed (use wD in simp)
qed

lemma core_root_scc:
  assumes inv: "core_inv D T G {} ex ix lw" and t: "top_gray G ix t"
    and full: "ex t = set (succs t)" and root: "lw t = ix t"
  shows "{u \<in> T. ix t \<le> ix u} = scc_of t"
proof
  from inv have sets: "core_sets D T G {} ex ix" and reach: "core_reach T G ix"
    by (simp_all add: core_inv_def)
  from sets t have GT: "G \<subseteq> T" and tT: "t \<in> T"
    by (auto simp: core_sets_def top_gray_def)
  show "{u \<in> T. ix t \<le> ix u} \<subseteq> scc_of t"
    using reach tT reach_top [OF reach GT t] by (auto simp: scc_of_def core_reach_def)
  show "scc_of t \<subseteq> {u \<in> T. ix t \<le> ix u}"
  proof
    fix u
    assume u: "u \<in> scc_of t"
    let ?A = "(D - T) \<union> {u \<in> T. ix t \<le> ix u}"
    have old: "set (succs x) \<subseteq> D - T" if "x \<in> D - T" for x
      using sets that unfolding core_sets_def by blast
    have "set (succs x) \<subseteq> ?A" if "x \<in> ?A" for x
      using that old [of x] core_root_closed [OF inv t full root, of x] by auto
    with u tT have "u \<in> ?A"
      by (intro closed_rtrancl [of t u ?A]) (auto simp: scc_of_def)
    moreover have "u \<notin> D - T"
    proof
      assume "u \<in> D - T"
      with u old have "t \<in> D - T"
        by (intro closed_rtrancl [of u t "D - T"]) (auto simp: scc_of_def)
      with tT show False by simp
    qed
    ultimately show "u \<in> {u \<in> T. ix t \<le> ix u}" by blast
  qed
qed

lemma core_finish_root:
  assumes inv: "core_inv D T G {} ex ix lw" and t: "top_gray G ix t"
    and full: "ex t = set (succs t)" and root: "lw t = ix t"
  shows "core_inv D {u \<in> T. ix u < ix t} (G - {t}) {} ex ix lw"
proof -
  let ?T = "{u \<in> T. ix u < ix t}" and ?G = "G - {t}"
  from inv have sets: "core_sets D T G {} ex ix" and reach: "core_reach T G ix"
    and low: "core_low T G ex ix lw"
    by (simp_all add: core_inv_def)
  from sets t have GT: "G \<subseteq> T" and TD: "T \<subseteq> D" and inj: "inj_on ix T" and tT: "t \<in> T"
    by (auto simp: core_sets_def top_gray_def)
  have lt: "ix g < ix t" if "g \<in> ?G" for g
    using that t GT tT inj by (metis Diff_iff insertI1 inj_onD le_neq_implies_less subsetD top_gray_def)
  have "core_sets D ?T ?G {} ex ix"
  proof -
    have "set (succs u) \<subseteq> D - ?T" if u: "u \<in> D - ?T" for u
    proof (cases "u \<in> T")
      case True
      with u core_root_closed [OF inv t full root, of u] TD show ?thesis by force
    next
      case False
      with u sets have "set (succs u) \<subseteq> D - T" by (auto simp: core_sets_def)
      then show ?thesis by blast
    qed
    moreover have "inj_on ix ?T"
      using inj by (auto simp: inj_on_def)
    moreover have "?G \<subseteq> ?T"
      using GT lt by blast
    moreover have "ex u = set (succs u)" if "u \<in> ?T - ?G" for u
      using that sets by (cases "u \<in> G") (auto simp: core_sets_def)
    moreover from sets TD have "D \<subseteq> V" "?T \<subseteq> D" "\<forall>u\<in>?T. ex u \<subseteq> set (succs u) \<and> ex u \<subseteq> D \<union> {}"
      by (auto simp: core_sets_def)
    ultimately show ?thesis
      unfolding core_sets_def by (intro conjI ballI) simp_all
  qed
  moreover have "core_reach ?T ?G ix"
  proof -
    have "\<exists>x\<in>?G. ix x \<le> ix y \<and> (y, x) \<in> E\<^sup>*" if "y \<in> ?T" for y
    proof -
      from that reach obtain x where "x \<in> G" "ix x \<le> ix y" "(y, x) \<in> E\<^sup>*"
        by (auto simp: core_reach_def)
      with that show ?thesis by (intro bexI [of _ x]) auto
    qed
    with reach show ?thesis by (simp add: core_reach_def)
  qed
  moreover have "core_low ?T ?G ex ix lw"
  proof -
    have "\<exists>y\<in>?T. ix y = lw g \<and> lw g \<le> ix g \<and> (g, y) \<in> E\<^sup>*" if g: "g \<in> ?G" for g
    proof -
      from g low obtain y where "y \<in> T" "ix y = lw g" "lw g \<le> ix g" "(g, y) \<in> E\<^sup>*"
        by (auto simp: core_low_def)
      with lt [OF g] show ?thesis by (intro bexI [of _ y]) auto
    qed
    moreover have "owner G ix g z" if "z \<in> ?T" "owner ?G ix g z" for g z
      using that by (auto simp: owner_def)
    ultimately show ?thesis
      using low unfolding core_low_def by blast
  qed
  ultimately show ?thesis by (simp add: core_inv_def)
qed

end

end
