(* ===== verification/Scc_Correct.thy ===== *)
theory Scc_Correct
  imports Scc Digraph
begin

text \<open>
  Correctness of the traversal of \<open>Scc\<close>. The invariant \<open>tarjan_inv\<close> has three parts: the shape of
  the data structures (\<open>frame_inv\<close>), the graph invariant of \<open>Digraph\<close> read off the state
  (\<open>view_inv\<close>) and what has been emitted (\<open>res_inv\<close>). Every iteration keeps it, never panics and
  decreases \<open>potential\<close>, so the loop returns and its result is the list of the strongly connected
  components, in reverse topological order.
\<close>

section \<open>The graph of an edge list\<close>

lemma foldl_add_adjacency:
  "(case foldl add_adjacency adj es n of None \<Rightarrow> [] | Some ts \<Rightarrow> ts) =
     (case adj n of None \<Rightarrow> [] | Some ts \<Rightarrow> ts) @ map edge_target (filter (\<lambda>e. edge_source e = n) es)"
  by (induction es arbitrary: adj) (auto simp: add_adjacency_def split: option.splits)

lemma neighbors_build:
  "neighbors (build_adjacency es) n = map edge_target (filter (\<lambda>e. edge_source e = n) es)"
  using foldl_add_adjacency [of Map.empty es n]
  by (auto simp: neighbors_def build_adjacency_def Let_def split: option.splits)

lemma finite_all_nodes [simp]: "finite (all_nodes es)"
  by (simp add: all_nodes_def)

section \<open>The state as the graph invariant sees it\<close>

definition ix :: "tarjan_state \<Rightarrow> string \<Rightarrow> nat" where
  "ix s v = the (indices s v)"

definition lw :: "tarjan_state \<Rightarrow> string \<Rightarrow> nat" where
  "lw s v = the (lowlinks s v)"

definition active :: "tarjan_state \<Rightarrow> frame list" where
  "active s = filter (\<lambda>f. phase f \<noteq> 0) (call_stack s)"

definition pending :: "tarjan_state \<Rightarrow> string set" where
  "pending s = (case call_stack s of [] \<Rightarrow> {} | f # fs \<Rightarrow> (if phase f = 0 then {node f} else {}))"

definition explored :: "(string \<rightharpoonup> string list) \<Rightarrow> frame list \<Rightarrow> string \<Rightarrow> string set" where
  "explored adj fs u =
     (case map_of (map (\<lambda>f. (node f, neighbor_idx f)) fs) u of
        None \<Rightarrow> set (neighbors adj u)
      | Some k \<Rightarrow> set (take k (neighbors adj u)))"

definition by_index :: "tarjan_state \<Rightarrow> string list \<Rightarrow> bool" where
  "by_index s = sorted_wrt (\<lambda>a b. ix s b < ix s a)"

definition frames_ok :: "(string \<rightharpoonup> string list) \<Rightarrow> string set \<Rightarrow> tarjan_state \<Rightarrow> bool" where
  "frames_ok adj V s \<longleftrightarrow>
     (case call_stack s of
        [] \<Rightarrow> True
      | f # fs \<Rightarrow> (\<forall>g\<in>set fs. phase g = 1) \<and> phase f \<le> 2
          \<and> (phase f = 0 \<longrightarrow> neighbor_idx f = 0 \<and> node f \<in> V \<and> indices s (node f) = None
               \<and> (fs \<noteq> [] \<longrightarrow> node f \<in> set (neighbors adj (node (hd fs)))))
          \<and> (phase f = 2 \<longrightarrow> length (neighbors adj (node f)) \<le> neighbor_idx f))"

definition frame_inv :: "(string \<rightharpoonup> string list) \<Rightarrow> string set \<Rightarrow> tarjan_state \<Rightarrow> bool" where
  "frame_inv adj V s \<longleftrightarrow>
     on_stack s = set (stack s) \<and> by_index s (stack s)
     \<and> dom (lowlinks s) = dom (indices s) \<and> (\<forall>v\<in>dom (indices s). ix s v < index_counter s)
     \<and> by_index s (map node (active s)) \<and> frames_ok adj V s"

fun topo_ok :: "(string \<rightharpoonup> string list) \<Rightarrow> string set \<Rightarrow> scc list \<Rightarrow> bool" where
  "topo_ok adj seen [] = True"
| "topo_ok adj seen (c # cs) =
     ((\<forall>u\<in>set (members c). set (neighbors adj u) \<subseteq> seen \<union> set (members c))
      \<and> topo_ok adj (seen \<union> set (members c)) cs)"

definition weight :: "(string \<rightharpoonup> string list) \<Rightarrow> frame \<Rightarrow> nat" where
  "weight adj f =
     (if phase f = 1 then 2 * (length (neighbors adj (node f)) - neighbor_idx f) + 2 else 1)"

definition potential :: "(string \<rightharpoonup> string list) \<Rightarrow> string set \<Rightarrow> tarjan_state \<Rightarrow> nat" where
  "potential adj V s =
     (\<Sum>u\<in>V - dom (indices s). 2 * length (neighbors adj u) + 2)
     + sum_list (map (weight adj) (call_stack s))"

lemma topo_ok_append:
  "topo_ok adj seen (cs @ ds) \<longleftrightarrow>
     topo_ok adj seen cs \<and> topo_ok adj (seen \<union> set (concat (map members cs))) ds"
  by (induction cs arbitrary: seen) (auto simp: Un_assoc)

lemma topo_ok_nth:
  assumes "topo_ok adj seen cs" and "i < length cs" and "u \<in> set (members (cs ! i))"
    and "v \<in> set (neighbors adj u)"
  shows "v \<in> seen \<or> (\<exists>j\<le>i. v \<in> set (members (cs ! j)))"
  using assms
proof (induction cs arbitrary: seen i)
  case (Cons c cs)
  show ?case
  proof (cases i)
    case 0
    with Cons.prems show ?thesis by auto
  next
    case (Suc k)
    with Cons.prems Cons.IH [of "seen \<union> set (members c)" k]
    have "v \<in> seen \<union> set (members c) \<or> (\<exists>j\<le>k. v \<in> set (members (cs ! j)))"
      by simp
    then show ?thesis
    proof (elim disjE exE conjE UnE)
      assume "v \<in> set (members c)"
      then show ?thesis by (intro disjI2 exI [of _ 0]) simp
    next
      fix j
      assume "j \<le> k" "v \<in> set (members (cs ! j))"
      with Suc show ?thesis by (intro disjI2 exI [of _ "Suc j"]) simp
    qed simp
  qed
qed simp

lemma pop_until_spec:
  assumes "st = pre @ n # post" and "n \<notin> set pre"
  shows "pop_until n st ons acc = Some (post, ons - set (pre @ [n]), acc @ pre @ [n])"
proof -
  have "n \<notin> set pre \<Longrightarrow> pop_until n (pre @ n # post) ons acc
          = Some (post, ons - set (pre @ [n]), acc @ pre @ [n])"
    by (induction pre arbitrary: ons acc) auto
  with assms show ?thesis by simp
qed

lemma by_index_distinct: "by_index s xs \<Longrightarrow> distinct xs"
  unfolding by_index_def by (induction xs) auto

lemma by_index_split:
  assumes "by_index s (pre @ n # post)"
  shows "set (pre @ [n]) = {u \<in> set (pre @ n # post). ix s n \<le> ix s u}"
    and "set post = {u \<in> set (pre @ n # post). ix s u < ix s n}"
  using assms by (auto simp: by_index_def sorted_wrt_append)

section \<open>States that differ in the cancellation counters only\<close>

definition same :: "tarjan_state \<Rightarrow> tarjan_state \<Rightarrow> bool" where
  "same s t \<longleftrightarrow> t = s\<lparr>steps_since_check := steps_since_check t, cancel_calls := cancel_calls t\<rparr>"

lemma same_iff: "same s t \<longleftrightarrow> index_counter t = index_counter s \<and> stack t = stack s
    \<and> on_stack t = on_stack s \<and> indices t = indices s \<and> lowlinks t = lowlinks s
    \<and> result t = result s \<and> call_stack t = call_stack s"
  by (cases s; cases t) (simp add: same_def)

lemma same_refl [simp]: "same s s" by (simp add: same_iff)
lemma same_sym: "same s t \<Longrightarrow> same t s" by (simp add: same_iff)
lemma same_trans: "same s t \<Longrightarrow> same t u \<Longrightarrow> same s u" by (simp add: same_iff)
lemma same_call_stack: "same s t \<Longrightarrow> call_stack t = call_stack s" by (simp add: same_iff)

lemma same_view: "same s t \<Longrightarrow> dom (indices t) = dom (indices s) \<and> pending t = pending s"
  by (simp add: same_iff pending_def)

lemma checkpoint_same: "checkpoint brk s = Some s1 \<Longrightarrow> same s s1"
  by (auto simp: checkpoint_def Let_def same_iff split: if_splits)

lemma checkpoint_never: "\<exists>s1. checkpoint (\<lambda>_. False) s = Some s1"
  by (simp add: checkpoint_def Let_def)

definition with_counters :: "nat \<Rightarrow> nat \<Rightarrow> tarjan_state \<Rightarrow> tarjan_state" where
  "with_counters a b s = s\<lparr>steps_since_check := a, cancel_calls := b\<rparr>"

definition flow_counters :: "nat \<Rightarrow> nat \<Rightarrow> flow \<Rightarrow> flow" where
  "flow_counters a b r = (case r of Continue s \<Rightarrow> Continue (with_counters a b s) | _ \<Rightarrow> r)"

lemma flow_counters_simps [simp]:
  "flow_counters a b (Continue s) = Continue (with_counters a b s)"
  "flow_counters a b Break = Break" "flow_counters a b (Panicked m) = Panicked m"
  by (simp_all add: flow_counters_def)

lemma enter_counters:
  "enter_node (with_counters a b s) f fs = flow_counters a b (enter_node s f fs)"
  by (simp add: enter_node_def with_counters_def)

lemma process_counters:
  "process_neighbor adj (with_counters a b s) f fs = flow_counters a b (process_neighbor adj s f fs)"
  by (simp add: process_neighbor_def Let_def with_counters_def split: option.split)

lemma update_parent_counters:
  "update_parent (with_counters a b s) n fs =
     (case update_parent s n fs of Panic m \<Rightarrow> Panic m | Val s' \<Rightarrow> Val (with_counters a b s'))"
  by (simp add: update_parent_def with_counters_def split: option.split list.split)

lemma emit_counters: "emit_scc (with_counters a b s) n = flow_counters a b (emit_scc s n)"
  by (simp add: emit_scc_def with_counters_def split: option.split)

lemma finish_counters:
  "finish_node (with_counters a b s) f fs = flow_counters a b (finish_node s f fs)"
proof -
  have "(with_counters a b s)\<lparr>call_stack := fs\<rparr> = with_counters a b (s\<lparr>call_stack := fs\<rparr>)"
    by (simp add: with_counters_def)
  then show ?thesis
    by (simp add: finish_node_def update_parent_counters emit_counters split: outcome.split)
qed

lemma dispatch_same:
  assumes "same s t" and "dispatch_phase adj s f fs = Continue s'"
  shows "\<exists>t'. dispatch_phase adj t f fs = Continue t' \<and> same s' t'"
proof -
  let ?w = "with_counters (steps_since_check t) (cancel_calls t)"
  from assms(1) have "t = ?w s" by (simp add: same_def with_counters_def)
  then have "dispatch_phase adj t f fs = flow_counters (steps_since_check t) (cancel_calls t)
      (dispatch_phase adj s f fs)"
    by (metis dispatch_phase_def enter_counters process_counters finish_counters
        flow_counters_simps(3))
  with assms(2) show ?thesis by (auto simp: same_iff with_counters_def)
qed

text \<open>An iteration forgets no index, and the pending node gets one.\<close>

lemma dispatch_mono:
  assumes "dispatch_phase adj s f fs = Continue s'" and "call_stack s = f # fs"
  shows "dom (indices s) \<union> pending s \<subseteq> dom (indices s')"
proof -
  have "indices s' = indices s" if "process_neighbor adj s f fs = Continue s'"
    using that by (auto simp: process_neighbor_def Let_def split: if_splits option.splits)
  moreover have "indices s' = indices s" if "finish_node s f fs = Continue s'"
  proof -
    from that obtain u where u: "update_parent (s\<lparr>call_stack := fs\<rparr>) (node f) fs = Val u"
      "emit_scc u (node f) = Continue s'"
      by (auto simp: finish_node_def split: outcome.splits)
    from u(1) have "indices u = indices s"
      by (auto simp: update_parent_def split: list.splits if_splits option.splits)
    with u(2) show ?thesis by (auto simp: emit_scc_def split: option.splits if_splits)
  qed
  moreover have "dom (indices s) \<union> {node f} \<subseteq> dom (indices s')"
    if "enter_node s f fs = Continue s'"
    using that by (auto simp: enter_node_def split: if_splits)
  ultimately show ?thesis
    using assms by (auto simp: dispatch_phase_def pending_def split: if_splits)
qed

section \<open>The invariant\<close>

locale tarjan_graph = finite_digraph V "neighbors adj"
  for V :: "string set" and adj :: "string \<rightharpoonup> string list"
begin

definition view_inv :: "tarjan_state \<Rightarrow> bool" where
  "view_inv s \<longleftrightarrow> core_inv (dom (indices s)) (set (stack s)) (set (map node (active s)))
     (pending s) (explored adj (active s)) (ix s) (lw s)"

definition res_inv :: "tarjan_state \<Rightarrow> bool" where
  "res_inv s \<longleftrightarrow>
     (\<forall>c\<in>set (result s). \<exists>v\<in>V. set (members c) = scc_of v)
     \<and> distinct (concat (map members (result s)))
     \<and> set (concat (map members (result s))) = dom (indices s) - set (stack s)
     \<and> topo_ok adj {} (result s)"

definition tarjan_inv :: "tarjan_state \<Rightarrow> bool" where
  "tarjan_inv s \<longleftrightarrow> frame_inv adj V s \<and> view_inv s \<and> res_inv s"

lemmas state_defs = frame_inv_def view_inv_def res_inv_def by_index_def frames_ok_def
  pending_def active_def ix_def lw_def

lemma core_inv_cong:
  assumes "core_inv D T G P ex i l" and "\<And>u. u \<in> T \<Longrightarrow> ex u = ex' u"
  shows "core_inv D T G P ex' i l"
proof -
  from assms(2) have "(\<forall>u\<in>T - G. ex u = set (neighbors adj u)) =
      (\<forall>u\<in>T - G. ex' u = set (neighbors adj u))"
    by auto
  with assms(2) have "core_sets D T G P ex i = core_sets D T G P ex' i"
    unfolding core_sets_def by (simp cong: ball_cong)
  moreover from assms(2) have "core_low T G ex i l = core_low T G ex' i l"
    unfolding core_low_def by (simp cong: ball_cong)
  ultimately show ?thesis using assms(1) by (simp add: core_inv_def)
qed

lemma view_counters [simp]:
  "ix (s\<lparr>steps_since_check := a\<rparr>) = ix s" "ix (s\<lparr>cancel_calls := b\<rparr>) = ix s"
  "lw (s\<lparr>steps_since_check := a\<rparr>) = lw s" "lw (s\<lparr>cancel_calls := b\<rparr>) = lw s"
  "active (s\<lparr>steps_since_check := a\<rparr>) = active s" "active (s\<lparr>cancel_calls := b\<rparr>) = active s"
  "pending (s\<lparr>steps_since_check := a\<rparr>) = pending s" "pending (s\<lparr>cancel_calls := b\<rparr>) = pending s"
  "frames_ok adj V (s\<lparr>steps_since_check := a\<rparr>) = frames_ok adj V s"
  "frames_ok adj V (s\<lparr>cancel_calls := b\<rparr>) = frames_ok adj V s"
  by (simp_all add: fun_eq_iff ix_def lw_def active_def pending_def frames_ok_def split: list.split)

lemma tarjan_inv_counters [simp]:
  "tarjan_inv (s\<lparr>steps_since_check := a\<rparr>) = tarjan_inv s"
  "tarjan_inv (s\<lparr>cancel_calls := b\<rparr>) = tarjan_inv s"
  "potential adj V (s\<lparr>steps_since_check := a\<rparr>) = potential adj V s"
  "potential adj V (s\<lparr>cancel_calls := b\<rparr>) = potential adj V s"
  by (simp_all add: tarjan_inv_def frame_inv_def view_inv_def res_inv_def by_index_def
      potential_def)

lemma checkpoint_inv:
  assumes "checkpoint brk s = Some s1"
  shows "tarjan_inv s1 = tarjan_inv s" "potential adj V s1 = potential adj V s"
    "call_stack s1 = call_stack s"
  using assms by (auto simp: checkpoint_def Let_def split: if_splits)

text \<open>The first active frame belongs to the top in-progress node.\<close>

lemma active_top:
  assumes "frame_inv adj V s" and "active s = f # fs"
  shows "top_gray (set (map node (active s))) (ix s) (node f)"
    and "node f \<notin> set (map node fs)"
  using assms by (auto simp: frame_inv_def by_index_def top_gray_def)

lemma active_Cons:
  assumes "frames_ok adj V s" and "call_stack s = f # fs"
  shows "active s = (if phase f = 0 then fs else f # fs)"
  using assms by (auto simp: frames_ok_def active_def filter_id_conv)

lemma by_index_mono:
  assumes "by_index s xs" and "\<And>u. u \<in> set xs \<Longrightarrow> ix s' u = ix s u"
  shows "by_index s' xs"
  using assms unfolding by_index_def by (auto intro: sorted_wrt_mono_rel [rotated])

lemma tarjan_invD:
  assumes "tarjan_inv s"
  shows "frame_inv adj V s" "view_inv s" "res_inv s" "frames_ok adj V s"
    "on_stack s = set (stack s)" "by_index s (stack s)" "dom (lowlinks s) = dom (indices s)"
    "dom (indices s) \<subseteq> V" "set (stack s) \<subseteq> dom (indices s)"
    "set (map node (active s)) \<subseteq> set (stack s)"
  using assms
  by (simp_all add: tarjan_inv_def frame_inv_def view_inv_def core_inv_def core_sets_def)

section \<open>Every iteration keeps the invariant\<close>

lemma enter_inv:
  assumes inv: "tarjan_inv s" and cs: "call_stack s = f # fs" "phase f = 0"
  shows "\<exists>s'. enter_node s f fs = Continue s' \<and> tarjan_inv s' \<and> potential adj V s' < potential adj V s"
proof -
  let ?v = "node f" and ?n = "index_counter s"
  define s' where "s' = s\<lparr>indices := (indices s)(?v \<mapsto> ?n), lowlinks := (lowlinks s)(?v \<mapsto> ?n),
    index_counter := ?n + 1, stack := ?v # stack s, on_stack := insert ?v (on_stack s),
    call_stack := f\<lparr>phase := 1\<rparr> # fs\<rparr>"
  have sel: "indices s' = (indices s)(?v \<mapsto> ?n)" "lowlinks s' = (lowlinks s)(?v \<mapsto> ?n)"
    "index_counter s' = ?n + 1" "stack s' = ?v # stack s" "on_stack s' = insert ?v (on_stack s)"
    "call_stack s' = f\<lparr>phase := 1\<rparr> # fs" "result s' = result s"
    by (simp_all add: s'_def)
  note I = tarjan_invD [OF inv]
  from I(4) cs have fr: "\<forall>g\<in>set fs. phase g = 1" "neighbor_idx f = 0" "?v \<in> V" "indices s ?v = None"
    "fs \<noteq> [] \<Longrightarrow> ?v \<in> set (neighbors adj (node (hd fs)))"
    by (simp_all add: frames_ok_def)
  then have vD: "?v \<notin> dom (indices s)" by auto
  with I have vT: "?v \<notin> set (stack s)" and vG: "?v \<notin> set (map node fs)"
    by (auto simp: active_Cons [OF I(4) cs(1)] cs)
  have act: "active s = fs" "active s' = f\<lparr>phase := 1\<rparr> # fs"
    using active_Cons [OF I(4) cs(1)] cs(2) fr(1) by (auto simp: s'_def active_def filter_id_conv)
  have ixlw: "ix s' = (ix s)(?v := ?n)" "lw s' = (lw s)(?v := ?n)"
    by (auto simp: s'_def ix_def lw_def fun_eq_iff)
  have fresh: "ix s u < ?n" if "u \<in> dom (indices s)" for u
    using I(1) that by (simp add: frame_inv_def)
  have exv: "explored adj (f\<lparr>phase := 1\<rparr> # fs) = (explored adj fs)(?v := {})"
    using fr(2) by (auto simp: explored_def fun_eq_iff)
  have pend: "pending s = {?v}" "pending s' = {}"
    using cs by (simp_all add: pending_def s'_def)
  have "enter_node s f fs = Continue s'"
    using fr(4) by (simp add: enter_node_def s'_def)
  moreover have "view_inv s'"
  proof -
    have "core_inv (dom (indices s)) (set (stack s)) (set (map node fs)) {?v}
        ((explored adj fs)(?v := {})) (ix s) (lw s)"
      using I(2) unfolding view_inv_def act pend by (rule core_inv_cong) (use vT in auto)
    then have "core_inv (insert ?v (dom (indices s))) (insert ?v (set (stack s)))
        (insert ?v (set (map node fs))) {} ((explored adj fs)(?v := {}))
        ((ix s)(?v := ?n)) ((lw s)(?v := ?n))"
    proof (rule core_enter)
      assume "set (map node fs) \<noteq> {}"
      then obtain g gs where "fs = g # gs" by (cases fs) auto
      with active_top(1) [OF I(1), of g gs] fr(5)
      show "\<exists>p. top_gray (set (map node fs)) (ix s) p \<and> ?v \<in> set (neighbors adj p)"
        by (auto simp: act)
    qed (use fr vD fresh in auto)
    then show ?thesis
      unfolding view_inv_def act exv ixlw pend by (simp add: s'_def)
  qed
  moreover have "frame_inv adj V s'"
  proof -
    have "by_index s' (stack s)"
      by (rule by_index_mono [OF I(6)]) (use vT in \<open>auto simp: ixlw\<close>)
    moreover have "by_index s (map node fs)"
      using I(1) by (simp add: frame_inv_def act)
    then have "by_index s' (map node fs)"
      by (rule by_index_mono) (metis fun_upd_other ixlw(1) vG)
    moreover have "ix s' u < ?n" if "u \<in> set (stack s)" for u
      using that vT I(9) fresh by (auto simp: ixlw)
    moreover have "\<forall>u\<in>set (map node fs). ix s' u < ?n"
      using calculation(3) I(10) by (auto simp: act)
    ultimately show ?thesis
      using I(1,4) fr(1,2) fresh cs
      by (auto simp: frame_inv_def frames_ok_def by_index_def act ixlw sel less_Suc_eq)
  qed
  moreover have "res_inv s'"
    using I(3) vD vT by (auto simp: res_inv_def s'_def)
  moreover have "potential adj V s' < potential adj V s"
  proof -
    have "V - dom (indices s) = insert ?v (V - insert ?v (dom (indices s)))"
      using fr(3) vD by blast
    then have "(\<Sum>u\<in>V - dom (indices s). 2 * length (neighbors adj u) + 2) =
        (2 * length (neighbors adj ?v) + 2) +
        (\<Sum>u\<in>V - insert ?v (dom (indices s)). 2 * length (neighbors adj u) + 2)"
      using finite_V by (metis (no_types, lifting) Diff_iff finite_Diff insertI1 sum.insert)
    then show ?thesis
      using cs fr(2) by (simp add: potential_def s'_def weight_def)
  qed
  ultimately show ?thesis by (auto simp: tarjan_inv_def)
qed

lemma frame_inv_same:
  assumes "frame_inv adj V s" and "map node (active s') = map node (active s)"
    and "stack s' = stack s" "on_stack s' = on_stack s" "indices s' = indices s"
    "index_counter s' = index_counter s" "dom (lowlinks s') = dom (lowlinks s)"
    and "frames_ok adj V s'"
  shows "frame_inv adj V s'" "ix s' = ix s"
proof -
  show "ix s' = ix s" using assms by (simp add: ix_def fun_eq_iff)
  with assms show "frame_inv adj V s'" by (simp add: frame_inv_def by_index_def)
qed

lemma res_inv_same:
  assumes "res_inv s" and "result s' = result s" "indices s' = indices s" "stack s' = stack s"
  shows "res_inv s'"
  using assms by (simp add: res_inv_def)

lemma potential_same_visited:
  assumes "indices s' = indices s"
    and "sum_list (map (weight adj) (call_stack s')) < sum_list (map (weight adj) (call_stack s))"
  shows "potential adj V s' < potential adj V s"
  using assms by (simp add: potential_def)

text \<open>Advancing over a neighbor adds it to the explored successors of the top node.\<close>

lemma explored_advance:
  assumes "neighbor_idx f < length (neighbors adj (node f))"
  shows "explored adj (f\<lparr>neighbor_idx := neighbor_idx f + 1\<rparr> # fs) =
    (explored adj (f # fs))(node f :=
       insert (neighbors adj (node f) ! neighbor_idx f) (explored adj (f # fs) (node f)))"
  using assms by (auto simp: explored_def fun_eq_iff take_Suc_conv_app_nth)

lemma neighbor_inv:
  assumes inv: "tarjan_inv s" and cs: "call_stack s = f # fs" "phase f = 1"
  shows "\<exists>s'. process_neighbor adj s f fs = Continue s' \<and> tarjan_inv s'
           \<and> potential adj V s' < potential adj V s"
proof (cases "neighbor_idx f < length (neighbors adj (node f))")
  case False
  let ?s' = "s\<lparr>call_stack := f\<lparr>phase := 2\<rparr> # fs\<rparr>"
  note I = tarjan_invD [OF inv]
  have act: "active s = f # fs" using active_Cons [OF I(4) cs(1)] cs(2) by simp
  have act': "active ?s' = f\<lparr>phase := 2\<rparr> # fs"
    using I(4) cs by (auto simp: active_def frames_ok_def filter_id_conv)
  have "frame_inv adj V ?s'" "ix ?s' = ix s"
    using I(4) cs False
    by (intro frame_inv_same [OF I(1)]; simp add: act act' frames_ok_def)+
  moreover have "lw ?s' = lw s" by (simp add: lw_def fun_eq_iff)
  moreover have "explored adj (active ?s') = explored adj (active s)"
    by (simp add: explored_def act act' fun_eq_iff)
  moreover have "pending ?s' = pending s" using cs by (simp add: pending_def)
  ultimately have "tarjan_inv ?s'"
    using I(2) res_inv_same [OF I(3), of ?s'] by (simp add: tarjan_inv_def view_inv_def act act')
  moreover have "potential adj V ?s' < potential adj V s"
    by (rule potential_same_visited) (use cs False in \<open>simp_all add: weight_def\<close>)
  ultimately show ?thesis using False by (simp add: process_neighbor_def)
next
  case True
  let ?t = "node f" and ?nb = "neighbors adj (node f) ! neighbor_idx f"
    and ?f = "f\<lparr>neighbor_idx := neighbor_idx f + 1\<rparr>"
  note I = tarjan_invD [OF inv]
  from True have nb: "?nb \<in> set (neighbors adj ?t)" by simp
  have act: "active s = f # fs" using active_Cons [OF I(4) cs(1)] cs(2) by simp
  have top: "top_gray (set (map node (active s))) (ix s) ?t" by (rule active_top(1) [OF I(1) act])
  have phfs: "\<forall>g\<in>set fs. phase g = 1" using I(4) cs by (simp add: frames_ok_def)
  have pend: "pending s = {}" using cs by (simp add: pending_def)
  note view = I(2) [unfolded view_inv_def pend]
  have tD: "?t \<in> dom (indices s)" using I(9,10) act by auto
  have keep: "tarjan_inv s' \<and> potential adj V s' < potential adj V s"
    if s': "s' = s\<lparr>call_stack := gs @ ?f # fs, lowlinks := l\<rparr>" and dl: "dom l = dom (lowlinks s)"
      and gs: "gs = [] \<or> gs = [\<lparr>node = ?nb, neighbor_idx = 0, phase = 0\<rparr>] \<and> indices s ?nb = None"
      and core: "core_inv (dom (indices s)) (set (stack s)) (set (map node (active s))) (pending s')
        ((explored adj (f # fs))(?t := insert ?nb (explored adj (f # fs) ?t))) (ix s) (lw s')"
    for s' gs l
  proof -
    have act': "active s' = ?f # fs"
      using gs phfs cs(2) by (auto simp: s' active_def filter_id_conv)
    have "?nb \<in> V" using succs_closed [of ?t] tD I(8) nb by blast
    then have "frames_ok adj V s'"
      using gs phfs cs(2) nb by (auto simp: s' frames_ok_def)
    moreover have "map node (active s') = map node (active s)"
      by (simp add: act' act)
    ultimately have fi: "frame_inv adj V s'" "ix s' = ix s"
      using frame_inv_same [OF I(1), of s'] dl by (simp_all add: s')
    have "view_inv s'"
      using core unfolding view_inv_def fi(2) act' explored_advance [OF True] act by (simp add: s')
    moreover have "res_inv s'"
      by (rule res_inv_same [OF I(3)]) (simp_all add: s')
    moreover have "potential adj V s' < potential adj V s"
      by (rule potential_same_visited) (use gs cs True in \<open>auto simp: s' weight_def\<close>)
    ultimately show ?thesis using fi by (simp add: tarjan_inv_def)
  qed
  consider (new) "indices s ?nb = None" | (on) "?nb \<in> set (stack s)"
    | (off) "indices s ?nb \<noteq> None" "?nb \<notin> set (stack s)" by blast
  then show ?thesis
  proof cases
    case new
    let ?s' = "s\<lparr>call_stack := [\<lparr>node = ?nb, neighbor_idx = 0, phase = 0\<rparr>] @ ?f # fs, lowlinks := lowlinks s\<rparr>"
    have "?nb \<notin> set (stack s)" using new I(9) by auto
    then have "tarjan_inv ?s' \<and> potential adj V ?s' < potential adj V s"
      using new core_explore [OF view top nb, of "{?nb}"]
      by (intro keep [OF refl]) (simp_all add: pending_def lw_def [abs_def] act)
    with new True show ?thesis by (simp add: process_neighbor_def)
  next
    case on
    obtain ni cl where ni: "indices s ?nb = Some ni" and cl: "lowlinks s ?t = Some cl"
      using on tD I(7,9) by blast
    let ?l = "if ni < cl then (lowlinks s)(?t \<mapsto> ni) else lowlinks s"
    let ?s' = "s\<lparr>call_stack := [] @ ?f # fs, lowlinks := ?l\<rparr>"
    have "lw ?s' = (lw s)(?t := min (lw s ?t) (ix s ?nb))"
      using ni cl by (auto simp: lw_def ix_def fun_eq_iff min_def)
    then have "tarjan_inv ?s' \<and> potential adj V ?s' < potential adj V s"
      using core_explore_stack [OF view top nb on] tD I(7) cs
      by (intro keep [OF refl]) (auto simp: pending_def act)
    moreover have "process_neighbor adj s f fs = Continue ?s'"
      using True ni cl on I(5) by (auto simp: process_neighbor_def Let_def)
    ultimately show ?thesis by blast
  next
    case off
    let ?s' = "s\<lparr>call_stack := [] @ ?f # fs, lowlinks := lowlinks s\<rparr>"
    have "tarjan_inv ?s' \<and> potential adj V ?s' < potential adj V s"
      using off core_explore [OF view top nb, of "{}"] cs
      by (intro keep [OF refl]) (auto simp: pending_def lw_def [abs_def] act)
    with off True I(5) show ?thesis by (auto simp: process_neighbor_def Let_def)
  qed
qed

text \<open>Leaving the top frame does not change what counts as explored once it is full.\<close>

lemma explored_leave:
  assumes "length (neighbors adj (node f)) \<le> neighbor_idx f" and "node f \<notin> set (map node fs)"
  shows "explored adj fs = explored adj (f # fs)"
    and "explored adj (f # fs) (node f) = set (neighbors adj (node f))"
proof -
  from assms(2) have "map_of (map (\<lambda>f. (node f, neighbor_idx f)) fs) (node f) = None"
    by (auto simp: map_of_eq_None_iff)
  with assms(1) show "explored adj fs = explored adj (f # fs)"
    "explored adj (f # fs) (node f) = set (neighbors adj (node f))"
    by (auto simp: explored_def fun_eq_iff)
qed

lemma potential_pop:
  assumes "indices s' = indices s" and "call_stack s = f # call_stack s'"
  shows "potential adj V s' < potential adj V s"
  by (rule potential_same_visited) (use assms in \<open>simp_all add: weight_def\<close>)

lemma finish_common:
  assumes inv: "tarjan_inv s" and cs: "call_stack s = f # fs" "phase f = 2"
  shows "active s = f # fs" and "\<forall>g\<in>set fs. phase g = 1" and "node f \<notin> set (map node fs)"
    and "core_inv (dom (indices s)) (set (stack s)) (set (map node (f # fs))) {}
      (explored adj fs) (ix s) (lw s)"
    and "top_gray (set (map node (f # fs))) (ix s) (node f)"
    and "explored adj fs (node f) = set (neighbors adj (node f))"
    and "set (map node (f # fs)) - {node f} = set (map node fs)"
    and "by_index s (map node fs)"
proof -
  note I = tarjan_invD [OF inv]
  show act: "active s = f # fs" using active_Cons [OF I(4) cs(1)] cs(2) by simp
  show "\<forall>g\<in>set fs. phase g = 1" using I(4) cs by (simp add: frames_ok_def)
  show nf: "node f \<notin> set (map node fs)" by (rule active_top(2) [OF I(1) act])
  have full: "length (neighbors adj (node f)) \<le> neighbor_idx f"
    using I(4) cs by (simp add: frames_ok_def)
  note ex = explored_leave [OF full nf]
  have "pending s = {}" using cs by (simp add: pending_def)
  with I(2) show "core_inv (dom (indices s)) (set (stack s)) (set (map node (f # fs))) {}
      (explored adj fs) (ix s) (lw s)"
    unfolding view_inv_def act ex(1) by simp
  show "top_gray (set (map node (f # fs))) (ix s) (node f)"
    using active_top(1) [OF I(1) act] unfolding act .
  show "explored adj fs (node f) = set (neighbors adj (node f))" using ex by simp
  show "set (map node (f # fs)) - {node f} = set (map node fs)" using nf by auto
  show "by_index s (map node fs)" using I(1) act by (simp add: frame_inv_def by_index_def)
qed

lemma finish_inner_inv:
  assumes inv: "tarjan_inv s" and cs: "call_stack s = f # fs" "phase f = 2"
    and inner: "lw s (node f) \<noteq> ix s (node f)"
  shows "\<exists>s'. finish_node s f fs = Continue s' \<and> tarjan_inv s' \<and> potential adj V s' < potential adj V s"
proof -
  let ?t = "node f"
  note I = tarjan_invD [OF inv] and F = finish_common [OF inv cs]
  note core = core_finish_inner [OF F(4,5,6) inner, unfolded F(7)]
  from core(1) obtain p ps where fs: "fs = p # ps" by (cases fs) auto
  let ?p = "node p"
  have pt: "?p \<in> dom (indices s)" "?t \<in> dom (indices s)" "?p \<noteq> ?t"
    using I(9,10) F(1,3) fs by auto
  then obtain cl pl where cl: "lowlinks s ?t = Some cl" and pl: "lowlinks s ?p = Some pl"
    using I(7) by blast
  let ?l = "if cl < pl then (lowlinks s)(?p \<mapsto> cl) else lowlinks s"
  define s' where "s' = s\<lparr>call_stack := fs, lowlinks := ?l\<rparr>"
  have lw': "lw s' = (lw s)(?p := min (lw s ?p) (lw s ?t))"
    using cl pl by (auto simp: s'_def lw_def fun_eq_iff min_def)
  have ix': "ix s' = ix s" by (simp add: s'_def ix_def fun_eq_iff)
  have act': "active s' = fs" using F(2) by (simp add: s'_def active_def)
  have "top_gray (set (map node fs)) (ix s) ?p"
    using F(8) fs by (auto simp: top_gray_def by_index_def)
  from core(2) [OF this] have "view_inv s'"
    using F(2) fs unfolding view_inv_def lw' ix' act' by (simp add: s'_def pending_def)
  moreover have "frame_inv adj V s'"
    using I(1) F(2,8) pt(1) fs act' ix' I(7)
    by (auto simp: frame_inv_def frames_ok_def by_index_def s'_def)
  moreover have "res_inv s'" by (rule res_inv_same [OF I(3)]) (simp_all add: s'_def)
  moreover have "potential adj V s' < potential adj V s"
    by (rule potential_pop [of _ _ f]) (simp_all add: s'_def cs)
  moreover have "finish_node s f fs = Continue s'"
  proof -
    have "cl \<noteq> the (indices s ?t)" using inner cl by (simp add: lw_def ix_def)
    then show ?thesis
      using cl pl pt fs F(2) by (auto simp: finish_node_def update_parent_def emit_scc_def s'_def)
  qed
  ultimately show ?thesis by (auto simp: tarjan_inv_def)
qed

lemma finish_root_inv:
  assumes inv: "tarjan_inv s" and cs: "call_stack s = f # fs" "phase f = 2"
    and root: "lw s (node f) = ix s (node f)"
  shows "\<exists>s'. finish_node s f fs = Continue s' \<and> tarjan_inv s' \<and> potential adj V s' < potential adj V s"
proof -
  let ?t = "node f"
  note I = tarjan_invD [OF inv] and F = finish_common [OF inv cs]
  note core = core_finish_root [OF F(4,5,6) root, unfolded F(7)]
    and comp = core_root_scc [OF F(4,5,6) root]
    and closed = core_root_closed [OF F(4,5,6) root]
  have tT: "?t \<in> set (stack s)" using I(10) F(1) by auto
  then obtain pre post where st: "stack s = pre @ ?t # post" and npre: "?t \<notin> set pre"
    by (meson split_list_first)
  note sp = by_index_split [OF I(6) [unfolded st], folded st]
  define s' where "s' = s\<lparr>call_stack := fs, stack := post, on_stack := on_stack s - set (pre @ [?t]),
    result := result s @ [\<lparr>members = rev (pre @ [?t])\<rparr>]\<rparr>"
  have sel: "indices s' = indices s" "lowlinks s' = lowlinks s"
    "index_counter s' = index_counter s" "stack s' = post" "on_stack s' = on_stack s - set (pre @ [?t])"
    "call_stack s' = fs" "result s' = result s @ [\<lparr>members = rev (pre @ [?t])\<rparr>]"
    by (simp_all add: s'_def)
  have tD: "?t \<in> dom (indices s)" using tT I(9) by auto
  have ixlw: "ix s' = ix s" "lw s' = lw s" by (simp_all add: s'_def ix_def lw_def fun_eq_iff)
  have act': "active s' = fs" using F(2) by (simp add: s'_def active_def)
  have pend: "pending s' = {}" using F(2) by (simp add: s'_def pending_def split: list.split)
  have dist: "distinct (stack s)" by (rule by_index_distinct [OF I(6)])
  have post: "set post = {u \<in> set (stack s). ix s u < ix s ?t}" by (rule sp(2))
  have memb: "set (rev (pre @ [?t])) = scc_of ?t" using comp sp(1) by simp
  have "view_inv s'"
    using core unfolding view_inv_def ixlw act' pend by (simp add: s'_def post)
  moreover have "frame_inv adj V s'"
  proof -
    have "on_stack s' = set (stack s')" using I(5) dist st by (auto simp: sel)
    moreover have "by_index s' (stack s')"
      using I(6) st by (simp add: by_index_def ixlw sel sorted_wrt_append)
    moreover have "frames_ok adj V s'"
      using F(2) by (auto simp: frames_ok_def s'_def split: list.split)
    ultimately show ?thesis
      using I(1) F(8) by (simp add: frame_inv_def by_index_def act' ixlw sel)
  qed
  moreover have "res_inv s'"
  proof -
    have R: "\<forall>c\<in>set (result s). \<exists>v\<in>V. set (members c) = scc_of v"
      "distinct (concat (map members (result s)))"
      "set (concat (map members (result s))) = dom (indices s) - set (stack s)"
      "topo_ok adj {} (result s)"
      using I(3) by (simp_all add: res_inv_def)
    have "?t \<in> V" using tD I(8) by blast
    moreover have "distinct (concat (map members (result s')))"
      using R(2,3) dist st by (auto simp: s'_def)
    moreover have "set (concat (map members (result s'))) = dom (indices s') - set (stack s')"
      using R(3) I(9) st dist by (auto simp: s'_def)
    moreover have "topo_ok adj {} (result s')"
      using R(4) closed sp(1) unfolding s'_def by (auto simp: topo_ok_append R(3) [simplified])
    moreover from \<open>?t \<in> V\<close> have "\<forall>c\<in>set (result s'). \<exists>v\<in>V. set (members c) = scc_of v"
      using R(1) memb by (auto simp: sel)
    ultimately show ?thesis unfolding res_inv_def by blast
  qed
  moreover have "potential adj V s' < potential adj V s"
    by (rule potential_pop [of _ _ f]) (simp_all add: s'_def cs)
  moreover have "finish_node s f fs = Continue s'"
  proof -
    obtain i where i: "indices s ?t = Some i" "lowlinks s ?t = Some i"
      using tD root unfolding lw_def ix_def by (metis I(7) domD option.sel)
    have "update_parent (s\<lparr>call_stack := fs\<rparr>) ?t fs = Val (s\<lparr>call_stack := fs\<rparr>)"
    proof (cases fs)
      case (Cons p ps)
      have p: "node p \<in> set (map node (f # fs))" using Cons by simp
      have "lw s (node p) \<le> ix s (node p)"
        using F(4) p unfolding core_inv_def core_low_def by blast
      also have "\<dots> < ix s ?t"
        using I(1) F(1) Cons by (auto simp: frame_inv_def by_index_def)
      finally have "lw s (node p) < i" using i by (simp add: ix_def)
      moreover have "node p \<in> dom (lowlinks s)"
        using I(9,10) F(1) Cons unfolding I(7) by auto
      then obtain pl where "lowlinks s (node p) = Some pl" by blast
      ultimately show ?thesis using Cons i F(2) by (simp add: update_parent_def lw_def)
    qed (simp add: update_parent_def)
    then show ?thesis
      using i pop_until_spec [OF st npre] by (simp add: finish_node_def emit_scc_def s'_def)
  qed
  ultimately show ?thesis by (auto simp: tarjan_inv_def)
qed

lemma dispatch_inv:
  assumes inv: "tarjan_inv s" and cs: "call_stack s = f # fs"
  shows "\<exists>s'. dispatch_phase adj s f fs = Continue s' \<and> tarjan_inv s'
           \<and> potential adj V s' < potential adj V s"
proof -
  have "phase f \<le> 2"
    using tarjan_invD(4) [OF inv] cs by (simp add: frames_ok_def)
  then consider "phase f = 0" | "phase f = 1" | "phase f = 2" by linarith
  then show ?thesis
  proof cases
    case 1
    from enter_inv [OF inv cs 1] 1 show ?thesis by (simp add: dispatch_phase_def)
  next
    case 2
    from neighbor_inv [OF inv cs 2] 2 show ?thesis by (simp add: dispatch_phase_def)
  next
    case 3
    from finish_inner_inv [OF inv cs 3] finish_root_inv [OF inv cs 3]
    have "\<exists>s'. finish_node s f fs = Continue s' \<and> tarjan_inv s' \<and> potential adj V s' < potential adj V s"
      by blast
    with 3 show ?thesis by (simp add: dispatch_phase_def)
  qed
qed

section \<open>The loop returns\<close>

lemma visit_loop_returns:
  assumes "tarjan_inv s" and "same s t"
  shows "\<exists>s'. visit_loop adj (\<lambda>_. False) s = Some (Continue s') \<and> tarjan_inv s' \<and> call_stack s' = []
    \<and> dom (indices s) \<union> pending s \<subseteq> dom (indices s')
    \<and> (visit_loop adj brk t = Some Break \<or>
        (\<exists>t'. visit_loop adj brk t = Some (Continue t') \<and> same s' t'))"
  using assms
proof (induction "potential adj V s" arbitrary: s t rule: less_induct)
  case less
  show ?case
  proof (cases "call_stack s")
    case Nil
    with less.prems show ?thesis
      by (auto simp: visit_loop.simps pending_def same_call_stack)
  next
    case (Cons f fs)
    obtain s1 where s1: "checkpoint (\<lambda>_. False) s = Some s1" using checkpoint_never by blast
    note ck = checkpoint_inv [OF s1]
    from ck less.prems Cons have "tarjan_inv s1" "call_stack s1 = f # fs" by simp_all
    from dispatch_inv [OF this] obtain s2 where s2: "dispatch_phase adj s1 f fs = Continue s2"
      "tarjan_inv s2" "potential adj V s2 < potential adj V s" using ck by auto
    note step = less.hyps [OF s2(3,2)]
    have loop: "visit_loop adj (\<lambda>_. False) s = visit_loop adj (\<lambda>_. False) s2"
      using s2(1) Cons s1 by (simp add: visit_loop.simps [of adj _ s])
    have mono: "dom (indices s) \<union> pending s \<subseteq> dom (indices s2)"
      using dispatch_mono [OF s2(1) \<open>call_stack s1 = f # fs\<close>] same_view [OF checkpoint_same [OF s1]]
      by simp
    have ct: "call_stack t = f # fs" using less.prems(2) Cons by (simp add: same_call_stack)
    show ?thesis
    proof (cases "checkpoint brk t")
      case None
      with ct have "visit_loop adj brk t = Some Break" by (simp add: visit_loop.simps [of adj brk t])
      moreover obtain s' where "visit_loop adj (\<lambda>_. False) s2 = Some (Continue s')" "tarjan_inv s'"
        "call_stack s' = []" "dom (indices s2) \<union> pending s2 \<subseteq> dom (indices s')"
        using step [OF same_refl] by blast
      ultimately show ?thesis using mono loop by (intro exI [of _ s']) (simp, blast)
    next
      case (Some t1)
      have "same s1 t1"
        using checkpoint_same [OF s1] checkpoint_same [OF Some] less.prems(2)
        by (meson same_sym same_trans)
      from dispatch_same [OF this s2(1)] obtain t2 where
        t2: "dispatch_phase adj t1 f fs = Continue t2" "same s2 t2" by blast
      have "visit_loop adj brk t = visit_loop adj brk t2"
        using t2(1) ct Some by (simp add: visit_loop.simps [of adj brk t])
      moreover obtain s' where "visit_loop adj (\<lambda>_. False) s2 = Some (Continue s')" "tarjan_inv s'"
        "call_stack s' = []" "dom (indices s2) \<union> pending s2 \<subseteq> dom (indices s')"
        "visit_loop adj brk t2 = Some Break \<or>
          (\<exists>t'. visit_loop adj brk t2 = Some (Continue t') \<and> same s' t')"
        using step [OF t2(2)] by blast
      ultimately show ?thesis using mono loop by (intro exI [of _ s']) (simp, blast)
    qed
  qed
qed

text \<open>Between two start nodes the Tarjan stack is empty.\<close>

lemma idle_stack_empty:
  assumes "tarjan_inv s" and "call_stack s = []"
  shows "stack s = []"
  using tarjan_invD(2) [OF assms(1)] assms(2)
  by (auto simp: view_inv_def core_inv_def core_reach_def active_def)

lemma tarjan_inv_start:
  assumes inv: "tarjan_inv s" and cs: "call_stack s = []" and n: "n \<in> V" "indices s n = None"
  shows "tarjan_inv (s\<lparr>call_stack := [\<lparr>node = n, neighbor_idx = 0, phase = 0\<rparr>]\<rparr>)"
proof -
  let ?s = "s\<lparr>call_stack := [\<lparr>node = n, neighbor_idx = 0, phase = 0\<rparr>]\<rparr>"
  note I = tarjan_invD [OF inv] and e = idle_stack_empty [OF inv cs]
  have v: "ix ?s = ix s" "lw ?s = lw s" "active ?s = active s" "active s = []"
    using cs by (simp_all add: ix_def lw_def active_def fun_eq_iff)
  have "frame_inv adj V ?s"
    using I(1) n v by (simp add: frame_inv_def frames_ok_def by_index_def)
  moreover have "view_inv ?s"
    using I(2) e unfolding view_inv_def v
    by (simp add: core_inv_def core_sets_def core_reach_def core_low_def)
  moreover have "res_inv ?s" by (rule res_inv_same [OF I(3)]) simp_all
  ultimately show ?thesis by (simp add: tarjan_inv_def)
qed

lemma visit_all_returns:
  assumes "tarjan_inv s" and "call_stack s = []" and "same s t" and "set ns \<subseteq> V"
  shows "\<exists>s'. visit_all adj (\<lambda>_. False) ns s = Some (Continue s') \<and> tarjan_inv s' \<and> call_stack s' = []
    \<and> dom (indices s) \<union> set ns \<subseteq> dom (indices s')
    \<and> (visit_all adj brk ns t = Some Break \<or>
        (\<exists>t'. visit_all adj brk ns t = Some (Continue t') \<and> same s' t'))"
  using assms
proof (induction ns arbitrary: s t)
  case (Cons n ns)
  have it: "indices t = indices s" using Cons.prems(3) by (simp add: same_iff)
  show ?case
  proof (cases "indices s n = None")
    case False
    obtain s' where "visit_all adj (\<lambda>_. False) ns s = Some (Continue s')" "tarjan_inv s'"
      "call_stack s' = []" "dom (indices s) \<union> set ns \<subseteq> dom (indices s')"
      "visit_all adj brk ns t = Some Break \<or>
        (\<exists>t'. visit_all adj brk ns t = Some (Continue t') \<and> same s' t')"
      using Cons.IH [OF Cons.prems(1-3)] Cons.prems(4) by auto
    with False it show ?thesis by (intro exI [of _ s']) auto
  next
    case True
    let ?start = "\<lambda>s. s\<lparr>call_stack := [\<lparr>node = n, neighbor_idx = 0, phase = 0\<rparr>]\<rparr>"
    have "tarjan_inv (?start s)"
      using Cons.prems True by (intro tarjan_inv_start) auto
    moreover have "same (?start s) (?start t)" using Cons.prems(3) by (simp add: same_iff)
    ultimately obtain s1 where s1: "tarjan_visit adj (\<lambda>_. False) n s = Some (Continue s1)"
      "tarjan_inv s1" "call_stack s1 = []" "dom (indices s) \<union> {n} \<subseteq> dom (indices s1)"
      "tarjan_visit adj brk n t = Some Break \<or>
        (\<exists>t1. tarjan_visit adj brk n t = Some (Continue t1) \<and> same s1 t1)"
      using visit_loop_returns [of "?start s" "?start t" brk]
      by (auto simp: tarjan_visit_def pending_def)
    have go: "visit_all adj (\<lambda>_. False) (n # ns) s = visit_all adj (\<lambda>_. False) ns s1"
      using True s1(1) by simp
    have sub: "set ns \<subseteq> V" using Cons.prems(4) by simp
    from s1(5) show ?thesis
    proof (elim disjE exE conjE)
      assume "tarjan_visit adj brk n t = Some Break"
      with True it have "visit_all adj brk (n # ns) t = Some Break" by simp
      with go s1(4) Cons.IH [OF s1(2,3) same_refl sub] show ?thesis by force
    next
      fix t1
      assume t1: "tarjan_visit adj brk n t = Some (Continue t1)" "same s1 t1"
      then have "visit_all adj brk (n # ns) t = visit_all adj brk ns t1" using True it by simp
      with go s1(4) Cons.IH [OF s1(2,3) t1(2) sub] show ?thesis by force
    qed
  qed
qed simp

lemma tarjan_inv_init: "tarjan_inv init_state"
  by (simp add: tarjan_inv_def frame_inv_def frames_ok_def by_index_def view_inv_def res_inv_def
      init_state_def active_def core_inv_empty)

text \<open>What holds when every node has been visited.\<close>

lemma tarjan_inv_done:
  assumes "tarjan_inv s" and "call_stack s = []" and "V \<subseteq> dom (indices s)"
  shows "distinct (concat (map members (result s)))"
    and "set (concat (map members (result s))) = V"
    and "(\<lambda>c. set (members c)) ` set (result s) = scc_of ` V"
    and "topo_ok adj {} (result s)"
proof -
  note I = tarjan_invD [OF assms(1)] and e = idle_stack_empty [OF assms(1,2)]
  show "distinct (concat (map members (result s)))" "topo_ok adj {} (result s)"
    using I(3) by (simp_all add: res_inv_def)
  show cover: "set (concat (map members (result s))) = V"
    using I(3,8) e assms(3) by (auto simp: res_inv_def)
  have comps: "\<exists>v\<in>V. set (members c) = scc_of v" if "c \<in> set (result s)" for c
    using I(3) that by (simp add: res_inv_def)
  show "(\<lambda>c. set (members c)) ` set (result s) = scc_of ` V"
  proof (intro equalityI subsetI)
    fix A
    assume "A \<in> scc_of ` V"
    then obtain v where v: "v \<in> V" "A = scc_of v" by blast
    with cover obtain c where c: "c \<in> set (result s)" "v \<in> set (members c)" by auto
    with comps obtain u where "set (members c) = scc_of u" by blast
    with c v scc_of_eq show "A \<in> (\<lambda>c. set (members c)) ` set (result s)" by blast
  qed (use comps in blast)
qed

end

section \<open>The entry points\<close>

text \<open>The graph of the edge list and its strongly connected classes, independently of the code.\<close>

definition edge_rel :: "directed_edge list \<Rightarrow> (string \<times> string) set" where
  "edge_rel es = {(edge_source e, edge_target e) | e. e \<in> set es}"

definition strongly_connected :: "directed_edge list \<Rightarrow> string \<Rightarrow> string set" where
  "strongly_connected es u = {v. (u, v) \<in> (edge_rel es)\<^sup>* \<and> (v, u) \<in> (edge_rel es)\<^sup>*}"

interpretation tg: tarjan_graph "all_nodes es" "build_adjacency es" for es
  by unfold_locales (auto simp: neighbors_build all_nodes_def)

lemma edge_rel_iff: "(u, v) \<in> edge_rel es \<longleftrightarrow> v \<in> set (neighbors (build_adjacency es) u)"
  by (auto simp: edge_rel_def neighbors_build)

lemma tg_E: "tg.E es = edge_rel es"
  by (auto simp: tg.E_def edge_rel_iff)

lemma tg_scc_of: "tg.scc_of es = strongly_connected es"
  by (auto simp: tg.scc_of_def tg_E strongly_connected_def fun_eq_iff)

text \<open>The run behind both entry points.\<close>

lemma find_sccs_run:
  obtains r where "find_sccs es = Some (Val r)"
    and "find_sccs_cancellable es brk = Some (Val (Inl Cancelled))
         \<or> find_sccs_cancellable es brk = Some (Val (Inr r))"
    and "distinct (concat (map members (all_sccs r)))"
    and "set (concat (map members (all_sccs r))) = all_nodes es"
    and "(\<lambda>c. set (members c)) ` set (all_sccs r) = strongly_connected es ` all_nodes es"
    and "topo_ok (build_adjacency es) {} (all_sccs r)"
    and "cycles r = filter is_cycle (all_sccs r)"
    and "node_count r = card (all_nodes es)" and "edge_count r = length es"
proof -
  let ?adj = "build_adjacency es" and ?ns = "sorted_list_of_set (all_nodes es)"
  have ns: "set ?ns = all_nodes es" by simp
  obtain s where s: "visit_all ?adj (\<lambda>_. False) ?ns init_state = Some (Continue s)"
    "tg.tarjan_inv es s" "call_stack s = []"
    "dom (indices init_state) \<union> set ?ns \<subseteq> dom (indices s)"
    "visit_all ?adj brk ?ns init_state = Some Break \<or>
      (\<exists>t. visit_all ?adj brk ?ns init_state = Some (Continue t) \<and> same s t)"
    using tg.visit_all_returns [OF tg.tarjan_inv_init _ same_refl, of ?ns es brk]
    by (auto simp: init_state_def)
  let ?r = "\<lparr>all_sccs = result s, cycles = filter is_cycle (result s),
    node_count = card (all_nodes es), edge_count = length es\<rparr>"
  from s(4) ns have "all_nodes es \<subseteq> dom (indices s)" by simp
  note fin = tg.tarjan_inv_done [OF s(2,3) this]
  show thesis
  proof
    show "find_sccs es = Some (Val ?r)"
      using s(1) by (simp add: find_sccs_def find_sccs_cancellable_def Let_def)
    show "find_sccs_cancellable es brk = Some (Val (Inl Cancelled))
         \<or> find_sccs_cancellable es brk = Some (Val (Inr ?r))"
      using s(5) by (auto simp: find_sccs_cancellable_def Let_def same_iff)
  qed (use fin in \<open>simp_all add: tg_scc_of\<close>)
qed

text \<open>
  C1. \<open>find_sccs\<close> returns on every edge list, without a panic, and its components are exactly the
  classes of mutual reachability of the graph: every node occurs in one component and once, each
  component is the class of its nodes, and the component sizes add up to the reported node count.
\<close>

theorem find_sccs_components:
  "\<exists>r. find_sccs es = Some (Val r)
     \<and> distinct (concat (map members (all_sccs r)))
     \<and> (\<lambda>c. set (members c)) ` set (all_sccs r) = strongly_connected es ` all_nodes es
     \<and> sum_list (map size_scc (all_sccs r)) = node_count r \<and> node_count r = card (all_nodes es)"
proof -
  obtain r where r: "find_sccs es = Some (Val r)" "distinct (concat (map members (all_sccs r)))"
    "set (concat (map members (all_sccs r))) = all_nodes es"
    "(\<lambda>c. set (members c)) ` set (all_sccs r) = strongly_connected es ` all_nodes es"
    "node_count r = card (all_nodes es)"
    by (rule find_sccs_run [of es])
  have "sum_list (map size_scc (all_sccs r)) = length (concat (map members (all_sccs r)))"
    by (simp add: size_scc_def [abs_def] length_concat comp_def)
  also have "\<dots> = card (all_nodes es)"
    using distinct_card [OF r(2)] r(3) by simp
  finally show ?thesis using r by auto
qed

text \<open>
  C2. The components come out in reverse topological order: an edge leaving a component ends in
  the same component or in one that is listed before it.
\<close>

theorem find_sccs_reverse_topological:
  assumes "find_sccs es = Some (Val r)" and "i < length (all_sccs r)"
    and "u \<in> set (members (all_sccs r ! i))" and "(u, v) \<in> edge_rel es"
  shows "\<exists>j\<le>i. v \<in> set (members (all_sccs r ! j))"
proof -
  obtain r' where "find_sccs es = Some (Val r')" "topo_ok (build_adjacency es) {} (all_sccs r')"
    by (rule find_sccs_run [of es])
  with assms(1) have "topo_ok (build_adjacency es) {} (all_sccs r)" by simp
  from topo_ok_nth [OF this assms(2,3)] assms(4) show ?thesis by (auto simp: edge_rel_iff)
qed

theorem find_sccs_reverse_topological_witness:
  "\<exists>j\<le>1. ''b'' \<in> set (members (all_sccs
     \<lparr>all_sccs = [\<lparr>members = [''b'']\<rparr>, \<lparr>members = [''a'']\<rparr>], cycles = [], node_count = 2,
       edge_count = 1\<rparr> ! j))"
proof (rule find_sccs_reverse_topological)
  show "find_sccs [\<lparr>edge_source = ''a'', edge_target = ''b''\<rparr>] =
    Some (Val \<lparr>all_sccs = [\<lparr>members = [''b'']\<rparr>, \<lparr>members = [''a'']\<rparr>], cycles = [],
      node_count = 2, edge_count = 1\<rparr>)"
    by code_simp
  show "(''a'', ''b'') \<in> edge_rel [\<lparr>edge_source = ''a'', edge_target = ''b''\<rparr>]"
    by (simp add: edge_rel_def)
qed simp_all

text \<open>
  C3. Cancellation is transparent: whatever the checkpoint answers, the cancellable entry point
  either reports \<open>Cancelled\<close> or returns exactly the result of \<open>find_sccs\<close>; it never panics, never
  loops and never returns a partial result.
\<close>

theorem find_sccs_cancellable_transparent:
  "find_sccs_cancellable es brk = Some (Val (Inl Cancelled))
     \<or> (\<exists>r. find_sccs_cancellable es brk = Some (Val (Inr r)) \<and> find_sccs es = Some (Val r))"
  by (rule find_sccs_run [of es brk]) auto

lemma scc_big_iff:
  assumes "distinct (members c)" and "set (members c) = strongly_connected es u"
  shows "is_cycle c \<longleftrightarrow> (\<exists>v\<in>strongly_connected es u. v \<noteq> u)"
proof -
  have u: "u \<in> set (members c)" using assms(2) by (simp add: strongly_connected_def)
  show ?thesis
  proof
    assume "is_cycle c"
    with assms(1) have "card (set (members c)) > 1" by (simp add: is_cycle_def distinct_card)
    then have "set (members c) \<noteq> {u}" by (metis card.empty card_insert_disjoint empty_iff
          finite.emptyI less_irrefl One_nat_def)
    with u assms(2) show "\<exists>v\<in>strongly_connected es u. v \<noteq> u" by blast
  next
    assume "\<exists>v\<in>strongly_connected es u. v \<noteq> u"
    then obtain v where "v \<in> set (members c)" "v \<noteq> u" using assms(2) by blast
    with u have "{u, v} \<subseteq> set (members c)" by simp
    then have "card {u, v} \<le> card (set (members c))"
      by (intro card_mono) simp_all
    also have "\<dots> \<le> length (members c)" by (rule card_length)
    finally show "is_cycle c" using \<open>v \<noteq> u\<close> by (simp add: is_cycle_def)
  qed
qed

text \<open>
  \<open>has_cycles\<close> decides whether two different nodes reach each other. In particular a
  self-loop alone is not reported as a cycle.
\<close>

theorem has_cycles_iff:
  "has_cycles es = Some (Val (\<exists>u v. u \<noteq> v \<and> (u, v) \<in> (edge_rel es)\<^sup>* \<and> (v, u) \<in> (edge_rel es)\<^sup>*))"
proof -
  obtain r where r: "find_sccs es = Some (Val r)" "distinct (concat (map members (all_sccs r)))"
    "(\<lambda>c. set (members c)) ` set (all_sccs r) = strongly_connected es ` all_nodes es"
    "cycles r = filter is_cycle (all_sccs r)"
    by (rule find_sccs_run [of es])
  have dist: "distinct (members c)" if "c \<in> set (all_sccs r)" for c
    using r(2) that by (simp add: distinct_concat_iff)
  have comp: "\<exists>u\<in>all_nodes es. set (members c) = strongly_connected es u"
    if "c \<in> set (all_sccs r)" for c
    using r(3) that by blast
  have "is_acyclic r \<longleftrightarrow> (\<forall>c\<in>set (all_sccs r). \<not> is_cycle c)"
    by (simp add: is_acyclic_def r(4) filter_empty_conv)
  also have "\<dots> \<longleftrightarrow> (\<forall>u\<in>all_nodes es. \<forall>v\<in>strongly_connected es u. v = u)"
  proof
    assume no: "\<forall>c\<in>set (all_sccs r). \<not> is_cycle c"
    show "\<forall>u\<in>all_nodes es. \<forall>v\<in>strongly_connected es u. v = u"
    proof
      fix u
      assume "u \<in> all_nodes es"
      with r(3) obtain c where "c \<in> set (all_sccs r)" "set (members c) = strongly_connected es u"
        by (metis (no_types, lifting) image_iff)
      with no dist scc_big_iff show "\<forall>v\<in>strongly_connected es u. v = u" by blast
    qed
  next
    assume "\<forall>u\<in>all_nodes es. \<forall>v\<in>strongly_connected es u. v = u"
    with comp dist scc_big_iff show "\<forall>c\<in>set (all_sccs r). \<not> is_cycle c" by blast
  qed
  also have "\<dots> \<longleftrightarrow> \<not> (\<exists>u v. u \<noteq> v \<and> (u, v) \<in> (edge_rel es)\<^sup>* \<and> (v, u) \<in> (edge_rel es)\<^sup>*)"
  proof -
    have "u \<in> all_nodes es" if "u \<noteq> v" "(u, v) \<in> (edge_rel es)\<^sup>*" for u v
      using that(2,1) by (cases rule: converse_rtranclE) (auto simp: edge_rel_def all_nodes_def)
    then show ?thesis by (auto simp: strongly_connected_def)
  qed
  finally have eq: "(\<not> is_acyclic r) =
      (\<exists>u v. u \<noteq> v \<and> (u, v) \<in> (edge_rel es)\<^sup>* \<and> (v, u) \<in> (edge_rel es)\<^sup>*)"
    by blast
  from r(1) have "has_cycles es = Some (Val (\<not> is_acyclic r))" by (simp add: has_cycles_def)
  then show ?thesis unfolding eq .
qed

end
