(* ===== verification/Coordinator.thy ===== *)
theory Coordinator
  imports Rust_Prelude
begin

text \<open>
  The crate \<open>daemon-policy\<close>: the pure state machine of a repo coordinator (\<open>state.rs\<close>) and the
  lock-protected operations of \<open>RepoCoordinator\<close> (\<open>coordinator.rs\<close>). Reader counts are \<open>u32\<close> and
  tickets are \<open>u64\<close>; additions wrap, as in a release build.
\<close>

section \<open>The state machine (\<open>state.rs\<close>)\<close>

datatype coordinator_state =
    Idle
  | Reading u32
  | Writing
  | Refreshing
  | RefreshingWithReaders u32

text \<open>\<open>impl Display for CoordinatorState\<close>, over the decimal rendering of a number.\<close>

definition fmt_state :: "coordinator_state \<Rightarrow> string" where
  "fmt_state s = (case s of
     Idle \<Rightarrow> ''Idle''
   | Reading n \<Rightarrow> ''Reading('' @ show_nat (unat n) @ '')''
   | Writing \<Rightarrow> ''Writing''
   | Refreshing \<Rightarrow> ''Refreshing''
   | RefreshingWithReaders n \<Rightarrow> ''RefreshingWithReaders('' @ show_nat (unat n) @ '')'')"

datatype transition_result =
    Ok_T coordinator_state
  | Blocked coordinator_state
  | Conflict string
  | InvariantViolation string

definition try_acquire_read :: "coordinator_state \<Rightarrow> transition_result" where
  "try_acquire_read s = (case s of
     Idle \<Rightarrow> Ok_T (Reading 1)
   | Reading n \<Rightarrow> Ok_T (Reading (n + 1))
   | Refreshing \<Rightarrow> Ok_T (RefreshingWithReaders 1)
   | RefreshingWithReaders n \<Rightarrow> Ok_T (RefreshingWithReaders (n + 1))
   | Writing \<Rightarrow> Blocked s)"

definition release_read :: "coordinator_state \<Rightarrow> transition_result" where
  "release_read s = (case s of
     Reading n \<Rightarrow>
       (if n = 1 then Ok_T Idle
        else if n > 1 then Ok_T (Reading (n - 1))
        else InvariantViolation ''Reading(0) is invalid state'')
   | RefreshingWithReaders n \<Rightarrow>
       (if n = 1 then Ok_T Refreshing
        else if n > 1 then Ok_T (RefreshingWithReaders (n - 1))
        else InvariantViolation (''cannot release read while '' @ fmt_state s))
   | _ \<Rightarrow> InvariantViolation (''cannot release read while '' @ fmt_state s))"

definition try_acquire_write :: "coordinator_state \<Rightarrow> transition_result" where
  "try_acquire_write s = (case s of
     Idle \<Rightarrow> Ok_T Writing
   | Reading _ \<Rightarrow> Blocked s
   | _ \<Rightarrow> Conflict ''another write operation is in progress'')"

definition release_write :: "coordinator_state \<Rightarrow> transition_result" where
  "release_write s = (case s of
     Writing \<Rightarrow> Ok_T Idle
   | _ \<Rightarrow> InvariantViolation (''cannot release write while '' @ fmt_state s))"

definition try_acquire_refresh :: "coordinator_state \<Rightarrow> transition_result" where
  "try_acquire_refresh s = (case s of
     Idle \<Rightarrow> Ok_T Refreshing
   | Reading _ \<Rightarrow> Blocked s
   | _ \<Rightarrow> Conflict ''another write operation is in progress'')"

definition release_refresh :: "coordinator_state \<Rightarrow> transition_result" where
  "release_refresh s = (case s of
     Refreshing \<Rightarrow> Ok_T Idle
   | RefreshingWithReaders n \<Rightarrow> Ok_T (Reading n)
   | _ \<Rightarrow> InvariantViolation (''cannot release refresh while '' @ fmt_state s))"

definition can_read :: "coordinator_state \<Rightarrow> bool" where
  "can_read s = (case s of Writing \<Rightarrow> False | _ \<Rightarrow> True)"

definition can_write :: "coordinator_state \<Rightarrow> bool" where
  "can_write s = (s = Idle)"

definition reader_count :: "coordinator_state \<Rightarrow> u32" where
  "reader_count s = (case s of Reading n \<Rightarrow> n | RefreshingWithReaders n \<Rightarrow> n | _ \<Rightarrow> 0)"

definition is_write_active :: "coordinator_state \<Rightarrow> bool" where
  "is_write_active s = (case s of
     Writing \<Rightarrow> True | Refreshing \<Rightarrow> True | RefreshingWithReaders _ \<Rightarrow> True | _ \<Rightarrow> False)"

section \<open>The coordinator (\<open>coordinator.rs\<close>)\<close>

type_synonym write_ticket = u64

datatype write_kind = Write | Refresh

record coordinator_inner =
  cstate :: coordinator_state
  write_queue :: "(write_ticket \<times> write_kind) list"

record repo_coordinator =
  inner :: coordinator_inner
  next_ticket :: u64

definition new_coordinator :: repo_coordinator where
  "new_coordinator = \<lparr>inner = \<lparr>cstate = Idle, write_queue = []\<rparr>, next_ticket = 1\<rparr>"

definition queued_writers :: "repo_coordinator \<Rightarrow> nat" where
  "queued_writers c = length (write_queue (inner c))"

abbreviation set_state :: "repo_coordinator \<Rightarrow> coordinator_state \<Rightarrow> repo_coordinator" where
  "set_state c st \<equiv> c\<lparr>inner := (inner c)\<lparr>cstate := st\<rparr>\<rparr>"

abbreviation set_queue ::
  "repo_coordinator \<Rightarrow> (write_ticket \<times> write_kind) list \<Rightarrow> repo_coordinator" where
  "set_queue c q \<equiv> c\<lparr>inner := (inner c)\<lparr>write_queue := q\<rparr>\<rparr>"

text \<open>
  How one pass of a waiting loop, with the lock held, ends: the permit is granted, or the thread
  has to wait on the condition variable, or the code panics.
\<close>

datatype attempt = Granted repo_coordinator | MustWait | Attempt_Panic string

text \<open>
  The loop body of \<open>acquire_read\<close> and, for a thread with a deadline, of \<open>acquire_read_timeout\<close>;
  the two differ in the prefix of their panic message only.
\<close>

definition read_attempt :: "bool \<Rightarrow> repo_coordinator \<Rightarrow> attempt" where
  "read_attempt timed c =
     (if write_queue (inner c) \<noteq> [] then MustWait
      else (case try_acquire_read (cstate (inner c)) of
              Ok_T st \<Rightarrow> Granted (set_state c st)
            | Blocked _ \<Rightarrow> MustWait
            | Conflict m \<Rightarrow> Attempt_Panic
                ((if timed then ''acquire_read_timeout'' else ''acquire_read'') @ '' invariant violation: '' @ m)
            | InvariantViolation m \<Rightarrow> Attempt_Panic
                ((if timed then ''acquire_read_timeout'' else ''acquire_read'') @ '' invariant violation: '' @ m)))"

text \<open>\<open>RepoCoordinator::try_acquire_read\<close>: \<open>None\<close> where the caller gets no guard.\<close>

definition try_acquire_read_rc :: "repo_coordinator \<Rightarrow> (repo_coordinator option) outcome" where
  "try_acquire_read_rc c =
     (if write_queue (inner c) \<noteq> [] then Val None
      else (case try_acquire_read (cstate (inner c)) of
              Ok_T st \<Rightarrow> Val (Some (set_state c st))
            | Blocked _ \<Rightarrow> Val None
            | Conflict m \<Rightarrow> Panic (''try_acquire_read invariant violation: '' @ m)
            | InvariantViolation m \<Rightarrow> Panic (''try_acquire_read invariant violation: '' @ m)))"

text \<open>\<open>next_ticket.fetch_add(1)\<close>\<close>

definition fetch_ticket :: "repo_coordinator \<Rightarrow> write_ticket \<times> repo_coordinator" where
  "fetch_ticket c = (next_ticket c, c\<lparr>next_ticket := next_ticket c + 1\<rparr>)"

definition enqueue_writer ::
  "write_ticket \<Rightarrow> write_kind \<Rightarrow> repo_coordinator \<Rightarrow> repo_coordinator" where
  "enqueue_writer t k c = set_queue c (write_queue (inner c) @ [(t, k)])"

definition try_write_fn :: "write_kind \<Rightarrow> coordinator_state \<Rightarrow> transition_result" where
  "try_write_fn k = (case k of Write \<Rightarrow> try_acquire_write | Refresh \<Rightarrow> try_acquire_refresh)"

text \<open>The loop body of \<open>acquire_write_kind\<close> and \<open>acquire_write_kind_timeout\<close>.\<close>

definition write_attempt ::
  "bool \<Rightarrow> write_ticket \<Rightarrow> write_kind \<Rightarrow> repo_coordinator \<Rightarrow> attempt" where
  "write_attempt timed t k c =
     (case write_queue (inner c) of
        [] \<Rightarrow> MustWait
      | (t', _) # q \<Rightarrow>
          (if t' \<noteq> t then MustWait
           else (case try_write_fn k (cstate (inner c)) of
                   Ok_T st \<Rightarrow> Granted (set_queue (set_state c st) q)
                 | Blocked _ \<Rightarrow> MustWait
                 | Conflict _ \<Rightarrow> MustWait
                 | InvariantViolation m \<Rightarrow> Attempt_Panic
                     ((if timed then ''acquire_write_timeout'' else ''acquire_write'')
                        @ '' invariant violation: '' @ m))))"

text \<open>\<open>try_acquire_write_kind\<close>\<close>

definition try_acquire_write_rc ::
  "write_kind \<Rightarrow> repo_coordinator \<Rightarrow> (repo_coordinator option) outcome" where
  "try_acquire_write_rc k c =
     (if write_queue (inner c) \<noteq> [] then Val None
      else (case try_write_fn k (cstate (inner c)) of
              Ok_T st \<Rightarrow> Val (Some (set_state c st))
            | Blocked _ \<Rightarrow> Val None
            | Conflict _ \<Rightarrow> Val None
            | InvariantViolation m \<Rightarrow> Panic (''try_acquire_write invariant violation: '' @ m)))"

text \<open>A writer whose deadline passed leaves the queue (and then notifies everybody).\<close>

definition abandon_write :: "write_ticket \<Rightarrow> repo_coordinator \<Rightarrow> repo_coordinator" where
  "abandon_write t c = set_queue c (filter (\<lambda>(t', _). t' \<noteq> t) (write_queue (inner c)))"

definition release_read_internal :: "repo_coordinator \<Rightarrow> repo_coordinator outcome" where
  "release_read_internal c =
     (case release_read (cstate (inner c)) of
        Ok_T st \<Rightarrow> Val (set_state c st)
      | InvariantViolation m \<Rightarrow> Panic (''release_read invariant violation: '' @ m)
      | _ \<Rightarrow> Panic ''release_read unexpected result'')"

definition release_write_internal :: "write_kind \<Rightarrow> repo_coordinator \<Rightarrow> repo_coordinator outcome" where
  "release_write_internal k c =
     (case (case k of Write \<Rightarrow> release_write | Refresh \<Rightarrow> release_refresh) (cstate (inner c)) of
        Ok_T st \<Rightarrow> Val (set_state c st)
      | InvariantViolation m \<Rightarrow> Panic (''release_write invariant violation: '' @ m)
      | _ \<Rightarrow> Panic ''release_write unexpected result'')"

section \<open>Errors (\<open>error.rs\<close>)\<close>

datatype coordinator_error =
    Timeout string
  | Cancelled_op
  | InvalidTransition string string

definition timeout_error :: "string \<Rightarrow> coordinator_error" where
  "timeout_error operation = Timeout operation"

definition invalid_transition :: "string \<Rightarrow> string \<Rightarrow> coordinator_error" where
  "invalid_transition operation current_state = InvalidTransition operation current_state"

text \<open>The messages of the \<open>Display\<close> instance that the \<open>error\<close> attributes give.\<close>

definition fmt_error :: "coordinator_error \<Rightarrow> string" where
  "fmt_error e = (case e of
     Timeout operation \<Rightarrow> ''timeout waiting for '' @ operation
   | Cancelled_op \<Rightarrow> ''operation cancelled''
   | InvalidTransition operation current_state \<Rightarrow>
       ''invalid state transition: cannot '' @ operation @ '' while '' @ current_state)"

section \<open>The permit contract\<close>

text \<open>
  What a readers-writer state machine promises: an abstract view of the number of readers and the
  active writer, and that each operation succeeds exactly when the view allows it and moves the
  view accordingly. \<open>shared\<close> tells which kind of writer admits readers.
\<close>

datatype 'k permit_op = AcqRead | RelRead | AcqWrite 'k | RelWrite 'k

fun permit_spec ::
  "('k \<Rightarrow> bool) \<Rightarrow> 'k permit_op \<Rightarrow> nat \<times> 'k option \<Rightarrow> (nat \<times> 'k option) option" where
  "permit_spec shared AcqRead (r, w) =
     (case w of Some k \<Rightarrow> (if shared k then Some (r + 1, w) else None) | None \<Rightarrow> Some (r + 1, w))"
| "permit_spec shared RelRead (r, w) = (if 0 < r then Some (r - 1, w) else None)"
| "permit_spec shared (AcqWrite k) (r, w) = (if r = 0 \<and> w = None then Some (0, Some k) else None)"
| "permit_spec shared (RelWrite k) (r, w) = (if w = Some k then Some (r, None) else None)"

fun run_spec ::
  "('k \<Rightarrow> bool) \<Rightarrow> 'k permit_op list \<Rightarrow> nat \<times> 'k option \<Rightarrow> (nat \<times> 'k option) option" where
  "run_spec shared [] v = Some v"
| "run_spec shared (p # ps) v =
     (case permit_spec shared p v of None \<Rightarrow> None | Some v' \<Rightarrow> run_spec shared ps v')"

fun run_ops :: "('k permit_op \<Rightarrow> 's \<Rightarrow> 's option) \<Rightarrow> 'k permit_op list \<Rightarrow> 's \<Rightarrow> 's option" where
  "run_ops perform [] s = Some s"
| "run_ops perform (p # ps) s =
     (case perform p s of None \<Rightarrow> None | Some s' \<Rightarrow> run_ops perform ps s')"

locale permit_machine =
  fixes wf :: "'s \<Rightarrow> bool"
    and view :: "'s \<Rightarrow> nat \<times> 'k option"
    and perform :: "'k permit_op \<Rightarrow> 's \<Rightarrow> 's option"
    and shared :: "'k \<Rightarrow> bool"
    and capacity :: nat
  assumes perform_view: "wf s \<Longrightarrow> fst (view s) < capacity \<Longrightarrow>
      map_option view (perform p s) = permit_spec shared p (view s)"
    and perform_wf: "wf s \<Longrightarrow> fst (view s) < capacity \<Longrightarrow> perform p s = Some s' \<Longrightarrow> wf s'"
    and exclusive_view: "wf s \<Longrightarrow> snd (view s) = Some k \<Longrightarrow> \<not> shared k \<Longrightarrow> fst (view s) = 0"
begin

lemma permit_spec_readers: "permit_spec shared p v = Some v' \<Longrightarrow> fst v' \<le> fst v + 1"
  by (cases "(shared, p, v)" rule: permit_spec.cases) (auto split: if_splits option.splits)

lemma run_ops_refine:
  assumes "wf s" and "fst (view s) + length ps \<le> capacity"
  shows "map_option view (run_ops perform ps s) = run_spec shared ps (view s)"
  using assms
proof (induction ps arbitrary: s)
  case Nil
  then show ?case by simp
next
  case (Cons p ps)
  then have lt: "fst (view s) < capacity" by simp
  note ref = perform_view [OF Cons.prems(1) lt, of p]
  show ?case
  proof (cases "perform p s")
    case None
    with ref have "permit_spec shared p (view s) = None" by simp
    with None show ?thesis by simp
  next
    case (Some s')
    with ref have spec: "permit_spec shared p (view s) = Some (view s')" by simp
    have "fst (view s') + length ps \<le> capacity"
      using permit_spec_readers [OF spec] Cons.prems(2) by simp
    from Cons.IH [OF perform_wf [OF Cons.prems(1) lt Some] this] Some spec
    show ?thesis by simp
  qed
qed

lemma write_excludes:
  assumes "wf s" and "fst (view s) < capacity" and "perform (AcqWrite k) s = Some s'"
  shows "view s = (0, None) \<and> view s' = (0, Some k)"
  using perform_view [OF assms(1,2), of "AcqWrite k"] assms(3)
  by (cases "view s") (auto split: if_splits)

end

text \<open>The contract on the coordinator's own states.\<close>

definition wf_state :: "coordinator_state \<Rightarrow> bool" where
  "wf_state s = (case s of Reading n \<Rightarrow> n \<noteq> 0 | RefreshingWithReaders n \<Rightarrow> n \<noteq> 0 | _ \<Rightarrow> True)"

definition active_writer :: "coordinator_state \<Rightarrow> write_kind option" where
  "active_writer s = (case s of
     Writing \<Rightarrow> Some Write | Refreshing \<Rightarrow> Some Refresh | RefreshingWithReaders _ \<Rightarrow> Some Refresh
   | _ \<Rightarrow> None)"

definition permit_view :: "coordinator_state \<Rightarrow> nat \<times> write_kind option" where
  "permit_view s = (unat (reader_count s), active_writer s)"

definition result_state :: "transition_result \<Rightarrow> coordinator_state option" where
  "result_state r = (case r of Ok_T s \<Rightarrow> Some s | _ \<Rightarrow> None)"

fun permit_transition :: "write_kind permit_op \<Rightarrow> coordinator_state \<Rightarrow> transition_result" where
  "permit_transition AcqRead = try_acquire_read"
| "permit_transition RelRead = release_read"
| "permit_transition (AcqWrite k) = try_write_fn k"
| "permit_transition (RelWrite k) = (case k of Write \<Rightarrow> release_write | Refresh \<Rightarrow> release_refresh)"

definition coordinator_perform ::
  "write_kind permit_op \<Rightarrow> coordinator_state \<Rightarrow> coordinator_state option" where
  "coordinator_perform p s = result_state (permit_transition p s)"

definition admits_readers :: "write_kind \<Rightarrow> bool" where
  "admits_readers k = (k = Refresh)"

lemmas transition_defs = try_acquire_read_def release_read_def try_acquire_write_def
  release_write_def try_acquire_refresh_def release_refresh_def try_write_fn_def

lemmas view_defs = permit_view_def active_writer_def reader_count_def wf_state_def result_state_def

lemma unat_plus_one: "unat n < 2 ^ 32 - 1 \<Longrightarrow> unat (n + 1 :: u32) = unat n + 1"
  by (simp add: unat_plus_if')

lemma unat_minus_one_pos: "n \<noteq> 0 \<Longrightarrow> unat (n - 1 :: u32) = unat n - 1"
  by (simp add: unat_minus_one)

lemma plus_one_nonzero: "unat n < 2 ^ 32 - 1 \<Longrightarrow> (n + 1 :: u32) \<noteq> 0"
  using unat_plus_one [of n] by fastforce

lemma word_cases_one: "(n :: u32) \<noteq> 0 \<Longrightarrow> n = 1 \<or> 1 < n"
  by (metis word_le_less_eq word_less_1 linorder_not_less)

interpretation cm: permit_machine wf_state permit_view coordinator_perform admits_readers "2 ^ 32 - 1"
proof
  fix s :: coordinator_state and p s' k
  assume wf: "wf_state s"
  { assume "fst (permit_view s) < 2 ^ 32 - 1"
    then have lt: "unat (reader_count s) < 2 ^ 32 - 1"
      by (simp add: permit_view_def)
    show "map_option permit_view (coordinator_perform p s) = permit_spec admits_readers p (permit_view s)"
      using wf lt
      by (cases p; cases s)
        (auto simp: coordinator_perform_def transition_defs view_defs admits_readers_def unat_plus_one
          unat_minus_one_pos unat_gt_0 dest: word_cases_one split: write_kind.splits)
    show "coordinator_perform p s = Some s' \<Longrightarrow> wf_state s'"
      using wf lt
      by (cases p; cases s)
        (auto simp: coordinator_perform_def transition_defs view_defs plus_one_nonzero
          split: write_kind.splits if_splits)
  }
  show "snd (permit_view s) = Some k \<Longrightarrow> \<not> admits_readers k \<Longrightarrow> fst (permit_view s) = 0"
    by (cases s) (auto simp: view_defs admits_readers_def)
qed

end
