(* ===== verification/Coordinator_System.thy ===== *)
theory Coordinator_System
  imports Coordinator "HOL-Library.Multiset" "HOL-Library.Sublist"
begin

text \<open>
  Threads that use one \<open>RepoCoordinator\<close>. Each event is a section of code between two points
  where other threads may run: a critical section of the mutex, the atomic ticket counter, or a
  wake-up. A waiting thread sleeps on the condition variable until \<open>notify_all\<close>, or until its
  deadline when it has one. The condition variable is the one of \<open>parking_lot\<close>, which documents
  that it has no spurious wake-ups. A wait may time out just before a notification: then the
  thread takes the lock after the notification and still gives up (\<open>ExpireWrite\<close> of a woken
  writer; for a reader, which is in no queue, the two orders are the same).
\<close>

section \<open>Threads and events\<close>

text \<open>
  A thread is outside, or inside \<open>acquire_read\<close> (about to take the lock, or asleep), or holds a
  \<open>ReadGuard\<close>; or inside \<open>acquire_write_kind\<close> with its ticket (not queued yet, queued and about
  to take the lock, or asleep), or holds a \<open>WriteGuard\<close>. The Boolean says whether the call has a
  deadline (the \<open>_timeout\<close> variants).
\<close>

datatype thread =
    Outside
  | ReadTry bool
  | ReadSleep bool
  | ReadHeld
  | WriteStart write_ticket write_kind bool
  | WriteTry write_ticket write_kind bool
  | WriteSleep write_ticket write_kind bool
  | WriteHeld write_kind

record system =
  coord :: repo_coordinator
  threads :: "thread list"
  panicked :: bool

definition init_system :: "nat \<Rightarrow> system" where
  "init_system n = \<lparr>coord = new_coordinator, threads = replicate n Outside, panicked = False\<rparr>"

text \<open>\<open>Condvar::notify_all\<close>\<close>

fun wake :: "thread \<Rightarrow> thread" where
  "wake (ReadSleep d) = ReadTry d"
| "wake (WriteSleep t k d) = WriteTry t k d"
| "wake th = th"

definition notify_all :: "system \<Rightarrow> system" where
  "notify_all s = s\<lparr>threads := map wake (threads s)\<rparr>"

abbreviation move :: "nat \<Rightarrow> thread \<Rightarrow> system \<Rightarrow> system" where
  "move i th s \<equiv> s\<lparr>threads := (threads s)[i := th]\<rparr>"

text \<open>
  A critical section of a waiting loop: granted, or asleep, or (deadline passed) gone with a
  timeout error; a writer that gives up leaves the queue and notifies everybody.
\<close>

definition lock_read :: "nat \<Rightarrow> bool \<Rightarrow> bool \<Rightarrow> system \<Rightarrow> system" where
  "lock_read i timed expired s =
     (case read_attempt timed (coord s) of
        Granted c \<Rightarrow> move i ReadHeld (s\<lparr>coord := c\<rparr>)
      | MustWait \<Rightarrow> (if timed \<and> expired then move i Outside s else move i (ReadSleep timed) s)
      | Attempt_Panic _ \<Rightarrow> s\<lparr>panicked := True\<rparr>)"

definition give_up_write :: "nat \<Rightarrow> write_ticket \<Rightarrow> system \<Rightarrow> system" where
  "give_up_write i t s = notify_all (move i Outside (s\<lparr>coord := abandon_write t (coord s)\<rparr>))"

definition lock_write :: "nat \<Rightarrow> write_ticket \<Rightarrow> write_kind \<Rightarrow> bool \<Rightarrow> bool \<Rightarrow> system \<Rightarrow> system" where
  "lock_write i t k timed expired s =
     (case write_attempt timed t k (coord s) of
        Granted c \<Rightarrow> move i (WriteHeld k) (s\<lparr>coord := c\<rparr>)
      | MustWait \<Rightarrow> (if timed \<and> expired then give_up_write i t s else move i (WriteSleep t k timed) s)
      | Attempt_Panic _ \<Rightarrow> s\<lparr>panicked := True\<rparr>)"

datatype event =
    StartRead nat bool
  | RunRead nat bool
  | ExpireRead nat
  | TryRead nat
  | DropRead nat
  | StartWrite nat write_kind bool
  | RunWrite nat bool
  | ExpireWrite nat
  | TryWrite nat write_kind
  | DropWrite nat

fun event_thread :: "event \<Rightarrow> nat" where
  "event_thread (StartRead i _) = i"
| "event_thread (RunRead i _) = i"
| "event_thread (ExpireRead i) = i"
| "event_thread (TryRead i) = i"
| "event_thread (DropRead i) = i"
| "event_thread (StartWrite i _ _) = i"
| "event_thread (RunWrite i _) = i"
| "event_thread (ExpireWrite i) = i"
| "event_thread (TryWrite i _) = i"
| "event_thread (DropWrite i) = i"

text \<open>
  The effect of an event on a system, given what its thread is doing; no effect is defined where
  the thread cannot take it.
\<close>

definition read_event :: "event \<Rightarrow> thread \<Rightarrow> system \<Rightarrow> system option" where
  "read_event e th s = (case e of
     StartRead i d \<Rightarrow> (case th of Outside \<Rightarrow> Some (move i (ReadTry d) s) | _ \<Rightarrow> None)
   | RunRead i expired \<Rightarrow> (case th of ReadTry d \<Rightarrow> Some (lock_read i d expired s) | _ \<Rightarrow> None)
   | ExpireRead i \<Rightarrow> (case th of
       ReadSleep d \<Rightarrow> (if d then Some (move i Outside s) else None) | _ \<Rightarrow> None)
   | TryRead i \<Rightarrow> (case th of
       Outside \<Rightarrow> Some (case try_acquire_read_rc (coord s) of
           Val (Some c) \<Rightarrow> move i ReadHeld (s\<lparr>coord := c\<rparr>)
         | Val None \<Rightarrow> s
         | Panic _ \<Rightarrow> s\<lparr>panicked := True\<rparr>)
     | _ \<Rightarrow> None)
   | DropRead i \<Rightarrow> (case th of
       ReadHeld \<Rightarrow> Some (case release_read_internal (coord s) of
           Val c \<Rightarrow> notify_all (move i Outside (s\<lparr>coord := c\<rparr>))
         | Panic _ \<Rightarrow> s\<lparr>panicked := True\<rparr>)
     | _ \<Rightarrow> None)
   | _ \<Rightarrow> None)"

definition write_event :: "event \<Rightarrow> thread \<Rightarrow> system \<Rightarrow> system option" where
  "write_event e th s = (case e of
     StartWrite i k d \<Rightarrow> (case th of
       Outside \<Rightarrow> (case fetch_ticket (coord s) of
         (t, c) \<Rightarrow> Some (move i (WriteStart t k d) (s\<lparr>coord := c\<rparr>)))
     | _ \<Rightarrow> None)
   | RunWrite i expired \<Rightarrow> (case th of
       WriteStart t k d \<Rightarrow>
         Some (lock_write i t k d expired (s\<lparr>coord := enqueue_writer t k (coord s)\<rparr>))
     | WriteTry t k d \<Rightarrow> Some (lock_write i t k d expired s)
     | _ \<Rightarrow> None)
   | ExpireWrite i \<Rightarrow> (case th of
       WriteSleep t k d \<Rightarrow> (if d then Some (give_up_write i t s) else None)
     | WriteTry t k d \<Rightarrow> (if d then Some (give_up_write i t s) else None)
     | _ \<Rightarrow> None)
   | TryWrite i k \<Rightarrow> (case th of
       Outside \<Rightarrow> Some (case try_acquire_write_rc k (coord s) of
           Val (Some c) \<Rightarrow> move i (WriteHeld k) (s\<lparr>coord := c\<rparr>)
         | Val None \<Rightarrow> s
         | Panic _ \<Rightarrow> s\<lparr>panicked := True\<rparr>)
     | _ \<Rightarrow> None)
   | DropWrite i \<Rightarrow> (case th of
       WriteHeld k \<Rightarrow> Some (case release_write_internal k (coord s) of
           Val c \<Rightarrow> notify_all (move i Outside (s\<lparr>coord := c\<rparr>))
         | Panic _ \<Rightarrow> s\<lparr>panicked := True\<rparr>)
     | _ \<Rightarrow> None)
   | _ \<Rightarrow> None)"

definition is_read_event :: "event \<Rightarrow> bool" where
  "is_read_event e = (case e of
     StartRead _ _ \<Rightarrow> True | RunRead _ _ \<Rightarrow> True | ExpireRead _ \<Rightarrow> True | TryRead _ \<Rightarrow> True
   | DropRead _ \<Rightarrow> True | _ \<Rightarrow> False)"

definition thread_event :: "event \<Rightarrow> thread \<Rightarrow> system \<Rightarrow> system option" where
  "thread_event e th s = (if is_read_event e then read_event e th s else write_event e th s)"

definition apply_event :: "event \<Rightarrow> system \<Rightarrow> system option" where
  "apply_event e s =
     (if event_thread e < length (threads s)
      then thread_event e (threads s ! event_thread e) s else None)"

text \<open>The executions of \<open>n\<close> threads: the events so far and the system they lead to.\<close>

inductive execution :: "nat \<Rightarrow> event list \<Rightarrow> system \<Rightarrow> bool" for n where
  start: "execution n [] (init_system n)"
| step: "execution n es s \<Longrightarrow> apply_event e s = Some s' \<Longrightarrow> execution n (es @ [e]) s'"

fun run_events :: "event list \<Rightarrow> system \<Rightarrow> system option" where
  "run_events [] s = Some s"
| "run_events (e # es) s = (case apply_event e s of None \<Rightarrow> None | Some s' \<Rightarrow> run_events es s')"

lemma run_events_append:
  "run_events (es @ fs) s = (case run_events es s of None \<Rightarrow> None | Some s' \<Rightarrow> run_events fs s')"
  by (induction es arbitrary: s) (auto split: option.splits)

lemma execution_iff_run: "execution n es s \<longleftrightarrow> run_events es (init_system n) = Some s"
proof
  show "execution n es s \<Longrightarrow> run_events es (init_system n) = Some s"
    by (induction rule: execution.induct) (auto simp: run_events_append)
next
  show "run_events es (init_system n) = Some s \<Longrightarrow> execution n es s"
  proof (induction es arbitrary: s rule: rev_induct)
    case Nil
    then show ?case by (auto intro: execution.start)
  next
    case (snoc e es)
    then show ?case
      by (auto simp: run_events_append split: option.splits intro: execution.step)
  qed
qed

end
