(* ===== verification/Coordinator_Correct.thy ===== *)
theory Coordinator_Correct
  imports Coordinator_System
begin

text \<open>
  Correctness of the coordinator under concurrent use: the invariant of the thread system of
  \<open>Coordinator_System\<close> (permits held are permits counted, the queue is the waiting writers, who
  sleeps has a reason) and what follows from it.
\<close>


section \<open>What the threads hold and wait for\<close>

definition opt :: "'a option \<Rightarrow> 'a multiset" where
  "opt x = (case x of None \<Rightarrow> {#} | Some y \<Rightarrow> {#y#})"

lemma opt_simps [simp]: "opt None = {#}" "opt (Some y) = {#y#}"
  by (simp_all add: opt_def)

definition tally :: "('a \<Rightarrow> 'b option) \<Rightarrow> 'a list \<Rightarrow> 'b multiset" where
  "tally f xs = sum_list (map (\<lambda>x. opt (f x)) xs)"

lemma tally_simps [simp]:
  "tally f [] = {#}" "tally f (x # xs) = opt (f x) + tally f xs"
  "tally f (xs @ ys) = tally f xs + tally f ys"
  by (simp_all add: tally_def)

lemma tally_replicate: "f x = None \<Longrightarrow> tally f (replicate n x) = {#}"
  by (induction n) auto

lemma tally_update:
  "i < length xs \<Longrightarrow> tally f (xs[i := y]) + opt (f (xs ! i)) = tally f xs + opt (f y)"
proof (induction xs arbitrary: i)
  case (Cons x xs)
  show ?case
  proof (cases i)
    case (Suc j)
    with Cons.prems have "j < length xs" by simp
    from Cons.IH [OF this] Suc show ?thesis by (simp add: ac_simps)
  qed (simp add: ac_simps)
qed simp

lemma tally_map: "(\<And>x. f (g x) = f x) \<Longrightarrow> tally f (map g xs) = tally f xs"
  by (induction xs) auto

lemma tally_member: "y \<in># tally f xs \<longleftrightarrow> (\<exists>x\<in>set xs. f x = Some y)"
  by (induction xs) (auto simp: opt_def split: option.splits)

lemma size_tally_le: "size (tally f xs) \<le> length xs"
  by (induction xs) (auto simp: opt_def split: option.splits)

lemma size_tally_lt: "x \<in> set xs \<Longrightarrow> f x = None \<Longrightarrow> size (tally f xs) < length xs"
  by (induction xs) (auto simp: opt_def size_tally_le le_imp_less_Suc split: option.splits)

lemma tally_comp: "tally (\<lambda>x. map_option g (f x)) xs = image_mset g (tally f xs)"
  by (induction xs) (auto simp: opt_def split: option.splits)

lemma tally_mono: "(\<And>x y. f x = Some y \<Longrightarrow> g x = Some y) \<Longrightarrow> tally f xs \<subseteq># tally g xs"
proof (induction xs)
  case (Cons x xs)
  then have "opt (f x) \<subseteq># opt (g x)" by (cases "f x") auto
  with Cons show ?case by (simp add: subset_mset.add_mono)
qed simp

fun reading :: "thread \<Rightarrow> unit option" where
  "reading ReadHeld = Some ()"
| "reading _ = None"

fun holding :: "thread \<Rightarrow> write_kind option" where
  "holding (WriteHeld k) = Some k"
| "holding _ = None"

fun pending :: "thread \<Rightarrow> (write_ticket \<times> write_kind) option" where
  "pending (WriteTry t k _) = Some (t, k)"
| "pending (WriteSleep t k _) = Some (t, k)"
| "pending _ = None"

fun ticket_of :: "thread \<Rightarrow> write_ticket option" where
  "ticket_of (WriteStart t _ _) = Some t"
| "ticket_of (WriteTry t _ _) = Some t"
| "ticket_of (WriteSleep t _ _) = Some t"
| "ticket_of _ = None"

lemma wake_views [simp]:
  "reading (wake th) = reading th" "holding (wake th) = holding th"
  "pending (wake th) = pending th" "ticket_of (wake th) = ticket_of th"
  by (cases th; simp)+

lemma tally_wake [simp]:
  "tally reading (map wake ths) = tally reading ths"
  "tally holding (map wake ths) = tally holding ths"
  "tally pending (map wake ths) = tally pending ths"
  "tally ticket_of (map wake ths) = tally ticket_of ths"
  by (simp_all add: tally_map)

lemma wake_awake [simp]: "wake th \<noteq> ReadSleep d" "wake th \<noteq> WriteSleep t k d"
  by (cases th; simp)+

lemma wake_no_sleeper [simp]:
  "ReadSleep d \<notin> wake ` S" "WriteSleep t k d \<notin> wake ` S"
  by (metis imageE wake_awake)+

abbreviation st_of :: "system \<Rightarrow> coordinator_state" where
  "st_of s \<equiv> cstate (inner (coord s))"

abbreviation queue_of :: "system \<Rightarrow> (write_ticket \<times> write_kind) list" where
  "queue_of s \<equiv> write_queue (inner (coord s))"

section \<open>The invariant\<close>

text \<open>The permits the state counts are the guards the threads hold.\<close>

definition permits_ok :: "system \<Rightarrow> bool" where
  "permits_ok s \<longleftrightarrow> \<not> panicked s \<and> wf_state (st_of s) \<and>
     permit_view (st_of s) = (size (tally reading (threads s)),
       active_writer (st_of s)) \<and>
     tally holding (threads s) = opt (active_writer (st_of s))"

text \<open>The queue holds the tickets of the waiting writers; tickets are fresh and never shared.\<close>

definition tickets_ok :: "nat \<Rightarrow> system \<Rightarrow> bool" where
  "tickets_ok m s \<longleftrightarrow> mset (queue_of s) = tally pending (threads s) \<and>
     (\<forall>t. count (tally ticket_of (threads s)) t \<le> 1) \<and>
     (\<forall>t \<in># tally ticket_of (threads s). unat t < unat (next_ticket (coord s))) \<and>
     unat (next_ticket (coord s)) \<le> Suc m"

text \<open>Who sleeps has a reason: a reader a queued or active writer, the first writer a busy state.\<close>

definition sleepers_ok :: "system \<Rightarrow> bool" where
  "sleepers_ok s \<longleftrightarrow>
     (\<forall>d. ReadSleep d \<in> set (threads s) \<longrightarrow> queue_of s \<noteq> [] \<or> active_writer (st_of s) \<noteq> None) \<and>
     (\<forall>t k d k' q. WriteSleep t k d \<in> set (threads s) \<longrightarrow> queue_of s = (t, k') # q \<longrightarrow> st_of s \<noteq> Idle)"

lemma perform_refines:
  assumes "permits_ok s" and "length (threads s) < 2 ^ 32 - 1"
  shows "map_option permit_view (coordinator_perform p (st_of s))
    = permit_spec admits_readers p (permit_view (st_of s))"
    and "coordinator_perform p (st_of s) = Some st' \<Longrightarrow> wf_state st'"
proof -
  have "fst (permit_view (st_of s)) < 2 ^ 32 - 1"
    using assms size_tally_le [of reading "threads s"] by (simp add: permits_ok_def)
  with assms(1) show "map_option permit_view (coordinator_perform p (st_of s))
    = permit_spec admits_readers p (permit_view (st_of s))"
    and "coordinator_perform p (st_of s) = Some st' \<Longrightarrow> wf_state st'"
    using cm.perform_view cm.perform_wf by (auto simp: permits_ok_def)
qed

lemma read_attempt_cases:
  "read_attempt d c = (if write_queue (inner c) \<noteq> [] then MustWait
     else (case coordinator_perform AcqRead (cstate (inner c)) of
             None \<Rightarrow> MustWait | Some st \<Rightarrow> Granted (set_state c st)))"
  by (cases "cstate (inner c)")
    (simp_all add: read_attempt_def coordinator_perform_def try_acquire_read_def result_state_def)

lemma try_read_cases:
  "try_acquire_read_rc c = Val (if write_queue (inner c) \<noteq> [] then None
     else map_option (set_state c) (coordinator_perform AcqRead (cstate (inner c))))"
  by (cases "cstate (inner c)")
    (simp_all add: try_acquire_read_rc_def coordinator_perform_def try_acquire_read_def result_state_def)

lemma write_attempt_cases:
  "write_attempt d t k c = (case write_queue (inner c) of [] \<Rightarrow> MustWait
     | (t', _) # q \<Rightarrow> (if t' \<noteq> t then MustWait
        else (case coordinator_perform (AcqWrite k) (cstate (inner c)) of
             None \<Rightarrow> MustWait | Some st \<Rightarrow> Granted (set_queue (set_state c st) q))))"
  by (cases "cstate (inner c)"; cases k)
    (auto simp: write_attempt_def coordinator_perform_def transition_defs result_state_def
      split: list.splits)

lemma try_write_cases:
  "try_acquire_write_rc k c = Val (if write_queue (inner c) \<noteq> [] then None
     else map_option (set_state c) (coordinator_perform (AcqWrite k) (cstate (inner c))))"
  by (cases "cstate (inner c)"; cases k)
    (simp_all add: try_acquire_write_rc_def coordinator_perform_def transition_defs result_state_def)

lemma release_read_cases:
  "coordinator_perform RelRead (cstate (inner c)) = Some st \<Longrightarrow> release_read_internal c = Val (set_state c st)"
  by (auto simp: release_read_internal_def coordinator_perform_def result_state_def
      split: transition_result.splits)

lemma release_write_cases:
  "coordinator_perform (RelWrite k) (cstate (inner c)) = Some st \<Longrightarrow>
   release_write_internal k c = Val (set_state c st)"
  by (cases k) (auto simp: release_write_internal_def coordinator_perform_def result_state_def
      split: transition_result.splits)

lemma acquire_read_enabled:
  "coordinator_perform AcqRead st = None \<longleftrightarrow> active_writer st = Some Write"
  by (cases st) (auto simp: coordinator_perform_def transition_defs view_defs)

lemma acquire_write_enabled:
  "coordinator_perform (AcqWrite k) st = (if st = Idle
     then Some (case k of Write \<Rightarrow> Writing | Refresh \<Rightarrow> Refreshing) else None)"
  by (cases st; cases k) (auto simp: coordinator_perform_def transition_defs view_defs)


section \<open>Preservation\<close>

definition system_inv :: "nat \<Rightarrow> system \<Rightarrow> bool" where
  "system_inv m s \<longleftrightarrow> permits_ok s \<and> tickets_ok m s \<and> sleepers_ok s"

abbreviation small :: "system \<Rightarrow> bool" where
  "small s \<equiv> length (threads s) < 2 ^ 32 - 1"

lemma in_move: "x \<in> set (threads (move i th s)) \<Longrightarrow> x = th \<or> x \<in> set (threads s)"
  using set_update_subset_insert [of "threads s" i th] by auto

lemma permits_acquire_read:
  assumes ok: "permits_ok s" "small s" and i: "i < length (threads s)"
    and th: "reading (threads s ! i) = None" "holding (threads s ! i) = None"
    and st: "coordinator_perform AcqRead (st_of s) = Some st'"
  shows "permits_ok (move i ReadHeld (s\<lparr>coord := set_state (coord s) st'\<rparr>))"
    and "active_writer st' = active_writer (st_of s)"
proof -
  have v: "permit_view st' = (Suc (size (tally reading (threads s))), active_writer (st_of s))"
    using perform_refines(1) [OF ok, of AcqRead] st ok(1)
    by (auto simp: permits_ok_def split: option.splits if_splits)
  moreover have "size (tally reading ((threads s)[i := ReadHeld])) = Suc (size (tally reading (threads s)))"
    using tally_update [OF i, of reading ReadHeld] th by simp
  moreover have "tally holding ((threads s)[i := ReadHeld]) = tally holding (threads s)"
    using tally_update [OF i, of holding ReadHeld] th by simp
  moreover show aw: "active_writer st' = active_writer (st_of s)"
    using v by (simp add: permit_view_def)
  ultimately show "permits_ok (move i ReadHeld (s\<lparr>coord := set_state (coord s) st'\<rparr>))"
    using perform_refines(2) [OF ok st] ok(1) by (simp add: permits_ok_def)
qed

lemma permits_acquire_write:
  assumes ok: "permits_ok s" "small s" and i: "i < length (threads s)"
    and th: "reading (threads s ! i) = None" "holding (threads s ! i) = None"
    and st: "coordinator_perform (AcqWrite k) (st_of s) = Some st'"
    and c: "cstate (inner c) = st'"
  shows "permits_ok (move i (WriteHeld k) (s\<lparr>coord := c\<rparr>))"
    and "active_writer st' = Some k" and "st' \<noteq> Idle"
proof -
  have v: "permit_view st' = (0, Some k)" "permit_view (st_of s) = (0, None)"
    using perform_refines(1) [OF ok, of "AcqWrite k"] st ok(1)
    by (auto simp: permits_ok_def split: option.splits if_splits)
  moreover have "tally reading ((threads s)[i := WriteHeld k]) = tally reading (threads s)"
    using tally_update [OF i, of reading "WriteHeld k"] th by simp
  moreover have "tally holding ((threads s)[i := WriteHeld k]) = add_mset k (tally holding (threads s))"
    using tally_update [OF i, of holding "WriteHeld k"] th by simp
  moreover show aw: "active_writer st' = Some k"
    using v by (simp add: permit_view_def)
  ultimately show "permits_ok (move i (WriteHeld k) (s\<lparr>coord := c\<rparr>))"
    using perform_refines(2) [OF ok st] ok(1) c by (auto simp: permits_ok_def permit_view_def)
  show "st' \<noteq> Idle"
    using aw by (auto simp: active_writer_def)
qed

lemma permits_release_read:
  assumes ok: "permits_ok s" "small s" and i: "i < length (threads s)"
    and th: "threads s ! i = ReadHeld"
  obtains st' where "coordinator_perform RelRead (st_of s) = Some st'"
    and "permits_ok (move i Outside (s\<lparr>coord := set_state (coord s) st'\<rparr>))"
proof -
  have sz: "Suc (size (tally reading ((threads s)[i := Outside]))) = size (tally reading (threads s))"
    using tally_update [OF i, of reading Outside] th by (metis add.right_neutral opt_simps reading.simps size_add_mset union_mset_add_mset_right)
  have h: "tally holding ((threads s)[i := Outside]) = tally holding (threads s)"
    using tally_update [OF i, of holding Outside] th by simp
  have "permit_spec admits_readers RelRead (permit_view (st_of s))
      = Some (size (tally reading ((threads s)[i := Outside])), active_writer (st_of s))"
    using ok(1) sz by (auto simp: permits_ok_def)
  with perform_refines(1) [OF ok, of RelRead] obtain st' where st:
    "coordinator_perform RelRead (st_of s) = Some st'"
    and v: "permit_view st' = (size (tally reading ((threads s)[i := Outside])), active_writer (st_of s))"
    by auto
  have "permits_ok (move i Outside (s\<lparr>coord := set_state (coord s) st'\<rparr>))"
    using ok(1) perform_refines(2) [OF ok st] v h by (auto simp: permits_ok_def permit_view_def)
  with st that show thesis by blast
qed

lemma permits_release_write:
  assumes ok: "permits_ok s" "small s" and i: "i < length (threads s)"
    and th: "threads s ! i = WriteHeld k"
  obtains st' where "coordinator_perform (RelWrite k) (st_of s) = Some st'"
    and "permits_ok (move i Outside (s\<lparr>coord := set_state (coord s) st'\<rparr>))"
proof -
  have r: "tally reading ((threads s)[i := Outside]) = tally reading (threads s)"
    using tally_update [OF i, of reading Outside] th by simp
  have h: "add_mset k (tally holding ((threads s)[i := Outside])) = tally holding (threads s)"
    using tally_update [OF i, of holding Outside] th by simp
  then have aw: "active_writer (st_of s) = Some k" "tally holding ((threads s)[i := Outside]) = {#}"
    using ok(1) by (auto simp: permits_ok_def opt_def split: option.splits)
  then have "permit_spec admits_readers (RelWrite k) (permit_view (st_of s))
      = Some (size (tally reading (threads s)), None)"
    using ok(1) by (auto simp: permits_ok_def)
  with perform_refines(1) [OF ok, of "RelWrite k"] obtain st' where st:
    "coordinator_perform (RelWrite k) (st_of s) = Some st'"
    and v: "permit_view st' = (size (tally reading (threads s)), None)"
    by auto
  have "permits_ok (move i Outside (s\<lparr>coord := set_state (coord s) st'\<rparr>))"
    using ok(1) perform_refines(2) [OF ok st] v r aw by (auto simp: permits_ok_def permit_view_def)
  with st that show thesis by blast
qed

text \<open>Moves that change no permit, and moves that change no ticket.\<close>

lemma permits_move:
  assumes "permits_ok s" "i < length (threads s)"
    and "reading (threads s ! i) = reading th" "holding (threads s ! i) = holding th"
    and "cstate (inner c) = st_of s"
  shows "permits_ok (move i th (s\<lparr>coord := c\<rparr>))"
  using assms tally_update [OF assms(2), of reading th] tally_update [OF assms(2), of holding th]
  by (simp add: permits_ok_def)

lemma tickets_move:
  assumes "tickets_ok m s" "i < length (threads s)"
    and "pending (threads s ! i) = pending th" "ticket_of (threads s ! i) = ticket_of th"
    and "write_queue (inner c) = queue_of s" "next_ticket c = next_ticket (coord s)"
  shows "tickets_ok m (move i th (s\<lparr>coord := c\<rparr>))"
  using assms tally_update [OF assms(2), of pending th] tally_update [OF assms(2), of ticket_of th]
  by (simp add: tickets_ok_def)

lemma tickets_start:
  assumes ok: "tickets_ok m s" and i: "i < length (threads s)"
    and th: "threads s ! i = Outside" and m: "Suc (Suc m) < 2 ^ 64"
  shows "tickets_ok (Suc m) (move i (WriteStart (next_ticket (coord s)) k d)
     (s\<lparr>coord := (coord s)\<lparr>next_ticket := next_ticket (coord s) + 1\<rparr>\<rparr>))"
proof -
  let ?t = "next_ticket (coord s)" and ?T = "tally ticket_of (threads s)"
  have lt: "unat ?t < 2 ^ 64 - 1"
    using ok m unfolding tickets_ok_def by linarith
  then have nx: "unat (?t + 1) = Suc (unat ?t)"
    by (simp add: unat_plus_if')
  have fresh: "?t \<notin># ?T"
    using ok by (auto simp: tickets_ok_def)
  have T: "tally ticket_of ((threads s)[i := WriteStart ?t k d]) = add_mset ?t ?T"
    using tally_update [OF i, of ticket_of "WriteStart ?t k d"] th by simp
  have P: "tally pending ((threads s)[i := WriteStart ?t k d]) = tally pending (threads s)"
    using tally_update [OF i, of pending "WriteStart ?t k d"] th by simp
  have "count (add_mset ?t ?T) u \<le> 1" for u
    using ok fresh by (auto simp: tickets_ok_def not_in_iff)
  moreover have "\<forall>u \<in># add_mset ?t ?T. unat u < unat (?t + 1)"
    using ok by (auto simp: tickets_ok_def nx less_Suc_eq)
  ultimately show ?thesis
    using ok by (simp add: tickets_ok_def T P nx)
qed

lemma tickets_enqueue:
  assumes "tickets_ok m s" "i < length (threads s)" "threads s ! i = WriteStart t k d"
  shows "tickets_ok m (move i (WriteTry t k d) (s\<lparr>coord := enqueue_writer t k (coord s)\<rparr>))"
  using assms tally_update [OF assms(2), of pending "WriteTry t k d"]
    tally_update [OF assms(2), of ticket_of "WriteTry t k d"]
  by (simp add: tickets_ok_def enqueue_writer_def)

lemma tally_pending_tickets: "image_mset fst (tally pending ths) \<subseteq># tally ticket_of ths"
proof -
  have "tally (\<lambda>th. map_option fst (pending th)) ths \<subseteq># tally ticket_of ths"
  proof (rule tally_mono)
    show "map_option fst (pending th) = Some t \<Longrightarrow> ticket_of th = Some t" for th t
      by (cases th) auto
  qed
  then show ?thesis by (simp add: tally_comp)
qed

lemma queue_distinct:
  assumes "tickets_ok m s"
  shows "distinct (map fst (queue_of s))"
proof -
  have "mset (map fst (queue_of s)) \<subseteq># tally ticket_of (threads s)"
    using assms tally_pending_tickets [of "threads s"] by (simp add: tickets_ok_def)
  then have "count (mset (map fst (queue_of s))) t \<le> count (tally ticket_of (threads s)) t" for t
    by (rule mset_subset_eq_count)
  moreover have "count (tally ticket_of (threads s)) t \<le> 1" for t
    using assms by (simp add: tickets_ok_def)
  ultimately have le: "count (mset (map fst (queue_of s))) t \<le> 1" for t
    by (rule order_trans)
  have "count (mset (map fst (queue_of s))) t = (if t \<in> set (map fst (queue_of s)) then 1 else 0)" for t
  proof (cases "t \<in> set (map fst (queue_of s))")
    case True
    then have "0 < count (mset (map fst (queue_of s))) t"
      by (simp only: count_greater_zero_iff set_mset_mset)
    with le [of t] have "count (mset (map fst (queue_of s))) t = 1" by linarith
    with True show ?thesis by (simp only: if_True)
  next
    case False
    then show ?thesis by (simp add: not_in_iff [symmetric] del: mset_map)
  qed
  then show ?thesis
    by (simp only: distinct_count_atmost_1) simp
qed

lemma tickets_dequeue:
  assumes ok: "tickets_ok m s" and i: "i < length (threads s)"
    and th: "pending (threads s ! i) = Some (t, k)" and th': "pending th = None" "ticket_of th = None"
    and c: "next_ticket c = next_ticket (coord s)"
      "add_mset (t, k) (mset (write_queue (inner c))) = mset (queue_of s)"
  shows "tickets_ok m (move i th (s\<lparr>coord := c\<rparr>))"
proof -
  have tk: "ticket_of (threads s ! i) = Some t"
    using th by (cases "threads s ! i") auto
  have P: "add_mset (t, k) (tally pending ((threads s)[i := th])) = tally pending (threads s)"
    using tally_update [OF i, of pending th] th th' by simp
  have T: "add_mset t (tally ticket_of ((threads s)[i := th])) = tally ticket_of (threads s)"
    using tally_update [OF i, of ticket_of th] tk th' by simp
  have "count (tally ticket_of ((threads s)[i := th])) u \<le> count (tally ticket_of (threads s)) u" for u
    unfolding T [symmetric] by simp
  moreover have "count (tally ticket_of (threads s)) u \<le> 1" for u
    using ok by (simp add: tickets_ok_def)
  ultimately have "count (tally ticket_of ((threads s)[i := th])) u \<le> 1" for u
    using le_trans by blast
  moreover have "set_mset (tally ticket_of ((threads s)[i := th])) \<subseteq> set_mset (tally ticket_of (threads s))"
    using T by (metis set_mset_add_mset_insert subset_insertI)
  moreover have "mset (write_queue (inner c)) = tally pending ((threads s)[i := th])"
    using c(2) P ok by (metis add_mset_add_mset_same_iff tickets_ok_def)
  ultimately show ?thesis
    using ok c(1) by (auto simp: tickets_ok_def)
qed

lemma abandon_mset:
  assumes "distinct (map fst q)" "(t, k) \<in> set q"
  shows "add_mset (t, k) (mset (filter (\<lambda>(t', _). t' \<noteq> t) q)) = mset q"
  using assms
proof (induction q)
  case (Cons x q)
  show ?case
  proof (cases "x = (t, k)")
    case True
    with Cons.prems(1) have "filter (\<lambda>(t', _). t' \<noteq> t) q = q"
      by (auto simp: filter_id_conv image_iff)
    with True show ?thesis by simp
  next
    case False
    with Cons.prems have "fst x \<noteq> t" by (auto simp: image_iff)
    with Cons False show ?thesis by (cases x) (auto simp: add_mset_commute)
  qed
qed simp


lemma sleepers_awake: "sleepers_ok (notify_all s)"
  by (auto simp: sleepers_ok_def notify_all_def)

lemma notify_all_parts [simp]: "coord (notify_all s) = coord s" "panicked (notify_all s) = panicked s"
  "length (threads (notify_all s)) = length (threads s)"
  by (simp_all add: notify_all_def)

lemma permits_notify [simp]: "permits_ok (notify_all s) = permits_ok s"
  by (simp add: permits_ok_def notify_all_def)

lemma tickets_notify [simp]: "tickets_ok m (notify_all s) = tickets_ok m s"
  by (simp add: tickets_ok_def notify_all_def)

lemma sleepers_move:
  assumes ok: "sleepers_ok s"
    and q: "write_queue (inner c) = queue_of s" and aw: "active_writer (st_of s) \<noteq> None \<Longrightarrow> active_writer (cstate (inner c)) \<noteq> None"
    and idle: "cstate (inner c) = Idle \<Longrightarrow> st_of s = Idle"
    and th: "\<And>d. th = ReadSleep d \<Longrightarrow> queue_of s \<noteq> [] \<or> active_writer (cstate (inner c)) \<noteq> None"
      "\<And>t k d k' q. th = WriteSleep t k d \<Longrightarrow> queue_of s = (t, k') # q \<Longrightarrow> cstate (inner c) \<noteq> Idle"
  shows "sleepers_ok (move i th (s\<lparr>coord := c\<rparr>))"
  unfolding sleepers_ok_def
proof (intro conjI allI impI)
  fix d
  assume "ReadSleep d \<in> set (threads (move i th (s\<lparr>coord := c\<rparr>)))"
  then have "th = ReadSleep d \<or> ReadSleep d \<in> set (threads s)"
    using in_move by fastforce
  with ok q aw th(1) show "queue_of (move i th (s\<lparr>coord := c\<rparr>)) \<noteq> [] \<or>
      active_writer (st_of (move i th (s\<lparr>coord := c\<rparr>))) \<noteq> None"
    unfolding sleepers_ok_def by auto
next
  fix t k d k' q'
  assume "WriteSleep t k d \<in> set (threads (move i th (s\<lparr>coord := c\<rparr>)))"
  then have "th = WriteSleep t k d \<or> WriteSleep t k d \<in> set (threads s)"
    using in_move by fastforce
  moreover assume "queue_of (move i th (s\<lparr>coord := c\<rparr>)) = (t, k') # q'"
  ultimately show "st_of (move i th (s\<lparr>coord := c\<rparr>)) \<noteq> Idle"
    using ok q idle th(2) unfolding sleepers_ok_def by fastforce
qed

text \<open>Once a writer is granted, every sleeper has a reason to sleep.\<close>

lemma sleepers_writing:
  assumes "active_writer (st_of s) \<noteq> None"
  shows "sleepers_ok s"
  using assms by (auto simp: sleepers_ok_def active_writer_def)

lemma pending_queued:
  assumes "tickets_ok m s" and "i < length (threads s)" and "pending (threads s ! i) = Some x"
  shows "x \<in> set (queue_of s)"
proof -
  have "x \<in># tally pending (threads s)"
    using assms nth_mem by (auto simp: tally_member)
  with assms(1) show ?thesis
    by (metis set_mset_mset tickets_ok_def)
qed

lemma inv_give_up:
  assumes inv: "system_inv m s" and i: "i < length (threads s)"
    and th: "pending (threads s ! i) = Some (t, k)"
  shows "system_inv m (give_up_write i t s)"
proof -
  have rd: "reading (threads s ! i) = None" "holding (threads s ! i) = None"
    using th by (cases "threads s ! i"; simp)+
  have "(t, k) \<in> set (queue_of s)"
    using inv pending_queued [OF _ i th] by (auto simp: system_inv_def)
  then have m: "add_mset (t, k) (mset (write_queue (inner (abandon_write t (coord s))))) = mset (queue_of s)"
    using abandon_mset [OF queue_distinct, of m s] inv
    by (auto simp: abandon_write_def system_inv_def)
  have "tickets_ok m (move i Outside (s\<lparr>coord := abandon_write t (coord s)\<rparr>))"
    using inv i th m by (intro tickets_dequeue) (auto simp: abandon_write_def system_inv_def)
  moreover have "permits_ok (move i Outside (s\<lparr>coord := abandon_write t (coord s)\<rparr>))"
    using inv i rd by (intro permits_move) (auto simp: abandon_write_def system_inv_def)
  ultimately show ?thesis
    by (simp add: give_up_write_def system_inv_def sleepers_awake)
qed

lemma inv_lock_write:
  assumes inv: "system_inv m s" "small s" and i: "i < length (threads s)"
    and th: "threads s ! i = WriteTry t k d"
  shows "system_inv m (lock_write i t k d e s)"
proof (cases "write_attempt d t k (coord s)")
  case (Granted c)
  then obtain k' q st' where q: "queue_of s = (t, k') # q"
    and st: "coordinator_perform (AcqWrite k) (st_of s) = Some st'"
    and c: "c = set_queue (set_state (coord s) st') q"
    by (auto simp: write_attempt_cases split: list.splits if_splits option.splits)
  have "(t, k) \<in># mset (queue_of s)"
    using inv pending_queued [OF _ i] th by (auto simp: system_inv_def)
  with queue_distinct q inv have "k' = k"
    by (force simp: system_inv_def image_iff)
  then have T: "tickets_ok m (move i (WriteHeld k) (s\<lparr>coord := c\<rparr>))"
    using inv i th q c by (intro tickets_dequeue) (auto simp: system_inv_def)
  have P: "permits_ok (move i (WriteHeld k) (s\<lparr>coord := c\<rparr>))"
    and aw: "active_writer st' = Some k"
    using inv i th permits_acquire_write [OF _ _ i _ _ st, of c] c
    by (auto simp: system_inv_def)
  have "sleepers_ok (move i (WriteHeld k) (s\<lparr>coord := c\<rparr>))"
    using aw c by (intro sleepers_writing) auto
  with T P Granted show ?thesis
    by (simp add: lock_write_def system_inv_def)
next
  case MustWait
  have busy: "st_of s \<noteq> Idle" if "queue_of s = (t, k') # q" for k' q
    using MustWait that acquire_write_enabled [of k Idle] by (auto simp: write_attempt_cases)
  have "system_inv m (move i (WriteSleep t k d) (s\<lparr>coord := coord s\<rparr>))"
    unfolding system_inv_def
  proof (intro conjI)
    show "permits_ok (move i (WriteSleep t k d) (s\<lparr>coord := coord s\<rparr>))"
      using inv i th by (intro permits_move) (auto simp: system_inv_def)
    show "tickets_ok m (move i (WriteSleep t k d) (s\<lparr>coord := coord s\<rparr>))"
      using inv i th by (intro tickets_move) (auto simp: system_inv_def)
    show "sleepers_ok (move i (WriteSleep t k d) (s\<lparr>coord := coord s\<rparr>))"
      using inv busy by (intro sleepers_move) (auto simp: system_inv_def)
  qed
  moreover have "system_inv m (give_up_write i t s)"
    using inv_give_up [OF inv(1) i] th by simp
  ultimately show ?thesis
    using MustWait by (simp add: lock_write_def)
next
  case (Attempt_Panic x)
  then show ?thesis
    by (simp add: write_attempt_cases split: list.splits prod.splits if_splits option.splits)
qed


lemma inv_start_read:
  assumes "system_inv m s" "i < length (threads s)" "threads s ! i = Outside"
  shows "system_inv m (move i (ReadTry d) s)"
proof -
  have "system_inv m (move i (ReadTry d) (s\<lparr>coord := coord s\<rparr>))"
    using assms permits_move [of s i "ReadTry d" "coord s"] tickets_move [of m s i "ReadTry d" "coord s"]
      sleepers_move [of s "coord s" "ReadTry d" i]
    by (simp add: system_inv_def)
  then show ?thesis by simp
qed

lemma inv_leave_read:
  assumes "system_inv m s" "i < length (threads s)" "threads s ! i \<in> {ReadTry d, ReadSleep d}"
  shows "system_inv m (move i Outside s)"
proof -
  have "system_inv m (move i Outside (s\<lparr>coord := coord s\<rparr>))"
    using assms permits_move [of s i Outside "coord s"] tickets_move [of m s i Outside "coord s"]
      sleepers_move [of s "coord s" Outside i]
    by (auto simp: system_inv_def)
  then show ?thesis by simp
qed

lemma inv_grant_read:
  assumes inv: "system_inv m s" "small s" and i: "i < length (threads s)"
    and th: "threads s ! i = Outside \<or> (\<exists>d. threads s ! i = ReadTry d)"
    and st: "coordinator_perform AcqRead (st_of s) = Some st'"
  shows "system_inv m (move i ReadHeld (s\<lparr>coord := set_state (coord s) st'\<rparr>))"
proof -
  have P: "permits_ok (move i ReadHeld (s\<lparr>coord := set_state (coord s) st'\<rparr>))"
    and aw: "active_writer st' = active_writer (st_of s)"
    using inv i th permits_acquire_read [OF _ _ i _ _ st] by (auto simp: system_inv_def)
  have "st' \<noteq> Idle"
    using st by (cases "st_of s") (auto simp: coordinator_perform_def transition_defs result_state_def)
  then have "sleepers_ok (move i ReadHeld (s\<lparr>coord := set_state (coord s) st'\<rparr>))"
    using inv aw by (intro sleepers_move) (auto simp: system_inv_def)
  moreover have "tickets_ok m (move i ReadHeld (s\<lparr>coord := set_state (coord s) st'\<rparr>))"
    using inv i th by (intro tickets_move) (auto simp: system_inv_def)
  ultimately show ?thesis
    using P by (simp add: system_inv_def)
qed

lemma inv_lock_read:
  assumes inv: "system_inv m s" "small s" and i: "i < length (threads s)"
    and th: "threads s ! i = ReadTry d"
  shows "system_inv m (lock_read i d e s)"
proof (cases "read_attempt d (coord s)")
  case (Granted c)
  then obtain st' where "coordinator_perform AcqRead (st_of s) = Some st'" "c = set_state (coord s) st'"
    by (auto simp: read_attempt_cases split: if_splits option.splits)
  then show ?thesis
    using inv_grant_read [OF inv i] th Granted by (simp add: lock_read_def)
next
  case MustWait
  then have why: "queue_of s \<noteq> [] \<or> active_writer (st_of s) \<noteq> None"
    by (auto simp: read_attempt_cases acquire_read_enabled split: if_splits option.splits)
  have "permits_ok (move i (ReadSleep d) (s\<lparr>coord := coord s\<rparr>))"
    using inv i th by (intro permits_move) (auto simp: system_inv_def)
  moreover have "tickets_ok m (move i (ReadSleep d) (s\<lparr>coord := coord s\<rparr>))"
    using inv i th by (intro tickets_move) (auto simp: system_inv_def)
  moreover have "sleepers_ok (move i (ReadSleep d) (s\<lparr>coord := coord s\<rparr>))"
    using inv why by (intro sleepers_move) (auto simp: system_inv_def)
  ultimately have "system_inv m (move i (ReadSleep d) s)"
    by (simp add: system_inv_def)
  moreover have "system_inv m (move i Outside s)"
    using inv_leave_read [OF inv(1) i] th by auto
  ultimately show ?thesis
    using MustWait by (simp add: lock_read_def)
next
  case (Attempt_Panic x)
  then show ?thesis
    by (simp add: read_attempt_cases split: if_splits option.splits)
qed

lemma inv_read_event:
  assumes inv: "system_inv m s" "small s" and i: "event_thread e < length (threads s)"
    and ev: "read_event e (threads s ! event_thread e) s = Some s'"
  shows "system_inv m s'"
proof (cases e)
  case (StartRead i d)
  with assms inv_start_read show ?thesis
    by (auto simp: read_event_def split: thread.splits)
next
  case (RunRead i x)
  with assms inv_lock_read show ?thesis
    by (auto simp: read_event_def split: thread.splits)
next
  case (ExpireRead i)
  with assms inv_leave_read show ?thesis
    by (auto simp: read_event_def split: thread.splits if_splits)
next
  case (TryRead i)
  with assms inv_grant_read [OF inv, of i] show ?thesis
    by (auto simp: read_event_def try_read_cases split: thread.splits if_splits option.splits)
next
  case (DropRead j)
  with ev have th: "threads s ! j = ReadHeld" and j: "j < length (threads s)"
    using i by (auto simp: read_event_def split: thread.splits)
  from inv obtain st' where st: "coordinator_perform RelRead (st_of s) = Some st'"
    and P: "permits_ok (move j Outside (s\<lparr>coord := set_state (coord s) st'\<rparr>))"
    using permits_release_read [OF _ _ j th] by (auto simp: system_inv_def)
  have "tickets_ok m (move j Outside (s\<lparr>coord := set_state (coord s) st'\<rparr>))"
    using inv j th by (intro tickets_move) (auto simp: system_inv_def)
  then have "system_inv m (notify_all (move j Outside (s\<lparr>coord := set_state (coord s) st'\<rparr>)))"
    using P by (simp add: system_inv_def sleepers_awake)
  then show ?thesis
    using ev DropRead th release_read_cases [OF st] by (simp add: read_event_def)
qed (use ev in \<open>simp_all add: read_event_def\<close>)

lemma tickets_mono: "tickets_ok m s \<Longrightarrow> tickets_ok (Suc m) s"
  by (auto simp: tickets_ok_def)

lemma inv_mono: "system_inv m s \<Longrightarrow> system_inv (Suc m) s"
  by (simp add: system_inv_def tickets_mono)

lemma inv_start_write:
  assumes inv: "system_inv m s" and i: "i < length (threads s)" "threads s ! i = Outside"
    and m: "Suc (Suc m) < 2 ^ 64" and c: "c = (coord s)\<lparr>next_ticket := next_ticket (coord s) + 1\<rparr>"
  shows "system_inv (Suc m) (move i (WriteStart (next_ticket (coord s)) k d) (s\<lparr>coord := c\<rparr>))"
  unfolding system_inv_def
proof (intro conjI)
  show "tickets_ok (Suc m) (move i (WriteStart (next_ticket (coord s)) k d) (s\<lparr>coord := c\<rparr>))"
    unfolding c using inv by (intro tickets_start i m) (simp add: system_inv_def)
  show "permits_ok (move i (WriteStart (next_ticket (coord s)) k d) (s\<lparr>coord := c\<rparr>))"
    using inv i c by (intro permits_move) (auto simp: system_inv_def)
  show "sleepers_ok (move i (WriteStart (next_ticket (coord s)) k d) (s\<lparr>coord := c\<rparr>))"
    using inv c by (intro sleepers_move) (auto simp: system_inv_def)
qed

lemma inv_enqueue:
  assumes inv: "system_inv m s" and i: "i < length (threads s)"
    and th: "threads s ! i = WriteStart t k d"
  shows "system_inv m (move i (WriteTry t k d) (s\<lparr>coord := enqueue_writer t k (coord s)\<rparr>))"
  unfolding system_inv_def
proof (intro conjI)
  let ?s = "move i (WriteTry t k d) (s\<lparr>coord := enqueue_writer t k (coord s)\<rparr>)"
  show "tickets_ok m ?s"
    using inv i th tickets_enqueue by (auto simp: system_inv_def)
  show "permits_ok ?s"
    using inv i th by (intro permits_move) (auto simp: system_inv_def enqueue_writer_def)
  show "sleepers_ok ?s"
    unfolding sleepers_ok_def
  proof (intro conjI allI impI)
    fix t' k' d' k'' q
    assume "WriteSleep t' k' d' \<in> set (threads ?s)"
    then have mem: "WriteSleep t' k' d' \<in> set (threads s)"
      using in_move by fastforce
    then have "(t', k') \<in># tally pending (threads s)"
      by (force simp: tally_member)
    then have "(t', k') \<in> set (queue_of s)"
      using inv by (metis set_mset_mset system_inv_def tickets_ok_def)
    moreover assume "queue_of ?s = (t', k'') # q"
    ultimately obtain q' where "queue_of s = (t', k'') # q'"
      by (cases "queue_of s") (auto simp: enqueue_writer_def)
    with inv mem show "st_of ?s \<noteq> Idle"
      by (auto simp: system_inv_def sleepers_ok_def enqueue_writer_def)
  qed (simp add: enqueue_writer_def)
qed

lemma write_attempt_no_panic [simp]: "write_attempt d t k c \<noteq> Attempt_Panic x"
  by (simp add: write_attempt_cases split: list.splits prod.splits option.splits)

lemma lock_write_overwrites:
  "lock_write i t k d e (s\<lparr>threads := (threads s)[i := th]\<rparr>) = lock_write i t k d e s"
  by (cases "write_attempt d t k (coord s)") (simp_all add: lock_write_def give_up_write_def)

lemma inv_write_event:
  assumes inv: "system_inv m s" "small s" and i: "event_thread e < length (threads s)"
    and ev: "write_event e (threads s ! event_thread e) s = Some s'" and m: "Suc (Suc m) < 2 ^ 64"
  shows "system_inv (Suc m) s'"
proof (cases e)
  case (StartWrite j k d)
  with assms inv_start_write [of m s j] show ?thesis
    by (auto simp: write_event_def fetch_ticket_def split: thread.splits)
next
  case (RunWrite j x)
  show ?thesis
  proof (cases "threads s ! j")
    case (WriteStart t k d)
    have "system_inv m (lock_write j t k d x
        (move j (WriteTry t k d) (s\<lparr>coord := enqueue_writer t k (coord s)\<rparr>)))"
      using inv i RunWrite by (intro inv_lock_write inv_enqueue WriteStart) auto
    then show ?thesis
      using RunWrite WriteStart ev inv_mono
        lock_write_overwrites [of j t k d x "s\<lparr>coord := enqueue_writer t k (coord s)\<rparr>"]
      by (simp add: write_event_def)
  next
    case (WriteTry t k d)
    with assms RunWrite inv_lock_write [of m s j t k d x] inv_mono show ?thesis
      by (simp add: write_event_def)
  qed (use ev RunWrite in \<open>simp_all add: write_event_def\<close>)
next
  case (ExpireWrite j)
  then obtain t k d where th: "threads s ! j = WriteSleep t k d \<or> threads s ! j = WriteTry t k d"
    and s': "s' = give_up_write j t s"
    using ev by (auto simp: write_event_def split: thread.splits if_splits)
  with inv_give_up [OF inv(1), of j t k] i ExpireWrite inv_mono show ?thesis
    by auto
next
  case (TryWrite j k)
  show ?thesis
  proof (cases "queue_of s = [] \<and> coordinator_perform (AcqWrite k) (st_of s) \<noteq> None")
    case False
    with ev TryWrite inv inv_mono show ?thesis
      by (auto simp: write_event_def try_write_cases split: thread.splits)
  next
    case True
    then obtain st' where st: "coordinator_perform (AcqWrite k) (st_of s) = Some st'" by auto
    let ?c = "set_state (coord s) st'"
    from ev TryWrite True st i have th: "threads s ! j = Outside" and j: "j < length (threads s)"
      and s': "s' = move j (WriteHeld k) (s\<lparr>coord := ?c\<rparr>)"
      by (auto simp: write_event_def try_write_cases split: thread.splits)
    have P: "permits_ok s'" and aw: "active_writer st' = Some k"
      using inv th s' permits_acquire_write [OF _ _ j _ _ st, of ?c] by (auto simp: system_inv_def)
    have "sleepers_ok s'"
      using aw s' by (intro sleepers_writing) auto
    moreover have "tickets_ok m s'"
      unfolding s' using inv j th by (intro tickets_move) (auto simp: system_inv_def)
    ultimately show ?thesis
      using P inv_mono by (simp add: system_inv_def)
  qed
next
  case (DropWrite j)
  with ev obtain k where th: "threads s ! j = WriteHeld k" and j: "j < length (threads s)"
    using i by (auto simp: write_event_def split: thread.splits)
  from inv obtain st' where st: "coordinator_perform (RelWrite k) (st_of s) = Some st'"
    and P: "permits_ok (move j Outside (s\<lparr>coord := set_state (coord s) st'\<rparr>))"
    using permits_release_write [OF _ _ j th] by (auto simp: system_inv_def)
  have "tickets_ok m (move j Outside (s\<lparr>coord := set_state (coord s) st'\<rparr>))"
    using inv j th by (intro tickets_move) (auto simp: system_inv_def)
  then have "system_inv m (notify_all (move j Outside (s\<lparr>coord := set_state (coord s) st'\<rparr>)))"
    using P by (simp add: system_inv_def sleepers_awake)
  then show ?thesis
    using ev DropWrite th release_write_cases [OF st] inv_mono by (simp add: write_event_def)
qed (use ev in \<open>simp_all add: write_event_def\<close>)

lemma threads_length:
  assumes "apply_event e s = Some s'"
  shows "length (threads s') = length (threads s)"
  using assms
  by (auto simp: apply_event_def thread_event_def read_event_def write_event_def lock_read_def
      lock_write_def give_up_write_def notify_all_def fetch_ticket_def
      split: if_splits event.splits thread.splits attempt.splits outcome.splits option.splits)

lemma execution_inv:
  assumes "execution n es s" and "n < 2 ^ 32 - 1" and "length es + 2 < 2 ^ 64"
  shows "system_inv (length es) s \<and> length (threads s) = n"
  using assms
proof (induction rule: execution.induct)
  case start
  have "permits_ok (init_system n)"
    by (simp add: permits_ok_def init_system_def new_coordinator_def view_defs tally_replicate)
  moreover have "tickets_ok 0 (init_system n)" "sleepers_ok (init_system n)"
    by (auto simp: tickets_ok_def sleepers_ok_def init_system_def new_coordinator_def tally_replicate)
  ultimately show ?case
    by (simp add: system_inv_def init_system_def)
next
  case (step es s e s')
  then have inv: "system_inv (length es) s" "small s" and len: "length (threads s) = n"
    by auto
  have "event_thread e < length (threads s)"
    and "thread_event e (threads s ! event_thread e) s = Some s'"
    using step.hyps(2) by (auto simp: apply_event_def split: if_splits)
  then have "system_inv (Suc (length es)) s'"
    using inv_read_event [OF inv] inv_write_event [OF inv] step.prems(2) inv_mono
    by (auto simp: thread_event_def split: if_splits)
  with threads_length [OF step.hyps(2)] len show ?case
    by simp
qed


section \<open>Steps\<close>

lemma size_tally_filter: "size (tally reading ths) = length (filter (\<lambda>th. th = ReadHeld) ths)"
proof (induction ths)
  case (Cons th ths)
  then show ?case by (cases th) auto
qed simp

lemma tally_two:
  assumes "i < length xs" "j < length xs" "i \<noteq> j" "f (xs ! i) = Some a" "f (xs ! j) = Some b" "f y = None"
  shows "\<exists>M. tally f xs = add_mset a (add_mset b M)"
proof -
  have "tally f xs = add_mset a (tally f (xs[i := y]))"
    using tally_update [OF assms(1), of f y] assms by simp
  moreover have "xs[i := y] ! j = xs ! j" "j < length (xs[i := y])"
    using assms by auto
  then have "b \<in># tally f (xs[i := y])"
    using assms nth_mem unfolding tally_member by metis
  ultimately show ?thesis
    by (metis multi_member_split)
qed

lemma single_writer:
  assumes "permits_ok s" "i < length (threads s)" "j < length (threads s)"
    and "threads s ! i = WriteHeld k" "threads s ! j = WriteHeld k'"
  shows "i = j"
proof (rule ccontr)
  assume "i \<noteq> j"
  then obtain M where "tally holding (threads s) = add_mset k (add_mset k' M)"
    using assms tally_two [of i "threads s" j holding k k' Outside] by auto
  then show False
    using assms(1) by (cases "active_writer (st_of s)") (auto simp: permits_ok_def)
qed

lemma held_active:
  assumes "permits_ok s" "WriteHeld k \<in> set (threads s)"
  shows "active_writer (st_of s) = Some k"
proof -
  have "k \<in># tally holding (threads s)"
    using assms(2) by (force simp: tally_member)
  with assms(1) show ?thesis
    by (cases "active_writer (st_of s)") (auto simp: permits_ok_def)
qed

lemma write_excludes_read:
  assumes "permits_ok s" "WriteHeld Write \<in> set (threads s)"
  shows "ReadHeld \<notin> set (threads s)"
proof -
  have "unat (reader_count (st_of s)) = 0"
    using held_active [OF assms] by (cases "st_of s") (auto simp: active_writer_def reader_count_def)
  then have "tally reading (threads s) = {#}"
    using assms(1) by (simp add: permits_ok_def permit_view_def)
  then show ?thesis
    using tally_member [of "()" reading "threads s"] by force
qed

lemma other_thread:
  assumes "apply_event e s = Some s'" "j < length (threads s)" "j \<noteq> event_thread e"
  shows "threads s' ! j = threads s ! j \<or> threads s' ! j = wake (threads s ! j)"
  using assms
  by (auto simp: apply_event_def thread_event_def read_event_def write_event_def lock_read_def
      lock_write_def give_up_write_def notify_all_def fetch_ticket_def is_read_event_def
      split: if_splits event.splits thread.splits attempt.splits outcome.splits option.splits)

lemma read_granted:
  assumes "apply_event e s = Some s'" "i < length (threads s)"
    and "threads s ! i \<noteq> ReadHeld" "threads s' ! i = ReadHeld"
  shows "queue_of s = []"
proof (cases "i = event_thread e")
  case True
  with assms show ?thesis
    by (auto simp: apply_event_def thread_event_def read_event_def write_event_def lock_read_def
      lock_write_def give_up_write_def notify_all_def fetch_ticket_def is_read_event_def
      read_attempt_cases try_read_cases
      split: if_splits event.splits thread.splits attempt.splits outcome.splits option.splits)
next
  case False
  with other_thread [OF assms(1,2)] assms(3,4) show ?thesis
    by (cases "threads s ! i") auto
qed

lemma front_kind:
  assumes "tickets_ok m s" "i < length (threads s)" "threads s ! i = WriteTry t k d"
    and "queue_of s = (t, k') # q"
  shows "k' = k"
proof -
  have "(t, k) \<in> set (queue_of s)"
    using pending_queued assms by fastforce
  with queue_distinct [OF assms(1)] assms(4) show ?thesis
    by (force simp: image_iff)
qed

lemma start_not_queued:
  assumes ok: "tickets_ok m s" and i: "i < length (threads s)"
    and th: "threads s ! i = WriteStart t k d"
  shows "(t, k') \<notin> set (queue_of s)"
proof
  assume "(t, k') \<in> set (queue_of s)"
  then have "(t, k') \<in># tally pending (threads s)"
    using ok by (metis set_mset_mset tickets_ok_def)
  then obtain j where j: "j < length (threads s)" "pending (threads s ! j) = Some (t, k')"
    by (auto simp: tally_member in_set_conv_nth)
  moreover from j have "ticket_of (threads s ! j) = Some t" "j \<noteq> i"
    using th by (cases "threads s ! j"; auto)+
  ultimately obtain M where "tally ticket_of (threads s) = add_mset t (add_mset t M)"
    using tally_two [of i "threads s" j ticket_of t t Outside] i th by auto
  moreover have "count (tally ticket_of (threads s)) t \<le> 1"
    using ok by (simp add: tickets_ok_def)
  ultimately show False by simp
qed

lemma lock_write_granted:
  assumes "lock_write i t k d e s = s'" "i < length (threads s)" "threads s' ! i = WriteHeld k'"
  shows "k' = k \<and> st_of s = Idle \<and> (\<exists>k''. queue_of s = (t, k'') # queue_of s')"
  using assms
  by (auto simp: lock_write_def write_attempt_cases give_up_write_def notify_all_def acquire_write_enabled
      split: if_splits list.splits option.splits)

lemma ticket_event:
  assumes "apply_event e s = Some s'" "i < length (threads s)" "i = event_thread e"
    and "ticket_of (threads s ! i) = Some t" "threads s' ! i = WriteHeld k"
  obtains x d k0 where "e = RunWrite i x" and "threads s ! i = WriteTry t k0 d" "s' = lock_write i t k0 d x s"
  | x d k0 where "e = RunWrite i x" and "threads s ! i = WriteStart t k0 d"
      "s' = lock_write i t k0 d x (s\<lparr>coord := enqueue_writer t k0 (coord s)\<rparr>)"
  using assms
  by (auto simp: apply_event_def thread_event_def read_event_def write_event_def give_up_write_def
      notify_all_def is_read_event_def
      split: if_splits event.splits thread.splits)

lemma write_granted:
  assumes ok: "tickets_ok m s" and ev: "apply_event e s = Some s'" and i: "i < length (threads s)"
    and th: "ticket_of (threads s ! i) = Some t" "threads s' ! i = WriteHeld k"
  shows "(queue_of s = (t, k) # queue_of s' \<or> queue_of s = [] \<and> queue_of s' = []) \<and> st_of s = Idle"
proof (cases "i = event_thread e")
  case True
  from ev i True th show ?thesis
  proof (cases rule: ticket_event)
    case (1 x d k0)
    with lock_write_granted [OF _ i th(2)] front_kind [OF ok i] show ?thesis by metis
  next
    case (2 x d k0)
    let ?s = "s\<lparr>coord := enqueue_writer t k0 (coord s)\<rparr>"
    have "k = k0 \<and> st_of ?s = Idle \<and> (\<exists>k''. queue_of ?s = (t, k'') # queue_of s')"
      using 2 i th by (intro lock_write_granted) auto
    moreover have "(t, k'') \<notin> set (queue_of s)" for k''
      using start_not_queued [OF ok i 2(2)] .
    ultimately show ?thesis
      by (cases "queue_of s") (auto simp: enqueue_writer_def)
  qed
next
  case False
  with other_thread [OF ev i] th show ?thesis
    by (cases "threads s ! i") auto
qed

lemma lock_write_queue:
  "queue_of (lock_write i t k d e s) = queue_of s
   \<or> queue_of (lock_write i t k d e s) = filter (\<lambda>(t', _). t' \<noteq> t) (queue_of s)
   \<or> (\<exists>k'. queue_of s = (t, k') # queue_of (lock_write i t k d e s))"
  by (auto simp: lock_write_def write_attempt_cases give_up_write_def notify_all_def abandon_write_def
      split: list.splits option.splits)

lemma lock_write_subseq: "subseq (queue_of (lock_write i t k d e s)) (queue_of s)"
  using lock_write_queue [of i t k d e s] by (auto simp: subseq_filter_left intro: subseq_Cons')

lemma lock_write_enqueued:
  assumes "\<And>k'. (t, k') \<notin> set (queue_of s)"
    and s': "s' = lock_write i t k d e (s\<lparr>coord := enqueue_writer t k (coord s)\<rparr>)"
  shows "subseq (queue_of s') (queue_of s) \<or> queue_of s' = queue_of s @ [(t, k)]"
proof -
  have "queue_of s' = queue_of s @ [(t, k)]
    \<or> queue_of s' = filter (\<lambda>(t', _). t' \<noteq> t) (queue_of s @ [(t, k)])
    \<or> (\<exists>k'. queue_of s @ [(t, k)] = (t, k') # queue_of s')"
    using lock_write_queue [of i t k d e "s\<lparr>coord := enqueue_writer t k (coord s)\<rparr>"]
    by (simp add: s' enqueue_writer_def)
  moreover have "queue_of s = []" if "queue_of s @ [(t, k)] = (t, k') # q" for k' q
    using that assms(1) by (cases "queue_of s") auto
  ultimately show ?thesis
    by (auto simp: subseq_filter_left)
qed

lemma lock_read_queue: "queue_of (lock_read i d e s) = queue_of s"
  by (auto simp: lock_read_def read_attempt_cases split: option.splits)

lemma release_queue:
  "release_read_internal c = Val c' \<Longrightarrow> write_queue (inner c') = write_queue (inner c)"
  "release_write_internal k c = Val c' \<Longrightarrow> write_queue (inner c') = write_queue (inner c)"
  by (auto simp: release_read_internal_def release_write_internal_def split: transition_result.splits)

lemma write_event_queue:
  assumes "write_event e (threads s ! event_thread e) s = Some s'"
    and new: "\<And>t k d k'. threads s ! event_thread e = WriteStart t k d \<Longrightarrow> (t, k') \<notin> set (queue_of s)"
  shows "subseq (queue_of s') (queue_of s) \<or> (\<exists>t k. queue_of s' = queue_of s @ [(t, k)])"
proof (cases e)
  case (RunWrite j x)
  with assms(1) consider t k d where "threads s ! j = WriteTry t k d" "s' = lock_write j t k d x s"
    | t k d where "threads s ! j = WriteStart t k d"
      "s' = lock_write j t k d x (s\<lparr>coord := enqueue_writer t k (coord s)\<rparr>)"
    by (auto simp: write_event_def split: thread.splits)
  then show ?thesis
  proof cases
    case 1
    then show ?thesis using lock_write_subseq by blast
  next
    case (2 t k d)
    with lock_write_enqueued [of t s s' j k d x] new RunWrite show ?thesis by auto
  qed
next
  case (ExpireWrite j)
  with assms(1) show ?thesis
    by (auto simp: write_event_def give_up_write_def abandon_write_def subseq_filter_left
        split: thread.splits if_splits)
next
  case (TryWrite j k)
  with assms(1) show ?thesis
    by (auto simp: write_event_def try_write_cases split: thread.splits option.splits if_splits)
next
  case (DropWrite j)
  with assms(1) show ?thesis
    by (auto simp: write_event_def release_queue split: thread.splits outcome.splits)
qed (use assms(1) in \<open>auto simp: write_event_def fetch_ticket_def split: thread.splits\<close>)

lemma queue_step:
  assumes "tickets_ok m s" and "apply_event e s = Some s'"
  shows "subseq (queue_of s') (queue_of s) \<or> (\<exists>t k. queue_of s' = queue_of s @ [(t, k)])"
proof (cases "is_read_event e")
  case True
  with assms(2) have "queue_of s' = queue_of s"
    by (auto simp: apply_event_def thread_event_def read_event_def lock_read_queue
        try_read_cases release_queue
        split: if_splits event.splits thread.splits outcome.splits option.splits)
  then show ?thesis by simp
next
  case False
  with assms(2) have "write_event e (threads s ! event_thread e) s = Some s'"
    and "event_thread e < length (threads s)"
    by (auto simp: apply_event_def thread_event_def split: if_splits)
  then show ?thesis
    using start_not_queued [OF assms(1)] by (intro write_event_queue) auto
qed

lemma unheld_idle:
  assumes "permits_ok s" "\<forall>th\<in>set (threads s). reading th = None \<and> holding th = None"
  shows "st_of s = Idle"
proof -
  have "tally reading (threads s) = {#}" "tally holding (threads s) = {#}"
    using assms(2) tally_member [of _ reading "threads s"] tally_member [of _ holding "threads s"]
    by (auto intro!: multiset_eqI simp: not_in_iff [symmetric])
  with assms(1) have "reader_count (st_of s) = 0" "active_writer (st_of s) = None" "wf_state (st_of s)"
    by (auto simp: permits_ok_def permit_view_def unat_eq_0 opt_def split: option.splits)
  then show ?thesis
    by (cases "st_of s") (auto simp: view_defs)
qed

lemma run_write_granted:
  assumes "st_of s = Idle" "i < length (threads s)" "threads s ! i = WriteTry t k d" "queue_of s = (t, k') # q"
  shows "\<exists>s'. apply_event (RunWrite i False) s = Some s' \<and> threads s' ! i = WriteHeld k"
  using assms
  by (simp add: apply_event_def thread_event_def is_read_event_def write_event_def lock_write_def
      write_attempt_cases acquire_write_enabled)

lemma run_start_granted:
  assumes "st_of s = Idle" "i < length (threads s)" "threads s ! i = WriteStart t k d" "queue_of s = []"
  shows "\<exists>s'. apply_event (RunWrite i False) s = Some s' \<and> threads s' ! i = WriteHeld k"
  using assms
  by (simp add: apply_event_def thread_event_def is_read_event_def write_event_def lock_write_def
      write_attempt_cases acquire_write_enabled enqueue_writer_def)

lemma run_read_granted:
  assumes "st_of s = Idle" "i < length (threads s)" "threads s ! i = ReadTry d" "queue_of s = []"
  shows "\<exists>s'. apply_event (RunRead i False) s = Some s' \<and> threads s' ! i = ReadHeld"
  using assms
  by (simp add: apply_event_def thread_event_def is_read_event_def read_event_def lock_read_def
      read_attempt_def try_acquire_read_def)

lemma queued_thread:
  assumes "tickets_ok m s" "x \<in> set (queue_of s)"
  obtains i where "i < length (threads s)" "pending (threads s ! i) = Some x"
proof -
  have "x \<in># tally pending (threads s)"
    using assms by (metis set_mset_mset tickets_ok_def)
  then show thesis
    using that by (auto simp: tally_member in_set_conv_nth)
qed

lemma progress:
  assumes inv: "system_inv m s" and idle: "st_of s = Idle"
    and i: "i < length (threads s)" "threads s ! i \<noteq> Outside"
    and unheld: "\<forall>th\<in>set (threads s). reading th = None \<and> holding th = None"
  shows "\<exists>j e s'. j < length (threads s) \<and> e \<in> {RunRead j False, RunWrite j False} \<and>
    apply_event e s = Some s' \<and> (threads s' ! j = ReadHeld \<or> (\<exists>k. threads s' ! j = WriteHeld k))"
proof (cases "queue_of s")
  case (Cons x q)
  obtain t k where x: "x = (t, k)" by (cases x)
  obtain j where j: "j < length (threads s)" "pending (threads s ! j) = Some (t, k)"
    using inv queued_thread [of m s x] Cons x by (auto simp: system_inv_def)
  have "threads s ! j \<noteq> WriteSleep t k d" for d
    using inv idle Cons x nth_mem [OF j(1)] unfolding system_inv_def sleepers_ok_def by metis
  with j(2) obtain d where "threads s ! j = WriteTry t k d"
    by (cases "threads s ! j") auto
  then obtain s' where "apply_event (RunWrite j False) s = Some s'" "threads s' ! j = WriteHeld k"
    using run_write_granted [OF idle j(1)] Cons x by auto
  with j(1) show ?thesis by (intro exI [of _ j] exI [of _ "RunWrite j False"]) auto
next
  case Nil
  have "pending (threads s ! i) = None"
    using inv pending_queued [of m s i] i(1) Nil by (cases "pending (threads s ! i)") (auto simp: system_inv_def)
  moreover have "threads s ! i \<noteq> ReadSleep d" for d
    using inv idle Nil nth_mem [OF i(1)] by (auto simp: system_inv_def sleepers_ok_def active_writer_def)
  moreover have "reading (threads s ! i) = None" "holding (threads s ! i) = None"
    using unheld nth_mem [OF i(1)] by auto
  ultimately consider d where "threads s ! i = ReadTry d" | t k d where "threads s ! i = WriteStart t k d"
    using i(2) by (cases "threads s ! i") auto
  then show ?thesis
  proof cases
    case 1
    then show ?thesis
      using run_read_granted [OF idle i(1) _ Nil] i(1) by (intro exI [of _ i] exI [of _ "RunRead i False"]) auto
  next
    case 2
    then show ?thesis
      using run_start_granted [OF idle i(1) _ Nil] i(1) by (intro exI [of _ i] exI [of _ "RunWrite i False"]) auto
  qed
qed


section \<open>Properties\<close>

text \<open>
  C4. The state machine of \<open>state.rs\<close> refines the readers-writer contract: for any sequence of
  acquire and release operations from a well-formed state whose readers fit in 32 bits, the
  operations the code lets through are the ones the contract allows, and the state's reader count
  and active writer are the contract's.
\<close>

theorem coordinator_refines_permits:
  assumes "wf_state s" and "unat (reader_count s) + length ps \<le> 2 ^ 32 - 1"
  shows "map_option permit_view (run_ops coordinator_perform ps s)
    = run_spec admits_readers ps (permit_view s)"
  using cm.run_ops_refine [OF assms(1), of ps] assms(2) by (simp add: permit_view_def)

theorem coordinator_refines_permits_witness:
  "map_option permit_view (run_ops coordinator_perform [AcqWrite Refresh, AcqRead, RelWrite Refresh] Idle)
    = run_spec admits_readers [AcqWrite Refresh, AcqRead, RelWrite Refresh] (permit_view Idle)"
  by (rule coordinator_refines_permits) (simp_all add: wf_state_def reader_count_def)

text \<open>
  C5. Mutual exclusion. In every execution of fewer than $2^{32} - 1$ threads and fewer than
  $2^{64} - 2$ events, no operation panics, the reader count is the number of read guards held,
  two threads never hold a write guard together, and no read guard is held beside the guard of an
  \<open>acquire_write\<close> (a refresh may have readers).
\<close>

theorem coordinator_mutual_exclusion:
  assumes "execution n es s" and "n < 2 ^ 32 - 1" and "length es + 2 < 2 ^ 64"
  shows "\<not> panicked s \<and>
    unat (reader_count (st_of s)) = length (filter (\<lambda>th. th = ReadHeld) (threads s)) \<and>
    (\<forall>i j k k'. i < n \<longrightarrow> j < n \<longrightarrow> threads s ! i = WriteHeld k \<longrightarrow> threads s ! j = WriteHeld k' \<longrightarrow> i = j) \<and>
    (WriteHeld Write \<in> set (threads s) \<longrightarrow> ReadHeld \<notin> set (threads s))"
proof -
  from execution_inv [OF assms] have ok: "permits_ok s" and n: "length (threads s) = n"
    by (auto simp: system_inv_def)
  then have "\<not> panicked s"
    and "unat (reader_count (st_of s)) = length (filter (\<lambda>th. th = ReadHeld) (threads s))"
    by (auto simp: permits_ok_def permit_view_def size_tally_filter)
  moreover have "i = j"
    if "i < n" "j < n" "threads s ! i = WriteHeld k" "threads s ! j = WriteHeld k'" for i j k k'
    using single_writer [OF ok] that n by blast
  ultimately show ?thesis
    using write_excludes_read [OF ok] by blast
qed

lemmas exec_eval = execution_iff_run init_system_def new_coordinator_def apply_event_def thread_event_def
  is_read_event_def read_event_def write_event_def lock_read_def lock_write_def read_attempt_def
  write_attempt_def fetch_ticket_def enqueue_writer_def notify_all_def release_read_internal_def
  release_write_internal_def try_acquire_read_rc_def transition_defs

lemma execution_demo:
  "execution 2 [TryRead 0, StartWrite 1 Write False, RunWrite 1 False]
     \<lparr>coord = \<lparr>inner = \<lparr>cstate = Reading 1, write_queue = [(1, Write)]\<rparr>, next_ticket = 2\<rparr>,
      threads = [ReadHeld, WriteSleep 1 Write False], panicked = False\<rparr>"
  by (simp add: exec_eval numeral_2_eq_2)

theorem coordinator_mutual_exclusion_witness:
  "\<not> panicked \<lparr>coord = \<lparr>inner = \<lparr>cstate = Reading 1, write_queue = [(1, Write)]\<rparr>, next_ticket = 2\<rparr>,
      threads = [ReadHeld, WriteSleep 1 Write False], panicked = False\<rparr>"
  using coordinator_mutual_exclusion [OF execution_demo] by simp

text \<open>
  C6. Writers are served in the order they queue. In every reachable state the queue has one entry
  for each waiting writer, with distinct tickets. A step keeps the queue's order (it removes
  entries or appends one); a writer gets its guard only from an idle coordinator and as the first
  of the queue, which then loses that entry (or straight from an empty queue); a reader gets its
  guard only while no writer is queued.
\<close>

theorem coordinator_fifo:
  assumes "execution n es s" and "n < 2 ^ 32 - 1" and "length es + 2 < 2 ^ 64"
    and "apply_event e s = Some s'"
  shows "distinct (map fst (queue_of s)) \<and>
    mset (queue_of s) = tally pending (threads s) \<and>
    (subseq (queue_of s') (queue_of s) \<or> (\<exists>t k. queue_of s' = queue_of s @ [(t, k)])) \<and>
    (\<forall>i t k. i < n \<longrightarrow> ticket_of (threads s ! i) = Some t \<longrightarrow> threads s' ! i = WriteHeld k \<longrightarrow>
       (queue_of s = (t, k) # queue_of s' \<or> queue_of s = [] \<and> queue_of s' = []) \<and> st_of s = Idle) \<and>
    (\<forall>i. i < n \<longrightarrow> threads s ! i \<noteq> ReadHeld \<longrightarrow> threads s' ! i = ReadHeld \<longrightarrow> queue_of s = [])"
proof -
  from execution_inv [OF assms(1-3)] have ok: "tickets_ok (length es) s" and n: "length (threads s) = n"
    by (auto simp: system_inv_def)
  then have "mset (queue_of s) = tally pending (threads s)"
    by (simp add: tickets_ok_def)
  with queue_distinct [OF ok] queue_step [OF ok assms(4)] show ?thesis
    using write_granted [OF ok assms(4)] read_granted [OF assms(4)] n by blast
qed

theorem coordinator_fifo_witness:
  "distinct (map fst (queue_of \<lparr>coord = \<lparr>inner = \<lparr>cstate = Reading 1, write_queue = [(1, Write)]\<rparr>,
      next_ticket = 2\<rparr>, threads = [ReadHeld, WriteSleep 1 Write False], panicked = False\<rparr>))"
  using coordinator_fifo [OF execution_demo, of "DropRead 0"]
  by (simp add: exec_eval)

text \<open>
  C7. No deadlock and no lost wake-up that lasts: whenever some thread is inside an acquire call
  and no guard is held, some waiting thread is awake and its next critical section grants it its
  permit.
\<close>

theorem coordinator_no_deadlock:
  assumes "execution n es s" and "n < 2 ^ 32 - 1" and "length es + 2 < 2 ^ 64"
    and "\<forall>th\<in>set (threads s). th \<noteq> ReadHeld \<and> (\<forall>k. th \<noteq> WriteHeld k)"
    and "\<exists>th\<in>set (threads s). th \<noteq> Outside"
  shows "\<exists>i e s'. i < n \<and> e \<in> {RunRead i False, RunWrite i False} \<and> apply_event e s = Some s' \<and>
    (threads s' ! i = ReadHeld \<or> (\<exists>k. threads s' ! i = WriteHeld k))"
proof -
  from execution_inv [OF assms(1-3)] have inv: "system_inv (length es) s" and n: "length (threads s) = n"
    by auto
  have unheld: "\<forall>th\<in>set (threads s). reading th = None \<and> holding th = None"
  proof
    fix th
    assume "th \<in> set (threads s)"
    with assms(4) show "reading th = None \<and> holding th = None" by (cases th) auto
  qed
  from inv unheld have idle: "st_of s = Idle"
    using unheld_idle by (simp add: system_inv_def)
  from assms(5) obtain i where "i < length (threads s)" "threads s ! i \<noteq> Outside"
    by (metis in_set_conv_nth)
  from progress [OF inv idle this unheld] n show ?thesis by simp
qed

lemma execution_waiting_demo:
  "execution 2 [TryRead 0, StartWrite 1 Write False, RunWrite 1 False, DropRead 0]
     \<lparr>coord = \<lparr>inner = \<lparr>cstate = Idle, write_queue = [(1, Write)]\<rparr>, next_ticket = 2\<rparr>,
      threads = [Outside, WriteTry 1 Write False], panicked = False\<rparr>"
  by (simp add: exec_eval numeral_2_eq_2)

theorem coordinator_no_deadlock_witness:
  "\<exists>i e s'. i < 2 \<and> e \<in> {RunRead i False, RunWrite i False} \<and>
    apply_event e \<lparr>coord = \<lparr>inner = \<lparr>cstate = Idle, write_queue = [(1, Write)]\<rparr>, next_ticket = 2\<rparr>,
      threads = [Outside, WriteTry 1 Write False], panicked = False\<rparr> = Some s' \<and>
    (threads s' ! i = ReadHeld \<or> (\<exists>k. threads s' ! i = WriteHeld k))"
  by (rule coordinator_no_deadlock [OF execution_waiting_demo]) auto

text \<open>
  A reader may sleep through a refresh that would admit it. The grant of a queued refresh
  empties the queue without \<open>notify_all\<close>, so a reader that went to sleep because of the queue
  stays asleep while the state is \<open>Refreshing\<close> and a new critical section would grant its permit;
  in the state reached here only the release of the refresh guard wakes it.
\<close>

theorem reader_sleeps_through_refresh:
  "\<exists>es s. execution 3 es s \<and> st_of s = Refreshing \<and> queue_of s = [] \<and>
     threads s ! 2 = ReadSleep False \<and> read_attempt False (coord s) \<noteq> MustWait \<and>
     {e. \<exists>s'. apply_event e s = Some s' \<and> threads s' ! 2 \<noteq> ReadSleep False} = {DropWrite 1}"
proof (intro exI conjI)
  let ?s = "\<lparr>coord = \<lparr>inner = \<lparr>cstate = Refreshing, write_queue = []\<rparr>, next_ticket = 2\<rparr>,
    threads = [Outside, WriteHeld Refresh, ReadSleep False], panicked = False\<rparr>"
  let ?es = "[TryRead 0, StartWrite 1 Refresh False, RunWrite 1 False, StartRead 2 False, RunRead 2 False,
    DropRead 0, RunRead 2 False, RunWrite 1 False]"
  show "execution 3 ?es ?s"
    by (simp add: exec_eval numeral_3_eq_3 numeral_2_eq_2)
  show "st_of ?s = Refreshing" "queue_of ?s = []" "threads ?s ! 2 = ReadSleep False"
    by simp_all
  show "read_attempt False (coord ?s) \<noteq> MustWait"
    by (simp add: exec_eval)
  have idx: "i = 0 \<or> i = 1 \<or> i = 2" if "i < 3" for i :: nat
    using that by auto
  have "e = DropWrite 1" if ev: "apply_event e ?s = Some s'" and wk: "threads s' ! 2 \<noteq> ReadSleep False" for e s'
  proof -
    have "event_thread e < 3"
      using ev by (auto simp: apply_event_def split: if_splits)
    then show "e = DropWrite 1"
      using ev wk idx [of "event_thread e"]
      by (cases e) (auto simp: exec_eval try_acquire_write_rc_def split: if_splits write_kind.splits)
  qed
  moreover have "\<exists>s'. apply_event (DropWrite 1) ?s = Some s' \<and> threads s' ! 2 \<noteq> ReadSleep False"
    by (simp add: exec_eval)
  ultimately show "{e. \<exists>s'. apply_event e ?s = Some s' \<and> threads s' ! 2 \<noteq> ReadSleep False} = {DropWrite 1}"
    by blast
qed

end
