(* ===== verification/Routing.thy ===== *)
theory Routing
  imports Rust_Prelude
begin

text \<open>
  File routing (\<open>indexer/src/routing.rs\<close>) and the test-path conventions it delegates to
  (\<open>classification/src/test_path.rs\<close>): extension and language tables, the glob matcher of the
  include and exclude filters, the table from extensions to extractors, and the tokens of a path
  that make its test status undetermined. An extractor is known here by its \<open>languages()\<close> list.
\<close>

section \<open>Extensions, languages, configs\<close>

definition MAX_FILE_SIZE_BYTES :: nat where
  "MAX_FILE_SIZE_BYTES = 1000000"

definition is_source_extension :: "string \<Rightarrow> bool" where
  "is_source_extension ext = (ext \<in> set [
     ''.ts'', ''.tsx'', ''.js'', ''.jsx'', ''.mts'', ''.cts'', ''.mjs'', ''.cjs'',
     ''.rs'', ''.java'', ''.py'', ''.c'', ''.h'', ''.cpp'', ''.hpp'', ''.cc'', ''.cxx'', ''.hxx''])"

datatype contract_kind = Protobuf

definition is_contract_extension :: "string \<Rightarrow> bool" where
  "is_contract_extension ext = (ext = ''.proto'')"

definition is_tsconfig_or_jsconfig_json_name :: "string \<Rightarrow> bool" where
  "is_tsconfig_or_jsconfig_json_name filename =
     ((starts_with filename ''tsconfig'' \<or> starts_with filename ''jsconfig'')
      \<and> ends_with filename ''.json'')"

definition is_config_file :: "string \<Rightarrow> bool" where
  "is_config_file path =
     (let filename = rsplit_next path (CHR ''/'') in
      is_tsconfig_or_jsconfig_json_name filename \<or>
      filename \<in> set [''package.json'', ''pnpm-workspace.yaml'', ''tsconfig.json'', ''jsconfig.json'',
        ''Cargo.toml'', ''build.gradle'', ''build.gradle.kts'', ''settings.gradle'',
        ''settings.gradle.kts'', ''pyproject.toml'', ''requirements.txt'', ''compile_commands.json'',
        ''pom.xml''])"

text \<open>\<open>rfind('.')\<close> and the slice from there; the dot is kept.\<close>

definition get_extension :: "string \<Rightarrow> string" where
  "get_extension file_path =
     (case rsplit_once file_path (CHR ''.'') of
        Some (_, ext) \<Rightarrow> CHR ''.'' # ext
      | None \<Rightarrow> '''')"

definition detect_contract_kind :: "string \<Rightarrow> contract_kind option" where
  "detect_contract_kind file_path =
     (if get_extension file_path = ''.proto'' then Some Protobuf else None)"

definition is_always_excluded_dir :: "string \<Rightarrow> bool" where
  "is_always_excluded_dir name = (name \<in> set [
     ''node_modules'', ''.git'', ''dist'', ''build'', ''out'', ''.next'', ''.nuxt'', ''coverage'',
     ''.turbo'', ''.cache'', ''venv'', ''.venv'', ''__pycache__'', ''cdk.out''])"

definition detect_language :: "string \<Rightarrow> string option" where
  "detect_language file_path =
     (let ext = get_extension file_path in
      if ext \<in> set [''.ts'', ''.mts'', ''.cts''] then Some ''typescript''
      else if ext = ''.tsx'' then Some ''tsx''
      else if ext \<in> set [''.js'', ''.mjs'', ''.cjs''] then Some ''javascript''
      else if ext = ''.jsx'' then Some ''jsx''
      else if ext = ''.java'' then Some ''java''
      else if ext = ''.py'' then Some ''python''
      else if ext = ''.rs'' then Some ''rust''
      else if ext \<in> set [''.c'', ''.h''] then Some ''c''
      else if ext \<in> set [''.cpp'', ''.cc'', ''.cxx'', ''.hpp'', ''.hxx''] then Some ''cpp''
      else None)"

definition language_to_extensions :: "string \<Rightarrow> string list" where
  "language_to_extensions lang =
     (if lang = ''typescript'' then [''.ts'', ''.mts'', ''.cts'']
      else if lang = ''tsx'' then [''.tsx'', ''.jsx'']
      else if lang = ''javascript'' then [''.js'', ''.mjs'', ''.cjs'']
      else if lang = ''rust'' then [''.rs'']
      else if lang = ''java'' then [''.java'']
      else if lang = ''python'' then [''.py'']
      else if lang = ''c'' then [''.c'', ''.h'']
      else if lang = ''cpp'' then [''.cpp'', ''.hpp'', ''.cc'', ''.cxx'', ''.hxx'']
      else [])"

section \<open>Test paths\<close>

definition matches_test_path_convention :: "string \<Rightarrow> bool" where
  "matches_test_path_convention path =
     (contains_str path ''__tests__'' \<or> contains_str path ''.test.'' \<or> contains_str path ''.spec.''
      \<or> contains_str path ''/test/'' \<or> contains_str path ''/tests/'' \<or> contains_str path ''/testsuite/''
      \<or> starts_with path ''test/'' \<or> starts_with path ''tests/'' \<or> starts_with path ''__tests__/''
      \<or> starts_with path ''testsuite/'')"

definition is_test_file :: "string \<Rightarrow> bool" where
  "is_test_file file_path = matches_test_path_convention file_path"

definition TEST_WORDS :: "string list" where
  "TEST_WORDS = [''test'', ''tests'', ''testing'', ''tester'', ''testutil'']"

definition is_test_word :: "string \<Rightarrow> bool" where
  "is_test_word token = list_ex (\<lambda>w. eq_ignore_ascii_case token w) TEST_WORDS"

text \<open>Whether a token ends between \<open>prev\<close> and \<open>cur\<close>, given the byte after \<open>cur\<close>.\<close>

definition camel_boundary :: "char \<Rightarrow> char \<Rightarrow> string \<Rightarrow> bool" where
  "camel_boundary prev cur rest =
     ((is_ascii_lowercase prev \<or> is_ascii_digit prev) \<and> is_ascii_uppercase cur
      \<or> is_ascii_uppercase prev \<and> is_ascii_uppercase cur
        \<and> (case rest of [] \<Rightarrow> False | n # _ \<Rightarrow> is_ascii_lowercase n))"

text \<open>The loop of \<open>camel_test_word\<close>: \<open>token\<close> is \<open>piece[start..i]\<close>, \<open>prev\<close> its last byte.\<close>

fun camel_loop :: "string \<Rightarrow> char \<Rightarrow> string \<Rightarrow> string option" where
  "camel_loop token prev [] = (if is_test_word token then Some token else None)"
| "camel_loop token prev (cur # rest) =
     (if camel_boundary prev cur rest
      then (if is_test_word token then Some token else camel_loop [cur] cur rest)
      else camel_loop (token @ [cur]) cur rest)"

definition camel_test_word :: "string \<Rightarrow> string option" where
  "camel_test_word piece = (case piece of [] \<Rightarrow> None | c # cs \<Rightarrow> camel_loop [c] c cs)"

definition is_path_separator :: "char \<Rightarrow> bool" where
  "is_path_separator c = (c \<in> set ''/._-'')"

text \<open>The loop of \<open>path_test_word\<close>: \<open>piece\<close> is \<open>path[piece_start..i]\<close>.\<close>

fun path_word_loop :: "string \<Rightarrow> string \<Rightarrow> string option" where
  "path_word_loop piece [] = camel_test_word piece"
| "path_word_loop piece (c # cs) =
     (if is_path_separator c
      then (case camel_test_word piece of Some w \<Rightarrow> Some w | None \<Rightarrow> path_word_loop [] cs)
      else path_word_loop (piece @ [c]) cs)"

definition path_test_word :: "string \<Rightarrow> string option" where
  "path_test_word path = path_word_loop [] path"

definition undetermined_test_word :: "string \<Rightarrow> bool \<Rightarrow> string option" where
  "undetermined_test_word path is_test =
     (if is_test \<or> matches_test_path_convention path then None else path_test_word path)"

section \<open>Globs and filters\<close>

text \<open>The loop of the single star: stop at a slash, else try the rest of the path.\<close>

fun star_loop :: "(string \<Rightarrow> bool) \<Rightarrow> string \<Rightarrow> bool" where
  "star_loop f [] = False"
| "star_loop f (c # cs) = (if c = CHR ''/'' then False else f cs \<or> star_loop f cs)"

fun double_star_loop :: "(string \<Rightarrow> bool) \<Rightarrow> string \<Rightarrow> bool" where
  "double_star_loop f [] = False"
| "double_star_loop f (c # cs) = (f cs \<or> double_star_loop f cs)"

lemma star_loop_cong [fundef_cong]:
  "path = path' \<Longrightarrow> (\<And>p. f p = g p) \<Longrightarrow> star_loop f path = star_loop g path'"
  by (induction path arbitrary: path') auto

lemma double_star_loop_cong [fundef_cong]:
  "path = path' \<Longrightarrow> (\<And>p. f p = g p) \<Longrightarrow> double_star_loop f path = double_star_loop g path'"
  by (induction path arbitrary: path') auto

function (sequential) glob_match :: "string \<Rightarrow> string \<Rightarrow> bool" where
  "glob_match [] [] = True"
| "glob_match (_ # _) [] = False"
| "glob_match path (pc # pat) =
     (if pc = CHR ''*''
      then (if pat \<noteq> [] \<and> hd pat = CHR ''*''
            then glob_match path (tl pat) \<or> double_star_loop (\<lambda>p. glob_match p (tl pat)) path
            else glob_match path pat \<or> star_loop (\<lambda>p. glob_match p pat) path)
      else (case path of
              fc # fs \<Rightarrow> (if pc = fc then glob_match fs pat else False)
            | [] \<Rightarrow> list_all (\<lambda>b. b = CHR ''*'') (pc # pat)))"
  by pat_completeness auto
termination
  by (relation "measure (\<lambda>(_, pat). length pat)") (auto simp: less_Suc_eq_le)

definition match_simple_glob :: "string \<Rightarrow> string \<Rightarrow> bool" where
  "match_simple_glob file_path pattern = glob_match file_path pattern"

fun is_excluded :: "string \<Rightarrow> string \<Rightarrow> string list \<Rightarrow> bool" where
  "is_excluded rel_path name [] = False"
| "is_excluded rel_path name (pattern # ps) =
     (if pattern = name \<or> pattern = rel_path then True
      else if match_simple_glob rel_path pattern then True
      else is_excluded rel_path name ps)"

definition passes_include_filter :: "string \<Rightarrow> string list \<Rightarrow> bool" where
  "passes_include_filter rel_path include_patterns =
     (if include_patterns = [] then True
      else list_ex (\<lambda>p. match_simple_glob rel_path p) include_patterns)"

section \<open>Extractor routing\<close>

text \<open>The insertions of the three nested loops, in order.\<close>

definition extractor_entries :: "nat \<Rightarrow> string list \<Rightarrow> (string \<times> nat) list" where
  "extractor_entries idx languages =
     concat (map (\<lambda>lang. map (\<lambda>file_ext. (file_ext, idx)) (language_to_extensions lang)) languages)"

fun table_entries :: "nat \<Rightarrow> string list list \<Rightarrow> (string \<times> nat) list" where
  "table_entries idx [] = []"
| "table_entries idx (languages # rest) = extractor_entries idx languages @ table_entries (Suc idx) rest"

definition build_extension_routing_table :: "string list list \<Rightarrow> (string \<rightharpoonup> nat)" where
  "build_extension_routing_table extractors = insert_all Map.empty (table_entries 0 extractors)"

definition route_file :: "string \<Rightarrow> (string \<rightharpoonup> nat) \<Rightarrow> nat option" where
  "route_file file_path routing_table = routing_table (get_extension file_path)"

fun find_map :: "('a \<Rightarrow> 'b option) \<Rightarrow> 'a list \<Rightarrow> 'b option" where
  "find_map f [] = None"
| "find_map f (x # xs) = (case f x of Some y \<Rightarrow> Some y | None \<Rightarrow> find_map f xs)"

definition route_file_content_aware ::
  "string \<Rightarrow> string option \<Rightarrow> (string \<rightharpoonup> nat) \<Rightarrow> nat option" where
  "route_file_content_aware file_path classified_language routing_table =
     (if get_extension file_path = ''.h'' \<and> classified_language = Some ''cpp''
      then find_map routing_table (language_to_extensions ''cpp'')
      else route_file file_path routing_table)"

end
