(* ===== verification/Routing_Correct.thy ===== *)
theory Routing_Correct
  imports Routing
begin

text \<open>
  Correctness of the routing policy: the glob matcher against the language of its patterns, the
  test-word scan against the tokens of the path, the routing table, and the extension tables.
\<close>

section \<open>The language of a glob\<close>

datatype glob_token = Lit char | Star | Double_Star

fun glob_tokens :: "string \<Rightarrow> glob_token list" where
  "glob_tokens [] = []"
| "glob_tokens (c # pat) =
     (if c = CHR ''*''
      then (if pat \<noteq> [] \<and> hd pat = CHR ''*'' then Double_Star # glob_tokens (tl pat)
            else Star # glob_tokens pat)
      else Lit c # glob_tokens pat)"

fun glob_language :: "glob_token list \<Rightarrow> string set" where
  "glob_language [] = {[]}"
| "glob_language (Lit c # ts) = {c # w | w. w \<in> glob_language ts}"
| "glob_language (Star # ts) = {u @ w | u w. CHR ''/'' \<notin> set u \<and> w \<in> glob_language ts}"
| "glob_language (Double_Star # ts) = {u @ w | u w. w \<in> glob_language ts}"

lemma star_loop_iff:
  "f path \<or> star_loop f path \<longleftrightarrow> (\<exists>u w. path = u @ w \<and> CHR ''/'' \<notin> set u \<and> f w)"
proof (induction path)
  case Nil
  then show ?case by simp
next
  case (Cons c cs)
  have "(\<exists>u w. c # cs = u @ w \<and> CHR ''/'' \<notin> set u \<and> f w) \<longleftrightarrow>
    f (c # cs) \<or> (c \<noteq> CHR ''/'' \<and> (\<exists>u w. cs = u @ w \<and> CHR ''/'' \<notin> set u \<and> f w))"
    (is "?L \<longleftrightarrow> ?R")
  proof
    assume ?L
    then obtain u w where uw: "c # cs = u @ w" "CHR ''/'' \<notin> set u" "f w" by blast
    then show ?R by (cases u) auto
  next
    assume ?R
    then consider "f (c # cs)" | u w where "c \<noteq> CHR ''/''" "cs = u @ w" "CHR ''/'' \<notin> set u" "f w"
      by blast
    then show ?L
    proof cases
      case 1
      then show ?thesis by (intro exI [of _ "[]"] exI [of _ "c # cs"]) simp
    next
      case (2 u w)
      then show ?thesis by (intro exI [of _ "c # u"] exI [of _ w]) auto
    qed
  qed
  with Cons.IH show ?case by auto
qed

lemma double_star_loop_iff:
  "f path \<or> double_star_loop f path \<longleftrightarrow> (\<exists>u w. path = u @ w \<and> f w)"
proof (induction path)
  case Nil
  then show ?case by simp
next
  case (Cons c cs)
  have "(\<exists>u w. c # cs = u @ w \<and> f w) \<longleftrightarrow> f (c # cs) \<or> (\<exists>u w. cs = u @ w \<and> f w)"
    by (auto simp: Cons_eq_append_conv)
  with Cons.IH show ?case by auto
qed

lemma glob_match_language: "glob_match path pat \<longleftrightarrow> path \<in> glob_language (glob_tokens pat)"
proof (induction pat arbitrary: path rule: glob_tokens.induct)
  case 1
  then show ?case by (cases path) auto
next
  case (2 c pat)
  consider (double) "c = CHR ''*''" "pat \<noteq> [] \<and> hd pat = CHR ''*''"
    | (star) "c = CHR ''*''" "\<not> (pat \<noteq> [] \<and> hd pat = CHR ''*'')"
    | (lit) "c \<noteq> CHR ''*''"
    by blast
  then show ?case
  proof cases
    case double
    then show ?thesis
      using double_star_loop_iff [of "\<lambda>p. glob_match p (tl pat)" path] 2(1) [OF double]
      by simp
  next
    case star
    have "(glob_match path pat \<or> star_loop (\<lambda>p. glob_match p pat) path) \<longleftrightarrow>
      (\<exists>u w. path = u @ w \<and> CHR ''/'' \<notin> set u \<and> w \<in> glob_language (glob_tokens pat))"
      using star_loop_iff [of "\<lambda>p. glob_match p pat" path] 2(2) [OF star] by simp
    with star show ?thesis by auto
  next
    case lit
    with 2(3) show ?thesis
      by (cases path) auto
  qed
qed

section \<open>Tokens of a path\<close>

fun camel_split :: "string \<Rightarrow> char \<Rightarrow> string \<Rightarrow> string list" where
  "camel_split token prev [] = [token]"
| "camel_split token prev (cur # rest) =
     (if camel_boundary prev cur rest then token # camel_split [cur] cur rest
      else camel_split (token @ [cur]) cur rest)"

definition camel_tokens :: "string \<Rightarrow> string list" where
  "camel_tokens piece = (case piece of [] \<Rightarrow> [] | c # cs \<Rightarrow> camel_split [c] c cs)"

fun pieces :: "string \<Rightarrow> string \<Rightarrow> string list" where
  "pieces piece [] = [piece]"
| "pieces piece (c # cs) =
     (if is_path_separator c then piece # pieces [] cs else pieces (piece @ [c]) cs)"

definition path_tokens :: "string \<Rightarrow> string list" where
  "path_tokens path = concat (map camel_tokens (pieces [] path))"

lemma camel_split_concat: "concat (camel_split token prev rest) = token @ rest"
  by (induction token prev rest rule: camel_split.induct) auto

lemma camel_tokens_concat: "concat (camel_tokens piece) = piece"
  by (cases piece) (simp_all add: camel_tokens_def camel_split_concat)

lemma camel_loop_find: "camel_loop token prev rest = List.find is_test_word (camel_split token prev rest)"
  by (induction token prev rest rule: camel_split.induct) auto

lemma camel_test_word_find: "camel_test_word piece = List.find is_test_word (camel_tokens piece)"
  by (cases piece) (simp_all add: camel_test_word_def camel_tokens_def camel_loop_find)

lemma find_append: "List.find P (xs @ ys) = (case List.find P xs of Some x \<Rightarrow> Some x | None \<Rightarrow> List.find P ys)"
  by (induction xs) auto

lemma path_word_loop_find:
  "path_word_loop piece path = List.find is_test_word (concat (map camel_tokens (pieces piece path)))"
  by (induction piece path rule: path_word_loop.induct)
    (auto simp: camel_test_word_find find_append split: option.splits)

lemma pieces_concat: "concat (pieces piece path) = piece @ filter (\<lambda>c. \<not> is_path_separator c) path"
  by (induction piece path rule: pieces.induct) auto

lemma path_tokens_concat: "concat (path_tokens path) = filter (\<lambda>c. \<not> is_path_separator c) path"
proof -
  have "concat (concat (map camel_tokens ps)) = concat ps" for ps
    by (induction ps) (simp_all add: camel_tokens_concat)
  then show ?thesis
    by (simp add: path_tokens_def pieces_concat)
qed

section \<open>The routing table\<close>

lemma insert_all_nat_max:
  assumes "sorted (map snd kvs)"
  shows "insert_all Map.empty kvs k = Some i \<longleftrightarrow> (k, i) \<in> set kvs \<and> (\<forall>j. (k, j) \<in> set kvs \<longrightarrow> j \<le> i)"
  using assms
proof (induction kvs arbitrary: i rule: rev_induct)
  case Nil
  then show ?case by simp
next
  case (snoc x kvs)
  obtain a b where x: "x = (a, b)" by (cases x)
  have le: "\<forall>(k, j) \<in> set kvs. j \<le> b" and s: "sorted (map snd kvs)"
    using snoc.prems x by (auto simp: sorted_append)
  show ?case
  proof (cases "a = k")
    case True
    then have "insert_all Map.empty (kvs @ [x]) k = Some b" by (simp add: x)
    then show ?thesis using le x True by (auto dest: order_antisym)
  next
    case False
    then have "insert_all Map.empty (kvs @ [x]) k = insert_all Map.empty kvs k" by (simp add: x)
    then show ?thesis using snoc.IH [OF s] x False by auto
  qed
qed

lemma extractor_entries_mem:
  "p \<in> set (extractor_entries idx ls) \<longleftrightarrow>
     snd p = idx \<and> (\<exists>lang \<in> set ls. fst p \<in> set (language_to_extensions lang))"
  by (cases p) (auto simp: extractor_entries_def)

lemma table_entries_ge: "(e, j) \<in> set (table_entries n xss) \<Longrightarrow> n \<le> j"
proof (induction xss arbitrary: n)
  case (Cons xs xss)
  then show ?case
    using Cons.IH [of "Suc n"] by (auto simp: extractor_entries_mem Suc_le_eq)
qed simp

lemma table_entries_mem:
  "(e, n + i) \<in> set (table_entries n xss) \<longleftrightarrow>
     i < length xss \<and> (\<exists>lang \<in> set (xss ! i). e \<in> set (language_to_extensions lang))"
proof (induction xss arbitrary: n i)
  case (Cons xs xss)
  have no: "(e, n) \<notin> set (table_entries (Suc n) xss)"
    using table_entries_ge [of e n "Suc n"] by auto
  show ?case
  proof (cases i)
    case 0
    with no show ?thesis by (simp add: extractor_entries_mem)
  next
    case (Suc k)
    with Cons.IH [of "Suc n" k] show ?thesis by (simp add: extractor_entries_mem)
  qed
qed simp

lemma sorted_constant: "\<forall>p \<in> set xs. snd p = (n :: nat) \<Longrightarrow> sorted (map snd xs)"
  by (induction xs) auto

lemma table_entries_sorted: "sorted (map snd (table_entries n xss))"
proof (induction xss arbitrary: n)
  case (Cons xs xss)
  have "\<forall>p \<in> set (extractor_entries n xs). snd p = n"
    by (simp add: extractor_entries_mem)
  moreover have "\<forall>p \<in> set (table_entries (Suc n) xss). n \<le> snd p"
    using table_entries_ge by (metis Suc_leD prod.collapse)
  ultimately show ?case
    using Cons.IH sorted_constant by (auto simp: sorted_append)
qed simp

section \<open>Properties\<close>

text \<open>
  C8. The recursive glob matcher accepts exactly the paths in the language of its pattern: a
  single star stands for any characters but a slash, a double star for any characters, every other
  character for itself.
\<close>

theorem match_simple_glob_correct:
  "match_simple_glob path pattern \<longleftrightarrow> path \<in> glob_language (glob_tokens pattern)"
  by (simp add: match_simple_glob_def glob_match_language)

text \<open>
  The test word of a path is the first test word among the path's tokens, and the tokens are
  the path without its separators, in order: nothing is skipped and no word straddles a token.
\<close>

theorem path_test_word_first_token:
  "path_test_word path = List.find is_test_word (path_tokens path) \<and>
   concat (path_tokens path) = filter (\<lambda>c. \<not> is_path_separator c) path"
  by (simp add: path_test_word_def path_word_loop_find path_tokens_concat flip: path_tokens_def)

text \<open>
  A file is routed to the last registered extractor one of whose languages claims the file's
  extension, and to none exactly if no extractor claims it.
\<close>

theorem route_file_last_extractor:
  "route_file path (build_extension_routing_table extractors) =
     (let claims = (\<lambda>i. \<exists>lang \<in> set (extractors ! i). get_extension path \<in> set (language_to_extensions lang));
          is = filter claims [0..<length extractors]
      in if is = [] then None else Some (last is))"
proof -
  let ?c = "\<lambda>i. \<exists>lang \<in> set (extractors ! i). get_extension path \<in> set (language_to_extensions lang)"
  let ?is = "filter ?c [0..<length extractors]"
  let ?t = "build_extension_routing_table extractors (get_extension path)"
  have iff: "?t = Some i \<longleftrightarrow> i \<in> set ?is \<and> (\<forall>j \<in> set ?is. j \<le> i)" for i
    by (auto simp: build_extension_routing_table_def insert_all_nat_max [OF table_entries_sorted]
        table_entries_mem [of _ 0, simplified])
  show ?thesis
  proof (cases "?is = []")
    case True
    then have "?t = None" using iff by (cases ?t) auto
    with True show ?thesis by (simp add: route_file_def)
  next
    case False
    have "sorted ?is" by (rule sorted_wrt_filter) simp
    then have "\<forall>j \<in> set ?is. j \<le> last ?is"
      using sorted_le_last by blast
    then have "?t = Some (last ?is)"
      using iff last_in_set [OF False] by blast
    with False show ?thesis by (simp add: route_file_def)
  qed
qed

text \<open>
  The three extension tables agree: an extension is a source extension exactly if some
  language claims it, and exactly if files with it have a detected language.
\<close>

theorem extension_tables_agree:
  "(is_source_extension (get_extension path) \<longleftrightarrow> detect_language path \<noteq> None) \<and>
   (is_source_extension ext \<longleftrightarrow> (\<exists>lang. ext \<in> set (language_to_extensions lang)))"
proof
  show "is_source_extension (get_extension path) \<longleftrightarrow> detect_language path \<noteq> None"
    by (simp add: is_source_extension_def detect_language_def Let_def)
  let ?langs = "[''typescript'', ''tsx'', ''javascript'', ''rust'', ''java'', ''python'', ''c'', ''cpp'']"
  have "\<exists>lang. ext \<in> set (language_to_extensions lang)" if "is_source_extension ext"
  proof -
    have "list_ex (\<lambda>l. ext \<in> set (language_to_extensions l)) ?langs"
      using that unfolding is_source_extension_def list.set insert_iff empty_iff
      by (elim disjE; simp add: language_to_extensions_def)
    then show ?thesis by (auto simp: list_ex_iff)
  qed
  moreover have "list_all is_source_extension (language_to_extensions lang)" for lang
    by (simp add: language_to_extensions_def is_source_extension_def)
  then have "is_source_extension ext" if "ext \<in> set (language_to_extensions lang)" for lang
    using that by (simp add: list_all_iff)
  ultimately show "is_source_extension ext \<longleftrightarrow> (\<exists>lang. ext \<in> set (language_to_extensions lang))"
    by blast
qed

end
