(* ===== verification/Invalidation.thy ===== *)
theory Invalidation
  imports Routing
begin

text \<open>
  The invalidation planner of the delta indexer (\<open>indexer/src/invalidation.rs\<close>): every file of the
  parent snapshot or of the working tree is classified, and the plan says what to extract, copy
  forward and delete. A \<open>BTreeMap\<close> is the list of its entries in key order. Counters are \<open>u64\<close>.
\<close>

section \<open>The model\<close>

record current_file_state =
  cf_uid :: string
  cf_path :: string
  content_hash :: string

datatype disposition = Unchanged | Changed | New | Deleted | ConfigWidened

record file_classification =
  fc_path :: string
  fc_uid :: string
  disposition :: disposition
  reason :: string
  current_hash :: "string option"
  parent_hash :: "string option"

record invalidation_counts =
  n_unchanged :: u64
  n_changed :: u64
  n_new :: u64
  n_deleted :: u64
  n_config_widened :: u64
  n_total :: u64

datatype config_scope = Global | Directory string

record changed_config =
  cc_path :: string
  cc_scope :: config_scope

record invalidation_plan =
  parent_snapshot_uid :: string
  plan_files :: "file_classification list"
  changed_configs :: "changed_config list"
  files_to_extract :: "string list"
  files_to_copy :: "string list"
  files_to_delete :: "string list"
  plan_counts :: invalidation_counts

definition RECOGNIZED_CONFIGS :: "string list" where
  "RECOGNIZED_CONFIGS = [''package.json'', ''pnpm-workspace.yaml'', ''tsconfig.json'', ''Cargo.toml'',
     ''build.gradle'', ''build.gradle.kts'', ''settings.gradle'', ''settings.gradle.kts'',
     ''pyproject.toml'', ''compile_commands.json'']"

definition is_recognized_config :: "string \<Rightarrow> bool" where
  "is_recognized_config path =
     (let filename = rsplit_next path (CHR ''/'') in
      filename \<in> set RECOGNIZED_CONFIGS \<or> is_tsconfig_or_jsconfig_json_name filename)"

definition compare_hash :: "string option \<Rightarrow> string \<Rightarrow> disposition \<times> string" where
  "compare_hash ph current = (case ph of
     None \<Rightarrow> (New, ''not in parent snapshot'')
   | Some h \<Rightarrow> (if h = current then (Unchanged, ''hash match'') else (Changed, ''hash changed'')))"

definition config_scope_of :: "string \<Rightarrow> config_scope" where
  "config_scope_of path =
     (if contains_char path (CHR ''/'') then Directory (fst (the (rsplit_once path (CHR ''/''))))
      else Global)"

text \<open>Phase 1: the loop over the current files, with its three accumulators.\<close>

fun phase1 ::
  "(string \<times> string) list \<Rightarrow> current_file_state list \<Rightarrow>
   file_classification list \<times> changed_config list \<times> string set \<Rightarrow>
   file_classification list \<times> changed_config list \<times> string set" where
  "phase1 parent_hashes [] acc = acc"
| "phase1 parent_hashes (cf # cfs) (files, ccs, uids) =
     (let ph = map_of parent_hashes (cf_uid cf);
          (disp, why) = compare_hash ph (content_hash cf);
          ccs' = (if disp = Changed \<and> is_recognized_config (cf_path cf)
                  then ccs @ [\<lparr>cc_path = cf_path cf, cc_scope = config_scope_of (cf_path cf)\<rparr>]
                  else ccs)
      in phase1 parent_hashes cfs
           (files @ [\<lparr>fc_path = cf_path cf, fc_uid = cf_uid cf, disposition = disp, reason = why,
                      current_hash = Some (content_hash cf), parent_hash = ph\<rparr>],
            ccs', insert (cf_uid cf) uids))"

text \<open>Phase 2: the parent's files that are not in the current tree.\<close>

definition deleted_path :: "string \<Rightarrow> string \<Rightarrow> string" where
  "deleted_path repo_uid uid =
     (case strip_prefix uid (repo_uid @ '':'') of Some p \<Rightarrow> p | None \<Rightarrow> uid)"

fun phase2 ::
  "string \<Rightarrow> string set \<Rightarrow> (string \<times> string) list \<Rightarrow> file_classification list \<Rightarrow> file_classification list" where
  "phase2 repo_uid uids [] files = files"
| "phase2 repo_uid uids ((uid, hash) # rest) files =
     phase2 repo_uid uids rest
       (if uid \<notin> uids
        then files @ [\<lparr>fc_path = deleted_path repo_uid uid, fc_uid = uid, disposition = Deleted,
                       reason = ''not in current tree'', current_hash = None, parent_hash = Some hash\<rparr>]
        else files)"

text \<open>Phase 3: the inner loop, which stops at the first config in scope.\<close>

definition in_scope :: "config_scope \<Rightarrow> string \<Rightarrow> bool" where
  "in_scope scope path = (case scope of
     Global \<Rightarrow> True
   | Directory dir \<Rightarrow> starts_with path (dir @ ''/''))"

fun widen_by :: "changed_config list \<Rightarrow> file_classification \<Rightarrow> file_classification" where
  "widen_by [] f = f"
| "widen_by (cc # ccs) f =
     (if in_scope (cc_scope cc) (fc_path f)
      then f\<lparr>disposition := ConfigWidened, reason := ''config changed: '' @ cc_path cc\<rparr>
      else widen_by ccs f)"

definition phase3 :: "changed_config list \<Rightarrow> file_classification list \<Rightarrow> file_classification list" where
  "phase3 ccs files =
     (if ccs \<noteq> []
      then map (\<lambda>f. if disposition f \<noteq> Unchanged then f else widen_by ccs f) files
      else files)"

text \<open>The output loop: one list and one counter per disposition.\<close>

record plan_lists =
  to_extract :: "string list"
  to_copy :: "string list"
  to_delete :: "string list"
  counters :: invalidation_counts

definition default_counts :: invalidation_counts where
  "default_counts = \<lparr>n_unchanged = 0, n_changed = 0, n_new = 0, n_deleted = 0, n_config_widened = 0,
     n_total = 0\<rparr>"

definition output_step :: "file_classification \<Rightarrow> plan_lists \<Rightarrow> plan_lists" where
  "output_step f pl = (case disposition f of
     Unchanged \<Rightarrow> pl\<lparr>to_copy := to_copy pl @ [fc_path f],
       counters := (counters pl)\<lparr>n_unchanged := n_unchanged (counters pl) + 1\<rparr>\<rparr>
   | Changed \<Rightarrow> pl\<lparr>to_extract := to_extract pl @ [fc_path f],
       counters := (counters pl)\<lparr>n_changed := n_changed (counters pl) + 1\<rparr>\<rparr>
   | New \<Rightarrow> pl\<lparr>to_extract := to_extract pl @ [fc_path f],
       counters := (counters pl)\<lparr>n_new := n_new (counters pl) + 1\<rparr>\<rparr>
   | Deleted \<Rightarrow> pl\<lparr>to_delete := to_delete pl @ [fc_path f],
       counters := (counters pl)\<lparr>n_deleted := n_deleted (counters pl) + 1\<rparr>\<rparr>
   | ConfigWidened \<Rightarrow> pl\<lparr>to_extract := to_extract pl @ [fc_path f],
       counters := (counters pl)\<lparr>n_config_widened := n_config_widened (counters pl) + 1\<rparr>\<rparr>)"

definition build_invalidation_plan ::
  "string \<Rightarrow> (string \<times> string) list \<Rightarrow> current_file_state list \<Rightarrow> string \<Rightarrow> invalidation_plan" where
  "build_invalidation_plan parent_uid parent_hashes current_files repo_uid =
     (let (files1, ccs, uids) = phase1 parent_hashes current_files ([], [], {});
          files2 = phase2 repo_uid uids parent_hashes files1;
          files = phase3 ccs files2;
          out = fold output_step files
            \<lparr>to_extract = [], to_copy = [], to_delete = [], counters = default_counts\<rparr>
      in \<lparr>parent_snapshot_uid = parent_uid, plan_files = files, changed_configs = ccs,
          files_to_extract = to_extract out, files_to_copy = to_copy out, files_to_delete = to_delete out,
          plan_counts = (counters out)\<lparr>n_total := of_nat (length files)\<rparr>\<rparr>)"

section \<open>A reference classification\<close>

text \<open>
  The disposition of a current file, said without loops: by its hash alone, except that an
  unchanged file is widened when some changed file is a recognized config at the root, or one
  whose directory contains the file.
\<close>

definition changed_file :: "(string \<times> string) list \<Rightarrow> current_file_state \<Rightarrow> bool" where
  "changed_file parent g \<longleftrightarrow> (\<exists>h. map_of parent (cf_uid g) = Some h \<and> h \<noteq> content_hash g)"

definition config_covers :: "string \<Rightarrow> string \<Rightarrow> bool" where
  "config_covers config path \<longleftrightarrow> CHR ''/'' \<notin> set config \<or>
     (\<exists>dir base rest. config = dir @ ''/'' @ base \<and> CHR ''/'' \<notin> set base \<and> path = dir @ ''/'' @ rest)"

definition reference_disposition ::
  "(string \<times> string) list \<Rightarrow> current_file_state list \<Rightarrow> current_file_state \<Rightarrow> disposition" where
  "reference_disposition parent current f = (case map_of parent (cf_uid f) of
     None \<Rightarrow> New
   | Some h \<Rightarrow> (if h \<noteq> content_hash f then Changed
       else if \<exists>g \<in> set current. changed_file parent g \<and> is_recognized_config (cf_path g)
              \<and> config_covers (cf_path g) (cf_path f) then ConfigWidened
       else Unchanged))"

definition base_entry :: "(string \<times> string) list \<Rightarrow> current_file_state \<Rightarrow> file_classification" where
  "base_entry parent cf = \<lparr>fc_path = cf_path cf, fc_uid = cf_uid cf,
     disposition = fst (compare_hash (map_of parent (cf_uid cf)) (content_hash cf)),
     reason = snd (compare_hash (map_of parent (cf_uid cf)) (content_hash cf)),
     current_hash = Some (content_hash cf), parent_hash = map_of parent (cf_uid cf)\<rparr>"

definition deleted_entry :: "string \<Rightarrow> string \<times> string \<Rightarrow> file_classification" where
  "deleted_entry repo_uid e = \<lparr>fc_path = deleted_path repo_uid (fst e), fc_uid = fst e,
     disposition = Deleted, reason = ''not in current tree'', current_hash = None,
     parent_hash = Some (snd e)\<rparr>"

definition configs_of :: "(string \<times> string) list \<Rightarrow> current_file_state list \<Rightarrow> changed_config list" where
  "configs_of parent current =
     map (\<lambda>cf. \<lparr>cc_path = cf_path cf, cc_scope = config_scope_of (cf_path cf)\<rparr>)
       (filter (\<lambda>cf. changed_file parent cf \<and> is_recognized_config (cf_path cf)) current)"

section \<open>Lemmas\<close>

lemma compare_hash_changed: "fst (compare_hash ph c) = Changed \<longleftrightarrow> (\<exists>h. ph = Some h \<and> h \<noteq> c)"
  by (auto simp: compare_hash_def split: option.splits)

lemma phase1_spec:
  "phase1 parent cfs (files, ccs, uids) =
     (files @ map (base_entry parent) cfs, ccs @ configs_of parent cfs, uids \<union> cf_uid ` set cfs)"
proof (induction cfs arbitrary: files ccs uids)
  case Nil
  then show ?case by (simp add: configs_of_def)
next
  case (Cons cf cfs)
  show ?case
    using compare_hash_changed [of "map_of parent (cf_uid cf)" "content_hash cf"]
    by (auto simp: Let_def split_beta Cons.IH base_entry_def configs_of_def changed_file_def)
qed

lemma phase2_spec:
  "phase2 repo uids parent files =
     files @ map (deleted_entry repo) (filter (\<lambda>e. fst e \<notin> uids) parent)"
  by (induction repo uids parent files rule: phase2.induct) (auto simp: deleted_entry_def)

lemma in_scope_covers: "in_scope (config_scope_of config) path \<longleftrightarrow> config_covers config path"
proof (cases "CHR ''/'' \<in> set config")
  case True
  then obtain dir base where db: "rsplit_once config (CHR ''/'') = Some (dir, base)"
    by (auto simp: rsplit_once_def)
  note split = rsplit_once_Some [OF db]
  have scope: "config_scope_of config = Directory dir"
    using True db by (simp add: config_scope_of_def contains_char_def)
  have uniq: "dir' = dir" if "config = dir' @ CHR ''/'' # base'" "CHR ''/'' \<notin> set base'" for dir' base'
    using that split last_occurrence_unique [of dir' "CHR ''/''" base' dir base] by simp
  show ?thesis
  proof
    assume "in_scope (config_scope_of config) path"
    then obtain rest where "path = dir @ ''/'' @ rest"
      by (auto simp: scope in_scope_def starts_with_iff)
    then show "config_covers config path"
      unfolding config_covers_def using split by auto
  next
    assume "config_covers config path"
    then obtain dir' base' rest where "config = dir' @ CHR ''/'' # base'" "CHR ''/'' \<notin> set base'"
      "path = dir' @ ''/'' @ rest"
      using True by (auto simp: config_covers_def)
    then have "path = (dir @ ''/'') @ rest"
      using uniq by simp
    then show "in_scope (config_scope_of config) path"
      unfolding scope in_scope_def by (simp only: config_scope.case starts_with_append)
  qed
next
  case False
  then show ?thesis
    by (simp add: in_scope_def config_scope_of_def contains_char_def config_covers_def)
qed

lemma widen_by_spec:
  "fc_path (widen_by ccs f) = fc_path f \<and> fc_uid (widen_by ccs f) = fc_uid f \<and>
   disposition (widen_by ccs f) =
     (if \<exists>cc \<in> set ccs. in_scope (cc_scope cc) (fc_path f) then ConfigWidened else disposition f)"
  by (induction ccs) auto

lemma phase3_spec:
  "phase3 ccs files = map (\<lambda>f. if disposition f \<noteq> Unchanged then f else widen_by ccs f) files"
  by (auto simp: phase3_def intro!: map_idI [symmetric])

abbreviation entry_key :: "file_classification \<Rightarrow> string \<times> string \<times> disposition" where
  "entry_key f \<equiv> (fc_path f, fc_uid f, disposition f)"

lemma plan_files_eq:
  "plan_files (build_invalidation_plan pu parent current repo) =
     map (\<lambda>f. if disposition f \<noteq> Unchanged then f else widen_by (configs_of parent current) f)
       (map (base_entry parent) current @
        map (deleted_entry repo) (filter (\<lambda>e. fst e \<notin> cf_uid ` set current) parent))"
  by (simp add: build_invalidation_plan_def phase1_spec phase2_spec phase3_spec Let_def)

lemma configs_of_scope:
  "(\<exists>cc \<in> set (configs_of parent current). in_scope (cc_scope cc) path) \<longleftrightarrow>
   (\<exists>g \<in> set current. changed_file parent g \<and> is_recognized_config (cf_path g) \<and> config_covers (cf_path g) path)"
  by (auto simp: configs_of_def in_scope_covers)

lemma widened_base_entry:
  "entry_key (if disposition (base_entry parent cf) \<noteq> Unchanged then base_entry parent cf
      else widen_by (configs_of parent current) (base_entry parent cf)) =
   (cf_path cf, cf_uid cf, reference_disposition parent current cf)"
proof -
  have "fc_path (base_entry parent cf) = cf_path cf" "fc_uid (base_entry parent cf) = cf_uid cf"
    by (simp_all add: base_entry_def)
  moreover have "disposition (base_entry parent cf) = (case map_of parent (cf_uid cf) of
      None \<Rightarrow> New | Some h \<Rightarrow> if h = content_hash cf then Unchanged else Changed)"
    by (simp add: base_entry_def compare_hash_def split: option.splits)
  ultimately show ?thesis
    by (auto simp: widen_by_spec configs_of_scope reference_disposition_def split: option.splits)
qed

lemma fc_path_base: "fc_path (base_entry parent cf) = cf_path cf"
  by (simp add: base_entry_def)

lemma output_fold:
  defines "out \<equiv> \<lambda>files pl. fold output_step files pl"
  shows "to_extract (out files pl) = to_extract pl @ map fc_path (filter (\<lambda>f. disposition f \<in> {Changed, New, ConfigWidened}) files)"
    and "to_copy (out files pl) = to_copy pl @ map fc_path (filter (\<lambda>f. disposition f = Unchanged) files)"
    and "to_delete (out files pl) = to_delete pl @ map fc_path (filter (\<lambda>f. disposition f = Deleted) files)"
  unfolding out_def
  by (induction files arbitrary: pl) (auto simp: output_step_def split: disposition.splits)

lemma counters_fold:
  fixes pl defines "c \<equiv> \<lambda>files pl. counters (fold output_step files pl)"
  shows "n_unchanged (c files pl) = n_unchanged (counters pl) + of_nat (length (filter (\<lambda>f. disposition f = Unchanged) files))"
    and "n_changed (c files pl) = n_changed (counters pl) + of_nat (length (filter (\<lambda>f. disposition f = Changed) files))"
    and "n_new (c files pl) = n_new (counters pl) + of_nat (length (filter (\<lambda>f. disposition f = New) files))"
    and "n_deleted (c files pl) = n_deleted (counters pl) + of_nat (length (filter (\<lambda>f. disposition f = Deleted) files))"
    and "n_config_widened (c files pl) = n_config_widened (counters pl) + of_nat (length (filter (\<lambda>f. disposition f = ConfigWidened) files))"
  unfolding c_def
  by (induction files arbitrary: pl) (auto simp: output_step_def split: disposition.splits)

lemma disposition_count:
  "length (filter (\<lambda>f. disposition f = Unchanged) files) + length (filter (\<lambda>f. disposition f = Changed) files)
   + length (filter (\<lambda>f. disposition f = New) files) + length (filter (\<lambda>f. disposition f = Deleted) files)
   + length (filter (\<lambda>f. disposition f = ConfigWidened) files) = length files"
proof (induction files)
  case (Cons f fs)
  then show ?case by (cases "disposition f") auto
qed simp

lemma plan_lists:
  fixes pu parent current repo
  defines "p \<equiv> build_invalidation_plan pu parent current repo"
  shows "files_to_extract p = map fc_path (filter (\<lambda>f. disposition f \<in> {Changed, New, ConfigWidened}) (plan_files p))"
    and "files_to_copy p = map fc_path (filter (\<lambda>f. disposition f = Unchanged) (plan_files p))"
    and "files_to_delete p = map fc_path (filter (\<lambda>f. disposition f = Deleted) (plan_files p))"
  unfolding p_def by (simp_all add: build_invalidation_plan_def Let_def split_beta output_fold)

lemma plan_counters:
  fixes pu parent current repo
  defines "p \<equiv> build_invalidation_plan pu parent current repo"
  shows "n_unchanged (plan_counts p) = of_nat (length (filter (\<lambda>f. disposition f = Unchanged) (plan_files p)))"
    and "n_changed (plan_counts p) = of_nat (length (filter (\<lambda>f. disposition f = Changed) (plan_files p)))"
    and "n_new (plan_counts p) = of_nat (length (filter (\<lambda>f. disposition f = New) (plan_files p)))"
    and "n_deleted (plan_counts p) = of_nat (length (filter (\<lambda>f. disposition f = Deleted) (plan_files p)))"
    and "n_config_widened (plan_counts p) = of_nat (length (filter (\<lambda>f. disposition f = ConfigWidened) (plan_files p)))"
    and "n_total (plan_counts p) = of_nat (length (plan_files p))"
  unfolding p_def
  by (simp_all add: build_invalidation_plan_def Let_def split_beta counters_fold default_counts_def)

section \<open>Properties\<close>

text \<open>
  C9. The plan classifies the current files, in order, as the reference classification does, and
  then every file of the parent that is missing from the current tree as deleted. In particular
  the phases and the early exit of the widening loop do not matter.
\<close>

theorem plan_matches_reference:
  "map (\<lambda>f. (fc_path f, fc_uid f, disposition f)) (plan_files (build_invalidation_plan pu parent current repo)) =
     map (\<lambda>cf. (cf_path cf, cf_uid cf, reference_disposition parent current cf)) current @
     map (\<lambda>e. (deleted_path repo (fst e), fst e, Deleted))
       (filter (\<lambda>e. fst e \<notin> cf_uid ` set current) parent)"
proof -
  have "entry_key (if disposition (deleted_entry repo e) \<noteq> Unchanged then deleted_entry repo e
      else widen_by ccs (deleted_entry repo e)) = (deleted_path repo (fst e), fst e, Deleted)" for ccs e
    by (simp add: deleted_entry_def)
  then show ?thesis
    unfolding plan_files_eq
    by (simp add: comp_def widened_base_entry)
qed

text \<open>
  The three output lists split the classified files without loss or overlap (changed, new and
  widened files are extracted, unchanged ones copied, deleted ones deleted, each list in file
  order), and the five counters add up to the total.
\<close>

theorem plan_partition:
  fixes pu parent current repo
  defines "p \<equiv> build_invalidation_plan pu parent current repo"
  shows "files_to_extract p = map fc_path (filter (\<lambda>f. disposition f \<in> {Changed, New, ConfigWidened}) (plan_files p)) \<and>
    files_to_copy p = map fc_path (filter (\<lambda>f. disposition f = Unchanged) (plan_files p)) \<and>
    files_to_delete p = map fc_path (filter (\<lambda>f. disposition f = Deleted) (plan_files p)) \<and>
    length (files_to_extract p) + length (files_to_copy p) + length (files_to_delete p) = length (plan_files p) \<and>
    n_unchanged (plan_counts p) + n_changed (plan_counts p) + n_new (plan_counts p)
      + n_deleted (plan_counts p) + n_config_widened (plan_counts p) = n_total (plan_counts p) \<and>
    n_total (plan_counts p) = of_nat (length (plan_files p))"
proof -
  have three: "length (filter (\<lambda>f. disposition f \<in> {Changed, New, ConfigWidened}) files)
    + length (filter (\<lambda>f. disposition f = Unchanged) files)
    + length (filter (\<lambda>f. disposition f = Deleted) files) = length files" for files
  proof (induction files)
    case (Cons f fs)
    then show ?case by (cases "disposition f") auto
  qed simp
  have "n_unchanged (plan_counts p) + n_changed (plan_counts p) + n_new (plan_counts p)
      + n_deleted (plan_counts p) + n_config_widened (plan_counts p) = n_total (plan_counts p)"
    unfolding p_def plan_counters of_nat_add [symmetric] disposition_count ..
  then show ?thesis
    using three [of "plan_files p"] by (simp add: p_def plan_lists plan_counters)
qed

text \<open>
  C10. Nothing stale is copied forward: a path in the copy list belongs to a current file whose
  hash is the parent's, and no changed recognized config covers it.
\<close>

theorem copied_files_fresh:
  assumes "path \<in> set (files_to_copy (build_invalidation_plan pu parent current repo))"
  shows "\<exists>f \<in> set current. cf_path f = path \<and> map_of parent (cf_uid f) = Some (content_hash f) \<and>
    \<not> (\<exists>g \<in> set current. changed_file parent g \<and> is_recognized_config (cf_path g)
          \<and> config_covers (cf_path g) path)"
proof -
  let ?p = "build_invalidation_plan pu parent current repo"
  from assms obtain e where "e \<in> set (plan_files ?p)" "disposition e = Unchanged" "fc_path e = path"
    by (auto simp: plan_lists)
  then have "(path, fc_uid e, Unchanged) \<in> set (map entry_key (plan_files ?p))"
    by force
  then obtain f where "f \<in> set current" "cf_path f = path" "reference_disposition parent current f = Unchanged"
    unfolding plan_files_eq
    by (auto simp: widened_base_entry comp_def deleted_entry_def)
  then show ?thesis
    by (auto simp: reference_disposition_def split: option.splits if_splits)
qed

theorem copied_files_fresh_witness:
  "\<exists>f \<in> set [\<lparr>cf_uid = ''r:a'', cf_path = ''a'', content_hash = ''h''\<rparr>]. cf_path f = ''a'' \<and>
     map_of [(''r:a'', ''h'')] (cf_uid f) = Some (content_hash f)"
  using copied_files_fresh [of "''a''" "''p''" "[(''r:a'', ''h'')]"
      "[\<lparr>cf_uid = ''r:a'', cf_path = ''a'', content_hash = ''h''\<rparr>]" "''r''"]
  by (simp add: build_invalidation_plan_def compare_hash_def Let_def phase3_def output_step_def)

text \<open>
  A refresh of an unchanged tree extracts and deletes nothing and copies every file.
\<close>

theorem unchanged_tree_copies_all:
  assumes "\<forall>f \<in> set current. map_of parent (cf_uid f) = Some (content_hash f)"
    and "fst ` set parent \<subseteq> cf_uid ` set current"
  shows "files_to_extract (build_invalidation_plan pu parent current repo) = [] \<and>
    files_to_delete (build_invalidation_plan pu parent current repo) = [] \<and>
    files_to_copy (build_invalidation_plan pu parent current repo) = map cf_path current"
proof -
  have none: "\<not> changed_file parent g" if "g \<in> set current" for g
    using assms(1) that by (auto simp: changed_file_def)
  have "configs_of parent current = []"
    using none by (auto simp: configs_of_def filter_empty_conv)
  moreover have "filter (\<lambda>e. fst e \<notin> cf_uid ` set current) parent = []"
    using assms(2) by (auto simp: filter_empty_conv)
  ultimately have files: "plan_files (build_invalidation_plan pu parent current repo) = map (base_entry parent) current"
    unfolding plan_files_eq by simp
  have "disposition (base_entry parent cf) = Unchanged" if "cf \<in> set current" for cf
    using assms(1) that by (simp add: base_entry_def compare_hash_def)
  then show ?thesis
    unfolding plan_lists files by (simp add: filter_map comp_def fc_path_base cong: filter_cong)
qed

theorem unchanged_tree_copies_all_witness:
  "files_to_copy (build_invalidation_plan ''p'' [(''r:a'', ''h'')]
     [\<lparr>cf_uid = ''r:a'', cf_path = ''a'', content_hash = ''h''\<rparr>] ''r'') = [''a'']"
  using unchanged_tree_copies_all [of "[\<lparr>cf_uid = ''r:a'', cf_path = ''a'', content_hash = ''h''\<rparr>]"
      "[(''r:a'', ''h'')]" "''p''" "''r''"]
  by simp

text \<open>
  Every file name that widens on change is tracked as a config file; the converse fails: a
  changed \<open>requirements.txt\<close> is tracked and widens nothing, though \<open>is_config_file\<close> is documented as
  the mirror of \<open>RECOGNIZED_CONFIGS\<close>.
\<close>

theorem config_tables_diverge:
  "(is_recognized_config path \<longrightarrow> is_config_file path) \<and>
   is_config_file ''requirements.txt'' \<and> \<not> is_recognized_config ''requirements.txt''"
proof (intro conjI impI)
  assume "is_recognized_config path"
  then show "is_config_file path"
    by (auto simp: is_recognized_config_def is_config_file_def RECOGNIZED_CONFIGS_def Let_def)
next
  show "is_config_file ''requirements.txt''" by code_simp
  show "\<not> is_recognized_config ''requirements.txt''" by code_simp
qed

theorem config_tables_diverge_witness:
  "is_recognized_config ''a/Cargo.toml'' \<and> is_config_file ''a/Cargo.toml''"
proof -
  have "is_recognized_config ''a/Cargo.toml''" by code_simp
  with config_tables_diverge [of "''a/Cargo.toml''"] show ?thesis by blast
qed

end
