(* ===== verification/F64.thy ===== *)
theory F64
  imports Rust_Prelude
begin

text \<open>
  The part of Rust's \<open>f64\<close> (IEEE 754 binary64) that the policy code uses: comparisons,
  \<open>max\<close>, \<open>abs\<close>, \<open>round\<close>, \<open>is_finite\<close>, and addition, subtraction, multiplication and division
  rounded to nearest with ties to even. A finite number is its sign and its magnitude in units of
  $2^{-1074}$, the smallest positive double, so every operation is one exact integer computation
  followed by a rounding.
\<close>

section \<open>Values and comparisons\<close>

datatype f64 = NaN | Inf bool | Fin bool int

definition signed :: "bool \<Rightarrow> int \<Rightarrow> int" where
  "signed neg m = (if neg then - m else m)"

fun flt :: "f64 \<Rightarrow> f64 \<Rightarrow> bool" where
  "flt NaN _ = False"
| "flt _ NaN = False"
| "flt (Inf a) (Inf b) = (a \<and> \<not> b)"
| "flt (Inf a) (Fin _ _) = a"
| "flt (Fin _ _) (Inf b) = (\<not> b)"
| "flt (Fin a m) (Fin b n) = (signed a m < signed b n)"

fun fle :: "f64 \<Rightarrow> f64 \<Rightarrow> bool" where
  "fle NaN _ = False"
| "fle _ NaN = False"
| "fle (Inf a) (Inf b) = (b \<longrightarrow> a)"
| "fle (Inf a) (Fin _ _) = a"
| "fle (Fin _ _) (Inf b) = (\<not> b)"
| "fle (Fin a m) (Fin b n) = (signed a m \<le> signed b n)"

definition is_finite :: "f64 \<Rightarrow> bool" where
  "is_finite x = (case x of Fin _ _ \<Rightarrow> True | _ \<Rightarrow> False)"

fun fabs :: "f64 \<Rightarrow> f64" where
  "fabs NaN = NaN"
| "fabs (Inf _) = Inf False"
| "fabs (Fin _ m) = Fin False m"

fun fneg :: "f64 \<Rightarrow> f64" where
  "fneg NaN = NaN"
| "fneg (Inf a) = Inf (\<not> a)"
| "fneg (Fin a m) = Fin (\<not> a) m"

text \<open>\<open>f64::max\<close>: a NaN argument is ignored.\<close>

definition fmax :: "f64 \<Rightarrow> f64 \<Rightarrow> f64" where
  "fmax x y = (if x = NaN then y else if y = NaN then x else if flt x y then y else x)"

section \<open>Rounded arithmetic\<close>

function bit_length :: "int \<Rightarrow> nat" where
  "bit_length m = (if m \<le> 0 then 0 else Suc (bit_length (m div 2)))"
  by auto
termination
  by (relation "measure nat") auto

declare bit_length.simps [simp del]

definition max_magnitude :: int where
  "max_magnitude = (2 ^ 53 - 1) * 2 ^ 2045"

text \<open>
  The double nearest to \<open>p / q\<close> units (\<open>0 \<le> p\<close>, \<open>0 < q\<close>): the quotient is cut to 53 significant
  bits and rounded half to even; beyond the largest magnitude it is infinite.
\<close>

definition round_magnitude :: "bool \<Rightarrow> int \<Rightarrow> int \<Rightarrow> f64" where
  "round_magnitude neg p q =
     (let e = bit_length (p div q) - 53;
          d = q * 2 ^ e;
          k = p div d; r = p mod d;
          k' = (if d < 2 * r \<or> (d = 2 * r \<and> k mod 2 = 1) then k + 1 else k);
          m = k' * 2 ^ e
      in if max_magnitude < m then Inf neg else Fin neg m)"

definition unit_scale :: int where
  "unit_scale = 2 ^ 1074"

fun fadd :: "f64 \<Rightarrow> f64 \<Rightarrow> f64" where
  "fadd NaN _ = NaN"
| "fadd _ NaN = NaN"
| "fadd (Inf a) (Inf b) = (if a = b then Inf a else NaN)"
| "fadd (Inf a) (Fin _ _) = Inf a"
| "fadd (Fin _ _) (Inf b) = Inf b"
| "fadd (Fin a m) (Fin b n) =
     (let s = signed a m + signed b n
      in if s = 0 then Fin (a \<and> b) 0 else round_magnitude (s < 0) \<bar>s\<bar> 1)"

definition fsub :: "f64 \<Rightarrow> f64 \<Rightarrow> f64" where
  "fsub x y = fadd x (fneg y)"

fun fmul :: "f64 \<Rightarrow> f64 \<Rightarrow> f64" where
  "fmul NaN _ = NaN"
| "fmul _ NaN = NaN"
| "fmul (Inf a) (Inf b) = Inf (a \<noteq> b)"
| "fmul (Inf a) (Fin b n) = (if n = 0 then NaN else Inf (a \<noteq> b))"
| "fmul (Fin a m) (Inf b) = (if m = 0 then NaN else Inf (a \<noteq> b))"
| "fmul (Fin a m) (Fin b n) = round_magnitude (a \<noteq> b) (m * n) unit_scale"

fun fdiv :: "f64 \<Rightarrow> f64 \<Rightarrow> f64" where
  "fdiv NaN _ = NaN"
| "fdiv _ NaN = NaN"
| "fdiv (Inf a) (Inf b) = NaN"
| "fdiv (Inf a) (Fin b n) = Inf (a \<noteq> b)"
| "fdiv (Fin a m) (Inf b) = Fin (a \<noteq> b) 0"
| "fdiv (Fin a m) (Fin b n) =
     (if n = 0 then (if m = 0 then NaN else Inf (a \<noteq> b))
      else round_magnitude (a \<noteq> b) (m * unit_scale) n)"

text \<open>\<open>f64::round\<close>: to the nearest integer, halves away from zero.\<close>

fun fround :: "f64 \<Rightarrow> f64" where
  "fround (Fin a m) = Fin a ((2 * m + unit_scale) div (2 * unit_scale) * unit_scale)"
| "fround x = x"

text \<open>\<open>n as f64\<close> for an unsigned integer, and \<open>m * 2 ^ e\<close> for literals (\<open>-1074 \<le> e\<close>).\<close>

definition f64_of_nat :: "nat \<Rightarrow> f64" where
  "f64_of_nat n = round_magnitude False (int n * unit_scale) 1"

definition f64_lit :: "int \<Rightarrow> nat \<Rightarrow> f64" where
  "f64_lit m k = Fin False (m * 2 ^ (1074 - k))"

text \<open>A decimal literal \<open>m / 10 ^ k\<close>, correctly rounded.\<close>

definition f64_decimal :: "nat \<Rightarrow> nat \<Rightarrow> f64" where
  "f64_decimal m k = round_magnitude False (int m * unit_scale) (10 ^ k)"

abbreviation f64_zero :: f64 where
  "f64_zero \<equiv> Fin False 0"

text \<open>\<open>f64::EPSILON\<close> is $2^{-52}$.\<close>

definition f64_epsilon :: f64 where
  "f64_epsilon = f64_lit 1 52"

text \<open>\<open>Iterator::sum\<close> over \<open>f64\<close> starts from negative zero.\<close>

definition f64_sum :: "f64 list \<Rightarrow> f64" where
  "f64_sum xs = foldl fadd (Fin True 0) xs"

section \<open>Evaluation\<close>

lemma bit_length_eq: "2 ^ n \<le> m \<Longrightarrow> m < 2 ^ Suc n \<Longrightarrow> bit_length m = Suc n"
proof (induction n arbitrary: m)
  case 0
  then have "m = 1" by simp
  then show ?case by (simp add: bit_length.simps)
next
  case (Suc n)
  have "2 ^ n \<le> m div 2"
    using zdiv_mono1 [OF Suc.prems(1), of 2] by simp
  moreover have "m div 2 < 2 ^ Suc n"
    using Suc.prems(2) by simp
  moreover have "0 < m"
    using Suc.prems(1) by (rule less_le_trans [rotated]) simp
  ultimately show ?case
    using Suc.IH by (subst bit_length.simps) simp
qed

lemma int_le_div_iff:
  assumes "0 < (b :: int)"
  shows "q \<le> a div b \<longleftrightarrow> q * b \<le> a"
proof
  assume "q \<le> a div b"
  then have "q * b \<le> (a div b) * b"
    using assms by simp
  also have "\<dots> \<le> a"
    using pos_mod_sign [OF assms, of a] div_mult_mod_eq [of a b] by linarith
  finally show "q * b \<le> a" .
next
  assume "q * b \<le> a"
  then have "(q * b) div b \<le> a div b"
    using assms zdiv_mono1 by blast
  with assms show "q \<le> a div b" by simp
qed

lemma int_div_less_iff: "0 < (b :: int) \<Longrightarrow> a div b < q \<longleftrightarrow> a < q * b"
  using int_le_div_iff [of b q a] by linarith

text \<open>
  A rounding depends on the ratio only: with \<open>p / q = a * 2 ^ e / b\<close> and \<open>a div b\<close> of 53 bits, what
  remains is arithmetic on small numerals.
\<close>

lemma round_ratio:
  assumes "0 < q" and "0 < b" and eq: "p * b = a * 2 ^ e * q"
    and lo: "2 ^ 52 \<le> a div b" and hi: "a div b < 2 ^ 53"
  shows "round_magnitude neg p q =
    (let k = a div b; r = a mod b;
         k' = (if b < 2 * r \<or> (b = 2 * r \<and> k mod 2 = 1) then k + 1 else k); m = k' * 2 ^ e
     in if max_magnitude < m then Inf neg else Fin neg m)"
proof -
  have "p div q = (p * b) div (q * b)"
    using assms(2) by simp
  also have "\<dots> = (q * (a * 2 ^ e)) div (q * b)"
    unfolding eq by (simp only: mult.commute [of "a * 2 ^ e" q])
  also have "\<dots> = (a * 2 ^ e) div b"
    using assms(1) by simp
  finally have pq: "p div q = (a * 2 ^ e) div b" .
  have pos: "(0::int) < 2 ^ e" by simp
  have "2 ^ 52 * b \<le> a"
    using lo assms(2) by (simp add: int_le_div_iff)
  then have "2 ^ 52 * b * 2 ^ e \<le> a * 2 ^ e"
    using pos by (simp only: mult_le_cancel_right) simp
  then have "2 ^ (52 + e) \<le> p div q"
    using assms(2) unfolding pq by (simp add: int_le_div_iff power_add ac_simps)
  moreover have "a < 2 ^ 53 * b"
    using hi assms(2) by (simp add: int_div_less_iff)
  then have "a * 2 ^ e < 2 ^ 53 * b * 2 ^ e"
    using pos by (simp only: mult_less_cancel_right) simp
  then have "p div q < 2 ^ Suc (52 + e)"
    using assms(2) unfolding pq by (simp add: int_div_less_iff power_add ac_simps)
  ultimately have e: "bit_length (p div q) - 53 = e"
    using bit_length_eq by fastforce
  let ?d = "q * 2 ^ e" and ?c = "2 ^ e * q"
  have c: "0 < ?c" using assms(1) by simp
  have "p div ?d = (p * b) div (?d * b)"
    using assms(2) by simp
  also have "\<dots> = (?c * a) div (?c * b)"
    unfolding eq by (simp only: ac_simps)
  also have "\<dots> = a div b"
    using c assms(1) by simp
  finally have k: "p div ?d = a div b" .
  have bp: "b * p = ?c * a" and bd: "b * ?d = ?c * b"
    using eq by (simp_all only: ac_simps)
  have "b * (p mod ?d) = (b * p) mod (b * ?d)"
    by (rule mult_mod_right)
  also have "\<dots> = (?c * a) mod (?c * b)"
    unfolding bp bd ..
  also have "\<dots> = ?c * (a mod b)"
    by (rule mult_mod_right [symmetric])
  finally have r: "b * (p mod ?d) = ?c * (a mod b)" .
  have "b * (2 * (p mod ?d)) = 2 * (b * (p mod ?d))"
    by (rule mult.left_commute)
  also have "\<dots> = ?c * (2 * (a mod b))"
    unfolding r by (rule mult.left_commute)
  finally have r2: "b * (2 * (p mod ?d)) = ?c * (2 * (a mod b))" .
  have "?d < 2 * (p mod ?d) \<longleftrightarrow> b * ?d < b * (2 * (p mod ?d))"
    using assms(2) by simp
  also have "\<dots> \<longleftrightarrow> ?c * b < ?c * (2 * (a mod b))"
    unfolding bd r2 ..
  finally have lt: "?d < 2 * (p mod ?d) \<longleftrightarrow> b < 2 * (a mod b)"
    using c assms(1) by simp
  have "?d = 2 * (p mod ?d) \<longleftrightarrow> b * ?d = b * (2 * (p mod ?d))"
    using assms(2) by simp
  also have "\<dots> \<longleftrightarrow> ?c * b = ?c * (2 * (a mod b))"
    unfolding bd r2 ..
  finally have equ: "?d = 2 * (p mod ?d) \<longleftrightarrow> b = 2 * (a mod b)"
    using c assms(1) by simp
  show ?thesis
    unfolding round_magnitude_def Let_def e k lt equ ..
qed

section \<open>The order\<close>

lemma flt_irrefl [simp]: "\<not> flt x x"
  by (cases x) auto

lemma fle_not_flt: "x \<noteq> NaN \<Longrightarrow> y \<noteq> NaN \<Longrightarrow> fle x y \<longleftrightarrow> \<not> flt y x"
  by (cases x; cases y) auto

lemma nan_incomparable [simp]: "\<not> flt x NaN" "\<not> fle x NaN" "\<not> flt NaN x" "\<not> fle NaN x"
  by (cases x; simp)+

lemma fle_trans: "fle x y \<Longrightarrow> fle y z \<Longrightarrow> fle x z"
  by (cases x; cases y; cases z) auto

lemma flt_fle_trans: "flt x y \<Longrightarrow> fle y z \<Longrightarrow> flt x z"
  by (cases x; cases y; cases z) auto

lemma flt_imp_fle: "flt x y \<Longrightarrow> fle x y"
  by (cases x; cases y) auto

lemma neg_inf_least: "x \<noteq> NaN \<Longrightarrow> fle (Inf True) x"
  by (cases x) auto

lemma fmax_le_iff:
  assumes "x \<noteq> NaN" and "t \<noteq> NaN"
  shows "fle (fmax x y) t \<longleftrightarrow> fle x t \<and> (y = NaN \<or> fle y t)"
proof (cases "y = NaN")
  case True
  with assms show ?thesis by (simp add: fmax_def)
next
  case False
  show ?thesis
  proof (cases "flt x y")
    case True
    with False assms show ?thesis
      by (auto simp: fmax_def dest: flt_imp_fle fle_trans)
  next
    case nlt: False
    then have "fle y x" using False assms by (simp add: fle_not_flt)
    with nlt False assms show ?thesis
      by (auto simp: fmax_def dest: fle_trans)
  qed
qed

lemma fmax_not_nan: "x \<noteq> NaN \<Longrightarrow> fmax x y \<noteq> NaN"
  by (simp add: fmax_def)

lemma fold_fmax_le_iff:
  assumes "x \<noteq> NaN" and "t \<noteq> NaN"
  shows "fle (foldl fmax x ys) t \<longleftrightarrow> fle x t \<and> (\<forall>y \<in> set ys. y = NaN \<or> fle y t)"
  using assms by (induction ys arbitrary: x) (auto simp: fmax_le_iff fmax_not_nan)

end
