(* ===== verification/Quality_Policy.thy ===== *)
theory Quality_Policy
  imports F64
begin

text \<open>
  Quality policy declarations: the payload types of \<open>storage/src/types.rs\<close> and the validation of
  \<open>quality-policy/src/lib.rs\<close>. An \<open>i64\<close> version is an \<open>int\<close>: it is compared and copied only.
\<close>

section \<open>Payload types (\<open>storage/src/types.rs\<close>)\<close>

datatype quality_policy_kind = AbsoluteMax | AbsoluteMin | NoNew | NoWorsened

datatype comparison_operator = LessOrEqual | GreaterOrEqual

definition kind_operator :: "quality_policy_kind \<Rightarrow> comparison_operator" where
  "kind_operator k = (case k of
     AbsoluteMax \<Rightarrow> LessOrEqual | AbsoluteMin \<Rightarrow> GreaterOrEqual
   | NoNew \<Rightarrow> LessOrEqual | NoWorsened \<Rightarrow> LessOrEqual)"

definition requires_baseline :: "quality_policy_kind \<Rightarrow> bool" where
  "requires_baseline k = (case k of NoNew \<Rightarrow> True | NoWorsened \<Rightarrow> True | _ \<Rightarrow> False)"

definition kind_parse :: "string \<Rightarrow> quality_policy_kind option" where
  "kind_parse s =
     (if s = ''absolute_max'' then Some AbsoluteMax
      else if s = ''absolute_min'' then Some AbsoluteMin
      else if s = ''no_new'' then Some NoNew
      else if s = ''no_worsened'' then Some NoWorsened
      else None)"

definition kind_as_str :: "quality_policy_kind \<Rightarrow> string" where
  "kind_as_str k = (case k of
     AbsoluteMax \<Rightarrow> ''absolute_max'' | AbsoluteMin \<Rightarrow> ''absolute_min''
   | NoNew \<Rightarrow> ''no_new'' | NoWorsened \<Rightarrow> ''no_worsened'')"

definition op_evaluate :: "comparison_operator \<Rightarrow> f64 \<Rightarrow> f64 \<Rightarrow> bool" where
  "op_evaluate op value threshold = (case op of
     LessOrEqual \<Rightarrow> fle value threshold | GreaterOrEqual \<Rightarrow> fle threshold value)"

definition op_is_worse :: "comparison_operator \<Rightarrow> f64 \<Rightarrow> f64 \<Rightarrow> bool" where
  "op_is_worse op current baseline = (case op of
     LessOrEqual \<Rightarrow> flt baseline current | GreaterOrEqual \<Rightarrow> flt current baseline)"

datatype quality_policy_severity = Sev_Fail | Sev_Advisory

definition severity_parse :: "string \<Rightarrow> quality_policy_severity option" where
  "severity_parse s =
     (if s = ''fail'' then Some Sev_Fail else if s = ''advisory'' then Some Sev_Advisory else None)"

definition severity_as_str :: "quality_policy_severity \<Rightarrow> string" where
  "severity_as_str v = (case v of Sev_Fail \<Rightarrow> ''fail'' | Sev_Advisory \<Rightarrow> ''advisory'')"

datatype scope_clause_kind = Clause_Module | Clause_File | Clause_SymbolKind

definition clause_kind_parse :: "string \<Rightarrow> scope_clause_kind option" where
  "clause_kind_parse s =
     (if s = ''module'' then Some Clause_Module
      else if s = ''file'' then Some Clause_File
      else if s = ''symbol_kind'' then Some Clause_SymbolKind
      else None)"

definition clause_kind_as_str :: "scope_clause_kind \<Rightarrow> string" where
  "clause_kind_as_str k = (case k of
     Clause_Module \<Rightarrow> ''module'' | Clause_File \<Rightarrow> ''file'' | Clause_SymbolKind \<Rightarrow> ''symbol_kind'')"

record scope_clause =
  clause_kind :: scope_clause_kind
  selector :: string

definition new_clause :: "scope_clause_kind \<Rightarrow> string \<Rightarrow> scope_clause" where
  "new_clause k s = \<lparr>clause_kind = k, selector = s\<rparr>"

definition clause_parse :: "string \<Rightarrow> scope_clause option" where
  "clause_parse s = (case split_once s (CHR '':'') of
     None \<Rightarrow> None
   | Some (kind_str, sel) \<Rightarrow>
       (if kind_str = [] \<or> sel = [] then None
        else (case clause_kind_parse kind_str of
                None \<Rightarrow> None
              | Some k \<Rightarrow> Some (new_clause k sel))))"

record quality_policy_payload =
  policy_id :: string
  policy_version :: int
  scope_clauses :: "scope_clause list"
  payload_measurement_kind :: string
  policy_kind :: quality_policy_kind
  policy_threshold :: f64
  policy_severity :: quality_policy_severity
  policy_description :: "string option"

section \<open>Measurement kinds and validation (\<open>lib.rs\<close>)\<close>

datatype supported_measurement_kind =
    CyclomaticComplexity
  | CognitiveComplexity
  | FunctionLength
  | ParameterCount
  | MaxNestingDepth
  | LineCoverage

definition measurement_as_str :: "supported_measurement_kind \<Rightarrow> string" where
  "measurement_as_str k = (case k of
     CyclomaticComplexity \<Rightarrow> ''cyclomatic_complexity''
   | CognitiveComplexity \<Rightarrow> ''cognitive_complexity''
   | FunctionLength \<Rightarrow> ''function_length''
   | ParameterCount \<Rightarrow> ''parameter_count''
   | MaxNestingDepth \<Rightarrow> ''max_nesting_depth''
   | LineCoverage \<Rightarrow> ''line_coverage'')"

definition measurement_parse :: "string \<Rightarrow> supported_measurement_kind option" where
  "measurement_parse s =
     (if s = ''cyclomatic_complexity'' then Some CyclomaticComplexity
      else if s = ''cognitive_complexity'' then Some CognitiveComplexity
      else if s = ''function_length'' then Some FunctionLength
      else if s = ''parameter_count'' then Some ParameterCount
      else if s = ''max_nesting_depth'' then Some MaxNestingDepth
      else if s = ''line_coverage'' then Some LineCoverage
      else None)"

datatype measurement_family = FunctionSymbol | Coverage_Family

definition family :: "supported_measurement_kind \<Rightarrow> measurement_family" where
  "family k = (case k of LineCoverage \<Rightarrow> Coverage_Family | _ \<Rightarrow> FunctionSymbol)"

definition family_as_str :: "measurement_family \<Rightarrow> string" where
  "family_as_str f = (case f of FunctionSymbol \<Rightarrow> ''function_symbol'' | Coverage_Family \<Rightarrow> ''coverage'')"

definition all_measurement_kinds :: "supported_measurement_kind list" where
  "all_measurement_kinds = [CyclomaticComplexity, CognitiveComplexity, FunctionLength, ParameterCount,
     MaxNestingDepth, LineCoverage]"

datatype policy_validation_error =
    EmptyPolicyId
  | InvalidVersion int
  | UnknownMeasurementKind string
  | NonFiniteThreshold f64
  | EmptyScopeSelector string
  | IncompatiblePolicyKind string string

fun clause_errors :: "scope_clause list \<Rightarrow> policy_validation_error list" where
  "clause_errors [] = []"
| "clause_errors (c # cs) =
     (if selector c = [] then [EmptyScopeSelector (clause_kind_as_str (clause_kind c))] else [])
     @ clause_errors cs"

definition validate_quality_policy_payload ::
  "quality_policy_payload \<Rightarrow> policy_validation_error list" where
  "validate_quality_policy_payload payload =
     (let parsed = measurement_parse (payload_measurement_kind payload) in
      (if policy_id payload = [] then [EmptyPolicyId] else [])
      @ (if policy_version payload \<le> 0 then [InvalidVersion (policy_version payload)] else [])
      @ (if parsed = None then [UnknownMeasurementKind (payload_measurement_kind payload)] else [])
      @ (if \<not> is_finite (policy_threshold payload) then [NonFiniteThreshold (policy_threshold payload)] else [])
      @ clause_errors (scope_clauses payload)
      @ (case parsed of
           Some mk \<Rightarrow>
             (if family mk = Coverage_Family \<and> requires_baseline (policy_kind payload)
              then [IncompatiblePolicyKind (kind_as_str (policy_kind payload)) (payload_measurement_kind payload)]
              else [])
         | None \<Rightarrow> []))"

definition validate_quality_policy_payload_strict ::
  "quality_policy_payload \<Rightarrow> policy_validation_error + unit" where
  "validate_quality_policy_payload_strict payload =
     (case validate_quality_policy_payload payload of first # _ \<Rightarrow> Inl first | [] \<Rightarrow> Inr ())"

definition parse_measurement_kind ::
  "string \<Rightarrow> policy_validation_error + supported_measurement_kind" where
  "parse_measurement_kind kind =
     (case measurement_parse kind of Some k \<Rightarrow> Inr k | None \<Rightarrow> Inl (UnknownMeasurementKind kind))"

definition suggested_policy_kinds :: "supported_measurement_kind \<Rightarrow> quality_policy_kind list" where
  "suggested_policy_kinds kind = (case family kind of
     FunctionSymbol \<Rightarrow> [AbsoluteMax, NoNew, NoWorsened] | Coverage_Family \<Rightarrow> [AbsoluteMin])"

section \<open>Properties\<close>

lemma measurement_parse_iff: "measurement_parse s = Some mk \<longleftrightarrow> s = measurement_as_str mk"
  by (cases mk) (auto simp: measurement_parse_def measurement_as_str_def)

lemma clause_errors_Nil: "clause_errors cs = [] \<longleftrightarrow> (\<forall>c \<in> set cs. selector c \<noteq> [])"
  by (induction cs) auto

text \<open>
  A payload validates exactly if its id is not empty, its version is positive, its
  measurement kind is a supported one, its threshold is finite, every scope selector is not empty,
  and a comparative policy is not about coverage; the strict variant accepts exactly those
  payloads and otherwise reports the first error.
\<close>

theorem validate_payload_iff:
  "(validate_quality_policy_payload p = [] \<longleftrightarrow>
     policy_id p \<noteq> [] \<and> 0 < policy_version p \<and> is_finite (policy_threshold p) \<and>
     (\<forall>c \<in> set (scope_clauses p). selector c \<noteq> []) \<and>
     (\<exists>mk. payload_measurement_kind p = measurement_as_str mk \<and>
        \<not> (mk = LineCoverage \<and> policy_kind p \<in> {NoNew, NoWorsened}))) \<and>
   (validate_quality_policy_payload_strict p = Inr () \<longleftrightarrow> validate_quality_policy_payload p = []) \<and>
   (validate_quality_policy_payload_strict p = Inl e \<longleftrightarrow>
     (\<exists>es. validate_quality_policy_payload p = e # es))"
proof (intro conjI)
  let ?s = "payload_measurement_kind p"
  have fam: "family mk = Coverage_Family \<longleftrightarrow> mk = LineCoverage" for mk
    by (cases mk) (simp_all add: family_def)
  have base: "requires_baseline k \<longleftrightarrow> k \<in> {NoNew, NoWorsened}" for k
    by (cases k) (simp_all add: requires_baseline_def)
  show "validate_quality_policy_payload p = [] \<longleftrightarrow>
     policy_id p \<noteq> [] \<and> 0 < policy_version p \<and> is_finite (policy_threshold p) \<and>
     (\<forall>c \<in> set (scope_clauses p). selector c \<noteq> []) \<and>
     (\<exists>mk. ?s = measurement_as_str mk \<and> \<not> (mk = LineCoverage \<and> policy_kind p \<in> {NoNew, NoWorsened}))"
  proof (cases "measurement_parse ?s")
    case None
    with measurement_parse_iff [of ?s] show ?thesis
      by (auto simp: validate_quality_policy_payload_def)
  next
    case (Some mk)
    have uniq: "mk' = mk" if "?s = measurement_as_str mk'" for mk'
      using measurement_parse_iff [of ?s mk'] that Some by simp
    have "?s = measurement_as_str mk" using Some measurement_parse_iff by simp
    then have ex: "(\<exists>mk'. ?s = measurement_as_str mk' \<and> Q mk') \<longleftrightarrow> Q mk" for Q
      using uniq by blast
    show ?thesis
      unfolding ex using Some
      by (auto simp: validate_quality_policy_payload_def clause_errors_Nil fam base)
  qed
  show "validate_quality_policy_payload_strict p = Inr () \<longleftrightarrow> validate_quality_policy_payload p = []"
    "validate_quality_policy_payload_strict p = Inl e \<longleftrightarrow> (\<exists>es. validate_quality_policy_payload p = e # es)"
    by (auto simp: validate_quality_policy_payload_strict_def split: list.splits)
qed

theorem validate_payload_iff_witness:
  "validate_quality_policy_payload \<lparr>policy_id = ''QP-1'', policy_version = 1,
     scope_clauses = [new_clause Clause_Module ''src/core''], payload_measurement_kind = ''cognitive_complexity'',
     policy_kind = NoNew, policy_threshold = Fin False 5, policy_severity = Sev_Fail,
     policy_description = None\<rparr> = []"
  by (subst conjunct1 [OF validate_payload_iff])
    (auto simp: new_clause_def is_finite_def measurement_as_str_def
      intro!: exI [of _ CognitiveComplexity])

text \<open>
  The text forms round-trip: every enumeration's \<open>parse\<close> inverts its \<open>as_str\<close> and accepts
  nothing else, and a scope clause printed as \<open>type:selector\<close> parses back to itself whenever its
  selector is not empty, whatever colons the selector has.
\<close>

theorem policy_text_roundtrip:
  "(kind_parse s = Some k \<longleftrightarrow> s = kind_as_str k) \<and>
   (severity_parse s = Some v \<longleftrightarrow> s = severity_as_str v) \<and>
   (clause_kind_parse s = Some ck \<longleftrightarrow> s = clause_kind_as_str ck) \<and>
   (measurement_parse s = Some mk \<longleftrightarrow> s = measurement_as_str mk) \<and>
   mk \<in> set all_measurement_kinds \<and>
   (clause_parse (clause_kind_as_str ck @ '':'' @ sel) =
     (if sel = [] then None else Some (new_clause ck sel)))"
proof (intro conjI)
  show "kind_parse s = Some k \<longleftrightarrow> s = kind_as_str k"
    by (cases k) (auto simp: kind_parse_def kind_as_str_def)
  show "severity_parse s = Some v \<longleftrightarrow> s = severity_as_str v"
    by (cases v) (auto simp: severity_parse_def severity_as_str_def)
  show "clause_kind_parse s = Some ck \<longleftrightarrow> s = clause_kind_as_str ck"
    by (cases ck) (auto simp: clause_kind_parse_def clause_kind_as_str_def)
  show "measurement_parse s = Some mk \<longleftrightarrow> s = measurement_as_str mk"
    by (rule measurement_parse_iff)
  show "mk \<in> set all_measurement_kinds"
    by (cases mk) (simp_all add: all_measurement_kinds_def)
  have nc: "CHR '':'' \<notin> set (clause_kind_as_str ck)" "clause_kind_as_str ck \<noteq> []"
    by (cases ck; simp add: clause_kind_as_str_def)+
  have "clause_kind_parse (clause_kind_as_str ck) = Some ck"
    by (cases ck) (simp_all add: clause_kind_parse_def clause_kind_as_str_def)
  with nc show "clause_parse (clause_kind_as_str ck @ '':'' @ sel) =
     (if sel = [] then None else Some (new_clause ck sel))"
    using split_once_append [OF nc(1), of sel] by (simp add: clause_parse_def)
qed

text \<open>
  Every policy kind suggested for a measurement kind passes validation with it.
\<close>

theorem suggested_kinds_validate:
  assumes "k \<in> set (suggested_policy_kinds mk)" and "name \<noteq> []" and "0 < v" and "is_finite t"
  shows "validate_quality_policy_payload \<lparr>policy_id = name, policy_version = v, scope_clauses = [],
     payload_measurement_kind = measurement_as_str mk, policy_kind = k, policy_threshold = t,
     policy_severity = sev, policy_description = d\<rparr> = []"
proof -
  have "measurement_parse (measurement_as_str mk) = Some mk"
    by (cases mk) (simp_all add: measurement_parse_def measurement_as_str_def)
  moreover have "\<not> (family mk = Coverage_Family \<and> requires_baseline k)"
    using assms(1) by (cases mk) (auto simp: suggested_policy_kinds_def family_def requires_baseline_def)
  ultimately show ?thesis
    using assms by (simp add: validate_quality_policy_payload_def)
qed

theorem suggested_kinds_validate_witness:
  "validate_quality_policy_payload \<lparr>policy_id = ''QP-1'', policy_version = 1, scope_clauses = [],
     payload_measurement_kind = measurement_as_str LineCoverage, policy_kind = AbsoluteMin,
     policy_threshold = Fin False 0, policy_severity = Sev_Fail, policy_description = None\<rparr> = []"
  by (rule suggested_kinds_validate) (simp_all add: suggested_policy_kinds_def family_def is_finite_def)

end
