(* ===== verification/Assess.thy ===== *)
theory Assess
  imports Quality_Policy
begin

text \<open>
  The assessment engine of \<open>quality-policy/src/assess.rs\<close>. The external \<open>glob\<close> crate is a
  parameter: \<open>glob selector\<close> is \<open>None\<close> where \<open>Pattern::new\<close> fails, else the predicate
  \<open>matches_with\<close> computes under the options the code passes. A panicking \<open>unwrap\<close> is an outcome.
\<close>

section \<open>Facts, definitions, assessments\<close>

type_synonym glob = "string \<Rightarrow> (string \<Rightarrow> bool) option"

record measurement_fact =
  target_stable_key :: string
  fact_kind :: supported_measurement_kind
  fact_value :: f64
  file_path :: "string option"
  symbol_kind :: "string option"

record policy_definition =
  def_policy_uid :: string
  def_payload :: quality_policy_payload

record policy_evaluation_batch =
  batch_policies :: "policy_definition list"
  current_facts :: "measurement_fact list"
  baseline_facts :: "measurement_fact list option"
  batch_snapshot_uid :: string
  batch_baseline_uid :: "string option"

datatype assessment_verdict = Pass | Fail | NotApplicable | NotComparable

definition verdict_as_str :: "assessment_verdict \<Rightarrow> string" where
  "verdict_as_str v = (case v of
     Pass \<Rightarrow> ''PASS'' | Fail \<Rightarrow> ''FAIL'' | NotApplicable \<Rightarrow> ''NOT_APPLICABLE''
   | NotComparable \<Rightarrow> ''NOT_COMPARABLE'')"

record assessment_violation =
  viol_key :: string
  viol_value :: f64
  viol_threshold :: f64
  viol_baseline :: "f64 option"

record policy_assessment =
  assessment_uid :: string
  pa_policy_uid :: string
  pa_policy_id :: string
  pa_policy_version :: int
  computed_verdict :: assessment_verdict
  violations :: "assessment_violation list"
  scope_match_count :: nat
  measurements_evaluated :: nat
  pa_snapshot_uid :: string
  pa_baseline_uid :: "string option"

type_synonym baseline_lookup = "string \<times> supported_measurement_kind \<rightharpoonup> f64"

section \<open>Scope matching\<close>

definition module_scope_matches :: "string \<Rightarrow> string \<Rightarrow> bool" where
  "module_scope_matches path sel =
     (if path = sel then True
      else let prefix = (if ends_with sel ''/'' then sel else sel @ ''/'') in starts_with path prefix)"

definition file_scope_matches :: "glob \<Rightarrow> string \<Rightarrow> string \<Rightarrow> bool" where
  "file_scope_matches glob path sel = (case glob sel of
     Some matches_with \<Rightarrow> matches_with path
   | None \<Rightarrow> path = sel)"

definition symbol_kind_matches :: "string \<Rightarrow> string \<Rightarrow> bool" where
  "symbol_kind_matches kind sel = (kind = sel)"

definition clause_matches :: "glob \<Rightarrow> measurement_fact \<Rightarrow> scope_clause_kind \<Rightarrow> string \<Rightarrow> bool" where
  "clause_matches glob mf kind sel = (case kind of
     Clause_Module \<Rightarrow> (case file_path mf of Some path \<Rightarrow> module_scope_matches path sel | None \<Rightarrow> False)
   | Clause_File \<Rightarrow> (case file_path mf of Some path \<Rightarrow> file_scope_matches glob path sel | None \<Rightarrow> False)
   | Clause_SymbolKind \<Rightarrow> (case symbol_kind mf of Some sk \<Rightarrow> symbol_kind_matches sk sel | None \<Rightarrow> False))"

fun all_clauses_match :: "glob \<Rightarrow> measurement_fact \<Rightarrow> scope_clause list \<Rightarrow> bool" where
  "all_clauses_match glob mf [] = True"
| "all_clauses_match glob mf (c # cs) =
     (if \<not> clause_matches glob mf (clause_kind c) (selector c) then False
      else all_clauses_match glob mf cs)"

definition fact_matches_scope :: "glob \<Rightarrow> measurement_fact \<Rightarrow> quality_policy_payload \<Rightarrow> bool" where
  "fact_matches_scope glob mf payload =
     (if scope_clauses payload = [] then True
      else all_clauses_match glob mf (scope_clauses payload))"

section \<open>Evaluation\<close>

definition build_assessment_uid ::
  "string \<Rightarrow> string \<Rightarrow> quality_policy_kind \<Rightarrow> string option \<Rightarrow> string" where
  "build_assessment_uid snapshot_uid policy_uid kind baseline_uid = (case baseline_uid of
     Some baseline \<Rightarrow> snapshot_uid @ ''-qpa-'' @ policy_uid @ ''-vs-'' @ baseline
   | None \<Rightarrow> snapshot_uid @ ''-qpa-'' @ policy_uid)"

text \<open>The record every return of the evaluators builds, given its varying fields.\<close>

definition assessment ::
  "policy_definition \<Rightarrow> string \<Rightarrow> string option \<Rightarrow> string option \<Rightarrow> assessment_verdict \<Rightarrow>
   assessment_violation list \<Rightarrow> nat \<Rightarrow> nat \<Rightarrow> policy_assessment" where
  "assessment def snapshot_uid uid_baseline baseline_uid verdict viols matched evaluated =
     \<lparr>assessment_uid = build_assessment_uid snapshot_uid (def_policy_uid def)
        (policy_kind (def_payload def)) uid_baseline,
      pa_policy_uid = def_policy_uid def, pa_policy_id = policy_id (def_payload def),
      pa_policy_version = policy_version (def_payload def), computed_verdict = verdict,
      violations = viols, scope_match_count = matched, measurements_evaluated = evaluated,
      pa_snapshot_uid = snapshot_uid, pa_baseline_uid = baseline_uid\<rparr>"

definition verdict_of :: "assessment_violation list \<Rightarrow> assessment_verdict" where
  "verdict_of viols = (if viols = [] then Pass else Fail)"

definition violation :: "measurement_fact \<Rightarrow> f64 \<Rightarrow> f64 option \<Rightarrow> assessment_violation" where
  "violation mf threshold baseline = \<lparr>viol_key = target_stable_key mf, viol_value = fact_value mf,
     viol_threshold = threshold, viol_baseline = baseline\<rparr>"

fun max_violations :: "f64 \<Rightarrow> measurement_fact list \<Rightarrow> assessment_violation list" where
  "max_violations threshold [] = []"
| "max_violations threshold (mf # facts) =
     (if flt threshold (fact_value mf) then [violation mf threshold None] else [])
     @ max_violations threshold facts"

fun min_violations :: "f64 \<Rightarrow> measurement_fact list \<Rightarrow> assessment_violation list" where
  "min_violations threshold [] = []"
| "min_violations threshold (mf # facts) =
     (if flt (fact_value mf) threshold then [violation mf threshold None] else [])
     @ min_violations threshold facts"

definition evaluate_absolute_max ::
  "policy_definition \<Rightarrow> string \<Rightarrow> measurement_fact list \<Rightarrow> policy_assessment" where
  "evaluate_absolute_max def snapshot_uid facts =
     (if facts = [] then assessment def snapshot_uid None None NotApplicable [] 0 0
      else let viols = max_violations (policy_threshold (def_payload def)) facts
           in assessment def snapshot_uid None None (verdict_of viols) viols (length facts) (length facts))"

definition evaluate_absolute_min ::
  "policy_definition \<Rightarrow> string \<Rightarrow> measurement_fact list \<Rightarrow> policy_assessment" where
  "evaluate_absolute_min def snapshot_uid facts =
     (if facts = [] then assessment def snapshot_uid None None NotApplicable [] 0 0
      else let viols = min_violations (policy_threshold (def_payload def)) facts
           in assessment def snapshot_uid None None (verdict_of viols) viols (length facts) (length facts))"

abbreviation fact_key :: "measurement_fact \<Rightarrow> string \<times> supported_measurement_kind" where
  "fact_key f \<equiv> (target_stable_key f, fact_kind f)"

definition evaluate_no_new ::
  "policy_definition \<Rightarrow> baseline_lookup \<Rightarrow> string \<Rightarrow> string \<Rightarrow> measurement_fact list \<Rightarrow> policy_assessment" where
  "evaluate_no_new def lookup snapshot_uid baseline_uid facts =
     (if facts = [] then assessment def snapshot_uid (Some baseline_uid) (Some baseline_uid) NotApplicable [] 0 0
      else let new_facts = filter (\<lambda>f. lookup (fact_key f) = None) facts;
               viols = max_violations (policy_threshold (def_payload def)) new_facts
           in assessment def snapshot_uid (Some baseline_uid) (Some baseline_uid) (verdict_of viols) viols
                (length facts) (length new_facts))"

text \<open>The loop of \<open>no_worsened\<close>, with its violations and its counter.\<close>

fun worsened_loop ::
  "baseline_lookup \<Rightarrow> f64 \<Rightarrow> measurement_fact list \<Rightarrow> assessment_violation list \<Rightarrow> nat \<Rightarrow>
   assessment_violation list \<times> nat" where
  "worsened_loop lookup threshold [] viols n = (viols, n)"
| "worsened_loop lookup threshold (mf # facts) viols n = (case lookup (fact_key mf) of
     Some baseline_value \<Rightarrow>
       (if flt threshold baseline_value
        then worsened_loop lookup threshold facts
               (if flt baseline_value (fact_value mf)
                then viols @ [violation mf threshold (Some baseline_value)] else viols) (n + 1)
        else worsened_loop lookup threshold facts viols n)
   | None \<Rightarrow> worsened_loop lookup threshold facts viols n)"

definition evaluate_no_worsened ::
  "policy_definition \<Rightarrow> baseline_lookup \<Rightarrow> string \<Rightarrow> string \<Rightarrow> measurement_fact list \<Rightarrow> policy_assessment" where
  "evaluate_no_worsened def lookup snapshot_uid baseline_uid facts =
     (if facts = [] then assessment def snapshot_uid (Some baseline_uid) (Some baseline_uid) NotApplicable [] 0 0
      else let (viols, evaluated) = worsened_loop lookup (policy_threshold (def_payload def)) facts [] 0
           in assessment def snapshot_uid (Some baseline_uid) (Some baseline_uid) (verdict_of viols) viols
                (length facts) evaluated)"

definition unwrap :: "'a option \<Rightarrow> 'a outcome" where
  "unwrap x = (case x of Some v \<Rightarrow> Val v
     | None \<Rightarrow> Panic ''called `Option::unwrap()` on a `None` value'')"

definition scope_matching_facts ::
  "glob \<Rightarrow> quality_policy_payload \<Rightarrow> supported_measurement_kind \<Rightarrow> measurement_fact list \<Rightarrow> measurement_fact list" where
  "scope_matching_facts glob payload kind facts =
     filter (\<lambda>f. fact_matches_scope glob f payload) (filter (\<lambda>f. fact_kind f = kind) facts)"

definition evaluate_policy ::
  "glob \<Rightarrow> policy_definition \<Rightarrow> measurement_fact list \<Rightarrow> baseline_lookup option \<Rightarrow> string \<Rightarrow> string option \<Rightarrow>
   policy_assessment outcome" where
  "evaluate_policy glob def facts lookup snapshot_uid baseline_uid =
     (let payload = def_payload def in
      case measurement_parse (payload_measurement_kind payload) of
        None \<Rightarrow> Val (assessment def snapshot_uid baseline_uid baseline_uid NotApplicable [] 0 0)
      | Some kind \<Rightarrow>
          (let matching = scope_matching_facts glob payload kind facts in
           if requires_baseline (policy_kind payload) \<and> lookup = None
           then Val (assessment def snapshot_uid baseline_uid None NotComparable [] (length matching) 0)
           else (case policy_kind payload of
                   AbsoluteMax \<Rightarrow> Val (evaluate_absolute_max def snapshot_uid matching)
                 | AbsoluteMin \<Rightarrow> Val (evaluate_absolute_min def snapshot_uid matching)
                 | NoNew \<Rightarrow> bind_outcome (unwrap lookup) (\<lambda>l. bind_outcome (unwrap baseline_uid)
                     (\<lambda>b. Val (evaluate_no_new def l snapshot_uid b matching)))
                 | NoWorsened \<Rightarrow> bind_outcome (unwrap lookup) (\<lambda>l. bind_outcome (unwrap baseline_uid)
                     (\<lambda>b. Val (evaluate_no_worsened def l snapshot_uid b matching))))))"

definition build_baseline_lookup :: "measurement_fact list \<Rightarrow> baseline_lookup" where
  "build_baseline_lookup facts = insert_all Map.empty (map (\<lambda>f. (fact_key f, fact_value f)) facts)"

fun map_outcome :: "('a \<Rightarrow> 'b outcome) \<Rightarrow> 'a list \<Rightarrow> 'b list outcome" where
  "map_outcome f [] = Val []"
| "map_outcome f (x # xs) = bind_outcome (f x) (\<lambda>y. bind_outcome (map_outcome f xs) (\<lambda>ys. Val (y # ys)))"

definition evaluate_policies :: "glob \<Rightarrow> policy_evaluation_batch \<Rightarrow> policy_assessment list outcome" where
  "evaluate_policies glob batch =
     (let lookup = map_option build_baseline_lookup (baseline_facts batch)
      in map_outcome (\<lambda>def. evaluate_policy glob def (current_facts batch) lookup
           (batch_snapshot_uid batch) (batch_baseline_uid batch)) (batch_policies batch))"

section \<open>The contract of an evaluator\<close>

text \<open>
  Every evaluator judges some of the facts it is given, reports the judged facts that violate its
  rule, and derives its verdict from them.
\<close>

locale policy_evaluator =
  fixes evaluate :: "measurement_fact list \<Rightarrow> policy_assessment"
    and judged :: "measurement_fact \<Rightarrow> bool"
    and breaks :: "measurement_fact \<Rightarrow> bool"
    and report :: "measurement_fact \<Rightarrow> assessment_violation"
  assumes violations_law: "violations (evaluate fs) = map report (filter (\<lambda>f. judged f \<and> breaks f) fs)"
    and verdict_law: "computed_verdict (evaluate fs) =
      (if fs = [] then NotApplicable else verdict_of (violations (evaluate fs)))"
    and matched_law: "scope_match_count (evaluate fs) = length fs"
    and evaluated_law: "measurements_evaluated (evaluate fs) = length (filter judged fs)"
begin

lemma fail_iff: "computed_verdict (evaluate fs) = Fail \<longleftrightarrow> (\<exists>f \<in> set fs. judged f \<and> breaks f)"
  by (auto simp: verdict_law violations_law verdict_of_def filter_empty_conv)

lemma pass_iff: "computed_verdict (evaluate fs) = Pass \<longleftrightarrow>
    fs \<noteq> [] \<and> (\<forall>f \<in> set fs. judged f \<longrightarrow> \<not> breaks f)"
  by (auto simp: verdict_law violations_law verdict_of_def filter_empty_conv)

lemma always_comparable: "computed_verdict (evaluate fs) \<noteq> NotComparable"
  by (simp add: verdict_law verdict_of_def)

lemma counts_ordered:
  "length (violations (evaluate fs)) \<le> measurements_evaluated (evaluate fs)"
  "measurements_evaluated (evaluate fs) \<le> scope_match_count (evaluate fs)"
proof -
  have "length (filter (\<lambda>f. judged f \<and> breaks f) fs) = length (filter breaks (filter judged fs))"
    by (simp add: conj_commute)
  also have "\<dots> \<le> length (filter judged fs)"
    by (rule length_filter_le)
  finally show "length (violations (evaluate fs)) \<le> measurements_evaluated (evaluate fs)"
    by (simp add: violations_law evaluated_law)
  show "measurements_evaluated (evaluate fs) \<le> scope_match_count (evaluate fs)"
    by (simp add: evaluated_law matched_law)
qed

lemma fail_monotone:
  "set fs \<subseteq> set gs \<Longrightarrow> computed_verdict (evaluate fs) = Fail \<Longrightarrow> computed_verdict (evaluate gs) = Fail"
  by (auto simp: fail_iff)

end

section \<open>The four evaluators meet it\<close>

lemma assessment_sel [simp]:
  "computed_verdict (assessment d s u b v vs m e) = v" "violations (assessment d s u b v vs m e) = vs"
  "scope_match_count (assessment d s u b v vs m e) = m"
  "measurements_evaluated (assessment d s u b v vs m e) = e"
  "pa_policy_uid (assessment d s u b v vs m e) = def_policy_uid d"
  by (simp_all add: assessment_def)

lemma max_violations_filter:
  "max_violations t fs = map (\<lambda>f. violation f t None) (filter (\<lambda>f. flt t (fact_value f)) fs)"
  by (induction fs) auto

lemma min_violations_filter:
  "min_violations t fs = map (\<lambda>f. violation f t None) (filter (\<lambda>f. flt (fact_value f) t) fs)"
  by (induction fs) auto

text \<open>The facts \<open>no_worsened\<close> judges, and those it reports.\<close>

definition baseline_violator :: "baseline_lookup \<Rightarrow> f64 \<Rightarrow> measurement_fact \<Rightarrow> bool" where
  "baseline_violator lookup t f \<longleftrightarrow> (\<exists>b. lookup (fact_key f) = Some b \<and> flt t b)"

definition exceeds_baseline :: "baseline_lookup \<Rightarrow> measurement_fact \<Rightarrow> bool" where
  "exceeds_baseline lookup f \<longleftrightarrow> (\<exists>b. lookup (fact_key f) = Some b \<and> flt b (fact_value f))"

lemma worsened_loop_spec:
  "worsened_loop lookup t fs vs n =
     (vs @ map (\<lambda>f. violation f t (lookup (fact_key f)))
        (filter (\<lambda>f. baseline_violator lookup t f \<and> exceeds_baseline lookup f) fs),
      n + length (filter (baseline_violator lookup t) fs))"
  by (induction lookup t fs vs n rule: worsened_loop.induct)
    (auto simp: baseline_violator_def exceeds_baseline_def split: option.splits)

interpretation amax: policy_evaluator "evaluate_absolute_max def s" "\<lambda>_. True"
    "\<lambda>f. flt (policy_threshold (def_payload def)) (fact_value f)"
    "\<lambda>f. violation f (policy_threshold (def_payload def)) None" for "def" s
  by unfold_locales (auto simp: evaluate_absolute_max_def max_violations_filter verdict_of_def Let_def)

interpretation amin: policy_evaluator "evaluate_absolute_min def s" "\<lambda>_. True"
    "\<lambda>f. flt (fact_value f) (policy_threshold (def_payload def))"
    "\<lambda>f. violation f (policy_threshold (def_payload def)) None" for "def" s
  by unfold_locales (auto simp: evaluate_absolute_min_def min_violations_filter verdict_of_def Let_def)

interpretation nnew: policy_evaluator "evaluate_no_new def lookup s b" "\<lambda>f. lookup (fact_key f) = None"
    "\<lambda>f. flt (policy_threshold (def_payload def)) (fact_value f)"
    "\<lambda>f. violation f (policy_threshold (def_payload def)) None" for "def" lookup s b
  by unfold_locales (auto simp: evaluate_no_new_def max_violations_filter verdict_of_def Let_def conj_commute)

interpretation nworse: policy_evaluator "evaluate_no_worsened def lookup s b"
    "baseline_violator lookup (policy_threshold (def_payload def))" "exceeds_baseline lookup"
    "\<lambda>f. violation f (policy_threshold (def_payload def)) (lookup (fact_key f))" for "def" lookup s b
  by unfold_locales (auto simp: evaluate_no_worsened_def worsened_loop_spec verdict_of_def Let_def)

section \<open>Properties\<close>

text \<open>What it means for a fact in scope to break a policy.\<close>

definition breaks_policy :: "quality_policy_payload \<Rightarrow> baseline_lookup \<Rightarrow> measurement_fact \<Rightarrow> bool" where
  "breaks_policy p lookup f = (case policy_kind p of
     AbsoluteMax \<Rightarrow> flt (policy_threshold p) (fact_value f)
   | AbsoluteMin \<Rightarrow> flt (fact_value f) (policy_threshold p)
   | NoNew \<Rightarrow> lookup (fact_key f) = None \<and> flt (policy_threshold p) (fact_value f)
   | NoWorsened \<Rightarrow> (\<exists>b. lookup (fact_key f) = Some b \<and> flt (policy_threshold p) b \<and> flt b (fact_value f)))"

definition reference_verdict ::
  "quality_policy_payload \<Rightarrow> baseline_lookup option \<Rightarrow> measurement_fact list \<Rightarrow> assessment_verdict" where
  "reference_verdict p lookup fs =
     (if policy_kind p \<in> {NoNew, NoWorsened} \<and> lookup = None then NotComparable
      else if fs = [] then NotApplicable
      else if \<exists>f \<in> set fs. breaks_policy p (case lookup of Some l \<Rightarrow> l | None \<Rightarrow> Map.empty) f then Fail
      else Pass)"

lemma requires_baseline_iff: "requires_baseline k \<longleftrightarrow> k \<in> {NoNew, NoWorsened}"
  by (cases k) (simp_all add: requires_baseline_def)

lemma verdict_cases:
  "v \<noteq> NotComparable \<Longrightarrow> v = (if Q then NotApplicable else if P then Fail else Pass)"
  if "v = NotApplicable \<longleftrightarrow> Q" "v = Fail \<longleftrightarrow> P" "\<not> (P \<and> Q)" for v :: assessment_verdict and P Q
  using that by (cases v) auto

lemma evaluator_verdict:
  assumes "policy_evaluator ev judged breaks rep"
  shows "computed_verdict (ev fs) = (if fs = [] then NotApplicable
    else if \<exists>f \<in> set fs. judged f \<and> breaks f then Fail else Pass)"
proof (rule verdict_cases)
  show "computed_verdict (ev fs) = Fail \<longleftrightarrow> (\<exists>f \<in> set fs. judged f \<and> breaks f)"
    by (rule policy_evaluator.fail_iff [OF assms])
  show "computed_verdict (ev fs) \<noteq> NotComparable"
    by (rule policy_evaluator.always_comparable [OF assms])
  show "computed_verdict (ev fs) = NotApplicable \<longleftrightarrow> fs = []"
    using policy_evaluator.verdict_law [OF assms, of fs] by (simp add: verdict_of_def)
qed auto

lemma evaluate_policy_reference:
  assumes k: "measurement_parse (payload_measurement_kind (def_payload def)) = Some kind"
    and ok: "requires_baseline (policy_kind (def_payload def)) \<Longrightarrow> lookup \<noteq> None \<Longrightarrow> buid \<noteq> None"
  shows "\<exists>a. evaluate_policy glob def facts lookup s buid = Val a \<and>
    computed_verdict a = reference_verdict (def_payload def) lookup
      (scope_matching_facts glob (def_payload def) kind facts) \<and>
    scope_match_count a = length (scope_matching_facts glob (def_payload def) kind facts) \<and>
    length (violations a) \<le> measurements_evaluated a \<and> measurements_evaluated a \<le> scope_match_count a \<and>
    pa_policy_uid a = def_policy_uid def"
proof -
  let ?fs = "scope_matching_facts glob (def_payload def) kind facts"
  note defs = evaluate_policy_def Let_def k reference_verdict_def breaks_policy_def requires_baseline_def
    unwrap_def
  note uid = evaluate_absolute_max_def evaluate_absolute_min_def evaluate_no_new_def evaluate_no_worsened_def
  show ?thesis
  proof (cases "policy_kind (def_payload def)")
    case AbsoluteMax
    then show ?thesis
      using evaluator_verdict [OF amax.policy_evaluator_axioms, of "def" s ?fs]
        amax.counts_ordered [of "def" s ?fs] amax.matched_law [of "def" s ?fs]
      by (simp add: defs) (simp add: uid Let_def)
  next
    case AbsoluteMin
    then show ?thesis
      using evaluator_verdict [OF amin.policy_evaluator_axioms, of "def" s ?fs]
        amin.counts_ordered [of "def" s ?fs] amin.matched_law [of "def" s ?fs]
      by (simp add: defs) (simp add: uid Let_def)
  next
    case NoNew
    show ?thesis
    proof (cases lookup)
      case None
      with NoNew show ?thesis by (simp add: defs)
    next
      case (Some l)
      with ok NoNew obtain b where b: "buid = Some b"
        by (auto simp: requires_baseline_def)
      show ?thesis
        using evaluator_verdict [OF nnew.policy_evaluator_axioms, of "def" l s b ?fs] NoNew Some b
          nnew.counts_ordered [of "def" l s b ?fs] nnew.matched_law [of "def" l s b ?fs]
        by (simp add: defs) (simp add: uid Let_def)
    qed
  next
    case NoWorsened
    show ?thesis
    proof (cases lookup)
      case None
      with NoWorsened show ?thesis by (simp add: defs)
    next
      case (Some l)
      with ok NoWorsened obtain b where b: "buid = Some b"
        by (auto simp: requires_baseline_def)
      have br: "baseline_violator l t f \<and> exceeds_baseline l f \<longleftrightarrow>
          (\<exists>b. l (fact_key f) = Some b \<and> flt t b \<and> flt b (fact_value f))" for f t
        by (auto simp: baseline_violator_def exceeds_baseline_def)
      show ?thesis
        using evaluator_verdict [OF nworse.policy_evaluator_axioms, of "def" l s b ?fs] NoWorsened Some b
          nworse.counts_ordered [of "def" l s b ?fs] nworse.matched_law [of "def" l s b ?fs]
        by (simp add: defs br) (simp add: uid Let_def split_beta)
    qed
  qed
qed

lemma evaluate_policy_panics:
  "(\<exists>m. evaluate_policy glob def facts lookup s buid = Panic m) \<longleftrightarrow>
     measurement_parse (payload_measurement_kind (def_payload def)) \<noteq> None \<and>
     policy_kind (def_payload def) \<in> {NoNew, NoWorsened} \<and> lookup \<noteq> None \<and> buid = None"
  by (cases "policy_kind (def_payload def)"; cases lookup; cases buid)
    (simp_all add: evaluate_policy_def Let_def requires_baseline_def unwrap_def split: option.splits)

lemma map_outcome_Val: "(\<exists>ys. map_outcome f xs = Val ys) \<longleftrightarrow> (\<forall>x \<in> set xs. \<exists>y. f x = Val y)"
proof (induction xs)
  case (Cons x xs)
  show ?case
  proof (cases "f x")
    case (Val y)
    then show ?thesis
      using Cons.IH by (cases "map_outcome f xs") auto
  qed simp
qed simp

lemma map_outcome_list_all2: "map_outcome f xs = Val ys \<Longrightarrow> list_all2 (\<lambda>x y. f x = Val y) xs ys"
proof (induction xs arbitrary: ys)
  case (Cons x xs)
  then obtain y zs where "f x = Val y" "map_outcome f xs = Val zs" "ys = y # zs"
    by (cases "f x"; cases "map_outcome f xs") auto
  with Cons.IH show ?case by simp
qed simp

lemma outcome_Val_iff: "(\<exists>y. x = Val y) \<longleftrightarrow> \<not> (\<exists>m. x = Panic m)"
  by (cases x) auto

text \<open>
  C16. The verdict of a policy is the one its kind promises. For a policy with a supported
  measurement kind (and a baseline snapshot uid wherever baseline facts are given to a comparative
  one): \<open>NOT_COMPARABLE\<close> exactly if it is comparative and there are no baseline facts, else
  \<open>NOT_APPLICABLE\<close> exactly if no fact is in scope, else \<open>FAIL\<close> exactly if some fact in scope breaks
  the policy. The counts are ordered: violations, evaluated facts, facts in scope.
\<close>

theorem evaluate_policy_verdict:
  assumes "measurement_parse (payload_measurement_kind (def_payload def)) = Some kind"
    and "\<not> (policy_kind (def_payload def) \<in> {NoNew, NoWorsened} \<and> lookup \<noteq> None \<and> buid = None)"
  shows "\<exists>a. evaluate_policy glob def facts lookup s buid = Val a \<and>
    computed_verdict a = reference_verdict (def_payload def) lookup
      (scope_matching_facts glob (def_payload def) kind facts) \<and>
    scope_match_count a = length (scope_matching_facts glob (def_payload def) kind facts) \<and>
    length (violations a) \<le> measurements_evaluated a \<and> measurements_evaluated a \<le> scope_match_count a"
  using evaluate_policy_reference [OF assms(1), of lookup buid glob facts s] assms(2)
  by (auto simp: requires_baseline_iff)

abbreviation demo_policy :: "quality_policy_kind \<Rightarrow> policy_definition" where
  "demo_policy k \<equiv> \<lparr>def_policy_uid = ''u'', def_payload = \<lparr>policy_id = ''QP-1'', policy_version = 1,
     scope_clauses = [], payload_measurement_kind = ''function_length'', policy_kind = k,
     policy_threshold = Fin False 5, policy_severity = Sev_Fail, policy_description = None\<rparr>\<rparr>"

abbreviation demo_fact :: "f64 \<Rightarrow> measurement_fact" where
  "demo_fact v \<equiv> \<lparr>target_stable_key = ''f'', fact_kind = FunctionLength, fact_value = v,
     file_path = None, symbol_kind = None\<rparr>"

theorem evaluate_policy_verdict_witness:
  "\<exists>a. evaluate_policy (\<lambda>_. None) (demo_policy AbsoluteMax) [demo_fact (Fin False 9)] None ''s'' None = Val a \<and>
    computed_verdict a = Fail"
proof -
  have "measurement_parse (payload_measurement_kind (def_payload (demo_policy AbsoluteMax))) = Some FunctionLength"
    by (simp add: measurement_parse_def)
  from evaluate_policy_verdict [OF this, of None None "\<lambda>_. None" "[demo_fact (Fin False 9)]" "''s''"]
  show ?thesis
    by (auto simp: reference_verdict_def breaks_policy_def scope_matching_facts_def fact_matches_scope_def
        signed_def)
qed

text \<open>
  C17. A batch returns one assessment per policy, in input order and under the policy's uid,
  unless it panics; it panics exactly if baseline facts are given without a baseline snapshot uid
  and some policy with a supported measurement kind is comparative.
\<close>

theorem evaluate_policies_total:
  "(\<exists>as. evaluate_policies glob batch = Val as \<and>
      map pa_policy_uid as = map def_policy_uid (batch_policies batch)) \<longleftrightarrow>
   \<not> (baseline_facts batch \<noteq> None \<and> batch_baseline_uid batch = None \<and>
      (\<exists>def \<in> set (batch_policies batch).
         measurement_parse (payload_measurement_kind (def_payload def)) \<noteq> None \<and>
         policy_kind (def_payload def) \<in> {NoNew, NoWorsened}))"
proof -
  let ?lk = "map_option build_baseline_lookup (baseline_facts batch)"
  let ?f = "\<lambda>def. evaluate_policy glob def (current_facts batch) ?lk (batch_snapshot_uid batch) (batch_baseline_uid batch)"
  have uid: "pa_policy_uid a = def_policy_uid def" if "?f def = Val a" for "def" a
  proof (cases "measurement_parse (payload_measurement_kind (def_payload def))")
    case None
    with that show ?thesis by (auto simp: evaluate_policy_def Let_def)
  next
    case (Some kind)
    have "\<not> (\<exists>m. ?f def = Panic m)" using that by simp
    with Some have "requires_baseline (policy_kind (def_payload def)) \<Longrightarrow> ?lk \<noteq> None \<Longrightarrow> batch_baseline_uid batch \<noteq> None"
      unfolding evaluate_policy_panics requires_baseline_iff by auto
    with evaluate_policy_reference [OF Some, of ?lk "batch_baseline_uid batch" glob "current_facts batch"
        "batch_snapshot_uid batch"] that
    show ?thesis by auto
  qed
  have "map pa_policy_uid as = map def_policy_uid (batch_policies batch)" if "evaluate_policies glob batch = Val as" for as
  proof -
    have "list_all2 (\<lambda>x y. ?f x = Val y) (batch_policies batch) as"
      using that map_outcome_list_all2 by (simp add: evaluate_policies_def Let_def)
    then show ?thesis
      by (induction rule: list_all2_induct) (auto simp: uid)
  qed
  then have "(\<exists>as. evaluate_policies glob batch = Val as \<and>
      map pa_policy_uid as = map def_policy_uid (batch_policies batch)) \<longleftrightarrow>
    (\<exists>as. evaluate_policies glob batch = Val as)"
    by blast
  also have "\<dots> \<longleftrightarrow> (\<forall>def \<in> set (batch_policies batch). \<not> (\<exists>m. ?f def = Panic m))"
    by (simp add: evaluate_policies_def Let_def map_outcome_Val outcome_Val_iff)
  finally show ?thesis
    unfolding evaluate_policy_panics by auto
qed

text \<open>
  The absolute evaluators agree with the operator that \<open>QualityPolicyKind::operator\<close> derives:
  when no value in scope is NaN, \<open>PASS\<close> means that something was in scope and every fact in scope
  satisfies the operator. A NaN measurement satisfies no operator and still passes.
\<close>

theorem absolute_policy_operator:
  fixes "def" s
  defines "p \<equiv> def_payload def"
  assumes "policy_threshold p \<noteq> NaN" and "\<forall>f \<in> set fs. fact_value f \<noteq> NaN"
  shows "(computed_verdict (evaluate_absolute_max def s fs) = Pass \<longleftrightarrow>
      fs \<noteq> [] \<and> (\<forall>f \<in> set fs. op_evaluate (kind_operator AbsoluteMax) (fact_value f) (policy_threshold p))) \<and>
    (computed_verdict (evaluate_absolute_min def s fs) = Pass \<longleftrightarrow>
      fs \<noteq> [] \<and> (\<forall>f \<in> set fs. op_evaluate (kind_operator AbsoluteMin) (fact_value f) (policy_threshold p))) \<and>
    computed_verdict (evaluate_absolute_max def s [demo_fact NaN]) = Pass \<and>
    \<not> op_evaluate (kind_operator AbsoluteMax) NaN (policy_threshold p)"
proof (intro conjI)
  have max: "op_evaluate (kind_operator AbsoluteMax) (fact_value f) (policy_threshold p) \<longleftrightarrow>
      \<not> flt (policy_threshold p) (fact_value f)" if "f \<in> set fs" for f
    using assms(2,3) that by (simp add: op_evaluate_def kind_operator_def fle_not_flt)
  have min: "op_evaluate (kind_operator AbsoluteMin) (fact_value f) (policy_threshold p) \<longleftrightarrow>
      \<not> flt (fact_value f) (policy_threshold p)" if "f \<in> set fs" for f
    using assms(2,3) that by (simp add: op_evaluate_def kind_operator_def fle_not_flt)
  show "computed_verdict (evaluate_absolute_max def s fs) = Pass \<longleftrightarrow>
      fs \<noteq> [] \<and> (\<forall>f \<in> set fs. op_evaluate (kind_operator AbsoluteMax) (fact_value f) (policy_threshold p))"
    unfolding amax.pass_iff using max by (auto simp: p_def)
  show "computed_verdict (evaluate_absolute_min def s fs) = Pass \<longleftrightarrow>
      fs \<noteq> [] \<and> (\<forall>f \<in> set fs. op_evaluate (kind_operator AbsoluteMin) (fact_value f) (policy_threshold p))"
    unfolding amin.pass_iff using min by (auto simp: p_def)
  show "computed_verdict (evaluate_absolute_max def s [demo_fact NaN]) = Pass"
    unfolding amax.pass_iff by simp
  show "\<not> op_evaluate (kind_operator AbsoluteMax) NaN (policy_threshold p)"
    by (simp add: op_evaluate_def kind_operator_def)
qed

theorem absolute_policy_operator_witness:
  "computed_verdict (evaluate_absolute_max (demo_policy AbsoluteMax) ''s'' [demo_fact (Fin False 5)]) = Pass"
  using absolute_policy_operator [of "demo_policy AbsoluteMax" "[demo_fact (Fin False 5)]" "''s''"]
  by (simp add: op_evaluate_def kind_operator_def)

text \<open>
  Scope clauses: a fact is in scope exactly if it matches every clause. A module clause
  matches the path itself and the paths below it, never a sibling that shares a prefix; a
  symbol-kind clause compares exactly, upper and lower case included (the crate's overview calls
  it case-insensitive).
\<close>

theorem scope_clause_semantics:
  "(fact_matches_scope glob f p \<longleftrightarrow>
     list_all (\<lambda>c. clause_matches glob f (clause_kind c) (selector c)) (scope_clauses p)) \<and>
   (module_scope_matches path sel \<longleftrightarrow>
     (\<exists>rest. path = sel @ rest \<and> (rest = [] \<or> hd rest = CHR ''/'' \<or> ends_with sel ''/''))) \<and>
   (symbol_kind_matches a b \<longleftrightarrow> a = b) \<and> \<not> symbol_kind_matches ''FUNCTION'' ''function''"
proof (intro conjI)
  have "all_clauses_match glob f cs \<longleftrightarrow> list_all (\<lambda>c. clause_matches glob f (clause_kind c) (selector c)) cs" for cs
    by (induction cs) auto
  then show "fact_matches_scope glob f p \<longleftrightarrow>
     list_all (\<lambda>c. clause_matches glob f (clause_kind c) (selector c)) (scope_clauses p)"
    by (simp add: fact_matches_scope_def)
  show "module_scope_matches path sel \<longleftrightarrow>
     (\<exists>rest. path = sel @ rest \<and> (rest = [] \<or> hd rest = CHR ''/'' \<or> ends_with sel ''/''))"
  proof (cases "ends_with sel ''/''")
    case True
    then show ?thesis by (auto simp: module_scope_matches_def starts_with_iff)
  next
    case False
    have "(\<exists>rest. path = sel @ rest \<and> (rest = [] \<or> hd rest = CHR ''/'')) \<longleftrightarrow>
      path = sel \<or> (\<exists>r. path = (sel @ ''/'') @ r)"
    proof
      assume "\<exists>rest. path = sel @ rest \<and> (rest = [] \<or> hd rest = CHR ''/'')"
      then obtain rest where "path = sel @ rest" "rest = [] \<or> hd rest = CHR ''/''" by blast
      then show "path = sel \<or> (\<exists>r. path = (sel @ ''/'') @ r)" by (cases rest) auto
    qed auto
    with False show ?thesis by (auto simp: module_scope_matches_def starts_with_iff)
  qed
qed (simp_all add: symbol_kind_matches_def)

end
