(* ===== verification/Policy_Runner.thy ===== *)
theory Policy_Runner
  imports Assess
begin

text \<open>
  The quality policy runner, \<open>quality-policy-runner/src/runner.rs\<close>: it loads the policies of a
  repository and the measurements of a snapshot through the storage port, validates, evaluates and
  persists. The port is a record of functions on the state of the store, of any type; its errors are
  of any type too. The order in which the set of measurement kinds is iterated and the time stamp are
  arguments.
\<close>

section \<open>The storage port (\<open>storage/src/quality_policy_port.rs\<close>)\<close>

record enriched_measurement =
  em_target_stable_key :: string
  em_measurement_kind :: string
  em_value :: f64
  em_file_path :: "string option"
  em_symbol_kind :: "string option"

record loaded_policy =
  lp_policy_uid :: string
  lp_payload :: quality_policy_payload

record snapshot =
  snap_snapshot_uid :: string
  snap_repo_uid :: string
  snap_parent_snapshot_uid :: "string option"
  snap_kind :: string
  snap_basis_ref :: "string option"
  snap_basis_commit :: "string option"
  snap_dirty_hash :: "string option"
  snap_status :: string
  snap_files_total :: int
  snap_nodes_total :: int
  snap_edges_total :: int
  snap_created_at :: string
  snap_completed_at :: "string option"
  snap_label :: "string option"
  snap_toolchain_json :: "string option"

record quality_assessment_input =
  qa_assessment_uid :: string
  qa_snapshot_uid :: string
  qa_policy_uid :: string
  qa_baseline_snapshot_uid :: "string option"
  qa_computed_verdict :: assessment_verdict
  qa_measurements_evaluated :: int
  qa_violations :: "assessment_violation list"
  qa_new_violations :: "int option"
  qa_worsened_violations :: "int option"
  qa_created_at :: string

record ('st, 'e) quality_policy_port =
  port_get_snapshot :: "'st \<Rightarrow> string \<Rightarrow> 'e + snapshot option"
  port_load_active_quality_policies :: "'st \<Rightarrow> string \<Rightarrow> 'e + loaded_policy list"
  port_load_enriched_measurements :: "'st \<Rightarrow> string \<Rightarrow> string list \<Rightarrow> 'e + enriched_measurement list"
  port_replace_assessments :: "'st \<Rightarrow> string \<Rightarrow> quality_assessment_input list \<Rightarrow> ('e + nat) \<times> 'st"

section \<open>The runner\<close>

datatype 'e runner_error =
    RE_Storage 'e
  | RE_InvalidPolicy string policy_validation_error
  | RE_BaselineRequired nat
  | RE_BaselineInvalid string

record assessment_result =
  ar_total_assessments :: nat
  ar_pass_count :: nat
  ar_fail_count :: nat
  ar_not_applicable_count :: nat
  ar_not_comparable_count :: nat
  ar_baseline_required_count :: nat
  ar_armed :: bool

fun validate_policies :: "loaded_policy list \<Rightarrow> 'e runner_error + unit" where
  "validate_policies [] = Inr ()"
| "validate_policies (p # ps) = (case validate_quality_policy_payload (lp_payload p) of
     first_error # _ \<Rightarrow> Inl (RE_InvalidPolicy (lp_policy_uid p) first_error)
   | [] \<Rightarrow> validate_policies ps)"

definition collect_required_kinds :: "loaded_policy list \<Rightarrow> string set" where
  "collect_required_kinds ps = set (map (\<lambda>p. payload_measurement_kind (lp_payload p)) ps)"

definition quoted :: "string \<Rightarrow> string" where
  "quoted s = [CHR 0x27] @ s @ [CHR 0x27]"

definition validate_baseline ::
  "('st, 'e) quality_policy_port \<Rightarrow> 'st \<Rightarrow> string \<Rightarrow> string \<Rightarrow> 'e runner_error + unit" where
  "validate_baseline port st baseline_uid expected_repo_uid =
     (case port_get_snapshot port st baseline_uid of
        Inl e \<Rightarrow> Inl (RE_Storage e)
      | Inr None \<Rightarrow> Inl (RE_BaselineInvalid (''snapshot '' @ quoted baseline_uid @ '' does not exist''))
      | Inr (Some snap) \<Rightarrow>
          (if snap_repo_uid snap \<noteq> expected_repo_uid
           then Inl (RE_BaselineInvalid (''snapshot '' @ quoted baseline_uid @ '' belongs to repo '' @
             quoted (snap_repo_uid snap) @ '', expected '' @ quoted expected_repo_uid))
           else if snap_status snap \<noteq> ''ready''
           then Inl (RE_BaselineInvalid (''snapshot '' @ quoted baseline_uid @ '' has status '' @
             quoted (snap_status snap) @ '', expected '' @ quoted ''ready''))
           else Inr ()))"

fun enrich_to_facts :: "enriched_measurement list \<Rightarrow> measurement_fact list" where
  "enrich_to_facts [] = []"
| "enrich_to_facts (m # ms) = (case parse_measurement_kind (em_measurement_kind m) of
     Inr kind \<Rightarrow> \<lparr>target_stable_key = em_target_stable_key m, fact_kind = kind, fact_value = em_value m,
       file_path = em_file_path m, symbol_kind = em_symbol_kind m\<rparr> # enrich_to_facts ms
   | Inl _ \<Rightarrow> enrich_to_facts ms)"

definition assessment_to_input :: "string \<Rightarrow> policy_assessment \<Rightarrow> quality_assessment_input" where
  "assessment_to_input created_at a =
     (let (new_violations, worsened_violations) =
        (if pa_baseline_uid a \<noteq> None
         then (Some (int (length (filter (\<lambda>v. viol_baseline v = None) (violations a)))),
               Some (int (length (filter (\<lambda>v. viol_baseline v \<noteq> None) (violations a)))))
         else (None, None))
      in \<lparr>qa_assessment_uid = assessment_uid a, qa_snapshot_uid = pa_snapshot_uid a,
          qa_policy_uid = pa_policy_uid a, qa_baseline_snapshot_uid = pa_baseline_uid a,
          qa_computed_verdict = computed_verdict a,
          qa_measurements_evaluated = int (measurements_evaluated a), qa_violations = violations a,
          qa_new_violations = new_violations, qa_worsened_violations = worsened_violations,
          qa_created_at = created_at\<rparr>)"

definition verdict_count :: "assessment_verdict \<Rightarrow> policy_assessment list \<Rightarrow> nat" where
  "verdict_count v as = foldl (\<lambda>n a. if computed_verdict a = v then n + 1 else n) 0 as"

definition build_result :: "policy_assessment list \<Rightarrow> nat \<Rightarrow> assessment_result" where
  "build_result as baseline_required =
     \<lparr>ar_total_assessments = length as, ar_pass_count = verdict_count Pass as,
      ar_fail_count = verdict_count Fail as, ar_not_applicable_count = verdict_count NotApplicable as,
      ar_not_comparable_count = verdict_count NotComparable as,
      ar_baseline_required_count = baseline_required, ar_armed = True\<rparr>"

definition baseline_required_count :: "loaded_policy list \<Rightarrow> nat" where
  "baseline_required_count ps = length (filter (\<lambda>p. requires_baseline (policy_kind (lp_payload p))) ps)"

text \<open>Steps 6 to 8: the measurements of both snapshots, as facts. The \<open>expect\<close> of step 7 is a panic.\<close>

definition load_facts ::
  "('st, 'e) quality_policy_port \<Rightarrow> 'st \<Rightarrow> string list \<Rightarrow> string \<Rightarrow> string option \<Rightarrow> nat \<Rightarrow>
   ('e runner_error + measurement_fact list \<times> measurement_fact list option) outcome" where
  "load_facts port st kinds snapshot_uid baseline_uid required =
     (case port_load_enriched_measurements port st snapshot_uid kinds of
        Inl e \<Rightarrow> Val (Inl (RE_Storage e))
      | Inr current \<Rightarrow>
          (if required > 0
           then (case baseline_uid of
                   None \<Rightarrow> Panic ''checked above''
                 | Some b \<Rightarrow>
                     (case port_load_enriched_measurements port st b kinds of
                        Inl e \<Rightarrow> Val (Inl (RE_Storage e))
                      | Inr baseline \<Rightarrow> Val (Inr (enrich_to_facts current, Some (enrich_to_facts baseline)))))
           else Val (Inr (enrich_to_facts current, None))))"

definition runner_batch ::
  "loaded_policy list \<Rightarrow> measurement_fact list \<Rightarrow> measurement_fact list option \<Rightarrow> string \<Rightarrow> string option \<Rightarrow>
   policy_evaluation_batch" where
  "runner_batch ps current baseline snapshot_uid baseline_uid =
     \<lparr>batch_policies = map (\<lambda>p. \<lparr>def_policy_uid = lp_policy_uid p, def_payload = lp_payload p\<rparr>) ps,
      current_facts = current, baseline_facts = baseline, batch_snapshot_uid = snapshot_uid,
      batch_baseline_uid = baseline_uid\<rparr>"

text \<open>Steps 5 to 13, once the policies and the baseline are accepted.\<close>

definition evaluate_and_persist ::
  "glob \<Rightarrow> (string set \<Rightarrow> string list) \<Rightarrow> string \<Rightarrow> ('st, 'e) quality_policy_port \<Rightarrow> loaded_policy list \<Rightarrow>
   string \<Rightarrow> string option \<Rightarrow> 'st \<Rightarrow> (('e runner_error + assessment_result) \<times> 'st) outcome" where
  "evaluate_and_persist glob kind_order now port ps snapshot_uid baseline_uid st =
     bind_outcome (load_facts port st (kind_order (collect_required_kinds ps)) snapshot_uid baseline_uid
         (baseline_required_count ps)) (\<lambda>loaded. case loaded of
       Inl e \<Rightarrow> Val (Inl e, st)
     | Inr (current, baseline) \<Rightarrow>
         bind_outcome (evaluate_policies glob (runner_batch ps current baseline snapshot_uid baseline_uid)) (\<lambda>as.
           case port_replace_assessments port st snapshot_uid (map (assessment_to_input now) as) of
             (Inl e, st') \<Rightarrow> Val (Inl (RE_Storage e), st')
           | (Inr _, st') \<Rightarrow> Val (Inr (build_result as (baseline_required_count ps)), st')))"

definition empty_result :: assessment_result where
  "empty_result = \<lparr>ar_total_assessments = 0, ar_pass_count = 0, ar_fail_count = 0,
     ar_not_applicable_count = 0, ar_not_comparable_count = 0, ar_baseline_required_count = 0,
     ar_armed = False\<rparr>"

definition assess_snapshot ::
  "glob \<Rightarrow> (string set \<Rightarrow> string list) \<Rightarrow> string \<Rightarrow> ('st, 'e) quality_policy_port \<Rightarrow> string \<Rightarrow> string \<Rightarrow>
   string option \<Rightarrow> 'st \<Rightarrow> (('e runner_error + assessment_result) \<times> 'st) outcome" where
  "assess_snapshot glob kind_order now port repo_uid snapshot_uid baseline_uid st =
     (case port_load_active_quality_policies port st repo_uid of
        Inl e \<Rightarrow> Val (Inl (RE_Storage e), st)
      | Inr ps \<Rightarrow>
          (if ps = []
           then (case port_replace_assessments port st snapshot_uid [] of
                   (Inl e, st') \<Rightarrow> Val (Inl (RE_Storage e), st')
                 | (Inr _, st') \<Rightarrow> Val (Inr empty_result, st'))
           else (case validate_policies ps of
                   Inl e \<Rightarrow> Val (Inl e, st)
                 | Inr _ \<Rightarrow>
                     (if baseline_required_count ps > 0 \<and> baseline_uid = None
                      then Val (Inl (RE_BaselineRequired (baseline_required_count ps)), st)
                      else (case (case baseline_uid of None \<Rightarrow> Inr () | Some b \<Rightarrow> validate_baseline port st b repo_uid) of
                              Inl e \<Rightarrow> Val (Inl e, st)
                            | Inr _ \<Rightarrow> evaluate_and_persist glob kind_order now port ps snapshot_uid baseline_uid st)))))"

section \<open>What the runner persists\<close>

text \<open>
  The row that a policy must get: the reference verdict over the facts in its scope, never
  \<open>NOT_COMPARABLE\<close>, with all violations counted as new for \<open>no_new\<close>, as worsened for \<open>no_worsened\<close>
  and as neither for an absolute policy.
\<close>

definition row_for ::
  "glob \<Rightarrow> string \<Rightarrow> string \<Rightarrow> measurement_fact list \<Rightarrow> measurement_fact list option \<Rightarrow> loaded_policy \<Rightarrow>
   quality_assessment_input \<Rightarrow> bool" where
  "row_for glob now snapshot_uid current baseline p row \<longleftrightarrow>
     qa_policy_uid row = lp_policy_uid p \<and> qa_snapshot_uid row = snapshot_uid \<and> qa_created_at row = now \<and>
     (\<exists>kind. payload_measurement_kind (lp_payload p) = measurement_as_str kind \<and>
        qa_computed_verdict row = reference_verdict (lp_payload p) (map_option build_baseline_lookup baseline)
          (scope_matching_facts glob (lp_payload p) kind current)) \<and>
     qa_computed_verdict row \<noteq> NotComparable \<and>
     (qa_new_violations row, qa_worsened_violations row) =
       (case policy_kind (lp_payload p) of
          NoNew \<Rightarrow> (Some (int (length (qa_violations row))), Some 0)
        | NoWorsened \<Rightarrow> (Some 0, Some (int (length (qa_violations row))))
        | _ \<Rightarrow> (None, None))"

text \<open>A refusal has the cause that its variant names.\<close>

definition refusal_justified ::
  "('st, 'e) quality_policy_port \<Rightarrow> string \<Rightarrow> string option \<Rightarrow> 'st \<Rightarrow> 'e runner_error \<Rightarrow> bool" where
  "refusal_justified port repo_uid baseline_uid st e = (case e of
     RE_Storage se \<Rightarrow>
       port_load_active_quality_policies port st repo_uid = Inl se \<or>
       (\<exists>uid. port_get_snapshot port st uid = Inl se) \<or>
       (\<exists>uid kinds. port_load_enriched_measurements port st uid kinds = Inl se) \<or>
       (\<exists>uid rows. fst (port_replace_assessments port st uid rows) = Inl se)
   | RE_InvalidPolicy uid err \<Rightarrow> (\<exists>ps p. port_load_active_quality_policies port st repo_uid = Inr ps \<and>
       p \<in> set ps \<and> uid = lp_policy_uid p \<and> err \<in> set (validate_quality_policy_payload (lp_payload p)))
   | RE_BaselineRequired n \<Rightarrow> (\<exists>ps. port_load_active_quality_policies port st repo_uid = Inr ps \<and>
       n = baseline_required_count ps \<and> n > 0 \<and> baseline_uid = None)
   | RE_BaselineInvalid _ \<Rightarrow> (\<exists>b. baseline_uid = Some b \<and> (port_get_snapshot port st b = Inr None \<or>
       (\<exists>s. port_get_snapshot port st b = Inr (Some s) \<and>
          (snap_repo_uid s \<noteq> repo_uid \<or> snap_status s \<noteq> ''ready'')))))"

definition facts_loaded ::
  "('st, 'e) quality_policy_port \<Rightarrow> 'st \<Rightarrow> (string set \<Rightarrow> string list) \<Rightarrow> string \<Rightarrow> string \<Rightarrow> string option \<Rightarrow>
   loaded_policy list \<Rightarrow> measurement_fact list \<Rightarrow> measurement_fact list option \<Rightarrow> bool" where
  "facts_loaded port st kind_order repo_uid snapshot_uid baseline_uid ps current baseline \<longleftrightarrow>
     (let kinds = kind_order (collect_required_kinds ps) in
      (\<exists>ms. port_load_enriched_measurements port st snapshot_uid kinds = Inr ms \<and> current = enrich_to_facts ms) \<and>
      (if baseline_required_count ps = 0 then baseline = None
       else \<exists>b s ms. baseline_uid = Some b \<and> port_get_snapshot port st b = Inr (Some s) \<and>
         snap_repo_uid s = repo_uid \<and> snap_status s = ''ready'' \<and>
         port_load_enriched_measurements port st b kinds = Inr ms \<and> baseline = Some (enrich_to_facts ms)))"

text \<open>What an accepted run leaves behind.\<close>

definition run_persisted ::
  "glob \<Rightarrow> (string set \<Rightarrow> string list) \<Rightarrow> string \<Rightarrow> ('st, 'e) quality_policy_port \<Rightarrow> string \<Rightarrow> string \<Rightarrow>
   string option \<Rightarrow> 'st \<Rightarrow> assessment_result \<Rightarrow> 'st \<Rightarrow> bool" where
  "run_persisted glob kind_order now port repo_uid snapshot_uid baseline_uid st res st' \<longleftrightarrow>
     (\<exists>ps current baseline rows n.
        port_load_active_quality_policies port st repo_uid = Inr ps \<and>
        list_all (\<lambda>p. validate_quality_policy_payload (lp_payload p) = []) ps \<and>
        port_replace_assessments port st snapshot_uid rows = (Inr n, st') \<and>
        (ps = [] \<or> facts_loaded port st kind_order repo_uid snapshot_uid baseline_uid ps current baseline) \<and>
        list_all2 (row_for glob now snapshot_uid current baseline) ps rows \<and>
        ar_total_assessments res = length ps \<and> ar_armed res = (ps \<noteq> []) \<and>
        ar_baseline_required_count res = baseline_required_count ps \<and>
        ar_pass_count res = length (filter (\<lambda>r. qa_computed_verdict r = Pass) rows) \<and>
        ar_fail_count res = length (filter (\<lambda>r. qa_computed_verdict r = Fail) rows) \<and>
        ar_not_applicable_count res = length (filter (\<lambda>r. qa_computed_verdict r = NotApplicable) rows) \<and>
        ar_not_comparable_count res = 0)"

section \<open>Lemmas\<close>

lemma validate_policies_Inr:
  "validate_policies ps = Inr u \<longleftrightarrow> list_all (\<lambda>p. validate_quality_policy_payload (lp_payload p) = []) ps"
  by (induction ps) (auto split: list.splits)

lemma validate_policies_Inl:
  "validate_policies ps = Inl e \<Longrightarrow> \<exists>p \<in> set ps. \<exists>err \<in> set (validate_quality_policy_payload (lp_payload p)).
     e = RE_InvalidPolicy (lp_policy_uid p) err"
  by (induction ps) (auto split: list.splits)

lemma validate_baseline_Inr:
  "validate_baseline port st b repo = Inr u \<longleftrightarrow> (\<exists>s. port_get_snapshot port st b = Inr (Some s) \<and>
     snap_repo_uid s = repo \<and> snap_status s = ''ready'')"
  by (auto simp: validate_baseline_def split: sum.splits option.splits if_splits)

lemma validate_baseline_Inl:
  "validate_baseline port st b repo = Inl e \<Longrightarrow> refusal_justified port repo (Some b) st e"
  by (auto simp: validate_baseline_def refusal_justified_def split: sum.splits option.splits if_splits)

lemma verdict_count_filter: "verdict_count v as = length (filter (\<lambda>a. computed_verdict a = v) as)"
proof -
  have "foldl (\<lambda>n a. if computed_verdict a = v then n + 1 else n) k as =
      k + length (filter (\<lambda>a. computed_verdict a = v) as)" for k
    by (induction as arbitrary: k) auto
  then show ?thesis by (simp add: verdict_count_def)
qed

lemma validated_kind:
  assumes "validate_quality_policy_payload p = []"
  obtains kind where "measurement_parse (payload_measurement_kind p) = Some kind"
    "payload_measurement_kind p = measurement_as_str kind"
  using assms
  by (cases "measurement_parse (payload_measurement_kind p)")
    (auto simp: validate_quality_policy_payload_def measurement_parse_iff split: if_splits)

lemma viol_baseline_violation [simp]: "viol_baseline (violation f t b) = b"
  by (simp add: violation_def)

lemma absolute_rows:
  "pa_baseline_uid (evaluate_absolute_max def s fs) = None" "pa_snapshot_uid (evaluate_absolute_max def s fs) = s"
  "pa_baseline_uid (evaluate_absolute_min def s fs) = None" "pa_snapshot_uid (evaluate_absolute_min def s fs) = s"
  by (simp_all add: evaluate_absolute_max_def evaluate_absolute_min_def assessment_def Let_def)

lemma comparative_rows:
  "pa_baseline_uid (evaluate_no_new def l s b fs) = Some b" "pa_snapshot_uid (evaluate_no_new def l s b fs) = s"
  "pa_baseline_uid (evaluate_no_worsened def l s b fs) = Some b"
  "pa_snapshot_uid (evaluate_no_worsened def l s b fs) = s"
  by (simp_all add: evaluate_no_new_def evaluate_no_worsened_def assessment_def Let_def split_beta)

lemma input_no_new:
  "(qa_new_violations row, qa_worsened_violations row) = (Some (int (length (qa_violations row))), Some 0)"
  if "row = assessment_to_input now (evaluate_no_new def l s b fs)"
  using that by (simp add: assessment_to_input_def comparative_rows nnew.violations_law List.filter_map o_def)

lemma input_no_worsened:
  "(qa_new_violations row, qa_worsened_violations row) = (Some 0, Some (int (length (qa_violations row))))"
  if "row = assessment_to_input now (evaluate_no_worsened def l s b fs)"
proof -
  let ?fs = "filter (\<lambda>f. baseline_violator l (policy_threshold (def_payload def)) f \<and> exceeds_baseline l f) fs"
  have "filter (\<lambda>f. l (fact_key f) = None) ?fs = []" "filter (\<lambda>f. l (fact_key f) \<noteq> None) ?fs = ?fs"
    by (auto simp: baseline_violator_def filter_empty_conv intro!: filter_cong)
  then show ?thesis
    unfolding that
    by (simp add: assessment_to_input_def comparative_rows nworse.violations_law List.filter_map o_def
        del: filter_filter)
qed

lemma input_sel [simp]:
  "qa_policy_uid (assessment_to_input now a) = pa_policy_uid a"
  "qa_snapshot_uid (assessment_to_input now a) = pa_snapshot_uid a"
  "qa_created_at (assessment_to_input now a) = now"
  "qa_computed_verdict (assessment_to_input now a) = computed_verdict a"
  by (simp_all add: assessment_to_input_def Let_def split_beta)

lemma input_absolute:
  "pa_baseline_uid a = None \<Longrightarrow>
     qa_new_violations (assessment_to_input now a) = None \<and> qa_worsened_violations (assessment_to_input now a) = None"
  by (simp add: assessment_to_input_def)

lemma runner_row:
  fixes p :: loaded_policy
  defines "def \<equiv> \<lparr>def_policy_uid = lp_policy_uid p, def_payload = lp_payload p\<rparr>"
  assumes valid: "validate_quality_policy_payload (lp_payload p) = []"
    and base: "requires_baseline (policy_kind (lp_payload p)) \<Longrightarrow> baseline \<noteq> None \<and> buid \<noteq> None"
  shows "\<exists>a. evaluate_policy glob def current (map_option build_baseline_lookup baseline) s buid = Val a \<and>
    row_for glob now s current baseline p (assessment_to_input now a)"
proof -
  let ?lk = "map_option build_baseline_lookup baseline"
  from valid obtain kind where k: "measurement_parse (payload_measurement_kind (def_payload def)) = Some kind"
    "payload_measurement_kind (lp_payload p) = measurement_as_str kind"
    using validated_kind unfolding def_def by (metis policy_definition.select_convs(2))
  obtain a where a: "evaluate_policy glob def current ?lk s buid = Val a"
    "computed_verdict a = reference_verdict (def_payload def) ?lk
      (scope_matching_facts glob (def_payload def) kind current)" "pa_policy_uid a = def_policy_uid def"
    using evaluate_policy_reference [OF k(1), of ?lk buid glob current s] base
    by (auto simp: def_def)
  have comparable: "computed_verdict a \<noteq> NotComparable"
    using a(2) base by (auto simp: reference_verdict_def def_def requires_baseline_iff)
  let ?row = "assessment_to_input now a"
  have "pa_snapshot_uid a = s \<and> (qa_new_violations ?row, qa_worsened_violations ?row) =
      (case policy_kind (lp_payload p) of
          NoNew \<Rightarrow> (Some (int (length (qa_violations ?row))), Some 0)
        | NoWorsened \<Rightarrow> (Some 0, Some (int (length (qa_violations ?row))))
        | _ \<Rightarrow> (None, None))"
  proof (cases "policy_kind (lp_payload p)")
    case NoNew
    with base obtain l b where "?lk = Some l" "buid = Some b" by (auto simp: requires_baseline_def)
    with NoNew a(1) k(1) have "a = evaluate_no_new def l s b (scope_matching_facts glob (def_payload def) kind current)"
      by (simp add: evaluate_policy_def Let_def def_def unwrap_def)
    with NoNew input_no_new [OF refl, of now "def" l s b] show ?thesis by (simp add: comparative_rows)
  next
    case NoWorsened
    with base obtain l b where "?lk = Some l" "buid = Some b" by (auto simp: requires_baseline_def)
    with NoWorsened a(1) k(1)
    have "a = evaluate_no_worsened def l s b (scope_matching_facts glob (def_payload def) kind current)"
      by (simp add: evaluate_policy_def Let_def def_def unwrap_def)
    with NoWorsened input_no_worsened [OF refl, of now "def" l s b] show ?thesis by (simp add: comparative_rows)
  qed (use a(1) k(1) in \<open>auto simp: evaluate_policy_def Let_def def_def requires_baseline_def absolute_rows
      input_absolute\<close>)
  with a comparable k show ?thesis
    unfolding row_for_def by (auto simp: def_def)
qed

lemma batch_rows:
  assumes valid: "list_all (\<lambda>p. validate_quality_policy_payload (lp_payload p) = []) ps"
    and base: "baseline_required_count ps \<noteq> 0 \<Longrightarrow> baseline \<noteq> None \<and> buid \<noteq> None"
  shows "\<exists>as. evaluate_policies glob (runner_batch ps current baseline s buid) = Val as \<and>
    list_all2 (row_for glob now s current baseline) ps (map (assessment_to_input now) as)"
proof -
  let ?def = "\<lambda>p. \<lparr>def_policy_uid = lp_policy_uid p, def_payload = lp_payload p\<rparr>"
  let ?f = "\<lambda>def. evaluate_policy glob def current (map_option build_baseline_lookup baseline) s buid"
  have row: "\<exists>a. ?f (?def p) = Val a \<and> row_for glob now s current baseline p (assessment_to_input now a)"
    if "p \<in> set ps" for p
  proof (rule runner_row)
    show "validate_quality_policy_payload (lp_payload p) = []" using valid that by (simp add: list_all_iff)
    show "baseline \<noteq> None \<and> buid \<noteq> None" if "requires_baseline (policy_kind (lp_payload p))"
      using that base \<open>p \<in> set ps\<close> by (auto simp: baseline_required_count_def filter_empty_conv)
  qed
  then obtain as where as: "map_outcome ?f (map ?def ps) = Val as"
    using map_outcome_Val [of ?f "map ?def ps"] by fastforce
  then have "list_all2 (\<lambda>p a. ?f (?def p) = Val a) ps as"
    using map_outcome_list_all2 by (fastforce simp: list_all2_map1)
  then have "list_all2 (\<lambda>p a. row_for glob now s current baseline p (assessment_to_input now a)) ps as"
    by (rule list.rel_mono_strong) (use row in fastforce)
  with as show ?thesis
    by (simp add: evaluate_policies_def runner_batch_def Let_def list_all2_map2)
qed

lemma row_counts:
  assumes "list_all2 (row_for glob now s current baseline) ps (map (assessment_to_input now) as)"
  shows "length as = length ps" "verdict_count NotComparable as = 0"
    "verdict_count v as = length (filter (\<lambda>r. qa_computed_verdict r = v) (map (assessment_to_input now) as))"
proof -
  show "length as = length ps" using list_all2_lengthD [OF assms] by simp
  have "computed_verdict a \<noteq> NotComparable" if "a \<in> set as" for a
    using that assms by (fastforce simp: list_all2_conv_all_nth in_set_conv_nth row_for_def)
  then show "verdict_count NotComparable as = 0" by (auto simp: verdict_count_filter filter_empty_conv)
  show "verdict_count v as = length (filter (\<lambda>r. qa_computed_verdict r = v) (map (assessment_to_input now) as))"
    by (simp add: verdict_count_filter List.filter_map o_def)
qed

lemma load_facts_spec:
  assumes "required \<noteq> 0 \<Longrightarrow> buid \<noteq> None"
  obtains (failed) e where "load_facts port st kinds s buid required = Val (Inl (RE_Storage e))"
      "\<exists>uid. port_load_enriched_measurements port st uid kinds = Inl e"
  | (loaded) current baseline where "load_facts port st kinds s buid required = Val (Inr (current, baseline))"
      "\<exists>ms. port_load_enriched_measurements port st s kinds = Inr ms \<and> current = enrich_to_facts ms"
      "if required = 0 then baseline = None
       else \<exists>b ms. buid = Some b \<and> port_load_enriched_measurements port st b kinds = Inr ms \<and>
         baseline = Some (enrich_to_facts ms)"
proof (cases "port_load_enriched_measurements port st s kinds")
  case (Inl e)
  with failed show ?thesis by (auto simp: load_facts_def)
next
  case (Inr ms)
  show ?thesis
  proof (cases "required = 0")
    case True
    with Inr loaded show ?thesis by (simp add: load_facts_def)
  next
    case False
    with assms obtain b where b: "buid = Some b" by auto
    show ?thesis
      by (cases "port_load_enriched_measurements port st b kinds")
        (use False Inr b failed loaded in \<open>auto simp: load_facts_def\<close>)
  qed
qed

text \<open>The outcome of a run, as the property states it.\<close>

definition run_ok ::
  "glob \<Rightarrow> (string set \<Rightarrow> string list) \<Rightarrow> string \<Rightarrow> ('st, 'e) quality_policy_port \<Rightarrow> string \<Rightarrow> string \<Rightarrow>
   string option \<Rightarrow> 'st \<Rightarrow> 'e runner_error + assessment_result \<Rightarrow> 'st \<Rightarrow> bool" where
  "run_ok glob kind_order now port repo_uid snapshot_uid baseline_uid st r st' = (case r of
     Inl e \<Rightarrow> refusal_justified port repo_uid baseline_uid st e \<and>
       (st' = st \<or> (\<exists>rows se. e = RE_Storage se \<and> port_replace_assessments port st snapshot_uid rows = (Inl se, st')))
   | Inr res \<Rightarrow> run_persisted glob kind_order now port repo_uid snapshot_uid baseline_uid st res st')"

lemma run_ok_storage:
  "port_replace_assessments port st s rows = (Inl e, st') \<Longrightarrow>
     run_ok glob kind_order now port repo s base st (Inl (RE_Storage e)) st'"
  by (simp add: run_ok_def refusal_justified_def) (metis fst_conv)

lemma evaluate_and_persist_ok:
  assumes ps: "port_load_active_quality_policies port st repo = Inr ps" "ps \<noteq> []"
    and valid: "list_all (\<lambda>p. validate_quality_policy_payload (lp_payload p) = []) ps"
    and base: "baseline_required_count ps \<noteq> 0 \<Longrightarrow> buid \<noteq> None"
    and ready: "\<And>b. buid = Some b \<Longrightarrow> validate_baseline port st b repo = Inr ()"
  shows "\<exists>r st'. evaluate_and_persist glob kind_order now port ps s buid st = Val (r, st') \<and>
    run_ok glob kind_order now port repo s buid st r st'"
proof -
  let ?kinds = "kind_order (collect_required_kinds ps)"
  show ?thesis
  proof (rule load_facts_spec [of "baseline_required_count ps" buid port st ?kinds s])
    show "buid \<noteq> None" if "baseline_required_count ps \<noteq> 0" using that by (rule base)
  next
    fix e
    assume failed: "load_facts port st ?kinds s buid (baseline_required_count ps) = Val (Inl (RE_Storage e))"
      "\<exists>uid. port_load_enriched_measurements port st uid ?kinds = Inl e"
    then show ?thesis
      by (auto simp: evaluate_and_persist_def run_ok_def refusal_justified_def)
  next
    fix current baseline
    assume loaded: "load_facts port st ?kinds s buid (baseline_required_count ps) = Val (Inr (current, baseline))"
      "\<exists>ms. port_load_enriched_measurements port st s ?kinds = Inr ms \<and> current = enrich_to_facts ms"
      "if baseline_required_count ps = 0 then baseline = None
       else \<exists>b ms. buid = Some b \<and> port_load_enriched_measurements port st b ?kinds = Inr ms \<and>
         baseline = Some (enrich_to_facts ms)"
    have facts: "facts_loaded port st kind_order repo s buid ps current baseline"
      using loaded ready validate_baseline_Inr [of port st _ repo "()"]
      unfolding facts_loaded_def Let_def by (auto split: if_splits)
    have "baseline_required_count ps \<noteq> 0 \<Longrightarrow> baseline \<noteq> None \<and> buid \<noteq> None"
      using loaded(3) by auto
    from batch_rows [OF valid this, where current = current and glob = glob and s = s and now = now]
    obtain as where as: "evaluate_policies glob (runner_batch ps current baseline s buid) = Val as"
      "list_all2 (row_for glob now s current baseline) ps (map (assessment_to_input now) as)"
      by blast
    obtain w st' where w: "port_replace_assessments port st s (map (assessment_to_input now) as) = (w, st')"
      by (metis surj_pair)
    show ?thesis
    proof (cases w)
      case (Inl e)
      with w loaded(1) as(1) run_ok_storage [of port st s _ e st'] show ?thesis
        by (auto simp: evaluate_and_persist_def)
    next
      case (Inr n)
      have "run_persisted glob kind_order now port repo s buid st (build_result as (baseline_required_count ps)) st'"
        unfolding run_persisted_def
        by (rule exI [of _ ps], rule exI [of _ current], rule exI [of _ baseline],
            rule exI [of _ "map (assessment_to_input now) as"], rule exI [of _ n])
          (use ps valid facts as(2) w Inr row_counts [OF as(2)] in \<open>simp add: build_result_def\<close>)
      with Inr w loaded(1) as(1) show ?thesis
        by (simp add: evaluate_and_persist_def run_ok_def)
    qed
  qed
qed

lemma assess_snapshot_ok:
  fixes port :: "('st, 'e) quality_policy_port"
  shows "\<exists>r st'. assess_snapshot glob kind_order now port repo s buid st = Val (r, st') \<and>
    run_ok glob kind_order now port repo s buid st r st'"
proof (cases "port_load_active_quality_policies port st repo")
  case (Inl e)
  then show ?thesis by (simp add: assess_snapshot_def run_ok_def refusal_justified_def)
next
  case ps: (Inr ps)
  consider (none) "ps = []" | (invalid) e where "ps \<noteq> []" "validate_policies ps = (Inl e :: 'e runner_error + unit)"
    | (valid) "ps \<noteq> []" "validate_policies ps = (Inr () :: 'e runner_error + unit)"
    by (cases "validate_policies ps :: 'e runner_error + unit") auto
  then show ?thesis
  proof cases
    case none
    obtain w st' where w: "port_replace_assessments port st s [] = (w, st')" by (metis surj_pair)
    have "run_persisted glob kind_order now port repo s buid st empty_result st'" if "w = Inr n" for n
      unfolding run_persisted_def
      by (rule exI [of _ "[]"]) (use ps none w that in \<open>auto simp: empty_result_def baseline_required_count_def\<close>)
    with ps none w run_ok_storage [of port st s "[]" _ st'] show ?thesis
      by (cases w) (auto simp: assess_snapshot_def run_ok_def)
  next
    case invalid
    with ps validate_policies_Inl [OF invalid(2)] show ?thesis
      by (auto simp: assess_snapshot_def run_ok_def refusal_justified_def)
  next
    case valid
    show ?thesis
    proof (cases "baseline_required_count ps \<noteq> 0 \<and> buid = None")
      case True
      with ps valid show ?thesis
        by (auto simp: assess_snapshot_def run_ok_def refusal_justified_def)
    next
      case False
      then show ?thesis
      proof (cases "case buid of None \<Rightarrow> Inr () | Some b \<Rightarrow> validate_baseline port st b repo")
        case (Inl e)
        with False ps valid show ?thesis
          by (auto simp: assess_snapshot_def run_ok_def dest: validate_baseline_Inl split: option.splits)
      next
        case (Inr u)
        from valid(2) have "list_all (\<lambda>p. validate_quality_policy_payload (lp_payload p) = []) ps"
          by (simp only: validate_policies_Inr)
        with Inr False ps evaluate_and_persist_ok [OF ps valid(1), of buid glob kind_order now s]
        have "\<exists>r st'. evaluate_and_persist glob kind_order now port ps s buid st = Val (r, st') \<and>
            run_ok glob kind_order now port repo s buid st r st'"
          by (auto split: option.splits)
        moreover have "assess_snapshot glob kind_order now port repo s buid st =
            evaluate_and_persist glob kind_order now port ps s buid st"
          using Inr False ps valid by (auto simp: assess_snapshot_def)
        ultimately show ?thesis by simp
      qed
    qed
  qed
qed

end
