(* ===== verification/Json.thy ===== *)
theory Json
  imports F64
begin

text \<open>
  JSON values as \<open>serde_json::Value\<close> has them; an object is the list of its entries.
\<close>

datatype json =
    JNull
  | JBool bool
  | JInt int
  | JFloat f64
  | JString string
  | JArray "json list"
  | JObject "(string \<times> json) list"

text \<open>\<open>json!(x)\<close> for a float: a number if finite, else null.\<close>

definition json_of_f64 :: "f64 \<Rightarrow> json" where
  "json_of_f64 x = (if is_finite x then JFloat x else JNull)"

definition json_of_nat :: "nat \<Rightarrow> json" where
  "json_of_nat n = JInt (int n)"

text \<open>\<open>value["key"]\<close> reads an entry or null; \<open>value["key"] = v\<close> on an object inserts or replaces.\<close>

definition json_get :: "json \<Rightarrow> string \<Rightarrow> json" where
  "json_get v k = (case v of
     JObject kvs \<Rightarrow> (case map_of kvs k of Some x \<Rightarrow> x | None \<Rightarrow> JNull)
   | _ \<Rightarrow> JNull)"

text \<open>\<open>value.get("key")\<close>.\<close>

definition json_lookup :: "json \<Rightarrow> string \<Rightarrow> json option" where
  "json_lookup v k = (case v of JObject kvs \<Rightarrow> map_of kvs k | _ \<Rightarrow> None)"

fun set_entry :: "string \<Rightarrow> json \<Rightarrow> (string \<times> json) list \<Rightarrow> (string \<times> json) list" where
  "set_entry k v [] = [(k, v)]"
| "set_entry k v ((k', v') # kvs) = (if k = k' then (k, v) # kvs else (k', v') # set_entry k v kvs)"

definition json_set :: "string \<Rightarrow> json \<Rightarrow> json \<Rightarrow> json" where
  "json_set k v j = (case j of JObject kvs \<Rightarrow> JObject (set_entry k v kvs) | _ \<Rightarrow> j)"

end
