(* ===== verification/Gate.thy ===== *)
theory Gate
  imports Json
begin

text \<open>
  The gate's domain types (\<open>gate/src/types.rs\<close>, \<open>errors.rs\<close>) and its pure evaluation
  (\<open>gate/src/compute.rs\<close>). Counters (\<open>usize\<close>) are natural numbers, since they count rows in memory;
  an \<open>i64\<close> version is an \<open>int\<close>, compared and copied only.
\<close>

section \<open>Input types\<close>

record gate_obligation =
  obligation_id :: string
  obligation_text :: string
  obl_method :: string
  obl_target :: "string option"
  obl_threshold :: "f64 option"
  obl_operator :: "string option"

record gate_requirement =
  req_id :: string
  req_version :: int
  obligations :: "gate_obligation list"

record gate_boundary_declaration =
  boundary_module :: string
  forbids :: string
  boundary_reason :: "string option"

record gate_import_edge =
  source_file :: string
  target_file :: string

record gate_measurement =
  gm_key :: string
  gm_value_json :: string

record gate_inference =
  gi_key :: string
  gi_value_json :: string

record gate_not_judged_relation =
  source_module :: string
  target_module :: string
  import_count :: nat

record gate_module_violation_evidence =
  gmv_violations_count :: nat
  gmv_stale_count :: nat
  gmv_inferred_not_judged :: "gate_not_judged_relation list"

record gate_waiver =
  waiver_uid :: string
  waiver_reason :: string
  waiver_created_at :: string
  waiver_created_by :: "string option"
  waiver_expires_at :: "string option"
  rationale_category :: "string option"
  policy_basis :: "string option"

section \<open>Output types\<close>

datatype verdict = PASS | FAIL | MISSING_EVIDENCE | UNSUPPORTED

definition fmt_verdict :: "verdict \<Rightarrow> string" where
  "fmt_verdict v = (case v of PASS \<Rightarrow> ''PASS'' | FAIL \<Rightarrow> ''FAIL''
     | MISSING_EVIDENCE \<Rightarrow> ''MISSING_EVIDENCE'' | UNSUPPORTED \<Rightarrow> ''UNSUPPORTED'')"

datatype effective_verdict = E_PASS | E_FAIL | E_MISSING_EVIDENCE | E_UNSUPPORTED | E_WAIVED

definition effective_from :: "verdict \<Rightarrow> effective_verdict" where
  "effective_from v = (case v of PASS \<Rightarrow> E_PASS | FAIL \<Rightarrow> E_FAIL
     | MISSING_EVIDENCE \<Rightarrow> E_MISSING_EVIDENCE | UNSUPPORTED \<Rightarrow> E_UNSUPPORTED)"

record waiver_basis =
  wb_uid :: string
  wb_reason :: string
  wb_created_at :: string
  wb_created_by :: "string option"
  wb_expires_at :: "string option"
  wb_rationale_category :: "string option"
  wb_policy_basis :: "string option"

record obligation_evaluation =
  ev_req_id :: string
  ev_req_version :: int
  ev_obligation_id :: string
  ev_obligation :: string
  ev_method :: string
  ev_target :: "string option"
  ev_threshold :: "f64 option"
  ev_operator :: "string option"
  ev_computed :: verdict
  ev_effective :: effective_verdict
  ev_evidence :: json
  ev_waiver_basis :: "waiver_basis option"

record gate_counts =
  c_total :: nat
  c_pass :: nat
  c_fail :: nat
  c_waived :: nat
  c_missing :: nat
  c_unsupported :: nat

record gate_quality_counts =
  q_total :: nat
  q_pass :: nat
  q_fail :: nat
  q_advisory_fail :: nat
  q_missing :: nat
  q_not_comparable :: nat
  q_not_applicable :: nat

record gate_outcome =
  outcome_name :: string
  exit_code :: int
  mode_name :: string
  counts :: gate_counts
  quality_counts :: gate_quality_counts

datatype gate_mode = Default_Mode | Strict_Mode | Advisory_Mode

definition mode_as_str :: "gate_mode \<Rightarrow> string" where
  "mode_as_str m = (case m of
     Default_Mode \<Rightarrow> ''default'' | Strict_Mode \<Rightarrow> ''strict'' | Advisory_Mode \<Rightarrow> ''advisory'')"

datatype gate_assessment_state = State_Present | State_Missing

definition state_as_str :: "gate_assessment_state \<Rightarrow> string" where
  "state_as_str s = (case s of State_Present \<Rightarrow> ''present'' | State_Missing \<Rightarrow> ''missing'')"

datatype gate_quality_policy_kind = G_AbsoluteMax | G_AbsoluteMin | G_NoNew | G_NoWorsened

definition gate_kind_as_str :: "gate_quality_policy_kind \<Rightarrow> string" where
  "gate_kind_as_str k = (case k of G_AbsoluteMax \<Rightarrow> ''absolute_max'' | G_AbsoluteMin \<Rightarrow> ''absolute_min''
     | G_NoNew \<Rightarrow> ''no_new'' | G_NoWorsened \<Rightarrow> ''no_worsened'')"

definition is_comparative :: "gate_quality_policy_kind \<Rightarrow> bool" where
  "is_comparative k = (case k of G_NoNew \<Rightarrow> True | G_NoWorsened \<Rightarrow> True | _ \<Rightarrow> False)"

datatype gate_quality_policy_severity = G_Fail | G_Advisory

definition gate_severity_as_str :: "gate_quality_policy_severity \<Rightarrow> string" where
  "gate_severity_as_str s = (case s of G_Fail \<Rightarrow> ''fail'' | G_Advisory \<Rightarrow> ''advisory'')"

datatype gate_assessment_verdict = GA_Pass | GA_Fail | GA_NotApplicable | GA_NotComparable

definition gate_verdict_as_str :: "gate_assessment_verdict \<Rightarrow> string" where
  "gate_verdict_as_str v = (case v of GA_Pass \<Rightarrow> ''PASS'' | GA_Fail \<Rightarrow> ''FAIL''
     | GA_NotApplicable \<Rightarrow> ''NOT_APPLICABLE'' | GA_NotComparable \<Rightarrow> ''NOT_COMPARABLE'')"

record gate_quality_assessment_fact =
  gq_policy_uid :: string
  gq_policy_id :: string
  gq_policy_version :: int
  gq_policy_kind :: gate_quality_policy_kind
  gq_severity :: gate_quality_policy_severity
  gq_state :: gate_assessment_state
  gq_verdict :: "gate_assessment_verdict option"
  gq_baseline_uid :: "string option"
  gq_evaluated :: "int option"
  gq_violations :: "nat option"

record gate_quality_assessment_evaluation =
  qe_policy_id :: string
  qe_policy_version :: int
  qe_policy_kind :: string
  qe_severity :: string
  qe_state :: string
  qe_verdict :: "string option"
  qe_is_comparative :: bool
  qe_violations :: "nat option"

definition quality_evaluation_from ::
  "gate_quality_assessment_fact \<Rightarrow> gate_quality_assessment_evaluation" where
  "quality_evaluation_from f = \<lparr>qe_policy_id = gq_policy_id f, qe_policy_version = gq_policy_version f,
     qe_policy_kind = gate_kind_as_str (gq_policy_kind f), qe_severity = gate_severity_as_str (gq_severity f),
     qe_state = state_as_str (gq_state f), qe_verdict = map_option gate_verdict_as_str (gq_verdict f),
     qe_is_comparative = is_comparative (gq_policy_kind f), qe_violations = gq_violations f\<rparr>"

record gate_report =
  report_obligations :: "obligation_evaluation list"
  report_quality :: "gate_quality_assessment_evaluation list"
  report_outcome :: gate_outcome
  armed :: bool

section \<open>Evidence and input of \<open>compute\<close>\<close>

record inferred_imports_not_judged =
  nj_count :: nat
  nj_files :: "string list"

record policy_measurement =
  pm_key :: string
  pm_value :: f64

datatype method_evidence =
    ArchViolations string "(string \<times> nat) list" bool "(string \<times> inferred_imports_not_judged) list"
  | CoverageThreshold string "policy_measurement list"
  | ComplexityThreshold string "policy_measurement list"
  | HotspotThreshold "string option" "policy_measurement list"
  | ModuleViolations nat nat "gate_not_judged_relation list"
  | TargetMissing
  | ThresholdMissing
  | UnsupportedMethod

type_synonym obligation_key = "string \<times> int \<times> string"

definition obligation_key :: "gate_requirement \<Rightarrow> gate_obligation \<Rightarrow> obligation_key" where
  "obligation_key req obl = (req_id req, req_version req, obligation_id obl)"

record gate_input =
  gi_requirements :: "gate_requirement list"
  gi_mode :: gate_mode
  gi_now :: string
  gi_evidence :: "obligation_key \<rightharpoonup> method_evidence"
  gi_waivers :: "obligation_key \<rightharpoonup> gate_waiver list"
  gi_quality_facts :: "gate_quality_assessment_fact list"

section \<open>Evaluation of one obligation\<close>

definition compare_values :: "f64 \<Rightarrow> string \<Rightarrow> f64 \<Rightarrow> bool" where
  "compare_values value op threshold =
     (if op = ''>='' then fle threshold value
      else if op = ''>'' then flt threshold value
      else if op = ''<='' then fle value threshold
      else if op = ''<'' then flt value threshold
      else if op = ''=='' then flt (fabs (fsub value threshold)) f64_epsilon
      else False)"

definition set_verdict :: "verdict \<Rightarrow> json \<Rightarrow> obligation_evaluation \<Rightarrow> obligation_evaluation" where
  "set_verdict v evidence ev =
     ev\<lparr>ev_computed := v, ev_effective := effective_from v, ev_evidence := evidence\<rparr>"

definition pass_or_fail :: "bool \<Rightarrow> verdict" where
  "pass_or_fail b = (if b then PASS else FAIL)"

definition reason_for_missing_params :: "string \<Rightarrow> string" where
  "reason_for_missing_params method =
     (if method = ''hotspot_threshold'' then ''threshold not specified''
      else ''target or threshold not specified'')"

definition not_judged_files :: "nat \<Rightarrow> string list \<Rightarrow> json" where
  "not_judged_files n files =
     JObject [(''count'', json_of_nat n), (''files'', JArray (map JString files))]"

text \<open>The \<open>BTreeSet\<close> of all cited files, in order.\<close>

definition distinct_files :: "(string \<times> inferred_imports_not_judged) list \<Rightarrow> string list" where
  "distinct_files inferred = sorted_list_of_set (set (concat (map (\<lambda>(_, n). nj_files n) inferred)))"

definition evaluate_arch_violations ::
  "(string \<times> nat) list \<Rightarrow> bool \<Rightarrow> (string \<times> inferred_imports_not_judged) list \<Rightarrow>
   obligation_evaluation \<Rightarrow> obligation_evaluation" where
  "evaluate_arch_violations per_boundary has_any inferred ev =
     (if \<not> has_any
      then set_verdict MISSING_EVIDENCE
        (JObject [(''reason'', JString ''no boundary declarations for target''),
                  (''inferred_imports_not_judged'', not_judged_files 0 [])]) ev
      else let total = sum_list (map snd per_boundary);
               not_judged = sum_list (map (\<lambda>(_, n). nj_count n) inferred)
           in set_verdict (pass_or_fail (total = 0))
                (json_set ''inferred_imports_not_judged'' (not_judged_files not_judged (distinct_files inferred))
                  (JObject [(''violation_count'', json_of_nat total)])) ev)"

definition evaluate_coverage_threshold ::
  "policy_measurement list \<Rightarrow> string \<Rightarrow> f64 \<Rightarrow> obligation_evaluation \<Rightarrow> obligation_evaluation" where
  "evaluate_coverage_threshold matching op threshold ev =
     (if matching = []
      then set_verdict MISSING_EVIDENCE
        (JObject [(''reason'', JString ''no coverage data for target path'')]) ev
      else let s = f64_sum (map pm_value matching);
               avg = fdiv s (f64_of_nat (length matching))
           in set_verdict (pass_or_fail (compare_values avg op threshold))
                (JObject [(''avg_coverage'', json_of_f64 (fdiv (fround (fmul avg (f64_of_nat 10000))) (f64_of_nat 10000))),
                          (''threshold'', json_of_f64 threshold), (''operator'', JString op),
                          (''files_measured'', json_of_nat (length matching))]) ev)"

definition max_value :: "policy_measurement list \<Rightarrow> f64" where
  "max_value matching = foldl fmax (Inf True) (map pm_value matching)"

definition evaluate_complexity_threshold ::
  "policy_measurement list \<Rightarrow> string \<Rightarrow> f64 \<Rightarrow> obligation_evaluation \<Rightarrow> obligation_evaluation" where
  "evaluate_complexity_threshold matching op threshold ev =
     (if matching = []
      then set_verdict MISSING_EVIDENCE
        (JObject [(''reason'', JString ''no complexity data for target path'')]) ev
      else let max_cc = max_value matching
           in set_verdict (pass_or_fail (compare_values max_cc op threshold))
                (JObject [(''max_complexity'', json_of_f64 max_cc), (''threshold'', json_of_f64 threshold),
                          (''operator'', JString op), (''functions_measured'', json_of_nat (length matching))]) ev)"

definition relation_json :: "gate_not_judged_relation \<Rightarrow> json" where
  "relation_json r = JObject [(''source'', JString (source_module r)), (''target'', JString (target_module r)),
     (''import_count'', json_of_nat (import_count r))]"

definition not_judged_relations :: "nat \<Rightarrow> json list \<Rightarrow> json" where
  "not_judged_relations n rels = JObject [(''count'', json_of_nat n), (''relations'', JArray rels)]"

definition evaluate_module_violations ::
  "nat \<Rightarrow> nat \<Rightarrow> gate_not_judged_relation list \<Rightarrow> obligation_evaluation \<Rightarrow> obligation_evaluation" where
  "evaluate_module_violations violations_count stale inferred ev =
     set_verdict (pass_or_fail (violations_count = 0))
       (json_set ''inferred_imports_not_judged''
          (not_judged_relations (sum_list (map import_count inferred)) (map relation_json inferred))
          (JObject [(''violations_count'', json_of_nat violations_count),
                    (''stale_declarations_count'', json_of_nat stale)])) ev"

definition evaluate_hotspot_threshold ::
  "policy_measurement list \<Rightarrow> string \<Rightarrow> f64 \<Rightarrow> bool \<Rightarrow> obligation_evaluation \<Rightarrow> obligation_evaluation" where
  "evaluate_hotspot_threshold matching op threshold has_target ev =
     (if matching = []
      then set_verdict MISSING_EVIDENCE
        (JObject [(''reason'', JString (if has_target then ''no hotspot data for target path'' else ''no hotspot data''))]) ev
      else let max_hs = max_value matching
           in set_verdict (pass_or_fail (compare_values max_hs op threshold))
                (JObject [(''max_hotspot_score'', json_of_f64 max_hs), (''threshold'', json_of_f64 threshold)]) ev)"

text \<open>\<open>obj.entry(key).or_insert(zero)\<close> on the evidence, for the two import-judging methods.\<close>

definition state_nothing_judged_when_absent :: "obligation_evaluation \<Rightarrow> obligation_evaluation" where
  "state_nothing_judged_when_absent ev =
     (let zero = (if ev_method ev = ''arch_violations'' then Some (not_judged_files 0 [])
                  else if ev_method ev = ''module_violations'' then Some (not_judged_relations 0 [])
                  else None)
      in case zero of
           None \<Rightarrow> ev
         | Some z \<Rightarrow>
             (case ev_evidence ev of
                JObject kvs \<Rightarrow>
                  (case map_of kvs ''inferred_imports_not_judged'' of
                     Some _ \<Rightarrow> ev
                   | None \<Rightarrow> ev\<lparr>ev_evidence := JObject (kvs @ [(''inferred_imports_not_judged'', z)])\<rparr>)
              | _ \<Rightarrow> ev))"

definition initial_evaluation :: "gate_requirement \<Rightarrow> gate_obligation \<Rightarrow> obligation_evaluation" where
  "initial_evaluation req obl = \<lparr>ev_req_id = req_id req, ev_req_version = req_version req,
     ev_obligation_id = obligation_id obl, ev_obligation = obligation_text obl, ev_method = obl_method obl,
     ev_target = obl_target obl, ev_threshold = obl_threshold obl, ev_operator = obl_operator obl,
     ev_computed = UNSUPPORTED, ev_effective = E_UNSUPPORTED, ev_evidence = JObject [],
     ev_waiver_basis = None\<rparr>"

definition unwrap_or :: "'a option \<Rightarrow> 'a \<Rightarrow> 'a" where
  "unwrap_or x d = (case x of Some v \<Rightarrow> v | None \<Rightarrow> d)"

definition dispatch_evidence ::
  "gate_obligation \<Rightarrow> method_evidence \<Rightarrow> obligation_evaluation \<Rightarrow> obligation_evaluation" where
  "dispatch_evidence obl evidence ev = (case evidence of
     TargetMissing \<Rightarrow> set_verdict MISSING_EVIDENCE
       (JObject [(''reason'', JString (reason_for_missing_params (obl_method obl)))]) ev
   | ThresholdMissing \<Rightarrow> set_verdict MISSING_EVIDENCE
       (JObject [(''reason'', JString (reason_for_missing_params (obl_method obl)))]) ev
   | UnsupportedMethod \<Rightarrow> set_verdict UNSUPPORTED
       (JObject [(''reason'', JString (''method \"'' @ obl_method obl @ ''\" not yet supported''))]) ev
   | ArchViolations _ per_boundary has_any inferred \<Rightarrow>
       evaluate_arch_violations per_boundary has_any inferred ev
   | CoverageThreshold _ matching \<Rightarrow>
       evaluate_coverage_threshold matching (unwrap_or (obl_operator obl) ''>='')
         (unwrap_or (obl_threshold obl) f64_zero) ev
   | ComplexityThreshold _ matching \<Rightarrow>
       evaluate_complexity_threshold matching (unwrap_or (obl_operator obl) ''<='')
         (unwrap_or (obl_threshold obl) f64_zero) ev
   | HotspotThreshold target matching \<Rightarrow>
       evaluate_hotspot_threshold matching (unwrap_or (obl_operator obl) ''<='')
         (unwrap_or (obl_threshold obl) f64_zero) (target \<noteq> None) ev
   | ModuleViolations violations_count stale inferred \<Rightarrow>
       evaluate_module_violations violations_count stale inferred ev)"

definition evaluate_obligation ::
  "gate_requirement \<Rightarrow> gate_obligation \<Rightarrow> method_evidence \<Rightarrow> obligation_evaluation" where
  "evaluate_obligation req obl evidence =
     state_nothing_judged_when_absent (dispatch_evidence obl evidence (initial_evaluation req obl))"

section \<open>Waivers and reduction\<close>

definition basis_of :: "gate_waiver \<Rightarrow> waiver_basis" where
  "basis_of w = \<lparr>wb_uid = waiver_uid w, wb_reason = waiver_reason w, wb_created_at = waiver_created_at w,
     wb_created_by = waiver_created_by w, wb_expires_at = waiver_expires_at w,
     wb_rationale_category = rationale_category w, wb_policy_basis = policy_basis w\<rparr>"

definition apply_waiver_overlay :: "gate_waiver list \<Rightarrow> obligation_evaluation \<Rightarrow> obligation_evaluation" where
  "apply_waiver_overlay waivers ev =
     (if ev_computed ev = PASS then ev
      else (case waivers of
              w # _ \<Rightarrow> ev\<lparr>ev_effective := E_WAIVED, ev_waiver_basis := Some (basis_of w)\<rparr>
            | [] \<Rightarrow> ev))"

definition count_eval :: "obligation_evaluation \<Rightarrow> gate_counts \<Rightarrow> gate_counts" where
  "count_eval ev c = (case ev_effective ev of
     E_PASS \<Rightarrow> c\<lparr>c_pass := c_pass c + 1\<rparr>
   | E_FAIL \<Rightarrow> c\<lparr>c_fail := c_fail c + 1\<rparr>
   | E_MISSING_EVIDENCE \<Rightarrow> c\<lparr>c_missing := c_missing c + 1\<rparr>
   | E_UNSUPPORTED \<Rightarrow> c\<lparr>c_unsupported := c_unsupported c + 1\<rparr>
   | E_WAIVED \<Rightarrow> c\<lparr>c_waived := c_waived c + 1\<rparr>)"

definition count_quality ::
  "gate_quality_assessment_fact \<Rightarrow> gate_quality_counts \<Rightarrow> gate_quality_counts" where
  "count_quality f c = (case gq_state f of
     State_Missing \<Rightarrow> c\<lparr>q_missing := q_missing c + 1\<rparr>
   | State_Present \<Rightarrow> (case gq_verdict f of
       Some GA_Pass \<Rightarrow> c\<lparr>q_pass := q_pass c + 1\<rparr>
     | Some GA_Fail \<Rightarrow> (case gq_severity f of
         G_Fail \<Rightarrow> c\<lparr>q_fail := q_fail c + 1\<rparr>
       | G_Advisory \<Rightarrow> c\<lparr>q_advisory_fail := q_advisory_fail c + 1\<rparr>)
     | Some GA_NotApplicable \<Rightarrow> c\<lparr>q_not_applicable := q_not_applicable c + 1\<rparr>
     | Some GA_NotComparable \<Rightarrow> c\<lparr>q_not_comparable := q_not_comparable c + 1\<rparr>
     | None \<Rightarrow> c\<lparr>q_missing := q_missing c + 1\<rparr>))"

definition reduce_outcome ::
  "obligation_evaluation list \<Rightarrow> gate_quality_assessment_fact list \<Rightarrow> gate_mode \<Rightarrow> gate_outcome" where
  "reduce_outcome evals facts mode =
     (let c = fold count_eval evals \<lparr>c_total = length evals, c_pass = 0, c_fail = 0, c_waived = 0,
                c_missing = 0, c_unsupported = 0\<rparr>;
          q = fold count_quality facts \<lparr>q_total = length facts, q_pass = 0, q_fail = 0, q_advisory_fail = 0,
                q_missing = 0, q_not_comparable = 0, q_not_applicable = 0\<rparr>;
          has_obl_fail = (0 < c_fail c);
          has_obl_incomplete = (0 < c_missing c \<or> 0 < c_unsupported c);
          has_quality_fail = (0 < q_fail q);
          has_quality_incomplete = (0 < q_missing q \<or> 0 < q_not_comparable q);
          (out, code) = (case mode of
             Default_Mode \<Rightarrow>
               (if has_obl_fail \<or> has_quality_fail then (''fail'', 1)
                else if has_obl_incomplete \<or> has_quality_incomplete then (''incomplete'', 2)
                else (''pass'', 0))
           | Strict_Mode \<Rightarrow>
               (if has_obl_fail \<or> has_obl_incomplete \<or> has_quality_fail \<or> has_quality_incomplete
                then (''fail'', 1) else (''pass'', 0))
           | Advisory_Mode \<Rightarrow>
               (if has_obl_fail \<or> has_quality_fail then (''fail'', 1) else (''pass'', 0)))
      in \<lparr>outcome_name = out, exit_code = code, mode_name = mode_as_str mode, counts = c, quality_counts = q\<rparr>)"

text \<open>The obligations in the order of the two nested loops.\<close>

definition obligation_pairs :: "gate_requirement list \<Rightarrow> (gate_requirement \<times> gate_obligation) list" where
  "obligation_pairs reqs = concat (map (\<lambda>req. map (\<lambda>obl. (req, obl)) (obligations req)) reqs)"

definition evaluate_pair :: "gate_input \<Rightarrow> gate_requirement \<times> gate_obligation \<Rightarrow> obligation_evaluation" where
  "evaluate_pair input ro = (case ro of (req, obl) \<Rightarrow>
     (let key = obligation_key req obl;
          evidence = unwrap_or (gi_evidence input key) UnsupportedMethod;
          waivers = unwrap_or (gi_waivers input key) []
      in apply_waiver_overlay waivers (evaluate_obligation req obl evidence)))"

definition compute :: "gate_input \<Rightarrow> gate_report" where
  "compute input =
     (let evaluations = map (evaluate_pair input) (obligation_pairs (gi_requirements input))
      in \<lparr>report_obligations = evaluations,
          report_quality = map quality_evaluation_from (gi_quality_facts input),
          report_outcome = reduce_outcome evaluations (gi_quality_facts input) (gi_mode input),
          armed = (gi_requirements input \<noteq> [] \<or> gi_quality_facts input \<noteq> [])\<rparr>)"

section \<open>Errors (\<open>errors.rs\<close>)\<close>

record gate_storage_error =
  se_operation :: string
  se_message :: string

definition fmt_storage_error :: "gate_storage_error \<Rightarrow> string" where
  "fmt_storage_error e = ''gate storage error in '' @ se_operation e @ '': '' @ se_message e"

datatype gate_error = Storage_Error gate_storage_error | MalformedEvidence string string

definition fmt_gate_error :: "gate_error \<Rightarrow> string" where
  "fmt_gate_error e = (case e of
     Storage_Error s \<Rightarrow> fmt_storage_error s
   | MalformedEvidence operation reason \<Rightarrow> ''malformed evidence in '' @ operation @ '': '' @ reason)"

end
