(* ===== verification/Gate_Correct.thy ===== *)
theory Gate_Correct
  imports Gate
begin

text \<open>
  What the gate's verdicts mean: waivers, the reduction to an exit code in each mode, the threshold
  methods, and a rounding effect of the coverage average.
\<close>

section \<open>Evaluation\<close>

lemma set_verdict_sel [simp]:
  "ev_computed (set_verdict v j ev) = v" "ev_effective (set_verdict v j ev) = effective_from v"
  "ev_evidence (set_verdict v j ev) = j" "ev_waiver_basis (set_verdict v j ev) = ev_waiver_basis ev"
  "ev_method (set_verdict v j ev) = ev_method ev"
  by (simp_all add: set_verdict_def)

lemmas evaluator_defs = evaluate_arch_violations_def evaluate_coverage_threshold_def
  evaluate_complexity_threshold_def evaluate_hotspot_threshold_def evaluate_module_violations_def

text \<open>Before the overlay an evaluation is consistent: effective is computed, and no waiver is named.\<close>

definition consistent :: "obligation_evaluation \<Rightarrow> bool" where
  "consistent ev \<longleftrightarrow> ev_effective ev = effective_from (ev_computed ev) \<and> ev_waiver_basis ev = None"

lemma dispatch_consistent:
  "ev_waiver_basis ev = None \<Longrightarrow> consistent (dispatch_evidence obl evidence ev)"
  by (cases evidence) (simp_all add: dispatch_evidence_def evaluator_defs consistent_def Let_def)

lemma state_nothing_judged_sel [simp]:
  "ev_computed (state_nothing_judged_when_absent ev) = ev_computed ev"
  "ev_effective (state_nothing_judged_when_absent ev) = ev_effective ev"
  "ev_waiver_basis (state_nothing_judged_when_absent ev) = ev_waiver_basis ev"
  "ev_method (state_nothing_judged_when_absent ev) = ev_method ev"
  by (simp_all add: state_nothing_judged_when_absent_def Let_def split: option.splits json.splits)

lemma evaluate_obligation_consistent: "consistent (evaluate_obligation req obl evidence)"
proof -
  have "ev_waiver_basis (initial_evaluation req obl) = None"
    by (simp add: initial_evaluation_def)
  from dispatch_consistent [OF this, of obl evidence] show ?thesis
    by (simp add: evaluate_obligation_def consistent_def)
qed

lemma dispatch_method: "ev_method (dispatch_evidence obl evidence ev) = ev_method ev"
  by (cases evidence) (simp_all add: dispatch_evidence_def evaluator_defs Let_def)

lemma dispatch_object: "\<exists>kvs. ev_evidence (dispatch_evidence obl evidence ev) = JObject kvs"
  by (cases evidence) (simp_all add: dispatch_evidence_def evaluator_defs Let_def json_set_def)

lemma effective_from_not_waived [simp]: "effective_from v \<noteq> E_WAIVED"
  by (cases v) (simp_all add: effective_from_def)

section \<open>Counting\<close>

abbreviation zero_counts :: "nat \<Rightarrow> gate_counts" where
  "zero_counts n \<equiv> \<lparr>c_total = n, c_pass = 0, c_fail = 0, c_waived = 0, c_missing = 0, c_unsupported = 0\<rparr>"

abbreviation zero_quality :: "nat \<Rightarrow> gate_quality_counts" where
  "zero_quality n \<equiv> \<lparr>q_total = n, q_pass = 0, q_fail = 0, q_advisory_fail = 0, q_missing = 0,
     q_not_comparable = 0, q_not_applicable = 0\<rparr>"

definition sum_counts :: "gate_counts \<Rightarrow> nat" where
  "sum_counts c = c_pass c + c_fail c + c_waived c + c_missing c + c_unsupported c"

definition sum_quality :: "gate_quality_counts \<Rightarrow> nat" where
  "sum_quality c = q_pass c + q_fail c + q_advisory_fail c + q_missing c + q_not_comparable c + q_not_applicable c"

lemma fold_count_eval:
  "c_total (fold count_eval evs c) = c_total c"
  "sum_counts (fold count_eval evs c) = sum_counts c + length evs"
  "c_fail (fold count_eval evs c) = c_fail c + length (filter (\<lambda>ev. ev_effective ev = E_FAIL) evs)"
  "c_missing (fold count_eval evs c) = c_missing c + length (filter (\<lambda>ev. ev_effective ev = E_MISSING_EVIDENCE) evs)"
  "c_unsupported (fold count_eval evs c) = c_unsupported c + length (filter (\<lambda>ev. ev_effective ev = E_UNSUPPORTED) evs)"
  by (induction evs arbitrary: c) (auto simp: count_eval_def sum_counts_def split: effective_verdict.splits)

text \<open>The facts that block, and those that leave the gate incomplete.\<close>

definition blocking_fact :: "gate_quality_assessment_fact \<Rightarrow> bool" where
  "blocking_fact f \<longleftrightarrow> gq_state f = State_Present \<and> gq_verdict f = Some GA_Fail \<and> gq_severity f = G_Fail"

definition missing_fact :: "gate_quality_assessment_fact \<Rightarrow> bool" where
  "missing_fact f \<longleftrightarrow> gq_state f = State_Missing \<or> gq_verdict f = None"

definition not_comparable_fact :: "gate_quality_assessment_fact \<Rightarrow> bool" where
  "not_comparable_fact f \<longleftrightarrow> gq_state f = State_Present \<and> gq_verdict f = Some GA_NotComparable"

lemma count_quality_step:
  "q_total (count_quality f c) = q_total c"
  "sum_quality (count_quality f c) = Suc (sum_quality c)"
  "q_fail (count_quality f c) = q_fail c + of_bool (blocking_fact f)"
  "q_missing (count_quality f c) = q_missing c + of_bool (missing_fact f)"
  "q_not_comparable (count_quality f c) = q_not_comparable c + of_bool (not_comparable_fact f)"
  by (auto simp: count_quality_def sum_quality_def blocking_fact_def missing_fact_def not_comparable_fact_def
      split: gate_assessment_state.splits option.splits gate_assessment_verdict.splits
        gate_quality_policy_severity.splits)

lemma fold_count_quality:
  "q_total (fold count_quality fs c) = q_total c"
  "sum_quality (fold count_quality fs c) = sum_quality c + length fs"
  "q_fail (fold count_quality fs c) = q_fail c + length (filter blocking_fact fs)"
  "q_missing (fold count_quality fs c) = q_missing c + length (filter missing_fact fs)"
  "q_not_comparable (fold count_quality fs c) = q_not_comparable c + length (filter not_comparable_fact fs)"
  by (induction fs arbitrary: c) (auto simp: count_quality_step)

definition has_failure :: "obligation_evaluation list \<Rightarrow> gate_quality_assessment_fact list \<Rightarrow> bool" where
  "has_failure evs fs \<longleftrightarrow> (\<exists>ev \<in> set evs. ev_effective ev = E_FAIL) \<or> (\<exists>f \<in> set fs. blocking_fact f)"

definition has_gap :: "obligation_evaluation list \<Rightarrow> gate_quality_assessment_fact list \<Rightarrow> bool" where
  "has_gap evs fs \<longleftrightarrow> (\<exists>ev \<in> set evs. ev_effective ev \<in> {E_MISSING_EVIDENCE, E_UNSUPPORTED}) \<or>
     (\<exists>f \<in> set fs. missing_fact f \<or> not_comparable_fact f)"

definition reference_exit :: "gate_mode \<Rightarrow> bool \<Rightarrow> bool \<Rightarrow> int" where
  "reference_exit mode failure gap = (case mode of
     Default_Mode \<Rightarrow> (if failure then 1 else if gap then 2 else 0)
   | Strict_Mode \<Rightarrow> (if failure \<or> gap then 1 else 0)
   | Advisory_Mode \<Rightarrow> (if failure then 1 else 0))"

lemma filter_pos_iff: "0 < length (filter P xs) \<longleftrightarrow> (\<exists>x \<in> set xs. P x)"
  by (induction xs) auto

lemma reduce_exit: "exit_code (reduce_outcome evs fs mode) = reference_exit mode (has_failure evs fs) (has_gap evs fs)"
proof -
  have fail: "has_failure evs fs \<longleftrightarrow> 0 < c_fail (fold count_eval evs (zero_counts (length evs)))
      \<or> 0 < q_fail (fold count_quality fs (zero_quality (length fs)))"
    by (simp add: has_failure_def fold_count_eval fold_count_quality filter_pos_iff flip: length_greater_0_conv)
  have gap: "has_gap evs fs \<longleftrightarrow> (0 < c_missing (fold count_eval evs (zero_counts (length evs)))
      \<or> 0 < c_unsupported (fold count_eval evs (zero_counts (length evs))))
      \<or> (0 < q_missing (fold count_quality fs (zero_quality (length fs)))
      \<or> 0 < q_not_comparable (fold count_quality fs (zero_quality (length fs))))"
    by (auto simp: has_gap_def fold_count_eval fold_count_quality filter_pos_iff simp flip: length_greater_0_conv)
  show ?thesis
    unfolding fail gap
    by (cases mode) (auto simp: reduce_outcome_def reference_exit_def Let_def)
qed

lemma reduce_counts:
  "c_total (counts (reduce_outcome evs fs mode)) = length evs"
  "sum_counts (counts (reduce_outcome evs fs mode)) = length evs"
  "q_total (quality_counts (reduce_outcome evs fs mode)) = length fs"
  "sum_quality (quality_counts (reduce_outcome evs fs mode)) = length fs"
  by (simp_all add: reduce_outcome_def Let_def split_beta fold_count_eval fold_count_quality)
    (simp_all add: sum_counts_def sum_quality_def)

section \<open>Properties\<close>

text \<open>
  C18. Waivers only excuse. The computed verdict of an obligation does not depend on the waivers;
  its effective verdict is \<open>WAIVED\<close> exactly if the computed one is not \<open>PASS\<close> and some waiver
  matches, and is the computed one otherwise; the waiver basis is present exactly if the effective
  verdict is \<open>WAIVED\<close>, and then it is the first matching waiver's.
\<close>

theorem waivers_only_excuse:
  fixes input req obl
  defines "ev \<equiv> evaluate_pair input (req, obl)"
    and "ws \<equiv> unwrap_or (gi_waivers input (obligation_key req obl)) []"
    and "base \<equiv> evaluate_obligation req obl (unwrap_or (gi_evidence input (obligation_key req obl)) UnsupportedMethod)"
  shows "ev_computed ev = ev_computed base \<and>
    (ev_effective ev = E_WAIVED \<longleftrightarrow> ev_computed ev \<noteq> PASS \<and> ws \<noteq> []) \<and>
    (ev_effective ev = E_WAIVED \<or> ev_effective ev = effective_from (ev_computed ev)) \<and>
    ev_waiver_basis ev = (if ev_effective ev = E_WAIVED then Some (basis_of (hd ws)) else None)"
proof -
  have "ev = apply_waiver_overlay ws base"
    by (simp add: ev_def ws_def base_def evaluate_pair_def Let_def)
  then show ?thesis
    using evaluate_obligation_consistent [of req obl "unwrap_or (gi_evidence input (obligation_key req obl)) UnsupportedMethod"]
    by (cases ws) (auto simp: apply_waiver_overlay_def consistent_def base_def)
qed

text \<open>
  The exit code is the mode's: a failure is a \<open>FAIL\<close> obligation or a failed blocking policy, a
  gap is a missing or unsupported obligation or a missing or not comparable assessment; the default
  mode exits 1 on a failure and else 2 on a gap, strict exits 1 on either, advisory 1 on a failure
  only. Waived obligations and advisory policies never block. Every obligation and every policy is
  counted under exactly one heading.
\<close>

theorem gate_exit_code:
  fixes input
  defines "r \<equiv> compute input"
  shows "exit_code (report_outcome r) = reference_exit (gi_mode input)
      (has_failure (report_obligations r) (gi_quality_facts input))
      (has_gap (report_obligations r) (gi_quality_facts input)) \<and>
    sum_counts (counts (report_outcome r)) = length (obligation_pairs (gi_requirements input)) \<and>
    c_total (counts (report_outcome r)) = length (obligation_pairs (gi_requirements input)) \<and>
    sum_quality (quality_counts (report_outcome r)) = length (gi_quality_facts input) \<and>
    q_total (quality_counts (report_outcome r)) = length (gi_quality_facts input)"
  by (simp add: r_def compute_def Let_def reduce_exit reduce_counts)

text \<open>
  The modes are ordered: whatever passes strict passes the default mode, whatever passes the
  default mode passes advisory, and the default and advisory modes exit 1 on the same inputs.
\<close>

theorem gate_modes_ordered:
  fixes input
  defines "code \<equiv> \<lambda>m. exit_code (report_outcome (compute (input\<lparr>gi_mode := m\<rparr>)))"
  shows "(code Strict_Mode = 0 \<longleftrightarrow> code Default_Mode = 0) \<and>
    (code Default_Mode = 1 \<longleftrightarrow> code Advisory_Mode = 1) \<and>
    (code Advisory_Mode \<noteq> 0 \<longrightarrow> code Default_Mode \<noteq> 0) \<and>
    (code Default_Mode = 2 \<longleftrightarrow> code Strict_Mode = 1 \<and> code Advisory_Mode = 0)"
proof -
  have same: "map (evaluate_pair (input\<lparr>gi_mode := m\<rparr>)) xs = map (evaluate_pair input) xs" for m xs
    by (simp add: evaluate_pair_def)
  show ?thesis
    by (simp add: code_def compute_def Let_def reduce_exit same reference_exit_def)
qed

theorem gate_modes_ordered_witness:
  "exit_code (report_outcome (compute (\<lparr>gi_requirements = [], gi_mode = Default_Mode, gi_now = '''',
     gi_evidence = Map.empty, gi_waivers = Map.empty, gi_quality_facts =
       [\<lparr>gq_policy_uid = ''u'', gq_policy_id = ''QP-1'', gq_policy_version = 1, gq_policy_kind = G_AbsoluteMax,
         gq_severity = G_Fail, gq_state = State_Present, gq_verdict = Some GA_Fail, gq_baseline_uid = None,
         gq_evaluated = None, gq_violations = None\<rparr>]\<rparr>\<lparr>gi_mode := Default_Mode\<rparr>))) \<noteq> 0"
  using gate_modes_ordered [of "\<lparr>gi_requirements = [], gi_mode = Default_Mode, gi_now = '''',
     gi_evidence = Map.empty, gi_waivers = Map.empty, gi_quality_facts =
       [\<lparr>gq_policy_uid = ''u'', gq_policy_id = ''QP-1'', gq_policy_version = 1, gq_policy_kind = G_AbsoluteMax,
         gq_severity = G_Fail, gq_state = State_Present, gq_verdict = Some GA_Fail, gq_baseline_uid = None,
         gq_evaluated = None, gq_violations = None\<rparr>]\<rparr>"]
  by (simp add: compute_def obligation_pairs_def reduce_outcome_def count_quality_def)

text \<open>
  A complexity or hotspot obligation with the default operator passes exactly if every
  matching value is at most the threshold (values from JSON are never NaN); with no matching
  value it is \<open>MISSING_EVIDENCE\<close>.
\<close>

theorem max_threshold_verdict:
  assumes "\<forall>m \<in> set ms. pm_value m \<noteq> NaN" and "t \<noteq> NaN"
  shows "ev_computed (evaluate_complexity_threshold ms ''<='' t ev) =
      (if ms = [] then MISSING_EVIDENCE
       else if \<forall>m \<in> set ms. fle (pm_value m) t then PASS else FAIL) \<and>
    ev_computed (evaluate_hotspot_threshold ms ''<='' t target ev) =
      (if ms = [] then MISSING_EVIDENCE
       else if \<forall>m \<in> set ms. fle (pm_value m) t then PASS else FAIL)"
proof -
  have "fle (max_value ms) t \<longleftrightarrow> (\<forall>m \<in> set ms. fle (pm_value m) t)"
    using assms fold_fmax_le_iff [of "Inf True" t "map pm_value ms"] neg_inf_least [of t]
    by (auto simp: max_value_def)
  then show ?thesis
    by (simp add: evaluate_complexity_threshold_def evaluate_hotspot_threshold_def Let_def
        compare_values_def pass_or_fail_def)
qed

theorem max_threshold_verdict_witness:
  "ev_computed (evaluate_complexity_threshold [\<lparr>pm_key = ''f'', pm_value = Fin False 3\<rparr>] ''<='' (Fin False 5)
     (initial_evaluation undefined undefined)) = PASS"
  using max_threshold_verdict [of "[\<lparr>pm_key = ''f'', pm_value = Fin False 3\<rparr>]" "Fin False 5"
      "initial_evaluation undefined undefined"]
  by (simp add: signed_def)

text \<open>
  Every evaluation of an import-judging method states what was not judged: its evidence is an
  object with the key \<open>inferred_imports_not_judged\<close>, also where target or declarations are missing.
\<close>

theorem not_judged_always_stated:
  assumes "obl_method obl \<in> {''arch_violations'', ''module_violations''}"
  shows "\<exists>kvs v. ev_evidence (evaluate_obligation req obl evidence) = JObject kvs \<and>
    map_of kvs ''inferred_imports_not_judged'' = Some v"
proof -
  let ?ev = "dispatch_evidence obl evidence (initial_evaluation req obl)"
  obtain kvs where kvs: "ev_evidence ?ev = JObject kvs"
    using dispatch_object by blast
  have m: "ev_method ?ev = obl_method obl"
    by (simp add: dispatch_method) (simp add: initial_evaluation_def)
  show ?thesis
  proof (cases "map_of kvs ''inferred_imports_not_judged''")
    case None
    with assms kvs m show ?thesis
      by (auto simp: evaluate_obligation_def state_nothing_judged_when_absent_def Let_def map_add_def)
  next
    case (Some v)
    with assms kvs m show ?thesis
      by (auto simp: evaluate_obligation_def state_nothing_judged_when_absent_def Let_def)
  qed
qed

theorem not_judged_always_stated_witness:
  "\<exists>kvs v. ev_evidence (evaluate_obligation \<lparr>req_id = ''R'', req_version = 1, obligations = []\<rparr>
     \<lparr>obligation_id = ''o'', obligation_text = '''', obl_method = ''arch_violations'', obl_target = None,
      obl_threshold = None, obl_operator = None\<rparr> TargetMissing) = JObject kvs \<and>
    map_of kvs ''inferred_imports_not_judged'' = Some v"
  by (rule not_judged_always_stated) simp

section \<open>Rounding in the coverage average\<close>

text \<open>The double nearest to 0.7, and the average the code computes for three files with it.\<close>

definition seven_tenths :: f64 where
  "seven_tenths = f64_lit 6305039478318694 53"

lemma sum_one: "fadd (Fin True 0) seven_tenths = seven_tenths"
  by (simp add: seven_tenths_def f64_lit_def signed_def Let_def max_magnitude_def
      round_ratio [where a = 6305039478318694 and b = 1 and e = 1021])

lemma sum_two: "fadd seven_tenths seven_tenths = f64_lit 6305039478318694 52"
  by (simp add: seven_tenths_def f64_lit_def signed_def Let_def max_magnitude_def
      round_ratio [where a = 6305039478318694 and b = 1 and e = 1022])

lemma sum_three: "fadd (f64_lit 6305039478318694 52) seven_tenths = f64_lit 4728779608739020 51"
  by (simp add: seven_tenths_def f64_lit_def signed_def Let_def max_magnitude_def
      round_ratio [where a = 18915118434956082 and b = 4 and e = 1023])

lemma three_as_f64: "f64_of_nat 3 = f64_lit 6755399441055744 51"
  by (simp add: f64_of_nat_def f64_lit_def unit_scale_def Let_def max_magnitude_def
      round_ratio [where a = 6755399441055744 and b = 1 and e = 1023])

lemma average_of_three: "fdiv (f64_lit 4728779608739020 51) (f64_lit 6755399441055744 51) = f64_lit 6305039478318693 53"
  by (simp add: f64_lit_def unit_scale_def Let_def max_magnitude_def
      round_ratio [where a = "4728779608739020 * 4" and b = 3 and e = 1021])

lemma ten_thousand_as_f64: "f64_of_nat 10000 = f64_lit 5497558138880000 39"
  by (simp add: f64_of_nat_def f64_lit_def unit_scale_def Let_def max_magnitude_def
      round_ratio [where a = 5497558138880000 and b = 1 and e = 1035])

lemma scaled_average: "fmul (f64_lit 6305039478318693 53) (f64_lit 5497558138880000 39) = f64_lit 7696581394431998 40"
  by (simp add: f64_lit_def unit_scale_def Let_def max_magnitude_def
      round_ratio [where a = "6305039478318693 * 5497558138880000" and b = "2 ^ 52" and e = 1034])

lemma rounded_average: "fround (f64_lit 7696581394431998 40) = f64_lit 7000 0"
proof -
  let ?m = "7696581394431998 * 2 ^ (1074 - 40) :: int"
  have "7000 \<le> (2 * ?m + unit_scale) div (2 * unit_scale)"
    by (subst int_le_div_iff) (simp_all add: unit_scale_def)
  moreover have "(2 * ?m + unit_scale) div (2 * unit_scale) < 7001"
    by (subst int_div_less_iff) (simp_all add: unit_scale_def)
  ultimately have "(2 * ?m + unit_scale) div (2 * unit_scale) = 7000"
    by linarith
  then show ?thesis
    by (simp add: f64_lit_def unit_scale_def del: power_numeral)
qed

lemma reported_average: "fdiv (f64_lit 7000 0) (f64_lit 5497558138880000 39) = seven_tenths"
  by (simp add: seven_tenths_def f64_lit_def unit_scale_def Let_def max_magnitude_def
      round_ratio [where a = "7 * 2 ^ 53" and b = 10 and e = 1021])

lemma computed_average:
  "fdiv (f64_sum [seven_tenths, seven_tenths, seven_tenths]) (f64_of_nat 3) = f64_lit 6305039478318693 53"
  by (simp add: f64_sum_def sum_one sum_two sum_three three_as_f64 average_of_three)

text \<open>
  The coverage average can miss a threshold that every file meets: three files measured at
  0.7 against a threshold of 0.7 fail, because the sum is rounded before the division, and the
  evidence of the failure reports an average of 0.7.
\<close>

theorem coverage_average_rounds_down:
  fixes ev
  defines "ms \<equiv> [\<lparr>pm_key = ''r:src/a.ts'', pm_value = seven_tenths\<rparr>, \<lparr>pm_key = ''r:src/b.ts'', pm_value = seven_tenths\<rparr>,
    \<lparr>pm_key = ''r:src/c.ts'', pm_value = seven_tenths\<rparr>]"
    and "res \<equiv> evaluate_coverage_threshold
      [\<lparr>pm_key = ''r:src/a.ts'', pm_value = seven_tenths\<rparr>, \<lparr>pm_key = ''r:src/b.ts'', pm_value = seven_tenths\<rparr>,
       \<lparr>pm_key = ''r:src/c.ts'', pm_value = seven_tenths\<rparr>] ''>='' seven_tenths ev"
  shows "list_all (\<lambda>m. fle seven_tenths (pm_value m)) ms \<and>
    ev_computed res = FAIL \<and> json_get (ev_evidence res) ''avg_coverage'' = JFloat seven_tenths"
proof -
  have len: "f64_of_nat (Suc (Suc (Suc 0))) = f64_of_nat 3"
    by (simp add: numeral_3_eq_3)
  have refl: "fle seven_tenths seven_tenths" and fin: "is_finite seven_tenths"
    by (simp_all add: seven_tenths_def f64_lit_def is_finite_def)
  have less: "\<not> fle seven_tenths (f64_lit 6305039478318693 53)"
    by (simp add: seven_tenths_def f64_lit_def signed_def)
  show ?thesis
    using refl fin less
    by (simp add: ms_def res_def evaluate_coverage_threshold_def Let_def len computed_average
        ten_thousand_as_f64 scaled_average rounded_average reported_average compare_values_def
        pass_or_fail_def json_get_def json_of_f64_def)
qed

end
