(* ===== verification/Gate_Assemble.thy ===== *)
theory Gate_Assemble
  imports Gate_Correct
begin

text \<open>
  The storage-backed assembly of the gate (\<open>gate/src/assemble.rs\<close>) over the read port
  \<open>GateStorageRead\<close> (\<open>storage_port.rs\<close>). The port's implementation and the JSON parser are
  parameters: a record of functions, each returning a storage error or its rows, and
  \<open>from_str\<close>, which returns a message or a value. Reads are pure: within one run the port answers
  equal calls equally.
\<close>

section \<open>The port\<close>

record gate_storage_read =
  get_active_requirements :: "string \<Rightarrow> gate_storage_error + gate_requirement list"
  get_boundary_declarations :: "string \<Rightarrow> gate_storage_error + gate_boundary_declaration list"
  find_boundary_imports :: "string \<Rightarrow> string \<Rightarrow> string \<Rightarrow> gate_storage_error + gate_import_edge list"
  find_inferred_boundary_imports :: "string \<Rightarrow> string \<Rightarrow> string \<Rightarrow> gate_storage_error + gate_import_edge list"
  get_coverage_measurements :: "string \<Rightarrow> gate_storage_error + gate_measurement list"
  get_complexity_measurements :: "string \<Rightarrow> gate_storage_error + gate_measurement list"
  get_hotspot_inferences :: "string \<Rightarrow> gate_storage_error + gate_inference list"
  find_waivers :: "string \<Rightarrow> string \<Rightarrow> int \<Rightarrow> string \<Rightarrow> string \<Rightarrow> gate_storage_error + gate_waiver list"
  port_module_violations :: "string \<Rightarrow> string \<Rightarrow> gate_storage_error + gate_module_violation_evidence"
  get_quality_assessment_facts_for_gate ::
    "string \<Rightarrow> string \<Rightarrow> gate_storage_error + gate_quality_assessment_fact list"

type_synonym json_parser = "string \<Rightarrow> string + json"

text \<open>The conversion of a storage error by the question-mark operator.\<close>

fun from_storage :: "gate_storage_error + 'a \<Rightarrow> gate_error + 'a" where
  "from_storage (Inl e) = Inl (Storage_Error e)"
| "from_storage (Inr x) = Inr x"

section \<open>Parsing of rows\<close>

datatype measurement_row_kind = Coverage_Row | Complexity_Row

definition row_noun :: "measurement_row_kind \<Rightarrow> string" where
  "row_noun k = (case k of Coverage_Row \<Rightarrow> ''coverage measurement'' | Complexity_Row \<Rightarrow> ''complexity measurement'')"

definition row_operation :: "measurement_row_kind \<Rightarrow> string" where
  "row_operation k = (case k of Coverage_Row \<Rightarrow> ''coverage_threshold'' | Complexity_Row \<Rightarrow> ''complexity_threshold'')"

text \<open>\<open>Value::as_f64\<close>\<close>

definition json_as_f64 :: "json \<Rightarrow> f64 option" where
  "json_as_f64 v = (case v of
     JInt i \<Rightarrow> Some (if i < 0 then fneg (f64_of_nat (nat (- i))) else f64_of_nat (nat i))
   | JFloat x \<Rightarrow> Some x
   | _ \<Rightarrow> None)"

fun parse_measurements ::
  "json_parser \<Rightarrow> measurement_row_kind \<Rightarrow> gate_measurement list \<Rightarrow> gate_error + policy_measurement list" where
  "parse_measurements from_str kind [] = Inr []"
| "parse_measurements from_str kind (row # rows) = (case from_str (gm_value_json row) of
     Inl e \<Rightarrow> Inl (MalformedEvidence (row_operation kind)
       (''malformed '' @ row_noun kind @ '' for '' @ gm_key row @ '': '' @ e))
   | Inr parsed \<Rightarrow> (case json_as_f64 (json_get parsed ''value'') of
       None \<Rightarrow> Inl (MalformedEvidence (row_operation kind)
         (row_noun kind @ '' for '' @ gm_key row @ '' missing numeric \"value\" field''))
     | Some v \<Rightarrow> bind_result (parse_measurements from_str kind rows)
         (\<lambda>out. Inr (\<lparr>pm_key = gm_key row, pm_value = v\<rparr> # out))))"

fun parse_inferences :: "json_parser \<Rightarrow> gate_inference list \<Rightarrow> gate_error + policy_measurement list" where
  "parse_inferences from_str [] = Inr []"
| "parse_inferences from_str (row # rows) = (case from_str (gi_value_json row) of
     Inl e \<Rightarrow> Inl (MalformedEvidence ''hotspot_threshold''
       (''malformed hotspot inference for '' @ gi_key row @ '': '' @ e))
   | Inr parsed \<Rightarrow> (case json_as_f64 (json_get parsed ''normalized_score'') of
       None \<Rightarrow> Inl (MalformedEvidence ''hotspot_threshold''
         (''hotspot inference for '' @ gi_key row @ '' missing numeric \"normalized_score\" field''))
     | Some v \<Rightarrow> bind_result (parse_inferences from_str rows)
         (\<lambda>out. Inr (\<lparr>pm_key = gi_key row, pm_value = v\<rparr> # out))))"

section \<open>Evidence of one obligation\<close>

record gate_caches =
  cached_boundaries :: "gate_boundary_declaration list option"
  cached_coverage :: "gate_measurement list option"
  cached_complexity :: "gate_measurement list option"
  cached_hotspots :: "gate_inference list option"

definition no_caches :: gate_caches where
  "no_caches = \<lparr>cached_boundaries = None, cached_coverage = None, cached_complexity = None, cached_hotspots = None\<rparr>"

text \<open>The match on a cache: its rows, or a read whose result is then cached.\<close>

definition cached_read ::
  "'a option \<Rightarrow> (gate_storage_error + 'a) \<Rightarrow> ('a option \<Rightarrow> gate_caches) \<Rightarrow> gate_caches \<Rightarrow>
   gate_error + 'a \<times> gate_caches" where
  "cached_read cache load store caches = (case cache of
     Some rows \<Rightarrow> Inr (rows, caches)
   | None \<Rightarrow> bind_result (from_storage load) (\<lambda>loaded. Inr (loaded, store (Some loaded))))"

fun boundary_counts ::
  "gate_storage_read \<Rightarrow> string \<Rightarrow> string \<Rightarrow> gate_boundary_declaration list \<Rightarrow>
   gate_error + (string \<times> nat) list \<times> (string \<times> inferred_imports_not_judged) list" where
  "boundary_counts storage snapshot target [] = Inr ([], [])"
| "boundary_counts storage snapshot target (b # bs) =
     bind_result (from_storage (find_boundary_imports storage snapshot target (forbids b))) (\<lambda>edges.
     bind_result (from_storage (find_inferred_boundary_imports storage snapshot target (forbids b))) (\<lambda>inferred.
     bind_result (boundary_counts storage snapshot target bs) (\<lambda>(cs, is).
       Inr ((forbids b, length edges) # cs,
            (forbids b, \<lparr>nj_count = length inferred,
               nj_files = sorted_list_of_set (set (map source_file inferred))\<rparr>) # is))))"

definition arch_evidence ::
  "gate_storage_read \<Rightarrow> string \<Rightarrow> string \<Rightarrow> gate_boundary_declaration list \<Rightarrow> gate_error + method_evidence" where
  "arch_evidence storage snapshot target boundaries =
     (let for_target = filter (\<lambda>b. boundary_module b = target) boundaries in
      if for_target = [] then Inr (ArchViolations target [] False [])
      else bind_result (boundary_counts storage snapshot target for_target)
             (\<lambda>(cs, is). Inr (ArchViolations target cs True is)))"

definition key_prefix :: "string \<Rightarrow> string \<Rightarrow> string" where
  "key_prefix repo target = repo @ '':'' @ target @ ''/''"

text \<open>The arms of the match on the obligation's method.\<close>

definition fetch_arch ::
  "gate_storage_read \<Rightarrow> string \<Rightarrow> string \<Rightarrow> gate_obligation \<Rightarrow> gate_caches \<Rightarrow> gate_error + method_evidence \<times> gate_caches" where
  "fetch_arch storage repo snapshot obl caches = (case obl_target obl of
     None \<Rightarrow> Inr (TargetMissing, caches)
   | Some target \<Rightarrow>
       bind_result (cached_read (cached_boundaries caches) (get_boundary_declarations storage repo)
         (\<lambda>c. caches\<lparr>cached_boundaries := c\<rparr>) caches) (\<lambda>(boundaries, caches').
       bind_result (arch_evidence storage snapshot target boundaries) (\<lambda>ev. Inr (ev, caches'))))"

definition fetch_coverage ::
  "json_parser \<Rightarrow> gate_storage_read \<Rightarrow> string \<Rightarrow> string \<Rightarrow> gate_obligation \<Rightarrow> gate_caches \<Rightarrow>
   gate_error + method_evidence \<times> gate_caches" where
  "fetch_coverage from_str storage repo snapshot obl caches = (case obl_target obl of
     None \<Rightarrow> Inr (TargetMissing, caches)
   | Some target \<Rightarrow>
       (if obl_threshold obl = None then Inr (ThresholdMissing, caches)
        else bind_result (cached_read (cached_coverage caches) (get_coverage_measurements storage snapshot)
               (\<lambda>c. caches\<lparr>cached_coverage := c\<rparr>) caches) (\<lambda>(rows, caches').
             bind_result (parse_measurements from_str Coverage_Row
               (filter (\<lambda>r. starts_with (gm_key r) (key_prefix repo target)) rows))
               (\<lambda>ms. Inr (CoverageThreshold target ms, caches')))))"

definition fetch_complexity ::
  "json_parser \<Rightarrow> gate_storage_read \<Rightarrow> string \<Rightarrow> string \<Rightarrow> gate_obligation \<Rightarrow> gate_caches \<Rightarrow>
   gate_error + method_evidence \<times> gate_caches" where
  "fetch_complexity from_str storage repo snapshot obl caches = (case obl_target obl of
     None \<Rightarrow> Inr (TargetMissing, caches)
   | Some target \<Rightarrow>
       (if obl_threshold obl = None then Inr (ThresholdMissing, caches)
        else bind_result (cached_read (cached_complexity caches) (get_complexity_measurements storage snapshot)
               (\<lambda>c. caches\<lparr>cached_complexity := c\<rparr>) caches) (\<lambda>(rows, caches').
             bind_result (parse_measurements from_str Complexity_Row
               (filter (\<lambda>r. starts_with (gm_key r) (key_prefix repo target)) rows))
               (\<lambda>ms. Inr (ComplexityThreshold target ms, caches')))))"

definition fetch_hotspot ::
  "json_parser \<Rightarrow> gate_storage_read \<Rightarrow> string \<Rightarrow> string \<Rightarrow> gate_obligation \<Rightarrow> gate_caches \<Rightarrow>
   gate_error + method_evidence \<times> gate_caches" where
  "fetch_hotspot from_str storage repo snapshot obl caches =
     (if obl_threshold obl = None then Inr (ThresholdMissing, caches)
      else bind_result (cached_read (cached_hotspots caches) (get_hotspot_inferences storage snapshot)
             (\<lambda>c. caches\<lparr>cached_hotspots := c\<rparr>) caches) (\<lambda>(rows, caches').
           bind_result (parse_inferences from_str (case obl_target obl of
               Some target \<Rightarrow> filter (\<lambda>r. starts_with (gi_key r) (key_prefix repo target)) rows
             | None \<Rightarrow> rows))
             (\<lambda>ms. Inr (HotspotThreshold (obl_target obl) ms, caches'))))"

definition fetch_module ::
  "gate_storage_read \<Rightarrow> string \<Rightarrow> string \<Rightarrow> gate_caches \<Rightarrow> gate_error + method_evidence \<times> gate_caches" where
  "fetch_module storage repo snapshot caches =
     bind_result (from_storage (port_module_violations storage repo snapshot)) (\<lambda>e.
       Inr (ModuleViolations (gmv_violations_count e) (gmv_stale_count e) (gmv_inferred_not_judged e), caches))"

definition fetch_evidence ::
  "json_parser \<Rightarrow> gate_storage_read \<Rightarrow> string \<Rightarrow> string \<Rightarrow> gate_obligation \<Rightarrow> gate_caches \<Rightarrow>
   gate_error + method_evidence \<times> gate_caches" where
  "fetch_evidence from_str storage repo snapshot obl caches =
     (if obl_method obl = ''arch_violations'' then fetch_arch storage repo snapshot obl caches
      else if obl_method obl = ''coverage_threshold'' then fetch_coverage from_str storage repo snapshot obl caches
      else if obl_method obl = ''complexity_threshold'' then fetch_complexity from_str storage repo snapshot obl caches
      else if obl_method obl = ''hotspot_threshold'' then fetch_hotspot from_str storage repo snapshot obl caches
      else if obl_method obl = ''module_violations'' then fetch_module storage repo snapshot caches
      else Inr (UnsupportedMethod, caches))"

section \<open>Assembly\<close>

fun pending_evidence ::
  "json_parser \<Rightarrow> gate_storage_read \<Rightarrow> string \<Rightarrow> string \<Rightarrow> (gate_requirement \<times> gate_obligation) list \<Rightarrow> gate_caches \<Rightarrow>
   gate_error + (obligation_key \<times> method_evidence) list" where
  "pending_evidence from_str storage repo snapshot [] caches = Inr []"
| "pending_evidence from_str storage repo snapshot ((req, obl) # rest) caches =
     bind_result (fetch_evidence from_str storage repo snapshot obl caches) (\<lambda>(ev, caches').
     bind_result (pending_evidence from_str storage repo snapshot rest caches') (\<lambda>evs.
       Inr ((obligation_key req obl, ev) # evs)))"

fun pending_waivers ::
  "gate_storage_read \<Rightarrow> string \<Rightarrow> string \<Rightarrow> (gate_requirement \<times> gate_obligation) list \<Rightarrow>
   gate_error + (obligation_key \<times> gate_waiver list) list" where
  "pending_waivers storage repo now [] = Inr []"
| "pending_waivers storage repo now ((req, obl) # rest) =
     bind_result (from_storage (find_waivers storage repo (req_id req) (req_version req) (obligation_id obl) now))
       (\<lambda>ws. bind_result (pending_waivers storage repo now rest) (\<lambda>rest'.
         Inr ((obligation_key req obl, ws) # rest')))"

definition assemble_from_requirements ::
  "json_parser \<Rightarrow> gate_storage_read \<Rightarrow> string \<Rightarrow> string \<Rightarrow> gate_mode \<Rightarrow> string \<Rightarrow> gate_requirement list \<Rightarrow>
   gate_error + gate_report" where
  "assemble_from_requirements from_str storage repo snapshot mode now requirements =
     bind_result (from_storage (get_quality_assessment_facts_for_gate storage repo snapshot)) (\<lambda>facts.
     bind_result (pending_evidence from_str storage repo snapshot (obligation_pairs requirements) no_caches) (\<lambda>evs.
     bind_result (pending_waivers storage repo now (obligation_pairs requirements)) (\<lambda>ws.
       Inr (compute \<lparr>gi_requirements = requirements, gi_mode = mode, gi_now = now,
         gi_evidence = insert_all Map.empty evs, gi_waivers = insert_all Map.empty ws,
         gi_quality_facts = facts\<rparr>))))"

definition assemble ::
  "json_parser \<Rightarrow> gate_storage_read \<Rightarrow> string \<Rightarrow> string \<Rightarrow> gate_mode \<Rightarrow> string \<Rightarrow> gate_error + gate_report" where
  "assemble from_str storage repo snapshot mode now =
     bind_result (from_storage (get_active_requirements storage repo)) (\<lambda>requirements.
       assemble_from_requirements from_str storage repo snapshot mode now requirements)"

section \<open>Caches are transparent\<close>

definition evidence_of ::
  "json_parser \<Rightarrow> gate_storage_read \<Rightarrow> string \<Rightarrow> string \<Rightarrow> gate_obligation \<Rightarrow> gate_error + method_evidence" where
  "evidence_of from_str storage repo snapshot obl =
     bind_result (fetch_evidence from_str storage repo snapshot obl no_caches) (\<lambda>(ev, _). Inr ev)"

text \<open>A cache is valid if it is empty or holds what the port would return.\<close>

definition valid_cache :: "'a option \<Rightarrow> gate_storage_error + 'a \<Rightarrow> bool" where
  "valid_cache cache load \<longleftrightarrow> (\<forall>rows. cache = Some rows \<longrightarrow> load = Inr rows)"

definition valid_caches :: "gate_storage_read \<Rightarrow> string \<Rightarrow> string \<Rightarrow> gate_caches \<Rightarrow> bool" where
  "valid_caches storage repo snapshot c \<longleftrightarrow>
     valid_cache (cached_boundaries c) (get_boundary_declarations storage repo) \<and>
     valid_cache (cached_coverage c) (get_coverage_measurements storage snapshot) \<and>
     valid_cache (cached_complexity c) (get_complexity_measurements storage snapshot) \<and>
     valid_cache (cached_hotspots c) (get_hotspot_inferences storage snapshot)"

lemma valid_no_caches [simp]: "valid_caches storage repo snapshot no_caches"
  by (simp add: valid_caches_def valid_cache_def no_caches_def)

text \<open>A fetch is transparent if valid caches change nothing but the caches, which stay valid.\<close>

definition transparent ::
  "(gate_caches \<Rightarrow> bool) \<Rightarrow> (gate_caches \<Rightarrow> gate_error + method_evidence \<times> gate_caches) \<Rightarrow> bool" where
  "transparent V f \<longleftrightarrow> (\<forall>c c'. V c \<longrightarrow> V c' \<longrightarrow> map_sum id fst (f c) = map_sum id fst (f c')) \<and>
     (\<forall>c ev c'. V c \<longrightarrow> f c = Inr (ev, c') \<longrightarrow> V c')"

lemma transparent_const: "transparent V (\<lambda>c. Inr (ev, c))"
  by (auto simp: transparent_def)

lemma transparent_read:
  assumes valid: "\<And>c. V c \<Longrightarrow> valid_cache (get c) load"
    and store: "\<And>c rows. V c \<Longrightarrow> load = Inr rows \<Longrightarrow> V (put (Some rows) c)"
  shows "transparent V (\<lambda>c. bind_result (cached_read (get c) load (\<lambda>r. put r c) c)
    (\<lambda>(rows, c'). bind_result (g rows) (\<lambda>x. Inr (h x, c'))))"
proof -
  let ?f = "\<lambda>c. bind_result (cached_read (get c) load (\<lambda>r. put r c) c)
    (\<lambda>(rows, c'). bind_result (g rows) (\<lambda>x. Inr (h x, c')))"
  have "map_sum id fst (?f c) = bind_result (from_storage load) (\<lambda>rows. bind_result (g rows) (\<lambda>x. Inr (h x)))
      \<and> (\<forall>ev c'. ?f c = Inr (ev, c') \<longrightarrow> V c')" if V: "V c" for c
  proof (cases load)
    case (Inl e)
    with valid [OF V] have "get c = None" by (cases "get c") (auto simp: valid_cache_def)
    with Inl show ?thesis by (simp add: cached_read_def)
  next
    case (Inr rows)
    then show ?thesis
      using valid [OF V] store [OF V Inr] V
      by (cases "get c"; cases "g rows") (auto simp: cached_read_def valid_cache_def)
  qed
  then have eq: "V c \<Longrightarrow> map_sum id fst (?f c) = bind_result (from_storage load) (\<lambda>rows. bind_result (g rows) (\<lambda>x. Inr (h x)))"
    and keep: "V c \<Longrightarrow> ?f c = Inr (ev, c') \<Longrightarrow> V c'" for c ev c'
    by blast+
  show ?thesis
    unfolding transparent_def
  proof (intro conjI allI impI)
    show "map_sum id fst (?f c) = map_sum id fst (?f c')" if "V c" "V c'" for c c'
      unfolding eq [OF that(1)] eq [OF that(2)] ..
  qed (rule keep)
qed

lemma transparent_if:
  "transparent V f \<Longrightarrow> transparent V g \<Longrightarrow> transparent V (\<lambda>c. if b then f c else g c)"
  by (cases b) simp_all

lemma fetch_evidence_transparent:
  "transparent (valid_caches storage repo snapshot) (fetch_evidence from_str storage repo snapshot obl)"
proof -
  let ?T = "transparent (valid_caches storage repo snapshot)"
  have "?T (fetch_arch storage repo snapshot obl)"
  proof (cases "obl_target obl")
    case None
    then show ?thesis by (simp add: fetch_arch_def [abs_def] transparent_const)
  next
    case (Some t)
    then show ?thesis
      by (simp add: fetch_arch_def [abs_def])
        (rule transparent_read, auto simp: valid_caches_def valid_cache_def)
  qed
  moreover have "?T (fetch_coverage from_str storage repo snapshot obl)"
  proof (cases "obl_target obl = None \<or> obl_threshold obl = None")
    case True
    then show ?thesis
      by (cases "obl_target obl") (auto simp: fetch_coverage_def [abs_def] transparent_const)
  next
    case False
    then show ?thesis
      by (auto simp: fetch_coverage_def [abs_def])
        (rule transparent_read, auto simp: valid_caches_def valid_cache_def)
  qed
  moreover have "?T (fetch_complexity from_str storage repo snapshot obl)"
  proof (cases "obl_target obl = None \<or> obl_threshold obl = None")
    case True
    then show ?thesis
      by (cases "obl_target obl") (auto simp: fetch_complexity_def [abs_def] transparent_const)
  next
    case False
    then show ?thesis
      by (auto simp: fetch_complexity_def [abs_def])
        (rule transparent_read, auto simp: valid_caches_def valid_cache_def)
  qed
  moreover have "?T (fetch_hotspot from_str storage repo snapshot obl)"
  proof (cases "obl_threshold obl = None")
    case True
    then show ?thesis by (simp add: fetch_hotspot_def [abs_def] transparent_const)
  next
    case False
    then show ?thesis
      by (auto simp: fetch_hotspot_def [abs_def])
        (rule transparent_read, auto simp: valid_caches_def valid_cache_def)
  qed
  moreover have "?T (fetch_module storage repo snapshot)"
    by (cases "port_module_violations storage repo snapshot") (auto simp: fetch_module_def transparent_def)
  ultimately show ?thesis
    unfolding fetch_evidence_def [abs_def] by (intro transparent_if transparent_const)
qed

text \<open>The loops without caches: every obligation reads its own evidence.\<close>

fun traverse_pairs ::
  "(gate_requirement \<times> gate_obligation \<Rightarrow> gate_error + 'a) \<Rightarrow> (gate_requirement \<times> gate_obligation) list \<Rightarrow>
   gate_error + (obligation_key \<times> 'a) list" where
  "traverse_pairs f [] = Inr []"
| "traverse_pairs f (ro # ros) = bind_result (f ro) (\<lambda>x. bind_result (traverse_pairs f ros) (\<lambda>xs.
     Inr ((obligation_key (fst ro) (snd ro), x) # xs)))"

lemma evidence_of_cached:
  assumes "valid_caches storage repo snapshot c"
  shows "map_sum id fst (fetch_evidence from_str storage repo snapshot obl c) = evidence_of from_str storage repo snapshot obl"
proof -
  have "map_sum id fst (fetch_evidence from_str storage repo snapshot obl c)
      = map_sum id fst (fetch_evidence from_str storage repo snapshot obl no_caches)"
    using fetch_evidence_transparent [of storage repo snapshot from_str obl] assms valid_no_caches
    unfolding transparent_def by blast
  also have "\<dots> = evidence_of from_str storage repo snapshot obl"
    by (cases "fetch_evidence from_str storage repo snapshot obl no_caches") (auto simp: evidence_of_def)
  finally show ?thesis .
qed

lemma pending_evidence_uncached:
  assumes "valid_caches storage repo snapshot c"
  shows "pending_evidence from_str storage repo snapshot ros c =
    traverse_pairs (\<lambda>ro. evidence_of from_str storage repo snapshot (snd ro)) ros"
  using assms
proof (induction ros arbitrary: c)
  case (Cons ro ros)
  obtain req obl where ro: "ro = (req, obl)" by (cases ro)
  note e = evidence_of_cached [OF Cons.prems, of from_str obl, symmetric]
  show ?case
  proof (cases "fetch_evidence from_str storage repo snapshot obl c")
    case (Inl x)
    with e ro show ?thesis by simp
  next
    case (Inr y)
    obtain ev c' where y: "y = (ev, c')" by (cases y)
    have "valid_caches storage repo snapshot c'"
      using fetch_evidence_transparent [of storage repo snapshot from_str obl] Cons.prems Inr y
      unfolding transparent_def by blast
    from Cons.IH [OF this] e Inr y ro show ?thesis by simp
  qed
qed simp

lemma pending_waivers_traverse:
  "pending_waivers storage repo now ros =
     traverse_pairs (\<lambda>(req, obl). from_storage (find_waivers storage repo (req_id req) (req_version req) (obligation_id obl) now)) ros"
  by (induction ros) auto

lemma traverse_Inr:
  "traverse_pairs f ros = Inr xs \<Longrightarrow>
     xs = map (\<lambda>ro. (obligation_key (fst ro) (snd ro), projr (f ro))) ros \<and> (\<forall>ro \<in> set ros. \<exists>x. f ro = Inr x)"
proof (induction ros arbitrary: xs)
  case (Cons ro ros)
  then obtain x ys where "f ro = Inr x" "traverse_pairs f ros = Inr ys"
    "xs = (obligation_key (fst ro) (snd ro), x) # ys"
    by (cases "f ro"; cases "traverse_pairs f ros") auto
  with Cons.IH show ?case by auto
qed simp

lemma traverse_Inl: "(\<exists>e. traverse_pairs f ros = Inl e) \<longleftrightarrow> (\<exists>ro \<in> set ros. \<exists>e. f ro = Inl e)"
proof (induction ros)
  case (Cons ro ros)
  then show ?case by (cases "f ro"; cases "traverse_pairs f ros") auto
qed simp

lemma insert_all_keys:
  assumes "distinct (map k xs)" and "x \<in> set xs"
  shows "insert_all Map.empty (map (\<lambda>x. (k x, v x)) xs) (k x) = Some (v x)"
  using assms by (intro insert_all_lookup) (auto simp: comp_def)

section \<open>Properties\<close>

text \<open>
  C19. A successful run judges every obligation on its own evidence. When no two obligations share
  a requirement id, version and obligation id, the report has, in order, for each obligation its
  evaluation on the evidence a fresh read of the port gives for it, under the waivers the port
  finds for it: the caches shared by the obligations change nothing.
\<close>

theorem assemble_judges_own_evidence:
  assumes run: "assemble_from_requirements from_str storage repo snapshot mode now reqs = Inr r"
    and keys: "distinct (map (\<lambda>(req, obl). obligation_key req obl) (obligation_pairs reqs))"
  shows "report_obligations r = map (\<lambda>(req, obl). apply_waiver_overlay
      (projr (find_waivers storage repo (req_id req) (req_version req) (obligation_id obl) now))
      (evaluate_obligation req obl (projr (evidence_of from_str storage repo snapshot obl)))) (obligation_pairs reqs)"
proof -
  let ?ros = "obligation_pairs reqs"
  let ?k = "\<lambda>ro. obligation_key (fst ro) (snd ro)"
  let ?ev = "\<lambda>ro. evidence_of from_str storage repo snapshot (snd ro)"
  let ?ws = "\<lambda>(req, obl). from_storage (find_waivers storage repo (req_id req) (req_version req) (obligation_id obl) now)"
  from run obtain facts evs ws where e: "traverse_pairs ?ev ?ros = Inr evs" and w: "traverse_pairs ?ws ?ros = Inr ws"
    and r: "r = compute \<lparr>gi_requirements = reqs, gi_mode = mode, gi_now = now,
      gi_evidence = insert_all Map.empty evs, gi_waivers = insert_all Map.empty ws, gi_quality_facts = facts\<rparr>"
    unfolding assemble_from_requirements_def pending_evidence_uncached [OF valid_no_caches] pending_waivers_traverse
    by (cases "get_quality_assessment_facts_for_gate storage repo snapshot"; cases "traverse_pairs ?ev ?ros";
        cases "traverse_pairs ?ws ?ros") auto
  note evs = traverse_Inr [OF e] and ws = traverse_Inr [OF w]
  have dist: "distinct (map ?k ?ros)"
    using keys by (simp add: case_prod_unfold)
  have "evaluate_pair \<lparr>gi_requirements = reqs, gi_mode = mode, gi_now = now,
      gi_evidence = insert_all Map.empty evs, gi_waivers = insert_all Map.empty ws, gi_quality_facts = facts\<rparr> (req, obl) =
    apply_waiver_overlay (projr (find_waivers storage repo (req_id req) (req_version req) (obligation_id obl) now))
      (evaluate_obligation req obl (projr (evidence_of from_str storage repo snapshot obl)))"
    if mem: "(req, obl) \<in> set ?ros" for req obl
  proof -
    have "insert_all Map.empty evs (obligation_key req obl) = Some (projr (?ev (req, obl)))"
      using evs insert_all_keys [OF dist mem, of "\<lambda>ro. projr (?ev ro)"] by simp
    moreover have "insert_all Map.empty ws (obligation_key req obl) = Some (projr (?ws (req, obl)))"
      using ws insert_all_keys [OF dist mem, of "\<lambda>ro. projr (?ws ro)"] by simp
    moreover have "\<exists>x. ?ws (req, obl) = Inr x"
      using ws mem by blast
    then have "projr (?ws (req, obl)) = projr (find_waivers storage repo (req_id req) (req_version req) (obligation_id obl) now)"
      by (cases "find_waivers storage repo (req_id req) (req_version req) (obligation_id obl) now") auto
    ultimately show ?thesis
      by (simp add: evaluate_pair_def Let_def unwrap_or_def)
  qed
  then show ?thesis
    unfolding r compute_def Let_def by (auto intro!: map_cong)
qed

text \<open>A port with one module violation and one coverage row that is not JSON, and nothing else.\<close>

definition demo_storage :: gate_storage_read where
  "demo_storage = \<lparr>get_active_requirements = (\<lambda>_. Inr []), get_boundary_declarations = (\<lambda>_. Inr []),
     find_boundary_imports = (\<lambda>_ _ _. Inr []), find_inferred_boundary_imports = (\<lambda>_ _ _. Inr []),
     get_coverage_measurements = (\<lambda>_. Inr [\<lparr>gm_key = ''r:src/a.ts'', gm_value_json = ''{''\<rparr>]),
     get_complexity_measurements = (\<lambda>_. Inr []),
     get_hotspot_inferences = (\<lambda>_. Inr []), find_waivers = (\<lambda>_ _ _ _ _. Inr []),
     port_module_violations = (\<lambda>_ _. Inr \<lparr>gmv_violations_count = 1, gmv_stale_count = 0, gmv_inferred_not_judged = []\<rparr>),
     get_quality_assessment_facts_for_gate = (\<lambda>_ _. Inr [])\<rparr>"

abbreviation demo_obligation :: "string \<Rightarrow> string \<Rightarrow> gate_obligation" where
  "demo_obligation name method \<equiv> \<lparr>obligation_id = name, obligation_text = [], obl_method = method,
     obl_target = Some ''src'', obl_threshold = Some f64_zero, obl_operator = None\<rparr>"

abbreviation demo_requirement :: "gate_obligation list \<Rightarrow> gate_requirement" where
  "demo_requirement obls \<equiv> \<lparr>req_id = ''R'', req_version = 1, obligations = obls\<rparr>"

lemma demo_evidence:
  "evidence_of from_str demo_storage ''r'' ''s'' (demo_obligation ''a'' ''module_violations'') = Inr (ModuleViolations 1 0 [])"
  by (simp add: evidence_of_def fetch_evidence_def fetch_module_def) (simp add: demo_storage_def)

lemma demo_waivers: "find_waivers demo_storage repo req v name now = Inr []"
  by (simp add: demo_storage_def)

lemma module_violation_fails: "ev_computed (evaluate_obligation req obl (ModuleViolations 1 0 [])) = FAIL"
  by (simp add: evaluate_obligation_def dispatch_evidence_def evaluate_module_violations_def pass_or_fail_def)

theorem assemble_judges_own_evidence_witness:
  "\<exists>r. assemble_from_requirements (\<lambda>_. Inl ''bad'') demo_storage ''r'' ''s'' Default_Mode ''now''
      [demo_requirement [demo_obligation ''a'' ''module_violations'']] = Inr r \<and>
    map ev_computed (report_obligations r) = [FAIL]"
proof -
  let ?o = "demo_obligation ''a'' ''module_violations''"
  let ?reqs = "[demo_requirement [?o]]"
  have pairs: "obligation_pairs ?reqs = [(demo_requirement [?o], ?o)]"
    by (simp add: obligation_pairs_def)
  obtain r where r: "assemble_from_requirements (\<lambda>_. Inl ''bad'') demo_storage ''r'' ''s'' Default_Mode ''now'' ?reqs = Inr r"
    by (simp add: assemble_from_requirements_def demo_storage_def obligation_pairs_def fetch_evidence_def fetch_module_def)
  have "report_obligations r = [apply_waiver_overlay [] (evaluate_obligation (demo_requirement [?o]) ?o (ModuleViolations 1 0 []))]"
    using assemble_judges_own_evidence [OF r]
    unfolding pairs by (simp only: list.map map_append fst_conv snd_conv prod.case distinct.simps list.set
        empty_iff not_False_eq_True simp_thms demo_evidence demo_waivers sum.sel)
  then have "map ev_computed (report_obligations r) = [FAIL]"
    by (simp only: list.map apply_waiver_overlay_def list.case if_cancel module_violation_fails)
  from r this show ?thesis by (intro exI [of _ r] conjI)
qed

lemma sum_Inr_iff: "(\<exists>x. s = Inr x) \<longleftrightarrow> \<not> (\<exists>e. s = Inl e)"
  by (cases s) auto

lemma assemble_runs:
  fixes from_str storage repo snapshot now
  defines "ev \<equiv> \<lambda>ro :: gate_requirement \<times> gate_obligation. evidence_of from_str storage repo snapshot (snd ro)"
    and "ws \<equiv> \<lambda>(req, obl). from_storage (find_waivers storage repo (req_id req) (req_version req) (obligation_id obl) now)"
  shows "(\<exists>r. assemble_from_requirements from_str storage repo snapshot mode now reqs = Inr r) \<longleftrightarrow>
    (\<exists>facts. get_quality_assessment_facts_for_gate storage repo snapshot = Inr facts) \<and>
    (\<forall>ro \<in> set (obligation_pairs reqs). (\<exists>x. ev ro = Inr x) \<and> (\<exists>x. ws ro = Inr x))"
proof -
  have "(\<exists>r. assemble_from_requirements from_str storage repo snapshot mode now reqs = Inr r) \<longleftrightarrow>
    (\<exists>facts. get_quality_assessment_facts_for_gate storage repo snapshot = Inr facts) \<and>
    \<not> (\<exists>e. traverse_pairs ev (obligation_pairs reqs) = Inl e) \<and>
    \<not> (\<exists>e. traverse_pairs ws (obligation_pairs reqs) = Inl e)"
    unfolding assemble_from_requirements_def pending_evidence_uncached [OF valid_no_caches]
      pending_waivers_traverse ev_def [symmetric] ws_def [symmetric]
    by (cases "get_quality_assessment_facts_for_gate storage repo snapshot";
        cases "traverse_pairs ev (obligation_pairs reqs)"; cases "traverse_pairs ws (obligation_pairs reqs)") auto
  then show ?thesis
    unfolding traverse_Inl sum_Inr_iff by blast
qed

text \<open>
  A run succeeds exactly if every read succeeds: the quality facts, the evidence of every
  obligation and the waivers of every obligation. In particular an error in one obligation's
  evidence ends the whole run; no obligation is skipped.
\<close>

theorem assemble_succeeds_iff:
  "(\<exists>r. assemble_from_requirements from_str storage repo snapshot mode now reqs = Inr r) \<longleftrightarrow>
   (\<exists>facts. get_quality_assessment_facts_for_gate storage repo snapshot = Inr facts) \<and>
   (\<forall>(req, obl) \<in> set (obligation_pairs reqs).
      (\<exists>ev. evidence_of from_str storage repo snapshot obl = Inr ev) \<and>
      (\<exists>ws. find_waivers storage repo (req_id req) (req_version req) (obligation_id obl) now = Inr ws))"
proof -
  have "(\<exists>x. from_storage w = Inr x) \<longleftrightarrow> (\<exists>x. w = Inr x)" for w :: "gate_storage_error + gate_waiver list"
    by (cases w) auto
  then show ?thesis
    unfolding assemble_runs by (auto simp: split_beta)
qed

theorem assemble_succeeds_iff_witness:
  "\<exists>r. assemble_from_requirements (\<lambda>_. Inl ''bad'') demo_storage ''r'' ''s'' Default_Mode ''now''
      [demo_requirement [demo_obligation ''a'' ''complexity_threshold'']] = Inr r"
  unfolding assemble_succeeds_iff
  by (simp add: demo_storage_def obligation_pairs_def evidence_of_def fetch_evidence_def fetch_complexity_def
      cached_read_def no_caches_def)

text \<open>The number a row carries, if it parses and has one.\<close>

definition row_value :: "json_parser \<Rightarrow> gate_measurement \<Rightarrow> f64 option" where
  "row_value from_str row = (case from_str (gm_value_json row) of
     Inl _ \<Rightarrow> None | Inr parsed \<Rightarrow> json_as_f64 (json_get parsed ''value''))"

lemma parse_measurements_Inl:
  "(\<exists>e. parse_measurements from_str kind rows = Inl e) \<longleftrightarrow> (\<exists>row \<in> set rows. row_value from_str row = None)"
proof (induction rows)
  case (Cons row rows)
  show ?case
  proof (cases "row_value from_str row")
    case None
    then have "\<exists>e. parse_measurements from_str kind (row # rows) = Inl e"
      by (auto simp: row_value_def split: sum.splits option.splits)
    with None show ?thesis by simp
  next
    case (Some v)
    then have "parse_measurements from_str kind (row # rows) = bind_result (parse_measurements from_str kind rows)
        (\<lambda>out. Inr (\<lparr>pm_key = gm_key row, pm_value = v\<rparr> # out))"
      by (auto simp: row_value_def split: sum.splits)
    with Cons.IH Some show ?thesis
      by (cases "parse_measurements from_str kind rows") simp_all
  qed
qed simp

text \<open>
  Malformed evidence aborts the run: if a coverage obligation has a target and a threshold, and
  a row under the target's prefix does not parse or has no numeric \<open>value\<close>, the run returns an
  error (the documentation of \<open>GateMeasurement\<close> says such an obligation becomes
  \<open>MISSING_EVIDENCE\<close> and that the gate does not error out over a single bad row).
\<close>

theorem malformed_row_aborts:
  assumes "(req, obl) \<in> set (obligation_pairs reqs)"
    and "obl_method obl = ''coverage_threshold''" and "obl_target obl = Some target"
    and "obl_threshold obl \<noteq> None" and "get_coverage_measurements storage snapshot = Inr rows"
    and "row \<in> set rows" and "starts_with (gm_key row) (key_prefix repo target)"
    and "row_value from_str row = None"
  shows "\<exists>e. assemble_from_requirements from_str storage repo snapshot mode now reqs = Inl e"
proof -
  let ?rows = "filter (\<lambda>r. starts_with (gm_key r) (key_prefix repo target)) rows"
  have "\<exists>e. parse_measurements from_str Coverage_Row ?rows = Inl e"
    using assms(6-8) by (auto simp: parse_measurements_Inl)
  then have "\<exists>e. evidence_of from_str storage repo snapshot obl = Inl e"
    using assms(2-5) by (auto simp: evidence_of_def fetch_evidence_def fetch_coverage_def cached_read_def no_caches_def)
  then have "\<not> (\<exists>r. assemble_from_requirements from_str storage repo snapshot mode now reqs = Inr r)"
    unfolding assemble_runs using assms(1) by force
  then show ?thesis
    using sum_Inr_iff by blast
qed

theorem malformed_row_aborts_witness:
  "\<exists>e. assemble_from_requirements (\<lambda>_. Inl ''bad'') demo_storage ''r'' ''s'' Default_Mode ''now''
      [demo_requirement [demo_obligation ''a'' ''coverage_threshold'']] = Inl e"
  by (rule malformed_row_aborts [where req = "demo_requirement [demo_obligation ''a'' ''coverage_threshold'']"
        and obl = "demo_obligation ''a'' ''coverage_threshold''" and target = "''src''"
        and rows = "[\<lparr>gm_key = ''r:src/a.ts'', gm_value_json = ''{''\<rparr>]"
        and row = "\<lparr>gm_key = ''r:src/a.ts'', gm_value_json = ''{''\<rparr>"])
    (simp_all add: obligation_pairs_def demo_storage_def key_prefix_def row_value_def)

text \<open>
  Obligations that share an id share the evidence of the last one. Two obligations of one
  requirement with the same id, the first a module-violations check over a port with a violation,
  the second with an unknown method: both are evaluated as unsupported and the run does not fail
  (exit code 2, and 0 in advisory mode), while with distinct ids the violation fails it.
\<close>

theorem duplicate_ids_mask_failure:
  "let run = (\<lambda>mode name. assemble_from_requirements (\<lambda>_. Inl ''bad'') demo_storage ''r'' ''s'' mode ''now''
      [demo_requirement [demo_obligation ''a'' ''module_violations'', demo_obligation name ''unknown'']])
   in map_sum id (\<lambda>r. (map ev_computed (report_obligations r), exit_code (report_outcome r))) (run Default_Mode ''a'')
        = Inr ([UNSUPPORTED, UNSUPPORTED], 2) \<and>
      map_sum id (\<lambda>r. exit_code (report_outcome r)) (run Advisory_Mode ''a'') = Inr 0 \<and>
      map_sum id (\<lambda>r. (map ev_computed (report_obligations r), exit_code (report_outcome r))) (run Default_Mode ''b'')
        = Inr ([FAIL, UNSUPPORTED], 1)"
  by (simp add: assemble_from_requirements_def demo_storage_def obligation_pairs_def fetch_evidence_def
      fetch_module_def obligation_key_def compute_def evaluate_pair_def unwrap_or_def Let_def
      evaluate_obligation_def dispatch_evidence_def evaluate_module_violations_def apply_waiver_overlay_def
      pass_or_fail_def reduce_outcome_def count_eval_def effective_from_def)

end
