(* ===== verification/Comment_Masker.thy ===== *)
theory Comment_Masker
  imports Rust_Prelude
begin

text \<open>
  The comment masker of the detectors, \<open>detectors/src/comment_masker.rs\<close>: two byte-level state
  machines (C-style languages and Python) that blank out comments before the detectors match
  patterns. A source text is the list of its bytes. One iteration of a \<open>while\<close> loop is a step that
  takes the byte at hand and the bytes after it, and gives the bytes it writes, the new state and
  the bytes that are left. The locale \<open>byte_masker\<close> says what the two machines have in common and
  what follows from it: positions, newlines and UTF-8 validity are kept.
\<close>

named_theorems masker_steps \<open>the definitions of the step functions and of the bytes they test\<close>

section \<open>Bytes and UTF-8\<close>

abbreviation newline :: char where "newline \<equiv> CHR 0x0A"
abbreviation space :: char where "space \<equiv> CHR 0x20"
abbreviation dquote :: char where "dquote \<equiv> CHR 0x22"
abbreviation squote :: char where "squote \<equiv> CHR 0x27"
abbreviation backslash :: char where "backslash \<equiv> CHR 0x5C"
abbreviation backtick :: char where "backtick \<equiv> CHR 0x60"

abbreviation byte :: "char \<Rightarrow> nat" where "byte c \<equiv> of_char c"

definition ascii :: "char \<Rightarrow> bool" where
  "ascii c \<longleftrightarrow> byte c < 128"

text \<open>One well-formed UTF-8 sequence (the table of the Unicode standard), and a text of them.\<close>

definition continuation :: "char \<Rightarrow> bool" where
  "continuation c \<longleftrightarrow> 128 \<le> byte c \<and> byte c \<le> 191"

definition second_byte_ok :: "char \<Rightarrow> char \<Rightarrow> bool" where
  "second_byte_ok a b \<longleftrightarrow> continuation b \<and>
     (byte a = 224 \<longrightarrow> 160 \<le> byte b) \<and> (byte a = 237 \<longrightarrow> byte b \<le> 159) \<and>
     (byte a = 240 \<longrightarrow> 144 \<le> byte b) \<and> (byte a = 244 \<longrightarrow> byte b \<le> 143)"

fun utf8_char :: "string \<Rightarrow> bool" where
  "utf8_char [a] = ascii a"
| "utf8_char [a, b] = (194 \<le> byte a \<and> byte a \<le> 223 \<and> continuation b)"
| "utf8_char [a, b, c] = (224 \<le> byte a \<and> byte a \<le> 239 \<and> second_byte_ok a b \<and> continuation c)"
| "utf8_char [a, b, c, d] =
     (240 \<le> byte a \<and> byte a \<le> 244 \<and> second_byte_ok a b \<and> continuation c \<and> continuation d)"
| "utf8_char _ = False"

definition utf8_len :: "char \<Rightarrow> nat" where
  "utf8_len a = (if byte a < 128 then 1 else if byte a < 224 then 2 else if byte a < 240 then 3 else 4)"

function utf8 :: "string \<Rightarrow> bool" where
  "utf8 [] = True"
| "utf8 (a # s) = (utf8_char (take (utf8_len a) (a # s)) \<and> utf8 (drop (utf8_len a) (a # s)))"
  by pat_completeness auto
termination
  by (relation "measure length") (auto simp: utf8_len_def)

text \<open>\<open>String::from_utf8(out).expect(..)\<close>\<close>

definition expect_utf8 :: "string \<Rightarrow> string outcome" where
  "expect_utf8 out = (if utf8 out then Val out
     else Panic ''comment masker output should be valid UTF-8'')"

section \<open>The C-style machine\<close>

datatype cstyle_state = C_Code | C_LineComment | C_BlockComment | C_StringDq | C_StringSq | C_Template

text \<open>
  The state of the loop: \<open>state\<close> and \<open>template_stack\<close> (its top first; the depths are \<open>u32\<close> and wrap).
\<close>

type_synonym cstyle = "cstyle_state \<times> u32 list"

type_synonym 'st masker_step = "'st \<Rightarrow> char \<Rightarrow> string \<Rightarrow> string \<times> 'st \<times> string"

text \<open>\<open>next\<close>: the byte after the current one, 0 at the end.\<close>

definition next_byte :: "string \<Rightarrow> char" where
  "next_byte rest = (case rest of [] \<Rightarrow> CHR 0x00 | c # _ \<Rightarrow> c)"

definition code_step :: "u32 list \<Rightarrow> char \<Rightarrow> string \<Rightarrow> string \<times> cstyle \<times> string" where
  "code_step stack b rest =
     (if b = CHR ''}'' \<and> stack \<noteq> [] then
        (if hd stack = 0 then ([b], (C_Template, tl stack), rest)
         else ([b], (C_Code, (hd stack - 1) # tl stack), rest))
      else if b = CHR ''{'' \<and> stack \<noteq> [] then ([b], (C_Code, (hd stack + 1) # tl stack), rest)
      else if b = CHR ''/'' \<and> next_byte rest = CHR ''/'' then ([space, space], (C_LineComment, stack), tl rest)
      else if b = CHR ''/'' \<and> next_byte rest = CHR ''*'' then ([space, space], (C_BlockComment, stack), tl rest)
      else if b = dquote then ([b], (C_StringDq, stack), rest)
      else if b = squote then ([b], (C_StringSq, stack), rest)
      else if b = backtick then ([b], (C_Template, stack), rest)
      else ([b], (C_Code, stack), rest))"

definition line_comment_step :: "u32 list \<Rightarrow> char \<Rightarrow> string \<Rightarrow> string \<times> cstyle \<times> string" where
  "line_comment_step stack b rest =
     (if b = newline then ([b], (C_Code, stack), rest) else ([space], (C_LineComment, stack), rest))"

definition block_comment_step :: "u32 list \<Rightarrow> char \<Rightarrow> string \<Rightarrow> string \<times> cstyle \<times> string" where
  "block_comment_step stack b rest =
     (if b = CHR ''*'' \<and> next_byte rest = CHR ''/'' then ([space, space], (C_Code, stack), tl rest)
      else if b = newline then ([b], (C_BlockComment, stack), rest)
      else ([space], (C_BlockComment, stack), rest))"

definition string_step :: "char \<Rightarrow> cstyle_state \<Rightarrow> u32 list \<Rightarrow> char \<Rightarrow> string \<Rightarrow> string \<times> cstyle \<times> string" where
  "string_step quote st stack b rest =
     (if b = backslash \<and> rest \<noteq> [] then ([b, hd rest], (st, stack), tl rest)
      else if b = quote then ([b], (C_Code, stack), rest)
      else if b = newline then ([b], (C_Code, stack), rest)
      else ([b], (st, stack), rest))"

definition template_step :: "u32 list \<Rightarrow> char \<Rightarrow> string \<Rightarrow> string \<times> cstyle \<times> string" where
  "template_step stack b rest =
     (if b = backslash \<and> rest \<noteq> [] then ([b, hd rest], (C_Template, stack), tl rest)
      else if b = backtick then ([b], (C_Code, stack), rest)
      else if b = CHR ''$'' \<and> next_byte rest = CHR ''{''
      then ([b, next_byte rest], (C_Code, 0 # stack), tl rest)
      else ([b], (C_Template, stack), rest))"

definition cstyle_step :: "cstyle masker_step" where
  "cstyle_step st b rest = (case st of (state, stack) \<Rightarrow> (case state of
     C_Code \<Rightarrow> code_step stack b rest
   | C_LineComment \<Rightarrow> line_comment_step stack b rest
   | C_BlockComment \<Rightarrow> block_comment_step stack b rest
   | C_StringDq \<Rightarrow> string_step dquote C_StringDq stack b rest
   | C_StringSq \<Rightarrow> string_step squote C_StringSq stack b rest
   | C_Template \<Rightarrow> template_step stack b rest))"

lemmas [masker_steps] = cstyle_step_def code_step_def line_comment_step_def block_comment_step_def
  string_step_def template_step_def next_byte_def

section \<open>The Python machine\<close>

datatype python_state =
    P_Code | P_LineComment | P_StringDq | P_StringSq | P_StringTripleDq | P_StringTripleSq

text \<open>\<open>i + 2 < len && bytes[i + 1] == q && bytes[i + 2] == q\<close>\<close>

definition two_more :: "char \<Rightarrow> string \<Rightarrow> bool" where
  "two_more q rest = (case rest of a # b # _ \<Rightarrow> a = q \<and> b = q | _ \<Rightarrow> False)"

definition py_code_step :: "char \<Rightarrow> string \<Rightarrow> string \<times> python_state \<times> string" where
  "py_code_step b rest =
     (if b = CHR ''#'' then ([space], P_LineComment, rest)
      else if b = dquote \<and> two_more dquote rest then ([b, dquote, dquote], P_StringTripleDq, drop 2 rest)
      else if b = squote \<and> two_more squote rest then ([b, squote, squote], P_StringTripleSq, drop 2 rest)
      else if b = dquote then ([b], P_StringDq, rest)
      else if b = squote then ([b], P_StringSq, rest)
      else ([b], P_Code, rest))"

definition py_comment_step :: "char \<Rightarrow> string \<Rightarrow> string \<times> python_state \<times> string" where
  "py_comment_step b rest =
     (if b = newline then ([b], P_Code, rest) else ([space], P_LineComment, rest))"

definition py_string_step :: "char \<Rightarrow> python_state \<Rightarrow> char \<Rightarrow> string \<Rightarrow> string \<times> python_state \<times> string" where
  "py_string_step quote st b rest =
     (if b = backslash \<and> rest \<noteq> [] then ([b, hd rest], st, tl rest)
      else if b = quote then ([b], P_Code, rest)
      else if b = newline then ([b], P_Code, rest)
      else ([b], st, rest))"

definition py_triple_step :: "char \<Rightarrow> python_state \<Rightarrow> char \<Rightarrow> string \<Rightarrow> string \<times> python_state \<times> string" where
  "py_triple_step quote st b rest =
     (if b = quote \<and> two_more quote rest then ([b, quote, quote], P_Code, drop 2 rest)
      else ([b], st, rest))"

definition python_step :: "python_state masker_step" where
  "python_step st b rest = (case st of
     P_Code \<Rightarrow> py_code_step b rest
   | P_LineComment \<Rightarrow> py_comment_step b rest
   | P_StringDq \<Rightarrow> py_string_step dquote P_StringDq b rest
   | P_StringSq \<Rightarrow> py_string_step squote P_StringSq b rest
   | P_StringTripleDq \<Rightarrow> py_triple_step dquote P_StringTripleDq b rest
   | P_StringTripleSq \<Rightarrow> py_triple_step squote P_StringTripleSq b rest)"

lemmas [masker_steps] = python_step_def py_code_step_def py_comment_step_def py_string_step_def
  py_triple_step_def two_more_def

section \<open>The loops\<close>

lemma cstyle_step_rest: "cstyle_step st b rest = (out, st', rest') \<Longrightarrow> length rest' \<le> length rest"
  by (auto simp: masker_steps split: prod.splits cstyle_state.splits if_splits list.splits)

lemma python_step_rest: "python_step st b rest = (out, st', rest') \<Longrightarrow> length rest' \<le> length rest"
  by (auto simp: masker_steps split: python_state.splits if_splits list.splits)

function cstyle_loop :: "cstyle \<Rightarrow> string \<Rightarrow> string" where
  "cstyle_loop st [] = []"
| "cstyle_loop st (b # rest) = (case cstyle_step st b rest of (out, st', rest') \<Rightarrow> out @ cstyle_loop st' rest')"
  by pat_completeness auto
termination
  by (relation "measure (length \<circ> snd)") (auto dest: cstyle_step_rest [OF sym])

function python_loop :: "python_state \<Rightarrow> string \<Rightarrow> string" where
  "python_loop st [] = []"
| "python_loop st (b # rest) = (case python_step st b rest of (out, st', rest') \<Rightarrow> out @ python_loop st' rest')"
  by pat_completeness auto
termination
  by (relation "measure (length \<circ> snd)") (auto dest: python_step_rest [OF sym])

definition mask_comments_c_style :: "string \<Rightarrow> string outcome" where
  "mask_comments_c_style source = expect_utf8 (cstyle_loop (C_Code, []) source)"

definition mask_comments_python :: "string \<Rightarrow> string outcome" where
  "mask_comments_python source = expect_utf8 (python_loop P_Code source)"

text \<open>
  \<open>to_lowercase\<close> only matters for the last three characters here, and no character outside ASCII
  has a lowercase form that ends in \<open>.\<close>, \<open>p\<close> or \<open>y\<close>.
\<close>

definition mask_comments_for_file :: "string \<Rightarrow> string \<Rightarrow> string outcome" where
  "mask_comments_for_file file_path source =
     (let lower = map ascii_lower file_path
      in if ends_with lower ''.py'' then mask_comments_python source else mask_comments_c_style source)"

section \<open>UTF-8 texts as sequences of characters\<close>

lemma utf8_char_cases:
  assumes "utf8_char c"
  obtains (low) a where "c = [a]" "ascii a"
    | (high) a s where "c = a # s" "s \<noteq> []" "list_all (\<lambda>x. \<not> ascii x) c"
  using assms
  by (cases c rule: utf8_char.cases) (auto simp: ascii_def continuation_def second_byte_ok_def)

lemma utf8_char_len: "utf8_char (a # s) \<Longrightarrow> length (a # s) = utf8_len a"
  by (cases "a # s" rule: utf8_char.cases) (auto simp: utf8_len_def ascii_def)

lemma utf8_append_char [simp]: "utf8_char c \<Longrightarrow> utf8 (c @ s) \<longleftrightarrow> utf8 s"
proof (cases c)
  case (Cons a t)
  assume "utf8_char c"
  with Cons have "utf8_len a = length c"
    using utf8_char_len by simp
  with Cons \<open>utf8_char c\<close> show ?thesis by simp
qed simp

lemma utf8_ConsE:
  assumes "utf8 s" "s \<noteq> []"
  obtains c r where "s = c @ r" "utf8_char c" "utf8 r"
  using assms by (cases s) (auto intro: append_take_drop_id [symmetric] that)

declare utf8.simps(2) [simp del]

lemma utf8_ascii_Cons [simp]: "ascii a \<Longrightarrow> utf8 (a # s) \<longleftrightarrow> utf8 s"
  using utf8_append_char [of "[a]" s] by simp

lemma utf8_ascii_append [simp]: "list_all ascii xs \<Longrightarrow> utf8 (xs @ s) \<longleftrightarrow> utf8 s"
  by (induction xs) simp_all

lemma ascii_space [simp]: "ascii space"
  by (simp add: ascii_def)

section \<open>What the machines have in common\<close>

text \<open>A written byte is the byte read, or a space in the place of a byte that ends no line.\<close>

definition masked :: "char \<Rightarrow> char \<Rightarrow> bool" where
  "masked x y \<longleftrightarrow> y = x \<or> x \<noteq> newline \<and> y = space"

lemma masked_refl [simp]: "masked x x"
  by (simp add: masked_def)

lemma masked_space [simp]: "x \<noteq> newline \<Longrightarrow> masked x space"
  by (simp add: masked_def)

lemma masked_ascii: "list_all2 masked xs ys \<Longrightarrow> list_all ascii xs \<Longrightarrow> list_all ascii ys"
  by (induction rule: list_all2_induct) (auto simp: masked_def)

locale byte_masker =
  fixes step :: "'st \<Rightarrow> char \<Rightarrow> string \<Rightarrow> string \<times> 'st \<times> string"
    and run :: "'st \<Rightarrow> string \<Rightarrow> string"
    and copies :: "'st \<Rightarrow> bool"
  assumes run_Nil [simp]: "run st [] = []"
    and run_Cons: "run st (b # rest) = (case step st b rest of (out, st', rest') \<Rightarrow> out @ run st' rest')"
    and step_positions: "step st b rest = (out, st', rest') \<Longrightarrow>
      \<exists>more. rest = more @ rest' \<and> list_all2 masked (b # more) out"
    and step_high: "\<not> ascii b \<Longrightarrow> step st b rest = ([if copies st then b else space], st, rest)"
    and step_low: "ascii b \<Longrightarrow> step st b (more @ rest') = (out, st', rest') \<Longrightarrow>
      list_all ascii more \<or> (\<exists>x. more = [x] \<and> out = [b, x] \<and> copies st')"
begin

lemma stepE:
  obtains out st' more rest' where "step st b rest = (out, st', rest')" "rest = more @ rest'"
    "list_all2 masked (b # more) out" "run st (b # rest) = out @ run st' rest'"
    "length rest' \<le> length rest"
proof (cases "step st b rest")
  case (fields out st' rest')
  with step_positions obtain more where "rest = more @ rest'" "list_all2 masked (b # more) out"
    by blast
  with fields that show ?thesis
    by (simp add: run_Cons)
qed

lemma run_positions: "list_all2 masked s (run st s)"
proof (induction s arbitrary: st rule: length_induct)
  case (1 s)
  show ?case
  proof (cases s)
    case (Cons b rest)
    obtain out st' more rest' where "rest = more @ rest'" "list_all2 masked (b # more) out"
      and run: "run st (b # rest) = out @ run st' rest'" and "length rest' \<le> length rest"
      by (rule stepE)
    moreover with Cons 1 have "list_all2 masked rest' (run st' rest')"
      by simp
    ultimately have "list_all2 masked ((b # more) @ rest') (out @ run st' rest')"
      by (intro list_all2_appendI) auto
    with Cons run \<open>rest = more @ rest'\<close> show ?thesis by simp
  qed simp
qed

lemma run_length: "length (run st s) = length s"
  using run_positions list_all2_lengthD by metis

lemma run_newlines: "map (\<lambda>c. c = newline) (run st s) = map (\<lambda>c. c = newline) s"
  using run_positions [of s st]
  by (induction rule: list_all2_induct) (auto simp: masked_def)

lemma run_high:
  "list_all (\<lambda>x. \<not> ascii x) xs \<Longrightarrow>
     run st (xs @ r) = map (\<lambda>c. if copies st then c else space) xs @ run st r"
  by (induction xs) (simp_all add: run_Cons step_high)

text \<open>Comments begin and end at ASCII bytes, so that no character is cut.\<close>

lemma run_utf8: "utf8 s \<Longrightarrow> utf8 (run st s)"
proof (induction s arbitrary: st rule: length_induct)
  case (1 s)
  show ?case
  proof (cases "s = []")
    case False
    with 1(2) obtain c r where s: "s = c @ r" "utf8_char c" "utf8 r"
      using utf8_ConsE by blast
    from s(2) show ?thesis
    proof (cases rule: utf8_char_cases)
      case (high a t)
      with s 1(1) have "utf8 (run st r)" by simp
      moreover have "list_all ascii (map (\<lambda>_. space) c)"
        by (induction c) simp_all
      ultimately show ?thesis
        using s high(3) by (cases "copies st") (simp_all add: run_high)
    next
      case (low a)
      obtain out st' more rest' where r: "step st a r = (out, st', rest')" "r = more @ rest'"
        "list_all2 masked (a # more) out" "run st (a # r) = out @ run st' rest'"
        by (rule stepE)
      from low s r(1,2) step_low consider "list_all ascii more" | x where "\<not> ascii x" "more = [x]" "out = [a, x]" "copies st'"
        by (metis list.pred_inject(1) list.pred_inject(2))
      then show ?thesis
      proof cases
        case 1
        with low r(3) have "list_all ascii out"
          using masked_ascii by simp
        moreover have "utf8 (run st' rest')"
          using "1.IH" s r(2) 1 low by simp
        ultimately show ?thesis
          using s low r(4) by simp
      next
        case 2
        with s(3) r(2) obtain c2 r2 where c2: "x # rest' = c2 @ r2" "utf8_char c2" "utf8 r2"
          using utf8_ConsE by (metis append_Cons append_Nil list.distinct(1))
        with 2(1) obtain t where t: "c2 = x # t" "list_all (\<lambda>x. \<not> ascii x) t" "rest' = t @ r2"
          by (elim utf8_char_cases) auto
        have "utf8 (run st' r2)"
          using "1.IH" s r(2) 2 c2 t low by simp
        then have "utf8 (c2 @ run st' r2)"
          using c2(2) by simp
        then show ?thesis
          using s low r(4) 2 t by (simp add: run_high map_idI)
      qed
    qed
  qed simp
qed

end

section \<open>The two machines\<close>

definition cstyle_copies :: "cstyle \<Rightarrow> bool" where
  "cstyle_copies st \<longleftrightarrow> fst st \<notin> {C_LineComment, C_BlockComment}"

definition python_copies :: "python_state \<Rightarrow> bool" where
  "python_copies st \<longleftrightarrow> st \<noteq> P_LineComment"

text \<open>The shapes of a step: one byte, a blanked pair, or a copied pair.\<close>

definition step_shape :: "bool \<Rightarrow> char \<Rightarrow> string \<Rightarrow> string \<Rightarrow> string \<Rightarrow> bool" where
  "step_shape copying b rest out rest' \<longleftrightarrow>
     rest' = rest \<and> (\<exists>y. out = [y] \<and> masked b y) \<or>
     (\<exists>x. rest = x # rest' \<and> ascii x \<and> x \<noteq> newline \<and> b \<noteq> newline \<and> out = [space, space]) \<or>
     (\<exists>x. rest = x # rest' \<and> out = [b, x] \<and> (ascii x \<or> copying)) \<or>
     (rest = b # b # rest' \<and> out = [b, b, b])"

lemma step_shape_positions:
  "step_shape copying b rest out rest' \<Longrightarrow> \<exists>more. rest = more @ rest' \<and> list_all2 masked (b # more) out"
  by (auto simp: step_shape_def)

lemma step_shape_low:
  "step_shape copying b (more @ rest') out rest' \<Longrightarrow> ascii b \<Longrightarrow>
     list_all ascii more \<or> (\<exists>x. more = [x] \<and> out = [b, x] \<and> copying)"
  by (auto simp: step_shape_def Cons_eq_append_conv append_eq_Cons_conv)

lemma shape_byte: "masked b y \<Longrightarrow> step_shape k b rest [y] rest"
  by (simp add: step_shape_def)

lemma shape_blank:
  "next_byte rest = x \<Longrightarrow> x \<noteq> CHR 0x00 \<Longrightarrow> ascii x \<Longrightarrow> x \<noteq> newline \<Longrightarrow> b \<noteq> newline \<Longrightarrow>
     step_shape k b rest [space, space] (tl rest)"
  by (cases rest) (simp_all add: step_shape_def next_byte_def)

lemma shape_pair:
  "rest \<noteq> [] \<Longrightarrow> k \<Longrightarrow> step_shape k b rest [b, hd rest] (tl rest)"
  "next_byte rest = x \<Longrightarrow> x \<noteq> CHR 0x00 \<Longrightarrow> ascii x \<Longrightarrow> step_shape k b rest [b, x] (tl rest)"
  by (cases rest; simp add: step_shape_def next_byte_def)+

lemma shape_triple: "two_more b rest \<Longrightarrow> step_shape k b rest [b, b, b] (drop 2 rest)"
  by (cases rest) (simp_all add: step_shape_def two_more_def numeral_2_eq_2 split: list.splits)

lemmas step_shapes = shape_byte shape_blank shape_pair shape_triple cstyle_copies_def python_copies_def
  cstyle_step_def code_step_def line_comment_step_def block_comment_step_def string_step_def
  template_step_def python_step_def py_code_step_def py_comment_step_def py_string_step_def py_triple_step_def

lemma ascii_literal [simp]:
  "ascii (CHR ''/'')" "ascii (CHR ''*'')" "ascii (CHR ''{'')" "ascii (CHR ''}'')" "ascii (CHR ''$'')"
  "ascii (CHR ''#'')" "ascii newline" "ascii dquote" "ascii squote" "ascii backslash" "ascii backtick"
  by (simp_all add: ascii_def)

lemma cstyle_step_shape:
  "case cstyle_step st b rest of (out, st', rest') \<Rightarrow> step_shape (cstyle_copies st') b rest out rest'"
  by (cases st; cases "fst st") (simp_all add: step_shapes)

lemma python_step_shape:
  "case python_step st b rest of (out, st', rest') \<Rightarrow> step_shape (python_copies st') b rest out rest'"
  by (cases st) (simp_all add: step_shapes)

lemma high_neq: "ascii c \<Longrightarrow> \<not> ascii b \<Longrightarrow> b \<noteq> c"
  by blast

interpretation cmask: byte_masker cstyle_step cstyle_loop cstyle_copies
proof
  fix st :: cstyle and b rest more out st' rest'
  show "\<exists>more. rest = more @ rest' \<and> list_all2 masked (b # more) out"
    if "cstyle_step st b rest = (out, st', rest')"
    using cstyle_step_shape [where st = st and b = b and rest = rest] that step_shape_positions by simp
  show "cstyle_step st b rest = ([if cstyle_copies st then b else space], st, rest)" if "\<not> ascii b"
    using that by (cases st; cases "fst st") (simp_all add: step_shapes high_neq)
  show "list_all ascii more \<or> (\<exists>x. more = [x] \<and> out = [b, x] \<and> cstyle_copies st')"
    if "ascii b" "cstyle_step st b (more @ rest') = (out, st', rest')"
    using cstyle_step_shape [where st = st and b = b and rest = "more @ rest'"] that step_shape_low by simp
qed simp_all

interpretation pmask: byte_masker python_step python_loop python_copies
proof
  fix st b rest more out st' rest'
  show "\<exists>more. rest = more @ rest' \<and> list_all2 masked (b # more) out"
    if "python_step st b rest = (out, st', rest')"
    using python_step_shape [where st = st and b = b and rest = rest] that step_shape_positions by simp
  show "python_step st b rest = ([if python_copies st then b else space], st, rest)" if "\<not> ascii b"
    using that by (cases st) (simp_all add: step_shapes high_neq)
  show "list_all ascii more \<or> (\<exists>x. more = [x] \<and> out = [b, x] \<and> python_copies st')"
    if "ascii b" "python_step st b (more @ rest') = (out, st', rest')"
    using python_step_shape [where st = st and b = b and rest = "more @ rest'"] that step_shape_low by simp
qed simp_all

section \<open>Masking twice\<close>

text \<open>
  A second pass sees spaces where the first saw a comment, so it stays in the code state there:
  \<open>settle\<close> gives its state for each state of the first pass.
\<close>

locale settling_masker = byte_masker +
  fixes settle :: "'a \<Rightarrow> 'a"
  assumes step_again: "step st b rest = (out, st', rest') \<Longrightarrow> list_all2 masked rest' X \<Longrightarrow>
    run (settle st) (out @ X) = out @ run (settle st') X"
begin

lemma run_again: "run (settle st) (run st s) = run st s"
proof (induction s arbitrary: st rule: length_induct)
  case (1 s)
  show ?case
  proof (cases s)
    case (Cons b rest)
    obtain out st' more rest' where r: "step st b rest = (out, st', rest')"
      "run st (b # rest) = out @ run st' rest'" "length rest' \<le> length rest"
      by (rule stepE)
    with 1 Cons have "run (settle st') (run st' rest') = run st' rest'"
      by simp
    with step_again [OF r(1) run_positions] r(2) Cons show ?thesis
      by simp
  qed simp
qed

end

lemma masked_next_byte:
  assumes "list_all2 masked rest X" and "next_byte rest \<noteq> c" and "c \<noteq> space"
  shows "next_byte X \<noteq> c"
  using assms by (cases rest; cases X) (auto simp: next_byte_def masked_def)

lemma masked_two_more:
  assumes "list_all2 masked rest X" and "\<not> two_more q rest" and "q \<noteq> space"
  shows "\<not> two_more q X"
  using assms by (auto simp: two_more_def masked_def list_all2_Cons1 list_all2_Cons2 split: list.splits)

lemma masked_Nil: "list_all2 masked rest X \<Longrightarrow> X = [] \<longleftrightarrow> rest = []"
  by auto

lemma next_byte_Cons [simp]: "next_byte (c # r) = c"
  by (simp add: next_byte_def)

lemma two_more_Cons [simp]: "two_more q (q # q # r)"
  by (simp add: two_more_def)

definition cstyle_settle :: "cstyle \<Rightarrow> cstyle" where
  "cstyle_settle st = (case st of (state, stack) \<Rightarrow>
     (if state = C_LineComment \<or> state = C_BlockComment then C_Code else state, stack))"

definition python_settle :: "python_state \<Rightarrow> python_state" where
  "python_settle st = (if st = P_LineComment then P_Code else st)"

lemmas step_defs = cstyle_step_def code_step_def line_comment_step_def block_comment_step_def string_step_def
  template_step_def python_step_def py_code_step_def py_comment_step_def py_string_step_def py_triple_step_def

lemma cstyle_step_again:
  "case cstyle_step st b rest of (out, st', rest') \<Rightarrow> list_all2 masked rest' X \<longrightarrow>
     cstyle_loop (cstyle_settle st) (out @ X) = out @ cstyle_loop (cstyle_settle st') X"
proof -
  have "list_all2 masked rest X \<Longrightarrow> next_byte X = c \<Longrightarrow> c \<noteq> space \<Longrightarrow> next_byte rest = c" for rest c
    using masked_next_byte by blast
  note looks = this [of rest "CHR ''/''", simplified] this [of rest "CHR ''*''", simplified]
    this [of rest "CHR ''{''", simplified]
  show ?thesis
    by (cases st; cases "fst st")
      (simp_all add: step_defs cstyle_settle_def masked_next_byte masked_Nil, (use looks in blast)+)
qed

lemma python_step_again:
  "case python_step st b rest of (out, st', rest') \<Rightarrow> list_all2 masked rest' X \<longrightarrow>
     python_loop (python_settle st) (out @ X) = out @ python_loop (python_settle st') X"
  by (cases st)
    (simp_all add: step_defs python_settle_def masked_two_more masked_Nil, (use masked_two_more in blast)+)

interpretation csettle: settling_masker cstyle_step cstyle_loop cstyle_copies cstyle_settle
proof
  fix st b rest out st' rest' X
  show "cstyle_loop (cstyle_settle st) (out @ X) = out @ cstyle_loop (cstyle_settle st') X"
    if "cstyle_step st b rest = (out, st', rest')" "list_all2 masked rest' X"
    using cstyle_step_again [where st = st and b = b and rest = rest and X = X] that by simp
qed

interpretation psettle: settling_masker python_step python_loop python_copies python_settle
proof
  fix st b rest out st' rest' X
  show "python_loop (python_settle st) (out @ X) = out @ python_loop (python_settle st') X"
    if "python_step st b rest = (out, st', rest')" "list_all2 masked rest' X"
    using python_step_again [where st = st and b = b and rest = rest and X = X] that by simp
qed

section \<open>Properties\<close>

lemma expect_run:
  "utf8 source \<Longrightarrow> expect_utf8 (cstyle_loop st source) = Val (cstyle_loop st source)"
  "utf8 source \<Longrightarrow> expect_utf8 (python_loop p source) = Val (python_loop p source)"
  by (simp_all add: expect_utf8_def cmask.run_utf8 pmask.run_utf8)

text \<open>
  C35. Masking a source text (valid UTF-8, as every \<open>&str\<close> is) does not panic. The result has the
  same length, every byte is the source's or a space in the place of a byte that is not a newline,
  the newlines are where they were, and the result is valid UTF-8; masking it again changes nothing.
\<close>

theorem mask_comments_safe:
  assumes "utf8 source"
  shows "\<exists>m. mask_comments_for_file path source = Val m \<and> length m = length source \<and>
    list_all2 masked source m \<and> map (\<lambda>c. c = newline) m = map (\<lambda>c. c = newline) source \<and>
    utf8 m \<and> mask_comments_for_file path m = Val m"
proof (cases "ends_with (map ascii_lower path) ''.py''")
  case True
  let ?m = "python_loop P_Code source"
  have "python_loop P_Code ?m = ?m"
    using psettle.run_again [of P_Code source] by (simp add: python_settle_def)
  then show ?thesis
    using True assms pmask.run_utf8 [OF assms]
    by (simp add: mask_comments_for_file_def mask_comments_python_def expect_run pmask.run_length
        pmask.run_positions pmask.run_newlines)
next
  case False
  let ?m = "cstyle_loop (C_Code, []) source"
  have "cstyle_loop (C_Code, []) ?m = ?m"
    using csettle.run_again [of "(C_Code, [])" source] by (simp add: cstyle_settle_def)
  then show ?thesis
    using False assms cmask.run_utf8 [OF assms]
    by (simp add: mask_comments_for_file_def mask_comments_c_style_def expect_run cmask.run_length
        cmask.run_positions cmask.run_newlines)
qed

theorem mask_comments_safe_witness:
  "mask_comments_for_file ''m.py'' ''x=1 #a'' = Val ''x=1   '' \<and>
   mask_comments_for_file ''m.py'' ''x=1   '' = Val ''x=1   ''"
proof -
  have src: "utf8 ''x=1 #a''"
    by (simp add: ascii_def)
  have "mask_comments_for_file ''m.py'' ''x=1 #a'' = Val ''x=1   ''"
    by (simp add: mask_comments_for_file_def mask_comments_python_def step_defs expect_utf8_def ascii_def
        ends_with_def ascii_lower_def is_ascii_uppercase_def)
  with mask_comments_safe [OF src, of "''m.py''"] show ?thesis
    by auto
qed

end
