(* ===== verification/Trust_Model.thy ===== *)
theory Trust_Model
  imports Rust_Prelude
begin

text \<open>
  The trust vocabulary, \<open>repo-graph-trust-model/src/lib.rs\<close>: answer classes, freshness, identity
  bases, degradation reasons, the policy that classifies an answer, and the answer envelope whose
  smart constructors are the only way to build one. A \<open>BTreeSet\<close> is a set.
\<close>

section \<open>The axes\<close>

datatype answer_class = Exact | Partial | Unavailable | Stale

datatype granularity = PartitionSummary | CallerDetail

datatype freshness_state = F_Fresh | F_Stale | F_PrecisionPending | F_RefreshFailed | F_Unavailable

datatype identity_basis =
    B_AstAdopted | B_ScipSynthesized | B_AstFileScope | B_DeclarationMapExact
  | B_NameExactUnique | B_RangeNameConfirmed | B_RawAnchored

definition is_scip_backed :: "identity_basis \<Rightarrow> bool" where
  "is_scip_backed b = (case b of B_AstAdopted \<Rightarrow> False | B_AstFileScope \<Rightarrow> False | _ \<Rightarrow> True)"

datatype degradation_reason =
    AnonymousStructuralMember | UnreconciledExportSurface | AmbiguousAlias | UnresolvedAlias
  | RawAnchoredByFailedNameGuard | ScipFallbackIdentity | UnsupportedWorkspaceMode
  | DefinitionOutsideDocument | DuplicateCanonicalized | ProducerUnavailable
  | StructuralNodeNoCallGraphContent

datatype language_support = TypeScriptPrimary | CppGuarded | RustPartialBeta

text \<open>The derived \<open>Ord\<close> of the two enumerations: the order of their variants.\<close>

definition reason_rank :: "degradation_reason \<Rightarrow> nat" where
  "reason_rank r = (case r of
     AnonymousStructuralMember \<Rightarrow> 0 | UnreconciledExportSurface \<Rightarrow> 1 | AmbiguousAlias \<Rightarrow> 2
   | UnresolvedAlias \<Rightarrow> 3 | RawAnchoredByFailedNameGuard \<Rightarrow> 4 | ScipFallbackIdentity \<Rightarrow> 5
   | UnsupportedWorkspaceMode \<Rightarrow> 6 | DefinitionOutsideDocument \<Rightarrow> 7 | DuplicateCanonicalized \<Rightarrow> 8
   | ProducerUnavailable \<Rightarrow> 9 | StructuralNodeNoCallGraphContent \<Rightarrow> 10)"

definition language_rank :: "language_support \<Rightarrow> nat" where
  "language_rank l = (case l of TypeScriptPrimary \<Rightarrow> 0 | CppGuarded \<Rightarrow> 1 | RustPartialBeta \<Rightarrow> 2)"

lemma reason_rank_inj [simp]: "reason_rank a = reason_rank b \<longleftrightarrow> a = b"
  by (cases a; cases b; simp add: reason_rank_def)

lemma language_rank_inj [simp]: "language_rank a = language_rank b \<longleftrightarrow> a = b"
  by (cases a; cases b; simp add: language_rank_def)

instantiation degradation_reason :: linorder
begin

definition less_eq_degradation_reason :: "degradation_reason \<Rightarrow> degradation_reason \<Rightarrow> bool" where
  "a \<le> b \<longleftrightarrow> reason_rank a \<le> reason_rank b"

definition less_degradation_reason :: "degradation_reason \<Rightarrow> degradation_reason \<Rightarrow> bool" where
  "a < b \<longleftrightarrow> reason_rank a < reason_rank b"

instance
  by standard (auto simp: less_eq_degradation_reason_def less_degradation_reason_def dest: order_antisym)

end

instantiation language_support :: linorder
begin

definition less_eq_language_support :: "language_support \<Rightarrow> language_support \<Rightarrow> bool" where
  "a \<le> b \<longleftrightarrow> language_rank a \<le> language_rank b"

definition less_language_support :: "language_support \<Rightarrow> language_support \<Rightarrow> bool" where
  "a < b \<longleftrightarrow> language_rank a < language_rank b"

instance
  by standard (auto simp: less_eq_language_support_def less_language_support_def dest: order_antisym)

end

record provenance_basis =
  pb_package_name :: string
  pb_package_version :: string
  pb_export_path :: "string option"
  pb_declaration_file :: "string option"
  pb_declaration_map :: "string option"
  pb_source_file :: "string option"
  pb_basis :: identity_basis

datatype query_completeness = Complete | Degraded | Unknown_Completeness

datatype query_granularity =
    FileReference | CallGraph | SymbolOwnership | RawObservation | ReferenceIdentity
  | GovernanceStableIdentity

section \<open>The completeness policy\<close>

fun basis_complete_for :: "identity_basis \<Rightarrow> query_granularity \<Rightarrow> bool" where
  "basis_complete_for B_AstAdopted _ = True"
| "basis_complete_for B_DeclarationMapExact g =
     (g \<in> {CallGraph, SymbolOwnership, ReferenceIdentity, GovernanceStableIdentity})"
| "basis_complete_for B_NameExactUnique g =
     (g \<in> {CallGraph, SymbolOwnership, ReferenceIdentity, GovernanceStableIdentity})"
| "basis_complete_for B_RangeNameConfirmed g = (g \<in> {CallGraph, SymbolOwnership, ReferenceIdentity})"
| "basis_complete_for B_AstFileScope g = (g = FileReference)"
| "basis_complete_for B_ScipSynthesized g = (g = ReferenceIdentity)"
| "basis_complete_for B_RawAnchored g = (g \<in> {RawObservation, ReferenceIdentity})"

record completeness_input =
  ci_granularity :: query_granularity
  ci_bases :: "identity_basis list"
  ci_freshness :: freshness_state
  ci_reasons :: "degradation_reason list"
  ci_language :: language_support

definition classify_answer :: "completeness_input \<Rightarrow> answer_class \<times> query_completeness" where
  "classify_answer input =
     (if ci_bases input = [] \<or> ci_freshness input = F_Unavailable then (Unavailable, Unknown_Completeness)
      else
        let bases_complete = list_all (\<lambda>b. basis_complete_for b (ci_granularity input)) (ci_bases input);
            complete = (bases_complete \<and> ci_reasons input = [])
        in (case ci_freshness input of
              F_Unavailable \<Rightarrow> (Unavailable, Unknown_Completeness)
            | F_Stale \<Rightarrow> (Stale, Degraded)
            | F_RefreshFailed \<Rightarrow> (Stale, Degraded)
            | F_PrecisionPending \<Rightarrow>
                (let scip_dependent = list_ex is_scip_backed (ci_bases input)
                 in if complete \<and> \<not> scip_dependent then (Exact, Complete) else (Partial, Degraded))
            | F_Fresh \<Rightarrow> if complete then (Exact, Complete) else (Partial, Degraded)))"

section \<open>Answer envelopes\<close>

text \<open>The proof token of invariant 6, minted only from bases that do not rest on SCIP.\<close>

datatype not_scip_dependent = NotScipDependent

definition prove_not_scip :: "identity_basis list \<Rightarrow> not_scip_dependent option" where
  "prove_not_scip bases =
     (if bases \<noteq> [] \<and> list_all (\<lambda>b. \<not> is_scip_backed b) bases then Some NotScipDependent else None)"

datatype trust_error =
    ExactRequiresFresh | ExactRequiresComplete | PartialRequiresReasons | StaleMustNotBeFresh
  | MissingContributingLanguages

definition fmt_trust_error :: "trust_error \<Rightarrow> string" where
  "fmt_trust_error e = (case e of
     ExactRequiresFresh \<Rightarrow> ''Exact requires Fresh (or PrecisionPending + NotScipDependent)''
   | ExactRequiresComplete \<Rightarrow> ''Exact requires Complete completeness''
   | PartialRequiresReasons \<Rightarrow> ''Partial requires non-empty degradation reasons''
   | StaleMustNotBeFresh \<Rightarrow> ''Stale must not be Fresh''
   | MissingContributingLanguages \<Rightarrow> ''Exact/Partial/Stale require a non-empty contributing-language set'')"

record 'a answer_envelope =
  env_class :: answer_class
  env_freshness :: freshness_state
  env_completeness :: query_completeness
  env_data :: "'a option"
  env_reasons :: "degradation_reason list"
  env_missing :: "string list"
  env_provenance :: "provenance_basis list"
  env_languages :: "language_support set"

definition exact_envelope ::
  "'a \<Rightarrow> query_completeness \<Rightarrow> freshness_state \<Rightarrow> provenance_basis list \<Rightarrow> language_support set \<Rightarrow>
   trust_error + 'a answer_envelope" where
  "exact_envelope data completeness freshness provenance languages =
     (if freshness \<noteq> F_Fresh then Inl ExactRequiresFresh
      else if completeness \<noteq> Complete then Inl ExactRequiresComplete
      else if languages = {} then Inl MissingContributingLanguages
      else Inr \<lparr>env_class = Exact, env_freshness = freshness, env_completeness = completeness,
        env_data = Some data, env_reasons = [], env_missing = [], env_provenance = provenance,
        env_languages = languages\<rparr>)"

definition exact_precision_pending ::
  "'a \<Rightarrow> query_completeness \<Rightarrow> not_scip_dependent \<Rightarrow> provenance_basis list \<Rightarrow> language_support set \<Rightarrow>
   trust_error + 'a answer_envelope" where
  "exact_precision_pending data completeness proof_token provenance languages =
     (if completeness \<noteq> Complete then Inl ExactRequiresComplete
      else if languages = {} then Inl MissingContributingLanguages
      else Inr \<lparr>env_class = Exact, env_freshness = F_PrecisionPending, env_completeness = completeness,
        env_data = Some data, env_reasons = [], env_missing = [], env_provenance = provenance,
        env_languages = languages\<rparr>)"

definition partial_envelope ::
  "'a option \<Rightarrow> degradation_reason list \<Rightarrow> string list \<Rightarrow> freshness_state \<Rightarrow> provenance_basis list \<Rightarrow>
   language_support set \<Rightarrow> trust_error + 'a answer_envelope" where
  "partial_envelope data reasons missing freshness provenance languages =
     (if freshness = F_Fresh \<and> reasons = [] \<and> missing = [] then Inl PartialRequiresReasons
      else if languages = {} then Inl MissingContributingLanguages
      else Inr \<lparr>env_class = Partial, env_freshness = freshness, env_completeness = Degraded,
        env_data = data, env_reasons = reasons, env_missing = missing, env_provenance = provenance,
        env_languages = languages\<rparr>)"

definition unavailable_envelope ::
  "degradation_reason \<Rightarrow> freshness_state \<Rightarrow> language_support set \<Rightarrow> 'a answer_envelope" where
  "unavailable_envelope reason freshness languages =
     \<lparr>env_class = Unavailable, env_freshness = freshness, env_completeness = Unknown_Completeness,
      env_data = None, env_reasons = [reason], env_missing = [], env_provenance = [],
      env_languages = languages\<rparr>"

definition stale_envelope ::
  "'a \<Rightarrow> freshness_state \<Rightarrow> degradation_reason list \<Rightarrow> string list \<Rightarrow> provenance_basis list \<Rightarrow>
   language_support set \<Rightarrow> trust_error + 'a answer_envelope" where
  "stale_envelope data freshness reasons missing provenance languages =
     (if freshness = F_Fresh then Inl StaleMustNotBeFresh
      else if languages = {} then Inl MissingContributingLanguages
      else Inr \<lparr>env_class = Stale, env_freshness = freshness, env_completeness = Degraded,
        env_data = Some data, env_reasons = reasons, env_missing = missing, env_provenance = provenance,
        env_languages = languages\<rparr>)"

lemmas envelope_constructors = exact_envelope_def exact_precision_pending_def partial_envelope_def
  unavailable_envelope_def stale_envelope_def

section \<open>Legal envelopes\<close>

text \<open>
  The envelopes the constructors can build, what the constructors check, and the invariants that the
  crate states for them.
\<close>

inductive minted :: "'a answer_envelope \<Rightarrow> bool" where
  exact: "exact_envelope d c f p l = Inr e \<Longrightarrow> minted e"
| exact_pp: "prove_not_scip bases = Some t \<Longrightarrow> exact_precision_pending d c t p l = Inr e \<Longrightarrow> minted e"
| partial: "partial_envelope d' r m f p l = Inr e \<Longrightarrow> minted e"
| unavailable: "minted (unavailable_envelope reason f l)"
| stale: "stale_envelope d f r m p l = Inr e \<Longrightarrow> minted e"

definition checked_envelope :: "'a answer_envelope \<Rightarrow> bool" where
  "checked_envelope e = (case env_class e of
     Exact \<Rightarrow> env_freshness e \<in> {F_Fresh, F_PrecisionPending} \<and> env_completeness e = Complete \<and>
       env_data e \<noteq> None \<and> env_reasons e = [] \<and> env_missing e = [] \<and> env_languages e \<noteq> {}
   | Partial \<Rightarrow> env_completeness e = Degraded \<and> env_languages e \<noteq> {} \<and>
       \<not> (env_freshness e = F_Fresh \<and> env_reasons e = [] \<and> env_missing e = [])
   | Unavailable \<Rightarrow> env_completeness e = Unknown_Completeness \<and> env_data e = None \<and>
       length (env_reasons e) = 1 \<and> env_missing e = [] \<and> env_provenance e = []
   | Stale \<Rightarrow> env_freshness e \<noteq> F_Fresh \<and> env_completeness e = Degraded \<and> env_data e \<noteq> None \<and>
       env_languages e \<noteq> {})"

lemma minted_checked: "minted e \<Longrightarrow> checked_envelope e"
  by (induction rule: minted.induct)
    (auto simp: envelope_constructors checked_envelope_def split: if_splits)

lemma checked_minted:
  fixes e :: "'a answer_envelope"
  assumes "checked_envelope e"
  shows "minted e"
proof (cases "env_class e")
  case Exact
  with assms obtain d where d: "env_data e = Some d"
    by (auto simp: checked_envelope_def)
  show ?thesis
  proof (cases "env_freshness e")
    case F_Fresh
    with Exact d assms have "exact_envelope d Complete F_Fresh (env_provenance e) (env_languages e) = Inr e"
      by (simp add: exact_envelope_def checked_envelope_def)
    then show ?thesis by (rule minted.exact)
  next
    case F_PrecisionPending
    with Exact d assms
    have "exact_precision_pending d Complete NotScipDependent (env_provenance e) (env_languages e) = Inr e"
      by (simp add: exact_precision_pending_def checked_envelope_def)
    moreover have "prove_not_scip [B_AstAdopted] = Some NotScipDependent"
      by (simp add: prove_not_scip_def is_scip_backed_def)
    ultimately show ?thesis by (rule minted.exact_pp [rotated])
  qed (use Exact assms in \<open>simp_all add: checked_envelope_def\<close>)
next
  case Partial
  with assms have "partial_envelope (env_data e) (env_reasons e) (env_missing e) (env_freshness e)
      (env_provenance e) (env_languages e) = Inr e"
    by (auto simp: partial_envelope_def checked_envelope_def)
  then show ?thesis by (rule minted.partial)
next
  case Unavailable
  with assms obtain r where "env_reasons e = [r]"
    by (auto simp: checked_envelope_def length_Suc_conv)
  with Unavailable assms have "e = unavailable_envelope r (env_freshness e) (env_languages e)"
    by (simp add: unavailable_envelope_def checked_envelope_def)
  then show ?thesis by (metis minted.unavailable)
next
  case Stale
  with assms obtain d where "env_data e = Some d"
    by (auto simp: checked_envelope_def)
  with Stale assms have "stale_envelope d (env_freshness e) (env_reasons e) (env_missing e)
      (env_provenance e) (env_languages e) = Inr e"
    by (simp add: stale_envelope_def checked_envelope_def)
  then show ?thesis by (rule minted.stale)
qed

text \<open>
  The sixth invariant concerns exact answers pending precision, which must not rest on SCIP. The
  constructor for them takes the proof token and does not look at it, so the invariant is not one of its
  checks: it is part of legality, read on the provenance that the envelope carries, and is shown of
  the answers that the live graph builds.
\<close>

definition legal_envelope :: "'a answer_envelope \<Rightarrow> bool" where
  "legal_envelope e = (case env_class e of
     Exact \<Rightarrow> env_freshness e \<in> {F_Fresh, F_PrecisionPending} \<and> env_completeness e = Complete \<and>
       env_data e \<noteq> None \<and> env_reasons e = [] \<and> env_missing e = [] \<and> env_languages e \<noteq> {} \<and>
       (env_freshness e = F_PrecisionPending \<longrightarrow>
          list_all (\<lambda>b. \<not> is_scip_backed (pb_basis b)) (env_provenance e))
   | Partial \<Rightarrow> env_completeness e = Degraded \<and> env_languages e \<noteq> {} \<and>
       \<not> (env_freshness e = F_Fresh \<and> env_reasons e = [] \<and> env_missing e = [])
   | Unavailable \<Rightarrow> env_completeness e = Unknown_Completeness \<and> env_data e = None \<and>
       length (env_reasons e) = 1 \<and> env_missing e = [] \<and> env_provenance e = []
   | Stale \<Rightarrow> env_freshness e \<noteq> F_Fresh \<and> env_completeness e = Degraded \<and> env_data e \<noteq> None \<and>
       env_languages e \<noteq> {})"

lemma legal_minted: "legal_envelope e \<Longrightarrow> minted e"
  by (rule checked_minted) (auto simp: legal_envelope_def checked_envelope_def split: answer_class.splits)

text \<open>A token proved for other bases lets an exact answer pending precision rest on SCIP.\<close>

lemma unrelated_token:
  "\<exists>e :: nat answer_envelope. minted e \<and> env_class e = Exact \<and> env_freshness e = F_PrecisionPending \<and>
     list_ex (\<lambda>b. is_scip_backed (pb_basis b)) (env_provenance e) \<and> \<not> legal_envelope e"
proof -
  let ?b = "\<lparr>pb_package_name = ''p'', pb_package_version = ''1'', pb_export_path = None,
    pb_declaration_file = None, pb_declaration_map = None, pb_source_file = None,
    pb_basis = B_ScipSynthesized\<rparr>"
  let ?e = "\<lparr>env_class = Exact, env_freshness = F_PrecisionPending, env_completeness = Complete,
    env_data = Some 0, env_reasons = [], env_missing = [], env_provenance = [?b],
    env_languages = {TypeScriptPrimary}\<rparr> :: nat answer_envelope"
  have "exact_precision_pending 0 Complete NotScipDependent [?b] {TypeScriptPrimary} = Inr ?e"
    by (simp add: exact_precision_pending_def)
  moreover have "prove_not_scip [B_AstAdopted] = Some NotScipDependent"
    by (simp add: prove_not_scip_def is_scip_backed_def)
  ultimately have "minted ?e" by (rule minted.exact_pp [rotated])
  then show ?thesis by (intro exI [of _ ?e]) (simp add: is_scip_backed_def legal_envelope_def)
qed

text \<open>
  The envelopes that the first five invariants allow, in the strictest reading of the documents: an \<open>Exact\<close>
  answer is fresh, and a \<open>Partial\<close> one names a reason or a missing partition.
\<close>

definition documented_envelope :: "'a answer_envelope \<Rightarrow> bool" where
  "documented_envelope e = (case env_class e of
     Exact \<Rightarrow> env_freshness e = F_Fresh \<and> env_completeness e = Complete \<and> env_data e \<noteq> None \<and>
       env_reasons e = [] \<and> env_missing e = [] \<and> env_languages e \<noteq> {}
   | Partial \<Rightarrow> env_completeness e = Degraded \<and> env_languages e \<noteq> {} \<and>
       (env_reasons e \<noteq> [] \<or> env_missing e \<noteq> [])
   | Unavailable \<Rightarrow> env_completeness e = Unknown_Completeness \<and> env_data e = None \<and>
       length (env_reasons e) = 1 \<and> env_missing e = [] \<and> env_provenance e = []
   | Stale \<Rightarrow> env_freshness e \<noteq> F_Fresh \<and> env_completeness e = Degraded \<and> env_data e \<noteq> None \<and>
       env_languages e \<noteq> {})"

lemma list_ex_not_all: "list_ex P xs \<longleftrightarrow> \<not> list_all (\<lambda>x. \<not> P x) xs"
  by (induction xs) auto

lemma classify_answer_Exact:
  "fst (classify_answer input) = Exact \<longleftrightarrow>
      ci_bases input \<noteq> [] \<and> ci_reasons input = [] \<and>
      list_all (\<lambda>b. basis_complete_for b (ci_granularity input)) (ci_bases input) \<and>
      (ci_freshness input = F_Fresh \<or>
       ci_freshness input = F_PrecisionPending \<and> prove_not_scip (ci_bases input) = Some NotScipDependent)"
  by (cases "ci_freshness input"; auto simp: classify_answer_def Let_def prove_not_scip_def list_ex_not_all)



end
