(* ===== verification/Coherence.thy ===== *)
theory Coherence
  imports Trust_Model
begin

text \<open>
  The coherence wrapper, \<open>repo-graph-coherence/src/lib.rs\<close>: where a value came from, how certain and
  how fresh it is, the leaf constructors, and the fold that gives the root of a command its posture
  from its leaves. A \<open>BTreeSet\<close> is a set; a \<open>Vec\<close> is a list.
\<close>

section \<open>Sources and fallback reasons\<close>

datatype source = Livegraph | Sqlite | Filesystem | Declaration

datatype coherence_fallback_reason =
    LiveGraphUnavailable | LiveGraphPartial | LiveGraphStale | LiveGraphUnsupportedLanguage
  | LiveGraphRenderUnsupported | LiveGraphDisplayMetadataUnavailable | LiveGraphError
  | LiveGraphImportRegression | LiveGraphImportUnknown | LiveGraphCycleDivergence
  | LiveGraphStatsDivergence | LiveGraphComplexityDivergence | LiveGraphCallgraphDivergence
  | LiveGraphBoundedServeDeclined | LiveGraphPartitionedViewUnsupported
  | PartitionEvidenceUnreadable

definition fallback_as_str :: "coherence_fallback_reason \<Rightarrow> string" where
  "fallback_as_str r = (case r of
     LiveGraphUnavailable \<Rightarrow> ''LiveGraphUnavailable''
   | LiveGraphPartial \<Rightarrow> ''LiveGraphPartial''
   | LiveGraphStale \<Rightarrow> ''LiveGraphStale''
   | LiveGraphUnsupportedLanguage \<Rightarrow> ''LiveGraphUnsupportedLanguage''
   | LiveGraphRenderUnsupported \<Rightarrow> ''LiveGraphRenderUnsupported''
   | LiveGraphDisplayMetadataUnavailable \<Rightarrow> ''LiveGraphDisplayMetadataUnavailable''
   | LiveGraphError \<Rightarrow> ''LiveGraphError''
   | LiveGraphImportRegression \<Rightarrow> ''LiveGraphImportRegression''
   | LiveGraphImportUnknown \<Rightarrow> ''LiveGraphImportUnknown''
   | LiveGraphCycleDivergence \<Rightarrow> ''LiveGraphCycleDivergence''
   | LiveGraphStatsDivergence \<Rightarrow> ''LiveGraphStatsDivergence''
   | LiveGraphComplexityDivergence \<Rightarrow> ''LiveGraphComplexityDivergence''
   | LiveGraphCallgraphDivergence \<Rightarrow> ''LiveGraphCallgraphDivergence''
   | LiveGraphBoundedServeDeclined \<Rightarrow> ''LiveGraphBoundedServeDeclined''
   | LiveGraphPartitionedViewUnsupported \<Rightarrow> ''LiveGraphPartitionedViewUnsupported''
   | PartitionEvidenceUnreadable \<Rightarrow> ''PartitionEvidenceUnreadable'')"

section \<open>Provenance\<close>

record provenance =
  pr_source :: "source set"
  pr_basis :: "provenance_basis list"
  pr_missing :: "string list"
  pr_fallback :: "coherence_fallback_reason option"

definition provenance_single :: "source \<Rightarrow> provenance" where
  "provenance_single s = \<lparr>pr_source = {s}, pr_basis = [], pr_missing = [], pr_fallback = None\<rparr>"

definition provenance_livegraph :: provenance where
  "provenance_livegraph = provenance_single Livegraph"

definition provenance_sqlite :: provenance where
  "provenance_sqlite = provenance_single Sqlite"

definition provenance_declaration :: provenance where
  "provenance_declaration = provenance_single Declaration"

definition provenance_filesystem :: provenance where
  "provenance_filesystem = provenance_single Filesystem"

definition provenance_sqlite_fallback :: "coherence_fallback_reason \<Rightarrow> provenance" where
  "provenance_sqlite_fallback reason =
     \<lparr>pr_source = {Sqlite}, pr_basis = [], pr_missing = [], pr_fallback = Some reason\<rparr>"

definition provenance_multi :: "source list \<Rightarrow> provenance" where
  "provenance_multi sources =
     \<lparr>pr_source = set sources, pr_basis = [], pr_missing = [], pr_fallback = None\<rparr>"

section \<open>Trust posture\<close>

record trust_posture =
  tp_class :: answer_class
  tp_completeness :: query_completeness
  tp_reasons :: "degradation_reason list"
  tp_languages :: "language_support set"

definition posture_from_answer :: "'a answer_envelope \<Rightarrow> trust_posture" where
  "posture_from_answer env =
     \<lparr>tp_class = env_class env, tp_completeness = env_completeness env, tp_reasons = env_reasons env,
      tp_languages = env_languages env\<rparr>"

definition snapshot_exact :: trust_posture where
  "snapshot_exact = \<lparr>tp_class = Exact, tp_completeness = Complete, tp_reasons = [], tp_languages = {}\<rparr>"

definition snapshot_stale :: trust_posture where
  "snapshot_stale = \<lparr>tp_class = Stale, tp_completeness = Degraded, tp_reasons = [], tp_languages = {}\<rparr>"

definition posture_resolution_only :: trust_posture where
  "posture_resolution_only =
     \<lparr>tp_class = Partial, tp_completeness = Complete, tp_reasons = [], tp_languages = {}\<rparr>"

section \<open>The meet and its ranks\<close>

definition freshness_rank :: "freshness_state \<Rightarrow> nat" where
  "freshness_rank f = (case f of
     F_Unavailable \<Rightarrow> 0 | F_RefreshFailed \<Rightarrow> 1 | F_Stale \<Rightarrow> 2 | F_PrecisionPending \<Rightarrow> 3 | F_Fresh \<Rightarrow> 4)"

definition class_rank :: "answer_class \<Rightarrow> nat" where
  "class_rank c = (case c of Unavailable \<Rightarrow> 0 | Stale \<Rightarrow> 1 | Partial \<Rightarrow> 2 | Exact \<Rightarrow> 3)"

definition completeness_rank :: "query_completeness \<Rightarrow> nat" where
  "completeness_rank c = (case c of Unknown_Completeness \<Rightarrow> 0 | Degraded \<Rightarrow> 1 | Complete \<Rightarrow> 2)"

definition meet_freshness :: "freshness_state list \<Rightarrow> freshness_state" where
  "meet_freshness states = (case min_by_key freshness_rank states of
     None \<Rightarrow> F_Unavailable
   | Some f \<Rightarrow> f)"

text \<open>Both \<open>expect\<close> calls follow the test for the empty slice: the last branch is that test.\<close>

definition meet_trust :: "trust_posture list \<Rightarrow> trust_posture" where
  "meet_trust postures =
     (case (min_by_key class_rank (map tp_class postures),
            min_by_key completeness_rank (map tp_completeness postures)) of
        (Some min_class, Some min_completeness) \<Rightarrow>
          \<lparr>tp_class = min_class, tp_completeness = min_completeness,
           tp_reasons = remdups_adj (sort (concat (map tp_reasons postures))),
           tp_languages = \<Union> (tp_languages ` set postures)\<rparr>
      | _ \<Rightarrow> \<lparr>tp_class = Unavailable, tp_completeness = Unknown_Completeness, tp_reasons = [],
             tp_languages = {}\<rparr>)"

definition class_ceiling :: "freshness_state \<Rightarrow> answer_class" where
  "class_ceiling f = (case f of
     F_Fresh \<Rightarrow> Exact | F_PrecisionPending \<Rightarrow> Partial | F_Stale \<Rightarrow> Stale | F_RefreshFailed \<Rightarrow> Stale
   | F_Unavailable \<Rightarrow> Unavailable)"

definition cap_completeness :: "answer_class \<Rightarrow> query_completeness \<Rightarrow> query_completeness" where
  "cap_completeness cls c = (case cls of
     Exact \<Rightarrow> Complete
   | Unavailable \<Rightarrow> Unknown_Completeness
   | _ \<Rightarrow> if completeness_rank c > completeness_rank Degraded then Degraded else c)"

definition cap_posture :: "trust_posture \<Rightarrow> freshness_state \<Rightarrow> trust_posture" where
  "cap_posture posture freshness =
     (let cls = if class_rank (tp_class posture) > class_rank (class_ceiling freshness)
                then class_ceiling freshness else tp_class posture
      in posture\<lparr>tp_class := cls, tp_completeness := cap_completeness cls (tp_completeness posture)\<rparr>)"

section \<open>The provenance union\<close>

definition push_new :: "'a list \<Rightarrow> 'a \<Rightarrow> 'a list" where
  "push_new xs x = (if x \<in> set xs then xs else xs @ [x])"

definition union_step :: "provenance \<Rightarrow> provenance \<Rightarrow> provenance" where
  "union_step acc p =
     \<lparr>pr_source = pr_source acc \<union> pr_source p,
      pr_basis = foldl push_new (pr_basis acc) (pr_basis p),
      pr_missing = foldl push_new (pr_missing acc) (pr_missing p),
      pr_fallback = (if pr_fallback acc = None then pr_fallback p else pr_fallback acc)\<rparr>"

definition union_provenance :: "provenance list \<Rightarrow> provenance" where
  "union_provenance leaves =
     (let u = foldl union_step \<lparr>pr_source = {}, pr_basis = [], pr_missing = [], pr_fallback = None\<rparr> leaves
      in u\<lparr>pr_missing := sort (pr_missing u)\<rparr>)"

section \<open>Coherence envelopes\<close>

record 'a coherence_envelope =
  ce_value :: 'a
  ce_provenance :: provenance
  ce_trust :: trust_posture
  ce_freshness :: freshness_state

definition coherence_new ::
  "'a \<Rightarrow> provenance \<Rightarrow> trust_posture \<Rightarrow> freshness_state \<Rightarrow> 'a coherence_envelope" where
  "coherence_new v p t f = \<lparr>ce_value = v, ce_provenance = p, ce_trust = t, ce_freshness = f\<rparr>"

definition livegraph_leaf :: "'a \<Rightarrow> 'b answer_envelope \<Rightarrow> 'a coherence_envelope" where
  "livegraph_leaf v answer =
     \<lparr>ce_value = v, ce_provenance = provenance_livegraph, ce_trust = posture_from_answer answer,
      ce_freshness = env_freshness answer\<rparr>"

definition snapshot_posture :: "bool \<Rightarrow> trust_posture \<times> freshness_state" where
  "snapshot_posture stale = (if stale then (snapshot_stale, F_Stale) else (snapshot_exact, F_Fresh))"

definition sqlite_fallback_leaf ::
  "'a \<Rightarrow> coherence_fallback_reason \<Rightarrow> bool \<Rightarrow> 'a coherence_envelope" where
  "sqlite_fallback_leaf v reason stale =
     (let (trust, freshness) = snapshot_posture stale
      in \<lparr>ce_value = v, ce_provenance = provenance_sqlite_fallback reason, ce_trust = trust,
          ce_freshness = freshness\<rparr>)"

definition sqlite_leaf :: "'a \<Rightarrow> bool \<Rightarrow> 'a coherence_envelope" where
  "sqlite_leaf v stale =
     (let (trust, freshness) = snapshot_posture stale
      in \<lparr>ce_value = v, ce_provenance = provenance_sqlite, ce_trust = trust, ce_freshness = freshness\<rparr>)"

definition declaration_leaf :: "'a \<Rightarrow> bool \<Rightarrow> 'a coherence_envelope" where
  "declaration_leaf v stale =
     (let (trust, freshness) = snapshot_posture stale
      in \<lparr>ce_value = v, ce_provenance = provenance_declaration, ce_trust = trust,
          ce_freshness = freshness\<rparr>)"

definition filesystem_leaf :: "'a \<Rightarrow> 'a coherence_envelope" where
  "filesystem_leaf v =
     \<lparr>ce_value = v, ce_provenance = provenance_filesystem, ce_trust = snapshot_exact,
      ce_freshness = F_Fresh\<rparr>"

definition resolution_only :: "'a \<Rightarrow> 'a coherence_envelope" where
  "resolution_only v =
     \<lparr>ce_value = v, ce_provenance = provenance_single Sqlite, ce_trust = posture_resolution_only,
      ce_freshness = F_Fresh\<rparr>"

definition map_value :: "('a \<Rightarrow> 'b) \<Rightarrow> 'a coherence_envelope \<Rightarrow> 'b coherence_envelope" where
  "map_value f e =
     \<lparr>ce_value = f (ce_value e), ce_provenance = ce_provenance e, ce_trust = ce_trust e,
      ce_freshness = ce_freshness e\<rparr>"

definition fold_parts ::
  "'a coherence_envelope list \<Rightarrow> provenance \<times> trust_posture \<times> freshness_state" where
  "fold_parts leaves =
     (let freshness = meet_freshness (map ce_freshness leaves);
          trust = cap_posture (meet_trust (map ce_trust leaves)) freshness;
          prov = union_provenance (map ce_provenance leaves)
      in (prov, trust, freshness))"

definition fold_root :: "'b \<Rightarrow> 'a coherence_envelope list \<Rightarrow> 'b coherence_envelope" where
  "fold_root root_value leaves =
     (let (prov, trust, freshness) = fold_parts leaves
      in \<lparr>ce_value = root_value, ce_provenance = prov, ce_trust = trust, ce_freshness = freshness\<rparr>)"

section \<open>Axes as ranked orders\<close>

locale ranked_axis =
  fixes rank :: "'a \<Rightarrow> nat"
  assumes rank_inj: "inj rank"
begin

lemma rank_eq: "rank a = rank b \<longleftrightarrow> a = b"
  using rank_inj by (auto dest: injD)

text \<open>The meet of a non-empty list is characterised by its rank, the minimum of the ranks.\<close>

lemma meet_rank: "min_by_key rank xs = Some y \<Longrightarrow> rank y = Min (rank ` set xs)"
  using min_by_key_Some [of rank xs y] by (intro Min_eqI [symmetric]) auto

lemma meet_le: "min_by_key rank xs = Some y \<Longrightarrow> x \<in> set xs \<Longrightarrow> rank y \<le> rank x"
  using min_by_key_Some by metis

lemma meet_set_cong:
  assumes "set xs = set ys"
  shows "min_by_key rank xs = min_by_key rank ys"
proof (cases "min_by_key rank ys")
  case None
  with assms show ?thesis by simp
next
  case (Some y)
  with assms min_by_key_Some [of rank ys y] show ?thesis
    by (metis min_by_key_eq rank_inj)
qed

text \<open>The meet of the meets of non-empty groups is the meet of all of their members.\<close>

lemma meet_concat:
  assumes "[] \<notin> set gs"
  shows "min_by_key rank (map (\<lambda>g. the (min_by_key rank g)) gs) = min_by_key rank (concat gs)"
  using assms
proof (induction gs)
  case (Cons g gs)
  obtain y where y: "min_by_key rank g = Some y"
    using Cons.prems by (cases "min_by_key rank g") auto
  have app: "min_by_key rank (a @ b) = (case min_by_key rank a of None \<Rightarrow> min_by_key rank b
     | Some x \<Rightarrow> min_by_key rank (x # b))" for a b
    by (induction a) (auto split: option.splits)
  show ?case
    using Cons.IH Cons.prems y by (simp add: app)
qed simp

end

interpretation fresh_axis: ranked_axis freshness_rank
  by unfold_locales (auto simp: inj_def freshness_rank_def split: freshness_state.splits)

interpretation class_axis: ranked_axis class_rank
  by unfold_locales (auto simp: inj_def class_rank_def split: answer_class.splits)

interpretation completeness_axis: ranked_axis completeness_rank
  by unfold_locales (auto simp: inj_def completeness_rank_def split: query_completeness.splits)


section \<open>Leaves\<close>

text \<open>The leaves the constructors build, from answers that the trust model can mint.\<close>

inductive built_leaf :: "'a coherence_envelope \<Rightarrow> bool" where
  livegraph: "minted (answer :: unit answer_envelope) \<Longrightarrow> built_leaf (livegraph_leaf v answer)"
| sqlite_fallback: "built_leaf (sqlite_fallback_leaf v reason stale)"
| sqlite: "built_leaf (sqlite_leaf v stale)"
| authority: "built_leaf (declaration_leaf v stale)"
| filesystem: "built_leaf (filesystem_leaf v)"
| resolution: "built_leaf (resolution_only v)"
| root: "\<forall>l \<in> set leaves. built_leaf l \<Longrightarrow> built_leaf (fold_root v leaves)"

definition sound_posture :: "trust_posture \<Rightarrow> bool" where
  "sound_posture t \<longleftrightarrow> tp_class t \<noteq> Exact \<or> tp_completeness t = Complete"

lemma sound_posture_cap [simp]: "sound_posture (cap_posture p f)"
  by (simp add: sound_posture_def cap_posture_def cap_completeness_def Let_def)

lemma fold_root_sel [simp]:
  "ce_value (fold_root v leaves) = v"
  "ce_provenance (fold_root v leaves) = union_provenance (map ce_provenance leaves)"
  "ce_trust (fold_root v leaves) =
     cap_posture (meet_trust (map ce_trust leaves)) (meet_freshness (map ce_freshness leaves))"
  "ce_freshness (fold_root v leaves) = meet_freshness (map ce_freshness leaves)"
  by (simp_all add: fold_root_def fold_parts_def Let_def)

lemma built_leaf_sound: "built_leaf l \<Longrightarrow> sound_posture (ce_trust l)"
proof (induction rule: built_leaf.induct)
  case (livegraph answer v)
  then show ?case
    using minted_checked [of answer]
    by (auto simp: livegraph_leaf_def sound_posture_def posture_from_answer_def checked_envelope_def)
next
  case (root leaves v)
  then show ?case by simp
qed (auto simp: sqlite_fallback_leaf_def sqlite_leaf_def declaration_leaf_def filesystem_leaf_def
      resolution_only_def snapshot_posture_def snapshot_stale_def snapshot_exact_def
      posture_resolution_only_def sound_posture_def split: prod.splits)

section \<open>The fold as a minimum\<close>

lemma meet_freshness_rank:
  "fs \<noteq> [] \<Longrightarrow> freshness_rank (meet_freshness fs) = Min (freshness_rank ` set fs)"
  using fresh_axis.meet_rank
  by (cases "min_by_key freshness_rank fs") (auto simp: meet_freshness_def)

lemma meet_trust_sel:
  assumes "ps \<noteq> []"
  shows "min_by_key class_rank (map tp_class ps) = Some (tp_class (meet_trust ps))"
    and "min_by_key completeness_rank (map tp_completeness ps) = Some (tp_completeness (meet_trust ps))"
    and "tp_reasons (meet_trust ps) = sorted_list_of_set (\<Union> (set ` tp_reasons ` set ps))"
    and "tp_languages (meet_trust ps) = \<Union> (tp_languages ` set ps)"
proof -
  obtain c k where "min_by_key class_rank (map tp_class ps) = Some c"
    and "min_by_key completeness_rank (map tp_completeness ps) = Some k"
    using assms by (metis Nil_is_map_conv min_by_key_None not_None_eq)
  then have eq: "meet_trust ps = \<lparr>tp_class = c, tp_completeness = k,
      tp_reasons = remdups_adj (sort (concat (map tp_reasons ps))), tp_languages = \<Union> (tp_languages ` set ps)\<rparr>"
    and "min_by_key class_rank (map tp_class ps) = Some c"
    and "min_by_key completeness_rank (map tp_completeness ps) = Some k"
    by (simp_all add: meet_trust_def)
  then show "min_by_key class_rank (map tp_class ps) = Some (tp_class (meet_trust ps))"
    "min_by_key completeness_rank (map tp_completeness ps) = Some (tp_completeness (meet_trust ps))"
    "tp_languages (meet_trust ps) = \<Union> (tp_languages ` set ps)"
    by simp_all
  from eq
  show "tp_reasons (meet_trust ps) = sorted_list_of_set (\<Union> (set ` tp_reasons ` set ps))"
    by (simp add: image_image sort_dedup)
qed

text \<open>
  What a leaf can contribute to the class and to the completeness of a root: its own value, capped by
  what its freshness, and then its class, permit.
\<close>

definition leaf_class :: "'a coherence_envelope \<Rightarrow> nat" where
  "leaf_class l = min (class_rank (tp_class (ce_trust l))) (class_rank (class_ceiling (ce_freshness l)))"

definition completeness_ceiling :: "nat \<Rightarrow> nat" where
  "completeness_ceiling c = (if c = 0 then 0 else if c < 3 then 1 else 2)"

definition leaf_completeness :: "'a coherence_envelope \<Rightarrow> nat" where
  "leaf_completeness l =
     min (completeness_rank (tp_completeness (ce_trust l))) (completeness_ceiling (leaf_class l))"

lemma class_ceiling_mono:
  "freshness_rank a \<le> freshness_rank b \<Longrightarrow> class_rank (class_ceiling a) \<le> class_rank (class_ceiling b)"
  by (cases a; cases b; simp add: freshness_rank_def class_ceiling_def class_rank_def)

lemma completeness_ceiling_mono: "a \<le> b \<Longrightarrow> completeness_ceiling a \<le> completeness_ceiling b"
  by (simp add: completeness_ceiling_def)

lemma cap_class_rank:
  "class_rank (tp_class (cap_posture p f)) = min (class_rank (tp_class p)) (class_rank (class_ceiling f))"
  by (simp add: cap_posture_def Let_def)

lemma cap_completeness_rank:
  assumes "tp_class (cap_posture p f) = Exact \<Longrightarrow> tp_completeness p = Complete"
  shows "completeness_rank (tp_completeness (cap_posture p f)) =
    min (completeness_rank (tp_completeness p))
      (completeness_ceiling (class_rank (tp_class (cap_posture p f))))"
  using assms
  by (cases "tp_class (cap_posture p f)"; cases "tp_completeness p")
    (auto simp: cap_posture_def Let_def cap_completeness_def completeness_rank_def class_rank_def
      completeness_ceiling_def split: if_splits)

text \<open>Both axes of a root are the minimum over its leaves.\<close>

lemma fold_root_freshness:
  "leaves \<noteq> [] \<Longrightarrow> freshness_rank (ce_freshness (fold_root v leaves)) =
     Min ((\<lambda>l. freshness_rank (ce_freshness l)) ` set leaves)"
  by (simp add: meet_freshness_rank image_image)

lemma fold_root_class:
  assumes "leaves \<noteq> []"
  shows "class_rank (tp_class (ce_trust (fold_root v leaves))) = Min (leaf_class ` set leaves)"
proof -
  let ?F = "meet_freshness (map ce_freshness leaves)" and ?T = "meet_trust (map ce_trust leaves)"
  have F: "min_by_key freshness_rank (map ce_freshness leaves) = Some ?F"
    using assms by (simp add: meet_freshness_def split: option.split)
  have C: "min_by_key class_rank (map tp_class (map ce_trust leaves)) = Some (tp_class ?T)"
    using meet_trust_sel(1) assms by blast
  obtain lf lc where lf: "lf \<in> set leaves" "?F = ce_freshness lf"
    and lc: "lc \<in> set leaves" "tp_class ?T = tp_class (ce_trust lc)"
    using min_by_key_Some [OF F] min_by_key_Some [OF C] by auto
  have le: "class_rank (tp_class ?T) \<le> class_rank (tp_class (ce_trust l))"
    "class_rank (class_ceiling ?F) \<le> class_rank (class_ceiling (ce_freshness l))" if "l \<in> set leaves" for l
    using that class_axis.meet_le [OF C] fresh_axis.meet_le [OF F] class_ceiling_mono by auto
  have "Min (leaf_class ` set leaves) = min (class_rank (tp_class ?T)) (class_rank (class_ceiling ?F))"
  proof (rule Min_eqI)
    fix y assume "y \<in> leaf_class ` set leaves"
    then show "min (class_rank (tp_class ?T)) (class_rank (class_ceiling ?F)) \<le> y"
      using le by (force simp: leaf_class_def min_def)
  next
    show "min (class_rank (tp_class ?T)) (class_rank (class_ceiling ?F)) \<in> leaf_class ` set leaves"
    proof (cases "class_rank (tp_class ?T) \<le> class_rank (class_ceiling ?F)")
      case True
      then have "min (class_rank (tp_class ?T)) (class_rank (class_ceiling ?F)) = leaf_class lc"
        using le(2) [OF lc(1)] lc(2) by (simp add: leaf_class_def)
      then show ?thesis using lc(1) by simp
    next
      case False
      then have "min (class_rank (tp_class ?T)) (class_rank (class_ceiling ?F)) = leaf_class lf"
        using le(1) [OF lf(1)] lf(2) by (simp add: leaf_class_def)
      then show ?thesis using lf(1) by simp
    qed
  qed simp
  then show ?thesis by (simp add: cap_class_rank)
qed

lemma class_rank_Exact [simp]: "class_rank c = 3 \<longleftrightarrow> c = Exact" "3 \<le> class_rank c \<longleftrightarrow> c = Exact"
  by (cases c; simp add: class_rank_def)+

lemma class_ceiling_Exact [simp]: "class_ceiling f = Exact \<longleftrightarrow> f = F_Fresh"
  by (cases f) (simp_all add: class_ceiling_def)

lemma leaf_class_Exact:
  "leaf_class l = 3 \<longleftrightarrow> tp_class (ce_trust l) = Exact \<and> ce_freshness l = F_Fresh"
  "3 \<le> leaf_class l \<longleftrightarrow> tp_class (ce_trust l) = Exact \<and> ce_freshness l = F_Fresh"
  by (cases "tp_class (ce_trust l)"; cases "ce_freshness l";
      simp add: leaf_class_def class_rank_def class_ceiling_def)+

lemma fold_root_Exact:
  "tp_class (ce_trust (fold_root v leaves)) = Exact \<longleftrightarrow>
     leaves \<noteq> [] \<and> list_all (\<lambda>l. tp_class (ce_trust l) = Exact \<and> ce_freshness l = F_Fresh) leaves"
proof (cases "leaves = []")
  case True
  then show ?thesis
    by (simp add: meet_trust_def meet_freshness_def cap_posture_def class_ceiling_def class_rank_def)
next
  case False
  have "tp_class (ce_trust (fold_root v leaves)) = Exact \<longleftrightarrow> 3 \<le> Min (leaf_class ` set leaves)"
    by (metis class_rank_Exact(2) fold_root_class [OF False])
  also have "\<dots> \<longleftrightarrow> (\<forall>l \<in> set leaves. 3 \<le> leaf_class l)"
    using False by (subst Min_ge_iff) auto
  finally show ?thesis
    using False by (simp add: leaf_class_Exact list_all_iff)
qed

lemma Min_attained: "xs \<noteq> [] \<Longrightarrow> \<exists>x \<in> set xs. (f :: 'a \<Rightarrow> nat) x = Min (f ` set xs)"
  by (rule imageE [OF Min_in [of "f ` set xs"]]) auto

lemma fold_root_completeness:
  assumes ne: "leaves \<noteq> []" and sound: "list_all (\<lambda>l. sound_posture (ce_trust l)) leaves"
  shows "completeness_rank (tp_completeness (ce_trust (fold_root v leaves))) =
    Min (leaf_completeness ` set leaves)"
proof -
  let ?K = "completeness_rank (tp_completeness (meet_trust (map ce_trust leaves)))"
  let ?c = "Min (leaf_class ` set leaves)"
  have K: "min_by_key completeness_rank (map tp_completeness (map ce_trust leaves)) =
      Some (tp_completeness (meet_trust (map ce_trust leaves)))"
    using meet_trust_sel(2) ne by blast
  obtain lk where lk: "lk \<in> set leaves" "?K = completeness_rank (tp_completeness (ce_trust lk))"
    using min_by_key_Some [OF K] by auto
  have K_le: "?K \<le> completeness_rank (tp_completeness (ce_trust l))" if "l \<in> set leaves" for l
    using that completeness_axis.meet_le [OF K] by simp
  obtain lc where lc: "lc \<in> set leaves" "leaf_class lc = ?c"
    using Min_attained [OF ne, of leaf_class] by blast
  have c_le: "completeness_ceiling ?c \<le> completeness_ceiling (leaf_class l)" if "l \<in> set leaves" for l
    using that by (simp add: completeness_ceiling_mono)
  have "tp_completeness (meet_trust (map ce_trust leaves)) = Complete"
    if "tp_class (ce_trust (fold_root v leaves)) = Exact"
    using that fold_root_Exact [of v leaves] sound lk
    by (simp add: list_all_iff sound_posture_def flip: completeness_axis.rank_eq)
  then have "completeness_rank (tp_completeness (ce_trust (fold_root v leaves))) =
      min ?K (completeness_ceiling ?c)"
    using cap_completeness_rank fold_root_class [OF ne, of v] by (metis fold_root_sel(3))
  also have "\<dots> = Min (leaf_completeness ` set leaves)"
  proof (rule Min_eqI [symmetric])
    fix y assume "y \<in> leaf_completeness ` set leaves"
    then show "min ?K (completeness_ceiling ?c) \<le> y"
      using K_le c_le by (force simp: leaf_completeness_def min_def)
  next
    show "min ?K (completeness_ceiling ?c) \<in> leaf_completeness ` set leaves"
    proof (cases "?K \<le> completeness_ceiling ?c")
      case True
      then have "min ?K (completeness_ceiling ?c) = leaf_completeness lk"
        using c_le [OF lk(1)] lk(2) by (simp add: leaf_completeness_def)
      then show ?thesis using lk(1) by simp
    next
      case False
      then have "min ?K (completeness_ceiling ?c) = leaf_completeness lc"
        using K_le [OF lc(1)] lc(2) by (simp add: leaf_completeness_def)
      then show ?thesis using lc(1) by simp
    qed
  qed simp
  finally show ?thesis .
qed

section \<open>The provenance of a root\<close>

lemma set_push_new [simp]: "set (foldl push_new acc xs) = set acc \<union> set xs"
  by (induction xs arbitrary: acc) (auto simp: push_new_def)

lemma distinct_push_new: "distinct acc \<Longrightarrow> distinct (foldl push_new acc xs)"
  by (induction xs arbitrary: acc) (auto simp: push_new_def)

lemma push_new_absorb: "foldl push_new acc (foldl push_new [] xs) = foldl push_new acc xs"
  by (induction xs rule: rev_induct) (auto simp: push_new_def [of "foldl push_new _ _"])

fun first_fallback :: "provenance list \<Rightarrow> coherence_fallback_reason option" where
  "first_fallback [] = None"
| "first_fallback (p # ps) = (if pr_fallback p = None then first_fallback ps else pr_fallback p)"

lemma union_provenance_sel [simp]:
  "pr_source (union_provenance ps) = \<Union> (pr_source ` set ps)"
  "pr_basis (union_provenance ps) = foldl push_new [] (concat (map pr_basis ps))"
  "pr_missing (union_provenance ps) = sorted_list_of_set (\<Union> (set ` pr_missing ` set ps))"
  "pr_fallback (union_provenance ps) = first_fallback ps"
proof -
  have fold: "pr_source (foldl union_step acc ps) = pr_source acc \<union> \<Union> (pr_source ` set ps) \<and>
    pr_basis (foldl union_step acc ps) = foldl push_new (pr_basis acc) (concat (map pr_basis ps)) \<and>
    pr_missing (foldl union_step acc ps) = foldl push_new (pr_missing acc) (concat (map pr_missing ps)) \<and>
    pr_fallback (foldl union_step acc ps) =
      (if pr_fallback acc = None then first_fallback ps else pr_fallback acc)" for acc
    by (induction ps arbitrary: acc) (auto simp: union_step_def)
  have "sort (foldl push_new [] xs) = sorted_list_of_set (set xs)" for xs :: "string list"
    using sorted_list_of_set.idem_if_sorted_distinct [of "sort (foldl push_new [] xs)"]
    by (simp add: distinct_push_new)
  then show "pr_source (union_provenance ps) = \<Union> (pr_source ` set ps)"
    "pr_basis (union_provenance ps) = foldl push_new [] (concat (map pr_basis ps))"
    "pr_missing (union_provenance ps) = sorted_list_of_set (\<Union> (set ` pr_missing ` set ps))"
    "pr_fallback (union_provenance ps) = first_fallback ps"
    by (simp_all add: union_provenance_def Let_def fold image_image)
qed

lemma first_fallback_append:
  "first_fallback (ps @ qs) = (if first_fallback ps = None then first_fallback qs else first_fallback ps)"
  by (induction ps) auto

lemma union_provenance_concat:
  "union_provenance (map union_provenance gs) = union_provenance (concat gs)"
proof (rule provenance.equality)
  show "pr_source (union_provenance (map union_provenance gs)) = pr_source (union_provenance (concat gs))"
    by auto
  have "foldl push_new acc (concat (map (\<lambda>g. foldl push_new [] (concat (map pr_basis g))) gs)) =
      foldl push_new acc (concat (map pr_basis (concat gs)))" for acc
    by (induction gs arbitrary: acc) (simp_all add: push_new_absorb)
  then show "pr_basis (union_provenance (map union_provenance gs)) = pr_basis (union_provenance (concat gs))"
    by (simp add: comp_def)
  show "pr_missing (union_provenance (map union_provenance gs)) = pr_missing (union_provenance (concat gs))"
    by (auto intro!: arg_cong [where f = sorted_list_of_set] simp: image_image)
  have "first_fallback (map union_provenance gs) = first_fallback (concat gs)"
    by (induction gs) (auto simp: first_fallback_append)
  then show "pr_fallback (union_provenance (map union_provenance gs)) =
      pr_fallback (union_provenance (concat gs))"
    by simp
qed simp

section \<open>Folding folds\<close>

lemma Min_of_groups:
  fixes f :: "'a \<Rightarrow> nat" and h :: "'b \<Rightarrow> nat"
  assumes "gs \<noteq> []" and "[] \<notin> set gs" and "\<And>g. g \<in> set gs \<Longrightarrow> h (F g) = Min (f ` set g)"
  shows "Min (h ` set (map F gs)) = Min (f ` set (concat gs))"
  using assms
proof (induction gs rule: list_nonempty_induct)
  case (cons g gs)
  have "concat gs \<noteq> []"
    using cons.hyps cons.prems(1) by (cases gs) auto
  then have "Min (f ` set (g @ concat gs)) = min (Min (f ` set g)) (Min (f ` set (concat gs)))"
    using cons.prems(1) unfolding set_append image_Un by (intro Min_Un) (simp_all add: neq_Nil_conv, metis list.exhaust)
  with cons show ?case by simp
qed simp

lemma leaf_class_fold_root:
  assumes "leaves \<noteq> []"
  shows "leaf_class (fold_root v leaves) = class_rank (tp_class (ce_trust (fold_root v leaves)))"
  by (simp add: leaf_class_def cap_class_rank)

lemma leaf_completeness_fold_root:
  assumes "leaves \<noteq> []" and "list_all (\<lambda>l. sound_posture (ce_trust l)) leaves"
  shows "leaf_completeness (fold_root v leaves) =
    completeness_rank (tp_completeness (ce_trust (fold_root v leaves)))"
proof -
  have "Min (leaf_completeness ` set leaves) \<le> completeness_ceiling (Min (leaf_class ` set leaves))"
  proof -
    obtain l where l: "l \<in> set leaves" "leaf_class l = Min (leaf_class ` set leaves)"
      using Min_attained [OF assms(1), of leaf_class] by blast
    then have "Min (leaf_completeness ` set leaves) \<le> leaf_completeness l" by simp
    also have "\<dots> \<le> completeness_ceiling (leaf_class l)" by (simp add: leaf_completeness_def)
    finally show ?thesis using l(2) by simp
  qed
  then show ?thesis
    using fold_root_completeness [OF assms, of v] fold_root_class [OF assms(1), of v]
      leaf_completeness_def [of "fold_root v leaves"] leaf_class_fold_root [OF assms(1), of v]
    by (metis min_absorb1)
qed

lemma sorted_list_of_Union [simp]:
  fixes X :: "'b \<Rightarrow> 'a :: linorder list"
  shows "set (sorted_list_of_set (\<Union> (set ` X ` set xs))) = \<Union> (set ` X ` set xs)"
  by simp

lemma fold_groups:
  assumes ne: "[] \<notin> set gs" and sound: "list_all (\<lambda>l. sound_posture (ce_trust l)) (concat gs)"
  shows "fold_root v (map (fold_root u) gs) = fold_root v (concat gs)"
proof (cases "gs = []")
  case True
  then show ?thesis by simp
next
  case False
  let ?R = "fold_root v (map (fold_root u) gs)" and ?S = "fold_root v (concat gs)"
  have neC: "concat gs \<noteq> []" and neM: "map (fold_root u) gs \<noteq> []"
    using False ne by (cases gs; auto)+
  have each: "g \<noteq> []" "list_all (\<lambda>l. sound_posture (ce_trust l)) g" if "g \<in> set gs" for g
    using that ne sound by (auto simp: list_all_iff)
  have soundM: "list_all (\<lambda>l. sound_posture (ce_trust l)) (map (fold_root u) gs)"
    by (simp add: list_all_iff)
  have fresh: "ce_freshness ?R = ce_freshness ?S"
    unfolding fresh_axis.rank_eq [symmetric] fold_root_freshness [OF neC] fold_root_freshness [OF neM]
    using False ne by (rule Min_of_groups) (rule fold_root_freshness [OF each(1)])
  have cls: "tp_class (ce_trust ?R) = tp_class (ce_trust ?S)"
    unfolding class_axis.rank_eq [symmetric] fold_root_class [OF neC] fold_root_class [OF neM]
    using False ne by (rule Min_of_groups) (metis leaf_class_fold_root fold_root_class each(1))
  have compl: "tp_completeness (ce_trust ?R) = tp_completeness (ce_trust ?S)"
    unfolding completeness_axis.rank_eq [symmetric] fold_root_completeness [OF neC sound]
      fold_root_completeness [OF neM soundM]
    using False ne by (rule Min_of_groups) (metis leaf_completeness_fold_root fold_root_completeness each)
  have unions: "tp_reasons (ce_trust (fold_root w ls)) = sorted_list_of_set (\<Union> (set ` tp_reasons ` ce_trust ` set ls))"
    "tp_languages (ce_trust (fold_root w ls)) = \<Union> (tp_languages ` ce_trust ` set ls)" if "ls \<noteq> []" for w ls
    using that by (simp_all add: cap_posture_def Let_def meet_trust_sel image_image)
  have "ce_trust ?R = ce_trust ?S"
  proof (rule trust_posture.equality)
    show "tp_reasons (ce_trust ?R) = tp_reasons (ce_trust ?S)"
      unfolding unions(1) [OF neM] unions(1) [OF neC] image_image set_map
      by (rule arg_cong [where f = sorted_list_of_set])
        (simp add: unions(1) [OF each(1)] image_image del: fold_root_sel)
    show "tp_languages (ce_trust ?R) = tp_languages (ce_trust ?S)"
      unfolding unions(2) [OF neM] unions(2) [OF neC] image_image set_map
      by (simp add: unions(2) [OF each(1)] image_image del: fold_root_sel)
  qed (use cls compl in simp_all)
  with fresh show ?thesis
    using union_provenance_concat [of "map (map ce_provenance) gs"]
    by (intro coherence_envelope.equality) (simp_all add: comp_def map_concat)
qed

section \<open>Properties\<close>

definition demo_leaves :: "nat coherence_envelope list" where
  "demo_leaves = [sqlite_leaf 1 False, sqlite_fallback_leaf 2 LiveGraphStale True, filesystem_leaf 3]"

lemma demo_leaves_built [simp]: "l \<in> set demo_leaves \<Longrightarrow> built_leaf l"
  by (auto simp: demo_leaves_def intro: built_leaf.intros)

text \<open>
  C27. No false completeness: the root folded from leaves that the constructors build is \<open>Exact\<close>
  exactly when there is a leaf and every leaf is \<open>Exact\<close> and \<open>Fresh\<close>; a root is \<open>Exact\<close> only when it is
  also \<open>Complete\<close> and \<open>Fresh\<close>; and on every axis it is at or below each leaf, while it keeps each leaf's
  sources, missing partitions, reasons and languages.
\<close>

theorem fold_root_no_false_exact:
  assumes "\<forall>l \<in> set leaves. built_leaf l"
  shows "(tp_class (ce_trust (fold_root v leaves)) = Exact \<longleftrightarrow>
      leaves \<noteq> [] \<and> list_all (\<lambda>l. tp_class (ce_trust l) = Exact \<and> ce_freshness l = F_Fresh) leaves) \<and>
    (tp_class (ce_trust (fold_root v leaves)) = Exact \<longrightarrow>
      tp_completeness (ce_trust (fold_root v leaves)) = Complete \<and>
      ce_freshness (fold_root v leaves) = F_Fresh) \<and>
    list_all (\<lambda>l.
      freshness_rank (ce_freshness (fold_root v leaves)) \<le> freshness_rank (ce_freshness l) \<and>
      class_rank (tp_class (ce_trust (fold_root v leaves))) \<le> class_rank (tp_class (ce_trust l)) \<and>
      completeness_rank (tp_completeness (ce_trust (fold_root v leaves)))
        \<le> completeness_rank (tp_completeness (ce_trust l)) \<and>
      pr_source (ce_provenance l) \<subseteq> pr_source (ce_provenance (fold_root v leaves)) \<and>
      set (pr_missing (ce_provenance l)) \<subseteq> set (pr_missing (ce_provenance (fold_root v leaves))) \<and>
      set (tp_reasons (ce_trust l)) \<subseteq> set (tp_reasons (ce_trust (fold_root v leaves))) \<and>
      tp_languages (ce_trust l) \<subseteq> tp_languages (ce_trust (fold_root v leaves))) leaves"
proof (intro conjI impI)
  let ?R = "fold_root v leaves"
  show exact: "tp_class (ce_trust ?R) = Exact \<longleftrightarrow>
      leaves \<noteq> [] \<and> list_all (\<lambda>l. tp_class (ce_trust l) = Exact \<and> ce_freshness l = F_Fresh) leaves"
    by (rule fold_root_Exact)
  assume ex: "tp_class (ce_trust ?R) = Exact"
  then show "tp_completeness (ce_trust ?R) = Complete"
    using sound_posture_cap unfolding sound_posture_def fold_root_sel by blast
  have "leaf_class ?R = 3"
    using ex exact leaf_class_fold_root [of leaves v] by (metis class_rank_Exact(1))
  then show "ce_freshness ?R = F_Fresh" by (simp only: leaf_class_Exact)
next
  let ?R = "fold_root v leaves"
  have sound: "list_all (\<lambda>l. sound_posture (ce_trust l)) leaves"
    using assms built_leaf_sound by (auto simp: list_all_iff)
  have "freshness_rank (ce_freshness ?R) \<le> freshness_rank (ce_freshness l)"
    "class_rank (tp_class (ce_trust ?R)) \<le> class_rank (tp_class (ce_trust l))"
    "completeness_rank (tp_completeness (ce_trust ?R)) \<le> completeness_rank (tp_completeness (ce_trust l))"
    "pr_source (ce_provenance l) \<subseteq> pr_source (ce_provenance ?R)"
    "set (pr_missing (ce_provenance l)) \<subseteq> set (pr_missing (ce_provenance ?R))"
    "set (tp_reasons (ce_trust l)) \<subseteq> set (tp_reasons (ce_trust ?R))"
    "tp_languages (ce_trust l) \<subseteq> tp_languages (ce_trust ?R)" if l: "l \<in> set leaves" for l
  proof -
    have ne: "leaves \<noteq> []" using l by auto
    have "Min (leaf_class ` set leaves) \<le> leaf_class l"
      "Min (leaf_completeness ` set leaves) \<le> leaf_completeness l" using l by simp_all
    then show "class_rank (tp_class (ce_trust ?R)) \<le> class_rank (tp_class (ce_trust l))"
      "completeness_rank (tp_completeness (ce_trust ?R)) \<le> completeness_rank (tp_completeness (ce_trust l))"
      unfolding fold_root_class [OF ne] fold_root_completeness [OF ne sound]
      by (simp_all add: leaf_class_def leaf_completeness_def)
    show "freshness_rank (ce_freshness ?R) \<le> freshness_rank (ce_freshness l)"
      unfolding fold_root_freshness [OF ne] using l by simp
    show "pr_source (ce_provenance l) \<subseteq> pr_source (ce_provenance ?R)"
      "set (pr_missing (ce_provenance l)) \<subseteq> set (pr_missing (ce_provenance ?R))"
      "set (tp_reasons (ce_trust l)) \<subseteq> set (tp_reasons (ce_trust ?R))"
      "tp_languages (ce_trust l) \<subseteq> tp_languages (ce_trust ?R)"
      using l ne by (auto simp: cap_posture_def Let_def meet_trust_sel)
  qed
  then show "list_all (\<lambda>l.
      freshness_rank (ce_freshness ?R) \<le> freshness_rank (ce_freshness l) \<and>
      class_rank (tp_class (ce_trust ?R)) \<le> class_rank (tp_class (ce_trust l)) \<and>
      completeness_rank (tp_completeness (ce_trust ?R)) \<le> completeness_rank (tp_completeness (ce_trust l)) \<and>
      pr_source (ce_provenance l) \<subseteq> pr_source (ce_provenance ?R) \<and>
      set (pr_missing (ce_provenance l)) \<subseteq> set (pr_missing (ce_provenance ?R)) \<and>
      set (tp_reasons (ce_trust l)) \<subseteq> set (tp_reasons (ce_trust ?R)) \<and>
      tp_languages (ce_trust l) \<subseteq> tp_languages (ce_trust ?R)) leaves"
    unfolding list_all_iff by blast
qed

theorem fold_root_no_false_exact_witness:
  "tp_class (ce_trust (fold_root () demo_leaves)) \<noteq> Exact \<and>
   freshness_rank (ce_freshness (fold_root () demo_leaves)) \<le> freshness_rank F_Stale"
  using fold_root_no_false_exact [of demo_leaves "()"]
  by (simp add: demo_leaves_def sqlite_leaf_def sqlite_fallback_leaf_def filesystem_leaf_def
      snapshot_posture_def snapshot_exact_def snapshot_stale_def
      built_leaf.intros [unfolded sqlite_leaf_def sqlite_fallback_leaf_def filesystem_leaf_def
        snapshot_posture_def snapshot_exact_def snapshot_stale_def])

text \<open>
  Folding is compositional: folding the roots of non-empty groups of leaves gives the envelope that
  folding all of their leaves at once gives, on every field: class, completeness, freshness, reasons,
  languages, sources, bases, missing partitions and the first fallback.
\<close>

theorem fold_root_of_roots:
  assumes "\<forall>g \<in> set groups. g \<noteq> []" and "\<forall>g \<in> set groups. \<forall>l \<in> set g. built_leaf l"
  shows "fold_root v (map (fold_root u) groups) = fold_root v (concat groups)"
  by (rule fold_groups) (use assms built_leaf_sound in \<open>auto simp: list_all_iff\<close>)

theorem fold_root_of_roots_witness:
  "fold_root () (map (fold_root (0 :: nat)) [demo_leaves, [filesystem_leaf 4]]) =
     fold_root () (concat [demo_leaves, [filesystem_leaf 4]])"
  by (rule fold_root_of_roots) (auto simp: demo_leaves_def intro: built_leaf.intros)

end
