(* ===== verification/Rust_Collections.thy ===== *)
theory Rust_Collections
  imports Rust_Prelude
begin

text \<open>
  Splitting and joining of strings, ordered maps and the iteration order of hash maps.
  A \<open>BTreeMap\<close> whose iteration order matters is the list of its entries by ascending key; a \<open>HashMap\<close>
  is a map together with, where it is iterated, the order in which it yields its keys.
\<close>

section \<open>Segments\<close>

text \<open>\<open>str::split(c)\<close>, which yields at least one segment, and \<open>[T]::join\<close>.\<close>

fun split_on :: "char \<Rightarrow> string \<Rightarrow> string list" where
  "split_on c [] = [[]]"
| "split_on c (x # xs) =
     (if x = c then [] # split_on c xs
      else case split_on c xs of [] \<Rightarrow> [[x]] | s # ss \<Rightarrow> (x # s) # ss)"

fun join_with :: "char \<Rightarrow> string list \<Rightarrow> string" where
  "join_with c [] = []"
| "join_with c [s] = s"
| "join_with c (s # t # ss) = s @ c # join_with c (t # ss)"

lemma split_on_nonempty [simp]: "split_on c s \<noteq> []"
  by (cases s) (auto split: list.splits)

lemma split_on_no_sep: "seg \<in> set (split_on c s) \<Longrightarrow> c \<notin> set seg"
  by (induction s arbitrary: seg) (auto split: if_splits list.splits)

lemma join_split [simp]: "join_with c (split_on c s) = s"
proof (induction s)
  case (Cons x s)
  then show ?case
    by (cases "split_on c s" rule: list.exhaust; cases "tl (split_on c s)") (auto simp: neq_Nil_conv)
qed simp

lemma split_on_no_occ: "c \<notin> set s \<Longrightarrow> split_on c s = [s]"
  by (induction s) auto

lemma split_on_append: "c \<notin> set s \<Longrightarrow> split_on c (s @ c # t) = s # split_on c t"
  by (induction s) auto

lemma split_join:
  "segs \<noteq> [] \<Longrightarrow> (\<forall>s \<in> set segs. c \<notin> set s) \<Longrightarrow> split_on c (join_with c segs) = segs"
  by (induction c segs rule: join_with.induct) (auto simp: split_on_no_occ split_on_append)

text \<open>\<open>str::strip_suffix\<close> and \<open>str::replacen(c, r, 1)\<close>.\<close>

definition strip_suffix :: "string \<Rightarrow> string \<Rightarrow> string option" where
  "strip_suffix s p = (if ends_with s p then Some (take (length s - length p) s) else None)"

lemma strip_suffix_Some: "strip_suffix s p = Some r \<longleftrightarrow> s = r @ p"
  by (auto simp: strip_suffix_def ends_with_iff)

definition replace_first :: "string \<Rightarrow> char \<Rightarrow> string \<Rightarrow> string" where
  "replace_first s c r = (case split_once s c of None \<Rightarrow> s | Some (a, b) \<Rightarrow> a @ r @ b)"

section \<open>Ordered maps\<close>

fun btree_insert :: "'k :: linorder \<Rightarrow> 'v \<Rightarrow> ('k \<times> 'v) list \<Rightarrow> ('k \<times> 'v) list" where
  "btree_insert k v [] = [(k, v)]"
| "btree_insert k v ((k', v') # m) =
     (if k < k' then (k, v) # (k', v') # m
      else if k = k' then (k, v) # m
      else (k', v') # btree_insert k v m)"

definition btree_of :: "('k :: linorder \<times> 'v) list \<Rightarrow> ('k \<times> 'v) list" where
  "btree_of kvs = foldl (\<lambda>m (k, v). btree_insert k v m) [] kvs"

definition btree_ok :: "('k :: linorder \<times> 'v) list \<Rightarrow> bool" where
  "btree_ok m \<longleftrightarrow> sorted (map fst m) \<and> distinct (map fst m)"

lemma btree_insert_keys [simp]: "fst ` set (btree_insert k v m) = insert k (fst ` set m)"
  by (induction k v m rule: btree_insert.induct) (simp_all add: insert_commute)

lemma btree_insert_ok: "btree_ok m \<Longrightarrow> btree_ok (btree_insert k v m)"
proof (induction m)
  case (Cons a m)
  then show ?case
    by (cases a) (auto simp: btree_ok_def not_less order.strict_iff_order
      simp flip: set_map simp del: set_map simp: btree_insert_keys [unfolded set_map [symmetric]])
qed (simp add: btree_ok_def)

lemma map_of_btree_insert [simp]:
  "btree_ok m \<Longrightarrow> map_of (btree_insert k v m) = (map_of m)(k \<mapsto> v)"
proof (induction m)
  case (Cons a m)
  then show ?case
    by (cases a) (auto simp: btree_ok_def fun_eq_iff)
qed simp

lemma btree_of_fold:
  assumes "btree_ok m"
  shows "btree_ok (foldl (\<lambda>m (k, v). btree_insert k v m) m kvs) \<and>
    map_of (foldl (\<lambda>m (k, v). btree_insert k v m) m kvs) = map_of m ++ map_of (rev kvs)"
  using assms
proof (induction kvs arbitrary: m)
  case (Cons a kvs)
  obtain k v where "a = (k, v)" by force
  with Cons show ?case
    by (auto simp: btree_insert_ok map_add_def fun_eq_iff split: option.splits)
qed simp

lemma btree_of_ok [simp]: "btree_ok (btree_of kvs)"
  using btree_of_fold [of "[]" kvs] by (simp add: btree_of_def btree_ok_def)

lemma map_of_btree_of [simp]: "map_of (btree_of kvs) = map_of (rev kvs)"
  using btree_of_fold [of "[]" kvs] by (simp add: btree_of_def btree_ok_def)

lemma set_btree_ok: "btree_ok m \<Longrightarrow> set m = {(k, v). map_of m k = Some v}"
  by (auto simp: btree_ok_def)

text \<open>\<open>*m.entry(k).or_insert(d) = f(..)\<close>: the entry, made from \<open>d\<close> when absent, changed by \<open>f\<close>.\<close>

definition btree_entry ::
  "'k :: linorder \<Rightarrow> 'v \<Rightarrow> ('v \<Rightarrow> 'v) \<Rightarrow> ('k \<times> 'v) list \<Rightarrow> ('k \<times> 'v) list" where
  "btree_entry k d f m = btree_insert k (f (case map_of m k of None \<Rightarrow> d | Some v \<Rightarrow> v)) m"

definition map_entry :: "'k \<Rightarrow> 'v \<Rightarrow> ('v \<Rightarrow> 'v) \<Rightarrow> ('k \<rightharpoonup> 'v) \<Rightarrow> ('k \<rightharpoonup> 'v)" where
  "map_entry k d f m = m(k \<mapsto> f (case m k of None \<Rightarrow> d | Some v \<Rightarrow> v))"

lemma btree_entry_ok: "btree_ok m \<Longrightarrow> btree_ok (btree_entry k d f m)"
  by (simp add: btree_entry_def btree_insert_ok)

lemma map_of_btree_entry [simp]: "btree_ok m \<Longrightarrow> map_of (btree_entry k d f m) = map_entry k d f (map_of m)"
  by (simp add: btree_entry_def map_entry_def)

section \<open>Hash map iteration\<close>

text \<open>
  \<open>ids\<close> is an order in which a hash map with the entries \<open>m\<close> may yield its keys: any list of its keys
  without repetition. \<open>Iterator::first_some\<close>: the first result other than \<open>None\<close>.
\<close>

definition enumerates :: "'k list \<Rightarrow> ('k \<rightharpoonup> 'v) \<Rightarrow> bool" where
  "enumerates ids m \<longleftrightarrow> distinct ids \<and> set ids = dom m"

fun first_some :: "('a \<Rightarrow> 'b option) \<Rightarrow> 'a list \<Rightarrow> 'b option" where
  "first_some f [] = None"
| "first_some f (x # xs) = (case f x of None \<Rightarrow> first_some f xs | Some y \<Rightarrow> Some y)"

fun filter_map :: "('a \<Rightarrow> 'b option) \<Rightarrow> 'a list \<Rightarrow> 'b list" where
  "filter_map f [] = []"
| "filter_map f (x # xs) = (case f x of None \<Rightarrow> filter_map f xs | Some y \<Rightarrow> y # filter_map f xs)"

lemma first_some_None [simp]: "first_some f xs = None \<longleftrightarrow> (\<forall>x \<in> set xs. f x = None)"
  by (induction xs) (auto split: option.splits)

lemma first_some_Some: "first_some f xs = Some y \<Longrightarrow> \<exists>x \<in> set xs. f x = Some y"
  by (induction xs) (auto split: option.splits)

lemma set_filter_map [simp]: "set (filter_map f xs) = {y. \<exists>x \<in> set xs. f x = Some y}"
  by (induction xs) (auto split: option.splits)

lemma filter_map_append [simp]: "filter_map f (xs @ ys) = filter_map f xs @ filter_map f ys"
  by (induction xs) (auto split: option.splits)

lemma filter_map_Nil: "filter_map f xs = [] \<longleftrightarrow> (\<forall>x \<in> set xs. f x = None)"
  by (induction xs) (auto split: option.splits)

lemma distinct_filter_map:
  "distinct xs \<Longrightarrow> (\<And>x y z. f x = Some z \<Longrightarrow> f y = Some z \<Longrightarrow> x = y) \<Longrightarrow> distinct (filter_map f xs)"
  by (induction xs) (auto split: option.splits)

lemma enumerates_mem: "enumerates ids m \<Longrightarrow> k \<in> set ids \<longleftrightarrow> m k \<noteq> None"
  by (auto simp: enumerates_def)

text \<open>A \<open>BTreeSet\<close> that is iterated: the list of its elements in ascending order.\<close>

definition btree_set :: "'a :: linorder list \<Rightarrow> 'a list" where
  "btree_set xs = remdups_adj (sort xs)"

lemma set_btree_set [simp]: "set (btree_set xs) = set xs"
  by (simp add: btree_set_def)

lemma btree_set_sorted [simp]: "sorted (btree_set xs)" "distinct (btree_set xs)"
  by (simp_all add: btree_set_def distinct_remdups_adj_sorted)

text \<open>\<open>Result::expect\<close>.\<close>

definition expect :: "string \<Rightarrow> 'e + 'a \<Rightarrow> 'a outcome" where
  "expect msg r = (case r of Inr x \<Rightarrow> Val x | Inl _ \<Rightarrow> Panic msg)"

lemma option_eqI: "(\<And>v. x = Some v \<longleftrightarrow> y = Some v) \<Longrightarrow> x = y"
  by (cases y) auto

lemma map_of_rev:
  assumes "distinct (map fst xs)"
  shows "map_of (rev xs) = map_of xs"
proof
  fix k
  have "map_of (rev xs) k = Some v \<longleftrightarrow> map_of xs k = Some v" for v
    using assms by (simp add: map_of_eq_Some_iff flip: rev_map)
  then show "map_of (rev xs) k = map_of xs k" by (rule option_eqI)
qed

end
