(* ===== verification/Repo_Ir.thy ===== *)
theory Repo_Ir
  imports Rust_Prelude
begin

text \<open>
  The ingestion IR, \<open>repo-graph-ir/src/lib.rs\<close>: the nodes, edges and import observations of one
  partition. The newtypes over \<open>String\<close> (\<open>CanonicalKey\<close>, \<open>PartitionId\<close>) are strings; their
  constructors and accessors only wrap and unwrap.
\<close>

type_synonym canonical_key = string
type_synonym partition_id = string

datatype identity_source = AstAdopted | ScipSynthesizedFallback | AstFileScope

datatype edge_type = Calls | References | Imports

datatype edge_basis =
    SyntaxConfirmedCall | DerivedReference | FileScopeReference | AstImport
  | AstImportFileInventoryResolved | AstImportTsconfigPathResolved | AstDynamicImportResolved

datatype import_resolution = StaticResolved | StaticUnresolved | PackageExternal | DynamicUnsupported

record import_edge_meta =
  iem_raw_specifier :: string
  iem_resolved_path :: string
  iem_resolution :: import_resolution

record import_observation =
  io_source_file :: string
  io_raw_specifier :: string
  io_resolution :: import_resolution
  io_is_re_export :: bool
  io_is_type_only :: bool
  io_is_side_effect :: bool
  io_external_node_modules :: bool

datatype partition_kind = TsPackage

text \<open>\<open>TsconfigAliasConfig\<close>; its \<open>BTreeMap\<close> of patterns is the list of its entries by ascending pattern.\<close>

record tsconfig_alias_config =
  tac_base_url :: string
  tac_paths :: "(string \<times> string list) list"
  tac_partition_prefix :: string

record partition =
  pt_id :: partition_id
  pt_kind :: partition_kind
  pt_root :: string
  pt_indexer :: string
  pt_indexer_version :: string
  pt_build_inputs_hash :: string
  pt_package_name :: "string option"
  pt_declared_dependencies :: "string set"
  pt_tsconfig_aliases :: "tsconfig_alias_config option"

record ir_provenance =
  ip_indexer :: string
  ip_indexer_version :: string
  ip_scip_symbol_id :: "string option"
  ip_build_inputs_hash :: string

record source_range =
  sr_file :: string
  sr_start_line :: u32
  sr_start_col :: u32
  sr_end_line :: u32
  sr_end_col :: u32

datatype ir_visibility = V_Public | V_Private | V_Protected | V_Internal | V_Export

record symbol_attributes =
  sa_visibility :: "ir_visibility option"
  sa_is_top_level :: bool
  sa_symbol_kind :: "string option"

record ir_node =
  nd_key :: canonical_key
  nd_subtype :: string
  nd_name :: string
  nd_range :: "source_range option"
  nd_partition_id :: partition_id
  nd_identity_source :: identity_source
  nd_provenance :: ir_provenance
  nd_attributes :: "symbol_attributes option"

record ir_edge =
  ed_src :: canonical_key
  ed_dst :: canonical_key
  ed_type :: edge_type
  ed_basis :: edge_basis
  ed_provenance :: ir_provenance
  ed_import :: "import_edge_meta option"

record partition_ir =
  ir_partition :: partition
  ir_nodes :: "ir_node list"
  ir_edges :: "ir_edge list"
  ir_import_observations :: "import_observation list"

definition partition_ir_new :: "partition \<Rightarrow> partition_ir" where
  "partition_ir_new p = \<lparr>ir_partition = p, ir_nodes = [], ir_edges = [], ir_import_observations = []\<rparr>"

definition ir_node_of :: "partition_ir \<Rightarrow> canonical_key \<Rightarrow> ir_node option" where
  "ir_node_of ir key = List.find (\<lambda>n. nd_key n = key) (ir_nodes ir)"

definition ir_outgoing :: "partition_ir \<Rightarrow> canonical_key \<Rightarrow> ir_edge list" where
  "ir_outgoing ir key = filter (\<lambda>e. ed_src e = key) (ir_edges ir)"

definition ir_incoming :: "partition_ir \<Rightarrow> canonical_key \<Rightarrow> ir_edge list" where
  "ir_incoming ir key = filter (\<lambda>e. ed_dst e = key) (ir_edges ir)"

definition fallback_node_count :: "partition_ir \<Rightarrow> nat" where
  "fallback_node_count ir =
     length (filter (\<lambda>n. nd_identity_source n = ScipSynthesizedFallback) (ir_nodes ir))"

end
