(* ===== verification/Import_Resolver.thy ===== *)
theory Import_Resolver
  imports Rust_Collections Repo_Ir
begin

text \<open>
  The import resolver, \<open>repo-graph-import-resolver/src/lib.rs\<close>: classification of package imports, the
  inventory of file keys, resolution of relative specifiers over it and of tsconfig path aliases.
\<close>

section \<open>Package imports\<close>

datatype package_import_class = WorkspaceLocalUnedgeable | ExternalPackageNonLocal | PackageUnresolved

definition NODE_BUILTINS :: "string list" where
  "NODE_BUILTINS = [''assert'', ''buffer'', ''child_process'', ''cluster'', ''console'', ''crypto'',
     ''dgram'', ''dns'', ''events'', ''fs'', ''http'', ''http2'', ''https'', ''net'', ''os'', ''path'',
     ''perf_hooks'', ''process'', ''punycode'', ''querystring'', ''readline'', ''stream'',
     ''string_decoder'', ''timers'', ''tls'', ''tty'', ''url'', ''util'', ''v8'', ''vm'',
     ''worker_threads'', ''zlib'']"

definition package_name_of :: "string \<Rightarrow> string" where
  "package_name_of specifier =
     (let segs = split_on (CHR ''/'') specifier; first = hd segs
      in if starts_with first ''@''
         then (case tl segs of [] \<Rightarrow> first | second # _ \<Rightarrow> first @ ''/'' @ second)
         else first)"

definition classify_package_import ::
  "string \<Rightarrow> string set \<Rightarrow> string set \<Rightarrow> bool \<Rightarrow> package_import_class" where
  "classify_package_import specifier workspace_packages declared_dependencies external_node_modules =
     (if starts_with specifier ''node:'' then ExternalPackageNonLocal
      else let pkg = package_name_of specifier in
        if pkg \<in> set NODE_BUILTINS then ExternalPackageNonLocal
        else if pkg \<in> workspace_packages then WorkspaceLocalUnedgeable
        else if pkg \<in> declared_dependencies \<or> external_node_modules then ExternalPackageNonLocal
        else PackageUnresolved)"

section \<open>The file inventory\<close>

definition file_key_path :: "string \<Rightarrow> string option" where
  "file_key_path key = (case strip_suffix key '':FILE'' of
     None \<Rightarrow> None
   | Some inner \<Rightarrow> map_option snd (split_once inner (CHR '':'')))"

type_synonym file_inventory = "string \<rightharpoonup> string"

fun from_file_keys :: "file_inventory \<Rightarrow> string list \<Rightarrow> file_inventory" where
  "from_file_keys by_path [] = by_path"
| "from_file_keys by_path (k # keys) = (case file_key_path k of
     None \<Rightarrow> from_file_keys by_path keys
   | Some path \<Rightarrow> from_file_keys (by_path(path \<mapsto> k)) keys)"

definition file_inventory_of :: "string list \<Rightarrow> file_inventory" where
  "file_inventory_of keys = from_file_keys Map.empty keys"

definition file_key_for :: "file_inventory \<Rightarrow> string \<Rightarrow> string option" where
  "file_key_for inventory path = inventory path"

section \<open>Relative imports\<close>

record import_candidate =
  ic_source_file_key :: string
  ic_raw_specifier :: string

datatype unresolved_reason = U_NotFound | U_Ambiguous | U_PackageExternal | U_BadSourceKey

record resolved_import_edge =
  re_src_file_key :: string
  re_dst_file_key :: string
  re_basis :: edge_basis
  re_raw_specifier :: string
  re_resolved_repo_path :: string

record unresolved_import =
  ui_candidate :: import_candidate
  ui_reason :: unresolved_reason

record import_resolution_report =
  rr_resolved :: "resolved_import_edge list"
  rr_unresolved :: "unresolved_import list"

definition ASSET_EXTENSIONS :: "string list" where
  "ASSET_EXTENSIONS = [''css'', ''scss'', ''sass'', ''less'', ''styl'', ''svg'', ''png'', ''jpg'', ''jpeg'',
     ''gif'', ''webp'', ''avif'', ''ico'', ''bmp'', ''woff'', ''woff2'', ''ttf'', ''eot'', ''otf'']"

definition SOURCE_EXTENSIONS :: "string list" where
  "SOURCE_EXTENSIONS = [''.ts'', ''.tsx'', ''.mts'', ''.cts'']"

definition is_asset_specifier :: "string \<Rightarrow> bool" where
  "is_asset_specifier specifier =
     (case rsplit_once (rsplit_next specifier (CHR ''/'')) (CHR ''.'') of
        None \<Rightarrow> False
      | Some (_, ext) \<Rightarrow> ext \<in> set ASSET_EXTENSIONS)"

definition base_ends_with_source_extension :: "string \<Rightarrow> bool" where
  "base_ends_with_source_extension base = list_ex (\<lambda>ext. ends_with base ext) SOURCE_EXTENSIONS"

definition candidate_paths :: "string \<Rightarrow> string list" where
  "candidate_paths base =
     [base @ ''.ts'', base @ ''.tsx'', base @ ''.d.ts'', base @ ''.mts'', base @ ''.cts'',
      base @ ''/index.ts'', base @ ''/index.tsx''] @
     (case strip_suffix base ''.js'' of
        Some stem \<Rightarrow> [stem @ ''.ts'', stem @ ''.tsx'']
      | None \<Rightarrow> (case strip_suffix base ''.jsx'' of
          Some stem \<Rightarrow> [stem @ ''.tsx'']
        | None \<Rightarrow> (case strip_suffix base ''.mjs'' of
            Some stem \<Rightarrow> [stem @ ''.mts'']
          | None \<Rightarrow> (case strip_suffix base ''.cjs'' of
              Some stem \<Rightarrow> [stem @ ''.cts'']
            | None \<Rightarrow> []))))"

text \<open>One segment of a specifier on the stack of path segments, whose last element is its top.\<close>

definition push_segment :: "string list \<Rightarrow> string \<Rightarrow> string list" where
  "push_segment parts seg =
     (if seg = '''' \<or> seg = ''.'' then parts
      else if seg = ''..'' then butlast parts
      else parts @ [seg])"

definition normalize_join :: "string \<Rightarrow> string \<Rightarrow> string" where
  "normalize_join dir spec =
     (let parts = if dir = '''' then [] else split_on (CHR ''/'') dir
      in join_with (CHR ''/'') (foldl push_segment parts (split_on (CHR ''/'') spec)))"

definition dirname :: "string \<Rightarrow> string" where
  "dirname path = (case rsplit_once path (CHR ''/'') of None \<Rightarrow> '''' | Some (d, _) \<Rightarrow> d)"

text \<open>The inventory matches among candidate paths, in their order.\<close>

definition inventory_matches :: "file_inventory \<Rightarrow> string list \<Rightarrow> (string \<times> string) list" where
  "inventory_matches inventory paths = filter_map (\<lambda>p. map_option (Pair p) (file_key_for inventory p)) paths"

definition resolved_edge :: "import_candidate \<Rightarrow> string \<Rightarrow> string \<Rightarrow> resolved_import_edge" where
  "resolved_edge cand path key =
     \<lparr>re_src_file_key = ic_source_file_key cand, re_dst_file_key = key,
      re_basis = AstImportFileInventoryResolved, re_raw_specifier = ic_raw_specifier cand,
      re_resolved_repo_path = path\<rparr>"

text \<open>The body of the loop of \<open>resolve_imports\<close>: the edge, or the reason there is none.\<close>

definition resolve_candidate ::
  "file_inventory \<Rightarrow> import_candidate \<Rightarrow> unresolved_reason + resolved_import_edge" where
  "resolve_candidate inventory cand =
     (if \<not> starts_with (ic_raw_specifier cand) ''.'' then Inl U_PackageExternal
      else case file_key_path (ic_source_file_key cand) of
        None \<Rightarrow> Inl U_BadSourceKey
      | Some src_path \<Rightarrow>
          (let base = normalize_join (dirname src_path) (ic_raw_specifier cand)
           in case (if base_ends_with_source_extension base then file_key_for inventory base else None) of
                Some key \<Rightarrow> Inr (resolved_edge cand base key)
              | None \<Rightarrow> (case inventory_matches inventory (candidate_paths base) of
                  [] \<Rightarrow> Inl U_NotFound
                | [(path, key)] \<Rightarrow> Inr (resolved_edge cand path key)
                | _ \<Rightarrow> Inl U_Ambiguous)))"

fun resolve_loop ::
  "file_inventory \<Rightarrow> import_resolution_report \<Rightarrow> import_candidate list \<Rightarrow> import_resolution_report" where
  "resolve_loop inventory report [] = report"
| "resolve_loop inventory report (cand # cands) = (case resolve_candidate inventory cand of
     Inr e \<Rightarrow> resolve_loop inventory (report\<lparr>rr_resolved := rr_resolved report @ [e]\<rparr>) cands
   | Inl r \<Rightarrow> resolve_loop inventory
       (report\<lparr>rr_unresolved := rr_unresolved report @ [\<lparr>ui_candidate = cand, ui_reason = r\<rparr>]\<rparr>) cands)"

definition resolve_imports :: "file_inventory \<Rightarrow> import_candidate list \<Rightarrow> import_resolution_report" where
  "resolve_imports inventory candidates = resolve_loop inventory \<lparr>rr_resolved = [], rr_unresolved = []\<rparr> candidates"

section \<open>Path aliases\<close>

datatype alias_resolution = NotAnAlias | Resolved string | Alias_Unresolved | Alias_Ambiguous

definition match_alias_pattern :: "string \<Rightarrow> string \<Rightarrow> string option" where
  "match_alias_pattern pattern specifier =
     (case split_once pattern (CHR ''*'') of
        Some (prefix, suffix) \<Rightarrow>
          if length specifier \<ge> length prefix + length suffix \<and> starts_with specifier prefix \<and>
             ends_with specifier suffix
          then Some (take (length specifier - length suffix - length prefix) (drop (length prefix) specifier))
          else None
      | None \<Rightarrow> if pattern = specifier then Some '''' else None)"

definition specifier_matches_any_alias :: "tsconfig_alias_config \<Rightarrow> string \<Rightarrow> bool" where
  "specifier_matches_any_alias config specifier =
     list_ex (\<lambda>(pattern, _). match_alias_pattern pattern specifier \<noteq> None) (tac_paths config)"

text \<open>The file keys that one target of a matched pattern hits, and those of all matched patterns.\<close>

definition alias_target_hits :: "file_inventory \<Rightarrow> string \<Rightarrow> string \<Rightarrow> string \<Rightarrow> string list" where
  "alias_target_hits inventory effective_base capture target =
     filter_map (file_key_for inventory)
       (candidate_paths (normalize_join effective_base (replace_first target (CHR ''*'') capture)))"

definition alias_hits ::
  "file_inventory \<Rightarrow> string \<Rightarrow> string \<Rightarrow> (string \<times> string list) list \<Rightarrow> string list" where
  "alias_hits inventory effective_base specifier paths =
     concat (map (\<lambda>(pattern, targets). case match_alias_pattern pattern specifier of
       None \<Rightarrow> []
     | Some capture \<Rightarrow> concat (map (alias_target_hits inventory effective_base capture) targets)) paths)"

definition resolve_tsconfig_alias ::
  "string \<Rightarrow> tsconfig_alias_config \<Rightarrow> file_inventory \<Rightarrow> alias_resolution" where
  "resolve_tsconfig_alias specifier config inventory =
     (let effective_base = normalize_join (tac_partition_prefix config) (tac_base_url config);
          matched_any = list_ex (\<lambda>(p, _). match_alias_pattern p specifier \<noteq> None) (tac_paths config);
          hits = remdups (alias_hits inventory effective_base specifier (tac_paths config))
      in if \<not> matched_any then NotAnAlias
         else (case hits of
             [] \<Rightarrow> Alias_Unresolved
           | [key] \<Rightarrow> Resolved key
           | _ \<Rightarrow> Alias_Ambiguous))"

section \<open>Alias hits\<close>

definition EXACT_SUBSTITUTION_EXTENSIONS :: "string list" where
  "EXACT_SUBSTITUTION_EXTENSIONS = [''.ts'', ''.tsx'', ''.d.ts'', ''.mts'', ''.cts'', ''.js'', ''.jsx'',
     ''.mjs'', ''.cjs'', ''.json'']"

datatype alias_hits_result =
    NoPatternMatches | SelectedPattern "string set" | TiedPatterns "string set"

text \<open>\<open>parts.pop()?\<close> on an empty stack leaves the function with \<open>None\<close>.\<close>

fun within_repository :: "string list \<Rightarrow> string list \<Rightarrow> string list option" where
  "within_repository parts [] = Some parts"
| "within_repository parts (seg # segs) =
     (if seg = ''..'' \<and> parts = [] then None
      else within_repository (push_segment parts seg) segs)"

definition join_within_repository :: "string \<Rightarrow> string \<Rightarrow> string option" where
  "join_within_repository dir spec =
     (if starts_with spec ''/'' then None
      else map_option (join_with (CHR ''/''))
        (within_repository (filter (\<lambda>s. s \<noteq> '''') (split_on (CHR ''/'') dir)) (split_on (CHR ''/'') spec)))"

fun deciding_substitution_hits ::
  "string option \<Rightarrow> string list \<Rightarrow> string \<Rightarrow> file_inventory \<Rightarrow> string set" where
  "deciding_substitution_hits None targets capture inventory = {}"
| "deciding_substitution_hits (Some effective_base) [] capture inventory = {}"
| "deciding_substitution_hits (Some effective_base) (target # targets) capture inventory =
     (case join_within_repository effective_base (replace_first target (CHR ''*'') capture) of
        None \<Rightarrow> deciding_substitution_hits (Some effective_base) targets capture inventory
      | Some base \<Rightarrow>
          (let exact = if list_ex (\<lambda>ext. ends_with base ext) EXACT_SUBSTITUTION_EXTENSIONS then [base] else [];
               hits = set (filter_map (file_key_for inventory) (exact @ candidate_paths base))
           in if hits \<noteq> {} then hits
              else deciding_substitution_hits (Some effective_base) targets capture inventory))"

text \<open>The wildcard patterns that match, each with the length of its prefix, its targets and its capture.\<close>

definition matching_wildcards ::
  "string \<Rightarrow> (string \<times> string list) list \<Rightarrow> (nat \<times> string list \<times> string) list" where
  "matching_wildcards specifier paths =
     filter_map (\<lambda>(pattern, targets). map_option
         (\<lambda>capture. (length (takeWhile (\<lambda>c. c \<noteq> CHR ''*'') pattern), targets, capture))
         (match_alias_pattern pattern specifier))
       (filter (\<lambda>(pattern, _). contains_char pattern (CHR ''*'')) paths)"

definition tsconfig_alias_hits ::
  "string \<Rightarrow> tsconfig_alias_config \<Rightarrow> file_inventory \<Rightarrow> alias_hits_result" where
  "tsconfig_alias_hits specifier config inventory =
     (let effective_base = join_within_repository (tac_partition_prefix config) (tac_base_url config) in
      case List.find (\<lambda>(pattern, _). \<not> contains_char pattern (CHR ''*'') \<and> pattern = specifier)
          (tac_paths config) of
        Some (_, targets) \<Rightarrow> SelectedPattern (deciding_substitution_hits effective_base targets '''' inventory)
      | None \<Rightarrow>
          (let matching = matching_wildcards specifier (tac_paths config) in
           if matching = [] then NoPatternMatches
           else let longest = Max (fst ` set matching) in
             (case filter (\<lambda>(len, _). len = longest) matching of
                [(_, targets, capture)] \<Rightarrow>
                  SelectedPattern (deciding_substitution_hits effective_base targets capture inventory)
              | selected \<Rightarrow> TiedPatterns (\<Union> (set (map (\<lambda>(_, targets, capture).
                  deciding_substitution_hits effective_base targets capture inventory) selected))))))"

section \<open>The inventory\<close>

lemma from_file_keys_lookup:
  "from_file_keys m keys p = Some k \<Longrightarrow> (k \<in> set keys \<and> file_key_path k = Some p) \<or> m p = Some k"
proof (induction keys arbitrary: m)
  case (Cons a keys)
  show ?case
  proof (cases "file_key_path a")
    case (Some path)
    with Cons.prems have "from_file_keys (m(path \<mapsto> a)) keys p = Some k" by simp
    from Cons.IH [OF this] Some show ?thesis by (auto split: if_splits)
  qed (use Cons in auto)
qed simp

lemma from_file_keys_dom: "dom (from_file_keys m keys) = dom m \<union> {p. \<exists>k \<in> set keys. file_key_path k = Some p}"
  by (induction keys arbitrary: m) (auto split: option.splits)

lemma file_inventory_key:
  "file_inventory_of keys p = Some k \<Longrightarrow> k \<in> set keys \<and> file_key_path k = Some p"
  using from_file_keys_lookup [of Map.empty] by (auto simp: file_inventory_of_def)

lemma file_inventory_dom:
  "file_inventory_of keys p \<noteq> None \<longleftrightarrow> (\<exists>k \<in> set keys. file_key_path k = Some p)"
  using from_file_keys_dom [of Map.empty keys] by (auto simp: file_inventory_of_def dom_def set_eq_iff)

section \<open>Relative imports\<close>

lemma candidate_paths_distinct: "distinct (candidate_paths base)"
  by (auto simp: candidate_paths_def strip_suffix_Some eq_commute [of "Some _"] split: option.splits)

text \<open>The inventory files that a base may mean by extension or index rules.\<close>

definition import_targets :: "string list \<Rightarrow> string \<Rightarrow> string set" where
  "import_targets keys base =
     {p \<in> set (candidate_paths base). \<exists>k \<in> set keys. file_key_path k = Some p}"

text \<open>The file that a base with a source extension names literally, if the inventory has it.\<close>

definition literal_target :: "string list \<Rightarrow> string \<Rightarrow> bool" where
  "literal_target keys base \<longleftrightarrow>
     base_ends_with_source_extension base \<and> (\<exists>k \<in> set keys. file_key_path k = Some base)"

definition import_base :: "import_candidate \<Rightarrow> string option" where
  "import_base cand =
     (if starts_with (ic_raw_specifier cand) ''.''
      then map_option (\<lambda>src. normalize_join (dirname src) (ic_raw_specifier cand))
        (file_key_path (ic_source_file_key cand))
      else None)"

definition sound_edge :: "string list \<Rightarrow> import_candidate \<Rightarrow> resolved_import_edge \<Rightarrow> bool" where
  "sound_edge keys cand e \<longleftrightarrow>
     re_src_file_key e = ic_source_file_key cand \<and> re_raw_specifier e = ic_raw_specifier cand \<and>
     re_dst_file_key e \<in> set keys \<and> file_key_path (re_dst_file_key e) = Some (re_resolved_repo_path e) \<and>
     (\<exists>base. import_base cand = Some base \<and>
       (if literal_target keys base then re_resolved_repo_path e = base
        else import_targets keys base = {re_resolved_repo_path e}))"

fun justified_reason :: "string list \<Rightarrow> import_candidate \<Rightarrow> unresolved_reason \<Rightarrow> bool" where
  "justified_reason keys cand U_PackageExternal \<longleftrightarrow> \<not> starts_with (ic_raw_specifier cand) ''.''"
| "justified_reason keys cand U_BadSourceKey \<longleftrightarrow> file_key_path (ic_source_file_key cand) = None"
| "justified_reason keys cand U_NotFound \<longleftrightarrow> (\<exists>base. import_base cand = Some base \<and>
     \<not> literal_target keys base \<and> import_targets keys base = {})"
| "justified_reason keys cand U_Ambiguous \<longleftrightarrow> (\<exists>base. import_base cand = Some base \<and>
     \<not> literal_target keys base \<and> 2 \<le> card (import_targets keys base))"

lemma inventory_matches_set:
  "set (inventory_matches (file_inventory_of keys) paths) =
     {(p, k). p \<in> set paths \<and> file_inventory_of keys p = Some k}"
  by (auto simp: inventory_matches_def file_key_for_def)

lemma inventory_matches_fst:
  "map fst (inventory_matches m paths) = filter (\<lambda>p. m p \<noteq> None) paths"
  by (induction paths) (auto simp: inventory_matches_def file_key_for_def split: option.splits)

lemma inventory_matches_targets:
  "fst ` set (inventory_matches (file_inventory_of keys) (candidate_paths base)) = import_targets keys base"
  unfolding set_map [symmetric] inventory_matches_fst import_targets_def
  using file_inventory_dom [of keys] by simp

lemma inventory_matches_card:
  "card (import_targets keys base) = length (inventory_matches (file_inventory_of keys) (candidate_paths base))"
proof -
  have "distinct (map fst (inventory_matches (file_inventory_of keys) (candidate_paths base)))"
    unfolding inventory_matches_fst by (rule distinct_filter [OF candidate_paths_distinct])
  from distinct_card [OF this] show ?thesis
    by (simp add: inventory_matches_targets)
qed

lemma literal_target_iff:
  "(if base_ends_with_source_extension base then file_key_for (file_inventory_of keys) base else None) = None
     \<longleftrightarrow> \<not> literal_target keys base"
  using file_inventory_dom [of keys base] by (auto simp: literal_target_def file_key_for_def)

lemma resolve_candidate_spec:
  "case resolve_candidate (file_inventory_of keys) cand of
     Inr e \<Rightarrow> sound_edge keys cand e
   | Inl r \<Rightarrow> justified_reason keys cand r"
proof (cases "import_base cand")
  case None
  then show ?thesis
    by (auto simp: resolve_candidate_def import_base_def split: if_splits option.splits)
next
  case (Some base)
  then obtain src where src: "starts_with (ic_raw_specifier cand) ''.''"
    "file_key_path (ic_source_file_key cand) = Some src"
    "base = normalize_join (dirname src) (ic_raw_specifier cand)"
    by (auto simp: import_base_def split: if_splits)
  let ?lit = "if base_ends_with_source_extension base then file_key_for (file_inventory_of keys) base else None"
  let ?ms = "inventory_matches (file_inventory_of keys) (candidate_paths base)"
  have eq: "resolve_candidate (file_inventory_of keys) cand = (case ?lit of
      Some key \<Rightarrow> Inr (resolved_edge cand base key)
    | None \<Rightarrow> (case ?ms of [] \<Rightarrow> Inl U_NotFound | [(path, key)] \<Rightarrow> Inr (resolved_edge cand path key)
        | _ \<Rightarrow> Inl U_Ambiguous))"
    unfolding resolve_candidate_def src(2) Let_def option.case src(3) [symmetric] using src(1) by simp
  show ?thesis
  proof (cases ?lit)
    case (Some key)
    then have "file_inventory_of keys base = Some key"
      by (auto simp: file_key_for_def split: if_splits)
    moreover have "literal_target keys base"
      using Some literal_target_iff [of base keys] by auto
    ultimately show ?thesis
      unfolding eq Some using file_inventory_key \<open>import_base cand = Some base\<close>
      by (simp add: sound_edge_def resolved_edge_def)
  next
    case None
    then have nl: "\<not> literal_target keys base" unfolding literal_target_iff .
    have card: "card (import_targets keys base) = length ?ms" by (rule inventory_matches_card)
    have fin: "finite (import_targets keys base)" by (simp add: import_targets_def)
    consider "?ms = []" | path key where "?ms = [(path, key)]" | "2 \<le> length ?ms"
      by (cases ?ms rule: list.exhaust; cases "tl ?ms") auto
    then show ?thesis
    proof cases
      case 1
      then have "import_targets keys base = {}" using card fin by simp
      then show ?thesis unfolding eq None 1 using nl Some by simp
    next
      case 2
      have "import_targets keys base = {path}"
        unfolding inventory_matches_targets [symmetric] 2 by simp
      moreover have "file_inventory_of keys path = Some key"
        using inventory_matches_set [of keys "candidate_paths base"] unfolding 2 by auto
      ultimately show ?thesis
        unfolding eq None 2 using nl Some file_inventory_key
        by (simp add: sound_edge_def resolved_edge_def)
    next
      case 3
      then obtain a b c where abc: "?ms = a # b # c" by (metis Suc_le_length_iff numeral_2_eq_2)
      then have "resolve_candidate (file_inventory_of keys) cand = Inl U_Ambiguous"
        unfolding eq None by (cases a) simp
      then show ?thesis using nl Some 3 card by simp
    qed
  qed
qed

lemma resolve_loop_append:
  "rr_resolved (resolve_loop inventory rep cands) =
     rr_resolved rep @ filter_map (\<lambda>c. case resolve_candidate inventory c of Inr e \<Rightarrow> Some e | Inl _ \<Rightarrow> None) cands"
  "rr_unresolved (resolve_loop inventory rep cands) =
     rr_unresolved rep @ filter_map (\<lambda>c. case resolve_candidate inventory c of
       Inl r \<Rightarrow> Some \<lparr>ui_candidate = c, ui_reason = r\<rparr> | Inr _ \<Rightarrow> None) cands"
  by (induction cands arbitrary: rep) (auto split: sum.splits)

lemma resolve_imports_parts:
  "rr_resolved (resolve_imports inventory cands) =
     filter_map (\<lambda>c. case resolve_candidate inventory c of Inr e \<Rightarrow> Some e | Inl _ \<Rightarrow> None) cands"
  "rr_unresolved (resolve_imports inventory cands) =
     filter_map (\<lambda>c. case resolve_candidate inventory c of
       Inl r \<Rightarrow> Some \<lparr>ui_candidate = c, ui_reason = r\<rparr> | Inr _ \<Rightarrow> None) cands"
  by (simp_all add: resolve_imports_def resolve_loop_append)

text \<open>
  Relative imports resolve soundly and without silent choices: every candidate ends up in exactly
  one of the two lists; an edge leads from the candidate's file to a file key of the inventory whose
  path is the recorded one, and that path is either the base itself, named literally with a source
  extension, or the only inventory file that the extension and index rules give; an import is left
  unresolved only when it is not relative, its source key is malformed, or the rules give no
  inventory file or at least two.
\<close>

theorem resolve_imports_sound:
  "length (rr_resolved (resolve_imports (file_inventory_of keys) cands)) +
     length (rr_unresolved (resolve_imports (file_inventory_of keys) cands)) = length cands \<and>
   list_all (\<lambda>e. \<exists>cand \<in> set cands. sound_edge keys cand e)
     (rr_resolved (resolve_imports (file_inventory_of keys) cands)) \<and>
   list_all (\<lambda>u. ui_candidate u \<in> set cands \<and> justified_reason keys (ui_candidate u) (ui_reason u))
     (rr_unresolved (resolve_imports (file_inventory_of keys) cands))"
proof (intro conjI)
  show "length (rr_resolved (resolve_imports (file_inventory_of keys) cands)) +
     length (rr_unresolved (resolve_imports (file_inventory_of keys) cands)) = length cands"
    unfolding resolve_imports_parts by (induction cands) (auto split: sum.splits)
  show "list_all (\<lambda>e. \<exists>cand \<in> set cands. sound_edge keys cand e)
      (rr_resolved (resolve_imports (file_inventory_of keys) cands))"
    unfolding resolve_imports_parts list_all_iff set_filter_map
    using resolve_candidate_spec [of keys] by (force split: sum.splits)
  show "list_all (\<lambda>u. ui_candidate u \<in> set cands \<and> justified_reason keys (ui_candidate u) (ui_reason u))
     (rr_unresolved (resolve_imports (file_inventory_of keys) cands))"
    unfolding resolve_imports_parts list_all_iff set_filter_map
    using resolve_candidate_spec [of keys] by (force split: sum.splits)
qed

section \<open>Joins and aliases\<close>

lemma within_repository_foldl:
  "within_repository parts segs = Some r \<Longrightarrow> foldl push_segment parts segs = r"
  by (induction segs arbitrary: parts) (auto split: if_splits)

definition clean_segments :: "string list \<Rightarrow> bool" where
  "clean_segments segs \<longleftrightarrow>
     list_all (\<lambda>s. s \<noteq> '''' \<and> s \<noteq> ''.'' \<and> s \<noteq> ''..'' \<and> CHR ''/'' \<notin> set s) segs"

lemma push_segment_clean:
  "clean_segments parts \<Longrightarrow> CHR ''/'' \<notin> set seg \<Longrightarrow> clean_segments (push_segment parts seg)"
  by (auto simp: clean_segments_def push_segment_def list_all_iff dest: in_set_butlastD)

lemma foldl_push_clean:
  "clean_segments parts \<Longrightarrow> (\<forall>s \<in> set segs. CHR ''/'' \<notin> set s) \<Longrightarrow>
     clean_segments (foldl push_segment parts segs)"
  by (induction segs arbitrary: parts) (auto simp: push_segment_clean)

text \<open>Where the checked join succeeds it agrees with the unchecked one, and its result is normal.\<close>

lemma join_within_repository_normalize:
  assumes "dir = '''' \<or> clean_segments (split_on (CHR ''/'') dir)"
    and "join_within_repository dir spec = Some r"
  shows "normalize_join dir spec = r"
    and "\<exists>segs. clean_segments segs \<and> r = join_with (CHR ''/'') segs"
proof -
  let ?parts = "if dir = '''' then [] else split_on (CHR ''/'') dir"
  have "filter (\<lambda>s. s \<noteq> '''') (split_on (CHR ''/'') dir) = ?parts"
    using assms(1) by (auto simp: clean_segments_def list_all_iff filter_id_conv)
  then obtain segs where "within_repository ?parts (split_on (CHR ''/'') spec) = Some segs"
    and r: "r = join_with (CHR ''/'') segs"
    using assms(2) by (auto simp: join_within_repository_def split: if_splits)
  then have fold: "foldl push_segment ?parts (split_on (CHR ''/'') spec) = segs"
    by (intro within_repository_foldl)
  with r show "normalize_join dir spec = r"
    by (simp add: normalize_join_def Let_def)
  have "clean_segments ?parts"
    using assms(1) by (auto simp: clean_segments_def)
  then have "clean_segments segs"
    unfolding fold [symmetric] by (rule foldl_push_clean) (blast dest: split_on_no_sep)
  with r show "\<exists>segs. clean_segments segs \<and> r = join_with (CHR ''/'') segs" by blast
qed

lemma match_alias_pattern_wildcard:
  assumes "CHR ''*'' \<notin> set prefix"
  shows "match_alias_pattern (prefix @ CHR ''*'' # suffix) specifier = Some capture \<longleftrightarrow>
    specifier = prefix @ capture @ suffix"
proof
  assume "specifier = prefix @ capture @ suffix"
  moreover have "ends_with (prefix @ capture @ suffix) suffix"
    unfolding ends_with_iff by (metis append.assoc)
  ultimately show "match_alias_pattern (prefix @ CHR ''*'' # suffix) specifier = Some capture"
    using assms by (simp add: match_alias_pattern_def split_once_append)
next
  assume m: "match_alias_pattern (prefix @ CHR ''*'' # suffix) specifier = Some capture"
  then have len: "length prefix + length suffix \<le> length specifier"
    and pre: "starts_with specifier prefix" and suf: "ends_with specifier suffix"
    and cap: "capture = take (length specifier - length suffix - length prefix) (drop (length prefix) specifier)"
    using assms by (auto simp: match_alias_pattern_def split_once_append split: if_splits)
  from suf obtain r where r: "specifier = r @ suffix" by (auto simp: ends_with_iff)
  from pre obtain t where t: "specifier = prefix @ t" by (auto simp: starts_with_iff)
  have "length prefix \<le> length r" using len r by simp
  with r t have "prefix = take (length prefix) r"
    by (metis append_eq_conv_conj take_append diff_is_0_eq' take_0 append_Nil2)
  then have "r = prefix @ drop (length prefix) r" by (metis append_take_drop_id)
  then obtain mid where "r = prefix @ mid" ..
  with r cap show "specifier = prefix @ capture @ suffix" by simp
qed

lemma distinct_set_singleton: "distinct xs \<Longrightarrow> set xs = {k} \<longleftrightarrow> xs = [k]"
  by (cases xs; cases "tl xs") auto

lemma resolve_tsconfig_alias_Resolved:
  "resolve_tsconfig_alias specifier config inventory = Resolved key \<longleftrightarrow>
     set (alias_hits inventory (normalize_join (tac_partition_prefix config) (tac_base_url config))
       specifier (tac_paths config)) = {key}"
proof -
  let ?h = "alias_hits inventory (normalize_join (tac_partition_prefix config) (tac_base_url config))
       specifier (tac_paths config)"
  have "list_ex (\<lambda>(p, _). match_alias_pattern p specifier \<noteq> None) (tac_paths config)" if "?h \<noteq> []"
  proof (rule ccontr)
    assume "\<not> ?thesis"
    then have "?h = concat (map (\<lambda>_. []) (tac_paths config))"
      unfolding alias_hits_def by (intro arg_cong [where f = concat] map_cong) (auto simp: list_ex_iff)
    with that show False by simp
  qed
  moreover have "remdups ?h = [key] \<longleftrightarrow> set ?h = {key}"
    using distinct_set_singleton [OF distinct_remdups] by (metis set_remdups)
  moreover have "(if \<not> m then NotAnAlias else case hs of [] \<Rightarrow> Alias_Unresolved | [k] \<Rightarrow> Resolved k
      | _ \<Rightarrow> Alias_Ambiguous) = Resolved key \<longleftrightarrow> m \<and> hs = [key]" for m hs
    by (simp split: list.split)
  ultimately show ?thesis
    unfolding resolve_tsconfig_alias_def Let_def by (metis remdups.simps(1) list.distinct(1))
qed

end
