(* ===== verification/Live_Graph.thy ===== *)
theory Live_Graph
  imports Scc Trust_Model Import_Resolver
begin

text \<open>
  The in-memory graph runtime, \<open>repo-graph-livegraph/src/lib.rs\<close>: partitions with their epoch, refresh
  status and residency, the cross-partition summary, the import overlay, and the trust-labelled
  queries \<open>callers\<close>, \<open>callees\<close>, \<open>value_facts\<close> and \<open>path\<close>.

  The slots are a \<open>HashMap\<close>: a map, with an argument \<open>ids\<close> that gives the order in which it is iterated
  where it is. An epoch is a \<open>u64\<close>. An \<open>expect\<close> is an outcome that may be a panic.
\<close>

section \<open>Partitions\<close>

datatype refresh_status = RS_Current | RS_Refreshing | RS_Stale | RS_RefreshFailed

definition status_freshness :: "refresh_status \<Rightarrow> freshness_state" where
  "status_freshness s = (case s of
     RS_Current \<Rightarrow> F_Fresh | RS_Refreshing \<Rightarrow> F_PrecisionPending | RS_Stale \<Rightarrow> F_Stale
   | RS_RefreshFailed \<Rightarrow> F_RefreshFailed)"

definition staleness_rank :: "freshness_state \<Rightarrow> nat" where
  "staleness_rank f = (case f of
     F_Fresh \<Rightarrow> 0 | F_PrecisionPending \<Rightarrow> 1 | F_Stale \<Rightarrow> 2 | F_RefreshFailed \<Rightarrow> 3 | F_Unavailable \<Rightarrow> 4)"

definition identity_basis_of :: "identity_source \<Rightarrow> identity_basis" where
  "identity_basis_of src = (case src of
     AstAdopted \<Rightarrow> B_AstAdopted | ScipSynthesizedFallback \<Rightarrow> B_ScipSynthesized | AstFileScope \<Rightarrow> B_AstFileScope)"

definition merge_partition_reasons ::
  "degradation_reason list \<Rightarrow> degradation_reason list \<Rightarrow> degradation_reason list" where
  "merge_partition_reasons out extra = foldl (\<lambda>acc r. if r \<in> set acc then acc else acc @ [r]) out extra"

datatype value_fact_kind = CyclomaticComplexity

datatype value_subject = Symbol canonical_key | RawAnchor source_range

record value_fact =
  vf_subject :: value_subject
  vf_kind :: value_fact_kind
  vf_value :: u32
  vf_basis :: identity_basis
  vf_source_range :: "source_range option"
  vf_provenance :: ir_provenance

record slot =
  sl_epoch :: u64
  sl_status :: refresh_status
  sl_ir :: "partition_ir option"
  sl_language :: language_support
  sl_defines :: "string \<rightharpoonup> identity_basis"
  sl_ref_counts :: "string \<rightharpoonup> nat"
  sl_value_facts :: "value_fact list"
  sl_value_facts_epoch :: "u64 option"
  sl_reasons :: "degradation_reason set"

record live_graph =
  lg_slots :: "string \<rightharpoonup> slot"
  lg_xref_epoch :: u64
  lg_overlay :: "resolved_import_edge list"

record partition_state =
  ps_id :: string
  ps_language :: language_support
  ps_resident :: bool
  ps_freshness :: freshness_state

record resident_ir =
  ri_id :: string
  ri_language :: language_support
  ri_fresh :: bool
  ri_ir :: partition_ir

definition count_ref :: "(string \<rightharpoonup> nat) \<Rightarrow> string \<Rightarrow> (string \<rightharpoonup> nat)" where
  "count_ref m k = m(k \<mapsto> (case m k of None \<Rightarrow> 0 | Some c \<Rightarrow> c) + 1)"

definition contribution :: "partition_ir \<Rightarrow> (string \<rightharpoonup> identity_basis) \<times> (string \<rightharpoonup> nat)" where
  "contribution ir =
     (insert_all Map.empty (map (\<lambda>n. (nd_key n, identity_basis_of (nd_identity_source n))) (ir_nodes ir)),
      foldl count_ref Map.empty (map ed_dst (ir_edges ir)))"

section \<open>The import overlay\<close>

type_synonym overlay_acc =
  "import_candidate list \<times> resolved_import_edge list \<times> import_candidate list"

definition alias_edge ::
  "file_inventory \<Rightarrow> tsconfig_alias_config \<Rightarrow> string \<Rightarrow> string \<Rightarrow> edge_basis \<Rightarrow> resolved_import_edge list" where
  "alias_edge inventory cfg src_key specifier basis =
     (case resolve_tsconfig_alias specifier cfg inventory of
        Resolved dst_key \<Rightarrow>
          [\<lparr>re_src_file_key = src_key, re_dst_file_key = dst_key, re_basis = basis,
            re_raw_specifier = specifier,
            re_resolved_repo_path = (case file_key_path dst_key of None \<Rightarrow> '''' | Some p \<Rightarrow> p)\<rparr>]
      | _ \<Rightarrow> [])"

definition overlay_step ::
  "file_inventory \<Rightarrow> partition_ir \<Rightarrow> overlay_acc \<Rightarrow> import_observation \<Rightarrow> overlay_acc" where
  "overlay_step inventory ir acc obs =
     (let (candidates, alias_edges, dynamic) = acc in
      case io_resolution obs of
        StaticUnresolved \<Rightarrow>
          (case file_key_for inventory (io_source_file obs) of
             None \<Rightarrow> acc
           | Some src_key \<Rightarrow>
               (candidates @ [\<lparr>ic_source_file_key = src_key, ic_raw_specifier = io_raw_specifier obs\<rparr>],
                alias_edges, dynamic))
      | PackageExternal \<Rightarrow>
          (case pt_tsconfig_aliases (ir_partition ir) of
             None \<Rightarrow> acc
           | Some cfg \<Rightarrow> (case file_key_for inventory (io_source_file obs) of
               None \<Rightarrow> acc
             | Some src_key \<Rightarrow>
                 (candidates, alias_edges @ alias_edge inventory cfg src_key (io_raw_specifier obs)
                    AstImportTsconfigPathResolved, dynamic)))
      | DynamicUnsupported \<Rightarrow>
          (if io_raw_specifier obs = '''' then acc
           else case file_key_for inventory (io_source_file obs) of
             None \<Rightarrow> acc
           | Some src_key \<Rightarrow>
               if starts_with (io_raw_specifier obs) ''.''
               then (candidates, alias_edges,
                     dynamic @ [\<lparr>ic_source_file_key = src_key, ic_raw_specifier = io_raw_specifier obs\<rparr>])
               else (case pt_tsconfig_aliases (ir_partition ir) of
                   None \<Rightarrow> acc
                 | Some cfg \<Rightarrow>
                     (candidates, alias_edges @ alias_edge inventory cfg src_key (io_raw_specifier obs)
                        AstDynamicImportResolved, dynamic)))
      | StaticResolved \<Rightarrow> acc)"

definition resident_list :: "string list \<Rightarrow> (string \<rightharpoonup> slot) \<Rightarrow> partition_ir list" where
  "resident_list ids slots =
     filter_map (\<lambda>pid. case slots pid of None \<Rightarrow> None | Some s \<Rightarrow> sl_ir s) ids"

definition file_scope_keys :: "partition_ir \<Rightarrow> string list" where
  "file_scope_keys ir = map nd_key (filter (\<lambda>n. nd_identity_source n = AstFileScope) (ir_nodes ir))"

definition compute_overlay :: "partition_ir list \<Rightarrow> resolved_import_edge list" where
  "compute_overlay irs =
     (let inventory = file_inventory_of (concat (map file_scope_keys irs));
          (candidates, alias_edges, dynamic) =
            foldl (\<lambda>acc ir. foldl (overlay_step inventory ir) acc (ir_import_observations ir)) ([], [], []) irs
      in rr_resolved (resolve_imports inventory candidates) @ alias_edges @
         map (\<lambda>e. e\<lparr>re_basis := AstDynamicImportResolved\<rparr>)
           (rr_resolved (resolve_imports inventory dynamic)))"

definition rebuild_xpart_overlay :: "string list \<Rightarrow> live_graph \<Rightarrow> live_graph" where
  "rebuild_xpart_overlay ids g = g\<lparr>lg_overlay := compute_overlay (resident_list ids (lg_slots g))\<rparr>"

section \<open>Operations\<close>

definition live_graph_new :: live_graph where
  "live_graph_new = \<lparr>lg_slots = Map.empty, lg_xref_epoch = 0, lg_overlay = []\<rparr>"

definition next_epoch :: "slot option \<Rightarrow> u64" where
  "next_epoch s = (case s of None \<Rightarrow> 1 | Some s \<Rightarrow> sl_epoch s + 1)"

definition load_partition ::
  "string list \<Rightarrow> string \<Rightarrow> partition_ir \<Rightarrow> language_support \<Rightarrow> live_graph \<Rightarrow> live_graph" where
  "load_partition ids pid ir language g =
     (let (defines, ref_counts) = contribution ir;
          s = \<lparr>sl_epoch = next_epoch (lg_slots g pid), sl_status = RS_Current, sl_ir = Some ir,
               sl_language = language, sl_defines = defines, sl_ref_counts = ref_counts,
               sl_value_facts = [], sl_value_facts_epoch = None, sl_reasons = {}\<rparr>
      in rebuild_xpart_overlay ids (g\<lparr>lg_slots := (lg_slots g)(pid \<mapsto> s)\<rparr>))"

definition modify_slot :: "string \<Rightarrow> (slot \<Rightarrow> slot) \<Rightarrow> live_graph \<Rightarrow> live_graph" where
  "modify_slot pid f g = (case lg_slots g pid of
     None \<Rightarrow> g
   | Some s \<Rightarrow> g\<lparr>lg_slots := (lg_slots g)(pid \<mapsto> f s)\<rparr>)"

definition unload_partition :: "string list \<Rightarrow> string \<Rightarrow> live_graph \<Rightarrow> live_graph" where
  "unload_partition ids pid g = rebuild_xpart_overlay ids (modify_slot pid (\<lambda>s. s\<lparr>sl_ir := None\<rparr>) g)"

definition set_status :: "string \<Rightarrow> refresh_status \<Rightarrow> live_graph \<Rightarrow> live_graph" where
  "set_status pid st g = modify_slot pid (\<lambda>s. s\<lparr>sl_status := st\<rparr>) g"

definition begin_refresh :: "string \<Rightarrow> live_graph \<Rightarrow> live_graph" where
  "begin_refresh pid g = set_status pid RS_Refreshing g"

definition mark_stale :: "string \<Rightarrow> live_graph \<Rightarrow> live_graph" where
  "mark_stale pid g = set_status pid RS_Stale g"

definition mark_refresh_failed :: "string \<Rightarrow> live_graph \<Rightarrow> live_graph" where
  "mark_refresh_failed pid g = set_status pid RS_RefreshFailed g"

definition add_partition_degradation :: "string \<Rightarrow> degradation_reason \<Rightarrow> live_graph \<Rightarrow> live_graph" where
  "add_partition_degradation pid reason g =
     modify_slot pid (\<lambda>s. s\<lparr>sl_reasons := insert reason (sl_reasons s)\<rparr>) g"

definition partition_reasons :: "live_graph \<Rightarrow> string \<Rightarrow> degradation_reason list" where
  "partition_reasons g pid = (case lg_slots g pid of
     None \<Rightarrow> []
   | Some s \<Rightarrow> sorted_list_of_set (sl_reasons s))"

definition swap_partition :: "string list \<Rightarrow> string \<Rightarrow> partition_ir \<Rightarrow> live_graph \<Rightarrow> live_graph" where
  "swap_partition ids pid new_ir g =
     (let (defines, ref_counts) = contribution new_ir;
          language = (case lg_slots g pid of None \<Rightarrow> TypeScriptPrimary | Some s \<Rightarrow> sl_language s);
          (facts, facts_epoch) = (case lg_slots g pid of
            None \<Rightarrow> ([], None) | Some s \<Rightarrow> (sl_value_facts s, sl_value_facts_epoch s));
          s = \<lparr>sl_epoch = next_epoch (lg_slots g pid), sl_status = RS_Current, sl_ir = Some new_ir,
               sl_language = language, sl_defines = defines, sl_ref_counts = ref_counts,
               sl_value_facts = facts, sl_value_facts_epoch = facts_epoch, sl_reasons = {}\<rparr>
      in rebuild_xpart_overlay ids
           (g\<lparr>lg_slots := (lg_slots g)(pid \<mapsto> s), lg_xref_epoch := lg_xref_epoch g + 1\<rparr>))"

definition load_value_facts :: "string \<Rightarrow> value_fact list \<Rightarrow> live_graph \<Rightarrow> live_graph" where
  "load_value_facts pid facts g =
     modify_slot pid (\<lambda>s. s\<lparr>sl_value_facts := facts, sl_value_facts_epoch := Some (sl_epoch s)\<rparr>) g"

definition resident_irs :: "string list \<Rightarrow> live_graph \<Rightarrow> resident_ir list" where
  "resident_irs ids g = filter_map (\<lambda>pid. case lg_slots g pid of
     None \<Rightarrow> None
   | Some s \<Rightarrow> map_option (\<lambda>ir. \<lparr>ri_id = pid, ri_language = sl_language s,
       ri_fresh = (status_freshness (sl_status s) = F_Fresh), ri_ir = ir\<rparr>) (sl_ir s)) ids"

definition partition_states :: "string list \<Rightarrow> live_graph \<Rightarrow> partition_state list" where
  "partition_states ids g = sort_key ps_id (filter_map (\<lambda>pid. map_option (\<lambda>s.
     \<lparr>ps_id = pid, ps_language = sl_language s, ps_resident = (sl_ir s \<noteq> None),
      ps_freshness = status_freshness (sl_status s)\<rparr>) (lg_slots g pid)) ids)"

definition partition_epoch :: "live_graph \<Rightarrow> string \<Rightarrow> u64 option" where
  "partition_epoch g pid = map_option sl_epoch (lg_slots g pid)"

section \<open>Answers\<close>

definition classify_cross_partition ::
  "identity_basis list \<Rightarrow> freshness_state \<Rightarrow> degradation_reason list \<Rightarrow> language_support set \<Rightarrow>
   answer_class" where
  "classify_cross_partition bases freshness reasons languages =
     (let representative = if languages = {} then TypeScriptPrimary else Max languages
      in fst (classify_answer \<lparr>ci_granularity = CallGraph, ci_bases = bases, ci_freshness = freshness,
           ci_reasons = reasons, ci_language = representative\<rparr>))"

definition finalize_envelope ::
  "'a \<Rightarrow> answer_class \<Rightarrow> freshness_state \<Rightarrow> degradation_reason list \<Rightarrow> string list \<Rightarrow>
   language_support set \<Rightarrow> 'a answer_envelope outcome" where
  "finalize_envelope data class_c freshness reasons missing languages =
     (let scip_dependent_refresh = (freshness = F_PrecisionPending);
          residency_incomplete = (missing \<noteq> [] \<and> class_c = Exact);
          final_class = if scip_dependent_refresh \<or> residency_incomplete then Partial else class_c
      in case final_class of
           Unavailable \<Rightarrow> Val (unavailable_envelope UnresolvedAlias freshness languages)
         | Stale \<Rightarrow> expect ''stale invariant holds'' (stale_envelope data freshness reasons missing [] languages)
         | Partial \<Rightarrow> expect ''partial invariant holds''
             (partial_envelope (Some data) reasons missing freshness [] languages)
         | Exact \<Rightarrow> expect ''exact invariant holds'' (exact_envelope data Complete F_Fresh [] languages))"

definition fold_step ::
  "live_graph \<Rightarrow> freshness_state \<times> (string \<times> u64) list \<times> language_support set \<Rightarrow> string \<Rightarrow>
   freshness_state \<times> (string \<times> u64) list \<times> language_support set" where
  "fold_step g acc pid = (case lg_slots g pid of
     None \<Rightarrow> acc
   | Some s \<Rightarrow>
       (let (freshness, epochs, languages) = acc; f = status_freshness (sl_status s)
        in (if staleness_rank f > staleness_rank freshness then f else freshness,
            btree_insert pid (sl_epoch s) epochs, insert (sl_language s) languages)))"

definition fold_contributing ::
  "live_graph \<Rightarrow> string list \<Rightarrow> freshness_state \<times> (string \<times> u64) list \<times> language_support set" where
  "fold_contributing g ids = foldl (fold_step g) (F_Fresh, [], {}) ids"

text \<open>The first partition, in iteration order, that defines a key.\<close>

definition defining_partition ::
  "string list \<Rightarrow> live_graph \<Rightarrow> string \<Rightarrow> (string \<times> identity_basis) option" where
  "defining_partition ids g target = first_some (\<lambda>pid. case lg_slots g pid of
     None \<Rightarrow> None
   | Some s \<Rightarrow> map_option (Pair pid) (sl_defines s target)) ids"

definition unknown_answer :: "'a answer_envelope" where
  "unknown_answer = unavailable_envelope UnresolvedAlias F_Unavailable {}"

text \<open>The reasons that \<open>callers\<close> and \<open>callees\<close> derive from the identity bases.\<close>

definition basis_reasons :: "identity_basis list \<Rightarrow> degradation_reason list" where
  "basis_reasons bases =
     (if B_ScipSynthesized \<in> set bases then [ScipFallbackIdentity] else []) @
     (if B_AstFileScope \<in> set bases then [StructuralNodeNoCallGraphContent] else [])"

record callers_answer =
  cr_per_partition_counts :: "(string \<times> nat) list"
  cr_caller_identities :: "(string \<times> string) list"
  cr_contributing_epochs :: "(string \<times> u64) list"

record callees_answer =
  ce_per_partition_counts :: "(string \<times> nat) list"
  ce_callee_identities :: "(string \<times> string option) list"
  ce_contributing_epochs :: "(string \<times> u64) list"

definition referencing_partitions :: "string list \<Rightarrow> live_graph \<Rightarrow> string \<Rightarrow> (string \<times> nat) list" where
  "referencing_partitions ids g target = btree_of (filter_map (\<lambda>pid. case lg_slots g pid of
     None \<Rightarrow> None
   | Some s \<Rightarrow> map_option (Pair pid) (sl_ref_counts s target)) ids)"

text \<open>The callers of \<open>target\<close> in one resident partition, and the bases of those that have a node.\<close>

definition caller_edges :: "string \<Rightarrow> partition_ir \<Rightarrow> ir_edge list" where
  "caller_edges target ir = filter (\<lambda>e. ed_dst e = target) (ir_edges ir)"

definition caller_bases :: "string \<Rightarrow> partition_ir \<Rightarrow> identity_basis list" where
  "caller_bases target ir = filter_map (\<lambda>e. map_option (\<lambda>n. identity_basis_of (nd_identity_source n))
     (List.find (\<lambda>n. nd_key n = ed_src e) (ir_nodes ir))) (caller_edges target ir)"

definition caller_detail_step ::
  "live_graph \<Rightarrow> string \<Rightarrow> (string \<times> string) list \<times> identity_basis list \<times> string list \<Rightarrow> string \<Rightarrow>
   (string \<times> string) list \<times> identity_basis list \<times> string list" where
  "caller_detail_step g target acc pid =
     (let (identities, bases, missing) = acc in
      case (case lg_slots g pid of None \<Rightarrow> None | Some s \<Rightarrow> sl_ir s) of
        Some ir \<Rightarrow> (identities @ map (\<lambda>e. (pid, ed_src e)) (caller_edges target ir),
                    bases @ caller_bases target ir, missing)
      | None \<Rightarrow> (identities, bases, missing @ [pid]))"

definition callers ::
  "string list \<Rightarrow> live_graph \<Rightarrow> string \<Rightarrow> granularity \<Rightarrow> callers_answer answer_envelope outcome" where
  "callers ids g target detail =
     (let defining = defining_partition ids g target;
          referencing = referencing_partitions ids g target
      in if defining = None \<and> referencing = [] then Val unknown_answer
         else
           let contributing = btree_set (map fst referencing @
                 (case defining of None \<Rightarrow> [] | Some (pid, _) \<Rightarrow> [pid]));
               (freshness, contributing_epochs, languages) = fold_contributing g contributing;
               def_bases = (case defining of None \<Rightarrow> [] | Some (_, b) \<Rightarrow> [b]);
               (identities, bases, missing) =
                 (if detail = CallerDetail
                  then foldl (caller_detail_step g target) ([], def_bases, []) (map fst referencing)
                  else ([], def_bases, []));
               reasons = merge_partition_reasons (basis_reasons bases)
                 (concat (map (partition_reasons g) contributing));
               data = \<lparr>cr_per_partition_counts = referencing, cr_caller_identities = identities,
                 cr_contributing_epochs = contributing_epochs\<rparr>;
               class_c = classify_cross_partition bases freshness reasons languages
           in finalize_envelope data class_c freshness reasons missing languages)"

record callees_acc =
  ca_bases :: "identity_basis list"
  ca_identities :: "(string \<times> string option) list"
  ca_counts :: "(string \<times> nat) list"
  ca_contributing :: "string list"
  ca_unresolved :: bool

definition callees_step ::
  "string list \<Rightarrow> live_graph \<Rightarrow> string \<Rightarrow> granularity \<Rightarrow> callees_acc \<Rightarrow> ir_edge \<Rightarrow> callees_acc" where
  "callees_step ids g target detail acc e =
     (if ed_src e \<noteq> target then acc
      else case defining_partition ids g (ed_dst e) of
        Some (owner_id, owner_basis) \<Rightarrow>
          acc\<lparr>ca_bases := ca_bases acc @ [owner_basis],
              ca_contributing := ca_contributing acc @ [owner_id],
              ca_counts := btree_insert owner_id
                ((case map_of (ca_counts acc) owner_id of None \<Rightarrow> 0 | Some c \<Rightarrow> c) + 1) (ca_counts acc),
              ca_identities := (if detail = CallerDetail
                then ca_identities acc @ [(ed_dst e, Some owner_id)] else ca_identities acc)\<rparr>
      | None \<Rightarrow>
          acc\<lparr>ca_unresolved := True,
              ca_identities := (if detail = CallerDetail
                then ca_identities acc @ [(ed_dst e, None)] else ca_identities acc)\<rparr>)"

definition callees ::
  "string list \<Rightarrow> live_graph \<Rightarrow> string \<Rightarrow> granularity \<Rightarrow> callees_answer answer_envelope outcome" where
  "callees ids g target detail =
     (case defining_partition ids g target of
        None \<Rightarrow> Val unknown_answer
      | Some (def_part, def_basis) \<Rightarrow>
          (case lg_slots g def_part of
             None \<Rightarrow> Panic ''defining slot exists''
           | Some def_slot \<Rightarrow>
               (case sl_ir def_slot of
                  None \<Rightarrow> expect ''partial with missing partition is valid''
                    (partial_envelope None [] [def_part] (status_freshness (sl_status def_slot)) []
                       {sl_language def_slot})
                | Some ir \<Rightarrow>
                    let acc = foldl (callees_step ids g target detail)
                          \<lparr>ca_bases = [def_basis], ca_identities = [], ca_counts = [],
                           ca_contributing = [def_part], ca_unresolved = False\<rparr> (ir_edges ir);
                        contributing = btree_set (ca_contributing acc);
                        reasons = merge_partition_reasons
                          ((if ca_unresolved acc then [UnresolvedAlias] else []) @ basis_reasons (ca_bases acc))
                          (concat (map (partition_reasons g) contributing));
                        (freshness, contributing_epochs, languages) = fold_contributing g contributing;
                        data = \<lparr>ce_per_partition_counts = ca_counts acc,
                          ce_callee_identities = ca_identities acc,
                          ce_contributing_epochs = contributing_epochs\<rparr>;
                        class_c = classify_cross_partition (ca_bases acc) freshness reasons languages
                    in finalize_envelope data class_c freshness reasons [] languages)))"

section \<open>Value facts\<close>

record value_facts_answer =
  va_facts :: "value_fact list"
  va_contributing_epochs :: "(string \<times> u64) list"

definition facts_for :: "slot \<Rightarrow> string \<Rightarrow> value_fact list" where
  "facts_for s symbol = filter (\<lambda>f. vf_subject f = Symbol symbol) (sl_value_facts s)"

definition value_freshness :: "slot \<Rightarrow> freshness_state" where
  "value_freshness s =
     (let base = status_freshness (sl_status s);
          epoch_mismatch = (sl_value_facts_epoch s \<noteq> Some (sl_epoch s))
      in if epoch_mismatch \<and> staleness_rank base < staleness_rank F_Stale then F_Stale else base)"

definition owned_basis :: "identity_basis \<Rightarrow> language_support \<Rightarrow> bool" where
  "owned_basis basis language =
     (fst (classify_answer \<lparr>ci_granularity = SymbolOwnership, ci_bases = [basis], ci_freshness = F_Fresh,
        ci_reasons = [], ci_language = language\<rparr>) = Exact)"

definition value_facts ::
  "string list \<Rightarrow> live_graph \<Rightarrow> string \<Rightarrow> value_facts_answer answer_envelope outcome" where
  "value_facts ids g symbol =
     (case defining_partition ids g symbol of
        None \<Rightarrow> Val unknown_answer
      | Some (def_part, _) \<Rightarrow>
          (case lg_slots g def_part of
             None \<Rightarrow> Panic ''defining slot exists''
           | Some s \<Rightarrow>
               (let languages = {sl_language s}; facts = facts_for s symbol in
                if facts = [] then Val (unavailable_envelope UnresolvedAlias F_Unavailable languages)
                else
                  let basis = vf_basis (hd facts);
                      data = \<lparr>va_facts = facts, va_contributing_epochs = [(def_part, sl_epoch s)]\<rparr> in
                  if sl_ir s = None
                  then expect ''partial with missing partition is valid''
                    (partial_envelope (Some data) [] [def_part] (status_freshness (sl_status s)) [] languages)
                  else
                    let freshness = value_freshness s;
                        owned = owned_basis basis (sl_language s);
                        reasons = merge_partition_reasons (if owned then [] else [ScipFallbackIdentity])
                          (partition_reasons g def_part)
                    in case freshness of
                         F_Fresh \<Rightarrow>
                           if owned
                           then expect ''exact invariant holds'' (exact_envelope data Complete F_Fresh [] languages)
                           else expect ''partial with reason is valid''
                             (partial_envelope (Some data) reasons [] F_Fresh [] languages)
                       | F_PrecisionPending \<Rightarrow>
                           (case (owned, prove_not_scip [basis]) of
                              (True, Some token) \<Rightarrow> expect ''exact_precision_pending invariant holds''
                                (exact_precision_pending data Complete token [] languages)
                            | _ \<Rightarrow> expect ''partial precision-pending is valid''
                                (partial_envelope (Some data) reasons [] F_PrecisionPending [] languages))
                       | _ \<Rightarrow> expect ''stale invariant holds''
                           (stale_envelope data freshness reasons [] [] languages))))"

section \<open>An example\<close>

text \<open>
  Two partitions: \<open>web\<close> defines \<open>a\<close> and \<open>b\<close>, where \<open>a\<close> calls \<open>b\<close> and \<open>b\<close> calls \<open>c\<close>; \<open>lib\<close> defines \<open>c\<close>. The file of \<open>web\<close> imports
  the file of \<open>lib\<close> by a relative specifier.
\<close>

definition demo_provenance :: ir_provenance where
  "demo_provenance = \<lparr>ip_indexer = ''scip-typescript'', ip_indexer_version = ''0.4.0'',
     ip_scip_symbol_id = None, ip_build_inputs_hash = ''h''\<rparr>"

definition demo_node :: "string \<Rightarrow> string \<Rightarrow> identity_source \<Rightarrow> ir_node" where
  "demo_node pid key src = \<lparr>nd_key = key, nd_subtype = ''FUNCTION'', nd_name = key, nd_range = None,
     nd_partition_id = pid, nd_identity_source = src, nd_provenance = demo_provenance,
     nd_attributes = None\<rparr>"

definition demo_call :: "string \<Rightarrow> string \<Rightarrow> ir_edge" where
  "demo_call u v = \<lparr>ed_src = u, ed_dst = v, ed_type = Calls, ed_basis = SyntaxConfirmedCall,
     ed_provenance = demo_provenance, ed_import = None\<rparr>"

definition demo_partition :: "string \<Rightarrow> partition" where
  "demo_partition pid = \<lparr>pt_id = pid, pt_kind = TsPackage, pt_root = pid, pt_indexer = ''scip-typescript'',
     pt_indexer_version = ''0.4.0'', pt_build_inputs_hash = ''h'', pt_package_name = None,
     pt_declared_dependencies = {}, pt_tsconfig_aliases = None\<rparr>"

definition demo_web :: partition_ir where
  "demo_web = \<lparr>ir_partition = demo_partition ''web'',
     ir_nodes = [demo_node ''web'' ''a'' AstAdopted, demo_node ''web'' ''b'' AstAdopted,
       demo_node ''web'' ''r:web/a.ts:FILE'' AstFileScope],
     ir_edges = [demo_call ''a'' ''b'', demo_call ''b'' ''c''],
     ir_import_observations = [\<lparr>io_source_file = ''web/a.ts'', io_raw_specifier = ''../lib/c'',
       io_resolution = StaticUnresolved, io_is_re_export = False, io_is_type_only = False,
       io_is_side_effect = False, io_external_node_modules = False\<rparr>]\<rparr>"

definition demo_lib :: partition_ir where
  "demo_lib = \<lparr>ir_partition = demo_partition ''lib'',
     ir_nodes = [demo_node ''lib'' ''c'' AstAdopted, demo_node ''lib'' ''r:lib/c.ts:FILE'' AstFileScope],
     ir_edges = [], ir_import_observations = []\<rparr>"

definition demo_graph :: live_graph where
  "demo_graph = load_partition [''lib'', ''web''] ''lib'' demo_lib TypeScriptPrimary
     (load_partition [''web''] ''web'' demo_web TypeScriptPrimary live_graph_new)"

definition demo_value_fact :: value_fact where
  "demo_value_fact = \<lparr>vf_subject = Symbol ''a'', vf_kind = CyclomaticComplexity, vf_value = 7,
     vf_basis = B_AstAdopted, vf_source_range = None, vf_provenance = demo_provenance\<rparr>"

end
