(* ===== verification/Live_Path.thy ===== *)
theory Live_Path
  imports Live_Graph
begin

text \<open>
  Shortest call paths, \<open>LiveGraph::path\<close> and \<open>path_cancellable\<close> of \<open>repo-graph-livegraph/src/lib.rs\<close>: a
  breadth-first search over the confirmed calls of the resident partitions, with a cancellation
  checkpoint, and the trust label of its answer. The adjacency lists of the source are the list of
  all call edges in insertion order: the neighbours of a node are its edges, in that order.
\<close>

record path_answer =
  pa_nodes :: "string list"
  pa_edges :: "(string \<times> string) list"
  pa_contributing_epochs :: "(string \<times> u64) list"

definition PATH_CANCEL_CHECK_INTERVAL :: nat where
  "PATH_CANCEL_CHECK_INTERVAL = 256"

text \<open>The owner of a node: the last partition, in iteration order, that defines it.\<close>

definition owner_map :: "string list \<Rightarrow> live_graph \<Rightarrow> string \<Rightarrow> string option" where
  "owner_map ids g key = foldl (\<lambda>o' pid. case lg_slots g pid of
     None \<Rightarrow> o'
   | Some s \<Rightarrow> if sl_defines s key \<noteq> None then Some pid else o') None ids"

text \<open>The confirmed calls of the resident partitions, each with its partition.\<close>

type_synonym call_edge = "string \<times> string \<times> string"

definition partition_calls :: "string \<Rightarrow> partition_ir \<Rightarrow> call_edge list" where
  "partition_calls pid ir =
     map (\<lambda>e. (ed_src e, ed_dst e, pid)) (filter (\<lambda>e. ed_basis e = SyntaxConfirmedCall) (ir_edges ir))"

definition strict_calls :: "string list \<Rightarrow> live_graph \<Rightarrow> call_edge list" where
  "strict_calls ids g = concat (map (\<lambda>pid. case lg_slots g pid of
     None \<Rightarrow> []
   | Some s \<Rightarrow> (case sl_ir s of None \<Rightarrow> [] | Some ir \<Rightarrow> partition_calls pid ir)) ids)"

definition known_node :: "string list \<Rightarrow> live_graph \<Rightarrow> string \<Rightarrow> bool" where
  "known_node ids g key \<longleftrightarrow>
     owner_map ids g key \<noteq> None \<or>
     list_ex (\<lambda>(src, dst, _). src = key \<or> dst = key) (strict_calls ids g)"

definition fully_expandable :: "string list \<Rightarrow> live_graph \<Rightarrow> string \<Rightarrow> bool" where
  "fully_expandable ids g key = (case owner_map ids g key of
     None \<Rightarrow> False
   | Some pid \<Rightarrow> (case lg_slots g pid of
       None \<Rightarrow> False
     | Some s \<Rightarrow> sl_ir s \<noteq> None \<and> status_freshness (sl_status s) = F_Fresh))"

section \<open>Breadth-first search\<close>

record bfs_state =
  bf_visited :: "string set"
  bf_parent :: "string \<rightharpoonup> string \<times> string"
  bf_queue :: "string list"
  bf_degraded :: bool
  bf_found :: bool
  bf_pops :: nat
  bf_calls :: nat

definition neighbours :: "call_edge list \<Rightarrow> string \<Rightarrow> (string \<times> string) list" where
  "neighbours edges n = map snd (filter (\<lambda>(src, _). src = n) edges)"

definition visit :: "string \<Rightarrow> bfs_state \<Rightarrow> string \<times> string \<Rightarrow> bfs_state" where
  "visit n st = (\<lambda>(dst, pid).
     if dst \<in> bf_visited st then st
     else st\<lparr>bf_visited := insert dst (bf_visited st), bf_parent := (bf_parent st)(dst \<mapsto> (n, pid)),
             bf_queue := bf_queue st @ [dst]\<rparr>)"

text \<open>The checkpoint after a pop; \<open>Inl\<close> when the caller asks to abandon.\<close>

definition bfs_checkpoint :: "cancel_check \<Rightarrow> bfs_state \<Rightarrow> cancelled + bfs_state" where
  "bfs_checkpoint brk st =
     (let pops = bf_pops st + 1 in
      if pops \<ge> PATH_CANCEL_CHECK_INTERVAL
      then (if brk (bf_calls st) then Inl Cancelled
            else Inr (st\<lparr>bf_pops := 0, bf_calls := bf_calls st + 1\<rparr>))
      else Inr (st\<lparr>bf_pops := pops\<rparr>))"

definition bfs_expand :: "call_edge list \<Rightarrow> (string \<Rightarrow> bool) \<Rightarrow> string \<Rightarrow> bfs_state \<Rightarrow> bfs_state" where
  "bfs_expand edges expandable n st =
     foldl (visit n) (if expandable n then st else st\<lparr>bf_degraded := True\<rparr>) (neighbours edges n)"

definition unvisited :: "call_edge list \<Rightarrow> bfs_state \<Rightarrow> string set" where
  "unvisited edges st = (fst \<circ> snd) ` set edges - bf_visited st"

lemma visit_measure:
  assumes "finite U" and "fst d \<in> U"
  shows "card (U - bf_visited (visit n st d)) + length (bf_queue (visit n st d)) =
    card (U - bf_visited st) + length (bf_queue st)"
proof (cases "fst d \<in> bf_visited st")
  case True
  then show ?thesis by (cases d) (simp add: visit_def)
next
  case False
  have "U - insert (fst d) (bf_visited st) = (U - bf_visited st) - {fst d}" by blast
  moreover have "card (U - bf_visited st) > 0"
    using False assms by (auto simp: card_gt_0_iff)
  ultimately show ?thesis
    using False assms by (cases d) (auto simp: visit_def card_Diff_singleton_if)
qed

lemma visit_fold_measure:
  assumes "finite U" and "fst ` set ds \<subseteq> U"
  shows "card (U - bf_visited (foldl (visit n) st ds)) + length (bf_queue (foldl (visit n) st ds)) =
    card (U - bf_visited st) + length (bf_queue st)"
  using assms(2)
proof (induction ds arbitrary: st)
  case (Cons d ds)
  then show ?case using visit_measure [OF assms(1), of d n st] by simp
qed simp

lemma bfs_expand_measure:
  "card (unvisited edges (bfs_expand edges ex n st)) + length (bf_queue (bfs_expand edges ex n st)) =
   card (unvisited edges st) + length (bf_queue st)"
  using visit_fold_measure [of "(fst \<circ> snd) ` set edges" "neighbours edges n" n
      "if ex n then st else st\<lparr>bf_degraded := True\<rparr>"]
  by (force simp: unvisited_def bfs_expand_def neighbours_def)

function bfs ::
  "call_edge list \<Rightarrow> (string \<Rightarrow> bool) \<Rightarrow> cancel_check \<Rightarrow> string \<Rightarrow> bfs_state \<Rightarrow> cancelled + bfs_state" where
  "bfs edges ex brk to st =
     (case bf_queue st of
        [] \<Rightarrow> Inr st
      | n # queue \<Rightarrow>
          (case bfs_checkpoint brk (st\<lparr>bf_queue := queue\<rparr>) of
             Inl c \<Rightarrow> Inl c
           | Inr st' \<Rightarrow>
               if n = to then Inr (st'\<lparr>bf_found := True\<rparr>)
               else bfs edges ex brk to (bfs_expand edges ex n st')))"
  by pat_completeness auto
termination
proof (relation "measure (\<lambda>(edges, ex, brk, to, st). card (unvisited edges st) + length (bf_queue st))")
  fix edges :: "call_edge list" and ex brk and to :: string and st st' :: bfs_state and n queue
  assume "bf_queue st = n # queue" and "bfs_checkpoint brk (st\<lparr>bf_queue := queue\<rparr>) = Inr st'"
  then have "bf_queue st' = queue" "bf_visited st' = bf_visited st"
    by (auto simp: bfs_checkpoint_def Let_def split: if_splits)
  then show "((edges, ex, brk, to, bfs_expand edges ex n st'), edges, ex, brk, to, st)
      \<in> measure (\<lambda>(edges, ex, brk, to, st). card (unvisited edges st) + length (bf_queue st))"
    using bfs_expand_measure [of edges ex n st'] \<open>bf_queue st = n # queue\<close>
    by (simp add: unvisited_def)
qed simp

declare bfs.simps [simp del]

section \<open>The answer\<close>

record path_back =
  pb_nodes_rev :: "string list"
  pb_edges_rev :: "(string \<times> string) list"
  pb_parts :: "string list"

text \<open>The walk back along the parents; \<open>None\<close> if it does not end.\<close>

partial_function (option) walk_back ::
  "(string \<Rightarrow> string option) \<Rightarrow> (string \<rightharpoonup> string \<times> string) \<Rightarrow> string \<Rightarrow> string \<Rightarrow> path_back \<Rightarrow>
   path_back option" where
  "walk_back owner parent from cur b =
     (case parent cur of
        None \<Rightarrow> Some b
      | Some (prev, pid) \<Rightarrow>
          (let b' = \<lparr>pb_nodes_rev = pb_nodes_rev b @ [prev], pb_edges_rev = pb_edges_rev b @ [(prev, cur)],
                     pb_parts = pb_parts b @ [pid] @ (case owner prev of None \<Rightarrow> [] | Some p \<Rightarrow> [p])\<rparr>
           in if prev = from then Some b' else walk_back owner parent from prev b'))"

declare walk_back.simps [code]

definition collect_parts ::
  "live_graph \<Rightarrow> string list \<Rightarrow> (string \<times> u64) list \<times> language_support set \<times> freshness_state" where
  "collect_parts g parts =
     (let (worst, epochs, languages) = fold_contributing g parts
      in (epochs, if languages = {} then {TypeScriptPrimary} else languages, worst))"

definition found_answer ::
  "live_graph \<Rightarrow> path_back \<Rightarrow> path_answer answer_envelope outcome" where
  "found_answer g b =
     (let (epochs, languages, worst) = collect_parts g (btree_set (pb_parts b));
          data = \<lparr>pa_nodes = rev (pb_nodes_rev b), pa_edges = rev (pb_edges_rev b),
            pa_contributing_epochs = epochs\<rparr>
      in if worst = F_Fresh
         then expect ''path exact invariant holds'' (exact_envelope data Complete F_Fresh [] languages)
         else expect ''path stale invariant holds'' (stale_envelope data worst [] [] [] languages))"

definition no_path_answer ::
  "string list \<Rightarrow> live_graph \<Rightarrow> string \<Rightarrow> bool \<Rightarrow> path_answer answer_envelope outcome" where
  "no_path_answer ids g from degraded =
     (let languages = (case owner_map ids g from of
            None \<Rightarrow> {}
          | Some pid \<Rightarrow> (case lg_slots g pid of None \<Rightarrow> {} | Some s \<Rightarrow> {sl_language s}));
          languages = (if languages = {} then {TypeScriptPrimary} else languages);
          empty = \<lparr>pa_nodes = [], pa_edges = [], pa_contributing_epochs = []\<rparr>
      in if degraded
         then expect ''path partial invariant holds''
           (partial_envelope (Some empty) [UnresolvedAlias] [] F_Fresh [] languages)
         else expect ''path exact no-path invariant holds'' (exact_envelope empty Complete F_Fresh [] languages))"

definition bfs_init :: "string \<Rightarrow> bfs_state" where
  "bfs_init from = \<lparr>bf_visited = {from}, bf_parent = Map.empty, bf_queue = [from], bf_degraded = False,
     bf_found = False, bf_pops = 0, bf_calls = 0\<rparr>"

definition path_outcome :: "('a \<Rightarrow> 'b) \<Rightarrow> 'a outcome \<Rightarrow> 'b outcome" where
  "path_outcome f x = (case x of Val a \<Rightarrow> Val (f a) | Panic m \<Rightarrow> Panic m)"

definition path_cancellable ::
  "string list \<Rightarrow> live_graph \<Rightarrow> string \<Rightarrow> string \<Rightarrow> cancel_check \<Rightarrow>
   (cancelled + path_answer answer_envelope) outcome option" where
  "path_cancellable ids g from to brk =
     (if \<not> known_node ids g from \<or> \<not> known_node ids g to then Some (Val (Inr unknown_answer))
      else case bfs (strict_calls ids g) (fully_expandable ids g) brk to (bfs_init from) of
        Inl c \<Rightarrow> Some (Val (Inl c))
      | Inr st \<Rightarrow>
          if bf_found st
          then (case walk_back (owner_map ids g) (bf_parent st) from to
                  \<lparr>pb_nodes_rev = [to], pb_edges_rev = [],
                   pb_parts = (case owner_map ids g to of None \<Rightarrow> [] | Some p \<Rightarrow> [p])\<rparr> of
                 None \<Rightarrow> None
               | Some b \<Rightarrow> Some (path_outcome Inr (found_answer g b)))
          else Some (path_outcome Inr (no_path_answer ids g from (bf_degraded st))))"

definition path_query ::
  "string list \<Rightarrow> live_graph \<Rightarrow> string \<Rightarrow> string \<Rightarrow> path_answer answer_envelope outcome option" where
  "path_query ids g from to = (case path_cancellable ids g from to (\<lambda>_. False) of
     None \<Rightarrow> None
   | Some (Panic m) \<Rightarrow> Some (Panic m)
   | Some (Val (Inl _)) \<Rightarrow> Some (Panic ''never-breaking checkpoint cannot cancel'')
   | Some (Val (Inr e)) \<Rightarrow> Some (Val e))"

section \<open>Display lookups\<close>

definition node_in_residents :: "string list \<Rightarrow> live_graph \<Rightarrow> canonical_key \<Rightarrow> ir_node option" where
  "node_in_residents ids g key = first_some (\<lambda>ir. ir_node_of ir key) (resident_list ids (lg_slots g))"

definition node_location :: "string list \<Rightarrow> live_graph \<Rightarrow> canonical_key \<Rightarrow> source_range option" where
  "node_location ids g key = Option.bind (node_in_residents ids g key) nd_range"

definition node_display :: "string list \<Rightarrow> live_graph \<Rightarrow> canonical_key \<Rightarrow> (string \<times> string) option" where
  "node_display ids g key = map_option (\<lambda>n.
     (nd_name n, case Option.bind (nd_attributes n) sa_symbol_kind of
        None \<Rightarrow> nd_subtype n | Some k \<Rightarrow> k)) (node_in_residents ids g key)"

end
