(* ===== verification/Live_Queries.thy ===== *)
theory Live_Queries
  imports Live_Graph
begin

text \<open>
  The invariant of the graph runtime under its operations, and the properties of its queries other
  than paths: they never panic, build legal envelopes, and answer \<open>Exact\<close> only when the answer is whole.
\<close>

section \<open>Freshness and languages of contributing partitions\<close>

lemma status_fresh_iff [simp]: "status_freshness st = F_Fresh \<longleftrightarrow> st = RS_Current"
  by (cases st) (simp_all add: status_freshness_def)

lemma staleness_rank_zero [simp]: "staleness_rank f = 0 \<longleftrightarrow> f = F_Fresh"
  by (cases f) (simp_all add: staleness_rank_def)

lemma fold_contributing_fresh:
  "fst (fold_contributing g ids) = F_Fresh \<longleftrightarrow>
     (\<forall>pid \<in> set ids. \<forall>s. lg_slots g pid = Some s \<longrightarrow> sl_status s = RS_Current)"
proof -
  have "fst (foldl (fold_step g) acc ids) = F_Fresh \<longleftrightarrow> fst acc = F_Fresh \<and>
     (\<forall>pid \<in> set ids. \<forall>s. lg_slots g pid = Some s \<longrightarrow> sl_status s = RS_Current)" for acc
  proof (induction ids arbitrary: acc)
    case (Cons a ids)
    have "fst (fold_step g acc a) = F_Fresh \<longleftrightarrow>
        fst acc = F_Fresh \<and> (\<forall>s. lg_slots g a = Some s \<longrightarrow> sl_status s = RS_Current)"
      by (cases acc; cases "lg_slots g a"; cases "fst acc")
        (auto simp: fold_step_def Let_def staleness_rank_def status_freshness_def
          split: refresh_status.splits)
    with Cons.IH [of "fold_step g acc a"] show ?case by auto
  qed simp
  from this [of "(F_Fresh, [], {})"] show ?thesis by (simp add: fold_contributing_def)
qed

lemma expect_legal:
  "expect m (exact_envelope d Complete F_Fresh p l) = Val e \<Longrightarrow> legal_envelope e"
  "expect m (stale_envelope d f r ms p l) = Val e \<Longrightarrow> legal_envelope e"
  "expect m (partial_envelope d' r ms f p l) = Val e \<Longrightarrow> legal_envelope e"
  by (auto simp: expect_def envelope_constructors legal_envelope_def split: sum.splits if_splits)

lemma unknown_answer_legal [simp]: "legal_envelope unknown_answer" "env_data unknown_answer = None"
  by (simp_all add: unknown_answer_def unavailable_envelope_def legal_envelope_def)

lemma status_not_unavailable [simp]: "status_freshness st \<noteq> F_Unavailable"
  by (cases st) (simp_all add: status_freshness_def)

lemma fold_contributing_languages:
  "snd (snd (fold_contributing g pids)) = {sl_language s | s pid. pid \<in> set pids \<and> lg_slots g pid = Some s}"
proof -
  have "snd (snd (foldl (fold_step g) acc pids)) =
      snd (snd acc) \<union> {sl_language s | s pid. pid \<in> set pids \<and> lg_slots g pid = Some s}" for acc
  proof (induction pids arbitrary: acc)
    case (Cons a pids)
    have "snd (snd (fold_step g acc a)) = snd (snd acc) \<union> {sl_language s | s. lg_slots g a = Some s}"
      by (cases acc; cases "lg_slots g a") (auto simp: fold_step_def Let_def)
    with Cons.IH [of "fold_step g acc a"] show ?case by auto
  qed simp
  from this [of "(F_Fresh, [], {})"] show ?thesis by (simp add: fold_contributing_def)
qed

lemma fold_contributing_not_unavailable: "fst (fold_contributing g pids) \<noteq> F_Unavailable"
proof -
  have "fst acc \<noteq> F_Unavailable \<Longrightarrow> fst (foldl (fold_step g) acc pids) \<noteq> F_Unavailable" for acc
  proof (induction pids arbitrary: acc)
    case (Cons a pids)
    have "fst (fold_step g acc a) \<noteq> F_Unavailable"
      using Cons.prems by (cases acc; cases "lg_slots g a") (auto simp: fold_step_def Let_def)
    with Cons.IH show ?case by simp
  qed simp
  from this [of "(F_Fresh, [], {})"] show ?thesis by (simp add: fold_contributing_def)
qed

section \<open>The final envelope\<close>

lemma set_merge_partition_reasons [simp]:
  "set (merge_partition_reasons out extra) = set out \<union> set extra"
  unfolding merge_partition_reasons_def by (induction extra arbitrary: out) auto

definition call_bases :: "identity_basis set" where
  "call_bases = {B_AstAdopted, B_ScipSynthesized, B_AstFileScope}"

lemma basis_call_bases [simp]: "identity_basis_of src \<in> call_bases"
  by (cases src) (simp_all add: identity_basis_of_def call_bases_def)

text \<open>Under the reasons that the queries derive, every partial answer is justified.\<close>

lemma classify_partial_justified:
  assumes "classify_cross_partition bases F_Fresh reasons languages = Partial"
    and "set bases \<subseteq> call_bases" and "set (basis_reasons bases) \<subseteq> set reasons"
  shows "reasons \<noteq> []"
proof
  assume "reasons = []"
  with assms(3) have "B_ScipSynthesized \<notin> set bases" "B_AstFileScope \<notin> set bases"
    by (auto simp: basis_reasons_def split: if_splits)
  with assms(2) have "list_all (\<lambda>b. basis_complete_for b CallGraph) bases"
    by (auto simp: list_all_iff call_bases_def)
  with assms(1) \<open>reasons = []\<close> show False
    by (auto simp: classify_cross_partition_def classify_answer_def Let_def split: if_splits)
qed

lemma classify_cross_stale:
  assumes "classify_cross_partition bases freshness reasons languages = Stale"
  shows "freshness \<noteq> F_Fresh"
  using assms by (auto simp: classify_cross_partition_def classify_answer_def Let_def split: if_splits)

lemma classify_cross_exact:
  assumes "classify_cross_partition bases freshness reasons languages = Exact"
  shows "reasons = []" and "bases \<noteq> []" and "freshness = F_Fresh \<or> freshness = F_PrecisionPending"
  using assms unfolding classify_cross_partition_def Let_def classify_answer_Exact by auto

lemma finalize_ok:
  assumes langs: "languages \<noteq> {}" and bases: "set bases \<subseteq> call_bases"
    and reasons: "set (basis_reasons bases) \<subseteq> set reasons"
    and c: "c = classify_cross_partition bases freshness reasons languages"
  shows "\<exists>e. finalize_envelope data c freshness reasons missing languages = Val e \<and> legal_envelope e \<and>
    (env_class e = Exact \<longrightarrow> freshness = F_Fresh \<and> missing = [] \<and> reasons = [] \<and> bases \<noteq> []) \<and>
    (env_data e = Some data \<or> env_class e = Unavailable) \<and>
    env_freshness e = freshness"
proof (cases "freshness = F_PrecisionPending \<or> missing \<noteq> [] \<and> c = Exact")
  case True
  then have "\<not> (freshness = F_Fresh \<and> reasons = [] \<and> missing = [])" by auto
  with True langs show ?thesis
    by (auto simp: finalize_envelope_def Let_def expect_def partial_envelope_def legal_envelope_def)
next
  case False
  then have fin: "finalize_envelope data c freshness reasons missing languages = (case c of
      Unavailable \<Rightarrow> Val (unavailable_envelope UnresolvedAlias freshness languages)
    | Stale \<Rightarrow> expect ''stale invariant holds'' (stale_envelope data freshness reasons missing [] languages)
    | Partial \<Rightarrow> expect ''partial invariant holds''
        (partial_envelope (Some data) reasons missing freshness [] languages)
    | Exact \<Rightarrow> expect ''exact invariant holds'' (exact_envelope data Complete F_Fresh [] languages))"
    by (auto simp: finalize_envelope_def Let_def)
  show ?thesis
  proof (cases c)
    case Exact
    with c False classify_cross_exact [of bases freshness reasons languages] fin langs show ?thesis
      by (simp add: expect_def exact_envelope_def legal_envelope_def)
  next
    case Partial
    with c reasons bases classify_partial_justified [of bases reasons languages]
    have "\<not> (freshness = F_Fresh \<and> reasons = [] \<and> missing = [])" by auto
    with Partial fin langs show ?thesis
      by (auto simp: expect_def partial_envelope_def legal_envelope_def)
  next
    case Unavailable
    with fin show ?thesis by (simp add: unavailable_envelope_def legal_envelope_def)
  next
    case Stale
    with c classify_cross_stale [of bases freshness reasons languages] fin langs show ?thesis
      by (simp add: expect_def stale_envelope_def legal_envelope_def)
  qed
qed

section \<open>The summary of a partition\<close>

lemma count_ref_fold:
  "foldl count_ref m ks k = (if k \<in> set ks
     then Some ((case m k of None \<Rightarrow> 0 | Some c \<Rightarrow> c) + count_list ks k) else m k)"
proof (induction ks arbitrary: m)
  case (Cons a ks)
  show ?case
    using Cons.IH [of "count_ref m a"] by (auto simp: count_ref_def split: option.splits)
qed simp

lemma contribution_refs:
  "snd (contribution ir) k = (if caller_edges k ir = [] then None else Some (length (caller_edges k ir)))"
proof -
  have "count_list (map ed_dst es) k = length (filter (\<lambda>e. ed_dst e = k) es)" for es :: "ir_edge list"
    by (induction es) auto
  moreover have "k \<in> ed_dst ` set es \<longleftrightarrow> filter (\<lambda>e. ed_dst e = k) es \<noteq> []" for es :: "ir_edge list"
    by (auto simp: filter_empty_conv)
  ultimately show ?thesis
    by (simp add: contribution_def count_ref_fold caller_edges_def)
qed

lemma contribution_defines: "fst (contribution ir) k = Some b \<Longrightarrow> b \<in> call_bases"
  by (auto simp: contribution_def insert_all_map_of_rev dest!: map_of_SomeD)

text \<open>
  What the queries need of a slot: its summary is that of some partition, of the resident one when
  there is one. Which partition the summary of a slot without one comes from is settled by the
  histories below (\<open>slot_after\<close>).
\<close>

definition slot_ok :: "slot \<Rightarrow> bool" where
  "slot_ok s \<longleftrightarrow> (\<exists>ir. contribution ir = (sl_defines s, sl_ref_counts s) \<and>
     (sl_ir s = Some ir \<or> sl_ir s = None))"

definition slots_ok :: "live_graph \<Rightarrow> bool" where
  "slots_ok g \<longleftrightarrow> (\<forall>s \<in> ran (lg_slots g). slot_ok s)"

lemma slot_ok_defines: "slot_ok s \<Longrightarrow> sl_defines s k = Some b \<Longrightarrow> b \<in> call_bases"
  using contribution_defines by (metis fst_conv slot_ok_def)

lemma slot_ok_refs:
  "slot_ok s \<Longrightarrow> sl_ir s = Some ir \<Longrightarrow>
     sl_ref_counts s k = (if caller_edges k ir = [] then None else Some (length (caller_edges k ir)))"
  unfolding slot_ok_def by (metis contribution_refs option.distinct(1) option.inject snd_conv)

lemma slots_okD: "slots_ok g \<Longrightarrow> lg_slots g pid = Some s \<Longrightarrow> slot_ok s"
  by (auto simp: slots_ok_def ran_def)

section \<open>Looking up partitions\<close>

lemma defining_partition_Some:
  assumes "defining_partition ids g k = Some (pid, b)"
  shows "\<exists>s. lg_slots g pid = Some s \<and> sl_defines s k = Some b"
  using assms first_some_Some unfolding defining_partition_def
  by (auto dest!: first_some_Some split: option.splits)

lemma defining_partition_call_bases:
  "slots_ok g \<Longrightarrow> defining_partition ids g k = Some (pid, b) \<Longrightarrow> b \<in> call_bases"
  using defining_partition_Some slot_ok_defines slots_okD by metis

lemma referencing_map:
  assumes "enumerates ids (lg_slots g)"
  shows "map_of (referencing_partitions ids g k) pid =
    (case lg_slots g pid of None \<Rightarrow> None | Some s \<Rightarrow> sl_ref_counts s k)"
proof -
  let ?f = "\<lambda>pid. case lg_slots g pid of None \<Rightarrow> None | Some s \<Rightarrow> map_option (Pair pid) (sl_ref_counts s k)"
  have f_fst: "?f p = Some (q, c) \<Longrightarrow> q = p" for p q c by (auto split: option.splits)
  have "distinct (map fst (filter_map ?f xs))" if "distinct xs" for xs
    using that by (induction xs) (auto split: option.splits)
  then have "distinct (map fst (filter_map ?f ids))" using assms by (simp add: enumerates_def)
  moreover have "(pid, c) \<in> set (filter_map ?f ids) \<longleftrightarrow>
      (case lg_slots g pid of None \<Rightarrow> None | Some s \<Rightarrow> sl_ref_counts s k) = Some c" for c
    using assms by (auto simp: enumerates_def split: option.splits)
  ultimately have "map_of (filter_map ?f ids) pid = Some c \<longleftrightarrow>
      (case lg_slots g pid of None \<Rightarrow> None | Some s \<Rightarrow> sl_ref_counts s k) = Some c" for c
    by (simp only: map_of_eq_Some_iff)
  then have "map_of (filter_map ?f ids) pid =
      (case lg_slots g pid of None \<Rightarrow> None | Some s \<Rightarrow> sl_ref_counts s k)"
    by (rule option_eqI)
  then show ?thesis
    using \<open>distinct (map fst (filter_map ?f ids))\<close>
    by (simp add: referencing_partitions_def map_of_rev)
qed

definition resident_of :: "live_graph \<Rightarrow> string \<Rightarrow> partition_ir option" where
  "resident_of g pid = (case lg_slots g pid of None \<Rightarrow> None | Some s \<Rightarrow> sl_ir s)"

lemma caller_detail_fold:
  "foldl (caller_detail_step g t) (I, B, M) pids =
     (I @ concat (map (\<lambda>pid. case resident_of g pid of None \<Rightarrow> []
        | Some ir \<Rightarrow> map (\<lambda>e. (pid, ed_src e)) (caller_edges t ir)) pids),
      B @ concat (map (\<lambda>pid. case resident_of g pid of None \<Rightarrow> [] | Some ir \<Rightarrow> caller_bases t ir) pids),
      M @ filter (\<lambda>pid. resident_of g pid = None) pids)"
proof (induction pids arbitrary: I B M)
  case (Cons a pids)
  then show ?case
    by (cases "resident_of g a") (simp_all add: caller_detail_step_def resident_of_def)
qed simp

lemma caller_bases_call_bases: "set (caller_bases t ir) \<subseteq> call_bases"
  by (auto simp: caller_bases_def)

section \<open>Callers\<close>

lemma finite_reasons [simp]: "finite (A :: degradation_reason set)"
proof (rule finite_imageD)
  show "finite (reason_rank ` A)"
    by (rule finite_subset [of _ "{..10}"]) (auto simp: reason_rank_def split: degradation_reason.splits)
  show "inj_on reason_rank A" by (simp add: inj_on_def)
qed

text \<open>The whole answer to who calls \<open>t\<close>: all callers in partitions that are resident and current.\<close>

definition whole_callers :: "live_graph \<Rightarrow> string \<Rightarrow> callers_answer \<Rightarrow> bool" where
  "whole_callers g t d \<longleftrightarrow>
     set (cr_caller_identities d) = {(pid, ed_src e) | pid ir e. resident_of g pid = Some ir \<and>
       e \<in> set (ir_edges ir) \<and> ed_dst e = t} \<and>
     (\<forall>pid s. lg_slots g pid = Some s \<and> sl_ref_counts s t \<noteq> None \<longrightarrow>
        sl_ir s \<noteq> None \<and> sl_status s = RS_Current \<and> sl_reasons s = {})"

definition counts_ok :: "live_graph \<Rightarrow> string \<Rightarrow> callers_answer \<Rightarrow> bool" where
  "counts_ok g t d \<longleftrightarrow> (\<forall>pid. map_of (cr_per_partition_counts d) pid =
     (case lg_slots g pid of None \<Rightarrow> None | Some s \<Rightarrow> sl_ref_counts s t))"

lemma referencing_iff:
  assumes "enumerates ids (lg_slots g)"
  shows "pid \<in> fst ` set (referencing_partitions ids g t) \<longleftrightarrow>
    (\<exists>s. lg_slots g pid = Some s \<and> sl_ref_counts s t \<noteq> None)"
  using referencing_map [OF assms, of t pid] map_of_eq_None_iff [of "referencing_partitions ids g t" pid]
  by (auto split: option.splits)

lemma caller_identities_whole:
  assumes en: "enumerates ids (lg_slots g)" and ok: "slots_ok g"
  shows "set (concat (map (\<lambda>pid. case resident_of g pid of None \<Rightarrow> []
      | Some ir \<Rightarrow> map (\<lambda>e. (pid, ed_src e)) (caller_edges t ir)) (map fst (referencing_partitions ids g t)))) =
    {(pid, ed_src e) | pid ir e. resident_of g pid = Some ir \<and> e \<in> set (ir_edges ir) \<and> ed_dst e = t}"
    (is "?L = ?R")
proof (intro set_eqI iffI)
  fix x assume "x \<in> ?L"
  then show "x \<in> ?R" by (auto simp: caller_edges_def split: option.splits) metis
next
  fix x assume "x \<in> ?R"
  then obtain pid ir e where x: "x = (pid, ed_src e)" and r: "resident_of g pid = Some ir"
    and e: "e \<in> set (ir_edges ir)" "ed_dst e = t" by blast
  then obtain s where s: "lg_slots g pid = Some s" "sl_ir s = Some ir"
    by (auto simp: resident_of_def split: option.splits)
  have "e \<in> set (caller_edges t ir)" using e by (simp add: caller_edges_def)
  moreover from this have "sl_ref_counts s t \<noteq> None"
    using slot_ok_refs [OF slots_okD [OF ok s(1)] s(2), of t] by (auto split: if_splits)
  then have "pid \<in> fst ` set (referencing_partitions ids g t)"
    using referencing_iff [OF en] s(1) by blast
  ultimately show "x \<in> ?L" using x r by force
qed

lemma callers_spec:
  assumes en: "enumerates ids (lg_slots g)" and ok: "slots_ok g"
  shows "\<exists>e. callers ids g t detail = Val e \<and> legal_envelope e \<and>
    (\<forall>d. env_data e = Some d \<longrightarrow> counts_ok g t d \<and>
       (env_class e = Exact \<and> detail = CallerDetail \<longrightarrow> whole_callers g t d))"
proof (cases "defining_partition ids g t = None \<and> referencing_partitions ids g t = []")
  case True
  then show ?thesis by (simp add: callers_def)
next
  case known: False
  let ?def = "defining_partition ids g t" and ?ref = "referencing_partitions ids g t"
  define contributing where "contributing = btree_set (map fst ?ref @ (case ?def of None \<Rightarrow> [] | Some (pid, _) \<Rightarrow> [pid]))"
  obtain freshness epochs languages where fc: "fold_contributing g contributing = (freshness, epochs, languages)"
    by (metis prod_cases3)
  let ?db = "case ?def of None \<Rightarrow> [] | Some (_, b) \<Rightarrow> [b]"
  obtain identities bases missing where det: "(if detail = CallerDetail
      then foldl (caller_detail_step g t) ([], ?db, []) (map fst ?ref) else ([], ?db, [])) = (identities, bases, missing)"
    by (metis prod_cases3)
  define reasons where "reasons = merge_partition_reasons (basis_reasons bases)
    (concat (map (partition_reasons g) contributing))"
  define data where "data = \<lparr>cr_per_partition_counts = ?ref, cr_caller_identities = identities,
    cr_contributing_epochs = epochs\<rparr>"
  have eq: "callers ids g t detail = finalize_envelope data
      (classify_cross_partition bases freshness reasons languages) freshness reasons missing languages"
    using known unfolding callers_def Let_def contributing_def [symmetric] fc prod.case det
      reasons_def [symmetric] data_def [symmetric] by auto
  have db: "set ?db \<subseteq> call_bases"
    using defining_partition_call_bases [OF ok] by (cases ?def) auto
  have bases: "set bases \<subseteq> call_bases"
  proof -
    have "set (concat (map (\<lambda>pid. case resident_of g pid of None \<Rightarrow> [] | Some ir \<Rightarrow> caller_bases t ir) pids))
        \<subseteq> call_bases" for pids
    proof (induction pids)
      case (Cons a pids)
      then show ?case using caller_bases_call_bases by (cases "resident_of g a") auto
    qed simp
    from this [of "map fst ?ref"] det db show ?thesis
      by (auto simp only: caller_detail_fold set_append append_Nil prod.inject split: if_splits)
  qed
  have ref_in: "pid \<in> set contributing" if "lg_slots g pid = Some s" "sl_ref_counts s t \<noteq> None" for pid s
  proof -
    have "pid \<in> fst ` set ?ref" using referencing_iff [OF en] that by blast
    then show ?thesis by (simp add: contributing_def)
  qed
  have "\<exists>pid \<in> set contributing. lg_slots g pid \<noteq> None"
  proof (cases ?def)
    case None
    with known obtain pid where "pid \<in> fst ` set ?ref" by (cases ?ref) auto
    then obtain s where "lg_slots g pid = Some s" "sl_ref_counts s t \<noteq> None"
      using referencing_iff [OF en] by blast
    then show ?thesis using ref_in by blast
  next
    case (Some p)
    then have "fst p \<in> set contributing" by (cases p) (simp add: contributing_def)
    moreover have "lg_slots g (fst p) \<noteq> None"
      using defining_partition_Some [of ids g t "fst p" "snd p"] Some by auto
    ultimately show ?thesis ..
  qed
  then have langs: "languages \<noteq> {}"
    using fold_contributing_languages [of g contributing] fc by auto
  have "set (basis_reasons bases) \<subseteq> set reasons" by (simp add: reasons_def)
  from finalize_ok [OF langs bases this refl, where freshness = freshness and data = data and missing = missing] obtain e where
    e: "callers ids g t detail = Val e" "legal_envelope e"
      "env_class e = Exact \<Longrightarrow> freshness = F_Fresh \<and> missing = [] \<and> reasons = []"
      "env_data e = Some data \<or> env_class e = Unavailable" unfolding eq by blast
  have counts: "counts_ok g t data"
    using referencing_map [OF en] by (simp add: counts_ok_def data_def)
  have "whole_callers g t data" if ex: "env_class e = Exact" and detail: "detail = CallerDetail"
  proof -
    from e(3) [OF ex] have fresh: "freshness = F_Fresh" "missing = []" "reasons = []" by auto
    have "identities = concat (map (\<lambda>pid. case resident_of g pid of None \<Rightarrow> []
        | Some ir \<Rightarrow> map (\<lambda>e. (pid, ed_src e)) (caller_edges t ir)) (map fst ?ref))"
      and miss: "filter (\<lambda>pid. resident_of g pid = None) (map fst ?ref) = []"
      using det detail fresh(2) by (auto simp: caller_detail_fold)
    then have "set identities = {(pid, ed_src e) | pid ir e. resident_of g pid = Some ir \<and>
        e \<in> set (ir_edges ir) \<and> ed_dst e = t}"
      using caller_identities_whole [OF en ok, of t] by simp
    moreover have "sl_ir s \<noteq> None \<and> sl_status s = RS_Current \<and> sl_reasons s = {}"
      if s: "lg_slots g pid = Some s" "sl_ref_counts s t \<noteq> None" for pid s
    proof (intro conjI)
      have "pid \<in> fst ` set ?ref" using referencing_iff [OF en] s by blast
      then have "resident_of g pid \<noteq> None" using miss by (auto simp: filter_empty_conv)
      then show "sl_ir s \<noteq> None" using s(1) by (simp add: resident_of_def)
      have c: "pid \<in> set contributing" by (rule ref_in [OF s])
      then show "sl_status s = RS_Current"
        using fold_contributing_fresh [of g contributing] fc fresh(1) s(1) by auto
      have "set (partition_reasons g pid) \<subseteq> set reasons" using c by (auto simp: reasons_def)
      then show "sl_reasons s = {}" using fresh(3) s(1) by (simp add: partition_reasons_def)
    qed
    ultimately show ?thesis unfolding whole_callers_def data_def by auto
  qed
  moreover have "d = data" if "env_data e = Some d" for d
    using that e(2,4) by (auto simp: legal_envelope_def)
  ultimately show ?thesis using e(1,2) counts by blast
qed

section \<open>Callees\<close>

lemma callees_fold:
  fixes acc :: callees_acc
  shows "ca_bases (foldl (callees_step ids g t detail) acc es) =
      ca_bases acc @ filter_map (\<lambda>e. map_option snd (defining_partition ids g (ed_dst e))) (filter (\<lambda>e. ed_src e = t) es)"
    and "ca_contributing (foldl (callees_step ids g t detail) acc es) =
      ca_contributing acc @ filter_map (\<lambda>e. map_option fst (defining_partition ids g (ed_dst e))) (filter (\<lambda>e. ed_src e = t) es)"
    and "ca_unresolved (foldl (callees_step ids g t detail) acc es) =
      (ca_unresolved acc \<or> (\<exists>e \<in> set (filter (\<lambda>e. ed_src e = t) es). defining_partition ids g (ed_dst e) = None))"
    and "ca_identities (foldl (callees_step ids g t CallerDetail) acc es) =
      ca_identities acc @ map (\<lambda>e. (ed_dst e, map_option fst (defining_partition ids g (ed_dst e)))) (filter (\<lambda>e. ed_src e = t) es)"
  by (induction es arbitrary: acc)
    (auto simp: callees_step_def split: option.splits)

definition whole_callees :: "live_graph \<Rightarrow> string \<Rightarrow> callees_answer \<Rightarrow> bool" where
  "whole_callees g t d \<longleftrightarrow> (\<exists>pid s ir. lg_slots g pid = Some s \<and> sl_ir s = Some ir \<and>
     sl_status s = RS_Current \<and> sl_defines s t \<noteq> None \<and>
     map fst (ce_callee_identities d) = map ed_dst (ir_outgoing ir t) \<and>
     (\<forall>(k, owner) \<in> set (ce_callee_identities d). \<exists>q sq. owner = Some q \<and> lg_slots g q = Some sq \<and>
        sl_defines sq k \<noteq> None \<and> sl_status sq = RS_Current))"

lemma callees_spec:
  assumes ok: "slots_ok g"
  shows "\<exists>e. callees ids g t detail = Val e \<and> legal_envelope e \<and>
    (env_class e = Exact \<and> detail = CallerDetail \<longrightarrow> (\<exists>d. env_data e = Some d \<and> whole_callees g t d))"
proof (cases "defining_partition ids g t")
  case None
  then show ?thesis by (simp add: callees_def unknown_answer_def unavailable_envelope_def legal_envelope_def)
next
  case def: (Some p)
  obtain pid b where p: "p = (pid, b)" by force
  then obtain s where s: "lg_slots g pid = Some s" "sl_defines s t = Some b"
    using defining_partition_Some def by blast
  show ?thesis
  proof (cases "sl_ir s")
    case None
    then show ?thesis
      by (simp add: callees_def def p s(1) expect_def partial_envelope_def legal_envelope_def)
  next
    case ir: (Some ir)
    define acc where "acc = foldl (callees_step ids g t detail) \<lparr>ca_bases = [b], ca_identities = [],
      ca_counts = [], ca_contributing = [pid], ca_unresolved = False\<rparr> (ir_edges ir)"
    define contributing where "contributing = btree_set (ca_contributing acc)"
    define reasons where "reasons = merge_partition_reasons
      ((if ca_unresolved acc then [UnresolvedAlias] else []) @ basis_reasons (ca_bases acc))
      (concat (map (partition_reasons g) contributing))"
    obtain freshness epochs languages where fc: "fold_contributing g contributing = (freshness, epochs, languages)"
      by (metis prod_cases3)
    define data where "data = \<lparr>ce_per_partition_counts = ca_counts acc, ce_callee_identities = ca_identities acc,
      ce_contributing_epochs = epochs\<rparr>"
    have eq: "callees ids g t detail = finalize_envelope data
        (classify_cross_partition (ca_bases acc) freshness reasons languages) freshness reasons [] languages"
      unfolding callees_def def p option.case prod.case s(1) ir Let_def acc_def [symmetric]
        contributing_def [symmetric] reasons_def [symmetric] fc data_def [symmetric] ..
    have bases: "set (ca_bases acc) \<subseteq> call_bases"
      using defining_partition_call_bases [OF ok] def p unfolding acc_def callees_fold by fastforce
    have pid: "pid \<in> set contributing" by (simp add: contributing_def acc_def callees_fold)
    then have langs: "languages \<noteq> {}"
      using fold_contributing_languages [of g contributing] fc s(1) by auto
    have "set (basis_reasons (ca_bases acc)) \<subseteq> set reasons" by (auto simp: reasons_def)
    from finalize_ok [OF langs bases this refl, where freshness = freshness and data = data and missing = "[]"] obtain e where
      e: "callees ids g t detail = Val e" "legal_envelope e"
        "env_class e = Exact \<Longrightarrow> freshness = F_Fresh \<and> reasons = []"
        "env_data e = Some data \<or> env_class e = Unavailable" unfolding eq by blast
    have "whole_callees g t data" if ex: "env_class e = Exact" and detail: "detail = CallerDetail"
    proof -
      have fresh: "freshness = F_Fresh" "reasons = []" using e(3) [OF ex] by simp_all
      have current: "sl_status sq = RS_Current" if "q \<in> set contributing" "lg_slots g q = Some sq" for q sq
        using fold_contributing_fresh [of g contributing] fc fresh(1) that by auto
      have ids: "ca_identities acc = map (\<lambda>e. (ed_dst e, map_option fst (defining_partition ids g (ed_dst e))))
          (ir_outgoing ir t)"
        by (simp add: acc_def detail callees_fold ir_outgoing_def)
      have "\<not> ca_unresolved acc"
      proof
        assume "ca_unresolved acc"
        then have "UnresolvedAlias \<in> set reasons" by (simp add: reasons_def)
        with fresh(2) show False by simp
      qed
      then have resolved: "defining_partition ids g (ed_dst e) \<noteq> None" if "e \<in> set (ir_outgoing ir t)" for e
        using that by (auto simp: acc_def callees_fold ir_outgoing_def)
      have "\<exists>q sq. owner = Some q \<and> lg_slots g q = Some sq \<and> sl_defines sq k \<noteq> None \<and> sl_status sq = RS_Current"
        if mem: "(k, owner) \<in> set (ca_identities acc)" for k owner
      proof -
        from mem obtain ed where ed: "ed \<in> set (ir_outgoing ir t)" "k = ed_dst ed"
          "owner = map_option fst (defining_partition ids g k)" by (auto simp: ids)
        with resolved obtain q bq where q: "defining_partition ids g k = Some (q, bq)" by force
        then obtain sq where sq: "lg_slots g q = Some sq" "sl_defines sq k = Some bq"
          using defining_partition_Some by blast
        have "q \<in> set contributing"
          using ed q by (force simp: contributing_def acc_def callees_fold ir_outgoing_def)
        with sq q ed(3) current show ?thesis by auto
      qed
      then have "\<forall>(k, owner) \<in> set (ca_identities acc). \<exists>q sq. owner = Some q \<and> lg_slots g q = Some sq \<and>
          sl_defines sq k \<noteq> None \<and> sl_status sq = RS_Current" by blast
      moreover have "map fst (ca_identities acc) = map ed_dst (ir_outgoing ir t)" by (simp add: ids comp_def)
      moreover have "sl_defines s t \<noteq> None" using s(2) by simp
      ultimately show ?thesis
        unfolding whole_callees_def data_def callees_answer.simps using s(1) ir current [OF pid s(1)] by blast
    qed
    moreover have "env_data e = Some data" if "env_class e = Exact" using that e(4) by auto
    ultimately show ?thesis using e(1,2) by blast
  qed
qed

section \<open>Value facts\<close>

lemma owned_basis_iff: "owned_basis b l \<longleftrightarrow> basis_complete_for b SymbolOwnership"
  by (simp add: owned_basis_def classify_answer_Exact)

lemma value_freshness_not_unavailable: "value_freshness s \<noteq> F_Unavailable"
  by (auto simp: value_freshness_def Let_def)

definition value_answer_ok :: "live_graph \<Rightarrow> string \<Rightarrow> value_facts_answer answer_envelope \<Rightarrow> bool" where
  "value_answer_ok g symbol e \<longleftrightarrow> (\<forall>d. env_data e = Some d \<longrightarrow>
     (\<exists>pid s. lg_slots g pid = Some s \<and> sl_defines s symbol \<noteq> None \<and>
        va_facts d = facts_for s symbol \<and> va_facts d \<noteq> [] \<and>
        (env_class e = Exact \<longrightarrow> sl_ir s \<noteq> None \<and> sl_value_facts_epoch s = Some (sl_epoch s) \<and>
           sl_status s \<in> {RS_Current, RS_Refreshing} \<and>
           basis_complete_for (vf_basis (hd (va_facts d))) SymbolOwnership)))"

lemma value_facts_spec:
  "\<exists>e. value_facts ids g symbol = Val e \<and> legal_envelope e \<and> value_answer_ok g symbol e"
proof (cases "defining_partition ids g symbol")
  case None
  then show ?thesis by (simp add: value_facts_def value_answer_ok_def)
next
  case def: (Some p)
  obtain pid b where p: "p = (pid, b)" by force
  then obtain s where s: "lg_slots g pid = Some s" "sl_defines s symbol = Some b"
    using defining_partition_Some def by blast
  let ?facts = "facts_for s symbol"
  let ?data = "\<lparr>va_facts = ?facts, va_contributing_epochs = [(pid, sl_epoch s)]\<rparr>"
  let ?l = "{sl_language s}" and ?own = "owned_basis (vf_basis (hd ?facts)) (sl_language s)"
  have fresh: "sl_value_facts_epoch s = Some (sl_epoch s)" "sl_status s \<in> {RS_Current, RS_Refreshing}"
    if "value_freshness s = F_Fresh \<or> value_freshness s = F_PrecisionPending"
    using that
    by (cases "sl_status s"; auto simp: value_freshness_def Let_def status_freshness_def staleness_rank_def
        split: if_splits)+
  consider "?facts = []" | "?facts \<noteq> []" "sl_ir s = None" | "?facts \<noteq> []" "sl_ir s \<noteq> None" by blast
  then show ?thesis
  proof cases
    case 1
    then show ?thesis
      by (simp add: value_facts_def def p s(1) Let_def unavailable_envelope_def legal_envelope_def
          value_answer_ok_def)
  next
    case 2
    then show ?thesis
      using s by (auto simp: value_facts_def def p Let_def expect_def partial_envelope_def
          legal_envelope_def value_answer_ok_def)
  next
    case 3
    define reasons where "reasons = merge_partition_reasons (if ?own then [] else [ScipFallbackIdentity])
      (partition_reasons g pid)"
    have not_owned: "reasons \<noteq> []" if "\<not> ?own"
    proof -
      have "ScipFallbackIdentity \<in> set reasons" using that by (simp add: reasons_def)
      then show ?thesis by auto
    qed
    have ok: "value_answer_ok g symbol e"
      if "env_data e = Some ?data"
        "env_class e = Exact \<Longrightarrow> ?own \<and> (value_freshness s = F_Fresh \<or> value_freshness s = F_PrecisionPending)" for e
      using that 3 s fresh unfolding value_answer_ok_def by (auto simp: owned_basis_iff)
    have eq: "value_facts ids g symbol = (case value_freshness s of
        F_Fresh \<Rightarrow> if ?own then expect ''exact invariant holds'' (exact_envelope ?data Complete F_Fresh [] ?l)
          else expect ''partial with reason is valid'' (partial_envelope (Some ?data) reasons [] F_Fresh [] ?l)
      | F_PrecisionPending \<Rightarrow> (case (?own, prove_not_scip [vf_basis (hd ?facts)]) of
          (True, Some token) \<Rightarrow> expect ''exact_precision_pending invariant holds''
            (exact_precision_pending ?data Complete token [] ?l)
        | _ \<Rightarrow> expect ''partial precision-pending is valid''
            (partial_envelope (Some ?data) reasons [] F_PrecisionPending [] ?l))
      | _ \<Rightarrow> expect ''stale invariant holds'' (stale_envelope ?data (value_freshness s) reasons [] [] ?l))"
      unfolding value_facts_def def p option.case prod.case s(1) Let_def reasons_def [symmetric]
        if_not_P [OF 3(1)] if_not_P [OF 3(2)] ..
    show ?thesis
    proof (cases "value_freshness s")
      case F_Fresh
      show ?thesis
        by (cases ?own)
          (use F_Fresh not_owned in \<open>auto simp: eq expect_def exact_envelope_def partial_envelope_def
            legal_envelope_def intro!: ok\<close>)
    next
      case F_PrecisionPending
      show ?thesis
        by (cases ?own; cases "prove_not_scip [vf_basis (hd ?facts)]")
          (use F_PrecisionPending in \<open>auto simp: eq expect_def exact_precision_pending_def
            partial_envelope_def legal_envelope_def intro!: ok\<close>)
    qed (use value_freshness_not_unavailable [of s] in
      \<open>auto simp: eq expect_def stale_envelope_def legal_envelope_def intro!: ok\<close>)
  qed
qed

section \<open>Operations\<close>

text \<open>The graphs that the operations build, each rebuild of the overlay in some iteration order.\<close>

inductive live_reachable :: "live_graph \<Rightarrow> bool" where
  new: "live_reachable live_graph_new"
| load: "live_reachable g \<Longrightarrow> g' = load_partition ids pid ir l g \<Longrightarrow> enumerates ids (lg_slots g') \<Longrightarrow>
    live_reachable g'"
| unload: "live_reachable g \<Longrightarrow> g' = unload_partition ids pid g \<Longrightarrow> enumerates ids (lg_slots g') \<Longrightarrow>
    live_reachable g'"
| swap: "live_reachable g \<Longrightarrow> g' = swap_partition ids pid ir g \<Longrightarrow> enumerates ids (lg_slots g') \<Longrightarrow>
    live_reachable g'"
| refresh: "live_reachable g \<Longrightarrow> live_reachable (begin_refresh pid g)"
| mark_stale: "live_reachable g \<Longrightarrow> live_reachable (mark_stale pid g)"
| refresh_failed: "live_reachable g \<Longrightarrow> live_reachable (mark_refresh_failed pid g)"
| degrade: "live_reachable g \<Longrightarrow> live_reachable (add_partition_degradation pid r g)"
| facts: "live_reachable g \<Longrightarrow> live_reachable (load_value_facts pid fs g)"

text \<open>The overlay is the one of the resident partitions, in some order of iteration.\<close>

definition overlay_coherent :: "live_graph \<Rightarrow> bool" where
  "overlay_coherent g \<longleftrightarrow> (\<exists>ids. enumerates ids (lg_slots g) \<and>
     lg_overlay g = compute_overlay (resident_list ids (lg_slots g)))"

lemma slots_ok_update: "slots_ok g \<Longrightarrow> slot_ok s \<Longrightarrow> slots_ok (g\<lparr>lg_slots := (lg_slots g)(pid \<mapsto> s)\<rparr>)"
  by (auto simp: slots_ok_def ran_def)

lemma slots_ok_modify:
  assumes "slots_ok g" and "\<And>s. slot_ok s \<Longrightarrow> slot_ok (f s)"
  shows "slots_ok (modify_slot pid f g)"
  using assms slots_ok_update slots_okD by (fastforce simp: modify_slot_def split: option.split)

lemma overlay_modify:
  assumes "overlay_coherent g" and "\<And>s. sl_ir (f s) = sl_ir s"
  shows "overlay_coherent (modify_slot pid f g)"
proof -
  from assms(1) obtain ids where ids: "enumerates ids (lg_slots g)"
    "lg_overlay g = compute_overlay (resident_list ids (lg_slots g))"
    by (auto simp: overlay_coherent_def)
  have "filter_map (\<lambda>p. case (lg_slots (modify_slot pid f g)) p of None \<Rightarrow> None | Some s \<Rightarrow> sl_ir s) xs =
      filter_map (\<lambda>p. case lg_slots g p of None \<Rightarrow> None | Some s \<Rightarrow> sl_ir s) xs" for xs
    using assms(2) by (induction xs) (auto simp: modify_slot_def split: option.splits)
  then have "resident_list ids (lg_slots (modify_slot pid f g)) = resident_list ids (lg_slots g)"
    by (simp add: resident_list_def)
  moreover have "enumerates ids (lg_slots (modify_slot pid f g))"
    using ids(1) by (auto simp: enumerates_def modify_slot_def split: option.splits)
  moreover have "lg_overlay (modify_slot pid f g) = lg_overlay g"
    by (simp add: modify_slot_def split: option.splits)
  ultimately show ?thesis using ids unfolding overlay_coherent_def by metis
qed

lemma overlay_rebuild: "enumerates ids (lg_slots g) \<Longrightarrow> overlay_coherent (rebuild_xpart_overlay ids g)"
  by (auto simp: overlay_coherent_def rebuild_xpart_overlay_def)

lemma lg_slots_rebuild [simp]: "lg_slots (rebuild_xpart_overlay ids g) = lg_slots g"
  by (simp add: rebuild_xpart_overlay_def)

lemma slots_ok_rebuild [simp]: "slots_ok (rebuild_xpart_overlay ids g) = slots_ok g"
  by (simp add: slots_ok_def)

lemmas status_ops = begin_refresh_def mark_stale_def mark_refresh_failed_def set_status_def
  add_partition_degradation_def load_value_facts_def

lemma live_reachable_invariant: "live_reachable g \<Longrightarrow> slots_ok g \<and> overlay_coherent g"
proof (induction rule: live_reachable.induct)
  case new
  have "overlay_coherent live_graph_new"
    unfolding overlay_coherent_def
    by (rule exI [of _ "[]"]) (simp add: enumerates_def live_graph_new_def resident_list_def
        compute_overlay_def resolve_imports_def)
  then show ?case by (simp add: slots_ok_def live_graph_new_def)
next
  case (load g g' ids pid ir l)
  then show ?case
    by (auto simp: load_partition_def Let_def split_beta slot_ok_def prod_eq_iff
        intro!: slots_ok_update overlay_rebuild)
next
  case (unload g g' ids pid)
  then show ?case
    by (auto simp: unload_partition_def slot_ok_def intro!: slots_ok_modify overlay_rebuild)
next
  case (swap g g' ids pid ir)
  have "slots_ok (g\<lparr>lg_slots := m, lg_xref_epoch := x\<rparr>) = slots_ok (g\<lparr>lg_slots := m\<rparr>)" for m x
    by (simp add: slots_ok_def)
  with swap show ?case
    by (auto simp: swap_partition_def Let_def split_beta slot_ok_def prod_eq_iff
        intro!: slots_ok_update overlay_rebuild)
qed (auto simp: status_ops slot_ok_def intro!: slots_ok_modify overlay_modify)

section \<open>Edges of the overlay\<close>

lemma alias_hits_keys:
  assumes "key \<in> set (alias_hits (file_inventory_of keys) base specifier paths)"
  shows "key \<in> set keys"
proof -
  from assms obtain c target where "key \<in> set (alias_target_hits (file_inventory_of keys) base c target)"
    unfolding alias_hits_def by auto
  then show ?thesis
    using file_inventory_key by (auto simp: alias_target_hits_def file_key_for_def)
qed

lemma alias_edge_keys:
  assumes "e \<in> set (alias_edge (file_inventory_of keys) cfg src specifier basis)"
  shows "re_src_file_key e = src \<and> re_dst_file_key e \<in> set keys"
proof (cases "resolve_tsconfig_alias specifier cfg (file_inventory_of keys)")
  case (Resolved key)
  then have "key \<in> set keys"
    unfolding resolve_tsconfig_alias_Resolved by (metis alias_hits_keys singletonI)
  with Resolved assms show ?thesis by (simp add: alias_edge_def)
qed (use assms in \<open>simp_all add: alias_edge_def\<close>)

definition overlay_acc_ok :: "string list \<Rightarrow> overlay_acc \<Rightarrow> bool" where
  "overlay_acc_ok keys = (\<lambda>(candidates, edges, dynamic).
     (\<forall>c \<in> set candidates \<union> set dynamic. ic_source_file_key c \<in> set keys) \<and>
     (\<forall>e \<in> set edges. re_src_file_key e \<in> set keys \<and> re_dst_file_key e \<in> set keys))"

lemma overlay_step_ok:
  assumes "overlay_acc_ok keys acc"
  shows "overlay_acc_ok keys (overlay_step (file_inventory_of keys) ir acc obs)"
proof -
  obtain cs es ds where acc: "acc = (cs, es, ds)" by (metis prod_cases3)
  have key: "k \<in> set keys" if "file_key_for (file_inventory_of keys) p = Some k" for p k
    using that file_inventory_key by (simp add: file_key_for_def)
  show ?thesis
    using assms key alias_edge_keys
    by (cases "io_resolution obs"; cases "file_key_for (file_inventory_of keys) (io_source_file obs)";
        cases "pt_tsconfig_aliases (ir_partition ir)")
      (force simp: overlay_step_def acc overlay_acc_ok_def Let_def)+
qed

lemma overlay_fold_ok:
  "overlay_acc_ok keys acc \<Longrightarrow> overlay_acc_ok keys
     (foldl (\<lambda>acc ir. foldl (overlay_step (file_inventory_of keys) ir) acc (ir_import_observations ir)) acc irs)"
proof (induction irs arbitrary: acc)
  case (Cons ir irs)
  have "overlay_acc_ok keys acc \<Longrightarrow> overlay_acc_ok keys (foldl (overlay_step (file_inventory_of keys) ir) acc os)"
    for acc os by (induction os arbitrary: acc) (simp_all add: overlay_step_ok)
  with Cons show ?case by simp
qed simp

lemma resolved_keys:
  assumes "e \<in> set (rr_resolved (resolve_imports (file_inventory_of keys) cands))"
    and "\<forall>c \<in> set cands. ic_source_file_key c \<in> set keys"
  shows "re_src_file_key e \<in> set keys \<and> re_dst_file_key e \<in> set keys"
proof -
  from assms(1) obtain c where "c \<in> set cands" "resolve_candidate (file_inventory_of keys) c = Inr e"
    unfolding resolve_imports_parts by (auto split: sum.splits) (metis sum.exhaust)
  with resolve_candidate_spec [of keys c] assms(2) show ?thesis by (auto simp: sound_edge_def)
qed

lemma compute_overlay_keys:
  assumes "e \<in> set (compute_overlay irs)"
  shows "re_src_file_key e \<in> \<Union> (set ` file_scope_keys ` set irs) \<and>
    re_dst_file_key e \<in> \<Union> (set ` file_scope_keys ` set irs)"
proof -
  let ?keys = "concat (map file_scope_keys irs)"
  define acc where "acc = foldl (\<lambda>acc ir. foldl (overlay_step (file_inventory_of ?keys) ir) acc
      (ir_import_observations ir)) ([], [], []) irs"
  obtain cs es ds where acc: "acc = (cs, es, ds)" by (cases acc)
  note fold = acc [unfolded acc_def]
  have "overlay_acc_ok ?keys (cs, es, ds)"
    unfolding fold [symmetric] by (rule overlay_fold_ok) (simp add: overlay_acc_ok_def)
  moreover have "e \<in> set (rr_resolved (resolve_imports (file_inventory_of ?keys) cs)) \<union> set es \<union>
      (\<lambda>e. e\<lparr>re_basis := AstDynamicImportResolved\<rparr>) ` set (rr_resolved (resolve_imports (file_inventory_of ?keys) ds))"
    using assms fold by (auto simp: compute_overlay_def Let_def)
  ultimately have "re_src_file_key e \<in> set ?keys \<and> re_dst_file_key e \<in> set ?keys"
    using resolved_keys [of _ ?keys] by (auto simp: overlay_acc_ok_def)
  then show ?thesis by auto
qed

lemma resident_list_set:
  "enumerates ids (lg_slots g) \<Longrightarrow> set (resident_list ids (lg_slots g)) = {ir. \<exists>pid. resident_of g pid = Some ir}"
  by (auto simp: resident_list_def resident_of_def enumerates_def split: option.splits)

section \<open>Histories\<close>

text \<open>
  The operations as values, and a sequence of them applied to the empty graph, the latest first. What
  a slot must hold is then read off the operations on its partition, without running them.
\<close>

datatype live_op =
    Op_Load string partition_ir language_support
  | Op_Unload string
  | Op_Swap string partition_ir
  | Op_Refresh string
  | Op_Stale string
  | Op_Failed string
  | Op_Degrade string degradation_reason
  | Op_Facts string "value_fact list"

fun op_pid :: "live_op \<Rightarrow> string" where
  "op_pid (Op_Load pid _ _) = pid"
| "op_pid (Op_Unload pid) = pid"
| "op_pid (Op_Swap pid _) = pid"
| "op_pid (Op_Refresh pid) = pid"
| "op_pid (Op_Stale pid) = pid"
| "op_pid (Op_Failed pid) = pid"
| "op_pid (Op_Degrade pid _) = pid"
| "op_pid (Op_Facts pid _) = pid"

fun live_apply :: "string list \<Rightarrow> live_op \<Rightarrow> live_graph \<Rightarrow> live_graph" where
  "live_apply ids (Op_Load pid ir l) g = load_partition ids pid ir l g"
| "live_apply ids (Op_Unload pid) g = unload_partition ids pid g"
| "live_apply ids (Op_Swap pid ir) g = swap_partition ids pid ir g"
| "live_apply ids (Op_Refresh pid) g = begin_refresh pid g"
| "live_apply ids (Op_Stale pid) g = mark_stale pid g"
| "live_apply ids (Op_Failed pid) g = mark_refresh_failed pid g"
| "live_apply ids (Op_Degrade pid r) g = add_partition_degradation pid r g"
| "live_apply ids (Op_Facts pid fs) g = load_value_facts pid fs g"

fun op_ir :: "live_op \<Rightarrow> partition_ir option" where
  "op_ir (Op_Load _ ir _) = Some ir"
| "op_ir (Op_Swap _ ir) = Some ir"
| "op_ir _ = None"

definition is_swap :: "live_op \<Rightarrow> bool" where
  "is_swap oper = (case oper of Op_Swap _ _ \<Rightarrow> True | _ \<Rightarrow> False)"

definition is_unload :: "live_op \<Rightarrow> bool" where
  "is_unload oper = (case oper of Op_Unload _ \<Rightarrow> True | _ \<Rightarrow> False)"

definition rebuilds :: "live_op \<Rightarrow> bool" where
  "rebuilds oper \<longleftrightarrow> op_ir oper \<noteq> None \<or> is_unload oper"

fun op_status :: "live_op \<Rightarrow> refresh_status option" where
  "op_status (Op_Refresh _) = Some RS_Refreshing"
| "op_status (Op_Stale _) = Some RS_Stale"
| "op_status (Op_Failed _) = Some RS_RefreshFailed"
| "op_status _ = None"

fun op_reason :: "live_op \<Rightarrow> degradation_reason option" where
  "op_reason (Op_Degrade _ r) = Some r"
| "op_reason _ = None"

fun op_language :: "live_op \<Rightarrow> language_support option" where
  "op_language (Op_Load _ _ l) = Some l"
| "op_language _ = None"

fun latest :: "'a \<Rightarrow> 'a list \<Rightarrow> 'a" where
  "latest d [] = d"
| "latest d (x # xs) = x"

text \<open>The partitions put into a slot, and the operations since the last of them, latest first.\<close>

definition versions :: "live_op list \<Rightarrow> partition_ir list" where
  "versions h = filter_map op_ir h"

definition since_version :: "live_op list \<Rightarrow> live_op list" where
  "since_version h = takeWhile (\<lambda>oper. op_ir oper = None) h"

text \<open>Facts given to an existing slot stay until the next load, with the epoch they were given in.\<close>

fun facts_after :: "live_op list \<Rightarrow> value_fact list \<times> u64 option" where
  "facts_after [] = ([], None)"
| "facts_after (Op_Load _ _ _ # h) = ([], None)"
| "facts_after (Op_Facts _ fs # h) =
     (if versions h = [] then ([], None) else (fs, Some (of_nat (length (versions h)))))"
| "facts_after (_ # h) = facts_after h"

definition slot_after :: "live_op list \<Rightarrow> slot option" where
  "slot_after h = (case versions h of
     [] \<Rightarrow> None
   | ir # _ \<Rightarrow> Some
       \<lparr>sl_epoch = of_nat (length (versions h)),
        sl_status = latest RS_Current (filter_map op_status (since_version h)),
        sl_ir = (if list_ex is_unload (since_version h) then None else Some ir),
        sl_language = latest TypeScriptPrimary (filter_map op_language h),
        sl_defines = fst (contribution ir), sl_ref_counts = snd (contribution ir),
        sl_value_facts = fst (facts_after h), sl_value_facts_epoch = snd (facts_after h),
        sl_reasons = set (filter_map op_reason (since_version h))\<rparr>)"

inductive live_history :: "live_op list \<Rightarrow> live_graph \<Rightarrow> bool" where
  start: "live_history [] live_graph_new"
| step: "live_history h g \<Longrightarrow> g' = live_apply ids oper g \<Longrightarrow>
    (rebuilds oper \<Longrightarrow> enumerates ids (lg_slots g')) \<Longrightarrow> live_history (oper # h) g'"

lemma live_history_reachable: "live_history h g \<Longrightarrow> live_reachable g"
proof (induction rule: live_history.induct)
  case (step h g g' ids oper)
  then show ?case
    by (cases oper) (auto simp: rebuilds_def is_unload_def intro: live_reachable.intros)
qed (rule live_reachable.new)

lemma live_apply_other: "op_pid oper \<noteq> pid \<Longrightarrow> lg_slots (live_apply ids oper g) pid = lg_slots g pid"
  by (cases oper) (auto simp: load_partition_def unload_partition_def swap_partition_def status_ops
      modify_slot_def Let_def split_beta split: option.splits)

lemma versions_Cons [simp]:
  "versions (oper # h) = (case op_ir oper of None \<Rightarrow> versions h | Some ir \<Rightarrow> ir # versions h)"
  by (simp add: versions_def split: option.splits)

lemma since_version_Cons [simp]:
  "since_version (oper # h) = (if op_ir oper = None then oper # since_version h else [])"
  by (simp add: since_version_def)

lemma facts_after_empty: "versions h = [] \<Longrightarrow> facts_after h = ([], None)"
  by (induction h rule: facts_after.induct) simp_all

lemma languages_empty: "versions h = [] \<Longrightarrow> filter_map op_language h = []"
proof (induction h)
  case (Cons oper h)
  then show ?case by (cases oper) simp_all
qed simp

lemma live_apply_own:
  assumes "lg_slots g (op_pid oper) = slot_after h"
  shows "lg_slots (live_apply ids oper g) (op_pid oper) = slot_after (oper # h)"
proof (cases "versions h")
  case Nil
  with assms show ?thesis
    by (cases oper) (simp_all add: slot_after_def load_partition_def unload_partition_def
        swap_partition_def status_ops modify_slot_def Let_def split_beta next_epoch_def
        facts_after_empty languages_empty)
next
  case (Cons ir irs)
  with assms show ?thesis
    by (cases oper) (simp_all add: slot_after_def load_partition_def unload_partition_def
        swap_partition_def status_ops modify_slot_def Let_def split_beta next_epoch_def is_unload_def)
qed

lemma live_history_slots:
  "live_history h g \<Longrightarrow> lg_slots g pid = slot_after (filter (\<lambda>oper. op_pid oper = pid) h)"
proof (induction rule: live_history.induct)
  case (step h g g' ids oper)
  then show ?case by (auto simp: live_apply_other live_apply_own)
qed (simp add: slot_after_def versions_def live_graph_new_def)

lemma live_history_xref: "live_history h g \<Longrightarrow> lg_xref_epoch g = of_nat (length (filter is_swap h))"
proof (induction rule: live_history.induct)
  case (step h g g' ids oper)
  then show ?case
    by (cases oper) (auto simp: is_swap_def load_partition_def unload_partition_def swap_partition_def
        rebuild_xpart_overlay_def status_ops modify_slot_def Let_def split_beta split: option.splits)
qed (simp add: live_graph_new_def)

section \<open>Properties\<close>

definition resident_file :: "live_graph \<Rightarrow> string \<Rightarrow> bool" where
  "resident_file g k \<longleftrightarrow> (\<exists>pid ir. resident_of g pid = Some ir \<and> k \<in> set (file_scope_keys ir))"

lemma demo_graph_slots: "lg_slots demo_graph pid \<noteq> None \<longleftrightarrow> pid = ''lib'' \<or> pid = ''web''"
  by (auto simp: demo_graph_def load_partition_def Let_def split_beta live_graph_new_def)

lemma demo_graph_enumerates: "enumerates [''lib'', ''web''] (lg_slots demo_graph)"
  using demo_graph_slots by (auto simp: enumerates_def)

lemma demo_graph_reachable: "live_reachable demo_graph"
proof -
  let ?g = "load_partition [''web''] ''web'' demo_web TypeScriptPrimary live_graph_new"
  have "enumerates [''web''] (lg_slots ?g)"
    by (auto simp: enumerates_def load_partition_def Let_def split_beta live_graph_new_def)
  then have "live_reachable ?g" by (rule live_reachable.load [OF live_reachable.new refl])
  then show ?thesis by (rule live_reachable.load [OF _ demo_graph_def demo_graph_enumerates])
qed

lemma live_history_status:
  "live_history h g \<Longrightarrow> \<not> rebuilds oper \<Longrightarrow> live_history (oper # h) (live_apply [] oper g)"
  by (rule live_history.step) simp_all

lemma reachable_history: "live_reachable g \<Longrightarrow> \<exists>h. live_history h g"
proof (induction rule: live_reachable.induct)
  case (load g g' ids pid ir l)
  then show ?case using live_history.step [of _ g g' ids "Op_Load pid ir l"] by auto
next
  case (unload g g' ids pid)
  then show ?case using live_history.step [of _ g g' ids "Op_Unload pid"] by auto
next
  case (swap g g' ids pid ir)
  then show ?case using live_history.step [of _ g g' ids "Op_Swap pid ir"] by auto
next
  case (refresh g pid)
  then show ?case using live_history_status [of _ g "Op_Refresh pid"] by (auto simp: rebuilds_def is_unload_def)
next
  case (mark_stale g pid)
  then show ?case using live_history_status [of _ g "Op_Stale pid"] by (auto simp: rebuilds_def is_unload_def)
next
  case (refresh_failed g pid)
  then show ?case using live_history_status [of _ g "Op_Failed pid"] by (auto simp: rebuilds_def is_unload_def)
next
  case (degrade g pid r)
  then show ?case using live_history_status [of _ g "Op_Degrade pid r"] by (auto simp: rebuilds_def is_unload_def)
next
  case (facts g pid fs)
  then show ?case using live_history_status [of _ g "Op_Facts pid fs"] by (auto simp: rebuilds_def is_unload_def)
qed (use live_history.start in blast)

lemma overlay_resident:
  assumes "live_reachable g"
  shows "list_all (\<lambda>e. resident_file g (re_src_file_key e) \<and> resident_file g (re_dst_file_key e)) (lg_overlay g)"
proof -
  from live_reachable_invariant [OF assms] obtain ids where ids: "enumerates ids (lg_slots g)"
    "lg_overlay g = compute_overlay (resident_list ids (lg_slots g))"
    by (auto simp: overlay_coherent_def)
  have "resident_file g k" if "k \<in> \<Union> (set ` file_scope_keys ` set (resident_list ids (lg_slots g)))" for k
    using that unfolding resident_list_set [OF ids(1)] by (auto simp: resident_file_def)
  with ids(2) compute_overlay_keys show ?thesis
    unfolding list_all_iff by metis
qed

definition demo_unloaded :: live_graph where
  "demo_unloaded = unload_partition [''lib'', ''web''] ''web'' demo_graph"

lemma demo_unloaded_history:
  "live_history [Op_Unload ''web'', Op_Load ''lib'' demo_lib TypeScriptPrimary,
     Op_Load ''web'' demo_web TypeScriptPrimary] demo_unloaded"
proof (rule live_history.step)
  let ?g = "load_partition [''web''] ''web'' demo_web TypeScriptPrimary live_graph_new"
  show "live_history [Op_Load ''lib'' demo_lib TypeScriptPrimary, Op_Load ''web'' demo_web TypeScriptPrimary] demo_graph"
  proof (rule live_history.step [OF live_history.step [OF live_history.start]])
    show "?g = live_apply [''web''] (Op_Load ''web'' demo_web TypeScriptPrimary) live_graph_new"
      and "demo_graph = live_apply [''lib'', ''web''] (Op_Load ''lib'' demo_lib TypeScriptPrimary) ?g"
      by (simp_all add: demo_graph_def)
    show "enumerates [''web''] (lg_slots ?g)"
      by (auto simp: enumerates_def load_partition_def Let_def split_beta live_graph_new_def)
  qed (rule demo_graph_enumerates)
  show "demo_unloaded = live_apply [''lib'', ''web''] (Op_Unload ''web'') demo_graph"
    by (simp add: demo_unloaded_def)
  have "lg_slots demo_unloaded pid \<noteq> None \<longleftrightarrow> pid = ''lib'' \<or> pid = ''web''" for pid
    using demo_graph_slots [of pid]
    by (simp add: demo_unloaded_def unload_partition_def modify_slot_def split: option.splits)
  then show "enumerates [''lib'', ''web''] (lg_slots demo_unloaded)"
    by (auto simp: enumerates_def)
qed



text \<open>
  C22. The queries never panic and never overclaim. On every graph that the operations build,
  \<open>callers\<close>, \<open>callees\<close> and \<open>value_facts\<close> return a legal envelope. An \<open>Exact\<close> detailed answer to \<open>callers\<close>
  lists every caller that any loaded partition has, and every partition that refers to the target is
  resident, current and free of degradation; reference counts are those of the summaries. An \<open>Exact\<close>
  detailed answer to \<open>callees\<close> lists every outgoing edge of the target in a resident, current
  partition that defines it, each resolved to a current partition that defines the callee. Value facts
  are those of a partition that defines the symbol, and \<open>Exact\<close> only if they were loaded for its epoch
  and their basis certifies ownership.
\<close>

theorem live_queries_sound:
  assumes "live_reachable g" and "enumerates ids (lg_slots g)"
  shows "(\<exists>e. callers ids g t detail = Val e \<and> legal_envelope e \<and>
      (\<forall>d. env_data e = Some d \<longrightarrow> counts_ok g t d \<and>
         (env_class e = Exact \<and> detail = CallerDetail \<longrightarrow> whole_callers g t d))) \<and>
    (\<exists>e. callees ids g t detail = Val e \<and> legal_envelope e \<and>
      (env_class e = Exact \<and> detail = CallerDetail \<longrightarrow> (\<exists>d. env_data e = Some d \<and> whole_callees g t d))) \<and>
    (\<exists>e. value_facts ids g t = Val e \<and> legal_envelope e \<and> value_answer_ok g t e)"
  using live_reachable_invariant [OF assms(1)] callers_spec [OF assms(2)] callees_spec value_facts_spec
  by blast

lemma demo_callers_value:
  "(case callers [''lib'', ''web''] demo_graph ''c'' CallerDetail of
      Val e \<Rightarrow> (env_class e, map_option cr_caller_identities (env_data e))
    | Panic _ \<Rightarrow> (Unavailable, None)) = (Exact, Some [(''web'', ''b'')])"
  by code_simp

theorem live_queries_sound_witness:
  "\<exists>e d. callers [''lib'', ''web''] demo_graph ''c'' CallerDetail = Val e \<and> env_class e = Exact \<and>
     env_data e = Some d \<and> cr_caller_identities d = [(''web'', ''b'')] \<and> whole_callers demo_graph ''c'' d"
proof -
  from live_queries_sound [OF demo_graph_reachable demo_graph_enumerates, of "''c''" CallerDetail]
  obtain e where e: "callers [''lib'', ''web''] demo_graph ''c'' CallerDetail = Val e"
    "\<forall>d. env_data e = Some d \<longrightarrow> env_class e = Exact \<longrightarrow> whole_callers demo_graph ''c'' d" by blast
  with demo_callers_value show ?thesis by auto
qed

text \<open>
  Value facts never survive a new epoch unnoticed: facts loaded for a partition that is then
  swapped are still served, as they were loaded, but labelled \<open>Stale\<close>.
\<close>

theorem swapped_facts_are_stale:
  assumes "lg_slots g pid \<noteq> None"
    and "g' = swap_partition ids pid ir (load_value_facts pid fs g)"
    and "defining_partition ids' g' symbol = Some (pid, b)"
    and "filter (\<lambda>f. vf_subject f = Symbol symbol) fs \<noteq> []"
  shows "\<exists>e. value_facts ids' g' symbol = Val e \<and> env_class e = Stale \<and> env_freshness e = F_Stale \<and>
    map_option va_facts (env_data e) = Some (filter (\<lambda>f. vf_subject f = Symbol symbol) fs)"
proof -
  obtain s where s: "lg_slots g pid = Some s" using assms(1) by blast
  then obtain s' where s': "lg_slots g' pid = Some s'" "sl_value_facts s' = fs" "sl_status s' = RS_Current"
    "sl_value_facts_epoch s' = Some (sl_epoch s)" "sl_epoch s' = sl_epoch s + 1" "sl_ir s' = Some ir"
    by (simp add: assms(2) swap_partition_def load_value_facts_def modify_slot_def Let_def split_beta
        next_epoch_def)
  have "sl_epoch s \<noteq> sl_epoch s + 1" by simp
  then have "value_freshness s' = F_Stale"
    using s' by (simp add: value_freshness_def status_freshness_def staleness_rank_def Let_def)
  then show ?thesis
    using assms(3,4) s' by (simp add: value_facts_def facts_for_def Let_def expect_def stale_envelope_def)
qed

theorem swapped_facts_are_stale_witness:
  "\<exists>e. value_facts [''lib'', ''web'']
       (swap_partition [''lib'', ''web''] ''web'' demo_web (load_value_facts ''web'' [demo_value_fact] demo_graph)) ''a''
       = Val e \<and> env_class e = Stale \<and> map_option va_facts (env_data e) = Some [demo_value_fact]"
proof -
  have "lg_slots demo_graph ''web'' \<noteq> None" using demo_graph_slots by blast
  moreover have "defining_partition [''lib'', ''web''] (swap_partition [''lib'', ''web''] ''web'' demo_web
      (load_value_facts ''web'' [demo_value_fact] demo_graph)) ''a'' = Some (''web'', B_AstAdopted)"
    by code_simp
  moreover have "filter (\<lambda>f. vf_subject f = Symbol ''a'') [demo_value_fact] = [demo_value_fact]"
    by (simp add: demo_value_fact_def)
  ultimately show ?thesis
    using swapped_facts_are_stale [OF _ refl, of demo_graph "''web''" "[''lib'', ''web'']" "[''lib'', ''web'']"
        demo_web "[demo_value_fact]" "''a''" B_AstAdopted] by auto
qed

text \<open>
  The answers to \<open>value_facts\<close> do not carry the degradation of the partition when its state is current
  and the fact is owned.
\<close>

lemma value_facts_hide_degradation:
  "(case value_facts [''lib'', ''web''] (add_partition_degradation ''web'' ProducerUnavailable
       (load_value_facts ''web'' [demo_value_fact] demo_graph)) ''a'' of
      Val e \<Rightarrow> (env_class e, env_freshness e, env_reasons e)
    | Panic _ \<Rightarrow> (Unavailable, F_Unavailable, [])) = (Exact, F_Fresh, [])"
  by code_simp

end
