(* ===== verification/Live_Path_Correct.thy ===== *)
theory Live_Path_Correct
  imports Live_Path Live_Queries
begin

text \<open>
  Correctness of the path search: it ends, its paths are shortest call paths of the resident
  partitions, and it answers an exact \<open>no path\<close> only when no path exists, not even through calls that
  the partitions that are missing or stale may add.
\<close>

section \<open>Distances\<close>

definition dist :: "('a \<times> 'a) set \<Rightarrow> 'a \<Rightarrow> 'a \<Rightarrow> nat" where
  "dist R s v = (LEAST n. (s, v) \<in> R ^^ n)"

lemma dist_le: "(s, v) \<in> R ^^ n \<Longrightarrow> dist R s v \<le> n"
  unfolding dist_def by (rule Least_le)

lemma dist_relpow: "(s, v) \<in> R\<^sup>* \<Longrightarrow> (s, v) \<in> R ^^ dist R s v"
  unfolding dist_def by (metis LeastI rtrancl_imp_relpow)

lemma dist_self [simp]: "dist R s s = 0"
  using dist_le [of s s 0 R] by simp

lemma dist_step: "(s, u) \<in> R\<^sup>* \<Longrightarrow> (u, v) \<in> R \<Longrightarrow> dist R s v \<le> Suc (dist R s u)"
  by (meson dist_le dist_relpow relpow_Suc_I)

lemma dist_pred:
  assumes "(s, v) \<in> R\<^sup>*" and "v \<noteq> s"
  obtains u where "(s, u) \<in> R\<^sup>*" "(u, v) \<in> R" "dist R s v = Suc (dist R s u)"
proof -
  have v: "(s, v) \<in> R ^^ dist R s v" by (rule dist_relpow [OF assms(1)])
  with assms(2) obtain n where n: "dist R s v = Suc n" by (cases "dist R s v") auto
  with v obtain u where u: "(s, u) \<in> R ^^ n" "(u, v) \<in> R" by (metis relpow_Suc_E)
  have "dist R s u = n"
    using dist_le [OF u(1)] dist_step [OF relpow_imp_rtrancl [OF u(1)] u(2)] n by simp
  with u n that show thesis by (metis relpow_imp_rtrancl)
qed

section \<open>The search\<close>

definition call_pairs :: "call_edge list \<Rightarrow> (string \<times> string) set" where
  "call_pairs edges = {(u, v). \<exists>p. (u, v, p) \<in> set edges}"

text \<open>The parents of the visited nodes lead back along calls, one step closer each.\<close>

definition parents_ok ::
  "call_edge list \<Rightarrow> string \<Rightarrow> string set \<Rightarrow> (string \<rightharpoonup> string \<times> string) \<Rightarrow> bool" where
  "parents_ok edges from V parent \<longleftrightarrow> parent from = None \<and>
     (\<forall>v \<in> V - {from}. \<exists>u p. parent v = Some (u, p) \<and> (u, v, p) \<in> set edges \<and> u \<in> V \<and>
        dist (call_pairs edges) from v = Suc (dist (call_pairs edges) from u))"

lemma parents_ok_insert:
  assumes "parents_ok edges from V parent" and "n \<in> V" and "v \<notin> V" and "v \<noteq> from"
    and "(n, v, p) \<in> set edges"
    and "dist (call_pairs edges) from v = Suc (dist (call_pairs edges) from n)"
  shows "parents_ok edges from (insert v V) (parent(v \<mapsto> (n, p)))"
  unfolding parents_ok_def
proof (intro conjI ballI)
  show "(parent(v \<mapsto> (n, p))) from = None" using assms(1,4) by (simp add: parents_ok_def)
  fix w assume w: "w \<in> insert v V - {from}"
  show "\<exists>u q. (parent(v \<mapsto> (n, p))) w = Some (u, q) \<and> (u, w, q) \<in> set edges \<and> u \<in> insert v V \<and>
      dist (call_pairs edges) from w = Suc (dist (call_pairs edges) from u)"
  proof (cases "w = v")
    case True
    with assms show ?thesis by auto
  next
    case False
    with w assms(1) obtain u q where "parent w = Some (u, q)" "(u, w, q) \<in> set edges" "u \<in> V"
      "dist (call_pairs edges) from w = Suc (dist (call_pairs edges) from u)"
      unfolding parents_ok_def by blast
    with False show ?thesis by auto
  qed
qed

text \<open>
  What holds of a state of the search from \<open>from\<close> for \<open>to\<close>, with \<open>popped\<close> the nodes taken off the queue.
\<close>

definition bfs_inv ::
  "call_edge list \<Rightarrow> (string \<Rightarrow> bool) \<Rightarrow> string \<Rightarrow> string \<Rightarrow> string set \<Rightarrow> bfs_state \<Rightarrow> bool" where
  "bfs_inv edges ex from to popped st \<longleftrightarrow>
     (let R = call_pairs edges; d = dist R from in
      bf_visited st = popped \<union> set (bf_queue st) \<and> from \<in> bf_visited st \<and>
      bf_visited st \<subseteq> R\<^sup>* `` {from} \<and>
      parents_ok edges from (bf_visited st) (bf_parent st) \<and>
      sorted (map d (bf_queue st)) \<and>
      (\<forall>x \<in> set (bf_queue st). d x \<le> Suc (d (hd (bf_queue st)))) \<and>
      R `` popped \<subseteq> bf_visited st \<and>
      (bf_queue st \<noteq> [] \<longrightarrow> {v \<in> R\<^sup>* `` {from}. d v \<le> d (hd (bf_queue st))} \<subseteq> bf_visited st) \<and>
      to \<notin> popped \<and> (bf_degraded st \<longleftrightarrow> (\<exists>v \<in> popped. \<not> ex v)))"

lemma bfs_inv_init: "bfs_inv edges ex from to {} (bfs_init from)"
proof -
  let ?R = "call_pairs edges"
  have "v = from" if "(from, v) \<in> ?R\<^sup>*" "dist ?R from v = 0" for v
    using dist_relpow [OF that(1)] that(2) by simp
  then show ?thesis
    by (auto simp: bfs_inv_def bfs_init_def parents_ok_def Let_def)
qed

text \<open>Visiting the neighbours of the popped node \<open>n\<close>, one at a time.\<close>

definition visit_inv ::
  "call_edge list \<Rightarrow> string \<Rightarrow> string \<Rightarrow> bfs_state \<Rightarrow> bool" where
  "visit_inv edges from n st \<longleftrightarrow>
     (let R = call_pairs edges; d = dist R from in
      from \<in> bf_visited st \<and> n \<in> bf_visited st \<and> bf_visited st \<subseteq> R\<^sup>* `` {from} \<and>
      parents_ok edges from (bf_visited st) (bf_parent st) \<and>
      sorted (map d (bf_queue st)) \<and>
      (\<forall>x \<in> set (bf_queue st). d n \<le> d x \<and> d x \<le> Suc (d n)) \<and>
      {v \<in> R\<^sup>* `` {from}. d v \<le> d n} \<subseteq> bf_visited st)"

lemma visit_preserves:
  assumes inv: "visit_inv edges from n st" and e: "(n, v, p) \<in> set edges"
  shows "visit_inv edges from n (visit n st (v, p))"
    and "bf_visited (visit n st (v, p)) = insert v (bf_visited st)"
    and "set (bf_queue (visit n st (v, p))) = set (bf_queue st) \<union> ({v} - bf_visited st)"
    and "bf_degraded (visit n st (v, p)) = bf_degraded st"
proof -
  let ?R = "call_pairs edges"
  let ?d = "dist ?R from"
  show "bf_visited (visit n st (v, p)) = insert v (bf_visited st)"
    "set (bf_queue (visit n st (v, p))) = set (bf_queue st) \<union> ({v} - bf_visited st)"
    "bf_degraded (visit n st (v, p)) = bf_degraded st"
    by (auto simp: visit_def)
  show "visit_inv edges from n (visit n st (v, p))"
  proof (cases "v \<in> bf_visited st")
    case True
    then show ?thesis using inv by (simp add: visit_def)
  next
    case False
    have R: "(n, v) \<in> ?R" using e by (auto simp: call_pairs_def)
    have n: "(from, n) \<in> ?R\<^sup>*" using inv by (auto simp: visit_inv_def Let_def)
    then have v: "(from, v) \<in> ?R\<^sup>*" using R by simp
    have "\<not> ?d v \<le> ?d n"
      using inv v False by (auto simp: visit_inv_def Let_def)
    then have dv: "?d v = Suc (?d n)" using dist_step [OF n R] by simp
    have "v \<noteq> from" using inv False by (auto simp: visit_inv_def Let_def)
    with inv False e v dv show ?thesis
      unfolding visit_inv_def Let_def visit_def by (auto simp: sorted_append intro: parents_ok_insert)
  qed
qed

lemma visit_fold:
  assumes "visit_inv edges from n st" and "\<And>v p. (v, p) \<in> set ds \<Longrightarrow> (n, v, p) \<in> set edges"
  shows "visit_inv edges from n (foldl (visit n) st ds) \<and>
    bf_visited (foldl (visit n) st ds) = bf_visited st \<union> fst ` set ds \<and>
    set (bf_queue (foldl (visit n) st ds)) = set (bf_queue st) \<union> (fst ` set ds - bf_visited st) \<and>
    bf_degraded (foldl (visit n) st ds) = bf_degraded st"
  using assms
proof (induction ds arbitrary: st)
  case (Cons a ds)
  obtain v p where a: "a = (v, p)" by force
  note step = visit_preserves [OF Cons.prems(1), of v p]
  show ?case
    using Cons.IH [of "visit n st a"] Cons.prems(2) step unfolding a by auto
qed simp

lemma neighbours_iff: "(v, p) \<in> set (neighbours edges n) \<longleftrightarrow> (n, v, p) \<in> set edges"
  by (auto simp: neighbours_def image_iff)

lemma neighbours_pairs: "fst ` set (neighbours edges n) = call_pairs edges `` {n}"
proof (intro set_eqI iffI)
  fix v assume "v \<in> fst ` set (neighbours edges n)"
  then obtain p where "(v, p) \<in> set (neighbours edges n)" by force
  then show "v \<in> call_pairs edges `` {n}" by (auto simp: neighbours_iff call_pairs_def)
next
  fix v assume "v \<in> call_pairs edges `` {n}"
  then obtain p where "(v, p) \<in> set (neighbours edges n)" by (auto simp: neighbours_iff call_pairs_def)
  then show "v \<in> fst ` set (neighbours edges n)" by force
qed

lemma bfs_checkpoint_keeps:
  "bfs_checkpoint brk st = Inr st' \<Longrightarrow>
     bf_visited st' = bf_visited st \<and> bf_parent st' = bf_parent st \<and> bf_queue st' = bf_queue st \<and>
     bf_degraded st' = bf_degraded st \<and> bf_found st' = bf_found st"
  by (auto simp: bfs_checkpoint_def Let_def split: if_splits)

lemma visit_inv_start:
  assumes inv: "bfs_inv edges ex from to popped st" and q: "bf_queue st = n # queue"
    and st': "bf_visited st' = bf_visited st" "bf_parent st' = bf_parent st" "bf_queue st' = queue"
  shows "visit_inv edges from n st'"
  using inv unfolding bfs_inv_def visit_inv_def Let_def st' q by auto

lemma bfs_inv_step:
  assumes inv: "bfs_inv edges ex from to popped st" and q: "bf_queue st = n # queue" and nt: "n \<noteq> to"
    and st': "bf_visited st' = bf_visited st" "bf_parent st' = bf_parent st" "bf_queue st' = queue"
      "bf_degraded st' = bf_degraded st"
  shows "bfs_inv edges ex from to (insert n popped) (bfs_expand edges ex n st')"
proof -
  let ?R = "call_pairs edges"
  let ?d = "dist ?R from"
  define st1 where "st1 = (if ex n then st' else st'\<lparr>bf_degraded := True\<rparr>)"
  have "visit_inv edges from n st1"
    using st' by (intro visit_inv_start [OF inv q]) (simp_all add: st1_def)
  from visit_fold [OF this, of "neighbours edges n"]
  have vi: "visit_inv edges from n (bfs_expand edges ex n st')"
    and vis: "bf_visited (bfs_expand edges ex n st') = bf_visited st \<union> ?R `` {n}"
    and que: "set (bf_queue (bfs_expand edges ex n st')) = set queue \<union> (?R `` {n} - bf_visited st)"
    and deg: "bf_degraded (bfs_expand edges ex n st') = (bf_degraded st \<or> \<not> ex n)"
    using st' by (auto simp: bfs_expand_def st1_def neighbours_iff neighbours_pairs)
  define s where "s = bfs_expand edges ex n st'"
  note vi = vi [folded s_def, unfolded visit_inv_def Let_def] and vis = vis [folded s_def]
    and que = que [folded s_def] and deg = deg [folded s_def]
  have old: "bf_visited st = popped \<union> set (n # queue)" "?R `` popped \<subseteq> bf_visited st" "to \<notin> popped"
    "bf_degraded st \<longleftrightarrow> (\<exists>v \<in> popped. \<not> ex v)"
    using inv q by (auto simp: bfs_inv_def Let_def)
  have closed: "?R `` insert n popped \<subseteq> bf_visited s" using old(2) vis by blast
  have levels: "v \<in> bf_visited s"
    if "bf_queue s \<noteq> []" and v: "(from, v) \<in> ?R\<^sup>*" and le: "?d v \<le> ?d (hd (bf_queue s))" for v
  proof (cases "?d v \<le> ?d n")
    case True
    with v vi show ?thesis by blast
  next
    case False
    have hd: "hd (bf_queue s) \<in> set (bf_queue s)" using that(1) by simp
    with False le vi have dv: "?d v = Suc (?d n)" "?d (hd (bf_queue s)) = Suc (?d n)" by fastforce+
    then have "v \<noteq> from" by auto
    with v obtain u where u: "(from, u) \<in> ?R\<^sup>*" "(u, v) \<in> ?R" "?d v = Suc (?d u)" by (rule dist_pred)
    then have "u \<in> bf_visited s" using vi dv(1) by auto
    moreover have "u \<notin> set (bf_queue s)"
    proof
      assume "u \<in> set (bf_queue s)"
      moreover have "sorted (map ?d (bf_queue s))" using vi by blast
      ultimately have "?d (hd (bf_queue s)) \<le> ?d u" by (cases "bf_queue s") auto
      with dv u(3) show False by simp
    qed
    moreover have "bf_visited s = insert n popped \<union> set (bf_queue s)"
      using old(1) vis que by auto
    ultimately have "u \<in> insert n popped" by blast
    with u(2) closed show ?thesis by blast
  qed
  have near: "?d x \<le> Suc (?d (hd (bf_queue s)))" if "x \<in> set (bf_queue s)" for x
  proof -
    from that have "hd (bf_queue s) \<in> set (bf_queue s)" by (cases "bf_queue s") auto
    with that vi show ?thesis by (meson Suc_le_mono order_trans)
  qed
  have vis': "bf_visited s = insert n popped \<union> set (bf_queue s)"
    using old(1) vis que by auto
  show ?thesis
    unfolding bfs_inv_def Let_def s_def [symmetric]
    using vi vis' closed levels near old(3,4) nt deg by blast
qed

lemma visit_found [simp]: "bf_found (foldl (visit n) s ds) = bf_found s"
proof (induction ds arbitrary: s)
  case (Cons d ds)
  have "bf_found (visit n s d) = bf_found s" by (cases d) (simp add: visit_def)
  with Cons show ?case by simp
qed simp

lemma bfs_expand_found [simp]: "bf_found (bfs_expand edges ex n st) = bf_found st"
  by (simp add: bfs_expand_def)

text \<open>The result of the search.\<close>

lemma bfs_result:
  assumes "bfs_inv edges ex from to popped st" and "\<not> bf_found st" and "bfs edges ex brk to st = Inr st'"
  shows "if bf_found st'
    then to \<in> bf_visited st' \<and> bf_visited st' \<subseteq> (call_pairs edges)\<^sup>* `` {from} \<and>
      parents_ok edges from (bf_visited st') (bf_parent st')
    else to \<notin> (call_pairs edges)\<^sup>* `` {from} \<and>
      (bf_degraded st' \<longleftrightarrow> (\<exists>v \<in> (call_pairs edges)\<^sup>* `` {from}. \<not> ex v))"
  using assms
proof (induction edges ex brk to st arbitrary: popped rule: bfs.induct)
  case (1 edges ex brk to st)
  note inv = "1.prems"(1)
  show ?case
  proof (cases "bf_queue st")
    case Nil
    with "1.prems" have st': "st' = st" by (simp add: bfs.simps)
    have closed: "call_pairs edges `` popped \<subseteq> popped" and fr: "from \<in> popped" and to: "to \<notin> popped"
      and deg: "bf_degraded st \<longleftrightarrow> (\<exists>v \<in> popped. \<not> ex v)"
      and sub: "popped \<subseteq> (call_pairs edges)\<^sup>* `` {from}"
      using inv Nil by (auto simp: bfs_inv_def Let_def)
    have "(call_pairs edges)\<^sup>* `` {from} = popped"
      using Image_closed_trancl [OF closed] fr sub by blast
    with st' to deg "1.prems"(2) show ?thesis by simp
  next
    case (Cons n queue)
    obtain st1 where cp: "bfs_checkpoint brk (st\<lparr>bf_queue := queue\<rparr>) = Inr st1"
      using "1.prems"(3) Cons by (cases "bfs_checkpoint brk (st\<lparr>bf_queue := queue\<rparr>)") (simp_all add: bfs.simps)
    from bfs_checkpoint_keeps [OF cp] have keeps: "bf_visited st1 = bf_visited st"
      "bf_parent st1 = bf_parent st" "bf_queue st1 = queue" "bf_degraded st1 = bf_degraded st"
      "bf_found st1 = bf_found st" by simp_all
    show ?thesis
    proof (cases "n = to")
      case True
      then have "st' = st1\<lparr>bf_found := True\<rparr>"
        using "1.prems"(3) Cons cp by (simp add: bfs.simps)
      with keeps True inv Cons show ?thesis by (auto simp: bfs_inv_def Let_def)
    next
      case False
      have inv': "bfs_inv edges ex from to (insert n popped) (bfs_expand edges ex n st1)"
        by (rule bfs_inv_step [OF inv Cons False keeps(1-4)])
      have "\<not> bf_found (bfs_expand edges ex n st1)"
        using keeps(5) "1.prems"(2) by simp
      moreover have "bfs edges ex brk to (bfs_expand edges ex n st1) = Inr st'"
        using "1.prems"(3) Cons cp False by (simp add: bfs.simps [of _ _ _ _ st])
      ultimately show ?thesis
        using "1.IH" [OF Cons cp False inv'] by blast
    qed
  qed
qed

lemma bfs_never_cancels:
  "(\<And>k. \<not> brk k) \<Longrightarrow> \<exists>st'. bfs edges ex brk to st = Inr st'"
proof (induction edges ex brk to st rule: bfs.induct)
  case (1 edges ex brk to st)
  show ?case
  proof (cases "bf_queue st")
    case Nil
    then show ?thesis by (simp add: bfs.simps)
  next
    case (Cons n queue)
    have "bfs_checkpoint brk (st\<lparr>bf_queue := queue\<rparr>) \<noteq> Inl c" for c
      using "1.prems" by (simp add: bfs_checkpoint_def Let_def)
    then obtain st1 where cp: "bfs_checkpoint brk (st\<lparr>bf_queue := queue\<rparr>) = Inr st1"
      by (metis sum.exhaust)
    show ?thesis
    proof (cases "n = to")
      case True
      with Cons cp show ?thesis by (simp add: bfs.simps)
    next
      case False
      with "1.IH" [OF Cons cp False "1.prems"] Cons cp show ?thesis
        by (simp add: bfs.simps [of _ _ _ _ st])
    qed
  qed
qed

section \<open>The walk back\<close>

lemma zip_tl_snoc: "xs \<noteq> [] \<Longrightarrow> zip (xs @ [c]) (tl (xs @ [c])) = zip xs (tl xs) @ [(last xs, c)]"
  by (induction xs rule: list_nonempty_induct) (auto simp: neq_Nil_conv)

lemma rev_zip_steps: "rev (zip ns (c # ns)) = zip (rev (c # ns)) (tl (rev (c # ns)))"
proof (induction ns arbitrary: c)
  case (Cons a ns)
  show ?case
    using Cons.IH [of a] zip_tl_snoc [of "rev (a # ns)" c] by (simp add: last_rev)
qed simp

definition back_ok ::
  "call_edge list \<Rightarrow> (string \<Rightarrow> string option) \<Rightarrow> string \<Rightarrow> string \<Rightarrow> string list \<Rightarrow> string list \<Rightarrow> bool" where
  "back_ok edges owner from cur ns ps \<longleftrightarrow>
     last (cur # ns) = from \<and> length ns = dist (call_pairs edges) from cur \<and>
     (\<forall>(u, v) \<in> set (zip ns (cur # ns)). \<exists>p \<in> set ps. (u, v, p) \<in> set edges) \<and>
     (\<forall>u \<in> set ns. \<forall>p. owner u = Some p \<longrightarrow> p \<in> set ps)"

lemma walk_back_ok:
  assumes po: "parents_ok edges from V parent" and "cur \<in> V"
  shows "\<exists>ns ps. back_ok edges owner from cur ns ps \<and>
    walk_back owner parent from cur b =
      Some \<lparr>pb_nodes_rev = pb_nodes_rev b @ ns, pb_edges_rev = pb_edges_rev b @ zip ns (cur # ns),
            pb_parts = pb_parts b @ ps\<rparr>"
  using assms(2)
proof (induction "dist (call_pairs edges) from cur" arbitrary: cur b)
  case 0
  have "cur = from"
  proof (rule ccontr)
    assume "cur \<noteq> from"
    with po 0 obtain u where "dist (call_pairs edges) from cur = Suc (dist (call_pairs edges) from u)"
      unfolding parents_ok_def by blast
    with 0 show False by simp
  qed
  with po show ?case
    by (intro exI [of _ "[]"]) (simp add: back_ok_def parents_ok_def walk_back.simps)
next
  case (Suc n)
  have "cur \<noteq> from" using Suc.hyps(2) by auto
  with Suc.prems po obtain u p where u: "parent cur = Some (u, p)" "(u, cur, p) \<in> set edges" "u \<in> V"
    "dist (call_pairs edges) from cur = Suc (dist (call_pairs edges) from u)"
    unfolding parents_ok_def by blast
  define b' where "b' = \<lparr>pb_nodes_rev = pb_nodes_rev b @ [u], pb_edges_rev = pb_edges_rev b @ [(u, cur)],
    pb_parts = pb_parts b @ [p] @ (case owner u of None \<Rightarrow> [] | Some q \<Rightarrow> [q])\<rparr>"
  have step: "walk_back owner parent from cur b = walk_back owner parent from u b'"
    using u(1) po by (simp add: walk_back.simps [of owner parent "from" cur] b'_def parents_ok_def Let_def
        walk_back.simps [of owner parent "from" "from"])
  from Suc.hyps u(4) have "n = dist (call_pairs edges) from u" by simp
  from Suc.hyps(1) [OF this u(3), of b'] obtain ns ps where
    ok: "back_ok edges owner from u ns ps" and
    wb: "walk_back owner parent from u b' =
      Some \<lparr>pb_nodes_rev = pb_nodes_rev b' @ ns, pb_edges_rev = pb_edges_rev b' @ zip ns (u # ns),
            pb_parts = pb_parts b' @ ps\<rparr>" by blast
  let ?ps = "[p] @ (case owner u of None \<Rightarrow> [] | Some q \<Rightarrow> [q]) @ ps"
  have "back_ok edges owner from cur (u # ns) ?ps"
    using ok u(2,4) unfolding back_ok_def by auto
  moreover have "walk_back owner parent from cur b =
      Some \<lparr>pb_nodes_rev = pb_nodes_rev b @ (u # ns), pb_edges_rev = pb_edges_rev b @ zip (u # ns) (cur # u # ns),
            pb_parts = pb_parts b @ ?ps\<rparr>"
    unfolding step wb by (simp add: b'_def)
  ultimately show ?case by blast
qed

section \<open>Calls of the resident partitions\<close>

definition call_relation :: "live_graph \<Rightarrow> (string \<times> string) set" where
  "call_relation g = {(u, v). \<exists>pid s ir e. lg_slots g pid = Some s \<and> sl_ir s = Some ir \<and>
     e \<in> set (ir_edges ir) \<and> ed_basis e = SyntaxConfirmedCall \<and> ed_src e = u \<and> ed_dst e = v}"

text \<open>A call that a resident partition whose state is current confirms.\<close>

definition current_call :: "live_graph \<Rightarrow> string \<Rightarrow> string \<Rightarrow> bool" where
  "current_call g u v \<longleftrightarrow> (\<exists>pid s ir e. lg_slots g pid = Some s \<and> sl_ir s = Some ir \<and>
     sl_status s = RS_Current \<and> e \<in> set (ir_edges ir) \<and> ed_basis e = SyntaxConfirmedCall \<and>
     ed_src e = u \<and> ed_dst e = v)"

lemma strict_calls_iff:
  assumes "enumerates ids (lg_slots g)"
  shows "(u, v, pid) \<in> set (strict_calls ids g) \<longleftrightarrow>
    (\<exists>s ir e. lg_slots g pid = Some s \<and> sl_ir s = Some ir \<and> e \<in> set (ir_edges ir) \<and>
       ed_basis e = SyntaxConfirmedCall \<and> ed_src e = u \<and> ed_dst e = v)"
proof
  assume "(u, v, pid) \<in> set (strict_calls ids g)"
  then show "\<exists>s ir e. lg_slots g pid = Some s \<and> sl_ir s = Some ir \<and> e \<in> set (ir_edges ir) \<and>
       ed_basis e = SyntaxConfirmedCall \<and> ed_src e = u \<and> ed_dst e = v"
    by (auto simp: strict_calls_def partition_calls_def split: option.splits) metis
next
  assume "\<exists>s ir e. lg_slots g pid = Some s \<and> sl_ir s = Some ir \<and> e \<in> set (ir_edges ir) \<and>
       ed_basis e = SyntaxConfirmedCall \<and> ed_src e = u \<and> ed_dst e = v"
  then obtain s ir e where *: "lg_slots g pid = Some s" "sl_ir s = Some ir" "e \<in> set (ir_edges ir)"
    "ed_basis e = SyntaxConfirmedCall" "ed_src e = u" "ed_dst e = v" by blast
  then have "(u, v, pid) \<in> set (partition_calls pid ir)" by (force simp: partition_calls_def)
  moreover have "pid \<in> set ids" using assms *(1) by (auto simp: enumerates_def)
  ultimately show "(u, v, pid) \<in> set (strict_calls ids g)"
    using *(1,2) by (force simp: strict_calls_def)
qed

lemma call_pairs_strict: "enumerates ids (lg_slots g) \<Longrightarrow> call_pairs (strict_calls ids g) = call_relation g"
  by (auto simp: call_pairs_def call_relation_def strict_calls_iff)

section \<open>The answers\<close>

lemma found_answer_ok:
  "\<exists>e. found_answer g b = Val e \<and> legal_envelope e \<and>
     (\<exists>epochs. env_data e = Some \<lparr>pa_nodes = rev (pb_nodes_rev b), pa_edges = rev (pb_edges_rev b),
        pa_contributing_epochs = epochs\<rparr>) \<and>
     (env_class e = Exact \<longleftrightarrow>
        (\<forall>pid \<in> set (pb_parts b). \<forall>s. lg_slots g pid = Some s \<longrightarrow> sl_status s = RS_Current))"
proof -
  obtain worst epochs languages
    where fc: "fold_contributing g (btree_set (pb_parts b)) = (worst, epochs, languages)"
    by (metis prod_cases3)
  have fresh: "worst = F_Fresh \<longleftrightarrow>
      (\<forall>pid \<in> set (pb_parts b). \<forall>s. lg_slots g pid = Some s \<longrightarrow> sl_status s = RS_Current)"
    using fold_contributing_fresh [of g "btree_set (pb_parts b)"] fc by simp
  show ?thesis
    unfolding fresh [symmetric] using fc
    by (auto simp: found_answer_def collect_parts_def Let_def expect_def exact_envelope_def
        stale_envelope_def legal_envelope_def)
qed

lemma no_path_answer_ok:
  "\<exists>e. no_path_answer ids g s degraded = Val e \<and> legal_envelope e \<and>
     env_data e = Some \<lparr>pa_nodes = [], pa_edges = [], pa_contributing_epochs = []\<rparr> \<and>
     (env_class e = Exact \<longleftrightarrow> \<not> degraded)"
  by (auto simp: no_path_answer_def Let_def expect_def exact_envelope_def partial_envelope_def
      legal_envelope_def)

text \<open>
  A graph is a possible completion of the known calls when it adds calls only from nodes that no
  resident and current partition owns.
\<close>

definition completes_calls :: "string list \<Rightarrow> live_graph \<Rightarrow> (string \<times> string) set \<Rightarrow> bool" where
  "completes_calls ids g R \<longleftrightarrow>
     call_relation g \<subseteq> R \<and> (\<forall>(u, v) \<in> R - call_relation g. \<not> fully_expandable ids g u)"

lemma no_completion_path:
  assumes "\<forall>v \<in> (call_relation g)\<^sup>* `` {from}. fully_expandable ids g v"
    and "completes_calls ids g R" and "(from, v) \<in> R\<^sup>*"
  shows "(from, v) \<in> (call_relation g)\<^sup>*"
  using assms(3)
proof (induction rule: rtrancl_induct)
  case (step u v)
  then have "fully_expandable ids g u" using assms(1) by blast
  with step(2) assms(2) have "(u, v) \<in> call_relation g" by (auto simp: completes_calls_def)
  with step.IH show ?case by simp
qed simp

definition found_path_ok :: "live_graph \<Rightarrow> string \<Rightarrow> string \<Rightarrow> path_answer answer_envelope \<Rightarrow> path_answer \<Rightarrow> bool" where
  "found_path_ok g s t e d \<longleftrightarrow>
     hd (pa_nodes d) = s \<and> last (pa_nodes d) = t \<and> pa_edges d = zip (pa_nodes d) (tl (pa_nodes d)) \<and>
     set (pa_edges d) \<subseteq> call_relation g \<and>
     (s, t) \<in> (call_relation g)\<^sup>* \<and> length (pa_edges d) = dist (call_relation g) s t \<and>
     (env_class e = Exact \<longrightarrow> (\<forall>(u, v) \<in> set (pa_edges d). current_call g u v))"

definition no_path_ok :: "string list \<Rightarrow> live_graph \<Rightarrow> string \<Rightarrow> string \<Rightarrow> path_answer answer_envelope \<Rightarrow> bool" where
  "no_path_ok ids g s t e \<longleftrightarrow>
     (s, t) \<notin> (call_relation g)\<^sup>* \<and>
     (env_class e = Exact \<longleftrightarrow> (\<forall>v \<in> (call_relation g)\<^sup>* `` {s}. fully_expandable ids g v)) \<and>
     (env_class e = Exact \<longrightarrow> (\<forall>R. completes_calls ids g R \<longrightarrow> (s, t) \<notin> R\<^sup>*))"

lemma found_path_correct:
  assumes en: "enumerates ids (lg_slots g)"
    and inv: "to \<in> V" "V \<subseteq> (call_relation g)\<^sup>* `` {from}"
      "parents_ok (strict_calls ids g) from V parent"
    and b0: "b0 = \<lparr>pb_nodes_rev = [to], pb_edges_rev = [],
      pb_parts = (case owner_map ids g to of None \<Rightarrow> [] | Some p \<Rightarrow> [p])\<rparr>"
  shows "\<exists>b e d. walk_back (owner_map ids g) parent from to b0 = Some b \<and> found_answer g b = Val e \<and>
    legal_envelope e \<and> env_data e = Some d \<and> pa_nodes d \<noteq> [] \<and> found_path_ok g from to e d"
proof -
  let ?E = "strict_calls ids g"
  note R = call_pairs_strict [OF en]
  obtain ns ps where ok: "back_ok ?E (owner_map ids g) from to ns ps"
    and wb: "walk_back (owner_map ids g) parent from to b0 =
      Some \<lparr>pb_nodes_rev = to # ns, pb_edges_rev = zip ns (to # ns), pb_parts = pb_parts b0 @ ps\<rparr>"
    using walk_back_ok [OF inv(3,1), of "owner_map ids g" b0] by (auto simp: b0)
  define b where "b = \<lparr>pb_nodes_rev = to # ns, pb_edges_rev = zip ns (to # ns), pb_parts = pb_parts b0 @ ps\<rparr>"
  from found_answer_ok [of g b] obtain e epochs where e: "found_answer g b = Val e" "legal_envelope e"
    "env_data e = Some \<lparr>pa_nodes = rev (to # ns), pa_edges = rev (zip ns (to # ns)), pa_contributing_epochs = epochs\<rparr>"
    "env_class e = Exact \<longleftrightarrow>
      (\<forall>pid \<in> set (pb_parts b0 @ ps). \<forall>s. lg_slots g pid = Some s \<longrightarrow> sl_status s = RS_Current)"
    unfolding b_def by auto
  define d where "d = \<lparr>pa_nodes = rev (to # ns), pa_edges = rev (zip ns (to # ns)), pa_contributing_epochs = epochs\<rparr>"
  have last: "last (to # ns) = from" and len: "length ns = dist (call_relation g) from to"
    and steps: "(u, v) \<in> set (zip ns (to # ns)) \<Longrightarrow> \<exists>p \<in> set ps. (u, v, p) \<in> set ?E" for u v
    using ok R by (auto simp: back_ok_def)
  have "current_call g u v" if uv: "(u, v) \<in> set (zip ns (to # ns))" and ex: "env_class e = Exact" for u v
  proof -
    obtain p where p: "p \<in> set ps" "(u, v, p) \<in> set ?E" using steps [OF uv] by blast
    then obtain s ir ed where "lg_slots g p = Some s" "sl_ir s = Some ir" "ed \<in> set (ir_edges ir)"
      "ed_basis ed = SyntaxConfirmedCall" "ed_src ed = u" "ed_dst ed = v"
      using strict_calls_iff [OF en] by blast
    moreover have "sl_status s = RS_Current" using e(4) ex p(1) calculation(1) by auto
    ultimately show ?thesis unfolding current_call_def by blast
  qed
  moreover have "set (zip ns (to # ns)) \<subseteq> call_relation g"
    using steps unfolding R [symmetric] call_pairs_def by fastforce
  moreover have "(from, to) \<in> (call_relation g)\<^sup>*" using inv by auto
  moreover have "hd (pa_nodes d) = from" using last unfolding d_def path_answer.simps hd_rev .
  moreover have "last (pa_nodes d) = to" "length (pa_edges d) = dist (call_relation g) from to"
    using len by (simp_all add: d_def)
  moreover have "pa_edges d = zip (pa_nodes d) (tl (pa_nodes d))"
    using rev_zip_steps [of ns to] by (simp add: d_def)
  moreover have "set (pa_edges d) = set (zip ns (to # ns))" by (simp only: d_def path_answer.simps set_rev)
  ultimately have "found_path_ok g from to e d"
    unfolding found_path_ok_def by blast
  moreover have "pa_nodes d \<noteq> []" by (simp add: d_def)
  ultimately show ?thesis
    using wb e(1-3) unfolding b_def [symmetric] d_def [symmetric] by blast
qed

lemma path_cases:
  assumes en: "enumerates ids (lg_slots g)"
  shows "\<exists>r. path_cancellable ids g from to brk = Some (Val r) \<and>
    (case r of
       Inl _ \<Rightarrow> \<exists>k. brk k
     | Inr e \<Rightarrow> legal_envelope e \<and>
         (case env_data e of
            None \<Rightarrow> \<not> known_node ids g from \<or> \<not> known_node ids g to
          | Some d \<Rightarrow> if pa_nodes d \<noteq> [] then found_path_ok g from to e d else no_path_ok ids g from to e))"
proof (cases "known_node ids g from \<and> known_node ids g to")
  case False
  then show ?thesis by (auto simp: path_cancellable_def)
next
  case True
  let ?E = "strict_calls ids g" and ?ex = "fully_expandable ids g"
  let ?b0 = "\<lparr>pb_nodes_rev = [to], pb_edges_rev = [],
      pb_parts = (case owner_map ids g to of None \<Rightarrow> [] | Some p \<Rightarrow> [p])\<rparr>"
  note R = call_pairs_strict [OF en]
  show ?thesis
  proof (cases "bfs ?E ?ex brk to (bfs_init from)")
    case (Inl c)
    moreover have "\<exists>k. brk k" using bfs_never_cancels [of brk ?E ?ex to "bfs_init from"] Inl by force
    ultimately show ?thesis using True by (simp add: path_cancellable_def)
  next
    case (Inr st)
    have nf: "\<not> bf_found (bfs_init from)" by (simp add: bfs_init_def)
    note res = bfs_result [OF bfs_inv_init nf Inr, unfolded R]
    show ?thesis
    proof (cases "bf_found st")
      case True
      with res found_path_correct [OF en, of to "bf_visited st" "from" "bf_parent st" ?b0]
      obtain b e d where "walk_back (owner_map ids g) (bf_parent st) from to ?b0 = Some b"
        "found_answer g b = Val e" "legal_envelope e" "env_data e = Some d" "pa_nodes d \<noteq> []"
        "found_path_ok g from to e d" by auto
      with True Inr \<open>known_node ids g from \<and> known_node ids g to\<close> show ?thesis
        by (simp add: path_cancellable_def path_outcome_def)
    next
      case False
      with res have np: "(from, to) \<notin> (call_relation g)\<^sup>*"
        and deg: "bf_degraded st \<longleftrightarrow> (\<exists>v \<in> (call_relation g)\<^sup>* `` {from}. \<not> ?ex v)" by auto
      from no_path_answer_ok [of ids g "from" "bf_degraded st"] obtain e
        where e: "no_path_answer ids g from (bf_degraded st) = Val e" "legal_envelope e"
          "env_data e = Some \<lparr>pa_nodes = [], pa_edges = [], pa_contributing_epochs = []\<rparr>"
          "env_class e = Exact \<longleftrightarrow> \<not> bf_degraded st" by blast
      have "no_path_ok ids g from to e"
        unfolding no_path_ok_def using np deg e(4) no_completion_path [of g "from" ids _ to] by blast
      with e False Inr True show ?thesis
        by (simp add: path_cancellable_def path_outcome_def)
    qed
  qed
qed

section \<open>Properties\<close>

text \<open>
  C23. The path query always ends without a panic, with a legal envelope, and its answer is right. A
  path that it returns leads from the source to the target over confirmed calls of resident
  partitions and is a shortest one; if the answer is \<open>Exact\<close>, every step is a call that a resident
  partition in current state confirms. If it returns no path, there is none over the calls of the
  resident partitions; the answer is \<open>Exact\<close> exactly when every node reachable from the source is
  owned by a resident and current partition, and then no completion of the known calls has a path:
  calls that other partitions may add cannot make the target reachable. A cancelled search was told
  to stop by its checkpoint.
\<close>

theorem path_query_correct:
  assumes "enumerates ids (lg_slots g)"
  shows "\<exists>r. path_cancellable ids g from to brk = Some (Val r) \<and>
    (case r of
       Inl _ \<Rightarrow> \<exists>k. brk k
     | Inr e \<Rightarrow> legal_envelope e \<and>
         (case env_data e of
            None \<Rightarrow> \<not> known_node ids g from \<or> \<not> known_node ids g to
          | Some d \<Rightarrow> if pa_nodes d \<noteq> [] then found_path_ok g from to e d else no_path_ok ids g from to e))"
  by (rule path_cases [OF assms])

lemma demo_path_value:
  "(case path_cancellable [''lib'', ''web''] demo_graph ''a'' ''c'' (\<lambda>_. True) of
      Some (Val (Inr e)) \<Rightarrow> (env_class e, map_option pa_nodes (env_data e))
    | _ \<Rightarrow> (Unavailable, None)) = (Exact, Some [''a'', ''b'', ''c''])"
  by code_simp

theorem path_query_correct_witness:
  "\<exists>e d. path_cancellable [''lib'', ''web''] demo_graph ''a'' ''c'' (\<lambda>_. True) = Some (Val (Inr e)) \<and>
     env_data e = Some d \<and> pa_nodes d = [''a'', ''b'', ''c''] \<and> found_path_ok demo_graph ''a'' ''c'' e d"
proof -
  from path_query_correct [OF demo_graph_enumerates, of "''a''" "''c''" "\<lambda>_. True"] obtain r
    where r: "path_cancellable [''lib'', ''web''] demo_graph ''a'' ''c'' (\<lambda>_. True) = Some (Val r)"
      "case r of Inl _ \<Rightarrow> True
       | Inr e \<Rightarrow> (case env_data e of None \<Rightarrow> True
          | Some d \<Rightarrow> if pa_nodes d \<noteq> [] then found_path_ok demo_graph ''a'' ''c'' e d else True)"
    by (force split: sum.splits option.splits)
  with demo_path_value show ?thesis by (auto split: sum.splits option.splits)
qed

end
