(* ===== verification/Live_Cycles.thy ===== *)
theory Live_Cycles
  imports Live_Queries Scc_Correct "HOL-Library.Product_Lexorder"
begin

text \<open>
  The whole-graph answers of \<open>repo-graph-livegraph/src/lib.rs\<close>: import cycles between files and
  between modules (directories), module statistics, high complexity and the structural file
  inventory. All of them are captured over the resident partitions and carry the completeness of
  the whole graph in their envelope.
\<close>

section \<open>Completeness of the whole graph\<close>

type_synonym completeness =
  "string list \<times> freshness_state \<times> language_support set \<times> (string \<times> u64) list"

definition completeness_step :: "live_graph \<Rightarrow> completeness \<Rightarrow> string \<Rightarrow> completeness" where
  "completeness_step g acc pid = (case lg_slots g pid of
     None \<Rightarrow> acc
   | Some s \<Rightarrow>
       (let (missing, worst, languages, epochs) = acc;
            f = status_freshness (sl_status s)
        in (if sl_ir s = None \<or> sl_language s \<noteq> TypeScriptPrimary then missing @ [pid] else missing,
            if staleness_rank f > staleness_rank worst then f else worst,
            insert (sl_language s) languages, btree_insert pid (sl_epoch s) epochs)))"

definition whole_graph_completeness :: "string list \<Rightarrow> live_graph \<Rightarrow> completeness" where
  "whole_graph_completeness ids g =
     (let (missing, worst, languages, epochs) = foldl (completeness_step g) ([], F_Fresh, {}, []) ids
      in (sort missing, worst, if languages = {} then {TypeScriptPrimary} else languages, epochs))"

definition capture_envelope ::
  "'a \<Rightarrow> string list \<Rightarrow> freshness_state \<Rightarrow> language_support set \<Rightarrow> 'a answer_envelope outcome" where
  "capture_envelope data missing worst languages =
     (if missing = [] \<and> worst = F_Fresh
      then expect ''captured-graph exact invariant holds'' (exact_envelope data Complete F_Fresh [] languages)
      else if missing \<noteq> []
      then expect ''captured-graph partial invariant holds''
        (partial_envelope (Some data) [] missing worst [] languages)
      else expect ''captured-graph stale invariant holds'' (stale_envelope data worst [] [] [] languages))"

section \<open>Import cycles\<close>

record import_cycle_scope =
  cs_captured_resolved_relative :: bool
  cs_intra_partition :: bool
  cs_cross_partition :: bool
  cs_xpart_edge_count :: nat

record file_import_cycles_answer =
  fc_cycles :: "string list list"
  fc_scope :: import_cycle_scope
  fc_contributing_epochs :: "(string \<times> u64) list"

record module_import_cycle_scope =
  ms_file_scope :: import_cycle_scope
  ms_module_aggregated :: bool

record module_import_cycles_answer =
  mc_cycles :: "string list list"
  mc_scope :: module_import_cycle_scope
  mc_contributing_epochs :: "(string \<times> u64) list"

definition ast_imports :: "partition_ir \<Rightarrow> (string \<times> string) list" where
  "ast_imports ir = map (\<lambda>e. (ed_src e, ed_dst e)) (filter (\<lambda>e. ed_basis e = AstImport) (ir_edges ir))"

definition file_import_edges :: "string list \<Rightarrow> live_graph \<Rightarrow> (string \<times> string) list \<times> import_cycle_scope" where
  "file_import_edges ids g =
     (let intra = concat (map ast_imports (resident_list ids (lg_slots g)));
          xpart = map (\<lambda>e. (re_src_file_key e, re_dst_file_key e)) (lg_overlay g)
      in (intra @ xpart,
          \<lparr>cs_captured_resolved_relative = True, cs_intra_partition = (length intra > 0),
           cs_cross_partition = (length (lg_overlay g) > 0), cs_xpart_edge_count = length (lg_overlay g)\<rparr>))"

definition directed_edges :: "(string \<times> string) list \<Rightarrow> directed_edge list" where
  "directed_edges pairs = map (\<lambda>(s, d). \<lparr>edge_source = s, edge_target = d\<rparr>) pairs"

text \<open>
  \<open>find_sccs_cancellable(&edges, cancel)?.cycles\<close> and the envelope of the answer made from it:
  \<open>None\<close> if the search does not return, a panic, \<open>Cancelled\<close> or the answer.
\<close>

definition cycles_answer ::
  "(string \<times> string) list \<Rightarrow> cancel_check \<Rightarrow> (string list list \<Rightarrow> 'a) \<Rightarrow> string list \<Rightarrow> freshness_state \<Rightarrow>
   language_support set \<Rightarrow> (cancelled + 'a answer_envelope) outcome option" where
  "cycles_answer pairs brk answer missing worst languages =
     (case find_sccs_cancellable (directed_edges pairs) brk of
        None \<Rightarrow> None
      | Some (Panic m) \<Rightarrow> Some (Panic m)
      | Some (Val (Inl c)) \<Rightarrow> Some (Val (Inl c))
      | Some (Val (Inr r)) \<Rightarrow>
          Some (case capture_envelope (answer (map members (cycles r))) missing worst languages of
            Panic m \<Rightarrow> Panic m
          | Val e \<Rightarrow> Val (Inr e)))"

definition file_import_cycles_cancellable ::
  "string list \<Rightarrow> live_graph \<Rightarrow> cancel_check \<Rightarrow>
   (cancelled + file_import_cycles_answer answer_envelope) outcome option" where
  "file_import_cycles_cancellable ids g brk =
     (let (file_edges, scope) = file_import_edges ids g;
          (missing, worst, languages, epochs) = whole_graph_completeness ids g
      in cycles_answer file_edges brk
           (\<lambda>cs. \<lparr>fc_cycles = cs, fc_scope = scope, fc_contributing_epochs = epochs\<rparr>) missing worst languages)"

text \<open>\<open>.expect("never-breaking checkpoint cannot cancel")\<close>\<close>

definition expect_uncancelled :: "(cancelled + 'a) outcome option \<Rightarrow> 'a outcome option" where
  "expect_uncancelled r = (case r of
     None \<Rightarrow> None
   | Some (Panic m) \<Rightarrow> Some (Panic m)
   | Some (Val (Inl _)) \<Rightarrow> Some (Panic ''never-breaking checkpoint cannot cancel'')
   | Some (Val (Inr e)) \<Rightarrow> Some (Val e))"

definition file_import_cycles ::
  "string list \<Rightarrow> live_graph \<Rightarrow> file_import_cycles_answer answer_envelope outcome option" where
  "file_import_cycles ids g = expect_uncancelled (file_import_cycles_cancellable ids g (\<lambda>_. False))"

definition module_path_of :: "string \<Rightarrow> string option" where
  "module_path_of file_key = (case file_key_path file_key of
     None \<Rightarrow> None
   | Some path \<Rightarrow> (let dir = dirname path in if dir = '''' then None else Some dir))"

definition module_import_pairs :: "string list \<Rightarrow> live_graph \<Rightarrow> (string \<times> string) list \<times> import_cycle_scope" where
  "module_import_pairs ids g =
     (let (file_edges, file_scope) = file_import_edges ids g
      in (btree_set (filter_map (\<lambda>(src_key, dst_key). case (module_path_of src_key, module_path_of dst_key) of
            (Some sm, Some dm) \<Rightarrow> if sm \<noteq> dm then Some (sm, dm) else None
          | _ \<Rightarrow> None) file_edges), file_scope))"

definition module_import_cycles_cancellable ::
  "string list \<Rightarrow> live_graph \<Rightarrow> cancel_check \<Rightarrow>
   (cancelled + module_import_cycles_answer answer_envelope) outcome option" where
  "module_import_cycles_cancellable ids g brk =
     (let (module_pairs, file_scope) = module_import_pairs ids g;
          (missing, worst, languages, epochs) = whole_graph_completeness ids g
      in cycles_answer module_pairs brk
           (\<lambda>cs. \<lparr>mc_cycles = cs,
                  mc_scope = \<lparr>ms_file_scope = file_scope, ms_module_aggregated = True\<rparr>,
                  mc_contributing_epochs = epochs\<rparr>) missing worst languages)"

definition module_import_cycles ::
  "string list \<Rightarrow> live_graph \<Rightarrow> module_import_cycles_answer answer_envelope outcome option" where
  "module_import_cycles ids g = expect_uncancelled (module_import_cycles_cancellable ids g (\<lambda>_. False))"

section \<open>Module statistics\<close>

record module_stat_row =
  mr_module :: string
  mr_fan_in :: nat
  mr_fan_out :: nat
  mr_file_count :: nat
  mr_symbol_count :: nat
  mr_abstract_count :: nat
  mr_type_count :: nat

record module_stats_answer =
  mt_modules :: "module_stat_row list"
  mt_scope :: module_import_cycle_scope
  mt_contributing_epochs :: "(string \<times> u64) list"

record stats_acc =
  ac_file_paths :: "(string \<times> string set) list"
  ac_symbol_count :: "string \<rightharpoonup> nat"
  ac_abstract_count :: "string \<rightharpoonup> nat"
  ac_type_count :: "string \<rightharpoonup> nat"

definition is_abstract_kind :: "string \<Rightarrow> bool" where
  "is_abstract_kind kind \<longleftrightarrow> kind = ''INTERFACE'' \<or> kind = ''TYPE_ALIAS''"

definition is_type_kind :: "string \<Rightarrow> bool" where
  "is_type_kind kind \<longleftrightarrow> kind = ''INTERFACE'' \<or> kind = ''TYPE_ALIAS'' \<or> kind = ''CLASS'' \<or> kind = ''ENUM''"

text \<open>\<open>*counts.entry(module).or_default() += 1\<close>, where the condition holds.\<close>

definition count_if :: "bool \<Rightarrow> string \<Rightarrow> (string \<rightharpoonup> nat) \<Rightarrow> (string \<rightharpoonup> nat)" where
  "count_if b module m = (if b then map_entry module 0 Suc m else m)"

definition stats_step :: "stats_acc \<Rightarrow> ir_node \<Rightarrow> stats_acc" where
  "stats_step acc n = (case nd_identity_source n of
     AstFileScope \<Rightarrow>
       (case file_key_path (nd_key n) of
          None \<Rightarrow> acc
        | Some path \<Rightarrow>
            (let module = dirname path
             in if module = '''' then acc
                else acc\<lparr>ac_file_paths := btree_entry module {} (insert path) (ac_file_paths acc)\<rparr>))
   | AstAdopted \<Rightarrow>
       (case (nd_attributes n, nd_range n) of
          (Some attrs, Some rg) \<Rightarrow>
            (let module = dirname (sr_file rg)
             in if module = '''' then acc
                else acc\<lparr>ac_symbol_count := count_if (sa_visibility attrs = Some V_Export) module (ac_symbol_count acc),
                         ac_abstract_count := count_if (sa_is_top_level attrs \<and>
                           (case sa_symbol_kind attrs of None \<Rightarrow> False | Some k \<Rightarrow> is_abstract_kind k))
                           module (ac_abstract_count acc),
                         ac_type_count := count_if (sa_is_top_level attrs \<and>
                           (case sa_symbol_kind attrs of None \<Rightarrow> False | Some k \<Rightarrow> is_type_kind k))
                           module (ac_type_count acc)\<rparr>)
        | _ \<Rightarrow> acc)
   | ScipSynthesizedFallback \<Rightarrow> acc)"

definition fan_sets :: "('a \<times> string) list \<Rightarrow> ('a \<rightharpoonup> string set)" where
  "fan_sets pairs = foldl (\<lambda>m (k, v). map_entry k {} (insert v) m) Map.empty pairs"

definition get_or :: "'v \<Rightarrow> 'v option \<Rightarrow> 'v" where
  "get_or d v = (case v of None \<Rightarrow> d | Some x \<Rightarrow> x)"

definition stat_row ::
  "(string \<times> string) list \<Rightarrow> stats_acc \<Rightarrow> string \<times> string set \<Rightarrow> module_stat_row" where
  "stat_row pairs acc = (\<lambda>(module, files).
     \<lparr>mr_module = module,
      mr_fan_in = card (get_or {} (fan_sets (map (\<lambda>(s, d). (d, s)) pairs) module)),
      mr_fan_out = card (get_or {} (fan_sets pairs module)),
      mr_file_count = card files,
      mr_symbol_count = get_or 0 (ac_symbol_count acc module),
      mr_abstract_count = get_or 0 (ac_abstract_count acc module),
      mr_type_count = get_or 0 (ac_type_count acc module)\<rparr>)"

definition resident_nodes :: "string list \<Rightarrow> live_graph \<Rightarrow> ir_node list" where
  "resident_nodes ids g = concat (map ir_nodes (resident_list ids (lg_slots g)))"

definition module_stats ::
  "string list \<Rightarrow> live_graph \<Rightarrow> module_stats_answer answer_envelope outcome" where
  "module_stats ids g =
     (let (module_pairs, file_scope) = module_import_pairs ids g;
          acc = foldl stats_step
            \<lparr>ac_file_paths = [], ac_symbol_count = Map.empty, ac_abstract_count = Map.empty,
             ac_type_count = Map.empty\<rparr> (resident_nodes ids g);
          (missing, worst, languages, epochs) = whole_graph_completeness ids g
      in capture_envelope
           \<lparr>mt_modules = map (stat_row module_pairs acc) (filter (\<lambda>(_, files). files \<noteq> {}) (ac_file_paths acc)),
            mt_scope = \<lparr>ms_file_scope = file_scope, ms_module_aggregated = True\<rparr>,
            mt_contributing_epochs = epochs\<rparr> missing worst languages)"

section \<open>High complexity\<close>

record high_complexity_fact =
  hc_symbol :: string
  hc_complexity :: u32
  hc_file :: "string option"

record high_complexity_answer =
  ha_symbols :: "high_complexity_fact list"
  ha_contributing_epochs :: "(string \<times> u64) list"

definition high_fact :: "u32 \<Rightarrow> value_fact \<Rightarrow> high_complexity_fact option" where
  "high_fact threshold f =
     (if vf_kind f \<noteq> CyclomaticComplexity \<or> vf_value f < threshold then None
      else case vf_subject f of
        Symbol k \<Rightarrow> Some \<lparr>hc_symbol = k, hc_complexity = vf_value f,
                          hc_file = map_option sr_file (vf_source_range f)\<rparr>
      | RawAnchor _ \<Rightarrow> None)"

definition resident_facts :: "string list \<Rightarrow> live_graph \<Rightarrow> value_fact list" where
  "resident_facts ids g = concat (map (\<lambda>pid. case lg_slots g pid of
     None \<Rightarrow> []
   | Some s \<Rightarrow> if sl_ir s = None then [] else sl_value_facts s) ids)"

definition high_complexity ::
  "string list \<Rightarrow> live_graph \<Rightarrow> u32 \<Rightarrow> high_complexity_answer answer_envelope outcome" where
  "high_complexity ids g threshold =
     (let symbols = sort_key (\<lambda>h. (hc_symbol h, hc_complexity h))
            (filter_map (high_fact threshold) (resident_facts ids g));
          (missing, worst, languages, epochs) = whole_graph_completeness ids g
      in capture_envelope \<lparr>ha_symbols = symbols, ha_contributing_epochs = epochs\<rparr> missing worst languages)"

section \<open>The structural file inventory\<close>

record structural_file_row =
  sf_path :: string
  sf_has_file_node :: bool
  sf_ast_symbol_count :: nat

record structural_inventory_answer =
  si_files :: "structural_file_row list"
  si_unattributed_symbols :: nat
  si_contributing_epochs :: "(string \<times> u64) list"

definition inventory_step ::
  "(string \<times> structural_file_row) list \<times> nat \<Rightarrow> ir_node \<Rightarrow> (string \<times> structural_file_row) list \<times> nat" where
  "inventory_step acc n =
     (let (rows, unattributed) = acc in
      case nd_identity_source n of
        AstFileScope \<Rightarrow>
          (case file_key_path (nd_key n) of
             None \<Rightarrow> acc
           | Some path \<Rightarrow>
               (btree_entry path \<lparr>sf_path = path, sf_has_file_node = True, sf_ast_symbol_count = 0\<rparr>
                  (\<lambda>r. r\<lparr>sf_has_file_node := True\<rparr>) rows, unattributed))
      | AstAdopted \<Rightarrow>
          (case nd_range n of
             Some rg \<Rightarrow>
               (btree_entry (sr_file rg)
                  \<lparr>sf_path = sr_file rg, sf_has_file_node = False, sf_ast_symbol_count = 0\<rparr>
                  (\<lambda>r. r\<lparr>sf_ast_symbol_count := sf_ast_symbol_count r + 1\<rparr>) rows, unattributed)
           | None \<Rightarrow> (rows, unattributed + 1))
      | ScipSynthesizedFallback \<Rightarrow> acc)"

definition structural_file_inventory ::
  "string list \<Rightarrow> live_graph \<Rightarrow> structural_inventory_answer answer_envelope outcome" where
  "structural_file_inventory ids g =
     (let (rows, unattributed) = foldl inventory_step ([], 0) (resident_nodes ids g);
          (missing, worst, languages, epochs) = whole_graph_completeness ids g
      in capture_envelope \<lparr>si_files = map snd rows, si_unattributed_symbols = unattributed,
           si_contributing_epochs = epochs\<rparr> missing worst languages)"

definition resident_module_paths :: "string list \<Rightarrow> live_graph \<Rightarrow> string set" where
  "resident_module_paths ids g = set (filter_map (\<lambda>n.
     if nd_identity_source n = AstFileScope then module_path_of (nd_key n) else None) (resident_nodes ids g))"


section \<open>The envelope of a whole-graph answer\<close>

definition uncaptured :: "live_graph \<Rightarrow> string set" where
  "uncaptured g = {pid. \<exists>s. lg_slots g pid = Some s \<and> (sl_ir s = None \<or> sl_language s \<noteq> TypeScriptPrimary)}"

definition all_current :: "live_graph \<Rightarrow> bool" where
  "all_current g \<longleftrightarrow> (\<forall>s \<in> ran (lg_slots g). sl_status s = RS_Current)"

text \<open>
  \<open>e\<close> delivers \<open>d\<close> and labels it by the state of all partitions: \<open>Partial\<close>, naming them, when some are
  not captured; otherwise \<open>Exact\<close> when all are current and \<open>Stale\<close> when not.
\<close>

definition whole_answer :: "live_graph \<Rightarrow> 'a answer_envelope \<Rightarrow> 'a \<Rightarrow> bool" where
  "whole_answer g e d \<longleftrightarrow> legal_envelope e \<and> env_data e = Some d \<and> set (env_missing e) = uncaptured g \<and>
     sorted (env_missing e) \<and> distinct (env_missing e) \<and>
     env_class e = (if uncaptured g \<noteq> {} then Partial else if all_current g then Exact else Stale)"

lemma completeness_fold:
  "fst (foldl (completeness_step g) acc ids) = fst acc @ filter (\<lambda>pid. pid \<in> uncaptured g) ids"
  "fst (snd (foldl (completeness_step g) acc ids)) = F_Fresh \<longleftrightarrow> fst (snd acc) = F_Fresh \<and>
     list_all (\<lambda>pid. case lg_slots g pid of None \<Rightarrow> True | Some s \<Rightarrow> sl_status s = RS_Current) ids"
proof (induction ids arbitrary: acc)
  case (Cons pid ids)
  { case 1
    show ?case unfolding foldl_Cons Cons.IH(1)
      by (cases acc) (auto simp: completeness_step_def uncaptured_def Let_def split: option.splits) }
  { case 2
    show ?case unfolding foldl_Cons Cons.IH(2)
      by (cases acc) (auto simp: completeness_step_def Let_def staleness_rank_def status_freshness_def
          split: option.splits refresh_status.splits freshness_state.splits if_splits) }
qed simp_all

lemma whole_graph_completeness_spec:
  assumes "enumerates ids (lg_slots g)"
    and "whole_graph_completeness ids g = (missing, worst, languages, epochs)"
  shows "set missing = uncaptured g" "sorted missing" "distinct missing"
    "worst = F_Fresh \<longleftrightarrow> all_current g" "languages \<noteq> {}"
proof -
  obtain m w l e where f: "foldl (completeness_step g) ([], F_Fresh, {}, []) ids = (m, w, l, e)"
    by (metis prod_cases4)
  with assms(2) have eq: "missing = sort m" "worst = w" "languages \<noteq> {}"
    by (auto simp: whole_graph_completeness_def split: if_splits)
  have d: "distinct ids" and dom: "set ids = dom (lg_slots g)" using assms(1) by (auto simp: enumerates_def)
  have cf: "m = filter (\<lambda>pid. pid \<in> uncaptured g) ids"
    "w = F_Fresh \<longleftrightarrow> list_all (\<lambda>pid. case lg_slots g pid of None \<Rightarrow> True | Some s \<Rightarrow> sl_status s = RS_Current) ids"
    using completeness_fold [of g "([], F_Fresh, {}, [])" ids] f by simp_all
  show "set missing = uncaptured g" "sorted missing" "distinct missing" "languages \<noteq> {}"
    using cf(1) eq d dom by (auto simp: uncaptured_def)
  show "worst = F_Fresh \<longleftrightarrow> all_current g"
    unfolding eq cf(2) list_all_iff dom by (auto simp: all_current_def ran_def split: option.splits)
qed

lemma capture_envelope_spec:
  assumes "enumerates ids (lg_slots g)"
    and "whole_graph_completeness ids g = (missing, worst, languages, epochs)"
  shows "\<exists>e. capture_envelope d missing worst languages = Val e \<and> whole_answer g e d"
  using whole_graph_completeness_spec [OF assms]
  by (auto simp: capture_envelope_def whole_answer_def expect_def envelope_constructors legal_envelope_def)

section \<open>Cycles\<close>

text \<open>The classes of at least two nodes that reach each other.\<close>

definition mutual :: "('a \<times> 'a) set \<Rightarrow> 'a \<Rightarrow> 'a set" where
  "mutual E u = {w. (u, w) \<in> E\<^sup>* \<and> (w, u) \<in> E\<^sup>*}"

definition rings :: "('a \<times> 'a) set \<Rightarrow> 'a set set" where
  "rings E = {C. \<exists>u v. v \<noteq> u \<and> v \<in> mutual E u \<and> C = mutual E u}"

lemma edge_rel_directed [simp]: "edge_rel (directed_edges pairs) = set pairs"
  by (force simp: edge_rel_def directed_edges_def)

lemma all_nodes_directed: "all_nodes (directed_edges pairs) = fst ` set pairs \<union> snd ` set pairs"
  by (force simp: all_nodes_def directed_edges_def)

lemma distinct_concat_map_filter:
  "distinct (concat (map f xs)) \<Longrightarrow> distinct (concat (map f (filter P xs)))"
  by (induction xs) auto

lemma rings_iff:
  "C \<in> rings (set pairs) \<longleftrightarrow>
     (\<exists>u v. v \<noteq> u \<and> v \<in> strongly_connected (directed_edges pairs) u \<and> C = strongly_connected (directed_edges pairs) u)"
  by (simp add: rings_def mutual_def strongly_connected_def)

lemma cycles_rings:
  obtains r where "find_sccs_cancellable (directed_edges pairs) brk = Some (Val (Inl Cancelled)) \<or>
      find_sccs_cancellable (directed_edges pairs) brk = Some (Val (Inr r))"
    and "find_sccs_cancellable (directed_edges pairs) (\<lambda>_. False) = Some (Val (Inr r))"
    and "set ` set (map members (cycles r)) = rings (set pairs)"
    and "distinct (concat (map members (cycles r)))"
proof -
  let ?es = "directed_edges pairs"
  obtain r where r: "find_sccs ?es = Some (Val r)"
    "find_sccs_cancellable ?es brk = Some (Val (Inl Cancelled)) \<or> find_sccs_cancellable ?es brk = Some (Val (Inr r))"
    "distinct (concat (map members (all_sccs r)))"
    "(\<lambda>c. set (members c)) ` set (all_sccs r) = strongly_connected ?es ` all_nodes ?es"
    "cycles r = filter is_cycle (all_sccs r)"
    by (rule find_sccs_run [of ?es brk])
  have dist: "distinct (members c)" if "c \<in> set (all_sccs r)" for c
    using r(3) that by (simp add: distinct_concat_iff)
  have node: "u \<in> all_nodes ?es" if "u \<noteq> v" "(u, v) \<in> (set pairs)\<^sup>*" for u v
    using that unfolding all_nodes_directed by (metis Un_iff converse_rtranclE fst_conv image_eqI)
  have "C \<in> (\<lambda>c. set (members c)) ` set (cycles r) \<longleftrightarrow> C \<in> rings (set pairs)" for C
  proof
    assume "C \<in> (\<lambda>c. set (members c)) ` set (cycles r)"
    then obtain c where c: "c \<in> set (all_sccs r)" "is_cycle c" "C = set (members c)" by (auto simp: r(5))
    with r(4) obtain u where u: "set (members c) = strongly_connected ?es u" by blast
    with scc_big_iff [OF dist [OF c(1)]] c(2) obtain v where "v \<in> strongly_connected ?es u" "v \<noteq> u" by blast
    with u c(3) show "C \<in> rings (set pairs)" unfolding rings_iff by metis
  next
    assume "C \<in> rings (set pairs)"
    then obtain u v where uv: "v \<noteq> u" "v \<in> strongly_connected ?es u" "C = strongly_connected ?es u"
      unfolding rings_iff by metis
    then have "u \<in> all_nodes ?es" using node [of u v] by (simp add: strongly_connected_def)
    with uv(3) r(4) obtain c where c: "c \<in> set (all_sccs r)" "set (members c) = C"
      by (metis (no_types, lifting) image_iff)
    with scc_big_iff [OF dist [OF c(1)]] uv c(2) have "is_cycle c" by blast
    with c show "C \<in> (\<lambda>c. set (members c)) ` set (cycles r)" by (auto simp: r(5))
  qed
  moreover have "find_sccs_cancellable ?es (\<lambda>_. False) = Some (Val (Inr r))"
    using r(1) by (auto simp: find_sccs_def split: option.splits outcome.splits sum.splits)
  moreover have "distinct (concat (map members (cycles r)))"
    unfolding r(5) using r(3) by (rule distinct_concat_map_filter)
  ultimately show thesis using r(2) by (intro that) (auto simp: image_image)
qed

lemma cycles_answer_spec:
  assumes "enumerates ids (lg_slots g)"
    and "whole_graph_completeness ids g = (missing, worst, languages, epochs)"
  shows "\<exists>e cs. whole_answer g e (answer cs) \<and> set ` set cs = rings (set pairs) \<and> distinct (concat cs) \<and>
    cycles_answer pairs (\<lambda>_. False) answer missing worst languages = Some (Val (Inr e)) \<and>
    cycles_answer pairs brk answer missing worst languages \<in> {Some (Val (Inl Cancelled)), Some (Val (Inr e))}"
proof -
  obtain r where r: "find_sccs_cancellable (directed_edges pairs) brk = Some (Val (Inl Cancelled)) \<or>
      find_sccs_cancellable (directed_edges pairs) brk = Some (Val (Inr r))"
    "find_sccs_cancellable (directed_edges pairs) (\<lambda>_. False) = Some (Val (Inr r))"
    "set ` set (map members (cycles r)) = rings (set pairs)" "distinct (concat (map members (cycles r)))"
    by (rule cycles_rings)
  obtain e where e: "capture_envelope (answer (map members (cycles r))) missing worst languages = Val e"
    "whole_answer g e (answer (map members (cycles r)))"
    using capture_envelope_spec [OF assms, of "answer (map members (cycles r))"] by (elim exE conjE) (rule that)
  have "cycles_answer pairs (\<lambda>_. False) answer missing worst languages = Some (Val (Inr e))"
    using r(2) e(1) by (simp add: cycles_answer_def)
  moreover have "cycles_answer pairs brk answer missing worst languages \<in> {Some (Val (Inl Cancelled)), Some (Val (Inr e))}"
    using r(1) e(1) by (auto simp: cycles_answer_def)
  ultimately show ?thesis
    using e(2) r(3,4) by (intro exI [of _ e] exI [of _ "map members (cycles r)"] conjI) assumption+
qed

text \<open>The captured imports between files, and those between different modules.\<close>

definition captured_imports :: "live_graph \<Rightarrow> (string \<times> string) set" where
  "captured_imports g =
     {(ed_src e, ed_dst e) | pid ir e. resident_of g pid = Some ir \<and> e \<in> set (ir_edges ir) \<and> ed_basis e = AstImport} \<union>
     {(re_src_file_key e, re_dst_file_key e) | e. e \<in> set (lg_overlay g)}"

definition module_imports :: "live_graph \<Rightarrow> (string \<times> string) set" where
  "module_imports g = {(m, n). m \<noteq> n \<and>
     (\<exists>a b. (a, b) \<in> captured_imports g \<and> module_path_of a = Some m \<and> module_path_of b = Some n)}"

lemma set_file_import_edges:
  assumes "enumerates ids (lg_slots g)"
  shows "set (fst (file_import_edges ids g)) = captured_imports g"
  by (auto simp: file_import_edges_def Let_def resident_list_set [OF assms] ast_imports_def captured_imports_def)

lemma set_module_import_pairs:
  assumes "enumerates ids (lg_slots g)"
  shows "set (fst (module_import_pairs ids g)) = module_imports g"
proof -
  let ?f = "\<lambda>(src_key, dst_key). case (module_path_of src_key, module_path_of dst_key) of
      (Some sm, Some dm) \<Rightarrow> if sm \<noteq> dm then Some (sm, dm) else None
    | _ \<Rightarrow> None"
  have f: "?f (a, b) = Some (m, n) \<longleftrightarrow> m \<noteq> n \<and> module_path_of a = Some m \<and> module_path_of b = Some n" for a b m n
    by (auto split: option.splits if_splits)
  have "set (fst (module_import_pairs ids g)) = {y. \<exists>x \<in> captured_imports g. ?f x = Some y}"
    unfolding set_file_import_edges [OF assms, symmetric]
    by (simp add: module_import_pairs_def Let_def split_beta)
  also have "\<dots> = module_imports g"
    unfolding module_imports_def using f by (fastforce simp del: split_conv)
  finally show ?thesis .
qed

lemma file_cycles_spec:
  assumes "enumerates ids (lg_slots g)"
  shows "\<exists>e d. file_import_cycles ids g = Some (Val e) \<and> whole_answer g e d \<and>
    set ` set (fc_cycles d) = rings (captured_imports g) \<and> distinct (concat (fc_cycles d)) \<and>
    file_import_cycles_cancellable ids g brk \<in> {Some (Val (Inl Cancelled)), Some (Val (Inr e))}"
proof -
  obtain pairs scope where p: "file_import_edges ids g = (pairs, scope)" by fastforce
  obtain missing worst languages epochs
    where w: "whole_graph_completeness ids g = (missing, worst, languages, epochs)" by (rule prod_cases4)
  let ?a = "\<lambda>cs. \<lparr>fc_cycles = cs, fc_scope = scope, fc_contributing_epochs = epochs\<rparr>"
  from cycles_answer_spec [OF assms w, of ?a pairs brk] obtain e cs
    where "whole_answer g e (?a cs)" "set ` set cs = rings (set pairs)" "distinct (concat cs)"
      "cycles_answer pairs (\<lambda>_. False) ?a missing worst languages = Some (Val (Inr e))"
      "cycles_answer pairs brk ?a missing worst languages \<in> {Some (Val (Inl Cancelled)), Some (Val (Inr e))}"
    by metis
  moreover have "set pairs = captured_imports g" using set_file_import_edges [OF assms] p by simp
  ultimately show ?thesis
    by (intro exI [of _ e] exI [of _ "?a cs"])
      (simp add: file_import_cycles_def file_import_cycles_cancellable_def expect_uncancelled_def p w)
qed

lemma module_cycles_spec:
  assumes "enumerates ids (lg_slots g)"
  shows "\<exists>e d. module_import_cycles ids g = Some (Val e) \<and> whole_answer g e d \<and>
    set ` set (mc_cycles d) = rings (module_imports g) \<and> distinct (concat (mc_cycles d)) \<and>
    module_import_cycles_cancellable ids g brk \<in> {Some (Val (Inl Cancelled)), Some (Val (Inr e))}"
proof -
  obtain pairs scope where p: "module_import_pairs ids g = (pairs, scope)" by fastforce
  obtain missing worst languages epochs
    where w: "whole_graph_completeness ids g = (missing, worst, languages, epochs)" by (rule prod_cases4)
  let ?a = "\<lambda>cs. \<lparr>mc_cycles = cs, mc_scope = \<lparr>ms_file_scope = scope, ms_module_aggregated = True\<rparr>,
    mc_contributing_epochs = epochs\<rparr>"
  from cycles_answer_spec [OF assms w, of ?a pairs brk] obtain e cs
    where "whole_answer g e (?a cs)" "set ` set cs = rings (set pairs)" "distinct (concat cs)"
      "cycles_answer pairs (\<lambda>_. False) ?a missing worst languages = Some (Val (Inr e))"
      "cycles_answer pairs brk ?a missing worst languages \<in> {Some (Val (Inl Cancelled)), Some (Val (Inr e))}"
    by metis
  moreover have "set pairs = module_imports g" using set_module_import_pairs [OF assms] p by simp
  ultimately show ?thesis
    by (intro exI [of _ e] exI [of _ "?a cs"])
      (simp add: module_import_cycles_def module_import_cycles_cancellable_def expect_uncancelled_def p w)
qed

text \<open>Mutual reachability within a class, and its image under a map that keeps edges or merges them.\<close>

lemma mutual_path:
  assumes "(x, y) \<in> E\<^sup>*" "x \<in> mutual E u" "y \<in> mutual E u"
    and step: "\<And>a b. (a, b) \<in> E \<Longrightarrow> a \<in> mutual E u \<Longrightarrow> b \<in> mutual E u \<Longrightarrow> h a = h b \<or> (h a, h b) \<in> F"
  shows "(h x, h y) \<in> F\<^sup>*"
  using assms(1,3)
proof (induction rule: rtrancl_induct)
  case (step y z)
  have "(u, y) \<in> E\<^sup>*" using assms(2) step.hyps(1) by (auto simp: mutual_def)
  moreover have "(y, u) \<in> E\<^sup>*"
    using step.hyps(2) step.prems by (auto simp: mutual_def intro: converse_rtrancl_into_rtrancl)
  ultimately have y: "y \<in> mutual E u" by (simp add: mutual_def)
  then have "(h x, h y) \<in> F\<^sup>*" by (rule step.IH)
  with assms(4) [OF step.hyps(2) y step.prems] show ?case
    by (auto intro: rtrancl_into_rtrancl)
qed simp

lemma file_ring_in_module_ring:
  assumes "C \<in> rings (captured_imports g)" and mods: "\<forall>f \<in> C. module_path_of f \<noteq> None"
    and "\<not> (\<exists>m. \<forall>f \<in> C. module_path_of f = Some m)"
  shows "\<exists>D \<in> rings (module_imports g). \<forall>f \<in> C. \<forall>m. module_path_of f = Some m \<longrightarrow> m \<in> D"
proof -
  let ?E = "captured_imports g" and ?F = "module_imports g"
  obtain u where C: "C = mutual ?E u" using assms(1) by (auto simp: rings_def)
  define h where "h f = the (module_path_of f)" for f
  have h: "module_path_of f = Some (h f)" if "f \<in> C" for f using mods that by (auto simp: h_def)
  have step: "h a = h b \<or> (h a, h b) \<in> ?F" if "(a, b) \<in> ?E" "a \<in> C" "b \<in> C" for a b
    using that h by (auto simp: module_imports_def)
  have path: "(h x, h y) \<in> ?F\<^sup>*" if "x \<in> C" "y \<in> C" for x y
  proof (rule mutual_path [where E = ?E and u = u and h = h and x = x and y = y])
    have "(x, u) \<in> ?E\<^sup>*" "(u, y) \<in> ?E\<^sup>*" using that by (simp_all add: C mutual_def)
    then show "(x, y) \<in> ?E\<^sup>*" by (rule rtrancl_trans)
  qed (use that step in \<open>simp_all add: C\<close>)
  have u: "u \<in> C" by (simp add: C mutual_def)
  obtain f where f: "f \<in> C" "h f \<noteq> h u" using assms(3) h u by metis
  have all: "h x \<in> mutual ?F (h u)" if "x \<in> C" for x
    using path that u by (simp add: mutual_def)
  have "mutual ?F (h u) \<in> rings ?F"
    unfolding rings_def mem_Collect_eq using f all by (intro exI [of _ "h u"] exI [of _ "h f"] conjI) simp_all
  moreover have "\<forall>x \<in> C. \<forall>m. module_path_of x = Some m \<longrightarrow> m \<in> mutual ?F (h u)"
    using all h by simp
  ultimately show ?thesis by (rule rev_bexI)
qed

section \<open>Documented cycles\<close>

text \<open>
  What the documents of the code call a cycle: a class of mutually reachable nodes with a path from a
  node back to itself. It has at least two members, or is a single node with an edge to itself.
\<close>

definition documented_cycles :: "('a \<times> 'a) set \<Rightarrow> 'a set set" where
  "documented_cycles E = {mutual E u | u. (u, u) \<in> E\<^sup>+}"

lemma documented_cycles_alt:
  "documented_cycles E = rings E \<union> {{u} | u. (u, u) \<in> E \<and> mutual E u = {u}}"
proof (intro equalityI subsetI)
  fix C
  assume "C \<in> documented_cycles E"
  then obtain u where u: "C = mutual E u" "(u, u) \<in> E\<^sup>+" by (auto simp: documented_cycles_def)
  then obtain v where v: "(u, v) \<in> E" "(v, u) \<in> E\<^sup>*" by (auto dest: tranclD)
  then have "v \<in> mutual E u" by (auto simp: mutual_def)
  with u(1) v show "C \<in> rings E \<union> {{u} | u. (u, u) \<in> E \<and> mutual E u = {u}}"
    by (cases "\<exists>w \<in> mutual E u. w \<noteq> u") (auto simp: rings_def mutual_def)
next
  fix C
  assume "C \<in> rings E \<union> {{u} | u. (u, u) \<in> E \<and> mutual E u = {u}}"
  then consider u v where "C = mutual E u" "v \<in> mutual E u" "v \<noteq> u" | u where "C = {u}" "(u, u) \<in> E" "mutual E u = {u}"
    by (auto simp: rings_def)
  then show "C \<in> documented_cycles E"
  proof cases
    case (1 u v)
    then have "(u, v) \<in> E\<^sup>+" "(v, u) \<in> E\<^sup>*" by (auto simp: mutual_def dest: rtranclD)
    then have "(u, u) \<in> E\<^sup>+" by (rule trancl_rtrancl_trancl)
    with 1(1) show ?thesis by (auto simp: documented_cycles_def)
  next
    case 2
    then have "C = mutual E u" "(u, u) \<in> E\<^sup>+" by auto
    then show ?thesis unfolding documented_cycles_def by blast
  qed
qed

lemma documented_cycles_irrefl: "(\<And>u. (u, u) \<notin> E) \<Longrightarrow> documented_cycles E = rings E"
  by (simp add: documented_cycles_alt)

lemma documented_module_cycles: "documented_cycles (module_imports g) = rings (module_imports g)"
  by (rule documented_cycles_irrefl) (simp add: module_imports_def)

text \<open>
  The difference: a file outside every ring that imports itself is a cycle to the documents
  (\<open>Scc::is_cycle\<close>, and the slice on live cycles) and is never reported.
\<close>

lemma self_import_not_reported:
  assumes "enumerates ids (lg_slots g)" and "(f, f) \<in> captured_imports g" "mutual (captured_imports g) f = {f}"
  shows "{f} \<in> documented_cycles (captured_imports g) \<and>
    (\<exists>e d. file_import_cycles ids g = Some (Val e) \<and> env_data e = Some d \<and> {f} \<notin> set ` set (fc_cycles d))"
proof -
  have "{f} \<notin> rings (captured_imports g)"
  proof
    assume "{f} \<in> rings (captured_imports g)"
    then obtain u v where "v \<noteq> u" "v \<in> mutual (captured_imports g) u" "{f} = mutual (captured_imports g) u"
      by (auto simp: rings_def)
    moreover have "u \<in> mutual (captured_imports g) u" by (simp add: mutual_def)
    ultimately show False by (metis singletonD)
  qed
  moreover have "{f} \<in> documented_cycles (captured_imports g)" using assms by (auto simp: documented_cycles_alt)
  ultimately show ?thesis
    using file_cycles_spec [OF assms(1), of "\<lambda>_. False"] by (fastforce simp: whole_answer_def)
qed

section \<open>Properties\<close>

text \<open>
  A second partition that imports back: with it the two partitions form a ring.
\<close>

definition demo_back :: partition_ir where
  "demo_back = demo_lib\<lparr>ir_import_observations := [\<lparr>io_source_file = ''lib/c.ts'',
     io_raw_specifier = ''../web/a'', io_resolution = StaticUnresolved, io_is_re_export = False,
     io_is_type_only = False, io_is_side_effect = False, io_external_node_modules = False\<rparr>]\<rparr>"

definition demo_ring :: live_graph where
  "demo_ring = load_partition [''lib'', ''web''] ''lib'' demo_back TypeScriptPrimary demo_graph"

lemma demo_ring_enumerates: "enumerates [''lib'', ''web''] (lg_slots demo_ring)"
  using demo_graph_slots
  by (auto simp: enumerates_def demo_ring_def load_partition_def Let_def split_beta)

text \<open>
  C24. Import cycles are exact. The cycle queries return without a panic. In a graph in which no file
  imports itself, the cycles between files, with a checkpoint that never breaks, are exactly the
  documented ones: the classes of files that reach each other over the imports of the resident
  partitions and the overlay and have a path back to themselves, each file once; those between modules
  are the same classes over the imports between different directories. (A file that imports itself and
  lies on no longer cycle is a cycle to the documents and is not reported.) The answer is \<open>Exact\<close> only if
  every partition is resident, in TypeScript and current, else it names the partitions that are not
  captured or is \<open>Stale\<close>; with a checkpoint that breaks, the result is the same answer or
  \<open>Cancelled\<close>. A cycle of files that all have a directory, and not all the same one, lies in a cycle of modules.
\<close>

theorem live_cycles_correct:
  assumes "enumerates ids (lg_slots g)" and "\<forall>f. (f, f) \<notin> captured_imports g"
  shows "(\<exists>e d. file_import_cycles ids g = Some (Val e) \<and> whole_answer g e d \<and>
      set ` set (fc_cycles d) = documented_cycles (captured_imports g) \<and> distinct (concat (fc_cycles d)) \<and>
      file_import_cycles_cancellable ids g brk \<in> {Some (Val (Inl Cancelled)), Some (Val (Inr e))}) \<and>
    (\<exists>e d. module_import_cycles ids g = Some (Val e) \<and> whole_answer g e d \<and>
      set ` set (mc_cycles d) = documented_cycles (module_imports g) \<and> distinct (concat (mc_cycles d)) \<and>
      module_import_cycles_cancellable ids g brk \<in> {Some (Val (Inl Cancelled)), Some (Val (Inr e))}) \<and>
    (\<forall>C \<in> documented_cycles (captured_imports g). (\<forall>f \<in> C. module_path_of f \<noteq> None) \<and>
      \<not> (\<exists>m. \<forall>f \<in> C. module_path_of f = Some m) \<longrightarrow>
      (\<exists>D \<in> documented_cycles (module_imports g). \<forall>f \<in> C. \<forall>m. module_path_of f = Some m \<longrightarrow> m \<in> D))"
proof -
  have files: "documented_cycles (captured_imports g) = rings (captured_imports g)"
    by (rule documented_cycles_irrefl) (simp add: assms(2))
  show ?thesis
    unfolding files documented_module_cycles
  proof (intro conjI ballI impI)
    fix C
    assume "C \<in> rings (captured_imports g)"
      and "(\<forall>f \<in> C. module_path_of f \<noteq> None) \<and> \<not> (\<exists>m. \<forall>f \<in> C. module_path_of f = Some m)"
    then show "\<exists>D \<in> rings (module_imports g). \<forall>f \<in> C. \<forall>m. module_path_of f = Some m \<longrightarrow> m \<in> D"
      using file_ring_in_module_ring by simp
  qed (rule file_cycles_spec [OF assms(1)], rule module_cycles_spec [OF assms(1)])
qed

lemma demo_ring_cycles:
  "(case module_import_cycles [''lib'', ''web''] demo_ring of
      Some (Val e) \<Rightarrow> (env_class e, map_option mc_cycles (env_data e))
    | _ \<Rightarrow> (Unavailable, None)) = (Exact, Some [[''lib'', ''web'']])"
  by code_simp

lemma demo_ring_irrefl: "\<forall>f. (f, f) \<notin> captured_imports demo_ring"
proof -
  have "list_all (\<lambda>(a, b). a \<noteq> b) (fst (file_import_edges [''lib'', ''web''] demo_ring))" by code_simp
  then show ?thesis
    unfolding list_all_iff set_file_import_edges [OF demo_ring_enumerates] by auto
qed

theorem live_cycles_correct_witness: "documented_cycles (module_imports demo_ring) = {{''lib'', ''web''}}"
proof -
  from conjunct1 [OF conjunct2 [OF live_cycles_correct [OF demo_ring_enumerates demo_ring_irrefl, where brk = "\<lambda>_. False"]]]
  obtain e d where "module_import_cycles [''lib'', ''web''] demo_ring = Some (Val e)"
    "whole_answer demo_ring e d" "set ` set (mc_cycles d) = documented_cycles (module_imports demo_ring)"
    by (elim exE conjE) (rule that)
  with demo_ring_cycles show ?thesis by (simp add: whole_answer_def)
qed

end
