(* ===== verification/Live_Stats.thy ===== *)
theory Live_Stats
  imports Live_Cycles
begin

text \<open>
  What the module statistics, the structural file inventory and the complexity read of the live
  graph count, against declarative counts over the nodes of the resident partitions.
\<close>

section \<open>Fans\<close>

lemma get_or_map_entry [simp]:
  "get_or d (map_entry k d f m k') = (if k' = k then f (get_or d (m k)) else get_or d (m k'))"
  by (simp add: get_or_def map_entry_def)

lemma fan_sets_fold:
  "get_or {} (foldl (\<lambda>m (k, v). map_entry k {} (insert v) m) m pairs k) = get_or {} (m k) \<union> {v. (k, v) \<in> set pairs}"
  by (induction pairs arbitrary: m) (auto split: if_splits)

lemma fan_sets: "get_or {} (fan_sets pairs k) = {v. (k, v) \<in> set pairs}"
  by (simp add: fan_sets_def fan_sets_fold) (simp add: get_or_def)

section \<open>Statistics\<close>

definition is_file_node :: "ir_node \<Rightarrow> string \<Rightarrow> bool" where
  "is_file_node n path \<longleftrightarrow> nd_identity_source n = AstFileScope \<and> file_key_path (nd_key n) = Some path"

definition module_files :: "ir_node list \<Rightarrow> string \<Rightarrow> string set" where
  "module_files nodes m = {p. dirname p = m \<and> (\<exists>n \<in> set nodes. is_file_node n p)}"

text \<open>A symbol of the module with attributes that satisfy the predicate.\<close>

definition symbol_with :: "(symbol_attributes \<Rightarrow> bool) \<Rightarrow> string \<Rightarrow> ir_node \<Rightarrow> bool" where
  "symbol_with P m n \<longleftrightarrow> nd_identity_source n = AstAdopted \<and>
     (\<exists>a rg. nd_attributes n = Some a \<and> nd_range n = Some rg \<and> dirname (sr_file rg) = m \<and> P a)"

definition exported :: "symbol_attributes \<Rightarrow> bool" where
  "exported a \<longleftrightarrow> sa_visibility a = Some V_Export"

definition top_level_kind :: "(string \<Rightarrow> bool) \<Rightarrow> symbol_attributes \<Rightarrow> bool" where
  "top_level_kind K a \<longleftrightarrow> sa_is_top_level a \<and> (\<exists>k. sa_symbol_kind a = Some k \<and> K k)"

lemma get_or_count_if [simp]:
  "get_or 0 (count_if b m c m') = get_or 0 (c m') + (if b \<and> m' = m then 1 else 0)"
  by (simp add: count_if_def)

lemma top_level_case: "(case k of None \<Rightarrow> False | Some x \<Rightarrow> K x) \<longleftrightarrow> (\<exists>x. k = Some x \<and> K x)"
  by (cases k) auto

definition stats_inv :: "ir_node list \<Rightarrow> stats_acc \<Rightarrow> bool" where
  "stats_inv nodes acc \<longleftrightarrow> btree_ok (ac_file_paths acc) \<and>
     (\<forall>m. map_of (ac_file_paths acc) m =
        (if m = '''' \<or> module_files nodes m = {} then None else Some (module_files nodes m))) \<and>
     (\<forall>m. m \<noteq> '''' \<longrightarrow>
        get_or 0 (ac_symbol_count acc m) = length (filter (symbol_with exported m) nodes) \<and>
        get_or 0 (ac_abstract_count acc m) = length (filter (symbol_with (top_level_kind is_abstract_kind) m) nodes) \<and>
        get_or 0 (ac_type_count acc m) = length (filter (symbol_with (top_level_kind is_type_kind) m) nodes))"

lemma module_files_snoc:
  "module_files (nodes @ [n]) m = module_files nodes m \<union> {p. dirname p = m \<and> is_file_node n p}"
  by (auto simp: module_files_def)

lemma stats_step_inv:
  assumes inv: "stats_inv nodes acc"
  shows "stats_inv (nodes @ [n]) (stats_step acc n)"
proof (cases "nd_identity_source n")
  case AstAdopted
  then have files: "module_files (nodes @ [n]) m = module_files nodes m" for m
    by (simp add: module_files_snoc is_file_node_def)
  show ?thesis
  proof (cases "\<exists>a rg. nd_attributes n = Some a \<and> nd_range n = Some rg \<and> dirname (sr_file rg) \<noteq> ''''")
    case True
    then obtain a rg where n: "nd_attributes n = Some a" "nd_range n = Some rg" "dirname (sr_file rg) \<noteq> ''''"
      by blast
    have s: "symbol_with P m n \<longleftrightarrow> P a \<and> m = dirname (sr_file rg)" for P m
      using AstAdopted n by (auto simp: symbol_with_def)
    have "stats_step acc n = acc\<lparr>
        ac_symbol_count := count_if (exported a) (dirname (sr_file rg)) (ac_symbol_count acc),
        ac_abstract_count := count_if (top_level_kind is_abstract_kind a) (dirname (sr_file rg)) (ac_abstract_count acc),
        ac_type_count := count_if (top_level_kind is_type_kind a) (dirname (sr_file rg)) (ac_type_count acc)\<rparr>"
      using AstAdopted n by (simp add: stats_step_def Let_def exported_def top_level_kind_def top_level_case)
    then show ?thesis using inv unfolding stats_inv_def files by (simp add: s)
  next
    case False
    then have "stats_step acc n = acc"
      using AstAdopted by (auto simp: stats_step_def Let_def split: option.splits)
    moreover have "\<not> symbol_with P m n" if "m \<noteq> ''''" for P m
      using False that by (auto simp: symbol_with_def)
    ultimately show ?thesis using inv unfolding stats_inv_def files by simp
  qed
next
  case ScipSynthesizedFallback
  then show ?thesis
    using inv by (simp add: stats_inv_def stats_step_def module_files_snoc is_file_node_def symbol_with_def)
next
  case AstFileScope
  then have sym: "\<not> symbol_with P m n" for P m by (simp add: symbol_with_def)
  show ?thesis
  proof (cases "\<exists>p. file_key_path (nd_key n) = Some p \<and> dirname p \<noteq> ''''")
    case True
    then obtain p where p: "file_key_path (nd_key n) = Some p" "dirname p \<noteq> ''''" by blast
    have "module_files (nodes @ [n]) m =
        (if m = dirname p then insert p (module_files nodes m) else module_files nodes m)" for m
      using AstFileScope p by (auto simp: module_files_snoc is_file_node_def)
    then show ?thesis
      using inv AstFileScope p
      by (auto simp: stats_inv_def stats_step_def Let_def sym btree_entry_ok map_entry_def)
  next
    case False
    then have "stats_step acc n = acc"
      using AstFileScope by (auto simp: stats_step_def Let_def split: option.splits)
    moreover have "module_files (nodes @ [n]) m = module_files nodes m" if "m \<noteq> ''''" for m
      using False that by (auto simp: module_files_snoc is_file_node_def)
    then have "(if m = '''' \<or> module_files (nodes @ [n]) m = {} then None else Some (module_files (nodes @ [n]) m)) =
        (if m = '''' \<or> module_files nodes m = {} then None else Some (module_files nodes m))" for m
      by (cases "m = ''''") simp_all
    ultimately show ?thesis using inv sym by (simp add: stats_inv_def)
  qed
qed

abbreviation stats_init :: stats_acc where
  "stats_init \<equiv> \<lparr>ac_file_paths = [], ac_symbol_count = Map.empty, ac_abstract_count = Map.empty,
     ac_type_count = Map.empty\<rparr>"

lemma stats_fold_inv: "stats_inv nodes (foldl stats_step stats_init nodes)"
proof (induction nodes rule: rev_induct)
  case Nil
  show ?case by (simp add: stats_inv_def btree_ok_def module_files_def get_or_def)
qed (simp add: stats_step_inv)

lemma fst_image_iff: "x \<in> fst ` S \<longleftrightarrow> (\<exists>y. (x, y) \<in> S)"
  by force

text \<open>
  One row for each directory of a resident file, in ascending order: its distinct importing and imported
  modules, its distinct files, and its symbols by visibility and kind.
\<close>

definition stats_exact :: "string list \<Rightarrow> live_graph \<Rightarrow> module_stats_answer \<Rightarrow> bool" where
  "stats_exact ids g d \<longleftrightarrow> sorted (map mr_module (mt_modules d)) \<and> distinct (map mr_module (mt_modules d)) \<and>
    mr_module ` set (mt_modules d) = {m. m \<noteq> '''' \<and> module_files (resident_nodes ids g) m \<noteq> {}} \<and>
    list_all (\<lambda>r.
      mr_fan_in r = card {s. (s, mr_module r) \<in> module_imports g} \<and>
      mr_fan_out r = card {t. (mr_module r, t) \<in> module_imports g} \<and>
      mr_file_count r = card (module_files (resident_nodes ids g) (mr_module r)) \<and>
      mr_symbol_count r = length (filter (symbol_with exported (mr_module r)) (resident_nodes ids g)) \<and>
      mr_abstract_count r =
        length (filter (symbol_with (top_level_kind is_abstract_kind) (mr_module r)) (resident_nodes ids g)) \<and>
      mr_type_count r =
        length (filter (symbol_with (top_level_kind is_type_kind) (mr_module r)) (resident_nodes ids g)))
      (mt_modules d)"

lemma module_stats_spec:
  assumes "enumerates ids (lg_slots g)"
  shows "\<exists>e d. module_stats ids g = Val e \<and> whole_answer g e d \<and>
    stats_exact ids g d"
proof -
  obtain pairs scope where p: "module_import_pairs ids g = (pairs, scope)" by fastforce
  obtain missing worst languages epochs
    where w: "whole_graph_completeness ids g = (missing, worst, languages, epochs)" by (rule prod_cases4)
  define acc where "acc = foldl stats_step stats_init (resident_nodes ids g)"
  let ?N = "resident_nodes ids g"
  have inv: "stats_inv ?N acc" unfolding acc_def by (rule stats_fold_inv)
  have files: "(m, fs) \<in> set (ac_file_paths acc) \<longleftrightarrow> m \<noteq> '''' \<and> fs \<noteq> {} \<and> fs = module_files ?N m" for m fs
    using inv by (auto simp: stats_inv_def set_btree_ok split: if_splits)
  then have nonempty: "filter (\<lambda>(_, fs). fs \<noteq> {}) (ac_file_paths acc) = ac_file_paths acc"
    by (auto simp: filter_id_conv)
  let ?d = "\<lparr>mt_modules = map (stat_row pairs acc) (ac_file_paths acc),
    mt_scope = \<lparr>ms_file_scope = scope, ms_module_aggregated = True\<rparr>, mt_contributing_epochs = epochs\<rparr>"
  obtain e where e: "capture_envelope ?d missing worst languages = Val e" "whole_answer g e ?d"
    using capture_envelope_spec [OF assms w, of ?d] by (elim exE conjE) (rule that)
  have val: "module_stats ids g = Val e"
    using e(1) nonempty by (simp add: module_stats_def p w flip: acc_def)
  have pairs: "set pairs = module_imports g" using set_module_import_pairs [OF assms] p by simp
  have mods: "map mr_module (mt_modules ?d) = map fst (ac_file_paths acc)"
    by (simp add: stat_row_def split_beta)
  have keys: "fst ` set (ac_file_paths acc) = {m. m \<noteq> '''' \<and> module_files ?N m \<noteq> {}}"
    by (rule set_eqI) (simp add: fst_image_iff files)
  have row: "mr_fan_in r = card {s. (s, mr_module r) \<in> module_imports g} \<and>
      mr_fan_out r = card {t. (mr_module r, t) \<in> module_imports g} \<and>
      mr_file_count r = card (module_files ?N (mr_module r)) \<and>
      mr_symbol_count r = length (filter (symbol_with exported (mr_module r)) ?N) \<and>
      mr_abstract_count r = length (filter (symbol_with (top_level_kind is_abstract_kind) (mr_module r)) ?N) \<and>
      mr_type_count r = length (filter (symbol_with (top_level_kind is_type_kind) (mr_module r)) ?N)"
    if r: "r \<in> set (mt_modules ?d)" for r
  proof -
    obtain m fs where m: "(m, fs) \<in> set (ac_file_paths acc)" "r = stat_row pairs acc (m, fs)" using r by auto
    then have "m \<noteq> ''''" "fs = module_files ?N m" using files by simp_all
    moreover have "{v. (m, v) \<in> (\<lambda>(s, d). (d, s)) ` set pairs} = {s. (s, m) \<in> set pairs}" by force
    ultimately show ?thesis
      using inv by (simp add: m(2) stat_row_def stats_inv_def fan_sets pairs)
  qed
  have "sorted (map fst (ac_file_paths acc))" "distinct (map fst (ac_file_paths acc))"
    using inv by (simp_all add: stats_inv_def btree_ok_def)
  with val e(2) row keys mods show ?thesis
    unfolding list_all_iff stats_exact_def by (intro exI [of _ e] exI [of _ ?d] conjI ballI) (simp_all flip: set_map mods add: image_image)
qed

section \<open>The file inventory\<close>

definition symbol_of_file :: "string \<Rightarrow> ir_node \<Rightarrow> bool" where
  "symbol_of_file path n \<longleftrightarrow> nd_identity_source n = AstAdopted \<and> map_option sr_file (nd_range n) = Some path"

definition unplaced_symbol :: "ir_node \<Rightarrow> bool" where
  "unplaced_symbol n \<longleftrightarrow> nd_identity_source n = AstAdopted \<and> nd_range n = None"

definition has_file_node :: "ir_node list \<Rightarrow> string \<Rightarrow> bool" where
  "has_file_node nodes path \<longleftrightarrow> list_ex (\<lambda>n. is_file_node n path) nodes"

definition inventory_row :: "ir_node list \<Rightarrow> string \<Rightarrow> structural_file_row" where
  "inventory_row nodes path = \<lparr>sf_path = path, sf_has_file_node = has_file_node nodes path,
     sf_ast_symbol_count = length (filter (symbol_of_file path) nodes)\<rparr>"

definition listed :: "ir_node list \<Rightarrow> string \<Rightarrow> bool" where
  "listed nodes path \<longleftrightarrow> has_file_node nodes path \<or> list_ex (symbol_of_file path) nodes"

definition inventory_inv ::
  "ir_node list \<Rightarrow> (string \<times> structural_file_row) list \<times> nat \<Rightarrow> bool" where
  "inventory_inv nodes acc \<longleftrightarrow> btree_ok (fst acc) \<and> snd acc = length (filter unplaced_symbol nodes) \<and>
     (\<forall>p. map_of (fst acc) p = (if listed nodes p then Some (inventory_row nodes p) else None))"

lemmas inventory_preds = symbol_of_file_def unplaced_symbol_def is_file_node_def

lemma inventory_other:
  assumes "inventory_inv nodes acc" and "\<not> unplaced_symbol n"
    and "\<And>p. \<not> is_file_node n p" and "\<And>p. \<not> symbol_of_file p n"
  shows "inventory_inv (nodes @ [n]) acc"
  using assms by (simp add: inventory_inv_def listed_def inventory_row_def has_file_node_def)

lemma unlisted_count: "\<not> listed nodes p \<Longrightarrow> filter (symbol_of_file p) nodes = []"
  by (auto simp: listed_def list_ex_iff filter_empty_conv)

lemma inventory_file:
  assumes inv: "inventory_inv nodes (rows, k)" and n: "\<And>q. is_file_node n q \<longleftrightarrow> q = p"
    and "\<And>q. \<not> symbol_of_file q n" and "\<not> unplaced_symbol n"
  shows "inventory_inv (nodes @ [n])
    (btree_entry p \<lparr>sf_path = p, sf_has_file_node = True, sf_ast_symbol_count = 0\<rparr>
      (\<lambda>r. r\<lparr>sf_has_file_node := True\<rparr>) rows, k)"
proof -
  have "listed (nodes @ [n]) q \<longleftrightarrow> listed nodes q \<or> q = p" for q
    using assms(2,3) by (auto simp: listed_def has_file_node_def)
  moreover have "inventory_row (nodes @ [n]) q =
      (if q = p then (inventory_row nodes q)\<lparr>sf_has_file_node := True\<rparr> else inventory_row nodes q)" for q
    using assms(2,3) by (simp add: inventory_row_def has_file_node_def)
  moreover have "inventory_row nodes p = \<lparr>sf_path = p, sf_has_file_node = False, sf_ast_symbol_count = 0\<rparr>"
    if "\<not> listed nodes p"
    using unlisted_count [OF that] that by (simp add: inventory_row_def listed_def)
  ultimately show ?thesis
    using inv assms(4) by (simp add: inventory_inv_def btree_entry_ok map_entry_def)
qed

lemma inventory_symbol:
  assumes inv: "inventory_inv nodes (rows, k)" and n: "\<And>q. symbol_of_file q n \<longleftrightarrow> q = p"
    and "\<And>q. \<not> is_file_node n q" and "\<not> unplaced_symbol n"
  shows "inventory_inv (nodes @ [n])
    (btree_entry p \<lparr>sf_path = p, sf_has_file_node = False, sf_ast_symbol_count = 0\<rparr>
      (\<lambda>r. r\<lparr>sf_ast_symbol_count := sf_ast_symbol_count r + 1\<rparr>) rows, k)"
proof -
  have "listed (nodes @ [n]) q \<longleftrightarrow> listed nodes q \<or> q = p" for q
    using assms(2,3) by (auto simp: listed_def has_file_node_def)
  moreover have "inventory_row (nodes @ [n]) q = (if q = p
      then (inventory_row nodes q)\<lparr>sf_ast_symbol_count := sf_ast_symbol_count (inventory_row nodes q) + 1\<rparr>
      else inventory_row nodes q)" for q
    using assms(2,3) by (simp add: inventory_row_def has_file_node_def)
  moreover have "inventory_row nodes p = \<lparr>sf_path = p, sf_has_file_node = False, sf_ast_symbol_count = 0\<rparr>"
    if "\<not> listed nodes p"
    using unlisted_count [OF that] that by (simp add: inventory_row_def listed_def)
  ultimately show ?thesis
    using inv assms(4) by (simp add: inventory_inv_def btree_entry_ok map_entry_def)
qed

lemma inventory_step_inv:
  assumes inv: "inventory_inv nodes acc"
  shows "inventory_inv (nodes @ [n]) (inventory_step acc n)"
proof (cases "nd_identity_source n")
  case AstFileScope
  then show ?thesis
    using inv inventory_other [OF inv, of n]
    by (cases acc; cases "file_key_path (nd_key n)")
      (auto simp: inventory_step_def inventory_preds intro!: inventory_file)
next
  case ScipSynthesizedFallback
  then show ?thesis
    using inventory_other [OF inv, of n] by (cases acc) (simp add: inventory_step_def inventory_preds)
next
  case AstAdopted
  show ?thesis
  proof (cases "nd_range n")
    case None
    then have "inventory_inv (nodes @ [n]) (fst acc, snd acc + 1)"
      using inv AstAdopted
      by (simp add: inventory_inv_def listed_def inventory_row_def has_file_node_def inventory_preds)
    with None AstAdopted show ?thesis by (cases acc) (simp add: inventory_step_def)
  next
    case (Some rg)
    from inv have "inventory_inv nodes (fst acc, snd acc)" by simp
    from inventory_symbol [OF this, of n "sr_file rg"] Some AstAdopted show ?thesis
      by (cases acc) (auto simp: inventory_step_def inventory_preds)
  qed
qed

lemma inventory_fold_inv: "inventory_inv nodes (foldl inventory_step ([], 0) nodes)"
proof (induction nodes rule: rev_induct)
  case Nil
  show ?case by (simp add: inventory_inv_def btree_ok_def listed_def has_file_node_def)
qed (simp add: inventory_step_inv)

text \<open>The symbols counted in the rows, summed over a list of all listed paths.\<close>

lemma sum_symbol_counts:
  assumes "distinct ps" and "\<forall>p. list_ex (symbol_of_file p) nodes \<longrightarrow> p \<in> set ps"
  shows "(\<Sum>p \<leftarrow> ps. length (filter (symbol_of_file p) nodes)) + length (filter unplaced_symbol nodes) =
    length (filter (\<lambda>n. nd_identity_source n = AstAdopted) nodes)"
  using assms(2)
proof (induction nodes)
  case (Cons n nodes)
  have "(\<Sum>p \<leftarrow> ps. length (filter (symbol_of_file p) (n # nodes))) =
      (\<Sum>p \<leftarrow> ps. if symbol_of_file p n then 1 else 0) + (\<Sum>p \<leftarrow> ps. length (filter (symbol_of_file p) nodes))"
    by (subst sum_list_addf [symmetric]) (rule arg_cong [where f = sum_list], simp)
  moreover have "(\<Sum>p \<leftarrow> ps. if symbol_of_file p n then 1 else 0 :: nat) =
      (if nd_identity_source n = AstAdopted \<and> nd_range n \<noteq> None then 1 else 0)"
  proof (cases "nd_identity_source n = AstAdopted \<and> nd_range n \<noteq> None")
    case True
    then obtain rg where rg: "nd_range n = Some rg" by blast
    have "symbol_of_file p n \<longleftrightarrow> p = sr_file rg" for p using True rg by (auto simp: symbol_of_file_def)
    moreover from this Cons.prems have "sr_file rg \<in> set ps" by simp
    ultimately show ?thesis
      using True assms(1) by (simp add: sum_list_distinct_conv_sum_set)
  next
    case False
    then have "\<not> symbol_of_file p n" for p by (auto simp: symbol_of_file_def)
    with False show ?thesis by simp
  qed
  ultimately show ?case
    using Cons by (auto simp: unplaced_symbol_def)
qed simp

text \<open>
  One row for each path with a file node or a symbol, in ascending order; no adopted symbol is lost
  or counted twice.
\<close>

definition inventory_exact :: "string list \<Rightarrow> live_graph \<Rightarrow> structural_inventory_answer \<Rightarrow> bool" where
  "inventory_exact ids g d \<longleftrightarrow> sorted (map sf_path (si_files d)) \<and> distinct (map sf_path (si_files d)) \<and>
    set (si_files d) = {inventory_row (resident_nodes ids g) p | p. listed (resident_nodes ids g) p} \<and>
    (\<Sum>r \<leftarrow> si_files d. sf_ast_symbol_count r) + si_unattributed_symbols d =
      length (filter (\<lambda>n. nd_identity_source n = AstAdopted) (resident_nodes ids g))"

lemma structural_file_inventory_spec:
  assumes "enumerates ids (lg_slots g)"
  shows "\<exists>e d. structural_file_inventory ids g = Val e \<and> whole_answer g e d \<and>
    inventory_exact ids g d"
proof -
  let ?N = "resident_nodes ids g"
  obtain missing worst languages epochs
    where w: "whole_graph_completeness ids g = (missing, worst, languages, epochs)" by (rule prod_cases4)
  obtain rows k where f: "foldl inventory_step ([], 0) ?N = (rows, k)" by fastforce
  have inv: "inventory_inv ?N (rows, k)" using inventory_fold_inv [of ?N] f by simp
  let ?d = "\<lparr>si_files = map snd rows, si_unattributed_symbols = k, si_contributing_epochs = epochs\<rparr>"
  obtain e where e: "capture_envelope ?d missing worst languages = Val e" "whole_answer g e ?d"
    using capture_envelope_spec [OF assms w, of ?d] by (elim exE conjE) (rule that)
  have val: "structural_file_inventory ids g = Val e" using e(1) by (simp add: structural_file_inventory_def f w)
  have rows: "(p, r) \<in> set rows \<longleftrightarrow> listed ?N p \<and> r = inventory_row ?N p" for p r
    using inv by (auto simp: inventory_inv_def set_btree_ok split: if_splits)
  have paths: "map (sf_path \<circ> snd) rows = map fst rows"
    by (rule map_cong) (auto simp: rows inventory_row_def)
  have ok: "sorted (map fst rows)" "distinct (map fst rows)" using inv by (simp_all add: inventory_inv_def btree_ok_def)
  have "set (map snd rows) = {inventory_row ?N p | p. listed ?N p}"
    using rows by (auto simp: image_iff) (metis snd_conv)
  moreover have "(\<Sum>r \<leftarrow> map snd rows. sf_ast_symbol_count r) = (\<Sum>p \<leftarrow> map fst rows. length (filter (symbol_of_file p) ?N))"
    unfolding map_map by (rule arg_cong [where f = sum_list], rule map_cong) (auto simp: rows inventory_row_def)
  moreover have "(\<Sum>p \<leftarrow> map fst rows. length (filter (symbol_of_file p) ?N)) + length (filter unplaced_symbol ?N) =
      length (filter (\<lambda>n. nd_identity_source n = AstAdopted) ?N)"
    using ok(2) by (rule sum_symbol_counts) (auto simp: listed_def fst_image_iff rows)
  moreover have "k = length (filter unplaced_symbol ?N)" using inv by (simp add: inventory_inv_def)
  ultimately show ?thesis
    unfolding inventory_exact_def
    using val e(2) ok by (intro exI [of _ e] exI [of _ ?d] conjI) (simp_all add: paths)
qed

section \<open>Complexity\<close>

definition high_exact :: "live_graph \<Rightarrow> u32 \<Rightarrow> high_complexity_answer \<Rightarrow> bool" where
  "high_exact g threshold d \<longleftrightarrow> sorted (map (\<lambda>h. (hc_symbol h, hc_complexity h)) (ha_symbols d)) \<and>
     (\<forall>h. h \<in> set (ha_symbols d) \<longleftrightarrow> (\<exists>f. (\<exists>s \<in> ran (lg_slots g). sl_ir s \<noteq> None \<and>
        f \<in> set (sl_value_facts s)) \<and> threshold \<le> vf_value f \<and> vf_subject f = Symbol (hc_symbol h) \<and>
        hc_complexity h = vf_value f \<and> hc_file h = map_option sr_file (vf_source_range f)))"

lemma high_fact_Some:
  "high_fact threshold f = Some h \<longleftrightarrow> threshold \<le> vf_value f \<and> vf_subject f = Symbol (hc_symbol h) \<and>
     hc_complexity h = vf_value f \<and> hc_file h = map_option sr_file (vf_source_range f)"
  by (cases h; cases "vf_kind f") (auto simp: high_fact_def split: value_subject.splits)

lemma set_resident_facts:
  "enumerates ids (lg_slots g) \<Longrightarrow> f \<in> set (resident_facts ids g) \<longleftrightarrow>
     (\<exists>s \<in> ran (lg_slots g). sl_ir s \<noteq> None \<and> f \<in> set (sl_value_facts s))"
  by (force simp: resident_facts_def enumerates_def ran_def dom_def split: option.splits)

lemma high_complexity_spec:
  assumes "enumerates ids (lg_slots g)"
  shows "\<exists>e d. high_complexity ids g threshold = Val e \<and> whole_answer g e d \<and> high_exact g threshold d"
proof -
  obtain missing worst languages epochs
    where w: "whole_graph_completeness ids g = (missing, worst, languages, epochs)" by (rule prod_cases4)
  let ?k = "\<lambda>h. (hc_symbol h, hc_complexity h)"
  let ?d = "\<lparr>ha_symbols = sort_key ?k (filter_map (high_fact threshold) (resident_facts ids g)),
    ha_contributing_epochs = epochs\<rparr>"
  obtain e where e: "capture_envelope ?d missing worst languages = Val e" "whole_answer g e ?d"
    using capture_envelope_spec [OF assms w, of ?d] by (elim exE conjE) (rule that)
  then have "high_complexity ids g threshold = Val e" by (simp add: high_complexity_def w)
  moreover have "high_exact g threshold ?d"
    unfolding high_exact_def
  proof (intro conjI allI)
    fix h
    have "h \<in> set (ha_symbols ?d) \<longleftrightarrow> (\<exists>f. f \<in> set (resident_facts ids g) \<and> high_fact threshold f = Some h)" by auto
    then show "h \<in> set (ha_symbols ?d) \<longleftrightarrow> (\<exists>f. (\<exists>s \<in> ran (lg_slots g). sl_ir s \<noteq> None \<and>
        f \<in> set (sl_value_facts s)) \<and> threshold \<le> vf_value f \<and> vf_subject f = Symbol (hc_symbol h) \<and>
        hc_complexity h = vf_value f \<and> hc_file h = map_option sr_file (vf_source_range f))"
      unfolding set_resident_facts [OF assms] high_fact_Some .
  qed simp
  ultimately show ?thesis using e(2) by blast
qed

section \<open>Properties\<close>

text \<open>
  C26. The whole-graph counts are exact. Module statistics, file inventory and complexity read return
  without a panic, under an envelope that is \<open>Exact\<close> only when every partition is resident, in TypeScript
  and current. The statistics have one row for each directory of a resident file, with its distinct
  neighbours in the module import graph, its distinct files and its exported, abstract and type
  symbols; the inventory has one row for each file or symbol path and together with the unattributed
  symbols it counts every adopted symbol once; the complexity read lists exactly the symbol facts of
  resident partitions at or above the threshold.
\<close>

theorem live_stats_exact:
  assumes "enumerates ids (lg_slots g)"
  shows "(\<exists>e d. module_stats ids g = Val e \<and> whole_answer g e d \<and> stats_exact ids g d) \<and>
    (\<exists>e d. structural_file_inventory ids g = Val e \<and> whole_answer g e d \<and> inventory_exact ids g d) \<and>
    (\<exists>e d. high_complexity ids g threshold = Val e \<and> whole_answer g e d \<and> high_exact g threshold d)"
  using module_stats_spec [OF assms] structural_file_inventory_spec [OF assms] high_complexity_spec [OF assms]
  by (intro conjI)

lemma demo_ring_stats:
  "(case module_stats [''lib'', ''web''] demo_ring of
      Val e \<Rightarrow> (env_class e, map_option (map (\<lambda>r. (mr_module r, mr_fan_in r, mr_fan_out r, mr_file_count r)) \<circ> mt_modules)
        (env_data e))
    | _ \<Rightarrow> (Unavailable, None)) = (Exact, Some [(''lib'', 1, 1, 1), (''web'', 1, 1, 1)])"
  by code_simp

theorem live_stats_exact_witness:
  "\<exists>e d. module_stats [''lib'', ''web''] demo_ring = Val e \<and> env_class e = Exact \<and>
     stats_exact [''lib'', ''web''] demo_ring d \<and>
     map (\<lambda>r. (mr_module r, mr_fan_in r, mr_fan_out r, mr_file_count r)) (mt_modules d) =
       [(''lib'', 1, 1, 1), (''web'', 1, 1, 1)]"
proof -
  from conjunct1 [OF live_stats_exact [OF demo_ring_enumerates]]
  obtain e d where "module_stats [''lib'', ''web''] demo_ring = Val e" "whole_answer demo_ring e d"
    "stats_exact [''lib'', ''web''] demo_ring d" by (elim exE conjE) (rule that)
  with demo_ring_stats show ?thesis by (intro exI [of _ e] exI [of _ d]) (simp add: whole_answer_def)
qed

end
