(* ===== verification/Live_Cert.thy ===== *)
theory Live_Cert
  imports Live_Cycles "HOL-Library.Option_ord"
begin

text \<open>
  When may the live graph answer a cycle query alone: the completeness certificate
  (\<open>repo-graph-livegraph/src/module_cycle_cert.rs\<close>), the classification of import observations and the
  import read-model (\<open>lib.rs\<close>, \<open>import_view.rs\<close>) it rests on. A \<open>BTreeSet\<close> of strings that is only
  asked for membership is a set.
\<close>

section \<open>Observation classes\<close>

datatype observation_class =
    ResolvedEdge | ExternalNonLocal | AssetNonRelevant | OC_WorkspaceLocalUnedgeable | UnresolvedPackage
  | AliasUnresolved | DynamicUnresolved | UnresolvedAfterOverlay

record observation_class_summary =
  has_external_nonlocal :: bool
  has_asset_nonrelevant :: bool
  has_workspace_local_unedgeable :: bool
  has_unresolved_package :: bool
  has_alias_unresolved :: bool
  has_dynamic_unresolved :: bool
  has_unresolved_after_overlay :: bool

definition no_observations :: observation_class_summary where
  "no_observations = \<lparr>has_external_nonlocal = False, has_asset_nonrelevant = False,
     has_workspace_local_unedgeable = False, has_unresolved_package = False, has_alias_unresolved = False,
     has_dynamic_unresolved = False, has_unresolved_after_overlay = False\<rparr>"

definition fold_into :: "observation_class \<Rightarrow> observation_class_summary \<Rightarrow> observation_class_summary" where
  "fold_into c s = (case c of
     ResolvedEdge \<Rightarrow> s
   | ExternalNonLocal \<Rightarrow> s\<lparr>has_external_nonlocal := True\<rparr>
   | AssetNonRelevant \<Rightarrow> s\<lparr>has_asset_nonrelevant := True\<rparr>
   | OC_WorkspaceLocalUnedgeable \<Rightarrow> s\<lparr>has_workspace_local_unedgeable := True\<rparr>
   | UnresolvedPackage \<Rightarrow> s\<lparr>has_unresolved_package := True\<rparr>
   | AliasUnresolved \<Rightarrow> s\<lparr>has_alias_unresolved := True\<rparr>
   | DynamicUnresolved \<Rightarrow> s\<lparr>has_dynamic_unresolved := True\<rparr>
   | UnresolvedAfterOverlay \<Rightarrow> s\<lparr>has_unresolved_after_overlay := True\<rparr>)"

definition is_blocking :: "observation_class \<Rightarrow> bool" where
  "is_blocking c \<longleftrightarrow> c = OC_WorkspaceLocalUnedgeable \<or> c = UnresolvedPackage \<or> c = AliasUnresolved \<or>
     c = DynamicUnresolved \<or> c = UnresolvedAfterOverlay"

definition is_edge :: "observation_class \<Rightarrow> bool" where
  "is_edge c \<longleftrightarrow> c = ResolvedEdge"

definition observation_as_str :: "observation_class \<Rightarrow> string" where
  "observation_as_str c = (case c of
     ResolvedEdge \<Rightarrow> ''ResolvedEdge'' | ExternalNonLocal \<Rightarrow> ''ExternalNonLocal''
   | AssetNonRelevant \<Rightarrow> ''AssetNonRelevant''
   | OC_WorkspaceLocalUnedgeable \<Rightarrow> ''WorkspaceLocalUnedgeable''
   | UnresolvedPackage \<Rightarrow> ''UnresolvedPackage'' | AliasUnresolved \<Rightarrow> ''AliasUnresolved''
   | DynamicUnresolved \<Rightarrow> ''DynamicUnresolved'' | UnresolvedAfterOverlay \<Rightarrow> ''UnresolvedAfterOverlay'')"

definition classify_relative :: "import_observation \<Rightarrow> bool \<Rightarrow> observation_class" where
  "classify_relative obs overlay_resolved =
     (if is_asset_specifier (io_raw_specifier obs) then AssetNonRelevant
      else if overlay_resolved then ResolvedEdge
      else UnresolvedAfterOverlay)"

definition classify_bare_specifier ::
  "import_observation \<Rightarrow> bool \<Rightarrow> tsconfig_alias_config option \<Rightarrow> string set \<Rightarrow> string set \<Rightarrow> observation_class" where
  "classify_bare_specifier obs overlay_resolved aliases workspace_packages declared =
     (let is_alias = (case aliases of None \<Rightarrow> False | Some cfg \<Rightarrow> specifier_matches_any_alias cfg (io_raw_specifier obs))
      in if overlay_resolved then ResolvedEdge
         else if is_alias then AliasUnresolved
         else case classify_package_import (io_raw_specifier obs) workspace_packages declared
                (io_external_node_modules obs) of
           ExternalPackageNonLocal \<Rightarrow> ExternalNonLocal
         | WorkspaceLocalUnedgeable \<Rightarrow> OC_WorkspaceLocalUnedgeable
         | PackageUnresolved \<Rightarrow> UnresolvedPackage)"

definition classify_observation ::
  "import_observation \<Rightarrow> bool \<Rightarrow> tsconfig_alias_config option \<Rightarrow> string set \<Rightarrow> string set \<Rightarrow> observation_class" where
  "classify_observation obs overlay_resolved aliases workspace_packages declared =
     (case io_resolution obs of
        StaticResolved \<Rightarrow> ResolvedEdge
      | PackageExternal \<Rightarrow> classify_bare_specifier obs overlay_resolved aliases workspace_packages declared
      | DynamicUnsupported \<Rightarrow>
          (if io_raw_specifier obs = '''' then DynamicUnresolved
           else if starts_with (io_raw_specifier obs) ''.'' then classify_relative obs overlay_resolved
           else classify_bare_specifier obs overlay_resolved aliases workspace_packages declared)
      | StaticUnresolved \<Rightarrow> classify_relative obs overlay_resolved)"

text \<open>An edge of the overlay was emitted for this observation.\<close>

definition overlay_resolved :: "live_graph \<Rightarrow> import_observation \<Rightarrow> bool" where
  "overlay_resolved g obs = list_ex (\<lambda>e. re_raw_specifier e = io_raw_specifier obs \<and>
     file_key_path (re_src_file_key e) = Some (io_source_file obs)) (lg_overlay g)"

definition workspace_packages_of :: "string list \<Rightarrow> live_graph \<Rightarrow> string set" where
  "workspace_packages_of ids g =
     set (filter_map (\<lambda>ir. pt_package_name (ir_partition ir)) (resident_list ids (lg_slots g)))"

definition classified_observations ::
  "string list \<Rightarrow> live_graph \<Rightarrow> (string \<times> string \<times> observation_class) list" where
  "classified_observations ids g =
     concat (map (\<lambda>ir. map (\<lambda>obs. (io_source_file obs, io_raw_specifier obs,
         classify_observation obs (overlay_resolved g obs) (pt_tsconfig_aliases (ir_partition ir))
           (workspace_packages_of ids g) (pt_declared_dependencies (ir_partition ir))))
       (ir_import_observations ir)) (resident_list ids (lg_slots g)))"

section \<open>The import read-model\<close>

record import_edge_view =
  iv_src_file :: string
  iv_dst_file :: string
  iv_basis :: string
  iv_raw_specifier :: "string option"

record import_observation_view =
  ov_source_file :: string
  ov_raw_specifier :: string
  ov_class :: string
  ov_blocking :: bool

record live_import_view_answer =
  lv_edges :: "import_edge_view list"
  lv_observations :: "import_observation_view list"

definition import_edge_basis_label :: "edge_basis \<Rightarrow> string" where
  "import_edge_basis_label basis = (case basis of
     AstImport \<Rightarrow> ''AstImport''
   | AstImportFileInventoryResolved \<Rightarrow> ''AstImportFileInventoryResolved''
   | AstImportTsconfigPathResolved \<Rightarrow> ''AstImportTsconfigPathResolved''
   | AstDynamicImportResolved \<Rightarrow> ''AstDynamicImportResolved''
   | _ \<Rightarrow> ''Other'')"

definition edge_view :: "string \<Rightarrow> string \<Rightarrow> edge_basis \<Rightarrow> string option \<Rightarrow> import_edge_view option" where
  "edge_view src_key dst_key basis raw =
     (case (file_key_path src_key, file_key_path dst_key) of
        (Some src, Some dst) \<Rightarrow> Some \<lparr>iv_src_file = src, iv_dst_file = dst,
          iv_basis = import_edge_basis_label basis, iv_raw_specifier = raw\<rparr>
      | _ \<Rightarrow> None)"

definition live_import_view :: "string list \<Rightarrow> live_graph \<Rightarrow> string option \<Rightarrow> live_import_view_answer" where
  "live_import_view ids g file_filter =
     (let intra = filter_map (\<lambda>e. if ed_basis e \<noteq> AstImport then None
            else edge_view (ed_src e) (ed_dst e) (ed_basis e) (map_option iem_raw_specifier (ed_import e)))
            (concat (map ir_edges (resident_list ids (lg_slots g))));
          xpart = filter_map (\<lambda>e. edge_view (re_src_file_key e) (re_dst_file_key e) (re_basis e)
            (Some (re_raw_specifier e))) (lg_overlay g);
          observations = map (\<lambda>(src, raw, c). \<lparr>ov_source_file = src, ov_raw_specifier = raw,
              ov_class = observation_as_str c, ov_blocking = is_blocking c\<rparr>)
            (filter (\<lambda>(_, _, c). \<not> is_edge c) (classified_observations ids g));
          keep = (\<lambda>f. case file_filter of None \<Rightarrow> True | Some p \<Rightarrow> f = p)
      in \<lparr>lv_edges = sort_key (\<lambda>e. (iv_src_file e, iv_dst_file e, iv_raw_specifier e))
            (filter (\<lambda>e. keep (iv_src_file e)) (intra @ xpart)),
          lv_observations = sort_key (\<lambda>v. (ov_source_file v, ov_raw_specifier v, ov_class v))
            (filter (\<lambda>v. keep (ov_source_file v)) observations)\<rparr>)"

record file_partition_status =
  fp_partition_id :: string
  fp_resident :: bool
  fp_fresh :: bool
  fp_ts_primary :: bool

definition precondition_met :: "file_partition_status \<Rightarrow> bool" where
  "precondition_met s \<longleftrightarrow> fp_resident s \<and> fp_fresh s \<and> fp_ts_primary s"

definition slot_file_status :: "string \<Rightarrow> slot \<Rightarrow> file_partition_status" where
  "slot_file_status pid s = \<lparr>fp_partition_id = pid, fp_resident = True,
     fp_fresh = (status_freshness (sl_status s) = F_Fresh), fp_ts_primary = (sl_language s = TypeScriptPrimary)\<rparr>"

definition file_partition_status_of :: "string list \<Rightarrow> live_graph \<Rightarrow> string \<Rightarrow> file_partition_status option" where
  "file_partition_status_of ids g file_path = first_some (\<lambda>pid. case lg_slots g pid of
     None \<Rightarrow> None
   | Some s \<Rightarrow> (case sl_ir s of
       None \<Rightarrow> None
     | Some ir \<Rightarrow> if list_ex (\<lambda>k. file_key_path k = Some file_path) (file_scope_keys ir)
                  then Some (slot_file_status pid s) else None)) ids"

definition resident_file_statuses :: "string list \<Rightarrow> live_graph \<Rightarrow> (string \<times> file_partition_status) list" where
  "resident_file_statuses ids g = foldl (\<lambda>out pid. case lg_slots g pid of
     None \<Rightarrow> out
   | Some s \<Rightarrow> (case sl_ir s of
       None \<Rightarrow> out
     | Some ir \<Rightarrow> foldl (\<lambda>out p. btree_entry p (slot_file_status pid s) (\<lambda>v. v) out) out
         (filter_map file_key_path (file_scope_keys ir)))) [] ids"

section \<open>The certificate\<close>

datatype module_cycle_completeness =
    CompleteForModuleImportCycles | IncompleteMissingPartitions | IncompleteUnsupportedLanguage
  | IncompleteImportClasses | UnknownBaselineMissing | Cycle_Unknown

definition cycle_completeness_as_str :: "module_cycle_completeness \<Rightarrow> string" where
  "cycle_completeness_as_str c = (case c of
     CompleteForModuleImportCycles \<Rightarrow> ''CompleteForModuleImportCycles''
   | IncompleteMissingPartitions \<Rightarrow> ''IncompleteMissingPartitions''
   | IncompleteUnsupportedLanguage \<Rightarrow> ''IncompleteUnsupportedLanguage''
   | IncompleteImportClasses \<Rightarrow> ''IncompleteImportClasses''
   | UnknownBaselineMissing \<Rightarrow> ''UnknownBaselineMissing''
   | Cycle_Unknown \<Rightarrow> ''Unknown'')"

definition permits_livegraph_default :: "module_cycle_completeness \<Rightarrow> bool" where
  "permits_livegraph_default c \<longleftrightarrow> c = CompleteForModuleImportCycles"

record live_partition =
  lp_id :: string
  lp_epoch :: u64
  lp_fresh :: bool
  lp_ts :: bool
  lp_source_inputs_hash :: string
  lp_producer_fingerprint :: string

record live_cycle_state =
  lc_partitions :: "live_partition list"
  lc_observation_classes :: observation_class_summary

record baseline_input =
  bl_expected_partition_ids :: "string set"
  bl_has_non_ts_cycle_source :: bool
  bl_repo_index_epoch :: u64
  bl_language_support_version :: u32
  bl_import_completeness_policy_version :: u32

definition live_partition_of :: "string \<Rightarrow> slot \<Rightarrow> live_partition" where
  "live_partition_of pid s =
     (let (hash, fingerprint) = (case sl_ir s of
            None \<Rightarrow> ('''', '''')
          | Some ir \<Rightarrow> (pt_build_inputs_hash (ir_partition ir),
              pt_indexer (ir_partition ir) @ ''@'' @ pt_indexer_version (ir_partition ir)))
      in \<lparr>lp_id = pid, lp_epoch = sl_epoch s,
          lp_fresh = (sl_ir s \<noteq> None \<and> status_freshness (sl_status s) = F_Fresh),
          lp_ts = (sl_language s = TypeScriptPrimary),
          lp_source_inputs_hash = hash, lp_producer_fingerprint = fingerprint\<rparr>)"

definition live_partitions :: "string list \<Rightarrow> live_graph \<Rightarrow> live_partition list" where
  "live_partitions ids g = filter_map (\<lambda>pid. map_option (live_partition_of pid) (lg_slots g pid)) ids"

definition module_cycle_live_state :: "string list \<Rightarrow> live_graph \<Rightarrow> live_cycle_state" where
  "module_cycle_live_state ids g =
     \<lparr>lc_partitions = live_partitions ids g,
      lc_observation_classes = foldl (\<lambda>s (_, _, c). fold_into c s) no_observations (classified_observations ids g)\<rparr>"

definition evaluate_module_cycle_completeness ::
  "live_cycle_state \<Rightarrow> baseline_input option \<Rightarrow> module_cycle_completeness" where
  "evaluate_module_cycle_completeness live baseline = (case baseline of
     None \<Rightarrow> UnknownBaselineMissing
   | Some b \<Rightarrow>
       (let loaded_fresh = set (map lp_id (filter lp_fresh (lc_partitions live)));
            s = lc_observation_classes live
        in if \<not> (bl_expected_partition_ids b \<subseteq> loaded_fresh) then IncompleteMissingPartitions
           else if bl_has_non_ts_cycle_source b \<or> list_ex (\<lambda>p. \<not> lp_ts p) (lc_partitions live)
           then IncompleteUnsupportedLanguage
           else if has_workspace_local_unedgeable s \<or> has_unresolved_package s \<or> has_alias_unresolved s \<or>
                   has_dynamic_unresolved s \<or> has_unresolved_after_overlay s
           then IncompleteImportClasses
           else CompleteForModuleImportCycles))"

text \<open>\<open>b as u8\<close>, printed.\<close>

definition show_bool :: "bool \<Rightarrow> string" where
  "show_bool b = (if b then ''1'' else ''0'')"

definition partition_fingerprint :: "live_partition \<Rightarrow> string" where
  "partition_fingerprint p = lp_id p @ ''@'' @ show_nat (unat (lp_epoch p)) @ '':f'' @ show_bool (lp_fresh p) @
     '':ts'' @ show_bool (lp_ts p) @ '':'' @ lp_source_inputs_hash p @ '':'' @ lp_producer_fingerprint p"

definition observations_fingerprint :: "observation_class_summary \<Rightarrow> string" where
  "observations_fingerprint s =
     ''obs[ext'' @ show_bool (has_external_nonlocal s) @ '':ast'' @ show_bool (has_asset_nonrelevant s) @
     '':wsl'' @ show_bool (has_workspace_local_unedgeable s) @ '':unp'' @ show_bool (has_unresolved_package s) @
     '':alu'' @ show_bool (has_alias_unresolved s) @ '':dyu'' @ show_bool (has_dynamic_unresolved s) @
     '':unr'' @ show_bool (has_unresolved_after_overlay s) @ '']''"

definition baseline_fingerprint :: "baseline_input option \<Rightarrow> string" where
  "baseline_fingerprint baseline = (case baseline of
     None \<Rightarrow> ''|base:NONE''
   | Some b \<Rightarrow> ''|base['' @ join_with (CHR '','') (sorted_list_of_set (bl_expected_partition_ids b)) @
       '':nts'' @ show_bool (bl_has_non_ts_cycle_source b) @ '':ie'' @ show_nat (unat (bl_repo_index_epoch b)) @
       '':lv'' @ show_nat (unat (bl_language_support_version b)) @
       '':ip'' @ show_nat (unat (bl_import_completeness_policy_version b)) @ '']'')"

definition certificate_inputs_fingerprint :: "live_cycle_state \<Rightarrow> baseline_input option \<Rightarrow> string" where
  "certificate_inputs_fingerprint live baseline =
     observations_fingerprint (lc_observation_classes live) @ ''|parts['' @
     join_with (CHR '','') (sort (map partition_fingerprint (lc_partitions live))) @ '']'' @
     baseline_fingerprint baseline"

section \<open>What a certificate rests on\<close>

definition blocking_flags :: "observation_class_summary \<Rightarrow> bool" where
  "blocking_flags s \<longleftrightarrow> has_workspace_local_unedgeable s \<or> has_unresolved_package s \<or> has_alias_unresolved s \<or>
     has_dynamic_unresolved s \<or> has_unresolved_after_overlay s"

lemma fold_into_blocking: "blocking_flags (fold_into c s) \<longleftrightarrow> is_blocking c \<or> blocking_flags s"
  by (cases c) (auto simp: fold_into_def is_blocking_def blocking_flags_def)

lemma foldl_blocking:
  "blocking_flags (foldl (\<lambda>s (_, _, c). fold_into c s) s cs) \<longleftrightarrow>
     blocking_flags s \<or> list_ex (\<lambda>(_, _, c). is_blocking c) cs"
proof (induction cs arbitrary: s)
  case (Cons x cs)
  show ?case by (cases x) (simp add: Cons.IH fold_into_blocking disj_ac)
qed simp

lemma live_state_blocking:
  "blocking_flags (lc_observation_classes (module_cycle_live_state ids g)) \<longleftrightarrow>
     list_ex (\<lambda>(_, _, c). is_blocking c) (classified_observations ids g)"
  by (simp add: module_cycle_live_state_def foldl_blocking)
    (simp add: blocking_flags_def no_observations_def)

lemma blocking_not_edge: "is_blocking c \<Longrightarrow> \<not> is_edge c"
  by (auto simp: is_blocking_def is_edge_def)

lemma view_blocking:
  "list_ex ov_blocking (lv_observations (live_import_view ids g None)) \<longleftrightarrow>
     list_ex (\<lambda>(_, _, c). is_blocking c) (classified_observations ids g)"
proof -
  have "list_ex ov_blocking (lv_observations (live_import_view ids g None)) \<longleftrightarrow>
      (\<exists>x \<in> set (classified_observations ids g). \<not> is_edge (snd (snd x)) \<and> is_blocking (snd (snd x)))"
    by (simp add: live_import_view_def Let_def list_ex_iff split_beta) (rule iffI; force)
  also have "\<dots> \<longleftrightarrow> (\<exists>x \<in> set (classified_observations ids g). is_blocking (snd (snd x)))"
    using blocking_not_edge by blast
  finally show ?thesis by (simp add: list_ex_iff split_beta)
qed

text \<open>
  An observation that cannot hide an import edge: a resolved import, an overlay edge, an asset, or a
  package from outside the workspace that no alias captures.
\<close>

definition accounted :: "string set \<Rightarrow> live_graph \<Rightarrow> partition_ir \<Rightarrow> import_observation \<Rightarrow> bool" where
  "accounted packages g ir obs \<longleftrightarrow>
     (let spec = io_raw_specifier obs;
          captured = (\<exists>e \<in> set (lg_overlay g). re_raw_specifier e = spec \<and>
            file_key_path (re_src_file_key e) = Some (io_source_file obs));
          relative = is_asset_specifier spec \<or> captured;
          bare = captured \<or>
            \<not> (\<exists>cfg. pt_tsconfig_aliases (ir_partition ir) = Some cfg \<and> specifier_matches_any_alias cfg spec) \<and>
            classify_package_import spec packages (pt_declared_dependencies (ir_partition ir))
              (io_external_node_modules obs) = ExternalPackageNonLocal
      in case io_resolution obs of
           StaticResolved \<Rightarrow> True
         | StaticUnresolved \<Rightarrow> relative
         | PackageExternal \<Rightarrow> bare
         | DynamicUnsupported \<Rightarrow> spec \<noteq> '''' \<and> (if starts_with spec ''.'' then relative else bare))"

lemma classify_relative_blocking:
  "is_blocking (classify_relative obs r) \<longleftrightarrow> \<not> (is_asset_specifier (io_raw_specifier obs) \<or> r)"
  by (simp add: classify_relative_def is_blocking_def)

lemma classify_bare_blocking:
  "is_blocking (classify_bare_specifier obs r aliases packages declared) \<longleftrightarrow>
     \<not> (r \<or> \<not> (\<exists>cfg. aliases = Some cfg \<and> specifier_matches_any_alias cfg (io_raw_specifier obs)) \<and>
       classify_package_import (io_raw_specifier obs) packages declared (io_external_node_modules obs) =
         ExternalPackageNonLocal)"
  by (cases aliases) (auto simp: classify_bare_specifier_def is_blocking_def split: package_import_class.splits)

lemma overlay_resolved_iff:
  "overlay_resolved g obs \<longleftrightarrow> (\<exists>e \<in> set (lg_overlay g). re_raw_specifier e = io_raw_specifier obs \<and>
     file_key_path (re_src_file_key e) = Some (io_source_file obs))"
  by (simp add: overlay_resolved_def list_ex_iff)

lemma observation_blocking:
  "is_blocking (classify_observation obs (overlay_resolved g obs) (pt_tsconfig_aliases (ir_partition ir)) packages
     (pt_declared_dependencies (ir_partition ir))) \<longleftrightarrow> \<not> accounted packages g ir obs"
proof (cases "io_resolution obs")
  case StaticResolved
  then show ?thesis by (simp add: classify_observation_def accounted_def is_blocking_def)
next
  case StaticUnresolved
  then show ?thesis
    by (simp add: classify_observation_def accounted_def Let_def classify_relative_blocking overlay_resolved_iff)
next
  case PackageExternal
  then show ?thesis
    by (simp add: classify_observation_def accounted_def Let_def classify_bare_blocking overlay_resolved_iff)
next
  case DynamicUnsupported
  have "is_blocking DynamicUnresolved" by (simp add: is_blocking_def)
  with DynamicUnsupported show ?thesis
    by (simp add: classify_observation_def accounted_def Let_def classify_relative_blocking classify_bare_blocking
        overlay_resolved_iff)
qed

lemma no_blocking_iff:
  assumes "enumerates ids (lg_slots g)"
  shows "\<not> list_ex (\<lambda>(_, _, c). is_blocking c) (classified_observations ids g) \<longleftrightarrow>
    (\<forall>pid ir. resident_of g pid = Some ir \<longrightarrow>
       list_all (accounted (workspace_packages_of ids g) g ir) (ir_import_observations ir))"
proof -
  have "list_ex (\<lambda>(_, _, c). is_blocking c) (classified_observations ids g) \<longleftrightarrow>
      (\<exists>ir \<in> set (resident_list ids (lg_slots g)). \<exists>obs \<in> set (ir_import_observations ir).
         \<not> accounted (workspace_packages_of ids g) g ir obs)"
    by (simp add: classified_observations_def list_ex_iff observation_blocking bex_simps)
  then show ?thesis
    unfolding resident_list_set [OF assms] list_all_iff by blast
qed

lemma live_partitions_mem:
  "x \<in> set (live_partitions ids g) \<longleftrightarrow> (\<exists>q s. q \<in> set ids \<and> lg_slots g q = Some s \<and> x = live_partition_of q s)"
  by (auto simp: live_partitions_def)

lemma live_partitions_fresh:
  assumes "enumerates ids (lg_slots g)"
  shows "pid \<in> set (map lp_id (filter lp_fresh (live_partitions ids g))) \<longleftrightarrow>
    (\<exists>s. lg_slots g pid = Some s \<and> sl_ir s \<noteq> None \<and> sl_status s = RS_Current)"
proof -
  have parts: "lp_id (live_partition_of p s) = p"
    "lp_fresh (live_partition_of p s) \<longleftrightarrow> sl_ir s \<noteq> None \<and> sl_status s = RS_Current"
    for p s by (simp_all add: live_partition_of_def Let_def split_beta)
  have "pid \<in> set (map lp_id (filter lp_fresh (live_partitions ids g))) \<longleftrightarrow>
      (\<exists>x. x \<in> set (live_partitions ids g) \<and> lp_fresh x \<and> lp_id x = pid)" by auto
  also have "\<dots> \<longleftrightarrow> (\<exists>q s. q \<in> set ids \<and> lg_slots g q = Some s \<and> sl_ir s \<noteq> None \<and> sl_status s = RS_Current \<and> q = pid)"
    unfolding live_partitions_mem by (metis parts)
  finally show ?thesis
    using enumerates_mem [OF assms, of pid] by auto
qed

lemma live_partitions_ts:
  assumes "enumerates ids (lg_slots g)"
  shows "list_ex (\<lambda>p. \<not> lp_ts p) (live_partitions ids g) \<longleftrightarrow> (\<exists>s \<in> ran (lg_slots g). sl_language s \<noteq> TypeScriptPrimary)"
proof -
  have "lp_ts (live_partition_of p s) \<longleftrightarrow> sl_language s = TypeScriptPrimary" for p s
    by (simp add: live_partition_of_def Let_def split_beta)
  then show ?thesis
    using enumerates_mem [OF assms] by (fastforce simp: live_partitions_def list_ex_iff ran_def)
qed

lemma live_state_partitions [simp]: "lc_partitions (module_cycle_live_state ids g) = live_partitions ids g"
  by (simp add: module_cycle_live_state_def)

lemma evaluate_complete:
  "evaluate_module_cycle_completeness live baseline = CompleteForModuleImportCycles \<longleftrightarrow>
     (\<exists>b. baseline = Some b \<and> bl_expected_partition_ids b \<subseteq> set (map lp_id (filter lp_fresh (lc_partitions live))) \<and>
        \<not> bl_has_non_ts_cycle_source b \<and> \<not> list_ex (\<lambda>p. \<not> lp_ts p) (lc_partitions live) \<and>
        \<not> blocking_flags (lc_observation_classes live))"
  by (simp add: evaluate_module_cycle_completeness_def Let_def blocking_flags_def split: option.split)

lemma certified_iff:
  assumes "enumerates ids (lg_slots g)"
  shows "permits_livegraph_default (evaluate_module_cycle_completeness (module_cycle_live_state ids g) baseline) \<longleftrightarrow>
    (\<exists>b. baseline = Some b \<and> \<not> bl_has_non_ts_cycle_source b \<and>
       (\<forall>pid \<in> bl_expected_partition_ids b.
          \<exists>s. lg_slots g pid = Some s \<and> sl_ir s \<noteq> None \<and> sl_status s = RS_Current) \<and>
       (\<forall>s \<in> ran (lg_slots g). sl_language s = TypeScriptPrimary) \<and>
       (\<forall>pid ir. resident_of g pid = Some ir \<longrightarrow>
          list_all (accounted (workspace_packages_of ids g) g ir) (ir_import_observations ir)))"
  unfolding permits_livegraph_default_def evaluate_complete live_state_blocking no_blocking_iff [OF assms]
    live_state_partitions live_partitions_ts [OF assms] subset_iff live_partitions_fresh [OF assms]
  by (auto simp: Ball_def)

text \<open>
  An observation that became an edge: the producer resolved it inside its partition, or an edge of the
  overlay was emitted for it. Such an observation is accounted for; the converse fails for assets and for
  packages from outside the workspace, which cannot close a cycle between modules of the repository.
\<close>

definition import_captured :: "live_graph \<Rightarrow> import_observation \<Rightarrow> bool" where
  "import_captured g obs \<longleftrightarrow> io_resolution obs = StaticResolved \<or>
     io_raw_specifier obs \<noteq> '''' \<and> (\<exists>e \<in> set (lg_overlay g). re_raw_specifier e = io_raw_specifier obs \<and>
       file_key_path (re_src_file_key e) = Some (io_source_file obs))"

lemma captured_accounted: "import_captured g obs \<Longrightarrow> accounted packages g ir obs"
  unfolding import_captured_def accounted_def Let_def
  by (cases "io_resolution obs") simp_all

text \<open>
  A package from outside the workspace does not block the certificate, although it is no edge.
\<close>

lemma external_package_accounted:
  assumes "io_resolution obs = PackageExternal" "pt_tsconfig_aliases (ir_partition ir) = None"
    and "classify_package_import (io_raw_specifier obs) packages (pt_declared_dependencies (ir_partition ir))
      (io_external_node_modules obs) = ExternalPackageNonLocal"
  shows "accounted packages g ir obs"
  using assms by (simp add: accounted_def Let_def)

definition certifiable :: "live_graph \<Rightarrow> baseline_input \<Rightarrow> bool" where
  "certifiable g b \<longleftrightarrow> \<not> bl_has_non_ts_cycle_source b \<and>
     (\<forall>pid \<in> bl_expected_partition_ids b.
        \<exists>s. lg_slots g pid = Some s \<and> sl_ir s \<noteq> None \<and> sl_status s = RS_Current) \<and>
     (\<forall>s \<in> ran (lg_slots g). sl_language s = TypeScriptPrimary)"

section \<open>Properties\<close>

definition demo_baseline :: baseline_input where
  "demo_baseline = \<lparr>bl_expected_partition_ids = {''lib'', ''web''}, bl_has_non_ts_cycle_source = False,
     bl_repo_index_epoch = 7, bl_language_support_version = 1, bl_import_completeness_policy_version = 1\<rparr>"

text \<open>
  C25. When the live graph may answer a module cycle query alone. The certificate permits it only if there
  is a baseline that names no source in another language, every partition the baseline expects is loaded,
  resident and current, every loaded partition is TypeScript, and every import observation of every resident
  partition is accounted for: it became an edge, or is an asset, or is a package from outside the
  workspace that no path alias captures. It does permit it if these conditions hold and every observation
  became an edge. Without a baseline it never does. That all observations are accounted for is the absence of a
  blocking row in the import read-model. If the certificate permits it and, moreover, no partition is
  loaded beyond those the baseline expects, the cycle query answers \<open>Exact\<close> with the cycles of the module imports.
\<close>

theorem certificate_complete_iff:
  assumes "enumerates ids (lg_slots g)"
  shows "(permits_livegraph_default (evaluate_module_cycle_completeness (module_cycle_live_state ids g) (Some b)) \<longrightarrow>
      certifiable g b \<and> (\<forall>pid ir. resident_of g pid = Some ir \<longrightarrow>
        list_all (accounted (workspace_packages_of ids g) g ir) (ir_import_observations ir))) \<and>
    (certifiable g b \<and> (\<forall>pid ir. resident_of g pid = Some ir \<longrightarrow>
        list_all (import_captured g) (ir_import_observations ir)) \<longrightarrow>
      permits_livegraph_default (evaluate_module_cycle_completeness (module_cycle_live_state ids g) (Some b))) \<and>
    \<not> permits_livegraph_default (evaluate_module_cycle_completeness (module_cycle_live_state ids g) None) \<and>
    (\<not> list_ex ov_blocking (lv_observations (live_import_view ids g None)) \<longleftrightarrow>
      (\<forall>pid ir. resident_of g pid = Some ir \<longrightarrow>
         list_all (accounted (workspace_packages_of ids g) g ir) (ir_import_observations ir))) \<and>
    (permits_livegraph_default (evaluate_module_cycle_completeness (module_cycle_live_state ids g) (Some b)) \<and>
      dom (lg_slots g) \<subseteq> bl_expected_partition_ids b \<longrightarrow>
      (\<exists>e d. module_import_cycles ids g = Some (Val e) \<and> env_class e = Exact \<and> env_data e = Some d \<and>
         set ` set (mc_cycles d) = documented_cycles (module_imports g)))"
proof (intro conjI impI)
  let ?permits = "\<lambda>baseline. permits_livegraph_default
    (evaluate_module_cycle_completeness (module_cycle_live_state ids g) baseline)"
  show "certifiable g b" if "?permits (Some b)"
    using that unfolding certified_iff [OF assms] certifiable_def by blast
  show "\<forall>pid ir. resident_of g pid = Some ir \<longrightarrow>
      list_all (accounted (workspace_packages_of ids g) g ir) (ir_import_observations ir)" if "?permits (Some b)"
    using that unfolding certified_iff [OF assms] by blast
  show "?permits (Some b)" if "certifiable g b \<and> (\<forall>pid ir. resident_of g pid = Some ir \<longrightarrow>
      list_all (import_captured g) (ir_import_observations ir))"
    using that captured_accounted unfolding certified_iff [OF assms] certifiable_def list_all_iff by blast
  show "\<not> ?permits None" unfolding certified_iff [OF assms] by simp
  show "\<not> list_ex ov_blocking (lv_observations (live_import_view ids g None)) \<longleftrightarrow>
      (\<forall>pid ir. resident_of g pid = Some ir \<longrightarrow>
         list_all (accounted (workspace_packages_of ids g) g ir) (ir_import_observations ir))"
    unfolding view_blocking by (rule no_blocking_iff [OF assms])
  assume *: "?permits (Some b) \<and> dom (lg_slots g) \<subseteq> bl_expected_partition_ids b"
  then have "uncaptured g = {}" "all_current g"
    unfolding certified_iff [OF assms] by (fastforce simp: uncaptured_def all_current_def ran_def)+
  moreover obtain e d where "module_import_cycles ids g = Some (Val e)" "whole_answer g e d"
    "set ` set (mc_cycles d) = rings (module_imports g)"
    using module_cycles_spec [OF assms, of "\<lambda>_. False"] by (elim exE conjE) (rule that)
  ultimately show "\<exists>e d. module_import_cycles ids g = Some (Val e) \<and> env_class e = Exact \<and> env_data e = Some d \<and>
         set ` set (mc_cycles d) = documented_cycles (module_imports g)"
    unfolding documented_module_cycles by (intro exI [of _ e] exI [of _ d]) (simp add: whole_answer_def)
qed

theorem certificate_complete_iff_witness:
  "certifiable demo_ring demo_baseline \<and>
   (\<exists>e d. module_import_cycles [''lib'', ''web''] demo_ring = Some (Val e) \<and> env_class e = Exact \<and>
     env_data e = Some d \<and> set ` set (mc_cycles d) = documented_cycles (module_imports demo_ring))"
proof -
  have "permits_livegraph_default (evaluate_module_cycle_completeness
      (module_cycle_live_state [''lib'', ''web''] demo_ring) (Some demo_baseline))" by code_simp
  moreover have "dom (lg_slots demo_ring) \<subseteq> bl_expected_partition_ids demo_baseline"
    using demo_graph_slots
    by (auto simp: demo_baseline_def demo_ring_def load_partition_def Let_def split_beta split: if_splits)
  ultimately show ?thesis
    using certificate_complete_iff [OF demo_ring_enumerates, of demo_baseline] by simp
qed

end
