(* ===== verification/Rust_Text.thy ===== *)
theory Rust_Text
  imports Rust_Collections
begin

text \<open>
  The text operations of the standard library that several components use: upper case, trimming and splitting at
  whitespace. They are given for ASCII text; the whitespace of other scripts is not recognized.
\<close>

definition ascii_upper :: "char \<Rightarrow> char" where
  "ascii_upper c = (if is_ascii_lowercase c then char_of ((of_char c :: nat) - 32) else c)"

definition is_whitespace :: "char \<Rightarrow> bool" where
  "is_whitespace c \<longleftrightarrow> (9 \<le> (of_char c :: nat) \<and> (of_char c :: nat) \<le> 13) \<or> (of_char c :: nat) = 32"

definition trim :: "string \<Rightarrow> string" where
  "trim s = rev (dropWhile is_whitespace (rev (dropWhile is_whitespace s)))"

function (sequential) split_whitespace :: "string \<Rightarrow> string list" where
  "split_whitespace [] = []"
| "split_whitespace (c # s) =
     (if is_whitespace c then split_whitespace s
      else (c # takeWhile (\<lambda>x. \<not> is_whitespace x) s) # split_whitespace (dropWhile (\<lambda>x. \<not> is_whitespace x) s))"
  by pat_completeness auto
termination
  by (relation "measure length") (simp_all add: le_imp_less_Suc length_dropWhile_le)

lemma dropWhile_idem: "dropWhile P (dropWhile P xs) = dropWhile P xs"
  by (induction xs) simp_all

lemma trim_Nil_iff: "trim s = [] \<longleftrightarrow> (\<forall>c \<in> set s. is_whitespace c)"
proof -
  have "trim s = [] \<longleftrightarrow> (\<forall>c \<in> set (dropWhile is_whitespace s). is_whitespace c)"
    by (simp add: trim_def)
  also have "\<dots> \<longleftrightarrow> (\<forall>c \<in> set s. is_whitespace c)"
    by (induction s) auto
  finally show ?thesis .
qed

lemma hd_dropWhile_suffix:
  "dropWhile P (rev (dropWhile P (rev (dropWhile P xs)))) = rev (dropWhile P (rev (dropWhile P xs)))"
proof (cases "dropWhile P xs")
  case Nil
  then show ?thesis by (simp only: rev.simps dropWhile.simps)
next
  case (Cons x ys)
  then have "\<not> P x" using hd_dropWhile [of P xs] by simp
  then have "rev (dropWhile P (rev (x # ys))) = x # rev (dropWhile P (rev ys))"
    by (simp add: dropWhile_append)
  then show ?thesis using Cons \<open>\<not> P x\<close> by simp
qed

lemma trim_idem [simp]: "trim (trim s) = trim s"
  unfolding trim_def using hd_dropWhile_suffix [of is_whitespace s] by (simp add: dropWhile_idem)

lemma set_trim: "set (trim s) \<subseteq> set s"
  by (auto simp: trim_def dest!: set_dropWhileD)

text \<open>Where a text is cut at its first or last separator.\<close>

lemma split_first:
  assumes "a @ c # b = a' @ c # b'" "c \<notin> set a" "c \<notin> set a'"
  shows "a = a' \<and> b = b'"
  using assms by (auto simp: append_eq_append_conv2 append_eq_Cons_conv Cons_eq_append_conv)

lemma split_last:
  assumes "a @ c # b = a' @ c # b'" "c \<notin> set b" "c \<notin> set b'"
  shows "a = a' \<and> b = b'"
proof -
  have "rev b @ c # rev a = rev b' @ c # rev a'" using arg_cong [OF assms(1), of rev] by simp
  from split_first [OF this] assms(2,3) show ?thesis by simp
qed

section \<open>Patterns of several characters\<close>

text \<open>\<open>str::split(p)\<close> for a pattern that is not empty; \<open>cur\<close> is the reversed segment read so far.\<close>

function split_str_from :: "string \<Rightarrow> string \<Rightarrow> string \<Rightarrow> string list" where
  "split_str_from p cur [] = [rev cur]"
| "split_str_from p cur (c # cs) =
     (if starts_with (c # cs) p then rev cur # split_str_from p [] (drop (length p - 1) cs)
      else split_str_from p (c # cur) cs)"
  by pat_completeness auto
termination by (relation "measure (\<lambda>(p, cur, s). length s)") auto

definition split_str :: "string \<Rightarrow> string \<Rightarrow> string list" where
  "split_str p s = split_str_from p [] s"

text \<open>What stands before the last occurrence of a pattern, as \<open>rfind\<close> finds it.\<close>

fun before_last_str :: "string \<Rightarrow> string \<Rightarrow> string option" where
  "before_last_str p [] = (if p = [] then Some [] else None)"
| "before_last_str p (c # cs) = (case before_last_str p cs of
     Some pre \<Rightarrow> Some (c # pre)
   | None \<Rightarrow> if starts_with (c # cs) p then Some [] else None)"

text \<open>\<open>trim_start_matches("::")\<close>\<close>

fun trim_start_colons :: "string \<Rightarrow> string" where
  "trim_start_colons (a # b # s) = (if a = CHR '':'' \<and> b = CHR '':'' then trim_start_colons s else a # b # s)"
| "trim_start_colons s = s"

lemma split_str_from_nonempty [simp]: "split_str_from p cur s \<noteq> []"
  by (induction p cur s rule: split_str_from.induct) auto

lemma split_str_nonempty [simp]: "split_str p s \<noteq> []"
  by (simp add: split_str_def)

end
