(* ===== verification/Live_Fingerprint.thy ===== *)
theory Live_Fingerprint
  imports Live_Cert Rust_Text "HOL-Library.Multiset"
begin

text \<open>
  What the fingerprint of a certificate identifies
  (\<open>repo-graph-livegraph/src/module_cycle_cert.rs\<close>, \<open>certificate_inputs_fingerprint\<close>): the text is read
  back field by field, from the right where a field may contain the separators of the fields before it.
\<close>

section \<open>Reading a text back\<close>

definition digits_value :: "string \<Rightarrow> nat" where
  "digits_value s = foldl (\<lambda>n c. 10 * n + (of_char c - 48)) 0 s"

lemma digits_value_show_nat [simp]: "digits_value (show_nat n) = n"
  by (induction n rule: show_nat.induct) (subst show_nat.simps, simp add: digits_value_def)

lemma show_nat_inject [simp]: "show_nat m = show_nat n \<longleftrightarrow> m = n"
  by (metis digits_value_show_nat)

lemma show_nat_digits: "c \<in> set (show_nat n) \<Longrightarrow> 48 \<le> (of_char c :: nat) \<and> (of_char c :: nat) < 58"
proof (induction n rule: show_nat.induct)
  case (1 n)
  then show ?case
    by (subst (asm) (2) show_nat.simps) (auto split: if_splits)
qed

lemma show_nat_no_sep:
  "CHR '':'' \<notin> set (show_nat n)" "CHR ''@'' \<notin> set (show_nat n)" "CHR '','' \<notin> set (show_nat n)"
  "CHR ''|'' \<notin> set (show_nat n)"
  using show_nat_digits [of "CHR '':''" n] show_nat_digits [of "CHR ''@''" n] show_nat_digits [of "CHR ''|''" n]
    show_nat_digits [of "CHR '',''" n] by auto

lemma show_bool_inject [simp]: "show_bool a = show_bool b \<longleftrightarrow> a = b"
  by (simp add: show_bool_def)

lemma show_bool_length [simp]: "length (show_bool b) = 1"
  by (simp add: show_bool_def)

lemma join_with_Nil: "(\<forall>s \<in> set segs. s \<noteq> []) \<Longrightarrow> join_with c segs = [] \<longleftrightarrow> segs = []"
  by (cases "(c, segs)" rule: join_with.cases) auto

lemma join_with_inject:
  assumes "join_with c xs = join_with c ys"
    and "\<forall>s \<in> set xs. s \<noteq> [] \<and> c \<notin> set s" "\<forall>s \<in> set ys. s \<noteq> [] \<and> c \<notin> set s"
  shows "xs = ys"
proof (cases "xs = [] \<or> ys = []")
  case True
  then show ?thesis using assms join_with_Nil [of xs c] join_with_Nil [of ys c] by auto
next
  case False
  then show ?thesis using assms split_join [of xs c] split_join [of ys c] by metis
qed

text \<open>
  A list of entries, printed in sorted order with a separator between them: it determines the entries if the text of each is not
  empty, is free of the separator and determines the entry.
\<close>

locale entry_codec =
  fixes encode :: "'a \<Rightarrow> string" and clean :: "'a \<Rightarrow> bool" and sep :: char
  assumes encode_nonempty: "clean x \<Longrightarrow> encode x \<noteq> []"
    and encode_no_sep: "clean x \<Longrightarrow> sep \<notin> set (encode x)"
    and encode_inject: "clean x \<Longrightarrow> clean y \<Longrightarrow> encode x = encode y \<Longrightarrow> x = y"
begin

lemma entries_determined:
  assumes "join_with sep (sort (map encode xs)) = join_with sep (sort (map encode ys))"
    and "list_all clean xs" "list_all clean ys"
  shows "mset xs = mset ys"
proof -
  have "sort (map encode xs) = sort (map encode ys)"
    using assms encode_nonempty encode_no_sep by (intro join_with_inject) (auto simp: list_all_iff)
  then have "image_mset encode (mset xs) = image_mset encode (mset ys)" by (metis mset_map mset_sort)
  then show ?thesis
    using assms(2,3) encode_inject by (intro multiset.inj_map_strong [of "mset xs" "mset ys" encode]) (auto simp: list_all_iff)
qed

end

section \<open>The fields of a fingerprint\<close>

definition plain_text :: "string \<Rightarrow> bool" where
  "plain_text s \<longleftrightarrow> CHR '','' \<notin> set s \<and> CHR ''|'' \<notin> set s"

definition clean_partition :: "live_partition \<Rightarrow> bool" where
  "clean_partition p \<longleftrightarrow> plain_text (lp_id p) \<and> plain_text (lp_source_inputs_hash p) \<and>
     plain_text (lp_producer_fingerprint p) \<and>
     CHR '':'' \<notin> set (lp_source_inputs_hash p) \<and> CHR '':'' \<notin> set (lp_producer_fingerprint p)"

definition clean_baseline :: "baseline_input \<Rightarrow> bool" where
  "clean_baseline b \<longleftrightarrow> finite (bl_expected_partition_ids b) \<and>
     (\<forall>pid \<in> bl_expected_partition_ids b. pid \<noteq> '''' \<and> CHR '','' \<notin> set pid)"

definition clean_inputs :: "live_cycle_state \<Rightarrow> baseline_input option \<Rightarrow> bool" where
  "clean_inputs live baseline \<longleftrightarrow> list_all clean_partition (lc_partitions live) \<and>
     (case baseline of None \<Rightarrow> True | Some b \<Rightarrow> clean_baseline b)"

lemma show_bool_no_sep [simp]: "c \<in> set (show_bool b) \<Longrightarrow> c = CHR ''0'' \<or> c = CHR ''1''"
  by (auto simp: show_bool_def split: if_splits)

lemma partition_fingerprint_inject:
  assumes "clean_partition p" "clean_partition q" "partition_fingerprint p = partition_fingerprint q"
  shows "p = q"
proof -
  let ?flags = "\<lambda>p. '':f'' @ show_bool (lp_fresh p) @ '':ts'' @ show_bool (lp_ts p)"
  let ?front = "\<lambda>p. lp_id p @ CHR ''@'' # show_nat (unat (lp_epoch p))"
  have shape: "partition_fingerprint p = ((?front p @ ?flags p) @ CHR '':'' # lp_source_inputs_hash p) @
      CHR '':'' # lp_producer_fingerprint p" for p
    by (simp add: partition_fingerprint_def)
  from assms(3) have "(?front p @ ?flags p) @ CHR '':'' # lp_source_inputs_hash p =
      (?front q @ ?flags q) @ CHR '':'' # lp_source_inputs_hash q" and fp: "lp_producer_fingerprint p = lp_producer_fingerprint q"
    unfolding shape using split_last assms(1,2) by (metis clean_partition_def)+
  from split_last [OF this(1)] assms(1,2)
  have "?front p @ ?flags p = ?front q @ ?flags q" and hash: "lp_source_inputs_hash p = lp_source_inputs_hash q"
    by (simp_all add: clean_partition_def)
  moreover have "length (?flags p) = length (?flags q)" by simp
  ultimately have "?front p = ?front q" and flags: "?flags p = ?flags q"
    using append_eq_append_conv by blast+
  from split_last [OF this(1)] have "lp_id p = lp_id q" "lp_epoch p = lp_epoch q"
    by (simp_all add: show_nat_no_sep word_unat_eq_iff)
  moreover from flags have "lp_fresh p = lp_fresh q" "lp_ts p = lp_ts q"
    by (simp_all add: show_bool_def split: if_splits)
  ultimately show ?thesis using fp hash by simp
qed

lemma partition_fingerprint_plain:
  assumes "clean_partition p"
  shows "CHR '','' \<notin> set (partition_fingerprint p)" "CHR ''|'' \<notin> set (partition_fingerprint p)"
  using assms
  by (auto simp: partition_fingerprint_def clean_partition_def plain_text_def show_nat_no_sep dest: show_bool_no_sep)

interpretation partition_codec: entry_codec partition_fingerprint clean_partition "CHR '',''"
proof unfold_locales
  show "clean_partition x \<Longrightarrow> partition_fingerprint x \<noteq> []" for x by (simp add: partition_fingerprint_def)
qed (simp_all add: partition_fingerprint_plain partition_fingerprint_inject)

interpretation expected_codec: entry_codec "\<lambda>s. s" "\<lambda>s. s \<noteq> '''' \<and> CHR '','' \<notin> set s" "CHR '',''"
  by unfold_locales simp_all

lemma expected_determined:
  assumes "join_with (CHR '','') (sorted_list_of_set A) = join_with (CHR '','') (sorted_list_of_set B)"
    and "finite A" "finite B" "\<forall>s \<in> A. s \<noteq> '''' \<and> CHR '','' \<notin> set s" "\<forall>s \<in> B. s \<noteq> '''' \<and> CHR '','' \<notin> set s"
  shows "A = B"
proof -
  have "mset (sorted_list_of_set A) = mset (sorted_list_of_set B)"
    using assms by (intro expected_codec.entries_determined) (simp_all add: list_all_iff sorted_sort_id)
  then have "set (sorted_list_of_set A) = set (sorted_list_of_set B)" by (rule mset_eq_setD)
  with assms(2,3) show ?thesis by simp
qed

lemma observations_fingerprint_length: "length (observations_fingerprint s) = length (observations_fingerprint t)"
  by (simp add: observations_fingerprint_def)

lemma observations_fingerprint_inject:
  assumes "observations_fingerprint s = observations_fingerprint t"
  shows "s = t"
  using assms by (simp add: observations_fingerprint_def show_bool_def split: if_splits)

lemma numeric_fields_inject:
  fixes a a' :: u64 and b b' c c' :: u32
  assumes "x @ '':ie'' @ show_nat (unat a) @ '':lv'' @ show_nat (unat b) @ '':ip'' @ show_nat (unat c) =
      y @ '':ie'' @ show_nat (unat a') @ '':lv'' @ show_nat (unat b') @ '':ip'' @ show_nat (unat c')"
  shows "x = y \<and> a = a' \<and> b = b' \<and> c = c'"
proof -
  let ?l = "x @ CHR '':'' # ''ie'' @ show_nat (unat a)" and ?r = "y @ CHR '':'' # ''ie'' @ show_nat (unat a')"
  from assms have "(?l @ CHR '':'' # ''lv'' @ show_nat (unat b)) @ CHR '':'' # ''ip'' @ show_nat (unat c) =
      (?r @ CHR '':'' # ''lv'' @ show_nat (unat b')) @ CHR '':'' # ''ip'' @ show_nat (unat c')" by simp
  from split_last [OF this] have "?l @ CHR '':'' # ''lv'' @ show_nat (unat b) = ?r @ CHR '':'' # ''lv'' @ show_nat (unat b')"
    and c: "c = c'" by (simp_all add: show_nat_no_sep word_unat_eq_iff)
  from split_last [OF this(1)] have "?l = ?r" and b: "b = b'" by (simp_all add: show_nat_no_sep word_unat_eq_iff)
  from split_last [OF this(1)] have "x = y" "a = a'" by (simp_all add: show_nat_no_sep word_unat_eq_iff)
  with b c show ?thesis by simp
qed

lemma baseline_fingerprint_inject:
  assumes "baseline_fingerprint x = baseline_fingerprint y"
    and "\<And>b. x = Some b \<Longrightarrow> clean_baseline b" "\<And>b. y = Some b \<Longrightarrow> clean_baseline b"
  shows "x = y"
proof (cases x; cases y)
  fix b b' assume xy: "x = Some b" "y = Some b'"
  let ?front = "\<lambda>b. join_with (CHR '','') (sorted_list_of_set (bl_expected_partition_ids b)) @
      '':nts'' @ show_bool (bl_has_non_ts_cycle_source b)"
  from assms(1) xy have "?front b @ '':ie'' @ show_nat (unat (bl_repo_index_epoch b)) @
      '':lv'' @ show_nat (unat (bl_language_support_version b)) @
      '':ip'' @ show_nat (unat (bl_import_completeness_policy_version b)) =
    ?front b' @ '':ie'' @ show_nat (unat (bl_repo_index_epoch b')) @
      '':lv'' @ show_nat (unat (bl_language_support_version b')) @
      '':ip'' @ show_nat (unat (bl_import_completeness_policy_version b'))"
    by (simp add: baseline_fingerprint_def)
  from numeric_fields_inject [OF this] have front: "?front b = ?front b'"
    and "bl_repo_index_epoch b = bl_repo_index_epoch b'"
    "bl_language_support_version b = bl_language_support_version b'"
    "bl_import_completeness_policy_version b = bl_import_completeness_policy_version b'" by simp_all
  moreover from front have
    "join_with (CHR '','') (sorted_list_of_set (bl_expected_partition_ids b)) =
       join_with (CHR '','') (sorted_list_of_set (bl_expected_partition_ids b'))"
    "bl_has_non_ts_cycle_source b = bl_has_non_ts_cycle_source b'"
    by (simp_all add: show_bool_def split: if_splits)
  moreover from this(1) assms(2,3) xy have "bl_expected_partition_ids b = bl_expected_partition_ids b'"
    by (intro expected_determined) (simp_all add: clean_baseline_def)
  ultimately show "x = y" using xy by simp
qed (use assms(1) in \<open>simp_all add: baseline_fingerprint_def\<close>)

lemma join_with_plain:
  "(\<forall>s \<in> set segs. c \<notin> set s) \<Longrightarrow> c \<noteq> d \<Longrightarrow> c \<notin> set (join_with d segs)"
  by (induction d segs rule: join_with.induct) auto

lemma evaluate_cong:
  assumes "set (lc_partitions l) = set (lc_partitions m)" "lc_observation_classes l = lc_observation_classes m"
  shows "evaluate_module_cycle_completeness l b = evaluate_module_cycle_completeness m b"
  using assms by (simp add: evaluate_module_cycle_completeness_def Let_def list_ex_iff split: option.split)

lemma parts_plain:
  "list_all clean_partition ps \<Longrightarrow>
     CHR ''|'' \<notin> set (''parts['' @ join_with (CHR '','') (sort (map partition_fingerprint ps)) @ '']'')"
  using join_with_plain [of "sort (map partition_fingerprint ps)" "CHR ''|''" "CHR '',''"]
  by (auto simp: list_all_iff partition_fingerprint_plain)

lemma baseline_fingerprint_shape: "\<exists>r. baseline_fingerprint b = CHR ''|'' # r"
  by (simp add: baseline_fingerprint_def split: option.split)

section \<open>Properties\<close>

text \<open>
  A fingerprint identifies the inputs of a certificate. Let no hash, producer or identifier of a partition contain a
  comma or a bar, no hash or producer a colon, and let the expected identifiers be non-empty and free of
  commas. Then two equal fingerprints come from the same partitions, with their epochs, freshness, languages, hashes and producers,
  the same observation classes and the same baseline, so the certificate they identify has the same verdict: a cached verdict under an
  unchanged fingerprint is still the verdict.
\<close>

theorem fingerprint_determines_inputs:
  assumes "clean_inputs live baseline" "clean_inputs live' baseline'"
    and "certificate_inputs_fingerprint live baseline = certificate_inputs_fingerprint live' baseline'"
  shows "mset (lc_partitions live) = mset (lc_partitions live') \<and>
    lc_observation_classes live = lc_observation_classes live' \<and> baseline = baseline' \<and>
    evaluate_module_cycle_completeness live baseline = evaluate_module_cycle_completeness live' baseline'"
proof -
  let ?o = "\<lambda>l. observations_fingerprint (lc_observation_classes l)"
  let ?p = "\<lambda>l. ''parts['' @ join_with (CHR '','') (sort (map partition_fingerprint (lc_partitions l))) @ '']''"
  obtain r r' where r: "baseline_fingerprint baseline = CHR ''|'' # r" "baseline_fingerprint baseline' = CHR ''|'' # r'"
    using baseline_fingerprint_shape by metis
  have clean: "list_all clean_partition (lc_partitions live)" "list_all clean_partition (lc_partitions live')"
    using assms(1,2) by (simp_all add: clean_inputs_def)
  from assms(3) r have "?o live @ CHR ''|'' # ?p live @ CHR ''|'' # r = ?o live' @ CHR ''|'' # ?p live' @ CHR ''|'' # r'"
    by (simp add: certificate_inputs_fingerprint_def)
  then have obs: "?o live = ?o live'" and "?p live @ CHR ''|'' # r = ?p live' @ CHR ''|'' # r'"
    by (simp_all add: append_eq_append_conv [OF disjI1, OF observations_fingerprint_length])
  from split_first [OF this(2) parts_plain parts_plain] clean
  have parts: "join_with (CHR '','') (sort (map partition_fingerprint (lc_partitions live))) =
      join_with (CHR '','') (sort (map partition_fingerprint (lc_partitions live')))" and rr: "r = r'" by simp_all
  have "mset (lc_partitions live) = mset (lc_partitions live')"
    using partition_codec.entries_determined [OF parts clean] .
  moreover have "lc_observation_classes live = lc_observation_classes live'"
    using obs by (rule observations_fingerprint_inject)
  moreover have "baseline = baseline'"
    using assms(1,2) r rr by (intro baseline_fingerprint_inject) (simp_all add: clean_inputs_def)
  moreover have "set (lc_partitions live) = set (lc_partitions live')" using calculation(1) by (rule mset_eq_setD)
  ultimately show ?thesis by (simp add: evaluate_cong [of live live'])
qed

theorem fingerprint_determines_inputs_witness:
  "certificate_inputs_fingerprint (module_cycle_live_state [''lib'', ''web''] demo_ring) (Some demo_baseline) \<noteq>
   certificate_inputs_fingerprint (module_cycle_live_state [''lib'', ''web''] demo_graph) (Some demo_baseline)"
proof
  let ?l = "module_cycle_live_state [''lib'', ''web'']"
  assume "certificate_inputs_fingerprint (?l demo_ring) (Some demo_baseline) =
    certificate_inputs_fingerprint (?l demo_graph) (Some demo_baseline)"
  moreover have "list_all clean_partition (lc_partitions (?l demo_ring))"
    "list_all clean_partition (lc_partitions (?l demo_graph))" by code_simp+
  then have "clean_inputs (?l demo_ring) (Some demo_baseline)" "clean_inputs (?l demo_graph) (Some demo_baseline)"
    by (simp_all add: clean_inputs_def clean_baseline_def demo_baseline_def)
  ultimately have "mset (lc_partitions (?l demo_ring)) = mset (lc_partitions (?l demo_graph))"
    using fingerprint_determines_inputs by blast
  then have "set (map lp_epoch (lc_partitions (?l demo_ring))) = set (map lp_epoch (lc_partitions (?l demo_graph)))"
    by (metis mset_map mset_eq_setD)
  moreover have "set (map lp_epoch (lc_partitions (?l demo_ring))) \<noteq> set (map lp_epoch (lc_partitions (?l demo_graph)))"
    by code_simp
  ultimately show False by contradiction
qed

text \<open>
  Without the condition on commas the fingerprint does not separate inputs: the expected partitions
  \<open>a\<close> and \<open>b\<close> print as the single expected partition \<open>a,b\<close>, with another verdict.
\<close>

definition comma_baseline :: "string set \<Rightarrow> baseline_input" where
  "comma_baseline expected = demo_baseline\<lparr>bl_expected_partition_ids := expected\<rparr>"

definition comma_state :: live_cycle_state where
  "comma_state = \<lparr>lc_partitions = map (\<lambda>pid. \<lparr>lp_id = pid, lp_epoch = 1, lp_fresh = True, lp_ts = True,
     lp_source_inputs_hash = '''', lp_producer_fingerprint = ''''\<rparr>) [''a'', ''b''],
     lc_observation_classes = no_observations\<rparr>"

lemma fingerprint_comma_collision:
  "certificate_inputs_fingerprint comma_state (Some (comma_baseline {''a'', ''b''})) =
     certificate_inputs_fingerprint comma_state (Some (comma_baseline {''a,b''}))"
  "evaluate_module_cycle_completeness comma_state (Some (comma_baseline {''a'', ''b''})) = CompleteForModuleImportCycles"
  "evaluate_module_cycle_completeness comma_state (Some (comma_baseline {''a,b''})) = IncompleteMissingPartitions"
  by code_simp+

end
