(* ===== verification/Live_Compare.thy ===== *)
theory Live_Compare
  imports Live_Cycles
begin

text \<open>
  Comparing the module cycles of the live graph with those of the stored graph and naming a cause for
  every difference (\<open>repo-graph-livegraph/src/module_cycle_compare.rs\<close>), and the observations by module it is fed with
  (\<open>lib.rs\<close>, \<open>import_observations_by_module\<close>). A \<open>BTreeSet\<close> is a set and is iterated in ascending order.
\<close>

section \<open>The comparison\<close>

definition canonical :: "string list \<Rightarrow> string list" where
  "canonical cycle = sorted_list_of_set (set cycle)"

definition canonical_set :: "string list list \<Rightarrow> string list set" where
  "canonical_set cs = set (map canonical cs)"

record module_cycle_comparison =
  cmp_matched :: "string list list"
  cmp_missing_in_livegraph :: "string list list"
  cmp_extra_in_livegraph :: "string list list"

definition is_exact :: "module_cycle_comparison \<Rightarrow> bool" where
  "is_exact c \<longleftrightarrow> cmp_missing_in_livegraph c = [] \<and> cmp_extra_in_livegraph c = []"

definition is_livegraph_subset :: "module_cycle_comparison \<Rightarrow> bool" where
  "is_livegraph_subset c \<longleftrightarrow> cmp_extra_in_livegraph c = []"

definition compare_module_cycles :: "string list list \<Rightarrow> string list list \<Rightarrow> module_cycle_comparison" where
  "compare_module_cycles livegraph sqlite =
     (let lg = canonical_set livegraph; sq = canonical_set sqlite
      in \<lparr>cmp_matched = sorted_list_of_set (lg \<inter> sq),
          cmp_missing_in_livegraph = sorted_list_of_set (sq - lg),
          cmp_extra_in_livegraph = sorted_list_of_set (lg - sq)\<rparr>)"

section \<open>The causes\<close>

datatype module_cycle_divergence =
    MissingDueToPackageExternal | MissingDueToDynamicImport | MissingDueToStaticUnresolved
  | MissingDueToUnloadedOrNonTsPartition | ModuleIdentityMismatch | UnexpectedExtraInLiveGraph
  | UnknownDivergence

definition divergence_as_str :: "module_cycle_divergence \<Rightarrow> string" where
  "divergence_as_str d = (case d of
     MissingDueToPackageExternal \<Rightarrow> ''MissingDueToPackageExternal''
   | MissingDueToDynamicImport \<Rightarrow> ''MissingDueToDynamicImport''
   | MissingDueToStaticUnresolved \<Rightarrow> ''MissingDueToStaticUnresolved''
   | MissingDueToUnloadedOrNonTsPartition \<Rightarrow> ''MissingDueToUnloadedOrNonTsPartition''
   | ModuleIdentityMismatch \<Rightarrow> ''ModuleIdentityMismatch''
   | UnexpectedExtraInLiveGraph \<Rightarrow> ''UnexpectedExtraInLiveGraph''
   | UnknownDivergence \<Rightarrow> ''UnknownDivergence'')"

datatype obs_resolution = OR_StaticResolved | OR_StaticUnresolved | OR_PackageExternal | OR_DynamicUnsupported

record observation_view =
  ow_raw_specifier :: string
  ow_resolution :: obs_resolution
  ow_is_re_export :: bool
  ow_is_type_only :: bool

definition is_near_variant :: "string \<Rightarrow> string \<Rightarrow> bool" where
  "is_near_variant lg m \<longleftrightarrow> starts_with lg (m @ ''/'') \<or> starts_with m (lg @ ''/'')"

text \<open>One observation of the loop over the cycle's modules: the three flags it may set.\<close>

definition gap_step ::
  "string set \<Rightarrow> string \<Rightarrow> bool \<times> bool \<times> bool \<Rightarrow> observation_view \<Rightarrow> bool \<times> bool \<times> bool" where
  "gap_step cycle m flags o' = (case flags of (has_static_bridge, has_package, has_dynamic) \<Rightarrow>
     (case ow_resolution o' of
        OR_StaticResolved \<Rightarrow> (has_static_bridge, has_package, has_dynamic)
      | OR_StaticUnresolved \<Rightarrow>
          (let target_module = dirname (normalize_join m (ow_raw_specifier o'))
           in if target_module \<noteq> m \<and> target_module \<in> cycle then (True, has_package, has_dynamic)
              else (has_static_bridge, has_package, has_dynamic))
      | OR_PackageExternal \<Rightarrow> (has_static_bridge, True, has_dynamic)
      | OR_DynamicUnsupported \<Rightarrow> (has_static_bridge, has_package, True)))"

definition module_gaps ::
  "string set \<Rightarrow> (string \<rightharpoonup> observation_view list) \<Rightarrow> bool \<times> bool \<times> bool \<Rightarrow> string \<Rightarrow> bool \<times> bool \<times> bool" where
  "module_gaps cycle observations_by_module flags m = (case observations_by_module m of
     None \<Rightarrow> flags
   | Some obs \<Rightarrow> foldl (gap_step cycle m) flags obs)"

definition classify_missing_module_cycle ::
  "string set \<Rightarrow> (string \<rightharpoonup> observation_view list) \<Rightarrow> string set \<Rightarrow> module_cycle_divergence" where
  "classify_missing_module_cycle cycle observations_by_module livegraph_modules =
     (case List.find (\<lambda>m. m \<notin> livegraph_modules) (sorted_list_of_set cycle) of
        Some m \<Rightarrow> (if \<exists>lg \<in> livegraph_modules. is_near_variant lg m then ModuleIdentityMismatch
                   else MissingDueToUnloadedOrNonTsPartition)
      | None \<Rightarrow>
          (case foldl (module_gaps cycle observations_by_module) (False, False, False) (sorted_list_of_set cycle) of
             (has_static_bridge, has_package, has_dynamic) \<Rightarrow>
               if has_static_bridge then MissingDueToStaticUnresolved
               else if has_package \<and> \<not> has_dynamic then MissingDueToPackageExternal
               else if \<not> has_package \<and> has_dynamic then MissingDueToDynamicImport
               else UnknownDivergence))"

record classified_divergence =
  cd_cycle :: "string list"
  cd_kind :: module_cycle_divergence

definition classify_divergences ::
  "module_cycle_comparison \<Rightarrow> (string list \<Rightarrow> module_cycle_divergence) \<Rightarrow> classified_divergence list" where
  "classify_divergences cmp classify_missing =
     map (\<lambda>c. \<lparr>cd_cycle = c, cd_kind = UnexpectedExtraInLiveGraph\<rparr>) (cmp_extra_in_livegraph cmp) @
     map (\<lambda>c. \<lparr>cd_cycle = c, cd_kind = classify_missing c\<rparr>) (cmp_missing_in_livegraph cmp)"

section \<open>The observations by module\<close>

definition obs_resolution_of :: "import_resolution \<Rightarrow> obs_resolution" where
  "obs_resolution_of r = (case r of
     StaticResolved \<Rightarrow> OR_StaticResolved | StaticUnresolved \<Rightarrow> OR_StaticUnresolved
   | PackageExternal \<Rightarrow> OR_PackageExternal | DynamicUnsupported \<Rightarrow> OR_DynamicUnsupported)"

definition observation_view_of :: "import_observation \<Rightarrow> observation_view" where
  "observation_view_of o' = \<lparr>ow_raw_specifier = io_raw_specifier o', ow_resolution = obs_resolution_of (io_resolution o'),
     ow_is_re_export = io_is_re_export o', ow_is_type_only = io_is_type_only o'\<rparr>"

definition by_module_step ::
  "(string \<rightharpoonup> observation_view list) \<Rightarrow> import_observation \<Rightarrow> (string \<rightharpoonup> observation_view list)" where
  "by_module_step out o' = (let module = dirname (io_source_file o') in
     if module = '''' then out
     else out(module \<mapsto> (case out module of None \<Rightarrow> [] | Some vs \<Rightarrow> vs) @ [observation_view_of o']))"

definition import_observations_by_module :: "string list \<Rightarrow> live_graph \<Rightarrow> (string \<rightharpoonup> observation_view list)" where
  "import_observations_by_module ids g =
     foldl by_module_step (\<lambda>_. None) (concat (map ir_import_observations (resident_list ids (lg_slots g))))"

section \<open>What the comparison says\<close>

lemma canonical_eq [simp]: "canonical c = canonical d \<longleftrightarrow> set c = set d"
  unfolding canonical_def by (metis List.finite_set set_sorted_list_of_set)

lemma set_canonical [simp]: "set (canonical c) = set c"
  by (simp add: canonical_def)

lemma canonical_set_image: "set ` canonical_set cs = set ` set cs"
  by (simp add: canonical_set_def image_image)

lemma canonical_set_inj: "inj_on set (canonical_set lg \<union> canonical_set sq)"
  by (rule inj_onI) (auto simp: canonical_set_def)

lemma canonical_set_finite [simp]: "finite (canonical_set cs)"
  by (simp add: canonical_set_def)

lemma canonical_set_mono: "canonical_set lg \<subseteq> canonical_set sq \<longleftrightarrow> set ` set lg \<subseteq> set ` set sq"
  by (auto simp: canonical_set_def image_subset_iff image_iff)

lemma comparison_lists:
  "set ` set (cmp_matched (compare_module_cycles lg sq)) = set ` set lg \<inter> set ` set sq"
  "set ` set (cmp_missing_in_livegraph (compare_module_cycles lg sq)) = set ` set sq - set ` set lg"
  "set ` set (cmp_extra_in_livegraph (compare_module_cycles lg sq)) = set ` set lg - set ` set sq"
proof -
  note inj = canonical_set_inj [of lg sq]
  have "set ` (canonical_set sq - canonical_set lg) = set ` canonical_set sq - set ` canonical_set lg"
    "set ` (canonical_set lg - canonical_set sq) = set ` canonical_set lg - set ` canonical_set sq"
    by (rule inj_on_image_set_diff [OF inj]; blast)+
  then show "set ` set (cmp_matched (compare_module_cycles lg sq)) = set ` set lg \<inter> set ` set sq"
    "set ` set (cmp_missing_in_livegraph (compare_module_cycles lg sq)) = set ` set sq - set ` set lg"
    "set ` set (cmp_extra_in_livegraph (compare_module_cycles lg sq)) = set ` set lg - set ` set sq"
    by (simp_all add: compare_module_cycles_def Let_def canonical_set_image inj_on_image_Int [OF inj])
qed

lemma is_exact_iff: "is_exact (compare_module_cycles lg sq) \<longleftrightarrow> set ` set lg = set ` set sq"
  by (simp add: is_exact_def compare_module_cycles_def Let_def canonical_set_mono) blast

lemma is_livegraph_subset_iff: "is_livegraph_subset (compare_module_cycles lg sq) \<longleftrightarrow> set ` set lg \<subseteq> set ` set sq"
  using canonical_set_mono [of lg sq] by (simp add: is_livegraph_subset_def compare_module_cycles_def Let_def)

lemma classify_divergences_Nil: "classify_divergences cmp f = [] \<longleftrightarrow> is_exact cmp"
  by (auto simp: classify_divergences_def is_exact_def)

section \<open>What a cause rests on\<close>

text \<open>A module's observations, over all resident partitions.\<close>

definition module_observes :: "live_graph \<Rightarrow> string \<Rightarrow> import_observation \<Rightarrow> bool" where
  "module_observes g m obs \<longleftrightarrow> m \<noteq> '''' \<and> dirname (io_source_file obs) = m \<and>
     (\<exists>pid ir. resident_of g pid = Some ir \<and> obs \<in> set (ir_import_observations ir))"

definition views_of :: "(string \<rightharpoonup> observation_view list) \<Rightarrow> string \<Rightarrow> observation_view list" where
  "views_of obs m = (case obs m of None \<Rightarrow> [] | Some vs \<Rightarrow> vs)"

lemma by_module_fold:
  "views_of (foldl by_module_step out os) m = views_of out m @
     map observation_view_of (filter (\<lambda>obs. m \<noteq> '''' \<and> dirname (io_source_file obs) = m) os)"
proof (induction os arbitrary: out)
  case (Cons obs os)
  show ?case unfolding foldl.simps Cons.IH by (simp add: by_module_step_def Let_def views_of_def)
qed simp

lemma observations_by_module_set:
  assumes "enumerates ids (lg_slots g)"
  shows "set (views_of (import_observations_by_module ids g) m) =
    observation_view_of ` {obs. module_observes g m obs}"
proof -
  have "set (views_of (import_observations_by_module ids g) m) =
      observation_view_of ` {obs. m \<noteq> '''' \<and> dirname (io_source_file obs) = m \<and>
        (\<exists>ir \<in> set (resident_list ids (lg_slots g)). obs \<in> set (ir_import_observations ir))}"
    unfolding import_observations_by_module_def by_module_fold by (auto simp: views_of_def)
  also have "\<dots> = observation_view_of ` {obs. module_observes g m obs}"
    unfolding resident_list_set [OF assms] module_observes_def by auto
  finally show ?thesis .
qed

definition view_bridges :: "string set \<Rightarrow> string \<Rightarrow> observation_view \<Rightarrow> bool" where
  "view_bridges cycle m v \<longleftrightarrow> ow_resolution v = OR_StaticUnresolved \<and>
     dirname (normalize_join m (ow_raw_specifier v)) \<in> cycle - {m}"

lemma gap_fold:
  "foldl (gap_step cycle m) (s, p, d) vs =
     (s \<or> (\<exists>v \<in> set vs. view_bridges cycle m v), p \<or> (\<exists>v \<in> set vs. ow_resolution v = OR_PackageExternal),
      d \<or> (\<exists>v \<in> set vs. ow_resolution v = OR_DynamicUnsupported))"
proof (induction vs arbitrary: s p d)
  case (Cons v vs)
  have "gap_step cycle m (s, p, d) v = (s \<or> view_bridges cycle m v, p \<or> ow_resolution v = OR_PackageExternal,
      d \<or> ow_resolution v = OR_DynamicUnsupported)"
    by (cases "ow_resolution v") (auto simp: gap_step_def Let_def view_bridges_def)
  then show ?case by (simp add: Cons.IH disj_assoc)
qed simp

lemma module_gaps_fold:
  "foldl (module_gaps cycle obs) (s, p, d) ms =
     (s \<or> (\<exists>m \<in> set ms. \<exists>v \<in> set (views_of obs m). view_bridges cycle m v),
      p \<or> (\<exists>m \<in> set ms. \<exists>v \<in> set (views_of obs m). ow_resolution v = OR_PackageExternal),
      d \<or> (\<exists>m \<in> set ms. \<exists>v \<in> set (views_of obs m). ow_resolution v = OR_DynamicUnsupported))"
proof (induction ms arbitrary: s p d)
  case (Cons m ms)
  have "module_gaps cycle obs (s, p, d) m =
     (s \<or> (\<exists>v \<in> set (views_of obs m). view_bridges cycle m v),
      p \<or> (\<exists>v \<in> set (views_of obs m). ow_resolution v = OR_PackageExternal),
      d \<or> (\<exists>v \<in> set (views_of obs m). ow_resolution v = OR_DynamicUnsupported))"
    by (cases "obs m") (simp_all add: module_gaps_def gap_fold views_of_def)
  then show ?case by (simp add: Cons.IH disj_assoc)
qed simp

text \<open>
  The cause of a missing cycle, from the modules and observations of the live graph: the least module of
  the cycle that is not resident decides first, then a relative import into another module of the cycle,
  then the only class of imports that leave the captured graph.
\<close>

definition cause_of :: "live_graph \<Rightarrow> string set \<Rightarrow> string set \<Rightarrow> module_cycle_divergence" where
  "cause_of g modules cycle =
     (let seen = (\<lambda>r. \<exists>m \<in> cycle. \<exists>obs. module_observes g m obs \<and> io_resolution obs = r);
          bridge = (\<exists>m \<in> cycle. \<exists>obs. module_observes g m obs \<and> io_resolution obs = StaticUnresolved \<and>
            dirname (normalize_join m (io_raw_specifier obs)) \<in> cycle - {m})
      in if \<not> cycle \<subseteq> modules
         then (if \<exists>lg \<in> modules. is_near_variant lg (Min (cycle - modules)) then ModuleIdentityMismatch
               else MissingDueToUnloadedOrNonTsPartition)
         else if bridge then MissingDueToStaticUnresolved
         else if seen PackageExternal \<and> \<not> seen DynamicUnsupported then MissingDueToPackageExternal
         else if \<not> seen PackageExternal \<and> seen DynamicUnsupported then MissingDueToDynamicImport
         else UnknownDivergence)"

lemma find_filter: "List.find P xs = (case filter P xs of [] \<Rightarrow> None | x # _ \<Rightarrow> Some x)"
  by (induction xs) simp_all

lemma find_sorted:
  assumes "finite A"
  shows "List.find P (sorted_list_of_set A) = (if \<exists>x \<in> A. P x then Some (Min {x \<in> A. P x}) else None)"
proof -
  have "filter P (sorted_list_of_set A) = sorted_list_of_set {x \<in> A. P x}"
    using assms by (intro sorted_distinct_set_unique) (simp_all add: sorted_filter [of "\<lambda>x. x", simplified])
  then have find: "List.find P (sorted_list_of_set A) =
      (case sorted_list_of_set {x \<in> A. P x} of [] \<Rightarrow> None | x # _ \<Rightarrow> Some x)" by (simp add: find_filter)
  show ?thesis
  proof (cases "{x \<in> A. P x} = {}")
    case False
    then show ?thesis using assms by (auto simp: find sorted_list_of_set_nonempty)
  next
    case True
    then have "\<not> (\<exists>x \<in> A. P x)" by blast
    then show ?thesis unfolding find True by simp
  qed
qed

lemma view_resolution:
  "ow_resolution (observation_view_of obs) = OR_PackageExternal \<longleftrightarrow> io_resolution obs = PackageExternal"
  "ow_resolution (observation_view_of obs) = OR_DynamicUnsupported \<longleftrightarrow> io_resolution obs = DynamicUnsupported"
  "view_bridges cycle m (observation_view_of obs) \<longleftrightarrow> io_resolution obs = StaticUnresolved \<and>
     dirname (normalize_join m (io_raw_specifier obs)) \<in> cycle - {m}"
  by (cases "io_resolution obs"; simp add: observation_view_of_def obs_resolution_of_def view_bridges_def)+

lemma classify_missing_cause:
  assumes "enumerates ids (lg_slots g)" "finite cycle"
  shows "classify_missing_module_cycle cycle (import_observations_by_module ids g) modules = cause_of g modules cycle"
proof -
  have "{m \<in> cycle. m \<notin> modules} = cycle - modules" by blast
  with assms(2) have find: "List.find (\<lambda>m. m \<notin> modules) (sorted_list_of_set cycle) =
      (if cycle \<subseteq> modules then None else Some (Min (cycle - modules)))"
    by (simp add: find_sorted) blast
  let ?V = "\<lambda>m. set (views_of (import_observations_by_module ids g) m)"
  have views: "(\<exists>v \<in> ?V m. Q v) \<longleftrightarrow> (\<exists>obs. module_observes g m obs \<and> Q (observation_view_of obs))" for m Q
    unfolding observations_by_module_set [OF assms(1)] by blast
  show ?thesis
    unfolding classify_missing_module_cycle_def find cause_of_def module_gaps_fold views view_resolution Let_def
    by (cases "cycle \<subseteq> modules")
      (simp_all only: if_True if_False not_True_eq_False not_False_eq_True option.case prod.case simp_thms
        set_sorted_list_of_set [OF assms(2)])
qed

section \<open>Live rings and stored rings\<close>

lemma rings_mono:
  assumes "E \<subseteq> F" "C \<in> rings E"
  shows "\<exists>D \<in> rings F. C \<subseteq> D"
proof -
  obtain u v where uv: "v \<noteq> u" "v \<in> mutual E u" "C = mutual E u" using assms(2) by (auto simp: rings_def)
  have "mutual E u \<subseteq> mutual F u" using rtrancl_mono [OF assms(1)] by (auto simp: mutual_def)
  with uv show ?thesis by (intro bexI [of _ "mutual F u"]) (auto simp: rings_def)
qed

lemma rings_overlap:
  assumes "C \<in> rings E" "D \<in> rings E" "x \<in> C" "x \<in> D"
  shows "C = D"
  using assms by (auto simp: rings_def mutual_def intro: rtrancl_trans)

section \<open>Properties\<close>

text \<open>
  The comparison of cycles is by sets of modules, and every difference has a cause. The comparison of the live
  module cycles with a list of stored cycles is exact exactly if the stored ones are the rings of the module
  imports, each in some order, and the list of divergences is empty exactly then; the missing and extra cycles are
  the two set differences. The cause given to a missing cycle is the one its evidence supports: an absent module with or
  without a near variant, else an unresolved relative import from one module of the cycle into another, else
  package imports or dynamic imports if only one of the two occurs, else unknown.
\<close>

theorem cycle_comparison_correct:
  assumes "enumerates ids (lg_slots g)" "module_import_cycles ids g = Some (Val e)" "env_data e = Some d"
    and "cmp = compare_module_cycles (mc_cycles d) sqlite"
    and "classify = (\<lambda>c. classify_missing_module_cycle (set c) (import_observations_by_module ids g) modules)"
  shows "(is_exact cmp \<longleftrightarrow> set ` set sqlite = rings (module_imports g)) \<and>
    (is_livegraph_subset cmp \<longleftrightarrow> rings (module_imports g) \<subseteq> set ` set sqlite) \<and>
    (classify_divergences cmp classify = [] \<longleftrightarrow> set ` set sqlite = rings (module_imports g)) \<and>
    (\<lambda>r. (set (cd_cycle r), cd_kind r)) ` set (classify_divergences cmp classify) =
      {(C, UnexpectedExtraInLiveGraph) | C. C \<in> rings (module_imports g) - set ` set sqlite} \<union>
      {(C, cause_of g modules C) | C. C \<in> set ` set sqlite - rings (module_imports g)}"
proof -
  have lg: "set ` set (mc_cycles d) = rings (module_imports g)"
    using module_cycles_spec [OF assms(1), of "\<lambda>_. False"] assms(2,3) by (auto simp: whole_answer_def)
  have cause: "classify c = cause_of g modules (set c)" for c
    by (simp add: assms(5) classify_missing_cause [OF assms(1)])
  have "(\<lambda>r. (set (cd_cycle r), cd_kind r)) ` set (classify_divergences cmp classify) =
      (\<lambda>C. (C, UnexpectedExtraInLiveGraph)) ` set ` set (cmp_extra_in_livegraph cmp) \<union>
      (\<lambda>C. (C, cause_of g modules C)) ` set ` set (cmp_missing_in_livegraph cmp)"
    by (simp add: classify_divergences_def image_Un image_image cause)
  also have "\<dots> = {(C, UnexpectedExtraInLiveGraph) | C. C \<in> rings (module_imports g) - set ` set sqlite} \<union>
      {(C, cause_of g modules C) | C. C \<in> set ` set sqlite - rings (module_imports g)}"
    unfolding assms(4) comparison_lists lg by blast
  finally show ?thesis
    unfolding classify_divergences_Nil unfolding assms(4) is_exact_iff is_livegraph_subset_iff lg
    by (intro conjI) (simp_all add: eq_sym_conv)
qed

theorem cycle_comparison_correct_witness:
  "\<exists>e d. module_import_cycles [''lib'', ''web''] demo_ring = Some (Val e) \<and> env_data e = Some d \<and>
     is_exact (compare_module_cycles (mc_cycles d) [[''web'', ''lib'', ''web'']]) \<and>
     rings (module_imports demo_ring) = {{''lib'', ''web''}}"
proof -
  obtain e d where e: "module_import_cycles [''lib'', ''web''] demo_ring = Some (Val e)" "env_data e = Some d"
    using module_cycles_spec [OF demo_ring_enumerates, of "\<lambda>_. False"] by (auto simp: whole_answer_def)
  with demo_ring_cycles have d: "mc_cycles d = [[''lib'', ''web'']]" by simp
  have "is_exact (compare_module_cycles [[''lib'', ''web'']] [[''web'', ''lib'', ''web'']])" by code_simp
  with cycle_comparison_correct [OF demo_ring_enumerates e refl refl, of "[[''web'', ''lib'', ''web'']]"] e d
  show ?thesis by auto
qed

text \<open>
  Live rings lie in stored rings. If every module import of the live graph is an import of the
  stored graph, each live ring is contained in a stored ring. A cycle reported as extra is then a
  proper part of a stored ring that is reported as missing: the live graph has not invented a ring, it has captured less of one.
\<close>

theorem extra_cycle_is_part:
  assumes "module_imports g \<subseteq> stored" "set ` set lg = rings (module_imports g)" "set ` set sqlite = rings stored"
    and "c \<in> set (cmp_extra_in_livegraph (compare_module_cycles lg sqlite))"
  shows "\<exists>d \<in> set (cmp_missing_in_livegraph (compare_module_cycles lg sqlite)). set c \<subset> set d"
proof -
  have "set c \<in> rings (module_imports g) - rings stored"
    using imageI [OF assms(4), of set] unfolding comparison_lists assms(2,3) .
  moreover from this obtain D where D: "D \<in> rings stored" "set c \<subseteq> D" using rings_mono [OF assms(1)] by blast
  ultimately have strict: "set c \<subset> D" by blast
  have "D \<notin> rings (module_imports g)"
  proof
    assume "D \<in> rings (module_imports g)"
    with \<open>set c \<in> rings (module_imports g) - rings stored\<close> strict
    moreover have "c \<noteq> []" using \<open>set c \<in> rings (module_imports g) - rings stored\<close> by (auto simp: rings_def mutual_def)
    ultimately have "D = set c" using rings_overlap [of D "module_imports g" "set c" "hd c"] strict
        \<open>set c \<in> rings (module_imports g) - rings stored\<close> hd_in_set [of c] by blast
    with strict show False by blast
  qed
  with D(1) have "D \<in> set ` set (cmp_missing_in_livegraph (compare_module_cycles lg sqlite))"
    unfolding comparison_lists assms(2,3) by blast
  with strict show ?thesis by blast
qed

lemma demo_ring_imports: "module_imports demo_ring = set [(''lib'', ''web''), (''web'', ''lib'')]"
proof -
  have "set (fst (module_import_pairs [''lib'', ''web''] demo_ring)) =
      set [(''lib'', ''web''), (''web'', ''lib'')]" by code_simp
  then show ?thesis using set_module_import_pairs [OF demo_ring_enumerates] by simp
qed

text \<open>A stored graph in which the ring of the live graph runs through one more module.\<close>

definition wider_imports :: "(string \<times> string) list" where
  "wider_imports = [(''lib'', ''web''), (''web'', ''lib''), (''web'', ''x''), (''x'', ''lib'')]"

lemma rings_eval:
  "rings (set pairs) = (case find_sccs_cancellable (directed_edges pairs) (\<lambda>_. False) of
     Some (Val (Inr r)) \<Rightarrow> set ` set (map members (cycles r)) | _ \<Rightarrow> {})"
  by (rule cycles_rings [of pairs "\<lambda>_. False"]) simp

lemma wider_rings: "rings (set wider_imports) = {{''lib'', ''web'', ''x''}}"
  unfolding rings_eval by code_simp

lemma demo_rings: "rings (module_imports demo_ring) = {{''lib'', ''web''}}"
  unfolding demo_ring_imports rings_eval by code_simp

theorem extra_cycle_is_part_witness:
  "\<exists>d \<in> set (cmp_missing_in_livegraph (compare_module_cycles [[''lib'', ''web'']] [[''lib'', ''web'', ''x'']])).
     {''lib'', ''web''} \<subset> set d"
proof -
  have "[''lib'', ''web''] \<in> set (cmp_extra_in_livegraph
      (compare_module_cycles [[''lib'', ''web'']] [[''lib'', ''web'', ''x'']]))" by code_simp
  then show ?thesis
    using extra_cycle_is_part [of demo_ring "set wider_imports" "[[''lib'', ''web'']]" "[[''lib'', ''web'', ''x'']]"
        "[''lib'', ''web'']"] demo_rings wider_rings by (simp add: demo_ring_imports wider_imports_def)
qed

end
