(* ===== verification/Import_Partition.thy ===== *)
theory Import_Partition
  imports Rust_Prelude
begin

text \<open>
  The partition vocabulary of imports, \<open>classification/src/import_partition.rs\<close>: resolution class and
  importer status, views, partition counts and the remainder that a view leaves out. A \<open>u64\<close> tally is a
  natural number: it counts rows and stays far below its width.
\<close>

section \<open>Partitions\<close>

definition READABLE_IMPORT_RESOLUTIONS :: "string list" where
  "READABLE_IMPORT_RESOLUTIONS = [''static'', ''dynamic'', ''inferred'']"

definition CERTAIN_IMPORT_RESOLUTIONS :: "string list" where
  "CERTAIN_IMPORT_RESOLUTIONS = [''static'', ''dynamic'']"

datatype import_class = Certain | Inferred

datatype importer_status = Production | Test | Unknown_Status

datatype import_partition_error = UnreadableResolution string | UnreadableImporterFlag int

definition from_resolution :: "string \<Rightarrow> import_partition_error + import_class" where
  "from_resolution r =
     (if r = ''static'' \<or> r = ''dynamic'' then Inr Certain
      else if r = ''inferred'' then Inr Inferred
      else Inl (UnreadableResolution r))"

definition import_class_as_str :: "import_class \<Rightarrow> string" where
  "import_class_as_str c = (case c of Certain \<Rightarrow> ''certain'' | Inferred \<Rightarrow> ''inferred'')"

definition from_is_test :: "int option \<Rightarrow> import_partition_error + importer_status" where
  "from_is_test flag = (case flag of
     None \<Rightarrow> Inr Unknown_Status
   | Some v \<Rightarrow> if v = 1 then Inr Test else if v = 0 then Inr Production else Inl (UnreadableImporterFlag v))"

definition is_production_partition :: "importer_status \<Rightarrow> bool" where
  "is_production_partition s \<longleftrightarrow> s \<noteq> Test"

record import_partition =
  ipt_class :: import_class
  ipt_status :: importer_status

definition classify_import :: "string \<Rightarrow> int option \<Rightarrow> import_partition_error + import_partition" where
  "classify_import resolution importer_is_test =
     (case from_resolution resolution of
        Inl e \<Rightarrow> Inl e
      | Inr c \<Rightarrow> (case from_is_test importer_is_test of
          Inl e \<Rightarrow> Inl e
        | Inr s \<Rightarrow> Inr \<lparr>ipt_class = c, ipt_status = s\<rparr>))"

section \<open>Views\<close>

record import_view =
  include_tests :: bool
  include_inferred :: bool

definition VIEW_DEFAULT :: import_view where
  "VIEW_DEFAULT = \<lparr>include_tests = False, include_inferred = False\<rparr>"

definition CERTAIN_WITH_TESTS :: import_view where
  "CERTAIN_WITH_TESTS = \<lparr>include_tests = True, include_inferred = False\<rparr>"

definition WITH_INFERRED :: import_view where
  "WITH_INFERRED = \<lparr>include_tests = False, include_inferred = True\<rparr>"

definition VIEW_ALL :: import_view where
  "VIEW_ALL = \<lparr>include_tests = True, include_inferred = True\<rparr>"

definition admits :: "import_view \<Rightarrow> import_partition \<Rightarrow> bool" where
  "admits view p \<longleftrightarrow>
     (is_production_partition (ipt_status p) \<or> include_tests view) \<and>
     (ipt_class p = Certain \<or> include_inferred view)"

definition is_strict_superset_of :: "import_view \<Rightarrow> import_view \<Rightarrow> bool" where
  "is_strict_superset_of v w \<longleftrightarrow> v \<noteq> w \<and> (include_tests v \<or> \<not> include_tests w) \<and>
     (include_inferred v \<or> \<not> include_inferred w)"

definition wider_views :: "import_view \<Rightarrow> import_view list" where
  "wider_views view =
     filter (\<lambda>v. is_strict_superset_of v view) [CERTAIN_WITH_TESTS, WITH_INFERRED, VIEW_ALL]"

definition flag_names :: "import_view \<Rightarrow> string list" where
  "flag_names view =
     (if include_tests view then [''include_tests''] else []) @
     (if include_inferred view then [''include_inferred''] else [])"

definition admits_everything :: "import_view \<Rightarrow> bool" where
  "admits_everything view \<longleftrightarrow> include_tests view \<and> include_inferred view"

section \<open>Remainder groups and counts\<close>

datatype remainder_group = G_Tests | G_Inferred | G_TestsAndInferred

definition ALL_GROUPS :: "remainder_group list" where
  "ALL_GROUPS = [G_Tests, G_Inferred, G_TestsAndInferred]"

definition group_key :: "remainder_group \<Rightarrow> string" where
  "group_key g = (case g of G_Tests \<Rightarrow> ''tests'' | G_Inferred \<Rightarrow> ''inferred''
     | G_TestsAndInferred \<Rightarrow> ''tests_and_inferred'')"

definition remainder_group_of :: "import_view \<Rightarrow> import_partition \<Rightarrow> remainder_group option" where
  "remainder_group_of view p =
     (if admits view p then None
      else let needs_tests = \<not> is_production_partition (ipt_status p) \<and> \<not> include_tests view;
               needs_inferred = ipt_class p = Inferred \<and> \<not> include_inferred view
           in if needs_tests \<and> needs_inferred then Some G_TestsAndInferred
              else if needs_tests then Some G_Tests
              else if needs_inferred then Some G_Inferred
              else None)"

record partition_counts =
  production_certain :: nat
  test_certain :: nat
  production_inferred :: nat
  test_inferred :: nat
  unknown_test_status :: nat

definition no_counts :: partition_counts where
  "no_counts = \<lparr>production_certain = 0, test_certain = 0, production_inferred = 0, test_inferred = 0,
     unknown_test_status = 0\<rparr>"

definition add_partition :: "partition_counts \<Rightarrow> import_partition \<Rightarrow> partition_counts" where
  "add_partition n p =
     (let n' = (case (is_production_partition (ipt_status p), ipt_class p) of
            (True, Certain) \<Rightarrow> n\<lparr>production_certain := production_certain n + 1\<rparr>
          | (False, Certain) \<Rightarrow> n\<lparr>test_certain := test_certain n + 1\<rparr>
          | (True, Inferred) \<Rightarrow> n\<lparr>production_inferred := production_inferred n + 1\<rparr>
          | (False, Inferred) \<Rightarrow> n\<lparr>test_inferred := test_inferred n + 1\<rparr>)
      in if ipt_status p = Unknown_Status then n'\<lparr>unknown_test_status := unknown_test_status n' + 1\<rparr> else n')"

definition admitted :: "partition_counts \<Rightarrow> import_view \<Rightarrow> nat" where
  "admitted n view = production_certain n +
     (if include_tests view then test_certain n else 0) +
     (if include_inferred view then production_inferred n else 0) +
     (if include_tests view \<and> include_inferred view then test_inferred n else 0)"

definition total_counts :: "partition_counts \<Rightarrow> nat" where
  "total_counts n = production_certain n + test_certain n + production_inferred n + test_inferred n"

definition excluded_in :: "partition_counts \<Rightarrow> import_view \<Rightarrow> remainder_group \<Rightarrow> nat" where
  "excluded_in n view g =
     sum_list (map (\<lambda>(_, _, k). k) (filter (\<lambda>(status, cls, _).
         remainder_group_of view \<lparr>ipt_class = cls, ipt_status = status\<rparr> = Some g)
       [(Production, Certain, production_certain n), (Test, Certain, test_certain n),
        (Production, Inferred, production_inferred n), (Test, Inferred, test_inferred n)]))"

definition merge_counts :: "partition_counts \<Rightarrow> partition_counts \<Rightarrow> partition_counts" where
  "merge_counts n k =
     \<lparr>production_certain = production_certain n + production_certain k,
      test_certain = test_certain n + test_certain k,
      production_inferred = production_inferred n + production_inferred k,
      test_inferred = test_inferred n + test_inferred k,
      unknown_test_status = unknown_test_status n + unknown_test_status k\<rparr>"

section \<open>The remainder of a view\<close>

record remainder_count =
  rc_imports :: nat
  rc_edges :: nat

record import_remainder =
  rem_tests :: remainder_count
  rem_inferred :: remainder_count
  rem_tests_and_inferred :: remainder_count

definition remainder_get :: "import_remainder \<Rightarrow> remainder_group \<Rightarrow> remainder_count" where
  "remainder_get r g = (case g of
     G_Tests \<Rightarrow> rem_tests r | G_Inferred \<Rightarrow> rem_inferred r | G_TestsAndInferred \<Rightarrow> rem_tests_and_inferred r)"

definition remainder_update ::
  "remainder_group \<Rightarrow> (remainder_count \<Rightarrow> remainder_count) \<Rightarrow> import_remainder \<Rightarrow> import_remainder" where
  "remainder_update g f r = (case g of
     G_Tests \<Rightarrow> r\<lparr>rem_tests := f (rem_tests r)\<rparr>
   | G_Inferred \<Rightarrow> r\<lparr>rem_inferred := f (rem_inferred r)\<rparr>
   | G_TestsAndInferred \<Rightarrow> r\<lparr>rem_tests_and_inferred := f (rem_tests_and_inferred r)\<rparr>)"

definition empty_remainder :: import_remainder where
  "empty_remainder = (let z = \<lparr>rc_imports = 0, rc_edges = 0\<rparr>
     in \<lparr>rem_tests = z, rem_inferred = z, rem_tests_and_inferred = z\<rparr>)"

definition remainder_is_empty :: "import_remainder \<Rightarrow> bool" where
  "remainder_is_empty r = list_all (\<lambda>g. remainder_get r g = \<lparr>rc_imports = 0, rc_edges = 0\<rparr>) ALL_GROUPS"

definition remainder_step :: "import_view \<Rightarrow> import_remainder \<Rightarrow> partition_counts \<Rightarrow> import_remainder" where
  "remainder_step view out n =
     (let out = foldl (\<lambda>out g. remainder_update g
            (\<lambda>c. c\<lparr>rc_imports := rc_imports c + excluded_in n view g\<rparr>) out) out ALL_GROUPS
      in if admitted n view = 0
         then (case List.find (\<lambda>g. excluded_in n view g > 0) ALL_GROUPS of
             None \<Rightarrow> out
           | Some g \<Rightarrow> remainder_update g (\<lambda>c. c\<lparr>rc_edges := rc_edges c + 1\<rparr>) out)
         else out)"

definition from_relations :: "import_view \<Rightarrow> partition_counts list \<Rightarrow> import_remainder" where
  "from_relations view relations = foldl (remainder_step view) empty_remainder relations"

section \<open>Counting\<close>

lemma remainder_get_update [simp]:
  "remainder_get (remainder_update g f r) h = (if h = g then f (remainder_get r h) else remainder_get r h)"
  by (cases g; cases h; simp add: remainder_get_def remainder_update_def)

text \<open>The counts of a list of imports: each cell counts its partition.\<close>

definition count_imports :: "import_partition list \<Rightarrow> partition_counts" where
  "count_imports ps = foldl add_partition no_counts ps"

lemma add_partition_admitted:
  "admitted (add_partition n p) view = admitted n view + (if admits view p then 1 else 0)"
  by (cases "ipt_class p"; cases "ipt_status p")
    (simp_all add: add_partition_def admitted_def admits_def is_production_partition_def)

lemma add_partition_total: "total_counts (add_partition n p) = total_counts n + 1"
  by (cases "ipt_class p"; cases "ipt_status p")
    (simp_all add: add_partition_def total_counts_def is_production_partition_def)

lemma add_partition_excluded:
  "excluded_in (add_partition n p) view g =
     excluded_in n view g + (if remainder_group_of view p = Some g then 1 else 0)"
  by (cases "ipt_class p"; cases "ipt_status p"; cases "include_tests view"; cases "include_inferred view"; cases g)
    (simp_all add: add_partition_def excluded_in_def remainder_group_of_def admits_def
      is_production_partition_def)

lemma count_imports_spec:
  "admitted (count_imports ps) view = length (filter (admits view) ps)"
  "total_counts (count_imports ps) = length ps"
  "excluded_in (count_imports ps) view g = length (filter (\<lambda>p. remainder_group_of view p = Some g) ps)"
proof -
  have "admitted (foldl add_partition n ps) view = admitted n view + length (filter (admits view) ps)"
    "total_counts (foldl add_partition n ps) = total_counts n + length ps"
    "excluded_in (foldl add_partition n ps) view g =
      excluded_in n view g + length (filter (\<lambda>p. remainder_group_of view p = Some g) ps)" for n
    by (induction ps arbitrary: n)
      (simp_all add: add_partition_admitted add_partition_total add_partition_excluded)
  from this [of no_counts] show
    "admitted (count_imports ps) view = length (filter (admits view) ps)"
    "total_counts (count_imports ps) = length ps"
    "excluded_in (count_imports ps) view g = length (filter (\<lambda>p. remainder_group_of view p = Some g) ps)"
    by (simp_all add: count_imports_def no_counts_def admitted_def total_counts_def excluded_in_def
        case_prod_beta)
qed

lemma remainder_group_None: "remainder_group_of view p = None \<longleftrightarrow> admits view p"
  by (cases "ipt_class p"; cases "ipt_status p")
    (auto simp: remainder_group_of_def admits_def is_production_partition_def Let_def)

text \<open>Every import is admitted or in exactly one remainder group.\<close>

lemma counts_conserved:
  "total_counts n = admitted n view + excluded_in n view G_Tests + excluded_in n view G_Inferred +
     excluded_in n view G_TestsAndInferred"
  by (cases "include_tests view"; cases "include_inferred view")
    (simp_all add: total_counts_def admitted_def excluded_in_def remainder_group_of_def admits_def
      is_production_partition_def)

text \<open>The remainder over relations: the imports per group, and each relation that the view hides, once.\<close>

definition hidden_group :: "import_view \<Rightarrow> partition_counts \<Rightarrow> remainder_group option" where
  "hidden_group view n =
     (if admitted n view = 0 then List.find (\<lambda>g. excluded_in n view g > 0) ALL_GROUPS else None)"

lemma remainder_step_get:
  "rc_imports (remainder_get (remainder_step view out n) g) = rc_imports (remainder_get out g) + excluded_in n view g"
  "rc_edges (remainder_get (remainder_step view out n) g) =
     rc_edges (remainder_get out g) + (if hidden_group view n = Some g then 1 else 0)"
  by (cases g; auto simp: remainder_step_def hidden_group_def ALL_GROUPS_def Let_def split: option.split)+

lemma from_relations_spec:
  "rc_imports (remainder_get (from_relations view ns) g) = sum_list (map (\<lambda>n. excluded_in n view g) ns)"
  "rc_edges (remainder_get (from_relations view ns) g) =
     length (filter (\<lambda>n. hidden_group view n = Some g) ns)"
proof -
  have "rc_imports (remainder_get (foldl (remainder_step view) r ns) g) =
      rc_imports (remainder_get r g) + sum_list (map (\<lambda>n. excluded_in n view g) ns)"
    "rc_edges (remainder_get (foldl (remainder_step view) r ns) g) =
      rc_edges (remainder_get r g) + length (filter (\<lambda>n. hidden_group view n = Some g) ns)" for r
    by (induction ns arbitrary: r) (simp_all add: remainder_step_get)
  from this [of empty_remainder] show
    "rc_imports (remainder_get (from_relations view ns) g) = sum_list (map (\<lambda>n. excluded_in n view g) ns)"
    "rc_edges (remainder_get (from_relations view ns) g) =
      length (filter (\<lambda>n. hidden_group view n = Some g) ns)"
    by (cases g; simp add: from_relations_def empty_remainder_def remainder_get_def Let_def)+
qed

end
