(* ===== verification/Module_Edges.thy ===== *)
theory Module_Edges
  imports Rust_Collections Import_Partition "HOL-Library.Product_Lexorder"
begin

text \<open>
  Module dependency edges, \<open>classification/src/module_edges.rs\<close>, and the neighbours of a module,
  \<open>weighted_neighbors.rs\<close>. Two hash maps are iterated: the modules per file (\<open>forder\<close>) and the
  aggregates per pair of modules (\<open>eorder\<close>); the order of each is an argument.
\<close>

section \<open>Facts\<close>

record resolved_import_fact =
  rif_source_file_uid :: string
  rif_target_file_uid :: string
  rif_partition :: import_partition

record file_ownership_fact =
  fo_file_uid :: string
  fo_module_uid :: string

record module_ref =
  mr_module_uid :: string
  mr_canonical_path :: string

record module_edge_input =
  mi_imports :: "resolved_import_fact list"
  mi_ownership :: "file_ownership_fact list"
  mi_modules :: "module_ref list"

record module_dependency_edge =
  me_source_module_uid :: string
  me_source_canonical_path :: string
  me_target_module_uid :: string
  me_target_canonical_path :: string
  me_import_count :: nat
  me_source_file_count :: nat

datatype module_edge_error = DuplicateOwnership string "string list"

record module_scoped_counts =
  ms_intra_module :: nat
  ms_source_unowned_into :: nat
  ms_target_unowned_from :: nat

record module_edge_diagnostics =
  dg_imports_total :: nat
  dg_source_unowned :: nat
  dg_target_unowned :: nat
  dg_intra_module :: nat
  dg_cross_module :: nat
  dg_per_module :: "string \<rightharpoonup> module_scoped_counts"

record edge_aggregate =
  ag_import_count :: nat
  ag_source_files :: "string set"
  ag_partitions :: partition_counts

record module_edge_result =
  mg_edges :: "module_dependency_edge list"
  mg_diagnostics :: module_edge_diagnostics
  mg_view :: import_view
  mg_remainder :: import_remainder
  mg_edge_partitions :: "string \<times> string \<rightharpoonup> partition_counts"

definition partitions_of :: "module_edge_result \<Rightarrow> module_dependency_edge \<Rightarrow> partition_counts option" where
  "partitions_of r e = mg_edge_partitions r (me_source_module_uid e, me_target_module_uid e)"

section \<open>Ownership\<close>

definition push_module :: "(string \<rightharpoonup> string list) \<Rightarrow> file_ownership_fact \<Rightarrow> (string \<rightharpoonup> string list)" where
  "push_module m f = m(fo_file_uid f \<mapsto>
     (case m (fo_file_uid f) of None \<Rightarrow> [] | Some us \<Rightarrow> us) @ [fo_module_uid f])"

definition file_to_modules :: "file_ownership_fact list \<Rightarrow> (string \<rightharpoonup> string list)" where
  "file_to_modules ownership = foldl push_module Map.empty ownership"

fun index_loop ::
  "(string \<rightharpoonup> string list) \<Rightarrow> (string \<rightharpoonup> string) \<Rightarrow> string list \<Rightarrow> module_edge_error + (string \<rightharpoonup> string)" where
  "index_loop m index [] = Inr index"
| "index_loop m index (f # fs) = (case m f of
     None \<Rightarrow> index_loop m index fs
   | Some us \<Rightarrow> if length us > 1 then Inl (DuplicateOwnership f us)
                else index_loop m (index(f \<mapsto> hd us)) fs)"

definition build_ownership_index ::
  "string list \<Rightarrow> file_ownership_fact list \<Rightarrow> module_edge_error + (string \<rightharpoonup> string)" where
  "build_ownership_index forder ownership = index_loop (file_to_modules ownership) Map.empty forder"

section \<open>The derivation\<close>

definition no_scoped :: module_scoped_counts where
  "no_scoped = \<lparr>ms_intra_module = 0, ms_source_unowned_into = 0, ms_target_unowned_from = 0\<rparr>"

definition bump_module ::
  "(module_scoped_counts \<Rightarrow> module_scoped_counts) \<Rightarrow> string option \<Rightarrow> module_edge_diagnostics \<Rightarrow>
   module_edge_diagnostics" where
  "bump_module f path d = (case path of
     None \<Rightarrow> d
   | Some p \<Rightarrow> d\<lparr>dg_per_module := (dg_per_module d)(p \<mapsto>
       f (case dg_per_module d p of None \<Rightarrow> no_scoped | Some c \<Rightarrow> c))\<rparr>)"

definition no_aggregate :: edge_aggregate where
  "no_aggregate = \<lparr>ag_import_count = 0, ag_source_files = {}, ag_partitions = no_counts\<rparr>"

definition aggregate_import ::
  "import_view \<Rightarrow> resolved_import_fact \<Rightarrow> edge_aggregate \<Rightarrow> edge_aggregate" where
  "aggregate_import view imp agg =
     (let agg = agg\<lparr>ag_partitions := add_partition (ag_partitions agg) (rif_partition imp)\<rparr>
      in if admits view (rif_partition imp)
         then agg\<lparr>ag_import_count := ag_import_count agg + 1,
                  ag_source_files := insert (rif_source_file_uid imp) (ag_source_files agg)\<rparr>
         else agg)"

type_synonym derive_state = "module_edge_diagnostics \<times> (string \<times> string \<rightharpoonup> edge_aggregate)"

definition import_step ::
  "(string \<rightharpoonup> string) \<Rightarrow> (string \<rightharpoonup> string) \<Rightarrow> import_view \<Rightarrow> derive_state \<Rightarrow> resolved_import_fact \<Rightarrow> derive_state" where
  "import_step index lookup view st imp =
     (let (d, aggs) = st; adm = admits view (rif_partition imp);
          d = (if adm then d\<lparr>dg_imports_total := dg_imports_total d + 1\<rparr> else d)
      in case index (rif_source_file_uid imp) of
           None \<Rightarrow>
             (if adm then bump_module (\<lambda>c. c\<lparr>ms_source_unowned_into := ms_source_unowned_into c + 1\<rparr>)
                (Option.bind (index (rif_target_file_uid imp)) lookup)
                (d\<lparr>dg_source_unowned := dg_source_unowned d + 1\<rparr>) else d, aggs)
         | Some source_module \<Rightarrow>
             (case index (rif_target_file_uid imp) of
                None \<Rightarrow>
                  (if adm then bump_module (\<lambda>c. c\<lparr>ms_target_unowned_from := ms_target_unowned_from c + 1\<rparr>)
                     (lookup source_module) (d\<lparr>dg_target_unowned := dg_target_unowned d + 1\<rparr>) else d, aggs)
              | Some target_module \<Rightarrow>
                  if source_module = target_module
                  then (if adm then bump_module (\<lambda>c. c\<lparr>ms_intra_module := ms_intra_module c + 1\<rparr>)
                          (lookup source_module) (d\<lparr>dg_intra_module := dg_intra_module d + 1\<rparr>) else d, aggs)
                  else (if adm then d\<lparr>dg_cross_module := dg_cross_module d + 1\<rparr> else d,
                        aggs((source_module, target_module) \<mapsto> aggregate_import view imp
                          (case aggs (source_module, target_module) of None \<Rightarrow> no_aggregate | Some a \<Rightarrow> a)))))"

definition no_diagnostics :: module_edge_diagnostics where
  "no_diagnostics = \<lparr>dg_imports_total = 0, dg_source_unowned = 0, dg_target_unowned = 0,
     dg_intra_module = 0, dg_cross_module = 0, dg_per_module = Map.empty\<rparr>"

definition module_lookup :: "module_ref list \<Rightarrow> (string \<rightharpoonup> string)" where
  "module_lookup modules = insert_all Map.empty (map (\<lambda>m. (mr_module_uid m, mr_canonical_path m)) modules)"

definition process_imports ::
  "(string \<rightharpoonup> string) \<Rightarrow> (string \<rightharpoonup> string) \<Rightarrow> import_view \<Rightarrow> resolved_import_fact list \<Rightarrow> derive_state" where
  "process_imports index lookup view imps =
     foldl (import_step index lookup view) (no_diagnostics, Map.empty) imps"

definition edge_of ::
  "(string \<rightharpoonup> string) \<Rightarrow> string \<times> string \<Rightarrow> edge_aggregate \<Rightarrow> module_dependency_edge option" where
  "edge_of lookup = (\<lambda>(source_uid, target_uid) agg.
     case (lookup source_uid, lookup target_uid) of
       (Some source_path, Some target_path) \<Rightarrow>
         Some \<lparr>me_source_module_uid = source_uid, me_source_canonical_path = source_path,
               me_target_module_uid = target_uid, me_target_canonical_path = target_path,
               me_import_count = ag_import_count agg, me_source_file_count = card (ag_source_files agg)\<rparr>
     | _ \<Rightarrow> None)"

text \<open>An aggregate that becomes an edge of the view.\<close>

definition emitted ::
  "(string \<rightharpoonup> string) \<Rightarrow> (string \<times> string \<rightharpoonup> edge_aggregate) \<Rightarrow> string \<times> string \<Rightarrow> module_dependency_edge option" where
  "emitted lookup aggs k = (case aggs k of
     None \<Rightarrow> None
   | Some agg \<Rightarrow> if ag_import_count agg > 0 then edge_of lookup k agg else None)"

definition derive_module_dependency_edges_in_view ::
  "string list \<Rightarrow> (string \<times> string) list \<Rightarrow> module_edge_input \<Rightarrow> import_view \<Rightarrow>
   module_edge_error + module_edge_result" where
  "derive_module_dependency_edges_in_view forder eorder input view =
     (case build_ownership_index forder (mi_ownership input) of
        Inl e \<Rightarrow> Inl e
      | Inr index \<Rightarrow>
          (let lookup = module_lookup (mi_modules input);
               (diagnostics, aggs) = process_imports index lookup view (mi_imports input);
               remainder = from_relations view
                 (filter_map (\<lambda>k. map_option ag_partitions (aggs k)) eorder);
               edges = sort_key (\<lambda>e. (me_source_canonical_path e, me_target_canonical_path e))
                 (filter_map (emitted lookup aggs) eorder);
               edge_partitions = insert_all Map.empty (filter_map (\<lambda>k. case emitted lookup aggs k of
                 None \<Rightarrow> None | Some _ \<Rightarrow> Some (k, ag_partitions (the (aggs k)))) eorder)
           in Inr \<lparr>mg_edges = edges, mg_diagnostics = diagnostics, mg_view = view,
                   mg_remainder = remainder, mg_edge_partitions = edge_partitions\<rparr>))"

definition derive_module_dependency_edges ::
  "string list \<Rightarrow> (string \<times> string) list \<Rightarrow> module_edge_input \<Rightarrow> module_edge_error + module_edge_result" where
  "derive_module_dependency_edges forder eorder input =
     derive_module_dependency_edges_in_view forder eorder input VIEW_ALL"

section \<open>Neighbours\<close>

record weighted_neighbor =
  wn_module_uid :: string
  wn_import_count :: nat
  wn_source_file_count :: nat

record weighted_neighbors =
  wn_outbound :: "weighted_neighbor list"
  wn_inbound :: "weighted_neighbor list"

definition sort_neighbors :: "weighted_neighbor list \<Rightarrow> weighted_neighbor list" where
  "sort_neighbors ns = sort_key (\<lambda>n. (- int (wn_import_count n), wn_module_uid n)) ns"

definition compute_weighted_neighbors :: "string \<Rightarrow> module_dependency_edge list \<Rightarrow> weighted_neighbors" where
  "compute_weighted_neighbors focal edges =
     \<lparr>wn_outbound = sort_neighbors (map (\<lambda>e. \<lparr>wn_module_uid = me_target_module_uid e,
        wn_import_count = me_import_count e, wn_source_file_count = me_source_file_count e\<rparr>)
        (filter (\<lambda>e. me_source_module_uid e = focal) edges)),
      wn_inbound = sort_neighbors (map (\<lambda>e. \<lparr>wn_module_uid = me_source_module_uid e,
        wn_import_count = me_import_count e, wn_source_file_count = me_source_file_count e\<rparr>)
        (filter (\<lambda>e. me_target_module_uid e = focal) edges))\<rparr>"

section \<open>The ownership index\<close>

definition owners_of :: "file_ownership_fact list \<Rightarrow> string \<Rightarrow> string list" where
  "owners_of ownership f = map fo_module_uid (filter (\<lambda>o'. fo_file_uid o' = f) ownership)"

definition owner_of :: "file_ownership_fact list \<Rightarrow> string \<Rightarrow> string option" where
  "owner_of ownership f = (case owners_of ownership f of [] \<Rightarrow> None | u # _ \<Rightarrow> Some u)"

lemma file_to_modules_spec:
  "file_to_modules ownership f = (if owners_of ownership f = [] then None else Some (owners_of ownership f))"
proof -
  have "foldl push_module m xs f = (if owners_of xs f = [] then m f
      else Some ((case m f of None \<Rightarrow> [] | Some us \<Rightarrow> us) @ owners_of xs f))" for m xs
    by (induction xs arbitrary: m) (auto simp: push_module_def owners_of_def split: option.splits)
  from this [of Map.empty ownership] show ?thesis by (simp add: file_to_modules_def)
qed

lemma index_loop_Inl:
  "index_loop m index fs = Inl e \<Longrightarrow> \<exists>f us. e = DuplicateOwnership f us \<and> m f = Some us \<and> length us > 1"
  by (induction fs arbitrary: index) (auto split: option.splits if_splits)

lemma index_loop_Inr:
  "index_loop m index fs = Inr index' \<Longrightarrow>
     (\<forall>f \<in> set fs. \<forall>us. m f = Some us \<longrightarrow> length us \<le> 1) \<and>
     index' = (\<lambda>f. if f \<in> set fs \<and> m f \<noteq> None then map_option hd (m f) else index f)"
proof (induction fs arbitrary: index)
  case (Cons a fs)
  show ?case
  proof (cases "m a")
    case None
    with Cons.prems Cons.IH [of index] show ?thesis by (auto simp: fun_eq_iff)
  next
    case (Some us)
    with Cons.prems have "length us \<le> 1" "index_loop m (index(a \<mapsto> hd us)) fs = Inr index'"
      by (auto split: if_splits)
    from Cons.IH [OF this(2)] this(1) Some show ?thesis by (auto simp: fun_eq_iff)
  qed
qed simp

lemma build_ownership_index_spec:
  assumes "enumerates forder (file_to_modules ownership)"
  shows "case build_ownership_index forder ownership of
      Inl e \<Rightarrow> \<exists>f. e = DuplicateOwnership f (owners_of ownership f) \<and> length (owners_of ownership f) > 1
    | Inr index \<Rightarrow> index = owner_of ownership \<and> (\<forall>f. length (owners_of ownership f) \<le> 1)"
proof (cases "build_ownership_index forder ownership")
  case (Inl e)
  with index_loop_Inl [of "file_to_modules ownership" Map.empty forder e] show ?thesis
    by (auto simp: build_ownership_index_def file_to_modules_spec split: if_splits)
next
  case (Inr index)
  note loop = index_loop_Inr [of "file_to_modules ownership" Map.empty forder index]
  have mem: "f \<in> set forder \<longleftrightarrow> owners_of ownership f \<noteq> []" for f
    using enumerates_mem [OF assms] by (simp add: file_to_modules_spec)
  have "length (owners_of ownership f) \<le> 1" for f
    using loop Inr mem [of f] by (cases "owners_of ownership f = []")
      (auto simp: build_ownership_index_def file_to_modules_spec)
  moreover have "index = owner_of ownership"
    using loop Inr mem
    by (auto simp: build_ownership_index_def file_to_modules_spec owner_of_def fun_eq_iff split: list.splits)
  ultimately show ?thesis using Inr by simp
qed

section \<open>The aggregates\<close>

text \<open>The pair of modules that an import joins, if it crosses modules.\<close>

definition import_key :: "(string \<rightharpoonup> string) \<Rightarrow> resolved_import_fact \<Rightarrow> (string \<times> string) option" where
  "import_key index imp =
     (case (index (rif_source_file_uid imp), index (rif_target_file_uid imp)) of
        (Some s, Some t) \<Rightarrow> if s = t then None else Some (s, t)
      | _ \<Rightarrow> None)"

definition relation_imports ::
  "(string \<rightharpoonup> string) \<Rightarrow> resolved_import_fact list \<Rightarrow> string \<times> string \<Rightarrow> resolved_import_fact list" where
  "relation_imports index imps k = filter (\<lambda>i. import_key index i = Some k) imps"

definition admitted_imports :: "import_view \<Rightarrow> resolved_import_fact list \<Rightarrow> resolved_import_fact list" where
  "admitted_imports view imps = filter (\<lambda>i. admits view (rif_partition i)) imps"

definition aggregate_of :: "import_view \<Rightarrow> resolved_import_fact list \<Rightarrow> edge_aggregate" where
  "aggregate_of view is = \<lparr>ag_import_count = length (admitted_imports view is),
     ag_source_files = rif_source_file_uid ` set (admitted_imports view is),
     ag_partitions = count_imports (map rif_partition is)\<rparr>"

lemma aggregate_of_snoc: "aggregate_of view (is @ [i]) = aggregate_import view i (aggregate_of view is)"
  by (simp add: aggregate_of_def aggregate_import_def admitted_imports_def count_imports_def Let_def)

lemma aggregate_of_Nil: "aggregate_of view [] = no_aggregate"
  by (simp add: aggregate_of_def no_aggregate_def admitted_imports_def count_imports_def)

lemma import_step_snd:
  "snd (import_step index lookup view (d, aggs) i) = (case import_key index i of
     None \<Rightarrow> aggs
   | Some k \<Rightarrow> aggs(k \<mapsto> aggregate_import view i (case aggs k of None \<Rightarrow> no_aggregate | Some a \<Rightarrow> a)))"
  by (simp add: import_step_def import_key_def Let_def split: option.split)

lemma process_imports_aggs:
  "snd (process_imports index lookup view imps) k =
     (if relation_imports index imps k = [] then None
      else Some (aggregate_of view (relation_imports index imps k)))"
proof (induction imps rule: rev_induct)
  case Nil
  then show ?case by (simp add: process_imports_def relation_imports_def)
next
  case (snoc i imps)
  obtain d aggs where st: "process_imports index lookup view imps = (d, aggs)" by force
  then have "snd (process_imports index lookup view (imps @ [i])) =
      snd (import_step index lookup view (d, aggs) i)"
    by (simp add: process_imports_def)
  with snoc.IH st show ?case
    by (auto simp: import_step_snd relation_imports_def aggregate_of_snoc aggregate_of_Nil
        aggregate_of_snoc [of view "[]", simplified] split: option.splits)
qed

section \<open>The diagnostics\<close>

lemma bump_module_keeps [simp]:
  "dg_imports_total (bump_module f p d) = dg_imports_total d"
  "dg_source_unowned (bump_module f p d) = dg_source_unowned d"
  "dg_target_unowned (bump_module f p d) = dg_target_unowned d"
  "dg_intra_module (bump_module f p d) = dg_intra_module d"
  "dg_cross_module (bump_module f p d) = dg_cross_module d"
  by (simp_all add: bump_module_def split: option.split)

text \<open>Where an import goes: its two ends and the module it is counted for.\<close>

definition source_unowned :: "(string \<rightharpoonup> string) \<Rightarrow> resolved_import_fact \<Rightarrow> bool" where
  "source_unowned index i \<longleftrightarrow> index (rif_source_file_uid i) = None"

definition target_unowned :: "(string \<rightharpoonup> string) \<Rightarrow> resolved_import_fact \<Rightarrow> bool" where
  "target_unowned index i \<longleftrightarrow> index (rif_source_file_uid i) \<noteq> None \<and> index (rif_target_file_uid i) = None"

definition within_module :: "(string \<rightharpoonup> string) \<Rightarrow> resolved_import_fact \<Rightarrow> bool" where
  "within_module index i \<longleftrightarrow> index (rif_source_file_uid i) \<noteq> None \<and>
     index (rif_source_file_uid i) = index (rif_target_file_uid i)"

definition scoped_of :: "module_edge_diagnostics \<Rightarrow> string \<Rightarrow> module_scoped_counts" where
  "scoped_of d p = (case dg_per_module d p of None \<Rightarrow> no_scoped | Some c \<Rightarrow> c)"

text \<open>The diagnostics, read off the admitted imports.\<close>

definition diagnostics_match ::
  "(string \<rightharpoonup> string) \<Rightarrow> (string \<rightharpoonup> string) \<Rightarrow> resolved_import_fact list \<Rightarrow> module_edge_diagnostics \<Rightarrow> bool" where
  "diagnostics_match index lookup adm d \<longleftrightarrow>
     dg_imports_total d = length adm \<and>
     dg_source_unowned d = length (filter (source_unowned index) adm) \<and>
     dg_target_unowned d = length (filter (target_unowned index) adm) \<and>
     dg_intra_module d = length (filter (within_module index) adm) \<and>
     dg_cross_module d = length (filter (\<lambda>i. import_key index i \<noteq> None) adm) \<and>
     (\<forall>p. ms_source_unowned_into (scoped_of d p) = length (filter (\<lambda>i. source_unowned index i \<and>
            Option.bind (index (rif_target_file_uid i)) lookup = Some p) adm) \<and>
          ms_target_unowned_from (scoped_of d p) = length (filter (\<lambda>i. target_unowned index i \<and>
            Option.bind (index (rif_source_file_uid i)) lookup = Some p) adm) \<and>
          ms_intra_module (scoped_of d p) = length (filter (\<lambda>i. within_module index i \<and>
            Option.bind (index (rif_source_file_uid i)) lookup = Some p) adm))"

lemma scoped_of_bump:
  "scoped_of (bump_module f path d) p = (if path = Some p then f (scoped_of d p) else scoped_of d p)"
  by (cases path) (auto simp: scoped_of_def bump_module_def)

lemma scoped_of_update [simp]:
  "scoped_of (d\<lparr>dg_imports_total := n\<rparr>) p = scoped_of d p"
  "scoped_of (d\<lparr>dg_source_unowned := n\<rparr>) p = scoped_of d p"
  "scoped_of (d\<lparr>dg_target_unowned := n\<rparr>) p = scoped_of d p"
  "scoped_of (d\<lparr>dg_intra_module := n\<rparr>) p = scoped_of d p"
  "scoped_of (d\<lparr>dg_cross_module := n\<rparr>) p = scoped_of d p"
  by (simp_all add: scoped_of_def)

lemmas import_ends = source_unowned_def target_unowned_def within_module_def import_key_def

lemma import_step_diagnostics:
  assumes "diagnostics_match index lookup adm d"
  shows "diagnostics_match index lookup (if admits view (rif_partition i) then adm @ [i] else adm)
    (fst (import_step index lookup view (d, aggs) i))"
proof (cases "admits view (rif_partition i)")
  case True
  show ?thesis
    by (cases "index (rif_source_file_uid i)"; cases "index (rif_target_file_uid i)")
      (use assms True in \<open>simp_all add: diagnostics_match_def import_step_def import_ends scoped_of_bump Let_def\<close>)
next
  case False
  with assms show ?thesis
    by (simp add: import_step_def Let_def split: option.split)
qed

lemma process_imports_diagnostics:
  "diagnostics_match index lookup (admitted_imports view imps) (fst (process_imports index lookup view imps))"
proof (induction imps rule: rev_induct)
  case Nil
  then show ?case
    by (simp add: process_imports_def no_diagnostics_def admitted_imports_def diagnostics_match_def
        scoped_of_def no_scoped_def)
next
  case (snoc i imps)
  obtain d aggs where st: "process_imports index lookup view imps = (d, aggs)" by force
  with snoc import_step_diagnostics [of index lookup "admitted_imports view imps" d view i aggs] show ?case
    by (simp add: process_imports_def admitted_imports_def split: if_splits)
qed

lemma sum_over_keys:
  assumes "distinct ks" and "\<And>i k. i \<in> set xs \<Longrightarrow> f i = Some k \<Longrightarrow> k \<in> set ks"
  shows "sum_list (map (\<lambda>k. length (filter (\<lambda>i. f i = Some k) xs)) ks) = length (filter (\<lambda>i. f i \<noteq> None) xs)"
  using assms(2)
proof (induction xs)
  case (Cons x xs)
  have "sum_list (map (\<lambda>k. if f x = Some k then 1 else 0) ks) = (if f x = None then 0 else 1 :: nat)"
  proof (cases "f x")
    case (Some k)
    then have "k \<in> set ks" by (intro Cons.prems) simp_all
    then have "sum_list (map (\<lambda>k'. if k = k' then 1 else 0) ks) = (1 :: nat)"
      using assms(1) by (induction ks) (auto simp: sum_list_0)
    with Some show ?thesis by simp
  qed simp
  moreover have "length (filter (\<lambda>i. f i = Some k) (x # xs)) =
      (if f x = Some k then 1 else 0) + length (filter (\<lambda>i. f i = Some k) xs)" for k
    by simp
  moreover have "sum_list (map (\<lambda>k. length (filter (\<lambda>i. f i = Some k) xs)) ks) =
      length (filter (\<lambda>i. f i \<noteq> None) xs)"
    by (rule Cons.IH) (rule Cons.prems, simp_all)
  ultimately show ?case
    by (simp only: sum_list_addf) simp
qed (simp add: sum_list_0)

section \<open>Properties\<close>

text \<open>The edges of a view, read off the facts.\<close>

definition reference_edges ::
  "(string \<rightharpoonup> string) \<Rightarrow> (string \<rightharpoonup> string) \<Rightarrow> import_view \<Rightarrow> resolved_import_fact list \<Rightarrow> module_dependency_edge set" where
  "reference_edges index lookup view imps =
     {e. \<exists>adm. adm = admitted_imports view (relation_imports index imps (me_source_module_uid e, me_target_module_uid e)) \<and>
        adm \<noteq> [] \<and>
        lookup (me_source_module_uid e) = Some (me_source_canonical_path e) \<and>
        lookup (me_target_module_uid e) = Some (me_target_canonical_path e) \<and>
        me_import_count e = length adm \<and> me_source_file_count e = card (rif_source_file_uid ` set adm)}"

lemma emitted_spec:
  assumes aggs: "aggs = snd (process_imports index lookup view imps)"
  shows "emitted lookup aggs k = Some e \<longleftrightarrow>
    k = (me_source_module_uid e, me_target_module_uid e) \<and> e \<in> reference_edges index lookup view imps"
proof -
  obtain s t where k: "k = (s, t)" by force
  have "admitted_imports view [] = []" by (simp add: admitted_imports_def)
  then have "emitted lookup aggs k = (if admitted_imports view (relation_imports index imps k) = [] then None
      else edge_of lookup k (aggregate_of view (relation_imports index imps k)))"
    by (simp add: emitted_def aggs process_imports_aggs aggregate_of_def)
  then show ?thesis
    by (auto simp: k edge_of_def aggregate_of_def reference_edges_def split: option.splits)
qed

lemma relation_total:
  assumes "enumerates eorder (snd (process_imports index lookup view imps))"
  shows "sum_list (map (\<lambda>k. length (relation_imports index imps k)) eorder) =
    length (filter (\<lambda>i. import_key index i \<noteq> None) imps)"
  unfolding relation_imports_def
proof (rule sum_over_keys)
  show "distinct eorder" using assms by (simp add: enumerates_def)
  fix i k assume "i \<in> set imps" "import_key index i = Some k"
  then have "relation_imports index imps k \<noteq> []" by (auto simp: relation_imports_def filter_empty_conv)
  then show "k \<in> set eorder"
    using enumerates_mem [OF assms] by (simp add: process_imports_aggs)
qed

lemma filter_map_total:
  "(\<And>x. x \<in> set xs \<Longrightarrow> f x \<noteq> None) \<Longrightarrow> filter_map f xs = map (\<lambda>x. the (f x)) xs"
proof (induction xs)
  case (Cons a xs)
  from Cons.prems [of a] obtain y where "f a = Some y" by auto
  with Cons show ?case by simp
qed simp

text \<open>
  The remainder, read off the facts: a cross-module import that the view leaves out is filed under the
  group of its partition; a relation of which the view admits no import is filed once, under the first
  group (tests, inferred, both) that one of its imports is in.
\<close>

definition hidden_under ::
  "(string \<rightharpoonup> string) \<Rightarrow> import_view \<Rightarrow> resolved_import_fact list \<Rightarrow> string \<times> string \<Rightarrow> remainder_group option" where
  "hidden_under index view imps k =
     (if \<exists>i \<in> set imps. import_key index i = Some k \<and> admits view (rif_partition i) then None
      else List.find (\<lambda>g. \<exists>i \<in> set imps. import_key index i = Some k \<and>
        remainder_group_of view (rif_partition i) = Some g) ALL_GROUPS)"

definition remainder_matches ::
  "(string \<rightharpoonup> string) \<Rightarrow> import_view \<Rightarrow> resolved_import_fact list \<Rightarrow> import_remainder \<Rightarrow> bool" where
  "remainder_matches index view imps r \<longleftrightarrow> (\<forall>g.
     rc_imports (remainder_get r g) = length (filter (\<lambda>i. import_key index i \<noteq> None \<and>
       remainder_group_of view (rif_partition i) = Some g) imps) \<and>
     rc_edges (remainder_get r g) = card {k. hidden_under index view imps k = Some g})"

lemma hidden_under_counts:
  "hidden_under index view imps k =
     hidden_group view (count_imports (map rif_partition (relation_imports index imps k)))"
proof -
  let ?ps = "map rif_partition (relation_imports index imps k)"
  have "admitted (count_imports ?ps) view = 0 \<longleftrightarrow>
      \<not> (\<exists>i \<in> set imps. import_key index i = Some k \<and> admits view (rif_partition i))"
    by (auto simp: count_imports_spec relation_imports_def filter_empty_conv)
  moreover have "0 < excluded_in (count_imports ?ps) view g \<longleftrightarrow>
      (\<exists>i \<in> set imps. import_key index i = Some k \<and> remainder_group_of view (rif_partition i) = Some g)" for g
    by (auto simp: count_imports_spec relation_imports_def filter_empty_conv)
  ultimately show ?thesis
    unfolding hidden_under_def hidden_group_def by presburger
qed

lemma hidden_under_relation: "hidden_under index view imps k = Some g \<Longrightarrow> relation_imports index imps k \<noteq> []"
proof -
  assume "hidden_under index view imps k = Some g"
  then have "List.find (\<lambda>g. \<exists>i \<in> set imps. import_key index i = Some k \<and>
      remainder_group_of view (rif_partition i) = Some g) ALL_GROUPS = Some g"
    by (simp add: hidden_under_def split: if_splits)
  then show ?thesis by (auto simp: find_Some_iff relation_imports_def filter_empty_conv)
qed

lemma remainder_derived:
  assumes en: "enumerates eorder aggs" and aggs: "aggs = snd (process_imports index lookup view imps)"
    and r: "r = from_relations view (filter_map (\<lambda>k. map_option ag_partitions (aggs k)) eorder)"
  shows "remainder_matches index view imps r"
proof -
  let ?n = "\<lambda>k. count_imports (map rif_partition (relation_imports index imps k))"
  have some: "aggs k \<noteq> None" if "k \<in> set eorder" for k using that enumerates_mem [OF en] by simp
  have agg: "ag_partitions (the (aggs k)) = ?n k" if "k \<in> set eorder" for k
    using some [OF that] by (simp add: aggs process_imports_aggs aggregate_of_def split: if_splits)
  have "filter_map (\<lambda>k. map_option ag_partitions (aggs k)) eorder = map ?n eorder"
    using some agg by (subst filter_map_total) (auto simp: option.map_sel)
  then have rem: "r = from_relations view (map ?n eorder)" by (simp add: r)
  have mem: "k \<in> set eorder \<longleftrightarrow> relation_imports index imps k \<noteq> []" for k
    using enumerates_mem [OF en] by (simp add: aggs process_imports_aggs)
  have "rc_imports (remainder_get r g) = length (filter (\<lambda>i. import_key index i \<noteq> None \<and>
      remainder_group_of view (rif_partition i) = Some g) imps)" for g
  proof -
    let ?xs = "filter (\<lambda>i. remainder_group_of view (rif_partition i) = Some g) imps"
    have "excluded_in (?n k) view g = length (filter (\<lambda>i. import_key index i = Some k) ?xs)" for k
      by (simp add: count_imports_spec relation_imports_def List.filter_map comp_def conj_commute)
    then have "rc_imports (remainder_get r g) = (\<Sum>k \<leftarrow> eorder. length (filter (\<lambda>i. import_key index i = Some k) ?xs))"
      by (simp add: rem from_relations_spec comp_def)
    also have "\<dots> = length (filter (\<lambda>i. import_key index i \<noteq> None) ?xs)"
      by (rule sum_over_keys) (use en mem in \<open>auto simp: enumerates_def relation_imports_def filter_empty_conv\<close>)
    finally show ?thesis by (simp add: conj_commute)
  qed
  moreover have "rc_edges (remainder_get r g) = card {k. hidden_under index view imps k = Some g}" for g
  proof -
    have "{k. hidden_under index view imps k = Some g} = set (filter (\<lambda>k. hidden_group view (?n k) = Some g) eorder)"
      using mem hidden_under_relation [of index view imps _ g] by (auto simp: hidden_under_counts)
    moreover have "distinct (filter (\<lambda>k. hidden_group view (?n k) = Some g) eorder)"
      using en by (simp add: enumerates_def)
    ultimately have "card {k. hidden_under index view imps k = Some g} =
        length (filter (\<lambda>k. hidden_group view (?n k) = Some g) eorder)"
      by (metis distinct_card)
    then show ?thesis by (simp add: rem from_relations_spec List.filter_map comp_def)
  qed
  ultimately show ?thesis by (simp add: remainder_matches_def)
qed

lemma module_edges_derived:
  fixes input :: module_edge_input
  assumes "enumerates forder (file_to_modules (mi_ownership input))"
    and "enumerates eorder (snd (process_imports (owner_of (mi_ownership input)) (module_lookup (mi_modules input))
      view (mi_imports input)))"
    and "derive_module_dependency_edges_in_view forder eorder input view = Inr r"
  shows "set (mg_edges r) = reference_edges (owner_of (mi_ownership input)) (module_lookup (mi_modules input))
    view (mi_imports input)" and "distinct (mg_edges r)"
proof -
  let ?lookup = "module_lookup (mi_modules input)"
  obtain index where index: "build_ownership_index forder (mi_ownership input) = Inr index"
    using assms(3) by (auto simp: derive_module_dependency_edges_in_view_def split: sum.splits)
  with build_ownership_index_spec [OF assms(1)] have own: "index = owner_of (mi_ownership input)" by simp
  obtain d aggs where pi: "process_imports index ?lookup view (mi_imports input) = (d, aggs)" by force
  then have aggs: "aggs = snd (process_imports index ?lookup view (mi_imports input))" by simp
  have en: "enumerates eorder aggs" using assms(2) by (simp add: aggs own)
  have mg: "mg_edges r = sort_key (\<lambda>e. (me_source_canonical_path e, me_target_canonical_path e))
      (filter_map (emitted ?lookup aggs) eorder)"
    using assms(3) index pi by (auto simp: derive_module_dependency_edges_in_view_def Let_def)
  have "e \<in> set (filter_map (emitted ?lookup aggs) eorder)"
    if "e \<in> reference_edges index ?lookup view (mi_imports input)" for e
  proof -
    have em: "emitted ?lookup aggs (me_source_module_uid e, me_target_module_uid e) = Some e"
      using that by (simp add: emitted_spec [OF aggs])
    then have "aggs (me_source_module_uid e, me_target_module_uid e) \<noteq> None"
      by (auto simp: emitted_def split: option.splits)
    then show ?thesis using em enumerates_mem [OF en] by auto
  qed
  moreover have "e \<in> reference_edges index ?lookup view (mi_imports input)"
    if "e \<in> set (filter_map (emitted ?lookup aggs) eorder)" for e
    using that by (auto simp: emitted_spec [OF aggs])
  ultimately show "set (mg_edges r) = reference_edges (owner_of (mi_ownership input)) ?lookup view (mi_imports input)"
    unfolding mg own set_sort by blast
  have "distinct (filter_map (emitted ?lookup aggs) eorder)"
    using en by (intro distinct_filter_map) (auto simp: enumerates_def emitted_spec [OF aggs])
  then show "distinct (mg_edges r)" by (simp add: mg)
qed

text \<open>An edge between two paths exists exactly if an admitted import joins modules with these paths.\<close>

lemma reference_edge_import:
  "(\<exists>e \<in> reference_edges index lookup view imps. me_source_canonical_path e = p \<and> me_target_canonical_path e = q) \<longleftrightarrow>
   (\<exists>i \<in> set imps. \<exists>s t. admits view (rif_partition i) \<and> import_key index i = Some (s, t) \<and>
      lookup s = Some p \<and> lookup t = Some q)"
proof
  assume "\<exists>e \<in> reference_edges index lookup view imps. me_source_canonical_path e = p \<and> me_target_canonical_path e = q"
  then obtain e where e: "e \<in> reference_edges index lookup view imps" "me_source_canonical_path e = p"
    "me_target_canonical_path e = q" by blast
  then have "admitted_imports view (relation_imports index imps (me_source_module_uid e, me_target_module_uid e)) \<noteq> []"
    by (simp add: reference_edges_def)
  then obtain i where "i \<in> set (admitted_imports view (relation_imports index imps
      (me_source_module_uid e, me_target_module_uid e)))"
    by (meson last_in_set)
  with e show "\<exists>i \<in> set imps. \<exists>s t. admits view (rif_partition i) \<and> import_key index i = Some (s, t) \<and>
      lookup s = Some p \<and> lookup t = Some q"
    by (auto simp: admitted_imports_def relation_imports_def reference_edges_def)
next
  assume "\<exists>i \<in> set imps. \<exists>s t. admits view (rif_partition i) \<and> import_key index i = Some (s, t) \<and>
      lookup s = Some p \<and> lookup t = Some q"
  then obtain i s t where i: "i \<in> set imps" "admits view (rif_partition i)" "import_key index i = Some (s, t)"
    "lookup s = Some p" "lookup t = Some q" by blast
  let ?adm = "admitted_imports view (relation_imports index imps (s, t))"
  have "?adm \<noteq> []" using i by (auto simp: admitted_imports_def relation_imports_def filter_empty_conv)
  then have "\<lparr>me_source_module_uid = s, me_source_canonical_path = p, me_target_module_uid = t,
      me_target_canonical_path = q, me_import_count = length ?adm,
      me_source_file_count = card (rif_source_file_uid ` set ?adm)\<rparr> \<in> reference_edges index lookup view imps"
    using i by (simp add: reference_edges_def)
  then show "\<exists>e \<in> reference_edges index lookup view imps. me_source_canonical_path e = p \<and> me_target_canonical_path e = q"
    by (rule rev_bexI) simp
qed

lemma distinct_owners: "distinct ownership \<Longrightarrow> distinct (owners_of ownership f)"
  unfolding owners_of_def distinct_map
  by (auto intro!: inj_onI file_ownership_fact.equality)

text \<open>
  C29. The derived module edges are those of the facts, for every iteration order of the two hash maps, where no
  ownership row is repeated. A file that several different modules own is reported with all of them; if
  there is none, the edges are exactly the pairs of different known modules that an admitted import joins,
  each with the number of its admitted imports and of their distinct source files, sorted by paths and
  without repetition. Each diagnostic counts what it names: the admitted imports whose source is
  unowned, whose target alone is, that stay within a module, and that cross modules, and, for each module
  path, the first three kinds per module. The remainder counts under each group the cross-module imports that the
  view leaves out for the reason of that group, and the pairs of modules that it hides altogether.
\<close>

theorem module_edges_match_facts:
  fixes input :: module_edge_input
  assumes "enumerates forder (file_to_modules (mi_ownership input))"
    and "enumerates eorder (snd (process_imports (owner_of (mi_ownership input)) (module_lookup (mi_modules input))
      view (mi_imports input)))"
    and "distinct (mi_ownership input)"
  shows "case derive_module_dependency_edges_in_view forder eorder input view of
      Inl (DuplicateOwnership f us) \<Rightarrow> us = owners_of (mi_ownership input) f \<and> distinct us \<and> length us > 1
    | Inr r \<Rightarrow>
        list_all (\<lambda>f. length (owners_of (mi_ownership input) (fo_file_uid f)) \<le> 1) (mi_ownership input) \<and>
        set (mg_edges r) = reference_edges (owner_of (mi_ownership input)) (module_lookup (mi_modules input))
          view (mi_imports input) \<and>
        distinct (mg_edges r) \<and>
        sorted (map (\<lambda>e. (me_source_canonical_path e, me_target_canonical_path e)) (mg_edges r)) \<and>
        diagnostics_match (owner_of (mi_ownership input)) (module_lookup (mi_modules input))
          (admitted_imports view (mi_imports input)) (mg_diagnostics r) \<and>
        remainder_matches (owner_of (mi_ownership input)) view (mi_imports input) (mg_remainder r)"
proof (cases "build_ownership_index forder (mi_ownership input)")
  case (Inl e)
  with build_ownership_index_spec [OF assms(1)] distinct_owners [OF assms(3)] show ?thesis
    by (auto simp: derive_module_dependency_edges_in_view_def)
next
  case (Inr index)
  with build_ownership_index_spec [OF assms(1)]
  have index: "index = owner_of (mi_ownership input)"
    and single: "length (owners_of (mi_ownership input) f) \<le> 1" for f by auto
  let ?lookup = "module_lookup (mi_modules input)"
  obtain d aggs where pi: "process_imports index ?lookup view (mi_imports input) = (d, aggs)" by force
  then have aggs: "aggs = snd (process_imports index ?lookup view (mi_imports input))" by simp
  have en: "enumerates eorder aggs" using assms(2) by (simp add: aggs index)
  let ?r = "derive_module_dependency_edges_in_view forder eorder input view"
  obtain r where r: "?r = Inr r" "mg_diagnostics r = d"
    "mg_remainder r = from_relations view (filter_map (\<lambda>k. map_option ag_partitions (aggs k)) eorder)"
    "mg_edges r = sort_key (\<lambda>e. (me_source_canonical_path e, me_target_canonical_path e))
      (filter_map (emitted ?lookup aggs) eorder)"
    using Inr pi by (auto simp: derive_module_dependency_edges_in_view_def Let_def)
  have "sorted (map (\<lambda>e. (me_source_canonical_path e, me_target_canonical_path e)) (mg_edges r))"
    by (simp add: r(4))
  moreover have "list_all (\<lambda>f. length (owners_of (mi_ownership input) (fo_file_uid f)) \<le> 1) (mi_ownership input)"
    using single by (simp add: list_all_iff)
  moreover have "diagnostics_match index ?lookup (admitted_imports view (mi_imports input)) (mg_diagnostics r)"
    using process_imports_diagnostics [of index ?lookup view "mi_imports input"] by (simp add: pi r(2))
  ultimately show ?thesis
    unfolding r(1) sum.case
    using module_edges_derived [OF assms(1,2) r(1)] remainder_derived [OF en aggs r(3)] index by simp
qed

definition demo_module_input :: module_edge_input where
  "demo_module_input =
     \<lparr>mi_imports =
        [\<lparr>rif_source_file_uid = ''f1'', rif_target_file_uid = ''f2'',
           rif_partition = \<lparr>ipt_class = Certain, ipt_status = Production\<rparr>\<rparr>,
         \<lparr>rif_source_file_uid = ''f1'', rif_target_file_uid = ''f2'',
           rif_partition = \<lparr>ipt_class = Inferred, ipt_status = Test\<rparr>\<rparr>],
      mi_ownership = [\<lparr>fo_file_uid = ''f1'', fo_module_uid = ''m1''\<rparr>, \<lparr>fo_file_uid = ''f2'', fo_module_uid = ''m2''\<rparr>],
      mi_modules = [\<lparr>mr_module_uid = ''m1'', mr_canonical_path = ''a''\<rparr>, \<lparr>mr_module_uid = ''m2'', mr_canonical_path = ''b''\<rparr>]\<rparr>"

lemma demo_owners:
  "owners_of (mi_ownership demo_module_input) f = (if f = ''f1'' then [''m1''] else if f = ''f2'' then [''m2''] else [])"
  by (auto simp: owners_of_def demo_module_input_def)

lemma demo_files: "enumerates [''f2'', ''f1''] (file_to_modules (mi_ownership demo_module_input))"
  by (auto simp: enumerates_def file_to_modules_spec demo_owners split: if_splits)

lemma demo_key:
  "i \<in> set (mi_imports demo_module_input) \<Longrightarrow>
     import_key (owner_of (mi_ownership demo_module_input)) i = Some (''m1'', ''m2'')"
  by (auto simp: demo_module_input_def import_key_def owner_of_def owners_of_def)

lemma demo_pairs:
  "enumerates [(''m1'', ''m2'')] (snd (process_imports (owner_of (mi_ownership demo_module_input))
     (module_lookup (mi_modules demo_module_input)) VIEW_DEFAULT (mi_imports demo_module_input)))"
proof -
  let ?imps = "mi_imports demo_module_input"
  have "relation_imports (owner_of (mi_ownership demo_module_input)) ?imps k =
      (if k = (''m1'', ''m2'') then ?imps else [])" for k
    unfolding relation_imports_def using demo_key by (auto simp: filter_id_conv filter_empty_conv)
  moreover have "?imps \<noteq> []" by (simp add: demo_module_input_def)
  ultimately show ?thesis
    by (auto simp: enumerates_def process_imports_aggs dom_def split: if_splits)
qed

theorem module_edges_match_facts_witness:
  "\<exists>r. derive_module_dependency_edges_in_view [''f2'', ''f1''] [(''m1'', ''m2'')] demo_module_input VIEW_DEFAULT = Inr r \<and>
     map me_import_count (mg_edges r) = [1] \<and> dg_cross_module (mg_diagnostics r) = 1 \<and>
     remainder_matches (owner_of (mi_ownership demo_module_input)) VIEW_DEFAULT (mi_imports demo_module_input)
       (mg_remainder r)"
proof -
  have "(case derive_module_dependency_edges_in_view [''f2'', ''f1''] [(''m1'', ''m2'')] demo_module_input VIEW_DEFAULT of
      Inr r \<Rightarrow> Some (map me_import_count (mg_edges r), dg_cross_module (mg_diagnostics r)) | Inl _ \<Rightarrow> None) = Some ([1], 1)"
    by code_simp
  then obtain r where r: "derive_module_dependency_edges_in_view [''f2'', ''f1''] [(''m1'', ''m2'')]
      demo_module_input VIEW_DEFAULT = Inr r" "map me_import_count (mg_edges r) = [1]"
    "dg_cross_module (mg_diagnostics r) = 1"
    by (auto split: sum.splits)
  moreover have "distinct (mi_ownership demo_module_input)" by (simp add: demo_module_input_def)
  ultimately show ?thesis
    using module_edges_match_facts [OF demo_files demo_pairs] by (simp only: sum.case) auto
qed

lemma weighted_neighbors_sorted:
  "sorted (map (\<lambda>n. (- int (wn_import_count n), wn_module_uid n)) (wn_outbound (compute_weighted_neighbors m es)))"
  "sorted (map (\<lambda>n. (- int (wn_import_count n), wn_module_uid n)) (wn_inbound (compute_weighted_neighbors m es)))"
  by (simp_all add: compute_weighted_neighbors_def sort_neighbors_def)

text \<open>An edge is listed at both of its ends: the weights of all outbound lists are those of all inbound ones.\<close>

lemma weighted_neighbors_dual:
  "w \<in> set (wn_outbound (compute_weighted_neighbors m es)) \<and> wn_module_uid w = k \<longleftrightarrow>
   w\<lparr>wn_module_uid := m\<rparr> \<in> set (wn_inbound (compute_weighted_neighbors k es)) \<and> wn_module_uid w = k"
  by (cases w) (auto simp: compute_weighted_neighbors_def sort_neighbors_def image_iff)

end
