(* ===== verification/Boundary_Policy.thy ===== *)
theory Boundary_Policy
  imports Module_Edges "HOL-Library.Multiset"
begin

text \<open>
  Module boundaries: the parser of declared boundaries, \<open>classification/src/boundary_parser.rs\<close>, and
  their evaluation on the module edges, \<open>boundary_evaluator.rs\<close>. The JSON parser is third-party code:
  \<open>from_str\<close> is a parameter that gives the decoded value or the message of its error.
\<close>

section \<open>Parsing declarations\<close>

record raw_boundary_declaration =
  rb_declaration_uid :: string
  rb_value_json :: string

record evaluatable_boundary =
  eb_declaration_uid :: string
  eb_source_canonical_path :: string
  eb_target_canonical_path :: string
  eb_reason :: "string option"

datatype boundary_parse_error =
    InvalidJson string string
  | UnknownSelectorDomain string string
  | InvalidDiscoveredModulePayload string string

record module_identity_json =
  mj_canonical_root_path :: "string option"

datatype forbids_json = LegacyString string | DiscoveredModule module_identity_json

record boundary_value_json =
  bv_selector_domain :: "string option"
  bv_source :: "module_identity_json option"
  bv_forbids :: "forbids_json option"
  bv_reason :: "string option"

definition fmt_boundary_parse_error :: "boundary_parse_error \<Rightarrow> string" where
  "fmt_boundary_parse_error e = (case e of
     InvalidJson uid msg \<Rightarrow> ''boundary '' @ uid @ '' has invalid JSON: '' @ msg
   | UnknownSelectorDomain uid d \<Rightarrow> ''boundary '' @ uid @ '' has unknown selectorDomain: '' @ d @
       '' (expected \"directory_module\" or \"discovered_module\")''
   | InvalidDiscoveredModulePayload uid msg \<Rightarrow>
       ''boundary '' @ uid @ '' has invalid discovered_module payload: '' @ msg)"

definition parse_discovered_module_payload ::
  "raw_boundary_declaration \<Rightarrow> boundary_value_json \<Rightarrow> boundary_parse_error + evaluatable_boundary" where
  "parse_discovered_module_payload decl v =
     (let invalid = \<lambda>msg. Inl (InvalidDiscoveredModulePayload (rb_declaration_uid decl) msg) in
      case Option.bind (bv_source v) mj_canonical_root_path of
        None \<Rightarrow> invalid ''missing source.canonicalRootPath''
      | Some source_path \<Rightarrow>
          (case bv_forbids v of
             Some (DiscoveredModule m) \<Rightarrow>
               (case mj_canonical_root_path m of
                  None \<Rightarrow> invalid ''missing forbids.canonicalRootPath''
                | Some target_path \<Rightarrow> Inr \<lparr>eb_declaration_uid = rb_declaration_uid decl,
                    eb_source_canonical_path = source_path, eb_target_canonical_path = target_path,
                    eb_reason = bv_reason v\<rparr>)
           | Some (LegacyString _) \<Rightarrow> invalid ''forbids must be object for discovered_module, got string''
           | None \<Rightarrow> invalid ''missing forbids''))"

text \<open>One declaration: an error, nothing for a legacy one, or its boundary.\<close>

definition parse_declaration ::
  "(string \<Rightarrow> string + boundary_value_json) \<Rightarrow> raw_boundary_declaration \<Rightarrow>
   boundary_parse_error + evaluatable_boundary option" where
  "parse_declaration from_str decl =
     (case from_str (rb_value_json decl) of
        Inl msg \<Rightarrow> Inl (InvalidJson (rb_declaration_uid decl) msg)
      | Inr v \<Rightarrow>
          (case bv_selector_domain v of
             None \<Rightarrow> Inr None
           | Some d \<Rightarrow>
               if d = ''directory_module'' then Inr None
               else if d = ''discovered_module'' then
                 (case parse_discovered_module_payload decl v of Inl e \<Rightarrow> Inl e | Inr b \<Rightarrow> Inr (Some b))
               else Inl (UnknownSelectorDomain (rb_declaration_uid decl) d)))"

fun parse_loop ::
  "(string \<Rightarrow> string + boundary_value_json) \<Rightarrow> evaluatable_boundary list \<Rightarrow> raw_boundary_declaration list \<Rightarrow>
   boundary_parse_error + evaluatable_boundary list" where
  "parse_loop from_str results [] = Inr results"
| "parse_loop from_str results (decl # decls) = (case parse_declaration from_str decl of
     Inl e \<Rightarrow> Inl e
   | Inr None \<Rightarrow> parse_loop from_str results decls
   | Inr (Some b) \<Rightarrow> parse_loop from_str (results @ [b]) decls)"

definition parse_discovered_module_boundaries ::
  "(string \<Rightarrow> string + boundary_value_json) \<Rightarrow> raw_boundary_declaration list \<Rightarrow>
   boundary_parse_error + evaluatable_boundary list" where
  "parse_discovered_module_boundaries from_str decls = parse_loop from_str [] decls"

section \<open>Evaluation\<close>

datatype stale_side = Side_Source | Side_Target | Side_Both

record module_boundary_violation =
  mv_declaration_uid :: string
  mv_source_canonical_path :: string
  mv_target_canonical_path :: string
  mv_import_count :: nat
  mv_source_file_count :: nat
  mv_reason :: "string option"

record stale_boundary_declaration =
  sb_declaration_uid :: string
  sb_stale_side :: stale_side
  sb_missing_paths :: "string list"

record module_boundary_evaluation =
  bo_violations :: "module_boundary_violation list"
  bo_stale_declarations :: "stale_boundary_declaration list"

definition edge_map :: "module_dependency_edge list \<Rightarrow> (string \<times> string \<rightharpoonup> module_dependency_edge)" where
  "edge_map edges = insert_all Map.empty
     (map (\<lambda>e. ((me_source_canonical_path e, me_target_canonical_path e), e)) edges)"

definition stale_of :: "(string \<rightharpoonup> string) \<Rightarrow> evaluatable_boundary \<Rightarrow> stale_boundary_declaration option" where
  "stale_of module_index b =
     (let source_exists = module_index (eb_source_canonical_path b) \<noteq> None;
          target_exists = module_index (eb_target_canonical_path b) \<noteq> None;
          stale = \<lambda>side paths. Some \<lparr>sb_declaration_uid = eb_declaration_uid b, sb_stale_side = side,
            sb_missing_paths = paths\<rparr>
      in if \<not> source_exists \<and> \<not> target_exists
         then stale Side_Both [eb_source_canonical_path b, eb_target_canonical_path b]
         else if \<not> source_exists then stale Side_Source [eb_source_canonical_path b]
         else if \<not> target_exists then stale Side_Target [eb_target_canonical_path b]
         else None)"

definition violation_of ::
  "(string \<times> string \<rightharpoonup> module_dependency_edge) \<Rightarrow> evaluatable_boundary \<Rightarrow> module_boundary_violation option" where
  "violation_of edges b =
     map_option (\<lambda>e. \<lparr>mv_declaration_uid = eb_declaration_uid b,
       mv_source_canonical_path = eb_source_canonical_path b,
       mv_target_canonical_path = eb_target_canonical_path b, mv_import_count = me_import_count e,
       mv_source_file_count = me_source_file_count e, mv_reason = eb_reason b\<rparr>)
       (edges (eb_source_canonical_path b, eb_target_canonical_path b))"

fun evaluate_loop ::
  "(string \<times> string \<rightharpoonup> module_dependency_edge) \<Rightarrow> (string \<rightharpoonup> string) \<Rightarrow>
   module_boundary_violation list \<times> stale_boundary_declaration list \<Rightarrow> evaluatable_boundary list \<Rightarrow>
   module_boundary_violation list \<times> stale_boundary_declaration list" where
  "evaluate_loop edges index acc [] = acc"
| "evaluate_loop edges index (vs, ss) (b # bs) = (case stale_of index b of
     Some s \<Rightarrow> evaluate_loop edges index (vs, ss @ [s]) bs
   | None \<Rightarrow> (case violation_of edges b of
       Some v \<Rightarrow> evaluate_loop edges index (vs @ [v], ss) bs
     | None \<Rightarrow> evaluate_loop edges index (vs, ss) bs))"

definition evaluate_module_boundaries ::
  "evaluatable_boundary list \<Rightarrow> module_dependency_edge list \<Rightarrow> (string \<rightharpoonup> string) \<Rightarrow> module_boundary_evaluation" where
  "evaluate_module_boundaries boundaries edges module_index =
     (let (vs, ss) = evaluate_loop (edge_map edges) module_index ([], []) boundaries
      in \<lparr>bo_violations = sort_key (\<lambda>v. (mv_source_canonical_path v, mv_target_canonical_path v,
            mv_declaration_uid v)) vs,
          bo_stale_declarations = sort_key sb_declaration_uid ss\<rparr>)"

section \<open>What parsing accepts\<close>

lemma parse_loop_spec:
  "parse_loop from_str results decls =
     (case first_some (\<lambda>d. case parse_declaration from_str d of Inl e \<Rightarrow> Some e | Inr _ \<Rightarrow> None) decls of
        Some e \<Rightarrow> Inl e
      | None \<Rightarrow> Inr (results @ filter_map (\<lambda>d. case parse_declaration from_str d of
          Inr (Some b) \<Rightarrow> Some b | _ \<Rightarrow> None) decls))"
proof (induction decls arbitrary: results)
  case (Cons d decls)
  show ?case
  proof (cases "parse_declaration from_str d")
    case (Inr b)
    with Cons.IH show ?thesis
      by (cases b; cases "first_some (\<lambda>d. case parse_declaration from_str d of Inl e \<Rightarrow> Some e | Inr _ \<Rightarrow> None) decls")
        (simp_all del: first_some_None)
  qed simp
qed simp

section \<open>What evaluation reports\<close>

lemma evaluate_loop_spec:
  "evaluate_loop edges index (vs, ss) bs =
     (vs @ filter_map (violation_of edges) (filter (\<lambda>b. stale_of index b = None) bs),
      ss @ filter_map (stale_of index) bs)"
  by (induction bs arbitrary: vs ss) (auto split: option.splits)

lemma edge_map_iff:
  "edge_map edges (p, q) \<noteq> None \<longleftrightarrow>
     (\<exists>e \<in> set edges. me_source_canonical_path e = p \<and> me_target_canonical_path e = q)"
  by (force simp: edge_map_def insert_all_map_of_rev map_of_eq_None_iff image_iff)

lemma edge_map_Some:
  "edge_map edges (p, q) = Some e \<Longrightarrow>
     e \<in> set edges \<and> me_source_canonical_path e = p \<and> me_target_canonical_path e = q"
  by (auto simp: edge_map_def insert_all_map_of_rev dest!: map_of_SomeD)

lemma stale_of_None:
  "stale_of index b = None \<longleftrightarrow>
     index (eb_source_canonical_path b) \<noteq> None \<and> index (eb_target_canonical_path b) \<noteq> None"
  by (simp add: stale_of_def Let_def)

lemma stale_of_missing:
  "stale_of index b = Some s \<Longrightarrow> sb_declaration_uid s = eb_declaration_uid b \<and>
     sb_missing_paths s = filter (\<lambda>p. index p = None) [eb_source_canonical_path b, eb_target_canonical_path b] \<and>
     sb_missing_paths s \<noteq> []"
  by (auto simp: stale_of_def Let_def split: if_splits)

lemma length_filter_map: "length (filter_map f xs) = length (filter (\<lambda>x. f x \<noteq> None) xs)"
  by (induction xs) (auto split: option.splits)

lemma stale_violated_clean:
  "length (filter (\<lambda>b. v b \<noteq> None) (filter (\<lambda>b. s b = None) bs)) + length (filter (\<lambda>b. s b \<noteq> None) bs) +
     length (filter (\<lambda>b. s b = None \<and> v b = None) bs) = length bs"
  by (induction bs) auto

text \<open>
  Module boundaries are judged on the facts: with the module edges derived from a set of facts in
  some view, and the module paths of those facts, every boundary is counted as stale, violated or
  neither; the stale ones are those with a path that no module has, and list just those paths; a
  boundary between existing modules is violated exactly if some admitted import leads from a file of
  a module with its source path to a file of a module with its target path, and the reported counts
  are those of such a pair of modules.
\<close>

theorem boundaries_judged_on_facts:
  fixes input :: module_edge_input
  assumes en: "enumerates forder (file_to_modules (mi_ownership input))"
      "enumerates eorder (snd (process_imports (owner_of (mi_ownership input)) (module_lookup (mi_modules input))
        view (mi_imports input)))"
    and r: "derive_module_dependency_edges_in_view forder eorder input view = Inr r"
    and index: "dom module_index = mr_canonical_path ` set (mi_modules input)"
    and ev: "ev = evaluate_module_boundaries bs (mg_edges r) module_index"
  shows "length (bo_violations ev) + length (bo_stale_declarations ev) +
      length (filter (\<lambda>b. stale_of module_index b = None \<and> violation_of (edge_map (mg_edges r)) b = None) bs) =
      length bs \<and>
    set (bo_stale_declarations ev) = {s. \<exists>b \<in> set bs. stale_of module_index b = Some s} \<and>
    set (bo_violations ev) = {v. \<exists>b \<in> set bs. stale_of module_index b = None \<and>
      violation_of (edge_map (mg_edges r)) b = Some v} \<and>
    list_all (\<lambda>b. case stale_of module_index b of
        None \<Rightarrow> {eb_source_canonical_path b, eb_target_canonical_path b} \<subseteq> mr_canonical_path ` set (mi_modules input)
      | Some s \<Rightarrow> sb_declaration_uid s = eb_declaration_uid b \<and> sb_missing_paths s \<noteq> [] \<and>
          sb_missing_paths s = filter (\<lambda>p. p \<notin> mr_canonical_path ` set (mi_modules input))
            [eb_source_canonical_path b, eb_target_canonical_path b]) bs \<and>
    list_all (\<lambda>b. violation_of (edge_map (mg_edges r)) b \<noteq> None \<longleftrightarrow>
      (\<exists>i \<in> set (mi_imports input). \<exists>s t. admits view (rif_partition i) \<and>
         import_key (owner_of (mi_ownership input)) i = Some (s, t) \<and>
         module_lookup (mi_modules input) s = Some (eb_source_canonical_path b) \<and>
         module_lookup (mi_modules input) t = Some (eb_target_canonical_path b))) bs"
proof (intro conjI)
  let ?E = "edge_map (mg_edges r)" and ?own = "owner_of (mi_ownership input)"
  let ?lookup = "module_lookup (mi_modules input)"
  have vs: "mset (bo_violations ev) = mset (filter_map (violation_of ?E) (filter (\<lambda>b. stale_of module_index b = None) bs))"
    and ss: "mset (bo_stale_declarations ev) = mset (filter_map (stale_of module_index) bs)"
    by (simp_all add: ev evaluate_module_boundaries_def evaluate_loop_spec)
  from mset_eq_length [OF vs] mset_eq_length [OF ss]
  show "length (bo_violations ev) + length (bo_stale_declarations ev) +
      length (filter (\<lambda>b. stale_of module_index b = None \<and> violation_of ?E b = None) bs) = length bs"
    using stale_violated_clean [of "violation_of ?E" "stale_of module_index" bs] by (simp add: length_filter_map)
  from mset_eq_setD [OF vs] mset_eq_setD [OF ss]
  show "set (bo_stale_declarations ev) = {s. \<exists>b \<in> set bs. stale_of module_index b = Some s}"
    "set (bo_violations ev) = {v. \<exists>b \<in> set bs. stale_of module_index b = None \<and> violation_of ?E b = Some v}"
    by auto
  have "module_index p = None \<longleftrightarrow> p \<notin> mr_canonical_path ` set (mi_modules input)" for p
    unfolding index [symmetric] by auto
  then show "list_all (\<lambda>b. case stale_of module_index b of
        None \<Rightarrow> {eb_source_canonical_path b, eb_target_canonical_path b} \<subseteq> mr_canonical_path ` set (mi_modules input)
      | Some s \<Rightarrow> sb_declaration_uid s = eb_declaration_uid b \<and> sb_missing_paths s \<noteq> [] \<and>
          sb_missing_paths s = filter (\<lambda>p. p \<notin> mr_canonical_path ` set (mi_modules input))
            [eb_source_canonical_path b, eb_target_canonical_path b]) bs"
    using stale_of_missing [of module_index] stale_of_None [of module_index]
    by (simp add: list_all_iff split: option.split)
  have edges: "set (mg_edges r) = reference_edges ?own ?lookup view (mi_imports input)"
    by (rule module_edges_derived(1) [OF en r])
  have "violation_of ?E b \<noteq> None \<longleftrightarrow> (\<exists>i \<in> set (mi_imports input). \<exists>s t. admits view (rif_partition i) \<and>
         import_key ?own i = Some (s, t) \<and> ?lookup s = Some (eb_source_canonical_path b) \<and>
         ?lookup t = Some (eb_target_canonical_path b))" (is "_ \<longleftrightarrow> ?I b") for b
  proof -
    have "violation_of ?E b \<noteq> None \<longleftrightarrow> (\<exists>e \<in> reference_edges ?own ?lookup view (mi_imports input).
        me_source_canonical_path e = eb_source_canonical_path b \<and>
        me_target_canonical_path e = eb_target_canonical_path b)"
      unfolding violation_of_def edges [symmetric] by (simp only: option.map_disc_iff edge_map_iff simp_thms)
    also have "\<dots> \<longleftrightarrow> ?I b"
      by (rule reference_edge_import)
    finally show ?thesis .
  qed
  then show "list_all (\<lambda>b. violation_of ?E b \<noteq> None \<longleftrightarrow> ?I b) bs" by (simp add: list_all_iff)
qed

definition demo_boundary :: evaluatable_boundary where
  "demo_boundary = \<lparr>eb_declaration_uid = ''d1'', eb_source_canonical_path = ''a'', eb_target_canonical_path = ''b'',
     eb_reason = None\<rparr>"

theorem boundaries_judged_on_facts_witness:
  "\<exists>r. derive_module_dependency_edges_in_view [''f2'', ''f1''] [(''m1'', ''m2'')] demo_module_input VIEW_DEFAULT = Inr r \<and>
     bo_violations (evaluate_module_boundaries [demo_boundary] (mg_edges r) [''a'' \<mapsto> ''m1'', ''b'' \<mapsto> ''m2'']) \<noteq> []"
proof -
  let ?index = "[''a'' \<mapsto> ''m1'', ''b'' \<mapsto> ''m2'']"
  have "(case derive_module_dependency_edges_in_view [''f2'', ''f1''] [(''m1'', ''m2'')] demo_module_input VIEW_DEFAULT of
      Inr _ \<Rightarrow> True | Inl _ \<Rightarrow> False)" by code_simp
  then obtain r where r: "derive_module_dependency_edges_in_view [''f2'', ''f1''] [(''m1'', ''m2'')]
      demo_module_input VIEW_DEFAULT = Inr r" by (auto split: sum.splits)
  have index: "dom ?index = mr_canonical_path ` set (mi_modules demo_module_input)"
    by (auto simp: demo_module_input_def)
  have look: "module_lookup (mi_modules demo_module_input) ''m1'' = Some ''a''"
    "module_lookup (mi_modules demo_module_input) ''m2'' = Some ''b''"
    by (simp_all add: module_lookup_def demo_module_input_def)
  have i: "hd (mi_imports demo_module_input) \<in> set (mi_imports demo_module_input)"
    "admits VIEW_DEFAULT (rif_partition (hd (mi_imports demo_module_input)))"
    by (simp_all add: demo_module_input_def admits_def VIEW_DEFAULT_def is_production_partition_def)
  from boundaries_judged_on_facts [OF demo_files demo_pairs r index refl, of "[demo_boundary]"]
  have viol: "violation_of (edge_map (mg_edges r)) demo_boundary \<noteq> None"
    and set: "set (bo_violations (evaluate_module_boundaries [demo_boundary] (mg_edges r) ?index)) =
      {v. \<exists>b \<in> set [demo_boundary]. stale_of ?index b = None \<and> violation_of (edge_map (mg_edges r)) b = Some v}"
    using i demo_key [OF i(1)] look by (simp_all add: demo_boundary_def) blast
  have "stale_of ?index demo_boundary = None"
    by (simp add: stale_of_None demo_boundary_def)
  with viol set have "set (bo_violations (evaluate_module_boundaries [demo_boundary] (mg_edges r) ?index)) \<noteq> {}"
    by auto
  then show ?thesis using r by auto
qed

end
