(* ===== verification/Rollup.thy ===== *)
theory Rollup
  imports Boundary_Policy
begin

text \<open>
  Statistics per module (\<open>classification/src/module_rollup.rs\<close>) from the owned files, the dependency edges, the boundary
  violations and the unreferenced symbols. The orders in which the hash maps are iterated are parameters: \<open>dorder\<close> of the
  duplicated files, \<open>forder\<close> of the owned files, \<open>morder\<close> of the modules. A counter counts elements of lists in memory
  and is a natural number.
\<close>

section \<open>Model\<close>

record owned_file_fact =
  of_file_path :: string
  of_module_uid :: string
  of_is_test :: bool

record dead_node_fact =
  dn_file_path :: string
  dn_is_test :: bool

record module_rollup_input =
  ri_modules :: "module_ref list"
  ri_owned_files :: "owned_file_fact list"
  ri_edges :: "module_dependency_edge list"
  ri_violations :: "module_boundary_violation list"
  ri_dead_nodes :: "dead_node_fact list"

record module_rollup =
  ro_module_uid :: string
  ro_canonical_path :: string
  ro_owned_file_count :: nat
  ro_owned_test_file_count :: nat
  ro_outbound_dependency_count :: nat
  ro_outbound_import_count :: nat
  ro_inbound_dependency_count :: nat
  ro_inbound_import_count :: nat
  ro_violation_count :: nat
  ro_dead_symbol_count :: nat
  ro_dead_test_symbol_count :: nat

datatype module_rollup_error = Rollup_DuplicateOwnership string "string list"

text \<open>Step 1: the owner of each file, and the files that a second module claims.\<close>

definition ownership_step ::
  "(string \<rightharpoonup> string \<times> bool) \<times> (string \<rightharpoonup> string list) \<Rightarrow> owned_file_fact \<Rightarrow>
   (string \<rightharpoonup> string \<times> bool) \<times> (string \<rightharpoonup> string list)" where
  "ownership_step s f = (case s of (file_to_module, duplicates) \<Rightarrow>
     (let path = of_file_path f; module = of_module_uid f in
      case file_to_module path of
        Some (existing_module, _) \<Rightarrow>
          if existing_module \<noteq> module
          then (file_to_module, map_entry path [existing_module] (\<lambda>ms. ms @ [module]) duplicates)
          else (file_to_module, duplicates)
      | None \<Rightarrow> (file_to_module(path \<mapsto> (module, of_is_test f)), duplicates)))"

definition ownership_maps :: "owned_file_fact list \<Rightarrow> (string \<rightharpoonup> string \<times> bool) \<times> (string \<rightharpoonup> string list)" where
  "ownership_maps facts = foldl ownership_step (\<lambda>_. None, \<lambda>_. None) facts"

record rollup_accumulator =
  ra_canonical_path :: string
  ra_owned_file_count :: nat
  ra_owned_test_file_count :: nat
  ra_outbound_modules :: "string set"
  ra_outbound_import_count :: nat
  ra_inbound_modules :: "string set"
  ra_inbound_import_count :: nat
  ra_violation_count :: nat
  ra_dead_symbol_count :: nat
  ra_dead_test_symbol_count :: nat

definition new_accumulator :: "string \<Rightarrow> rollup_accumulator" where
  "new_accumulator path = \<lparr>ra_canonical_path = path, ra_owned_file_count = 0, ra_owned_test_file_count = 0,
     ra_outbound_modules = {}, ra_outbound_import_count = 0, ra_inbound_modules = {}, ra_inbound_import_count = 0,
     ra_violation_count = 0, ra_dead_symbol_count = 0, ra_dead_test_symbol_count = 0\<rparr>"

type_synonym accumulators = "string \<rightharpoonup> rollup_accumulator"

definition init_accumulators :: "module_ref list \<Rightarrow> accumulators" where
  "init_accumulators modules = foldl (\<lambda>m r. m(mr_module_uid r \<mapsto> new_accumulator (mr_canonical_path r))) (\<lambda>_. None) modules"

text \<open>\<open>if let Some(acc) = accumulators.get_mut(k)\<close>.\<close>

definition modify_entry :: "'k \<Rightarrow> ('v \<Rightarrow> 'v) \<Rightarrow> ('k \<rightharpoonup> 'v) \<Rightarrow> ('k \<rightharpoonup> 'v)" where
  "modify_entry k f m = (case m k of None \<Rightarrow> m | Some a \<Rightarrow> m(k \<mapsto> f a))"

definition count_file :: "bool \<Rightarrow> rollup_accumulator \<Rightarrow> rollup_accumulator" where
  "count_file is_test acc =
     (if is_test then acc\<lparr>ra_owned_test_file_count := ra_owned_test_file_count acc + 1\<rparr>
      else acc\<lparr>ra_owned_file_count := ra_owned_file_count acc + 1\<rparr>)"

definition count_outbound :: "module_dependency_edge \<Rightarrow> rollup_accumulator \<Rightarrow> rollup_accumulator" where
  "count_outbound edge acc = acc\<lparr>ra_outbound_modules := insert (me_target_module_uid edge) (ra_outbound_modules acc),
     ra_outbound_import_count := ra_outbound_import_count acc + me_import_count edge\<rparr>"

definition count_inbound :: "module_dependency_edge \<Rightarrow> rollup_accumulator \<Rightarrow> rollup_accumulator" where
  "count_inbound edge acc = acc\<lparr>ra_inbound_modules := insert (me_source_module_uid edge) (ra_inbound_modules acc),
     ra_inbound_import_count := ra_inbound_import_count acc + me_import_count edge\<rparr>"

definition count_edge :: "accumulators \<Rightarrow> module_dependency_edge \<Rightarrow> accumulators" where
  "count_edge m edge = modify_entry (me_target_module_uid edge) (count_inbound edge)
     (modify_entry (me_source_module_uid edge) (count_outbound edge) m)"

definition count_violation :: "string list \<Rightarrow> accumulators \<Rightarrow> module_boundary_violation \<Rightarrow> accumulators" where
  "count_violation morder m violation =
     (case List.find (\<lambda>uid. case m uid of None \<Rightarrow> False
         | Some a \<Rightarrow> ra_canonical_path a = mv_source_canonical_path violation) morder of
        None \<Rightarrow> m
      | Some uid \<Rightarrow> modify_entry uid (\<lambda>acc. acc\<lparr>ra_violation_count := ra_violation_count acc + 1\<rparr>) m)"

definition count_dead :: "bool \<Rightarrow> rollup_accumulator \<Rightarrow> rollup_accumulator" where
  "count_dead is_test acc =
     (if is_test then acc\<lparr>ra_dead_test_symbol_count := ra_dead_test_symbol_count acc + 1\<rparr>
      else acc\<lparr>ra_dead_symbol_count := ra_dead_symbol_count acc + 1\<rparr>)"

definition attribute_dead :: "(string \<rightharpoonup> string \<times> bool) \<Rightarrow> accumulators \<Rightarrow> dead_node_fact \<Rightarrow> accumulators" where
  "attribute_dead file_to_module m dead = (case file_to_module (dn_file_path dead) of
     None \<Rightarrow> m
   | Some (module_uid, _) \<Rightarrow> modify_entry module_uid (count_dead (dn_is_test dead)) m)"

definition count_owned :: "(string \<rightharpoonup> string \<times> bool) \<Rightarrow> accumulators \<Rightarrow> string \<Rightarrow> accumulators" where
  "count_owned file_to_module m path = (case file_to_module path of
     None \<Rightarrow> m
   | Some (module_uid, is_test) \<Rightarrow> modify_entry module_uid (count_file is_test) m)"

definition rollup_of :: "string \<Rightarrow> rollup_accumulator \<Rightarrow> module_rollup" where
  "rollup_of module_uid acc = \<lparr>ro_module_uid = module_uid, ro_canonical_path = ra_canonical_path acc,
     ro_owned_file_count = ra_owned_file_count acc, ro_owned_test_file_count = ra_owned_test_file_count acc,
     ro_outbound_dependency_count = card (ra_outbound_modules acc), ro_outbound_import_count = ra_outbound_import_count acc,
     ro_inbound_dependency_count = card (ra_inbound_modules acc), ro_inbound_import_count = ra_inbound_import_count acc,
     ro_violation_count = ra_violation_count acc, ro_dead_symbol_count = ra_dead_symbol_count acc,
     ro_dead_test_symbol_count = ra_dead_test_symbol_count acc\<rparr>"

definition compute_module_rollups ::
  "string list \<Rightarrow> string list \<Rightarrow> string list \<Rightarrow> module_rollup_input \<Rightarrow> module_rollup_error + module_rollup list" where
  "compute_module_rollups dorder forder morder input =
     (let (file_to_module, duplicates) = ownership_maps (ri_owned_files input)
      in case dorder of
           path # _ \<Rightarrow> Inl (Rollup_DuplicateOwnership path (case duplicates path of None \<Rightarrow> [] | Some ms \<Rightarrow> ms))
         | [] \<Rightarrow>
             (let accs = init_accumulators (ri_modules input);
                  accs = foldl (count_owned file_to_module) accs forder;
                  accs = foldl count_edge accs (ri_edges input);
                  accs = foldl (count_violation morder) accs (ri_violations input);
                  accs = foldl (attribute_dead file_to_module) accs (ri_dead_nodes input)
              in Inr (sort_key ro_canonical_path
                   (filter_map (\<lambda>uid. map_option (rollup_of uid) (accs uid)) morder))))"

section \<open>Ownership\<close>

definition first_owner :: "owned_file_fact list \<Rightarrow> string \<Rightarrow> (string \<times> bool) option" where
  "first_owner facts path = map_option (\<lambda>f. (of_module_uid f, of_is_test f)) (List.find (\<lambda>f. of_file_path f = path) facts)"

definition other_owners :: "owned_file_fact list \<Rightarrow> string \<Rightarrow> string list" where
  "other_owners facts path = (case first_owner facts path of
     None \<Rightarrow> []
   | Some (u, _) \<Rightarrow> map of_module_uid (filter (\<lambda>f. of_file_path f = path \<and> of_module_uid f \<noteq> u) facts))"

lemma find_snoc: "List.find P (xs @ [x]) = (case List.find P xs of None \<Rightarrow> if P x then Some x else None | Some y \<Rightarrow> Some y)"
  by (induction xs) auto

lemma first_owner_snoc:
  "first_owner (facts @ [f]) path = (case first_owner facts path of
     None \<Rightarrow> if of_file_path f = path then Some (of_module_uid f, of_is_test f) else None | Some o' \<Rightarrow> Some o')"
  by (simp add: first_owner_def find_snoc split: option.split)

lemma first_owner_None: "first_owner facts path = None \<longleftrightarrow> (\<forall>f \<in> set facts. of_file_path f \<noteq> path)"
  by (auto simp: first_owner_def find_None_iff)

lemma ownership_maps_spec:
  "fst (ownership_maps facts) path = first_owner facts path \<and>
   snd (ownership_maps facts) path = (case other_owners facts path of
     [] \<Rightarrow> None | ms \<Rightarrow> Some (fst (the (first_owner facts path)) # ms))"
proof (induction facts arbitrary: path rule: rev_induct)
  case Nil
  then show ?case by (simp add: ownership_maps_def first_owner_def other_owners_def)
next
  case (snoc f facts)
  obtain ftm dups where s: "ownership_maps facts = (ftm, dups)" by fastforce
  have step: "ownership_maps (facts @ [f]) = ownership_step (ftm, dups) f"
    using s by (simp add: ownership_maps_def)
  from snoc.IH s have ftm: "ftm p = first_owner facts p"
    and dups: "dups p = (case other_owners facts p of [] \<Rightarrow> None | ms \<Rightarrow> Some (fst (the (first_owner facts p)) # ms))" for p
    by auto
  have none: "other_owners facts p = []" if "first_owner facts p = None" for p
    using that by (simp add: other_owners_def)
  show ?case
  proof (cases "first_owner facts (of_file_path f)")
    case None
    then have "ownership_maps (facts @ [f]) = (ftm(of_file_path f \<mapsto> (of_module_uid f, of_is_test f)), dups)"
      by (simp add: step ownership_step_def Let_def ftm)
    moreover have "other_owners (facts @ [f]) path = other_owners facts path"
    proof (cases "path = of_file_path f")
      case True
      have "\<forall>g \<in> set facts. of_file_path g \<noteq> of_file_path f" using None first_owner_None by blast
      with True None show ?thesis by (simp add: other_owners_def first_owner_snoc filter_empty_conv)
    qed (simp add: other_owners_def first_owner_snoc split: option.split)
    ultimately show ?thesis
      using None none [OF None] by (simp add: ftm dups first_owner_snoc split: option.split list.split)
  next
    case (Some o')
    obtain u t where o': "o' = (u, t)" by fastforce
    show ?thesis
    proof (cases "path = of_file_path f")
      case True
      with Some o' show ?thesis
        by (auto simp: step ownership_step_def ftm dups first_owner_snoc other_owners_def map_entry_def Let_def split: list.splits)
    next
      case False
      with Some o' show ?thesis
        by (auto simp: step ownership_step_def ftm dups first_owner_snoc other_owners_def map_entry_def Let_def
            split: option.splits list.splits)
    qed
  qed
qed

lemma duplicates_iff:
  "snd (ownership_maps facts) path \<noteq> None \<longleftrightarrow>
     (\<exists>f \<in> set facts. \<exists>g \<in> set facts. of_file_path f = path \<and> of_file_path g = path \<and> of_module_uid f \<noteq> of_module_uid g)"
proof -
  have "snd (ownership_maps facts) path \<noteq> None \<longleftrightarrow> other_owners facts path \<noteq> []"
    using ownership_maps_spec [of facts path] by (simp split: list.split)
  also have "\<dots> \<longleftrightarrow> (\<exists>f \<in> set facts. \<exists>g \<in> set facts. of_file_path f = path \<and> of_file_path g = path \<and> of_module_uid f \<noteq> of_module_uid g)"
  proof (cases "List.find (\<lambda>f. of_file_path f = path) facts")
    case None
    then have "first_owner facts path = None" by (simp add: first_owner_def)
    then have "other_owners facts path = []" "\<forall>f \<in> set facts. of_file_path f \<noteq> path"
      by (simp add: other_owners_def, simp only: first_owner_None)
    then show ?thesis by simp
  next
    case (Some f)
    then have "f \<in> set facts" "of_file_path f = path" by (auto simp: find_Some_iff)
    moreover have "other_owners facts path = map of_module_uid (filter (\<lambda>g. of_file_path g = path \<and> of_module_uid g \<noteq> of_module_uid f) facts)"
      using Some by (simp add: other_owners_def first_owner_def)
    ultimately show ?thesis by (auto simp: filter_empty_conv) metis
  qed
  finally show ?thesis .
qed

section \<open>Accumulation\<close>

lemma modify_entry_apply: "modify_entry k f m k' = (if k' = k then map_option f (m k) else m k')"
  by (simp add: modify_entry_def split: option.split)

text \<open>A fold whose steps change each entry on its own.\<close>

lemma fold_entries:
  assumes "\<And>m x. step m x k = map_option (upd x) (m k)"
  shows "foldl step m xs k = map_option (\<lambda>a. foldl (\<lambda>a x. upd x a) a xs) (m k)"
  by (induction xs arbitrary: m) (simp_all add: assms option.map_comp comp_def option.map_ident)

definition owned_upd :: "(string \<rightharpoonup> string \<times> bool) \<Rightarrow> string \<Rightarrow> string \<Rightarrow> rollup_accumulator \<Rightarrow> rollup_accumulator" where
  "owned_upd ftm k path acc = (case ftm path of
     None \<Rightarrow> acc | Some (u, t) \<Rightarrow> if u = k then count_file t acc else acc)"

definition edge_upd :: "string \<Rightarrow> module_dependency_edge \<Rightarrow> rollup_accumulator \<Rightarrow> rollup_accumulator" where
  "edge_upd k e acc =
     (let acc = if me_source_module_uid e = k then count_outbound e acc else acc
      in if me_target_module_uid e = k then count_inbound e acc else acc)"

definition dead_upd :: "(string \<rightharpoonup> string \<times> bool) \<Rightarrow> string \<Rightarrow> dead_node_fact \<Rightarrow> rollup_accumulator \<Rightarrow> rollup_accumulator" where
  "dead_upd ftm k d acc = (case ftm (dn_file_path d) of
     None \<Rightarrow> acc | Some (u, _) \<Rightarrow> if u = k then count_dead (dn_is_test d) acc else acc)"

lemma count_owned_entry: "count_owned ftm m path k = map_option (owned_upd ftm k path) (m k)"
  by (cases "m k") (auto simp: count_owned_def owned_upd_def modify_entry_apply option.map_ident split: option.split)

lemma count_edge_entry: "count_edge m e k = map_option (edge_upd k e) (m k)"
  by (cases "m k") (auto simp: count_edge_def edge_upd_def modify_entry_apply option.map_ident option.map_comp comp_def Let_def)

lemma attribute_dead_entry: "attribute_dead ftm m d k = map_option (dead_upd ftm k d) (m k)"
  by (cases "m k") (auto simp: attribute_dead_def dead_upd_def modify_entry_apply option.map_ident split: option.split)

lemma owned_fold:
  "foldl (\<lambda>a x. owned_upd ftm k x a) acc ps = acc\<lparr>
     ra_owned_file_count := ra_owned_file_count acc + length (filter (\<lambda>p. ftm p = Some (k, False)) ps),
     ra_owned_test_file_count := ra_owned_test_file_count acc + length (filter (\<lambda>p. ftm p = Some (k, True)) ps)\<rparr>"
proof (induction ps arbitrary: acc)
  case (Cons p ps)
  show ?case unfolding foldl_Cons Cons.IH by (auto simp: owned_upd_def count_file_def split: option.split)
qed simp

lemma edge_fold:
  "foldl (\<lambda>a x. edge_upd k x a) acc es = acc\<lparr>
     ra_outbound_modules := ra_outbound_modules acc \<union> me_target_module_uid ` {e \<in> set es. me_source_module_uid e = k},
     ra_outbound_import_count := ra_outbound_import_count acc +
       sum_list (map me_import_count (filter (\<lambda>e. me_source_module_uid e = k) es)),
     ra_inbound_modules := ra_inbound_modules acc \<union> me_source_module_uid ` {e \<in> set es. me_target_module_uid e = k},
     ra_inbound_import_count := ra_inbound_import_count acc +
       sum_list (map me_import_count (filter (\<lambda>e. me_target_module_uid e = k) es))\<rparr>"
proof (induction es arbitrary: acc)
  case (Cons e es)
  have ins: "f ` {x. (x = e \<or> x \<in> set es) \<and> P x} = (if P e then insert (f e) else (\<lambda>A. A)) (f ` {x \<in> set es. P x})"
    for f :: "module_dependency_edge \<Rightarrow> string" and P by auto
  show ?case
    unfolding foldl_Cons Cons.IH by (simp add: edge_upd_def count_outbound_def count_inbound_def Let_def ins)
qed simp

lemma dead_fold:
  "foldl (\<lambda>a x. dead_upd ftm k x a) acc ds = acc\<lparr>
     ra_dead_symbol_count := ra_dead_symbol_count acc +
       length (filter (\<lambda>d. map_option fst (ftm (dn_file_path d)) = Some k \<and> \<not> dn_is_test d) ds),
     ra_dead_test_symbol_count := ra_dead_test_symbol_count acc +
       length (filter (\<lambda>d. map_option fst (ftm (dn_file_path d)) = Some k \<and> dn_is_test d) ds)\<rparr>"
proof (induction ds arbitrary: acc)
  case (Cons d ds)
  show ?case unfolding foldl_Cons Cons.IH by (auto simp: dead_upd_def count_dead_def split: option.split)
qed simp

definition violation_upd ::
  "(string \<rightharpoonup> string) \<Rightarrow> string list \<Rightarrow> string \<Rightarrow> module_boundary_violation \<Rightarrow> rollup_accumulator \<Rightarrow> rollup_accumulator" where
  "violation_upd P morder k v acc =
     (if List.find (\<lambda>uid. P uid = Some (mv_source_canonical_path v)) morder = Some k
      then acc\<lparr>ra_violation_count := ra_violation_count acc + 1\<rparr> else acc)"

lemma count_violation_entry:
  assumes "\<And>uid. map_option ra_canonical_path (m uid) = P uid"
  shows "count_violation morder m v k = map_option (violation_upd P morder k v) (m k)"
    and "map_option ra_canonical_path (count_violation morder m v k) = P k"
proof -
  have "(case m uid of None \<Rightarrow> False | Some a \<Rightarrow> ra_canonical_path a = mv_source_canonical_path v) \<longleftrightarrow>
      P uid = Some (mv_source_canonical_path v)" for uid
    using assms [of uid] by (auto split: option.split)
  then have step: "count_violation morder m v =
      (case List.find (\<lambda>uid. P uid = Some (mv_source_canonical_path v)) morder of None \<Rightarrow> m
       | Some uid \<Rightarrow> modify_entry uid (\<lambda>acc. acc\<lparr>ra_violation_count := ra_violation_count acc + 1\<rparr>) m)"
    by (simp add: count_violation_def)
  show *: "count_violation morder m v k = map_option (violation_upd P morder k v) (m k)"
    unfolding step by (cases "m k") (auto simp: violation_upd_def modify_entry_apply split: option.split)
  have "ra_canonical_path (violation_upd P morder k v a) = ra_canonical_path a" for a
    by (simp add: violation_upd_def)
  with assms [of k] show "map_option ra_canonical_path (count_violation morder m v k) = P k"
    by (simp add: * option.map_comp comp_def)
qed

lemma violation_fold:
  assumes "\<And>uid. map_option ra_canonical_path (m uid) = P uid"
  shows "foldl (count_violation morder) m vs k = map_option (\<lambda>acc. acc\<lparr>ra_violation_count := ra_violation_count acc +
    length (filter (\<lambda>v. List.find (\<lambda>uid. P uid = Some (mv_source_canonical_path v)) morder = Some k) vs)\<rparr>) (m k)"
  using assms
proof (induction vs arbitrary: m)
  case Nil
  then show ?case by (simp add: option.map_ident)
next
  case (Cons v vs)
  have "map_option ra_canonical_path (count_violation morder m v uid) = P uid" for uid
    using count_violation_entry(2) [OF Cons.prems] .
  then show ?case
    unfolding foldl_Cons Cons.IH [OF \<open>\<And>uid. map_option ra_canonical_path (count_violation morder m v uid) = P uid\<close>]
    by (cases "m k") (simp_all add: count_violation_entry(1) [OF Cons.prems] violation_upd_def)
qed

lemma init_accumulators_lookup: "init_accumulators modules k = map_option new_accumulator (module_lookup modules k)"
proof -
  have "foldl (\<lambda>m r. m(mr_module_uid r \<mapsto> new_accumulator (mr_canonical_path r))) a modules k =
      map_option new_accumulator (insert_all b (map (\<lambda>m. (mr_module_uid m, mr_canonical_path m)) modules) k)"
    if "\<And>k. a k = map_option new_accumulator (b k)" for a b
    using that by (induction modules arbitrary: a b) simp_all
  from this [of "\<lambda>_. None" Map.empty] show ?thesis by (simp add: init_accumulators_def module_lookup_def)
qed

section \<open>The rollup of a module\<close>

definition reference_rollup :: "module_rollup_input \<Rightarrow> string \<Rightarrow> string \<Rightarrow> module_rollup" where
  "reference_rollup input uid path =
     (let owner = first_owner (ri_owned_files input);
          out = {e \<in> set (ri_edges input). me_source_module_uid e = uid};
          inn = {e \<in> set (ri_edges input). me_target_module_uid e = uid};
          dead = (\<lambda>t. length (filter (\<lambda>d. map_option fst (owner (dn_file_path d)) = Some uid \<and> dn_is_test d = t)
            (ri_dead_nodes input)))
      in \<lparr>ro_module_uid = uid, ro_canonical_path = path,
          ro_owned_file_count = card {p. owner p = Some (uid, False)},
          ro_owned_test_file_count = card {p. owner p = Some (uid, True)},
          ro_outbound_dependency_count = card (me_target_module_uid ` out),
          ro_outbound_import_count = sum_list (map me_import_count (filter (\<lambda>e. me_source_module_uid e = uid) (ri_edges input))),
          ro_inbound_dependency_count = card (me_source_module_uid ` inn),
          ro_inbound_import_count = sum_list (map me_import_count (filter (\<lambda>e. me_target_module_uid e = uid) (ri_edges input))),
          ro_violation_count = length (filter (\<lambda>v. mv_source_canonical_path v = path) (ri_violations input)),
          ro_dead_symbol_count = dead False, ro_dead_test_symbol_count = dead True\<rparr>)"

lemma enumerates_count:
  assumes "enumerates order m"
  shows "length (filter (\<lambda>k. m k = Some v) order) = card {k. m k = Some v}"
proof -
  have "{k. m k = Some v} = set (filter (\<lambda>k. m k = Some v) order)"
    using enumerates_mem [OF assms] by auto
  moreover have "distinct (filter (\<lambda>k. m k = Some v) order)" using assms by (simp add: enumerates_def)
  ultimately show ?thesis using distinct_card [of "filter (\<lambda>k. m k = Some v) order"] by simp
qed

lemma find_path:
  assumes "enumerates morder P" "P uid = Some path" "\<And>u w. P u = Some q \<Longrightarrow> P w = Some q \<Longrightarrow> u = w"
  shows "List.find (\<lambda>u. P u = Some q) morder = Some uid \<longleftrightarrow> q = path"
proof
  assume "List.find (\<lambda>u. P u = Some q) morder = Some uid"
  then show "q = path" using assms(2) by (auto simp: find_Some_iff)
next
  assume "q = path"
  with assms(2) enumerates_mem [OF assms(1), of uid] have "\<exists>u \<in> set morder. P u = Some q" by auto
  then obtain u where "List.find (\<lambda>u. P u = Some q) morder = Some u"
    by (cases "List.find (\<lambda>u. P u = Some q) morder") (auto simp: find_None_iff)
  with \<open>q = path\<close> assms(2,3) show "List.find (\<lambda>u. P u = Some q) morder = Some uid" by (auto simp: find_Some_iff)
qed

lemma rollup_accumulated:
  fixes input :: module_rollup_input and forder morder :: "string list"
  defines "ftm \<equiv> fst (ownership_maps (ri_owned_files input))" and "P \<equiv> module_lookup (ri_modules input)"
  assumes "enumerates forder ftm" "enumerates morder P"
    "\<And>v u w. v \<in> set (ri_violations input) \<Longrightarrow> P u = Some (mv_source_canonical_path v) \<Longrightarrow>
       P w = Some (mv_source_canonical_path v) \<Longrightarrow> u = w"
  defines "accs \<equiv> foldl (attribute_dead ftm) (foldl (count_violation morder)
    (foldl count_edge (foldl (count_owned ftm) (init_accumulators (ri_modules input)) forder) (ri_edges input))
    (ri_violations input)) (ri_dead_nodes input)"
  shows "map_option (rollup_of uid) (accs uid) = map_option (reference_rollup input uid) (P uid)"
proof -
  have ftm: "ftm p = first_owner (ri_owned_files input) p" for p
    using ownership_maps_spec [of "ri_owned_files input" p] by (simp add: ftm_def)
  let ?m = "foldl count_edge (foldl (count_owned ftm) (init_accumulators (ri_modules input)) forder) (ri_edges input)"
  have m: "?m k = map_option (\<lambda>path. foldl (\<lambda>a e. edge_upd k e a) (foldl (\<lambda>a p. owned_upd ftm k p a)
      (new_accumulator path) forder) (ri_edges input)) (P k)" for k
    by (simp add: fold_entries [where step = count_edge and upd = "edge_upd k", OF count_edge_entry]
        fold_entries [where step = "count_owned ftm" and upd = "owned_upd ftm k", OF count_owned_entry]
        init_accumulators_lookup P_def option.map_comp comp_def)
  have paths: "map_option ra_canonical_path (?m k) = P k" for k
    by (cases "P k") (simp_all add: m owned_fold edge_fold new_accumulator_def)
  have accs: "accs uid = map_option (\<lambda>a. foldl (\<lambda>a d. dead_upd ftm uid d a) a (ri_dead_nodes input))
      (foldl (count_violation morder) ?m (ri_violations input) uid)"
    unfolding accs_def by (rule fold_entries) (rule attribute_dead_entry)
  show ?thesis
  proof (cases "P uid")
    case None
    then show ?thesis by (simp add: accs violation_fold [OF paths] m)
  next
    case (Some path)
    have "List.find (\<lambda>u. P u = Some (mv_source_canonical_path v)) morder = Some uid \<longleftrightarrow>
        mv_source_canonical_path v = path" if "v \<in> set (ri_violations input)" for v
      by (rule find_path [OF assms(4) Some]) (rule assms(5) [OF that])
    then have find: "filter (\<lambda>v. List.find (\<lambda>u. P u = Some (mv_source_canonical_path v)) morder = Some uid)
        (ri_violations input) = filter (\<lambda>v. mv_source_canonical_path v = path) (ri_violations input)"
      by (rule filter_cong [OF refl])
    have count: "length (filter (\<lambda>p. ftm p = Some (uid, t)) forder) = card {p. ftm p = Some (uid, t)}" for t
      using assms(3) by (rule enumerates_count)
    from Some show ?thesis
      by (simp add: accs violation_fold [OF paths] m find owned_fold edge_fold dead_fold new_accumulator_def rollup_of_def
          reference_rollup_def Let_def count) (simp add: ftm)
  qed
qed

section \<open>Properties\<close>

text \<open>
  C33. The rollup of modules. If the source path of every violation belongs to at most one module, the computation
  fails exactly if two modules claim a file, and then names such a file with all the modules that claim it; otherwise
  there is one row per module, sorted by path, with the numbers of its files, of the modules and imports on its edges, of
  the violations it is the source of and of the unreferenced symbols in its files. The iteration orders of the hash maps do
  not matter beyond which duplicate is named and how rows with the same path are ordered. (Modules that share a path are
  allowed as long as no violation names it: \<open>shared_path_violation\<close> shows what happens otherwise.)
\<close>

theorem module_rollups_exact:
  assumes "enumerates dorder (snd (ownership_maps (ri_owned_files input)))"
    and "enumerates forder (fst (ownership_maps (ri_owned_files input)))"
    and "enumerates morder (module_lookup (ri_modules input))"
    and "\<And>v u w. v \<in> set (ri_violations input) \<Longrightarrow>
      module_lookup (ri_modules input) u = Some (mv_source_canonical_path v) \<Longrightarrow>
      module_lookup (ri_modules input) w = Some (mv_source_canonical_path v) \<Longrightarrow> u = w"
  shows "case compute_module_rollups dorder forder morder input of
      Inl (Rollup_DuplicateOwnership path ms) \<Rightarrow>
        set ms = of_module_uid ` {f \<in> set (ri_owned_files input). of_file_path f = path} \<and> \<not> is_singleton (set ms) \<and> ms \<noteq> []
    | Inr rs \<Rightarrow>
        (\<forall>f \<in> set (ri_owned_files input). \<forall>g \<in> set (ri_owned_files input).
           of_file_path f = of_file_path g \<longrightarrow> of_module_uid f = of_module_uid g) \<and>
        sorted (map ro_canonical_path rs) \<and> distinct (map ro_module_uid rs) \<and>
        set rs = {reference_rollup input uid path | uid path. module_lookup (ri_modules input) uid = Some path}"
proof (cases dorder)
  case (Cons path ps)
  let ?d = "snd (ownership_maps (ri_owned_files input))" and ?o = "first_owner (ri_owned_files input) path"
  have "?d path \<noteq> None" using Cons enumerates_mem [OF assms(1), of path] by simp
  then have others: "other_owners (ri_owned_files input) path \<noteq> []"
    "?d path = Some (fst (the ?o) # other_owners (ri_owned_files input) path)"
    using ownership_maps_spec [of "ri_owned_files input" path] by (auto split: list.splits)
  then obtain u t where o: "?o = Some (u, t)" by (fastforce simp: other_owners_def split: option.splits)
  let ?ms = "u # other_owners (ri_owned_files input) path"
  have "set (other_owners (ri_owned_files input) path) =
      of_module_uid ` {f \<in> set (ri_owned_files input). of_file_path f = path} - {u}"
    using o by (auto simp: other_owners_def)
  moreover have "u \<in> of_module_uid ` {f \<in> set (ri_owned_files input). of_file_path f = path}"
    using o by (auto simp: first_owner_def find_Some_iff)
  ultimately have "set ?ms = of_module_uid ` {f \<in> set (ri_owned_files input). of_file_path f = path}"
    "\<not> is_singleton (set ?ms)"
    using others(1) by (auto simp: is_singleton_def dest!: hd_in_set)
  with Cons o others show ?thesis by (simp add: compute_module_rollups_def split_beta Let_def)
next
  case Nil
  let ?P = "module_lookup (ri_modules input)"
  let ?rs = "filter_map (\<lambda>uid. map_option (reference_rollup input uid) (?P uid)) morder"
  have "\<not> (\<exists>path. snd (ownership_maps (ri_owned_files input)) path \<noteq> None)"
    using Nil enumerates_mem [OF assms(1)] by simp
  then have unique: "\<forall>f \<in> set (ri_owned_files input). \<forall>g \<in> set (ri_owned_files input).
      of_file_path f = of_file_path g \<longrightarrow> of_module_uid f = of_module_uid g"
    unfolding duplicates_iff by blast
  have result: "compute_module_rollups dorder forder morder input = Inr (sort_key ro_canonical_path ?rs)"
    using Nil by (simp add: compute_module_rollups_def split_beta Let_def rollup_accumulated [OF assms(2,3,4)])
  define rs where "rs = ?rs"
  have "map ro_module_uid ?rs = filter (\<lambda>uid. ?P uid \<noteq> None) morder"
    by (induction morder) (auto simp: reference_rollup_def Let_def)
  then have "distinct (map ro_module_uid rs)" using assms(3) by (simp add: enumerates_def rs_def)
  then have "distinct (map ro_module_uid (sort_key ro_canonical_path rs))" by (simp add: distinct_map)
  moreover have "set rs = {reference_rollup input uid path | uid path. ?P uid = Some path}"
    unfolding rs_def using enumerates_mem [OF assms(3)] by auto
  moreover have "sorted (map ro_canonical_path (sort_key ro_canonical_path rs))" by simp
  ultimately show ?thesis
    unfolding result rs_def [symmetric] sum.case set_sort using unique by (intro conjI)
qed

definition demo_rollup_input :: module_rollup_input where
  "demo_rollup_input = \<lparr>ri_modules = [\<lparr>mr_module_uid = ''m'', mr_canonical_path = ''src''\<rparr>],
     ri_owned_files = [\<lparr>of_file_path = ''src/a.ts'', of_module_uid = ''m'', of_is_test = False\<rparr>,
       \<lparr>of_file_path = ''src/a.ts'', of_module_uid = ''m'', of_is_test = False\<rparr>],
     ri_edges = [], ri_violations = [], ri_dead_nodes = [\<lparr>dn_file_path = ''src/a.ts'', dn_is_test = False\<rparr>]\<rparr>"

lemma demo_rollup_maps:
  "fst (ownership_maps (ri_owned_files demo_rollup_input)) = [''src/a.ts'' \<mapsto> (''m'', False)]"
  "snd (ownership_maps (ri_owned_files demo_rollup_input)) = Map.empty"
  "module_lookup (ri_modules demo_rollup_input) = [''m'' \<mapsto> ''src'']"
  by (simp_all add: ownership_maps_def demo_rollup_input_def ownership_step_def module_lookup_def Let_def fun_eq_iff)

theorem module_rollups_exact_witness:
  "ro_owned_file_count (reference_rollup demo_rollup_input ''m'' ''src'') = 1 \<and>
   ro_dead_symbol_count (reference_rollup demo_rollup_input ''m'' ''src'') = 1"
proof -
  have orders: "enumerates [] (snd (ownership_maps (ri_owned_files demo_rollup_input)))"
    "enumerates [''src/a.ts''] (fst (ownership_maps (ri_owned_files demo_rollup_input)))"
    "enumerates [''m''] (module_lookup (ri_modules demo_rollup_input))"
    by (simp_all add: demo_rollup_maps enumerates_def)
  have paths: "u = w" if "v \<in> set (ri_violations demo_rollup_input)" for v and u w :: string
    using that by (simp add: demo_rollup_input_def)
  have computed: "map_sum (\<lambda>_. ()) (map (\<lambda>r. (ro_module_uid r, ro_owned_file_count r, ro_dead_symbol_count r)))
      (compute_module_rollups [] [''src/a.ts''] [''m''] demo_rollup_input) = Inr [(''m'', 1, 1)]" by code_simp
  then obtain rs where rs: "compute_module_rollups [] [''src/a.ts''] [''m''] demo_rollup_input = Inr rs"
    "map (\<lambda>r. (ro_module_uid r, ro_owned_file_count r, ro_dead_symbol_count r)) rs = [(''m'', 1, 1)]"
    by (cases "compute_module_rollups [] [''src/a.ts''] [''m''] demo_rollup_input") auto
  moreover have "set rs = {reference_rollup demo_rollup_input uid path | uid path.
      module_lookup (ri_modules demo_rollup_input) uid = Some path}"
    using module_rollups_exact [OF orders] paths rs(1) by simp
  then have "reference_rollup demo_rollup_input ''m'' ''src'' \<in> set rs" by (auto simp: demo_rollup_maps)
  ultimately show ?thesis by auto
qed

text \<open>
  Two modules with one path (a Cargo and an npm module of the same directory) and a violation from it: which of
  them is charged depends on the order in which the hash map is iterated.
\<close>

definition shared_path_input :: module_rollup_input where
  "shared_path_input = \<lparr>ri_modules = [\<lparr>mr_module_uid = ''cargo:a'', mr_canonical_path = ''a''\<rparr>,
       \<lparr>mr_module_uid = ''npm:a'', mr_canonical_path = ''a''\<rparr>],
     ri_owned_files = [], ri_edges = [],
     ri_violations = [\<lparr>mv_declaration_uid = ''d'', mv_source_canonical_path = ''a'', mv_target_canonical_path = ''b'',
       mv_import_count = 1, mv_source_file_count = 1, mv_reason = None\<rparr>], ri_dead_nodes = []\<rparr>"

lemma shared_path_violation:
  "map_sum (\<lambda>_. ()) (map (\<lambda>r. (ro_module_uid r, ro_violation_count r)))
     (compute_module_rollups [] [] [''cargo:a'', ''npm:a''] shared_path_input) = Inr [(''cargo:a'', 1), (''npm:a'', 0)]"
  "map_sum (\<lambda>_. ()) (map (\<lambda>r. (ro_module_uid r, ro_violation_count r)))
     (compute_module_rollups [] [] [''npm:a'', ''cargo:a''] shared_path_input) = Inr [(''npm:a'', 1), (''cargo:a'', 0)]"
  by code_simp+

text \<open>
  A file listed twice for the same module: the derivation of the edges rejects it, the rollup accepts it.
\<close>

lemma repeated_ownership_diverges:
  "build_ownership_index [''f''] [\<lparr>fo_file_uid = ''f'', fo_module_uid = ''m''\<rparr>, \<lparr>fo_file_uid = ''f'', fo_module_uid = ''m''\<rparr>] =
     Inl (DuplicateOwnership ''f'' [''m'', ''m''])"
  "\<exists>rs. compute_module_rollups [] [''src/a.ts''] [''m''] demo_rollup_input = Inr rs"
  by (simp add: build_ownership_index_def file_to_modules_def push_module_def)
    (simp add: compute_module_rollups_def split_beta Let_def)

end
