(* ===== verification/Unresolved.thy ===== *)
theory Unresolved
  imports Json Rust_Collections
begin

text \<open>
  Why an edge stayed unresolved: the classifier of unresolved edges
  (\<open>classification/src/unresolved_classifier.rs\<close>) with the types and signals it reads (\<open>types.rs\<close>, \<open>signals.rs\<close>),
  the reduction of an import specifier to a declared package (\<open>dep_reduce.rs\<close>, \<open>cargo_name.rs\<close>), the framework
  passes that follow it (\<open>framework_boundary.rs\<close>, \<open>framework_entrypoints.rs\<close>) and the blast radius derived from its verdict
  (\<open>blast_radius.rs\<close>). The extractors' metadata is a JSON text; \<open>serde_json::from_str\<close> is the parameter \<open>from_str\<close>.
\<close>

section \<open>Types\<close>

record source_location =
  loc_line_start :: int
  loc_col_start :: int
  loc_line_end :: int
  loc_col_end :: int

datatype import_kind = IK_Named | IK_Default | IK_Namespace

record import_binding =
  ib_identifier :: string
  ib_specifier :: string
  ib_is_relative :: bool
  ib_location :: "source_location option"
  ib_is_type_only :: bool
  ib_imported_name :: "string option"
  ib_kind :: import_kind

record classifier_edge_input =
  ce_target_key :: string
  ce_metadata_json :: "string option"

datatype unresolved_edge_category =
    ImportsFileNotFound | ImportsAmbiguousMatch | ImportsWildcard | ImportsAmbiguousSuffix
  | InstantiatesClassNotFound | ImplementsInterfaceNotFound | CallsThisWildcardMethodNeedsTypeInfo
  | CallsThisMethodNeedsClassContext | CallsObjMethodNeedsTypeInfo | CallsFunctionAmbiguousOrMissing
  | Category_Other

definition is_calls_category :: "unresolved_edge_category \<Rightarrow> bool" where
  "is_calls_category c \<longleftrightarrow> c = CallsThisWildcardMethodNeedsTypeInfo \<or> c = CallsThisMethodNeedsClassContext \<or>
     c = CallsObjMethodNeedsTypeInfo \<or> c = CallsFunctionAmbiguousOrMissing"

definition is_imports_category :: "unresolved_edge_category \<Rightarrow> bool" where
  "is_imports_category c \<longleftrightarrow> c = ImportsFileNotFound \<or> c = ImportsAmbiguousMatch \<or> c = ImportsWildcard \<or>
     c = ImportsAmbiguousSuffix"

definition MODULES_LIST_UNRESOLVED_IMPORT_CATEGORIES :: "unresolved_edge_category list" where
  "MODULES_LIST_UNRESOLVED_IMPORT_CATEGORIES =
     [ImportsFileNotFound, ImportsAmbiguousMatch, ImportsWildcard, ImportsAmbiguousSuffix]"

datatype unresolved_edge_classification =
    ExternalLibraryCandidate | InternalCandidate | FrameworkBoundaryCandidate | Classification_Unknown

datatype unresolved_edge_basis_code =
    SpecifierMatchesPackageDependency | SpecifierMatchesProjectAlias | SpecifierMatchesRuntimeModule
  | ReceiverMatchesExternalImport | ReceiverMatchesInternalImport | ReceiverMatchesSameFileSymbol
  | ReceiverMatchesRuntimeGlobal | CalleeMatchesSameFileSymbol | CalleeMatchesExternalImport
  | CalleeMatchesInternalImport | CalleeMatchesRuntimeGlobal | ThisReceiverImpliesInternal
  | SelfCallAmbiguousMro | SelfCallHierarchyMiss | SelfCallWithoutClassContext | SelfCallReceiverUnproven
  | RelativeImportTargetUnresolved | RustCrateInternalModuleHeuristic | ExpressRouteRegistration
  | ExpressMiddlewareRegistration | NoSupportingSignal

type_synonym package_dependency_set = "string list"

record runtime_builtins_set =
  rb_identifiers :: "string list"
  rb_module_specifiers :: "string list"

record tsconfig_alias_entry =
  tae_pattern :: string
  tae_substitutions :: "string list"

record file_signals =
  fs_import_bindings :: "import_binding list"
  fs_same_file_value_symbols :: "string list"
  fs_same_file_class_symbols :: "string list"
  fs_same_file_interface_symbols :: "string list"
  fs_package_dependencies :: package_dependency_set
  fs_tsconfig_aliases :: "tsconfig_alias_entry list"

definition file_signals_empty :: file_signals where
  "file_signals_empty = \<lparr>fs_import_bindings = [], fs_same_file_value_symbols = [], fs_same_file_class_symbols = [],
     fs_same_file_interface_symbols = [], fs_package_dependencies = [], fs_tsconfig_aliases = []\<rparr>"

text \<open>The snapshot signals hold the runtime builtins only.\<close>

record snapshot_signals =
  ss_runtime_builtins :: runtime_builtins_set

definition snapshot_signals_empty :: snapshot_signals where
  "snapshot_signals_empty = \<lparr>ss_runtime_builtins = \<lparr>rb_identifiers = [], rb_module_specifiers = []\<rparr>\<rparr>"

record classifier_verdict =
  cv_classification :: unresolved_edge_classification
  cv_basis_code :: unresolved_edge_basis_code

section \<open>Signals\<close>

definition has_package_dependency :: "package_dependency_set \<Rightarrow> string \<Rightarrow> bool" where
  "has_package_dependency deps name = list_ex (\<lambda>n. n = name) deps"

definition has_runtime_builtin_identifier :: "runtime_builtins_set \<Rightarrow> string \<Rightarrow> bool" where
  "has_runtime_builtin_identifier builtins identifier = list_ex (\<lambda>n. n = identifier) (rb_identifiers builtins)"

definition has_runtime_builtin_module :: "runtime_builtins_set \<Rightarrow> string \<Rightarrow> bool" where
  "has_runtime_builtin_module builtins specifier = list_ex (\<lambda>n. n = specifier) (rb_module_specifiers builtins)"

fun matches_any_alias :: "string \<Rightarrow> tsconfig_alias_entry list \<Rightarrow> bool" where
  "matches_any_alias specifier [] = False"
| "matches_any_alias specifier (entry # entries) =
     (let pattern = tae_pattern entry in
      if pattern = ''*'' then matches_any_alias specifier entries
      else case strip_suffix pattern ''*'' of
        Some prefix \<Rightarrow>
          (if prefix = '''' then matches_any_alias specifier entries
           else if starts_with specifier prefix then True
           else matches_any_alias specifier entries)
      | None \<Rightarrow> (if specifier = pattern then True else matches_any_alias specifier entries))"

section \<open>Reduction to a declared package\<close>

definition canonicalize_cargo_package_name :: "string \<Rightarrow> string" where
  "canonicalize_cargo_package_name name = map (\<lambda>c. if c = CHR ''_'' then CHR ''-'' else c) name"

text \<open>The text before the second slash.\<close>

fun before_slash :: "nat \<Rightarrow> string \<Rightarrow> string" where
  "before_slash slash [] = []"
| "before_slash slash (c # s) =
     (if c = CHR ''/'' then (if slash = 1 then [] else c # before_slash (slash + 1) s) else c # before_slash slash s)"

definition npm_package_head :: "string \<Rightarrow> string" where
  "npm_package_head specifier =
     (if strip_prefix specifier ''@'' \<noteq> None then before_slash 0 specifier
      else case split_once specifier (CHR ''/'') of None \<Rightarrow> specifier | Some (head, _) \<Rightarrow> head)"

definition python_import_head :: "string \<Rightarrow> string" where
  "python_import_head specifier = hd (split_on (CHR ''.'') specifier)"

fun pep503_loop :: "bool \<Rightarrow> string \<Rightarrow> string" where
  "pep503_loop prev_sep [] = []"
| "pep503_loop prev_sep (ch # s) =
     (if ch = CHR ''-'' \<or> ch = CHR ''_'' \<or> ch = CHR ''.''
      then (if prev_sep then pep503_loop True s else CHR ''-'' # pep503_loop True s)
      else ch # pep503_loop False s)"

definition pep503_normalize :: "string \<Rightarrow> string" where
  "pep503_normalize name = pep503_loop False (map ascii_lower name)"

text \<open>The part before the first occurrence of a separator, the whole text if there is none.\<close>

fun before_str :: "string \<Rightarrow> string \<Rightarrow> string" where
  "before_str [] p = []"
| "before_str (c # s) p = (if starts_with (c # s) p then [] else c # before_str s p)"

definition base_specifier :: "string \<Rightarrow> string" where
  "base_specifier specifier = before_str specifier ''::''"

definition is_segment_match :: "string \<Rightarrow> string \<Rightarrow> bool" where
  "is_segment_match specifier dep \<longleftrightarrow> specifier = dep \<or>
     (case strip_prefix specifier dep of None \<Rightarrow> False | Some rest \<Rightarrow> starts_with rest ''.'')"

definition best_group :: "string \<Rightarrow> string option \<Rightarrow> string \<Rightarrow> string option" where
  "best_group specifier best dep =
     (if \<not> contains_char dep (CHR ''.'') then best
      else if is_segment_match specifier dep \<and>
        (case best of None \<Rightarrow> True | Some b \<Rightarrow> length dep > length b) then Some dep
      else best)"

definition resolve_declared_dependency :: "string \<Rightarrow> package_dependency_set \<Rightarrow> string option" where
  "resolve_declared_dependency specifier declared =
     (let base = base_specifier specifier;
          hyphenated = canonicalize_cargo_package_name base;
          head = npm_package_head specifier;
          best = foldl (best_group specifier) None declared;
          py_norm = pep503_normalize (python_import_head specifier)
      in if has_package_dependency declared base then Some base
         else if hyphenated \<noteq> base \<and> has_package_dependency declared hyphenated then Some hyphenated
         else if contains_char specifier (CHR ''/'') \<and> head \<noteq> specifier \<and> has_package_dependency declared head
         then Some head
         else if contains_char specifier (CHR ''.'') \<and> \<not> contains_str specifier ''::'' \<and>
           \<not> contains_char specifier (CHR ''/'') \<and> best \<noteq> None
         then best
         else List.find (\<lambda>dep. pep503_normalize dep = py_norm) declared)"

section \<open>Reading an edge\<close>

definition json_str_at :: "json \<Rightarrow> string \<Rightarrow> string option" where
  "json_str_at v k = (case json_lookup v k of Some (JString s) \<Rightarrow> Some s | _ \<Rightarrow> None)"

definition is_json_string :: "json \<Rightarrow> bool" where
  "is_json_string v = (case v of JString _ \<Rightarrow> True | _ \<Rightarrow> False)"

text \<open>The parsed metadata of an edge, if it has any that parses.\<close>

definition metadata_of :: "(string \<Rightarrow> json option) \<Rightarrow> string option \<Rightarrow> json option" where
  "metadata_of from_str metadata = Option.bind metadata from_str"

definition has_mro_candidates :: "(string \<Rightarrow> json option) \<Rightarrow> string option \<Rightarrow> bool" where
  "has_mro_candidates from_str metadata = (case metadata_of from_str metadata of
     None \<Rightarrow> False
   | Some value \<Rightarrow> (case json_lookup value ''mroCandidates'' of
       Some (JArray items) \<Rightarrow> length items \<ge> 2 \<and> list_all is_json_string items
     | _ \<Rightarrow> False))"

definition self_call_pool_basis :: "(string \<Rightarrow> json option) \<Rightarrow> string option \<Rightarrow> unresolved_edge_basis_code option" where
  "self_call_pool_basis from_str metadata = (case metadata_of from_str metadata of
     None \<Rightarrow> None
   | Some value \<Rightarrow>
       if \<not> (case json_lookup value ''nameOnlyCandidates'' of Some (JArray items) \<Rightarrow> list_all is_json_string items | _ \<Rightarrow> False)
       then None
       else
         (let valid_carrier = (json_lookup value ''selfCall'' = Some (JBool True) \<and>
                (case json_str_at value ''enclosingClass'' of None \<Rightarrow> False | Some c \<Rightarrow> c \<noteq> ''''))
          in case json_str_at value ''nameOnlyReason'' of
               None \<Rightarrow> None
             | Some reason \<Rightarrow>
                 if reason = ''self_call_hierarchy_miss'' \<and> valid_carrier then Some SelfCallHierarchyMiss
                 else if reason = ''self_call_without_class_context'' \<and> \<not> valid_carrier then Some SelfCallWithoutClassContext
                 else if reason = ''self_call_receiver_unproven'' \<and> valid_carrier then Some SelfCallReceiverUnproven
                 else None))"

definition is_rust_module_name :: "string \<Rightarrow> bool" where
  "is_rust_module_name s = (case s of
     [] \<Rightarrow> False
   | c # cs \<Rightarrow> is_ascii_lowercase c \<and>
       list_all (\<lambda>c. is_ascii_lowercase c \<or> is_ascii_digit c \<or> c = CHR ''_'') cs)"

definition is_ascii_alphabetic :: "char \<Rightarrow> bool" where
  "is_ascii_alphabetic c \<longleftrightarrow> is_ascii_lowercase c \<or> is_ascii_uppercase c"

definition is_simple_identifier :: "string \<Rightarrow> bool" where
  "is_simple_identifier s = (case s of
     [] \<Rightarrow> False
   | c # cs \<Rightarrow> (is_ascii_alphabetic c \<or> c = CHR ''_'' \<or> c = CHR ''$'') \<and>
       list_all (\<lambda>c. is_ascii_alphabetic c \<or> is_ascii_digit c \<or> c = CHR ''_'' \<or> c = CHR ''$'') cs)"

definition extract_target_identifier ::
  "(string \<Rightarrow> json option) \<Rightarrow> classifier_edge_input \<Rightarrow> unresolved_edge_category \<Rightarrow> string option" where
  "extract_target_identifier from_str edge category =
     (let key = (case metadata_of from_str (ce_metadata_json edge) of
            None \<Rightarrow> ce_target_key edge
          | Some meta \<Rightarrow> (case json_str_at meta ''rawCalleeName'' of None \<Rightarrow> ce_target_key edge | Some raw \<Rightarrow> raw))
      in if category = InstantiatesClassNotFound \<or> category = ImplementsInterfaceNotFound \<or>
            category = CallsFunctionAmbiguousOrMissing
         then (if is_simple_identifier key then Some key else None)
         else if category = CallsObjMethodNeedsTypeInfo
         then (case split_once key (CHR ''.'') of
                 None \<Rightarrow> None
               | Some (receiver, _) \<Rightarrow>
                   if receiver = '''' then None
                   else if is_simple_identifier receiver then Some receiver else None)
         else None)"

definition matches_same_file_by_role :: "string \<Rightarrow> unresolved_edge_category \<Rightarrow> file_signals \<Rightarrow> bool" where
  "matches_same_file_by_role identifier category fsig =
     (if category = CallsFunctionAmbiguousOrMissing \<or> category = CallsObjMethodNeedsTypeInfo
      then list_ex (\<lambda>s. s = identifier) (fs_same_file_value_symbols fsig)
      else if category = InstantiatesClassNotFound
      then list_ex (\<lambda>s. s = identifier) (fs_same_file_class_symbols fsig)
      else if category = ImplementsInterfaceNotFound
      then list_ex (\<lambda>s. s = identifier) (fs_same_file_interface_symbols fsig)
      else False)"

definition find_binding_for_identifier :: "string \<Rightarrow> import_binding list \<Rightarrow> import_binding option" where
  "find_binding_for_identifier identifier bindings = List.find (\<lambda>b. ib_identifier b = identifier) bindings"

definition rust_relative :: "string \<Rightarrow> import_binding list \<Rightarrow> bool" where
  "rust_relative specifier bindings \<longleftrightarrow>
     starts_with specifier ''crate::'' \<or> starts_with specifier ''super::'' \<or> starts_with specifier ''self::'' \<or>
     specifier \<in> {''crate'', ''super'', ''self''} \<and>
       list_ex (\<lambda>b. ib_is_relative b \<and> ib_specifier b = specifier) bindings"

definition parse_import_specifier ::
  "(string \<Rightarrow> json option) \<Rightarrow> classifier_edge_input \<Rightarrow> import_binding list \<Rightarrow> string \<times> bool" where
  "parse_import_specifier from_str edge import_bindings =
     (let (specifier, is_relative) = (case metadata_of from_str (ce_metadata_json edge) of
            None \<Rightarrow> (ce_target_key edge, False)
          | Some meta \<Rightarrow>
              (let (specifier, is_relative) = (case json_str_at meta ''rawPath'' of
                     None \<Rightarrow> (ce_target_key edge, False)
                   | Some raw_path \<Rightarrow> (raw_path, starts_with raw_path ''.''))
               in case json_str_at meta ''specifier'' of
                    None \<Rightarrow> (specifier, is_relative)
                  | Some spec \<Rightarrow> (spec, rust_relative spec import_bindings)))
      in (specifier, is_relative \<or> starts_with specifier ''.''))"

definition is_rust_crate_internal_import ::
  "(string \<Rightarrow> json option) \<Rightarrow> classifier_edge_input \<Rightarrow> string \<Rightarrow> bool" where
  "is_rust_crate_internal_import from_str edge specifier = (case metadata_of from_str (ce_metadata_json edge) of
     None \<Rightarrow> False
   | Some meta \<Rightarrow>
       if json_str_at meta ''rawPath'' \<noteq> None then False
       else if json_str_at meta ''specifier'' = None then False
       else
         (let first_segment = (if contains_str specifier ''::'' then before_str specifier ''::'' else specifier)
          in if first_segment = '''' then False else is_rust_module_name first_segment))"

section \<open>The classifier\<close>

definition external :: "unresolved_edge_basis_code \<Rightarrow> classifier_verdict" where
  "external basis = \<lparr>cv_classification = ExternalLibraryCandidate, cv_basis_code = basis\<rparr>"

definition internal :: "unresolved_edge_basis_code \<Rightarrow> classifier_verdict" where
  "internal basis = \<lparr>cv_classification = InternalCandidate, cv_basis_code = basis\<rparr>"

definition unknown_with :: "unresolved_edge_basis_code \<Rightarrow> classifier_verdict" where
  "unknown_with basis = \<lparr>cv_classification = Classification_Unknown, cv_basis_code = basis\<rparr>"

definition unknown :: classifier_verdict where
  "unknown = unknown_with NoSupportingSignal"

definition same_file_basis_for :: "unresolved_edge_category \<Rightarrow> unresolved_edge_basis_code" where
  "same_file_basis_for category =
     (if category = CallsObjMethodNeedsTypeInfo then ReceiverMatchesSameFileSymbol else CalleeMatchesSameFileSymbol)"

definition external_basis_for :: "unresolved_edge_category \<Rightarrow> unresolved_edge_basis_code" where
  "external_basis_for category =
     (if category = CallsObjMethodNeedsTypeInfo then ReceiverMatchesExternalImport else CalleeMatchesExternalImport)"

definition internal_import_basis_for :: "unresolved_edge_category \<Rightarrow> unresolved_edge_basis_code" where
  "internal_import_basis_for category =
     (if category = CallsObjMethodNeedsTypeInfo then ReceiverMatchesInternalImport else CalleeMatchesInternalImport)"

definition runtime_global_basis_for :: "unresolved_edge_category \<Rightarrow> unresolved_edge_basis_code" where
  "runtime_global_basis_for category =
     (if category = CallsObjMethodNeedsTypeInfo then ReceiverMatchesRuntimeGlobal else CalleeMatchesRuntimeGlobal)"

definition classify_unresolved_import ::
  "(string \<Rightarrow> json option) \<Rightarrow> classifier_edge_input \<Rightarrow> snapshot_signals \<Rightarrow> file_signals \<Rightarrow> classifier_verdict" where
  "classify_unresolved_import from_str edge snapshot fsig =
     (let (specifier, is_relative) = parse_import_specifier from_str edge (fs_import_bindings fsig)
      in if is_relative then internal RelativeImportTargetUnresolved
         else if resolve_declared_dependency specifier (fs_package_dependencies fsig) \<noteq> None
         then external SpecifierMatchesPackageDependency
         else if has_runtime_builtin_module (ss_runtime_builtins snapshot) specifier \<or>
                 has_runtime_builtin_module (ss_runtime_builtins snapshot) (base_specifier specifier)
         then external SpecifierMatchesRuntimeModule
         else if matches_any_alias specifier (fs_tsconfig_aliases fsig) then internal SpecifierMatchesProjectAlias
         else if contains_str specifier '':FILE'' \<or> contains_str (ce_target_key edge) '':FILE''
         then internal RelativeImportTargetUnresolved
         else if is_rust_crate_internal_import from_str edge specifier then internal RustCrateInternalModuleHeuristic
         else unknown)"

text \<open>The verdict an import binding gives, if any (rules 5a to 5d).\<close>

definition binding_verdict ::
  "unresolved_edge_category \<Rightarrow> snapshot_signals \<Rightarrow> file_signals \<Rightarrow> import_binding \<Rightarrow> classifier_verdict option" where
  "binding_verdict category snapshot fsig binding =
     (if \<not> ib_is_relative binding \<and> has_runtime_builtin_module (ss_runtime_builtins snapshot) (ib_specifier binding)
      then Some (external SpecifierMatchesRuntimeModule)
      else if \<not> ib_is_relative binding \<and>
        resolve_declared_dependency (ib_specifier binding) (fs_package_dependencies fsig) \<noteq> None
      then Some (external (external_basis_for category))
      else if ib_is_relative binding then Some (internal (internal_import_basis_for category))
      else if matches_any_alias (ib_specifier binding) (fs_tsconfig_aliases fsig)
      then Some (internal SpecifierMatchesProjectAlias)
      else None)"

text \<open>Rules 2 to 7, for an extracted identifier.\<close>

definition classify_identifier ::
  "string \<Rightarrow> unresolved_edge_category \<Rightarrow> snapshot_signals \<Rightarrow> file_signals \<Rightarrow> classifier_verdict" where
  "classify_identifier identifier category snapshot fsig =
     (if matches_same_file_by_role identifier category fsig then internal (same_file_basis_for category)
      else case Option.bind (find_binding_for_identifier identifier (fs_import_bindings fsig))
                  (binding_verdict category snapshot fsig) of
             Some v \<Rightarrow> v
           | None \<Rightarrow>
               if has_runtime_builtin_identifier (ss_runtime_builtins snapshot) identifier
               then external (runtime_global_basis_for category)
               else unknown)"

definition classify_unresolved_edge ::
  "(string \<Rightarrow> json option) \<Rightarrow> classifier_edge_input \<Rightarrow> unresolved_edge_category \<Rightarrow> snapshot_signals \<Rightarrow> file_signals \<Rightarrow>
   classifier_verdict" where
  "classify_unresolved_edge from_str edge category snapshot fsig =
     (if has_mro_candidates from_str (ce_metadata_json edge) then internal SelfCallAmbiguousMro
      else case self_call_pool_basis from_str (ce_metadata_json edge) of
        Some basis \<Rightarrow> unknown_with basis
      | None \<Rightarrow>
          if category = CallsThisMethodNeedsClassContext \<or> category = CallsThisWildcardMethodNeedsTypeInfo
          then internal ThisReceiverImpliesInternal
          else if category = ImportsFileNotFound \<or> category = ImportsWildcard \<or> category = ImportsAmbiguousSuffix
          then classify_unresolved_import from_str edge snapshot fsig
          else if category = Category_Other then unknown
          else case extract_target_identifier from_str edge category of
            None \<Rightarrow> unknown
          | Some identifier \<Rightarrow> classify_identifier identifier category snapshot fsig)"

definition resolve_external_dependency_name ::
  "(string \<Rightarrow> json option) \<Rightarrow> classifier_edge_input \<Rightarrow> unresolved_edge_category \<Rightarrow> unresolved_edge_basis_code \<Rightarrow>
   import_binding list \<Rightarrow> package_dependency_set \<Rightarrow> string option" where
  "resolve_external_dependency_name from_str edge category basis_code import_bindings declared =
     (if basis_code = SpecifierMatchesPackageDependency
      then resolve_declared_dependency (fst (parse_import_specifier from_str edge import_bindings)) declared
      else if basis_code = ReceiverMatchesExternalImport \<or> basis_code = CalleeMatchesExternalImport
      then Option.bind (extract_target_identifier from_str edge category) (\<lambda>identifier.
           Option.bind (find_binding_for_identifier identifier import_bindings) (\<lambda>binding.
           resolve_declared_dependency (ib_specifier binding) declared))
      else None)"

section \<open>The framework passes\<close>

definition EXPRESS_ROUTE_METHODS :: "string list" where
  "EXPRESS_ROUTE_METHODS =
     [''get'', ''post'', ''put'', ''delete'', ''patch'', ''options'', ''head'', ''all'', ''route'']"

definition EXPRESS_MIDDLEWARE_METHODS :: "string list" where
  "EXPRESS_MIDDLEWARE_METHODS = [''use'']"

definition EXPRESS_LIFECYCLE_METHODS :: "string list" where
  "EXPRESS_LIFECYCLE_METHODS = [''listen'']"

definition EXPRESS_SPECIFIERS :: "string list" where
  "EXPRESS_SPECIFIERS = [''express'', ''@types/express'']"

definition EXPRESS_RECEIVER_NAMES :: "string list" where
  "EXPRESS_RECEIVER_NAMES = [''app'', ''router'', ''server'']"

definition file_has_express_import :: "import_binding list \<Rightarrow> bool" where
  "file_has_express_import import_bindings = list_ex (\<lambda>b. ib_specifier b \<in> set EXPRESS_SPECIFIERS) import_bindings"

definition detect_framework_boundary ::
  "string \<Rightarrow> unresolved_edge_category \<Rightarrow> import_binding list \<Rightarrow> classifier_verdict option" where
  "detect_framework_boundary target_key category import_bindings =
     (if category \<noteq> CallsObjMethodNeedsTypeInfo then None
      else case split_once target_key (CHR ''.'') of
        None \<Rightarrow> None
      | Some (receiver, method_part) \<Rightarrow>
          if receiver = '''' then None
          else
            (let first_method = hd (split_on (CHR ''.'') method_part)
             in if file_has_express_import import_bindings \<and> receiver \<in> set EXPRESS_RECEIVER_NAMES
                then (if first_method \<in> set EXPRESS_MIDDLEWARE_METHODS
                      then Some \<lparr>cv_classification = FrameworkBoundaryCandidate,
                             cv_basis_code = ExpressMiddlewareRegistration\<rparr>
                      else if first_method \<in> set EXPRESS_ROUTE_METHODS \<or> first_method \<in> set EXPRESS_LIFECYCLE_METHODS
                      then Some \<lparr>cv_classification = FrameworkBoundaryCandidate,
                             cv_basis_code = ExpressRouteRegistration\<rparr>
                      else None)
                else None))"

record exported_symbol =
  xs_stable_key :: string
  xs_name :: string
  xs_visibility :: "string option"
  xs_subtype :: "string option"

record detected_entrypoint =
  de_target_stable_key :: string
  de_convention :: string
  de_confidence :: f64
  de_reason :: string

definition LAMBDA_HANDLER_NAMES :: "string list" where
  "LAMBDA_HANDLER_NAMES = [''handler'']"

definition LAMBDA_SPECIFIERS :: "string list" where
  "LAMBDA_SPECIFIERS = [''aws-lambda'', ''@types/aws-lambda'', ''@aws-lambda-powertools/commons'',
     ''@aws-lambda-powertools/logger'', ''@aws-lambda-powertools/tracer'', ''@aws-lambda-powertools/metrics'',
     ''@aws-lambda-powertools/parameters'', ''@middy/core'']"

definition CALLABLE_SUBTYPES :: "string list" where
  "CALLABLE_SUBTYPES = [''FUNCTION'', ''VARIABLE'', ''CONSTANT'']"

definition lambda_entrypoint :: "exported_symbol \<Rightarrow> detected_entrypoint option" where
  "lambda_entrypoint s =
     (if xs_visibility s = Some ''export'' \<and> xs_name s \<in> set LAMBDA_HANDLER_NAMES \<and>
        (case xs_subtype s of None \<Rightarrow> False | Some st \<Rightarrow> st \<in> set CALLABLE_SUBTYPES)
      then Some \<lparr>de_target_stable_key = xs_stable_key s, de_convention = ''lambda_exported_handler'',
             de_confidence = f64_decimal 9 1,
             de_reason = ''exported function '' @ [CHR 0x22] @ xs_name s @ [CHR 0x22] @ '' in file importing Lambda types''\<rparr>
      else None)"

definition detect_lambda_entrypoints :: "import_binding list \<Rightarrow> exported_symbol list \<Rightarrow> detected_entrypoint list" where
  "detect_lambda_entrypoints import_bindings exported_symbols =
     (let has_lambda_import = list_ex (\<lambda>b. ib_specifier b \<in> set LAMBDA_SPECIFIERS \<or>
            starts_with (ib_specifier b) ''@aws-lambda-powertools/'') import_bindings
      in if \<not> has_lambda_import then [] else filter_map lambda_entrypoint exported_symbols)"

section \<open>Blast radius\<close>

datatype receiver_origin =
    ThisBound | ImportBoundExternal | ImportBoundInternal | SameFileDeclared | RuntimeGlobal | RuntimeModule
  | LocalLike | Origin_NotApplicable

datatype enclosing_scope_significance = ExportedPublic | InternalPrivate | UnknownScope

datatype blast_radius_level = Radius_Low | Radius_Medium | Radius_High | Radius_NotApplicable

record blast_radius_assessment =
  br_receiver_origin :: receiver_origin
  br_enclosing_scope_significance :: enclosing_scope_significance
  br_blast_radius :: blast_radius_level

definition derive_receiver_origin :: "unresolved_edge_basis_code \<Rightarrow> receiver_origin" where
  "derive_receiver_origin basis_code = (case basis_code of
     ThisReceiverImpliesInternal \<Rightarrow> ThisBound
   | ReceiverMatchesExternalImport \<Rightarrow> ImportBoundExternal
   | CalleeMatchesExternalImport \<Rightarrow> ImportBoundExternal
   | ReceiverMatchesInternalImport \<Rightarrow> ImportBoundInternal
   | CalleeMatchesInternalImport \<Rightarrow> ImportBoundInternal
   | SpecifierMatchesProjectAlias \<Rightarrow> ImportBoundInternal
   | ReceiverMatchesSameFileSymbol \<Rightarrow> SameFileDeclared
   | CalleeMatchesSameFileSymbol \<Rightarrow> SameFileDeclared
   | ReceiverMatchesRuntimeGlobal \<Rightarrow> RuntimeGlobal
   | CalleeMatchesRuntimeGlobal \<Rightarrow> RuntimeGlobal
   | SpecifierMatchesRuntimeModule \<Rightarrow> RuntimeModule
   | _ \<Rightarrow> LocalLike)"

definition derive_enclosing_scope_significance :: "string option \<Rightarrow> enclosing_scope_significance" where
  "derive_enclosing_scope_significance visibility =
     (if visibility = Some ''export'' \<or> visibility = Some ''public'' then ExportedPublic
      else if visibility = Some ''private'' \<or> visibility = Some ''protected'' \<or> visibility = Some ''internal'' \<or>
        visibility = None then InternalPrivate
      else UnknownScope)"

definition compute_radius :: "receiver_origin \<Rightarrow> enclosing_scope_significance \<Rightarrow> blast_radius_level" where
  "compute_radius origin scope =
     (if origin = LocalLike \<or> origin = ThisBound
      then (if scope = ExportedPublic then Radius_Medium else Radius_Low)
      else if origin = ImportBoundInternal then Radius_Medium
      else if origin = Origin_NotApplicable then Radius_NotApplicable
      else Radius_Low)"

definition derive_blast_radius ::
  "unresolved_edge_category \<Rightarrow> unresolved_edge_basis_code \<Rightarrow> string option \<Rightarrow> blast_radius_assessment" where
  "derive_blast_radius category basis_code source_node_visibility =
     (if \<not> is_calls_category category
      then \<lparr>br_receiver_origin = Origin_NotApplicable, br_enclosing_scope_significance = UnknownScope,
            br_blast_radius = Radius_NotApplicable\<rparr>
      else
        (let origin = derive_receiver_origin basis_code;
             scope = derive_enclosing_scope_significance source_node_visibility
         in \<lparr>br_receiver_origin = origin, br_enclosing_scope_significance = scope,
             br_blast_radius = compute_radius origin scope\<rparr>))"

end
