(* ===== verification/Unresolved_Correct.thy ===== *)
theory Unresolved_Correct
  imports Unresolved "HOL-Library.Sublist"
begin

text \<open>
  Properties of the classifier of unresolved edges: which declared package owns a specifier, that every verdict is backed
  by the signal its basis names, that external verdicts can be attributed to a declared package, and the blast radius of a classified call.
\<close>

section \<open>Segments\<close>

lemma split_on_append_all: "split_on c (a @ c # b) = split_on c a @ split_on c b"
proof (induction a)
  case (Cons x a)
  then show ?case
    by (cases "split_on c a") (auto simp: split_on_nonempty)
qed simp

lemma split_on_inject: "split_on c a = split_on c b \<longleftrightarrow> a = b"
  by (metis join_split)

lemma join_with_append:
  "xs \<noteq> [] \<Longrightarrow> ys \<noteq> [] \<Longrightarrow> join_with c (xs @ ys) = join_with c xs @ c # join_with c ys"
  by (induction c xs rule: join_with.induct) (auto simp: neq_Nil_conv)

lemma prefix_split_on: "prefix (split_on c a) (split_on c b) \<longleftrightarrow> b = a \<or> (\<exists>r. b = a @ c # r)"
proof
  assume "prefix (split_on c a) (split_on c b)"
  then obtain rest where r: "split_on c b = split_on c a @ rest" by (auto simp: prefix_def)
  show "b = a \<or> (\<exists>r. b = a @ c # r)"
  proof (cases "rest = []")
    case True
    with r show ?thesis by (simp add: split_on_inject)
  next
    case False
    from arg_cong [OF r, of "join_with c"] have "b = a @ c # join_with c rest"
      by (simp add: join_with_append False)
    then show ?thesis by blast
  qed
qed (auto simp: split_on_append_all)

lemma is_segment_match_iff:
  "is_segment_match specifier dep \<longleftrightarrow> prefix (split_on (CHR ''.'') dep) (split_on (CHR ''.'') specifier)"
proof -
  have "is_segment_match specifier dep \<longleftrightarrow> specifier = dep \<or> (\<exists>r. specifier = dep @ CHR ''.'' # r)"
    by (auto simp: is_segment_match_def strip_prefix_def starts_with_iff split: option.splits if_splits)
  then show ?thesis by (simp add: prefix_split_on)
qed

lemma before_slash_1: "before_slash 1 s = hd (split_on (CHR ''/'') s)"
  by (induction s) (auto split: list.split)

lemma before_slash_0: "before_slash 0 s = join_with (CHR ''/'') (take 2 (split_on (CHR ''/'') s))"
proof (induction s)
  case (Cons c s)
  show ?case
  proof (cases "c = CHR ''/''")
    case True
    then show ?thesis using before_slash_1 [of s] by (cases "split_on (CHR ''/'') s") auto
  next
    case False
    then show ?thesis using Cons by (cases "split_on (CHR ''/'') s" rule: list.exhaust; cases "tl (split_on (CHR ''/'') s)") auto
  qed
qed simp

lemma split_once_hd: "(case split_once s c of None \<Rightarrow> s | Some (head, _) \<Rightarrow> head) = hd (split_on c s)"
proof -
  have "takeWhile (\<lambda>x. x \<noteq> c) s = hd (split_on c s)" by (induction s) (auto split: list.split)
  moreover have "takeWhile (\<lambda>x. x \<noteq> c) s = s" if "c \<notin> set s" using that by (auto simp: takeWhile_eq_all_conv)
  ultimately show ?thesis by (auto simp: split_once_def)
qed

lemma npm_package_head_segments:
  "npm_package_head s = join_with (CHR ''/'')
     (take (if starts_with s ''@'' then 2 else 1) (split_on (CHR ''/'') s))"
proof -
  have "take 1 (split_on (CHR ''/'') s) = [hd (split_on (CHR ''/'') s)]" by (cases "split_on (CHR ''/'') s") auto
  then show ?thesis
    by (simp add: npm_package_head_def split_once_hd before_slash_0 strip_prefix_def)
qed

section \<open>The owner of a specifier\<close>

text \<open>
  The rules by which a declared package owns a specifier, strongest first: the same name, the same
  name with hyphens, the npm package of a subpath, a Java group whose segments begin the specifier's, and
  a Python distribution equal to the first segment up to case and separators.
\<close>

datatype ownership_rule = ByName | ByCargoName | ByNpmPackage | ByJavaGroup | ByPythonHead

fun owns :: "ownership_rule \<Rightarrow> string \<Rightarrow> string \<Rightarrow> bool" where
  "owns ByName s d \<longleftrightarrow> d = base_specifier s"
| "owns ByCargoName s d \<longleftrightarrow> d = canonicalize_cargo_package_name (base_specifier s)"
| "owns ByNpmPackage s d \<longleftrightarrow> CHR ''/'' \<in> set s \<and> d \<noteq> s \<and>
     d = join_with (CHR ''/'') (take (if starts_with s ''@'' then 2 else 1) (split_on (CHR ''/'') s))"
| "owns ByJavaGroup s d \<longleftrightarrow> CHR ''.'' \<in> set d \<and> CHR ''/'' \<notin> set s \<and> \<not> contains_str s ''::'' \<and>
     prefix (split_on (CHR ''.'') d) (split_on (CHR ''.'') s)"
| "owns ByPythonHead s d \<longleftrightarrow> pep503_normalize d = pep503_normalize (hd (split_on (CHR ''.'') s))"

fun stronger_rules :: "ownership_rule \<Rightarrow> ownership_rule set" where
  "stronger_rules ByName = {}"
| "stronger_rules ByCargoName = {ByName}"
| "stronger_rules ByNpmPackage = {ByName, ByCargoName}"
| "stronger_rules ByJavaGroup = {ByName, ByCargoName, ByNpmPackage}"
| "stronger_rules ByPythonHead = {ByName, ByCargoName, ByNpmPackage, ByJavaGroup}"

lemma owns_npm: "owns ByNpmPackage s d \<longleftrightarrow> CHR ''/'' \<in> set s \<and> npm_package_head s \<noteq> s \<and> d = npm_package_head s"
  by (auto simp: npm_package_head_segments)

lemma owns_java: "owns ByJavaGroup s d \<longleftrightarrow>
    CHR ''.'' \<in> set d \<and> CHR ''/'' \<notin> set s \<and> \<not> contains_str s ''::'' \<and> is_segment_match s d"
  by (simp add: is_segment_match_iff)

lemma owns_python: "owns ByPythonHead s d \<longleftrightarrow> pep503_normalize d = pep503_normalize (python_import_head s)"
  by (simp add: python_import_head_def)

lemmas owns_simps = owns.simps(1,2) owns_npm owns_java owns_python

declare owns.simps(3,4,5) [simp del]

lemma best_group_fold:
  assumes "foldl (best_group s) b deps = r"
    and "b = None \<or> (\<exists>x. b = Some x \<and> CHR ''.'' \<in> set x \<and> is_segment_match s x)"
  shows "(r = None \<longleftrightarrow> b = None \<and> \<not> (\<exists>d \<in> set deps. CHR ''.'' \<in> set d \<and> is_segment_match s d)) \<and>
    (\<forall>n. r = Some n \<longrightarrow> (b = Some n \<or> n \<in> set deps) \<and> CHR ''.'' \<in> set n \<and> is_segment_match s n \<and>
       (\<forall>x. b = Some x \<longrightarrow> length x \<le> length n) \<and>
       (\<forall>d \<in> set deps. CHR ''.'' \<in> set d \<and> is_segment_match s d \<longrightarrow> length d \<le> length n))"
  using assms
proof (induction deps arbitrary: b)
  case Nil
  then show ?case by auto
next
  case (Cons d deps)
  let ?b = "best_group s b d"
  have b: "?b = None \<or> (\<exists>x. ?b = Some x \<and> CHR ''.'' \<in> set x \<and> is_segment_match s x)"
    using Cons.prems(2) by (auto simp: best_group_def contains_char_def)
  have step: "?b = None \<longleftrightarrow> b = None \<and> \<not> (CHR ''.'' \<in> set d \<and> is_segment_match s d)"
    "?b = Some y \<Longrightarrow> b = Some y \<or> y = d" "?b = Some y \<Longrightarrow> b = Some x \<Longrightarrow> length x \<le> length y"
    "?b = Some y \<Longrightarrow> CHR ''.'' \<in> set d \<Longrightarrow> is_segment_match s d \<Longrightarrow> length d \<le> length y" for x y
    by (auto simp: best_group_def contains_char_def split: option.splits if_splits)
  from Cons.prems(1) have "foldl (best_group s) ?b deps = r" by simp
  from Cons.IH [OF this b] show ?case
    using step by (auto; (metis le_trans option.exhaust)?)
qed

lemma find_Some_first: "List.find P xs = Some n \<Longrightarrow> n \<in> set xs \<and> P n"
  by (auto simp: find_Some_iff)

lemma find_None_all: "List.find P xs = None \<longleftrightarrow> \<not> (\<exists>x \<in> set xs. P x)"
  by (auto simp: find_None_iff)

lemma segment_match_dot:
  assumes "is_segment_match s d" "CHR ''.'' \<in> set d"
  shows "CHR ''.'' \<in> set s"
  using assms by (auto simp: is_segment_match_def strip_prefix_def starts_with_iff split: if_splits)

lemma best_group_owns:
  "foldl (best_group s) None D = None \<or> CHR ''.'' \<notin> set s \<or> contains_str s ''::'' \<or> CHR ''/'' \<in> set s \<longleftrightarrow>
     \<not> (\<exists>d \<in> set D. owns ByJavaGroup s d)"
  "foldl (best_group s) None D = Some n \<Longrightarrow> CHR ''/'' \<notin> set s \<Longrightarrow> \<not> contains_str s ''::'' \<Longrightarrow>
     n \<in> set D \<and> owns ByJavaGroup s n \<and> (\<forall>d \<in> set D. owns ByJavaGroup s d \<longrightarrow> length d \<le> length n)"
  using best_group_fold [OF refl, of None s D] segment_match_dot [of s]
  unfolding owns_simps by auto

text \<open>The first rule that some declared package satisfies.\<close>

definition first_rule :: "string \<Rightarrow> string list \<Rightarrow> ownership_rule \<Rightarrow> bool" where
  "first_rule specifier declared rule \<longleftrightarrow> (\<exists>d \<in> set declared. owns rule specifier d) \<and>
     (\<forall>r \<in> stronger_rules rule. \<not> (\<exists>d \<in> set declared. owns r specifier d))"

lemma resolve_declared_eq:
  fixes s :: string and D :: "string list"
  defines "H \<equiv> \<lambda>r. \<exists>d \<in> set D. owns r s d"
  shows "resolve_declared_dependency s D =
    (if H ByName then Some (base_specifier s)
     else if H ByCargoName then Some (canonicalize_cargo_package_name (base_specifier s))
     else if H ByNpmPackage then Some (npm_package_head s)
     else if H ByJavaGroup then foldl (best_group s) None D
     else List.find (owns ByPythonHead s) D)"
proof -
  have dep: "has_package_dependency D n \<longleftrightarrow> n \<in> set D" for n by (auto simp: has_package_dependency_def list_ex_iff)
  have rules: "H ByName \<longleftrightarrow> base_specifier s \<in> set D"
    "H ByCargoName \<longleftrightarrow> canonicalize_cargo_package_name (base_specifier s) \<in> set D"
    "H ByNpmPackage \<longleftrightarrow> CHR ''/'' \<in> set s \<and> npm_package_head s \<noteq> s \<and> npm_package_head s \<in> set D"
    "H ByJavaGroup \<longleftrightarrow> CHR ''.'' \<in> set s \<and> \<not> contains_str s ''::'' \<and> CHR ''/'' \<notin> set s \<and> foldl (best_group s) None D \<noteq> None"
    unfolding H_def owns_npm using best_group_owns(1) [of s D] by auto
  show ?thesis
    unfolding resolve_declared_dependency_def Let_def rules dep contains_char_def
    by (auto simp: owns_python [abs_def])
qed

lemma resolve_declared_Some:
  assumes "resolve_declared_dependency s D = Some n"
  shows "\<exists>r. first_rule s D r \<and> n \<in> set D \<and> owns r s n \<and>
    (r = ByJavaGroup \<longrightarrow> (\<forall>d \<in> set D. owns r s d \<longrightarrow> length d \<le> length n))"
proof -
  let ?H = "\<lambda>r. \<exists>d \<in> set D. owns r s d"
  consider "?H ByName" | "\<not> ?H ByName" "?H ByCargoName" | "\<not> ?H ByName" "\<not> ?H ByCargoName" "?H ByNpmPackage"
    | "\<not> ?H ByName" "\<not> ?H ByCargoName" "\<not> ?H ByNpmPackage" "?H ByJavaGroup"
    | "\<not> ?H ByName" "\<not> ?H ByCargoName" "\<not> ?H ByNpmPackage" "\<not> ?H ByJavaGroup" by blast
  then show ?thesis
  proof cases
    case 1
    with assms show ?thesis by (intro exI [of _ ByName]) (auto simp: resolve_declared_eq first_rule_def)
  next
    case 2
    with assms show ?thesis by (intro exI [of _ ByCargoName]) (auto simp: resolve_declared_eq first_rule_def)
  next
    case 3
    with assms show ?thesis
      by (intro exI [of _ ByNpmPackage]) (auto simp: resolve_declared_eq first_rule_def owns_npm)
  next
    case 4
    then have "CHR ''/'' \<notin> set s" "\<not> contains_str s ''::''" by (auto simp: owns_java)
    moreover have "foldl (best_group s) None D = Some n" using assms 4 by (simp add: resolve_declared_eq)
    ultimately show ?thesis
      using 4 best_group_owns(2) [of s D n] by (intro exI [of _ ByJavaGroup]) (auto simp: first_rule_def)
  next
    case 5
    then have "List.find (owns ByPythonHead s) D = Some n" using assms by (simp add: resolve_declared_eq)
    from find_Some_first [OF this] 5 show ?thesis
      by (intro exI [of _ ByPythonHead]) (auto simp: first_rule_def)
  qed
qed

lemma resolve_declared_None: "resolve_declared_dependency s D = None \<longleftrightarrow> \<not> (\<exists>r. \<exists>d \<in> set D. owns r s d)"
proof
  assume none: "resolve_declared_dependency s D = None"
  have "\<not> (\<exists>d \<in> set D. owns r s d)" for r
    using none best_group_owns(1) [of s D]
    by (cases r) (auto simp: resolve_declared_eq find_None_all owns_java split: if_splits)
  then show "\<not> (\<exists>r. \<exists>d \<in> set D. owns r s d)" by blast
next
  assume none: "\<not> (\<exists>r. \<exists>d \<in> set D. owns r s d)"
  then show "resolve_declared_dependency s D = None"
    using resolve_declared_Some [of s D] by (cases "resolve_declared_dependency s D") (auto simp: first_rule_def)
qed

text \<open>
  The documents give each ecosystem its own rules: npm names are literal, up to the path inside the package; Cargo
  names are equal up to hyphens; a Java import belongs to a group on segment boundaries; a Python import to a distribution up to
  PEP 503. The code applies all rules to every specifier. Where no declared package matches a specifier only by a rule
  of another ecosystem, the two readings can be compared.
\<close>

datatype ecosystem = Eco_Npm | Eco_Cargo | Eco_Java | Eco_Python

fun rules_of :: "ecosystem \<Rightarrow> ownership_rule set" where
  "rules_of Eco_Npm = {ByName, ByNpmPackage}"
| "rules_of Eco_Cargo = {ByName, ByCargoName}"
| "rules_of Eco_Java = {ByName, ByJavaGroup}"
| "rules_of Eco_Python = {ByName, ByPythonHead}"

definition ecosystem_owns :: "ecosystem \<Rightarrow> string \<Rightarrow> string \<Rightarrow> bool" where
  "ecosystem_owns e s d \<longleftrightarrow> (\<exists>r \<in> rules_of e. owns r s d)"

text \<open>No declared package matches only by a rule of another ecosystem.\<close>

definition no_foreign_match :: "ecosystem \<Rightarrow> string \<Rightarrow> string list \<Rightarrow> bool" where
  "no_foreign_match e s D \<longleftrightarrow> (\<forall>d \<in> set D. \<forall>r. owns r s d \<longrightarrow> ecosystem_owns e s d)"

lemma rules_of_alt: "\<exists>x. rules_of e = {ByName, x} \<and> stronger_rules x \<inter> rules_of e \<subseteq> {ByName}"
  by (cases e) auto

lemma segment_prefix_length:
  assumes "owns ByJavaGroup s d"
  shows "length d \<le> length s"
  using assms unfolding owns_java is_segment_match_def
  by (auto simp: strip_prefix_def starts_with_iff split: option.splits if_splits)

lemma base_unscoped: "\<not> contains_str s ''::'' \<Longrightarrow> base_specifier s = s"
proof -
  have "\<not> contains_str t p \<Longrightarrow> before_str t p = t" for t p by (induction t) simp_all
  then show "\<not> contains_str s ''::'' \<Longrightarrow> base_specifier s = s" unfolding base_specifier_def .
qed

lemma own_rule_chosen:
  assumes "no_foreign_match e s D" and "resolve_declared_dependency s D = Some n"
  shows "\<exists>r \<in> rules_of e. owns r s n \<and> (\<forall>r' \<in> rules_of e \<inter> stronger_rules r. \<not> (\<exists>d \<in> set D. owns r' s d))"
proof -
  obtain r where r: "first_rule s D r" "n \<in> set D" "owns r s n"
    using resolve_declared_Some [OF assms(2)] by blast
  show ?thesis
  proof (cases "r \<in> rules_of e")
    case True
    with r show ?thesis by (auto simp: first_rule_def)
  next
    case False
    obtain x where x: "rules_of e = {ByName, x}" "stronger_rules x \<inter> rules_of e \<subseteq> {ByName}"
      using rules_of_alt by blast
    have "ByName \<in> stronger_rules r" using False x(1) by (cases r) auto
    then have name: "\<not> (\<exists>d \<in> set D. owns ByName s d)" using r(1) unfolding first_rule_def by blast
    have "ecosystem_owns e s n" using assms(1) r(2,3) unfolding no_foreign_match_def by blast
    then have "owns ByName s n \<or> owns x s n" by (simp only: ecosystem_owns_def x(1) bex_simps) blast
    with name r(2) have "owns x s n" by blast
    moreover have "\<not> (\<exists>d \<in> set D. owns r' s d)" if "r' \<in> rules_of e \<inter> stronger_rules x" for r'
      using name x(2) that by blast
    moreover have "x \<in> rules_of e" by (simp add: x(1))
    ultimately show ?thesis by blast
  qed
qed

lemma java_longest:
  assumes "no_foreign_match Eco_Java s D" and "resolve_declared_dependency s D = Some n"
    and "d \<in> set D" "owns ByJavaGroup s d"
  shows "length d \<le> length n"
proof -
  obtain r where r: "first_rule s D r" "n \<in> set D" "owns r s n"
    "r = ByJavaGroup \<longrightarrow> (\<forall>d \<in> set D. owns r s d \<longrightarrow> length d \<le> length n)"
    using resolve_declared_Some [OF assms(2)] by blast
  have s: "CHR ''/'' \<notin> set s" "\<not> contains_str s ''::''" using assms(4) by (simp_all add: owns_java)
  then have base: "base_specifier s = s" by (simp add: base_unscoped)
  show ?thesis
  proof (cases r)
    case ByName
    with r(3) base segment_prefix_length [OF assms(4)] show ?thesis by simp
  next
    case ByCargoName
    with r(3) base segment_prefix_length [OF assms(4)] show ?thesis
      by (simp add: canonicalize_cargo_package_name_def)
  next
    case ByNpmPackage
    with r(3) s show ?thesis by (simp add: owns_npm)
  next
    case ByJavaGroup
    with r(4) assms(3,4) show ?thesis by simp
  next
    case ByPythonHead
    with r(1) assms(3,4) show ?thesis by (auto simp: first_rule_def)
  qed
qed

section \<open>Verdicts\<close>

text \<open>The classification a basis stands for, and the bases each category can have.\<close>

fun classification_of :: "unresolved_edge_basis_code \<Rightarrow> unresolved_edge_classification" where
  "classification_of SpecifierMatchesPackageDependency = ExternalLibraryCandidate"
| "classification_of SpecifierMatchesRuntimeModule = ExternalLibraryCandidate"
| "classification_of ReceiverMatchesExternalImport = ExternalLibraryCandidate"
| "classification_of CalleeMatchesExternalImport = ExternalLibraryCandidate"
| "classification_of ReceiverMatchesRuntimeGlobal = ExternalLibraryCandidate"
| "classification_of CalleeMatchesRuntimeGlobal = ExternalLibraryCandidate"
| "classification_of ExpressRouteRegistration = FrameworkBoundaryCandidate"
| "classification_of ExpressMiddlewareRegistration = FrameworkBoundaryCandidate"
| "classification_of SelfCallHierarchyMiss = Classification_Unknown"
| "classification_of SelfCallWithoutClassContext = Classification_Unknown"
| "classification_of SelfCallReceiverUnproven = Classification_Unknown"
| "classification_of NoSupportingSignal = Classification_Unknown"
| "classification_of _ = InternalCandidate"

definition evidence_bases :: "unresolved_edge_basis_code set" where
  "evidence_bases = {SelfCallAmbiguousMro, SelfCallHierarchyMiss, SelfCallWithoutClassContext, SelfCallReceiverUnproven,
     NoSupportingSignal}"

definition import_bases :: "unresolved_edge_basis_code set" where
  "import_bases = {RelativeImportTargetUnresolved, SpecifierMatchesPackageDependency, SpecifierMatchesRuntimeModule,
     SpecifierMatchesProjectAlias, RustCrateInternalModuleHeuristic}"

definition receiver_bases :: "unresolved_edge_basis_code set" where
  "receiver_bases = {ReceiverMatchesSameFileSymbol, SpecifierMatchesRuntimeModule, ReceiverMatchesExternalImport,
     ReceiverMatchesInternalImport, SpecifierMatchesProjectAlias, ReceiverMatchesRuntimeGlobal}"

definition callee_bases :: "unresolved_edge_basis_code set" where
  "callee_bases = {CalleeMatchesSameFileSymbol, SpecifierMatchesRuntimeModule, CalleeMatchesExternalImport,
     CalleeMatchesInternalImport, SpecifierMatchesProjectAlias, CalleeMatchesRuntimeGlobal}"

fun bases_of :: "unresolved_edge_category \<Rightarrow> unresolved_edge_basis_code set" where
  "bases_of ImportsFileNotFound = import_bases"
| "bases_of ImportsWildcard = import_bases"
| "bases_of ImportsAmbiguousSuffix = import_bases"
| "bases_of ImportsAmbiguousMatch = {}"
| "bases_of CallsThisWildcardMethodNeedsTypeInfo = {ThisReceiverImpliesInternal}"
| "bases_of CallsThisMethodNeedsClassContext = {ThisReceiverImpliesInternal}"
| "bases_of CallsObjMethodNeedsTypeInfo = receiver_bases"
| "bases_of Category_Other = {}"
| "bases_of _ = callee_bases"

lemmas verdict_defs = external_def internal_def unknown_def unknown_with_def
lemmas basis_for_defs = same_file_basis_for_def external_basis_for_def internal_import_basis_for_def runtime_global_basis_for_def

definition verdict_in :: "unresolved_edge_basis_code set \<Rightarrow> classifier_verdict \<Rightarrow> bool" where
  "verdict_in B v \<longleftrightarrow> cv_basis_code v \<in> evidence_bases \<union> B \<and> cv_classification v = classification_of (cv_basis_code v)"

lemma import_verdict: "verdict_in import_bases (classify_unresolved_import from_str edge snapshot fsig)"
  by (simp add: classify_unresolved_import_def verdict_in_def split_beta Let_def verdict_defs import_bases_def
      evidence_bases_def)

lemma self_call_pool_basis_cases:
  "self_call_pool_basis from_str m = Some b \<Longrightarrow>
     b = SelfCallHierarchyMiss \<or> b = SelfCallWithoutClassContext \<or> b = SelfCallReceiverUnproven"
  by (simp add: self_call_pool_basis_def Let_def split: option.splits if_splits)

lemma binding_verdict_in:
  assumes "binding_verdict category snapshot fsig b = Some v"
  shows "verdict_in (if category = CallsObjMethodNeedsTypeInfo then receiver_bases else callee_bases) v"
  using assms
  by (simp add: binding_verdict_def verdict_in_def verdict_defs basis_for_defs receiver_bases_def callee_bases_def
      split: if_splits) auto

lemma identifier_verdict:
  "verdict_in (if category = CallsObjMethodNeedsTypeInfo then receiver_bases else callee_bases)
     (classify_identifier identifier category snapshot fsig)"
proof (cases "Option.bind (find_binding_for_identifier identifier (fs_import_bindings fsig)) (binding_verdict category snapshot fsig)")
  case None
  then show ?thesis
    by (simp add: classify_identifier_def verdict_in_def verdict_defs basis_for_defs receiver_bases_def callee_bases_def
        evidence_bases_def)
next
  case (Some v)
  then obtain b where "binding_verdict category snapshot fsig b = Some v" by (auto simp: bind_eq_Some_conv)
  then have "verdict_in (if category = CallsObjMethodNeedsTypeInfo then receiver_bases else callee_bases) v"
    by (rule binding_verdict_in)
  with Some show ?thesis
    by (simp add: classify_identifier_def verdict_in_def verdict_defs basis_for_defs receiver_bases_def callee_bases_def
        evidence_bases_def)
qed

lemma extract_none:
  assumes "category \<notin> {InstantiatesClassNotFound, ImplementsInterfaceNotFound, CallsFunctionAmbiguousOrMissing,
     CallsObjMethodNeedsTypeInfo}"
  shows "extract_target_identifier from_str edge category = None"
  using assms by (simp add: extract_target_identifier_def)

lemma verdict_in_mono: "verdict_in A v \<Longrightarrow> A \<subseteq> B \<Longrightarrow> verdict_in B v"
  by (auto simp: verdict_in_def)

lemma unknown_verdict_in: "verdict_in B unknown"
  by (simp add: verdict_in_def verdict_defs evidence_bases_def)

lemma edge_verdict: "verdict_in (bases_of category) (classify_unresolved_edge from_str edge category snapshot fsig)"
proof -
  let ?m = "ce_metadata_json edge"
  consider "has_mro_candidates from_str ?m" | b where "\<not> has_mro_candidates from_str ?m" "self_call_pool_basis from_str ?m = Some b"
    | "\<not> has_mro_candidates from_str ?m" "self_call_pool_basis from_str ?m = None" by fastforce
  then show ?thesis
  proof cases
    case 1
    then show ?thesis by (simp add: classify_unresolved_edge_def verdict_in_def verdict_defs evidence_bases_def)
  next
    case 2
    then show ?thesis
      using self_call_pool_basis_cases [OF 2(2)]
      by (auto simp: classify_unresolved_edge_def verdict_in_def verdict_defs evidence_bases_def)
  next
    case 3
    have this_ok: "verdict_in {ThisReceiverImpliesInternal} (internal ThisReceiverImpliesInternal)"
      by (simp add: verdict_in_def verdict_defs)
    note obj = identifier_verdict [of CallsObjMethodNeedsTypeInfo, simplified]
    from 3 show ?thesis
      using identifier_verdict [of category] import_verdict
      by (cases category) (simp_all add: classify_unresolved_edge_def this_ok unknown_verdict_in extract_none
          split: option.split)
  qed
qed

section \<open>Attribution\<close>

definition import_attribution_bases :: "unresolved_edge_basis_code set" where
  "import_attribution_bases = {SpecifierMatchesPackageDependency, ReceiverMatchesExternalImport, CalleeMatchesExternalImport}"

lemma attributed_name_declared:
  assumes "resolve_external_dependency_name from_str edge category basis bindings declared = Some n"
  shows "n \<in> set declared \<and> basis \<in> import_attribution_bases"
  using assms resolve_declared_Some
  by (fastforce simp: resolve_external_dependency_name_def import_attribution_bases_def bind_eq_Some_conv split: if_splits)

lemma identifier_attribution:
  assumes "cv_basis_code (classify_identifier identifier category snapshot fsig) \<in> import_attribution_bases"
  obtains binding where "find_binding_for_identifier identifier (fs_import_bindings fsig) = Some binding"
    "resolve_declared_dependency (ib_specifier binding) (fs_package_dependencies fsig) \<noteq> None"
  using assms
  by (cases "find_binding_for_identifier identifier (fs_import_bindings fsig)")
    (auto simp: classify_identifier_def verdict_defs basis_for_defs import_attribution_bases_def binding_verdict_def
      split: if_splits option.splits)

lemma import_attribution:
  assumes "cv_basis_code (classify_unresolved_import from_str edge snapshot fsig) \<in> import_attribution_bases"
  shows "cv_basis_code (classify_unresolved_import from_str edge snapshot fsig) = SpecifierMatchesPackageDependency \<and>
    resolve_declared_dependency (fst (parse_import_specifier from_str edge (fs_import_bindings fsig)))
      (fs_package_dependencies fsig) \<noteq> None"
  using assms
  by (simp add: classify_unresolved_import_def split_beta Let_def verdict_defs import_attribution_bases_def split: if_splits)

lemma edge_attribution:
  assumes "cv_basis_code (classify_unresolved_edge from_str edge category snapshot fsig) \<in> import_attribution_bases"
  shows "\<exists>n. resolve_external_dependency_name from_str edge category
    (cv_basis_code (classify_unresolved_edge from_str edge category snapshot fsig))
    (fs_import_bindings fsig) (fs_package_dependencies fsig) = Some n"
proof -
  let ?v = "classify_unresolved_edge from_str edge category snapshot fsig" and ?m = "ce_metadata_json edge"
  have not_evidence: "b \<notin> evidence_bases" if "b \<in> import_attribution_bases" for b
    using that by (auto simp: import_attribution_bases_def evidence_bases_def)
  have pools: "\<not> has_mro_candidates from_str ?m" "self_call_pool_basis from_str ?m = None"
    using assms self_call_pool_basis_cases [of from_str ?m]
    by (auto simp: classify_unresolved_edge_def verdict_defs import_attribution_bases_def split: if_splits option.splits)
  show ?thesis
  proof (cases "category \<in> {ImportsFileNotFound, ImportsWildcard, ImportsAmbiguousSuffix}")
    case True
    with pools have "?v = classify_unresolved_import from_str edge snapshot fsig"
      by (auto simp: classify_unresolved_edge_def)
    moreover from this assms
    have "cv_basis_code (classify_unresolved_import from_str edge snapshot fsig) \<in> import_attribution_bases" by simp
    from import_attribution [OF this] have "cv_basis_code (classify_unresolved_import from_str edge snapshot fsig) =
        SpecifierMatchesPackageDependency"
      "resolve_declared_dependency (fst (parse_import_specifier from_str edge (fs_import_bindings fsig)))
        (fs_package_dependencies fsig) \<noteq> None" by simp_all
    ultimately show ?thesis by (simp add: resolve_external_dependency_name_def)
  next
    case False
    with pools assms obtain i where i: "extract_target_identifier from_str edge category = Some i"
      "?v = classify_identifier i category snapshot fsig"
      by (auto simp: classify_unresolved_edge_def verdict_defs import_attribution_bases_def split: if_splits option.splits)
    have "cv_basis_code ?v \<noteq> SpecifierMatchesPackageDependency"
      using identifier_verdict [of category i snapshot fsig]
      by (auto simp: i(2) verdict_in_def receiver_bases_def callee_bases_def evidence_bases_def split: if_splits)
    with assms have "cv_basis_code ?v = ReceiverMatchesExternalImport \<or> cv_basis_code ?v = CalleeMatchesExternalImport"
      by (auto simp: import_attribution_bases_def)
    moreover from assms obtain b where "find_binding_for_identifier i (fs_import_bindings fsig) = Some b"
      "resolve_declared_dependency (ib_specifier b) (fs_package_dependencies fsig) \<noteq> None"
      unfolding i(2) by (rule identifier_attribution)
    ultimately show ?thesis by (auto simp: resolve_external_dependency_name_def i(1))
  qed
qed

section \<open>Properties\<close>

definition demo_binding :: import_binding where
  "demo_binding = \<lparr>ib_identifier = ''sync_to_async'', ib_specifier = ''asgiref.sync'', ib_is_relative = False,
     ib_location = None, ib_is_type_only = False, ib_imported_name = None, ib_kind = IK_Named\<rparr>"

definition demo_signals :: file_signals where
  "demo_signals = file_signals_empty\<lparr>fs_import_bindings := [demo_binding], fs_package_dependencies := [''Asgiref'']\<rparr>"

definition demo_edge :: classifier_edge_input where
  "demo_edge = \<lparr>ce_target_key = ''sync_to_async'', ce_metadata_json = None\<rparr>"

text \<open>
  C30. The dependency a specifier is attributed to, within one ecosystem. Where no declared package matches the specifier
  only by a rule of another ecosystem, \<open>resolve_declared_dependency\<close> finds a declared package exactly if one owns the
  specifier by the documented rules of its ecosystem (npm: the name, or the package of a subpath; Cargo: the name, or its
  spelling with hyphens; Java: a group on segment boundaries; Python: the first segment up to PEP 503). The result is
  declared, owns the specifier by the strongest of these rules that any declared package satisfies, and for Java is a longest
  such group.
\<close>

theorem declared_dependency_owner:
  assumes "no_foreign_match e s D"
  shows "(resolve_declared_dependency s D = None \<longleftrightarrow> \<not> (\<exists>d \<in> set D. ecosystem_owns e s d)) \<and>
    (resolve_declared_dependency s D = Some n \<longrightarrow>
      n \<in> set D \<and>
      (\<exists>r \<in> rules_of e. owns r s n \<and> (\<forall>r' \<in> rules_of e \<inter> stronger_rules r. \<not> (\<exists>d \<in> set D. owns r' s d))) \<and>
      (e = Eco_Java \<longrightarrow> (\<forall>d \<in> set D. owns ByJavaGroup s d \<longrightarrow> length d \<le> length n)))"
proof (intro conjI impI ballI)
  show "resolve_declared_dependency s D = None \<longleftrightarrow> \<not> (\<exists>d \<in> set D. ecosystem_owns e s d)"
    using assms unfolding resolve_declared_None no_foreign_match_def ecosystem_owns_def by blast
  assume some: "resolve_declared_dependency s D = Some n"
  then show "n \<in> set D" using resolve_declared_Some by blast
  from assms some show "\<exists>r \<in> rules_of e. owns r s n \<and>
      (\<forall>r' \<in> rules_of e \<inter> stronger_rules r. \<not> (\<exists>d \<in> set D. owns r' s d))"
    by (rule own_rule_chosen)
  fix d
  assume "e = Eco_Java" "d \<in> set D" "owns ByJavaGroup s d"
  with assms some show "length d \<le> length n" using java_longest by blast
qed

definition demo_groups :: "string list" where
  "demo_groups = [''com.foo'', ''com.foo.bar'', ''com.foobar'']"

lemma demo_groups_own: "no_foreign_match Eco_Java ''com.foo.bar.Type'' demo_groups"
proof -
  have "list_all (\<lambda>d. owns ByJavaGroup ''com.foo.bar.Type'' d \<or>
      \<not> (owns ByName ''com.foo.bar.Type'' d \<or> owns ByCargoName ''com.foo.bar.Type'' d \<or>
         owns ByNpmPackage ''com.foo.bar.Type'' d \<or> owns ByPythonHead ''com.foo.bar.Type'' d)) demo_groups"
    by code_simp
  then have *: "\<forall>d \<in> set demo_groups. owns ByJavaGroup ''com.foo.bar.Type'' d \<or>
      \<not> (owns ByName ''com.foo.bar.Type'' d \<or> owns ByCargoName ''com.foo.bar.Type'' d \<or>
         owns ByNpmPackage ''com.foo.bar.Type'' d \<or> owns ByPythonHead ''com.foo.bar.Type'' d)"
    unfolding list_all_iff .
  show ?thesis
    unfolding no_foreign_match_def ecosystem_owns_def rules_of.simps
  proof (intro ballI allI impI)
    fix d r
    assume "d \<in> set demo_groups" and r: "owns r ''com.foo.bar.Type'' d"
    with * have "owns ByJavaGroup ''com.foo.bar.Type'' d" by (cases r) blast+
    then show "\<exists>r \<in> {ByName, ByJavaGroup}. owns r ''com.foo.bar.Type'' d" by blast
  qed
qed

theorem declared_dependency_owner_witness:
  "\<exists>n \<in> set demo_groups. resolve_declared_dependency ''com.foo.bar.Type'' demo_groups = Some n \<and>
     length ''com.foo.bar'' \<le> length n"
proof -
  have "resolve_declared_dependency ''com.foo.bar.Type'' demo_groups = Some ''com.foo.bar''" by code_simp
  with declared_dependency_owner [OF demo_groups_own, of "''com.foo.bar''"] show ?thesis by auto
qed

text \<open>
  C31. A verdict is what its basis says. Whatever the metadata parser returns, the classification is the one of the basis
  code, the basis is one of those of the category or of the declined self-call evidence, and the classifier never answers a framework
  boundary. The basis is an import attribution exactly if the dependency can be named, and the name is then declared in the manifest.
\<close>

theorem unresolved_verdict_sound:
  "verdict_in (bases_of category) (classify_unresolved_edge from_str edge category snapshot fsig) \<and>
   cv_classification (classify_unresolved_edge from_str edge category snapshot fsig) \<noteq> FrameworkBoundaryCandidate \<and>
   (cv_basis_code (classify_unresolved_edge from_str edge category snapshot fsig) \<in> import_attribution_bases \<longleftrightarrow>
     (\<exists>n \<in> set (fs_package_dependencies fsig). resolve_external_dependency_name from_str edge category
        (cv_basis_code (classify_unresolved_edge from_str edge category snapshot fsig))
        (fs_import_bindings fsig) (fs_package_dependencies fsig) = Some n))"
proof (intro conjI)
  let ?v = "classify_unresolved_edge from_str edge category snapshot fsig"
  show v: "verdict_in (bases_of category) ?v" by (rule edge_verdict)
  then have "cv_basis_code ?v \<notin> {ExpressRouteRegistration, ExpressMiddlewareRegistration}"
    by (cases category) (auto simp: verdict_in_def evidence_bases_def import_bases_def receiver_bases_def callee_bases_def)
  with v show "cv_classification ?v \<noteq> FrameworkBoundaryCandidate"
    by (cases "cv_basis_code ?v") (auto simp: verdict_in_def)
  show "cv_basis_code ?v \<in> import_attribution_bases \<longleftrightarrow>
     (\<exists>n \<in> set (fs_package_dependencies fsig). resolve_external_dependency_name from_str edge category
        (cv_basis_code ?v) (fs_import_bindings fsig) (fs_package_dependencies fsig) = Some n)"
    using edge_attribution attributed_name_declared by metis
qed

text \<open>
  The blast radius of a classified call. For the calls the radius is medium exactly if the receiver is an internal import, or the call is
  in an exported or public scope and is not explained by an import, a same-file symbol or the runtime; it is otherwise low. It is
  not applicable exactly outside the calls, and never high.
\<close>

theorem classified_call_radius:
  assumes "v = classify_unresolved_edge from_str edge category snapshot fsig"
    and "r = br_blast_radius (derive_blast_radius category (cv_basis_code v) visibility)"
  shows "(r = Radius_NotApplicable \<longleftrightarrow> \<not> is_calls_category category) \<and> r \<noteq> Radius_High \<and>
    (r = Radius_Medium \<longleftrightarrow> is_calls_category category \<and>
       (cv_basis_code v \<in> {ReceiverMatchesInternalImport, CalleeMatchesInternalImport, SpecifierMatchesProjectAlias} \<or>
        visibility \<in> {Some ''export'', Some ''public''} \<and>
        (cv_classification v = Classification_Unknown \<or>
         cv_basis_code v \<in> {ThisReceiverImpliesInternal, SelfCallAmbiguousMro})))"
proof -
  have v: "verdict_in (bases_of category) v" unfolding assms(1) by (rule edge_verdict)
  have scope: "derive_enclosing_scope_significance visibility = ExportedPublic \<longleftrightarrow> visibility \<in> {Some ''export'', Some ''public''}"
    by (simp add: derive_enclosing_scope_significance_def)
  show ?thesis
  proof (cases "is_calls_category category")
    case False
    then show ?thesis by (simp add: assms(2) derive_blast_radius_def)
  next
    case True
    then have "cv_basis_code v \<in> evidence_bases \<union> receiver_bases \<union> callee_bases \<union> {ThisReceiverImpliesInternal}"
      using v by (cases category) (auto simp: verdict_in_def is_calls_category_def)
    with True v scope show ?thesis
      by (cases "cv_basis_code v")
        (simp_all add: assms(2) derive_blast_radius_def compute_radius_def derive_receiver_origin_def Let_def verdict_in_def
          evidence_bases_def receiver_bases_def callee_bases_def)
  qed
qed

theorem classified_call_radius_witness:
  "br_blast_radius (derive_blast_radius CallsFunctionAmbiguousOrMissing
     (cv_basis_code (classify_unresolved_edge (\<lambda>_. None) demo_edge CallsFunctionAmbiguousOrMissing snapshot_signals_empty
        file_signals_empty)) (Some ''export'')) = Radius_Medium"
proof -
  have "cv_classification (classify_unresolved_edge (\<lambda>_. None) demo_edge CallsFunctionAmbiguousOrMissing
      snapshot_signals_empty file_signals_empty) = Classification_Unknown" by code_simp
  then show ?thesis
    using classified_call_radius [OF refl refl, where from_str = "\<lambda>_. None" and edge = demo_edge
        and category = CallsFunctionAmbiguousOrMissing and snapshot = snapshot_signals_empty
        and fsig = file_signals_empty and visibility = "Some ''export''"] by (simp add: is_calls_category_def)
qed

text \<open>
  The cargo spelling and the PEP 503 folding apply to every specifier, whatever the ecosystem: an import of
  the npm package \<open>lodash_es\<close> is attributed to \<open>lodash-es\<close>, and \<open>Foo.js\<close> to \<open>foo\<close>.
\<close>

lemma literal_names_folded:
  "resolve_declared_dependency ''lodash_es'' [''lodash-es''] = Some ''lodash-es''"
  "resolve_declared_dependency ''Foo.js'' [''foo''] = Some ''foo''"
  by code_simp+

text \<open>A call through an import of a submodule is attributed to the declared distribution.\<close>

lemma submodule_call_attributed:
  "cv_basis_code (classify_unresolved_edge (\<lambda>_. None) demo_edge CallsFunctionAmbiguousOrMissing snapshot_signals_empty
     demo_signals) = CalleeMatchesExternalImport"
  "resolve_external_dependency_name (\<lambda>_. None) demo_edge CallsFunctionAmbiguousOrMissing CalleeMatchesExternalImport
     (fs_import_bindings demo_signals) (fs_package_dependencies demo_signals) = Some ''Asgiref''"
  by code_simp+

end
