(* ===== verification/Boundary_Matcher.thy ===== *)
theory Boundary_Matcher
  imports Json Rust_Text
begin

text \<open>
  Pairing the providers and consumers of an interface (\<open>classification/src/boundary_matcher.rs\<close> and the
  boundary facts of \<open>types.rs\<close>). Methods and commands are ASCII texts: \<open>to_uppercase\<close>, \<open>to_lowercase\<close> and
  \<open>char::is_whitespace\<close> are those of ASCII. The metadata of a fact is the list of its entries.
\<close>

section \<open>Types\<close>

datatype boundary_mechanism =
    Http | Grpc | Rpc | CliCommand | Filesystem | DatabaseSql | DatabaseNosql | Cache | ObjectStore
  | IpcSharedMemory | Ioctl | Queue | Event | Socket | DeviceProtocol | RegisterMap | Mechanism_Other

datatype boundary_provider_basis = PB_Annotation | PB_Registration | PB_Convention | PB_Contract | PB_Declaration

datatype boundary_consumer_basis = CB_Literal | CB_Template | CB_Wrapper | CB_Contract | CB_Declaration

datatype boundary_match_basis = ExactContract | AddressMatch | OperationMatch | Heuristic

record boundary_provider_fact =
  bp_mechanism :: boundary_mechanism
  bp_operation :: string
  bp_address :: string
  bp_handler_stable_key :: string
  bp_source_file :: string
  bp_line_start :: int
  bp_framework :: string
  bp_basis :: boundary_provider_basis
  bp_schema_ref :: "string option"
  bp_metadata :: "(string \<times> json) list"

record boundary_consumer_fact =
  bc_mechanism :: boundary_mechanism
  bc_operation :: string
  bc_address :: string
  bc_caller_stable_key :: string
  bc_source_file :: string
  bc_line_start :: int
  bc_basis :: boundary_consumer_basis
  bc_confidence :: f64
  bc_schema_ref :: "string option"
  bc_metadata :: "(string \<times> json) list"

record matchable_provider_fact =
  mp_fact_uid :: string
  mp_fact :: boundary_provider_fact

record matchable_consumer_fact =
  mc_fact_uid :: string
  mc_fact :: boundary_consumer_fact

record boundary_link_candidate =
  bl_provider_fact_uid :: string
  bl_consumer_fact_uid :: string
  bl_match_basis :: boundary_match_basis
  bl_confidence :: f64

section \<open>Keys\<close>

definition PARAM_WILDCARD :: string where
  "PARAM_WILDCARD = ''{_}''"

definition normalize_segment :: "string \<Rightarrow> string" where
  "normalize_segment segment =
     (if starts_with segment ''{'' \<and> ends_with segment ''}'' then PARAM_WILDCARD
      else if starts_with segment '':'' \<and> length segment > 1 then PARAM_WILDCARD
      else segment)"

definition normalize_http_path :: "string \<Rightarrow> string" where
  "normalize_http_path path =
     (if path = '''' \<or> path = ''/'' then ''/''
      else join_with (CHR ''/'') (map normalize_segment (split_on (CHR ''/'') path)))"

record segment_info =
  si_total :: nat
  si_literal :: nat
  si_wildcard :: nat

definition count_segment_types :: "string \<Rightarrow> segment_info" where
  "count_segment_types normalized_path =
     (let segments = filter (\<lambda>s. s \<noteq> '''') (split_on (CHR ''/'') normalized_path);
          wildcard = length (filter (\<lambda>s. s = PARAM_WILDCARD) segments)
      in \<lparr>si_total = length segments, si_literal = length segments - wildcard, si_wildcard = wildcard\<rparr>)"

text \<open>The method of a fact's metadata, in upper case.\<close>

definition http_method :: "(string \<times> json) list \<Rightarrow> string option" where
  "http_method metadata = (case map_of metadata ''httpMethod'' of
     Some (JString m) \<Rightarrow> Some (map ascii_upper m) | _ \<Rightarrow> None)"

definition http_compute_matcher_key :: "string \<Rightarrow> (string \<times> json) list \<Rightarrow> string" where
  "http_compute_matcher_key address metadata =
     (case http_method metadata of None \<Rightarrow> ''*'' | Some m \<Rightarrow> m) @ '' '' @ normalize_http_path address"

definition cli_compute_matcher_key :: "string \<Rightarrow> string" where
  "cli_compute_matcher_key address = trim (map ascii_lower address)"

definition compute_matcher_key :: "boundary_mechanism \<Rightarrow> string \<Rightarrow> (string \<times> json) list \<Rightarrow> string option" where
  "compute_matcher_key mechanism address metadata = (case mechanism of
     Http \<Rightarrow> Some (http_compute_matcher_key address metadata)
   | CliCommand \<Rightarrow> Some (cli_compute_matcher_key address)
   | _ \<Rightarrow> None)"

section \<open>Matching\<close>

text \<open>\<open>f64::clamp\<close>.\<close>

definition fclamp :: "f64 \<Rightarrow> f64 \<Rightarrow> f64 \<Rightarrow> f64" where
  "fclamp x lo hi = (if flt x lo then lo else if flt hi x then hi else x)"

definition compute_http_confidence :: "f64 \<Rightarrow> segment_info \<Rightarrow> f64" where
  "compute_http_confidence consumer_confidence seg_info =
     (let one = f64_of_nat 1;
          conf = (if si_total seg_info \<le> 1 then fmul consumer_confidence (f64_decimal 8 1)
            else if si_wildcard seg_info = 0 then fmul consumer_confidence one
            else
              (let wildcard_ratio = fdiv (f64_of_nat (si_wildcard seg_info)) (f64_of_nat (si_total seg_info))
               in fmul consumer_confidence (fsub one (fmul wildcard_ratio (f64_decimal 1 1)))))
      in fclamp conf f64_zero one)"

text \<open>\<open>index.entry(key).or_default().push(x)\<close> for every element.\<close>

definition index_by :: "('a \<Rightarrow> 'k) \<Rightarrow> 'a list \<Rightarrow> ('k \<rightharpoonup> 'a list)" where
  "index_by key xs = foldl (\<lambda>m x. map_entry (key x) [] (\<lambda>v. v @ [x]) m) (\<lambda>_. None) xs"

definition link :: "matchable_consumer_fact \<Rightarrow> boundary_match_basis \<Rightarrow> f64 \<Rightarrow> matchable_provider_fact \<Rightarrow> boundary_link_candidate" where
  "link c basis confidence p = \<lparr>bl_provider_fact_uid = mp_fact_uid p, bl_consumer_fact_uid = mc_fact_uid c,
     bl_match_basis = basis, bl_confidence = confidence\<rparr>"

definition provider_key :: "matchable_provider_fact \<Rightarrow> string" where
  "provider_key p = http_compute_matcher_key (bp_address (mp_fact p)) (bp_metadata (mp_fact p))"

definition http_candidates ::
  "(string \<rightharpoonup> matchable_provider_fact list) \<Rightarrow> (string \<rightharpoonup> matchable_provider_fact list) \<Rightarrow> matchable_consumer_fact \<Rightarrow>
   boundary_link_candidate list" where
  "http_candidates provider_index provider_by_path_only c =
     (let address = bc_address (mc_fact c); metadata = bc_metadata (mc_fact c);
          path_only = normalize_http_path address;
          conf = compute_http_confidence (bc_confidence (mc_fact c)) (count_segment_types path_only)
      in case provider_index (http_compute_matcher_key address metadata) of
           Some exact_matches \<Rightarrow> map (link c AddressMatch conf) exact_matches
         | None \<Rightarrow>
             if http_method metadata = None \<or> http_method metadata = Some ''*''
             then (case provider_by_path_only path_only of
                     None \<Rightarrow> []
                   | Some path_matches \<Rightarrow> map (link c Heuristic (fmul conf (f64_decimal 7 1))) path_matches)
             else [])"

definition http_match ::
  "matchable_provider_fact list \<Rightarrow> matchable_consumer_fact list \<Rightarrow> boundary_link_candidate list" where
  "http_match providers consumers =
     (if providers = [] \<or> consumers = [] then []
      else
        (let provider_index = index_by provider_key providers;
             provider_by_path_only = index_by (\<lambda>p. normalize_http_path (bp_address (mp_fact p))) providers
         in concat (map (http_candidates provider_index provider_by_path_only) consumers)))"

definition cli_candidates ::
  "(string \<rightharpoonup> matchable_provider_fact list) \<Rightarrow> matchable_consumer_fact \<Rightarrow> boundary_link_candidate list" where
  "cli_candidates provider_index c =
     (let consumer_key = cli_compute_matcher_key (bc_address (mc_fact c));
          conf = bc_confidence (mc_fact c)
      in case provider_index consumer_key of
           Some exact_matches \<Rightarrow> map (link c OperationMatch (fmul conf (f64_decimal 9 1))) exact_matches
         | None \<Rightarrow>
             (let tokens = split_whitespace consumer_key
              in if length tokens \<ge> 3
                 then (case provider_index (join_with (CHR '' '') (tl tokens)) of
                         None \<Rightarrow> []
                       | Some prefix_matches \<Rightarrow> map (link c Heuristic (fmul conf (f64_decimal 75 2))) prefix_matches)
                 else []))"

definition cli_match ::
  "matchable_provider_fact list \<Rightarrow> matchable_consumer_fact list \<Rightarrow> boundary_link_candidate list" where
  "cli_match providers consumers =
     (if providers = [] \<or> consumers = [] then []
      else
        (let provider_index = index_by (\<lambda>p. cli_compute_matcher_key (bp_address (mp_fact p))) providers
         in concat (map (cli_candidates provider_index) consumers)))"

definition match_boundary_facts ::
  "matchable_provider_fact list \<Rightarrow> matchable_consumer_fact list \<Rightarrow> boundary_link_candidate list" where
  "match_boundary_facts providers consumers =
     (let providers_by_mech = index_by (\<lambda>p. bp_mechanism (mp_fact p)) providers;
          consumers_by_mech = index_by (\<lambda>c. bc_mechanism (mc_fact c)) consumers
      in concat (map (\<lambda>mech. case (providers_by_mech mech, consumers_by_mech mech) of
             (Some mech_providers, Some mech_consumers) \<Rightarrow>
               (case mech of
                  Http \<Rightarrow> http_match mech_providers mech_consumers
                | CliCommand \<Rightarrow> cli_match mech_providers mech_consumers
                | _ \<Rightarrow> [])
           | _ \<Rightarrow> []) [Http, CliCommand]))"

section \<open>Indexes\<close>

lemma index_by_iff:
  "index_by key xs k = (case filter (\<lambda>x. key x = k) xs of [] \<Rightarrow> None | ys \<Rightarrow> Some ys)"
proof (induction xs rule: rev_induct)
  case (snoc x xs)
  have "index_by key (xs @ [x]) = map_entry (key x) [] (\<lambda>v. v @ [x]) (index_by key xs)" by (simp add: index_by_def)
  with snoc show ?case by (auto simp: map_entry_def split: list.split)
qed (simp add: index_by_def)

lemma index_by_None: "index_by key xs k = None \<longleftrightarrow> \<not> (\<exists>x \<in> set xs. key x = k)"
proof -
  have "index_by key xs k = None \<longleftrightarrow> filter (\<lambda>x. key x = k) xs = []" by (simp add: index_by_iff split: list.split)
  then show ?thesis by (simp add: filter_empty_conv)
qed

lemma index_by_Some: "index_by key xs k = Some ys \<longleftrightarrow> ys = filter (\<lambda>x. key x = k) xs \<and> ys \<noteq> []"
  by (auto simp: index_by_iff split: list.split)

lemma index_case:
  "(case index_by key xs k of None \<Rightarrow> z | Some ys \<Rightarrow> map f ys) =
     (if \<exists>x \<in> set xs. key x = k then map f (filter (\<lambda>x. key x = k) xs) else z)"
proof (cases "index_by key xs k")
  case None
  then show ?thesis using index_by_None [of key xs k] by simp
next
  case (Some ys)
  then have "ys = filter (\<lambda>x. key x = k) xs" "ys \<noteq> []" using index_by_Some [of key xs k ys] by blast+
  moreover from this have "\<exists>x \<in> set xs. key x = k" by (simp add: filter_empty_conv)
  ultimately show ?thesis using Some by simp
qed

lemma index_case_Nil:
  "(case index_by key xs k of None \<Rightarrow> [] | Some ys \<Rightarrow> map f ys) = map f (filter (\<lambda>x. key x = k) xs)"
  by (simp add: index_case filter_empty_conv)

section \<open>Normal forms\<close>

lemma normalize_segment_idem [simp]: "normalize_segment (normalize_segment s) = normalize_segment s"
  by (auto simp: normalize_segment_def PARAM_WILDCARD_def ends_with_def)

lemma normalize_segment_no_slash: "CHR ''/'' \<notin> set s \<Longrightarrow> CHR ''/'' \<notin> set (normalize_segment s)"
  by (auto simp: normalize_segment_def PARAM_WILDCARD_def)

lemma normalize_segment_Nil [simp]: "normalize_segment s = [] \<longleftrightarrow> s = []"
  by (auto simp: normalize_segment_def PARAM_WILDCARD_def)

lemma split_normalized:
  "split_on (CHR ''/'') (join_with (CHR ''/'') (map normalize_segment (split_on (CHR ''/'') p))) =
     map normalize_segment (split_on (CHR ''/'') p)"
  by (rule split_join) (auto simp: normalize_segment_no_slash split_on_no_sep)

lemma normalize_http_path_idem: "normalize_http_path (normalize_http_path p) = normalize_http_path p"
proof -
  let ?n = "join_with (CHR ''/'') (map normalize_segment (split_on (CHR ''/'') p))"
  have "map normalize_segment (split_on (CHR ''/'') ?n) = split_on (CHR ''/'') ?n"
    by (simp add: split_normalized comp_def)
  then have "join_with (CHR ''/'') (map normalize_segment (split_on (CHR ''/'') ?n)) = ?n" by (metis join_split)
  moreover have "p = []" if "?n = []"
  proof -
    from split_normalized [of p] that have "map normalize_segment (split_on (CHR ''/'') p) = [[]]" by simp
    then have "split_on (CHR ''/'') p = [[]]" by auto
    from arg_cong [OF this, of "join_with (CHR ''/'')"] show ?thesis by simp
  qed
  ultimately show ?thesis by (auto simp: normalize_http_path_def)
qed

section \<open>The links\<close>

text \<open>The matcher key of a fact, and the weaker evidence that is used when no provider has the consumer's key.\<close>

definition key_of_provider :: "matchable_provider_fact \<Rightarrow> string option" where
  "key_of_provider p = compute_matcher_key (bp_mechanism (mp_fact p)) (bp_address (mp_fact p)) (bp_metadata (mp_fact p))"

definition key_of_consumer :: "matchable_consumer_fact \<Rightarrow> string option" where
  "key_of_consumer c = compute_matcher_key (bc_mechanism (mc_fact c)) (bc_address (mc_fact c)) (bc_metadata (mc_fact c))"

definition exact_pair :: "matchable_provider_fact \<Rightarrow> matchable_consumer_fact \<Rightarrow> bool" where
  "exact_pair p c \<longleftrightarrow> bp_mechanism (mp_fact p) = bc_mechanism (mc_fact c) \<and>
     key_of_consumer c \<noteq> None \<and> key_of_provider p = key_of_consumer c"

definition loose_pair :: "matchable_provider_fact \<Rightarrow> matchable_consumer_fact \<Rightarrow> bool" where
  "loose_pair p c \<longleftrightarrow> bp_mechanism (mp_fact p) = bc_mechanism (mc_fact c) \<and>
     (case bc_mechanism (mc_fact c) of
        Http \<Rightarrow> http_method (bc_metadata (mc_fact c)) \<in> {None, Some ''*''} \<and>
          normalize_http_path (bp_address (mp_fact p)) = normalize_http_path (bc_address (mc_fact c))
      | CliCommand \<Rightarrow>
          (let tokens = split_whitespace (cli_compute_matcher_key (bc_address (mc_fact c)))
           in 3 \<le> length tokens \<and> cli_compute_matcher_key (bp_address (mp_fact p)) = join_with (CHR '' '') (tl tokens))
      | _ \<Rightarrow> False)"

text \<open>What is linked: all exact pairs of a consumer, and only if it has none, its loose pairs.\<close>

definition linked ::
  "matchable_provider_fact list \<Rightarrow> matchable_provider_fact \<Rightarrow> matchable_consumer_fact \<Rightarrow> boundary_match_basis \<Rightarrow> bool" where
  "linked providers p c basis \<longleftrightarrow>
     (if \<exists>q \<in> set providers. exact_pair q c
      then exact_pair p c \<and> basis = (if bc_mechanism (mc_fact c) = Http then AddressMatch else OperationMatch)
      else loose_pair p c \<and> basis = Heuristic)"

definition link_row :: "boundary_link_candidate \<Rightarrow> string \<times> string \<times> boundary_match_basis" where
  "link_row l = (bl_provider_fact_uid l, bl_consumer_fact_uid l, bl_match_basis l)"

lemma link_row_link [simp]: "link_row (link c b x p) = (mp_fact_uid p, mc_fact_uid c, b)"
  by (simp add: link_row_def link_def)

lemma linked_rows:
  assumes "\<And>p. p \<in> set ps \<Longrightarrow> exact_pair p c \<longleftrightarrow> E p" "\<And>p. p \<in> set ps \<Longrightarrow> loose_pair p c \<longleftrightarrow> m \<and> L p"
    and "b = (if bc_mechanism (mc_fact c) = Http then AddressMatch else OperationMatch)"
  shows "link_row ` set (if \<exists>p \<in> set ps. E p then map (link c b x) (filter E ps)
      else if m then map (link c Heuristic y) (filter L ps) else []) =
    {(mp_fact_uid p, mc_fact_uid c, b') | p b'. p \<in> set ps \<and> linked ps p c b'}"
proof (cases "\<exists>q \<in> set ps. E q")
  case True
  then have "(\<exists>q \<in> set ps. exact_pair q c)" using assms(1) by blast
  with True assms(1,3) show ?thesis by (auto simp: linked_def image_image)
next
  case False
  then have "\<not> (\<exists>q \<in> set ps. exact_pair q c)" using assms(1) by blast
  with False assms(2) show ?thesis by (auto simp: linked_def image_image)
qed

lemma http_candidates_rows:
  assumes "\<forall>p \<in> set ps. bp_mechanism (mp_fact p) = Http" "bc_mechanism (mc_fact c) = Http"
  shows "link_row ` set (http_candidates (index_by provider_key ps)
      (index_by (\<lambda>p. normalize_http_path (bp_address (mp_fact p))) ps) c) =
    {(mp_fact_uid p, mc_fact_uid c, b) | p b. p \<in> set ps \<and> linked ps p c b}"
  unfolding http_candidates_def Let_def index_case_Nil unfolding index_case
  using assms
  by (intro linked_rows) (simp_all add: exact_pair_def loose_pair_def key_of_provider_def key_of_consumer_def
      compute_matcher_key_def provider_key_def)

lemma cli_candidates_rows:
  assumes "\<forall>p \<in> set ps. bp_mechanism (mp_fact p) = CliCommand" "bc_mechanism (mc_fact c) = CliCommand"
  shows "link_row ` set (cli_candidates (index_by (\<lambda>p. cli_compute_matcher_key (bp_address (mp_fact p))) ps) c) =
    {(mp_fact_uid p, mc_fact_uid c, b) | p b. p \<in> set ps \<and> linked ps p c b}"
  unfolding cli_candidates_def Let_def index_case_Nil unfolding index_case
  using assms
  by (intro linked_rows) (simp_all add: exact_pair_def loose_pair_def key_of_provider_def key_of_consumer_def
      compute_matcher_key_def Let_def)

text \<open>Only the providers of the consumer's own mechanism matter to it.\<close>

lemma linked_same_mechanism:
  assumes "\<And>q. q \<in> set ps \<longleftrightarrow> q \<in> set providers \<and> bp_mechanism (mp_fact q) = bc_mechanism (mc_fact c)"
  shows "p \<in> set ps \<and> linked ps p c b \<longleftrightarrow> p \<in> set providers \<and> linked providers p c b"
proof -
  have "(\<exists>q \<in> set ps. exact_pair q c) \<longleftrightarrow> (\<exists>q \<in> set providers. exact_pair q c)"
    using assms by (auto simp: exact_pair_def)
  then show ?thesis using assms by (auto simp: linked_def exact_pair_def loose_pair_def split: if_splits)
qed

lemma linked_mechanism: "linked providers p c b \<Longrightarrow> bc_mechanism (mc_fact c) \<in> {Http, CliCommand}"
  by (cases "bc_mechanism (mc_fact c)")
    (auto simp: linked_def exact_pair_def loose_pair_def key_of_consumer_def compute_matcher_key_def split: if_splits)

text \<open>The links of the facts of one mechanism.\<close>

definition mechanism_links ::
  "boundary_mechanism \<Rightarrow> matchable_provider_fact list \<Rightarrow> matchable_consumer_fact list \<Rightarrow> boundary_link_candidate list" where
  "mechanism_links mech ps cs = (case mech of Http \<Rightarrow> http_match ps cs | CliCommand \<Rightarrow> cli_match ps cs | _ \<Rightarrow> [])"

lemma match_boundary_facts_eq:
  "match_boundary_facts providers consumers = concat (map (\<lambda>mech. mechanism_links mech
     (filter (\<lambda>p. bp_mechanism (mp_fact p) = mech) providers)
     (filter (\<lambda>c. bc_mechanism (mc_fact c) = mech) consumers)) [Http, CliCommand])"
proof -
  have empty: "mechanism_links mech [] cs = []" "mechanism_links mech ps [] = []" for mech ps cs
    by (cases mech; simp add: mechanism_links_def http_match_def cli_match_def)+
  have "(case (index_by (\<lambda>p. bp_mechanism (mp_fact p)) providers mech, index_by (\<lambda>c. bc_mechanism (mc_fact c)) consumers mech) of
      (Some ps, Some cs) \<Rightarrow> mechanism_links mech ps cs | _ \<Rightarrow> []) =
    mechanism_links mech (filter (\<lambda>p. bp_mechanism (mp_fact p) = mech) providers)
      (filter (\<lambda>c. bc_mechanism (mc_fact c) = mech) consumers)" for mech
    by (simp add: index_by_iff empty split: list.split)
  then show ?thesis
    unfolding match_boundary_facts_def Let_def mechanism_links_def [symmetric] by (simp only:)
qed

lemma mechanism_links_rows:
  assumes "\<forall>p \<in> set ps. bp_mechanism (mp_fact p) = mech" "\<forall>c \<in> set cs. bc_mechanism (mc_fact c) = mech"
    and "mech = Http \<or> mech = CliCommand"
  shows "link_row ` set (mechanism_links mech ps cs) =
    {(mp_fact_uid p, mc_fact_uid c, b) | p c b. p \<in> set ps \<and> c \<in> set cs \<and> linked ps p c b}"
proof (cases "ps = [] \<or> cs = []")
  case True
  then show ?thesis using assms(3) by (auto simp: mechanism_links_def http_match_def cli_match_def)
next
  case False
  have "link_row ` set (mechanism_links mech ps cs) =
      (\<Union>c \<in> set cs. {(mp_fact_uid p, mc_fact_uid c, b) | p b. p \<in> set ps \<and> linked ps p c b})"
    using assms(3)
  proof
    assume "mech = Http"
    with assms False show ?thesis
      by (simp add: mechanism_links_def http_match_def Let_def image_UN http_candidates_rows)
  next
    assume "mech = CliCommand"
    with assms False show ?thesis
      by (simp add: mechanism_links_def cli_match_def Let_def image_UN cli_candidates_rows)
  qed
  then show ?thesis by blast
qed

lemma match_rows:
  "link_row ` set (match_boundary_facts providers consumers) =
     {(mp_fact_uid p, mc_fact_uid c, b) | p c b. p \<in> set providers \<and> c \<in> set consumers \<and> linked providers p c b}"
proof -
  let ?P = "\<lambda>mech. filter (\<lambda>p. bp_mechanism (mp_fact p) = mech) providers"
  let ?C = "\<lambda>mech. filter (\<lambda>c. bc_mechanism (mc_fact c) = mech) consumers"
  have "link_row ` set (match_boundary_facts providers consumers) =
      (\<Union>mech \<in> {Http, CliCommand}. link_row ` set (mechanism_links mech (?P mech) (?C mech)))"
    by (simp add: match_boundary_facts_eq image_Un)
  also have "\<dots> = (\<Union>mech \<in> {Http, CliCommand}.
      {(mp_fact_uid p, mc_fact_uid c, b) | p c b. p \<in> set (?P mech) \<and> c \<in> set (?C mech) \<and> linked (?P mech) p c b})"
    by (intro SUP_cong refl mechanism_links_rows) auto
  also have "\<dots> = (\<Union>mech \<in> {Http, CliCommand}.
      {(mp_fact_uid p, mc_fact_uid c, b) | p c b. p \<in> set providers \<and> c \<in> set (?C mech) \<and> linked providers p c b})"
  proof (intro SUP_cong refl Collect_cong)
    fix mech r
    have "p \<in> set (?P mech) \<and> c \<in> set (?C mech) \<and> linked (?P mech) p c b \<longleftrightarrow>
        p \<in> set providers \<and> c \<in> set (?C mech) \<and> linked providers p c b" for p c b
      using linked_same_mechanism [of "?P mech" providers c p b] by auto
    then show "(\<exists>p c b. r = (mp_fact_uid p, mc_fact_uid c, b) \<and> p \<in> set (?P mech) \<and> c \<in> set (?C mech) \<and> linked (?P mech) p c b) \<longleftrightarrow>
        (\<exists>p c b. r = (mp_fact_uid p, mc_fact_uid c, b) \<and> p \<in> set providers \<and> c \<in> set (?C mech) \<and> linked providers p c b)"
      by (simp only:)
  qed
  also have "\<dots> = {(mp_fact_uid p, mc_fact_uid c, b) | p c b. p \<in> set providers \<and> c \<in> set consumers \<and> linked providers p c b}"
    (is "?L = ?R")
  proof (rule equalityI; rule subsetI)
    fix r assume "r \<in> ?R"
    then obtain p c b where r: "r = (mp_fact_uid p, mc_fact_uid c, b)" "p \<in> set providers" "c \<in> set consumers"
      "linked providers p c b" by blast
    then have "bc_mechanism (mc_fact c) \<in> {Http, CliCommand}" using linked_mechanism by blast
    moreover have "c \<in> set (?C (bc_mechanism (mc_fact c)))" using r by simp
    ultimately show "r \<in> ?L" using r(1,2,4) by (intro UN_I [of "bc_mechanism (mc_fact c)"]) blast+
  qed auto
  finally show ?thesis .
qed

section \<open>Each pair at most once\<close>

definition link_pair :: "boundary_link_candidate \<Rightarrow> string \<times> string" where
  "link_pair l = (bl_provider_fact_uid l, bl_consumer_fact_uid l)"

lemma candidates_shape:
  "\<exists>b x Q. http_candidates (index_by provider_key ps) (index_by (\<lambda>p. normalize_http_path (bp_address (mp_fact p))) ps) c =
     map (link c b x) (filter Q ps)"
  "\<exists>b x Q. cli_candidates (index_by (\<lambda>p. cli_compute_matcher_key (bp_address (mp_fact p))) ps) c = map (link c b x) (filter Q ps)"
proof -
  have none: "\<exists>b x Q. [] = map (link c b x) (filter Q ps)" by (rule exI, rule exI, rule exI [of _ "\<lambda>_. False"]) simp
  show "\<exists>b x Q. http_candidates (index_by provider_key ps) (index_by (\<lambda>p. normalize_http_path (bp_address (mp_fact p))) ps) c =
     map (link c b x) (filter Q ps)"
    unfolding http_candidates_def Let_def index_case_Nil unfolding index_case using none by (auto split: if_split)
  show "\<exists>b x Q. cli_candidates (index_by (\<lambda>p. cli_compute_matcher_key (bp_address (mp_fact p))) ps) c =
     map (link c b x) (filter Q ps)"
    unfolding cli_candidates_def Let_def index_case_Nil unfolding index_case using none by (auto split: if_split)
qed

lemma times_disjoint: "A \<subseteq> X \<times> U \<Longrightarrow> B \<subseteq> Y \<times> W \<Longrightarrow> U \<inter> W = {} \<Longrightarrow> A \<inter> B = {}"
  by blast

lemma distinct_candidates:
  assumes "distinct (map mp_fact_uid ps)" "distinct (map mc_fact_uid cs)"
    and "\<And>c. \<exists>b x Q. f c = map (link c b x) (filter Q ps)"
  shows "distinct (map link_pair (concat (map f cs)))"
    and "link_pair ` set (concat (map f cs)) \<subseteq> mp_fact_uid ` set ps \<times> mc_fact_uid ` set cs"
proof -
  have row: "distinct (map link_pair (f c)) \<and> link_pair ` set (f c) \<subseteq> mp_fact_uid ` set ps \<times> {mc_fact_uid c}" for c
  proof -
    obtain b x Q where "f c = map (link c b x) (filter Q ps)" using assms(3) by blast
    then show ?thesis
      using assms(1) by (auto simp: link_pair_def link_def comp_def distinct_map inj_on_def)
  qed
  show "link_pair ` set (concat (map f cs)) \<subseteq> mp_fact_uid ` set ps \<times> mc_fact_uid ` set cs"
    using row by fastforce
  show "distinct (map link_pair (concat (map f cs)))"
    using assms(2)
  proof (induction cs)
    case (Cons c cs)
    have "link_pair ` set (f c) \<inter> link_pair ` set (concat (map f cs)) = {}"
    proof (rule times_disjoint)
      show "link_pair ` set (f c) \<subseteq> mp_fact_uid ` set ps \<times> {mc_fact_uid c}" using row by blast
      show "link_pair ` set (concat (map f cs)) \<subseteq> mp_fact_uid ` set ps \<times> mc_fact_uid ` set cs" using row by fastforce
      show "{mc_fact_uid c} \<inter> mc_fact_uid ` set cs = {}" using Cons.prems by simp
    qed
    moreover have "distinct (map link_pair (concat (map f cs)))" using Cons by simp
    ultimately show ?case using row [of c] by simp
  qed simp
qed

lemma match_distinct:
  assumes "distinct (map mp_fact_uid providers)" "distinct (map mc_fact_uid consumers)"
  shows "distinct (map link_pair (match_boundary_facts providers consumers))"
proof -
  let ?P = "\<lambda>mech. filter (\<lambda>p. bp_mechanism (mp_fact p) = mech) providers"
  let ?C = "\<lambda>mech. filter (\<lambda>c. bc_mechanism (mc_fact c) = mech) consumers"
  have uids: "distinct (map mp_fact_uid (?P mech))" "distinct (map mc_fact_uid (?C mech))" for mech
    using assms by (simp_all add: distinct_map_filter)
  have links: "distinct (map link_pair (mechanism_links mech (?P mech) (?C mech))) \<and>
      link_pair ` set (mechanism_links mech (?P mech) (?C mech)) \<subseteq> mp_fact_uid ` set (?P mech) \<times> mc_fact_uid ` set (?C mech)" for mech
    using distinct_candidates [OF uids candidates_shape(1), of mech mech]
      distinct_candidates [OF uids candidates_shape(2), of mech mech]
    by (cases mech) (simp_all add: mechanism_links_def http_match_def cli_match_def Let_def)
  have "mc_fact_uid ` set (?C Http) \<inter> mc_fact_uid ` set (?C CliCommand) = {}"
  proof (rule equals0I)
    fix u assume "u \<in> mc_fact_uid ` set (?C Http) \<inter> mc_fact_uid ` set (?C CliCommand)"
    then obtain c d where cd: "c \<in> set (?C Http)" "d \<in> set (?C CliCommand)" "mc_fact_uid c = mc_fact_uid d" by auto
    moreover have "inj_on mc_fact_uid (set consumers)" using assms(2) by (simp add: distinct_map)
    ultimately have "c = d" by (simp add: inj_on_eq_iff)
    with cd show False by simp
  qed
  then have "link_pair ` set (mechanism_links Http (?P Http) (?C Http)) \<inter>
      link_pair ` set (mechanism_links CliCommand (?P CliCommand) (?C CliCommand)) = {}"
    using links [of Http] links [of CliCommand] by (intro times_disjoint) (blast, blast, simp)
  with links show ?thesis by (simp add: match_boundary_facts_eq)
qed

section \<open>Properties\<close>

definition demo_provider :: "string \<Rightarrow> boundary_mechanism \<Rightarrow> string \<Rightarrow> string \<Rightarrow> matchable_provider_fact" where
  "demo_provider uid mech address m = \<lparr>mp_fact_uid = uid, mp_fact = \<lparr>bp_mechanism = mech, bp_operation = '''',
     bp_address = address, bp_handler_stable_key = '''', bp_source_file = '''', bp_line_start = 1, bp_framework = '''',
     bp_basis = PB_Annotation, bp_schema_ref = None, bp_metadata = [(''httpMethod'', JString m)]\<rparr>\<rparr>"

definition demo_consumer :: "string \<Rightarrow> boundary_mechanism \<Rightarrow> string \<Rightarrow> string \<Rightarrow> matchable_consumer_fact" where
  "demo_consumer uid mech address m = \<lparr>mc_fact_uid = uid, mc_fact = \<lparr>bc_mechanism = mech, bc_operation = '''',
     bc_address = address, bc_caller_stable_key = '''', bc_source_file = '''', bc_line_start = 1,
     bc_basis = CB_Literal, bc_confidence = f64_of_nat 1, bc_schema_ref = None, bc_metadata = [(''httpMethod'', JString m)]\<rparr>\<rparr>"

text \<open>
  C32. The links between providers and consumers. The links are exactly these: for a consumer whose matcher key some provider of its mechanism
  has, one link to each such provider; for any other consumer, a heuristic link to each provider with the same path if its
  method is unknown, or, for a command of at least three words, to each provider of the command without its first word. No pair is
  linked twice. Normalizing a path a second time changes nothing.
\<close>

theorem boundary_links_exact:
  assumes "distinct (map mp_fact_uid providers)" "distinct (map mc_fact_uid consumers)"
  shows "link_row ` set (match_boundary_facts providers consumers) =
      {(mp_fact_uid p, mc_fact_uid c, b) | p c b. p \<in> set providers \<and> c \<in> set consumers \<and> linked providers p c b} \<and>
    distinct (map link_pair (match_boundary_facts providers consumers)) \<and>
    normalize_http_path (normalize_http_path path) = normalize_http_path path"
  using match_rows match_distinct [OF assms] normalize_http_path_idem by blast

theorem boundary_links_exact_witness:
  "(''p'', ''c'', AddressMatch) \<in> link_row ` set (match_boundary_facts
     [demo_provider ''p'' Http ''/users/{id}'' ''get''] [demo_consumer ''c'' Http ''/users/:uid'' ''GET''])"
proof -
  let ?P = "[demo_provider ''p'' Http ''/users/{id}'' ''get'']" and ?C = "[demo_consumer ''c'' Http ''/users/:uid'' ''GET'']"
  have "distinct (map mp_fact_uid ?P)" "distinct (map mc_fact_uid ?C)" by simp_all
  from conjunct1 [OF boundary_links_exact [OF this]]
  have rows: "link_row ` set (match_boundary_facts ?P ?C) =
    {(mp_fact_uid p, mc_fact_uid c, b) | p c b. p \<in> set ?P \<and> c \<in> set ?C \<and> linked ?P p c b}" .
  have "linked ?P (hd ?P) (hd ?C) AddressMatch" by code_simp
  then show ?thesis unfolding rows by (auto simp: demo_provider_def demo_consumer_def)
qed

end
