(* ===== verification/Conn_Limit.thy ===== *)
theory Conn_Limit
  imports Rust_Prelude
begin

text \<open>
  The connection limiter, \<open>daemon-transport/src/conn_limit.rs\<close>: a counting semaphore over one atomic
  \<open>usize\<close> (64 bits). A step of the system is one atomic operation of a thread inside \<open>try_acquire\<close>, or
  the drop of a permit; the interleavings are the executions. The weak compare-and-exchange may fail
  although the value is the expected one.
\<close>

section \<open>The limiter\<close>

text \<open>A thread inside \<open>try_acquire\<close> holds the value it read last; \<open>cl_permits\<close> counts the live permits.\<close>

datatype acquire_state = Not_Acquiring | Observed u64

record limiter_system =
  cl_available :: u64
  cl_acquiring :: "nat \<Rightarrow> acquire_state"
  cl_permits :: nat

definition limiter_new :: "u64 \<Rightarrow> limiter_system" where
  "limiter_new max_permits = \<lparr>cl_available = max_permits, cl_acquiring = (\<lambda>_. Not_Acquiring), cl_permits = 0\<rparr>"

definition acquire_load :: "nat \<Rightarrow> limiter_system \<Rightarrow> limiter_system option" where
  "acquire_load t s = (case cl_acquiring s t of
     Not_Acquiring \<Rightarrow> Some (s\<lparr>cl_acquiring := (cl_acquiring s)(t := Observed (cl_available s))\<rparr>)
   | Observed _ \<Rightarrow> None)"

text \<open>The loop head: with the observed value 0, \<open>try_acquire\<close> returns \<open>None\<close>.\<close>

definition acquire_refuse :: "nat \<Rightarrow> limiter_system \<Rightarrow> limiter_system option" where
  "acquire_refuse t s = (case cl_acquiring s t of
     Observed current \<Rightarrow>
       if current = 0 then Some (s\<lparr>cl_acquiring := (cl_acquiring s)(t := Not_Acquiring)\<rparr>) else None
   | Not_Acquiring \<Rightarrow> None)"

text \<open>The compare-and-exchange, which fails spuriously when \<open>weak\<close> is true.\<close>

definition acquire_cas :: "nat \<Rightarrow> bool \<Rightarrow> limiter_system \<Rightarrow> limiter_system option" where
  "acquire_cas t weak s = (case cl_acquiring s t of
     Observed current \<Rightarrow>
       if current = 0 then None
       else if cl_available s = current \<and> \<not> weak
       then Some (s\<lparr>cl_available := current - 1, cl_acquiring := (cl_acquiring s)(t := Not_Acquiring),
                    cl_permits := cl_permits s + 1\<rparr>)
       else Some (s\<lparr>cl_acquiring := (cl_acquiring s)(t := Observed (cl_available s))\<rparr>)
   | Not_Acquiring \<Rightarrow> None)"

definition drop_permit :: "limiter_system \<Rightarrow> limiter_system option" where
  "drop_permit s =
     (if cl_permits s = 0 then None
      else Some (s\<lparr>cl_available := cl_available s + 1, cl_permits := cl_permits s - 1\<rparr>))"

datatype limiter_event = Load nat | Refuse nat | Cas nat bool | Drop

fun limiter_step :: "limiter_event \<Rightarrow> limiter_system \<Rightarrow> limiter_system option" where
  "limiter_step (Load t) s = acquire_load t s"
| "limiter_step (Refuse t) s = acquire_refuse t s"
| "limiter_step (Cas t weak) s = acquire_cas t weak s"
| "limiter_step Drop s = drop_permit s"

inductive limiter_execution :: "u64 \<Rightarrow> limiter_system \<Rightarrow> bool" for max_permits where
  start: "limiter_execution max_permits (limiter_new max_permits)"
| step: "limiter_execution max_permits s \<Longrightarrow> limiter_step e s = Some s' \<Longrightarrow> limiter_execution max_permits s'"

inductive_cases limiter_executionE: "limiter_execution max_permits s"

section \<open>Correctness\<close>

lemmas limiter_ops = acquire_load_def acquire_refuse_def acquire_cas_def drop_permit_def

text \<open>Available permits and live permits add up to the maximum; the counter never wraps.\<close>

lemma limiter_invariant:
  "limiter_execution m s \<Longrightarrow> unat (cl_available s) + cl_permits s = unat m"
proof (induction rule: limiter_execution.induct)
  case start
  show ?case by (simp add: limiter_new_def)
next
  case (step s e s')
  have dec: "unat (x - 1) + 1 = unat x" if "x \<noteq> 0" for x :: u64
    using that by (simp add: unat_minus_one unat_gt_0)
  have inc: "unat (x + 1) = unat x + 1" if "unat x < unat m" for x :: u64
    using that unsigned_less [of m, where 'a = nat] by (simp add: unat_word_ariths)
  show ?case
    using step.hyps(2) step.IH dec inc
    by (cases e) (fastforce simp: limiter_ops split: acquire_state.splits if_splits)+
qed

text \<open>
  C34. The limiter never hands out more permits than its maximum and never loses one: in every
  interleaving of acquisitions, retries after a failed or spuriously failing exchange, refusals and
  drops, the counter and the live permits add up to the maximum, so the counter neither underflows
  nor overflows. A thread is only on its way to a refusal because, at the moment it read the counter,
  all permits were live; and whenever a permit is free, a thread that starts undisturbed gets one.
\<close>

theorem connection_limit_respected:
  assumes "limiter_execution m s"
  shows "unat (cl_available s) + cl_permits s = unat m \<and> cl_permits s \<le> unat m \<and>
    (\<forall>e s' t. limiter_step e s = Some s' \<and> cl_acquiring s t \<noteq> Observed 0 \<and> cl_acquiring s' t = Observed 0 \<longrightarrow>
       cl_permits s' = unat m) \<and>
    (\<forall>t. cl_permits s < unat m \<and> cl_acquiring s t = Not_Acquiring \<longrightarrow>
       (\<exists>s1 s2. limiter_step (Load t) s = Some s1 \<and> limiter_step (Cas t False) s1 = Some s2 \<and>
          cl_permits s2 = cl_permits s + 1))"
proof (intro conjI allI impI)
  note inv = limiter_invariant [OF assms]
  show "unat (cl_available s) + cl_permits s = unat m" by (rule inv)
  then show "cl_permits s \<le> unat m" by simp
  fix e s' t
  assume "limiter_step e s = Some s' \<and> cl_acquiring s t \<noteq> Observed 0 \<and> cl_acquiring s' t = Observed 0"
  then have "cl_available s = 0 \<and> cl_permits s' = cl_permits s"
    by (cases e) (auto simp: limiter_ops split: acquire_state.splits if_splits)
  then show "cl_permits s' = unat m" using inv by simp
next
  fix t assume t: "cl_permits s < unat m \<and> cl_acquiring s t = Not_Acquiring"
  then have "cl_available s \<noteq> 0" using limiter_invariant [OF assms] by auto
  with t show "\<exists>s1 s2. limiter_step (Load t) s = Some s1 \<and> limiter_step (Cas t False) s1 = Some s2 \<and>
      cl_permits s2 = cl_permits s + 1"
    by (simp add: limiter_ops)
qed

theorem connection_limit_respected_witness:
  "\<exists>s. limiter_execution 1 s \<and> cl_permits s = 1 \<and> unat (cl_available s) + cl_permits s = unat (1 :: u64)"
proof -
  have e0: "limiter_execution 1 (limiter_new 1)" by (rule limiter_execution.start)
  have free: "cl_permits (limiter_new 1) < unat (1 :: u64) \<and> cl_acquiring (limiter_new 1) 0 = Not_Acquiring"
    by (simp add: limiter_new_def)
  from connection_limit_respected [OF e0] free
  obtain s1 s2 where s: "limiter_step (Load 0) (limiter_new 1) = Some s1" "limiter_step (Cas 0 False) s1 = Some s2"
    "cl_permits s2 = cl_permits (limiter_new 1) + 1" by blast
  then have "limiter_execution 1 s2"
    using e0 by (blast intro: limiter_execution.step)
  with s(3) connection_limit_respected [OF this] show ?thesis by (auto simp: limiter_new_def)
qed

end
