(* ===== verification/Cache_Dto.thy ===== *)
theory Cache_Dto
  imports Live_Graph
begin

text \<open>
  The mirror types of the warm cache, \<open>repo-graph-warm-cache/src/lib.rs\<close>, and their conversions from
  and to the types of \<open>repo-graph-ir\<close>; the mirrors of the value facts with the conversions of
  \<open>repo-graph-warm-cache-feed/src/lib.rs\<close>. A \<open>From\<close> implementation is a function; cloning a
  \<open>String\<close> and wrapping it in a newtype are the identity. A \<open>BTreeMap\<close> is the list of its entries by
  ascending key, as in \<open>Repo_Ir\<close>. The locale \<open>mirror\<close> is the contract of a mirror type.
\<close>

section \<open>Mirror types\<close>

record cache_source_range_dto =
  dsr_file :: string
  dsr_start_line :: u32
  dsr_start_col :: u32
  dsr_end_line :: u32
  dsr_end_col :: u32

record cache_provenance_dto =
  dip_indexer :: string
  dip_indexer_version :: string
  dip_scip_symbol_id :: "string option"
  dip_build_inputs_hash :: string

datatype cache_identity_source_dto =
    D_AstAdopted | D_ScipSynthesizedFallback | D_AstFileScope

datatype cache_edge_type_dto =
    D_Calls | D_References | D_Imports

datatype cache_edge_basis_dto =
    D_SyntaxConfirmedCall | D_DerivedReference | D_FileScopeReference | D_AstImport | D_AstImportFileInventoryResolved | D_AstImportTsconfigPathResolved | D_AstDynamicImportResolved

datatype cache_import_resolution_dto =
    D_StaticResolved | D_StaticUnresolved | D_PackageExternal | D_DynamicUnsupported

record cache_import_observation_dto =
  dio_source_file :: string
  dio_raw_specifier :: string
  dio_resolution :: cache_import_resolution_dto
  dio_is_re_export :: bool
  dio_is_type_only :: bool
  dio_is_side_effect :: bool
  dio_external_node_modules :: bool

record cache_import_edge_meta_dto =
  dem_raw_specifier :: string
  dem_resolved_path :: string
  dem_resolution :: cache_import_resolution_dto

datatype cache_partition_kind_dto =
    D_TsPackage

datatype cache_ir_visibility_dto =
    DV_Public | DV_Private | DV_Protected | DV_Internal | DV_Export

record cache_symbol_attributes_dto =
  dsa_visibility :: "cache_ir_visibility_dto option"
  dsa_is_top_level :: bool
  dsa_symbol_kind :: "string option"

record cache_ir_node_dto =
  dnd_key :: string
  dnd_subtype :: string
  dnd_name :: string
  dnd_range :: "cache_source_range_dto option"
  dnd_partition_id :: string
  dnd_identity_source :: cache_identity_source_dto
  dnd_provenance :: cache_provenance_dto
  dnd_attributes :: "cache_symbol_attributes_dto option"

record cache_ir_edge_dto =
  ded_src :: string
  ded_dst :: string
  ded_type :: cache_edge_type_dto
  ded_basis :: cache_edge_basis_dto
  ded_provenance :: cache_provenance_dto
  ded_import :: "cache_import_edge_meta_dto option"

record cache_tsconfig_alias_config_dto =
  dta_base_url :: string
  dta_paths :: "(string \<times> string list) list"
  dta_partition_prefix :: string

record cache_partition_dto =
  dpt_id :: string
  dpt_kind :: cache_partition_kind_dto
  dpt_root :: string
  dpt_indexer :: string
  dpt_indexer_version :: string
  dpt_build_inputs_hash :: string
  dpt_package_name :: "string option"
  dpt_declared_dependencies :: "string set"
  dpt_tsconfig_aliases :: "cache_tsconfig_alias_config_dto option"

record cache_partition_ir_dto =
  dir_partition :: cache_partition_dto
  dir_nodes :: "cache_ir_node_dto list"
  dir_edges :: "cache_ir_edge_dto list"
  dir_import_observations :: "cache_import_observation_dto list"

datatype cache_identity_basis_dto =
    DB_AstAdopted | DB_ScipSynthesized | DB_AstFileScope | DB_DeclarationMapExact | DB_NameExactUnique | DB_RangeNameConfirmed | DB_RawAnchored

datatype cache_value_fact_kind_dto =
    D_CyclomaticComplexity

datatype cache_value_subject_dto = D_Symbol string | D_RawAnchor cache_source_range_dto

record cache_value_fact_dto =
  dvf_subject :: cache_value_subject_dto
  dvf_kind :: cache_value_fact_kind_dto
  dvf_value :: u32
  dvf_basis :: cache_identity_basis_dto
  dvf_source_range :: "cache_source_range_dto option"
  dvf_provenance :: cache_provenance_dto

record cache_value_facts_dto =
  dvs_facts :: "cache_value_fact_dto list"

section \<open>Conversions\<close>

definition source_range_to_dto :: "source_range \<Rightarrow> cache_source_range_dto" where
  "source_range_to_dto r = \<lparr>
     dsr_file = sr_file r,
     dsr_start_line = sr_start_line r,
     dsr_start_col = sr_start_col r,
     dsr_end_line = sr_end_line r,
     dsr_end_col = sr_end_col r\<rparr>"

definition source_range_from_dto :: "cache_source_range_dto \<Rightarrow> source_range" where
  "source_range_from_dto r = \<lparr>
     sr_file = dsr_file r,
     sr_start_line = dsr_start_line r,
     sr_start_col = dsr_start_col r,
     sr_end_line = dsr_end_line r,
     sr_end_col = dsr_end_col r\<rparr>"

definition provenance_to_dto :: "ir_provenance \<Rightarrow> cache_provenance_dto" where
  "provenance_to_dto p = \<lparr>
     dip_indexer = ip_indexer p,
     dip_indexer_version = ip_indexer_version p,
     dip_scip_symbol_id = ip_scip_symbol_id p,
     dip_build_inputs_hash = ip_build_inputs_hash p\<rparr>"

definition provenance_from_dto :: "cache_provenance_dto \<Rightarrow> ir_provenance" where
  "provenance_from_dto p = \<lparr>
     ip_indexer = dip_indexer p,
     ip_indexer_version = dip_indexer_version p,
     ip_scip_symbol_id = dip_scip_symbol_id p,
     ip_build_inputs_hash = dip_build_inputs_hash p\<rparr>"

definition identity_source_to_dto :: "identity_source \<Rightarrow> cache_identity_source_dto" where
  "identity_source_to_dto v = (case v of
     AstAdopted \<Rightarrow> D_AstAdopted
   | ScipSynthesizedFallback \<Rightarrow> D_ScipSynthesizedFallback
   | AstFileScope \<Rightarrow> D_AstFileScope)"

definition identity_source_from_dto :: "cache_identity_source_dto \<Rightarrow> identity_source" where
  "identity_source_from_dto v = (case v of
     D_AstAdopted \<Rightarrow> AstAdopted
   | D_ScipSynthesizedFallback \<Rightarrow> ScipSynthesizedFallback
   | D_AstFileScope \<Rightarrow> AstFileScope)"

definition edge_type_to_dto :: "edge_type \<Rightarrow> cache_edge_type_dto" where
  "edge_type_to_dto v = (case v of
     Calls \<Rightarrow> D_Calls
   | References \<Rightarrow> D_References
   | Imports \<Rightarrow> D_Imports)"

definition edge_type_from_dto :: "cache_edge_type_dto \<Rightarrow> edge_type" where
  "edge_type_from_dto v = (case v of
     D_Calls \<Rightarrow> Calls
   | D_References \<Rightarrow> References
   | D_Imports \<Rightarrow> Imports)"

definition import_resolution_to_dto :: "import_resolution \<Rightarrow> cache_import_resolution_dto" where
  "import_resolution_to_dto v = (case v of
     StaticResolved \<Rightarrow> D_StaticResolved
   | StaticUnresolved \<Rightarrow> D_StaticUnresolved
   | PackageExternal \<Rightarrow> D_PackageExternal
   | DynamicUnsupported \<Rightarrow> D_DynamicUnsupported)"

definition import_resolution_from_dto :: "cache_import_resolution_dto \<Rightarrow> import_resolution" where
  "import_resolution_from_dto v = (case v of
     D_StaticResolved \<Rightarrow> StaticResolved
   | D_StaticUnresolved \<Rightarrow> StaticUnresolved
   | D_PackageExternal \<Rightarrow> PackageExternal
   | D_DynamicUnsupported \<Rightarrow> DynamicUnsupported)"

definition import_observation_to_dto :: "import_observation \<Rightarrow> cache_import_observation_dto" where
  "import_observation_to_dto ob = \<lparr>
     dio_source_file = io_source_file ob,
     dio_raw_specifier = io_raw_specifier ob,
     dio_resolution = import_resolution_to_dto (io_resolution ob),
     dio_is_re_export = io_is_re_export ob,
     dio_is_type_only = io_is_type_only ob,
     dio_is_side_effect = io_is_side_effect ob,
     dio_external_node_modules = io_external_node_modules ob\<rparr>"

definition import_observation_from_dto :: "cache_import_observation_dto \<Rightarrow> import_observation" where
  "import_observation_from_dto ob = \<lparr>
     io_source_file = dio_source_file ob,
     io_raw_specifier = dio_raw_specifier ob,
     io_resolution = import_resolution_from_dto (dio_resolution ob),
     io_is_re_export = dio_is_re_export ob,
     io_is_type_only = dio_is_type_only ob,
     io_is_side_effect = dio_is_side_effect ob,
     io_external_node_modules = dio_external_node_modules ob\<rparr>"

definition import_edge_meta_to_dto :: "import_edge_meta \<Rightarrow> cache_import_edge_meta_dto" where
  "import_edge_meta_to_dto m = \<lparr>
     dem_raw_specifier = iem_raw_specifier m,
     dem_resolved_path = iem_resolved_path m,
     dem_resolution = import_resolution_to_dto (iem_resolution m)\<rparr>"

definition import_edge_meta_from_dto :: "cache_import_edge_meta_dto \<Rightarrow> import_edge_meta" where
  "import_edge_meta_from_dto m = \<lparr>
     iem_raw_specifier = dem_raw_specifier m,
     iem_resolved_path = dem_resolved_path m,
     iem_resolution = import_resolution_from_dto (dem_resolution m)\<rparr>"

definition edge_basis_to_dto :: "edge_basis \<Rightarrow> cache_edge_basis_dto" where
  "edge_basis_to_dto v = (case v of
     SyntaxConfirmedCall \<Rightarrow> D_SyntaxConfirmedCall
   | DerivedReference \<Rightarrow> D_DerivedReference
   | FileScopeReference \<Rightarrow> D_FileScopeReference
   | AstImport \<Rightarrow> D_AstImport
   | AstImportFileInventoryResolved \<Rightarrow> D_AstImportFileInventoryResolved
   | AstImportTsconfigPathResolved \<Rightarrow> D_AstImportTsconfigPathResolved
   | AstDynamicImportResolved \<Rightarrow> D_AstDynamicImportResolved)"

definition edge_basis_from_dto :: "cache_edge_basis_dto \<Rightarrow> edge_basis" where
  "edge_basis_from_dto v = (case v of
     D_SyntaxConfirmedCall \<Rightarrow> SyntaxConfirmedCall
   | D_DerivedReference \<Rightarrow> DerivedReference
   | D_FileScopeReference \<Rightarrow> FileScopeReference
   | D_AstImport \<Rightarrow> AstImport
   | D_AstImportFileInventoryResolved \<Rightarrow> AstImportFileInventoryResolved
   | D_AstImportTsconfigPathResolved \<Rightarrow> AstImportTsconfigPathResolved
   | D_AstDynamicImportResolved \<Rightarrow> AstDynamicImportResolved)"

definition partition_kind_to_dto :: "partition_kind \<Rightarrow> cache_partition_kind_dto" where
  "partition_kind_to_dto v = (case v of
     TsPackage \<Rightarrow> D_TsPackage)"

definition partition_kind_from_dto :: "cache_partition_kind_dto \<Rightarrow> partition_kind" where
  "partition_kind_from_dto v = (case v of
     D_TsPackage \<Rightarrow> TsPackage)"

definition ir_visibility_to_dto :: "ir_visibility \<Rightarrow> cache_ir_visibility_dto" where
  "ir_visibility_to_dto v = (case v of
     V_Public \<Rightarrow> DV_Public
   | V_Private \<Rightarrow> DV_Private
   | V_Protected \<Rightarrow> DV_Protected
   | V_Internal \<Rightarrow> DV_Internal
   | V_Export \<Rightarrow> DV_Export)"

definition ir_visibility_from_dto :: "cache_ir_visibility_dto \<Rightarrow> ir_visibility" where
  "ir_visibility_from_dto v = (case v of
     DV_Public \<Rightarrow> V_Public
   | DV_Private \<Rightarrow> V_Private
   | DV_Protected \<Rightarrow> V_Protected
   | DV_Internal \<Rightarrow> V_Internal
   | DV_Export \<Rightarrow> V_Export)"

definition symbol_attributes_to_dto :: "symbol_attributes \<Rightarrow> cache_symbol_attributes_dto" where
  "symbol_attributes_to_dto a = \<lparr>
     dsa_visibility = map_option ir_visibility_to_dto (sa_visibility a),
     dsa_is_top_level = sa_is_top_level a,
     dsa_symbol_kind = sa_symbol_kind a\<rparr>"

definition symbol_attributes_from_dto :: "cache_symbol_attributes_dto \<Rightarrow> symbol_attributes" where
  "symbol_attributes_from_dto a = \<lparr>
     sa_visibility = map_option ir_visibility_from_dto (dsa_visibility a),
     sa_is_top_level = dsa_is_top_level a,
     sa_symbol_kind = dsa_symbol_kind a\<rparr>"

definition ir_node_to_dto :: "ir_node \<Rightarrow> cache_ir_node_dto" where
  "ir_node_to_dto n = \<lparr>
     dnd_key = nd_key n,
     dnd_subtype = nd_subtype n,
     dnd_name = nd_name n,
     dnd_range = map_option source_range_to_dto (nd_range n),
     dnd_partition_id = nd_partition_id n,
     dnd_identity_source = identity_source_to_dto (nd_identity_source n),
     dnd_provenance = provenance_to_dto (nd_provenance n),
     dnd_attributes = map_option symbol_attributes_to_dto (nd_attributes n)\<rparr>"

definition ir_node_from_dto :: "cache_ir_node_dto \<Rightarrow> ir_node" where
  "ir_node_from_dto n = \<lparr>
     nd_key = dnd_key n,
     nd_subtype = dnd_subtype n,
     nd_name = dnd_name n,
     nd_range = map_option source_range_from_dto (dnd_range n),
     nd_partition_id = dnd_partition_id n,
     nd_identity_source = identity_source_from_dto (dnd_identity_source n),
     nd_provenance = provenance_from_dto (dnd_provenance n),
     nd_attributes = map_option symbol_attributes_from_dto (dnd_attributes n)\<rparr>"

definition ir_edge_to_dto :: "ir_edge \<Rightarrow> cache_ir_edge_dto" where
  "ir_edge_to_dto e = \<lparr>
     ded_src = ed_src e,
     ded_dst = ed_dst e,
     ded_type = edge_type_to_dto (ed_type e),
     ded_basis = edge_basis_to_dto (ed_basis e),
     ded_provenance = provenance_to_dto (ed_provenance e),
     ded_import = map_option import_edge_meta_to_dto (ed_import e)\<rparr>"

definition ir_edge_from_dto :: "cache_ir_edge_dto \<Rightarrow> ir_edge" where
  "ir_edge_from_dto e = \<lparr>
     ed_src = ded_src e,
     ed_dst = ded_dst e,
     ed_type = edge_type_from_dto (ded_type e),
     ed_basis = edge_basis_from_dto (ded_basis e),
     ed_provenance = provenance_from_dto (ded_provenance e),
     ed_import = map_option import_edge_meta_from_dto (ded_import e)\<rparr>"

definition tsconfig_alias_config_to_dto :: "tsconfig_alias_config \<Rightarrow> cache_tsconfig_alias_config_dto" where
  "tsconfig_alias_config_to_dto a = \<lparr>
     dta_base_url = tac_base_url a,
     dta_paths = tac_paths a,
     dta_partition_prefix = tac_partition_prefix a\<rparr>"

definition tsconfig_alias_config_from_dto :: "cache_tsconfig_alias_config_dto \<Rightarrow> tsconfig_alias_config" where
  "tsconfig_alias_config_from_dto a = \<lparr>
     tac_base_url = dta_base_url a,
     tac_paths = dta_paths a,
     tac_partition_prefix = dta_partition_prefix a\<rparr>"

definition partition_to_dto :: "partition \<Rightarrow> cache_partition_dto" where
  "partition_to_dto p = \<lparr>
     dpt_id = pt_id p,
     dpt_kind = partition_kind_to_dto (pt_kind p),
     dpt_root = pt_root p,
     dpt_indexer = pt_indexer p,
     dpt_indexer_version = pt_indexer_version p,
     dpt_build_inputs_hash = pt_build_inputs_hash p,
     dpt_package_name = pt_package_name p,
     dpt_declared_dependencies = pt_declared_dependencies p,
     dpt_tsconfig_aliases = map_option tsconfig_alias_config_to_dto (pt_tsconfig_aliases p)\<rparr>"

definition partition_from_dto :: "cache_partition_dto \<Rightarrow> partition" where
  "partition_from_dto p = \<lparr>
     pt_id = dpt_id p,
     pt_kind = partition_kind_from_dto (dpt_kind p),
     pt_root = dpt_root p,
     pt_indexer = dpt_indexer p,
     pt_indexer_version = dpt_indexer_version p,
     pt_build_inputs_hash = dpt_build_inputs_hash p,
     pt_package_name = dpt_package_name p,
     pt_declared_dependencies = dpt_declared_dependencies p,
     pt_tsconfig_aliases = map_option tsconfig_alias_config_from_dto (dpt_tsconfig_aliases p)\<rparr>"

definition partition_ir_to_dto :: "partition_ir \<Rightarrow> cache_partition_ir_dto" where
  "partition_ir_to_dto ir = \<lparr>
     dir_partition = partition_to_dto (ir_partition ir),
     dir_nodes = map ir_node_to_dto (ir_nodes ir),
     dir_edges = map ir_edge_to_dto (ir_edges ir),
     dir_import_observations = map import_observation_to_dto (ir_import_observations ir)\<rparr>"

definition partition_ir_from_dto :: "cache_partition_ir_dto \<Rightarrow> partition_ir" where
  "partition_ir_from_dto ir = \<lparr>
     ir_partition = partition_from_dto (dir_partition ir),
     ir_nodes = map ir_node_from_dto (dir_nodes ir),
     ir_edges = map ir_edge_from_dto (dir_edges ir),
     ir_import_observations = map import_observation_from_dto (dir_import_observations ir)\<rparr>"

text \<open>The value facts of the runtime, \<open>repo-graph-warm-cache-feed/src/lib.rs\<close>.\<close>

definition basis_to_dto :: "identity_basis \<Rightarrow> cache_identity_basis_dto" where
  "basis_to_dto v = (case v of
     B_AstAdopted \<Rightarrow> DB_AstAdopted
   | B_ScipSynthesized \<Rightarrow> DB_ScipSynthesized
   | B_AstFileScope \<Rightarrow> DB_AstFileScope
   | B_DeclarationMapExact \<Rightarrow> DB_DeclarationMapExact
   | B_NameExactUnique \<Rightarrow> DB_NameExactUnique
   | B_RangeNameConfirmed \<Rightarrow> DB_RangeNameConfirmed
   | B_RawAnchored \<Rightarrow> DB_RawAnchored)"

definition basis_from_dto :: "cache_identity_basis_dto \<Rightarrow> identity_basis" where
  "basis_from_dto v = (case v of
     DB_AstAdopted \<Rightarrow> B_AstAdopted
   | DB_ScipSynthesized \<Rightarrow> B_ScipSynthesized
   | DB_AstFileScope \<Rightarrow> B_AstFileScope
   | DB_DeclarationMapExact \<Rightarrow> B_DeclarationMapExact
   | DB_NameExactUnique \<Rightarrow> B_NameExactUnique
   | DB_RangeNameConfirmed \<Rightarrow> B_RangeNameConfirmed
   | DB_RawAnchored \<Rightarrow> B_RawAnchored)"

definition kind_to_dto :: "value_fact_kind \<Rightarrow> cache_value_fact_kind_dto" where
  "kind_to_dto v = (case v of
     CyclomaticComplexity \<Rightarrow> D_CyclomaticComplexity)"

definition kind_from_dto :: "cache_value_fact_kind_dto \<Rightarrow> value_fact_kind" where
  "kind_from_dto v = (case v of
     D_CyclomaticComplexity \<Rightarrow> CyclomaticComplexity)"

definition subject_to_dto :: "value_subject \<Rightarrow> cache_value_subject_dto" where
  "subject_to_dto s = (case s of
     Symbol k \<Rightarrow> D_Symbol k
   | RawAnchor r \<Rightarrow> D_RawAnchor (source_range_to_dto r))"

definition subject_from_dto :: "cache_value_subject_dto \<Rightarrow> value_subject" where
  "subject_from_dto s = (case s of
     D_Symbol k \<Rightarrow> Symbol k
   | D_RawAnchor r \<Rightarrow> RawAnchor (source_range_from_dto r))"

definition value_fact_to_dto :: "value_fact \<Rightarrow> cache_value_fact_dto" where
  "value_fact_to_dto f = \<lparr>
     dvf_subject = subject_to_dto (vf_subject f),
     dvf_kind = kind_to_dto (vf_kind f),
     dvf_value = vf_value f,
     dvf_basis = basis_to_dto (vf_basis f),
     dvf_source_range = map_option source_range_to_dto (vf_source_range f),
     dvf_provenance = provenance_to_dto (vf_provenance f)\<rparr>"

definition value_fact_from_dto :: "cache_value_fact_dto \<Rightarrow> value_fact" where
  "value_fact_from_dto f = \<lparr>
     vf_subject = subject_from_dto (dvf_subject f),
     vf_kind = kind_from_dto (dvf_kind f),
     vf_value = dvf_value f,
     vf_basis = basis_from_dto (dvf_basis f),
     vf_source_range = map_option source_range_from_dto (dvf_source_range f),
     vf_provenance = provenance_from_dto (dvf_provenance f)\<rparr>"

section \<open>Mirrors are exact\<close>

text \<open>What a mirror type promises: the two conversions are inverse to each other.\<close>

locale mirror =
  fixes to_dto :: "'a \<Rightarrow> 'd" and from_dto :: "'d \<Rightarrow> 'a"
  assumes from_to: "from_dto (to_dto x) = x"
    and to_from: "to_dto (from_dto d) = d"
begin

lemma from_to_comp: "from_dto \<circ> to_dto = id"
  by (simp add: fun_eq_iff from_to)

lemma to_from_comp: "to_dto \<circ> from_dto = id"
  by (simp add: fun_eq_iff to_from)

lemma from_to_option: "map_option from_dto (map_option to_dto y) = y"
  by (cases y) (simp_all add: from_to)

lemma to_from_option: "map_option to_dto (map_option from_dto z) = z"
  by (cases z) (simp_all add: to_from)

lemma to_dto_inject: "to_dto x = to_dto y \<longleftrightarrow> x = y"
  using from_to by metis

lemmas exact = from_to to_from from_to_comp to_from_comp from_to_option to_from_option

end

interpretation m_source_range: mirror source_range_to_dto source_range_from_dto
  by unfold_locales (simp_all add: source_range_to_dto_def source_range_from_dto_def)

interpretation m_provenance: mirror provenance_to_dto provenance_from_dto
  by unfold_locales (simp_all add: provenance_to_dto_def provenance_from_dto_def)

interpretation m_identity_source: mirror identity_source_to_dto identity_source_from_dto
  by unfold_locales (simp_all add: identity_source_to_dto_def identity_source_from_dto_def  split: identity_source.splits cache_identity_source_dto.splits)

interpretation m_edge_type: mirror edge_type_to_dto edge_type_from_dto
  by unfold_locales (simp_all add: edge_type_to_dto_def edge_type_from_dto_def  split: edge_type.splits cache_edge_type_dto.splits)

interpretation m_import_resolution: mirror import_resolution_to_dto import_resolution_from_dto
  by unfold_locales (simp_all add: import_resolution_to_dto_def import_resolution_from_dto_def  split: import_resolution.splits cache_import_resolution_dto.splits)

interpretation m_import_observation: mirror import_observation_to_dto import_observation_from_dto
  by unfold_locales (simp_all add: import_observation_to_dto_def import_observation_from_dto_def m_import_resolution.exact)

interpretation m_import_edge_meta: mirror import_edge_meta_to_dto import_edge_meta_from_dto
  by unfold_locales (simp_all add: import_edge_meta_to_dto_def import_edge_meta_from_dto_def m_import_resolution.exact)

interpretation m_edge_basis: mirror edge_basis_to_dto edge_basis_from_dto
  by unfold_locales (simp_all add: edge_basis_to_dto_def edge_basis_from_dto_def  split: edge_basis.splits cache_edge_basis_dto.splits)

interpretation m_partition_kind: mirror partition_kind_to_dto partition_kind_from_dto
  by unfold_locales (simp_all add: partition_kind_to_dto_def partition_kind_from_dto_def  split: partition_kind.splits cache_partition_kind_dto.splits)

interpretation m_ir_visibility: mirror ir_visibility_to_dto ir_visibility_from_dto
  by unfold_locales (simp_all add: ir_visibility_to_dto_def ir_visibility_from_dto_def  split: ir_visibility.splits cache_ir_visibility_dto.splits)

interpretation m_symbol_attributes: mirror symbol_attributes_to_dto symbol_attributes_from_dto
  by unfold_locales (simp_all add: symbol_attributes_to_dto_def symbol_attributes_from_dto_def m_ir_visibility.exact)

interpretation m_ir_node: mirror ir_node_to_dto ir_node_from_dto
  by unfold_locales (simp_all add: ir_node_to_dto_def ir_node_from_dto_def m_source_range.exact m_identity_source.exact m_provenance.exact m_symbol_attributes.exact)

interpretation m_ir_edge: mirror ir_edge_to_dto ir_edge_from_dto
  by unfold_locales (simp_all add: ir_edge_to_dto_def ir_edge_from_dto_def m_edge_type.exact m_edge_basis.exact m_provenance.exact m_import_edge_meta.exact)

interpretation m_tsconfig_alias_config: mirror tsconfig_alias_config_to_dto tsconfig_alias_config_from_dto
  by unfold_locales (simp_all add: tsconfig_alias_config_to_dto_def tsconfig_alias_config_from_dto_def)

interpretation m_partition: mirror partition_to_dto partition_from_dto
  by unfold_locales (simp_all add: partition_to_dto_def partition_from_dto_def m_partition_kind.exact m_tsconfig_alias_config.exact)

interpretation m_partition_ir: mirror partition_ir_to_dto partition_ir_from_dto
  by unfold_locales (simp_all add: partition_ir_to_dto_def partition_ir_from_dto_def m_partition.exact m_ir_node.exact m_ir_edge.exact m_import_observation.exact)

interpretation m_basis: mirror basis_to_dto basis_from_dto
  by unfold_locales (simp_all add: basis_to_dto_def basis_from_dto_def  split: identity_basis.splits cache_identity_basis_dto.splits)

interpretation m_kind: mirror kind_to_dto kind_from_dto
  by unfold_locales (simp_all add: kind_to_dto_def kind_from_dto_def  split: value_fact_kind.splits cache_value_fact_kind_dto.splits)

interpretation m_subject: mirror subject_to_dto subject_from_dto
  by unfold_locales (simp_all add: subject_to_dto_def subject_from_dto_def m_source_range.exact split: value_subject.splits cache_value_subject_dto.splits)

interpretation m_value_fact: mirror value_fact_to_dto value_fact_from_dto
  by unfold_locales (simp_all add: value_fact_to_dto_def value_fact_from_dto_def m_subject.exact m_kind.exact m_basis.exact m_source_range.exact m_provenance.exact)

end
