(* ===== verification/Warm_Cache.thy ===== *)
theory Warm_Cache
  imports Cache_Dto Live_Queries
begin

text \<open>
  The warm cache, \<open>repo-graph-warm-cache/src/lib.rs\<close>: the manifest and its validation, encoding and
  decoding of cache files, the atomic replacement of a file, and the adapters that feed the graph runtime,
  \<open>repo-graph-warm-cache-feed/src/lib.rs\<close> and \<open>repo-graph-livegraph-feed/src/lib.rs\<close>.

  The crates \<open>bincode\<close> and \<open>sha2\<close> are parameters: a \<open>codec\<close> per serialized type and the hash function.
  The file system is a map from names to contents, together with what a crash may leave of each name:
  data that was not synchronized is arbitrary after a crash, and so is whether a directory entry that was
  not synchronized has been made.
\<close>

section \<open>Manifest\<close>

type_synonym bytes = string

definition MAGIC :: u32 where
  "MAGIC = 0x52475743"

definition SCHEMA_VERSION :: u32 where
  "SCHEMA_VERSION = 7"

datatype cache_error =
    CE_Io string
  | CE_Decode string
  | CE_Convert string
  | CE_MagicMismatch (expected_magic: u32) (found_magic: u32)
  | CE_SchemaMismatch (expected_schema: u32) (found_schema: u32)
  | CE_KeyMismatch
  | CE_ChecksumMismatch
  | CE_Truncated

record producer_fingerprint =
  pf_name :: string
  pf_version :: string

record cache_key =
  ck_repo_uid :: string
  ck_partition_id :: string
  ck_source_inputs_hash :: string
  ck_producer_fingerprint :: producer_fingerprint
  ck_repo_graph_version :: string

record cache_manifest =
  mf_magic :: u32
  mf_schema_version :: u32
  mf_key :: cache_key
  mf_created_at :: u64
  mf_content_length :: u64
  mf_checksum :: string

record cache_file_envelope =
  ev_manifest :: cache_manifest
  ev_payload :: bytes

text \<open>\<open>bincode::serialize\<close> and \<open>bincode::deserialize\<close> at a type; the error is its text.\<close>

record 'a codec =
  cd_serialize :: "'a \<Rightarrow> string + bytes"
  cd_deserialize :: "bytes \<Rightarrow> string + 'a"

record cache_libs =
  sha256_hex :: "bytes \<Rightarrow> string"
  lib_envelope :: "cache_file_envelope codec"
  lib_partition :: "cache_partition_ir_dto codec"
  lib_value_facts :: "cache_value_facts_dto codec"

section \<open>Encoding and decoding\<close>

definition validate_manifest ::
  "(bytes \<Rightarrow> string) \<Rightarrow> cache_manifest \<Rightarrow> bytes \<Rightarrow> cache_key \<Rightarrow> cache_error + unit" where
  "validate_manifest sha manifest payload expected_key =
     (if mf_magic manifest \<noteq> MAGIC then Inl (CE_MagicMismatch MAGIC (mf_magic manifest))
      else if mf_schema_version manifest \<noteq> SCHEMA_VERSION
      then Inl (CE_SchemaMismatch SCHEMA_VERSION (mf_schema_version manifest))
      else if mf_key manifest \<noteq> expected_key then Inl CE_KeyMismatch
      else if mf_content_length manifest \<noteq> of_nat (length payload) then Inl CE_Truncated
      else if mf_checksum manifest \<noteq> sha payload then Inl CE_ChecksumMismatch
      else Inr ())"

definition encode_typed :: "cache_libs \<Rightarrow> 'a codec \<Rightarrow> cache_manifest \<Rightarrow> 'a \<Rightarrow> bytes outcome" where
  "encode_typed L c manifest payload_value = (case cd_serialize c payload_value of
     Inl _ \<Rightarrow> Panic ''bincode serialization of an owned cache DTO is infallible''
   | Inr payload \<Rightarrow>
       (let manifest = manifest\<lparr>mf_magic := MAGIC, mf_schema_version := SCHEMA_VERSION,
              mf_content_length := of_nat (length payload), mf_checksum := sha256_hex L payload\<rparr>
        in case cd_serialize (lib_envelope L) \<lparr>ev_manifest = manifest, ev_payload = payload\<rparr> of
             Inl _ \<Rightarrow> Panic ''bincode serialization of the envelope is infallible''
           | Inr file_bytes \<Rightarrow> Val file_bytes))"

definition decode_typed :: "cache_libs \<Rightarrow> 'a codec \<Rightarrow> bytes \<Rightarrow> cache_key \<Rightarrow> cache_error + 'a" where
  "decode_typed L c file_bytes expected_key = (case cd_deserialize (lib_envelope L) file_bytes of
     Inl _ \<Rightarrow> Inl CE_Truncated
   | Inr envelope \<Rightarrow>
       (case validate_manifest (sha256_hex L) (ev_manifest envelope) (ev_payload envelope) expected_key of
          Inl e \<Rightarrow> Inl e
        | Inr _ \<Rightarrow> (case cd_deserialize c (ev_payload envelope) of Inl e \<Rightarrow> Inl (CE_Decode e) | Inr v \<Rightarrow> Inr v)))"

definition partition_ir_try_from :: "cache_partition_ir_dto \<Rightarrow> cache_error + partition_ir" where
  "partition_ir_try_from dto = Inr (partition_ir_from_dto dto)"

definition encode_partition :: "cache_libs \<Rightarrow> partition_ir \<Rightarrow> cache_manifest \<Rightarrow> bytes outcome" where
  "encode_partition L ir manifest = encode_typed L (lib_partition L) manifest (partition_ir_to_dto ir)"

definition decode_partition :: "cache_libs \<Rightarrow> bytes \<Rightarrow> cache_key \<Rightarrow> cache_error + partition_ir" where
  "decode_partition L file_bytes expected_key = (case decode_typed L (lib_partition L) file_bytes expected_key of
     Inl e \<Rightarrow> Inl e
   | Inr dto \<Rightarrow> partition_ir_try_from dto)"

definition encode_value_facts ::
  "cache_libs \<Rightarrow> cache_value_fact_dto list \<Rightarrow> cache_manifest \<Rightarrow> bytes outcome" where
  "encode_value_facts L facts manifest = encode_typed L (lib_value_facts L) manifest \<lparr>dvs_facts = facts\<rparr>"

definition decode_value_facts ::
  "cache_libs \<Rightarrow> bytes \<Rightarrow> cache_key \<Rightarrow> cache_error + cache_value_fact_dto list" where
  "decode_value_facts L file_bytes expected_key =
     (case decode_typed L (lib_value_facts L) file_bytes expected_key of
        Inl e \<Rightarrow> Inl e
      | Inr dto \<Rightarrow> Inr (dvs_facts dto))"

definition peek_manifest :: "cache_libs \<Rightarrow> bytes \<Rightarrow> cache_error + cache_manifest" where
  "peek_manifest L file_bytes = (case cd_deserialize (lib_envelope L) file_bytes of
     Inl _ \<Rightarrow> Inl CE_Truncated
   | Inr envelope \<Rightarrow>
       (let manifest = ev_manifest envelope
        in if mf_magic manifest \<noteq> MAGIC then Inl (CE_MagicMismatch MAGIC (mf_magic manifest))
           else if mf_schema_version manifest \<noteq> SCHEMA_VERSION
           then Inl (CE_SchemaMismatch SCHEMA_VERSION (mf_schema_version manifest))
           else Inr manifest))"

section \<open>The file system\<close>

text \<open>
  For each name: the content now, what the file now at the name may contain after a crash, and what
  the name may show after a crash if its latest directory updates are lost.
\<close>

record fs =
  fs_now :: "string \<Rightarrow> bytes option"
  fs_data :: "string \<Rightarrow> bytes set"
  fs_lost :: "string \<Rightarrow> bytes option set"

definition after_crash :: "fs \<Rightarrow> string \<Rightarrow> bytes option set" where
  "after_crash s p = fs_lost s p \<union> (case fs_now s p of None \<Rightarrow> {None} | Some _ \<Rightarrow> Some ` fs_data s p)"

text \<open>
  The effects of the calls: \<open>open\<close> with create, write and truncate, one \<open>write\<close>, \<open>File::sync_all\<close> on a
  file, \<open>std::fs::rename\<close>, and \<open>sync_all\<close> on the directory of some names.
\<close>

datatype fs_op =
    OpenTruncate string
  | Append string bytes
  | SyncFile string
  | RenameOver string string
  | SyncDir "string list"

fun apply_op :: "fs_op \<Rightarrow> fs \<Rightarrow> fs" where
  "apply_op (OpenTruncate p) s = s\<lparr>
     fs_now := (fs_now s)(p := Some []), fs_data := (fs_data s)(p := UNIV),
     fs_lost := (fs_lost s)(p := if fs_now s p = None then after_crash s p else fs_lost s p)\<rparr>"
| "apply_op (Append p bs) s = s\<lparr>
     fs_now := (fs_now s)(p := map_option (\<lambda>c. c @ bs) (fs_now s p)), fs_data := (fs_data s)(p := UNIV)\<rparr>"
| "apply_op (SyncFile p) s = s\<lparr>fs_data := (fs_data s)(p := set_option (fs_now s p))\<rparr>"
| "apply_op (RenameOver p q) s = s\<lparr>
     fs_now := (fs_now s)(q := fs_now s p, p := None), fs_data := (fs_data s)(q := fs_data s p),
     fs_lost := (fs_lost s)(q := after_crash s q, p := after_crash s p)\<rparr>"
| "apply_op (SyncDir ps) s = s\<lparr>fs_lost := (\<lambda>p. if p \<in> set ps then {} else fs_lost s p)\<rparr>"

text \<open>
  What the system answers to the calls of \<open>atomic_write\<close>: an error text where a call fails, and for
  the calls of \<open>write\<close> in \<open>write_all\<close> the number of bytes each accepts (all the rest once the list ends).
\<close>

record io =
  io_open :: "string option"
  io_writes :: "(string + nat) list"
  io_sync :: "string option"
  io_rename :: "string option"
  io_open_dir :: bool
  io_sync_dir :: bool

text \<open>\<open>Write::write_all\<close>: the writes made and the error, if it fails.\<close>

fun write_all :: "string \<Rightarrow> bytes \<Rightarrow> (string + nat) list \<Rightarrow> fs_op list \<times> string option" where
  "write_all p [] rs = ([], None)"
| "write_all p bs [] = ([Append p bs], None)"
| "write_all p bs (Inl e # rs) = ([], Some e)"
| "write_all p bs (Inr n # rs) =
     (if n = 0 then ([], Some ''failed to write whole buffer'')
      else (let (ops, e) = write_all p (drop n bs) rs in (Append p (take n bs) # ops, e)))"

text \<open>
  \<open>Path::parent\<close> is present and not empty: the components are the parts between slashes that are
  neither empty nor a dot, except that a leading dot of a relative path counts.
\<close>

definition path_components :: "string \<Rightarrow> string list" where
  "path_components p =
     (let parts = split_on (CHR ''/'') p
      in (if starts_with p ''./'' \<or> p = ''.'' then [''.''] else []) @ filter (\<lambda>c. c \<noteq> [] \<and> c \<noteq> ''.'') parts)"

definition has_parent :: "string \<Rightarrow> bool" where
  "has_parent p \<longleftrightarrow> length (path_components p) \<ge> (if starts_with p ''/'' then 1 else 2)"

definition tmp_path :: "string \<Rightarrow> string" where
  "tmp_path path = path @ ''.tmp''"

text \<open>The calls \<open>atomic_write\<close> makes that take effect, in order, and its result.\<close>

definition atomic_write :: "io \<Rightarrow> string \<Rightarrow> bytes \<Rightarrow> fs_op list \<times> (cache_error + unit)" where
  "atomic_write sys path bs =
     (let tmp = tmp_path path; (writes, write_error) = write_all tmp bs (io_writes sys)
      in if \<not> has_parent path then ([], Inl (CE_Io ''target path has no parent directory''))
         else case io_open sys of
           Some e \<Rightarrow> ([], Inl (CE_Io (''open temp '' @ tmp @ '': '' @ e)))
         | None \<Rightarrow> (case write_error of
             Some e \<Rightarrow> (OpenTruncate tmp # writes, Inl (CE_Io (''write temp: '' @ e)))
           | None \<Rightarrow> (case io_sync sys of
               Some e \<Rightarrow> (OpenTruncate tmp # writes, Inl (CE_Io (''fsync temp: '' @ e)))
             | None \<Rightarrow> (case io_rename sys of
                 Some e \<Rightarrow> (OpenTruncate tmp # writes @ [SyncFile tmp],
                   Inl (CE_Io (''rename temp over target: '' @ e)))
               | None \<Rightarrow> (OpenTruncate tmp # writes @ [SyncFile tmp, RenameOver tmp path] @
                   (if io_open_dir sys \<and> io_sync_dir sys then [SyncDir [path, tmp]] else []), Inr ())))))"

text \<open>\<open>std::fs::read\<close> of a name that is absent gives the error text \<open>e\<close>.\<close>

definition read_validated :: "cache_libs \<Rightarrow> string \<Rightarrow> fs \<Rightarrow> string \<Rightarrow> cache_key \<Rightarrow> cache_error + bytes" where
  "read_validated L e s path expected_key = (case fs_now s path of
     None \<Rightarrow> Inl (CE_Io (''read '' @ path @ '': '' @ e))
   | Some file_bytes \<Rightarrow> (case cd_deserialize (lib_envelope L) file_bytes of
       Inl _ \<Rightarrow> Inl CE_Truncated
     | Inr envelope \<Rightarrow>
         (case validate_manifest (sha256_hex L) (ev_manifest envelope) (ev_payload envelope) expected_key of
            Inl er \<Rightarrow> Inl er
          | Inr _ \<Rightarrow> Inr file_bytes)))"

section \<open>Feeding the runtime\<close>

definition value_facts_to_dtos :: "value_fact list \<Rightarrow> cache_value_fact_dto list" where
  "value_facts_to_dtos facts = map value_fact_to_dto facts"

definition value_facts_from_dtos :: "cache_value_fact_dto list \<Rightarrow> value_fact list" where
  "value_facts_from_dtos dtos = map value_fact_from_dto dtos"

definition encode_value_facts_sidecar :: "cache_libs \<Rightarrow> value_fact list \<Rightarrow> cache_manifest \<Rightarrow> bytes outcome" where
  "encode_value_facts_sidecar L facts manifest = encode_value_facts L (value_facts_to_dtos facts) manifest"

definition try_decode_value_facts_sidecar :: "cache_libs \<Rightarrow> bytes \<Rightarrow> cache_key \<Rightarrow> value_fact list option" where
  "try_decode_value_facts_sidecar L file_bytes expected_key =
     (case decode_value_facts L file_bytes expected_key of
        Inl _ \<Rightarrow> None
      | Inr dtos \<Rightarrow> Some (value_facts_from_dtos dtos))"

record warm_feed_result =
  wf_graph_loaded :: bool
  wf_value_facts_loaded :: bool

definition feed_partition_ir_with_value_facts ::
  "string list \<Rightarrow> string \<Rightarrow> partition_ir \<Rightarrow> value_fact list \<Rightarrow> language_support \<Rightarrow> live_graph \<Rightarrow>
   live_graph \<times> warm_feed_result" where
  "feed_partition_ir_with_value_facts ids partition_id ir facts language lg =
     (load_value_facts partition_id facts (load_partition ids partition_id ir language lg),
      \<lparr>wf_graph_loaded = True, wf_value_facts_loaded = True\<rparr>)"

text \<open>The fields of \<open>IngestOutcome\<close> the feed reads; \<open>complexity\<close> is a \<open>BTreeMap\<close>.\<close>

record ingest_outcome =
  oc_ir :: partition_ir
  oc_complexity :: "(string \<times> u32) list"

definition basis_from_source :: "identity_source \<Rightarrow> identity_basis" where
  "basis_from_source src = (case src of
     AstAdopted \<Rightarrow> B_AstAdopted
   | ScipSynthesizedFallback \<Rightarrow> B_ScipSynthesized
   | AstFileScope \<Rightarrow> B_AstFileScope)"

definition value_facts_of :: "ingest_outcome \<Rightarrow> value_fact list" where
  "value_facts_of outcome =
     (let by_key = insert_all Map.empty (map (\<lambda>n. (nd_key n, n)) (ir_nodes (oc_ir outcome)))
      in filter_map (\<lambda>(key, value). map_option (\<lambda>n. \<lparr>vf_subject = Symbol key, vf_kind = CyclomaticComplexity,
           vf_value = value, vf_basis = basis_from_source (nd_identity_source n),
           vf_source_range = nd_range n, vf_provenance = nd_provenance n\<rparr>) (by_key key)) (oc_complexity outcome))"

definition feed_partition ::
  "string list \<Rightarrow> string \<Rightarrow> ingest_outcome \<Rightarrow> language_support \<Rightarrow> live_graph \<Rightarrow> live_graph" where
  "feed_partition ids pid outcome language lg =
     load_value_facts pid (value_facts_of outcome) (load_partition ids pid (oc_ir outcome) language lg)"

definition feed_partition_ir ::
  "string list \<Rightarrow> string \<Rightarrow> partition_ir \<Rightarrow> language_support \<Rightarrow> live_graph \<Rightarrow> live_graph" where
  "feed_partition_ir ids pid ir language lg = load_partition ids pid ir language lg"

section \<open>Round trip\<close>

text \<open>
  What the cache relies on: bytes that \<open>bincode::serialize\<close> produced deserialize to the value they were
  produced from.
\<close>

definition codec_ok :: "'a codec \<Rightarrow> bool" where
  "codec_ok c \<longleftrightarrow> (\<forall>x b. cd_serialize c x = Inr b \<longrightarrow> cd_deserialize c b = Inr x)"

definition libs_ok :: "cache_libs \<Rightarrow> bool" where
  "libs_ok L \<longleftrightarrow> codec_ok (lib_envelope L) \<and> codec_ok (lib_partition L) \<and> codec_ok (lib_value_facts L)"

text \<open>The manifest of the file that is written for a payload.\<close>

definition sealed :: "cache_libs \<Rightarrow> cache_manifest \<Rightarrow> bytes \<Rightarrow> cache_manifest" where
  "sealed L manifest payload = manifest\<lparr>mf_magic := MAGIC, mf_schema_version := SCHEMA_VERSION,
     mf_content_length := of_nat (length payload), mf_checksum := sha256_hex L payload\<rparr>"

lemma sealed_key [simp]: "mf_key (sealed L m p) = mf_key m"
  by (simp add: sealed_def)

lemma encode_typed_Val:
  "encode_typed L c m v = Val bs \<longleftrightarrow> (\<exists>payload. cd_serialize c v = Inr payload \<and>
     cd_serialize (lib_envelope L) \<lparr>ev_manifest = sealed L m payload, ev_payload = payload\<rparr> = Inr bs)"
  by (auto simp: encode_typed_def sealed_def Let_def split: sum.splits)

lemma validate_Inr:
  "validate_manifest sha m p k = Inr u \<longleftrightarrow> mf_magic m = MAGIC \<and> mf_schema_version m = SCHEMA_VERSION \<and>
     mf_key m = k \<and> mf_content_length m = of_nat (length p) \<and> mf_checksum m = sha p"
  by (auto simp: validate_manifest_def)

lemma validate_sealed:
  "validate_manifest (sha256_hex L) (sealed L m p) p k = (if mf_key m = k then Inr () else Inl CE_KeyMismatch)"
  by (simp add: validate_manifest_def sealed_def)

lemma decode_encoded:
  assumes "codec_ok (lib_envelope L)" and "codec_ok c" and "encode_typed L c m v = Val bs"
  shows "decode_typed L c bs k = (if k = mf_key m then Inr v else Inl CE_KeyMismatch)"
proof -
  from assms(3) obtain payload where p: "cd_serialize c v = Inr payload"
    "cd_serialize (lib_envelope L) \<lparr>ev_manifest = sealed L m payload, ev_payload = payload\<rparr> = Inr bs"
    by (auto simp: encode_typed_Val)
  with assms(1,2) have "cd_deserialize c payload = Inr v"
    "cd_deserialize (lib_envelope L) bs = Inr \<lparr>ev_manifest = sealed L m payload, ev_payload = payload\<rparr>"
    by (auto simp: codec_ok_def)
  then show ?thesis by (simp add: decode_typed_def validate_sealed)
qed

lemma decode_encoded_partition:
  assumes "libs_ok L" and "encode_partition L ir m = Val bs"
  shows "decode_partition L bs k = (if k = mf_key m then Inr ir else Inl CE_KeyMismatch)"
proof -
  have "decode_typed L (lib_partition L) bs k =
      (if k = mf_key m then Inr (partition_ir_to_dto ir) else Inl CE_KeyMismatch)"
    using assms by (intro decode_encoded) (simp_all add: libs_ok_def encode_partition_def)
  then show ?thesis by (simp add: decode_partition_def partition_ir_try_from_def m_partition_ir.exact)
qed

lemma decode_encoded_sidecar:
  assumes "libs_ok L" and "encode_value_facts_sidecar L facts m = Val bs"
  shows "try_decode_value_facts_sidecar L bs k = (if k = mf_key m then Some facts else None)"
proof -
  have "decode_typed L (lib_value_facts L) bs k =
      (if k = mf_key m then Inr \<lparr>dvs_facts = map value_fact_to_dto facts\<rparr> else Inl CE_KeyMismatch)"
    using assms by (intro decode_encoded)
      (simp_all add: libs_ok_def encode_value_facts_sidecar_def encode_value_facts_def value_facts_to_dtos_def)
  then show ?thesis
    by (simp add: try_decode_value_facts_sidecar_def decode_value_facts_def value_facts_from_dtos_def
        m_value_fact.exact)
qed

text \<open>
  A file whose manifest is of this format and for this key and agrees with the length and the hash of the
  payload it comes with.
\<close>

definition intact :: "cache_libs \<Rightarrow> bytes \<Rightarrow> cache_key \<Rightarrow> bytes \<Rightarrow> bool" where
  "intact L file_bytes key payload \<longleftrightarrow> (\<exists>manifest.
     cd_deserialize (lib_envelope L) file_bytes = Inr \<lparr>ev_manifest = manifest, ev_payload = payload\<rparr> \<and>
     mf_magic manifest = MAGIC \<and> mf_schema_version manifest = SCHEMA_VERSION \<and> mf_key manifest = key \<and>
     mf_content_length manifest = of_nat (length payload) \<and> mf_checksum manifest = sha256_hex L payload)"

lemma decode_typed_accepts:
  "decode_typed L c file_bytes k = Inr v \<longleftrightarrow>
     (\<exists>payload. intact L file_bytes k payload \<and> cd_deserialize c payload = Inr v)"
proof (cases "cd_deserialize (lib_envelope L) file_bytes")
  case (Inl e)
  then show ?thesis by (simp add: decode_typed_def intact_def)
next
  case (Inr envelope)
  obtain manifest payload where env: "envelope = \<lparr>ev_manifest = manifest, ev_payload = payload\<rparr>"
    by (cases envelope) simp
  have "decode_typed L c file_bytes k = Inr v \<longleftrightarrow>
      validate_manifest (sha256_hex L) manifest payload k = Inr () \<and> cd_deserialize c payload = Inr v"
    using Inr env by (auto simp: decode_typed_def split: sum.splits)
  also have "\<dots> \<longleftrightarrow> (\<exists>payload. intact L file_bytes k payload \<and> cd_deserialize c payload = Inr v)"
    using Inr env by (auto simp: intact_def validate_Inr)
  finally show ?thesis .
qed

lemma decode_partition_accepts:
  "decode_partition L file_bytes k = Inr ir \<longleftrightarrow> (\<exists>payload dto. intact L file_bytes k payload \<and>
     cd_deserialize (lib_partition L) payload = Inr dto \<and> ir = partition_ir_from_dto dto)"
proof -
  have "decode_partition L file_bytes k = Inr ir \<longleftrightarrow>
      (\<exists>dto. decode_typed L (lib_partition L) file_bytes k = Inr dto \<and> ir = partition_ir_from_dto dto)"
    by (auto simp: decode_partition_def partition_ir_try_from_def split: sum.splits)
  then show ?thesis unfolding decode_typed_accepts by blast
qed

lemma decode_sidecar_accepts:
  "try_decode_value_facts_sidecar L file_bytes k = Some facts \<longleftrightarrow> (\<exists>payload dto. intact L file_bytes k payload \<and>
     cd_deserialize (lib_value_facts L) payload = Inr dto \<and> facts = value_facts_from_dtos (dvs_facts dto))"
proof -
  have "try_decode_value_facts_sidecar L file_bytes k = Some facts \<longleftrightarrow>
      (\<exists>dto. decode_typed L (lib_value_facts L) file_bytes k = Inr dto \<and> facts = value_facts_from_dtos (dvs_facts dto))"
    by (auto simp: try_decode_value_facts_sidecar_def decode_value_facts_def split: sum.splits)
  then show ?thesis unfolding decode_typed_accepts by blast
qed

text \<open>A file with the manifest of a written one and another payload.\<close>

definition altered :: "cache_libs \<Rightarrow> bytes \<Rightarrow> bytes \<Rightarrow> bool" where
  "altered L written file_bytes \<longleftrightarrow> (\<exists>manifest p q.
     cd_deserialize (lib_envelope L) written = Inr \<lparr>ev_manifest = manifest, ev_payload = p\<rparr> \<and>
     cd_deserialize (lib_envelope L) file_bytes = Inr \<lparr>ev_manifest = manifest, ev_payload = q\<rparr> \<and>
     sha256_hex L q \<noteq> sha256_hex L p)"

lemma altered_not_intact: "altered L written file_bytes \<Longrightarrow> intact L written k p \<Longrightarrow> \<not> intact L file_bytes k' q"
  by (auto simp: altered_def intact_def)

lemma altered_rejected:
  assumes "libs_ok L" and "encode_partition L ir m = Val written" and "altered L written file_bytes"
  shows "\<exists>e. decode_partition L file_bytes k = Inl e"
proof -
  have "decode_partition L written (mf_key m) = Inr ir"
    using decode_encoded_partition [OF assms(1,2)] by simp
  then obtain p where "intact L written (mf_key m) p" unfolding decode_partition_accepts by blast
  then have "\<not> decode_partition L file_bytes k = Inr ir'" for ir'
    unfolding decode_partition_accepts using altered_not_intact [OF assms(3)] by blast
  then show ?thesis by (cases "decode_partition L file_bytes k") auto
qed

section \<open>Crashes\<close>

fun only_on :: "string \<Rightarrow> fs_op \<Rightarrow> bool" where
  "only_on p (OpenTruncate q) \<longleftrightarrow> q = p"
| "only_on p (Append q bs) \<longleftrightarrow> q = p"
| "only_on p (SyncFile q) \<longleftrightarrow> q = p"
| "only_on p (RenameOver q r) \<longleftrightarrow> False"
| "only_on p (SyncDir ps) \<longleftrightarrow> False"

definition same_at :: "string \<Rightarrow> fs \<Rightarrow> fs \<Rightarrow> bool" where
  "same_at q s t \<longleftrightarrow> fs_now t q = fs_now s q \<and> after_crash t q = after_crash s q"

lemma only_on_same: "only_on p op \<Longrightarrow> q \<noteq> p \<Longrightarrow> same_at q s (apply_op op s)"
  by (cases op) (auto simp: same_at_def after_crash_def split: option.split)

lemma only_on_fold: "list_all (only_on p) ops \<Longrightarrow> q \<noteq> p \<Longrightarrow> same_at q s (fold apply_op ops s)"
proof (induction ops arbitrary: s)
  case Nil
  then show ?case by (simp add: same_at_def)
next
  case (Cons op ops)
  then have "same_at q s (apply_op op s)" "same_at q (apply_op op s) (fold apply_op ops (apply_op op s))"
    by (simp_all add: only_on_same [of p])
  then show ?case by (simp add: same_at_def)
qed

lemma write_all_only: "list_all (only_on p) (fst (write_all p bs rs))"
  by (induction p bs rs rule: write_all.induct) (auto simp: split_beta Let_def)

lemma write_all_content:
  "fs_now s p = Some c \<Longrightarrow> snd (write_all p bs rs) = None \<Longrightarrow>
   fs_now (fold apply_op (fst (write_all p bs rs)) s) p = Some (c @ bs)"
proof (induction p bs rs arbitrary: s c rule: write_all.induct)
  case (4 p b bs n rs)
  then show ?case
    using 4(1) [of "apply_op (Append p (take n (b # bs))) s" "c @ take n (b # bs)"]
    by (auto simp: split_beta Let_def split: if_splits)
qed (auto split: if_splits)

lemma tmp_path_neq [simp]: "tmp_path path \<noteq> path" "path \<noteq> tmp_path path"
  by (simp_all add: tmp_path_def)

text \<open>The calls of a run: those on the temporary file, then the rename and the directory sync, if reached.\<close>

lemma atomic_write_calls:
  "\<exists>pre suf. fst (atomic_write sys path bs) = pre @ suf \<and> list_all (only_on (tmp_path path)) pre \<and>
     (suf = [] \<longleftrightarrow> snd (atomic_write sys path bs) \<noteq> Inr ()) \<and>
     (suf = [] \<or>
      (suf = [RenameOver (tmp_path path) path] \<or>
       suf = [RenameOver (tmp_path path) path, SyncDir [path, tmp_path path]]) \<and>
      fs_now (fold apply_op pre s) (tmp_path path) = Some bs \<and>
      fs_data (fold apply_op pre s) (tmp_path path) = {bs})"
proof -
  let ?t = "tmp_path path" and ?w = "write_all (tmp_path path) bs (io_writes sys)"
  show ?thesis
  proof (cases "snd (atomic_write sys path bs) = Inr ()")
    case True
    then have e: "has_parent path" "io_open sys = None" "snd ?w = None" "io_sync sys = None" "io_rename sys = None"
      by (auto simp: atomic_write_def Let_def split_beta split: if_splits option.splits)
    have "fs_now (apply_op (OpenTruncate ?t) s) ?t = Some []" by simp
    from write_all_content [OF this e(3)]
    have "fs_now (fold apply_op (fst ?w) (apply_op (OpenTruncate ?t) s)) ?t = Some bs" by simp
    with e write_all_only [of ?t bs "io_writes sys"] show ?thesis
      by (intro exI [of _ "OpenTruncate ?t # fst ?w @ [SyncFile ?t]"] exI [of _ "RenameOver ?t path #
        (if io_open_dir sys \<and> io_sync_dir sys then [SyncDir [path, ?t]] else [])"])
        (simp add: atomic_write_def split_beta Let_def)
  next
    case False
    then have "list_all (only_on ?t) (fst (atomic_write sys path bs))"
      using write_all_only [of ?t bs "io_writes sys"]
      by (auto simp: atomic_write_def Let_def split_beta split: if_splits option.splits)
    with False show ?thesis by simp
  qed
qed

lemma after_crash_Some: "fs_now s p = Some c \<Longrightarrow> after_crash s p = fs_lost s p \<union> Some ` fs_data s p"
  by (simp add: after_crash_def)

lemma renamed_once:
  assumes "fs_now u (tmp_path path) = Some bs" and "fs_data u (tmp_path path) = {bs}"
    and "v = apply_op (RenameOver (tmp_path path) path) u" and "w \<in> {v, apply_op (SyncDir [path, tmp_path path]) v}"
  shows "fs_now w path = Some bs" and "after_crash w path \<subseteq> insert (Some bs) (after_crash u path)"
proof -
  have v: "fs_now v path = Some bs" "fs_data v path = {bs}" "fs_lost v path = after_crash u path"
    using assms(1-3) by simp_all
  with assms(4) have w: "fs_now w path = Some bs" "fs_data w path = {bs}" "fs_lost w path \<subseteq> after_crash u path"
    by auto
  then show "fs_now w path = Some bs" "after_crash w path \<subseteq> insert (Some bs) (after_crash u path)"
    by (auto simp: after_crash_Some)
qed

lemma renamed_other:
  assumes "q \<noteq> path" and "q \<noteq> tmp_path path"
  shows "same_at q u (apply_op (RenameOver (tmp_path path) path) u)"
    and "same_at q u (apply_op (SyncDir [path, tmp_path path]) u)"
  using assms by (simp_all add: same_at_def after_crash_def split: option.split)

lemma same_at_trans: "same_at q s t \<Longrightarrow> same_at q t u \<Longrightarrow> same_at q s u"
  by (simp add: same_at_def)

lemma renamed_state:
  assumes "list_all (only_on (tmp_path path)) pre"
    and "fs_now (fold apply_op pre s) (tmp_path path) = Some bs"
    and "fs_data (fold apply_op pre s) (tmp_path path) = {bs}"
    and "suf = [RenameOver (tmp_path path) path] \<or>
         suf = [RenameOver (tmp_path path) path, SyncDir [path, tmp_path path]]"
  shows "fs_now (fold apply_op (pre @ suf) s) path = Some bs"
    and "after_crash (fold apply_op (pre @ suf) s) path \<subseteq> insert (Some bs) (after_crash s path)"
    and "q \<noteq> path \<Longrightarrow> q \<noteq> tmp_path path \<Longrightarrow> same_at q s (fold apply_op (pre @ suf) s)"
proof -
  let ?u = "fold apply_op pre s" and ?w = "fold apply_op (pre @ suf) s"
  let ?v = "apply_op (RenameOver (tmp_path path) path) (fold apply_op pre s)"
  have w: "?w \<in> {?v, apply_op (SyncDir [path, tmp_path path]) ?v}"
    using assms(4) by (elim disjE) (simp_all del: apply_op.simps)
  have "same_at path s ?u" by (rule only_on_fold [OF assms(1)]) simp
  then have "after_crash ?u path = after_crash s path" by (simp add: same_at_def)
  with renamed_once [OF assms(2,3) refl w]
  show "fs_now ?w path = Some bs" "after_crash ?w path \<subseteq> insert (Some bs) (after_crash s path)" by simp_all
  show "same_at q s ?w" if "q \<noteq> path" "q \<noteq> tmp_path path"
  proof -
    have u: "same_at q s ?u" by (rule only_on_fold [OF assms(1) that(2)])
    note v = same_at_trans [OF u renamed_other(1) [OF that]]
    show ?thesis
      using w v same_at_trans [OF v renamed_other(2) [OF that]] by (metis empty_iff insert_iff)
  qed
qed

lemma take_one_or_two: "take n xs \<noteq> [] \<Longrightarrow> xs = [a] \<or> xs = [a, b] \<Longrightarrow> take n xs = [a] \<or> take n xs = [a, b]"
  by (cases n; cases "n - 1") auto

text \<open>
  At any moment of a run the file is the old or the new one, also after a crash; no other file than the temporary
  one changes.
\<close>

lemma atomic_write_any_moment:
  assumes "t = fold apply_op (take k (fst (atomic_write sys path bs))) s"
  shows "fs_now t path \<in> {fs_now s path, Some bs}"
    and "after_crash t path \<subseteq> insert (Some bs) (after_crash s path)"
    and "q \<noteq> path \<Longrightarrow> q \<noteq> tmp_path path \<Longrightarrow> same_at q s t"
proof -
  obtain pre suf where c: "fst (atomic_write sys path bs) = pre @ suf" "list_all (only_on (tmp_path path)) pre"
    and suf: "suf = [] \<or> (suf = [RenameOver (tmp_path path) path] \<or>
       suf = [RenameOver (tmp_path path) path, SyncDir [path, tmp_path path]]) \<and>
      fs_now (fold apply_op pre s) (tmp_path path) = Some bs \<and> fs_data (fold apply_op pre s) (tmp_path path) = {bs}"
    using atomic_write_calls [of sys path bs s] by (elim exE conjE)
  let ?suf = "take (k - length pre) suf"
  have "fs_now t path \<in> {fs_now s path, Some bs} \<and> after_crash t path \<subseteq> insert (Some bs) (after_crash s path) \<and>
    (q \<noteq> path \<longrightarrow> q \<noteq> tmp_path path \<longrightarrow> same_at q s t)"
  proof (cases "?suf = []")
    case True
    then have t: "t = fold apply_op (take k pre) s" using assms c(1) by (simp only: take_append append_Nil2)
    have "list_all (only_on (tmp_path path)) (take k pre)"
      using c(2) by (auto simp: list_all_iff dest: in_set_takeD)
    then have "r \<noteq> tmp_path path \<Longrightarrow> same_at r s t" for r using t only_on_fold by simp
    from this [of path] this [of q] show ?thesis by (auto simp: same_at_def)
  next
    case False
    then have t: "t = fold apply_op (pre @ ?suf) s" and "suf \<noteq> []" using assms c(1) by auto
    have r: "?suf = [RenameOver (tmp_path path) path] \<or>
        ?suf = [RenameOver (tmp_path path) path, SyncDir [path, tmp_path path]]"
      using take_one_or_two [OF False] suf \<open>suf \<noteq> []\<close> by simp
    have u: "fs_now (fold apply_op pre s) (tmp_path path) = Some bs" "fs_data (fold apply_op pre s) (tmp_path path) = {bs}"
      using suf \<open>suf \<noteq> []\<close> by simp_all
    note w = renamed_state [OF c(2) u r, folded t]
    show ?thesis using w(1) by (intro conjI impI w(2,3)) simp_all
  qed
  then show "fs_now t path \<in> {fs_now s path, Some bs}"
    "after_crash t path \<subseteq> insert (Some bs) (after_crash s path)"
    "q \<noteq> path \<Longrightarrow> q \<noteq> tmp_path path \<Longrightarrow> same_at q s t" by blast+
qed

lemma atomic_write_result:
  "fs_now (fold apply_op (fst (atomic_write sys path bs)) s) path =
     (if snd (atomic_write sys path bs) = Inr () then Some bs else fs_now s path)"
proof -
  obtain pre suf where c: "fst (atomic_write sys path bs) = pre @ suf" "list_all (only_on (tmp_path path)) pre"
    "suf = [] \<longleftrightarrow> snd (atomic_write sys path bs) \<noteq> Inr ()"
    and suf: "suf = [] \<or> (suf = [RenameOver (tmp_path path) path] \<or>
       suf = [RenameOver (tmp_path path) path, SyncDir [path, tmp_path path]]) \<and>
      fs_now (fold apply_op pre s) (tmp_path path) = Some bs \<and> fs_data (fold apply_op pre s) (tmp_path path) = {bs}"
    using atomic_write_calls [of sys path bs s] by (elim exE conjE)
  show ?thesis
  proof (cases "suf = []")
    case True
    with c only_on_fold [OF c(2), of path s] show ?thesis by (simp add: same_at_def)
  next
    case False
    with suf renamed_state(1) [OF c(2), of s bs suf] c(3) show ?thesis by (simp only: c(1)) simp
  qed
qed

text \<open>Reading an entry: the validated read, then the typed decoding.\<close>

definition read_partition :: "cache_libs \<Rightarrow> string \<Rightarrow> fs \<Rightarrow> string \<Rightarrow> cache_key \<Rightarrow> cache_error + partition_ir" where
  "read_partition L e s path key = (case read_validated L e s path key of
     Inl er \<Rightarrow> Inl er
   | Inr file_bytes \<Rightarrow> decode_partition L file_bytes key)"

lemma read_partition_content:
  "read_partition L e s path key = (case fs_now s path of
     None \<Rightarrow> Inl (CE_Io (''read '' @ path @ '': '' @ e))
   | Some file_bytes \<Rightarrow> decode_partition L file_bytes key)"
  by (auto simp: read_partition_def read_validated_def decode_partition_def decode_typed_def
      split: option.split sum.split)
lemma basis_from_source_runtime: "basis_from_source = identity_basis_of"
  by (simp add: fun_eq_iff basis_from_source_def identity_basis_of_def)

lemma load_partition_slot:
  "\<exists>s. lg_slots (load_partition ids pid ir language lg) pid = Some s \<and> sl_ir s = Some ir \<and> sl_status s = RS_Current"
  by (simp add: load_partition_def Let_def split_beta)

lemma fed_slot:
  "\<exists>s. lg_slots (feed_partition ids pid outcome language lg) pid = Some s \<and>
     sl_ir s = Some (oc_ir outcome) \<and> value_freshness s = F_Fresh"
proof -
  obtain s where s: "lg_slots (load_partition ids pid (oc_ir outcome) language lg) pid = Some s"
    "sl_ir s = Some (oc_ir outcome)" "sl_status s = RS_Current"
    using load_partition_slot by blast
  let ?s = "s\<lparr>sl_value_facts := value_facts_of outcome, sl_value_facts_epoch := Some (sl_epoch s)\<rparr>"
  have "lg_slots (feed_partition ids pid outcome language lg) pid = Some ?s"
    using s(1) by (simp add: feed_partition_def load_value_facts_def modify_slot_def)
  moreover have "value_freshness ?s = F_Fresh"
    using s(3) by (simp add: value_freshness_def status_freshness_def)
  ultimately show ?thesis using s(2) by simp
qed

section \<open>Properties\<close>

text \<open>
  C36. A warm start gives what a cold start gives. The files written for an ingested partition and for its
  value facts decode, under the key they were written for, to the partition and the facts, and under any other key they are
  refused. Feeding what was decoded brings the graph runtime to the state that feeding the ingestion result
  itself gives, with the partition resident and its facts fresh. Any file at all is accepted only if its manifest has the
  magic number, the schema version and the expected key, and states the length and the hash of the payload in the file,
  and then exactly what that payload decodes to is returned; so a file with the manifest of a written one and a payload
  with another hash is refused under every key.
\<close>

theorem warm_start_equals_cold_start:
  assumes "libs_ok L"
    and "encode_partition L (oc_ir outcome) m = Val graph_file"
    and "encode_value_facts_sidecar L (value_facts_of outcome) m' = Val facts_file"
  shows "decode_partition L graph_file k = (if k = mf_key m then Inr (oc_ir outcome) else Inl CE_KeyMismatch) \<and>
    try_decode_value_facts_sidecar L facts_file k =
      (if k = mf_key m' then Some (value_facts_of outcome) else None) \<and>
    (\<exists>ir facts. decode_partition L graph_file (mf_key m) = Inr ir \<and>
       try_decode_value_facts_sidecar L facts_file (mf_key m') = Some facts \<and>
       fst (feed_partition_ir_with_value_facts ids pid ir facts language lg) =
         feed_partition ids pid outcome language lg) \<and>
    (\<exists>s. lg_slots (feed_partition ids pid outcome language lg) pid = Some s \<and>
       sl_ir s = Some (oc_ir outcome) \<and> value_freshness s = F_Fresh) \<and>
    (decode_partition L any_file k = Inr ir' \<longleftrightarrow> (\<exists>payload dto. intact L any_file k payload \<and>
       cd_deserialize (lib_partition L) payload = Inr dto \<and> ir' = partition_ir_from_dto dto)) \<and>
    (try_decode_value_facts_sidecar L any_file k = Some facts' \<longleftrightarrow> (\<exists>payload dto. intact L any_file k payload \<and>
       cd_deserialize (lib_value_facts L) payload = Inr dto \<and> facts' = value_facts_from_dtos (dvs_facts dto))) \<and>
    (altered L graph_file any_file \<longrightarrow> (\<exists>e. decode_partition L any_file k = Inl e))"
proof (intro conjI)
  show "\<exists>ir facts. decode_partition L graph_file (mf_key m) = Inr ir \<and>
       try_decode_value_facts_sidecar L facts_file (mf_key m') = Some facts \<and>
       fst (feed_partition_ir_with_value_facts ids pid ir facts language lg) =
         feed_partition ids pid outcome language lg"
    using decode_encoded_partition [OF assms(1,2)] decode_encoded_sidecar [OF assms(1,3)]
    by (simp add: feed_partition_ir_with_value_facts_def feed_partition_def)
  show "altered L graph_file any_file \<longrightarrow> (\<exists>e. decode_partition L any_file k = Inl e)"
    using altered_rejected [OF assms(1,2)] by blast
qed (rule decode_encoded_partition [OF assms(1,2)] decode_encoded_sidecar [OF assms(1,3)] fed_slot
  decode_partition_accepts decode_sidecar_accepts)+

text \<open>
  C37. Replacing a cache entry is safe against failures and crashes. At every moment of \<open>atomic_write\<close>,
  whatever the system answers to its calls, a reader finds the entry as it was before or the new one, and so does
  a reader after a crash at that moment, if the old entry was durable. A run that succeeds has installed the new entry, a run
  that fails has kept the old one, and no file other than the temporary one is touched.
\<close>

theorem cache_write_crash_safe:
  assumes "libs_ok L" and "encode_partition L ir m = Val bs"
    and "after_crash s path = {fs_now s path}"
    and "t = fold apply_op (take n (fst (atomic_write sys path bs))) s"
    and "fs_now found path = fs_now t path \<or> fs_now found path \<in> after_crash t path"
  shows "(read_partition L e found path k = read_partition L e s path k \<or>
      read_partition L e found path k = (if k = mf_key m then Inr ir else Inl CE_KeyMismatch)) \<and>
    (let u = fold apply_op (fst (atomic_write sys path bs)) s
     in if snd (atomic_write sys path bs) = Inr () then read_partition L e u path (mf_key m) = Inr ir
        else read_partition L e u path k = read_partition L e s path k) \<and>
    (q \<noteq> path \<longrightarrow> q \<noteq> tmp_path path \<longrightarrow> fs_now t q = fs_now s q \<and> after_crash t q = after_crash s q)"
proof (intro conjI)
  note moment = atomic_write_any_moment [OF assms(4)]
  have "fs_now found path \<in> {fs_now s path, Some bs}"
    using moment(1,2) assms(3,5) by auto
  then show "read_partition L e found path k = read_partition L e s path k \<or>
      read_partition L e found path k = (if k = mf_key m then Inr ir else Inl CE_KeyMismatch)"
    using decode_encoded_partition [OF assms(1,2), of k] by (auto simp: read_partition_content)
  show "let u = fold apply_op (fst (atomic_write sys path bs)) s
     in if snd (atomic_write sys path bs) = Inr () then read_partition L e u path (mf_key m) = Inr ir
        else read_partition L e u path k = read_partition L e s path k"
    using atomic_write_result [of sys path bs s] decode_encoded_partition [OF assms(1,2), of "mf_key m"]
    by (simp add: read_partition_content Let_def)
  show "q \<noteq> path \<longrightarrow> q \<noteq> tmp_path path \<longrightarrow> fs_now t q = fs_now s q \<and> after_crash t q = after_crash s q"
    using moment(3) by (simp add: same_at_def)
qed

text \<open>A codec for two values, and a cache built on it.\<close>

definition two_codec :: "'a \<Rightarrow> 'a \<Rightarrow> 'a codec" where
  "two_codec x y = \<lparr>cd_serialize = (\<lambda>z. if z = x then Inr ''1'' else if z = y then Inr ''2'' else Inl ''''),
     cd_deserialize = (\<lambda>b. if b = ''1'' then Inr x else if b = ''2'' then Inr y else Inl '''')\<rparr>"

lemma two_codec_ok: "codec_ok (two_codec x y)"
  by (auto simp: codec_ok_def two_codec_def split: if_splits)

definition demo_cache_key :: cache_key where
  "demo_cache_key = \<lparr>ck_repo_uid = ''r'', ck_partition_id = ''web'', ck_source_inputs_hash = ''x'',
     ck_producer_fingerprint = \<lparr>pf_name = ''scip'', pf_version = ''1''\<rparr>, ck_repo_graph_version = ''1''\<rparr>"

definition demo_manifest :: cache_manifest where
  "demo_manifest = \<lparr>mf_magic = MAGIC, mf_schema_version = SCHEMA_VERSION, mf_key = demo_cache_key, mf_created_at = 0,
     mf_content_length = 1, mf_checksum = ''h''\<rparr>"

definition demo_outcome :: ingest_outcome where
  "demo_outcome = \<lparr>oc_ir = demo_web, oc_complexity = [(''a'', 3)]\<rparr>"

definition demo_libs :: cache_libs where
  "demo_libs = \<lparr>sha256_hex = (\<lambda>_. ''h''),
     lib_envelope = two_codec \<lparr>ev_manifest = demo_manifest, ev_payload = ''1''\<rparr>
       \<lparr>ev_manifest = demo_manifest, ev_payload = ''2''\<rparr>,
     lib_partition = two_codec (partition_ir_to_dto demo_web) (partition_ir_to_dto demo_web),
     lib_value_facts = two_codec \<lparr>dvs_facts = []\<rparr>
       \<lparr>dvs_facts = map value_fact_to_dto (value_facts_of demo_outcome)\<rparr>\<rparr>"

lemma demo_libs_ok: "libs_ok demo_libs"
  by (simp add: libs_ok_def demo_libs_def two_codec_ok)

lemma demo_graph_file: "encode_partition demo_libs demo_web demo_manifest = Val ''1''"
  by (simp add: encode_partition_def encode_typed_def demo_libs_def two_codec_def demo_manifest_def)

lemma demo_facts_nonempty: "value_facts_of demo_outcome \<noteq> []"
  by (simp add: demo_outcome_def value_facts_of_def demo_web_def demo_node_def Let_def)

lemma demo_facts_file:
  "encode_value_facts_sidecar demo_libs (value_facts_of demo_outcome) demo_manifest = Val ''2''"
  using demo_facts_nonempty
  by (simp add: encode_value_facts_sidecar_def encode_value_facts_def value_facts_to_dtos_def encode_typed_def
      demo_libs_def two_codec_def demo_manifest_def)

theorem warm_start_equals_cold_start_witness:
  "decode_partition demo_libs ''1'' demo_cache_key = Inr demo_web \<and>
   try_decode_value_facts_sidecar demo_libs ''2'' demo_cache_key = Some (value_facts_of demo_outcome)"
  using warm_start_equals_cold_start [OF demo_libs_ok _ demo_facts_file, of demo_manifest "''1''" demo_cache_key]
    demo_graph_file by (simp add: demo_outcome_def demo_manifest_def)

definition demo_io :: io where
  "demo_io = \<lparr>io_open = None, io_writes = [], io_sync = None, io_rename = None, io_open_dir = True, io_sync_dir = False\<rparr>"

definition empty_fs :: fs where
  "empty_fs = \<lparr>fs_now = (\<lambda>_. None), fs_data = (\<lambda>_. {}), fs_lost = (\<lambda>_. {})\<rparr>"

theorem cache_write_crash_safe_witness:
  "read_partition demo_libs ''no such file'' (fold apply_op (fst (atomic_write demo_io ''/c/p'' ''1'')) empty_fs) ''/c/p''
     demo_cache_key = Inr demo_web"
proof -
  have r: "snd (atomic_write demo_io ''/c/p'' ''1'') = Inr ()" by code_simp
  have "after_crash empty_fs ''/c/p'' = {fs_now empty_fs ''/c/p''}"
    by (simp add: empty_fs_def after_crash_def)
  note safe = cache_write_crash_safe [OF demo_libs_ok demo_graph_file this refl disjI1 [OF refl],
      where n = 3 and sys = demo_io and e = "''no such file''" and k = demo_cache_key]
  from safe [THEN conjunct2, THEN conjunct1] r show ?thesis by (simp only: Let_def if_True demo_manifest_def) simp
qed

end
