(* ===== verification/State_Bindings.thy ===== *)
theory State_Bindings
  imports Rust_Text
begin

text \<open>
  State-boundary bindings, \<open>state-bindings/src\<close>: the validated segments and the builders of stable keys
  (\<open>stable_key.rs\<close>), the binding table and its validation (\<open>table.rs\<close>, \<open>basis.rs\<close>), and the matcher of call
  sites (\<open>matcher.rs\<close>). The TOML parser is the parameter \<open>from_str\<close>; it gives the raw entries or the text of its error.
\<close>

section \<open>Stable keys\<close>

definition NODE_KIND_DB_RESOURCE :: string where
  "NODE_KIND_DB_RESOURCE = ''DB_RESOURCE''"

definition NODE_KIND_FS_PATH :: string where
  "NODE_KIND_FS_PATH = ''FS_PATH''"

definition NODE_KIND_STATE :: string where
  "NODE_KIND_STATE = ''STATE''"

definition NODE_KIND_BLOB :: string where
  "NODE_KIND_BLOB = ''BLOB''"

datatype validation_error = VE_Empty string | VE_ContainsColon string | VE_ContainsControl string

definition is_control :: "char \<Rightarrow> bool" where
  "is_control c \<longleftrightarrow> (of_char c :: nat) < 0x20"

definition validate_segment :: "string \<Rightarrow> string \<Rightarrow> validation_error + unit" where
  "validate_segment field s =
     (let trimmed = trim s
      in if trimmed = [] then Inl (VE_Empty field)
         else if contains_char trimmed (CHR '':'') then Inl (VE_ContainsColon field)
         else if list_ex is_control trimmed then Inl (VE_ContainsControl field)
         else Inr ())"

definition validate_path_segment :: "string \<Rightarrow> string \<Rightarrow> validation_error + unit" where
  "validate_path_segment field s =
     (let trimmed = trim s
      in if trimmed = [] then Inl (VE_Empty field)
         else if list_ex is_control trimmed then Inl (VE_ContainsControl field)
         else Inr ())"

text \<open>The validated newtypes.\<close>

datatype repo_uid = RepoUid (repo_uid_str: string)
datatype driver = Driver (driver_str: string)
datatype provider = Provider (provider_str: string)
datatype logical_name = LogicalName (logical_name_str: string)
datatype fs_path_or_logical = FsPathOrLogical (fs_path_str: string)
datatype stable_key = StableKey (stable_key_str: string)

definition new_repo_uid :: "string \<Rightarrow> validation_error + repo_uid" where
  "new_repo_uid s = (case validate_segment ''repo_uid'' s of Inl e \<Rightarrow> Inl e | Inr _ \<Rightarrow> Inr (RepoUid (trim s)))"

definition new_driver :: "string \<Rightarrow> validation_error + driver" where
  "new_driver s = (case validate_segment ''driver'' s of Inl e \<Rightarrow> Inl e | Inr _ \<Rightarrow> Inr (Driver (trim s)))"

definition new_provider :: "string \<Rightarrow> validation_error + provider" where
  "new_provider s = (case validate_segment ''provider'' s of Inl e \<Rightarrow> Inl e | Inr _ \<Rightarrow> Inr (Provider (trim s)))"

definition new_logical_name :: "string \<Rightarrow> validation_error + logical_name" where
  "new_logical_name s =
     (case validate_segment ''logical_name'' s of Inl e \<Rightarrow> Inl e | Inr _ \<Rightarrow> Inr (LogicalName (trim s)))"

definition new_fs_path_or_logical :: "string \<Rightarrow> validation_error + fs_path_or_logical" where
  "new_fs_path_or_logical s =
     (case validate_path_segment ''fs_path_or_logical'' s of Inl e \<Rightarrow> Inl e | Inr _ \<Rightarrow> Inr (FsPathOrLogical (trim s)))"

definition build_db_resource :: "repo_uid \<Rightarrow> driver \<Rightarrow> logical_name \<Rightarrow> stable_key" where
  "build_db_resource r d n = StableKey (repo_uid_str r @ '':db:'' @ driver_str d @ '':'' @ logical_name_str n @ '':'' @
     NODE_KIND_DB_RESOURCE)"

definition build_fs_path :: "repo_uid \<Rightarrow> fs_path_or_logical \<Rightarrow> stable_key" where
  "build_fs_path r p = StableKey (repo_uid_str r @ '':fs:'' @ fs_path_str p @ '':'' @ NODE_KIND_FS_PATH)"

definition build_cache_state :: "repo_uid \<Rightarrow> driver \<Rightarrow> logical_name \<Rightarrow> stable_key" where
  "build_cache_state r d n = StableKey (repo_uid_str r @ '':cache:'' @ driver_str d @ '':'' @ logical_name_str n @ '':'' @
     NODE_KIND_STATE)"

definition build_blob :: "repo_uid \<Rightarrow> provider \<Rightarrow> logical_name \<Rightarrow> stable_key" where
  "build_blob r p n = StableKey (repo_uid_str r @ '':blob:'' @ provider_str p @ '':'' @ logical_name_str n @ '':'' @
     NODE_KIND_BLOB)"

section \<open>Binding table\<close>

datatype basis = StdlibApi | SdkCall

definition basis_as_str :: "basis \<Rightarrow> string" where
  "basis_as_str b = (case b of StdlibApi \<Rightarrow> ''stdlib_api'' | SdkCall \<Rightarrow> ''sdk_call'')"

datatype language = L_Rust | L_Typescript | L_Python | L_Java | L_C | L_Cpp

datatype resource_kind = RK_Db | RK_Fs | RK_Cache | RK_Blob

definition resource_kind_as_str :: "resource_kind \<Rightarrow> string" where
  "resource_kind_as_str k = (case k of RK_Db \<Rightarrow> ''db'' | RK_Fs \<Rightarrow> ''fs'' | RK_Cache \<Rightarrow> ''cache'' | RK_Blob \<Rightarrow> ''blob'')"

datatype direction = D_Read | D_Write | D_ReadWrite | D_Unknown

definition direction_as_str :: "direction \<Rightarrow> string" where
  "direction_as_str d = (case d of
     D_Read \<Rightarrow> ''read'' | D_Write \<Rightarrow> ''write'' | D_ReadWrite \<Rightarrow> ''read_write'' | D_Unknown \<Rightarrow> ''unknown'')"

text \<open>\<open>RawBindingEntry\<close> and \<open>BindingEntry\<close> have the same fields.\<close>

record raw_binding_entry =
  rb_language :: language
  rb_module :: string
  rb_symbol_path :: string
  rb_resource_kind :: resource_kind
  rb_driver :: string
  rb_direction :: direction
  rb_basis :: basis
  rb_notes :: "string option"

record binding_entry =
  be_language :: language
  be_module :: string
  be_symbol_path :: string
  be_resource_kind :: resource_kind
  be_driver :: string
  be_direction :: direction
  be_basis :: basis
  be_notes :: "string option"

definition language_str :: "language \<Rightarrow> string" where
  "language_str l = (case l of
     L_Rust \<Rightarrow> ''rust'' | L_Typescript \<Rightarrow> ''typescript'' | L_Python \<Rightarrow> ''python'' | L_Java \<Rightarrow> ''java''
   | L_C \<Rightarrow> ''c'' | L_Cpp \<Rightarrow> ''cpp'')"

definition binding_key :: "binding_entry \<Rightarrow> string" where
  "binding_key e = language_str (be_language e) @ '':'' @ be_module e @ '':'' @ be_symbol_path e @ '':'' @
     direction_as_str (be_direction e)"

definition MAX_NOTES_LEN :: nat where
  "MAX_NOTES_LEN = 200"

datatype table_error =
    TE_Parse string
  | TE_EmptyField nat string
  | TE_SurroundingWhitespace nat string
  | TE_NotesTooLong nat nat nat
  | TE_Duplicate language string string nat nat

text \<open>\<open>str::chars().count()\<close> on UTF-8: the bytes that do not continue a character.\<close>

definition chars_count :: "string \<Rightarrow> nat" where
  "chars_count s = length (filter (\<lambda>c. (of_char c :: nat) < 0x80 \<or> 0xC0 \<le> (of_char c :: nat)) s)"

text \<open>The checks of one entry that do not depend on the others.\<close>

definition check_entry :: "nat \<Rightarrow> raw_binding_entry \<Rightarrow> table_error option" where
  "check_entry index raw =
     (if trim (rb_module raw) = [] then Some (TE_EmptyField index ''module'')
      else if trim (rb_symbol_path raw) = [] then Some (TE_EmptyField index ''symbol_path'')
      else if trim (rb_driver raw) = [] then Some (TE_EmptyField index ''driver'')
      else if trim (rb_module raw) \<noteq> rb_module raw then Some (TE_SurroundingWhitespace index ''module'')
      else if trim (rb_symbol_path raw) \<noteq> rb_symbol_path raw then Some (TE_SurroundingWhitespace index ''symbol_path'')
      else if trim (rb_driver raw) \<noteq> rb_driver raw then Some (TE_SurroundingWhitespace index ''driver'')
      else case rb_notes raw of
        None \<Rightarrow> None
      | Some notes \<Rightarrow>
          if chars_count notes > MAX_NOTES_LEN then Some (TE_NotesTooLong index (chars_count notes) MAX_NOTES_LEN)
          else None)"

definition entry_of_raw :: "raw_binding_entry \<Rightarrow> binding_entry" where
  "entry_of_raw raw = \<lparr>be_language = rb_language raw, be_module = rb_module raw, be_symbol_path = rb_symbol_path raw,
     be_resource_kind = rb_resource_kind raw, be_driver = rb_driver raw, be_direction = rb_direction raw,
     be_basis = rb_basis raw, be_notes = rb_notes raw\<rparr>"

definition dedup_key :: "raw_binding_entry \<Rightarrow> language \<times> string \<times> string" where
  "dedup_key raw = (rb_language raw, rb_module raw, rb_symbol_path raw)"

definition binding_entry_key :: "binding_entry \<Rightarrow> language \<times> string \<times> string" where
  "binding_entry_key e = (be_language e, be_module e, be_symbol_path e)"

text \<open>\<open>Iterator::position\<close>.\<close>

fun position :: "('a \<Rightarrow> bool) \<Rightarrow> 'a list \<Rightarrow> nat option" where
  "position P [] = None"
| "position P (x # xs) = (if P x then Some 0 else map_option Suc (position P xs))"

text \<open>The loop of \<open>load_str\<close> over the raw entries.\<close>

fun load_loop ::
  "nat \<Rightarrow> (language \<times> string \<times> string) set \<Rightarrow> binding_entry list \<Rightarrow> raw_binding_entry list \<Rightarrow>
   (table_error + binding_entry list) outcome" where
  "load_loop index seen entries [] = Val (Inr entries)"
| "load_loop index seen entries (raw # raws) = (case check_entry index raw of
     Some e \<Rightarrow> Val (Inl e)
   | None \<Rightarrow>
       if dedup_key raw \<in> seen
       then (case position (\<lambda>e. binding_entry_key e = dedup_key raw) entries of
               None \<Rightarrow> Panic ''seen-set hit implies prior entry present''
             | Some first \<Rightarrow> Val (Inl (TE_Duplicate (rb_language raw) (rb_module raw) (rb_symbol_path raw) first index)))
       else load_loop (Suc index) (insert (dedup_key raw) seen) (entries @ [entry_of_raw raw]) raws)"

definition load_str ::
  "(string \<Rightarrow> string + raw_binding_entry list) \<Rightarrow> string \<Rightarrow> (table_error + binding_entry list) outcome" where
  "load_str from_str source = (case from_str source of
     Inl e \<Rightarrow> Val (Inl (TE_Parse e))
   | Inr raws \<Rightarrow> load_loop 0 {} [] raws)"

section \<open>Matcher\<close>

record form_a_import_view =
  iv_module_path :: string
  iv_imported_symbol :: string
  iv_import_alias :: "string option"

record callee_path =
  cp_resolved_module :: "string option"
  cp_resolved_symbol :: string

record match_result =
  mr_binding :: binding_entry
  mr_binding_key :: string

definition match_form_a ::
  "form_a_import_view list \<Rightarrow> callee_path \<Rightarrow> binding_entry list \<Rightarrow> language \<Rightarrow> match_result option" where
  "match_form_a imps callee table lang = (case cp_resolved_module callee of
     None \<Rightarrow> None
   | Some resolved_module \<Rightarrow>
       if \<not> list_ex (\<lambda>imp. iv_module_path imp = resolved_module) imps then None
       else map_option (\<lambda>b. \<lparr>mr_binding = b, mr_binding_key = binding_key b\<rparr>)
         (List.find (\<lambda>b. be_language b = lang \<and> be_module b = resolved_module \<and>
            be_symbol_path b = cp_resolved_symbol callee) table))"
section \<open>Keys identify resources\<close>

definition segment_ok :: "string \<Rightarrow> bool" where
  "segment_ok s \<longleftrightarrow> s \<noteq> [] \<and> trim s = s \<and> CHR '':'' \<notin> set s \<and> \<not> list_ex is_control s"

definition path_segment_ok :: "string \<Rightarrow> bool" where
  "path_segment_ok s \<longleftrightarrow> s \<noteq> [] \<and> trim s = s \<and> \<not> list_ex is_control s"

lemma validate_segment_cases: "(case validate_segment f s of Inl e \<Rightarrow> Inl e | Inr _ \<Rightarrow> Inr y) = Inr z \<longleftrightarrow>
    segment_ok (trim s) \<and> y = z"
  by (auto simp: validate_segment_def segment_ok_def contains_char_def Let_def)

lemma validate_path_segment_cases: "(case validate_path_segment f s of Inl e \<Rightarrow> Inl e | Inr _ \<Rightarrow> Inr y) = Inr z \<longleftrightarrow>
    path_segment_ok (trim s) \<and> y = z"
  by (auto simp: validate_path_segment_def path_segment_ok_def Let_def)

text \<open>
  The contract of a validated newtype: its constructor accepts a text exactly if the trimmed text is well formed, and holds
  the trimmed text.
\<close>

locale newtype =
  fixes construct :: "string \<Rightarrow> validation_error + 'a" and wrap :: "string \<Rightarrow> 'a" and as_str :: "'a \<Rightarrow> string"
    and ok :: "string \<Rightarrow> bool"
  assumes construct_iff: "construct s = Inr x \<longleftrightarrow> ok (trim s) \<and> wrap (trim s) = x"
    and ok_trimmed: "ok t \<Longrightarrow> trim t = t"
    and wrap_as_str: "wrap (as_str x) = x"
    and as_str_wrap: "as_str (wrap t) = t"
begin

lemma constructed_iff: "(\<exists>s. construct s = Inr x) \<longleftrightarrow> ok (as_str x)"
  using construct_iff ok_trimmed wrap_as_str as_str_wrap by metis

lemma construct_again: "construct s = Inr x \<Longrightarrow> construct (as_str x) = Inr x"
  using construct_iff ok_trimmed wrap_as_str as_str_wrap by metis

lemma as_str_inject: "as_str x = as_str y \<longleftrightarrow> x = y"
  using wrap_as_str by metis

end

interpretation nt_repo: newtype new_repo_uid RepoUid repo_uid_str segment_ok
  by unfold_locales (simp_all add: new_repo_uid_def validate_segment_cases segment_ok_def)

interpretation nt_driver: newtype new_driver Driver driver_str segment_ok
  by unfold_locales (simp_all add: new_driver_def validate_segment_cases segment_ok_def)

interpretation nt_provider: newtype new_provider Provider provider_str segment_ok
  by unfold_locales (simp_all add: new_provider_def validate_segment_cases segment_ok_def)

interpretation nt_name: newtype new_logical_name LogicalName logical_name_str segment_ok
  by unfold_locales (simp_all add: new_logical_name_def validate_segment_cases segment_ok_def)

interpretation nt_path: newtype new_fs_path_or_logical FsPathOrLogical fs_path_str path_segment_ok
  by unfold_locales (simp_all add: new_fs_path_or_logical_def validate_path_segment_cases path_segment_ok_def)

text \<open>A resource of one of the four kinds, its key, and what it takes to have been built from validated parts.\<close>

datatype resource =
    DbResource repo_uid driver logical_name
  | FsResource repo_uid fs_path_or_logical
  | CacheResource repo_uid driver logical_name
  | BlobResource repo_uid provider logical_name

fun resource_key :: "resource \<Rightarrow> stable_key" where
  "resource_key (DbResource r d n) = build_db_resource r d n"
| "resource_key (FsResource r p) = build_fs_path r p"
| "resource_key (CacheResource r d n) = build_cache_state r d n"
| "resource_key (BlobResource r p n) = build_blob r p n"

fun validated :: "resource \<Rightarrow> bool" where
  "validated (DbResource r d n) \<longleftrightarrow> (\<exists>s. new_repo_uid s = Inr r) \<and> (\<exists>s. new_driver s = Inr d) \<and>
     (\<exists>s. new_logical_name s = Inr n)"
| "validated (FsResource r p) \<longleftrightarrow> (\<exists>s. new_repo_uid s = Inr r) \<and> (\<exists>s. new_fs_path_or_logical s = Inr p)"
| "validated (CacheResource r d n) \<longleftrightarrow> (\<exists>s. new_repo_uid s = Inr r) \<and> (\<exists>s. new_driver s = Inr d) \<and>
     (\<exists>s. new_logical_name s = Inr n)"
| "validated (BlobResource r p n) \<longleftrightarrow> (\<exists>s. new_repo_uid s = Inr r) \<and> (\<exists>s. new_provider s = Inr p) \<and>
     (\<exists>s. new_logical_name s = Inr n)"

lemmas constructed = nt_repo.constructed_iff nt_driver.constructed_iff nt_provider.constructed_iff
  nt_name.constructed_iff nt_path.constructed_iff

lemmas as_str_inject = nt_repo.as_str_inject nt_driver.as_str_inject nt_provider.as_str_inject
  nt_name.as_str_inject nt_path.as_str_inject

lemma segment_cut: "segment_ok a \<Longrightarrow> segment_ok b \<Longrightarrow> a @ CHR '':'' # x = b @ CHR '':'' # y \<longleftrightarrow> a = b \<and> x = y"
  using split_first [of a "CHR '':''" x b y] by (auto simp: segment_ok_def)

text \<open>A key reads as segments: the repository, the kind, and the rest.\<close>

fun resource_kind_tag :: "resource \<Rightarrow> string" where
  "resource_kind_tag (DbResource _ _ _) = ''db''"
| "resource_kind_tag (FsResource _ _) = ''fs''"
| "resource_kind_tag (CacheResource _ _ _) = ''cache''"
| "resource_kind_tag (BlobResource _ _ _) = ''blob''"

fun resource_repo :: "resource \<Rightarrow> repo_uid" where
  "resource_repo (DbResource r _ _) = r"
| "resource_repo (FsResource r _) = r"
| "resource_repo (CacheResource r _ _) = r"
| "resource_repo (BlobResource r _ _) = r"

fun resource_rest :: "resource \<Rightarrow> string" where
  "resource_rest (DbResource _ d n) = driver_str d @ CHR '':'' # logical_name_str n @ CHR '':'' # NODE_KIND_DB_RESOURCE"
| "resource_rest (FsResource _ p) = fs_path_str p @ CHR '':'' # NODE_KIND_FS_PATH"
| "resource_rest (CacheResource _ d n) = driver_str d @ CHR '':'' # logical_name_str n @ CHR '':'' # NODE_KIND_STATE"
| "resource_rest (BlobResource _ p n) = provider_str p @ CHR '':'' # logical_name_str n @ CHR '':'' # NODE_KIND_BLOB"

lemma resource_key_segments: "stable_key_str (resource_key a) =
    repo_uid_str (resource_repo a) @ CHR '':'' # resource_kind_tag a @ CHR '':'' # resource_rest a"
  by (cases a) (simp_all add: build_db_resource_def build_fs_path_def build_cache_state_def build_blob_def)

lemma validated_repo: "validated a \<Longrightarrow> segment_ok (repo_uid_str (resource_repo a))"
  by (cases a) (simp_all add: constructed)

lemma kind_tag_ok: "segment_ok (resource_kind_tag a)"
  by (cases a; simp; code_simp)

lemma resource_rest_inject:
  assumes "validated a" "validated b" "resource_kind_tag a = resource_kind_tag b" "resource_repo a = resource_repo b"
    "resource_rest a = resource_rest b"
  shows "a = b"
  using assms by (cases a; cases b) (auto simp: constructed segment_cut as_str_inject)

text \<open>
  C39. Stable keys identify resources. Two resources built from validated parts have the same key exactly if they are the same
  resource: the same kind and the same parts, although a file path may contain colons. A newtype is
  constructed from a text exactly if the trimmed text is not empty, has no control character and, except for a file
  path, no colon; constructing it again from its own text gives it back.
\<close>

theorem stable_keys_identify:
  assumes "validated a" and "validated b"
  shows "(resource_key a = resource_key b \<longleftrightarrow> a = b) \<and>
    (new_repo_uid s = Inr r \<longleftrightarrow> segment_ok (trim s) \<and> r = RepoUid (trim s)) \<and>
    (new_fs_path_or_logical s = Inr p \<longleftrightarrow> path_segment_ok (trim s) \<and> p = FsPathOrLogical (trim s)) \<and>
    (new_repo_uid s = Inr r \<longrightarrow> new_repo_uid (repo_uid_str r) = Inr r)"
proof -
  have "resource_key a = resource_key b \<longleftrightarrow> stable_key_str (resource_key a) = stable_key_str (resource_key b)"
    by (metis stable_key.expand)
  also have "\<dots> \<longleftrightarrow> resource_repo a = resource_repo b \<and> resource_kind_tag a = resource_kind_tag b \<and>
      resource_rest a = resource_rest b"
    using assms by (simp add: resource_key_segments segment_cut validated_repo kind_tag_ok as_str_inject)
  also have "\<dots> \<longleftrightarrow> a = b"
    using resource_rest_inject [OF assms] by auto
  finally show ?thesis
    using nt_repo.construct_again by (auto simp: nt_repo.construct_iff nt_path.construct_iff)
qed

theorem stable_keys_identify_witness:
  "resource_key (FsResource (RepoUid ''r'') (FsPathOrLogical ''C:/x'')) \<noteq>
   resource_key (CacheResource (RepoUid ''r'') (Driver ''redis'') (LogicalName ''x''))"
proof -
  have "validated (FsResource (RepoUid ''r'') (FsPathOrLogical ''C:/x''))"
    "validated (CacheResource (RepoUid ''r'') (Driver ''redis'') (LogicalName ''x''))"
    by (simp_all add: constructed segment_ok_def path_segment_ok_def trim_def is_whitespace_def is_control_def)
  from stable_keys_identify [OF this, of "[]"] show ?thesis by simp
qed
section \<open>The table and its matches\<close>

definition field_ok :: "string \<Rightarrow> bool" where
  "field_ok s \<longleftrightarrow> s \<noteq> [] \<and> trim s = s"

definition entry_ok :: "raw_binding_entry \<Rightarrow> bool" where
  "entry_ok raw \<longleftrightarrow> field_ok (rb_module raw) \<and> field_ok (rb_symbol_path raw) \<and> field_ok (rb_driver raw) \<and>
     (case rb_notes raw of None \<Rightarrow> True | Some notes \<Rightarrow> chars_count notes \<le> MAX_NOTES_LEN)"

lemma check_entry_None: "check_entry i raw = None \<longleftrightarrow> entry_ok raw"
proof -
  have "trim [] = []" by (simp add: trim_def)
  then show ?thesis
    by (auto simp: check_entry_def entry_ok_def field_ok_def not_less split: option.splits)
qed

lemma check_entry_not_duplicate: "check_entry i raw \<noteq> Some (TE_Duplicate l m p j k)"
  by (auto simp: check_entry_def split: option.splits)

lemma entry_key_of_raw [simp]: "binding_entry_key (entry_of_raw raw) = dedup_key raw"
  by (simp add: binding_entry_key_def entry_of_raw_def dedup_key_def)

lemma position_Some: "position P xs = Some i \<Longrightarrow> i < length xs \<and> P (xs ! i)"
  by (induction xs arbitrary: i) (auto split: if_splits)

lemma position_None: "position P xs = None \<longleftrightarrow> (\<forall>x \<in> set xs. \<not> P x)"
  by (induction xs) auto

text \<open>The loop ends without a panic, with the whole table or with an error.\<close>

lemma load_loop_spec:
  assumes "acc = map entry_of_raw prev" and "distinct (map dedup_key prev)"
  shows "\<exists>res. load_loop (length prev) (dedup_key ` set prev) acc raws = Val res \<and>
    (\<forall>table. res = Inr table \<longleftrightarrow> table = map entry_of_raw (prev @ raws) \<and> distinct (map dedup_key (prev @ raws)) \<and>
       list_all entry_ok raws) \<and>
    (\<forall>l m p i j. res = Inl (TE_Duplicate l m p i j) \<longrightarrow>
       i < j \<and> j < length (prev @ raws) \<and> dedup_key ((prev @ raws) ! i) = (l, m, p) \<and> dedup_key ((prev @ raws) ! j) = (l, m, p))"
  using assms
proof (induction raws arbitrary: prev acc)
  case (Cons raw raws)
  show ?case
  proof (cases "check_entry (length prev) raw")
    case (Some e)
    then have "\<not> entry_ok raw" using check_entry_None [of "length prev" raw] by simp
    with Some show ?thesis by (auto simp: check_entry_not_duplicate)
  next
    case None
    then have ok: "entry_ok raw" by (simp add: check_entry_None)
    show ?thesis
    proof (cases "dedup_key raw \<in> dedup_key ` set prev")
      case True
      then obtain i where i: "position (\<lambda>e. binding_entry_key e = dedup_key raw) acc = Some i"
        using Cons.prems(1) by (cases "position (\<lambda>e. binding_entry_key e = dedup_key raw) acc") (auto simp: position_None)
      then have "i < length prev" "dedup_key (prev ! i) = dedup_key raw"
        using position_Some [OF i] Cons.prems(1) by auto
      with True None i Cons.prems(1) show ?thesis
        by (auto simp: nth_append dedup_key_def)
    next
      case False
      then have d: "distinct (map dedup_key (prev @ [raw]))" using Cons.prems(2) by simp
      have "acc @ [entry_of_raw raw] = map entry_of_raw (prev @ [raw])" using Cons.prems(1) by simp
      from Cons.IH [OF this d] show ?thesis using None False ok by simp
    qed
  qed
qed auto

lemma find_distinct_key:
  assumes "distinct (map f xs)"
  shows "List.find (\<lambda>x. f x = k) xs = Some y \<longleftrightarrow> y \<in> set xs \<and> f y = k"
  using assms by (induction xs) auto

text \<open>
  The binding table and its matches. Loading a table never panics. It succeeds exactly if the text parses, every entry has
  non-empty trimmed fields and notes of at most 200 characters, and no two entries share language, module and symbol; it then
  keeps the entries in order, and a duplicate is reported with the positions of two entries that share them. A call
  site matches an entry of a loaded table exactly if the callee resolves to the module and symbol of the entry in the language of the
  file and the file imports the module, so at most one entry matches, whatever the order of the table and of the imports.
\<close>

theorem binding_table_matches:
  shows "\<exists>res. load_str from_str source = Val res \<and>
    (\<forall>table. res = Inr table \<longleftrightarrow> (\<exists>raws. from_str source = Inr raws \<and> table = map entry_of_raw raws \<and>
       distinct (map dedup_key raws) \<and> list_all entry_ok raws)) \<and>
    (\<forall>l m p i j. res = Inl (TE_Duplicate l m p i j) \<longrightarrow> (\<exists>raws. from_str source = Inr raws \<and> i < j \<and> j < length raws \<and>
       dedup_key (raws ! i) = (l, m, p) \<and> dedup_key (raws ! j) = (l, m, p))) \<and>
    (\<forall>table. res = Inr table \<longrightarrow> (match_form_a imps callee table lang = Some r \<longleftrightarrow>
       mr_binding r \<in> set table \<and> mr_binding_key r = binding_key (mr_binding r) \<and>
       be_language (mr_binding r) = lang \<and> be_symbol_path (mr_binding r) = cp_resolved_symbol callee \<and>
       cp_resolved_module callee = Some (be_module (mr_binding r)) \<and>
       be_module (mr_binding r) \<in> iv_module_path ` set imps))"
proof (cases "from_str source")
  case (Inl e)
  then show ?thesis by (simp add: load_str_def)
next
  case (Inr raws)
  from load_loop_spec [of "[]" "[]" raws] obtain res where l: "load_str from_str source = Val res"
    "\<And>table. res = Inr table \<longleftrightarrow> table = map entry_of_raw raws \<and> distinct (map dedup_key raws) \<and> list_all entry_ok raws"
    "\<And>l m p i j. res = Inl (TE_Duplicate l m p i j) \<Longrightarrow>
       i < j \<and> j < length raws \<and> dedup_key (raws ! i) = (l, m, p) \<and> dedup_key (raws ! j) = (l, m, p)"
    using Inr by (auto simp: load_str_def)
  have "match_form_a imps callee table lang = Some r \<longleftrightarrow>
       mr_binding r \<in> set table \<and> mr_binding_key r = binding_key (mr_binding r) \<and>
       be_language (mr_binding r) = lang \<and> be_symbol_path (mr_binding r) = cp_resolved_symbol callee \<and>
       cp_resolved_module callee = Some (be_module (mr_binding r)) \<and>
       be_module (mr_binding r) \<in> iv_module_path ` set imps" if "res = Inr table" for table
  proof -
    from that l(2) have "distinct (map binding_entry_key table)" by (simp add: comp_def)
    note found = find_distinct_key [OF this, of "(lang, m, cp_resolved_symbol callee)" for m, unfolded binding_entry_key_def prod.inject]
    show ?thesis
      by (cases "cp_resolved_module callee"; cases r)
        (auto simp: match_form_a_def found list_ex_iff image_iff)
  qed
  with l Inr show ?thesis by simp
qed
definition demo_raw_binding :: raw_binding_entry where
  "demo_raw_binding = \<lparr>rb_language = L_Typescript, rb_module = ''fs'', rb_symbol_path = ''readFile'', rb_resource_kind = RK_Fs,
     rb_driver = ''node-fs'', rb_direction = D_Read, rb_basis = StdlibApi, rb_notes = None\<rparr>"

theorem binding_table_matches_witness:
  "match_form_a [\<lparr>iv_module_path = ''fs'', iv_imported_symbol = ''readFile'', iv_import_alias = None\<rparr>]
     \<lparr>cp_resolved_module = Some ''fs'', cp_resolved_symbol = ''readFile''\<rparr> [entry_of_raw demo_raw_binding] L_Typescript =
   Some \<lparr>mr_binding = entry_of_raw demo_raw_binding, mr_binding_key = ''typescript:fs:readFile:read''\<rparr>"
proof -
  let ?r = "\<lparr>mr_binding = entry_of_raw demo_raw_binding, mr_binding_key = ''typescript:fs:readFile:read''\<rparr>"
  have l: "load_str (\<lambda>_. Inr [demo_raw_binding]) [] = Val (Inr [entry_of_raw demo_raw_binding])" by code_simp
  have k: "binding_key (entry_of_raw demo_raw_binding) = ''typescript:fs:readFile:read''" by code_simp
  have e: "be_language (entry_of_raw demo_raw_binding) = L_Typescript" "be_module (entry_of_raw demo_raw_binding) = ''fs''"
    "be_symbol_path (entry_of_raw demo_raw_binding) = ''readFile''"
    by (simp_all add: entry_of_raw_def demo_raw_binding_def)
  from binding_table_matches [of "\<lambda>_. Inr [demo_raw_binding]" "[]"
      "[\<lparr>iv_module_path = ''fs'', iv_imported_symbol = ''readFile'', iv_import_alias = None\<rparr>]"
      "\<lparr>cp_resolved_module = Some ''fs'', cp_resolved_symbol = ''readFile''\<rparr>" L_Typescript ?r] l
  show ?thesis by (elim exE conjE) (simp add: e k)
qed

text \<open>
  The key of an entry in the evidence of an edge does not determine the entry: a module may contain the separator.
\<close>

lemma binding_key_ambiguous:
  "binding_key (entry_of_raw (demo_raw_binding\<lparr>rb_module := ''node:fs''\<rparr>)) =
   binding_key (entry_of_raw (demo_raw_binding\<lparr>rb_module := ''node'', rb_symbol_path := ''fs:readFile''\<rparr>))"
  by code_simp

end
