(* ===== verification/State_Emitter.thy ===== *)
theory State_Emitter
  imports State_Bindings Unresolved Routing
begin

text \<open>
  The state-boundary pipeline: the emitter of resource nodes and edges (\<open>state-extractor/src/emit.rs\<close>,
  \<open>evidence.rs\<close>), the adapters of the languages (\<open>adapter.rs\<close>, \<open>languages/*.rs\<close>) and the hook that drives them
  over the files of a snapshot (\<open>repo-index/src/state_boundary_hook.rs\<close>).

  Parameters: \<open>uuid l n\<close> is the \<open>n\<close>-th identifier that the emitter of language \<open>l\<close> draws (the \<open>uuid\<close> crate), and
  \<open>to_json\<close> is \<open>serde_json::to_string\<close> on an evidence record. The message of a diagnostic is kept as the value it is
  formatted from.
\<close>

section \<open>Nodes and edges of the indexer\<close>

datatype indexer_edge_type =
    ET_Imports | ET_Calls | ET_Implements | ET_Instantiates | ET_Reads | ET_Writes | ET_Accesses | ET_Emits | ET_Consumes
  | ET_RoutesTo | ET_RegisteredBy | ET_GatedBy | ET_DependsOn | ET_Owns | ET_TestedBy | ET_Covers | ET_Throws | ET_Catches
  | ET_TransitionsTo

datatype resolution = Res_Static | Res_Dynamic | Res_Inferred

datatype node_kind =
    NK_Module | NK_File | NK_Symbol | NK_Endpoint | NK_EventTopic | NK_Table | NK_ConfigKey | NK_Test | NK_State | NK_Queue
  | NK_Job | NK_DbResource | NK_FsPath | NK_Blob

datatype node_subtype =
    NS_Function | NS_Class | NS_Method | NS_Interface | NS_Struct | NS_TypeAlias | NS_Variable | NS_Constant | NS_Enum
  | NS_EnumMember | NS_Property | NS_Constructor | NS_Destructor | NS_Getter | NS_Setter
  | NS_Source | NS_TestFile | NS_Config | NS_Migration | NS_Schema
  | NS_Package | NS_Namespace | NS_Directory
  | NS_Route | NS_RpcMethod | NS_GraphqlResolver | NS_WebsocketHandler | NS_TestSuite | NS_TestCase
  | NS_Connection | NS_FilePath | NS_DirectoryPath | NS_Logical | NS_Cache | NS_Bucket | NS_Container

datatype indexer_visibility = IV_Public | IV_Private | IV_Protected | IV_Internal | IV_Export

record extracted_node =
  xn_node_uid :: string
  xn_snapshot_uid :: string
  xn_repo_uid :: string
  xn_stable_key :: string
  xn_kind :: node_kind
  xn_subtype :: "node_subtype option"
  xn_name :: string
  xn_qualified_name :: "string option"
  xn_file_uid :: "string option"
  xn_parent_node_uid :: "string option"
  xn_location :: "source_location option"
  xn_signature :: "string option"
  xn_visibility :: "indexer_visibility option"
  xn_doc_comment :: "string option"
  xn_metadata_json :: "string option"

record extracted_edge =
  xe_edge_uid :: string
  xe_snapshot_uid :: string
  xe_repo_uid :: string
  xe_source_node_uid :: string
  xe_target_key :: string
  xe_edge_type :: indexer_edge_type
  xe_resolution :: resolution
  xe_extractor :: string
  xe_location :: "source_location option"
  xe_metadata_json :: "string option"

datatype call_arg_payload = StringLiteral string | EnvKeyRead string

record resolved_callsite =
  rc_enclosing_symbol_node_uid :: string
  rc_resolved_module :: string
  rc_resolved_symbol :: string
  rc_arg0_payload :: call_arg_payload
  rc_arg1_payload :: "call_arg_payload option"
  rc_source_location :: source_location

section \<open>Evidence\<close>

datatype logical_name_source = LN_EnvKey | LN_LiteralIdentifier | LN_NormalizedPath | LN_NormalizedUrl

definition STATE_BOUNDARY_EVIDENCE_VERSION :: u32 where
  "STATE_BOUNDARY_EVIDENCE_VERSION = 1"

record state_boundary_evidence =
  sv_state_boundary_version :: u32
  sv_basis :: basis
  sv_binding_key :: string
  sv_direction :: direction
  sv_logical_name_source :: logical_name_source
  sv_binding_notes :: "string option"

section \<open>Emitter\<close>

datatype callsite_logical_name = Generic logical_name | Fs fs_path_or_logical

definition callsite_name_str :: "callsite_logical_name \<Rightarrow> string" where
  "callsite_name_str n = (case n of Generic ln \<Rightarrow> logical_name_str ln | Fs path \<Rightarrow> fs_path_str path)"

record state_boundary_callsite =
  sc_source_node_uid :: string
  sc_file_uid :: string
  sc_source_location :: source_location
  sc_imports_in_file :: "form_a_import_view list"
  sc_callee :: callee_path
  sc_logical_name :: callsite_logical_name
  sc_logical_name_source :: logical_name_source

record emitter_context =
  ec_repo_uid :: repo_uid
  ec_snapshot_uid :: string
  ec_language :: language
  ec_extractor_name :: string

record emitted_facts =
  ef_nodes :: "extracted_node list"
  ef_edges :: "extracted_edge list"

datatype emit_error = InvalidBindingSegment validation_error | FsPayloadInNonFsSlot resource_kind string

text \<open>\<open>From<ValidationError>\<close>, as the question-mark operator applies it.\<close>

fun from_validation :: "validation_error + 'a \<Rightarrow> emit_error + 'a" where
  "from_validation (Inl e) = Inl (InvalidBindingSegment e)"
| "from_validation (Inr x) = Inr x"

text \<open>The emitter; \<open>em_drawn\<close> counts the identifiers it has drawn.\<close>

record state_boundary_emitter =
  em_table :: "binding_entry list"
  em_context :: emitter_context
  em_resource_nodes :: "string \<rightharpoonup> extracted_node"
  em_resource_insertion_order :: "string list"
  em_edges :: "extracted_edge list"
  em_drawn :: nat

definition emitter_new :: "binding_entry list \<Rightarrow> emitter_context \<Rightarrow> state_boundary_emitter" where
  "emitter_new table ctx = \<lparr>em_table = table, em_context = ctx, em_resource_nodes = Map.empty,
     em_resource_insertion_order = [], em_edges = [], em_drawn = 0\<rparr>"

definition resolution_for_logical_source :: "logical_name_source \<Rightarrow> resolution" where
  "resolution_for_logical_source s = (case s of LN_EnvKey \<Rightarrow> Res_Inferred | _ \<Rightarrow> Res_Static)"

definition resolve_as_generic :: "callsite_logical_name \<Rightarrow> resource_kind \<Rightarrow> emit_error + logical_name" where
  "resolve_as_generic payload kind = (case payload of
     Generic ln \<Rightarrow> Inr ln
   | Fs path \<Rightarrow> (case new_logical_name (fs_path_str path) of
       Inl _ \<Rightarrow> Inl (FsPayloadInNonFsSlot kind (fs_path_str path))
     | Inr ln \<Rightarrow> Inr ln))"

definition resolve_as_fs :: "callsite_logical_name \<Rightarrow> validation_error + fs_path_or_logical" where
  "resolve_as_fs payload = (case payload of
     Fs path \<Rightarrow> Inr path
   | Generic ln \<Rightarrow> new_fs_path_or_logical (logical_name_str ln))"

definition build_resource_stable_key ::
  "repo_uid \<Rightarrow> binding_entry \<Rightarrow> callsite_logical_name \<Rightarrow> emit_error + stable_key" where
  "build_resource_stable_key r binding n = (case be_resource_kind binding of
     RK_Db \<Rightarrow> bind_result (resolve_as_generic n RK_Db) (\<lambda>ln.
       bind_result (from_validation (new_driver (be_driver binding))) (\<lambda>d. Inr (build_db_resource r d ln)))
   | RK_Fs \<Rightarrow> bind_result (from_validation (resolve_as_fs n)) (\<lambda>path. Inr (build_fs_path r path))
   | RK_Cache \<Rightarrow> bind_result (resolve_as_generic n RK_Cache) (\<lambda>ln.
       bind_result (from_validation (new_driver (be_driver binding))) (\<lambda>d. Inr (build_cache_state r d ln)))
   | RK_Blob \<Rightarrow> bind_result (resolve_as_generic n RK_Blob) (\<lambda>ln.
       bind_result (from_validation (new_provider (be_driver binding))) (\<lambda>p. Inr (build_blob r p ln))))"

definition node_kind_and_subtype_for_binding :: "binding_entry \<Rightarrow> logical_name_source \<Rightarrow> node_kind \<times> node_subtype" where
  "node_kind_and_subtype_for_binding binding src = (case be_resource_kind binding of
     RK_Db \<Rightarrow> (NK_DbResource, NS_Connection)
   | RK_Cache \<Rightarrow> (NK_State, NS_Cache)
   | RK_Blob \<Rightarrow> (NK_Blob, NS_Bucket)
   | RK_Fs \<Rightarrow> (NK_FsPath, case src of
         LN_NormalizedPath \<Rightarrow> NS_FilePath | LN_NormalizedUrl \<Rightarrow> NS_FilePath
       | LN_EnvKey \<Rightarrow> NS_Logical | LN_LiteralIdentifier \<Rightarrow> NS_Logical))"

definition build_resource_node ::
  "string \<Rightarrow> string \<Rightarrow> binding_entry \<Rightarrow> callsite_logical_name \<Rightarrow> logical_name_source \<Rightarrow> emitter_context \<Rightarrow> extracted_node" where
  "build_resource_node node_uid key binding n src ctx =
     (let (kind, subtype) = node_kind_and_subtype_for_binding binding src
      in \<lparr>xn_node_uid = node_uid, xn_snapshot_uid = ec_snapshot_uid ctx, xn_repo_uid = repo_uid_str (ec_repo_uid ctx),
          xn_stable_key = key, xn_kind = kind, xn_subtype = Some subtype, xn_name = callsite_name_str n,
          xn_qualified_name = None, xn_file_uid = None, xn_parent_node_uid = None, xn_location = None, xn_signature = None,
          xn_visibility = None, xn_doc_comment = None, xn_metadata_json = None\<rparr>)"

type_synonym uuid_source = "language \<Rightarrow> nat \<Rightarrow> string"
type_synonym evidence_json = "state_boundary_evidence \<Rightarrow> string option"

definition draw_uuid :: "uuid_source \<Rightarrow> state_boundary_emitter \<Rightarrow> string" where
  "draw_uuid uuid em = uuid (ec_language (em_context em)) (em_drawn em)"

definition ensure_resource_node ::
  "uuid_source \<Rightarrow> stable_key \<Rightarrow> binding_entry \<Rightarrow> callsite_logical_name \<Rightarrow> logical_name_source \<Rightarrow>
   state_boundary_emitter \<Rightarrow> string \<times> state_boundary_emitter" where
  "ensure_resource_node uuid key binding n src em =
     (let k = stable_key_str key
      in if em_resource_nodes em k = None
         then (k, em\<lparr>em_resource_nodes := (em_resource_nodes em)
                       (k \<mapsto> build_resource_node (draw_uuid uuid em) k binding n src (em_context em)),
                     em_resource_insertion_order := em_resource_insertion_order em @ [k],
                     em_drawn := Suc (em_drawn em)\<rparr>)
         else (k, em))"

definition emit_edge ::
  "uuid_source \<Rightarrow> evidence_json \<Rightarrow> state_boundary_callsite \<Rightarrow> string \<Rightarrow> indexer_edge_type \<Rightarrow> resolution \<Rightarrow> direction \<Rightarrow>
   string \<Rightarrow> basis \<Rightarrow> string option \<Rightarrow> state_boundary_emitter \<Rightarrow> state_boundary_emitter outcome" where
  "emit_edge uuid to_json site target edge_type res dir key bas notes em =
     (let evidence = \<lparr>sv_state_boundary_version = STATE_BOUNDARY_EVIDENCE_VERSION, sv_basis = bas, sv_binding_key = key,
            sv_direction = dir, sv_logical_name_source = sc_logical_name_source site, sv_binding_notes = notes\<rparr>
      in case to_json evidence of
           None \<Rightarrow> Panic ''StateBoundaryEvidence must always serialize''
         | Some metadata \<Rightarrow> Val (em\<lparr>em_edges := em_edges em @
             [\<lparr>xe_edge_uid = draw_uuid uuid em, xe_snapshot_uid = ec_snapshot_uid (em_context em),
               xe_repo_uid = repo_uid_str (ec_repo_uid (em_context em)), xe_source_node_uid = sc_source_node_uid site,
               xe_target_key = target, xe_edge_type = edge_type, xe_resolution = res,
               xe_extractor = ec_extractor_name (em_context em), xe_location = Some (sc_source_location site),
               xe_metadata_json = Some metadata\<rparr>],
             em_drawn := Suc (em_drawn em)\<rparr>))"

definition emit_for_callsite ::
  "uuid_source \<Rightarrow> evidence_json \<Rightarrow> state_boundary_callsite \<Rightarrow> state_boundary_emitter \<Rightarrow>
   ((emit_error + nat) \<times> state_boundary_emitter) outcome" where
  "emit_for_callsite uuid to_json site em =
     (case match_form_a (sc_imports_in_file site) (sc_callee site) (em_table em) (ec_language (em_context em)) of
        None \<Rightarrow> Val (Inr 0, em)
      | Some m \<Rightarrow>
          (case build_resource_stable_key (ec_repo_uid (em_context em)) (mr_binding m) (sc_logical_name site) of
             Inl e \<Rightarrow> Val (Inl e, em)
           | Inr key \<Rightarrow>
               (let (target, em) = ensure_resource_node uuid key (mr_binding m) (sc_logical_name site)
                      (sc_logical_name_source site) em;
                    res = resolution_for_logical_source (sc_logical_name_source site);
                    emit = (\<lambda>t d. emit_edge uuid to_json site target t res d (mr_binding_key m) (be_basis (mr_binding m))
                      (be_notes (mr_binding m)))
                in case be_direction (mr_binding m) of
                     D_Read \<Rightarrow> bind_outcome (emit ET_Reads D_Read em) (\<lambda>em. Val (Inr 1, em))
                   | D_Write \<Rightarrow> bind_outcome (emit ET_Writes D_Write em) (\<lambda>em. Val (Inr 1, em))
                   | D_ReadWrite \<Rightarrow> bind_outcome (emit ET_Reads D_Read em) (\<lambda>em.
                       bind_outcome (emit ET_Writes D_Write em) (\<lambda>em. Val (Inr 2, em)))
                   | D_Unknown \<Rightarrow> bind_outcome (emit ET_Accesses D_Unknown em) (\<lambda>em. Val (Inr 1, em)))))"

text \<open>\<open>drain\<close>: each key of the insertion order takes its node out of the map.\<close>

fun drain_nodes :: "(string \<rightharpoonup> extracted_node) \<Rightarrow> string list \<Rightarrow> extracted_node list" where
  "drain_nodes nodes [] = []"
| "drain_nodes nodes (k # ks) = (case nodes k of
     None \<Rightarrow> drain_nodes nodes ks
   | Some n \<Rightarrow> n # drain_nodes (nodes(k := None)) ks)"

definition drain :: "state_boundary_emitter \<Rightarrow> emitted_facts" where
  "drain em = \<lparr>ef_nodes = drain_nodes (em_resource_nodes em) (em_resource_insertion_order em), ef_edges = em_edges em\<rparr>"
section \<open>Adapters\<close>

definition is_ascii_alphanumeric :: "char \<Rightarrow> bool" where
  "is_ascii_alphanumeric c \<longleftrightarrow> is_ascii_alphabetic c \<or> is_ascii_digit c"

text \<open>Each adapter has this function; their texts are the same.\<close>

definition is_url_shaped :: "string \<Rightarrow> bool" where
  "is_url_shaped s \<longleftrightarrow> contains_str s ''://'' \<and>
     (case before_str s ''://'' of
        [] \<Rightarrow> False
      | c # rest \<Rightarrow> is_ascii_alphabetic c \<and>
          list_all (\<lambda>c. is_ascii_alphanumeric c \<or> c = CHR ''+'' \<or> c = CHR ''-'' \<or> c = CHR ''.'') rest)"

text \<open>\<open>Result::ok\<close>\<close>

fun ok :: "'e + 'a \<Rightarrow> 'a option" where
  "ok (Inl e) = None"
| "ok (Inr x) = Some x"

definition literal_source :: "string \<Rightarrow> logical_name_source" where
  "literal_source value = (if is_url_shaped value then LN_NormalizedUrl else LN_NormalizedPath)"

definition literal_name :: "string \<Rightarrow> (callsite_logical_name \<times> logical_name_source) option" where
  "literal_name value = map_option (\<lambda>path. (Fs path, literal_source value)) (ok (new_fs_path_or_logical value))"

definition env_name :: "string \<Rightarrow> (callsite_logical_name \<times> logical_name_source) option" where
  "env_name key = map_option (\<lambda>ln. (Generic ln, LN_EnvKey)) (ok (new_logical_name key))"

text \<open>The call site an adapter makes of a resolved call: its import list names the resolved module only.\<close>

definition callsite_of ::
  "resolved_callsite \<Rightarrow> string \<Rightarrow> callsite_logical_name \<times> logical_name_source \<Rightarrow> state_boundary_callsite" where
  "callsite_of rc symbol ns = \<lparr>sc_source_node_uid = rc_enclosing_symbol_node_uid rc, sc_file_uid = [],
     sc_source_location = rc_source_location rc,
     sc_imports_in_file = [\<lparr>iv_module_path = rc_resolved_module rc, iv_imported_symbol = symbol, iv_import_alias = None\<rparr>],
     sc_callee = \<lparr>cp_resolved_module = Some (rc_resolved_module rc), cp_resolved_symbol = symbol\<rparr>,
     sc_logical_name = fst ns, sc_logical_name_source = snd ns\<rparr>"

definition is_memory_db :: "call_arg_payload \<Rightarrow> bool" where
  "is_memory_db payload \<longleftrightarrow> payload = StringLiteral '':memory:''"

definition adapt_resolved_callsite :: "resolved_callsite \<Rightarrow> state_boundary_callsite option" where
  "adapt_resolved_callsite rc = map_option (callsite_of rc (rc_resolved_symbol rc)) (case rc_arg0_payload rc of
     StringLiteral value \<Rightarrow> literal_name value
   | EnvKeyRead key \<Rightarrow> env_name key)"

definition classify_python_payload :: "call_arg_payload \<Rightarrow> (callsite_logical_name \<times> logical_name_source) option" where
  "classify_python_payload payload = (case payload of StringLiteral value \<Rightarrow> literal_name value | EnvKeyRead key \<Rightarrow> env_name key)"

definition normalize_open_mode_to_symbol :: "call_arg_payload option \<Rightarrow> string" where
  "normalize_open_mode_to_symbol arg1 = (case arg1 of
     Some (StringLiteral mode) \<Rightarrow>
       (let m = filter (\<lambda>c. c \<noteq> CHR ''b'') mode
        in if contains_char m (CHR ''+'') then ''open_read_write''
           else if starts_with m ''r'' \<or> m = [] then ''open_read''
           else if starts_with m ''w'' \<or> starts_with m ''a'' \<or> starts_with m ''x'' then ''open_write''
           else ''open_read'')
   | _ \<Rightarrow> ''open_read'')"

definition adapt_python_callsite :: "resolved_callsite \<Rightarrow> state_boundary_callsite option" where
  "adapt_python_callsite rc =
     (if is_memory_db (rc_arg0_payload rc) then None
      else map_option (callsite_of rc
          (if rc_resolved_module rc = ''builtins'' \<and> rc_resolved_symbol rc = ''open''
           then normalize_open_mode_to_symbol (rc_arg1_payload rc) else rc_resolved_symbol rc))
        (classify_python_payload (rc_arg0_payload rc)))"

definition encode_colons :: "string \<Rightarrow> string" where
  "encode_colons s = concat (map (\<lambda>c. if c = CHR '':'' then ''%3A'' else [c]) s)"

definition classify_java_payload :: "call_arg_payload \<Rightarrow> (callsite_logical_name \<times> logical_name_source) option" where
  "classify_java_payload payload = (case payload of
     StringLiteral value \<Rightarrow>
       if starts_with value ''jdbc:''
       then map_option (\<lambda>ln. (Generic ln, LN_NormalizedUrl)) (ok (new_logical_name (encode_colons value)))
       else literal_name value
   | EnvKeyRead key \<Rightarrow> env_name key)"

definition adapt_java_callsite :: "resolved_callsite \<Rightarrow> state_boundary_callsite option" where
  "adapt_java_callsite rc =
     map_option (callsite_of rc (rc_resolved_symbol rc)) (classify_java_payload (rc_arg0_payload rc))"

definition classify_c_payload :: "call_arg_payload \<Rightarrow> (callsite_logical_name \<times> logical_name_source) option" where
  "classify_c_payload payload = (case payload of StringLiteral value \<Rightarrow> literal_name value | EnvKeyRead key \<Rightarrow> env_name key)"

definition adapt_c_callsite :: "resolved_callsite \<Rightarrow> state_boundary_callsite option" where
  "adapt_c_callsite rc =
     (if is_memory_db (rc_arg0_payload rc) then None
      else map_option (callsite_of rc (rc_resolved_symbol rc)) (classify_c_payload (rc_arg0_payload rc)))"

definition classify_cpp_payload :: "call_arg_payload \<Rightarrow> (callsite_logical_name \<times> logical_name_source) option" where
  "classify_cpp_payload payload = (case payload of StringLiteral value \<Rightarrow> literal_name value | EnvKeyRead key \<Rightarrow> env_name key)"

definition adapt_cpp_callsite :: "resolved_callsite \<Rightarrow> state_boundary_callsite option" where
  "adapt_cpp_callsite rc =
     (if is_memory_db (rc_arg0_payload rc) then None
      else map_option (callsite_of rc (rc_resolved_symbol rc)) (classify_cpp_payload (rc_arg0_payload rc)))"

text \<open>The adapters behind the trait \<open>LanguageStateAdapter\<close>, and the registry.\<close>

record language_state_adapter =
  ad_language :: language
  ad_mechanism :: string
  ad_adapt_callsites :: "resolved_callsite list \<Rightarrow> state_boundary_callsite list"

type_synonym adapter_registry = "language \<rightharpoonup> language_state_adapter"

definition TypeScriptAdapter :: language_state_adapter where
  "TypeScriptAdapter = \<lparr>ad_language = L_Typescript, ad_mechanism = ''Node fs read/write calls'',
     ad_adapt_callsites = filter_map adapt_resolved_callsite\<rparr>"

definition PythonAdapter :: language_state_adapter where
  "PythonAdapter = \<lparr>ad_language = L_Python, ad_mechanism = ''open() and sqlite3/psycopg2 calls'',
     ad_adapt_callsites = filter_map adapt_python_callsite\<rparr>"

definition JavaAdapter :: language_state_adapter where
  "JavaAdapter = \<lparr>ad_language = L_Java, ad_mechanism = ''JDBC DriverManager.getConnection calls'',
     ad_adapt_callsites = filter_map adapt_java_callsite\<rparr>"

definition CAdapter :: language_state_adapter where
  "CAdapter = \<lparr>ad_language = L_C, ad_mechanism = ''fopen/open/sqlite3 calls'',
     ad_adapt_callsites = filter_map adapt_c_callsite\<rparr>"

definition CppAdapter :: language_state_adapter where
  "CppAdapter = \<lparr>ad_language = L_Cpp, ad_mechanism = ''fopen/open/sqlite3 and std::fstream calls'',
     ad_adapt_callsites = filter_map adapt_cpp_callsite\<rparr>"

definition register :: "language_state_adapter \<Rightarrow> adapter_registry \<Rightarrow> adapter_registry" where
  "register adapter registry = registry(ad_language adapter \<mapsto> adapter)"

definition default_registry :: adapter_registry where
  "default_registry = fold register [TypeScriptAdapter, PythonAdapter, JavaAdapter, CAdapter, CppAdapter] Map.empty"

section \<open>The extraction hook\<close>

datatype language_classification = Supported language | Unsupported language | Unknown_Language

definition classify_language :: "string option \<Rightarrow> language_classification" where
  "classify_language lang = (case lang of
     None \<Rightarrow> Unknown_Language
   | Some l \<Rightarrow>
       if l \<in> set [''typescript'', ''tsx'', ''javascript'', ''jsx''] then Supported L_Typescript
       else if l = ''python'' then Supported L_Python
       else if l = ''java'' then Supported L_Java
       else if l = ''c'' then Supported L_C
       else if l = ''cpp'' then Supported L_Cpp
       else if l = ''rust'' then Unsupported L_Rust
       else Unknown_Language)"

definition STATE_EXTRACTOR_NAME :: string where
  "STATE_EXTRACTOR_NAME = ''state-extractor:0.1.0''"

datatype hook_message =
    InvalidRepoUid string validation_error
  | MissingAdapter language
  | EmitFailed emit_error

record extraction_hook_diagnostic =
  hd_code :: string
  hd_message :: hook_message
  hd_file_uid :: "string option"
  hd_file_path :: "string option"

record extraction_extras =
  ex_nodes :: "extracted_node list"
  ex_edges :: "extracted_edge list"
  ex_diagnostics :: "extraction_hook_diagnostic list"

record state_boundary_hook =
  hk_repo_uid :: "repo_uid option"
  hk_table :: "binding_entry list"
  hk_registry :: adapter_registry
  hk_emitters :: "language \<rightharpoonup> state_boundary_emitter"
  hk_snapshot_uid :: "string option"
  hk_diagnostics :: "extraction_hook_diagnostic list"

definition hook_new :: "binding_entry list \<Rightarrow> string \<Rightarrow> state_boundary_hook" where
  "hook_new table repo =
     (let (validated, diagnostics) = (case new_repo_uid repo of
            Inr uid \<Rightarrow> (Some uid, [])
          | Inl e \<Rightarrow> (None, [\<lparr>hd_code = ''state_boundary_invalid_repo_uid'', hd_message = InvalidRepoUid repo e,
              hd_file_uid = None, hd_file_path = None\<rparr>]))
      in \<lparr>hk_repo_uid = validated, hk_table = table, hk_registry = default_registry, hk_emitters = Map.empty,
          hk_snapshot_uid = None, hk_diagnostics = diagnostics\<rparr>)"

text \<open>The emitter of a language, made at its first use, and the hook that holds it; \<open>None\<close> without a repository uid.\<close>

definition get_or_create_emitter ::
  "string \<Rightarrow> language \<Rightarrow> state_boundary_hook \<Rightarrow> (state_boundary_emitter \<times> state_boundary_hook) option" where
  "get_or_create_emitter snapshot_uid lang hook = (case hk_repo_uid hook of
     None \<Rightarrow> None
   | Some repo \<Rightarrow>
       (let hook = (if hk_snapshot_uid hook = None then hook\<lparr>hk_snapshot_uid := Some snapshot_uid\<rparr> else hook)
        in case hk_emitters hook lang of
             Some em \<Rightarrow> Some (em, hook)
           | None \<Rightarrow>
               (let em = emitter_new (hk_table hook) \<lparr>ec_repo_uid = repo, ec_snapshot_uid = snapshot_uid, ec_language = lang,
                      ec_extractor_name = STATE_EXTRACTOR_NAME\<rparr>
                in Some (em, hook\<lparr>hk_emitters := (hk_emitters hook)(lang \<mapsto> em)\<rparr>))))"

definition emit_diagnostic :: "string \<Rightarrow> string \<Rightarrow> emit_error \<Rightarrow> extraction_hook_diagnostic" where
  "emit_diagnostic file_uid file_path e = \<lparr>hd_code = ''state_boundary_emit_error'', hd_message = EmitFailed e,
     hd_file_uid = Some file_uid, hd_file_path = Some file_path\<rparr>"

text \<open>The loop over the call sites of a file: the emitter and the errors collected.\<close>

fun feed_sites ::
  "uuid_source \<Rightarrow> evidence_json \<Rightarrow> (emit_error \<Rightarrow> extraction_hook_diagnostic) \<Rightarrow> state_boundary_callsite list \<Rightarrow>
   state_boundary_emitter \<Rightarrow> (state_boundary_emitter \<times> extraction_hook_diagnostic list) outcome" where
  "feed_sites uuid to_json diag [] em = Val (em, [])"
| "feed_sites uuid to_json diag (site # sites) em = bind_outcome (emit_for_callsite uuid to_json site em) (\<lambda>(res, em).
     bind_outcome (feed_sites uuid to_json diag sites em) (\<lambda>(em, errors).
       Val (em, (case res of Inl e \<Rightarrow> diag e # errors | Inr _ \<Rightarrow> errors))))"

definition on_extraction_result ::
  "uuid_source \<Rightarrow> evidence_json \<Rightarrow> string \<Rightarrow> string \<Rightarrow> string \<Rightarrow> resolved_callsite list \<Rightarrow> state_boundary_hook \<Rightarrow>
   state_boundary_hook outcome" where
  "on_extraction_result uuid to_json snapshot_uid file_uid file_path resolved_callsites hook =
     (if resolved_callsites = [] then Val hook
      else case classify_language (detect_language file_path) of
        Unsupported _ \<Rightarrow> Val hook
      | Unknown_Language \<Rightarrow> Val hook
      | Supported lang \<Rightarrow>
          (case hk_registry hook lang of
             None \<Rightarrow> Val (hook\<lparr>hk_diagnostics := hk_diagnostics hook @ [\<lparr>hd_code = ''state_boundary_missing_adapter'',
               hd_message = MissingAdapter lang, hd_file_uid = Some file_uid, hd_file_path = Some file_path\<rparr>]\<rparr>)
           | Some adapter \<Rightarrow>
               (let callsites = ad_adapt_callsites adapter resolved_callsites
                in if callsites = [] then Val hook
                   else case get_or_create_emitter snapshot_uid lang hook of
                     None \<Rightarrow> Val hook
                   | Some (em, hook) \<Rightarrow>
                       bind_outcome (feed_sites uuid to_json (emit_diagnostic file_uid file_path) callsites em) (\<lambda>(em, errors).
                         Val (hook\<lparr>hk_emitters := (hk_emitters hook)(lang \<mapsto> em),
                                   hk_diagnostics := hk_diagnostics hook @ errors\<rparr>)))))"

text \<open>\<open>retain\<close> with a set of the keys seen.\<close>

fun retain_first :: "string set \<Rightarrow> extracted_node list \<Rightarrow> extracted_node list" where
  "retain_first seen [] = []"
| "retain_first seen (n # ns) =
     (if xn_stable_key n \<in> seen then retain_first seen ns
      else n # retain_first (insert (xn_stable_key n) seen) ns)"

text \<open>\<open>order\<close> is the order in which the map of emitters is iterated.\<close>

definition drain_snapshot_extras ::
  "language list \<Rightarrow> state_boundary_hook \<Rightarrow> extraction_extras \<times> state_boundary_hook" where
  "drain_snapshot_extras order hook =
     (let drained = filter_map (\<lambda>l. map_option drain (hk_emitters hook l)) order
      in (\<lparr>ex_nodes = retain_first {} (concat (map ef_nodes drained)), ex_edges = concat (map ef_edges drained),
           ex_diagnostics = hk_diagnostics hook\<rparr>,
          hook\<lparr>hk_emitters := Map.empty, hk_diagnostics := []\<rparr>))"
text \<open>The driver of \<open>languages/typescript.rs\<close> over a batch of calls: it stops at the first error.\<close>

fun emit_from_resolved_callsites ::
  "uuid_source \<Rightarrow> evidence_json \<Rightarrow> nat \<Rightarrow> resolved_callsite list \<Rightarrow> state_boundary_emitter \<Rightarrow>
   ((emit_error + nat) \<times> state_boundary_emitter) outcome" where
  "emit_from_resolved_callsites uuid to_json emitted [] em = Val (Inr emitted, em)"
| "emit_from_resolved_callsites uuid to_json emitted (rc # rcs) em = (case adapt_resolved_callsite rc of
     None \<Rightarrow> emit_from_resolved_callsites uuid to_json emitted rcs em
   | Some site \<Rightarrow> bind_outcome (emit_for_callsite uuid to_json site em) (\<lambda>(res, em). case res of
       Inl e \<Rightarrow> Val (Inl e, em)
     | Inr n \<Rightarrow> emit_from_resolved_callsites uuid to_json (emitted + n) rcs em))"

section \<open>What a call site contributes\<close>

text \<open>The types of the edges of a binding, and the edges (source, target, type) and the errors of a call site.\<close>

definition edge_types :: "direction \<Rightarrow> indexer_edge_type list" where
  "edge_types d = (case d of
     D_Read \<Rightarrow> [ET_Reads] | D_Write \<Rightarrow> [ET_Writes] | D_ReadWrite \<Rightarrow> [ET_Reads, ET_Writes] | D_Unknown \<Rightarrow> [ET_Accesses])"

definition edge_row :: "extracted_edge \<Rightarrow> string \<times> string \<times> indexer_edge_type" where
  "edge_row e = (xe_source_node_uid e, xe_target_key e, xe_edge_type e)"

definition site_target ::
  "binding_entry list \<Rightarrow> repo_uid \<Rightarrow> language \<Rightarrow> state_boundary_callsite \<Rightarrow> (emit_error + direction \<times> string) option" where
  "site_target table r l site = map_option (\<lambda>m.
     case build_resource_stable_key r (mr_binding m) (sc_logical_name site) of
       Inl e \<Rightarrow> Inl e
     | Inr k \<Rightarrow> Inr (be_direction (mr_binding m), stable_key_str k))
   (match_form_a (sc_imports_in_file site) (sc_callee site) table l)"

definition site_rows ::
  "binding_entry list \<Rightarrow> repo_uid \<Rightarrow> language \<Rightarrow> state_boundary_callsite \<Rightarrow> (string \<times> string \<times> indexer_edge_type) list" where
  "site_rows table r l site = (case site_target table r l site of
     Some (Inr (d, k)) \<Rightarrow> map (\<lambda>t. (sc_source_node_uid site, k, t)) (edge_types d)
   | _ \<Rightarrow> [])"

definition site_errors :: "binding_entry list \<Rightarrow> repo_uid \<Rightarrow> language \<Rightarrow> state_boundary_callsite \<Rightarrow> emit_error list" where
  "site_errors table r l site = (case site_target table r l site of Some (Inl e) \<Rightarrow> [e] | _ \<Rightarrow> [])"

text \<open>The invariant of an emitter: its nodes are the targets of its edges, each once, under their own keys.\<close>

definition emitter_ok :: "state_boundary_emitter \<Rightarrow> bool" where
  "emitter_ok em \<longleftrightarrow> dom (em_resource_nodes em) = set (em_resource_insertion_order em) \<and>
     distinct (em_resource_insertion_order em) \<and>
     (\<forall>k n. em_resource_nodes em k = Some n \<longrightarrow> xn_stable_key n = k) \<and>
     xe_target_key ` set (em_edges em) = set (em_resource_insertion_order em)"

lemma emitter_new_ok: "emitter_ok (emitter_new table ctx)"
  by (simp add: emitter_ok_def emitter_new_def)

text \<open>What a step of the emitter leaves alone.\<close>

definition same_setup :: "state_boundary_emitter \<Rightarrow> state_boundary_emitter \<Rightarrow> bool" where
  "same_setup em em' \<longleftrightarrow> em_table em' = em_table em \<and> em_context em' = em_context em"

definition nodes_ready :: "string \<Rightarrow> state_boundary_emitter \<Rightarrow> bool" where
  "nodes_ready k em \<longleftrightarrow> dom (em_resource_nodes em) = set (em_resource_insertion_order em) \<and>
     distinct (em_resource_insertion_order em) \<and>
     (\<forall>k n. em_resource_nodes em k = Some n \<longrightarrow> xn_stable_key n = k) \<and>
     insert k (xe_target_key ` set (em_edges em)) = set (em_resource_insertion_order em)"

lemma ensure_ready:
  assumes "emitter_ok em"
  shows "\<exists>em'. ensure_resource_node uuid key b n src em = (stable_key_str key, em') \<and> nodes_ready (stable_key_str key) em' \<and>
    same_setup em em' \<and> em_edges em' = em_edges em"
proof -
  have "em_resource_nodes em (stable_key_str key) = None \<longleftrightarrow> stable_key_str key \<notin> set (em_resource_insertion_order em)"
    using assms by (metis domIff emitter_ok_def)
  then show ?thesis
    using assms
    by (auto simp: ensure_resource_node_def emitter_ok_def nodes_ready_def same_setup_def build_resource_node_def split_beta
        Let_def)
qed

lemma emit_edge_ready:
  assumes "\<forall>e. to_json e \<noteq> None" and "nodes_ready k em"
  shows "\<exists>em'. emit_edge uuid to_json site k t res d key bas notes em = Val em' \<and> emitter_ok em' \<and> nodes_ready k em' \<and>
    same_setup em em' \<and> map edge_row (em_edges em') = map edge_row (em_edges em) @ [(sc_source_node_uid site, k, t)]"
proof -
  let ?ev = "\<lparr>sv_state_boundary_version = STATE_BOUNDARY_EVIDENCE_VERSION, sv_basis = bas, sv_binding_key = key,
     sv_direction = d, sv_logical_name_source = sc_logical_name_source site, sv_binding_notes = notes\<rparr>"
  obtain md where "to_json ?ev = Some md" using assms(1) by blast
  then show ?thesis
    using assms(2) by (auto simp: emit_edge_def nodes_ready_def emitter_ok_def same_setup_def edge_row_def)
qed

lemma same_setup_trans: "same_setup a b \<Longrightarrow> same_setup b c \<Longrightarrow> same_setup a c"
  by (simp add: same_setup_def)

lemma emit_for_callsite_spec:
  assumes json: "\<forall>e. to_json e \<noteq> None" and em: "emitter_ok em" "em_table em = table" "ec_repo_uid (em_context em) = r"
    "ec_language (em_context em) = l"
  shows "\<exists>res em'. emit_for_callsite uuid to_json site em = Val (res, em') \<and> emitter_ok em' \<and> same_setup em em' \<and>
    map edge_row (em_edges em') = map edge_row (em_edges em) @ site_rows table r l site \<and>
    (case res of Inl e \<Rightarrow> [e] | Inr _ \<Rightarrow> []) = site_errors table r l site \<and>
    (\<forall>n. res = Inr n \<longrightarrow> n = length (site_rows table r l site))"
proof (cases "match_form_a (sc_imports_in_file site) (sc_callee site) table l")
  case None
  then show ?thesis
    using em by (simp add: emit_for_callsite_def site_rows_def site_errors_def site_target_def same_setup_def)
next
  case (Some m)
  show ?thesis
  proof (cases "build_resource_stable_key r (mr_binding m) (sc_logical_name site)")
    case (Inl e)
    then show ?thesis
      using em Some by (simp add: emit_for_callsite_def site_rows_def site_errors_def site_target_def same_setup_def)
  next
    case (Inr key)
    let ?k = "stable_key_str key" and ?res = "resolution_for_logical_source (sc_logical_name_source site)"
    obtain e1 where e1: "ensure_resource_node uuid key (mr_binding m) (sc_logical_name site) (sc_logical_name_source site) em =
        (?k, e1)" "nodes_ready ?k e1" "same_setup em e1" "em_edges e1 = em_edges em"
      using ensure_ready [OF em(1)] by blast
    have edge: "\<exists>e2. emit_edge uuid to_json site ?k t ?res d (mr_binding_key m) (be_basis (mr_binding m))
        (be_notes (mr_binding m)) e = Val e2 \<and> emitter_ok e2 \<and> nodes_ready ?k e2 \<and> same_setup e e2 \<and>
        map edge_row (em_edges e2) = map edge_row (em_edges e) @ [(sc_source_node_uid site, ?k, t)]"
      if "nodes_ready ?k e" for t d e
      by (rule emit_edge_ready [OF json that])
    have target: "site_target table r l site = Some (Inr (be_direction (mr_binding m), ?k))"
      using Some Inr by (simp add: site_target_def)
    note defs = emit_for_callsite_def site_rows_def site_errors_def target edge_types_def Some Inr em(2-4) e1(1)
    show ?thesis
    proof (cases "be_direction (mr_binding m)")
      case D_Read
      then show ?thesis using edge [OF e1(2), of ET_Reads D_Read] e1(3,4) same_setup_trans by (auto simp: defs)
    next
      case D_Write
      then show ?thesis using edge [OF e1(2), of ET_Writes D_Write] e1(3,4) same_setup_trans by (auto simp: defs)
    next
      case D_Unknown
      then show ?thesis using edge [OF e1(2), of ET_Accesses D_Unknown] e1(3,4) same_setup_trans by (auto simp: defs)
    next
      case D_ReadWrite
      obtain e2 where e2: "emit_edge uuid to_json site ?k ET_Reads ?res D_Read (mr_binding_key m) (be_basis (mr_binding m))
          (be_notes (mr_binding m)) e1 = Val e2" "nodes_ready ?k e2" "same_setup e1 e2"
        "map edge_row (em_edges e2) = map edge_row (em_edges e1) @ [(sc_source_node_uid site, ?k, ET_Reads)]"
        using edge [OF e1(2)] by blast
      have s: "same_setup em e2" by (rule same_setup_trans [OF e1(3) e2(3)])
      then show ?thesis
        using D_ReadWrite edge [OF e2(2), of ET_Writes D_Write] e2 e1(4) same_setup_trans [OF s] by (auto simp: defs)
    qed
  qed
qed

lemma feed_sites_spec:
  assumes "\<forall>e. to_json e \<noteq> None"
  shows "emitter_ok em \<Longrightarrow> em_table em = table \<Longrightarrow> ec_repo_uid (em_context em) = r \<Longrightarrow> ec_language (em_context em) = l \<Longrightarrow>
    \<exists>em'. feed_sites uuid to_json diag sites em = Val (em', map diag (concat (map (site_errors table r l) sites))) \<and>
      emitter_ok em' \<and> same_setup em em' \<and>
      map edge_row (em_edges em') = map edge_row (em_edges em) @ concat (map (site_rows table r l) sites)"
proof (induction sites arbitrary: em)
  case Nil
  then show ?case by (simp add: same_setup_def)
next
  case (Cons site sites)
  obtain res e1 where e1: "emit_for_callsite uuid to_json site em = Val (res, e1)" "emitter_ok e1" "same_setup em e1"
    "map edge_row (em_edges e1) = map edge_row (em_edges em) @ site_rows table r l site"
    "(case res of Inl e \<Rightarrow> [e] | Inr _ \<Rightarrow> []) = site_errors table r l site"
    using emit_for_callsite_spec [OF assms Cons.prems] by blast
  then have "em_table e1 = table" "ec_repo_uid (em_context e1) = r" "ec_language (em_context e1) = l"
    using Cons.prems by (simp_all add: same_setup_def)
  from Cons.IH [OF e1(2) this] obtain e2 where
    e2: "feed_sites uuid to_json diag sites e1 = Val (e2, map diag (concat (map (site_errors table r l) sites)))"
    "emitter_ok e2" "same_setup e1 e2"
    "map edge_row (em_edges e2) = map edge_row (em_edges e1) @ concat (map (site_rows table r l) sites)" by blast
  have "(case res of Inl e \<Rightarrow> diag e # errors | Inr _ \<Rightarrow> errors) = map diag (site_errors table r l site) @ errors" for errors
    using e1(5) [symmetric] by (simp split: sum.splits)
  with e1 e2 same_setup_trans [OF e1(3) e2(3)] show ?case by simp
qed

end
