(* ===== verification/State_Graph.thy ===== *)
theory State_Graph
  imports State_Emitter "HOL-Library.Multiset"
begin

text \<open>
  What the state-boundary hook contributes to a snapshot: the nodes and edges of \<open>State_Emitter\<close> are exactly those
  of the call sites the binding table matches, and the graph they form is closed.
\<close>

section \<open>A run over the files of a snapshot\<close>

record source_file =
  sf_uid :: string
  sf_path :: string
  sf_callsites :: "resolved_callsite list"

fun run_hook ::
  "uuid_source \<Rightarrow> evidence_json \<Rightarrow> string \<Rightarrow> source_file list \<Rightarrow> state_boundary_hook \<Rightarrow> state_boundary_hook outcome" where
  "run_hook uuid to_json snapshot [] hook = Val hook"
| "run_hook uuid to_json snapshot (f # fs) hook =
     bind_outcome (on_extraction_result uuid to_json snapshot (sf_uid f) (sf_path f) (sf_callsites f) hook)
       (run_hook uuid to_json snapshot fs)"

text \<open>The language of a file with an adapter, and the call sites its adapter makes.\<close>

definition file_language :: "source_file \<Rightarrow> language option" where
  "file_language f = (case classify_language (detect_language (sf_path f)) of Supported l \<Rightarrow> Some l | _ \<Rightarrow> None)"

definition adapter_of :: "language \<Rightarrow> resolved_callsite \<Rightarrow> state_boundary_callsite option" where
  "adapter_of l = (case l of
     L_Typescript \<Rightarrow> adapt_resolved_callsite | L_Python \<Rightarrow> adapt_python_callsite | L_Java \<Rightarrow> adapt_java_callsite
   | L_C \<Rightarrow> adapt_c_callsite | L_Cpp \<Rightarrow> adapt_cpp_callsite | L_Rust \<Rightarrow> (\<lambda>_. None))"

definition file_sites :: "source_file \<Rightarrow> state_boundary_callsite list" where
  "file_sites f = (case file_language f of None \<Rightarrow> [] | Some l \<Rightarrow> filter_map (adapter_of l) (sf_callsites f))"

definition file_rows :: "binding_entry list \<Rightarrow> repo_uid \<Rightarrow> source_file \<Rightarrow> (string \<times> string \<times> indexer_edge_type) list" where
  "file_rows table r f = (case file_language f of
     None \<Rightarrow> [] | Some l \<Rightarrow> concat (map (site_rows table r l) (file_sites f)))"

definition file_errors :: "binding_entry list \<Rightarrow> repo_uid \<Rightarrow> source_file \<Rightarrow> extraction_hook_diagnostic list" where
  "file_errors table r f = (case file_language f of
     None \<Rightarrow> []
   | Some l \<Rightarrow> map (emit_diagnostic (sf_uid f) (sf_path f)) (concat (map (site_errors table r l) (file_sites f))))"

lemma supported_adapter:
  assumes "classify_language x = Supported l"
  shows "\<exists>a. default_registry l = Some a \<and> ad_adapt_callsites a = filter_map (adapter_of l)"
  using assms
  by (auto simp: classify_language_def default_registry_def register_def adapter_of_def TypeScriptAdapter_def
      PythonAdapter_def JavaAdapter_def CAdapter_def CppAdapter_def split: option.splits if_splits)

section \<open>Invariant of the hook\<close>

text \<open>The edges so far of a language.\<close>

definition rows_of :: "state_boundary_hook \<Rightarrow> language \<Rightarrow> (string \<times> string \<times> indexer_edge_type) list" where
  "rows_of hook l = (case hk_emitters hook l of None \<Rightarrow> [] | Some em \<Rightarrow> map edge_row (em_edges em))"

definition hook_ok :: "binding_entry list \<Rightarrow> repo_uid \<Rightarrow> state_boundary_hook \<Rightarrow> bool" where
  "hook_ok table r hook \<longleftrightarrow> hk_repo_uid hook = Some r \<and> hk_table hook = table \<and> hk_registry hook = default_registry \<and>
     (\<forall>l em. hk_emitters hook l = Some em \<longrightarrow> emitter_ok em \<and> em_table em = table \<and>
        ec_repo_uid (em_context em) = r \<and> ec_language (em_context em) = l)"

lemma emitter_new_sel [simp]:
  "em_table (emitter_new table ctx) = table" "em_context (emitter_new table ctx) = ctx"
  "em_edges (emitter_new table ctx) = []"
  by (simp_all add: emitter_new_def)

lemma get_or_create_ok:
  assumes "hook_ok table r hook"
  shows "\<exists>em hook'. get_or_create_emitter snapshot l hook = Some (em, hook') \<and> hook_ok table r hook' \<and>
    hk_emitters hook' l = Some em \<and> rows_of hook' = rows_of hook \<and> hk_diagnostics hook' = hk_diagnostics hook"
  using assms
  by (cases "hk_emitters hook l")
    (auto simp: get_or_create_emitter_def hook_ok_def Let_def emitter_new_ok rows_of_def fun_eq_iff split: option.splits)

lemma hook_step:
  assumes json: "\<forall>e. to_json e \<noteq> None" and ok: "hook_ok table r hook"
  shows "\<exists>hook'. on_extraction_result uuid to_json snapshot (sf_uid f) (sf_path f) (sf_callsites f) hook = Val hook' \<and>
    hook_ok table r hook' \<and>
    (\<forall>l. rows_of hook' l = rows_of hook l @ (if file_language f = Some l then file_rows table r f else [])) \<and>
    hk_diagnostics hook' = hk_diagnostics hook @ file_errors table r f"
proof (cases "sf_callsites f = [] \<or> file_language f = None")
  case True
  then show ?thesis
    using ok by (auto simp: on_extraction_result_def file_language_def file_rows_def file_errors_def file_sites_def
        split: language_classification.splits option.splits)
next
  case False
  then obtain l where l: "file_language f = Some l" and calls: "sf_callsites f \<noteq> []" by blast
  then have c: "classify_language (detect_language (sf_path f)) = Supported l"
    by (auto simp: file_language_def split: language_classification.splits)
  obtain a where a: "hk_registry hook l = Some a" "ad_adapt_callsites a = filter_map (adapter_of l)"
    using supported_adapter [OF c] ok by (auto simp: hook_ok_def)
  have sites: "ad_adapt_callsites a (sf_callsites f) = file_sites f" using a l by (simp add: file_sites_def)
  show ?thesis
  proof (cases "file_sites f = []")
    case True
    then show ?thesis
      using ok l c a calls sites by (simp add: on_extraction_result_def file_rows_def file_errors_def Let_def)
  next
    case False
    obtain em h where h: "get_or_create_emitter snapshot l hook = Some (em, h)" "hook_ok table r h"
      "hk_emitters h l = Some em" "rows_of h = rows_of hook" "hk_diagnostics h = hk_diagnostics hook"
      using get_or_create_ok [OF ok] by blast
    then have "emitter_ok em" "em_table em = table" "ec_repo_uid (em_context em) = r" "ec_language (em_context em) = l"
      by (simp_all add: hook_ok_def)
    from feed_sites_spec [OF json this] obtain em' where
      f: "feed_sites uuid to_json (emit_diagnostic (sf_uid f) (sf_path f)) (file_sites f) em =
          Val (em', file_errors table r f)" "emitter_ok em'" "same_setup em em'"
      "map edge_row (em_edges em') = map edge_row (em_edges em) @ file_rows table r f"
      unfolding file_errors_def file_rows_def l option.case by blast
    let ?h = "h\<lparr>hk_emitters := (hk_emitters h)(l \<mapsto> em'), hk_diagnostics := hk_diagnostics h @ file_errors table r f\<rparr>"
    have "on_extraction_result uuid to_json snapshot (sf_uid f) (sf_path f) (sf_callsites f) hook = Val ?h"
      using calls c a(1) sites False h(1) f(1) by (simp add: on_extraction_result_def Let_def)
    moreover have "hook_ok table r ?h"
      using h(2,3) f(2,3) by (auto simp: hook_ok_def same_setup_def)
    moreover have "rows_of ?h l' = rows_of hook l' @ (if file_language f = Some l' then file_rows table r f else [])" for l'
      using h(3) f(4) l by (auto simp: h(4) [symmetric] rows_of_def)
    ultimately show ?thesis using h(5) by auto
  qed
qed

lemma run_hook_ok:
  assumes "\<forall>e. to_json e \<noteq> None"
  shows "hook_ok table r hook \<Longrightarrow> \<exists>hook'. run_hook uuid to_json snapshot files hook = Val hook' \<and> hook_ok table r hook' \<and>
    (\<forall>l. rows_of hook' l = rows_of hook l @
       concat (map (\<lambda>f. if file_language f = Some l then file_rows table r f else []) files)) \<and>
    hk_diagnostics hook' = hk_diagnostics hook @ concat (map (file_errors table r) files)"
proof (induction files arbitrary: hook)
  case (Cons f files)
  obtain h where h: "on_extraction_result uuid to_json snapshot (sf_uid f) (sf_path f) (sf_callsites f) hook = Val h"
    "hook_ok table r h"
    "\<forall>l. rows_of h l = rows_of hook l @ (if file_language f = Some l then file_rows table r f else [])"
    "hk_diagnostics h = hk_diagnostics hook @ file_errors table r f"
    using hook_step [OF assms Cons.prems] by blast
  from Cons.IH [OF h(2)] obtain h' where "run_hook uuid to_json snapshot files h = Val h'" "hook_ok table r h'"
    "\<forall>l. rows_of h' l = rows_of h l @
       concat (map (\<lambda>f. if file_language f = Some l then file_rows table r f else []) files)"
    "hk_diagnostics h' = hk_diagnostics h @ concat (map (file_errors table r) files)" by blast
  with h show ?case by simp
qed simp

lemma run_hook_invalid:
  assumes "hk_repo_uid hook = None" and "hk_registry hook = default_registry"
  shows "run_hook uuid to_json snapshot files hook = Val hook"
proof (induction files)
  case (Cons f files)
  have "on_extraction_result uuid to_json snapshot (sf_uid f) (sf_path f) (sf_callsites f) hook = Val hook"
    using assms supported_adapter [of "detect_language (sf_path f)"]
    by (fastforce simp: on_extraction_result_def get_or_create_emitter_def Let_def split: language_classification.splits)
  with Cons show ?case by simp
qed simp

section \<open>What the drain hands over\<close>

lemma drain_nodes_keys:
  assumes "distinct ks" and "set ks \<subseteq> dom nodes" and "\<forall>k n. nodes k = Some n \<longrightarrow> xn_stable_key n = k"
  shows "map xn_stable_key (drain_nodes nodes ks) = ks"
  using assms
proof (induction ks arbitrary: nodes)
  case (Cons k ks)
  then obtain n where n: "nodes k = Some n" by auto
  have "map xn_stable_key (drain_nodes (nodes(k := None)) ks) = ks"
    using Cons.prems by (intro Cons.IH) (auto split: if_splits)
  with n Cons.prems(3) show ?case by simp
qed simp

lemma drain_keys:
  assumes "emitter_ok em"
  shows "map xn_stable_key (ef_nodes (drain em)) = em_resource_insertion_order em"
    and "set (map xn_stable_key (ef_nodes (drain em))) = xe_target_key ` set (em_edges em)"
  using assms drain_nodes_keys [of "em_resource_insertion_order em" "em_resource_nodes em"]
  by (simp_all add: drain_def emitter_ok_def del: set_map)

lemma retain_first_keys:
  "distinct (map xn_stable_key (retain_first seen ns))"
  "xn_stable_key ` set (retain_first seen ns) = xn_stable_key ` set ns - seen"
  by (induction seen ns rule: retain_first.induct) auto

text \<open>Rows sorted into their languages are the rows.\<close>

lemma mset_by_language:
  assumes "distinct order" and "\<forall>x \<in> set xs. \<forall>l. key x = Some l \<longrightarrow> g x = [] \<or> l \<in> set order" and "\<forall>x. key x = None \<longrightarrow> g x = []"
  shows "mset (concat (map (\<lambda>l. concat (map (\<lambda>x. if key x = Some l then g x else []) xs)) order)) =
    mset (concat (map g xs))"
  using assms(2)
proof (induction xs)
  case (Cons x xs)
  have one: "(\<Sum>l\<leftarrow>order. mset (if key x = Some l then g x else [])) = mset (g x)"
  proof (cases "g x = []")
    case False
    then obtain k where Some: "key x = Some k" using assms(3) by blast
    then have "k \<in> set order" using Cons.prems False by simp
    then have "(\<Sum>l\<leftarrow>order. if k = l then mset (g x) else {#}) = mset (g x)"
      using assms(1) by (simp add: sum_list_distinct_conv_sum_set)
    with Some show ?thesis by (simp add: if_distrib cong: if_cong)
  qed (simp cong: if_cong)
  show ?case using Cons one by (simp add: mset_concat comp_def sum_list_addf)
qed simp

section \<open>The state graph of a snapshot\<close>

text \<open>What each emitter hands over, in the order of the iteration.\<close>

definition drained_facts :: "language list \<Rightarrow> state_boundary_hook \<Rightarrow> emitted_facts list" where
  "drained_facts order hook = filter_map (\<lambda>l. map_option drain (hk_emitters hook l)) order"

lemma drained_sel:
  "ex_nodes (fst (drain_snapshot_extras order hook)) = retain_first {} (concat (map ef_nodes (drained_facts order hook)))"
  "ex_edges (fst (drain_snapshot_extras order hook)) = concat (map ef_edges (drained_facts order hook))"
  "ex_diagnostics (fst (drain_snapshot_extras order hook)) = hk_diagnostics hook"
  by (simp_all add: drain_snapshot_extras_def drained_facts_def Let_def)

lemma drained_rows:
  assumes "enumerates order (hk_emitters hook)"
  shows "map edge_row (ex_edges (fst (drain_snapshot_extras order hook))) = concat (map (rows_of hook) order)"
proof -
  have "map edge_row (concat (map ef_edges (drained_facts ls hook))) = concat (map (rows_of hook) ls)"
    if "set ls \<subseteq> dom (hk_emitters hook)" for ls
    using that by (induction ls) (auto simp: rows_of_def drain_def drained_facts_def)
  with assms show ?thesis by (simp add: drained_sel enumerates_def)
qed

lemma drained_keys:
  assumes "hook_ok table r hook"
  shows "xn_stable_key ` set (ex_nodes (fst (drain_snapshot_extras order hook))) =
    xe_target_key ` set (ex_edges (fst (drain_snapshot_extras order hook)))"
proof -
  have "xn_stable_key ` set (concat (map ef_nodes (drained_facts order hook))) =
      xe_target_key ` set (concat (map ef_edges (drained_facts order hook)))"
  proof (induction order)
    case (Cons l order)
    have "xn_stable_key ` set (ef_nodes (drain em)) = xe_target_key ` set (ef_edges (drain em))"
      if "hk_emitters hook l = Some em" for em
      using drain_keys(2) [of em] that assms by (auto simp: hook_ok_def drain_def)
    with Cons show ?case
      by (cases "hk_emitters hook l") (simp_all add: drained_facts_def image_Un)
  qed (simp add: drained_facts_def)
  then show ?thesis by (simp add: drained_sel retain_first_keys)
qed

text \<open>
  C40. Where evidence serialises, a run of the hook over the files of a snapshot never panics, and whatever the
  iteration order of its map of emitters, what it drains is a closed graph that reports every matched call site: no two
  resource nodes share a stable key, the keys of the nodes are exactly the targets of the edges, and the edges are, as
  a multiset, those of the call sites that the binding table matches, each once per direction of its binding. The
  diagnostics are the errors of the call sites in file order. A repository uid that does not validate yields no nodes and
  no edges, and one diagnostic that says so.
\<close>

theorem state_graph_exact:
  assumes json: "\<forall>e. to_json e \<noteq> None"
  shows "\<exists>hook. run_hook uuid to_json snapshot files (hook_new table repo) = Val hook \<and>
    (\<forall>order. enumerates order (hk_emitters hook) \<longrightarrow>
      (let extras = fst (drain_snapshot_extras order hook)
       in distinct (map xn_stable_key (ex_nodes extras)) \<and>
          xn_stable_key ` set (ex_nodes extras) = xe_target_key ` set (ex_edges extras) \<and>
          (case new_repo_uid repo of
             Inr r \<Rightarrow> mset (map edge_row (ex_edges extras)) = mset (concat (map (file_rows table r) files)) \<and>
                ex_diagnostics extras = concat (map (file_errors table r) files)
           | Inl e \<Rightarrow> ex_edges extras = [] \<and> map hd_message (ex_diagnostics extras) = [InvalidRepoUid repo e])))"
proof (cases "new_repo_uid repo")
  case (Inl e)
  then have new: "hk_repo_uid (hook_new table repo) = None" "hk_registry (hook_new table repo) = default_registry"
    "hk_emitters (hook_new table repo) = Map.empty"
    "map hd_message (hk_diagnostics (hook_new table repo)) = [InvalidRepoUid repo e]"
    by (simp_all add: hook_new_def)
  show ?thesis
    using run_hook_invalid [OF new(1,2)] new(3,4) Inl by (simp add: enumerates_def drained_sel drained_facts_def)
next
  case (Inr r)
  have new: "hook_ok table r (hook_new table repo)" "\<And>l. rows_of (hook_new table repo) l = []"
    "hk_diagnostics (hook_new table repo) = []"
    using Inr by (simp_all add: hook_ok_def hook_new_def rows_of_def)
  from run_hook_ok [OF json new(1), of uuid snapshot files] obtain hook where run: "run_hook uuid to_json snapshot files (hook_new table repo) = Val hook"
    and ok: "hook_ok table r hook"
    and rows: "\<And>l. rows_of hook l = concat (map (\<lambda>f. if file_language f = Some l then file_rows table r f else []) files)"
    and diag: "hk_diagnostics hook = concat (map (file_errors table r) files)"
    unfolding new(2,3) append_Nil by blast
  have "mset (map edge_row (ex_edges (fst (drain_snapshot_extras order hook)))) = mset (concat (map (file_rows table r) files))"
    if en: "enumerates order (hk_emitters hook)" for order
  proof -
    have "file_rows table r f = [] \<or> l \<in> set order" if "f \<in> set files" "file_language f = Some l" for f l
      using that rows [of l] enumerates_mem [OF en, of l] by (auto simp: rows_of_def split: option.splits)
    moreover have "rows_of hook = (\<lambda>l. concat (map (\<lambda>f. if file_language f = Some l then file_rows table r f else []) files))"
      using rows by blast
    ultimately have "mset (concat (map (rows_of hook) order)) = mset (concat (map (file_rows table r) files))"
      using en mset_by_language [of order files file_language "file_rows table r"]
      by (simp add: enumerates_def file_rows_def)
    then show ?thesis by (simp only: drained_rows [OF en])
  qed
  with run diag drained_keys [OF ok] Inr show ?thesis
    by (intro exI [of _ hook]) (simp add: drained_sel retain_first_keys)
qed

definition demo_read_call :: resolved_callsite where
  "demo_read_call = \<lparr>rc_enclosing_symbol_node_uid = ''main'', rc_resolved_module = ''fs'', rc_resolved_symbol = ''readFile'',
     rc_arg0_payload = StringLiteral ''cfg.json'', rc_arg1_payload = None,
     rc_source_location = \<lparr>loc_line_start = 1, loc_col_start = 0, loc_line_end = 1, loc_col_end = 9\<rparr>\<rparr>"

definition demo_sources :: "source_file list" where
  "demo_sources = [\<lparr>sf_uid = ''f'', sf_path = ''a.ts'', sf_callsites = [demo_read_call]\<rparr>]"

definition demo_run :: "state_boundary_hook outcome" where
  "demo_run = run_hook (\<lambda>_ _. ''u'') (\<lambda>_. Some ''e'') ''s'' demo_sources
     (hook_new [entry_of_raw demo_raw_binding] ''r'')"

lemma demo_emitters:
  "case demo_run of Val hook \<Rightarrow> hk_emitters hook L_Typescript \<noteq> None \<and>
     list_all (\<lambda>l. hk_emitters hook l = None) [L_Rust, L_Python, L_Java, L_Cpp, L_C] | Panic _ \<Rightarrow> False"
  by code_simp

theorem state_graph_exact_witness:
  "case demo_run of
     Val hook \<Rightarrow> map edge_row (ex_edges (fst (drain_snapshot_extras [L_Typescript] hook))) =
       [(''main'', ''r:fs:cfg.json:FS_PATH'', ET_Reads)]
   | Panic _ \<Rightarrow> False"
proof -
  have rows: "concat (map (file_rows [entry_of_raw demo_raw_binding] (RepoUid ''r'')) demo_sources) =
      [(''main'', ''r:fs:cfg.json:FS_PATH'', ET_Reads)]" by code_simp
  have repo: "new_repo_uid ''r'' = Inr (RepoUid ''r'')" by code_simp
  from state_graph_exact [of "\<lambda>_. Some ''e''" "\<lambda>_ _. ''u''" "''s''" demo_sources "[entry_of_raw demo_raw_binding]" "''r''"]
  obtain hook where h: "demo_run = Val hook"
    and g: "\<And>order. enumerates order (hk_emitters hook) \<Longrightarrow>
      mset (map edge_row (ex_edges (fst (drain_snapshot_extras order hook)))) =
      mset [(''main'', ''r:fs:cfg.json:FS_PATH'', ET_Reads)]"
    unfolding repo sum.case rows Let_def demo_run_def [symmetric] by blast
  have "dom (hk_emitters hook) = {L_Typescript}"
  proof (intro set_eqI)
    fix l show "l \<in> dom (hk_emitters hook) \<longleftrightarrow> l \<in> {L_Typescript}"
      using demo_emitters unfolding h by (cases l) auto
  qed
  then have "enumerates [L_Typescript] (hk_emitters hook)" by (simp add: enumerates_def)
  from g [OF this] show ?thesis unfolding h by (simp del: mset_map)
qed

text \<open>
  Two Java connection strings that differ in an escaped colon name one resource, and an \<open>open\<close> whose mode is not a known
  literal counts as a read.
\<close>

lemma java_urls_collide:
  "classify_java_payload (StringLiteral ''jdbc:h2:x'') = classify_java_payload (StringLiteral ''jdbc:h2%3Ax'')"
  by code_simp

lemma unknown_mode_reads:
  "normalize_open_mode_to_symbol (Some (EnvKeyRead k)) = normalize_open_mode_to_symbol (Some (StringLiteral ''r''))"
  by (simp add: normalize_open_mode_to_symbol_def Let_def contains_char_def)

text \<open>
  Where two languages reach one resource in different ways, the node that survives the drain depends on the iteration
  order of the map of emitters: the C site names the path by a literal, the C++ site by an environment variable.
\<close>

definition fs_binding :: "language \<Rightarrow> binding_entry" where
  "fs_binding l = \<lparr>be_language = l, be_module = ''stdio.h'', be_symbol_path = ''fopen'', be_resource_kind = RK_Fs,
     be_driver = ''libc'', be_direction = D_Read, be_basis = StdlibApi, be_notes = None\<rparr>"

definition fopen_call :: "call_arg_payload \<Rightarrow> resolved_callsite" where
  "fopen_call arg = demo_read_call\<lparr>rc_resolved_module := ''stdio.h'', rc_resolved_symbol := ''fopen'', rc_arg0_payload := arg\<rparr>"

lemma drain_depends_on_order:
  "case run_hook (\<lambda>_ _. ''u'') (\<lambda>_. Some ''e'') ''s''
     [\<lparr>sf_uid = ''f'', sf_path = ''a.c'', sf_callsites = [fopen_call (StringLiteral ''DATA'')]\<rparr>,
      \<lparr>sf_uid = ''g'', sf_path = ''b.cpp'', sf_callsites = [fopen_call (EnvKeyRead ''DATA'')]\<rparr>]
     (hook_new [fs_binding L_C, fs_binding L_Cpp] ''r'') of
     Val hook \<Rightarrow> map xn_subtype (ex_nodes (fst (drain_snapshot_extras [L_C, L_Cpp] hook))) = [Some NS_FilePath] \<and>
       map xn_subtype (ex_nodes (fst (drain_snapshot_extras [L_Cpp, L_C] hook))) = [Some NS_Logical]
   | Panic _ \<Rightarrow> False"
  by code_simp

end
