(* ===== verification/Include_Resolver.thy ===== *)
theory Include_Resolver
  imports Rust_Text
begin

text \<open>
  Resolution of C and C++ include directives, \<open>indexer/src/include_resolver.rs\<close>: the search of the source directory, of
  the configured and of the derived include roots, and the lookup by path suffix or file name.
\<close>

section \<open>Types\<close>

datatype resolution_status = RS_Resolved | RS_Unresolved | RS_Ambiguous

record include_resolution =
  ix_status :: resolution_status
  ix_target_stable_key :: "string option"
  ix_candidates :: "string list"

record include_resolver_config =
  rc_configured_roots :: "string list"
  rc_derived_roots :: "string list"

record include_resolver =
  in_config :: include_resolver_config

definition include_resolver_new :: "include_resolver_config \<Rightarrow> include_resolver" where
  "include_resolver_new config = \<lparr>in_config = config\<rparr>"

definition with_configured_roots :: "string list \<Rightarrow> include_resolver" where
  "with_configured_roots roots = include_resolver_new \<lparr>rc_configured_roots = roots, rc_derived_roots = []\<rparr>"

text \<open>The stable key of a file.\<close>

definition file_stable_key :: "string \<Rightarrow> string \<Rightarrow> string" where
  "file_stable_key repo_uid path = repo_uid @ '':'' @ path @ '':FILE''"

section \<open>Paths\<close>

definition get_directory :: "string \<Rightarrow> string" where
  "get_directory path = (case rsplit_once path (CHR ''/'') of Some (dir, _) \<Rightarrow> dir | None \<Rightarrow> '''')"

definition join_path :: "string \<Rightarrow> string \<Rightarrow> string" where
  "join_path dir relative = (if dir = '''' then relative else dir @ ''/'' @ relative)"

definition normalize_step :: "string list \<Rightarrow> string \<Rightarrow> string list" where
  "normalize_step parts segment =
     (if segment = '''' \<or> segment = ''.'' then parts else if segment = ''..'' then butlast parts else parts @ [segment])"

definition normalize_path :: "string \<Rightarrow> string" where
  "normalize_path path = join_with (CHR ''/'') (foldl normalize_step [] (split_on (CHR ''/'') path))"

section \<open>Include roots\<close>

text \<open>The candidates under the configured roots, and those under the derived roots that are new.\<close>

fun configured_candidates :: "string set \<Rightarrow> string \<Rightarrow> string list \<Rightarrow> string list \<Rightarrow> string list" where
  "configured_candidates indexed specifier [] candidates = candidates"
| "configured_candidates indexed specifier (root # roots) candidates =
     (let normalized = normalize_path (join_path root specifier)
      in configured_candidates indexed specifier roots
           (if normalized \<in> indexed then candidates @ [normalized] else candidates))"

fun derived_candidates :: "string set \<Rightarrow> string \<Rightarrow> string list \<Rightarrow> string list \<Rightarrow> string list" where
  "derived_candidates indexed specifier [] candidates = candidates"
| "derived_candidates indexed specifier (root # roots) candidates =
     (let normalized = normalize_path (join_path root specifier)
      in derived_candidates indexed specifier roots
           (if normalized \<in> indexed \<and> normalized \<notin> set candidates then candidates @ [normalized] else candidates))"

definition same_directory_path :: "string \<Rightarrow> string \<Rightarrow> string" where
  "same_directory_path source_file_path specifier = normalize_path (join_path (get_directory source_file_path) specifier)"

definition include_resolve ::
  "include_resolver \<Rightarrow> string \<Rightarrow> string \<Rightarrow> bool \<Rightarrow> string set \<Rightarrow> string \<Rightarrow> include_resolution" where
  "include_resolve resolver source_file_path specifier is_system_include indexed repo_uid =
     (let normalized = same_directory_path source_file_path specifier
      in if \<not> is_system_include \<and> normalized \<in> indexed
         then \<lparr>ix_status = RS_Resolved, ix_target_stable_key = Some (file_stable_key repo_uid normalized), ix_candidates = []\<rparr>
         else
           (let candidates = derived_candidates indexed specifier (rc_derived_roots (in_config resolver))
                  (configured_candidates indexed specifier (rc_configured_roots (in_config resolver)) [])
            in case candidates of
                 [] \<Rightarrow> \<lparr>ix_status = RS_Unresolved, ix_target_stable_key = None, ix_candidates = []\<rparr>
               | [path] \<Rightarrow> \<lparr>ix_status = RS_Resolved, ix_target_stable_key = Some (file_stable_key repo_uid path),
                   ix_candidates = []\<rparr>
               | _ \<Rightarrow> \<lparr>ix_status = RS_Ambiguous, ix_target_stable_key = None,
                   ix_candidates = map (file_stable_key repo_uid) candidates\<rparr>))"

text \<open>The roots of one path: its prefixes that end in a directory component \<open>include\<close> or \<open>inc\<close>.\<close>

definition roots_of_path :: "string \<Rightarrow> string list" where
  "roots_of_path path =
     (let components = split_on (CHR ''/'') path
      in map (\<lambda>i. join_with (CHR ''/'') (take (Suc i) components))
           (filter (\<lambda>i. components ! i = ''include'' \<or> components ! i = ''inc'') [0..<length components - 1]))"

definition derive_include_roots :: "string list \<Rightarrow> string list" where
  "derive_include_roots file_paths = btree_set (concat (map roots_of_path file_paths))"

section \<open>The resolution map\<close>

record include_resolution_map =
  im_resolver :: include_resolver
  im_indexed_files :: "string set"
  im_files_by_basename :: "string \<rightharpoonup> string list"
  im_repo_uid :: string

text \<open>One \<open>entry(..).or_default().push(..)\<close> per path, then every bucket sorted and deduplicated.\<close>

fun bucket_by_basename :: "(string \<rightharpoonup> string list) \<Rightarrow> string list \<Rightarrow> (string \<rightharpoonup> string list)" where
  "bucket_by_basename index [] = index"
| "bucket_by_basename index (path # paths) =
     bucket_by_basename (map_entry (rsplit_next path (CHR ''/'')) [] (\<lambda>bucket. bucket @ [path]) index) paths"

definition build_basename_index :: "string list \<Rightarrow> (string \<rightharpoonup> string list)" where
  "build_basename_index file_paths =
     (\<lambda>b. map_option (\<lambda>paths. remdups_adj (sort paths)) (bucket_by_basename Map.empty file_paths b))"

fun add_roots :: "string list \<Rightarrow> string list \<Rightarrow> string list" where
  "add_roots derived [] = derived"
| "add_roots derived (root # roots) = add_roots (if root \<in> set derived then derived else derived @ [root]) roots"

definition build_include_resolution_map ::
  "string list \<Rightarrow> string \<Rightarrow> include_resolver_config \<Rightarrow> include_resolution_map" where
  "build_include_resolution_map file_paths repo_uid config =
     \<lparr>im_resolver = include_resolver_new \<lparr>rc_configured_roots = rc_configured_roots config,
        rc_derived_roots = add_roots (rc_derived_roots config) (derive_include_roots file_paths)\<rparr>,
      im_indexed_files = set file_paths, im_files_by_basename = build_basename_index file_paths, im_repo_uid = repo_uid\<rparr>"

definition map_resolve :: "include_resolution_map \<Rightarrow> string \<Rightarrow> string \<Rightarrow> bool \<Rightarrow> include_resolution" where
  "map_resolve m source_file_path specifier is_system_include =
     include_resolve (im_resolver m) source_file_path specifier is_system_include (im_indexed_files m) (im_repo_uid m)"

definition get_resolved_key :: "include_resolution_map \<Rightarrow> string \<Rightarrow> string \<Rightarrow> bool \<Rightarrow> string option" where
  "get_resolved_key m source_file_path specifier is_system_include =
     (let result = map_resolve m source_file_path specifier is_system_include
      in if ix_status result = RS_Resolved then ix_target_stable_key result else None)"

section \<open>Path suffixes and file names\<close>

datatype include_path_match =
    IP_Declined
  | IP_NoMatch
  | IP_UniqueSuffix string
  | IP_AmbiguousSuffix "string list"
  | IP_UniqueBasename string
  | IP_AmbiguousBasename "string list"

definition ends_at_directory_boundary :: "string \<Rightarrow> string \<Rightarrow> bool" where
  "ends_at_directory_boundary path suffix \<longleftrightarrow> path = suffix \<or>
     (case strip_suffix path suffix of None \<Rightarrow> False | Some head \<Rightarrow> ends_with head ''/'')"

definition specifier_segments :: "string \<Rightarrow> string list" where
  "specifier_segments specifier = filter (\<lambda>s. s \<noteq> '''' \<and> s \<noteq> ''.'') (split_on (CHR ''/'') specifier)"

definition match_path_suffix_or_basename :: "include_resolution_map \<Rightarrow> string \<Rightarrow> include_path_match" where
  "match_path_suffix_or_basename m specifier =
     (if contains_char specifier (CHR '':'') then IP_Declined
      else
        (let segments = specifier_segments specifier
         in if segments = [] \<or> ''..'' \<in> set segments then IP_Declined
            else case im_files_by_basename m (last segments) of
              None \<Rightarrow> IP_NoMatch
            | Some same_basename \<Rightarrow>
                if length segments = 1
                then (case same_basename of
                        [] \<Rightarrow> IP_NoMatch | [one] \<Rightarrow> IP_UniqueBasename one | many \<Rightarrow> IP_AmbiguousBasename many)
                else
                  (let suffix = join_with (CHR ''/'') segments
                   in case filter (\<lambda>path. ends_at_directory_boundary path suffix) same_basename of
                        [] \<Rightarrow> IP_NoMatch | [one] \<Rightarrow> IP_UniqueSuffix one | many \<Rightarrow> IP_AmbiguousSuffix many)))"

section \<open>The search over roots\<close>

abbreviation under_root :: "string \<Rightarrow> string \<Rightarrow> string" where
  "under_root specifier root \<equiv> normalize_path (join_path root specifier)"

lemma configured_candidates_filter:
  "configured_candidates indexed specifier roots acc = acc @ filter (\<lambda>p. p \<in> indexed) (map (under_root specifier) roots)"
  by (induction indexed specifier roots acc rule: configured_candidates.induct) (simp_all add: Let_def)

lemma derived_candidates_set:
  "set (derived_candidates indexed specifier roots acc) = set acc \<union> (indexed \<inter> under_root specifier ` set roots)"
  by (induction indexed specifier roots acc rule: derived_candidates.induct) (auto simp: Let_def)

lemma derived_candidates_distinct:
  "distinct acc \<Longrightarrow> distinct (derived_candidates indexed specifier roots acc)"
  by (induction indexed specifier roots acc rule: derived_candidates.induct) (auto simp: Let_def)

lemma set_add_roots [simp]: "set (add_roots derived roots) = set derived \<union> set roots"
  by (induction derived roots rule: add_roots.induct) auto

text \<open>The indexed files that the roots of a map reach for a specifier.\<close>

definition root_hits :: "string list \<Rightarrow> include_resolver_config \<Rightarrow> string \<Rightarrow> string set" where
  "root_hits files config specifier = set files \<inter>
     under_root specifier ` (set (rc_configured_roots config) \<union> set (rc_derived_roots config) \<union> set (derive_include_roots files))"

definition map_candidates :: "string list \<Rightarrow> include_resolver_config \<Rightarrow> string \<Rightarrow> string list" where
  "map_candidates files config specifier = derived_candidates (set files) specifier
     (add_roots (rc_derived_roots config) (derive_include_roots files))
     (configured_candidates (set files) specifier (rc_configured_roots config) [])"

lemma set_map_candidates: "set (map_candidates files config specifier) = root_hits files config specifier"
  by (auto simp: map_candidates_def derived_candidates_set configured_candidates_filter root_hits_def)

lemma map_resolve_eq:
  "map_resolve (build_include_resolution_map files repo config) src specifier sys =
   (if \<not> sys \<and> same_directory_path src specifier \<in> set files
    then \<lparr>ix_status = RS_Resolved, ix_target_stable_key = Some (file_stable_key repo (same_directory_path src specifier)),
      ix_candidates = []\<rparr>
    else case map_candidates files config specifier of
      [] \<Rightarrow> \<lparr>ix_status = RS_Unresolved, ix_target_stable_key = None, ix_candidates = []\<rparr>
    | [path] \<Rightarrow> \<lparr>ix_status = RS_Resolved, ix_target_stable_key = Some (file_stable_key repo path), ix_candidates = []\<rparr>
    | _ \<Rightarrow> \<lparr>ix_status = RS_Ambiguous, ix_target_stable_key = None,
        ix_candidates = map (file_stable_key repo) (map_candidates files config specifier)\<rparr>)"
  unfolding map_candidates_def
  by (simp add: map_resolve_def build_include_resolution_map_def include_resolve_def include_resolver_new_def Let_def)

lemma file_stable_key_inj [simp]: "file_stable_key r p = file_stable_key r q \<longleftrightarrow> p = q"
  by (simp add: file_stable_key_def)

lemma card_two_list: "distinct xs \<Longrightarrow> xs = x # y # zs \<Longrightarrow> 2 \<le> card (set xs)"
  by (simp add: distinct_card)

text \<open>
  A directory is a derived root exactly if it is the prefix of an indexed path up to a component \<open>include\<close> or \<open>inc\<close> that
  is not the file name.
\<close>

lemma derive_include_roots_iff:
  "root \<in> set (derive_include_roots files) \<longleftrightarrow> (\<exists>path \<in> set files. \<exists>dirs rest. rest \<noteq> [] \<and>
     split_on (CHR ''/'') path = dirs @ rest \<and> dirs \<noteq> [] \<and> last dirs \<in> {''include'', ''inc''} \<and>
     root = join_with (CHR ''/'') dirs)"
proof -
  have "root \<in> set (roots_of_path path) \<longleftrightarrow> (\<exists>dirs rest. rest \<noteq> [] \<and> split_on (CHR ''/'') path = dirs @ rest \<and>
      dirs \<noteq> [] \<and> last dirs \<in> {''include'', ''inc''} \<and> root = join_with (CHR ''/'') dirs)" (is "_ \<longleftrightarrow> ?R") for path
  proof
    let ?cs = "split_on (CHR ''/'') path"
    assume "root \<in> set (roots_of_path path)"
    then obtain i where i: "i < length ?cs - 1" "?cs ! i \<in> {''include'', ''inc''}"
      "root = join_with (CHR ''/'') (take (Suc i) ?cs)"
      by (auto simp: roots_of_path_def Let_def)
    then have "last (take (Suc i) ?cs) = ?cs ! i" by (simp add: take_Suc_conv_app_nth)
    moreover have "drop (Suc i) ?cs \<noteq> []" using i(1) by simp
    moreover have "take (Suc i) ?cs \<noteq> []" by simp
    ultimately show ?R using i(2,3) by (metis append_take_drop_id)
  next
    let ?cs = "split_on (CHR ''/'') path"
    assume ?R
    then obtain dirs rest where r: "rest \<noteq> []" "?cs = dirs @ rest" "dirs \<noteq> []" "last dirs \<in> {''include'', ''inc''}"
      "root = join_with (CHR ''/'') dirs" by blast
    then have "0 < length dirs" "0 < length rest" by simp_all
    then have "length dirs - 1 < length ?cs - 1" unfolding r(2) length_append by linarith
    moreover have "?cs ! (length dirs - 1) = last dirs" "take (Suc (length dirs - 1)) ?cs = dirs"
      using r(2,3) by (simp_all add: nth_append last_conv_nth)
    ultimately show "root \<in> set (roots_of_path path)"
      using r(4,5) by (force simp: roots_of_path_def Let_def)
  qed
  then show ?thesis by (simp add: derive_include_roots_def)
qed

text \<open>
  The indexed files that the configured roots and the three conventional roots at the top of the repository reach. The
  documents promise that an include these settle keeps its file, whatever other directories \<open>include\<close> the tree has.
\<close>

definition settled_hits :: "string list \<Rightarrow> include_resolver_config \<Rightarrow> string \<Rightarrow> string set" where
  "settled_hits files config specifier = set files \<inter>
     under_root specifier ` (set (rc_configured_roots config) \<union> {''include'', ''inc'', ''src/include''})"

text \<open>
  C38. The search of an include directive over a map built from a file list. A quoted include that names a file of its
  own directory resolves to it. For any other include, provided that no two configured roots reach the same file and
  that no derived root adds a second file to the one that the configured roots and the conventional roots at the top of the
  repository settle on: it resolves exactly if the configured and derived roots reach one indexed file, is unresolved if
  they reach none and ambiguous if they reach several, all of them candidates. (\<open>repeated_root_ambiguous\<close> and
  \<open>added_root_flips\<close> show the two cases left out, in which the code departs from its documents.)
\<close>

theorem include_search_exact:
  fixes repo src :: string and sys :: bool
  assumes roots: "distinct (filter (\<lambda>p. p \<in> set files) (map (under_root specifier) (rc_configured_roots config)))"
    and settled: "is_singleton (settled_hits files config specifier) \<Longrightarrow>
      root_hits files config specifier = settled_hits files config specifier"
  defines "result \<equiv> map_resolve (build_include_resolution_map files repo config) src specifier sys"
    and "same \<equiv> same_directory_path src specifier" and "hits \<equiv> root_hits files config specifier"
  shows "(if \<not> sys \<and> same \<in> set files
      then ix_status result = RS_Resolved \<and> ix_target_stable_key result = Some (file_stable_key repo same)
      else (\<forall>p. ix_status result = RS_Resolved \<and> ix_target_stable_key result = Some (file_stable_key repo p) \<longleftrightarrow> hits = {p}) \<and>
        (\<forall>p. settled_hits files config specifier = {p} \<longrightarrow>
           ix_target_stable_key result = Some (file_stable_key repo p)) \<and>
        (ix_status result = RS_Unresolved \<longleftrightarrow> hits = {}) \<and>
        (ix_status result = RS_Ambiguous \<longleftrightarrow> 2 \<le> card hits) \<and>
        (ix_status result = RS_Ambiguous \<longrightarrow> set (ix_candidates result) = file_stable_key repo ` hits))"
proof (cases "\<not> sys \<and> same \<in> set files")
  case True
  then show ?thesis by (simp add: result_def map_resolve_eq same_def)
next
  case False
  let ?cs = "map_candidates files config specifier"
  have d: "distinct ?cs"
    unfolding map_candidates_def using roots
    by (intro derived_candidates_distinct) (simp add: configured_candidates_filter)
  have hits: "hits = set ?cs" by (simp add: hits_def set_map_candidates)
  have keep: "hits = {p}" if "settled_hits files config specifier = {p}" for p
    using settled that by (simp add: hits_def is_singleton_def)
  from False have r: "\<not> (\<not> sys \<and> same_directory_path src specifier \<in> set files)" by (simp add: same_def)
  consider (none) "?cs = []" | (one) p where "?cs = [p]" | (many) p q ps where "?cs = p # q # ps"
    by (metis list.exhaust)
  then show ?thesis
  proof cases
    case none
    then have "settled_hits files config specifier \<noteq> {p}" for p using keep hits by force
    with none show ?thesis using r by (auto simp: result_def map_resolve_eq hits same_def)
  next
    case one
    then have "settled_hits files config specifier = {q} \<Longrightarrow> q = p" for q using keep hits by force
    with one show ?thesis using r by (auto simp: result_def map_resolve_eq hits same_def)
  next
    case many
    have "p \<noteq> q" using d many by simp
    then have "set ?cs \<noteq> {p'}" for p' using many by auto
    moreover from this have "settled_hits files config specifier \<noteq> {p'}" for p' using keep hits by force
    moreover have "2 \<le> card (set ?cs)" by (rule card_two_list [OF d many])
    moreover have "ix_status result = RS_Ambiguous" "ix_target_stable_key result = None"
      "ix_candidates result = map (file_stable_key repo) ?cs"
      unfolding result_def map_resolve_eq if_not_P [OF r] many list.case by simp_all
    ultimately show ?thesis using False many by (auto simp: hits)
  qed
qed

section \<open>Path suffixes and file names\<close>

lemma bucket_by_basename_lookup:
  "bucket_by_basename index paths b = (if \<exists>p \<in> set paths. rsplit_next p (CHR ''/'') = b
     then Some ((case index b of None \<Rightarrow> [] | Some qs \<Rightarrow> qs) @ filter (\<lambda>p. rsplit_next p (CHR ''/'') = b) paths)
     else index b)"
proof (induction paths arbitrary: index)
  case (Cons path paths)
  show ?case
    by (cases "rsplit_next path (CHR ''/'') = b") (simp_all add: Cons map_entry_def)
qed simp

text \<open>A bucket is the sorted list of the files with that name.\<close>

lemma build_basename_index_lookup:
  "build_basename_index files b = (if \<exists>p \<in> set files. rsplit_next p (CHR ''/'') = b
     then Some (sorted_list_of_set {p \<in> set files. rsplit_next p (CHR ''/'') = b}) else None)"
  by (simp add: build_basename_index_def bucket_by_basename_lookup sort_dedup)

lemma ends_at_directory_boundary_iff:
  "ends_at_directory_boundary path suffix \<longleftrightarrow> path = suffix \<or> (\<exists>dir. path = dir @ ''/'' @ suffix)"
proof (cases "strip_suffix path suffix")
  case None
  then have "\<nexists>head. path = head @ suffix" by (metis option.distinct(1) strip_suffix_Some)
  then show ?thesis by (metis None append_assoc ends_at_directory_boundary_def option.simps(4))
next
  case (Some head)
  then have "path = head @ suffix" by (simp add: strip_suffix_Some)
  then show ?thesis unfolding ends_at_directory_boundary_def Some option.case ends_with_iff by auto
qed

lemma filter_sorted_list_of_set:
  assumes "finite A"
  shows "filter P (sorted_list_of_set A) = sorted_list_of_set {x \<in> A. P x}"
  using assms by (intro sorted_distinct_set_unique) (auto simp: sorted_wrt_filter)

lemma rsplit_next_last:
  assumes "c \<notin> set b"
  shows "rsplit_next (a @ c # b) c = b" "rsplit_next b c = b"
proof -
  have "takeWhile (\<lambda>x. x \<noteq> c) (rev b @ r) = rev b @ takeWhile (\<lambda>x. x \<noteq> c) r" for r
    using assms by (intro takeWhile_append2) auto
  from this [of "c # rev a"] show "rsplit_next (a @ c # b) c = b" by (simp add: rsplit_next_def)
  have "takeWhile (\<lambda>x. x \<noteq> c) (rev b) = rev b" using assms by (intro takeWhile_eq_all_conv [THEN iffD2]) auto
  then show "rsplit_next b c = b" unfolding rsplit_next_def by (metis rev_rev_ident)
qed

lemma join_with_last:
  "segs \<noteq> [] \<Longrightarrow> join_with c segs = last segs \<or> (\<exists>pre. join_with c segs = pre @ c # last segs)"
proof (induction c segs rule: join_with.induct)
  case (3 c x y ys)
  then consider "join_with c (y # ys) = last (y # ys)" | pre where "join_with c (y # ys) = pre @ c # last (y # ys)" by auto
  then show ?case
  proof cases
    case 2
    then have "join_with c (x # y # ys) = (x @ c # pre) @ c # last (y # ys)" by simp
    then show ?thesis by (metis last_ConsR list.distinct(1))
  qed simp
qed simp_all

lemma specifier_segment_plain: "s \<in> set (specifier_segments specifier) \<Longrightarrow> CHR ''/'' \<notin> set s"
  using split_on_no_sep by (fastforce simp: specifier_segments_def)

text \<open>A path that ends with the segments at a directory boundary has the last of them as its file name.\<close>

lemma boundary_basename:
  assumes "segs \<noteq> []" and "\<forall>s \<in> set segs. CHR ''/'' \<notin> set s"
    and "ends_at_directory_boundary path (join_with (CHR ''/'') segs)"
  shows "rsplit_next path (CHR ''/'') = last segs"
proof -
  have plain: "CHR ''/'' \<notin> set (last segs)" using assms(1,2) by simp
  have "path = last segs \<or> (\<exists>pre. path = pre @ CHR ''/'' # last segs)"
    using assms(3) join_with_last [OF assms(1), of "CHR ''/''"]
    unfolding ends_at_directory_boundary_iff by (metis append.assoc append_Cons append_Nil)
  then show ?thesis using rsplit_next_last [OF plain] by metis
qed

text \<open>The indexed files a specifier names: by its path suffix if it has several segments, else by its file name.\<close>

definition named_files :: "string list \<Rightarrow> string \<Rightarrow> string set" where
  "named_files files specifier =
     (let segs = specifier_segments specifier
      in {p \<in> set files. if length segs = 1 then rsplit_next p (CHR ''/'') = last segs
           else ends_at_directory_boundary p (join_with (CHR ''/'') segs)})"

definition include_match_of :: "bool \<Rightarrow> string list \<Rightarrow> include_path_match" where
  "include_match_of single ps = (case ps of
     [] \<Rightarrow> IP_NoMatch
   | [p] \<Rightarrow> (if single then IP_UniqueBasename p else IP_UniqueSuffix p)
   | _ \<Rightarrow> (if single then IP_AmbiguousBasename ps else IP_AmbiguousSuffix ps))"

text \<open>
  The lookup of an include by its text alone. A specifier with a colon, without a path segment or with a parent
  segment is declined. Otherwise the answer is given by all indexed files whose path ends with the
  specifier at a directory boundary (or, for a single segment, whose file name it is): none, exactly one, or the sorted
  list of all of them; the index by file name loses none.
\<close>

theorem include_suffix_exact:
  "match_path_suffix_or_basename (build_include_resolution_map files repo config) specifier =
     (let segs = specifier_segments specifier
      in if CHR '':'' \<in> set specifier \<or> segs = [] \<or> ''..'' \<in> set segs then IP_Declined
         else include_match_of (length segs = 1) (sorted_list_of_set (named_files files specifier)))"
proof (cases "CHR '':'' \<in> set specifier \<or> specifier_segments specifier = [] \<or> ''..'' \<in> set (specifier_segments specifier)")
  case True
  then show ?thesis by (auto simp: match_path_suffix_or_basename_def Let_def contains_char_def)
next
  case False
  define segs where "segs = specifier_segments specifier"
  define bucket where "bucket = {p \<in> set files. rsplit_next p (CHR ''/'') = last segs}"
  define single where "single \<longleftrightarrow> length segs = 1"
  let ?in = "\<lambda>p. single \<or> ends_at_directory_boundary p (join_with (CHR ''/'') segs)"
  have "\<forall>s \<in> set segs. CHR ''/'' \<notin> set s" using specifier_segment_plain by (simp add: segs_def)
  then have named: "named_files files specifier = {p \<in> bucket. ?in p}"
    using False boundary_basename [of segs]
    by (auto simp: named_files_def Let_def bucket_def single_def simp flip: segs_def)
  have "finite bucket" by (simp add: bucket_def)
  then have sorted: "filter ?in (sorted_list_of_set bucket) = sorted_list_of_set (named_files files specifier)"
    unfolding named by (rule filter_sorted_list_of_set)
  show ?thesis
  proof (cases "bucket = {}")
    case True
    then have "im_files_by_basename (build_include_resolution_map files repo config) (last segs) = None"
      by (auto simp: build_include_resolution_map_def build_basename_index_lookup bucket_def)
    with False True named show ?thesis
      by (simp add: match_path_suffix_or_basename_def Let_def contains_char_def include_match_of_def flip: segs_def)
  next
    case nonempty: False
    then have look: "im_files_by_basename (build_include_resolution_map files repo config) (last segs) =
        Some (sorted_list_of_set bucket)"
      by (auto simp: build_include_resolution_map_def build_basename_index_lookup bucket_def)
    have "match_path_suffix_or_basename (build_include_resolution_map files repo config) specifier =
        include_match_of single (filter ?in (sorted_list_of_set bucket))"
      using False look
      by (auto simp: match_path_suffix_or_basename_def Let_def contains_char_def include_match_of_def single_def
          simp flip: segs_def split: list.splits)
    with False sorted show ?thesis by (simp add: Let_def single_def flip: segs_def)
  qed
qed

text \<open>A quoted include outside its own directory, found under the derived root of its module.\<close>

theorem include_search_exact_witness:
  "let r = map_resolve (build_include_resolution_map [''net/include/net/a.h'', ''src/a.c''] ''r''
       \<lparr>rc_configured_roots = [''third''], rc_derived_roots = []\<rparr>) ''src/a.c'' ''net/a.h'' False
   in ix_status r = RS_Resolved \<and> ix_target_stable_key r = Some (file_stable_key ''r'' ''net/include/net/a.h'')"
proof -
  let ?files = "[''net/include/net/a.h'', ''src/a.c'']"
  let ?config = "\<lparr>rc_configured_roots = [''third''], rc_derived_roots = []\<rparr>"
  have d: "distinct (filter (\<lambda>p. p \<in> set ?files) (map (under_root ''net/a.h'') (rc_configured_roots ?config)))" by code_simp
  have same: "\<not> (\<not> False \<and> same_directory_path ''src/a.c'' ''net/a.h'' \<in> set ?files)" by code_simp
  have hits: "root_hits ?files ?config ''net/a.h'' = {''net/include/net/a.h''}" by code_simp
  have "settled_hits ?files ?config ''net/a.h'' = {}" by code_simp
  then have settled: "root_hits ?files ?config ''net/a.h'' = settled_hits ?files ?config ''net/a.h''"
    if "is_singleton (settled_hits ?files ?config ''net/a.h'')"
    using that by (simp add: is_singleton_def)
  show ?thesis
    unfolding Let_def
    by (rule iffD2 [OF spec [OF conjunct1 [OF include_search_exact [OF d settled, of False "''src/a.c''" "''r''", unfolded if_not_P [OF same]]]] hits])
qed

text \<open>
  Two spellings of one configured root make a header ambiguous with itself, and a new directory \<open>include\<close> turns
  an include that was resolved into an ambiguous one.
\<close>

lemma repeated_root_ambiguous:
  "map_resolve (build_include_resolution_map [''lib/a.h''] ''r'' \<lparr>rc_configured_roots = [''lib'', ''./lib''], rc_derived_roots = []\<rparr>)
     ''src/a.c'' ''a.h'' True =
   \<lparr>ix_status = RS_Ambiguous, ix_target_stable_key = None, ix_candidates = [''r:lib/a.h:FILE'', ''r:lib/a.h:FILE'']\<rparr>"
  by code_simp

lemma added_root_flips:
  "ix_status (map_resolve (build_include_resolution_map [''include/a.h''] ''r''
     \<lparr>rc_configured_roots = [], rc_derived_roots = []\<rparr>) ''src/a.c'' ''a.h'' True) = RS_Resolved"
  "ix_status (map_resolve (build_include_resolution_map [''include/a.h'', ''m/include/a.h''] ''r''
     \<lparr>rc_configured_roots = [], rc_derived_roots = []\<rparr>) ''src/a.c'' ''a.h'' True) = RS_Ambiguous"
  by code_simp+

end
