(* ===== verification/Import_Stages.thy ===== *)
theory Import_Stages
  imports Import_Resolver Unresolved Include_Resolver "HOL-Library.AList"
begin

text \<open>
  The pure parts of the import stages of the indexer: workspace members (\<open>indexer/src/workspace_import.rs\<close>), tsconfig
  paths (\<open>tsconfig_paths_import.rs\<close>) and the disposition of type-only imports (\<open>type_only.rs\<close>, \<open>storage_port.rs\<close>).
  A \<open>HashMap\<close> whose emptiness or iteration the code asks for is an association list. The decoder of stored alias signals
  is the parameter \<open>decode\<close>, and \<open>serde_json::from_str\<close> on a JSON value is \<open>from_str\<close>.
\<close>

section \<open>Workspace members\<close>

datatype npm_declared_entry = NDE_Main string | NDE_Export string

definition entry_path :: "npm_declared_entry \<Rightarrow> string" where
  "entry_path e = (case e of NDE_Main path \<Rightarrow> path | NDE_Export path \<Rightarrow> path)"

record declared_module =
  dm_ecosystem :: string
  dm_name :: string
  dm_canonical_root :: string
  dm_npm_declared_entries :: "npm_declared_entry list"

definition WORKSPACE_SOURCE_ENTRY_BASIS :: string where
  "WORKSPACE_SOURCE_ENTRY_BASIS = ''workspace_source_entry''"

definition AMBIGUOUS_WORKSPACE_SOURCE_ENTRY_BASIS :: string where
  "AMBIGUOUS_WORKSPACE_SOURCE_ENTRY_BASIS = ''ambiguous_workspace_source_entry''"

definition SOURCE_ENTRY_EXTENSIONS :: "string list" where
  "SOURCE_ENTRY_EXTENSIONS = [''ts'', ''tsx'', ''mts'', ''cts'', ''js'', ''jsx'', ''mjs'', ''cjs'']"

definition MAIN_COMPLETIONS :: "string list" where
  "MAIN_COMPLETIONS = [''.js'', ''.json'', ''.node'', ''/index.js'']"

record npm_workspace_package =
  nw_root :: string
  nw_declared_entries :: "npm_declared_entry list"

type_synonym npm_workspace_packages = "(string \<times> npm_workspace_package list) list"

text \<open>One module of the catalogue; the entry of its name is made even when the member is already listed.\<close>

definition add_member :: "declared_module \<Rightarrow> npm_workspace_packages \<Rightarrow> npm_workspace_packages" where
  "add_member m packages =
     (let members = (case map_of packages (dm_name m) of None \<Rightarrow> [] | Some ms \<Rightarrow> ms)
      in AList.update (dm_name m)
           (if list_ex (\<lambda>p. nw_root p = dm_canonical_root m) members then members
            else members @ [\<lparr>nw_root = dm_canonical_root m, nw_declared_entries = dm_npm_declared_entries m\<rparr>]) packages)"

definition build_npm_workspace_packages :: "declared_module list \<Rightarrow> npm_workspace_packages" where
  "build_npm_workspace_packages modules = fold add_member (filter (\<lambda>m. dm_ecosystem m = ''npm'') modules) []"

datatype workspace_import_match =
    WM_Bound string "string list"
  | WM_Ambiguous "string list" "string list"
  | WM_NotBound

definition declared_entry_indexed :: "(string \<Rightarrow> bool) \<Rightarrow> npm_declared_entry \<Rightarrow> bool" where
  "declared_entry_indexed is_indexed entry = (case entry of
     NDE_Main target \<Rightarrow> is_indexed target \<or> list_ex (\<lambda>completion. is_indexed (target @ completion)) MAIN_COMPLETIONS
   | NDE_Export target \<Rightarrow> is_indexed target)"

definition member_source_entries :: "(string \<Rightarrow> bool) \<Rightarrow> npm_workspace_package \<Rightarrow> string list" where
  "member_source_entries is_indexed m =
     (let prefix = (if nw_root m = ''.'' then ''src/index.'' else nw_root m @ ''/src/index.'')
      in sort (filter is_indexed (map (\<lambda>ext. prefix @ ext) SOURCE_ENTRY_EXTENSIONS)))"

definition match_workspace_package_import ::
  "string \<Rightarrow> npm_workspace_packages \<Rightarrow> (string \<Rightarrow> bool) \<Rightarrow> workspace_import_match" where
  "match_workspace_package_import specifier packages is_indexed =
     (if specifier = '''' \<or> starts_with specifier ''.'' \<or> starts_with specifier ''/'' \<or> contains_char specifier (CHR '':'')
      then WM_NotBound
      else case map_of packages specifier of
        Some [m] \<Rightarrow>
          if nw_declared_entries m = [] then WM_NotBound
          else if list_ex (declared_entry_indexed is_indexed) (nw_declared_entries m) then WM_NotBound
          else
            (let declared_paths = map entry_path (nw_declared_entries m)
             in case member_source_entries is_indexed m of
                  [] \<Rightarrow> WM_NotBound
                | [source_entry] \<Rightarrow> WM_Bound source_entry declared_paths
                | source_entries \<Rightarrow> WM_Ambiguous source_entries declared_paths)
      | _ \<Rightarrow> WM_NotBound)"

section \<open>Paths of a tsconfig project\<close>

record tsconfig_alias_mapping =
  tm_anchor_dir :: string
  tm_base_url :: string
  tm_entries :: "tsconfig_alias_entry list"

record stored_tsconfig_aliases =
  sta_entries :: "tsconfig_alias_entry list"
  sta_sole_inspected_covering_project_mapping :: "tsconfig_alias_mapping option"

definition TSCONFIG_PATHS_BASIS :: string where
  "TSCONFIG_PATHS_BASIS = ''tsconfig_paths''"

definition AMBIGUOUS_TSCONFIG_PATHS_BASIS :: string where
  "AMBIGUOUS_TSCONFIG_PATHS_BASIS = ''ambiguous_tsconfig_paths''"

definition TIED_TSCONFIG_PATHS_PATTERNS_BASIS :: string where
  "TIED_TSCONFIG_PATHS_PATTERNS_BASIS = ''tied_tsconfig_paths_patterns''"

record tsconfig_paths_index =
  tp_config_by_file :: "(string \<times> tsconfig_alias_config) list"
  tp_inventory :: file_inventory

definition tsconfig_paths_default :: tsconfig_paths_index where
  "tsconfig_paths_default = \<lparr>tp_config_by_file = [], tp_inventory = file_inventory_of []\<rparr>"

text \<open>The loop over the signal rows.\<close>

fun configs_of_rows ::
  "(string \<Rightarrow> stored_tsconfig_aliases option) \<Rightarrow> (string \<times> string option) list \<Rightarrow>
   (string \<times> tsconfig_alias_config) list \<Rightarrow> (string \<times> tsconfig_alias_config) list" where
  "configs_of_rows decode [] configs = configs"
| "configs_of_rows decode ((file_uid, raw) # rows) configs =
     configs_of_rows decode rows
       (case Option.bind (Option.bind raw decode) sta_sole_inspected_covering_project_mapping of
          None \<Rightarrow> configs
        | Some mapping \<Rightarrow> AList.update file_uid
            \<lparr>tac_base_url = tm_base_url mapping,
             tac_paths = btree_of (map (\<lambda>e. (tae_pattern e, tae_substitutions e)) (tm_entries mapping)),
             tac_partition_prefix = tm_anchor_dir mapping\<rparr> configs)"

definition tsconfig_paths_build ::
  "(string \<Rightarrow> stored_tsconfig_aliases option) \<Rightarrow> (string \<times> string option) list \<Rightarrow> string list \<Rightarrow> tsconfig_paths_index" where
  "tsconfig_paths_build decode signal_rows file_stable_keys =
     (let configs = configs_of_rows decode signal_rows []
      in if configs = [] then tsconfig_paths_default
         else \<lparr>tp_config_by_file = configs, tp_inventory = file_inventory_of file_stable_keys\<rparr>)"

definition tsconfig_paths_is_empty :: "tsconfig_paths_index \<Rightarrow> bool" where
  "tsconfig_paths_is_empty index \<longleftrightarrow> tp_config_by_file index = []"

definition hits_for :: "tsconfig_paths_index \<Rightarrow> string \<Rightarrow> string \<Rightarrow> alias_hits_result option" where
  "hits_for index file_uid specifier =
     map_option (\<lambda>config. tsconfig_alias_hits specifier config (tp_inventory index)) (map_of (tp_config_by_file index) file_uid)"

section \<open>Type-only imports\<close>

datatype type_only_disposition = TypeOnly | Runtime | TO_Unreadable

definition to_column_code :: "type_only_disposition \<Rightarrow> int" where
  "to_column_code d = (case d of Runtime \<Rightarrow> 0 | TypeOnly \<Rightarrow> 1 | TO_Unreadable \<Rightarrow> 2)"

definition from_column_code :: "int option \<Rightarrow> type_only_disposition option" where
  "from_column_code code = (case code of
     None \<Rightarrow> None
   | Some c \<Rightarrow> if c = 0 then Some Runtime else if c = 1 then Some TypeOnly else Some TO_Unreadable)"

definition type_only_disposition_of ::
  "(string \<Rightarrow> json option) \<Rightarrow> string option \<Rightarrow> type_only_disposition option" where
  "type_only_disposition_of from_str metadata_json = (case metadata_json of
     None \<Rightarrow> None
   | Some raw \<Rightarrow> (case from_str raw of
       None \<Rightarrow> Some TO_Unreadable
     | Some value \<Rightarrow> (case json_lookup value ''isTypeOnly'' of
         None \<Rightarrow> None
       | Some (JBool b) \<Rightarrow> Some (if b then TypeOnly else Runtime)
       | Some _ \<Rightarrow> Some TO_Unreadable)))"

definition aggregate_module_edge_type_only :: "type_only_disposition option list \<Rightarrow> type_only_disposition option" where
  "aggregate_module_edge_type_only contributors =
     (if contributors = [] then None
      else if Some Runtime \<in> set contributors then Some Runtime
      else if Some TO_Unreadable \<in> set contributors then Some TO_Unreadable
      else if None \<in> set contributors then None
      else Some TypeOnly)"

lemma column_code_roundtrip: "from_column_code (Some (to_column_code d)) = Some d"
  by (cases d) (simp_all add: from_column_code_def to_column_code_def)

text \<open>The aggregate claims type-only exactly if there is an import and all of them are type-only.\<close>

lemma aggregate_type_only_iff:
  "aggregate_module_edge_type_only cs = Some TypeOnly \<longleftrightarrow> cs \<noteq> [] \<and> (\<forall>c \<in> set cs. c = Some TypeOnly)"
proof -
  have eq: "c = Some TypeOnly \<longleftrightarrow> c \<noteq> None \<and> c \<noteq> Some Runtime \<and> c \<noteq> Some TO_Unreadable" for c
    by (metis option.distinct(1) option.exhaust option.inject type_only_disposition.distinct(1,3) type_only_disposition.exhaust)
  have ne: "(\<forall>c \<in> S. c \<noteq> x) \<longleftrightarrow> x \<notin> S" for S and x :: "type_only_disposition option" by blast
  have "(\<forall>c \<in> set cs. c = Some TypeOnly) \<longleftrightarrow> None \<notin> set cs \<and> Some Runtime \<notin> set cs \<and> Some TO_Unreadable \<notin> set cs"
    unfolding eq ball_conj_distrib ne by (rule refl)
  then show ?thesis by (simp add: aggregate_module_edge_type_only_def)
qed

text \<open>The order of the imports does not matter.\<close>

lemma aggregate_set:
  assumes "set cs = set ds"
  shows "aggregate_module_edge_type_only cs = aggregate_module_edge_type_only ds"
proof -
  have "cs = [] \<longleftrightarrow> ds = []" using assms by (metis set_empty)
  then show ?thesis by (simp add: aggregate_module_edge_type_only_def assms)
qed

section \<open>What a workspace import is bound to\<close>

lemma workspace_bound_iff:
  "match_workspace_package_import specifier packages is_indexed = WM_Bound e ds \<longleftrightarrow>
     specifier \<noteq> '''' \<and> \<not> starts_with specifier ''.'' \<and> \<not> starts_with specifier ''/'' \<and> CHR '':'' \<notin> set specifier \<and>
     (\<exists>m. map_of packages specifier = Some [m] \<and> nw_declared_entries m \<noteq> [] \<and>
        (\<forall>entry \<in> set (nw_declared_entries m). \<not> declared_entry_indexed is_indexed entry) \<and>
        member_source_entries is_indexed m = [e] \<and> ds = map entry_path (nw_declared_entries m))"
  by (auto simp: match_workspace_package_import_def contains_char_def Let_def list_ex_iff split: option.splits list.splits)

end
