(* ===== verification/Edge_Resolver.thy ===== *)
theory Edge_Resolver
  imports Import_Stages State_Emitter
begin

text \<open>
  Resolution of symbolic edges to nodes, \<open>indexer/src/resolver.rs\<close>: the ladder of import stages, the binding of calls, the
  hierarchy walk of Python self calls, the categories of what stays unresolved, and the maps the ladder reads.

  Parameters: \<open>from_str\<close> is \<open>serde_json::from_str\<close> to a JSON value, \<open>print\<close> is \<open>Value::to_string\<close>. Names and paths are ASCII
  text. The map of declared crates is an association list, its order that of the iteration.
\<close>

section \<open>Metadata\<close>

type_synonym json_reader = "string \<Rightarrow> json option"
type_synonym json_printer = "json \<Rightarrow> string"

fun as_str :: "json \<Rightarrow> string option" where
  "as_str (JString s) = Some s"
| "as_str _ = None"

fun as_array :: "json \<Rightarrow> json list option" where
  "as_array (JArray xs) = Some xs"
| "as_array _ = None"

fun as_object :: "json \<Rightarrow> (string \<times> json) list option" where
  "as_object (JObject kvs) = Some kvs"
| "as_object _ = None"

text \<open>\<open>collect::<Option<Vec<_>>>()\<close>\<close>

fun collect_some :: "'a option list \<Rightarrow> 'a list option" where
  "collect_some [] = Some []"
| "collect_some (x # xs) = Option.bind x (\<lambda>y. map_option ((#) y) (collect_some xs))"

definition string_list :: "json \<Rightarrow> string list option" where
  "string_list j = Option.bind (as_array j) (\<lambda>xs. collect_some (map as_str xs))"

definition json_strings :: "string list \<Rightarrow> json" where
  "json_strings xs = JArray (map JString xs)"

datatype forward_decl_read = FD_ForwardDecl | FD_Definition | FD_Unreadable

definition classify_forward_decl :: "json_reader \<Rightarrow> string option \<Rightarrow> forward_decl_read" where
  "classify_forward_decl from_str metadata_json = (case metadata_json of
     None \<Rightarrow> FD_Definition
   | Some raw \<Rightarrow> (case from_str raw of
       None \<Rightarrow> FD_Unreadable
     | Some value \<Rightarrow> (case json_lookup value ''forward_decl'' of
         None \<Rightarrow> FD_Definition
       | Some (JBool b) \<Rightarrow> if b then FD_ForwardDecl else FD_Definition
       | Some _ \<Rightarrow> FD_Unreadable)))"

definition metadata_forward_decl :: "json_reader \<Rightarrow> string option \<Rightarrow> bool" where
  "metadata_forward_decl from_str metadata_json = (case classify_forward_decl from_str metadata_json of
     FD_ForwardDecl \<Rightarrow> True | FD_Definition \<Rightarrow> False | FD_Unreadable \<Rightarrow> True)"

record rust_mod_declaration =
  md_name :: string
  md_inline_path :: "string list"

type_synonym rust_mod_decls_by_file = "string \<rightharpoonup> rust_mod_declaration set"

definition rust_mod_decl_of :: "json \<Rightarrow> rust_mod_declaration option" where
  "rust_mod_decl_of entry = Option.bind (Option.bind (json_lookup entry ''name'') as_str) (\<lambda>name.
     map_option (\<lambda>inline. \<lparr>md_name = name, md_inline_path = inline\<rparr>)
       (case json_lookup entry ''inline_path'' of None \<Rightarrow> Some [] | Some l \<Rightarrow> string_list l))"

definition rust_mod_decls_from_metadata :: "json_reader \<Rightarrow> string option \<Rightarrow> rust_mod_declaration set" where
  "rust_mod_decls_from_metadata from_str metadata_json =
     (case Option.bind (Option.bind (Option.bind metadata_json from_str) (\<lambda>v. json_lookup v ''rust_mod_decls'')) as_array of
        None \<Rightarrow> {}
      | Some entries \<Rightarrow> set (filter_map rust_mod_decl_of entries))"

definition superclass_part :: "string \<Rightarrow> string option" where
  "superclass_part part =
     (let part = trim part
      in if part = '''' \<or> contains_char part (CHR ''='') then None
         else
           (let base = trim (hd (split_on (CHR ''['') part)); simple = trim (rsplit_next base (CHR ''.''))
            in if simple = '''' \<or> \<not> list_all (\<lambda>c. is_ascii_alphanumeric c \<or> c = CHR ''_'') simple then None else Some simple))"

definition superclasses_from_metadata :: "json_reader \<Rightarrow> string option \<Rightarrow> string list" where
  "superclasses_from_metadata from_str metadata_json =
     (case Option.bind (Option.bind (Option.bind metadata_json from_str) (\<lambda>v. json_lookup v ''superclass'')) as_str of
        None \<Rightarrow> []
      | Some superclass \<Rightarrow> filter_map superclass_part (split_on (CHR '','') superclass))"

section \<open>Outcomes and the index\<close>

datatype target_resolution =
    TR_Resolved string
  | TR_Unresolved
  | TR_Ambiguous "string list"
  | TR_JavaWildcard
  | TR_JavaAmbiguousSuffix
  | TR_SelfCallAmbiguousMro "string list"
  | TR_InferredImport string string string
  | TR_IncludeBound string resolution string
  | TR_IncludeAmbiguous string
  | TR_WorkspaceSourceEntryBound string string
  | TR_WorkspaceSourceEntryAmbiguous string
  | TR_TsconfigPathsBound string string
  | TR_TsconfigPathsAmbiguous string
  | TR_InferredNameOnly string string string
  | TR_AmbiguousNameOnly "string list"
  | TR_SelfCallHierarchyMiss "string list"
  | TR_SelfCallReceiverUnproven "string list"
  | TR_SelfCallWithoutClassContext "string list"

record resolver_node =
  rn_node_uid :: string
  rn_stable_key :: string
  rn_name :: string
  rn_qualified_name :: "string option"
  rn_kind :: string
  rn_subtype :: "string option"
  rn_file_uid :: "string option"
  rn_forward_decl :: bool
  rn_superclasses :: "string list"

type_synonym java_suffix_index = "string \<rightharpoonup> string list"

record resolver_index =
  ri_nodes_by_stable_key :: "string \<rightharpoonup> resolver_node"
  ri_nodes_by_name :: "string \<rightharpoonup> resolver_node list"
  ri_nodes_by_qualified_name :: "string \<rightharpoonup> resolver_node list"
  ri_nodes_by_uid :: "string \<rightharpoonup> resolver_node"
  ri_node_uid_to_file_uid :: "string \<rightharpoonup> string"
  ri_file_resolution :: "string \<rightharpoonup> string"
  ri_per_file_include_resolution :: "string \<rightharpoonup> (string \<rightharpoonup> string)"
  ri_stable_key_to_uid :: "string \<rightharpoonup> string"
  ri_file_to_module :: "(string \<times> string) list"
  ri_include_resolver :: "include_resolution_map option"
  ri_rust_crate_roots :: "(string \<times> string) list"
  ri_java_suffix_index :: java_suffix_index
  ri_npm_workspace_packages :: npm_workspace_packages
  ri_tsconfig_paths :: tsconfig_paths_index

record resolved_edge_row =
  re_edge_uid :: string
  re_snapshot_uid :: string
  re_repo_uid :: string
  re_source_node_uid :: string
  re_target_node_uid :: string
  re_edge_type :: indexer_edge_type
  re_resolution :: resolution
  re_extractor :: string
  re_location :: "source_location option"
  re_metadata_json :: "string option"

record categorized_unresolved_edge =
  cu_edge :: extracted_edge
  cu_category :: unresolved_edge_category
  cu_source_file_uid :: "string option"

record resolution_result =
  rr_resolved :: "resolved_edge_row list"
  rr_still_unresolved :: "categorized_unresolved_edge list"
  rr_resolved_import_pairs :: "(string \<times> string \<times> type_only_disposition option) list"

type_synonym import_bindings_by_file = "string \<rightharpoonup> import_binding list"

definition RUST_EXTRACTOR_PREFIX :: string where
  "RUST_EXTRACTOR_PREFIX = ''rust-core:''"

definition JAVA_EXTRACTOR_PREFIX :: string where
  "JAVA_EXTRACTOR_PREFIX = ''java-core:''"

definition PYTHON_EXTRACTOR_PREFIX :: string where
  "PYTHON_EXTRACTOR_PREFIX = ''python-core:''"

definition TS_EXTRACTOR_PREFIX :: string where
  "TS_EXTRACTOR_PREFIX = ''ts-core:''"

definition PYTHON_EXTRACTOR_BEFORE_RECEIVER_BINDING :: string where
  "PYTHON_EXTRACTOR_BEFORE_RECEIVER_BINDING = ''python-core:0.1.0''"

definition C_EXTRACTOR_PREFIX :: string where
  "C_EXTRACTOR_PREFIX = ''c-core:''"

definition CPP_EXTRACTOR_PREFIX :: string where
  "CPP_EXTRACTOR_PREFIX = ''cpp-core:''"

definition is_c_family_extractor :: "string \<Rightarrow> bool" where
  "is_c_family_extractor extractor \<longleftrightarrow> starts_with extractor C_EXTRACTOR_PREFIX \<or> starts_with extractor CPP_EXTRACTOR_PREFIX"

text \<open>\<open>Option::or_else\<close>, on a pure alternative.\<close>

fun or_else :: "'a option \<Rightarrow> 'a option \<Rightarrow> 'a option" where
  "or_else (Some x) y = Some x"
| "or_else None y = y"

section \<open>Candidates\<close>

definition is_type_only_subtype :: "string option \<Rightarrow> bool" where
  "is_type_only_subtype subtype \<longleftrightarrow> subtype = Some ''TYPE_ALIAS'' \<or> subtype = Some ''INTERFACE''"

definition filter_by_edge_affinity :: "resolver_node list \<Rightarrow> indexer_edge_type \<Rightarrow> bool \<Rightarrow> resolver_node list" where
  "filter_by_edge_affinity candidates edge_type c_family_implements =
     (if edge_type = ET_Instantiates then filter (\<lambda>n. rn_subtype n = Some ''CLASS'') candidates
      else if edge_type = ET_Implements
      then (if c_family_implements
            then filter (\<lambda>n. rn_subtype n = Some ''CLASS'' \<or> rn_subtype n = Some ''STRUCT'') candidates
            else filter (\<lambda>n. rn_subtype n = Some ''INTERFACE'') candidates)
      else if edge_type = ET_Calls then filter (\<lambda>n. \<not> is_type_only_subtype (rn_subtype n)) candidates
      else candidates)"

definition resolution_pool :: "resolver_node list \<Rightarrow> indexer_edge_type \<Rightarrow> bool \<Rightarrow> resolver_node list" where
  "resolution_pool candidates edge_type c_family_implements =
     (let filtered = filter_by_edge_affinity candidates edge_type c_family_implements;
          non_decl = filter (\<lambda>n. \<not> rn_forward_decl n) filtered
      in if non_decl = [] then filtered else non_decl)"

definition pick_unambiguous :: "resolver_node list option \<Rightarrow> indexer_edge_type \<Rightarrow> bool \<Rightarrow> string option" where
  "pick_unambiguous candidates edge_type c_family_implements = Option.bind candidates (\<lambda>candidates.
     if candidates = [] then None
     else case resolution_pool candidates edge_type c_family_implements of
       [n] \<Rightarrow> Some (rn_node_uid n)
     | _ \<Rightarrow> None)"

definition resolve_named_target ::
  "string \<Rightarrow> (string \<rightharpoonup> resolver_node list) \<Rightarrow> indexer_edge_type \<Rightarrow> string \<Rightarrow> string option" where
  "resolve_named_target target_key nodes_by_name edge_type extractor =
     pick_unambiguous (nodes_by_name target_key) edge_type (edge_type = ET_Implements \<and> is_c_family_extractor extractor)"

definition option_to_resolution :: "string option \<Rightarrow> target_resolution" where
  "option_to_resolution opt = (case opt of Some uid \<Rightarrow> TR_Resolved uid | None \<Rightarrow> TR_Unresolved)"

section \<open>Imports\<close>

definition node_uid_at :: "resolver_index \<Rightarrow> string \<Rightarrow> string option" where
  "node_uid_at index key = map_option rn_node_uid (ri_nodes_by_stable_key index key)"

definition rust_src_prefix :: "string \<Rightarrow> string" where
  "rust_src_prefix crate_root = (if crate_root = ''.'' \<or> crate_root = '''' then ''src'' else crate_root @ ''/src'')"

definition probe_file :: "(string \<rightharpoonup> string) \<Rightarrow> string \<Rightarrow> string \<Rightarrow> string option" where
  "probe_file file_resolution repo_uid rel_path = file_resolution (file_stable_key repo_uid rel_path)"

function rust_module_ladder ::
  "string \<Rightarrow> string list \<Rightarrow> (string \<rightharpoonup> string) \<Rightarrow> string \<Rightarrow> string option" where
  "rust_module_ladder src_prefix segs file_resolution repo_uid =
     (if segs = []
      then or_else (probe_file file_resolution repo_uid (src_prefix @ ''/lib.rs''))
             (probe_file file_resolution repo_uid (src_prefix @ ''/main.rs''))
      else or_else (probe_file file_resolution repo_uid (src_prefix @ ''/'' @ join_with (CHR ''/'') segs @ ''.rs''))
             (or_else (probe_file file_resolution repo_uid (src_prefix @ ''/'' @ join_with (CHR ''/'') segs @ ''/mod.rs''))
                (rust_module_ladder src_prefix (butlast segs) file_resolution repo_uid)))"
  by pat_completeness auto
termination by (relation "measure (\<lambda>(_, segs, _). length segs)") auto

declare rust_module_ladder.simps [simp del]

definition resolve_rust_crate_import ::
  "string \<Rightarrow> (string \<times> string) list \<Rightarrow> (string \<rightharpoonup> string) \<Rightarrow> string \<Rightarrow> string option" where
  "resolve_rust_crate_import target_key rust_crate_roots file_resolution repo_uid =
     (if rust_crate_roots = [] then None
      else
        (let segs = split_str ''::'' target_key
         in if hd segs = '''' then None
            else case map_of rust_crate_roots (canonicalize_cargo_package_name (hd segs)) of
              None \<Rightarrow> None
            | Some crate_root \<Rightarrow> rust_module_ladder (rust_src_prefix crate_root) (tl segs) file_resolution repo_uid))"

record rust_use_site =
  us_source_path :: string
  us_inline_module_path :: "string list"
  us_declared_modules :: "rust_mod_declaration set option"

definition inline_module_path_of :: "json_reader \<Rightarrow> string option \<Rightarrow> string list option" where
  "inline_module_path_of from_str metadata_json = (case metadata_json of
     None \<Rightarrow> Some []
   | Some raw \<Rightarrow> Option.bind (Option.bind (from_str raw) as_object) (\<lambda>obj. case map_of obj ''inlineModulePath'' of
       None \<Rightarrow> Some []
     | Some l \<Rightarrow> string_list l))"

definition use_site_from_edge ::
  "json_reader \<Rightarrow> string \<Rightarrow> extracted_edge \<Rightarrow> rust_mod_declaration set option \<Rightarrow> rust_use_site option" where
  "use_site_from_edge from_str source_path edge declared_modules =
     map_option (\<lambda>inline. \<lparr>us_source_path = source_path, us_inline_module_path = inline, us_declared_modules = declared_modules\<rparr>)
       (inline_module_path_of from_str (xe_metadata_json edge))"

text \<open>\<open>Iterator::max_by_key\<close>: the last element with the greatest key.\<close>

fun max_by_key :: "('a \<Rightarrow> nat) \<Rightarrow> 'a list \<Rightarrow> 'a option" where
  "max_by_key key [] = None"
| "max_by_key key (x # xs) = (case max_by_key key xs of
     None \<Rightarrow> Some x
   | Some y \<Rightarrow> if key y < key x then Some x else Some y)"

definition enclosing_crate_root :: "(string \<times> string) list \<Rightarrow> string \<Rightarrow> string option" where
  "enclosing_crate_root rust_crate_roots source_path =
     max_by_key (\<lambda>root. if root = ''.'' then 0 else length root)
       (filter (\<lambda>root. root = ''.'' \<or> root = '''' \<or> starts_with source_path (root @ ''/'')) (map snd rust_crate_roots))"

definition module_of_file :: "string list \<Rightarrow> string list" where
  "module_of_file file_segs =
     (if file_segs = [''lib''] \<or> file_segs = [''main''] then []
      else if file_segs \<noteq> [] \<and> last file_segs = ''mod'' then butlast file_segs
      else file_segs)"

text \<open>The module that encloses a \<open>use\<close>, with the prefix of the sources of its crate.\<close>

definition enclosing_module :: "(string \<times> string) list \<Rightarrow> rust_use_site \<Rightarrow> (string \<times> string list) option" where
  "enclosing_module rust_crate_roots site =
     Option.bind (enclosing_crate_root rust_crate_roots (us_source_path site)) (\<lambda>crate_root.
     let src_prefix = rust_src_prefix crate_root
     in Option.bind (strip_prefix (us_source_path site) (src_prefix @ ''/'')) (\<lambda>rel.
        if starts_with rel ''bin/'' then None
        else Option.bind (strip_suffix rel ''.rs'') (\<lambda>rel.
          Some (src_prefix, module_of_file (split_on (CHR ''/'') rel) @ us_inline_module_path site))))"

definition sibling_declared ::
  "(string \<times> string) list \<Rightarrow> rust_use_site \<Rightarrow> (string \<rightharpoonup> string) \<Rightarrow> string \<Rightarrow> string \<Rightarrow> string list \<Rightarrow> string \<Rightarrow> bool" where
  "sibling_declared rust_crate_roots site file_resolution repo_uid src_prefix module first \<longleftrightarrow>
     map_of rust_crate_roots (canonicalize_cargo_package_name first) = None \<and>
     (case us_declared_modules site of
        None \<Rightarrow> False
      | Some decls \<Rightarrow> \<exists>d \<in> decls. md_name d = first \<and> md_inline_path d = us_inline_module_path site) \<and>
     (let first_dir = join_with (CHR ''/'') (module @ [first])
      in file_resolution (file_stable_key repo_uid (src_prefix @ ''/'' @ first_dir @ ''.rs'')) \<noteq> None \<or>
         file_resolution (file_stable_key repo_uid (src_prefix @ ''/'' @ first_dir @ ''/mod.rs'')) \<noteq> None)"

definition use_segments ::
  "(string \<times> string) list \<Rightarrow> rust_use_site \<Rightarrow> (string \<rightharpoonup> string) \<Rightarrow> string \<Rightarrow> string \<Rightarrow> string list \<Rightarrow> string list \<Rightarrow>
   string list option" where
  "use_segments rust_crate_roots site file_resolution repo_uid src_prefix module parts =
     (let first = hd parts
      in if first = ''crate'' then Some (tl parts)
         else if first = ''self'' then Some (module @ tl parts)
         else if first = ''super''
         then (let pops = length (takeWhile (\<lambda>p. p = ''super'') parts)
               in if length module < pops then None
                  else Some (take (length module - pops) module @ drop pops parts))
         else if first = '''' then None
         else if sibling_declared rust_crate_roots site file_resolution repo_uid src_prefix module first
         then Some (module @ parts) else None)"

definition resolve_rust_enclosing_module_import ::
  "string \<Rightarrow> rust_use_site \<Rightarrow> (string \<times> string) list \<Rightarrow> (string \<rightharpoonup> string) \<Rightarrow> string \<Rightarrow> string option" where
  "resolve_rust_enclosing_module_import target_key site rust_crate_roots file_resolution repo_uid =
     Option.bind (enclosing_module rust_crate_roots site) (\<lambda>(src_prefix, module).
     Option.bind (use_segments rust_crate_roots site file_resolution repo_uid src_prefix module (split_str ''::'' target_key)) (\<lambda>segs.
     Option.bind (rust_module_ladder src_prefix segs file_resolution repo_uid) (\<lambda>hit.
     if hit = file_stable_key repo_uid (us_source_path site) then None else Some hit)))"

text \<open>The stages of \<open>resolve_import_target\<close>, in order; each yields the node of its key or falls through.\<close>

definition resolve_import_target ::
  "string \<Rightarrow> resolver_index \<Rightarrow> string \<Rightarrow> (string \<rightharpoonup> string) option \<Rightarrow> bool \<Rightarrow> rust_use_site option \<Rightarrow> string option" where
  "resolve_import_target target_key index repo_uid tu_include_resolution is_rust_import rust_use_site =
     or_else (node_uid_at index target_key)
     (or_else (Option.bind (ri_file_resolution index target_key) (node_uid_at index))
     (or_else (Option.bind (Option.bind tu_include_resolution (\<lambda>tu_map. tu_map target_key)) (node_uid_at index))
     (or_else (if is_rust_import
        then Option.bind (resolve_rust_crate_import target_key (ri_rust_crate_roots index) (ri_file_resolution index) repo_uid)
               (node_uid_at index)
        else None)
     (or_else (Option.bind rust_use_site (\<lambda>site.
        Option.bind (resolve_rust_enclosing_module_import target_key site (ri_rust_crate_roots index) (ri_file_resolution index)
          repo_uid) (node_uid_at index)))
     (if contains_char target_key (CHR '':'') then None
      else or_else (Option.bind (ri_file_resolution index (file_stable_key repo_uid target_key)) (node_uid_at index))
             (node_uid_at index (file_stable_key repo_uid target_key)))))))"

section \<open>Java imports\<close>

datatype java_suffix_lookup = JS_Resolved string | JS_Ambiguous | JS_NotFound

definition path_has_boundary_suffix :: "string \<Rightarrow> string \<Rightarrow> bool" where
  "path_has_boundary_suffix path suffix \<longleftrightarrow> path = suffix \<or>
     (length suffix < length path \<and> ends_with path suffix \<and> path ! (length path - length suffix - 1) = CHR ''/'')"

text \<open>The loop over the prefixes of the segments, the longest first.\<close>

function java_levels :: "string list \<Rightarrow> java_suffix_index \<Rightarrow> java_suffix_lookup" where
  "java_levels sub index =
     (if sub = [] then JS_NotFound
      else case index (last sub @ ''.java'') of
        None \<Rightarrow> java_levels (butlast sub) index
      | Some paths \<Rightarrow>
          (case filter (\<lambda>path. path_has_boundary_suffix path (join_with (CHR ''/'') sub @ ''.java'')) paths of
             [] \<Rightarrow> java_levels (butlast sub) index
           | [path] \<Rightarrow> JS_Resolved path
           | _ \<Rightarrow> JS_Ambiguous))"
  by pat_completeness auto
termination by (relation "measure (\<lambda>(sub, _). length sub)") auto

declare java_levels.simps [simp del]

definition resolve_java_suffix :: "string \<Rightarrow> java_suffix_index \<Rightarrow> java_suffix_lookup" where
  "resolve_java_suffix target_key index =
     (let segs = split_on (CHR ''.'') target_key
      in if list_ex (\<lambda>s. s = '''') segs then JS_NotFound else java_levels segs index)"

definition resolve_java_import :: "string \<Rightarrow> resolver_index \<Rightarrow> string \<Rightarrow> target_resolution" where
  "resolve_java_import target_key index repo_uid =
     (if ends_with target_key ''.*'' then TR_JavaWildcard
      else case resolve_java_suffix target_key (ri_java_suffix_index index) of
        JS_Resolved rel_path \<Rightarrow> option_to_resolution (node_uid_at index (file_stable_key repo_uid rel_path))
      | JS_Ambiguous \<Rightarrow> TR_JavaAmbiguousSuffix
      | JS_NotFound \<Rightarrow> TR_Unresolved)"

fun build_java_suffix_index_from :: "java_suffix_index \<Rightarrow> string list \<Rightarrow> java_suffix_index" where
  "build_java_suffix_index_from index [] = index"
| "build_java_suffix_index_from index (path # paths) = build_java_suffix_index_from
     (if ends_with path ''.java'' then map_entry (rsplit_next path (CHR ''/'')) [] (\<lambda>ps. ps @ [path]) index else index) paths"

definition build_java_suffix_index :: "string list \<Rightarrow> java_suffix_index" where
  "build_java_suffix_index file_paths = build_java_suffix_index_from Map.empty file_paths"

section \<open>Stages with a carrier\<close>

text \<open>The carrier with the basis and the candidates of a stage merged in.\<close>

definition with_basis :: "json_printer \<Rightarrow> (string \<times> json) list \<Rightarrow> string \<Rightarrow> string list \<Rightarrow> string" where
  "with_basis print carrier basis candidates =
     print (JObject (set_entry ''candidates'' (json_strings candidates) (set_entry ''basis'' (JString basis) carrier)))"

definition INCLUDE_UNIQUE_SUFFIX_BASIS :: string where
  "INCLUDE_UNIQUE_SUFFIX_BASIS = ''unique_suffix''"

definition INCLUDE_UNIQUE_BASENAME_BASIS :: string where
  "INCLUDE_UNIQUE_BASENAME_BASIS = ''unique_basename''"

definition INCLUDE_AMBIGUOUS_SUFFIX_BASIS :: string where
  "INCLUDE_AMBIGUOUS_SUFFIX_BASIS = ''ambiguous_suffix''"

definition INCLUDE_AMBIGUOUS_BASENAME_BASIS :: string where
  "INCLUDE_AMBIGUOUS_BASENAME_BASIS = ''ambiguous_basename''"

definition include_carrier :: "json_reader \<Rightarrow> string option \<Rightarrow> (string \<times> json) list option" where
  "include_carrier from_str metadata_json = (case metadata_json of
     None \<Rightarrow> Some []
   | Some raw \<Rightarrow> Option.bind (from_str raw) as_object)"

definition resolve_include_suffix_or_basename ::
  "json_reader \<Rightarrow> json_printer \<Rightarrow> extracted_edge \<Rightarrow> resolver_index \<Rightarrow> target_resolution option" where
  "resolve_include_suffix_or_basename from_str print edge index =
     Option.bind (ri_include_resolver index) (\<lambda>include_map.
     Option.bind (include_carrier from_str (xe_metadata_json edge)) (\<lambda>carrier.
     let file_key = file_stable_key (xe_repo_uid edge);
         bound = (\<lambda>basis path res. map_option (\<lambda>uid. TR_IncludeBound uid res (with_basis print carrier basis [file_key path]))
           (node_uid_at index (file_key path)));
         ambiguous = (\<lambda>basis paths. Some (TR_IncludeAmbiguous (with_basis print carrier basis (map file_key paths))))
     in case match_path_suffix_or_basename include_map (xe_target_key edge) of
          IP_Declined \<Rightarrow> None
        | IP_NoMatch \<Rightarrow> None
        | IP_UniqueSuffix path \<Rightarrow> bound INCLUDE_UNIQUE_SUFFIX_BASIS path Res_Static
        | IP_UniqueBasename path \<Rightarrow> bound INCLUDE_UNIQUE_BASENAME_BASIS path Res_Inferred
        | IP_AmbiguousSuffix paths \<Rightarrow> ambiguous INCLUDE_AMBIGUOUS_SUFFIX_BASIS paths
        | IP_AmbiguousBasename paths \<Rightarrow> ambiguous INCLUDE_AMBIGUOUS_BASENAME_BASIS paths))"

text \<open>The carrier of a TypeScript import, whose \<open>rawPath\<close> must be the target of the edge.\<close>

definition raw_path_carrier :: "json_reader \<Rightarrow> extracted_edge \<Rightarrow> (string \<times> json) list option" where
  "raw_path_carrier from_str edge =
     Option.bind (Option.bind (Option.bind (xe_metadata_json edge) from_str) as_object) (\<lambda>carrier.
     if Option.bind (map_of carrier ''rawPath'') as_str = Some (xe_target_key edge) then Some carrier else None)"

definition resolve_workspace_package_import ::
  "json_reader \<Rightarrow> json_printer \<Rightarrow> extracted_edge \<Rightarrow> resolver_index \<Rightarrow> target_resolution option" where
  "resolve_workspace_package_import from_str print edge index =
     (if ri_npm_workspace_packages index = [] then None
      else Option.bind (raw_path_carrier from_str edge) (\<lambda>carrier.
        let file_key = file_stable_key (xe_repo_uid edge)
        in case match_workspace_package_import (xe_target_key edge) (ri_npm_workspace_packages index)
               (\<lambda>path. ri_nodes_by_stable_key index (file_key path) \<noteq> None) of
             WM_NotBound \<Rightarrow> None
           | WM_Bound source_entry declared_entries \<Rightarrow>
               map_option (\<lambda>uid. TR_WorkspaceSourceEntryBound uid (with_basis print carrier WORKSPACE_SOURCE_ENTRY_BASIS
                   (map file_key (source_entry # declared_entries))))
                 (node_uid_at index (file_key source_entry))
           | WM_Ambiguous source_entries declared_entries \<Rightarrow>
               Some (TR_WorkspaceSourceEntryAmbiguous (with_basis print carrier AMBIGUOUS_WORKSPACE_SOURCE_ENTRY_BASIS
                   (map file_key (source_entries @ declared_entries))))))"

definition is_relative_specifier :: "string \<Rightarrow> bool" where
  "is_relative_specifier specifier \<longleftrightarrow> specifier = ''.'' \<or> specifier = ''..'' \<or> starts_with specifier ''./'' \<or>
     starts_with specifier ''../'' \<or> starts_with specifier ''/''"

definition resolve_tsconfig_paths_import ::
  "json_reader \<Rightarrow> json_printer \<Rightarrow> extracted_edge \<Rightarrow> resolver_index \<Rightarrow> target_resolution option" where
  "resolve_tsconfig_paths_import from_str print edge index =
     (if tsconfig_paths_is_empty (ri_tsconfig_paths index) then None
      else Option.bind (raw_path_carrier from_str edge) (\<lambda>carrier.
        if is_relative_specifier (xe_target_key edge) then None
        else Option.bind (ri_node_uid_to_file_uid index (xe_source_node_uid edge)) (\<lambda>file_uid.
          Option.bind (hits_for (ri_tsconfig_paths index) file_uid (xe_target_key edge)) (\<lambda>hits. case hits of
            NoPatternMatches \<Rightarrow> None
          | SelectedPattern hits \<Rightarrow> (case sorted_list_of_set hits of
              [] \<Rightarrow> None
            | [key] \<Rightarrow> map_option (\<lambda>uid. TR_TsconfigPathsBound uid (with_basis print carrier TSCONFIG_PATHS_BASIS [key]))
                (node_uid_at index key)
            | keys \<Rightarrow> Some (TR_TsconfigPathsAmbiguous (with_basis print carrier AMBIGUOUS_TSCONFIG_PATHS_BASIS keys)))
          | TiedPatterns hits \<Rightarrow>
              (if hits = {} then None
               else Some (TR_TsconfigPathsAmbiguous
                 (with_basis print carrier TIED_TSCONFIG_PATHS_PATTERNS_BASIS (sorted_list_of_set hits))))))))"

section \<open>Python submodules\<close>

definition PYTHON_SUBMODULE_BASIS :: string where
  "PYTHON_SUBMODULE_BASIS = ''python_submodule''"

definition is_python_identifier :: "string \<Rightarrow> bool" where
  "is_python_identifier name = (case name of
     [] \<Rightarrow> False
   | c # cs \<Rightarrow> (is_ascii_alphabetic c \<or> c = CHR ''_'') \<and> list_all (\<lambda>c. is_ascii_alphanumeric c \<or> c = CHR ''_'') cs)"

definition python_imported_name :: "json_reader \<Rightarrow> string option \<Rightarrow> string option" where
  "python_imported_name from_str metadata_json =
     Option.bind (Option.bind (Option.bind (Option.bind metadata_json from_str) (\<lambda>v. json_lookup v ''importedName'')) as_str)
       (\<lambda>name. if is_python_identifier name then Some name else None)"

definition python_package_dir :: "string \<Rightarrow> string \<Rightarrow> string option" where
  "python_package_dir target_key repo_uid =
     Option.bind (if contains_char target_key (CHR '':'')
        then Option.bind (Option.bind (strip_prefix target_key repo_uid) (\<lambda>r. strip_prefix r '':'')) (\<lambda>r. strip_suffix r '':FILE'')
        else Some target_key)
       (\<lambda>dir. if dir \<noteq> '''' \<and> dir \<noteq> ''.'' \<and> \<not> starts_with dir ''/'' \<and> \<not> ends_with dir ''/'' then Some dir else None)"

definition python_binding_is_the_submodule_itself :: "import_binding \<Rightarrow> string \<Rightarrow> string \<Rightarrow> bool" where
  "python_binding_is_the_submodule_itself binding package_dotted name = (case ib_imported_name binding of
     Some imported \<Rightarrow> imported = name \<and> (ib_specifier binding = ''.'' \<or> ib_specifier binding = package_dotted)
   | None \<Rightarrow> ib_specifier binding = package_dotted @ ''.'' @ name)"

definition dotted :: "string \<Rightarrow> string" where
  "dotted path = map (\<lambda>c. if c = CHR ''/'' then CHR ''.'' else c) path"

text \<open>The two kinds of evidence that the package's init binds the name: a module-level symbol, or an import of it.\<close>

definition init_defines :: "resolver_index \<Rightarrow> string \<Rightarrow> string \<Rightarrow> bool" where
  "init_defines index init_file_uid name \<longleftrightarrow>
     list_ex (\<lambda>n. rn_kind n = ''SYMBOL'' \<and> rn_qualified_name n = Some name \<and>
         or_else (ri_node_uid_to_file_uid index (rn_node_uid n)) (rn_file_uid n) = Some init_file_uid)
       (case ri_nodes_by_name index name of None \<Rightarrow> [] | Some ns \<Rightarrow> ns)"

definition init_imports :: "import_bindings_by_file \<Rightarrow> string \<Rightarrow> string \<Rightarrow> string \<Rightarrow> bool" where
  "init_imports bindings init_file_uid package_dotted name \<longleftrightarrow>
     list_ex (\<lambda>b. ib_identifier b = name \<and> \<not> python_binding_is_the_submodule_itself b package_dotted name)
       (case bindings init_file_uid of None \<Rightarrow> [] | Some bs \<Rightarrow> bs)"

definition submodule_keys :: "string \<Rightarrow> string \<Rightarrow> string \<Rightarrow> string list" where
  "submodule_keys repo_uid package_dir name =
     [file_stable_key repo_uid (package_dir @ ''/'' @ name @ ''/__init__.py''),
      file_stable_key repo_uid (package_dir @ ''/'' @ name @ ''.py'')]"

definition resolve_python_submodule_import ::
  "json_reader \<Rightarrow> extracted_edge \<Rightarrow> resolver_index \<Rightarrow> import_bindings_by_file option \<Rightarrow> target_resolution option" where
  "resolve_python_submodule_import from_str edge index import_bindings =
     Option.bind (python_imported_name from_str (xe_metadata_json edge)) (\<lambda>name.
     Option.bind (python_package_dir (xe_target_key edge) (xe_repo_uid edge)) (\<lambda>dir.
     let init_key = file_stable_key (xe_repo_uid edge) (dir @ ''/__init__.py'')
     in Option.bind (ri_nodes_by_stable_key index init_key) (\<lambda>init_node.
     Option.bind (first_some (node_uid_at index) (submodule_keys (xe_repo_uid edge) dir name)) (\<lambda>target_uid.
     let keep_init = Some (TR_Resolved (rn_node_uid init_node))
     in case or_else (rn_file_uid init_node) (ri_node_uid_to_file_uid index (rn_node_uid init_node)) of
          None \<Rightarrow> keep_init
        | Some init_file_uid \<Rightarrow> (case import_bindings of
            None \<Rightarrow> keep_init
          | Some bindings \<Rightarrow>
              if init_defines index init_file_uid name then keep_init
              else if init_imports bindings init_file_uid (dotted dir) name then keep_init
              else Some (TR_InferredImport target_uid init_key PYTHON_SUBMODULE_BASIS))))))"

section \<open>The ladder\<close>

text \<open>The include resolver's answer for an import: a binding, an ambiguity that ends the ladder, or nothing.\<close>

definition include_stage :: "extracted_edge \<Rightarrow> resolver_index \<Rightarrow> target_resolution option" where
  "include_stage edge index =
     Option.bind (ri_include_resolver index) (\<lambda>include_map.
     Option.bind (ri_node_uid_to_file_uid index (xe_source_node_uid edge)) (\<lambda>fuid.
     Option.bind (split_once fuid (CHR '':'')) (\<lambda>(_, source_path).
     let r = map_resolve include_map source_path (xe_target_key edge) (xe_metadata_json edge = None)
     in case ix_status r of
          RS_Resolved \<Rightarrow> map_option TR_Resolved (Option.bind (ix_target_stable_key r) (node_uid_at index))
        | RS_Ambiguous \<Rightarrow> Some (TR_Ambiguous (ix_candidates r))
        | RS_Unresolved \<Rightarrow> None)))"

definition resolve_import_ladder ::
  "json_reader \<Rightarrow> json_printer \<Rightarrow> extracted_edge \<Rightarrow> resolver_index \<Rightarrow> rust_mod_decls_by_file \<Rightarrow> target_resolution" where
  "resolve_import_ladder from_str print edge index rust_mod_decls = (case include_stage edge index of
     Some r \<Rightarrow> r
   | None \<Rightarrow>
       (let source_file_uid = ri_node_uid_to_file_uid index (xe_source_node_uid edge);
            tu_includes = Option.bind source_file_uid (ri_per_file_include_resolution index);
            is_rust_import = starts_with (xe_extractor edge) RUST_EXTRACTOR_PREFIX;
            rust_use_site = (if is_rust_import
              then Option.bind source_file_uid (\<lambda>fuid. Option.bind (split_once fuid (CHR '':'')) (\<lambda>(_, source_path).
                     use_site_from_edge from_str source_path edge (rust_mod_decls fuid)))
              else None)
        in case resolve_import_target (xe_target_key edge) index (xe_repo_uid edge) tu_includes is_rust_import rust_use_site of
             Some uid \<Rightarrow> TR_Resolved uid
           | None \<Rightarrow>
               if starts_with (xe_extractor edge) JAVA_EXTRACTOR_PREFIX
               then resolve_java_import (xe_target_key edge) index (xe_repo_uid edge)
               else if is_c_family_extractor (xe_extractor edge)
               then (case resolve_include_suffix_or_basename from_str print edge index of
                       Some r \<Rightarrow> r | None \<Rightarrow> TR_Unresolved)
               else if starts_with (xe_extractor edge) TS_EXTRACTOR_PREFIX
               then (case or_else (resolve_tsconfig_paths_import from_str print edge index)
                            (resolve_workspace_package_import from_str print edge index) of
                       Some r \<Rightarrow> r | None \<Rightarrow> TR_Unresolved)
               else TR_Unresolved))"

section \<open>Paths of relative specifiers\<close>

definition relative_step :: "string list \<Rightarrow> string \<Rightarrow> string list" where
  "relative_step parts seg = (if seg = ''.'' then parts else if seg = ''..'' then butlast parts else parts @ [seg])"

definition resolve_relative_path :: "string \<Rightarrow> string \<Rightarrow> string" where
  "resolve_relative_path source_dir specifier =
     join_with (CHR ''/'') (foldl relative_step (if source_dir = '''' then [] else split_on (CHR ''/'') source_dir)
       (split_on (CHR ''/'') specifier))"

definition resolve_import_specifier_to_file :: "string \<Rightarrow> string \<Rightarrow> (string \<rightharpoonup> string) \<Rightarrow> string option" where
  "resolve_import_specifier_to_file specifier source_file_uid file_resolution =
     (if \<not> starts_with specifier ''.'' then None
      else Option.bind (split_once source_file_uid (CHR '':'')) (\<lambda>(repo_uid, source_path).
        map_option (\<lambda>key. case strip_suffix key '':FILE'' of Some file_uid \<Rightarrow> file_uid | None \<Rightarrow> key)
          (file_resolution (file_stable_key repo_uid (resolve_relative_path (get_directory source_path) specifier)))))"

section \<open>Receivers\<close>

datatype receiver_type_read = RT_Absent | RT_Present string | RT_Unreadable

datatype receiver_disposition = RD_Receiverless | RD_ExplicitThis | RD_Indirect receiver_type_read | RD_Unreadable

definition receiverless_unless_type_present :: "receiver_disposition \<Rightarrow> receiver_type_read \<Rightarrow> receiver_disposition" where
  "receiverless_unless_type_present disposition receiver_type = (case receiver_type of
     RT_Absent \<Rightarrow> disposition | RT_Present _ \<Rightarrow> RD_Unreadable | RT_Unreadable \<Rightarrow> RD_Unreadable)"

definition call_receiver_info :: "json_reader \<Rightarrow> string option \<Rightarrow> receiver_disposition" where
  "call_receiver_info from_str metadata_json = (case metadata_json of
     None \<Rightarrow> RD_Receiverless
   | Some raw \<Rightarrow> (case from_str raw of
       None \<Rightarrow> RD_Unreadable
     | Some value \<Rightarrow> (case as_object value of
         None \<Rightarrow> RD_Unreadable
       | Some obj \<Rightarrow>
           (let receiver_type = (case map_of obj ''receiverType'' of
                  None \<Rightarrow> RT_Absent
                | Some (JString s) \<Rightarrow> if s = '''' then RT_Unreadable else RT_Present s
                | Some _ \<Rightarrow> RT_Unreadable)
            in case map_of obj ''receiver'' of
                 None \<Rightarrow> receiverless_unless_type_present RD_Receiverless receiver_type
               | Some (JString s) \<Rightarrow>
                   if s = '''' then receiverless_unless_type_present RD_Receiverless receiver_type
                   else if s = ''this'' then receiverless_unless_type_present RD_ExplicitThis receiver_type
                   else RD_Indirect receiver_type
               | Some _ \<Rightarrow> RD_Unreadable))))"

definition qualified_container :: "string \<Rightarrow> string option" where
  "qualified_container qualified_name = before_last_str ''::'' qualified_name"

definition container_matches :: "string option \<Rightarrow> string \<Rightarrow> bool" where
  "container_matches qualified_name receiver_type = (case Option.bind qualified_name qualified_container of
     None \<Rightarrow> False
   | Some container \<Rightarrow>
       (let rt = trim_start_colons receiver_type
        in rt \<noteq> '''' \<and> (container = rt \<or> (\<not> contains_str rt ''::'' \<and> ends_with container (''::'' @ rt)))))"

definition enclosing_class_preference :: "resolver_node list \<Rightarrow> resolver_node option \<Rightarrow> string option" where
  "enclosing_class_preference pool caller =
     Option.bind (Option.bind (Option.bind caller rn_qualified_name) qualified_container) (\<lambda>caller_container.
     case filter (\<lambda>c. Option.bind (rn_qualified_name c) qualified_container = Some caller_container) pool of
       [c] \<Rightarrow> Some (rn_node_uid c)
     | _ \<Rightarrow> None)"

section \<open>Python self calls\<close>

definition DEPTH_CAP :: nat where
  "DEPTH_CAP = 16"

datatype self_call_resolution = SC_Resolved string | SC_AmbiguousMro "string list" | SC_NoHit

definition nodes_named :: "(string \<rightharpoonup> resolver_node list) \<Rightarrow> string \<Rightarrow> resolver_node list" where
  "nodes_named m name = (case m name of None \<Rightarrow> [] | Some ns \<Rightarrow> ns)"

definition the_only :: "'a list \<Rightarrow> 'a option" where
  "the_only xs = (case xs of [x] \<Rightarrow> Some x | _ \<Rightarrow> None)"

definition unique_class_in_file :: "string \<Rightarrow> string \<Rightarrow> (string \<rightharpoonup> resolver_node list) \<Rightarrow> resolver_node option" where
  "unique_class_in_file name file_uid nodes_by_name =
     the_only (filter (\<lambda>n. rn_subtype n = Some ''CLASS'' \<and> rn_file_uid n = Some file_uid) (nodes_named nodes_by_name name))"

definition unique_class_by_name :: "string \<Rightarrow> (string \<rightharpoonup> resolver_node list) \<Rightarrow> resolver_node option" where
  "unique_class_by_name name nodes_by_name =
     the_only (filter (\<lambda>n. rn_subtype n = Some ''CLASS'') (nodes_named nodes_by_name name))"

text \<open>The methods of the name that a class declares: their labels and uids.\<close>

definition class_hits :: "(string \<rightharpoonup> resolver_node list) \<Rightarrow> string \<Rightarrow> resolver_node \<Rightarrow> (string \<times> string) list" where
  "class_hits nodes_by_qualified_name method class_node =
     (let class_name = (case rn_qualified_name class_node of Some q \<Rightarrow> q | None \<Rightarrow> rn_name class_node);
          qualified = class_name @ ''.'' @ method
      in map (\<lambda>c. (case rn_qualified_name c of Some q \<Rightarrow> q | None \<Rightarrow> qualified, rn_node_uid c))
           (filter (\<lambda>c. rn_subtype c = Some ''METHOD'' \<and> rn_file_uid c = rn_file_uid class_node)
             (nodes_named nodes_by_qualified_name qualified)))"

text \<open>The superclasses of a class that resolve, in order, and the next frontier with the set of the visited uids.\<close>

definition class_bases :: "(string \<rightharpoonup> resolver_node list) \<Rightarrow> resolver_node \<Rightarrow> resolver_node list" where
  "class_bases nodes_by_name class_node = filter_map (\<lambda>base. unique_class_by_name base nodes_by_name) (rn_superclasses class_node)"

fun next_frontier :: "string set \<Rightarrow> resolver_node list \<Rightarrow> resolver_node list \<times> string set" where
  "next_frontier visited [] = ([], visited)"
| "next_frontier visited (n # ns) =
     (if rn_node_uid n \<in> visited then next_frontier visited ns
      else (let (rest, visited') = next_frontier (insert (rn_node_uid n) visited) ns in (n # rest, visited')))"

function self_call_walk ::
  "(string \<rightharpoonup> resolver_node list) \<Rightarrow> (string \<rightharpoonup> resolver_node list) \<Rightarrow> string \<Rightarrow> string set \<Rightarrow> resolver_node list \<Rightarrow> nat \<Rightarrow>
   self_call_resolution" where
  "self_call_walk by_name by_qualified method visited frontier depth =
     (if frontier = [] \<or> DEPTH_CAP < depth then SC_NoHit
      else case concat (map (class_hits by_qualified method) frontier) of
        [(_, uid)] \<Rightarrow> SC_Resolved uid
      | [] \<Rightarrow>
          (let (next, visited') = next_frontier visited (concat (map (class_bases by_name) frontier))
           in self_call_walk by_name by_qualified method visited' next (Suc depth))
      | hits \<Rightarrow> SC_AmbiguousMro (sort (map fst hits)))"
  by pat_completeness auto
termination
  by (relation "measure (\<lambda>(_, _, _, _, _, depth). Suc DEPTH_CAP - depth)") auto

declare self_call_walk.simps [simp del]

definition resolve_self_call ::
  "string \<Rightarrow> string \<Rightarrow> string \<Rightarrow> (string \<rightharpoonup> resolver_node list) \<Rightarrow> (string \<rightharpoonup> resolver_node list) \<Rightarrow> self_call_resolution" where
  "resolve_self_call enclosing_class method caller_file by_name by_qualified =
     (case unique_class_in_file enclosing_class caller_file by_name of
        None \<Rightarrow> SC_NoHit
      | Some own \<Rightarrow> self_call_walk by_name by_qualified method {rn_node_uid own} [own] 0)"

datatype receiver_binding_read = RB_Parameter | RB_Unproven | RB_Absent | RB_Unreadable

definition self_call_receiver_binding :: "json_reader \<Rightarrow> string option \<Rightarrow> receiver_binding_read" where
  "self_call_receiver_binding from_str metadata_json = (case Option.bind metadata_json from_str of
     None \<Rightarrow> RB_Unreadable
   | Some value \<Rightarrow> (case json_lookup value ''receiverBinding'' of
       None \<Rightarrow> RB_Absent
     | Some (JString s) \<Rightarrow>
         if s = ''parameter'' then RB_Parameter else if s = ''unproven'' then RB_Unproven else RB_Unreadable
     | Some _ \<Rightarrow> RB_Unreadable))"

definition self_call_enclosing_class :: "json_reader \<Rightarrow> string option \<Rightarrow> string option" where
  "self_call_enclosing_class from_str metadata_json = Option.bind (Option.bind metadata_json from_str) (\<lambda>value.
     if json_lookup value ''selfCall'' \<noteq> Some (JBool True) then None
     else Option.bind (Option.bind (json_lookup value ''enclosingClass'') as_str) (\<lambda>cls.
       if cls = '''' then None else Some cls))"

definition python_self_call_method :: "string \<Rightarrow> string option" where
  "python_self_call_method target_key = Option.bind (split_once target_key (CHR ''.'')) (\<lambda>(receiver, method).
     if (receiver = ''self'' \<or> receiver = ''cls'') \<and> method \<noteq> '''' \<and> \<not> contains_char method (CHR ''.'') then Some method else None)"

definition name_only_pool :: "resolver_node list option \<Rightarrow> resolver_node list" where
  "name_only_pool candidates = (case candidates of
     None \<Rightarrow> []
   | Some c \<Rightarrow> if c = [] then [] else resolution_pool c ET_Calls False)"

definition candidate_label :: "resolver_node \<Rightarrow> string" where
  "candidate_label n = (case rn_qualified_name n of Some q \<Rightarrow> q | None \<Rightarrow> rn_name n)"

definition sorted_candidate_labels :: "resolver_node list \<Rightarrow> string list" where
  "sorted_candidate_labels pool = sort (map candidate_label pool)"

section \<open>Calls\<close>

text \<open>The import bindings of the file of a node.\<close>

definition bindings_of :: "resolver_index \<Rightarrow> import_bindings_by_file option \<Rightarrow> string \<Rightarrow> import_binding list option" where
  "bindings_of index import_bindings source_node_uid = Option.bind import_bindings (\<lambda>m.
     Option.bind (ri_node_uid_to_file_uid index source_node_uid) m)"

definition in_file :: "string \<Rightarrow> resolver_node list \<Rightarrow> resolver_node list" where
  "in_file file_uid ns = filter (\<lambda>n. rn_file_uid n = Some file_uid) ns"

definition resolve_namespace_member ::
  "string \<Rightarrow> string \<Rightarrow> resolver_index \<Rightarrow> import_bindings_by_file option \<Rightarrow> string option" where
  "resolve_namespace_member target_key source_node_uid index import_bindings =
     (if \<not> contains_char target_key (CHR ''.'') then None
      else Option.bind import_bindings (\<lambda>bindings_map.
        Option.bind (ri_node_uid_to_file_uid index source_node_uid) (\<lambda>source_file_uid.
        Option.bind (bindings_map source_file_uid) (\<lambda>bindings.
        Option.bind (split_once target_key (CHR ''.'')) (\<lambda>(prefix, member).
        Option.bind (List.find (\<lambda>b. ib_identifier b = prefix \<and> ib_kind b = IK_Namespace) bindings) (\<lambda>binding.
        Option.bind (resolve_import_specifier_to_file (ib_specifier binding) source_file_uid (ri_file_resolution index)) (\<lambda>file_uid.
        Option.bind (ri_nodes_by_name index (hd (split_on (CHR ''.'') member))) (\<lambda>candidates.
        pick_unambiguous (Some (in_file file_uid candidates)) ET_Calls False))))))))"

definition resolve_python_self_call ::
  "json_reader \<Rightarrow> string \<Rightarrow> string \<Rightarrow> string \<Rightarrow> string \<Rightarrow> string option \<Rightarrow> resolver_index \<Rightarrow> import_bindings_by_file option \<Rightarrow>
   target_resolution" where
  "resolve_python_self_call from_str target_key method source_node_uid extractor metadata_json index import_bindings =
     (let pool = sorted_candidate_labels (name_only_pool (ri_nodes_by_name index method));
          ns = resolve_namespace_member target_key source_node_uid index import_bindings;
          hierarchy = (\<lambda>enclosing_class.
            case (case ri_node_uid_to_file_uid index source_node_uid of
                    Some caller_file \<Rightarrow> resolve_self_call enclosing_class method caller_file (ri_nodes_by_name index)
                      (ri_nodes_by_qualified_name index)
                  | None \<Rightarrow> SC_NoHit) of
              SC_Resolved uid \<Rightarrow> TR_Resolved uid
            | SC_AmbiguousMro candidates \<Rightarrow> TR_SelfCallAmbiguousMro candidates
            | SC_NoHit \<Rightarrow> TR_SelfCallHierarchyMiss pool)
      in case self_call_enclosing_class from_str metadata_json of
           None \<Rightarrow> (case ns of Some uid \<Rightarrow> TR_Resolved uid | None \<Rightarrow> TR_SelfCallWithoutClassContext pool)
         | Some enclosing_class \<Rightarrow> (case self_call_receiver_binding from_str metadata_json of
             RB_Parameter \<Rightarrow> hierarchy enclosing_class
           | RB_Absent \<Rightarrow>
               if extractor = PYTHON_EXTRACTOR_BEFORE_RECEIVER_BINDING
               then (case ns of Some uid \<Rightarrow> TR_Resolved uid | None \<Rightarrow> hierarchy enclosing_class)
               else TR_SelfCallReceiverUnproven pool
           | RB_Unproven \<Rightarrow> TR_SelfCallReceiverUnproven pool
           | RB_Unreadable \<Rightarrow> TR_SelfCallReceiverUnproven pool))"

definition prefix_is_default_import :: "resolver_index \<Rightarrow> import_bindings_by_file option \<Rightarrow> string \<Rightarrow> string \<Rightarrow> bool" where
  "prefix_is_default_import index import_bindings source_node_uid prefix =
     (case bindings_of index import_bindings source_node_uid of
        None \<Rightarrow> False
      | Some bindings \<Rightarrow> list_ex (\<lambda>b. ib_identifier b = prefix \<and> ib_kind b = IK_Default) bindings)"

text \<open>The fallback for a dotted key: an answer, or nothing and the later stages go on.\<close>

definition dotted_name_fallback ::
  "string \<Rightarrow> string \<Rightarrow> bool \<Rightarrow> resolver_index \<Rightarrow> import_bindings_by_file option \<Rightarrow> target_resolution option" where
  "dotted_name_fallback target_key source_node_uid is_python index import_bindings =
     (if \<not> contains_char target_key (CHR ''.'') then None
      else
        (let parts = split_on (CHR ''.'') target_key; prefix = hd parts; method_name = last parts
         in if prefix_is_default_import index import_bindings source_node_uid prefix then None
            else if is_python
            then (case name_only_pool (ri_nodes_by_name index method_name) of
                    [] \<Rightarrow> None
                  | [n] \<Rightarrow> Some (TR_InferredNameOnly (rn_node_uid n)
                      (case rsplit_once target_key (CHR ''.'') of Some (r, _) \<Rightarrow> r | None \<Rightarrow> prefix) (candidate_label n))
                  | pool \<Rightarrow> Some (TR_AmbiguousNameOnly (sorted_candidate_labels pool)))
            else
              (let pick = pick_unambiguous (ri_nodes_by_name index method_name) ET_Calls False
               in map_option TR_Resolved (or_else (if prefix = ''this'' \<and> 3 \<le> length parts then pick else None) pick))))"

definition receiver_type_stage :: "receiver_disposition \<Rightarrow> string \<Rightarrow> resolver_index \<Rightarrow> string option" where
  "receiver_type_stage disposition target_key index = (case disposition of
     RD_Indirect (RT_Present receiver_type) \<Rightarrow> Option.bind (ri_nodes_by_name index target_key) (\<lambda>candidates.
       case filter (\<lambda>c. container_matches (rn_qualified_name c) receiver_type) (resolution_pool candidates ET_Calls False) of
         [c] \<Rightarrow> Some (rn_node_uid c)
       | _ \<Rightarrow> None)
   | _ \<Rightarrow> None)"

definition enclosing_class_stage ::
  "receiver_disposition \<Rightarrow> string \<Rightarrow> string \<Rightarrow> string \<Rightarrow> resolver_index \<Rightarrow> string option" where
  "enclosing_class_stage disposition target_key source_node_uid extractor index =
     (if is_c_family_extractor extractor \<and> (disposition = RD_Receiverless \<or> disposition = RD_ExplicitThis)
      then Option.bind (ri_nodes_by_name index target_key) (\<lambda>candidates.
        let pool = resolution_pool candidates ET_Calls False
        in if 1 < length pool then enclosing_class_preference pool (ri_nodes_by_uid index source_node_uid) else None)
      else None)"

definition named_import_stage :: "string \<Rightarrow> string \<Rightarrow> resolver_index \<Rightarrow> import_bindings_by_file option \<Rightarrow> string option" where
  "named_import_stage target_key source_node_uid index import_bindings =
     Option.bind import_bindings (\<lambda>bindings_map.
     Option.bind (ri_node_uid_to_file_uid index source_node_uid) (\<lambda>source_file_uid.
     Option.bind (bindings_map source_file_uid) (\<lambda>bindings.
     Option.bind (List.find (\<lambda>b. ib_identifier b = target_key) bindings) (\<lambda>binding.
     Option.bind (resolve_import_specifier_to_file (ib_specifier binding) source_file_uid (ri_file_resolution index)) (\<lambda>file_uid.
     Option.bind (ri_nodes_by_name index (case ib_imported_name binding of Some n \<Rightarrow> n | None \<Rightarrow> target_key)) (\<lambda>candidates.
     pick_unambiguous (Some (in_file file_uid candidates)) ET_Calls False))))))"

definition resolve_call_target ::
  "json_reader \<Rightarrow> string \<Rightarrow> string \<Rightarrow> string \<Rightarrow> string option \<Rightarrow> resolver_index \<Rightarrow> import_bindings_by_file option \<Rightarrow>
   target_resolution" where
  "resolve_call_target from_str target_key source_node_uid extractor metadata_json index import_bindings =
     (let disposition = call_receiver_info from_str metadata_json;
          is_python = starts_with extractor PYTHON_EXTRACTOR_PREFIX
      in case (if is_python then python_self_call_method target_key else None) of
           Some method \<Rightarrow> resolve_python_self_call from_str target_key method source_node_uid extractor metadata_json index
             import_bindings
         | None \<Rightarrow> (case resolve_namespace_member target_key source_node_uid index import_bindings of
             Some uid \<Rightarrow> TR_Resolved uid
           | None \<Rightarrow> (case dotted_name_fallback target_key source_node_uid is_python index import_bindings of
               Some r \<Rightarrow> r
             | None \<Rightarrow> option_to_resolution
                 (or_else (receiver_type_stage disposition target_key index)
                 (or_else (pick_unambiguous (ri_nodes_by_name index target_key) ET_Calls False)
                 (or_else (enclosing_class_stage disposition target_key source_node_uid extractor index)
                   (named_import_stage target_key source_node_uid index import_bindings)))))))"

section \<open>Dispatch\<close>

definition resolve_target ::
  "json_reader \<Rightarrow> json_printer \<Rightarrow> extracted_edge \<Rightarrow> resolver_index \<Rightarrow> import_bindings_by_file option \<Rightarrow>
   rust_mod_decls_by_file \<Rightarrow> target_resolution" where
  "resolve_target from_str print edge index import_bindings rust_mod_decls =
     (let named = option_to_resolution
            (resolve_named_target (xe_target_key edge) (ri_nodes_by_name index) (xe_edge_type edge) (xe_extractor edge))
      in if xe_edge_type edge = ET_Imports
         then (case (if starts_with (xe_extractor edge) PYTHON_EXTRACTOR_PREFIX
                     then resolve_python_submodule_import from_str edge index import_bindings else None) of
                 Some r \<Rightarrow> r
               | None \<Rightarrow> resolve_import_ladder from_str print edge index rust_mod_decls)
         else if xe_edge_type edge = ET_Calls
         then resolve_call_target from_str (xe_target_key edge) (xe_source_node_uid edge) (xe_extractor edge)
                (xe_metadata_json edge) index import_bindings
         else if xe_edge_type edge \<in> {ET_Reads, ET_Writes, ET_Accesses}
         then (case node_uid_at index (xe_target_key edge) of Some uid \<Rightarrow> TR_Resolved uid | None \<Rightarrow> named)
         else named)"

section \<open>Unresolved edges\<close>

definition categorize_unresolved_call :: "json_reader \<Rightarrow> extracted_edge \<Rightarrow> unresolved_edge_category" where
  "categorize_unresolved_call from_str edge =
     (let key = (case Option.bind (Option.bind (Option.bind (xe_metadata_json edge) from_str) (\<lambda>v. json_lookup v ''rawCalleeName'')) as_str of
            Some s \<Rightarrow> s | None \<Rightarrow> xe_target_key edge)
      in if starts_with key ''this.''
         then (if 1 < length (filter (\<lambda>c. c = CHR ''.'') key) then CallsThisWildcardMethodNeedsTypeInfo
               else CallsThisMethodNeedsClassContext)
         else if contains_char key (CHR ''.'') then CallsObjMethodNeedsTypeInfo
         else CallsFunctionAmbiguousOrMissing)"

definition categorize_unresolved_edge :: "json_reader \<Rightarrow> extracted_edge \<Rightarrow> unresolved_edge_category" where
  "categorize_unresolved_edge from_str edge =
     (if xe_edge_type edge = ET_Imports then ImportsFileNotFound
      else if xe_edge_type edge = ET_Instantiates then InstantiatesClassNotFound
      else if xe_edge_type edge = ET_Implements then ImplementsInterfaceNotFound
      else if xe_edge_type edge = ET_Calls then categorize_unresolved_call from_str edge
      else Category_Other)"

definition RECEIVER_UNTYPED_NAME_ONLY_BASIS :: string where
  "RECEIVER_UNTYPED_NAME_ONLY_BASIS = ''receiver_untyped_name_only''"

definition NAME_ONLY_REASON_AMBIGUOUS :: string where
  "NAME_ONLY_REASON_AMBIGUOUS = ''ambiguous_name''"

definition NAME_ONLY_REASON_SELF_CALL_HIERARCHY_MISS :: string where
  "NAME_ONLY_REASON_SELF_CALL_HIERARCHY_MISS = ''self_call_hierarchy_miss''"

definition NAME_ONLY_REASON_SELF_CALL_WITHOUT_CLASS_CONTEXT :: string where
  "NAME_ONLY_REASON_SELF_CALL_WITHOUT_CLASS_CONTEXT = ''self_call_without_class_context''"

definition NAME_ONLY_REASON_SELF_CALL_RECEIVER_UNPROVEN :: string where
  "NAME_ONLY_REASON_SELF_CALL_RECEIVER_UNPROVEN = ''self_call_receiver_unproven''"

definition merge_metadata :: "json_reader \<Rightarrow> json_printer \<Rightarrow> string option \<Rightarrow> (string \<times> json) list \<Rightarrow> string" where
  "merge_metadata from_str print metadata_json keys =
     (let obj = (case Option.bind (Option.bind metadata_json from_str) as_object of Some kvs \<Rightarrow> kvs | None \<Rightarrow> [])
      in print (JObject (fold (\<lambda>(k, v). set_entry k v) keys obj)))"

definition inject_mro_candidates :: "json_reader \<Rightarrow> json_printer \<Rightarrow> string option \<Rightarrow> string list \<Rightarrow> string" where
  "inject_mro_candidates from_str print metadata_json candidates =
     merge_metadata from_str print metadata_json [(''mroCandidates'', json_strings candidates)]"

definition inject_inferred_import_candidates ::
  "json_reader \<Rightarrow> json_printer \<Rightarrow> string option \<Rightarrow> string \<Rightarrow> string \<Rightarrow> string" where
  "inject_inferred_import_candidates from_str print metadata_json alternate basis =
     merge_metadata from_str print metadata_json [(''alternateTarget'', JString alternate), (''basis'', JString basis)]"

definition inject_name_only_binding :: "json_reader \<Rightarrow> json_printer \<Rightarrow> string option \<Rightarrow> string \<Rightarrow> string \<Rightarrow> string" where
  "inject_name_only_binding from_str print metadata_json receiver candidate =
     merge_metadata from_str print metadata_json
       [(''basis'', JString RECEIVER_UNTYPED_NAME_ONLY_BASIS), (''receiver'', JString receiver),
        (''candidates'', json_strings [candidate])]"

definition unresolved_row ::
  "resolver_index \<Rightarrow> extracted_edge \<Rightarrow> unresolved_edge_category \<Rightarrow> categorized_unresolved_edge" where
  "unresolved_row index edge category =
     \<lparr>cu_edge = edge, cu_category = category, cu_source_file_uid = ri_node_uid_to_file_uid index (xe_source_node_uid edge)\<rparr>"

definition declined_pool_row ::
  "json_reader \<Rightarrow> json_printer \<Rightarrow> extracted_edge \<Rightarrow> resolver_index \<Rightarrow> string list \<Rightarrow> string \<Rightarrow> categorized_unresolved_edge" where
  "declined_pool_row from_str print edge index pool reason =
     (let unresolved_edge = edge\<lparr>xe_metadata_json := Some (merge_metadata from_str print (xe_metadata_json edge)
            [(''nameOnlyCandidates'', json_strings pool), (''nameOnlyReason'', JString reason)])\<rparr>
      in unresolved_row index unresolved_edge (categorize_unresolved_edge from_str unresolved_edge))"

definition resolved_row :: "extracted_edge \<Rightarrow> string \<Rightarrow> resolution \<Rightarrow> string option \<Rightarrow> resolved_edge_row" where
  "resolved_row edge target_uid res metadata_json =
     \<lparr>re_edge_uid = xe_edge_uid edge, re_snapshot_uid = xe_snapshot_uid edge, re_repo_uid = xe_repo_uid edge,
      re_source_node_uid = xe_source_node_uid edge, re_target_node_uid = target_uid, re_edge_type = xe_edge_type edge,
      re_resolution = res, re_extractor = xe_extractor edge, re_location = xe_location edge, re_metadata_json = metadata_json\<rparr>"

definition import_edge_type_only :: "json_reader \<Rightarrow> extracted_edge \<Rightarrow> type_only_disposition option" where
  "import_edge_type_only from_str edge = type_only_disposition_of from_str (xe_metadata_json edge)"

section \<open>A batch\<close>

text \<open>What one edge adds to the result: a resolved row with the import pairs it feeds, or an unresolved row.\<close>

definition edge_outcome ::
  "json_reader \<Rightarrow> json_printer \<Rightarrow> resolver_index \<Rightarrow> extracted_edge \<Rightarrow> target_resolution \<Rightarrow>
   (resolved_edge_row \<times> bool) + categorized_unresolved_edge" where
  "edge_outcome from_str print index edge r =
     (let md = xe_metadata_json edge; with_metadata = (\<lambda>text. edge\<lparr>xe_metadata_json := Some text\<rparr>);
          category = categorize_unresolved_edge from_str
      in case r of
        TR_Resolved uid \<Rightarrow> Inl (resolved_row edge uid (xe_resolution edge) md, xe_edge_type edge = ET_Imports)
      | TR_Ambiguous _ \<Rightarrow> Inr (unresolved_row index edge ImportsAmbiguousMatch)
      | TR_JavaWildcard \<Rightarrow> Inr (unresolved_row index edge ImportsWildcard)
      | TR_JavaAmbiguousSuffix \<Rightarrow> Inr (unresolved_row index edge ImportsAmbiguousSuffix)
      | TR_SelfCallAmbiguousMro candidates \<Rightarrow>
          (let e = with_metadata (inject_mro_candidates from_str print md candidates) in Inr (unresolved_row index e (category e)))
      | TR_InferredImport uid alternate basis \<Rightarrow>
          Inl (resolved_row edge uid Res_Inferred (Some (inject_inferred_import_candidates from_str print md alternate basis)), False)
      | TR_IncludeBound uid res text \<Rightarrow> Inl (resolved_row edge uid res (Some text), res \<noteq> Res_Inferred)
      | TR_IncludeAmbiguous text \<Rightarrow> Inr (unresolved_row index (with_metadata text) ImportsAmbiguousMatch)
      | TR_WorkspaceSourceEntryBound uid text \<Rightarrow> Inl (resolved_row edge uid Res_Inferred (Some text), False)
      | TR_WorkspaceSourceEntryAmbiguous text \<Rightarrow> Inr (unresolved_row index (with_metadata text) (category edge))
      | TR_TsconfigPathsBound uid text \<Rightarrow> Inl (resolved_row edge uid Res_Static (Some text), True)
      | TR_TsconfigPathsAmbiguous text \<Rightarrow> Inr (unresolved_row index (with_metadata text) (category edge))
      | TR_InferredNameOnly uid receiver candidate \<Rightarrow>
          Inl (resolved_row edge uid Res_Inferred (Some (inject_name_only_binding from_str print md receiver candidate)), False)
      | TR_AmbiguousNameOnly pool \<Rightarrow> Inr (declined_pool_row from_str print edge index pool NAME_ONLY_REASON_AMBIGUOUS)
      | TR_SelfCallHierarchyMiss pool \<Rightarrow>
          Inr (declined_pool_row from_str print edge index pool NAME_ONLY_REASON_SELF_CALL_HIERARCHY_MISS)
      | TR_SelfCallReceiverUnproven pool \<Rightarrow>
          Inr (declined_pool_row from_str print edge index pool NAME_ONLY_REASON_SELF_CALL_RECEIVER_UNPROVEN)
      | TR_SelfCallWithoutClassContext pool \<Rightarrow>
          Inr (declined_pool_row from_str print edge index pool NAME_ONLY_REASON_SELF_CALL_WITHOUT_CLASS_CONTEXT)
      | TR_Unresolved \<Rightarrow> Inr (unresolved_row index edge (category edge)))"

fun resolve_loop_edges ::
  "json_reader \<Rightarrow> json_printer \<Rightarrow> resolver_index \<Rightarrow> import_bindings_by_file option \<Rightarrow> rust_mod_decls_by_file \<Rightarrow>
   extracted_edge list \<Rightarrow> resolution_result \<Rightarrow> resolution_result" where
  "resolve_loop_edges from_str print index bindings decls [] res = res"
| "resolve_loop_edges from_str print index bindings decls (edge # edges) res =
     resolve_loop_edges from_str print index bindings decls edges
       (case edge_outcome from_str print index edge (resolve_target from_str print edge index bindings decls) of
          Inl (row, certain) \<Rightarrow> res\<lparr>rr_resolved := rr_resolved res @ [row],
            rr_resolved_import_pairs := rr_resolved_import_pairs res @
              (if certain then [(re_source_node_uid row, re_target_node_uid row, import_edge_type_only from_str edge)] else [])\<rparr>
        | Inr row \<Rightarrow> res\<lparr>rr_still_unresolved := rr_still_unresolved res @ [row]\<rparr>)"

definition resolve_edges_with_rust_mod_decls ::
  "json_reader \<Rightarrow> json_printer \<Rightarrow> extracted_edge list \<Rightarrow> resolver_index \<Rightarrow> import_bindings_by_file option \<Rightarrow>
   rust_mod_decls_by_file \<Rightarrow> resolution_result" where
  "resolve_edges_with_rust_mod_decls from_str print edges index import_bindings rust_mod_decls =
     resolve_loop_edges from_str print index import_bindings rust_mod_decls edges
       \<lparr>rr_resolved = [], rr_still_unresolved = [], rr_resolved_import_pairs = []\<rparr>"

definition resolve_edges ::
  "json_reader \<Rightarrow> json_printer \<Rightarrow> extracted_edge list \<Rightarrow> resolver_index \<Rightarrow> import_bindings_by_file option \<Rightarrow> resolution_result" where
  "resolve_edges from_str print edges index import_bindings =
     resolve_edges_with_rust_mod_decls from_str print edges index import_bindings Map.empty"

end
