(* ===== verification/Edge_Index.thy ===== *)
theory Edge_Index
  imports Edge_Resolver
begin

text \<open>
  What the orchestrator builds around the resolver (\<open>indexer/src/orchestrator.rs\<close>): the maps over the file list, the index
  of the nodes of a snapshot, the directory modules, and the module edges with their type-only aggregate. Identifiers of
  new rows come from the parameter \<open>uuid\<close>.
\<close>

section \<open>Maps over the file list\<close>

definition get_module_path :: "string \<Rightarrow> string option" where
  "get_module_path file_path = Option.bind (rsplit_once file_path (CHR ''/'')) (\<lambda>(dir, _). if dir \<noteq> [] then Some dir else None)"

definition strip_extension :: "string \<Rightarrow> string" where
  "strip_extension path = (case rsplit_once path (CHR ''.'') of
     None \<Rightarrow> path
   | Some (stem, ext) \<Rightarrow> if ext \<in> set [''ts'', ''tsx'', ''js'', ''jsx'', ''py''] then stem else path)"

definition or_insert :: "'k \<Rightarrow> 'v \<Rightarrow> ('k \<rightharpoonup> 'v) \<Rightarrow> ('k \<rightharpoonup> 'v)" where
  "or_insert k v m = (if m k = None then m(k \<mapsto> v) else m)"

text \<open>The keys besides its own that a path offers, in the order they are tried.\<close>

definition shortcut_paths :: "string \<Rightarrow> string list" where
  "shortcut_paths path =
     [strip_extension path] @
     (if ends_with path ''/index.tsx'' then [take (length path - length ''/index.tsx'') path]
      else if ends_with path ''/index.ts'' then [take (length path - length ''/index.ts'') path] else []) @
     (if ends_with path ''/__init__.py'' then [take (length path - length ''/__init__.py'') path] else [])"

fun build_file_resolution_from :: "string \<Rightarrow> (string \<rightharpoonup> string) \<Rightarrow> string list \<Rightarrow> (string \<rightharpoonup> string)" where
  "build_file_resolution_from repo_uid m [] = m"
| "build_file_resolution_from repo_uid m (path # paths) =
     (let stable_key = file_stable_key repo_uid path
      in build_file_resolution_from repo_uid
           (fold (\<lambda>p. or_insert (file_stable_key repo_uid p) stable_key) (shortcut_paths path) (m(stable_key \<mapsto> stable_key))) paths)"

definition build_file_resolution_map :: "string list \<Rightarrow> string \<Rightarrow> (string \<rightharpoonup> string)" where
  "build_file_resolution_map file_paths repo_uid = build_file_resolution_from repo_uid Map.empty file_paths"

definition is_header :: "string \<Rightarrow> bool" where
  "is_header path \<longleftrightarrow> ends_with path ''.h'' \<or> ends_with path ''.hpp'' \<or> ends_with path ''.hxx''"

definition is_c_file :: "string \<Rightarrow> bool" where
  "is_c_file path \<longleftrightarrow> ends_with path ''.c'' \<or> ends_with path ''.cpp'' \<or> ends_with path ''.cc'' \<or> ends_with path ''.cxx'' \<or> is_header path"

definition module_dir :: "string \<Rightarrow> string" where
  "module_dir path = (case get_module_path path of Some dir \<Rightarrow> dir | None \<Rightarrow> '''')"

fun headers_by_dir :: "(string \<rightharpoonup> (string \<times> string) list) \<Rightarrow> string list \<Rightarrow> (string \<rightharpoonup> (string \<times> string) list)" where
  "headers_by_dir m [] = m"
| "headers_by_dir m (path # paths) = headers_by_dir
     (if is_header path then map_entry (module_dir path) [] (\<lambda>hs. hs @ [(rsplit_next path (CHR ''/''), path)]) m else m) paths"

fun per_file_includes ::
  "string \<Rightarrow> (string \<rightharpoonup> (string \<times> string) list) \<Rightarrow> (string \<rightharpoonup> (string \<rightharpoonup> string)) \<Rightarrow> string list \<Rightarrow> (string \<rightharpoonup> (string \<rightharpoonup> string))" where
  "per_file_includes repo_uid headers m [] = m"
| "per_file_includes repo_uid headers m (path # paths) = per_file_includes repo_uid headers
     (if is_c_file path
      then (case headers (module_dir path) of
              None \<Rightarrow> m
            | Some hs \<Rightarrow> if hs = [] then m
                else m(repo_uid @ '':'' @ path \<mapsto> insert_all Map.empty (map (\<lambda>(b, p). (b, file_stable_key repo_uid p)) hs)))
      else m) paths"

definition build_per_file_include_resolution :: "string list \<Rightarrow> string \<Rightarrow> (string \<rightharpoonup> (string \<rightharpoonup> string))" where
  "build_per_file_include_resolution file_paths repo_uid =
     per_file_includes repo_uid (headers_by_dir Map.empty file_paths) Map.empty file_paths"

section \<open>The index of a snapshot\<close>

definition rust_crate_roots_of :: "declared_module list \<Rightarrow> (string \<times> string) list" where
  "rust_crate_roots_of modules =
     fold (\<lambda>m. AList.update (canonicalize_cargo_package_name (dm_name m)) (dm_canonical_root m))
       (filter (\<lambda>m. dm_ecosystem m = ''cargo'') modules) []"

definition module_stable_key :: "string \<Rightarrow> string \<Rightarrow> string" where
  "module_stable_key repo_uid dir = repo_uid @ '':'' @ dir @ '':MODULE''"

text \<open>The body of the loop over the nodes.\<close>

definition index_node :: "string \<Rightarrow> resolver_node \<Rightarrow> resolver_index \<Rightarrow> resolver_index" where
  "index_node repo_uid n index = index\<lparr>
     ri_nodes_by_stable_key := (ri_nodes_by_stable_key index)(rn_stable_key n \<mapsto> n),
     ri_stable_key_to_uid := (ri_stable_key_to_uid index)(rn_stable_key n \<mapsto> rn_node_uid n),
     ri_nodes_by_name := map_entry (rn_name n) [] (\<lambda>ns. ns @ [n]) (ri_nodes_by_name index),
     ri_nodes_by_qualified_name := (case rn_qualified_name n of
       None \<Rightarrow> ri_nodes_by_qualified_name index
     | Some qn \<Rightarrow> map_entry qn [] (\<lambda>ns. ns @ [n]) (ri_nodes_by_qualified_name index)),
     ri_nodes_by_uid := (ri_nodes_by_uid index)(rn_node_uid n \<mapsto> n),
     ri_node_uid_to_file_uid := (case rn_file_uid n of
       None \<Rightarrow> ri_node_uid_to_file_uid index
     | Some fuid \<Rightarrow> (ri_node_uid_to_file_uid index)(rn_node_uid n \<mapsto> fuid)),
     ri_file_to_module :=
       (case (if rn_kind n = ''FILE'' then Option.bind (rn_qualified_name n) get_module_path else None) of
          None \<Rightarrow> ri_file_to_module index
        | Some dir \<Rightarrow> AList.update (rn_node_uid n) (module_stable_key repo_uid dir) (ri_file_to_module index))\<rparr>"

definition empty_index ::
  "string list \<Rightarrow> string \<Rightarrow> declared_module list \<Rightarrow> string list \<Rightarrow> resolver_index" where
  "empty_index file_paths repo_uid modules c_include_roots =
     \<lparr>ri_nodes_by_stable_key = Map.empty, ri_nodes_by_name = Map.empty, ri_nodes_by_qualified_name = Map.empty,
      ri_nodes_by_uid = Map.empty, ri_node_uid_to_file_uid = Map.empty,
      ri_file_resolution = build_file_resolution_map file_paths repo_uid,
      ri_per_file_include_resolution = build_per_file_include_resolution file_paths repo_uid,
      ri_stable_key_to_uid = Map.empty, ri_file_to_module = [],
      ri_include_resolver = Some (build_include_resolution_map file_paths repo_uid
        \<lparr>rc_configured_roots = c_include_roots, rc_derived_roots = []\<rparr>),
      ri_rust_crate_roots = rust_crate_roots_of modules,
      ri_java_suffix_index = build_java_suffix_index file_paths,
      ri_npm_workspace_packages = build_npm_workspace_packages modules,
      ri_tsconfig_paths = tsconfig_paths_default\<rparr>"

definition build_resolver_index ::
  "(string \<Rightarrow> stored_tsconfig_aliases option) \<Rightarrow> resolver_node list \<Rightarrow> string list \<Rightarrow> string \<Rightarrow> declared_module list \<Rightarrow> string list \<Rightarrow>
   (string \<times> string option) list \<Rightarrow> resolver_index" where
  "build_resolver_index decode nodes file_paths repo_uid modules c_include_roots alias_rows =
     (let index = fold (index_node repo_uid) nodes (empty_index file_paths repo_uid modules c_include_roots)
      in index\<lparr>ri_tsconfig_paths := tsconfig_paths_build decode alias_rows
                 (map rn_stable_key (filter (\<lambda>n. rn_kind n = ''FILE'') nodes))\<rparr>)"

definition rust_mod_decls_map :: "json_reader \<Rightarrow> extracted_node list \<Rightarrow> rust_mod_decls_by_file" where
  "rust_mod_decls_map from_str nodes =
     insert_all Map.empty (filter_map (\<lambda>n.
       let decls = rust_mod_decls_from_metadata from_str (xn_metadata_json n)
       in if decls = {} then None else map_option (\<lambda>file_uid. (file_uid, decls)) (xn_file_uid n))
     (filter (\<lambda>n. xn_kind n = NK_File) nodes))"

definition build_import_bindings_map ::
  "(string \<Rightarrow> import_binding list option) \<Rightarrow> (string \<times> string option) list \<Rightarrow> import_bindings_by_file" where
  "build_import_bindings_map decode signals =
     insert_all Map.empty (filter_map (\<lambda>(file_uid, text). map_option (Pair file_uid) (Option.bind text decode)) signals)"

section \<open>Directory modules\<close>

text \<open>The inner loop over the parents of a path; it stops at a directory already seen.\<close>

function add_parents :: "string set \<Rightarrow> string \<Rightarrow> string set" where
  "add_parents dirs path = (case rsplit_once path (CHR ''/'') of
     None \<Rightarrow> dirs
   | Some (dir, _) \<Rightarrow> if dir \<in> dirs then dirs else add_parents (insert dir dirs) dir)"
  by pat_completeness auto
termination
  by (relation "measure (\<lambda>(_, path). length path)") (auto dest!: rsplit_once_Some)

declare add_parents.simps [simp del]

definition module_dirs :: "string list \<Rightarrow> string set" where
  "module_dirs paths = fold (\<lambda>p dirs. add_parents dirs p) paths {}"

definition module_node :: "string \<Rightarrow> string \<Rightarrow> string \<Rightarrow> string \<Rightarrow> extracted_node" where
  "module_node uid repo_uid snapshot_uid dir =
     \<lparr>xn_node_uid = uid, xn_snapshot_uid = snapshot_uid, xn_repo_uid = repo_uid, xn_stable_key = module_stable_key repo_uid dir,
      xn_kind = NK_Module, xn_subtype = Some NS_Directory, xn_name = rsplit_next dir (CHR ''/''), xn_qualified_name = Some dir,
      xn_file_uid = None, xn_parent_node_uid = None, xn_location = None, xn_signature = None, xn_visibility = None,
      xn_doc_comment = None, xn_metadata_json = None\<rparr>"

definition create_module_nodes :: "(nat \<Rightarrow> string) \<Rightarrow> string list \<Rightarrow> string \<Rightarrow> string \<Rightarrow> extracted_node list" where
  "create_module_nodes uuid paths repo_uid snapshot_uid =
     map (\<lambda>(i, dir). module_node (uuid i) repo_uid snapshot_uid dir) (enumerate 0 (sorted_list_of_set (module_dirs paths)))"

section \<open>Module edges\<close>

definition INDEXER_VERSION :: string where
  "INDEXER_VERSION = ''indexer:1.10.0''"

definition inject_import_type_only :: "json_reader \<Rightarrow> json_printer \<Rightarrow> string option \<Rightarrow> bool \<Rightarrow> string option" where
  "inject_import_type_only from_str print metadata_json is_type_only =
     Some (merge_metadata from_str print metadata_json [(''isTypeOnly'', JBool is_type_only)])"

type_synonym import_pair = "string \<times> string \<times> type_only_disposition option"

text \<open>The module pair a file import contributes to, and the loop that gathers the contributions in first-seen order.\<close>

definition module_pair :: "resolver_index \<Rightarrow> import_pair \<Rightarrow> (string \<times> string) option" where
  "module_pair index p = (case p of (src_uid, tgt_uid, _) \<Rightarrow>
     (case (map_of (ri_file_to_module index) src_uid, map_of (ri_file_to_module index) tgt_uid) of
        (Some src_key, Some tgt_key) \<Rightarrow> if src_key = tgt_key then None else Some (src_key, tgt_key)
      | _ \<Rightarrow> None))"

fun gather_contributors ::
  "resolver_index \<Rightarrow> import_pair list \<Rightarrow> (string \<times> string) list \<Rightarrow>
   (string \<times> string \<rightharpoonup> type_only_disposition option list) \<Rightarrow>
   (string \<times> string) list \<times> (string \<times> string \<rightharpoonup> type_only_disposition option list)" where
  "gather_contributors index [] order contributors = (order, contributors)"
| "gather_contributors index (p # ps) order contributors = (case module_pair index p of
     None \<Rightarrow> gather_contributors index ps order contributors
   | Some pair \<Rightarrow> gather_contributors index ps (if contributors pair = None then order @ [pair] else order)
       (map_entry pair [] (\<lambda>cs. cs @ [snd (snd p)]) contributors))"

definition owns_edges ::
  "(nat \<Rightarrow> string) \<Rightarrow> resolver_index \<Rightarrow> string \<Rightarrow> string \<Rightarrow> resolved_edge_row list" where
  "owns_edges uuid index snapshot_uid repo_uid =
     map (\<lambda>(i, module_uid, file_uid).
         \<lparr>re_edge_uid = uuid i, re_snapshot_uid = snapshot_uid, re_repo_uid = repo_uid, re_source_node_uid = module_uid,
          re_target_node_uid = file_uid, re_edge_type = ET_Owns, re_resolution = Res_Static, re_extractor = INDEXER_VERSION,
          re_location = None, re_metadata_json = None\<rparr>)
       (enumerate 0 (filter_map (\<lambda>(file_uid, module_key).
          map_option (\<lambda>module_uid. (module_uid, file_uid)) (ri_stable_key_to_uid index module_key)) (ri_file_to_module index)))"

text \<open>The import edges of the gathered pairs and their stamps; \<open>i\<close> counts the identifiers drawn.\<close>

fun module_import_edges ::
  "(nat \<Rightarrow> string) \<Rightarrow> resolver_index \<Rightarrow> string \<Rightarrow> string \<Rightarrow> (string \<times> string \<rightharpoonup> type_only_disposition option list) \<Rightarrow> nat \<Rightarrow>
   (string \<times> string) list \<Rightarrow> resolved_edge_row list \<times> (string \<times> type_only_disposition) list" where
  "module_import_edges uuid index snapshot_uid repo_uid contributors i [] = ([], [])"
| "module_import_edges uuid index snapshot_uid repo_uid contributors i ((src_key, tgt_key) # pairs) =
     (case (ri_stable_key_to_uid index src_key, ri_stable_key_to_uid index tgt_key) of
        (Some su, Some tu) \<Rightarrow>
          (let aggregate = Option.bind (contributors (src_key, tgt_key)) aggregate_module_edge_type_only;
               (edges, updates) = module_import_edges uuid index snapshot_uid repo_uid contributors (Suc i) pairs
           in (\<lparr>re_edge_uid = uuid i, re_snapshot_uid = snapshot_uid, re_repo_uid = repo_uid, re_source_node_uid = su,
                re_target_node_uid = tu, re_edge_type = ET_Imports, re_resolution = Res_Static,
                re_extractor = INDEXER_VERSION, re_location = None, re_metadata_json = None\<rparr> # edges,
               (case aggregate of Some b \<Rightarrow> [(uuid i, b)] | None \<Rightarrow> []) @ updates))
      | _ \<Rightarrow> module_import_edges uuid index snapshot_uid repo_uid contributors i pairs)"

definition create_module_edges ::
  "(nat \<Rightarrow> string) \<Rightarrow> resolver_index \<Rightarrow> import_pair list \<Rightarrow> string \<Rightarrow> string \<Rightarrow>
   resolved_edge_row list \<times> (string \<times> type_only_disposition) list" where
  "create_module_edges uuid index pairs snapshot_uid repo_uid =
     (let owns = owns_edges uuid index snapshot_uid repo_uid;
          (order, contributors) = gather_contributors index pairs [] Map.empty;
          (edges, updates) = module_import_edges uuid index snapshot_uid repo_uid contributors (length owns) order
      in (owns @ edges, updates))"

text \<open>The certain calls, which the persisted tallies count.\<close>

definition is_certain_call :: "resolved_edge_row \<Rightarrow> bool" where
  "is_certain_call e \<longleftrightarrow> re_edge_type e = ET_Calls \<and> (re_resolution e = Res_Static \<or> re_resolution e = Res_Dynamic)"

end
