(* ===== verification/Edge_Resolver_Correct.thy ===== *)
theory Edge_Resolver_Correct
  imports Edge_Index "HOL-Library.Multiset"
begin

text \<open>
  Properties of the resolver over the index of a snapshot: every edge of a batch is accounted for once and every target is
  a node of the snapshot, and the hierarchy walk follows the breadth-first order of the superclasses.
\<close>

section \<open>The index holds the nodes of the snapshot\<close>

text \<open>What the loop over the nodes leaves in an index, from what was there before.\<close>

definition indexes :: "resolver_node list \<Rightarrow> resolver_index \<Rightarrow> bool" where
  "indexes nodes index \<longleftrightarrow>
     (\<forall>k n. ri_nodes_by_stable_key index k = Some n \<longrightarrow> n \<in> set nodes \<and> rn_stable_key n = k) \<and>
     (\<forall>n \<in> set nodes. ri_nodes_by_stable_key index (rn_stable_key n) \<noteq> None) \<and>
     (\<forall>name. nodes_named (ri_nodes_by_name index) name = filter (\<lambda>n. rn_name n = name) nodes) \<and>
     (\<forall>q. nodes_named (ri_nodes_by_qualified_name index) q = filter (\<lambda>n. rn_qualified_name n = Some q) nodes) \<and>
     (\<forall>u n. ri_nodes_by_uid index u = Some n \<longrightarrow> n \<in> set nodes \<and> rn_node_uid n = u)"

lemma nodes_named_map_entry:
  "nodes_named (map_entry k [] (\<lambda>ns. ns @ [n]) m) name = nodes_named m name @ (if name = k then [n] else [])"
  by (simp add: nodes_named_def map_entry_def split: option.split)

lemma indexes_node:
  assumes "indexes nodes index"
  shows "indexes (nodes @ [n]) (index_node repo_uid n index)"
  using assms
  by (auto simp: indexes_def index_node_def nodes_named_map_entry split: option.splits if_splits)

lemma indexes_fold: "indexes nodes index \<Longrightarrow> indexes (nodes @ more_nodes) (fold (index_node repo_uid) more_nodes index)"
  by (induction more_nodes arbitrary: nodes index) (simp, metis append_Cons append_Nil append_assoc fold_simps(2) indexes_node)

lemma indexes_empty: "indexes [] (empty_index file_paths repo_uid modules roots)"
  by (simp add: indexes_def empty_index_def nodes_named_def)

lemma indexes_build: "indexes nodes (build_resolver_index decode nodes file_paths repo_uid modules roots rows)"
  using indexes_fold [OF indexes_empty, of nodes repo_uid file_paths repo_uid modules roots]
  by (simp add: build_resolver_index_def indexes_def Let_def)

lemma node_uid_at_indexed: "indexes nodes index \<Longrightarrow> node_uid_at index k = Some uid \<Longrightarrow> uid \<in> rn_node_uid ` set nodes"
  by (auto simp: indexes_def node_uid_at_def)

lemma nodes_by_name_indexed:
  assumes "indexes nodes index" and "ri_nodes_by_name index name = Some ns"
  shows "ns = filter (\<lambda>n. rn_name n = name) nodes"
proof -
  have "nodes_named (ri_nodes_by_name index) name = ns" using assms(2) by (simp add: nodes_named_def)
  with assms(1) show ?thesis by (simp add: indexes_def)
qed

section \<open>Pools\<close>

lemma set_resolution_pool: "set (resolution_pool candidates t c) \<subseteq> set candidates"
  by (auto simp: resolution_pool_def filter_by_edge_affinity_def Let_def split: if_splits)

lemma pick_unambiguous_Some:
  "pick_unambiguous candidates t c = Some uid \<longleftrightarrow>
     (\<exists>ns n. candidates = Some ns \<and> resolution_pool ns t c = [n] \<and> rn_node_uid n = uid)"
proof -
  have "resolution_pool [] t c = []" using set_resolution_pool [of "[]"] by simp
  then show ?thesis
    by (cases candidates) (auto simp: pick_unambiguous_def split: list.splits)
qed

lemma pick_unambiguous_indexed:
  assumes "pick_unambiguous candidates t c = Some uid" and "\<And>ns. candidates = Some ns \<Longrightarrow> set ns \<subseteq> set nodes"
  shows "uid \<in> rn_node_uid ` set nodes"
proof -
  obtain ns n where "candidates = Some ns" "resolution_pool ns t c = [n]" "rn_node_uid n = uid"
    using assms(1) by (auto simp: pick_unambiguous_Some)
  then show ?thesis using assms(2) set_resolution_pool [of ns t c] by auto
qed

section \<open>Targets are nodes of the snapshot\<close>

text \<open>The node an outcome binds to.\<close>

fun bound_uid :: "target_resolution \<Rightarrow> string option" where
  "bound_uid (TR_Resolved uid) = Some uid"
| "bound_uid (TR_InferredImport uid alternate basis) = Some uid"
| "bound_uid (TR_IncludeBound uid res text) = Some uid"
| "bound_uid (TR_WorkspaceSourceEntryBound uid text) = Some uid"
| "bound_uid (TR_TsconfigPathsBound uid text) = Some uid"
| "bound_uid (TR_InferredNameOnly uid receiver candidate) = Some uid"
| "bound_uid _ = None"

definition targets_in :: "resolver_node list \<Rightarrow> target_resolution \<Rightarrow> bool" where
  "targets_in nodes r \<longleftrightarrow> (\<forall>uid. bound_uid r = Some uid \<longrightarrow> uid \<in> rn_node_uid ` set nodes)"

lemma or_else_Some: "or_else x y = Some v \<longleftrightarrow> x = Some v \<or> x = None \<and> y = Some v"
  by (cases x) auto

lemma or_else_None: "or_else x y = None \<longleftrightarrow> x = None \<and> y = None"
  by (cases x) auto

lemma case_single_Some:
  "(case xs of [] \<Rightarrow> None | [c] \<Rightarrow> Some (f c) | c # d # ds \<Rightarrow> None) = Some u \<longleftrightarrow> (\<exists>c. xs = [c] \<and> f c = u)"
  by (auto split: list.splits)

text \<open>The contract of an index: what the resolver relies on.\<close>

locale indexed_nodes =
  fixes nodes :: "resolver_node list" and index :: resolver_index
  assumes idx: "indexes nodes index"
begin

lemma target_at: "node_uid_at index k = Some uid \<Longrightarrow> uid \<in> rn_node_uid ` set nodes"
  by (rule node_uid_at_indexed [OF idx])

lemma named_subset: "ri_nodes_by_name index name = Some ns \<Longrightarrow> set ns \<subseteq> set nodes"
  by (drule nodes_by_name_indexed [OF idx]) auto

lemma pick_named: "pick_unambiguous (ri_nodes_by_name index name) t c = Some uid \<Longrightarrow> uid \<in> rn_node_uid ` set nodes"
  by (rule pick_unambiguous_indexed) (use named_subset in auto)

lemma pick_in_file:
  assumes "ri_nodes_by_name index name = Some ns" and "pick_unambiguous (Some (in_file f ns)) t c = Some uid"
  shows "uid \<in> rn_node_uid ` set nodes"
  using assms(2) by (rule pick_unambiguous_indexed) (use named_subset [OF assms(1)] in \<open>auto simp: in_file_def\<close>)

lemma option_to_resolution_in: "(\<And>uid. x = Some uid \<Longrightarrow> uid \<in> rn_node_uid ` set nodes) \<Longrightarrow> targets_in nodes (option_to_resolution x)"
  by (cases x) (simp_all add: targets_in_def option_to_resolution_def)

lemma import_target_in: "resolve_import_target key index repo tu rust site = Some uid \<Longrightarrow> uid \<in> rn_node_uid ` set nodes"
  by (auto simp: resolve_import_target_def or_else_Some Option.bind_eq_Some_conv split: if_splits dest: target_at)

lemma java_import_in: "targets_in nodes (resolve_java_import key index repo)"
  by (auto simp: resolve_java_import_def targets_in_def option_to_resolution_def split: java_suffix_lookup.splits option.splits
      dest: target_at)

lemma include_suffix_in: "resolve_include_suffix_or_basename from_str print edge index = Some r \<Longrightarrow> targets_in nodes r"
  by (simp only: resolve_include_suffix_or_basename_def Let_def Option.bind_eq_Some_conv, elim exE conjE)
    (auto simp: targets_in_def split: include_path_match.splits dest: target_at)

lemma workspace_in: "resolve_workspace_package_import from_str print edge index = Some r \<Longrightarrow> targets_in nodes r"
  by (simp only: resolve_workspace_package_import_def Let_def Option.bind_eq_Some_conv option.distinct if_False split: if_splits,
      elim exE conjE) (auto simp: targets_in_def split: workspace_import_match.splits dest: target_at)

lemma tsconfig_in: "resolve_tsconfig_paths_import from_str print edge index = Some r \<Longrightarrow> targets_in nodes r"
  by (cases "tsconfig_paths_is_empty (ri_tsconfig_paths index)"; cases "is_relative_specifier (xe_target_key edge)";
      simp only: resolve_tsconfig_paths_import_def if_True if_False Option.bind_eq_Some_conv option.distinct;
      elim exE conjE)
    (auto simp: targets_in_def split: alias_hits_result.splits list.splits if_splits dest: target_at)

lemma submodule_in: "resolve_python_submodule_import from_str edge index bindings = Some r \<Longrightarrow> targets_in nodes r"
proof -
  assume "resolve_python_submodule_import from_str edge index bindings = Some r"
  then obtain name dir init uid where init: "ri_nodes_by_stable_key index (file_stable_key (xe_repo_uid edge) (dir @ ''/__init__.py'')) = Some init"
    and uid: "first_some (node_uid_at index) (submodule_keys (xe_repo_uid edge) dir name) = Some uid"
    and r: "(case or_else (rn_file_uid init) (ri_node_uid_to_file_uid index (rn_node_uid init)) of
          None \<Rightarrow> Some (TR_Resolved (rn_node_uid init))
        | Some init_file_uid \<Rightarrow> (case bindings of
            None \<Rightarrow> Some (TR_Resolved (rn_node_uid init))
          | Some bindings \<Rightarrow>
              if init_defines index init_file_uid name then Some (TR_Resolved (rn_node_uid init))
              else if init_imports bindings init_file_uid (dotted dir) name then Some (TR_Resolved (rn_node_uid init))
              else Some (TR_InferredImport uid (file_stable_key (xe_repo_uid edge) (dir @ ''/__init__.py''))
                PYTHON_SUBMODULE_BASIS))) = Some r"
    unfolding resolve_python_submodule_import_def Let_def Option.bind_eq_Some_conv by blast
  have i: "targets_in nodes (TR_Resolved (rn_node_uid init))" using idx init by (auto simp: indexes_def targets_in_def)
  have "uid \<in> rn_node_uid ` set nodes" using first_some_Some [OF uid] target_at by blast
  then have u: "targets_in nodes (TR_InferredImport uid alt b)" for alt b by (simp add: targets_in_def)
  show ?thesis using r i u by (auto split: option.splits if_splits)
qed

lemma include_stage_in: "include_stage edge index = Some r \<Longrightarrow> targets_in nodes r"
  by (simp only: include_stage_def Let_def Option.bind_eq_Some_conv case_prod_beta, elim exE conjE)
    (auto simp: targets_in_def Option.bind_eq_Some_conv split: resolution_status.splits dest: target_at)

lemma ladder_in: "targets_in nodes (resolve_import_ladder from_str print edge index decls)"
proof -
  have u: "targets_in nodes TR_Unresolved" by (simp add: targets_in_def)
  have r: "targets_in nodes (TR_Resolved uid)" if "uid \<in> rn_node_uid ` set nodes" for uid using that by (simp add: targets_in_def)
  show ?thesis
    unfolding resolve_import_ladder_def Let_def
    by (auto intro!: u r java_import_in split: option.splits simp: or_else_Some
        dest: include_stage_in import_target_in include_suffix_in workspace_in tsconfig_in)
qed


lemma namespace_in:
  assumes "resolve_namespace_member key src index bindings = Some uid"
  shows "uid \<in> rn_node_uid ` set nodes"
  using assms
  by (simp only: resolve_namespace_member_def Option.bind_eq_Some_conv option.distinct case_prod_beta split: if_splits,
      elim exE conjE) (rule pick_in_file)

lemma named_import_in:
  assumes "named_import_stage key src index bindings = Some uid"
  shows "uid \<in> rn_node_uid ` set nodes"
  using assms
  by (simp only: named_import_stage_def Option.bind_eq_Some_conv, elim exE conjE) (rule pick_in_file)

lemma sole_of_pool:
  assumes "ri_nodes_by_name index key = Some ns" and "filter P (resolution_pool ns t c) = [n]"
  shows "rn_node_uid n \<in> rn_node_uid ` set nodes"
proof -
  have "n \<in> set (filter P (resolution_pool ns t c))" using assms(2) by simp
  then show ?thesis using named_subset [OF assms(1)] set_resolution_pool [of ns t c] by auto
qed

lemma receiver_type_in: "receiver_type_stage d key index = Some uid \<Longrightarrow> uid \<in> rn_node_uid ` set nodes"
  by (auto simp: receiver_type_stage_def Option.bind_eq_Some_conv case_single_Some
      split: receiver_disposition.splits receiver_type_read.splits dest: sole_of_pool)

lemma enclosing_class_in: "enclosing_class_stage d key src ex index = Some uid \<Longrightarrow> uid \<in> rn_node_uid ` set nodes"
  by (auto simp: enclosing_class_stage_def enclosing_class_preference_def Option.bind_eq_Some_conv Let_def case_single_Some
      split: if_splits dest: sole_of_pool)

lemma name_only_in:
  assumes "name_only_pool (ri_nodes_by_name index key) = [n]"
  shows "rn_node_uid n \<in> rn_node_uid ` set nodes"
  using assms sole_of_pool [of key _ "\<lambda>_. True"] by (auto simp: name_only_pool_def split: option.splits if_splits)

lemma dotted_in: "dotted_name_fallback key src py index bindings = Some r \<Longrightarrow> targets_in nodes r"
  by (auto simp: dotted_name_fallback_def targets_in_def or_else_Some Let_def split: if_splits list.splits
      dest: name_only_in pick_named)

lemma self_call_walk_in:
  "self_call_walk by_name (ri_nodes_by_qualified_name index) m visited frontier d = SC_Resolved uid \<Longrightarrow>
   uid \<in> rn_node_uid ` set nodes"
proof (induction by_name "ri_nodes_by_qualified_name index" m visited frontier d rule: self_call_walk.induct)
  case (1 by_name m visited frontier d)
  let ?hits = "concat (map (class_hits (ri_nodes_by_qualified_name index) m) frontier)"
  have hit: "uid \<in> rn_node_uid ` set nodes" if "?hits = [(l, uid)]" for l
  proof -
    have "(l, uid) \<in> set ?hits" using that by simp
    then show ?thesis using idx by (auto simp: class_hits_def Let_def indexes_def)
  qed
  show ?case
    using 1 hit by (simp add: self_call_walk.simps [of _ _ _ _ frontier] split: if_splits list.splits prod.splits)
qed

lemma self_call_in: "resolve_self_call cls m file by_name (ri_nodes_by_qualified_name index) = SC_Resolved uid \<Longrightarrow>
   uid \<in> rn_node_uid ` set nodes"
  by (simp add: resolve_self_call_def self_call_walk_in split: option.splits)

lemma python_self_call_in: "targets_in nodes (resolve_python_self_call from_str key m src ex md index bindings)"
  by (auto simp: resolve_python_self_call_def targets_in_def Let_def
      split: option.splits receiver_binding_read.splits self_call_resolution.splits dest: namespace_in self_call_in)

lemma call_in: "targets_in nodes (resolve_call_target from_str key src ex md index bindings)"
  by (auto simp: resolve_call_target_def Let_def or_else_Some python_self_call_in split: option.splits
      intro!: option_to_resolution_in dest: dotted_in receiver_type_in enclosing_class_in named_import_in pick_named)
    (auto simp: targets_in_def dest: namespace_in)

lemma target_in: "targets_in nodes (resolve_target from_str print edge index bindings decls)"
proof -
  have named: "targets_in nodes (option_to_resolution (resolve_named_target key (ri_nodes_by_name index) t ex))" for key t ex
    by (rule option_to_resolution_in) (auto simp: resolve_named_target_def dest: pick_named)
  have at: "targets_in nodes (case node_uid_at index key of Some uid \<Rightarrow> TR_Resolved uid | None \<Rightarrow> r)"
    if "targets_in nodes r" for key r
    using that by (auto simp: targets_in_def split: option.split dest: target_at)
  show ?thesis
    unfolding resolve_target_def Let_def
    by (auto simp: named at call_in ladder_in split: option.splits dest: submodule_in)
qed

end

interpretation built: indexed_nodes nodes "build_resolver_index decode nodes file_paths repo_uid modules roots rows"
  for nodes decode file_paths repo_uid modules roots rows
  by unfold_locales (rule indexes_build)

section \<open>A batch accounts for every edge\<close>

text \<open>The outcome of an edge in a batch, and the batch as the outcomes of its edges in order.\<close>

abbreviation outcome_of ::
  "json_reader \<Rightarrow> json_printer \<Rightarrow> resolver_index \<Rightarrow> import_bindings_by_file option \<Rightarrow> rust_mod_decls_by_file \<Rightarrow>
   extracted_edge \<Rightarrow> (resolved_edge_row \<times> bool) + categorized_unresolved_edge" where
  "outcome_of from_str print index bindings decls edge \<equiv>
     edge_outcome from_str print index edge (resolve_target from_str print edge index bindings decls)"

definition resolved_rows :: "(extracted_edge \<Rightarrow> (resolved_edge_row \<times> bool) + categorized_unresolved_edge) \<Rightarrow> extracted_edge list \<Rightarrow> resolved_edge_row list" where
  "resolved_rows out es = concat (map (\<lambda>e. case out e of Inl (row, c) \<Rightarrow> [row] | Inr u \<Rightarrow> []) es)"

definition unresolved_rows ::
  "(extracted_edge \<Rightarrow> (resolved_edge_row \<times> bool) + categorized_unresolved_edge) \<Rightarrow> extracted_edge list \<Rightarrow> categorized_unresolved_edge list" where
  "unresolved_rows out es = concat (map (\<lambda>e. case out e of Inl p \<Rightarrow> [] | Inr u \<Rightarrow> [u]) es)"

definition certain_pairs ::
  "json_reader \<Rightarrow> (extracted_edge \<Rightarrow> (resolved_edge_row \<times> bool) + categorized_unresolved_edge) \<Rightarrow> extracted_edge list \<Rightarrow> import_pair list" where
  "certain_pairs from_str out es = concat (map (\<lambda>e. case out e of
      Inl (row, c) \<Rightarrow> if c then [(re_source_node_uid row, re_target_node_uid row, import_edge_type_only from_str e)] else []
    | Inr u \<Rightarrow> []) es)"

lemmas rows_defs = resolved_rows_def unresolved_rows_def certain_pairs_def

lemma resolve_loop_outcomes:
  "resolve_loop_edges from_str print index bindings decls edges res =
     \<lparr>rr_resolved = rr_resolved res @ resolved_rows (outcome_of from_str print index bindings decls) edges,
      rr_still_unresolved = rr_still_unresolved res @ unresolved_rows (outcome_of from_str print index bindings decls) edges,
      rr_resolved_import_pairs =
        rr_resolved_import_pairs res @ certain_pairs from_str (outcome_of from_str print index bindings decls) edges\<rparr>"
  by (induction edges arbitrary: res) (auto simp: rows_defs split: sum.split prod.split)

text \<open>Only an import is answered by the include stages and the path aliases.\<close>

fun import_answer :: "target_resolution \<Rightarrow> bool" where
  "import_answer (TR_IncludeBound uid res text) \<longleftrightarrow> True"
| "import_answer (TR_TsconfigPathsBound uid text) \<longleftrightarrow> True"
| "import_answer _ \<longleftrightarrow> False"

lemma option_not_import: "\<not> import_answer (option_to_resolution x)"
  by (cases x) (simp_all add: option_to_resolution_def)

lemma self_call_not_import: "\<not> import_answer (resolve_python_self_call from_str key m src ex md index bindings)"
  by (simp add: resolve_python_self_call_def Let_def split: option.splits receiver_binding_read.splits self_call_resolution.splits)

lemma dotted_not_import: "dotted_name_fallback key src py index bindings = Some r \<Longrightarrow> \<not> import_answer r"
  by (auto simp: dotted_name_fallback_def Let_def split: if_splits list.splits)

lemma call_not_import: "\<not> import_answer (resolve_call_target from_str key src ex md index bindings)"
  by (auto simp: resolve_call_target_def Let_def option_not_import self_call_not_import split: option.splits dest: dotted_not_import)

lemma import_answer_imports: "import_answer (resolve_target from_str print edge index bindings decls) \<Longrightarrow> xe_edge_type edge = ET_Imports"
  by (auto simp: resolve_target_def Let_def option_not_import call_not_import split: if_splits option.splits)

text \<open>What a resolved row keeps of its edge, and when it feeds the import pairs.\<close>

lemma outcome_resolved:
  assumes "edge_outcome from_str print index edge r = Inl (row, certain)"
    and "import_answer r \<Longrightarrow> xe_edge_type edge = ET_Imports"
  shows "bound_uid r = Some (re_target_node_uid row)" and "re_edge_uid row = xe_edge_uid edge"
    and "re_source_node_uid row = xe_source_node_uid edge" and "re_edge_type row = xe_edge_type edge"
    and "xe_edge_type edge = ET_Imports \<Longrightarrow> xe_resolution edge \<noteq> Res_Inferred \<Longrightarrow> certain \<longleftrightarrow> re_resolution row \<noteq> Res_Inferred"
    and "xe_edge_type edge \<noteq> ET_Imports \<Longrightarrow> \<not> certain"
  using assms by (cases r; auto simp: edge_outcome_def resolved_row_def Let_def)+

lemma outcome_of_resolved:
  assumes "outcome_of from_str print index bindings decls edge = Inl (row, certain)"
  shows "bound_uid (resolve_target from_str print edge index bindings decls) = Some (re_target_node_uid row)"
    and "re_edge_uid row = xe_edge_uid edge" and "re_source_node_uid row = xe_source_node_uid edge"
    and "re_edge_type row = xe_edge_type edge"
    and "xe_edge_type edge = ET_Imports \<Longrightarrow> xe_resolution edge \<noteq> Res_Inferred \<Longrightarrow> certain \<longleftrightarrow> re_resolution row \<noteq> Res_Inferred"
    and "xe_edge_type edge \<noteq> ET_Imports \<Longrightarrow> \<not> certain"
  using outcome_resolved [OF assms import_answer_imports [of from_str print edge index bindings decls]] by simp_all

lemma outcome_unresolved:
  assumes "edge_outcome from_str print index edge r = Inr u"
  shows "xe_edge_uid (cu_edge u) = xe_edge_uid edge" and "bound_uid r = None"
  using assms by (cases r; auto simp: edge_outcome_def unresolved_row_def declined_pool_row_def Let_def)+

lemma batch_ids:
  fixes from_str print index decls and bindings :: "import_bindings_by_file option"
  defines "out \<equiv> outcome_of from_str print index bindings decls"
  shows "mset (map re_edge_uid (resolved_rows out es)) + mset (map (xe_edge_uid \<circ> cu_edge) (unresolved_rows out es)) =
    mset (map xe_edge_uid es)"
  unfolding out_def
  by (induction es) (auto simp: rows_defs outcome_of_resolved(2) outcome_unresolved(1) split: sum.split prod.split)

lemma certain_iff:
  assumes "outcome_of from_str print index bindings decls e = Inl (row, c)"
    and "xe_edge_type e = ET_Imports \<longrightarrow> xe_resolution e \<noteq> Res_Inferred"
  shows "c \<longleftrightarrow> re_edge_type row = ET_Imports \<and> re_resolution row \<noteq> Res_Inferred"
  using outcome_of_resolved(4-6) [OF assms(1)] assms(2) by auto

lemma batch_pairs:
  fixes from_str print index decls and bindings :: "import_bindings_by_file option"
  assumes "\<forall>edge \<in> set es. xe_edge_type edge = ET_Imports \<longrightarrow> xe_resolution edge \<noteq> Res_Inferred"
  defines "out \<equiv> outcome_of from_str print index bindings decls"
  shows "map (\<lambda>(s, t, d). (s, t)) (certain_pairs from_str out es) =
    map (\<lambda>row. (re_source_node_uid row, re_target_node_uid row))
      (filter (\<lambda>row. re_edge_type row = ET_Imports \<and> re_resolution row \<noteq> Res_Inferred) (resolved_rows out es))"
  using assms(1)
proof (induction es)
  case (Cons a es)
  show ?case
  proof (cases "out a")
    case (Inl p)
    obtain row c where p: "p = (row, c)" by (cases p)
    have "c \<longleftrightarrow> re_edge_type row = ET_Imports \<and> re_resolution row \<noteq> Res_Inferred"
      using certain_iff [OF Inl [unfolded p out_def]] Cons.prems by simp
    then show ?thesis using Cons Inl p by (simp add: rows_defs)
  qed (use Cons in \<open>simp add: rows_defs\<close>)
qed (simp add: rows_defs)

text \<open>C11. Resolving a batch against the index of a snapshot accounts for every edge: the identifiers of the resolved and of
  the unresolved rows are together those of the edges, each as often as it occurs; every resolved row keeps the source and the
  type of its edge and points at a node of the snapshot; and, when no extractor marks an import as inferred, the import pairs
  that feed the module graph are exactly the resolved imports that are not inferred.\<close>

theorem resolution_accounts:
  assumes "index = build_resolver_index decode nodes file_paths repo_uid modules roots rows"
    and "result = resolve_edges_with_rust_mod_decls from_str print edges index bindings decls"
  shows "mset (map re_edge_uid (rr_resolved result)) + mset (map (xe_edge_uid \<circ> cu_edge) (rr_still_unresolved result)) =
      mset (map xe_edge_uid edges) \<and>
    (\<forall>row \<in> set (rr_resolved result). re_target_node_uid row \<in> rn_node_uid ` set nodes \<and>
      (\<exists>edge \<in> set edges. xe_edge_uid edge = re_edge_uid row \<and> xe_source_node_uid edge = re_source_node_uid row \<and>
        xe_edge_type edge = re_edge_type row)) \<and>
    ((\<forall>edge \<in> set edges. xe_edge_type edge = ET_Imports \<longrightarrow> xe_resolution edge \<noteq> Res_Inferred) \<longrightarrow>
      map (\<lambda>(s, t, d). (s, t)) (rr_resolved_import_pairs result) =
      map (\<lambda>row. (re_source_node_uid row, re_target_node_uid row))
        (filter (\<lambda>row. re_edge_type row = ET_Imports \<and> re_resolution row \<noteq> Res_Inferred) (rr_resolved result)))"
proof -
  let ?out = "outcome_of from_str print index bindings decls"
  have res: "rr_resolved result = resolved_rows ?out edges" "rr_still_unresolved result = unresolved_rows ?out edges"
    "rr_resolved_import_pairs result = certain_pairs from_str ?out edges"
    by (simp_all add: assms(2) resolve_edges_with_rust_mod_decls_def resolve_loop_outcomes)
  have "re_target_node_uid row \<in> rn_node_uid ` set nodes \<and>
      (\<exists>edge \<in> set edges. xe_edge_uid edge = re_edge_uid row \<and> xe_source_node_uid edge = re_source_node_uid row \<and>
        xe_edge_type edge = re_edge_type row)" if "row \<in> set (rr_resolved result)" for row
  proof -
    obtain edge c where e: "edge \<in> set edges" "?out edge = Inl (row, c)"
      using \<open>row \<in> set (rr_resolved result)\<close> by (auto simp: res(1) resolved_rows_def split: sum.splits prod.splits dest: sym)
    have "re_target_node_uid row \<in> rn_node_uid ` set nodes"
      using outcome_of_resolved(1) [OF e(2)]
        built.target_in [of nodes from_str print edge decode file_paths repo_uid modules roots rows bindings decls]
      by (simp add: assms(1) targets_in_def)
    then show ?thesis using e(1) outcome_of_resolved(2-4) [OF e(2)] by auto
  qed
  then show ?thesis using batch_ids batch_pairs unfolding res by blast
qed

text \<open>A snapshot with two TypeScript files and a function, and edges that import the second file, call the function, and call
  a name nobody declares.\<close>

definition demo_symbol :: "string \<Rightarrow> string \<Rightarrow> string \<Rightarrow> string option \<Rightarrow> string \<Rightarrow> string option \<Rightarrow> string \<Rightarrow> resolver_node" where
  "demo_symbol uid key name q kind subtype file_uid =
     \<lparr>rn_node_uid = uid, rn_stable_key = key, rn_name = name, rn_qualified_name = q, rn_kind = kind, rn_subtype = subtype,
      rn_file_uid = Some file_uid, rn_forward_decl = False, rn_superclasses = []\<rparr>"

definition demo_nodes :: "resolver_node list" where
  "demo_nodes =
     [demo_symbol ''n1'' ''r:src/a.ts:FILE'' ''a.ts'' (Some ''src/a.ts'') ''FILE'' None ''r:src/a.ts'',
      demo_symbol ''n2'' ''r:lib/b.ts:FILE'' ''b.ts'' (Some ''lib/b.ts'') ''FILE'' None ''r:lib/b.ts'',
      demo_symbol ''n3'' ''r:lib/b.ts#foo:SYMBOL:FUNCTION'' ''foo'' (Some ''foo'') ''SYMBOL'' (Some ''FUNCTION'') ''r:lib/b.ts'']"

definition demo_index :: "resolver_node list \<Rightarrow> string list \<Rightarrow> resolver_index" where
  "demo_index nodes paths = build_resolver_index (\<lambda>_. None) nodes paths ''r'' [] [] []"

definition demo_symbolic_edge :: "string \<Rightarrow> string \<Rightarrow> string \<Rightarrow> indexer_edge_type \<Rightarrow> string \<Rightarrow> extracted_edge" where
  "demo_symbolic_edge uid src key t extractor =
     \<lparr>xe_edge_uid = uid, xe_snapshot_uid = ''s'', xe_repo_uid = ''r'', xe_source_node_uid = src, xe_target_key = key,
      xe_edge_type = t, xe_resolution = Res_Static, xe_extractor = extractor, xe_location = None, xe_metadata_json = None\<rparr>"

definition demo_edges :: "extracted_edge list" where
  "demo_edges = [demo_symbolic_edge ''e1'' ''n1'' ''r:lib/b:FILE'' ET_Imports ''ts-core:1'',
     demo_symbolic_edge ''e2'' ''n1'' ''foo'' ET_Calls ''ts-core:1'', demo_symbolic_edge ''e3'' ''n1'' ''nobody'' ET_Calls ''ts-core:1'']"

definition demo_result :: resolution_result where
  "demo_result = resolve_edges_with_rust_mod_decls (\<lambda>_. None) (\<lambda>_. '''') demo_edges
     (demo_index demo_nodes [''src/a.ts'', ''lib/b.ts'']) None Map.empty"

lemma demo_rows:
  "map re_target_node_uid (rr_resolved demo_result) = [''n2'', ''n3'']"
  "map (xe_edge_uid \<circ> cu_edge) (rr_still_unresolved demo_result) = [''e3'']"
  "rr_resolved_import_pairs demo_result = [(''n1'', ''n2'', None)]"
  by code_simp+

theorem resolution_accounts_witness:
  "mset (map re_edge_uid (rr_resolved demo_result)) + {#''e3''#} = {#''e1'', ''e2'', ''e3''#} \<and>
   re_target_node_uid ` set (rr_resolved demo_result) \<subseteq> {''n1'', ''n2'', ''n3''} \<and>
   map (\<lambda>row. (re_source_node_uid row, re_target_node_uid row))
     (filter (\<lambda>row. re_edge_type row = ET_Imports \<and> re_resolution row \<noteq> Res_Inferred) (rr_resolved demo_result)) = [(''n1'', ''n2'')]"
proof -
  note acc = resolution_accounts [OF demo_index_def demo_result_def]
  have uids: "rn_node_uid ` set demo_nodes = {''n1'', ''n2'', ''n3''}" and ids: "map xe_edge_uid demo_edges = [''e1'', ''e2'', ''e3'']"
    by (simp_all add: demo_nodes_def demo_symbol_def demo_edges_def demo_symbolic_edge_def)
  have certain: "\<forall>edge \<in> set demo_edges. xe_edge_type edge = ET_Imports \<longrightarrow> xe_resolution edge \<noteq> Res_Inferred"
    by (simp add: demo_edges_def demo_symbolic_edge_def)
  show ?thesis
    using acc certain unfolding uids ids demo_rows by (simp add: image_subset_iff)
qed

section \<open>The hierarchy walk of self calls\<close>

text \<open>The superclass relation of a snapshot: a class and the classes its bases name, each the only class of its name. The
  classes at distance \<open>d\<close> are those a shortest chain of \<open>d\<close> base clauses leads to.\<close>

definition class_named :: "resolver_node list \<Rightarrow> string \<Rightarrow> resolver_node \<Rightarrow> bool" where
  "class_named nodes name c \<longleftrightarrow> filter (\<lambda>n. rn_name n = name \<and> rn_subtype n = Some ''CLASS'') nodes = [c]"

definition base_of :: "resolver_node list \<Rightarrow> (resolver_node \<times> resolver_node) set" where
  "base_of nodes = {(c, b). \<exists>name \<in> set (rn_superclasses c). class_named nodes name b}"

definition at_distance :: "resolver_node list \<Rightarrow> resolver_node \<Rightarrow> nat \<Rightarrow> resolver_node set" where
  "at_distance nodes own d = {c. (own, c) \<in> base_of nodes ^^ d \<and> (\<forall>e < d. (own, c) \<notin> base_of nodes ^^ e)}"

text \<open>The methods of a name that the classes at a distance declare.\<close>

definition declares :: "resolver_node list \<Rightarrow> resolver_node \<Rightarrow> string \<Rightarrow> resolver_node \<Rightarrow> bool" where
  "declares nodes c method m \<longleftrightarrow> m \<in> set nodes \<and> rn_subtype m = Some ''METHOD'' \<and> rn_file_uid m = rn_file_uid c \<and>
     rn_qualified_name m = Some ((case rn_qualified_name c of Some q \<Rightarrow> q | None \<Rightarrow> rn_name c) @ ''.'' @ method)"

definition methods_at :: "resolver_node list \<Rightarrow> resolver_node \<Rightarrow> string \<Rightarrow> nat \<Rightarrow> (resolver_node \<times> resolver_node) set" where
  "methods_at nodes own method d = {(c, m). c \<in> at_distance nodes own d \<and> declares nodes c method m}"

lemma at_distance_0 [simp]: "at_distance nodes own 0 = {own}"
  by (auto simp: at_distance_def)

lemma near: "(own, c) \<in> base_of nodes ^^ e \<Longrightarrow> \<exists>k \<le> e. c \<in> at_distance nodes own k"
  using ex_least_nat_le [of "\<lambda>k. (own, c) \<in> base_of nodes ^^ k" e] by (auto simp: at_distance_def)

lemma at_distance_Suc:
  "at_distance nodes own (Suc d) =
     {b. \<exists>c \<in> at_distance nodes own d. (c, b) \<in> base_of nodes} - (\<Union>e \<in> {..d}. at_distance nodes own e)"
proof (intro set_eqI iffI)
  let ?R = "base_of nodes"
  fix b
  assume b: "b \<in> at_distance nodes own (Suc d)"
  then obtain c where c: "(own, c) \<in> ?R ^^ d" "(c, b) \<in> ?R" by (auto simp: at_distance_def)
  have far: "\<forall>e < Suc d. (own, b) \<notin> ?R ^^ e" using b by (simp add: at_distance_def)
  have "(own, c) \<notin> ?R ^^ e" if "e < d" for e
  proof
    assume "(own, c) \<in> ?R ^^ e"
    then have "(own, b) \<in> ?R ^^ Suc e" using c(2) by auto
    moreover have "(own, b) \<notin> ?R ^^ Suc e" using far that by blast
    ultimately show False by contradiction
  qed
  then have "c \<in> at_distance nodes own d" using c(1) by (simp add: at_distance_def)
  then show "b \<in> {b. \<exists>c \<in> at_distance nodes own d. (c, b) \<in> ?R} - (\<Union>e \<in> {..d}. at_distance nodes own e)"
    using c(2) far by (auto simp: at_distance_def less_Suc_eq_le)
next
  fix b
  assume b: "b \<in> {b. \<exists>c \<in> at_distance nodes own d. (c, b) \<in> base_of nodes} - (\<Union>e \<in> {..d}. at_distance nodes own e)"
  have "(own, b) \<notin> base_of nodes ^^ e" if "e < Suc d" for e
    using near [of own b e nodes] that b by force
  then show "b \<in> at_distance nodes own (Suc d)" using b by (auto simp: at_distance_def)
qed

lemma next_frontier_props:
  assumes "next_frontier visited ns = (rest, visited')" and "inj_on rn_node_uid (set ns)"
  shows "set rest = {n \<in> set ns. rn_node_uid n \<notin> visited}" and "distinct rest"
    and "visited' = visited \<union> rn_node_uid ` set ns"
  using assms
proof (induction visited ns arbitrary: rest visited' rule: next_frontier.induct)
  case (2 visited n ns)
  {
    case 1 then show ?case using 2 by (auto simp: inj_on_def split: if_splits prod.splits)
  next
    case 2 then show ?case using "2.IH" by (fastforce simp: split: if_splits prod.splits)
  next
    case 3 then show ?case using 2 by (auto split: if_splits prod.splits)
  }
qed auto

lemma the_only_Some: "the_only xs = Some x \<longleftrightarrow> xs = [x]"
  by (auto simp: the_only_def split: list.splits)

context indexed_nodes
begin

lemma unique_class_iff: "unique_class_by_name name (ri_nodes_by_name index) = Some c \<longleftrightarrow> class_named nodes name c"
proof -
  have "nodes_named (ri_nodes_by_name index) name = filter (\<lambda>n. rn_name n = name) nodes" using idx by (simp add: indexes_def)
  then show ?thesis by (simp add: unique_class_by_name_def class_named_def the_only_Some conj_commute)
qed

lemma class_bases_set: "set (class_bases (ri_nodes_by_name index) c) = {b. (c, b) \<in> base_of nodes}"
  by (auto simp: class_bases_def base_of_def set_filter_map unique_class_iff)

lemma class_hits_pairs:
  "class_hits (ri_nodes_by_qualified_name index) method c =
     map (\<lambda>m. (the (rn_qualified_name m), rn_node_uid m)) (filter (declares nodes c method) nodes)"
proof -
  define q where "q = (case rn_qualified_name c of Some q \<Rightarrow> q | None \<Rightarrow> rn_name c) @ ''.'' @ method"
  have "nodes_named (ri_nodes_by_qualified_name index) q = filter (\<lambda>n. rn_qualified_name n = Some q) nodes"
    using idx by (simp add: indexes_def)
  then have "class_hits (ri_nodes_by_qualified_name index) method c =
      map (\<lambda>m. (case rn_qualified_name m of Some p \<Rightarrow> p | None \<Rightarrow> q, rn_node_uid m))
        (filter (\<lambda>m. rn_qualified_name m = Some q \<and> rn_subtype m = Some ''METHOD'' \<and> rn_file_uid m = rn_file_uid c) nodes)"
    unfolding class_hits_def Let_def q_def [symmetric] by simp
  moreover have "filter (\<lambda>m. rn_qualified_name m = Some q \<and> rn_subtype m = Some ''METHOD'' \<and> rn_file_uid m = rn_file_uid c) nodes =
      filter (declares nodes c method) nodes"
    by (rule filter_cong) (auto simp: declares_def q_def)
  ultimately show ?thesis by (auto simp: declares_def)
qed

text \<open>The hits of a frontier, as the pairs of a class and a method it declares.\<close>

definition hit_pairs :: "string \<Rightarrow> resolver_node list \<Rightarrow> (resolver_node \<times> resolver_node) list" where
  "hit_pairs method frontier = concat (map (\<lambda>c. map (Pair c) (filter (declares nodes c method) nodes)) frontier)"

lemma hits_of_pairs:
  "concat (map (class_hits (ri_nodes_by_qualified_name index) method) frontier) =
     map (\<lambda>(c, m). (the (rn_qualified_name m), rn_node_uid m)) (hit_pairs method frontier)"
  by (induction frontier) (simp_all add: hit_pairs_def class_hits_pairs)

lemma distinct_hit_pairs: "distinct nodes \<Longrightarrow> distinct frontier \<Longrightarrow> distinct (hit_pairs method frontier)"
  by (induction frontier) (auto simp: hit_pairs_def distinct_map inj_on_def)

lemma set_hit_pairs: "set (hit_pairs method frontier) = {(c, m). c \<in> set frontier \<and> declares nodes c method m}"
  by (auto simp: hit_pairs_def declares_def)

end

text \<open>What an outcome of the walk from distance \<open>d\<close> says about the methods of the hierarchy.\<close>

definition mro_verdict :: "resolver_node list \<Rightarrow> resolver_node \<Rightarrow> string \<Rightarrow> nat \<Rightarrow> self_call_resolution \<Rightarrow> bool" where
  "mro_verdict nodes own method d r = (case r of
     SC_NoHit \<Rightarrow> \<forall>e \<in> {d..DEPTH_CAP}. methods_at nodes own method e = {}
   | SC_Resolved uid \<Rightarrow> \<exists>e \<in> {d..DEPTH_CAP}. (\<forall>k \<in> {d..<e}. methods_at nodes own method k = {}) \<and>
       (\<exists>c m. methods_at nodes own method e = {(c, m)} \<and> rn_node_uid m = uid)
   | SC_AmbiguousMro labels \<Rightarrow> \<exists>e \<in> {d..DEPTH_CAP}. (\<forall>k \<in> {d..<e}. methods_at nodes own method k = {}) \<and>
       2 \<le> card (methods_at nodes own method e) \<and> sorted labels \<and>
       mset labels = image_mset (\<lambda>(c, m). the (rn_qualified_name m)) (mset_set (methods_at nodes own method e)))"

lemma mro_verdict_step:
  assumes "methods_at nodes own method d = {}" and "mro_verdict nodes own method (Suc d) r"
  shows "mro_verdict nodes own method d r"
proof -
  have all: "(\<forall>k \<in> {d..n}. methods_at nodes own method k = {}) \<longleftrightarrow> (\<forall>k \<in> {Suc d..n}. methods_at nodes own method k = {})" for n
    using assms(1) by (auto simp: Suc_le_eq order_le_less)
  have below: "(\<forall>k \<in> {d..<e}. methods_at nodes own method k = {}) \<longleftrightarrow> (\<forall>k \<in> {Suc d..<e}. methods_at nodes own method k = {})" for e
    using assms(1) by (auto simp: Suc_le_eq order_le_less)
  have later: "\<exists>e \<in> {d..DEPTH_CAP}. P e" if "\<exists>e \<in> {Suc d..DEPTH_CAP}. P e" for P
    using that by (meson Suc_leD atLeastAtMost_iff)
  show ?thesis
    using assms(2) by (cases r) (simp_all only: mro_verdict_def self_call_resolution.case all below later)
qed

lemma at_distance_empty: "d \<le> e \<Longrightarrow> at_distance nodes own d = {} \<Longrightarrow> at_distance nodes own e = {}"
  by (induction e rule: dec_induct) (simp_all add: at_distance_Suc)

lemma verdict_here:
  assumes "distinct pairs" and "set pairs = methods_at nodes own method d" and "d \<le> DEPTH_CAP"
  shows "pairs = [(c, m)] \<Longrightarrow> mro_verdict nodes own method d (SC_Resolved (rn_node_uid m))"
    and "2 \<le> length pairs \<Longrightarrow>
      mro_verdict nodes own method d (SC_AmbiguousMro (sort (map (\<lambda>(c, m). the (rn_qualified_name m)) pairs)))"
proof -
  have at: "\<exists>e \<in> {d..DEPTH_CAP}. (\<forall>k \<in> {d..<e}. methods_at nodes own method k = {}) \<and> P e" if "P d" for P
    using assms(3) that by (intro bexI [of _ d]) auto
  show "mro_verdict nodes own method d (SC_Resolved (rn_node_uid m))" if "pairs = [(c, m)]"
    using assms(2) that by (auto simp: mro_verdict_def intro!: at)
  have "mset pairs = mset_set (methods_at nodes own method d)" using assms(1,2) mset_set_set by metis
  moreover have "card (methods_at nodes own method d) = length pairs" using assms(1,2) distinct_card by metis
  ultimately show "mro_verdict nodes own method d (SC_AmbiguousMro (sort (map (\<lambda>(c, m). the (rn_qualified_name m)) pairs)))"
    if "2 \<le> length pairs"
    using that by (auto simp: mro_verdict_def intro!: at)
qed

context indexed_nodes
begin

lemma base_in_nodes: "(c, b) \<in> base_of nodes \<Longrightarrow> b \<in> set nodes"
proof -
  assume "(c, b) \<in> base_of nodes"
  then obtain name where "filter (\<lambda>n. rn_name n = name \<and> rn_subtype n = Some ''CLASS'') nodes = [b]"
    by (auto simp: base_of_def class_named_def)
  then have "b \<in> set (filter (\<lambda>n. rn_name n = name \<and> rn_subtype n = Some ''CLASS'') nodes)" by simp
  then show ?thesis by simp
qed

lemma at_distance_nodes: "own \<in> set nodes \<Longrightarrow> at_distance nodes own d \<subseteq> set nodes"
  by (cases d) (auto simp: at_distance_Suc dest: base_in_nodes)

lemma next_level:
  assumes "inj_on rn_node_uid (set nodes)" and "own \<in> set nodes" and "set frontier = at_distance nodes own d"
    and "next_frontier (rn_node_uid ` (\<Union>e \<in> {..d}. at_distance nodes own e))
      (concat (map (class_bases (ri_nodes_by_name index)) frontier)) = (next_f, visited')"
  shows "set next_f = at_distance nodes own (Suc d)" and "distinct next_f"
    and "visited' = rn_node_uid ` (\<Union>e \<in> {..Suc d}. at_distance nodes own e)"
proof -
  let ?near = "\<Union>e \<in> {..d}. at_distance nodes own e"
  let ?bases = "concat (map (class_bases (ri_nodes_by_name index)) frontier)"
  have bases: "set ?bases = {b. \<exists>c \<in> at_distance nodes own d. (c, b) \<in> base_of nodes}"
    by (auto simp: class_bases_set assms(3))
  have sub: "?near \<subseteq> set nodes" "set ?bases \<subseteq> set nodes"
    using at_distance_nodes [OF assms(2)] by (auto simp: class_bases_set dest: base_in_nodes)
  have seen: "rn_node_uid b \<in> rn_node_uid ` ?near \<longleftrightarrow> b \<in> ?near" if "b \<in> set ?bases" for b
    by (rule inj_on_image_mem_iff [OF assms(1)]) (use that sub in auto)
  note next_f = next_frontier_props [OF assms(4) inj_on_subset [OF assms(1) sub(2)]]
  show "set next_f = at_distance nodes own (Suc d)"
    unfolding next_f(1) at_distance_Suc bases [symmetric] using seen by blast
  show "distinct next_f" by (rule next_f(2))
  have "set ?bases \<union> ?near = at_distance nodes own (Suc d) \<union> ?near"
    unfolding at_distance_Suc bases [symmetric] by blast
  then show "visited' = rn_node_uid ` (\<Union>e \<in> {..Suc d}. at_distance nodes own e)"
    unfolding next_f(3) by (simp add: atMost_Suc image_Un [symmetric] Un_commute)
qed

lemma walk_verdict:
  assumes "distinct (map rn_node_uid nodes)" and "own \<in> set nodes"
    and "distinct frontier" and "set frontier = at_distance nodes own d"
    and "visited = rn_node_uid ` (\<Union>e \<in> {..d}. at_distance nodes own e)"
  shows "mro_verdict nodes own m_name d
    (self_call_walk (ri_nodes_by_name index) (ri_nodes_by_qualified_name index) m_name visited frontier d)"
  using assms(3-)
proof (induction "ri_nodes_by_name index" "ri_nodes_by_qualified_name index" m_name visited frontier d rule: self_call_walk.induct)
  case (1 m_name visited frontier d)
  have inj: "inj_on rn_node_uid (set nodes)" and dist: "distinct nodes" using assms(1) by (auto simp: distinct_map)
  let ?walk = "self_call_walk (ri_nodes_by_name index) (ri_nodes_by_qualified_name index) m_name"
  let ?hits = "concat (map (class_hits (ri_nodes_by_qualified_name index) m_name) frontier)"
  let ?pairs = "hit_pairs m_name frontier"
  note hits = hits_of_pairs [of m_name frontier]
  have pairs: "distinct ?pairs" "set ?pairs = methods_at nodes own m_name d"
    using distinct_hit_pairs [OF dist "1.prems"(1)] by (auto simp: set_hit_pairs methods_at_def "1.prems"(2))
  show ?case
  proof (cases "frontier = [] \<or> DEPTH_CAP < d")
    case True
    have "methods_at nodes own m_name e = {}" if "e \<in> {d..DEPTH_CAP}" for e
      using True that at_distance_empty [of d e nodes own] "1.prems"(2) by (auto simp: methods_at_def)
    then show ?thesis using True by (simp add: self_call_walk.simps mro_verdict_def)
  next
    case deep: False
    consider "?pairs = []" | c m where "?pairs = [(c, m)]" | p q ps where "?pairs = p # q # ps"
      by (cases ?pairs rule: remdups_adj.cases) auto
    then show ?thesis
    proof cases
      case none: 1
      obtain next_f visited' where n: "next_frontier visited (concat (map (class_bases (ri_nodes_by_name index)) frontier)) = (next_f, visited')"
        by fastforce
      note level = next_level [OF inj assms(2) "1.prems"(2) n [unfolded "1.prems"(3)]]
      have "mro_verdict nodes own m_name (Suc d) (?walk visited' next_f (Suc d))"
        by (rule "1.hyps" [OF deep _ n [symmetric] refl level(2,1,3)]) (use none hits in simp)
      moreover have "methods_at nodes own m_name d = {}" using none pairs(2) by simp
      moreover have "?walk visited frontier d = ?walk visited' next_f (Suc d)"
      proof -
        have no_hits: "?hits = []" unfolding hits none by simp
        show ?thesis by (subst self_call_walk.simps) (simp add: deep no_hits n)
      qed
      ultimately show ?thesis by (simp add: mro_verdict_step)
    next
      case 2
      then show ?thesis using deep hits verdict_here(1) [OF pairs, of c m] by (simp add: self_call_walk.simps)
    next
      case 3
      have labels: "map fst ?hits = map (\<lambda>(c, m). the (rn_qualified_name m)) ?pairs" unfolding hits by (auto simp: o_def)
      have "\<exists>x y z zs. ?hits = (x, y) # z # zs" using hits 3 by (simp add: case_prod_beta)
      then have "?walk visited frontier d = SC_AmbiguousMro (sort (map fst ?hits))"
        using deep by (auto simp: self_call_walk.simps [of _ _ _ visited frontier])
      then show ?thesis using deep 3 verdict_here(2) [OF pairs] unfolding labels by simp
    qed
  qed
qed

end

text \<open>C12. A self call inside a class, resolved against the index of a snapshot with distinct node identifiers, follows the
  breadth-first order of the superclass graph, cycles included: it binds to a method exactly when the nearest distance (of at
  most \<open>DEPTH_CAP\<close> base clauses) at which any class declares the name has a single declaration, and that declaration is the
  target; it is ambiguous, with the sorted qualified names of the declarations, when that distance has several; and it
  misses exactly when no class within the cap declares the name.\<close>

theorem self_call_mro:
  assumes "index = build_resolver_index decode nodes file_paths repo_uid modules roots rows"
    and "distinct (map rn_node_uid nodes)"
    and "filter (\<lambda>n. rn_name n = cls \<and> rn_subtype n = Some ''CLASS'' \<and> rn_file_uid n = Some caller_file) nodes = [own]"
  shows "case resolve_self_call cls method caller_file (ri_nodes_by_name index) (ri_nodes_by_qualified_name index) of
      SC_NoHit \<Rightarrow> \<forall>e \<in> {0..DEPTH_CAP}. methods_at nodes own method e = {}
    | SC_Resolved uid \<Rightarrow> \<exists>e \<in> {0..DEPTH_CAP}. (\<forall>k \<in> {0..<e}. methods_at nodes own method k = {}) \<and>
        (\<exists>c m. methods_at nodes own method e = {(c, m)} \<and> rn_node_uid m = uid)
    | SC_AmbiguousMro labels \<Rightarrow> \<exists>e \<in> {0..DEPTH_CAP}. (\<forall>k \<in> {0..<e}. methods_at nodes own method k = {}) \<and>
        2 \<le> card (methods_at nodes own method e) \<and> sorted labels \<and>
        mset labels = image_mset (\<lambda>(c, m). the (rn_qualified_name m)) (mset_set (methods_at nodes own method e))"
proof -
  have named: "nodes_named (ri_nodes_by_name index) cls = filter (\<lambda>n. rn_name n = cls) nodes"
    using indexes_build assms(1) by (simp add: indexes_def)
  have "unique_class_in_file cls caller_file (ri_nodes_by_name index) = Some own"
    using assms(3) by (simp add: unique_class_in_file_def the_only_Some named conj_commute)
  moreover have "own \<in> set (filter (\<lambda>n. rn_name n = cls \<and> rn_subtype n = Some ''CLASS'' \<and> rn_file_uid n = Some caller_file) nodes)"
    using assms(3) by simp
  then have "mro_verdict nodes own method 0
      (self_call_walk (ri_nodes_by_name index) (ri_nodes_by_qualified_name index) method {rn_node_uid own} [own] 0)"
    unfolding assms(1) by (intro built.walk_verdict assms(2)) simp_all
  ultimately show ?thesis by (simp add: resolve_self_call_def mro_verdict_def)
qed

text \<open>A diamond: \<open>A(B, C)\<close>, \<open>B(D)\<close>, \<open>C(D)\<close>, with the method in \<open>C\<close> and in \<open>D\<close>.\<close>

definition demo_class :: "string \<Rightarrow> string \<Rightarrow> string list \<Rightarrow> resolver_node" where
  "demo_class uid name bases =
     (demo_symbol uid (''r:a.py#'' @ name) name (Some name) ''SYMBOL'' (Some ''CLASS'') ''r:a.py'')\<lparr>rn_superclasses := bases\<rparr>"

definition demo_method :: "string \<Rightarrow> string \<Rightarrow> resolver_node" where
  "demo_method uid cls =
     demo_symbol uid (''r:a.py#'' @ cls @ ''.run'') ''run'' (Some (cls @ ''.run'')) ''SYMBOL'' (Some ''METHOD'') ''r:a.py''"

definition demo_diamond :: "resolver_node list" where
  "demo_diamond = [demo_class ''a'' ''A'' [''B'', ''C''], demo_class ''b'' ''B'' [''D''], demo_class ''c'' ''C'' [''D''],
     demo_class ''d'' ''D'' [], demo_method ''cm'' ''C'', demo_method ''dm'' ''D'']"

lemma demo_diamond_call:
  "resolve_self_call ''A'' ''run'' ''r:a.py'' (ri_nodes_by_name (demo_index demo_diamond [''a.py'']))
     (ri_nodes_by_qualified_name (demo_index demo_diamond [''a.py''])) = SC_Resolved ''cm''"
  by code_simp

theorem self_call_mro_witness:
  "\<exists>e \<in> {0..DEPTH_CAP}. {0..<e} \<subseteq> {k. methods_at demo_diamond (demo_class ''a'' ''A'' [''B'', ''C'']) ''run'' k = {}} \<and>
     (\<exists>c m. methods_at demo_diamond (demo_class ''a'' ''A'' [''B'', ''C'']) ''run'' e = {(c, m)} \<and> rn_node_uid m = ''cm'')"
proof -
  have "distinct (map rn_node_uid demo_diamond)" by code_simp
  moreover have "filter (\<lambda>n. rn_name n = ''A'' \<and> rn_subtype n = Some ''CLASS'' \<and> rn_file_uid n = Some ''r:a.py'') demo_diamond =
      [demo_class ''a'' ''A'' [''B'', ''C'']]"
    by code_simp
  ultimately show ?thesis
    using self_call_mro [OF demo_index_def, of demo_diamond "''A''" "''r:a.py''" "demo_class ''a'' ''A'' [''B'', ''C'']" "''run''" "[''a.py'']"]
    unfolding demo_diamond_call by (simp add: subset_eq)
qed

end
