(* ===== verification/Edge_Module_Graph.thy ===== *)
theory Edge_Module_Graph
  imports Edge_Resolver_Correct
begin

text \<open>
  The module graph the orchestrator derives from the resolved imports: directory modules, ownership and import edges, and
  the type-only stamp of each import edge.
\<close>

section \<open>Directories and keys in the index\<close>

definition file_module_key :: "string \<Rightarrow> resolver_node \<Rightarrow> string option" where
  "file_module_key repo_uid n =
     (if rn_kind n = ''FILE'' then map_option (module_stable_key repo_uid) (Option.bind (rn_qualified_name n) get_module_path) else None)"

definition file_in_module :: "resolver_node list \<Rightarrow> string \<Rightarrow> string \<Rightarrow> string \<Rightarrow> bool" where
  "file_in_module nodes repo_uid uid key \<longleftrightarrow> (\<exists>n \<in> set nodes. rn_node_uid n = uid \<and> file_module_key repo_uid n = Some key)"

definition node_with_key :: "resolver_node list \<Rightarrow> string \<Rightarrow> string \<Rightarrow> bool" where
  "node_with_key nodes key uid \<longleftrightarrow> (\<exists>n \<in> set nodes. rn_stable_key n = key \<and> rn_node_uid n = uid)"

definition indexes_modules :: "string \<Rightarrow> resolver_node list \<Rightarrow> resolver_index \<Rightarrow> bool" where
  "indexes_modules repo_uid nodes index \<longleftrightarrow>
     distinct (map fst (ri_file_to_module index)) \<and>
     (\<forall>uid key. map_of (ri_file_to_module index) uid = Some key \<longleftrightarrow> file_in_module nodes repo_uid uid key) \<and>
     (\<forall>key uid. ri_stable_key_to_uid index key = Some uid \<longleftrightarrow> node_with_key nodes key uid)"

lemma index_node_modules:
  "ri_file_to_module (index_node repo_uid n index) = (case file_module_key repo_uid n of
     None \<Rightarrow> ri_file_to_module index | Some key \<Rightarrow> AList.update (rn_node_uid n) key (ri_file_to_module index))"
  by (auto simp: index_node_def file_module_key_def split: option.split)

lemma file_in_module_snoc: "file_in_module (nodes @ [n]) repo_uid uid key \<longleftrightarrow>
    file_in_module nodes repo_uid uid key \<or> rn_node_uid n = uid \<and> file_module_key repo_uid n = Some key"
  by (auto simp: file_in_module_def)

lemma indexes_modules_node:
  assumes "indexes_modules repo_uid nodes index"
    and "rn_node_uid n \<notin> rn_node_uid ` set nodes" and "rn_stable_key n \<notin> rn_stable_key ` set nodes"
  shows "indexes_modules repo_uid (nodes @ [n]) (index_node repo_uid n index)"
proof -
  have fresh: "\<not> file_in_module nodes repo_uid (rn_node_uid n) key" for key using assms(2) by (metis file_in_module_def imageI)
  have keys: "ri_stable_key_to_uid (index_node repo_uid n index) = (ri_stable_key_to_uid index)(rn_stable_key n \<mapsto> rn_node_uid n)"
    by (simp add: index_node_def)
  have modules: "map_of (ri_file_to_module (index_node repo_uid n index)) uid = Some key \<longleftrightarrow>
      file_in_module (nodes @ [n]) repo_uid uid key" for uid key
    using assms(1) fresh unfolding index_node_modules file_in_module_snoc
    by (auto simp: indexes_modules_def update_conv' split: option.split)
  have uids: "ri_stable_key_to_uid (index_node repo_uid n index) key = Some uid \<longleftrightarrow> node_with_key (nodes @ [n]) key uid" for key uid
    using assms(1,3) unfolding keys by (auto simp: indexes_modules_def node_with_key_def image_iff)
  have "distinct (map fst (ri_file_to_module (index_node repo_uid n index)))"
    using assms(1) by (simp add: indexes_modules_def index_node_modules distinct_update split: option.split)
  then show ?thesis unfolding indexes_modules_def using modules uids by blast
qed

lemma indexes_modules_fold:
  assumes "indexes_modules repo_uid nodes index"
    and "distinct (map rn_node_uid (nodes @ more_nodes))" and "distinct (map rn_stable_key (nodes @ more_nodes))"
  shows "indexes_modules repo_uid (nodes @ more_nodes) (fold (index_node repo_uid) more_nodes index)"
  using assms
proof (induction more_nodes arbitrary: nodes index)
  case (Cons n ns)
  have "indexes_modules repo_uid (nodes @ [n]) (index_node repo_uid n index)"
    by (rule indexes_modules_node [OF Cons.prems(1)]) (use Cons.prems(2,3) in auto)
  then show ?case using Cons.IH [of "nodes @ [n]"] Cons.prems(2,3) by simp
qed simp

lemma indexes_modules_build:
  assumes "distinct (map rn_node_uid nodes)" and "distinct (map rn_stable_key nodes)"
  shows "indexes_modules repo_uid nodes (build_resolver_index decode nodes file_paths repo_uid modules roots rows)"
proof -
  have "indexes_modules repo_uid [] (empty_index file_paths repo_uid modules roots)"
    by (simp add: indexes_modules_def empty_index_def file_in_module_def node_with_key_def)
  from indexes_modules_fold [OF this, of nodes] show ?thesis
    using assms by (simp add: build_resolver_index_def indexes_modules_def Let_def)
qed

section \<open>Contributors\<close>

text \<open>The dispositions that imports contribute to a pair of modules, in order.\<close>

definition contributions :: "resolver_index \<Rightarrow> import_pair list \<Rightarrow> string \<times> string \<Rightarrow> type_only_disposition option list" where
  "contributions index ps pair = map (\<lambda>p. snd (snd p)) (filter (\<lambda>p. module_pair index p = Some pair) ps)"

definition gathered ::
  "resolver_index \<Rightarrow> import_pair list \<Rightarrow> (string \<times> string) list \<times> (string \<times> string \<rightharpoonup> type_only_disposition option list) \<Rightarrow> bool" where
  "gathered index ps g \<longleftrightarrow> distinct (fst g) \<and> set (fst g) = {pair. \<exists>p \<in> set ps. module_pair index p = Some pair} \<and>
     (\<forall>pair. snd g pair = (if contributions index ps pair = [] then None else Some (contributions index ps pair)))"

lemma contributions_Nil: "contributions index ps pair = [] \<longleftrightarrow> (\<forall>p \<in> set ps. module_pair index p \<noteq> Some pair)"
  by (auto simp: contributions_def filter_empty_conv)

lemma contributions_snoc: "contributions index (ps @ [p]) pair =
    contributions index ps pair @ (if module_pair index p = Some pair then [snd (snd p)] else [])"
  by (simp add: contributions_def)

lemma gathered_loop:
  assumes "gathered index seen (order, contributors)"
  shows "gathered index (seen @ ps) (gather_contributors index ps order contributors)"
  using assms
proof (induction ps arbitrary: seen order contributors)
  case (Cons p ps)
  show ?case
  proof (cases "module_pair index p")
    case None
    have "gathered index (seen @ [p]) (order, contributors)"
      using Cons.prems None by (simp add: gathered_def contributions_snoc)
    then show ?thesis using Cons.IH [of "seen @ [p]"] None by simp
  next
    case (Some pair)
    have c: "contributors pair = None \<longleftrightarrow> pair \<notin> set order"
      using Cons.prems by (cases pair) (auto simp: gathered_def contributions_Nil)
    have seen: "contributors q = (if contributions index seen q = [] then None else Some (contributions index seen q))" for q
      using Cons.prems by (simp only: gathered_def snd_conv)
    have cs: "map_entry pair [] (\<lambda>cs. cs @ [snd (snd p)]) contributors q =
        (if contributions index (seen @ [p]) q = [] then None else Some (contributions index (seen @ [p]) q))" for q
      unfolding map_entry_def contributions_snoc seen using Some by simp
    have "gathered index (seen @ [p]) (if contributors pair = None then order @ [pair] else order,
        map_entry pair [] (\<lambda>cs. cs @ [snd (snd p)]) contributors)"
      unfolding gathered_def fst_conv snd_conv cs using Cons.prems Some c by (auto simp: gathered_def)
    then show ?thesis using Cons.IH [of "seen @ [p]"] Some by simp
  qed
qed simp

lemma gathered_all: "gathered index ps (gather_contributors index ps [] Map.empty)"
  using gathered_loop [of index "[]" "[]" Map.empty ps] by (simp add: gathered_def contributions_def)

section \<open>The edges\<close>

text \<open>The pairs of keys whose modules have nodes, with the identifiers of the nodes.\<close>

definition linked_modules :: "resolver_index \<Rightarrow> (string \<times> string) list \<Rightarrow> ((string \<times> string) \<times> string \<times> string) list" where
  "linked_modules index order = filter_map (\<lambda>(src_key, tgt_key).
     case (ri_stable_key_to_uid index src_key, ri_stable_key_to_uid index tgt_key) of
       (Some su, Some tu) \<Rightarrow> Some ((src_key, tgt_key), su, tu) | _ \<Rightarrow> None) order"

abbreviation row_fact :: "resolved_edge_row \<Rightarrow> indexer_edge_type \<times> string \<times> string" where
  "row_fact row \<equiv> (re_edge_type row, re_source_node_uid row, re_target_node_uid row)"

lemma set_linked_modules: "((sk, tk), su, tu) \<in> set (linked_modules index order) \<longleftrightarrow>
    (sk, tk) \<in> set order \<and> ri_stable_key_to_uid index sk = Some su \<and> ri_stable_key_to_uid index tk = Some tu"
  by (force simp: linked_modules_def split: option.splits)

lemma linked_modules_Cons:
  "linked_modules index ((sk, tk) # order) = (case (ri_stable_key_to_uid index sk, ri_stable_key_to_uid index tk) of
     (Some su, Some tu) \<Rightarrow> ((sk, tk), su, tu) # linked_modules index order | _ \<Rightarrow> linked_modules index order)"
  by (simp add: linked_modules_def split: option.split)

definition stamps ::
  "(string \<times> string \<rightharpoonup> type_only_disposition option list) \<Rightarrow> (resolved_edge_row \<times> (string \<times> string) \<times> string \<times> string) list \<Rightarrow>
   (string \<times> type_only_disposition) list" where
  "stamps contributors rows = concat (map (\<lambda>(row, pair, ends). case Option.bind (contributors pair) aggregate_module_edge_type_only of
     Some b \<Rightarrow> [(re_edge_uid row, b)] | None \<Rightarrow> []) rows)"

lemma import_edges_rows:
  assumes "module_import_edges uuid index s r contributors i order = (edges, updates)"
  shows "map row_fact edges = map (\<lambda>(pair, su, tu). (ET_Imports, su, tu)) (linked_modules index order) \<and>
    map re_edge_uid edges = map uuid [i..<i + length edges] \<and> updates = stamps contributors (zip edges (linked_modules index order))"
  using assms
proof (induction order arbitrary: i edges updates)
  case Nil
  then show ?case by (simp add: linked_modules_def stamps_def)
next
  case (Cons pair order)
  obtain sk tk where pair: "pair = (sk, tk)" by (cases pair)
  show ?case
  proof (cases "\<exists>su tu. ri_stable_key_to_uid index sk = Some su \<and> ri_stable_key_to_uid index tk = Some tu")
    case True
    then obtain su tu where k: "ri_stable_key_to_uid index sk = Some su" "ri_stable_key_to_uid index tk = Some tu" by blast
    obtain es us where rest: "module_import_edges uuid index s r contributors (Suc i) order = (es, us)" by fastforce
    from Cons.IH [OF rest] show ?thesis
      using Cons.prems rest unfolding pair
      by (auto simp: linked_modules_Cons k Let_def stamps_def upt_conv_Cons simp del: upt_Suc split: option.split)
  next
    case False
    then have "module_import_edges uuid index s r contributors i (pair # order) = module_import_edges uuid index s r contributors i order"
      and "linked_modules index (pair # order) = linked_modules index order"
      unfolding pair by (auto simp: linked_modules_Cons split: option.split)
    then show ?thesis using Cons.IH [of i edges updates] Cons.prems by simp
  qed
qed

lemma set_stamps: "(uid, b) \<in> set (stamps contributors rows) \<longleftrightarrow>
    (\<exists>row pair ends. (row, pair, ends) \<in> set rows \<and> re_edge_uid row = uid \<and>
      Option.bind (contributors pair) aggregate_module_edge_type_only = Some b)"
  by (force simp: stamps_def split: option.splits)

lemma map_enumerate_fst: "map (\<lambda>(i, x). f i) (enumerate k xs) = map f [k..<k + length xs]"
  by (induction xs arbitrary: k) (simp_all add: upt_conv_Cons del: upt_Suc)

lemma map_enumerate_snd: "map (\<lambda>(i, x). f x) (enumerate k xs) = map f xs"
  by (induction xs arbitrary: k) simp_all

lemma map_option_filter_map: "map g (filter_map f xs) = filter_map (\<lambda>x. map_option g (f x)) xs"
  by (induction xs) (auto split: option.split)

lemma owns_rows:
  "map row_fact (owns_edges uuid index s r) = filter_map (\<lambda>(file_uid, module_key).
     map_option (\<lambda>module_uid. (ET_Owns, module_uid, file_uid)) (ri_stable_key_to_uid index module_key)) (ri_file_to_module index)"
proof -
  have "map row_fact (owns_edges uuid index s r) = map (\<lambda>(i, x). (ET_Owns, x)) (enumerate 0 (filter_map (\<lambda>(file_uid, module_key).
      map_option (\<lambda>module_uid. (module_uid, file_uid)) (ri_stable_key_to_uid index module_key)) (ri_file_to_module index)))"
    by (auto simp: owns_edges_def)
  then show ?thesis
    unfolding map_enumerate_snd map_option_filter_map by (simp add: case_prod_unfold option.map_comp o_def)
qed

lemma owns_uids: "map re_edge_uid (owns_edges uuid index s r) = map uuid [0..<length (owns_edges uuid index s r)]"
proof -
  have "map re_edge_uid (owns_edges uuid index s r) = map (\<lambda>(i, x). uuid i) (enumerate 0 (filter_map (\<lambda>(file_uid, module_key).
      map_option (\<lambda>module_uid. (module_uid, file_uid)) (ri_stable_key_to_uid index module_key)) (ri_file_to_module index)))"
    by (auto simp: owns_edges_def)
  then show ?thesis unfolding map_enumerate_fst by (simp add: owns_edges_def)
qed

section \<open>The module graph\<close>

text \<open>An import that links two modules, given by the identifiers of their nodes: its files lie in different directories.\<close>

definition links :: "resolver_node list \<Rightarrow> string \<Rightarrow> string \<Rightarrow> string \<Rightarrow> import_pair \<Rightarrow> bool" where
  "links nodes repo_uid src tgt p \<longleftrightarrow> (\<exists>sk tk. file_in_module nodes repo_uid (fst p) sk \<and> file_in_module nodes repo_uid (fst (snd p)) tk \<and>
     sk \<noteq> tk \<and> node_with_key nodes sk src \<and> node_with_key nodes tk tgt)"

lemma module_pair_iff:
  assumes "indexes_modules repo_uid nodes index"
  shows "module_pair index p = Some (sk, tk) \<longleftrightarrow>
    file_in_module nodes repo_uid (fst p) sk \<and> file_in_module nodes repo_uid (fst (snd p)) tk \<and> sk \<noteq> tk"
proof -
  have "file_in_module nodes repo_uid u k \<longleftrightarrow> map_of (ri_file_to_module index) u = Some k" for u k
    using assms by (simp only: indexes_modules_def)
  then show ?thesis by (cases p) (auto simp: module_pair_def split: option.splits if_splits)
qed

lemma node_with_key_unique:
  assumes "distinct (map rn_node_uid nodes)"
  shows "node_with_key nodes k u \<Longrightarrow> node_with_key nodes k' u \<Longrightarrow> k = k'"
  using assms by (auto simp: node_with_key_def distinct_map dest: inj_onD)

lemma links_iff:
  assumes "indexes_modules repo_uid nodes index" and "distinct (map rn_node_uid nodes)"
    and "node_with_key nodes sk src" and "node_with_key nodes tk tgt"
  shows "links nodes repo_uid src tgt p \<longleftrightarrow> module_pair index p = Some (sk, tk)"
  using node_with_key_unique [OF assms(2)] assms(3,4) unfolding links_def module_pair_iff [OF assms(1)] by blast

text \<open>The import rows of a gathered order: the linked modules, once each, and their stamps.\<close>

lemma import_rows_exact:
  assumes "indexes_modules repo_uid nodes index" and "distinct (map rn_node_uid nodes)"
    and "gathered index pairs (order, contributors)"
  shows "(\<exists>pair. (pair, su, tu) \<in> set (linked_modules index order)) \<longleftrightarrow> (\<exists>p \<in> set pairs. links nodes repo_uid su tu p)"
    and "distinct (map snd (linked_modules index order))"
    and "(pair, su, tu) \<in> set (linked_modules index order) \<Longrightarrow>
      contributors pair = Some (map (\<lambda>p. snd (snd p)) (filter (links nodes repo_uid su tu) pairs))"
proof -
  have uid: "ri_stable_key_to_uid index k = Some u \<longleftrightarrow> node_with_key nodes k u" for k u
    using assms(1) by (simp only: indexes_modules_def)
  have order: "set order = {pair. \<exists>p \<in> set pairs. module_pair index p = Some pair}" "distinct order"
    and contr: "contributors q = (if contributions index pairs q = [] then None else Some (contributions index pairs q))" for q
    using assms(3) by (simp_all only: gathered_def fst_conv snd_conv)
  have mem: "((sk, tk), su, tu) \<in> set (linked_modules index order) \<longleftrightarrow>
      (\<exists>p \<in> set pairs. module_pair index p = Some (sk, tk)) \<and> node_with_key nodes sk su \<and> node_with_key nodes tk tu" for sk tk su tu
    by (simp add: set_linked_modules uid order(1))
  show "(\<exists>pair. (pair, su, tu) \<in> set (linked_modules index order)) \<longleftrightarrow> (\<exists>p \<in> set pairs. links nodes repo_uid su tu p)"
    unfolding split_paired_Ex mem links_def module_pair_iff [OF assms(1)] by blast
  have "distinct (linked_modules index order)"
    unfolding linked_modules_def by (rule distinct_filter_map [OF order(2)]) (auto split: option.splits)
  moreover have "inj_on snd (set (linked_modules index order))"
    using node_with_key_unique [OF assms(2)] by (auto simp: inj_on_def mem)
  ultimately show "distinct (map snd (linked_modules index order))" by (simp add: distinct_map)
  assume in_linked: "(pair, su, tu) \<in> set (linked_modules index order)"
  obtain sk tk where pair: "pair = (sk, tk)" by (cases pair)
  have keys: "node_with_key nodes sk su" "node_with_key nodes tk tu" "\<exists>p \<in> set pairs. module_pair index p = Some (sk, tk)"
    using in_linked by (simp_all add: pair mem)
  then have "contributions index pairs pair \<noteq> []" by (simp add: pair contributions_Nil)
  then show "contributors pair = Some (map (\<lambda>p. snd (snd p)) (filter (links nodes repo_uid su tu) pairs))"
    unfolding contr by (simp add: contributions_def pair links_iff [OF assms(1,2) keys(1,2), symmetric])
qed

lemma distinct_filter_map_by:
  assumes "distinct (map f xs)" and "\<And>x y. x \<in> set xs \<Longrightarrow> h x = Some y \<Longrightarrow> g y = f x"
  shows "distinct (map g (filter_map h xs))"
  using assms
proof (induction xs)
  case (Cons x xs)
  have "g y \<in> f ` set xs" if "z \<in> set xs" "h z = Some y" for y z using Cons.prems(2) [of z y] that by auto
  then show ?case using Cons by (force split: option.split)
qed simp

lemma owns_exact:
  assumes "indexes_modules repo_uid nodes index"
  shows "set (map row_fact (owns_edges uuid index s r)) =
      {(ET_Owns, mu, fu) | mu fu. \<exists>key. file_in_module nodes repo_uid fu key \<and> node_with_key nodes key mu}"
    and "distinct (map row_fact (owns_edges uuid index s r))"
proof -
  have d: "distinct (map fst (ri_file_to_module index))"
    and m: "map_of (ri_file_to_module index) u = Some k \<longleftrightarrow> file_in_module nodes repo_uid u k"
    and n: "ri_stable_key_to_uid index k = Some u \<longleftrightarrow> node_with_key nodes k u" for u k
    using assms by (simp_all only: indexes_modules_def)
  have fim: "file_in_module nodes repo_uid u k \<longleftrightarrow> (u, k) \<in> set (ri_file_to_module index)" for u k
    unfolding m [symmetric] by (rule map_of_eq_Some_iff [OF d])
  show "set (map row_fact (owns_edges uuid index s r)) =
      {(ET_Owns, mu, fu) | mu fu. \<exists>key. file_in_module nodes repo_uid fu key \<and> node_with_key nodes key mu}"
    unfolding owns_rows set_filter_map fim n [symmetric] by (auto, rule bexI [rotated], assumption, simp)
  have "distinct (map (snd \<circ> snd) (map row_fact (owns_edges uuid index s r)))"
    unfolding owns_rows by (rule distinct_filter_map_by [OF d]) auto
  then show "distinct (map row_fact (owns_edges uuid index s r))" using distinct_map by blast
qed

text \<open>The stamp of a row is that of its own pair, and a row that links no modules has none.\<close>

lemma map_eq_zip: "map f xs = map g ys \<Longrightarrow> (x, y) \<in> set (zip xs ys) \<Longrightarrow> f x = g y"
  by (auto simp: set_zip list_eq_iff_nth_eq)

lemma image_snd_pairs: "Pair t ` snd ` S = {(t, su, tu) | su tu. \<exists>p. (p, su, tu) \<in> S}"
  by force

lemma stamped_rows:
  assumes "map row_fact es = map (\<lambda>(pair, ends). (ET_Imports, ends)) ls" and "distinct (map re_edge_uid (own @ es))"
    and "\<And>pair su tu. (pair, su, tu) \<in> set ls \<Longrightarrow> contributors pair = Some (cs su tu)"
    and "row \<in> set (own @ es)" and "\<forall>row \<in> set own. re_edge_type row \<noteq> ET_Imports"
  shows "(re_edge_uid row, b) \<in> set (stamps contributors (zip es ls)) \<longleftrightarrow>
    re_edge_type row = ET_Imports \<and> aggregate_module_edge_type_only (cs (re_source_node_uid row) (re_target_node_uid row)) = Some b"
proof -
  have ends: "row_fact r = (ET_Imports, ends) \<and> contributors pair = Some (cs (re_source_node_uid r) (re_target_node_uid r))"
    if "(r, pair, ends) \<in> set (zip es ls)" for r pair ends
  proof -
    have "row_fact r = (ET_Imports, ends)" using map_eq_zip [OF assms(1) that] by simp
    then show ?thesis using assms(3) [of pair] set_zip_rightD [OF that] by auto
  qed
  have same: "r = row" if "r \<in> set es" "re_edge_uid r = re_edge_uid row" for r
    using assms(2,4) that by (auto simp: distinct_map dest: inj_onD)
  have "length es = length ls" using map_eq_imp_length_eq [OF assms(1)] .
  have here: "\<exists>pair ends. (row, pair, ends) \<in> set (zip es ls)" if "re_edge_type row = ET_Imports"
  proof -
    have "row \<in> set es" using assms(4,5) that by auto
    then obtain y where "(row, y) \<in> set (zip es ls)" using in_set_impl_in_set_zip1 [OF \<open>length es = length ls\<close>] by blast
    then show ?thesis by (cases y) blast
  qed
  show ?thesis
    unfolding set_stamps
  proof (intro iffI, elim exE conjE)
    fix r pair ends
    assume r: "(r, pair, ends) \<in> set (zip es ls)" "re_edge_uid r = re_edge_uid row"
      and b: "Option.bind (contributors pair) aggregate_module_edge_type_only = Some b"
    have "r = row" using same set_zip_leftD [OF r(1)] r(2) by blast
    then show "re_edge_type row = ET_Imports \<and> aggregate_module_edge_type_only (cs (re_source_node_uid row) (re_target_node_uid row)) = Some b"
      using ends [OF r(1)] b by simp
  next
    assume row: "re_edge_type row = ET_Imports \<and> aggregate_module_edge_type_only (cs (re_source_node_uid row) (re_target_node_uid row)) = Some b"
    then obtain pair ends where p: "(row, pair, ends) \<in> set (zip es ls)" using here by blast
    then show "\<exists>r pair ends. (r, pair, ends) \<in> set (zip es ls) \<and> re_edge_uid r = re_edge_uid row \<and>
        Option.bind (contributors pair) aggregate_module_edge_type_only = Some b"
      using ends [OF p] row by (intro exI [of _ row] exI [of _ pair] exI [of _ ends]) simp
  qed
qed

text \<open>C13. The module edges of a snapshot, with distinct node identifiers and keys and identifiers drawn without repetition,
  are exactly these, once each, with distinct identifiers: an \<open>OWNS\<close> edge from the node of a directory to each file directly in
  it, and an \<open>IMPORTS\<close> edge between two different directories that have nodes if and only if some certain import has its source
  file in the first and its target file in the second. A row of the type-only column is written for an edge if and only if it is
  such an import edge and the dispositions of all the imports that link the two directories have an aggregate, which is the value
  written.\<close>

theorem module_graph_exact:
  assumes "index = build_resolver_index decode nodes file_paths repo_uid modules roots rows"
    and "distinct (map rn_node_uid nodes)" and "distinct (map rn_stable_key nodes)" and "inj uuid"
    and "create_module_edges uuid index pairs snapshot_uid repo_uid = (edges, updates)"
  shows "(\<lambda>row. (re_edge_type row, re_source_node_uid row, re_target_node_uid row)) ` set edges =
      {(ET_Owns, mu, fu) | mu fu. \<exists>key. file_in_module nodes repo_uid fu key \<and> node_with_key nodes key mu} \<union>
      {(ET_Imports, su, tu) | su tu. \<exists>p \<in> set pairs. links nodes repo_uid su tu p} \<and>
    distinct (map (\<lambda>row. (re_edge_type row, re_source_node_uid row, re_target_node_uid row)) edges) \<and>
    distinct (map re_edge_uid edges) \<and>
    (\<forall>row \<in> set edges. \<forall>b. (re_edge_uid row, b) \<in> set updates \<longleftrightarrow> re_edge_type row = ET_Imports \<and>
      aggregate_module_edge_type_only (map (\<lambda>p. snd (snd p))
        (filter (links nodes repo_uid (re_source_node_uid row) (re_target_node_uid row)) pairs)) = Some b)"
proof -
  have im: "indexes_modules repo_uid nodes index" unfolding assms(1) by (rule indexes_modules_build [OF assms(2,3)])
  let ?owns = "owns_edges uuid index snapshot_uid repo_uid"
  obtain order contributors where g: "gather_contributors index pairs [] Map.empty = (order, contributors)" by fastforce
  obtain es where es: "module_import_edges uuid index snapshot_uid repo_uid contributors (length ?owns) order = (es, updates)"
    and edges: "edges = ?owns @ es"
    using assms(5) by (auto simp: create_module_edges_def Let_def g split: prod.splits)
  let ?linked_modules = "linked_modules index order"
  note imp = import_rows_exact [OF im assms(2) gathered_all [of index pairs, unfolded g]]
  have facts: "map row_fact es = map (Pair ET_Imports) (map snd ?linked_modules)"
    and uids: "map re_edge_uid es = map uuid [length ?owns..<length edges]" and stamps: "updates = stamps contributors (zip es ?linked_modules)"
    using import_edges_rows [OF es] by (simp_all add: edges case_prod_unfold o_def)
  have "map re_edge_uid edges = map uuid [0..<length edges]"
    unfolding edges map_append owns_uids uids [unfolded edges] by (simp flip: map_append upt_add_eq_append)
  then have ids: "distinct (map re_edge_uid edges)" using assms(4) by (simp add: distinct_map inj_on_subset [OF _ subset_UNIV])
  have own: "\<forall>row \<in> set ?owns. re_edge_type row \<noteq> ET_Imports" by (auto simp: owns_edges_def)
  have written: "(re_edge_uid row, b) \<in> set updates \<longleftrightarrow> re_edge_type row = ET_Imports \<and>
      aggregate_module_edge_type_only (map (\<lambda>p. snd (snd p))
        (filter (links nodes repo_uid (re_source_node_uid row) (re_target_node_uid row)) pairs)) = Some b" if "row \<in> set edges" for row b
    unfolding stamps
    by (rule stamped_rows [OF _ ids [unfolded edges] imp(3) that [unfolded edges] own]) (simp_all add: facts case_prod_unfold o_def)
  have once: "distinct (map row_fact edges)"
    using owns_exact(2) [OF im] imp(2) unfolding edges map_append facts
    by (auto simp: distinct_map inj_on_def owns_exact(1) [OF im, unfolded set_map])
  have exact: "row_fact ` set edges = {(ET_Owns, mu, fu) | mu fu. \<exists>key. file_in_module nodes repo_uid fu key \<and> node_with_key nodes key mu} \<union>
      {(ET_Imports, su, tu) | su tu. \<exists>p \<in> set pairs. links nodes repo_uid su tu p}"
  proof -
    have "row_fact ` set es = {(ET_Imports, su, tu) | su tu. \<exists>pair. (pair, su, tu) \<in> set ?linked_modules}"
      using arg_cong [OF facts, of set] unfolding set_map image_snd_pairs .
    then show ?thesis unfolding edges set_append image_Un owns_exact(1) [OF im, unfolded set_map] imp(1) by simp
  qed
  show ?thesis by (intro conjI ballI allI exact once ids written)
qed

definition demo_module_nodes :: "resolver_node list" where
  "demo_module_nodes = demo_nodes @
     [demo_symbol ''m1'' ''r:src:MODULE'' ''src'' (Some ''src'') ''MODULE'' (Some ''DIRECTORY'') '''',
      demo_symbol ''m2'' ''r:lib:MODULE'' ''lib'' (Some ''lib'') ''MODULE'' (Some ''DIRECTORY'') '''']"

definition demo_module_graph :: "resolved_edge_row list \<times> (string \<times> type_only_disposition) list" where
  "demo_module_graph = create_module_edges (\<lambda>i. replicate i (CHR ''u'')) (demo_index demo_module_nodes [''src/a.ts'', ''lib/b.ts''])
     [(''n1'', ''n2'', Some TypeOnly), (''n1'', ''n2'', Some TypeOnly)] ''s'' ''r''"

theorem module_graph_exact_witness:
  "row_fact ` set (fst demo_module_graph) = {(ET_Owns, ''m1'', ''n1''), (ET_Owns, ''m2'', ''n2''), (ET_Imports, ''m1'', ''m2'')} \<and>
   links demo_module_nodes ''r'' ''m1'' ''m2'' (''n1'', ''n2'', Some TypeOnly) \<and>
   distinct (map row_fact (fst demo_module_graph)) \<and> snd demo_module_graph = [(''uu'', TypeOnly)]"
proof -
  have facts: "row_fact ` set (fst demo_module_graph) = {(ET_Owns, ''m1'', ''n1''), (ET_Owns, ''m2'', ''n2''), (ET_Imports, ''m1'', ''m2'')}"
    by code_simp
  have dist: "distinct (map rn_node_uid demo_module_nodes)" "distinct (map rn_stable_key demo_module_nodes)" by code_simp+
  have g: "create_module_edges (\<lambda>i. replicate i (CHR ''u'')) (demo_index demo_module_nodes [''src/a.ts'', ''lib/b.ts''])
      [(''n1'', ''n2'', Some TypeOnly), (''n1'', ''n2'', Some TypeOnly)] ''s'' ''r'' = (fst demo_module_graph, snd demo_module_graph)"
    by (simp add: demo_module_graph_def)
  have "inj (\<lambda>i. replicate i (CHR ''u''))" by (auto simp: inj_on_def dest: arg_cong [of _ _ length])
  note exact = module_graph_exact [OF demo_index_def dist this g]
  have "(ET_Imports, ''m1'', ''m2'') \<in> row_fact ` set (fst demo_module_graph)" unfolding facts by simp
  then have "links demo_module_nodes ''r'' ''m1'' ''m2'' (''n1'', ''n2'', Some TypeOnly)"
    unfolding conjunct1 [OF exact] by simp
  moreover have "snd demo_module_graph = [(''uu'', TypeOnly)]" by code_simp
  ultimately show ?thesis using facts conjunct1 [OF conjunct2 [OF exact]] by simp
qed

end
