(* ===== verification/Edge_Imports_Correct.thy ===== *)
theory Edge_Imports_Correct
  imports Edge_Module_Graph Unresolved_Correct
begin

text \<open>
  Properties of single stages of the resolver: the suffix search of Java imports, and the classification of self calls the
  hierarchy walk declined; and what the order of the stages lets through.
\<close>

section \<open>Java imports\<close>

text \<open>The files whose path ends, at a directory boundary, in the segments read as a path to a source file.\<close>

definition java_matches :: "string list \<Rightarrow> string list \<Rightarrow> string list" where
  "java_matches paths segs = filter (\<lambda>p. path_has_boundary_suffix p (join_with (CHR ''/'') segs @ ''.java'')) paths"

lemma java_bucket_from:
  "(case build_java_suffix_index_from index paths b of None \<Rightarrow> [] | Some ps \<Rightarrow> ps) =
     (case index b of None \<Rightarrow> [] | Some ps \<Rightarrow> ps) @
     filter (\<lambda>p. ends_with p ''.java'' \<and> rsplit_next p (CHR ''/'') = b) paths"
  by (induction index paths rule: build_java_suffix_index_from.induct) (auto simp: map_entry_def)

lemma java_bucket:
  "(case build_java_suffix_index paths b of None \<Rightarrow> [] | Some ps \<Rightarrow> ps) =
     filter (\<lambda>p. ends_with p ''.java'' \<and> rsplit_next p (CHR ''/'') = b) paths"
  by (simp add: build_java_suffix_index_def java_bucket_from)

lemma boundary_suffix_iff: "path_has_boundary_suffix p s \<longleftrightarrow> p = s \<or> (\<exists>pre. p = pre @ CHR ''/'' # s)"
proof
  assume "path_has_boundary_suffix p s"
  then consider "p = s" | "length s < length p" "ends_with p s" "p ! (length p - length s - 1) = CHR ''/''"
    by (auto simp: path_has_boundary_suffix_def)
  then show "p = s \<or> (\<exists>pre. p = pre @ CHR ''/'' # s)"
  proof cases
    case 1
    then show ?thesis by (rule disjI1)
  next
    case 2
    obtain r where r: "p = r @ s" using 2(2) unfolding ends_with_iff by blast
    then have "r \<noteq> []" using 2(1) by auto
    then obtain pre c where pre: "r = pre @ [c]" by (cases r rule: rev_cases) auto
    then have "c = CHR ''/''" using 2(3) r by simp
    then show ?thesis using r pre by simp
  qed
qed (auto simp: path_has_boundary_suffix_def ends_with_iff nth_append)

lemma boundary_filename:
  assumes "segs \<noteq> []" and "CHR ''/'' \<notin> set (last segs)" and "path_has_boundary_suffix p (join_with (CHR ''/'') segs @ ''.java'')"
  shows "ends_with p ''.java''" and "rsplit_next p (CHR ''/'') = last segs @ ''.java''"
proof -
  let ?f = "last segs @ ''.java''"
  have "p = ?f \<or> (\<exists>pre. p = pre @ CHR ''/'' # ?f)"
    using assms(3) join_with_last [OF assms(1), of "CHR ''/''"] unfolding boundary_suffix_iff by fastforce
  moreover have "CHR ''/'' \<notin> set ?f" using assms(2) by simp
  ultimately show "rsplit_next p (CHR ''/'') = ?f" using rsplit_next_last by metis
  show "ends_with p ''.java''" using \<open>p = ?f \<or> _\<close> by (auto simp: ends_with_iff)
qed

lemma java_bucket_matches:
  assumes "segs \<noteq> []" and "CHR ''/'' \<notin> set (last segs)"
  shows "filter (\<lambda>p. path_has_boundary_suffix p (join_with (CHR ''/'') segs @ ''.java''))
      (case build_java_suffix_index paths (last segs @ ''.java'') of None \<Rightarrow> [] | Some ps \<Rightarrow> ps) = java_matches paths segs"
  unfolding java_bucket java_matches_def filter_filter using boundary_filename [OF assms] by (intro filter_cong) auto

lemma java_levels_step:
  assumes "CHR ''/'' \<notin> set s"
  shows "java_levels (segs @ [s]) (build_java_suffix_index paths) = (case java_matches paths (segs @ [s]) of
      [] \<Rightarrow> java_levels segs (build_java_suffix_index paths) | [p] \<Rightarrow> JS_Resolved p | _ \<Rightarrow> JS_Ambiguous)"
  using java_bucket_matches [of "segs @ [s]" paths] assms
  by (subst java_levels.simps) (auto split: option.splits list.split)

definition java_verdict :: "string list \<Rightarrow> string list \<Rightarrow> java_suffix_lookup \<Rightarrow> bool" where
  "java_verdict paths segs r = (case r of
     JS_NotFound \<Rightarrow> \<forall>k \<in> {1..length segs}. java_matches paths (take k segs) = []
   | JS_Resolved p \<Rightarrow> \<exists>k \<in> {1..length segs}. java_matches paths (take k segs) = [p] \<and>
       (\<forall>j \<in> {k<..length segs}. java_matches paths (take j segs) = [])
   | JS_Ambiguous \<Rightarrow> \<exists>k \<in> {1..length segs}. 2 \<le> length (java_matches paths (take k segs)) \<and>
       (\<forall>j \<in> {k<..length segs}. java_matches paths (take j segs) = []))"

lemma java_verdict_snoc:
  assumes "java_verdict paths segs r" and "java_matches paths (segs @ [s]) = []"
  shows "java_verdict paths (segs @ [s]) r"
proof -
  have top: "{1..length (segs @ [s])} = insert (Suc (length segs)) {1..length segs}" by auto
  have above: "{k<..length (segs @ [s])} = insert (Suc (length segs)) {k<..length segs}" if "k \<in> {1..length segs}" for k
    using that by auto
  have low: "take k (segs @ [s]) = take k segs" if "k \<le> length segs" for k using that by simp
  have lift: "(\<exists>k \<in> {1..length (segs @ [s])}. P (take k (segs @ [s])) \<and> (\<forall>j \<in> {k<..length (segs @ [s])}. java_matches paths (take j (segs @ [s])) = []))"
    if ex: "\<exists>k \<in> {1..length segs}. P (take k segs) \<and> (\<forall>j \<in> {k<..length segs}. java_matches paths (take j segs) = [])" for P
  proof -
    obtain k where k: "k \<in> {1..length segs}" "P (take k segs)" "\<forall>j \<in> {k<..length segs}. java_matches paths (take j segs) = []"
      using ex by blast
    have "\<forall>j \<in> {k<..length (segs @ [s])}. java_matches paths (take j (segs @ [s])) = []"
      unfolding above [OF k(1)] using k(3) assms(2) by simp
    then show ?thesis using k(1,2) by (intro bexI [of _ k]) auto
  qed
  show ?thesis
    using assms lift [of "\<lambda>t. java_matches paths t = [p]" for p] lift [of "\<lambda>t. 2 \<le> length (java_matches paths t)"]
    by (cases r) (auto simp: java_verdict_def le_Suc_eq)
qed

lemma split_on_subset: "seg \<in> set (split_on c s) \<Longrightarrow> set seg \<subseteq> set s"
  by (induction s arbitrary: seg) (fastforce split: if_splits list.splits)+

lemma java_levels_verdict:
  assumes "\<forall>s \<in> set segs. CHR ''/'' \<notin> set s"
  shows "java_verdict paths segs (java_levels segs (build_java_suffix_index paths))"
  using assms
proof (induction segs rule: rev_induct)
  case Nil
  then show ?case by (simp add: java_verdict_def java_levels.simps)
next
  case (snoc s segs)
  have here: "\<exists>k \<in> {1..length (segs @ [s])}. P (take k (segs @ [s])) \<and> (\<forall>j \<in> {k<..length (segs @ [s])}. Q j)" if "P (segs @ [s])" for P Q
    using that by (intro bexI [of _ "length (segs @ [s])"]) auto
  have step: "java_levels (segs @ [s]) (build_java_suffix_index paths) = (case java_matches paths (segs @ [s]) of
      [] \<Rightarrow> java_levels segs (build_java_suffix_index paths) | [p] \<Rightarrow> JS_Resolved p | _ \<Rightarrow> JS_Ambiguous)"
    by (rule java_levels_step) (use snoc.prems in simp)
  show ?case
  proof (cases "java_matches paths (segs @ [s])" rule: remdups_adj.cases)
    case 1
    then show ?thesis using snoc java_verdict_snoc step by simp
  next
    case (2 p)
    then show ?thesis unfolding step java_verdict_def by (simp only: list.case java_suffix_lookup.case) (rule here)
  next
    case (3 p q ps)
    then show ?thesis unfolding step java_verdict_def by (simp only: list.case java_suffix_lookup.case) (rule here, simp)
  qed
qed

text \<open>C15. The suffix search of a Java import, over the index of a file list, takes the longest prefix of the dotted name that
  some file path ends in at a directory boundary (package directories, then \<open>Type.java\<close>): it resolves exactly when a single
  file matches there, to that file; it is ambiguous exactly when several do; and it finds nothing exactly when the name has an
  empty segment or no prefix matches any file. So a nested or static member import falls back to its outer type, and never past
  a prefix that matches.\<close>

theorem java_import_exact:
  assumes "CHR ''/'' \<notin> set target_key" and "segs = split_on (CHR ''.'') target_key"
  shows "case resolve_java_suffix target_key (build_java_suffix_index paths) of
      JS_NotFound \<Rightarrow> '''' \<in> set segs \<or> (\<forall>k \<in> {1..length segs}. java_matches paths (take k segs) = [])
    | JS_Resolved p \<Rightarrow> '''' \<notin> set segs \<and> (\<exists>k \<in> {1..length segs}. java_matches paths (take k segs) = [p] \<and>
        (\<forall>j \<in> {k<..length segs}. java_matches paths (take j segs) = []))
    | JS_Ambiguous \<Rightarrow> '''' \<notin> set segs \<and> (\<exists>k \<in> {1..length segs}. 2 \<le> length (java_matches paths (take k segs)) \<and>
        (\<forall>j \<in> {k<..length segs}. java_matches paths (take j segs) = []))"
proof -
  have empty: "list_ex (\<lambda>s. s = '''') segs \<longleftrightarrow> '''' \<in> set segs" by (auto simp: list_ex_iff)
  have "\<forall>s \<in> set segs. CHR ''/'' \<notin> set s"
    using assms(1) split_on_subset unfolding assms(2) by fastforce
  from java_levels_verdict [OF this, of paths] show ?thesis
    by (cases "'''' \<in> set segs")
      (auto simp: resolve_java_suffix_def Let_def assms(2) [symmetric] empty java_verdict_def split: java_suffix_lookup.splits)
qed

definition demo_java :: "string list" where
  "demo_java = [''app/src/com/acme/Outer.java'', ''lib/Other.java'']"

theorem java_import_exact_witness:
  "resolve_java_suffix ''com.acme.Outer.Inner'' (build_java_suffix_index demo_java) = JS_Resolved ''app/src/com/acme/Outer.java'' \<and>
   (\<exists>k \<in> {1..4}. java_matches demo_java (take k [''com'', ''acme'', ''Outer'', ''Inner'']) = [''app/src/com/acme/Outer.java''] \<and>
     {k<..4} \<subseteq> {j. java_matches demo_java (take j [''com'', ''acme'', ''Outer'', ''Inner'']) = []})"
proof -
  have r: "resolve_java_suffix ''com.acme.Outer.Inner'' (build_java_suffix_index demo_java) = JS_Resolved ''app/src/com/acme/Outer.java''"
    by code_simp
  have segs: "[''com'', ''acme'', ''Outer'', ''Inner''] = split_on (CHR ''.'') ''com.acme.Outer.Inner''" by code_simp
  have "CHR ''/'' \<notin> set ''com.acme.Outer.Inner''" by simp
  from java_import_exact [OF this segs, of demo_java] r show ?thesis by (simp add: eval_nat_numeral subset_eq)
qed

section \<open>Declined self calls\<close>

text \<open>The basis the classifier should give a self call that the resolver declined, from the outcome of the resolver.\<close>

fun self_call_verdict :: "target_resolution \<Rightarrow> classifier_verdict option" where
  "self_call_verdict (TR_SelfCallAmbiguousMro candidates) = Some (internal SelfCallAmbiguousMro)"
| "self_call_verdict (TR_SelfCallHierarchyMiss pool) = Some (unknown_with SelfCallHierarchyMiss)"
| "self_call_verdict (TR_SelfCallReceiverUnproven pool) = Some (unknown_with SelfCallReceiverUnproven)"
| "self_call_verdict (TR_SelfCallWithoutClassContext pool) = Some (unknown_with SelfCallWithoutClassContext)"
| "self_call_verdict _ = None"

text \<open>When a self call is declined, the carrier names a class exactly if the outcome is not the missing class context.\<close>

definition decline_fits :: "string option \<Rightarrow> target_resolution \<Rightarrow> bool" where
  "decline_fits cls r = (case r of
     TR_SelfCallAmbiguousMro candidates \<Rightarrow> 2 \<le> length candidates
   | TR_SelfCallHierarchyMiss pool \<Rightarrow> cls \<noteq> None
   | TR_SelfCallReceiverUnproven pool \<Rightarrow> cls \<noteq> None
   | TR_SelfCallWithoutClassContext pool \<Rightarrow> cls = None
   | _ \<Rightarrow> True)"

lemma walk_ambiguous: "self_call_walk by_name by_q m visited frontier d = SC_AmbiguousMro candidates \<Longrightarrow> 2 \<le> length candidates"
proof (induction by_name by_q m visited frontier d rule: self_call_walk.induct)
  case (1 by_name by_q m visited frontier d)
  show ?case
  proof (cases "frontier = [] \<or> DEPTH_CAP < d")
    case True
    then show ?thesis using 1 by (simp add: self_call_walk.simps)
  next
    case False
    then show ?thesis
      using "1.prems" "1.IH" [OF False] unfolding self_call_walk.simps [of by_name by_q m visited frontier d]
      by (auto split: list.splits prod.splits)
  qed
qed

lemma resolved_fits [simp]: "decline_fits cls (TR_Resolved uid)"
  by (simp add: decline_fits_def)

lemma option_fits: "decline_fits cls (option_to_resolution x)"
  by (cases x) (simp_all add: option_to_resolution_def decline_fits_def)

lemma python_self_call_fits:
  "decline_fits (self_call_enclosing_class from_str md) (resolve_python_self_call from_str key m src ex md index bindings)"
  by (auto simp: resolve_python_self_call_def decline_fits_def resolve_self_call_def Let_def
      split: option.splits receiver_binding_read.splits self_call_resolution.splits dest: walk_ambiguous)

lemma dotted_fits: "dotted_name_fallback key src py index bindings = Some r \<Longrightarrow> decline_fits cls r"
  by (auto simp: dotted_name_fallback_def decline_fits_def Let_def split: if_splits list.splits)

lemma call_fits: "decline_fits (self_call_enclosing_class from_str md) (resolve_call_target from_str key src ex md index bindings)"
  by (auto simp: resolve_call_target_def Let_def option_fits python_self_call_fits split: option.splits dest: dotted_fits)

text \<open>The entries of a merged carrier: those written, and those that were there under other keys.\<close>

lemma map_of_set_entry: "map_of (set_entry k v kvs) = (map_of kvs)(k \<mapsto> v)"
  by (induction k v kvs rule: set_entry.induct) (auto simp: fun_upd_twist)

definition carrier_of :: "json_reader \<Rightarrow> string option \<Rightarrow> (string \<times> json) list" where
  "carrier_of from_str md = (case Option.bind (Option.bind md from_str) as_object of Some kvs \<Rightarrow> kvs | None \<Rightarrow> [])"

lemma enclosing_class_carrier:
  "(self_call_enclosing_class from_str md \<noteq> None) \<longleftrightarrow>
     map_of (carrier_of from_str md) ''selfCall'' = Some (JBool True) \<and>
     (\<exists>c. map_of (carrier_of from_str md) ''enclosingClass'' = Some (JString c) \<and> c \<noteq> '''')"
proof (cases "Option.bind md from_str")
  case (Some j)
  show ?thesis
  proof (cases j)
    case (JObject kvs)
    have carrier: "carrier_of from_str md = kvs" using Some JObject by (simp add: carrier_of_def)
    have "self_call_enclosing_class from_str md = (if map_of kvs ''selfCall'' \<noteq> Some (JBool True) then None
        else Option.bind (Option.bind (map_of kvs ''enclosingClass'') as_str) (\<lambda>cls. if cls = [] then None else Some cls))"
      using Some JObject by (simp add: self_call_enclosing_class_def json_lookup_def)
    moreover have "Option.bind (Option.bind x as_str) (\<lambda>cls. if cls = [] then None else Some cls) \<noteq> None \<longleftrightarrow>
        (\<exists>c. x = Some (JString c) \<and> c \<noteq> [])" for x
      by (cases x; cases "the x") auto
    ultimately show ?thesis unfolding carrier by simp
  qed (use Some in \<open>simp_all add: self_call_enclosing_class_def carrier_of_def json_lookup_def\<close>)
qed (simp add: self_call_enclosing_class_def carrier_of_def)

text \<open>No other stage answers with a declined self call: neither the import stages nor the lookup by name.\<close>

lemma not_declined: "self_call_verdict r = None \<Longrightarrow> decline_fits cls r"
  by (cases r) (simp_all add: decline_fits_def)

lemma submodule_not_declined: "resolve_python_submodule_import from_str edge index bindings = Some r \<Longrightarrow> self_call_verdict r = None"
  by (simp only: resolve_python_submodule_import_def Let_def Option.bind_eq_Some_conv, elim exE conjE)
    (auto split: option.splits if_splits)

lemma include_not_declined: "include_stage edge index = Some r \<Longrightarrow> self_call_verdict r = None"
  by (simp only: include_stage_def Let_def Option.bind_eq_Some_conv case_prod_beta, elim exE conjE)
    (auto split: resolution_status.splits)

lemma suffix_not_declined: "resolve_include_suffix_or_basename from_str print edge index = Some r \<Longrightarrow> self_call_verdict r = None"
  by (simp only: resolve_include_suffix_or_basename_def Let_def Option.bind_eq_Some_conv, elim exE conjE)
    (auto split: include_path_match.splits)

lemma workspace_not_declined: "resolve_workspace_package_import from_str print edge index = Some r \<Longrightarrow> self_call_verdict r = None"
  by (simp only: resolve_workspace_package_import_def Let_def Option.bind_eq_Some_conv option.distinct if_False split: if_splits,
      elim exE conjE) (auto split: workspace_import_match.splits)

lemma tsconfig_not_declined: "resolve_tsconfig_paths_import from_str print edge index = Some r \<Longrightarrow> self_call_verdict r = None"
  by (cases "tsconfig_paths_is_empty (ri_tsconfig_paths index)"; cases "is_relative_specifier (xe_target_key edge)";
      simp only: resolve_tsconfig_paths_import_def if_True if_False Option.bind_eq_Some_conv option.distinct;
      elim exE conjE)
    (auto split: alias_hits_result.splits list.splits if_splits)

lemma option_not_declined: "self_call_verdict (option_to_resolution x) = None"
  by (cases x) (simp_all add: option_to_resolution_def)

lemma java_not_declined: "self_call_verdict (resolve_java_import key index repo) = None"
  by (simp add: resolve_java_import_def option_not_declined split: java_suffix_lookup.splits)

lemma ladder_not_declined: "self_call_verdict (resolve_import_ladder from_str print edge index decls) = None"
  unfolding resolve_import_ladder_def Let_def
  by (auto simp: java_not_declined or_else_Some split: option.splits
      dest: include_not_declined suffix_not_declined workspace_not_declined tsconfig_not_declined)

lemma target_fits:
  "decline_fits (self_call_enclosing_class from_str (xe_metadata_json edge)) (resolve_target from_str print edge index bindings decls)"
proof (cases "xe_edge_type edge = ET_Calls")
  case True
  then show ?thesis using call_fits by (simp add: resolve_target_def Let_def)
next
  case False
  then have "self_call_verdict (resolve_target from_str print edge index bindings decls) = None"
    by (auto simp: resolve_target_def Let_def option_not_declined ladder_not_declined split: option.splits dest: submodule_not_declined)
  then show ?thesis by (rule not_declined)
qed

lemma has_mro_carrier:
  "has_mro_candidates from_str md \<longleftrightarrow> (\<exists>items. map_of (carrier_of from_str md) ''mroCandidates'' = Some (JArray items) \<and>
     2 \<le> length items \<and> list_all is_json_string items)"
proof (cases "Option.bind md from_str")
  case (Some j)
  then show ?thesis
    by (cases j) (auto simp: has_mro_candidates_def metadata_of_def carrier_of_def json_lookup_def split: option.splits json.splits)
qed (simp add: has_mro_candidates_def metadata_of_def carrier_of_def)

text \<open>The classifier on a carrier read back with the keys that decline a self call.\<close>

lemma classify_mro:
  assumes "Option.bind md from_str = Some (JObject kvs)" and "map_of kvs ''mroCandidates'' = Some (json_strings candidates)"
    and "2 \<le> length candidates"
  shows "classify_unresolved_edge from_str \<lparr>ce_target_key = key, ce_metadata_json = md\<rparr> category snapshot fsig = internal SelfCallAmbiguousMro"
proof -
  have "has_mro_candidates from_str md"
    using assms by (auto simp: has_mro_carrier carrier_of_def json_strings_def list_all_iff is_json_string_def)
  then show ?thesis by (simp add: classify_unresolved_edge_def)
qed

lemma classify_pool:
  assumes "Option.bind md from_str = Some (JObject kvs)" and "map_of kvs ''nameOnlyCandidates'' = Some (json_strings pool)"
    and "map_of kvs ''nameOnlyReason'' = Some (JString reason)" and "\<not> has_mro_candidates from_str md"
    and "valid \<longleftrightarrow> map_of kvs ''selfCall'' = Some (JBool True) \<and> (\<exists>c. map_of kvs ''enclosingClass'' = Some (JString c) \<and> c \<noteq> [])"
    and "(reason, basis) \<in> {(NAME_ONLY_REASON_SELF_CALL_HIERARCHY_MISS, SelfCallHierarchyMiss),
      (NAME_ONLY_REASON_SELF_CALL_RECEIVER_UNPROVEN, SelfCallReceiverUnproven)} \<and> valid \<or>
      (reason, basis) = (NAME_ONLY_REASON_SELF_CALL_WITHOUT_CLASS_CONTEXT, SelfCallWithoutClassContext) \<and> \<not> valid"
  shows "classify_unresolved_edge from_str \<lparr>ce_target_key = key, ce_metadata_json = md\<rparr> category snapshot fsig = unknown_with basis"
proof -
  have strings: "list_all is_json_string (map JString pool)" by (simp add: list_all_iff is_json_string_def)
  have carrier: "(json_lookup (JObject kvs) ''selfCall'' = Some (JBool True) \<and>
      (case json_str_at (JObject kvs) ''enclosingClass'' of None \<Rightarrow> False | Some c \<Rightarrow> c \<noteq> [])) \<longleftrightarrow> valid"
    unfolding assms(5) by (auto simp: json_lookup_def json_str_at_def split: option.splits json.splits)
  have "json_str_at (JObject kvs) ''nameOnlyReason'' = Some reason" using assms(3) by (simp add: json_str_at_def json_lookup_def)
  moreover have "json_lookup (JObject kvs) ''nameOnlyCandidates'' = Some (JArray (map JString pool))"
    using assms(2) by (simp add: json_lookup_def json_strings_def)
  ultimately have "self_call_pool_basis from_str md = Some basis"
    unfolding self_call_pool_basis_def metadata_of_def assms(1) using strings carrier assms(6)
    by (auto simp: NAME_ONLY_REASON_SELF_CALL_HIERARCHY_MISS_def NAME_ONLY_REASON_SELF_CALL_RECEIVER_UNPROVEN_def
        NAME_ONLY_REASON_SELF_CALL_WITHOUT_CLASS_CONTEXT_def Let_def)
  then show ?thesis using assms(4) by (simp add: classify_unresolved_edge_def)
qed

text \<open>The metadata written for a row, read back, has the written keys over the entries of the carrier.\<close>

lemma merged_reads_back:
  assumes "md' = Some (merge_metadata from_str print md keys)"
    and "\<forall>j. md' = Some (print j) \<longrightarrow> from_str (print j) = Some j"
  shows "Option.bind md' from_str = Some (JObject (fold (\<lambda>(k, v). set_entry k v) keys (carrier_of from_str md)))"
  using assms by (simp add: merge_metadata_def carrier_of_def Let_def)

lemma declined_pool_classified:
  assumes row: "md' = Some (merge_metadata from_str print md [(''nameOnlyCandidates'', json_strings p), (''nameOnlyReason'', JString reason)])"
    and reads: "\<forall>j. md' = Some (print j) \<longrightarrow> from_str (print j) = Some j"
    and fresh: "\<not> has_mro_candidates from_str md"
    and basis: "(reason, basis) \<in> {(NAME_ONLY_REASON_SELF_CALL_HIERARCHY_MISS, SelfCallHierarchyMiss),
        (NAME_ONLY_REASON_SELF_CALL_RECEIVER_UNPROVEN, SelfCallReceiverUnproven)} \<and> self_call_enclosing_class from_str md \<noteq> None \<or>
      (reason, basis) = (NAME_ONLY_REASON_SELF_CALL_WITHOUT_CLASS_CONTEXT, SelfCallWithoutClassContext) \<and>
        \<not> self_call_enclosing_class from_str md \<noteq> None"
  shows "classify_unresolved_edge from_str \<lparr>ce_target_key = key, ce_metadata_json = md'\<rparr> category snapshot fsig = unknown_with basis"
proof -
  let ?kvs = "fold (\<lambda>(k, v). set_entry k v) [(''nameOnlyCandidates'', json_strings p), (''nameOnlyReason'', JString reason)]
    (carrier_of from_str md)"
  note read = merged_reads_back [OF row reads]
  have entries: "map_of ?kvs = (map_of (carrier_of from_str md))(''nameOnlyCandidates'' \<mapsto> json_strings p, ''nameOnlyReason'' \<mapsto> JString reason)"
    by (simp add: map_of_set_entry)
  have "map_of ?kvs ''nameOnlyCandidates'' = Some (json_strings p)" "map_of ?kvs ''nameOnlyReason'' = Some (JString reason)"
    "self_call_enclosing_class from_str md \<noteq> None \<longleftrightarrow> map_of ?kvs ''selfCall'' = Some (JBool True) \<and>
      (\<exists>c. map_of ?kvs ''enclosingClass'' = Some (JString c) \<and> c \<noteq> [])"
    unfolding entries enclosing_class_carrier by simp_all
  note carrier = this
  have "\<not> has_mro_candidates from_str md'"
    using fresh read entries by (simp add: has_mro_carrier carrier_of_def)
  then show ?thesis by (rule classify_pool [OF read carrier(1,2) _ carrier(3) basis])
qed

text \<open>C14. The resolver and the classifier agree on self calls: when the resolver declines a Python self call, the row it writes
  carries, in its metadata, exactly what makes the classifier give it the matching basis. Several methods at the nearest
  distance of the hierarchy give an internal candidate with the ambiguous-order basis, whatever the signals; a miss of the
  hierarchy, an unproven receiver and a missing class context each give the basis of that name and stay unknown. The
  hypotheses are that the extractor did not itself write a list of candidates, and that the metadata printed for the row reads
  back as the value printed.\<close>

theorem declined_self_call_classified:
  assumes "resolve_target from_str print edge index bindings decls = r" and "self_call_verdict r = Some verdict"
    and "edge_outcome from_str print index edge r = Inr u"
    and "\<not> has_mro_candidates from_str (xe_metadata_json edge)"
    and "\<forall>j. xe_metadata_json (cu_edge u) = Some (print j) \<longrightarrow> from_str (print j) = Some j"
  shows "classify_unresolved_edge from_str
      \<lparr>ce_target_key = xe_target_key (cu_edge u), ce_metadata_json = xe_metadata_json (cu_edge u)\<rparr> (cu_category u) snapshot fsig = verdict"
proof -
  let ?md = "xe_metadata_json edge" and ?md' = "xe_metadata_json (cu_edge u)"
  note fits = target_fits [of from_str edge print index bindings decls, unfolded assms(1)]
  note pool = declined_pool_classified [OF _ assms(5,4)]
  note row_defs = edge_outcome_def declined_pool_row_def unresolved_row_def Let_def inject_mro_candidates_def
  consider (mro) cs where "r = TR_SelfCallAmbiguousMro cs" | (miss) p where "r = TR_SelfCallHierarchyMiss p"
    | (unproven) p where "r = TR_SelfCallReceiverUnproven p" | (context_free) p where "r = TR_SelfCallWithoutClassContext p"
    using assms(2) by (cases r) simp_all
  then show ?thesis
  proof cases
    case mro
    then have row: "?md' = Some (merge_metadata from_str print ?md [(''mroCandidates'', json_strings cs)])"
      using assms(3) by (auto simp: row_defs)
    from classify_mro [OF merged_reads_back [OF row assms(5)]] show ?thesis
      using mro fits assms(2) by (simp add: map_of_set_entry decline_fits_def)
  next
    case miss
    then have "?md' = Some (merge_metadata from_str print ?md [(''nameOnlyCandidates'', json_strings p),
        (''nameOnlyReason'', JString NAME_ONLY_REASON_SELF_CALL_HIERARCHY_MISS)])" using assms(3) by (auto simp: row_defs)
    from pool [OF this] show ?thesis using miss fits assms(2) by (auto simp: decline_fits_def)
  next
    case unproven
    then have "?md' = Some (merge_metadata from_str print ?md [(''nameOnlyCandidates'', json_strings p),
        (''nameOnlyReason'', JString NAME_ONLY_REASON_SELF_CALL_RECEIVER_UNPROVEN)])" using assms(3) by (auto simp: row_defs)
    from pool [OF this] show ?thesis using unproven fits assms(2) by (auto simp: decline_fits_def)
  next
    case context_free
    then have "?md' = Some (merge_metadata from_str print ?md [(''nameOnlyCandidates'', json_strings p),
        (''nameOnlyReason'', JString NAME_ONLY_REASON_SELF_CALL_WITHOUT_CLASS_CONTEXT)])" using assms(3) by (auto simp: row_defs)
    from pool [OF this] show ?thesis using context_free fits assms(2) by (auto simp: decline_fits_def)
  qed
qed

text \<open>A self call in a class without bases, to a method nobody declares.\<close>

definition demo_value :: json where
  "demo_value = JObject [(''selfCall'', JBool True), (''enclosingClass'', JString ''A''), (''receiverBinding'', JString ''parameter'')]"

definition demo_declined :: json where
  "demo_declined = JObject [(''selfCall'', JBool True), (''enclosingClass'', JString ''A''), (''receiverBinding'', JString ''parameter''),
     (''nameOnlyCandidates'', JArray []), (''nameOnlyReason'', JString ''self_call_hierarchy_miss'')]"

definition demo_from_str :: json_reader where
  "demo_from_str s = (if s = ''in'' then Some demo_value else if s = ''out'' then Some demo_declined else None)"

definition demo_print :: json_printer where
  "demo_print j = (if j = demo_declined then ''out'' else '''')"

definition demo_self_call :: extracted_edge where
  "demo_self_call = (demo_symbolic_edge ''e'' ''cm'' ''self.stop'' ET_Calls ''python-core:0.2.0'')\<lparr>xe_metadata_json := Some ''in''\<rparr>"

definition demo_row :: categorized_unresolved_edge where
  "demo_row = \<lparr>cu_edge = demo_self_call\<lparr>xe_metadata_json := Some ''out''\<rparr>, cu_category = CallsObjMethodNeedsTypeInfo,
     cu_source_file_uid = Some ''r:a.py''\<rparr>"

lemma demo_declined_row:
  "resolve_target demo_from_str demo_print demo_self_call (demo_index demo_diamond [''a.py'']) None Map.empty = TR_SelfCallHierarchyMiss []"
  "edge_outcome demo_from_str demo_print (demo_index demo_diamond [''a.py'']) demo_self_call (TR_SelfCallHierarchyMiss []) = Inr demo_row"
  "has_mro_candidates demo_from_str (xe_metadata_json demo_self_call) = False"
  by code_simp+

theorem declined_self_call_classified_witness:
  "edge_outcome demo_from_str demo_print (demo_index demo_diamond [''a.py'']) demo_self_call (TR_SelfCallHierarchyMiss []) = Inr demo_row \<and>
   classify_unresolved_edge demo_from_str \<lparr>ce_target_key = ''self.stop'', ce_metadata_json = Some ''out''\<rparr> CallsObjMethodNeedsTypeInfo
     snapshot_signals_empty file_signals_empty = unknown_with SelfCallHierarchyMiss"
proof -
  have "\<forall>j. xe_metadata_json (cu_edge demo_row) = Some (demo_print j) \<longrightarrow> demo_from_str (demo_print j) = Some j"
    by (simp add: demo_row_def demo_print_def demo_from_str_def)
  note classified = declined_self_call_classified [OF demo_declined_row(1) _ demo_declined_row(2) _ this,
      of "unknown_with SelfCallHierarchyMiss" snapshot_signals_empty file_signals_empty]
  show ?thesis using classified demo_declined_row(2,3) by (simp add: demo_row_def demo_self_call_def demo_symbolic_edge_def)
qed

section \<open>Every import passes the include stage\<close>

text \<open>The include resolver is consulted for the imports of every language. A bare TypeScript specifier, which names an
  installed package, binds statically to a file of that name beside the importing file.\<close>

definition demo_bare_import :: extracted_edge where
  "demo_bare_import = (demo_symbolic_edge ''e'' ''n1'' ''chart.js'' ET_Imports ''ts-core:1'')\<lparr>xe_metadata_json := Some ''raw''\<rparr>"

definition demo_shadowed :: "resolver_node list" where
  "demo_shadowed = [demo_symbol ''n1'' ''r:src/a.ts:FILE'' ''a.ts'' (Some ''src/a.ts'') ''FILE'' None ''r:src/a.ts'',
     demo_symbol ''n2'' ''r:src/chart.js:FILE'' ''chart.js'' (Some ''src/chart.js'') ''FILE'' None ''r:src/chart.js'']"

lemma bare_import_binds_to_sibling:
  "resolve_target (\<lambda>_. None) (\<lambda>_. []) demo_bare_import (demo_index demo_shadowed [''src/a.ts'', ''src/chart.js'']) None Map.empty =
     TR_Resolved ''n2''"
  by code_simp

end
