(* ===== verification/Spec2Isabelle.thy ===== *)
theory Spec2Isabelle
  imports Scc_Correct Coordinator_Correct Routing_Correct Invalidation Policy_Runner Gate_Assemble
    Comment_Masker Coherence Live_Path_Correct Live_Stats Live_Fingerprint Live_Compare
    Rollup Unresolved_Correct Boundary_Matcher Conn_Limit Warm_Cache State_Graph Edge_Imports_Correct
begin

text \<open>
  \<^bold>\<open>repo-graph: a verification library for its decision logic.\<close>

  repo-graph indexes a source tree into a graph stored in SQLite, keeps a part of it in memory, answers queries about it
  from a command line and a daemon, and judges a snapshot against declared requirements and quality policies. The Rust
  workspace is \<^verbatim>\<open>src/rust/crates\<close>. This library models the parts of it that decide something; what they read and
  write (databases, processes, syntax trees) is a parameter or is left out.

  \<^bold>\<open>How the parts interact.\<close> A refresh selects files (\<^verbatim>\<open>routing.rs\<close>), plans what to extract, copy and delete
  (\<^verbatim>\<open>invalidation.rs\<close>) and runs under a write or refresh permit of the repository's coordinator (\<^verbatim>\<open>coordinator.rs\<close>); queries
  run under read permits, on connections counted by the limiter (\<^verbatim>\<open>conn_limit.rs\<close>). The extractors hand symbolic edges to the
  resolver (\<^verbatim>\<open>resolver.rs\<close>), which binds them to nodes over an index of the snapshot, with the include resolver, the workspace and
  alias stages and the bindings of imports; resource nodes of state boundaries come from a hook (\<^verbatim>\<open>state_boundary_hook.rs\<close>).
  Certain imports become module edges (\<^verbatim>\<open>orchestrator.rs\<close>); what stays unresolved is classified
  (\<^verbatim>\<open>unresolved_classifier.rs\<close>) from the metadata the resolver wrote. Partitions in the intermediate representation are
  loaded into the live graph, directly or from the warm cache, and its answers carry trust envelopes; the module cycles
  of the live graph are certified complete, or compared with the stored ones. Module edges feed the boundary policy and the rollups.
  A run of the policy runner (\<^verbatim>\<open>runner.rs\<close>) loads policies and measurements, judges them (\<^verbatim>\<open>assess.rs\<close>) and stores one
  assessment per policy; the gate reads requirements, measurements, waivers and assessments through a storage port and reduces them to an exit code.

  \<^bold>\<open>Theories and the code they model.\<close> Shared:

  \<^item> \<^theory_text>\<open>Rust_Prelude\<close>, \<^theory_text>\<open>Rust_Collections\<close>, \<^theory_text>\<open>Rust_Text\<close>: the string, map, set and option operations of the standard library
    the sources use (ASCII byte strings as HOL strings, a hash map as a map with an order of iteration where the code
    iterates it), panics as a value (\<open>outcome\<close>), and shared lemmas. \<^theory_text>\<open>F64\<close>: IEEE binary64 with correctly rounded operations.
    \<^theory_text>\<open>Json\<close>: \<^verbatim>\<open>serde_json::Value\<close>.

  Graphs and concurrency:

  \<^item> \<^theory_text>\<open>Scc\<close>, \<^theory_text>\<open>Digraph\<close>, \<^theory_text>\<open>Scc_Correct\<close>: \<^verbatim>\<open>graph-algorithms/src/scc.rs\<close>. The state of the search is the record \<open>tarjan_state\<close>,
    the call stack a list of frames, each phase of the loop a definition; the loop is a partial function into \<open>option\<close>. The
    graph theory is in a locale over an arbitrary finite graph, interpreted on the adjacency map of the code.
  \<^item> \<^theory_text>\<open>Coordinator\<close>, \<^theory_text>\<open>Coordinator_System\<close>, \<^theory_text>\<open>Coordinator_Correct\<close>: \<^verbatim>\<open>daemon-policy/src\<close>. The locale \<open>permit_machine\<close> is the contract of
    a readers-writer machine; the inductive \<open>execution\<close> interleaves the critical sections of the threads.
  \<^item> \<^theory_text>\<open>Conn_Limit\<close>: \<^verbatim>\<open>daemon-transport/src/conn_limit.rs\<close>, its atomic steps interleaved.

  Indexing:

  \<^item> \<^theory_text>\<open>Routing\<close>, \<^theory_text>\<open>Routing_Correct\<close>: \<^verbatim>\<open>indexer/src/routing.rs\<close> and \<^verbatim>\<open>classification/src/test_path.rs\<close>. \<^theory_text>\<open>Invalidation\<close>:
    \<^verbatim>\<open>indexer/src/invalidation.rs\<close>. \<^theory_text>\<open>Comment_Masker\<close>: \<^verbatim>\<open>detectors/src/comment_masker.rs\<close>.
  \<^item> \<^theory_text>\<open>Include_Resolver\<close>: \<^verbatim>\<open>indexer/src/include_resolver.rs\<close>. \<^theory_text>\<open>Import_Stages\<close>: \<^verbatim>\<open>workspace_import.rs\<close>,
    \<^verbatim>\<open>tsconfig_paths_import.rs\<close>, \<^verbatim>\<open>type_only.rs\<close>.
  \<^item> \<^theory_text>\<open>Edge_Resolver\<close>: \<^verbatim>\<open>indexer/src/resolver.rs\<close>; the index is the record \<open>resolver_index\<close>, the outcome of an edge the datatype
    \<open>target_resolution\<close>, each stage of the import ladder and of the call ladder a definition, and the loop over a batch a fold that
    appends rows. \<^theory_text>\<open>Edge_Index\<close>: the maps of \<^verbatim>\<open>resolver.rs\<close> over the file list and the parts of \<^verbatim>\<open>indexer/src/orchestrator.rs\<close> that build the
    index, the directory modules and the module edges. \<^theory_text>\<open>Edge_Resolver_Correct\<close>, \<^theory_text>\<open>Edge_Module_Graph\<close>,
    \<^theory_text>\<open>Edge_Imports_Correct\<close>: their properties; the locale \<open>indexed_nodes\<close> is what the stages rely on, interpreted on the index the
    orchestrator builds.
  \<^item> \<^theory_text>\<open>State_Bindings\<close>: \<^verbatim>\<open>state-bindings/src\<close>. \<^theory_text>\<open>State_Emitter\<close>: \<^verbatim>\<open>state-extractor/src\<close>. \<^theory_text>\<open>State_Graph\<close>:
    \<^verbatim>\<open>repo-index/src/state_boundary_hook.rs\<close>.

  Live graph:

  \<^item> \<^theory_text>\<open>Repo_Ir\<close>: \<^verbatim>\<open>repo-graph-ir\<close>. \<^theory_text>\<open>Trust_Model\<close>: \<^verbatim>\<open>repo-graph-trust-model\<close>. \<^theory_text>\<open>Coherence\<close>: \<^verbatim>\<open>repo-graph-coherence\<close>.
    \<^theory_text>\<open>Import_Resolver\<close>: \<^verbatim>\<open>repo-graph-import-resolver\<close>.
  \<^item> \<^theory_text>\<open>Live_Graph\<close>, \<^theory_text>\<open>Live_Queries\<close>, \<^theory_text>\<open>Live_Path\<close>, \<^theory_text>\<open>Live_Path_Correct\<close>, \<^theory_text>\<open>Live_Cycles\<close>, \<^theory_text>\<open>Live_Stats\<close>, \<^theory_text>\<open>Live_Cert\<close>,
    \<^theory_text>\<open>Live_Fingerprint\<close>, \<^theory_text>\<open>Live_Compare\<close>: \<^verbatim>\<open>repo-graph-livegraph/src\<close>, its operations on partitions, the queries, the
    breadth-first path search, cycles and statistics, the completeness certificate with its fingerprint, and the comparison of
    cycles.
  \<^item> \<^theory_text>\<open>Cache_Dto\<close>, \<^theory_text>\<open>Warm_Cache\<close>: \<^verbatim>\<open>repo-graph-warm-cache\<close>, \<^verbatim>\<open>repo-graph-warm-cache-feed\<close> and \<^verbatim>\<open>repo-graph-livegraph-feed\<close>. A
    write is a list of system calls over a small file system, of which any may fail and after any of which a crash may happen; data
    that was not synchronized is arbitrary after a crash, and so is whether a directory entry was made.

  Classification and judgement:

  \<^item> \<^theory_text>\<open>Import_Partition\<close>, \<^theory_text>\<open>Module_Edges\<close>, \<^theory_text>\<open>Boundary_Policy\<close>, \<^theory_text>\<open>Rollup\<close>, \<^theory_text>\<open>Unresolved\<close>, \<^theory_text>\<open>Unresolved_Correct\<close>,
    \<^theory_text>\<open>Boundary_Matcher\<close>: the files of \<^verbatim>\<open>classification/src\<close> of these names.
  \<^item> \<^theory_text>\<open>Quality_Policy\<close>: the policy types of \<^verbatim>\<open>storage/src/types.rs\<close> and \<^verbatim>\<open>quality-policy/src/lib.rs\<close>. \<^theory_text>\<open>Assess\<close>:
    \<^verbatim>\<open>quality-policy/src/assess.rs\<close>; the locale \<open>policy_evaluator\<close> is what the four evaluators share.
    \<^theory_text>\<open>Policy_Runner\<close>: \<^verbatim>\<open>quality-policy-runner/src\<close> over the port of \<^verbatim>\<open>storage/src/quality_policy_port.rs\<close>, a record of
    functions on a store of any type. \<^theory_text>\<open>Gate\<close>, \<^theory_text>\<open>Gate_Correct\<close>,
    \<^theory_text>\<open>Gate_Assemble\<close>: \<^verbatim>\<open>gate/src\<close>; the storage port is a record of functions.

  \<^bold>\<open>What is shown.\<close> Component search (C1 to C3): it always returns, its components are the classes of mutual reachability in
  reverse topological order, cancellation is transparent. Coordinator (C4 to C7): refinement of the permit contract, mutual
  exclusion and absence of panics, first-come-first-served writers, absence of deadlock. Routing and invalidation (C8 to C10): the glob
  matcher against its pattern language, the plan against a declarative classification, freshness of what is copied. Resolver (C11 to
  C15, C38): a batch accounts for every edge and binds only to nodes of the snapshot, self calls follow the breadth-first order of the
  class hierarchy, the module graph is exactly the linked directories with the aggregated stamps, the resolver and the
  classifier agree on declined self calls, Java imports and includes are found exactly. Policies and gate (C16 to C20): verdicts against
  a reference, totality and the one panic, waivers only excuse, obligations are judged on their own evidence, a run of the
  policy runner never panics, justifies its errors and stores the reference verdicts. Live graph (C21 to C28): every slot is
  what the history of its partition determines, soundness of the queries, shortest paths, cycles, when the certificate permits an
  answer, statistics, no false exactness in folded envelopes, the constructors against the documented invariants. Classification (C29 to
  C33): module edges with every diagnostic and remainder count, dependency attribution within an ecosystem, verdicts on unresolved edges, boundary links and rollups against declarative
  counts. The rest (C34 to C37, C39, C40): the connection limit in every interleaving, the comment masker, the warm
  cache (a warm start equals a cold one, only intact files are accepted, writes are crash safe), stable keys identify resources, the graph of state boundaries.

  \<^bold>\<open>Where the code and its documents part.\<close> A property that would be false, or would contradict a document of the repository, on
  some input excludes that input in its hypotheses, and a lemma beside it shows what happens there:
  \<open>self_import_not_reported\<close> (C24), \<open>external_package_accounted\<close> (C25), \<open>unrelated_token\<close> (C28), \<open>literal_names_folded\<close> (C30),
  \<open>shared_path_violation\<close> and \<open>repeated_ownership_diverges\<close> (C33), \<open>repeated_root_ambiguous\<close> and \<open>added_root_flips\<close> (C38).

  \<^bold>\<open>Bounds.\<close> No definition has fuel: loops are structural, or have a measure, or return an \<open>option\<close> and are proved to
  return. The hierarchy walk stops at the code's own \<open>DEPTH_CAP\<close>. Statements about executions of the coordinator bound the number of
  threads by $2^{32} - 1$ (the width of the reader count) and the number of events by $2^{64} - 2$ (the width of a ticket, which
  the code increments without a check); beyond them the counters wrap. Counters of type \<^verbatim>\<open>usize\<close> in the other components count
  elements of a list held in memory and are natural numbers.

  \<^bold>\<open>What is not modelled.\<close> The extractors (traversals of third-party syntax trees), the SQL of the storage layer and the phases
  of the orchestrator and of \<^verbatim>\<open>repo-index\<close> that only read and write it, the language servers and the SCIP indexers (external
  processes), sockets, the command line and its output formats, the trust report and the scorers over stored rows. The texts of
  JSON and TOML documents, hashes, time stamps and fresh identifiers are parameters. Non-ASCII letters in identifiers, log messages and the
  time at which a timeout fires are left out: a timeout may fire at any wait.
\<close>

section \<open>Properties across components\<close>


end
